(* ===== verification/Issue_Files.thy ===== *)
theory Issue_Files
  imports Prelude
begin

text \<open>
  Issue files (\<^verbatim>\<open>local_issue_files.py\<close>): the text layer, which finds the fenced frontmatter
  block and rewrites one key of it in place, and the directory scan, which loads every issue
  file and excludes the unusable ones.

  PyYAML is not part of the repository. The text layer handles only the lines of the block; the
  scan takes what \<^verbatim>\<open>yaml.safe_load\<close> returned for a file as part of the directory's contents.
\<close>

section \<open>The frontmatter block\<close>

text \<open>\<^verbatim>\<open>[ \t]\<close>, and \<^verbatim>\<open>\r?\n\<close> at the start of a text.\<close>

definition blank :: "char \<Rightarrow> bool" where
  "blank c \<longleftrightarrow> c = CHR 0x20 \<or> c = CHR 0x09"

fun match_newline :: "string \<Rightarrow> (string \<times> string) option" where
  "match_newline [] = None"
| "match_newline (c # r) =
     (if c = CHR 0x0A then Some ([CHR 0x0A], r)
      else if c = CHR 0x0D then
        (case r of [] \<Rightarrow> None
         | d # r' \<Rightarrow> if d = CHR 0x0A then Some ([CHR 0x0D, CHR 0x0A], r') else None)
      else None)"

text \<open>\<^verbatim>\<open>---[ \t]*(?:\r?\n|\Z)\<close>, giving what follows.\<close>

definition fence_line :: "string \<Rightarrow> string option" where
  "fence_line s =
     (case strip_prefix ''---'' s of
        None \<Rightarrow> None
      | Some r \<Rightarrow>
          (case dropWhile blank r of
             [] \<Rightarrow> Some []
           | c # cs \<Rightarrow> map_option snd (match_newline (c # cs))))"

text \<open>\<^verbatim>\<open>(?:\r?\n)---[ \t]*(?:\r?\n|\Z)\<close>.\<close>

definition close_fence :: "string \<Rightarrow> string option" where
  "close_fence s = (case match_newline s of None \<Rightarrow> None | Some (_, r) \<Rightarrow> fence_line r)"

text \<open>\<^verbatim>\<open>\A---[ \t]*(?P<nl>\r?\n)\<close>: the newline convention and the text after it.\<close>

definition open_fence :: "string \<Rightarrow> (string \<times> string) option" where
  "open_fence s =
     (case strip_prefix ''---'' s of
        None \<Rightarrow> None | Some r \<Rightarrow> match_newline (dropWhile blank r))"

text \<open>The lazy \<^verbatim>\<open>(?P<fm>.*?)\<close>: the shortest block a closing fence follows.\<close>

fun find_close :: "string \<Rightarrow> (string \<times> string \<times> string) option" where
  "find_close [] = None"
| "find_close (c # cs) =
     (case close_fence (c # cs) of
        Some rest \<Rightarrow> Some ([], c # cs, rest)
      | None \<Rightarrow> map_option (\<lambda>(fm, tail, rest). (c # fm, tail, rest)) (find_close cs))"

text \<open>
  A match of \<^verbatim>\<open>_FRONTMATTER_RE\<close>: \<open>fm_head\<close> is the text before the group \<^verbatim>\<open>fm\<close>, \<open>fm_tail\<close> the text
  from its end on, \<open>fm_rest\<close> the text after the whole match.
\<close>

record frontmatter =
  fm_head :: string
  fm_nl :: string
  fm_block :: string
  fm_tail :: string
  fm_rest :: string

definition match_frontmatter :: "string \<Rightarrow> frontmatter option" where
  "match_frontmatter txt =
     (case open_fence txt of
        None \<Rightarrow> None
      | Some (nl, r) \<Rightarrow>
          (case find_close r of
             None \<Rightarrow> None
           | Some (fm, tail, rest) \<Rightarrow>
               Some \<lparr> fm_head = take (length txt - length r) txt, fm_nl = nl, fm_block = fm,
                      fm_tail = tail, fm_rest = rest \<rparr>))"

section \<open>Rewriting one key\<close>

text \<open>\<^verbatim>\<open>^{key}[ \t]*:\<close>.\<close>

definition key_line :: "string \<Rightarrow> string \<Rightarrow> bool" where
  "key_line key line =
     (case strip_prefix key line of
        None \<Rightarrow> False
      | Some r \<Rightarrow> (case dropWhile blank r of [] \<Rightarrow> False | c # _ \<Rightarrow> c = CHR 0x3A))"

text \<open>\<^verbatim>\<open>^(?:[ \t]+\S|-[ \t]|-$|[ \t]*$)\<close>; the dollar sign also matches before a final newline.\<close>

definition at_end :: "string \<Rightarrow> bool" where
  "at_end s \<longleftrightarrow> s = [] \<or> s = [CHR 0x0A]"

definition continuation :: "string \<Rightarrow> bool" where
  "continuation line =
     (let rest = dropWhile blank line
      in (line \<noteq> [] \<and> blank (hd line) \<and> rest \<noteq> [] \<and> \<not> is_space (hd rest)) \<or>
         (line \<noteq> [] \<and> hd line = CHR 0x2D \<and>
            ((tl line \<noteq> [] \<and> blank (hd (tl line))) \<or> at_end (tl line))) \<or>
         at_end rest)"

text \<open>
  The loops over the lines after the key: \<open>value_block\<close> is \<^verbatim>\<open>lines[start + 1:end]\<close> after the
  first loop; the second gives its trailing blank lines back to the layout.
\<close>

definition blank_line :: "string \<Rightarrow> bool" where
  "blank_line l \<longleftrightarrow> strip l = []"

definition after_value :: "string list \<Rightarrow> string list" where
  "after_value ls =
     rev (takeWhile blank_line (rev (takeWhile continuation ls))) @ dropWhile continuation ls"

fun rewrite_lines :: "string \<Rightarrow> string \<Rightarrow> string list \<Rightarrow> string list" where
  "rewrite_lines key new_line [] = [new_line]"
| "rewrite_lines key new_line (l # ls) =
     (if key_line key l then new_line # after_value ls
      else l # rewrite_lines key new_line ls)"

definition rewrite_frontmatter_key :: "string \<Rightarrow> string \<Rightarrow> string \<Rightarrow> string option" where
  "rewrite_frontmatter_key txt key rendered =
     (case match_frontmatter txt of
        None \<Rightarrow> None
      | Some m \<Rightarrow>
          Some (fm_head m
                @ join (fm_nl m) (rewrite_lines key (key @ '': '' @ rendered)
                                    (split_on (fm_nl m) (fm_block m)))
                @ fm_tail m))"

section \<open>What a rewrite keeps\<close>

lemma fence_line_Nil [simp]: "fence_line [] = None"
  by (simp add: fence_line_def)

lemma close_fence_Nil [simp]: "close_fence [] = None"
  by (simp add: close_fence_def)

definition quiet :: "string \<Rightarrow> string \<Rightarrow> bool" where
  "quiet fm tail \<longleftrightarrow> (\<forall>a b. fm = a @ b \<longrightarrow> b \<noteq> [] \<longrightarrow> close_fence (b @ tail) = None)"

lemma quiet_Cons: "quiet (c # fm) tail \<longleftrightarrow> close_fence (c # fm @ tail) = None \<and> quiet fm tail"
proof
  assume q: "quiet (c # fm) tail"
  have "close_fence (b @ tail) = None" if "fm = a @ b" "b \<noteq> []" for a b
    using q that unfolding quiet_def by (metis append_Cons)
  moreover have "close_fence (c # fm @ tail) = None"
    using q unfolding quiet_def by (metis append_Cons append_Nil list.distinct(1))
  ultimately show "close_fence (c # fm @ tail) = None \<and> quiet fm tail"
    by (auto simp: quiet_def)
next
  assume "close_fence (c # fm @ tail) = None \<and> quiet fm tail"
  then show "quiet (c # fm) tail"
    by (auto simp: quiet_def Cons_eq_append_conv)
qed

lemma find_close_Some:
  "find_close s = Some (fm, tail, rest) \<longleftrightarrow>
     s = fm @ tail \<and> close_fence tail = Some rest \<and> quiet fm tail"
proof (induction s arbitrary: fm)
  case (Cons c cs)
  show ?case
  proof (cases fm)
    case Nil
    then show ?thesis
      by (auto simp: quiet_def split: option.splits)
  next
    case (Cons d fm')
    then show ?thesis
      using Cons.IH [of fm']
      by (auto simp: quiet_Cons split: option.splits)
  qed
qed auto

lemma match_newline_Some:
  "match_newline s = Some (nl, r) \<longleftrightarrow>
     s = nl @ r \<and> (nl = [CHR 0x0A] \<or> nl = [CHR 0x0D, CHR 0x0A])"
  by (cases s rule: match_newline.cases) (auto split: list.splits)

lemma open_fence_keep:
  assumes "open_fence txt = Some (nl, r)"
  shows "\<exists>h. txt = h @ r \<and> (\<forall>r'. open_fence (h @ r') = Some (nl, r'))"
proof -
  from assms obtain q where q: "strip_prefix ''---'' txt = Some q"
      "match_newline (dropWhile blank q) = Some (nl, r)"
    by (auto simp: open_fence_def split: option.splits)
  let ?h = "''---'' @ takeWhile blank q @ nl"
  have nl: "nl = [CHR 0x0A] \<or> nl = [CHR 0x0D, CHR 0x0A]" and d: "dropWhile blank q = nl @ r"
    using q(2) by (auto simp: match_newline_Some)
  have "txt = ?h @ r"
    using q(1) d by (simp add: strip_prefix_Some flip: d)
  moreover have "dropWhile blank (takeWhile blank q @ nl @ r') = nl @ r'" for r'
    using nl by (subst dropWhile_append2) (auto simp: blank_def dest: set_takeWhileD)
  then have "open_fence (?h @ r') = Some (nl, r')" for r'
    using nl by (auto simp: open_fence_def match_newline_Some)
  ultimately show ?thesis
    by blast
qed

lemma match_frontmatter_Some:
  assumes "match_frontmatter txt = Some m"
  shows "txt = fm_head m @ fm_block m @ fm_tail m"
    and "close_fence (fm_tail m) = Some (fm_rest m)"
    and "quiet (fm_block m) (fm_tail m)"
    and "open_fence (fm_head m @ r) = Some (fm_nl m, r)"
    and "fm_nl m = [CHR 0x0A] \<or> fm_nl m = [CHR 0x0D, CHR 0x0A]"
proof -
  from assms obtain r0 where o: "open_fence txt = Some (fm_nl m, r0)"
      and f: "find_close r0 = Some (fm_block m, fm_tail m, fm_rest m)"
      and h: "fm_head m = take (length txt - length r0) txt"
    by (auto simp: match_frontmatter_def split: option.splits)
  from open_fence_keep [OF o] obtain h' where h': "txt = h' @ r0"
      "\<forall>r'. open_fence (h' @ r') = Some (fm_nl m, r')"
    by blast
  then have "h' = fm_head m"
    using h by simp
  with h' f show "txt = fm_head m @ fm_block m @ fm_tail m"
    and "close_fence (fm_tail m) = Some (fm_rest m)"
    and "quiet (fm_block m) (fm_tail m)"
    and "open_fence (fm_head m @ r) = Some (fm_nl m, r)"
    by (auto simp: find_close_Some)
  from o show "fm_nl m = [CHR 0x0A] \<or> fm_nl m = [CHR 0x0D, CHR 0x0A]"
    by (auto simp: open_fence_def match_newline_Some split: option.splits)
qed

lemma match_frontmatter_intro:
  assumes "\<And>r. open_fence (h @ r) = Some (nl, r)" and "quiet fm tail"
    and "close_fence tail = Some rest"
  shows "match_frontmatter (h @ fm @ tail) =
    Some \<lparr> fm_head = h, fm_nl = nl, fm_block = fm, fm_tail = tail, fm_rest = rest \<rparr>"
  using assms find_close_Some [of "fm @ tail" fm tail rest]
  by (simp add: match_frontmatter_def)

text \<open>The shape of a rewritten block, as lines and as text.\<close>

definition lines_before :: "'a list \<Rightarrow> 'a list list \<Rightarrow> 'a list" where
  "lines_before nl ls = concat (map (\<lambda>l. l @ nl) ls)"

definition lines_after :: "'a list \<Rightarrow> 'a list list \<Rightarrow> 'a list" where
  "lines_after nl ls = (if ls = [] then [] else nl @ join nl ls)"

lemma join_append: "xs \<noteq> [] \<Longrightarrow> join nl (xs @ ys) = join nl xs @ lines_after nl ys"
proof (induction xs rule: induct_list012)
  case (2 x)
  then show ?case
    by (cases ys) (auto simp: lines_after_def join_Cons)
qed auto

lemma join_split3:
  "xs \<noteq> [] \<Longrightarrow> join nl (pre @ xs @ ys) = lines_before nl pre @ join nl xs @ lines_after nl ys"
proof (induction pre)
  case Nil
  then show ?case
    by (simp add: lines_before_def join_append)
next
  case (Cons p pre)
  then show ?case
    by (simp add: join_Cons lines_before_def)
qed

lemma after_value_suffix: "\<exists>mid. ls = mid @ after_value ls"
proof -
  have "takeWhile continuation ls =
      rev (dropWhile blank_line (rev (takeWhile continuation ls))) @
      rev (takeWhile blank_line (rev (takeWhile continuation ls)))"
    by (metis rev_append rev_rev_ident takeWhile_dropWhile_id)
  then show ?thesis
    unfolding after_value_def by (metis append.assoc takeWhile_dropWhile_id)
qed

lemma rewrite_lines_shape:
  obtains (appended) "\<forall>l \<in> set ls. \<not> key_line key l" "rewrite_lines key N ls = ls @ [N]"
  | (replaced) pre k mid post where "ls = pre @ (k # mid) @ post"
      "\<forall>l \<in> set pre. \<not> key_line key l" "key_line key k" "post = after_value (mid @ post)"
      "rewrite_lines key N ls = pre @ [N] @ post"
proof (induction ls arbitrary: thesis)
  case (Cons l ls)
  show ?case
  proof (cases "key_line key l")
    case True
    obtain mid where "ls = mid @ after_value ls"
      using after_value_suffix by blast
    with True Cons.prems(2) [of "[]" l mid "after_value ls"] show ?thesis
      by simp
  next
    case False
    show ?thesis
    proof (rule Cons.IH)
      assume "\<forall>l \<in> set ls. \<not> key_line key l" "rewrite_lines key N ls = ls @ [N]"
      with False show ?thesis
        by (intro Cons.prems(1)) auto
    next
      fix pre k mid post
      assume "ls = pre @ (k # mid) @ post" "\<forall>l \<in> set pre. \<not> key_line key l"
        "key_line key k" "post = after_value (mid @ post)"
        "rewrite_lines key N ls = pre @ [N] @ post"
      with False show ?thesis
        by (intro Cons.prems(2) [of "l # pre" k mid post]) auto
    qed
  qed
qed simp

text \<open>
  Whether a fence starts at a newline depends only on the line that follows it: what comes
  after the end of that line does not matter.
\<close>

lemma dropWhile_blank_stop:
  "CHR 0x0A \<in> set q \<Longrightarrow> dropWhile blank (q @ X) = dropWhile blank q @ X \<and> CHR 0x0A \<in> set (dropWhile blank q)"
  by (induction q) (auto simp: blank_def)

lemma match_newline_stop:
  "CHR 0x0A \<in> set q \<Longrightarrow>
   match_newline (q @ X) = map_option (\<lambda>(nl, r). (nl, r @ X)) (match_newline q)"
  by (cases q; cases "tl q") auto

lemma strip_prefix_dashes_stop:
  "CHR 0x0A \<in> set q \<Longrightarrow> set d \<subseteq> {CHR 0x2D} \<Longrightarrow>
   strip_prefix d (q @ X) = map_option (\<lambda>r. r @ X) (strip_prefix d q) \<and>
   (\<forall>r. strip_prefix d q = Some r \<longrightarrow> CHR 0x0A \<in> set r)"
proof (induction d arbitrary: q)
  case (Cons c d)
  then show ?case
    by (cases q) (auto split: if_splits)
qed auto

lemma fence_line_stop:
  assumes "CHR 0x0A \<in> set q"
  shows "fence_line (q @ X) = None \<longleftrightarrow> fence_line (q @ Y) = None"
proof -
  have "fence_line (q @ Z) = None \<longleftrightarrow> fence_line q = None" for Z
  proof (cases "strip_prefix ''---'' q")
    case None
    with strip_prefix_dashes_stop [OF assms, of "''---''" Z] show ?thesis
      by (simp add: fence_line_def)
  next
    case (Some r)
    with strip_prefix_dashes_stop [OF assms, of "''---''" Z]
    have r: "strip_prefix ''---'' (q @ Z) = Some (r @ Z)" "CHR 0x0A \<in> set r"
      by auto
    from dropWhile_blank_stop [OF r(2), of Z]
    have d: "dropWhile blank (r @ Z) = dropWhile blank r @ Z" "CHR 0x0A \<in> set (dropWhile blank r)"
      by auto
    show ?thesis
      using Some r(1) d match_newline_stop [OF d(2), of Z]
      by (cases "dropWhile blank r") (auto simp: fence_line_def)
  qed
  then show ?thesis
    by blast
qed

lemma close_fence_stop:
  assumes "fence_line X = None" and "close_fence (x @ [CHR 0x0A] @ Y) = None"
  shows "close_fence (x @ [CHR 0x0A] @ X) = None"
proof (cases "match_newline (x @ [CHR 0x0A])")
  case None
  then show ?thesis
    using match_newline_stop [of "x @ [CHR 0x0A]" X] by (simp add: close_fence_def)
next
  case (Some p)
  then obtain nl r where p: "match_newline (x @ [CHR 0x0A]) = Some (nl, r)"
    by (cases p) auto
  then have m: "match_newline (x @ [CHR 0x0A] @ Z) = Some (nl, r @ Z)" for Z
    using match_newline_stop [of "x @ [CHR 0x0A]" Z] by simp
  from p have x: "x @ [CHR 0x0A] = nl @ r"
    by (simp add: match_newline_Some)
  show ?thesis
  proof (cases "r = []")
    case True
    then show ?thesis
      using m assms(1) by (simp add: close_fence_def)
  next
    case False
    then have "CHR 0x0A \<in> set r"
      using x by (metis last_appendR last_in_set last_snoc)
    with m assms(2) fence_line_stop [of r X Y] show ?thesis
      by (simp add: close_fence_def)
  qed
qed

lemma quiet_Nil [simp]: "quiet [] tail"
  by (simp add: quiet_def)

lemma quiet_append: "quiet (x @ y) tail \<longleftrightarrow> quiet x (y @ tail) \<and> quiet y tail"
  by (induction x) (auto simp: quiet_Cons)

definition newline_chars :: "string" where
  "newline_chars = [CHR 0x0A, CHR 0x0D]"

lemma quiet_no_newline: "set N \<inter> set newline_chars = {} \<Longrightarrow> quiet N Z"
  by (induction N) (auto simp: quiet_Cons close_fence_def newline_chars_def)

lemma quiet_before:
  assumes "quiet (p @ [CHR 0x0A]) Y" and "fence_line X = None"
  shows "quiet (p @ [CHR 0x0A]) X"
  unfolding quiet_def
proof (intro allI impI)
  fix a b
  assume ab: "p @ [CHR 0x0A] = a @ b" "b \<noteq> []"
  then obtain x where "b = x @ [CHR 0x0A]"
    by (metis append_butlast_last_id last_appendR last_snoc)
  moreover have "close_fence (b @ Y) = None"
    using assms(1) ab by (auto simp: quiet_def)
  ultimately show "close_fence (b @ X) = None"
    using close_fence_stop [OF assms(2), of x Y] by simp
qed

lemma lines_before_cases:
  assumes "nl = [CHR 0x0A] \<or> nl = [CHR 0x0D, CHR 0x0A]"
  obtains "lines_before nl pre = []" | p where "lines_before nl pre = p @ [CHR 0x0A]"
proof (cases pre rule: rev_cases)
  case Nil
  then show thesis
    using that(1) by (simp add: lines_before_def)
next
  case (snoc ys y)
  then have "lines_before nl pre = (lines_before nl ys @ y @ butlast nl) @ [CHR 0x0A]"
    using assms by (auto simp: lines_before_def)
  then show thesis
    using that(2) by blast
qed

text \<open>A line that a rewrite may write: on one line, and not opening like a fence.\<close>

definition plain_line :: "string \<Rightarrow> bool" where
  "plain_line N \<longleftrightarrow> N \<noteq> [] \<and> hd N \<noteq> CHR 0x2D \<and> set N \<inter> set newline_chars = {}"

lemma fence_line_plain: "plain_line N \<Longrightarrow> fence_line (N @ Z) = None"
  by (cases N) (auto simp: plain_line_def fence_line_def)

lemma quiet_rewrite:
  assumes nl: "nl = [CHR 0x0A] \<or> nl = [CHR 0x0D, CHR 0x0A]" and N: "plain_line N"
    and q: "quiet (join nl ls) tail" and ls: "ls \<noteq> []"
    and tail: "\<exists>t. tail = nl @ t"
  shows "quiet (join nl (rewrite_lines key N ls)) tail"
proof (cases rule: rewrite_lines_shape [of ls key N])
  case appended
  from tail obtain t where t: "tail = nl @ t"
    by blast
  have b: "quiet (p @ [CHR 0x0A]) (N @ tail)"
    if "quiet p ([CHR 0x0A] @ t)" for p
  proof -
    have "close_fence (b @ [CHR 0x0A] @ N @ tail) = None" if "p = a @ b" "b \<noteq> []" for a b
      using that \<open>quiet p _\<close> close_fence_stop [OF fence_line_plain [OF N], of b t tail]
      by (simp add: quiet_def)
    then have "quiet p ([CHR 0x0A] @ N @ tail)"
      by (simp add: quiet_def)
    moreover have "close_fence ([CHR 0x0A] @ N @ tail) = None"
      using fence_line_plain [OF N] by (simp add: close_fence_def)
    ultimately show ?thesis
      by (simp add: quiet_append quiet_Cons)
  qed
  have "quiet (join nl ls @ nl) (N @ tail)"
    using nl
  proof
    assume "nl = [CHR 0x0A]"
    with b [of "join nl ls"] q t show ?thesis
      by simp
  next
    assume n: "nl = [CHR 0x0D, CHR 0x0A]"
    then have a: "quiet (join nl ls) ([CHR 0x0D, CHR 0x0A] @ t)"
      using q t by simp
    have "close_fence (b @ [CHR 0x0D] @ [CHR 0x0A] @ N @ tail) = None"
      if "join nl ls = a @ b" "b \<noteq> []" for a b
      using that a close_fence_stop [OF fence_line_plain [OF N], of "b @ [CHR 0x0D]" t tail]
      by (simp add: quiet_def)
    then have "quiet (join nl ls) ([CHR 0x0D, CHR 0x0A] @ N @ tail)"
      by (simp add: quiet_def)
    moreover have "quiet nl (N @ tail)"
      using fence_line_plain [OF N] n by (simp add: quiet_Cons close_fence_def)
    ultimately show ?thesis
      using n by (simp add: quiet_append)
  qed
  then show ?thesis
    using appended ls N quiet_no_newline [of N tail]
    by (simp add: join_append lines_after_def quiet_append plain_line_def)
next
  case (replaced pre k mid post)
  have old: "quiet (lines_before nl pre) (join nl (k # mid) @ lines_after nl post @ tail)"
      "quiet (lines_after nl post) tail"
    using q replaced(1) join_split3 [of "k # mid" nl pre post] by (simp_all add: quiet_append)
  have "quiet (lines_before nl pre) (N @ lines_after nl post @ tail)"
    using old(1) quiet_before [OF _ fence_line_plain [OF N]]
    by (cases rule: lines_before_cases [OF nl, of pre]) auto
  moreover have "quiet N (lines_after nl post @ tail)"
    using N by (intro quiet_no_newline) (simp add: plain_line_def)
  ultimately show ?thesis
    using replaced(5) old(2) join_split3 [of "[N]" nl pre post] by (simp add: quiet_append)
qed

lemma rewrite_reparse:
  assumes "match_frontmatter txt = Some m" and "plain_line (key @ '': '' @ rendered)"
    and "\<exists>t. fm_tail m = fm_nl m @ t"
  shows "\<exists>txt'. rewrite_frontmatter_key txt key rendered = Some txt' \<and>
     match_frontmatter txt' =
       Some (m\<lparr>fm_block := join (fm_nl m) (rewrite_lines key (key @ '': '' @ rendered)
                                       (split_on (fm_nl m) (fm_block m)))\<rparr>)"
proof -
  note m = match_frontmatter_Some [OF assms(1)]
  let ?ls = "split_on (fm_nl m) (fm_block m)"
  have "join (fm_nl m) ?ls = fm_block m"
    using m(5) by (intro join_split_on) auto
  then have "quiet (join (fm_nl m) (rewrite_lines key (key @ '': '' @ rendered) ?ls)) (fm_tail m)"
    using m(3,5) assms(2,3) by (intro quiet_rewrite) auto
  from match_frontmatter_intro [OF m(4) this m(2)] show ?thesis
    using assms(1) by (simp add: rewrite_frontmatter_key_def)
qed

section \<open>Reading back and rewriting twice\<close>

lemma key_line_new: "key_line key (key @ '': '' @ v)"
  by (simp add: key_line_def blank_def)

lemma takeWhile_dropWhile_Nil: "takeWhile P (dropWhile P xs) = []"
  by (induction xs) auto

lemma after_value_Nil [simp]: "after_value [] = []"
  by (simp add: after_value_def)

lemma after_value_idem: "after_value (after_value ls) = after_value ls"
proof -
  let ?T = "rev (takeWhile blank_line (rev (takeWhile continuation ls)))"
  let ?D = "dropWhile continuation ls"
  have c: "\<forall>l \<in> set ?T. continuation l"
    by (auto dest!: set_takeWhileD)
  have b: "\<forall>l \<in> set ?T. blank_line l"
    by (auto dest!: set_takeWhileD)
  have "takeWhile continuation (?T @ ?D) = ?T"
    by (subst takeWhile_append2 [OF c [rule_format]]) (simp_all add: takeWhile_dropWhile_Nil)
  moreover have "dropWhile continuation (?T @ ?D) = ?D"
    by (subst dropWhile_append2 [OF c [rule_format]]) simp_all
  moreover have "takeWhile blank_line (rev ?T) = rev ?T"
    using b by (simp add: takeWhile_eq_all_conv)
  ultimately show ?thesis
    by (simp add: after_value_def)
qed

lemma rewrite_lines_idem:
  "key_line key N \<Longrightarrow> rewrite_lines key N (rewrite_lines key N ls) = rewrite_lines key N ls"
  by (induction ls) (auto simp: after_value_idem)

lemma rewrite_lines_read:
  "key_line key N \<Longrightarrow> find (key_line key) (rewrite_lines key N ls) = Some N"
  by (induction ls) auto

text \<open>Splitting what was joined from lines that do not hold the separator.\<close>

lemma split_on_plain: "\<not> contains sep w \<Longrightarrow> split_on sep w = [w]"
  by (induction w) auto

lemma contains_split_on: "sep \<noteq> [] \<Longrightarrow> l \<in> set (split_on sep s) \<Longrightarrow> \<not> contains sep l"
proof (induction sep s arbitrary: l rule: split_on.induct)
  case (2 sep c cs)
  show ?case
  proof (cases "strip_prefix sep (c # cs)")
    case None
    obtain w ws where w: "split_on sep cs = w # ws"
      by (cases "split_on sep cs") auto
    then have cs: "cs = w @ lines_after sep ws"
      using join_split_on [OF 2(3), of cs] join_append [of "[w]" sep ws] by simp
    have "strip_prefix sep (c # w) = None"
    proof (rule ccontr)
      assume "strip_prefix sep (c # w) \<noteq> None"
      then obtain r where "c # w = sep @ r"
        by (auto simp: strip_prefix_Some)
      then have "c # cs = sep @ r @ lines_after sep ws"
        using cs by (metis append.assoc append_Cons)
      with None show False
        by (metis option.distinct(1) strip_prefix_append)
    qed
    moreover have "\<not> contains sep w"
      using 2(1) [OF None 2(3), of w] w by simp
    ultimately have "\<not> contains sep (c # w)"
      by simp
    moreover have "\<not> contains sep v" if "v \<in> set ws" for v
      using 2(1) [OF None 2(3), of v] w that by simp
    ultimately show ?thesis
      using None w 2(4) by auto
  next
    case (Some rest)
    then have "length rest < length (c # cs)"
      using 2(3) by (auto simp: strip_prefix_Some dest: arg_cong [of _ _ length])
    with Some 2 show ?thesis
      by auto
  qed
qed simp

lemma split_on_join_step:
  assumes nl: "nl = [CHR 0x0A] \<or> nl = [CHR 0x0D, CHR 0x0A]" and "\<not> contains nl w"
  shows "split_on nl (w @ nl @ s) = w # split_on nl s"
  using assms(2)
proof (induction w)
  case Nil
  from nl show ?case
    by auto
next
  case (Cons c w)
  have "strip_prefix nl (c # w @ nl @ s) = None"
    using nl Cons.prems by (cases w) auto
  with Cons show ?case
    by simp
qed

lemma split_on_join:
  assumes "nl = [CHR 0x0A] \<or> nl = [CHR 0x0D, CHR 0x0A]"
  shows "ls \<noteq> [] \<Longrightarrow> \<forall>l \<in> set ls. \<not> contains nl l \<Longrightarrow> split_on nl (join nl ls) = ls"
  by (induction ls rule: induct_list012)
    (simp_all add: split_on_plain split_on_join_step [OF assms])

lemma rewrite_lines_subset: "set (rewrite_lines key N ls) \<subseteq> insert N (set ls)"
proof (induction ls)
  case (Cons l ls)
  obtain mid where "ls = mid @ after_value ls"
    using after_value_suffix by blast
  then have "set (after_value ls) \<subseteq> set ls"
    by (metis Un_iff set_append subsetI)
  with Cons show ?case
    by auto
qed simp

lemma rewrite_lines_nonempty [simp]: "rewrite_lines key N ls \<noteq> []"
  by (cases ls) auto

lemma plain_line_contains:
  "plain_line N \<Longrightarrow> nl = [CHR 0x0A] \<or> nl = [CHR 0x0D, CHR 0x0A] \<Longrightarrow> \<not> contains nl N"
  by (auto simp: contains_iff plain_line_def newline_chars_def)

lemma split_rewritten:
  assumes nl: "nl = [CHR 0x0A] \<or> nl = [CHR 0x0D, CHR 0x0A]" and N: "plain_line N"
  shows "split_on nl (join nl (rewrite_lines key N (split_on nl fm))) =
    rewrite_lines key N (split_on nl fm)"
proof (rule split_on_join [OF nl])
  have "nl \<noteq> []"
    using nl by auto
  then show "\<forall>l \<in> set (rewrite_lines key N (split_on nl fm)). \<not> contains nl l"
    using rewrite_lines_subset [of key N "split_on nl fm"] plain_line_contains [OF N nl]
      contains_split_on [of nl _ fm] by blast
qed simp

text \<open>The lines of the frontmatter block, and the line that holds a key.\<close>

definition block_lines :: "frontmatter \<Rightarrow> string list" where
  "block_lines m = split_on (fm_nl m) (fm_block m)"

definition read_key_line :: "string \<Rightarrow> string \<Rightarrow> string option" where
  "read_key_line txt key =
     (case match_frontmatter txt of None \<Rightarrow> None | Some m \<Rightarrow> find (key_line key) (block_lines m))"

lemma rewrite_twice:
  assumes "match_frontmatter txt = Some m" and "plain_line (key @ '': '' @ rendered)"
    and "\<exists>t. fm_tail m = fm_nl m @ t" and "rewrite_frontmatter_key txt key rendered = Some txt'"
  shows "rewrite_frontmatter_key txt' key rendered = Some txt'"
    and "read_key_line txt' key = Some (key @ '': '' @ rendered)"
proof -
  let ?N = "key @ '': '' @ rendered"
  let ?m = "m\<lparr>fm_block := join (fm_nl m) (rewrite_lines key ?N (split_on (fm_nl m) (fm_block m)))\<rparr>"
  from rewrite_reparse [OF assms(1-3)] assms(4) have m': "match_frontmatter txt' = Some ?m"
    by auto
  have s: "split_on (fm_nl m) (fm_block ?m) = rewrite_lines key ?N (split_on (fm_nl m) (fm_block m))"
    using split_rewritten [OF match_frontmatter_Some(5) [OF assms(1)] assms(2)] by simp
  have "rewrite_frontmatter_key txt' key rendered = Some (fm_head ?m @ fm_block ?m @ fm_tail ?m)"
    using s by (simp add: rewrite_frontmatter_key_def m' rewrite_lines_idem key_line_new
        del: append_Cons append_Nil)
  with match_frontmatter_Some(1) [OF m'] show "rewrite_frontmatter_key txt' key rendered = Some txt'"
    by (simp only:)
  from s show "read_key_line txt' key = Some ?N"
    by (simp add: read_key_line_def block_lines_def m' rewrite_lines_read key_line_new
        del: append_Cons append_Nil)
qed

section \<open>Scanning the directory\<close>

text \<open>
  \<^verbatim>\<open>ISSUE_FILENAME_RE\<close>, \<^verbatim>\<open>^(\d+)_.+\.md$\<close>: a run of digits, an underscore, something, the suffix.
\<close>

definition issue_number_from_name :: "string \<Rightarrow> int option" where
  "issue_number_from_name name =
     (let ds = takeWhile is_digit name;
          r = dropWhile is_digit name;
          r' = (if r \<noteq> [] \<and> last r = CHR 0x0A then butlast r else r);
          middle = take (length r' - 4) (tl r')
      in if ds \<noteq> [] \<and> r' \<noteq> [] \<and> hd r' = CHR 0x5F \<and> 4 < length r' \<and>
            drop (length r' - 3) r' = ''.md'' \<and> middle \<noteq> [] \<and> CHR 0x0A \<notin> set middle
         then Some (digits_val ds) else None)"

text \<open>
  A YAML value as far as the issue files use it. \<open>YScalar t txt\<close> is a number, boolean or date: its
  truth value and its \<^verbatim>\<open>str()\<close>; \<open>YSeq xs txt\<close> a list, with its \<^verbatim>\<open>str()\<close>.
\<close>

datatype yaml = YNull | YStr string | YScalar bool string | YSeq "yaml list" string

definition yaml_true :: "yaml \<Rightarrow> bool" where
  "yaml_true v = (case v of YNull \<Rightarrow> False | YStr s \<Rightarrow> s \<noteq> [] | YScalar t _ \<Rightarrow> t | YSeq xs _ \<Rightarrow> xs \<noteq> [])"

definition yaml_str :: "yaml \<Rightarrow> string" where
  "yaml_str v = (case v of YNull \<Rightarrow> ''None'' | YStr s \<Rightarrow> s | YScalar _ s \<Rightarrow> s | YSeq _ s \<Rightarrow> s)"

text \<open>\<^verbatim>\<open>str(meta.get(key) or default)\<close>.\<close>

definition meta_str :: "(string \<rightharpoonup> yaml) \<Rightarrow> string \<Rightarrow> string \<Rightarrow> string" where
  "meta_str meta k d =
     (case meta k of None \<Rightarrow> d | Some v \<Rightarrow> if yaml_true v then yaml_str v else d)"

datatype file_error =
  Bad_labels | Bad_state string | No_frontmatter | Bad_yaml | Not_mapping | Not_utf8 | Os_error
| Claimed_twice int | No_directory

fun yaml_strings :: "yaml list \<Rightarrow> string list option" where
  "yaml_strings [] = Some []"
| "yaml_strings (YStr s # vs) = map_option ((#) s) (yaml_strings vs)"
| "yaml_strings (_ # vs) = None"

definition clean_labels :: "string list \<Rightarrow> string list" where
  "clean_labels ss = dedup (filter (\<lambda>s. s \<noteq> []) (map strip ss))"

definition normalize_labels :: "yaml option \<Rightarrow> file_error + string list" where
  "normalize_labels v =
     (case v of
        None \<Rightarrow> Inr []
      | Some YNull \<Rightarrow> Inr []
      | Some (YStr s) \<Rightarrow> Inr (clean_labels [s])
      | Some (YScalar _ _) \<Rightarrow> Inl Bad_labels
      | Some (YSeq xs _) \<Rightarrow>
          (case yaml_strings xs of None \<Rightarrow> Inl Bad_labels | Some ss \<Rightarrow> Inr (clean_labels ss)))"

text \<open>
  A file of the directory. \<open>if_text\<close> is what reading it gives: an error of the read, or the YAML
  load of its block (\<^verbatim>\<open>yaml.safe_load(...) or {}\<close>) with the texts below it.
\<close>

datatype file_text = Unreadable file_error | Loaded "string \<rightharpoonup> yaml" string "string list"

record issue_file =
  if_name :: string
  if_regular :: bool
  if_text :: file_text

record local_issue =
  li_number :: int
  li_file :: string
  li_title :: string
  li_open :: bool
  li_labels :: "string list"
  li_body :: string
  li_comments :: "string list"
  li_resolved :: string

text \<open>\<^verbatim>\<open>path.stem\<close> of a name with the suffix \<^verbatim>\<open>.md\<close>.\<close>

definition stem :: "string \<Rightarrow> string" where
  "stem name = take (length name - 3) name"

definition read_issue :: "int \<Rightarrow> issue_file \<Rightarrow> file_error + local_issue" where
  "read_issue n f =
     (case if_text f of
        Unreadable e \<Rightarrow> Inl e
      | Loaded meta body comments \<Rightarrow>
          (let raw_state = lower (strip (meta_str meta ''state'' ''open''))
           in if raw_state \<notin> {''open'', ''closed''} then Inl (Bad_state raw_state)
              else bindE (normalize_labels (meta ''labels'')) (\<lambda>labels.
                Inr \<lparr> li_number = n, li_file = if_name f,
                      li_title = meta_str meta ''title'' (stem (if_name f)),
                      li_open = (raw_state = ''open''), li_labels = labels,
                      li_body = body, li_comments = comments,
                      li_resolved = meta_str meta ''resolved'' [] \<rparr>)))"

text \<open>
  \<^verbatim>\<open>scan_issues\<close>. The directory's files come in name order (None: no such directory). The loop
  gives the issues that load and the problems of those that do not; then every claimant of a
  number that two files carry is dropped and reported.
\<close>

type_synonym problem = "string \<times> file_error"

fun load_files :: "issue_file list \<Rightarrow> local_issue list \<times> problem list" where
  "load_files [] = ([], [])"
| "load_files (f # fs) =
     (case load_files fs of (loaded, problems) \<Rightarrow>
        if \<not> if_regular f then (loaded, problems)
        else case issue_number_from_name (if_name f) of
               None \<Rightarrow> (loaded, problems)
             | Some n \<Rightarrow>
                 (case read_issue n f of
                    Inl e \<Rightarrow> (loaded, (if_name f, e) # problems)
                  | Inr i \<Rightarrow> (i # loaded, problems)))"

definition duplicated :: "local_issue list \<Rightarrow> int list" where
  "duplicated loaded =
     sort (dedup (filter (\<lambda>n. 1 < length (filter (\<lambda>i. li_number i = n) loaded))
                    (map li_number loaded)))"

definition scan_issues :: "issue_file list option \<Rightarrow> local_issue list \<times> problem list" where
  "scan_issues dir =
     (case dir of
        None \<Rightarrow> ([], [([], No_directory)])
      | Some fs \<Rightarrow>
          (case load_files fs of (loaded, problems) \<Rightarrow>
             let dup = duplicated loaded
             in (filter (\<lambda>i. li_number i \<notin> set dup) loaded,
                 problems @ concat (map (\<lambda>n. map (\<lambda>i. (li_file i, Claimed_twice n))
                                               (filter (\<lambda>i. li_number i = n) loaded)) dup))))"

text \<open>\<^verbatim>\<open>by_number\<close>: a later issue of the same number would win.\<close>

definition by_number :: "local_issue list \<Rightarrow> int \<Rightarrow> local_issue option" where
  "by_number issues = map_of (rev (map (\<lambda>i. (li_number i, i)) issues))"

section \<open>What a scan gives\<close>

definition load_file :: "issue_file \<Rightarrow> local_issue option" where
  "load_file f =
     (if if_regular f
      then (case issue_number_from_name (if_name f) of
              None \<Rightarrow> None
            | Some n \<Rightarrow> (case read_issue n f of Inl _ \<Rightarrow> None | Inr i \<Rightarrow> Some i))
      else None)"

lemma load_files_step:
  "fst (load_files (f # fs)) =
     (case load_file f of None \<Rightarrow> fst (load_files fs) | Some i \<Rightarrow> i # fst (load_files fs))"
  by (auto simp: load_file_def split: prod.split option.split sum.split)

lemma map_filter_Cons:
  "List.map_filter f (x # xs) =
     (case f x of None \<Rightarrow> List.map_filter f xs | Some y \<Rightarrow> y # List.map_filter f xs)"
  by (simp add: List.map_filter_def split: option.split)

lemma load_files_issues: "fst (load_files fs) = List.map_filter load_file fs"
proof (induction fs)
  case (Cons f fs)
  then show ?case
    by (simp only: load_files_step map_filter_Cons)
qed (simp add: List.map_filter_def)

lemma read_issue_Inr:
  "read_issue n f = Inr i \<Longrightarrow>
     li_number i = n \<and> li_file i = if_name f \<and>
     (\<exists>meta b c. if_text f = Loaded meta b c \<and> normalize_labels (meta ''labels'') = Inr (li_labels i))"
  by (auto simp: read_issue_def Let_def bindE_Inr_iff split: file_text.splits if_splits)

lemma load_file_Some:
  "load_file f = Some i \<Longrightarrow>
     if_regular f \<and> li_file i = if_name f \<and> issue_number_from_name (if_name f) = Some (li_number i) \<and>
     (\<exists>meta b c. if_text f = Loaded meta b c \<and> normalize_labels (meta ''labels'') = Inr (li_labels i))"
  by (auto simp: load_file_def dest: read_issue_Inr split: if_splits option.splits sum.splits)

lemma set_duplicated:
  "n \<in> set (duplicated loaded) \<longleftrightarrow> 1 < length (filter (\<lambda>i. li_number i = n) loaded)"
proof -
  have "n \<in> li_number ` set loaded" if "1 < length (filter (\<lambda>i. li_number i = n) loaded)"
    using that by (cases "filter (\<lambda>i. li_number i = n) loaded") (auto dest: filter_eq_ConsD)
  then show ?thesis
    by (auto simp: duplicated_def)
qed

definition scanned :: "issue_file list \<Rightarrow> local_issue list" where
  "scanned fs = fst (scan_issues (Some fs))"

lemma scanned_alt:
  "scanned fs = filter (\<lambda>i. li_number i \<notin> set (duplicated (List.map_filter load_file fs)))
                  (List.map_filter load_file fs)"
  by (simp add: scanned_def scan_issues_def Let_def load_files_issues [symmetric] split: prod.split)

lemma distinct_map_filter_unique:
  "(\<And>n. n \<in> f ` set (filter P xs) \<Longrightarrow> length (filter (\<lambda>x. f x = n) xs) \<le> 1) \<Longrightarrow>
   distinct (map f (filter P xs))"
proof (induction xs)
  case (Cons x xs)
  have le: "length (filter (\<lambda>x. f x = n) xs) \<le> 1" if "n \<in> f ` set (filter P xs)" for n
    using Cons.prems [of n] that by (auto split: if_splits)
  have "f x \<notin> f ` set (filter P xs)" if "P x"
  proof
    assume a: "f x \<in> f ` set (filter P xs)"
    then have "filter (\<lambda>y. f y = f x) xs \<noteq> []"
      by (auto simp: filter_empty_conv)
    with Cons.prems [of "f x"] that show False
      by (cases "filter (\<lambda>y. f y = f x) xs") auto
  qed
  with Cons.IH [OF le] show ?case
    by auto
qed simp

text \<open>No two issues of a scan have the same number.\<close>

lemma scanned_distinct: "distinct (map li_number (scanned fs))"
  unfolding scanned_alt by (rule distinct_map_filter_unique) (auto simp: set_duplicated)

lemma by_number_Some:
  "distinct (map li_number is) \<Longrightarrow> by_number is n = Some i \<longleftrightarrow> i \<in> set is \<and> li_number i = n"
proof -
  assume d: "distinct (map li_number is)"
  let ?xs = "rev (map (\<lambda>i. (li_number i, i)) is)"
  have "distinct (map fst ?xs)"
    using d by (simp add: comp_def flip: rev_map)
  then have "map_of ?xs n = Some i \<longleftrightarrow> (n, i) \<in> set ?xs"
    by (rule map_of_eq_Some_iff)
  then show ?thesis
    by (auto simp: by_number_def)
qed

lemma strip_hd_last:
  assumes "strip s \<noteq> []"
  shows "\<not> is_space (hd (strip s))" and "\<not> is_space (last (strip s))"
proof -
  let ?d = "dropWhile is_space s"
  have l: "dropWhile is_space (rev ?d) \<noteq> []"
    using assms by (simp add: strip_def)
  then show "\<not> is_space (last (strip s))"
    by (simp add: strip_def last_rev hd_dropWhile)
  obtain t where "?d = strip s @ t"
    unfolding strip_def by (metis rev_append rev_rev_ident takeWhile_dropWhile_id)
  with assms have "hd ?d = hd (strip s)" and "?d \<noteq> []"
    by auto
  then show "\<not> is_space (hd (strip s))"
    by (metis hd_dropWhile)
qed

lemma strip_idem [simp]: "strip (strip s) = strip s"
proof (cases "strip s = []")
  case True
  moreover have "strip [] = []"
    by (simp add: strip_def)
  ultimately show ?thesis
    by simp
next
  case False
  from strip_idem_word [OF False strip_hd_last [OF False]] show ?thesis .
qed

lemma clean_labels_id:
  "distinct ls \<Longrightarrow> \<forall>l \<in> set ls. strip l = l \<and> l \<noteq> [] \<Longrightarrow> clean_labels ls = ls"
  by (simp add: clean_labels_def map_idI cong: filter_cong)

lemma clean_labels_clean: "distinct (clean_labels ss) \<and> (\<forall>l \<in> set (clean_labels ss). strip l = l \<and> l \<noteq> [])"
  by (auto simp: clean_labels_def)

lemma normalize_labels_clean:
  "normalize_labels v = Inr ls \<Longrightarrow> distinct ls \<and> (\<forall>l \<in> set ls. strip l = l \<and> l \<noteq> [])"
  using clean_labels_clean
  by (auto simp: normalize_labels_def split: option.splits yaml.splits)

lemma yaml_strings_map [simp]: "yaml_strings (map YStr ls) = Some ls"
  by (induction ls) auto

lemma set_map_filter: "y \<in> set (List.map_filter f xs) \<longleftrightarrow> (\<exists>x \<in> set xs. f x = Some y)"
  by (force simp: List.map_filter_def)

lemma scanned_labels_clean:
  "i \<in> set (scanned fs) \<Longrightarrow> distinct (li_labels i) \<and> (\<forall>l \<in> set (li_labels i). strip l = l \<and> l \<noteq> [])"
  by (auto simp: scanned_alt set_map_filter dest!: load_file_Some normalize_labels_clean)

text \<open>Every issue-shaped file is either an issue of the scan or one of its problems.\<close>

lemma load_files_problems:
  "f \<in> set fs \<Longrightarrow> if_regular f \<Longrightarrow> issue_number_from_name (if_name f) = Some n \<Longrightarrow>
   load_file f = None \<Longrightarrow> if_name f \<in> fst ` set (snd (load_files fs))"
  by (induction fs) (auto simp: load_file_def split: prod.splits option.splits sum.splits)

lemma scan_accounts:
  assumes "f \<in> set fs" and "if_regular f" and "issue_number_from_name (if_name f) = Some n"
  shows "if_name f \<in> li_file ` set (fst (scan_issues (Some fs))) \<union> fst ` set (snd (scan_issues (Some fs)))"
proof (cases "load_file f")
  case None
  from load_files_problems [OF assms None] show ?thesis
    by (auto simp: scan_issues_def Let_def split: prod.splits)
next
  case (Some i)
  let ?L = "fst (load_files fs)"
  have i: "i \<in> set ?L" "li_file i = if_name f"
    using Some assms(1) load_file_Some [OF Some] by (auto simp: load_files_issues set_map_filter)
  show ?thesis
  proof (cases "li_number i \<in> set (duplicated ?L)")
    case False
    with i have "if_name f \<in> li_file ` set (fst (scan_issues (Some fs)))"
      by (force simp: scan_issues_def Let_def split: prod.splits)
    then show ?thesis
      by blast
  next
    case True
    with i have "(if_name f, Claimed_twice (li_number i)) \<in> set (snd (scan_issues (Some fs)))"
      by (force simp: scan_issues_def Let_def split: prod.splits)
    then show ?thesis
      by force
  qed
qed

end
