(* ===== verification/Issue_Texts.thy ===== *)
theory Issue_Texts
  imports Issue_Files
begin

text \<open>
  Issue files as texts: \<^verbatim>\<open>parse_issue_text\<close> up to its YAML values, \<^verbatim>\<open>read_issue\<close>, and what the
  rewriting of the labels leaves for the next reading.

  PyYAML is not part of the repository: its loader and its dumper are the record \<open>yaml_io\<close>, an
  argument of every definition that uses them. What the label writes rely on is the
  predicate \<open>labels_stable\<close>: the dumper writes one line, and the loader reads a block whose
  \<^verbatim>\<open>labels\<close> were rewritten as the block it was, with the new list.
\<close>

section \<open>The parameter\<close>

text \<open>
  \<^verbatim>\<open>yaml.safe_load\<close> of a block: None where it raises a YAMLError; \<open>Doc_other t\<close> is a document that
  is not a mapping, of truth value \<open>t\<close>. \<open>y_dump\<close> is \<^verbatim>\<open>yaml.safe_dump(..., default_flow_style=True,
  width=2**31)\<close> of a list of strings.
\<close>

datatype yaml_doc = Doc_map "string \<rightharpoonup> yaml" | Doc_other bool

record yaml_io =
  y_load :: "string \<Rightarrow> yaml_doc option"
  y_dump :: "string list \<Rightarrow> string"

definition render_flow_list :: "yaml_io \<Rightarrow> string list \<Rightarrow> string" where
  "render_flow_list y values = strip (y_dump y values)"

section \<open>Parsing a text\<close>

text \<open>\<^verbatim>\<open>s.partition(sep)\<close>, without its middle part: what precedes and follows the separator.\<close>

fun partition_at :: "string \<Rightarrow> string \<Rightarrow> string \<times> string" where
  "partition_at sep [] = ([], [])"
| "partition_at sep (c # cs) =
     (case strip_prefix sep (c # cs) of
        Some r \<Rightarrow> ([], r)
      | None \<Rightarrow> (case partition_at sep cs of (before, after) \<Rightarrow> (c # before, after)))"

definition comments_marker :: "string" where
  "comments_marker = ''<!-- charlie-work:comments -->''"

definition comment_separator :: "string" where
  "comment_separator = ''<!-- charlie-work:comment -->''"

definition parse_comments :: "string \<Rightarrow> string list" where
  "parse_comments comment_block =
     filter (\<lambda>chunk. chunk \<noteq> []) (map strip (split_on comment_separator comment_block))"

text \<open>\<^verbatim>\<open>yaml.safe_load(match.group("fm")) or {}\<close>, with the two errors it is refused for.\<close>

definition load_meta :: "yaml_io \<Rightarrow> string \<Rightarrow> file_error + (string \<rightharpoonup> yaml)" where
  "load_meta y block =
     (case y_load y block of
        None \<Rightarrow> Inl Bad_yaml
      | Some (Doc_map meta) \<Rightarrow> Inr meta
      | Some (Doc_other truth) \<Rightarrow> if truth then Inl Not_mapping else Inr (\<lambda>_. None))"

text \<open>
  \<^verbatim>\<open>parse_issue_text\<close>, the part that reads the text; \<open>read_issue\<close> then looks at the values of the
  keys.
\<close>

definition load_text :: "yaml_io \<Rightarrow> string \<Rightarrow> file_text" where
  "load_text y txt =
     (case match_frontmatter txt of
        None \<Rightarrow> Unreadable No_frontmatter
      | Some m \<Rightarrow>
          (case load_meta y (fm_block m) of
             Inl e \<Rightarrow> Unreadable e
           | Inr meta \<Rightarrow>
               (case partition_at comments_marker (fm_rest m) of (body, comment_block) \<Rightarrow>
                  Loaded meta (strip body) (parse_comments comment_block))))"

section \<open>The directory on disk\<close>

text \<open>
  A file: its name, whether it is a regular file, and what reading and decoding it gives
  (\<open>Os_error\<close> or \<open>Not_utf8\<close>, or the text). \<open>view\<close> is the directory as a scan sees it.
\<close>

record disk_file =
  df_name :: string
  df_regular :: bool
  df_content :: "file_error + string"

definition view_file :: "yaml_io \<Rightarrow> disk_file \<Rightarrow> issue_file" where
  "view_file y d =
     \<lparr> if_name = df_name d, if_regular = df_regular d,
       if_text = (case df_content d of Inl e \<Rightarrow> Unreadable e | Inr txt \<Rightarrow> load_text y txt) \<rparr>"

definition view :: "yaml_io \<Rightarrow> disk_file list \<Rightarrow> issue_file list" where
  "view y ds = map (view_file y) ds"

lemma view_file_simps [simp]:
  "if_name (view_file y d) = df_name d" "if_regular (view_file y d) = df_regular d"
  by (simp_all add: view_file_def)

lemma names_view [simp]: "map if_name (view y ds) = map df_name ds"
  by (simp add: view_def comp_def)

section \<open>Rewriting the labels of a text\<close>

definition labels_line :: "yaml_io \<Rightarrow> string list \<Rightarrow> string" where
  "labels_line y ls = ''labels: '' @ render_flow_list y ls"

text \<open>The block after the labels were rewritten to \<open>ls\<close>.\<close>

definition relabelled :: "yaml_io \<Rightarrow> string list \<Rightarrow> frontmatter \<Rightarrow> string" where
  "relabelled y ls m = join (fm_nl m) (rewrite_lines ''labels'' (labels_line y ls) (block_lines m))"

text \<open>
  What the label writes need of YAML on a text that loads: the file has one newline convention
  at the end of its block, and whatever labels are written, the rendering is one line and the
  rewritten block loads as before but for the labels, which are a list of these strings.
\<close>

definition labels_stable :: "yaml_io \<Rightarrow> string \<Rightarrow> bool" where
  "labels_stable y txt \<longleftrightarrow>
     (\<forall>m meta. match_frontmatter txt = Some m \<longrightarrow> load_meta y (fm_block m) = Inr meta \<longrightarrow>
        (\<exists>t. fm_tail m = fm_nl m @ t) \<and>
        (\<forall>ls. plain_line (labels_line y ls) \<and>
           (\<exists>t. load_meta y (relabelled y ls m) = Inr (meta(''labels'' \<mapsto> YSeq (map YStr ls) t)))))"

lemma rewrite_lines_last:
  "key_line key N1 \<Longrightarrow> rewrite_lines key N2 (rewrite_lines key N1 ls) = rewrite_lines key N2 ls"
  by (induction ls) (auto simp: after_value_idem)

lemma relabelled_twice:
  assumes "match_frontmatter txt = Some m" and "plain_line (labels_line y ls)"
  shows "relabelled y ks (m\<lparr>fm_block := relabelled y ls m\<rparr>) = relabelled y ks m"
proof -
  have "key_line ''labels'' (labels_line y ls)"
    using key_line_new [of "''labels''" "render_flow_list y ls"] by (simp add: labels_line_def)
  with split_rewritten [OF match_frontmatter_Some(5) [OF assms(1)] assms(2)] show ?thesis
    by (simp add: relabelled_def block_lines_def rewrite_lines_last)
qed

text \<open>
  A rewrite of the labels of a text that loads: it succeeds, the text still loads, with the new
  labels and everything else as it was, and it can be rewritten again.
\<close>

lemma rewrite_labels_text:
  assumes "labels_stable y txt" and "load_text y txt = Loaded meta b c"
  obtains txt' t where
    "rewrite_frontmatter_key txt ''labels'' (render_flow_list y ls) = Some txt'"
    "load_text y txt' = Loaded (meta(''labels'' \<mapsto> YSeq (map YStr ls) t)) b c"
    "labels_stable y txt'"
proof -
  obtain m where m: "match_frontmatter txt = Some m" "load_meta y (fm_block m) = Inr meta"
    and bc: "(b, c) = (case partition_at comments_marker (fm_rest m) of (body, cb) \<Rightarrow> (strip body, parse_comments cb))"
    using assms(2) by (auto simp: load_text_def split: option.splits sum.splits prod.splits)
  let ?m = "\<lambda>ls. m\<lparr>fm_block := relabelled y ls m\<rparr>"
  from assms(1) m have nl: "\<exists>t. fm_tail m = fm_nl m @ t"
    and p: "plain_line (labels_line y ls)"
    and l: "\<exists>t. load_meta y (relabelled y ls m) = Inr (meta(''labels'' \<mapsto> YSeq (map YStr ls) t))" for ls
    by (auto simp: labels_stable_def)
  have "plain_line (''labels'' @ '': '' @ render_flow_list y ls)"
    using p by (simp add: labels_line_def)
  from rewrite_reparse [OF m(1) this nl] obtain txt' where
    w: "rewrite_frontmatter_key txt ''labels'' (render_flow_list y ls) = Some txt'"
    and m': "match_frontmatter txt' = Some (?m ls)"
    by (auto simp: relabelled_def block_lines_def labels_line_def)
  obtain t where t: "load_meta y (relabelled y ls m) = Inr (meta(''labels'' \<mapsto> YSeq (map YStr ls) t))"
    using l by blast
  have "load_text y txt' = Loaded (meta(''labels'' \<mapsto> YSeq (map YStr ls) t)) b c"
    using bc by (simp add: load_text_def m' t split: prod.splits)
  moreover have "labels_stable y txt'"
    unfolding labels_stable_def
    using m' t nl p l by (simp add: relabelled_twice [OF m(1) p])
  ultimately show thesis
    using that w by blast
qed

section \<open>A small loader\<close>

text \<open>
  A concrete \<open>yaml_io\<close> for examples: the dumper writes a flow list of double-quoted strings with
  backslash escapes, as PyYAML may; the loader reads the four keys of an issue, one per line.
\<close>

definition esc :: "char \<Rightarrow> string" where
  "esc c = (if c = CHR 0x0A then [CHR 0x5C, CHR ''n''] else if c = CHR 0x0D then [CHR 0x5C, CHR ''r'']
            else if c = CHR 0x22 \<or> c = CHR 0x5C then [CHR 0x5C, c] else [c])"

definition unesc :: "char \<Rightarrow> char" where
  "unesc c = (if c = CHR ''n'' then CHR 0x0A else if c = CHR ''r'' then CHR 0x0D else c)"

definition quoted :: "string \<Rightarrow> string" where
  "quoted s = [CHR 0x22] @ concat (map esc s) @ [CHR 0x22]"

definition small_dump :: "string list \<Rightarrow> string" where
  "small_dump ls = ''['' @ join '', '' (map quoted ls) @ '']''"

fun read_quoted :: "string option \<Rightarrow> string \<Rightarrow> string list" where
  "read_quoted st [] = []"
| "read_quoted None (c # cs) = read_quoted (if c = CHR 0x22 then Some [] else None) cs"
| "read_quoted (Some acc) (c # cs) =
     (if c = CHR 0x22 then acc # read_quoted None cs
      else if c = CHR 0x5C
      then (case cs of [] \<Rightarrow> [] | d # ds \<Rightarrow> read_quoted (Some (acc @ [unesc d])) ds)
      else read_quoted (Some (acc @ [c])) cs)"

definition small_value :: "string \<Rightarrow> yaml" where
  "small_value v = (if take 1 v = ''['' then YSeq (map YStr (read_quoted None v)) v else YStr v)"

definition small_load :: "string \<Rightarrow> yaml_doc option" where
  "small_load block =
     Some (Doc_map (\<lambda>k. if k \<in> {''title'', ''state'', ''labels'', ''resolved''}
        then map_option (\<lambda>l. small_value (strip (drop (length k + 1) l)))
               (find (key_line k) (split_on [CHR 0x0A] block))
        else None))"

definition small_yaml :: "yaml_io" where
  "small_yaml = \<lparr> y_load = small_load, y_dump = small_dump \<rparr>"

lemma read_quoted_esc:
  "read_quoted (Some acc) (concat (map esc s) @ CHR 0x22 # r) = (acc @ s) # read_quoted None r"
  by (induction s arbitrary: acc) (auto simp: esc_def unesc_def)

lemma read_quoted_join:
  "read_quoted None (join '', '' (map quoted ls) @ '']'') = ls"
  by (induction ls rule: induct_list012) (simp_all add: quoted_def read_quoted_esc)

lemma read_small_dump: "read_quoted None (small_dump ls) = ls"
  using read_quoted_join [of ls] by (simp add: small_dump_def)

lemma strip_small_dump: "strip (small_dump ls) = small_dump ls"
  by (rule strip_idem_word) (simp_all add: small_dump_def is_space_def)

lemma small_dump_newlines: "set (small_dump ls) \<inter> set newline_chars = {}"
proof -
  have "set (esc c) \<inter> set newline_chars = {}" for c
    by (auto simp: esc_def newline_chars_def)
  then have q: "set (quoted s) \<inter> set newline_chars = {}" for s
    by (fastforce simp: quoted_def newline_chars_def)
  have "set (join '', '' (map quoted ls)) \<inter> set newline_chars = {}"
  proof (induction ls rule: induct_list012)
    case (3 x z zs)
    with q [of x] show ?case
      by (simp add: Int_Un_distrib2 newline_chars_def)
  qed (use q in \<open>auto simp: newline_chars_def\<close>)
  then show ?thesis
    by (auto simp: small_dump_def newline_chars_def)
qed

lemma small_line_plain: "plain_line (labels_line small_yaml ls)"
  using small_dump_newlines [of ls]
  by (auto simp: plain_line_def labels_line_def render_flow_list_def small_yaml_def strip_small_dump
      newline_chars_def)

end
