(* ===== verification/Timestamps.thy ===== *)
theory Timestamps
  imports Prelude
begin

text \<open>
  Time stamps as the orchestrator reads them. An instant is a number of microseconds since
  the epoch, UTC; a Python \<^verbatim>\<open>datetime\<close> is aware (its instant is known) or naive (only its
  wall-clock reading is). The parser \<^verbatim>\<open>datetime.fromisoformat\<close> of the standard library accepts
  every ISO 8601 form, so the definitions take it as an argument \<open>fromiso\<close> and their
  properties hold for any parser; \<open>iso_extended\<close> below is that function on the extended
  calendar form \<^verbatim>\<open>YYYY-MM-DDTHH:MM:SS[+HH:MM]\<close> GitHub and the orchestrator write.
\<close>

section \<open>Datetimes\<close>

datatype pytime = Aware int | Naive int

type_synonym iso_parser = "string \<Rightarrow> pytime option"

text \<open>\<^verbatim>\<open>t.replace(tzinfo=UTC)\<close> when \<^verbatim>\<open>t.tzinfo is None\<close>: a naive reading taken as UTC.\<close>

fun as_utc :: "pytime \<Rightarrow> int" where
  "as_utc (Aware t) = t"
| "as_utc (Naive t) = t"

fun is_aware :: "pytime \<Rightarrow> bool" where
  "is_aware (Aware t) = True"
| "is_aware (Naive t) = False"

text \<open>\<^verbatim>\<open>a - b\<close>: a TypeError (None) when one is naive and the other is not.\<close>

fun time_diff :: "pytime \<Rightarrow> pytime \<Rightarrow> int option" where
  "time_diff (Aware a) (Aware b) = Some (a - b)"
| "time_diff (Naive a) (Naive b) = Some (a - b)"
| "time_diff _ _ = None"

definition minutes :: "int \<Rightarrow> int" where
  "minutes n = n * 60000000"

text \<open>\<^verbatim>\<open>value.replace("Z", "+00:00")\<close>.\<close>

definition zulu :: "string \<Rightarrow> string" where
  "zulu s = concat (map (\<lambda>c. if c = CHR ''Z'' then ''+00:00'' else [c]) s)"

section \<open>Readers\<close>

text \<open>
  \<^verbatim>\<open>iso_timestamp.parse_iso_timestamp\<close> on a value that is a string or absent: None for an
  unparseable value, naive readings taken as UTC.
\<close>

definition parse_iso_timestamp :: "iso_parser \<Rightarrow> string option \<Rightarrow> pytime option" where
  "parse_iso_timestamp fromiso v =
     (case v of
        None \<Rightarrow> None
      | Some s \<Rightarrow> (case fromiso (zulu s) of None \<Rightarrow> None | Some t \<Rightarrow> Some (Aware (as_utc t))))"

text \<open>
  \<^verbatim>\<open>merge_path/queue_skip.parse_stamp\<close>: the same, with an empty string read as absent.
\<close>

definition parse_stamp :: "iso_parser \<Rightarrow> string option \<Rightarrow> pytime option" where
  "parse_stamp fromiso v =
     (if \<not> truthy v then None
      else case fromiso (zulu (or_empty v)) of None \<Rightarrow> None | Some t \<Rightarrow> Some (Aware (as_utc t)))"

text \<open>
  \<^verbatim>\<open>_is_pr_updated_at_older_than\<close>: strictly more than the given minutes between the PR's
  \<^verbatim>\<open>updatedAt\<close> and now; an absent or malformed stamp is not old.
\<close>

definition is_pr_updated_at_older_than :: "iso_parser \<Rightarrow> string option \<Rightarrow> pytime \<Rightarrow> int \<Rightarrow> bool" where
  "is_pr_updated_at_older_than fromiso updated_at now mins =
     (if \<not> truthy updated_at then False
      else case fromiso (zulu (or_empty updated_at)) of
             None \<Rightarrow> False
           | Some updated \<Rightarrow> as_utc now - as_utc updated > minutes mins)"

text \<open>
  \<^verbatim>\<open>state.is_claim_stale\<close>: an absent claim is never stale; a malformed stamp, or a naive one
  compared with an aware clock (a TypeError), is stale; otherwise strictly older than the
  timeout.
\<close>

definition is_claim_stale :: "iso_parser \<Rightarrow> string option \<Rightarrow> int \<Rightarrow> pytime \<Rightarrow> bool" where
  "is_claim_stale fromiso claim timeout_minutes now =
     (if \<not> truthy claim then False
      else case fromiso (zulu (or_empty claim)) of
             None \<Rightarrow> True
           | Some claim_time \<Rightarrow>
               (case time_diff now claim_time of
                  None \<Rightarrow> True
                | Some age \<Rightarrow> age > minutes timeout_minutes))"

lemma parse_stamp_aware: "parse_stamp fromiso v = Some t \<Longrightarrow> is_aware t"
  by (auto simp: parse_stamp_def split: if_splits option.splits)

lemma parse_iso_timestamp_aware: "parse_iso_timestamp fromiso v = Some t \<Longrightarrow> is_aware t"
  by (auto simp: parse_iso_timestamp_def split: option.splits)

text \<open>The two readers agree on every stamp that is not the empty string.\<close>

lemma parse_stamp_eq_parse_iso_timestamp:
  "v \<noteq> Some [] \<Longrightarrow> parse_stamp fromiso v = parse_iso_timestamp fromiso v"
  by (cases v) (auto simp: parse_stamp_def parse_iso_timestamp_def)

lemma is_claim_stale_mono:
  assumes "is_claim_stale fromiso claim m (Aware t)" and "t \<le> t'"
  shows "is_claim_stale fromiso claim m (Aware t')"
proof (cases "truthy claim")
  case True
  show ?thesis
  proof (cases "fromiso (zulu (or_empty claim))")
    case (Some ct)
    with assms True show ?thesis
      by (cases ct) (auto simp: is_claim_stale_def)
  qed (use True in \<open>simp add: is_claim_stale_def\<close>)
qed (use assms in \<open>simp add: is_claim_stale_def\<close>)

section \<open>The extended calendar form\<close>

text \<open>Days since the epoch of a proleptic Gregorian date.\<close>

definition days_from_civil :: "int \<Rightarrow> int \<Rightarrow> int \<Rightarrow> int" where
  "days_from_civil y m d =
     (let y' = (if m \<le> 2 then y - 1 else y);
          era = y' div 400;
          yoe = y' - era * 400;
          doy = (153 * (if m > 2 then m - 3 else m + 9) + 2) div 5 + d - 1;
          doe = yoe * 365 + yoe div 4 - yoe div 100 + doy
      in era * 146097 + doe - 719468)"

definition days_in_month :: "int \<Rightarrow> int \<Rightarrow> int" where
  "days_in_month y m =
     (if m = 2 then (if y mod 4 = 0 \<and> (y mod 100 \<noteq> 0 \<or> y mod 400 = 0) then 29 else 28)
      else if m \<in> {4, 6, 9, 11} then 30 else 31)"

definition take_number :: "nat \<Rightarrow> string \<Rightarrow> (int \<times> string) option" where
  "take_number n s =
     (if length (take n s) = n \<and> list_all is_digit (take n s)
      then Some (digits_val (take n s), drop n s) else None)"

definition take_char :: "char \<Rightarrow> string \<Rightarrow> string option" where
  "take_char c s = (case s of [] \<Rightarrow> None | x # xs \<Rightarrow> if x = c then Some xs else None)"

definition iso_date :: "string \<Rightarrow> (int \<times> string) option" where
  "iso_date s =
     (case take_number 4 s of None \<Rightarrow> None | Some (y, s1) \<Rightarrow>
      case take_char (CHR ''-'') s1 of None \<Rightarrow> None | Some s2 \<Rightarrow>
      case take_number 2 s2 of None \<Rightarrow> None | Some (m, s3) \<Rightarrow>
      case take_char (CHR ''-'') s3 of None \<Rightarrow> None | Some s4 \<Rightarrow>
      case take_number 2 s4 of None \<Rightarrow> None | Some (d, s5) \<Rightarrow>
        (if 1 \<le> y \<and> 1 \<le> m \<and> m \<le> 12 \<and> 1 \<le> d \<and> d \<le> days_in_month y m
         then Some (days_from_civil y m d, s5) else None))"

definition iso_clock :: "string \<Rightarrow> (int \<times> string) option" where
  "iso_clock s =
     (case take_number 2 s of None \<Rightarrow> None | Some (h, s1) \<Rightarrow>
      case take_char (CHR '':'') s1 of None \<Rightarrow> None | Some s2 \<Rightarrow>
      case take_number 2 s2 of None \<Rightarrow> None | Some (mi, s3) \<Rightarrow>
      case take_char (CHR '':'') s3 of None \<Rightarrow> None | Some s4 \<Rightarrow>
      case take_number 2 s4 of None \<Rightarrow> None | Some (se, s5) \<Rightarrow>
        (if h \<le> 23 \<and> mi \<le> 59 \<and> se \<le> 59
         then Some ((h * 60 + mi) * 60 + se, s5) else None))"

definition iso_offset :: "string \<Rightarrow> int option" where
  "iso_offset s =
     (case s of
        [] \<Rightarrow> None
      | c # s0 \<Rightarrow>
          (if c \<noteq> CHR ''+'' \<and> c \<noteq> CHR ''-'' then None
           else case take_number 2 s0 of None \<Rightarrow> None | Some (h, s1) \<Rightarrow>
                case take_char (CHR '':'') s1 of None \<Rightarrow> None | Some s2 \<Rightarrow>
                case take_number 2 s2 of None \<Rightarrow> None | Some (mi, s3) \<Rightarrow>
                  (if s3 = [] \<and> h \<le> 23 \<and> mi \<le> 59
                   then Some ((if c = CHR ''-'' then -1 else 1) * (h * 60 + mi)) else None)))"

definition iso_extended :: iso_parser where
  "iso_extended s =
     (case iso_date s of None \<Rightarrow> None | Some (days, s1) \<Rightarrow>
      case take_char (CHR ''T'') s1 of None \<Rightarrow> None | Some s2 \<Rightarrow>
      case iso_clock s2 of None \<Rightarrow> None | Some (secs, s3) \<Rightarrow>
        (let wall = (days * 86400 + secs) * 1000000
         in if s3 = [] then Some (Naive wall)
            else map_option (\<lambda>off. Aware (wall - minutes off)) (iso_offset s3)))"

lemma iso_extended_epoch: "iso_extended (zulu ''1970-01-01T00:00:00Z'') = Some (Aware 0)"
  by code_simp

lemma iso_extended_offset:
  "iso_extended (zulu ''2026-03-01T12:30:15+02:00'') =
   iso_extended (zulu ''2026-03-01T10:30:15Z'')"
  by code_simp

lemma iso_extended_leap:
  "iso_extended ''2026-02-29T00:00:00'' = None" "iso_extended ''2028-02-29T00:00:00'' \<noteq> None"
  by code_simp+

end
