(* ===== verification/Label_Config.thy ===== *)
theory Label_Config
  imports Timestamps
begin

text \<open>
  The label vocabulary (\<^verbatim>\<open>config.LabelConfig\<close>), the host-ownership rule
  (\<^verbatim>\<open>host_routing.py\<close>), the issue priorities (\<^verbatim>\<open>issue_priority.py\<close>) and the label half of
  dispatchability (\<^verbatim>\<open>orchestration/state_maintenance._is_dispatchable\<close>). Every name is a
  configured string; the sets below are the groups the rest of the program reads.
\<close>

section \<open>LabelConfig\<close>

record label_config =
  lc_ready :: string
  lc_queued :: string
  lc_in_progress :: string
  lc_pr_open :: string
  lc_reviewing :: string
  lc_needs_rework :: string
  lc_done :: string
  lc_human_needed :: string
  lc_prose_only_deps :: string
  lc_merge_hold :: string
  lc_priority_prefix :: string
  lc_operator_queue :: string
  lc_collect_gate_exempt :: string
  lc_review_ready :: string
  lc_cross_repo_override :: string
  lc_model_tier_prefix :: string
  lc_host_prefix :: string

definition default_labels :: label_config where
  "default_labels =
     \<lparr> lc_ready = ''automated-ready'',
       lc_queued = ''agent:queued'',
       lc_in_progress = ''agent:in-progress'',
       lc_pr_open = ''agent:pr-open'',
       lc_reviewing = ''agent:reviewing'',
       lc_needs_rework = ''agent:needs-rework'',
       lc_done = ''agent:done'',
       lc_human_needed = ''agent:human-needed'',
       lc_prose_only_deps = ''agent:prose-only-deps'',
       lc_merge_hold = ''agent:merge-hold'',
       lc_priority_prefix = ''priority:'',
       lc_operator_queue = ''agent:operator-queue'',
       lc_collect_gate_exempt = ''collect-gate-exempt'',
       lc_review_ready = ''agent:review-ready'',
       lc_cross_repo_override = ''agent:cross-repo-override'',
       lc_model_tier_prefix = ''model:'',
       lc_host_prefix = ''host:'' \<rparr>"

definition terminal_labels :: "label_config \<Rightarrow> string set" where
  "terminal_labels lc =
     {lc_done lc, lc_human_needed lc, lc_prose_only_deps lc, lc_operator_queue lc,
      lc_review_ready lc}"

definition active_labels :: "label_config \<Rightarrow> string set" where
  "active_labels lc =
     {lc_queued lc, lc_in_progress lc, lc_pr_open lc, lc_reviewing lc, lc_needs_rework lc}"

definition all_labels :: "label_config \<Rightarrow> string list" where
  "all_labels lc =
     [lc_ready lc, lc_queued lc, lc_in_progress lc, lc_pr_open lc, lc_reviewing lc,
      lc_needs_rework lc, lc_done lc, lc_human_needed lc, lc_prose_only_deps lc,
      lc_merge_hold lc, lc_operator_queue lc, lc_collect_gate_exempt lc,
      lc_review_ready lc, lc_cross_repo_override lc]"

definition workflow_labels :: "label_config \<Rightarrow> string set" where
  "workflow_labels lc =
     {lc_queued lc, lc_in_progress lc, lc_pr_open lc, lc_reviewing lc, lc_needs_rework lc,
      lc_done lc, lc_human_needed lc, lc_operator_queue lc, lc_review_ready lc}"

text \<open>The labels are pairwise different strings, as in the default configuration.\<close>

definition labels_distinct :: "label_config \<Rightarrow> bool" where
  "labels_distinct lc \<longleftrightarrow> distinct (all_labels lc)"

lemma default_labels_distinct: "labels_distinct default_labels"
  by (simp add: labels_distinct_def all_labels_def default_labels_def)

lemma finite_workflow_labels [simp]: "finite (workflow_labels lc)"
  by (simp add: workflow_labels_def)

lemma finite_active_labels [simp]: "finite (active_labels lc)"
  by (simp add: active_labels_def)

lemma active_subset_workflow: "active_labels lc \<subseteq> workflow_labels lc"
  by (auto simp: active_labels_def workflow_labels_def)

lemma terminal_minus_workflow: "terminal_labels lc - workflow_labels lc \<subseteq> {lc_prose_only_deps lc}"
  by (auto simp: terminal_labels_def workflow_labels_def)

lemma workflow_eq_active_terminal:
  "workflow_labels lc \<union> {lc_prose_only_deps lc} = active_labels lc \<union> terminal_labels lc"
  by (auto simp: active_labels_def workflow_labels_def terminal_labels_def)

lemmas label_group_defs = terminal_labels_def active_labels_def workflow_labels_def

section \<open>Priorities\<close>

datatype priority = Critical | High | Normal | Low

instantiation priority :: linorder
begin

fun priority_rank :: "priority \<Rightarrow> nat" where
  "priority_rank Critical = 0"
| "priority_rank High = 1"
| "priority_rank Normal = 2"
| "priority_rank Low = 3"

definition less_eq_priority :: "priority \<Rightarrow> priority \<Rightarrow> bool" where
  "less_eq_priority a b \<longleftrightarrow> priority_rank a \<le> priority_rank b"

definition less_priority :: "priority \<Rightarrow> priority \<Rightarrow> bool" where
  "less_priority a b \<longleftrightarrow> priority_rank a < priority_rank b"

instance
proof
  fix a b c :: priority
  show "a < b \<longleftrightarrow> a \<le> b \<and> \<not> b \<le> a"
    by (auto simp: less_eq_priority_def less_priority_def)
  show "a \<le> a"
    by (simp add: less_eq_priority_def)
  show "a \<le> b \<Longrightarrow> b \<le> c \<Longrightarrow> a \<le> c"
    by (simp add: less_eq_priority_def)
  show "a \<le> b \<Longrightarrow> b \<le> a \<Longrightarrow> a = b"
    by (cases a; cases b) (auto simp: less_eq_priority_def)
  show "a \<le> b \<or> b \<le> a"
    by (auto simp: less_eq_priority_def)
qed

end

lemma Critical_least: "Critical \<le> (p :: priority)"
  by (simp add: less_eq_priority_def)

lemma le_Critical_iff: "p \<le> Critical \<longleftrightarrow> p = Critical"
  by (cases p) (simp_all add: less_eq_priority_def)

text \<open>\<^verbatim>\<open>_RANK\<close> and \<^verbatim>\<open>LEVELS\<close>: the known level names.\<close>

definition level_of_name :: "string \<Rightarrow> priority option" where
  "level_of_name s =
     (if s = ''critical'' then Some Critical else if s = ''high'' then Some High
      else if s = ''normal'' then Some Normal else if s = ''low'' then Some Low else None)"

text \<open>The level a label names: a case-insensitive prefix, the rest stripped and folded.\<close>

definition named_after :: "string \<Rightarrow> string \<Rightarrow> string option" where
  "named_after prefix label =
     (if strip_prefix (lower prefix) (lower label) = None then None
      else Some (lower (strip (drop (length prefix) label))))"

definition known_levels :: "string list \<Rightarrow> string \<Rightarrow> priority list" where
  "known_levels labels prefix =
     List.map_filter (\<lambda>l. Option.bind (named_after prefix l) level_of_name) labels"

definition priority_level :: "string list \<Rightarrow> string \<Rightarrow> priority" where
  "priority_level labels prefix =
     (if prefix = [] then Normal
      else case known_levels labels prefix of [] \<Rightarrow> Normal | p # ps \<Rightarrow> fold min ps p)"

definition is_critical :: "string list \<Rightarrow> string \<Rightarrow> bool" where
  "is_critical labels prefix \<longleftrightarrow> priority_level labels prefix = Critical"

lemma fold_min_le: "fold min ps (p :: 'a :: linorder) \<le> p"
proof (induction ps arbitrary: p)
  case (Cons q ps)
  have "fold min ps (min q p) \<le> min q p"
    by (rule Cons.IH)
  then show ?case
    by simp
qed simp

lemma fold_min_in: "fold min ps (p :: 'a :: linorder) \<in> set (p # ps)"
proof (induction ps arbitrary: p)
  case (Cons q ps)
  from Cons.IH [of "min q p"] show ?case
    by (auto simp: min_def split: if_splits)
qed simp

lemma fold_min_le_elem: "q \<in> set ps \<Longrightarrow> fold min ps (p :: 'a :: linorder) \<le> q"
proof (induction ps arbitrary: p)
  case (Cons r ps)
  have "fold min ps (min r p) \<le> min r p"
    by (rule fold_min_le)
  with Cons show ?case
    by auto
qed simp

text \<open>The result is the most urgent of the known levels, \<open>Normal\<close> when there is none.\<close>

lemma priority_level_Min:
  "prefix \<noteq> [] \<Longrightarrow> known_levels labels prefix \<noteq> [] \<Longrightarrow>
   priority_level labels prefix = Min (set (known_levels labels prefix))"
proof -
  assume a: "prefix \<noteq> []" "known_levels labels prefix \<noteq> []"
  then obtain p ps where k: "known_levels labels prefix = p # ps"
    by (cases "known_levels labels prefix") auto
  have "Min (set (p # ps)) = fold min ps p"
  proof (rule Min_eqI)
    show "fold min ps p \<le> y" if "y \<in> set (p # ps)" for y
      using that by (auto intro: fold_min_le fold_min_le_elem)
  qed (use fold_min_in [of ps p] in simp_all)
  with a k show ?thesis
    by (simp add: priority_level_def)
qed

lemma is_critical_iff:
  "is_critical labels prefix \<longleftrightarrow> prefix \<noteq> [] \<and> Critical \<in> set (known_levels labels prefix)"
proof (cases "prefix = [] \<or> known_levels labels prefix = []")
  case True
  then show ?thesis
    by (auto simp: is_critical_def priority_level_def)
next
  case False
  then have "is_critical labels prefix \<longleftrightarrow> Min (set (known_levels labels prefix)) = Critical"
    by (simp add: is_critical_def priority_level_Min)
  also have "\<dots> \<longleftrightarrow> Critical \<in> set (known_levels labels prefix)"
  proof
    assume "Min (set (known_levels labels prefix)) = Critical"
    then show "Critical \<in> set (known_levels labels prefix)"
      using False Min_in [of "set (known_levels labels prefix)"] by simp
  next
    assume "Critical \<in> set (known_levels labels prefix)"
    then have "Min (set (known_levels labels prefix)) \<le> Critical"
      by (intro Min_le) simp_all
    then show "Min (set (known_levels labels prefix)) = Critical"
      by (simp add: le_Critical_iff)
  qed
  finally show ?thesis
    using False by simp
qed

section \<open>Host ownership\<close>

definition issue_hosts :: "string list \<Rightarrow> string \<Rightarrow> string list" where
  "issue_hosts labels prefix =
     (if prefix = [] then []
      else sorted_list_of_set
             (set (filter (\<lambda>h. h \<noteq> []) (List.map_filter (named_after prefix) labels))))"

text \<open>
  \<^verbatim>\<open>owned_here\<close>, with the configuration's \<^verbatim>\<open>dispatch.host\<close>, \<^verbatim>\<open>dispatch.default_host\<close> and
  \<^verbatim>\<open>labels.host_prefix\<close>.
\<close>

definition owned_here :: "string list \<Rightarrow> string option \<Rightarrow> bool \<Rightarrow> string \<Rightarrow> bool" where
  "owned_here labels host default_host prefix =
     (case host of
        None \<Rightarrow> True
      | Some h \<Rightarrow>
          (if prefix = [] then True
           else (let hosts = issue_hosts labels prefix
                 in if hosts = [] then default_host else hosts = [lower (strip h)])))"

text \<open>
  A label that names some host is never owned on two hosts whose names differ after folding:
  the rule partitions labelled issues.
\<close>

lemma owned_here_unique:
  assumes "owned_here labels (Some h1) d1 prefix" "owned_here labels (Some h2) d2 prefix"
    and "prefix \<noteq> []" "issue_hosts labels prefix \<noteq> []"
  shows "lower (strip h1) = lower (strip h2)"
  using assms by (auto simp: owned_here_def Let_def)

section \<open>Dispatchability\<close>

text \<open>
  \<^verbatim>\<open>_is_dispatchable\<close>: the issue is open, carries the ready label and no terminal or active
  label, belongs to this host and is not claimed by an operator.
\<close>

record issue_view =
  iv_number :: int
  iv_state :: "string option"
  iv_labels :: "string list"

definition is_dispatchable ::
  "label_config \<Rightarrow> string option \<Rightarrow> bool \<Rightarrow> int set \<Rightarrow> issue_view \<Rightarrow> bool" where
  "is_dispatchable lc host default_host operator_claimed issue =
     (let names = set (iv_labels issue);
          st = (if truthy (iv_state issue) then or_empty (iv_state issue) else ''OPEN'')
      in if upper st \<noteq> ''OPEN'' then False
         else if lc_ready lc \<notin> names then False
         else if names \<inter> terminal_labels lc \<noteq> {} then False
         else if names \<inter> active_labels lc \<noteq> {} then False
         else if \<not> owned_here (iv_labels issue) host default_host (lc_host_prefix lc) then False
         else iv_number issue \<notin> operator_claimed)"

lemma is_dispatchable_iff:
  "is_dispatchable lc host dh claimed issue \<longleftrightarrow>
     upper (if truthy (iv_state issue) then or_empty (iv_state issue) else ''OPEN'') = ''OPEN'' \<and>
     lc_ready lc \<in> set (iv_labels issue) \<and>
     set (iv_labels issue) \<inter> (workflow_labels lc \<union> {lc_prose_only_deps lc}) = {} \<and>
     owned_here (iv_labels issue) host dh (lc_host_prefix lc) \<and>
     iv_number issue \<notin> claimed"
  unfolding workflow_eq_active_terminal by (auto simp: is_dispatchable_def Let_def)

end
