(* ===== verification/Lifecycle.thy ===== *)
theory Lifecycle
  imports Label_Config
begin

text \<open>
  The single owner of every issue-label edge (\<^verbatim>\<open>labels.py\<close>): the table of named edges, the
  label-write seam \<open>apply_issue_labels\<close> and its lifecycle event chain. The label store (the
  \<^verbatim>\<open>LabelsLike\<close> half of a \<^verbatim>\<open>GitHubLike\<close> client) is a pair of functions; what the seam needs of
  them is the locale \<open>label_store\<close>. The event database is a list of events, or None when it
  cannot be opened.
\<close>

section \<open>The table of edges\<close>

type_synonym edge = "string list \<times> string list"

definition compute_remove :: "label_config \<Rightarrow> string list \<Rightarrow> string list \<Rightarrow> string list" where
  "compute_remove lc add_labels extra_remove =
     (if add_labels = [] then []
      else sorted_list_of_set ((workflow_labels lc - set add_labels) \<union> set extra_remove))"

definition edges :: "label_config \<Rightarrow> (string \<times> edge) list" where
  "edges lc =
     (let to1 = (\<lambda>l. ([l], compute_remove lc [l] []))
      in [(''queued'', to1 (lc_queued lc)),
          (''dispatched'', to1 (lc_in_progress lc)),
          (''review_started'',
             ([lc_pr_open lc, lc_reviewing lc],
              compute_remove lc [lc_pr_open lc, lc_reviewing lc] [])),
          (''rework_requested'', to1 (lc_needs_rework lc)),
          (''rework_dispatched'', to1 (lc_in_progress lc)),
          (''review_approved'', to1 (lc_pr_open lc)),
          (''escalated'', to1 (lc_human_needed lc)),
          (''blocked'', to1 (lc_human_needed lc)),
          (''operator_queued'', to1 (lc_operator_queue lc)),
          (''merged'',
             ([lc_done lc], compute_remove lc [lc_done lc] [lc_ready lc, lc_merge_hold lc])),
          (''closed_unmerged'',
             ([], sorted_list_of_set (active_labels lc \<union> {lc_ready lc, lc_merge_hold lc}))),
          (''redispatch_escalated'', to1 (lc_human_needed lc)),
          (''redispatch_operator_queued'', to1 (lc_operator_queue lc)),
          (''human_merge_required'', to1 (lc_operator_queue lc)),
          (''local_work_ready'', to1 (lc_review_ready lc)),
          (''unescalated_pr_open'', to1 (lc_pr_open lc)),
          (''unescalated_requeued'', ([], sorted_list_of_set (workflow_labels lc))),
          (''config_retirement_ready'', to1 (lc_ready lc)),
          (''merged_pr_mention_flagged'', to1 (lc_human_needed lc))])"

lemma set_compute_remove [simp]:
  "set (compute_remove lc add extra) =
     (if add = [] then {} else (workflow_labels lc - set add) \<union> set extra)"
  by (simp add: compute_remove_def)

text \<open>Every edge that adds a label removes all the other workflow labels.\<close>

lemma edges_exclusive:
  "(ev, add, rm) \<in> set (edges lc) \<Longrightarrow> add \<noteq> [] \<Longrightarrow> workflow_labels lc - set add \<subseteq> set rm"
  by (auto simp: edges_def Let_def)

text \<open>No edge adds a label and removes it.\<close>

lemma edges_disjoint:
  "(ev, add, rm) \<in> set (edges lc) \<Longrightarrow> labels_distinct lc \<Longrightarrow> set add \<inter> set rm = {}"
  by (auto simp: edges_def Let_def labels_distinct_def all_labels_def)

lemma edges_names_distinct: "distinct (map fst (edges lc))"
  by (simp add: edges_def Let_def)

lemma map_of_edges: "map_of (edges lc) ev = Some e \<Longrightarrow> (ev, e) \<in> set (edges lc)"
  by (rule map_of_SomeD)

section \<open>Lifecycle states\<close>

text \<open>A dict literal: where two configured labels coincide the later entry wins.\<close>

definition label_state_map :: "label_config \<Rightarrow> string \<Rightarrow> string option" where
  "label_state_map lc =
     map_of (rev [(lc_ready lc, ''ready''), (lc_queued lc, ''queued''),
                  (lc_in_progress lc, ''in_progress''), (lc_pr_open lc, ''pr_open''),
                  (lc_reviewing lc, ''reviewing''), (lc_needs_rework lc, ''needs_rework''),
                  (lc_done lc, ''done''), (lc_review_ready lc, ''review_ready''),
                  (lc_operator_queue lc, ''operator_queue''),
                  (lc_human_needed lc, ''human_needed'')])"

definition state_precedence :: "string list" where
  "state_precedence =
     [''ready'', ''queued'', ''in_progress'', ''pr_open'', ''reviewing'', ''needs_rework'',
      ''done'', ''review_ready'', ''operator_queue'', ''human_needed'']"

fun index_of :: "'a list \<Rightarrow> 'a \<Rightarrow> nat" where
  "index_of [] x = 0"
| "index_of (y # ys) x = (if x = y then 0 else Suc (index_of ys x))"

definition edge_state_overrides :: "string \<Rightarrow> string option" where
  "edge_state_overrides =
     map_of [(''closed_unmerged'', ''closed''), (''unescalated_requeued'', ''ready'')]"

text \<open>\<^verbatim>\<open>max(states, key=_STATE_PRECEDENCE.index)\<close>: the first state of the highest index.\<close>

fun max_by_index :: "string \<Rightarrow> string list \<Rightarrow> string" where
  "max_by_index best [] = best"
| "max_by_index best (s # ss) =
     max_by_index (if index_of state_precedence best < index_of state_precedence s
                   then s else best) ss"

definition state_for_labels :: "label_config \<Rightarrow> string list \<Rightarrow> string option" where
  "state_for_labels lc add =
     (case List.map_filter (label_state_map lc) add of
        [] \<Rightarrow> None
      | s # ss \<Rightarrow> Some (max_by_index s ss))"

section \<open>The event chain\<close>

text \<open>
  A row of \<^verbatim>\<open>events.db\<close>, as far as this component reads it: the kind, the issue it is indexed
  under and the payload fields of a lifecycle transition. \<open>ev_to\<close> is None where the payload
  holds no string under \<^verbatim>\<open>to_state\<close>.
\<close>

record event =
  ev_kind :: string
  ev_issue :: "int option"
  ev_pr :: "int option"
  ev_from :: "string option"
  ev_to :: "string option"
  ev_cause :: "string option"

type_synonym events_db = "event list option"

text \<open>
  What SQLite does with the statements of one operation: whether its SELECT and its INSERT
  succeed. Both functions below catch the error, so neither ever raises.
\<close>

record db_io =
  io_reads :: bool
  io_writes :: bool

text \<open>
  \<^verbatim>\<open>instrumentation.log_event\<close>: best effort. Nothing is recorded when the database cannot be
  opened (None) or the INSERT fails.
\<close>

definition log_event :: "db_io \<Rightarrow> event \<Rightarrow> events_db \<Rightarrow> events_db" where
  "log_event io e db =
     (case db of None \<Rightarrow> None | Some es \<Rightarrow> Some (if io_writes io then es @ [e] else es))"

text \<open>
  \<^verbatim>\<open>query_events(state_path, issue_number=n)\<close>: the matching rows, oldest first; none of them when
  the database cannot be opened, and none when the SELECT raises.
\<close>

definition query_events :: "db_io \<Rightarrow> events_db \<Rightarrow> int \<Rightarrow> event list" where
  "query_events io db n =
     (case db of
        None \<Rightarrow> []
      | Some es \<Rightarrow> if io_reads io then filter (\<lambda>e. ev_issue e = Some n) es else [])"

definition lifecycle_step :: "string option \<Rightarrow> event \<Rightarrow> string option" where
  "lifecycle_step st e =
     (if ev_kind e = ''lifecycle_transition''
      then (case ev_to e of None \<Rightarrow> st | Some t \<Rightarrow> Some t)
      else if ev_kind e = ''ready_observed'' then Some ''ready''
      else st)"

definition current_lifecycle_state :: "db_io \<Rightarrow> events_db \<Rightarrow> int \<Rightarrow> string option" where
  "current_lifecycle_state io db n = foldl lifecycle_step None (query_events io db n)"

definition ready_absent_states :: "string set" where
  "ready_absent_states = {''done'', ''closed''}"

definition ready_episode_open :: "db_io \<Rightarrow> events_db \<Rightarrow> int \<Rightarrow> bool" where
  "ready_episode_open io db n =
     (case current_lifecycle_state io db n of
        None \<Rightarrow> False | Some s \<Rightarrow> s \<notin> ready_absent_states)"

definition ready_observed_due :: "db_io \<Rightarrow> events_db \<Rightarrow> label_config \<Rightarrow> int \<Rightarrow> string set \<Rightarrow> bool" where
  "ready_observed_due io db lc n issue_labels \<longleftrightarrow>
     lc_ready lc \<in> issue_labels \<and> \<not> ready_episode_open io db n"

definition emit_lifecycle_transition ::
  "db_io \<Rightarrow> int \<Rightarrow> int option \<Rightarrow> string \<Rightarrow> string option \<Rightarrow> events_db \<Rightarrow> events_db" where
  "emit_lifecycle_transition io n pr to_state cause db =
     (let from_state = current_lifecycle_state io db n
      in if from_state = Some to_state then db
         else log_event io
                \<lparr> ev_kind = ''lifecycle_transition'', ev_issue = Some n, ev_pr = pr,
                  ev_from = from_state, ev_to = Some to_state, ev_cause = cause \<rparr> db)"

section \<open>The label-write seam\<close>

datatype transition_outcome = APPLIED | PARTIAL_FAILURE | NOTHING_CHANGED

record transition_result =
  tr_outcome :: transition_outcome
  tr_add_failures :: "(int \<times> string) list"
  tr_remove_failures :: "(int \<times> string) list"

definition tr_ok :: "transition_result \<Rightarrow> bool" where
  "tr_ok r \<longleftrightarrow> tr_outcome r \<noteq> PARTIAL_FAILURE"

type_synonym 's label_write = "int \<Rightarrow> string \<Rightarrow> 's \<Rightarrow> bool \<times> 's"

text \<open>One loop of the seam: write every label, collecting the ones that failed.\<close>

fun write_labels :: "'s label_write \<Rightarrow> int \<Rightarrow> string list \<Rightarrow> 's \<Rightarrow> (int \<times> string) list \<times> 's" where
  "write_labels w n [] s = ([], s)"
| "write_labels w n (l # ls) s =
     (case w n l s of (ok, s1) \<Rightarrow>
        (case write_labels w n ls s1 of (fails, s2) \<Rightarrow>
           (if ok then fails else (n, l) # fails, s2)))"

text \<open>
  The part of the seam that follows the writes: \<open>has_path\<close> is \<^verbatim>\<open>state_path is not None\<close>, \<open>dry\<close> the
  client's dry-run flag. \<^verbatim>\<open>to_state or _state_for_labels(...)\<close> reads an empty string as absent.
\<close>

definition settle_labels ::
  "label_config \<Rightarrow> bool \<Rightarrow> bool \<Rightarrow> db_io \<Rightarrow> int \<Rightarrow> int option \<Rightarrow> string list \<Rightarrow> string list \<Rightarrow>
   string option \<Rightarrow> string option \<Rightarrow> (int \<times> string) list \<Rightarrow> (int \<times> string) list \<Rightarrow>
   events_db \<Rightarrow> transition_result \<times> events_db" where
  "settle_labels lc has_path dry io n pr add remove to_state cause af rf db =
     (if af \<noteq> [] \<or> rf \<noteq> []
      then (\<lparr> tr_outcome = PARTIAL_FAILURE, tr_add_failures = af, tr_remove_failures = rf \<rparr>, db)
      else (let resolved = or_else to_state (state_for_labels lc add);
                db' = (case resolved of
                         None \<Rightarrow> db
                       | Some st \<Rightarrow> (if has_path \<and> \<not> dry
                                     then emit_lifecycle_transition io n pr st cause db else db))
            in (\<lparr> tr_outcome = (if add = [] \<and> remove = [] then NOTHING_CHANGED else APPLIED),
                  tr_add_failures = [], tr_remove_failures = [] \<rparr>, db')))"

definition apply_issue_labels ::
  "'s label_write \<Rightarrow> 's label_write \<Rightarrow> label_config \<Rightarrow> bool \<Rightarrow> bool \<Rightarrow> db_io \<Rightarrow> int \<Rightarrow>
   int option \<Rightarrow> string list \<Rightarrow> string list \<Rightarrow> string option \<Rightarrow> string option \<Rightarrow>
   's \<times> events_db \<Rightarrow> transition_result \<times> 's \<times> events_db" where
  "apply_issue_labels wadd wrem lc has_path dry io n pr add remove to_state cause sdb =
     (case sdb of (s, db) \<Rightarrow>
      case write_labels wadd n add s of (af, s1) \<Rightarrow>
      case write_labels wrem n remove s1 of (rf, s2) \<Rightarrow>
      case settle_labels lc has_path dry io n pr add remove to_state cause af rf db of (r, db') \<Rightarrow>
        (r, s2, db'))"

text \<open>
  \<^verbatim>\<open>transition\<close>: the named edge, a KeyError (None) for a name the table does not have. The cause
  defaults to the event name.
\<close>

definition transition ::
  "'s label_write \<Rightarrow> 's label_write \<Rightarrow> label_config \<Rightarrow> bool \<Rightarrow> bool \<Rightarrow> db_io \<Rightarrow> int \<Rightarrow>
   string \<Rightarrow> int option \<Rightarrow> string option \<Rightarrow> 's \<times> events_db \<Rightarrow>
   (transition_result \<times> 's \<times> events_db) option" where
  "transition wadd wrem lc has_path dry io n event pr cause sdb =
     (case map_of (edges lc) event of
        None \<Rightarrow> None
      | Some (add, remove) \<Rightarrow>
          Some (apply_issue_labels wadd wrem lc has_path dry io n pr add remove
                  (edge_state_overrides event) (or_else cause (Some event)) sdb))"

end
