(* ===== verification/Label_Store.thy ===== *)
theory Label_Store
  imports Lifecycle
begin

text \<open>
  The interface the label seam needs of a tracker, as the locale \<open>label_store\<close>, with the
  seam's lemmas proved once under its laws; and the event chain of \<^verbatim>\<open>labels.py\<close> as a step
  relation with its invariant. \<open>Local_Issues\<close> interprets the locale on the local-file tracker.
\<close>

section \<open>The interface\<close>

locale label_store =
  fixes wadd :: "'s label_write"
    and wrem :: "'s label_write"
    and labels_of :: "'s \<Rightarrow> int \<Rightarrow> string set"
    and valid :: "string \<Rightarrow> bool"
    and inv :: "'s \<Rightarrow> bool"
  assumes add_inv: "inv s \<Longrightarrow> wadd n l s = (b, s') \<Longrightarrow> inv s'"
    and add_ok: "inv s \<Longrightarrow> wadd n l s = (True, s') \<Longrightarrow> valid l \<Longrightarrow>
      labels_of s' n = insert l (labels_of s n)"
    and add_fail: "inv s \<Longrightarrow> wadd n l s = (False, s') \<Longrightarrow> labels_of s' n = labels_of s n"
    and add_other: "inv s \<Longrightarrow> wadd n l s = (b, s') \<Longrightarrow> m \<noteq> n \<Longrightarrow> labels_of s' m = labels_of s m"
    and rem_inv: "inv s \<Longrightarrow> wrem n l s = (b, s') \<Longrightarrow> inv s'"
    and rem_ok: "inv s \<Longrightarrow> wrem n l s = (True, s') \<Longrightarrow> labels_of s' n = labels_of s n - {l}"
    and rem_fail: "inv s \<Longrightarrow> wrem n l s = (False, s') \<Longrightarrow> labels_of s' n = labels_of s n"
    and rem_other: "inv s \<Longrightarrow> wrem n l s = (b, s') \<Longrightarrow> m \<noteq> n \<Longrightarrow> labels_of s' m = labels_of s m"
begin

lemma write_adds_inv: "write_labels wadd n ls s = (fs, s') \<Longrightarrow> inv s \<Longrightarrow> inv s'"
  by (induction ls arbitrary: s fs) (fastforce split: prod.splits if_splits dest: add_inv)+

lemma write_removes_inv: "write_labels wrem n ls s = (fs, s') \<Longrightarrow> inv s \<Longrightarrow> inv s'"
  by (induction ls arbitrary: s fs) (fastforce split: prod.splits if_splits dest: rem_inv)+

text \<open>Whatever fails, a write loop only ever adds (removes) labels of its own list.\<close>

lemma write_adds_bounds:
  "write_labels wadd n ls s = (fs, s') \<Longrightarrow> inv s \<Longrightarrow> \<forall>l \<in> set ls. valid l \<Longrightarrow>
   labels_of s n \<subseteq> labels_of s' n \<and> labels_of s' n \<subseteq> labels_of s n \<union> set ls \<and>
   (fs = [] \<longrightarrow> set ls \<subseteq> labels_of s' n)"
proof (induction ls arbitrary: s fs)
  case (Cons l ls)
  obtain b s1 fs1 where w: "wadd n l s = (b, s1)" "write_labels wadd n ls s1 = (fs1, s')"
    and fs: "fs = (if b then fs1 else (n, l) # fs1)"
    using Cons.prems by (auto split: prod.splits if_splits)
  have "labels_of s1 n = (if b then insert l (labels_of s n) else labels_of s n)"
    using w(1) Cons.prems(2,3) add_ok add_fail by (cases b) auto
  with Cons.IH [OF w(2) add_inv [OF Cons.prems(2) w(1)]] Cons.prems(3) fs show ?case
    by (auto split: if_splits)
qed simp

lemma write_removes_bounds:
  "write_labels wrem n ls s = (fs, s') \<Longrightarrow> inv s \<Longrightarrow>
   labels_of s n - set ls \<subseteq> labels_of s' n \<and> labels_of s' n \<subseteq> labels_of s n \<and>
   (fs = [] \<longrightarrow> labels_of s' n \<inter> set ls = {})"
proof (induction ls arbitrary: s fs)
  case (Cons l ls)
  obtain b s1 fs1 where w: "wrem n l s = (b, s1)" "write_labels wrem n ls s1 = (fs1, s')"
    and fs: "fs = (if b then fs1 else (n, l) # fs1)"
    using Cons.prems by (auto split: prod.splits if_splits)
  have "labels_of s1 n = (if b then labels_of s n - {l} else labels_of s n)"
    using w(1) Cons.prems(2) rem_ok rem_fail by (cases b) auto
  with Cons.IH [OF w(2) rem_inv [OF Cons.prems(2) w(1)]] fs show ?case
    by (auto split: if_splits)
qed simp

lemma write_adds_other:
  "write_labels wadd n ls s = (fs, s') \<Longrightarrow> inv s \<Longrightarrow> m \<noteq> n \<Longrightarrow> labels_of s' m = labels_of s m"
proof (induction ls arbitrary: s fs)
  case (Cons l ls)
  then obtain b s1 fs1 where w: "wadd n l s = (b, s1)" "write_labels wadd n ls s1 = (fs1, s')"
    by (auto split: prod.splits if_splits)
  from Cons.IH [OF w(2) add_inv [OF Cons.prems(2) w(1)]] add_other [OF Cons.prems(2) w(1)]
    Cons.prems(3) show ?case
    by simp
qed simp

lemma write_removes_other:
  "write_labels wrem n ls s = (fs, s') \<Longrightarrow> inv s \<Longrightarrow> m \<noteq> n \<Longrightarrow> labels_of s' m = labels_of s m"
proof (induction ls arbitrary: s fs)
  case (Cons l ls)
  then obtain b s1 fs1 where w: "wrem n l s = (b, s1)" "write_labels wrem n ls s1 = (fs1, s')"
    by (auto split: prod.splits if_splits)
  from Cons.IH [OF w(2) rem_inv [OF Cons.prems(2) w(1)]] rem_other [OF Cons.prems(2) w(1)]
    Cons.prems(3) show ?case
    by simp
qed simp

text \<open>One application of the seam, with the writes it makes.\<close>

lemma apply_writes:
  assumes "apply_issue_labels wadd wrem lc hp dry io n pr add rm ts c (s, db) = (r, s', db')"
    and "inv s"
  obtains s1 where "write_labels wadd n add s = (tr_add_failures r, s1)"
    "write_labels wrem n rm s1 = (tr_remove_failures r, s')" "inv s1" "inv s'"
    "tr_ok r \<longleftrightarrow> tr_add_failures r = [] \<and> tr_remove_failures r = []"
proof -
  obtain af s1 rf where w: "write_labels wadd n add s = (af, s1)"
      "write_labels wrem n rm s1 = (rf, s')"
      "settle_labels lc hp dry io n pr add rm ts c af rf db = (r, db')"
    using assms(1) by (auto simp: apply_issue_labels_def split: prod.splits)
  have i: "inv s1"
    using write_adds_inv [OF w(1)] assms(2) by simp
  have "tr_add_failures r = af \<and> tr_remove_failures r = rf \<and> (tr_ok r \<longleftrightarrow> af = [] \<and> rf = [])"
    using w(3) by (auto simp: settle_labels_def Let_def tr_ok_def split: if_splits)
  with w i write_removes_inv [OF w(2) i] show thesis
    using that by simp
qed

lemma apply_labels_ok:
  assumes "apply_issue_labels wadd wrem lc hp dry io n pr add rm ts c (s, db) = (r, s', db')"
    and "inv s" and "tr_ok r" and "\<forall>l \<in> set add. valid l"
  shows "labels_of s' n = (labels_of s n \<union> set add) - set rm"
proof -
  from assms(1,2) obtain s1 where w: "write_labels wadd n add s = (tr_add_failures r, s1)"
      "write_labels wrem n rm s1 = (tr_remove_failures r, s')" "inv s1"
      "tr_ok r \<longleftrightarrow> tr_add_failures r = [] \<and> tr_remove_failures r = []"
    by (rule apply_writes)
  from write_adds_bounds [OF w(1) assms(2,4)] write_removes_bounds [OF w(2,3)] assms(3) w(4)
  show ?thesis
    by auto
qed

lemma apply_labels_other:
  assumes "apply_issue_labels wadd wrem lc hp dry io n pr add rm ts c (s, db) = (r, s', db')"
    and "inv s" and "m \<noteq> n"
  shows "labels_of s' m = labels_of s m"
proof -
  from assms(1,2) obtain s1 where w: "write_labels wadd n add s = (tr_add_failures r, s1)"
      "write_labels wrem n rm s1 = (tr_remove_failures r, s')" "inv s1"
    by (rule apply_writes)
  from write_adds_other [OF w(1) assms(2,3)] write_removes_other [OF w(2,3) assms(3)] show ?thesis
    by simp
qed

lemma apply_labels_outside:
  assumes "apply_issue_labels wadd wrem lc hp dry io n pr add rm ts c (s, db) = (r, s', db')"
    and "inv s" and "\<forall>l \<in> set add. valid l" and "l \<notin> set add" and "l \<notin> set rm"
  shows "l \<in> labels_of s' n \<longleftrightarrow> l \<in> labels_of s n"
proof -
  from assms(1,2) obtain s1 where w: "write_labels wadd n add s = (tr_add_failures r, s1)"
      "write_labels wrem n rm s1 = (tr_remove_failures r, s')" "inv s1"
    by (rule apply_writes)
  from write_adds_bounds [OF w(1) assms(2,3)] write_removes_bounds [OF w(2,3)] assms(4,5)
  show ?thesis
    by auto
qed

lemma transition_exclusive:
  assumes "transition wadd wrem lc hp dry io n ev pr c (s, db) = Some (r, s', db')"
    and "inv s" and "tr_ok r" and "labels_distinct lc"
    and "\<forall>l \<in> set (all_labels lc). valid l"
    and "map_of (edges lc) ev = Some (add, rm)" and "add \<noteq> []"
  shows "labels_of s' n \<inter> workflow_labels lc = set add \<inter> workflow_labels lc"
proof -
  have e: "(ev, add, rm) \<in> set (edges lc)"
    using assms(6) by (rule map_of_edges)
  have "set add \<subseteq> set (all_labels lc)"
    using e by (auto simp: edges_def Let_def all_labels_def)
  then have "labels_of s' n = (labels_of s n \<union> set add) - set rm"
    using assms by (intro apply_labels_ok) (auto simp: transition_def)
  with edges_exclusive [OF e assms(7)] edges_disjoint [OF e assms(4)] show ?thesis
    by auto
qed

end

section \<open>The event chain\<close>

text \<open>
  A chain of lifecycle events is well formed when every transition starts at the state recorded
  before it, moves, and every ready observation opens an episode that was not open. That is the
  strict form. A writer whose SELECT failed takes the history for empty: in the other form a
  transition may also name no state to start from, and a ready observation may repeat.
\<close>

fun chained :: "bool \<Rightarrow> string option \<Rightarrow> event list \<Rightarrow> bool" where
  "chained strict st [] \<longleftrightarrow> True"
| "chained strict st (e # es) \<longleftrightarrow>
     (ev_kind e = ''lifecycle_transition'' \<longrightarrow>
        (ev_from e = st \<or> \<not> strict \<and> ev_from e = None) \<and>
        ev_to e \<noteq> None \<and> ev_to e \<noteq> ev_from e) \<and>
     (strict \<and> ev_kind e = ''ready_observed'' \<longrightarrow> st = None \<or> st \<in> Some ` ready_absent_states) \<and>
     chained strict (lifecycle_step st e) es"

lemma chained_append:
  "chained strict st (es @ fs) \<longleftrightarrow>
     chained strict st es \<and> chained strict (foldl lifecycle_step st es) fs"
  by (induction es arbitrary: st) auto

text \<open>The rows of an issue in the database, and the state they record.\<close>

definition history :: "events_db \<Rightarrow> int \<Rightarrow> event list" where
  "history db n = filter (\<lambda>e. ev_issue e = Some n) (or_empty db)"

definition recorded_state :: "events_db \<Rightarrow> int \<Rightarrow> string option" where
  "recorded_state db n = foldl lifecycle_step None (history db n)"

lemma query_history: "query_events io db n = (if io_reads io then history db n else [])"
  by (simp add: query_events_def history_def or_empty_def split: option.split)

lemma current_recorded:
  "current_lifecycle_state io db n = (if io_reads io then recorded_state db n else None)"
  by (simp add: current_lifecycle_state_def recorded_state_def query_history)

definition chain_ok :: "bool \<Rightarrow> events_db \<Rightarrow> bool" where
  "chain_ok strict db \<longleftrightarrow> (\<forall>n. chained strict None (history db n))"

lemma history_log_event:
  "history (log_event io e db) n =
     history db n @ (if db \<noteq> None \<and> io_writes io \<and> ev_issue e = Some n then [e] else [])"
  by (auto simp: history_def or_empty_def log_event_def split: option.splits)

lemma chain_ok_log_event:
  assumes "chain_ok strict db"
    and "\<And>n. ev_issue e = Some n \<Longrightarrow> chained strict (recorded_state db n) [e]"
  shows "chain_ok strict (log_event io e db)"
  using assms
  by (auto simp: chain_ok_def history_log_event chained_append recorded_state_def
      simp del: chained.simps(2))

lemma emit_chain_ok:
  "chain_ok strict db \<Longrightarrow> strict \<longrightarrow> io_reads io \<Longrightarrow>
   chain_ok strict (emit_lifecycle_transition io n pr st c db)"
  unfolding emit_lifecycle_transition_def Let_def
  by (auto intro!: chain_ok_log_event simp: current_recorded split: if_splits)

lemma settle_chain_ok:
  "settle_labels lc hp dry io n pr add rm ts c af rf db = (r, db') \<Longrightarrow> chain_ok strict db \<Longrightarrow>
   strict \<longrightarrow> io_reads io \<Longrightarrow> chain_ok strict db'"
  by (auto simp: settle_labels_def Let_def emit_chain_ok split: if_splits option.splits)

text \<open>
  What a pass of intake records for one issue (\<^verbatim>\<open>orchestration/state_intake.intake\<close>, the part that
  writes the event): a ready observation when one is due.
\<close>

definition intake_observe ::
  "db_io \<Rightarrow> label_config \<Rightarrow> int \<Rightarrow> string set \<Rightarrow> events_db \<Rightarrow> events_db" where
  "intake_observe io lc n issue_labels db =
     (if ready_observed_due io db lc n issue_labels
      then log_event io
             \<lparr> ev_kind = ''ready_observed'', ev_issue = Some n, ev_pr = None,
               ev_from = None, ev_to = None, ev_cause = None \<rparr> db
      else db)"

lemma intake_chain_ok:
  "chain_ok strict db \<Longrightarrow> strict \<longrightarrow> io_reads io \<Longrightarrow> chain_ok strict (intake_observe io lc n ls db)"
  unfolding intake_observe_def ready_observed_due_def ready_episode_open_def
  by (auto intro!: chain_ok_log_event simp: current_recorded split: option.splits)

text \<open>
  The steps of the event database: a write through the label seam with any store and any
  outcome, an intake observation, or an event of another kind, each with the reads and writes
  of the database that \<open>io\<close> lets succeed.
\<close>

inductive db_step :: "db_io \<Rightarrow> events_db \<Rightarrow> events_db \<Rightarrow> bool" where
  label_write:
    "settle_labels lc hp dry io n pr add rm ts c af rf db = (r, db') \<Longrightarrow> db_step io db db'"
| intake: "db_step io db (intake_observe io lc n ls db)"
| other:
    "ev_kind e \<noteq> ''lifecycle_transition'' \<Longrightarrow> ev_kind e \<noteq> ''ready_observed'' \<Longrightarrow>
     db_step io db (log_event io e db)"

inductive_cases db_stepE: "db_step io db db'"

text \<open>\<open>db_reachable strict\<close>: by any steps, or (\<open>strict\<close>) by steps whose reads succeed.\<close>

inductive db_reachable :: "bool \<Rightarrow> events_db \<Rightarrow> bool" for strict where
  fresh: "db_reachable strict (Some [])"
| closed_db: "db_reachable strict None"
| step: "db_reachable strict db \<Longrightarrow> db_step io db db' \<Longrightarrow> strict \<longrightarrow> io_reads io \<Longrightarrow>
    db_reachable strict db'"

lemma db_step_chain_ok:
  "db_step io db db' \<Longrightarrow> chain_ok strict db \<Longrightarrow> strict \<longrightarrow> io_reads io \<Longrightarrow> chain_ok strict db'"
proof (induction rule: db_step.induct)
  case (other e io db)
  then show ?case
    by (auto intro!: chain_ok_log_event)
qed (auto dest: settle_chain_ok intro: intake_chain_ok)

lemma db_reachable_chain_ok: "db_reachable strict db \<Longrightarrow> chain_ok strict db"
proof (induction rule: db_reachable.induct)
  case (step db io db')
  then show ?case
    by (blast intro: db_step_chain_ok)
qed (simp_all add: chain_ok_def history_def or_empty_def)

text \<open>\<open>apply_issue_labels\<close> and \<open>transition\<close> move the database by label-write steps.\<close>

lemma apply_db_step:
  "apply_issue_labels wadd wrem lc hp dry io n pr add rm ts c (s, db) = (r, s', db') \<Longrightarrow>
   db_step io db db'"
  by (auto simp: apply_issue_labels_def split: prod.splits intro: db_step.label_write)

lemma transition_db_step:
  "transition wadd wrem lc hp dry io n ev pr c (s, db) = Some (r, s', db') \<Longrightarrow> db_step io db db'"
  by (auto simp: transition_def split: option.splits prod.splits intro: apply_db_step)

section \<open>What the seam reports and records\<close>

text \<open>The recorded state after a fully applied write through an open database.\<close>

lemma emit_state:
  "db \<noteq> None \<Longrightarrow> io_reads io \<Longrightarrow> io_writes io \<Longrightarrow>
   recorded_state (emit_lifecycle_transition io n pr st c db) n = Some st"
  by (auto simp: emit_lifecycle_transition_def Let_def current_recorded recorded_state_def
      history_log_event lifecycle_step_def)

lemma emit_other_issue:
  "m \<noteq> n \<Longrightarrow> history (emit_lifecycle_transition io n pr st c db) m = history db m"
  by (auto simp: emit_lifecycle_transition_def Let_def history_log_event)

lemma emit_idem:
  "db \<noteq> None \<Longrightarrow> io_reads io \<Longrightarrow> io_writes io \<Longrightarrow> io_reads io' \<Longrightarrow>
   emit_lifecycle_transition io' n pr' st c'
     (emit_lifecycle_transition io n pr st c db) = emit_lifecycle_transition io n pr st c db"
  by (subst emit_lifecycle_transition_def) (simp add: emit_state current_recorded)

lemma write_labels_fails:
  "write_labels w n ls s = (fs, s') \<Longrightarrow> set fs \<subseteq> {n} \<times> set ls"
proof (induction ls arbitrary: s fs)
  case (Cons l ls)
  then show ?case
    by (fastforce split: prod.splits if_splits)
qed simp

end
