(* ===== verification/Local_Issues.thy ===== *)
theory Local_Issues
  imports Issue_Texts Label_Store
begin

text \<open>
  The local-file issue backend (\<^verbatim>\<open>local_issues.py\<close>, class \<^verbatim>\<open>LocalFileGitHub\<close>): the operations of
  its issue and label surface over a directory of issue files, and its dependency gate. It
  provides the label store that the label seam writes through (the interpretation at the end).

  A directory is the list of its files in name order. The writes work on the texts of the files
  (\<open>disk_file\<close>), the reads on what a scan makes of them (\<open>issue_file\<close>, by \<open>view\<close>). Whether a file
  can be read again and written is the argument \<open>wr\<close>, a function of the file's name and the
  directory. Git is the record \<open>git_view\<close>.
\<close>

section \<open>Reading and writing\<close>

datatype client_error = GitHubError string

text \<open>\<^verbatim>\<open>_scan\<close>: a missing directory raises; the other problems are only warned about.\<close>

definition client_scan :: "issue_file list option \<Rightarrow> client_error + local_issue list" where
  "client_scan dir =
     (case dir of
        None \<Rightarrow> Inl (GitHubError ''issues directory does not exist'')
      | Some fs \<Rightarrow> Inr (scanned fs))"

type_synonym write_oracle = "string \<Rightarrow> disk_file list \<Rightarrow> bool"

text \<open>
  The write of \<^verbatim>\<open>_mutate\<close>: read the file again, rewrite one key of its text, replace the file. A
  file without frontmatter (an IssueFileError), one that is not UTF-8, and an error of the disk
  all give False and leave the file alone.
\<close>

definition write_key ::
  "write_oracle \<Rightarrow> string \<Rightarrow> string \<Rightarrow> string \<Rightarrow> disk_file list \<Rightarrow> bool \<times> disk_file list" where
  "write_key wr name key rendered ds =
     (case find (\<lambda>d. df_name d = name) ds of
        None \<Rightarrow> (False, ds)
      | Some d \<Rightarrow>
          (case df_content d of
             Inl _ \<Rightarrow> (False, ds)
           | Inr txt \<Rightarrow>
               (case rewrite_frontmatter_key txt key rendered of
                  None \<Rightarrow> (False, ds)
                | Some txt' \<Rightarrow>
                    if wr name ds
                    then (True, map (\<lambda>f. if df_name f = name then f\<lparr>df_content := Inr txt'\<rparr> else f) ds)
                    else (False, ds))))"

text \<open>\<^verbatim>\<open>_mutate\<close>: \<open>update\<close> gives the rendered value, or None for ``already as desired''.\<close>

definition mutate ::
  "yaml_io \<Rightarrow> bool \<Rightarrow> write_oracle \<Rightarrow> int \<Rightarrow> string \<Rightarrow> (local_issue \<Rightarrow> string option) \<Rightarrow>
   disk_file list \<Rightarrow> bool \<times> disk_file list" where
  "mutate y dry wr number key update ds =
     (case by_number (scanned (view y ds)) number of
        None \<Rightarrow> (False, ds)
      | Some i \<Rightarrow>
          (case update i of
             None \<Rightarrow> (True, ds)
           | Some rendered \<Rightarrow> if dry then (True, ds) else write_key wr (li_file i) key rendered ds))"

definition add_issue_label :: "yaml_io \<Rightarrow> bool \<Rightarrow> write_oracle \<Rightarrow> disk_file list label_write" where
  "add_issue_label y dry wr number label =
     mutate y dry wr number ''labels''
       (\<lambda>i. if label \<in> set (li_labels i) then None
            else Some (render_flow_list y (li_labels i @ [label])))"

definition remove_issue_label :: "yaml_io \<Rightarrow> bool \<Rightarrow> write_oracle \<Rightarrow> disk_file list label_write" where
  "remove_issue_label y dry wr number label =
     mutate y dry wr number ''labels''
       (\<lambda>i. if label \<in> set (li_labels i)
            then Some (render_flow_list y (filter (\<lambda>name. name \<noteq> label) (li_labels i))) else None)"

text \<open>\<^verbatim>\<open>close_issue\<close>; \<open>today\<close> is the date it stamps, between double quotes.\<close>

definition close_issue ::
  "yaml_io \<Rightarrow> bool \<Rightarrow> write_oracle \<Rightarrow> string \<Rightarrow> int \<Rightarrow> disk_file list \<Rightarrow> bool \<times> disk_file list" where
  "close_issue y dry wr today number ds =
     (case mutate y dry wr number ''state'' (\<lambda>i. if li_open i then Some ''closed'' else None) ds of
        (closed, ds1) \<Rightarrow>
          (closed,
           if closed \<and> \<not> dry
           then snd (mutate y dry wr number ''resolved''
                       (\<lambda>i. if li_resolved i \<noteq> [] then None
                            else Some ([CHR 0x22] @ today @ [CHR 0x22])) ds1)
           else ds1))"

definition state_name :: "local_issue \<Rightarrow> string" where
  "state_name i = (if li_open i then ''OPEN'' else ''CLOSED'')"

text \<open>\<^verbatim>\<open>issue_list\<close>: the wanted labels are a conjunction; newest number first.\<close>

definition issue_list :: "string list \<Rightarrow> string option \<Rightarrow> issue_file list \<Rightarrow> local_issue list" where
  "issue_list labels state fs =
     (let effective = lower (if truthy state then or_empty state else ''open'')
      in rev (sort_key li_number
               (filter (\<lambda>i. set labels \<subseteq> set (li_labels i) \<and>
                            (effective = ''all'' \<or> lower (state_name i) = effective))
                  (scanned fs))))"

definition issue_view_local :: "int \<Rightarrow> issue_file list \<Rightarrow> local_issue option" where
  "issue_view_local number fs = by_number (scanned fs) number"

definition label_list :: "issue_file list \<Rightarrow> string list" where
  "label_list fs = sorted_list_of_set (\<Union> (set ` li_labels ` set (scanned fs)))"

section \<open>The dependency gate\<close>

text \<open>
  What git answers: whether the root is a repository, the live worker branches of an issue with
  their tips, the tip of a named branch, and the two tests of a tip against HEAD.
\<close>

record git_view =
  gv_repo :: bool
  gv_heads :: "int \<Rightarrow> (string \<times> string) list"
  gv_tip :: "string \<Rightarrow> string option"
  gv_ancestor :: "string \<Rightarrow> bool"
  gv_patch_equivalent :: "string \<Rightarrow> bool"

text \<open>
  \<^verbatim>\<open>_PARK_COMMENT_BRANCH_RE.finditer\<close>: the names between the backticks after the phrase. Each
  match goes on after its closing backtick.
\<close>

definition park_phrase :: "string" where
  "park_phrase = ''committed on branch '' @ [CHR 0x60]"

function park_names :: "string \<Rightarrow> string list" where
  "park_names [] = []"
| "park_names (c # cs) =
     (case strip_prefix park_phrase (c # cs) of
        None \<Rightarrow> park_names cs
      | Some r \<Rightarrow>
          (let name = takeWhile (\<lambda>x. x \<noteq> CHR 0x60) r; after = drop (length name) r
           in if name = [] \<or> after = [] \<or> length (c # cs) \<le> length after then park_names cs
              else name # park_names (tl after)))"
  by pat_completeness auto
termination
  by (relation "measure length") auto

definition remove_ref_prefix :: "string \<Rightarrow> string" where
  "remove_ref_prefix s = (case strip_prefix ''refs/heads/'' s of None \<Rightarrow> s | Some r \<Rightarrow> r)"

fun add_parked :: "git_view \<Rightarrow> string list \<Rightarrow> (string \<times> string) list \<Rightarrow> (string \<times> string) list" where
  "add_parked g [] heads = heads"
| "add_parked g (nm # nms) heads =
     (let name = remove_ref_prefix (strip nm)
      in add_parked g nms
           (if name \<noteq> [] \<and> name \<notin> fst ` set heads
            then (case gv_tip g name of None \<Rightarrow> heads | Some tip \<Rightarrow> heads @ [(name, tip)])
            else heads))"

definition candidate_heads :: "git_view \<Rightarrow> local_issue \<Rightarrow> (string \<times> string) list" where
  "candidate_heads g i =
     add_parked g (concat (map park_names (li_comments i))) (gv_heads g (li_number i))"

definition closed_issue_work_unlanded :: "git_view \<Rightarrow> local_issue \<Rightarrow> bool \<times> string list" where
  "closed_issue_work_unlanded g i =
     (if \<not> gv_repo g then (False, [])
      else (let stray = filter (\<lambda>(name, tip). \<not> gv_ancestor g tip) (candidate_heads g i)
            in (list_ex (\<lambda>(name, tip). \<not> gv_patch_equivalent g tip) stray,
                map fst (filter (\<lambda>(name, tip). gv_patch_equivalent g tip) stray))))"

text \<open>The per-instance memory of the client.\<close>

record client_memory =
  cm_warned :: "int list"
  cm_noted :: "int list"
  cm_satisfied :: "(int \<times> string list) list"

text \<open>
  \<^verbatim>\<open>are_issues_open\<close>: the loop over the asked numbers. \<^verbatim>\<open>_patch_equiv_satisfied\<close> is a dict; an
  issue is noted at most once, so an association list that grows at its end is one.
\<close>

fun are_open_loop ::
  "git_view \<Rightarrow> local_issue list \<Rightarrow> int list \<Rightarrow> int set \<times> client_memory \<Rightarrow> int set \<times> client_memory" where
  "are_open_loop g is [] (op, m) = (op, m)"
| "are_open_loop g is (n # ns) (op, m) =
     are_open_loop g is ns
       (case by_number is n of
          None \<Rightarrow> (op, m)
        | Some i \<Rightarrow>
            if li_open i then (op, m)
            else (case closed_issue_work_unlanded g i of (unlanded, pe) \<Rightarrow>
              if unlanded
              then (insert n op,
                    if n \<in> set (cm_warned m) then m else m\<lparr>cm_warned := cm_warned m @ [n]\<rparr>)
              else if pe \<noteq> [] \<and> n \<notin> set (cm_noted m)
              then (op, m\<lparr>cm_noted := cm_noted m @ [n],
                          cm_satisfied := cm_satisfied m @ [(n, sort pe)]\<rparr>)
              else (op, m)))"

definition are_issues_open ::
  "git_view \<Rightarrow> issue_file list \<Rightarrow> int list \<Rightarrow> client_memory \<Rightarrow> int set \<times> client_memory" where
  "are_issues_open g fs numbers m =
     (let is = scanned fs
      in are_open_loop g is numbers
           ({n \<in> set numbers. case by_number is n of None \<Rightarrow> False | Some i \<Rightarrow> li_open i}, m))"

definition drain_patch_equiv_satisfied ::
  "client_memory \<Rightarrow> (int \<times> string list) list \<times> client_memory" where
  "drain_patch_equiv_satisfied m = (cm_satisfied m, m\<lparr>cm_satisfied := []\<rparr>)"

lemma open_loop_member:
  "n \<in> fst (are_open_loop g is ns (op, m)) \<longleftrightarrow>
     n \<in> op \<or> (n \<in> set ns \<and>
       (\<exists>i. by_number is n = Some i \<and> \<not> li_open i \<and> fst (closed_issue_work_unlanded g i)))"
proof (induction ns arbitrary: op m)
  case (Cons k ns)
  show ?case
  proof (cases "by_number is k")
    case None
    then show ?thesis
      using Cons by auto
  next
    case (Some i)
    show ?thesis
    proof (cases "li_open i \<or> \<not> fst (closed_issue_work_unlanded g i)")
      case True
      with Some have "\<exists>m'. are_open_loop g is (k # ns) (op, m) = are_open_loop g is ns (op, m')"
        by (cases "closed_issue_work_unlanded g i"; cases "li_open i") (simp_all, blast+)
      then obtain m' where "are_open_loop g is (k # ns) (op, m) = are_open_loop g is ns (op, m')"
        by blast
      with Cons True Some show ?thesis
        by auto
    next
      case False
      with Some have "\<exists>m'. are_open_loop g is (k # ns) (op, m) = are_open_loop g is ns (insert k op, m')"
        by (cases "closed_issue_work_unlanded g i") (simp, blast)
      then obtain m' where "are_open_loop g is (k # ns) (op, m) = are_open_loop g is ns (insert k op, m')"
        by blast
      with Cons False Some show ?thesis
        by auto
    qed
  qed
qed simp

lemma are_issues_open_member:
  "n \<in> fst (are_issues_open g fs numbers m) \<longleftrightarrow>
     n \<in> set numbers \<and>
     (\<exists>i \<in> set (scanned fs). li_number i = n \<and> (li_open i \<or> fst (closed_issue_work_unlanded g i)))"
proof -
  have b: "by_number (scanned fs) n = Some i \<longleftrightarrow> i \<in> set (scanned fs) \<and> li_number i = n" for i
    by (rule by_number_Some [OF scanned_distinct])
  have "(case by_number (scanned fs) n of None \<Rightarrow> False | Some i \<Rightarrow> li_open i) \<longleftrightarrow>
      (\<exists>i. by_number (scanned fs) n = Some i \<and> li_open i)"
    by (simp split: option.split)
  then show ?thesis
    unfolding are_issues_open_def Let_def open_loop_member mem_Collect_eq b by blast
qed

section \<open>The label store the files make\<close>

definition local_labels :: "yaml_io \<Rightarrow> disk_file list \<Rightarrow> int \<Rightarrow> string set" where
  "local_labels y ds n =
     (case by_number (scanned (view y ds)) n of None \<Rightarrow> {} | Some i \<Rightarrow> set (li_labels i))"

text \<open>A label survives the file: it is not empty and has no space at its ends.\<close>

definition clean_label :: "string \<Rightarrow> bool" where
  "clean_label l \<longleftrightarrow> strip l = l \<and> l \<noteq> []"

text \<open>A directory holds one file of each name, and YAML reads back the labels it is given.\<close>

definition dir_ok :: "yaml_io \<Rightarrow> disk_file list \<Rightarrow> bool" where
  "dir_ok y ds \<longleftrightarrow>
     distinct (map df_name ds) \<and>
     (\<forall>d \<in> set ds. \<forall>txt. df_content d = Inr txt \<longrightarrow> labels_stable y txt)"

text \<open>
  The abstract write: one key of one loaded file gets a value. \<open>write_labels_refines\<close> shows that the
  write of the text implements it.
\<close>

definition put_key :: "string \<Rightarrow> string \<Rightarrow> yaml \<Rightarrow> issue_file list \<Rightarrow> issue_file list" where
  "put_key name key v fs =
     map (\<lambda>f. if if_name f = name
              then (case if_text f of
                      Unreadable _ \<Rightarrow> f
                    | Loaded meta b c \<Rightarrow> f\<lparr>if_text := Loaded (meta(key \<mapsto> v)) b c\<rparr>)
              else f) fs"

definition flow_list :: "string \<Rightarrow> string list \<Rightarrow> yaml" where
  "flow_list t ls = YSeq (map YStr ls) t"

definition relabel :: "string \<Rightarrow> string list \<Rightarrow> local_issue \<Rightarrow> local_issue" where
  "relabel name ls i = (if li_file i = name then i\<lparr>li_labels := clean_labels ls\<rparr> else i)"

lemma find_df_name:
  "distinct (map df_name ds) \<Longrightarrow> d \<in> set ds \<Longrightarrow> find (\<lambda>x. df_name x = df_name d) ds = Some d"
  by (induction ds) (auto simp: rev_image_eqI)

lemma write_labels_refines:
  assumes "dir_ok y ds" and "d \<in> set ds" and "load_file (view_file y d) = Some i"
  shows "\<exists>txt'. write_key wr (df_name d) ''labels'' (render_flow_list y ls) ds =
      (if wr (df_name d) ds
       then (True, map (\<lambda>f. if df_name f = df_name d then f\<lparr>df_content := Inr txt'\<rparr> else f) ds)
       else (False, ds))"
    and "write_key wr (df_name d) ''labels'' (render_flow_list y ls) ds = (True, ds') \<Longrightarrow>
      dir_ok y ds' \<and> (\<exists>t. view y ds' = put_key (df_name d) ''labels'' (flow_list t ls) (view y ds))"
proof -
  obtain old meta b c where old: "df_content d = Inr old" "load_text y old = Loaded meta b c"
    using load_file_Some [OF assms(3)] by (auto simp: view_file_def split: sum.splits)
  have "labels_stable y old"
    using assms(1,2) old(1) by (auto simp: dir_ok_def)
  then obtain txt' t where w:
    "rewrite_frontmatter_key old ''labels'' (render_flow_list y ls) = Some txt'"
    "load_text y txt' = Loaded (meta(''labels'' \<mapsto> YSeq (map YStr ls) t)) b c" "labels_stable y txt'"
    using rewrite_labels_text [of y old meta b c ls] old(2) by metis
  have "find (\<lambda>x. df_name x = df_name d) ds = Some d"
    using assms(1,2) by (simp add: dir_ok_def find_df_name)
  with old w(1) have wk: "write_key wr (df_name d) ''labels'' (render_flow_list y ls) ds =
      (if wr (df_name d) ds
       then (True, map (\<lambda>f. if df_name f = df_name d then f\<lparr>df_content := Inr txt'\<rparr> else f) ds)
       else (False, ds))"
    by (simp add: write_key_def)
  then show "\<exists>txt'. write_key wr (df_name d) ''labels'' (render_flow_list y ls) ds =
      (if wr (df_name d) ds
       then (True, map (\<lambda>f. if df_name f = df_name d then f\<lparr>df_content := Inr txt'\<rparr> else f) ds)
       else (False, ds))"
    by blast
  assume "write_key wr (df_name d) ''labels'' (render_flow_list y ls) ds = (True, ds')"
  with wk have ds': "ds' = map (\<lambda>f. if df_name f = df_name d then f\<lparr>df_content := Inr txt'\<rparr> else f) ds"
    by (simp split: if_splits)
  have one: "f = d" if "f \<in> set ds" "df_name f = df_name d" for f
    using assms(1,2) that by (auto simp: dir_ok_def distinct_map dest: inj_onD)
  have "view y ds' = put_key (df_name d) ''labels'' (flow_list t ls) (view y ds)"
    unfolding ds' view_def put_key_def map_map comp_def
  proof (rule map_cong [OF refl])
    fix f
    assume "f \<in> set ds"
    with one [of f] old w(2) show "view_file y (if df_name f = df_name d then f\<lparr>df_content := Inr txt'\<rparr> else f) =
        (if if_name (view_file y f) = df_name d
         then (case if_text (view_file y f) of
                 Unreadable _ \<Rightarrow> view_file y f
               | Loaded meta b c \<Rightarrow>
                   view_file y f\<lparr>if_text := Loaded (meta(''labels'' \<mapsto> flow_list t ls)) b c\<rparr>)
         else view_file y f)"
      by (cases "df_name f = df_name d") (auto simp: view_file_def flow_list_def)
  qed
  moreover have "distinct (map df_name ds')"
    using assms(1) unfolding ds' dir_ok_def by (simp add: comp_def if_distrib cong: if_cong)
  moreover have "\<forall>f \<in> set ds'. \<forall>x. df_content f = Inr x \<longrightarrow> labels_stable y x"
    using assms(1) w(3) unfolding ds' dir_ok_def by auto
  ultimately show "dir_ok y ds' \<and> (\<exists>t. view y ds' = put_key (df_name d) ''labels'' (flow_list t ls) (view y ds))"
    by (auto simp: dir_ok_def)
qed

lemma read_issue_relabel:
  assumes "if_text f = Loaded meta b c" and "read_issue n f = Inr i"
  shows "read_issue n (f\<lparr>if_text := Loaded (meta(''labels'' \<mapsto> flow_list t ls)) b c\<rparr>) =
    Inr (i\<lparr>li_labels := clean_labels ls\<rparr>)"
  using assms
  by (auto simp: read_issue_def Let_def meta_str_def flow_list_def normalize_labels_def
      bindE_Inr_iff split: if_splits)

lemma load_file_relabel:
  assumes "load_file f = Some i" and "if_name f = name"
    and "if_text f = Loaded meta b c"
  shows "load_file (f\<lparr>if_text := Loaded (meta(''labels'' \<mapsto> flow_list t ls)) b c\<rparr>) =
    Some (relabel name ls i)"
proof -
  from assms(1) obtain n where n: "if_regular f" "issue_number_from_name (if_name f) = Some n"
      "read_issue n f = Inr i"
    by (auto simp: load_file_def split: if_splits option.splits sum.splits)
  with read_issue_relabel [OF assms(3) n(3)] read_issue_Inr [OF n(3)] assms(2) show ?thesis
    by (simp add: load_file_def relabel_def)
qed

lemma write_labels_loaded:
  assumes "distinct (map if_name fs)" and "f \<in> set fs" and "load_file f = Some i"
  shows "List.map_filter load_file (put_key (if_name f) ''labels'' (flow_list t ls) fs) =
    map (relabel (if_name f) ls) (List.map_filter load_file fs)"
  using assms
proof (induction fs)
  case (Cons x xs)
  let ?v = "flow_list t ls"
  have other: "List.map_filter load_file (put_key (if_name f) ''labels'' ?v zs) =
      map (relabel (if_name f) ls) (List.map_filter load_file zs)"
    if "if_name f \<notin> if_name ` set zs" for zs
    using that
  proof (induction zs)
    case (Cons z zs)
    have "relabel (if_name f) ls j = j" if "load_file z = Some j" for j
      using load_file_Some [OF that] Cons.prems by (auto simp: relabel_def)
    moreover have "if_name z \<noteq> if_name f"
      using Cons.prems by auto
    ultimately show ?case
      using Cons by (simp add: put_key_def map_filter_Cons split: option.split)
  qed (simp add: put_key_def List.map_filter_def)
  show ?case
  proof (cases "x = f")
    case True
    from Cons.prems(3) obtain meta b c where tx: "if_text f = Loaded meta b c"
      by (auto dest: load_file_Some)
    have "if_name f \<notin> if_name ` set xs"
      using Cons.prems(1) True by auto
    from other [OF this] show ?thesis
      using True tx Cons.prems(3) load_file_relabel [OF Cons.prems(3) refl tx, of t ls]
      by (simp add: put_key_def map_filter_Cons)
  next
    case False
    with Cons.prems have f: "f \<in> set xs" "if_name x \<noteq> if_name f" "distinct (map if_name xs)"
      by auto
    then have "load_file x = Some j \<Longrightarrow> relabel (if_name f) ls j = j" for j
      by (auto simp: relabel_def dest: load_file_Some)
    with Cons.IH [OF f(3,1) Cons.prems(3)] f(2) show ?thesis
      by (simp add: put_key_def map_filter_Cons split: option.split)
  qed
qed simp

lemma li_number_relabel [simp]: "li_number (relabel name ls i) = li_number i"
  by (simp add: relabel_def)

lemma duplicated_cong: "map li_number xs = map li_number ys \<Longrightarrow> duplicated xs = duplicated ys"
proof -
  assume a: "map li_number xs = map li_number ys"
  have l: "length (filter (\<lambda>i. li_number i = n) zs) = length (filter (\<lambda>m. m = n) (map li_number zs))"
    for n zs
    by (simp add: filter_map comp_def)
  show ?thesis
    unfolding duplicated_def l a ..
qed

lemma scanned_relabel:
  assumes "distinct (map if_name fs)" and "f \<in> set fs" and "load_file f = Some i"
  shows "scanned (put_key (if_name f) ''labels'' (flow_list t ls) fs) =
    map (relabel (if_name f) ls) (scanned fs)"
  using write_labels_loaded [OF assms, of t ls]
    duplicated_cong [of "map (relabel (if_name f) ls) (List.map_filter load_file fs)"
      "List.map_filter load_file fs"]
  by (simp add: scanned_alt filter_map comp_def)

lemma by_number_map:
  assumes "distinct (map li_number is)" and "\<And>i. li_number (g i) = li_number i"
  shows "by_number (map g is) n = map_option g (by_number is n)"
proof -
  have d: "distinct (map li_number (map g is))"
    using assms by (simp add: comp_def)
  show ?thesis
  proof (cases "by_number is n")
    case None
    then have "\<forall>i \<in> set is. li_number i \<noteq> n"
      by (force simp: by_number_def map_of_eq_None_iff)
    then have "by_number (map g is) n = None"
      using assms(2) by (force simp: by_number_def map_of_eq_None_iff)
    with None show ?thesis
      by simp
  next
    case (Some i)
    then have "by_number (map g is) n = Some (g i)"
      using by_number_Some [OF d, of n "g i"] by_number_Some [OF assms(1)] assms(2) by auto
    with Some show ?thesis
      by simp
  qed
qed

text \<open>Two issues of a scan come from two files.\<close>

lemma scanned_files_differ:
  "i \<in> set (scanned fs) \<Longrightarrow> j \<in> set (scanned fs) \<Longrightarrow> li_number i \<noteq> li_number j \<Longrightarrow>
   li_file i \<noteq> li_file j"
  by (auto simp: scanned_alt set_map_filter dest!: load_file_Some)

text \<open>What the write of an issue's labels leaves, for the issues of the next scan.\<close>

lemma labels_written:
  assumes "dir_ok y ds" and "by_number (scanned (view y ds)) n = Some i"
    and "write_key wr (li_file i) ''labels'' (render_flow_list y ls) ds = (b, ds')"
  shows "b \<longleftrightarrow> wr (li_file i) ds" and "\<not> b \<Longrightarrow> ds' = ds" and "dir_ok y ds'"
    and "b \<Longrightarrow> scanned (view y ds') = map (relabel (li_file i) ls) (scanned (view y ds))"
proof -
  have "i \<in> set (scanned (view y ds))"
    using assms(2) by_number_Some [OF scanned_distinct] by auto
  then obtain d where d: "d \<in> set ds" "load_file (view_file y d) = Some i"
    by (auto simp: scanned_alt set_map_filter view_def)
  have nm: "li_file i = df_name d"
    using load_file_Some [OF d(2)] by simp
  from write_labels_refines(1) [OF assms(1) d, of wr ls] assms(3)
  show b: "b \<longleftrightarrow> wr (li_file i) ds" and same: "\<not> b \<Longrightarrow> ds' = ds"
    by (auto simp: nm split: if_splits)
  note w = write_labels_refines(2) [OF assms(1) d, of wr ls ds']
  show "dir_ok y ds'"
    using w assms(1,3) same by (cases b) (auto simp: nm)
  assume "b"
  with w assms(3) obtain t where "view y ds' = put_key (df_name d) ''labels'' (flow_list t ls) (view y ds)"
    by (auto simp: nm)
  moreover have "view_file y d \<in> set (view y ds)"
    using d(1) by (simp add: view_def)
  moreover have "distinct (map if_name (view y ds))"
    using assms(1) by (simp add: dir_ok_def)
  ultimately show "scanned (view y ds') = map (relabel (li_file i) ls) (scanned (view y ds))"
    using scanned_relabel [of "view y ds" "view_file y d" i t ls] d(2) by (simp add: nm)
qed

text \<open>The one fact the label operations need: what a successful label write leaves.\<close>

lemma mutate_labels:
  assumes "dir_ok y ds"
    and "mutate y False wr n ''labels'' update ds = (b, ds')"
    and "\<And>i v. update i = Some v \<Longrightarrow> v = render_flow_list y (upd i)"
  shows "dir_ok y ds'"
    and "m \<noteq> n \<Longrightarrow> local_labels y ds' m = local_labels y ds m"
    and "\<not> b \<Longrightarrow> ds' = ds"
    and "b \<Longrightarrow> \<exists>i. by_number (scanned (view y ds)) n = Some i \<and>
           local_labels y ds' n =
             (if update i = None then set (li_labels i) else set (clean_labels (upd i)))"
proof -
  consider (same) "ds' = ds"
      "b \<Longrightarrow> \<exists>i. by_number (scanned (view y ds)) n = Some i \<and> update i = None"
    | (written) i v where "by_number (scanned (view y ds)) n = Some i" "update i = Some v"
      "write_key wr (li_file i) ''labels'' v ds = (b, ds')"
    using assms(2) by (auto simp: mutate_def split: option.splits)
  then have "dir_ok y ds' \<and> (m \<noteq> n \<longrightarrow> local_labels y ds' m = local_labels y ds m) \<and>
    (\<not> b \<longrightarrow> ds' = ds) \<and>
    (b \<longrightarrow> (\<exists>i. by_number (scanned (view y ds)) n = Some i \<and>
           local_labels y ds' n =
             (if update i = None then set (li_labels i) else set (clean_labels (upd i)))))"
  proof cases
    case same
    have "\<exists>i. by_number (scanned (view y ds)) n = Some i \<and> update i = None" if b
      using same(2) that by blast
    with same(1) assms(1) show ?thesis
      by (fastforce simp: local_labels_def)
  next
    case (written i v)
    note w = labels_written [OF assms(1) written(1) written(3) [unfolded assms(3) [OF written(2)]]]
    show ?thesis
    proof (cases b)
      case True
      note s = w(4) [OF True]
      have byn: "by_number (scanned (view y ds')) k =
          map_option (relabel (li_file i) (upd i)) (by_number (scanned (view y ds)) k)" for k
        unfolding s by (rule by_number_map [OF scanned_distinct]) simp
      have "local_labels y ds' m = local_labels y ds m" if "m \<noteq> n"
      proof (cases "by_number (scanned (view y ds)) m")
        case (Some j)
        with written(1) have "li_file j \<noteq> li_file i"
          using scanned_files_differ [of j "view y ds" i] that by_number_Some [OF scanned_distinct] by metis
        with Some show ?thesis
          by (simp add: local_labels_def byn relabel_def)
      qed (simp add: local_labels_def byn)
      moreover have "local_labels y ds' n = set (clean_labels (upd i))"
        using written(1) by (simp add: local_labels_def byn relabel_def)
      ultimately show ?thesis
        using w(3) True written(1,2) by simp
    qed (use w in simp)
  qed
  then show "dir_ok y ds'"
    and "m \<noteq> n \<Longrightarrow> local_labels y ds' m = local_labels y ds m"
    and "\<not> b \<Longrightarrow> ds' = ds"
    and "b \<Longrightarrow> \<exists>i. by_number (scanned (view y ds)) n = Some i \<and>
           local_labels y ds' n =
             (if update i = None then set (li_labels i) else set (clean_labels (upd i)))"
    by blast+
qed

lemma local_labels_clean:
  "by_number (scanned fs) n = Some i \<Longrightarrow> distinct (li_labels i) \<and> (\<forall>l \<in> set (li_labels i). clean_label l)"
  using scanned_labels_clean [of i fs] by_number_Some [OF scanned_distinct]
  by (auto simp: clean_label_def)

lemma set_clean_labels: "\<forall>l \<in> set ls. clean_label l \<Longrightarrow> set (clean_labels ls) = set ls"
  by (force simp: clean_labels_def clean_label_def)

lemma local_add:
  assumes "dir_ok y ds" and "add_issue_label y False wr n l ds = (b, ds')"
  shows "dir_ok y ds'"
    and "b \<Longrightarrow> clean_label l \<Longrightarrow> local_labels y ds' n = insert l (local_labels y ds n)"
    and "\<not> b \<Longrightarrow> local_labels y ds' n = local_labels y ds n"
    and "m \<noteq> n \<Longrightarrow> local_labels y ds' m = local_labels y ds m"
proof -
  have "(if l \<in> set (li_labels i) then None else Some (render_flow_list y (li_labels i @ [l]))) = Some v \<Longrightarrow>
      v = render_flow_list y (li_labels i @ [l])" for i v
    by (simp split: if_splits)
  note w = mutate_labels [where upd = "\<lambda>i. li_labels i @ [l]",
      OF assms(1) assms(2) [unfolded add_issue_label_def] this]
  show "dir_ok y ds'" and "\<not> b \<Longrightarrow> local_labels y ds' n = local_labels y ds n"
    and "m \<noteq> n \<Longrightarrow> local_labels y ds' m = local_labels y ds m"
    using w(1-3) by simp_all
  assume b: b and c: "clean_label l"
  from w(4) [OF _ b] obtain i where i: "by_number (scanned (view y ds)) n = Some i"
      "local_labels y ds' n = (if l \<in> set (li_labels i) then set (li_labels i)
                             else set (clean_labels (li_labels i @ [l])))"
    by (auto split: if_splits)
  have "set (clean_labels (li_labels i @ [l])) = insert l (set (li_labels i))"
    using local_labels_clean [OF i(1)] c by (subst set_clean_labels) auto
  with i show "local_labels y ds' n = insert l (local_labels y ds n)"
    by (auto simp: local_labels_def)
qed

lemma local_remove:
  assumes "dir_ok y ds" and "remove_issue_label y False wr n l ds = (b, ds')"
  shows "dir_ok y ds'"
    and "b \<Longrightarrow> local_labels y ds' n = local_labels y ds n - {l}"
    and "\<not> b \<Longrightarrow> local_labels y ds' n = local_labels y ds n"
    and "m \<noteq> n \<Longrightarrow> local_labels y ds' m = local_labels y ds m"
proof -
  have "(if l \<in> set (li_labels i)
      then Some (render_flow_list y (filter (\<lambda>name. name \<noteq> l) (li_labels i))) else None) = Some v \<Longrightarrow>
      v = render_flow_list y (filter (\<lambda>name. name \<noteq> l) (li_labels i))" for i v
    by (simp split: if_splits)
  note w = mutate_labels [where upd = "\<lambda>i. filter (\<lambda>name. name \<noteq> l) (li_labels i)",
      OF assms(1) assms(2) [unfolded remove_issue_label_def] this]
  show "dir_ok y ds'" and "\<not> b \<Longrightarrow> local_labels y ds' n = local_labels y ds n"
    and "m \<noteq> n \<Longrightarrow> local_labels y ds' m = local_labels y ds m"
    using w(1-3) by simp_all
  assume b: b
  from w(4) [OF _ b] obtain i where i: "by_number (scanned (view y ds)) n = Some i"
      "local_labels y ds' n = (if l \<notin> set (li_labels i) then set (li_labels i)
         else set (clean_labels (filter (\<lambda>name. name \<noteq> l) (li_labels i))))"
    by (auto split: if_splits)
  have "set (clean_labels (filter (\<lambda>name. name \<noteq> l) (li_labels i))) = set (li_labels i) - {l}"
    using local_labels_clean [OF i(1)] by (subst set_clean_labels) auto
  with i show "local_labels y ds' n = local_labels y ds n - {l}"
    by (auto simp: local_labels_def)
qed

interpretation files: label_store
  "add_issue_label y False wr" "remove_issue_label y False wr" "local_labels y" clean_label "dir_ok y"
  for y wr
  by unfold_locales (blast dest: local_add local_remove)+

text \<open>A dry run reports success where the issue exists, and changes nothing.\<close>

lemma mutate_dry: "mutate y True wr n k u ds = (by_number (scanned (view y ds)) n \<noteq> None, ds)"
  by (auto simp: mutate_def split: option.split)

end
