(* ===== verification/Tracker_Props.thy ===== *)
theory Tracker_Props
  imports Local_Issues
begin

text \<open>
  The properties of the label state machine on the local-file tracker: what a transition leaves on
  disk, what it records, and what the dependency gate answers.
\<close>

section \<open>Writes that find their target\<close>

lemma add_present:
  "by_number (scanned (view y fs)) n = Some i \<Longrightarrow> l \<in> set (li_labels i) \<Longrightarrow>
   add_issue_label y False wr n l fs = (True, fs)"
  by (simp add: add_issue_label_def mutate_def)

lemma remove_absent:
  "by_number (scanned (view y fs)) n = Some i \<Longrightarrow> l \<notin> set (li_labels i) \<Longrightarrow>
   remove_issue_label y False wr n l fs = (True, fs)"
  by (simp add: remove_issue_label_def mutate_def)

lemma add_all_present:
  "by_number (scanned (view y fs)) n = Some i \<Longrightarrow> set ls \<subseteq> set (li_labels i) \<Longrightarrow>
   write_labels (add_issue_label y False wr) n ls fs = ([], fs)"
  by (induction ls) (simp_all add: add_present)

lemma remove_all_absent:
  "by_number (scanned (view y fs)) n = Some i \<Longrightarrow> set ls \<inter> set (li_labels i) = {} \<Longrightarrow>
   write_labels (remove_issue_label y False wr) n ls fs = ([], fs)"
  by (induction ls) (simp_all add: remove_absent)

text \<open>A label write leaves the numbers of the scan as they were.\<close>

lemma mutate_numbers:
  assumes "dir_ok y fs" and "mutate y False wr n ''labels'' update fs = (b, fs')"
    and "\<And>i v. update i = Some v \<Longrightarrow> v = render_flow_list y (upd i)"
  shows "map li_number (scanned (view y fs')) = map li_number (scanned (view y fs))"
proof -
  consider "fs' = fs"
    | (written) i v where "by_number (scanned (view y fs)) n = Some i" "update i = Some v"
      "write_key wr (li_file i) ''labels'' v fs = (b, fs')"
    using assms(2) by (auto simp: mutate_def split: option.splits if_splits)
  then show ?thesis
  proof cases
    case written
    note w = labels_written [OF assms(1) written(1) written(3) [unfolded assms(3) [OF written(2)]]]
    from w(2,4) show ?thesis
      by (cases b) (simp_all add: comp_def)
  qed simp
qed

lemma add_numbers:
  "dir_ok y fs \<Longrightarrow> add_issue_label y False wr n l fs = (b, fs') \<Longrightarrow>
   map li_number (scanned (view y fs')) = map li_number (scanned (view y fs))"
  unfolding add_issue_label_def
  by (erule (1) mutate_numbers [where upd = "\<lambda>i. li_labels i @ [l]"]) (simp split: if_splits)

lemma remove_numbers:
  "dir_ok y fs \<Longrightarrow> remove_issue_label y False wr n l fs = (b, fs') \<Longrightarrow>
   map li_number (scanned (view y fs')) = map li_number (scanned (view y fs))"
  unfolding remove_issue_label_def
  by (erule (1) mutate_numbers [where upd = "\<lambda>i. filter (\<lambda>name. name \<noteq> l) (li_labels i)"])
    (simp split: if_splits)

definition has_issue :: "yaml_io \<Rightarrow> disk_file list \<Rightarrow> int \<Rightarrow> bool" where
  "has_issue y fs n \<longleftrightarrow> n \<in> set (map li_number (scanned (view y fs)))"

lemma has_issueE:
  assumes "has_issue y fs n"
  obtains i where "by_number (scanned (view y fs)) n = Some i"
  using assms by_number_Some [OF scanned_distinct [of "view y fs"]] by (auto simp: has_issue_def)

lemma add_numbers_iff:
  "dir_ok y fs \<Longrightarrow> write_labels (add_issue_label y False wr) n ls fs = (fails, fs') \<Longrightarrow>
   has_issue y fs' m \<longleftrightarrow> has_issue y fs m"
proof (induction ls arbitrary: fs fails)
  case (Cons l ls)
  obtain b s1 f1 where w: "add_issue_label y False wr n l fs = (b, s1)"
      "write_labels (add_issue_label y False wr) n ls s1 = (f1, fs')"
    using Cons.prems(2) by (auto split: prod.splits)
  with Cons.IH [OF files.add_inv [OF Cons.prems(1) w(1)] w(2)] add_numbers [OF Cons.prems(1) w(1)]
  show ?case
    by (simp add: has_issue_def)
qed simp

lemma remove_numbers_iff:
  "dir_ok y fs \<Longrightarrow> write_labels (remove_issue_label y False wr) n ls fs = (fails, fs') \<Longrightarrow>
   has_issue y fs' m \<longleftrightarrow> has_issue y fs m"
proof (induction ls arbitrary: fs fails)
  case (Cons l ls)
  obtain b s1 f1 where w: "remove_issue_label y False wr n l fs = (b, s1)"
      "write_labels (remove_issue_label y False wr) n ls s1 = (f1, fs')"
    using Cons.prems(2) by (auto split: prod.splits)
  with Cons.IH [OF files.rem_inv [OF Cons.prems(1) w(1)] w(2)] remove_numbers [OF Cons.prems(1) w(1)]
  show ?case
    by (simp add: has_issue_def)
qed simp

text \<open>Every write of an existing issue succeeds where the disk takes it.\<close>

lemma mutate_succeeds:
  assumes "by_number (scanned (view y fs)) n = Some i" and "dir_ok y fs"
    and "\<And>v. update i = Some v \<Longrightarrow> \<exists>ls. v = render_flow_list y ls"
  shows "fst (mutate y False (\<lambda>_ _. True) n ''labels'' update fs)"
proof (cases "update i")
  case (Some v)
  then obtain ls where v: "v = render_flow_list y ls"
    using assms(3) by blast
  obtain b s1 where w: "write_key (\<lambda>_ _. True) (li_file i) ''labels'' (render_flow_list y ls) fs = (b, s1)"
    by (cases "write_key (\<lambda>_ _. True) (li_file i) ''labels'' (render_flow_list y ls) fs")
  with labels_written(1) [OF assms(2,1) w] Some v assms(1) show ?thesis
    by (simp add: mutate_def)
qed (simp add: mutate_def assms(1))

lemma adds_succeed:
  "dir_ok y fs \<Longrightarrow> has_issue y fs n \<Longrightarrow>
   fst (write_labels (add_issue_label y False (\<lambda>_ _. True)) n ls fs) = []"
proof (induction ls arbitrary: fs)
  case (Cons l ls)
  obtain i where i: "by_number (scanned (view y fs)) n = Some i"
    using Cons.prems(2) by (rule has_issueE)
  have "fst (add_issue_label y False (\<lambda>_ _. True) n l fs)"
    unfolding add_issue_label_def
    by (rule mutate_succeeds [OF i Cons.prems(1)]) (auto split: if_splits)
  then obtain s1 where s: "add_issue_label y False (\<lambda>_ _. True) n l fs = (True, s1)"
    by (cases "add_issue_label y False (\<lambda>_ _. True) n l fs") auto
  have "has_issue y s1 n"
    using Cons.prems add_numbers [OF Cons.prems(1) s] by (simp add: has_issue_def)
  from Cons.IH [OF files.add_inv [OF Cons.prems(1) s] this] s show ?case
    by (simp split: prod.splits)
qed simp

lemma removes_succeed:
  "dir_ok y fs \<Longrightarrow> has_issue y fs n \<Longrightarrow>
   fst (write_labels (remove_issue_label y False (\<lambda>_ _. True)) n ls fs) = []"
proof (induction ls arbitrary: fs)
  case (Cons l ls)
  obtain i where i: "by_number (scanned (view y fs)) n = Some i"
    using Cons.prems(2) by (rule has_issueE)
  have "fst (remove_issue_label y False (\<lambda>_ _. True) n l fs)"
    unfolding remove_issue_label_def
    by (rule mutate_succeeds [OF i Cons.prems(1)]) (auto split: if_splits)
  then obtain s1 where s: "remove_issue_label y False (\<lambda>_ _. True) n l fs = (True, s1)"
    by (cases "remove_issue_label y False (\<lambda>_ _. True) n l fs") auto
  have "has_issue y s1 n"
    using Cons.prems remove_numbers [OF Cons.prems(1) s] by (simp add: has_issue_def)
  from Cons.IH [OF files.rem_inv [OF Cons.prems(1) s] this] s show ?case
    by (simp split: prod.splits)
qed simp

section \<open>The transition on the files\<close>

abbreviation file_transition where
  "file_transition y wr lc hp io n ev pr c s \<equiv>
     transition (add_issue_label y False wr) (remove_issue_label y False wr) lc hp False io n ev pr c s"

lemma transition_apply:
  assumes "map_of (edges lc) ev = Some (add, rm)"
    and "file_transition y wr lc hp io n ev pr c (fs, db) = Some (r, fs', db')"
  shows "apply_issue_labels (add_issue_label y False wr) (remove_issue_label y False wr) lc hp False io
    n pr add rm (edge_state_overrides ev) (or_else c (Some ev)) (fs, db) = (r, fs', db')"
  using assms by (simp add: transition_def)

lemma edge_add_known: "map_of (edges lc) ev = Some (add, rm) \<Longrightarrow> set add \<subseteq> set (all_labels lc)"
  by (drule map_of_edges) (auto simp: edges_def Let_def all_labels_def)

lemma transition_labels_after:
  assumes "map_of (edges lc) ev = Some (add, rm)"
    and "file_transition y wr lc hp io n ev pr c (fs, db) = Some (r, fs', db')"
    and "dir_ok y fs" and "\<forall>l \<in> set (all_labels lc). clean_label l" and "tr_ok r"
  shows "local_labels y fs' n = (local_labels y fs n \<union> set add) - set rm"
proof -
  have "\<forall>l \<in> set add. clean_label l"
    using assms(4) edge_add_known [OF assms(1)] by blast
  from files.apply_labels_ok [OF transition_apply [OF assms(1,2)] assms(3,5) this] show ?thesis .
qed

text \<open>A second run of a transition that took finds nothing to write and nothing to record.\<close>

lemma settle_again:
  assumes "settle_labels lc hp False io n pr add rm ts c [] [] db = (r, db')"
    and "io_reads io \<and> io_writes io \<and> io_reads io' \<or> db = None"
  shows "settle_labels lc hp False io' n pr' add rm ts c' [] [] db' = (r, db')"
proof (cases "or_else ts (state_for_labels lc add)")
  case (Some st)
  have "emit_lifecycle_transition w n q st x None = None" for w q x
    by (simp add: emit_lifecycle_transition_def log_event_def Let_def)
  with assms Some show ?thesis
    by (cases db) (auto simp: settle_labels_def Let_def emit_idem split: if_splits)
qed (use assms in \<open>simp add: settle_labels_def Let_def\<close>)

section \<open>A sample directory\<close>

definition db_up :: "db_io" where
  "db_up = \<lparr> io_reads = True, io_writes = True \<rparr>"

lemma db_up_simps [simp]: "io_reads db_up" "io_writes db_up"
  by (simp_all add: db_up_def)

definition sample_text :: "string list \<Rightarrow> string" where
  "sample_text ls =
     join [CHR 0x0A] [''---'', ''state: open'', labels_line small_yaml ls, ''---'', ''body'']"

definition sample_file :: "string \<Rightarrow> string list \<Rightarrow> disk_file" where
  "sample_file name ls = \<lparr> df_name = name, df_regular = True, df_content = Inr (sample_text ls) \<rparr>"

definition sample_dir :: "disk_file list" where
  "sample_dir = [sample_file ''7_fix.md'' [''agent:queued'', ''bug''], sample_file ''8_add.md'' [''agent:queued''] ]"

lemma sample_lines:
  "find (key_line k) [''state: open'', labels_line small_yaml ls] =
     (if k = ''state'' then Some ''state: open''
      else if k = ''labels'' then Some (labels_line small_yaml ls) else None)"
  if "k \<in> {''title'', ''state'', ''labels'', ''resolved''}"
  using that by (auto simp: key_line_def labels_line_def blank_def)

lemma strip_labels_line: "strip (drop (length ''labels'' + 1) (labels_line small_yaml ls)) = small_dump ls"
  using strip_small_dump [of ls]
  by (simp add: labels_line_def render_flow_list_def small_yaml_def strip_def is_space_def)

lemma sample_load:
  "small_load (join [CHR 0x0A] [''state: open'', labels_line small_yaml ls]) =
     Some (Doc_map [''state'' \<mapsto> YStr ''open'', ''labels'' \<mapsto> YSeq (map YStr ls) (small_dump ls)])"
proof -
  have "\<not> contains [CHR 0x0A] (labels_line small_yaml ls)"
    using plain_line_contains [OF small_line_plain] by simp
  then have "split_on [CHR 0x0A] (join [CHR 0x0A] [''state: open'', labels_line small_yaml ls]) =
      [''state: open'', labels_line small_yaml ls]"
    by (intro split_on_join) simp_all
  then have "small_load (join [CHR 0x0A] [''state: open'', labels_line small_yaml ls]) =
      Some (Doc_map (\<lambda>k. if k \<in> {''title'', ''state'', ''labels'', ''resolved''}
        then map_option (\<lambda>l. small_value (strip (drop (length k + 1) l)))
               (if k = ''state'' then Some ''state: open''
                else if k = ''labels'' then Some (labels_line small_yaml ls) else None)
        else None))"
    unfolding small_load_def using sample_lines by (simp only: cong: if_cong)
  moreover have "small_value (strip (drop (length ''state'' + 1) ''state: open'')) = YStr ''open''"
    by code_simp
  moreover have "small_value (strip (drop (length ''labels'' + 1) (labels_line small_yaml ls))) =
      YSeq (map YStr ls) (small_dump ls)"
    unfolding strip_labels_line small_value_def read_small_dump by (simp add: small_dump_def)
  ultimately show ?thesis
    by (simp only: fun_eq_iff fun_upd_apply option.inject yaml_doc.inject) simp
qed

lemma sample_meta:
  "load_meta small_yaml (join [CHR 0x0A] [''state: open'', labels_line small_yaml ls]) =
     Inr [''state'' \<mapsto> YStr ''open'', ''labels'' \<mapsto> YSeq (map YStr ls) (small_dump ls)]"
  using sample_load [of ls] by (simp add: load_meta_def small_yaml_def)

definition sample_match :: "string list \<Rightarrow> frontmatter" where
  "sample_match ls =
     \<lparr> fm_head = ''---'' @ [CHR 0x0A], fm_nl = [CHR 0x0A],
       fm_block = join [CHR 0x0A] [''state: open'', labels_line small_yaml ls],
       fm_tail = [CHR 0x0A] @ ''---'' @ [CHR 0x0A] @ ''body'', fm_rest = ''body'' \<rparr>"

lemma sample_matches:
  "match_frontmatter (sample_text [''agent:queued'', ''bug'']) = Some (sample_match [''agent:queued'', ''bug''])"
  "match_frontmatter (sample_text [''agent:queued'']) = Some (sample_match [''agent:queued''])"
  by code_simp+

lemma sample_stable:
  assumes "match_frontmatter (sample_text ks) = Some (sample_match ks)"
  shows "labels_stable small_yaml (sample_text ks)"
proof -
  have s: "split_on [CHR 0x0A] (join [CHR 0x0A] [''state: open'', labels_line small_yaml ks]) =
      [''state: open'', labels_line small_yaml ks]"
    using plain_line_contains [OF small_line_plain, of "[CHR 0x0A]" ks] by (intro split_on_join) simp_all
  have k: "key_line ''labels'' (labels_line small_yaml ks)" "\<not> key_line ''labels'' ''state: open''"
    by (simp_all add: key_line_def labels_line_def blank_def)
  show ?thesis
    unfolding labels_stable_def using assms small_line_plain sample_meta
    by (auto simp: sample_match_def relabelled_def block_lines_def s k simp del: join.simps)
qed

lemma sample_dir_ok: "dir_ok small_yaml sample_dir"
  using sample_matches [THEN sample_stable]
  by (simp add: dir_ok_def sample_dir_def sample_file_def)

lemma sample_view:
  assumes "match_frontmatter (sample_text ks) = Some (sample_match ks)"
  shows "view_file small_yaml (sample_file name ks) =
    \<lparr> if_name = name, if_regular = True,
      if_text = Loaded [''state'' \<mapsto> YStr ''open'', ''labels'' \<mapsto> YSeq (map YStr ks) (small_dump ks)]
                  ''body'' [] \<rparr>"
proof -
  have "partition_at comments_marker ''body'' = (''body'', [])" and "parse_comments [] = []"
    and "strip ''body'' = ''body''"
    by code_simp+
  with assms show ?thesis
    by (simp add: view_file_def sample_file_def load_text_def sample_match_def sample_meta del: join.simps)
qed

lemma sample_dir_scanned:
  "map li_number (scanned (view small_yaml sample_dir)) = [7, 8]"
  "local_labels small_yaml sample_dir 7 = {''agent:queued'', ''bug''}"
  unfolding local_labels_def view_def sample_dir_def list.map sample_matches [THEN sample_view]
  by code_simp+

lemma default_labels_clean: "\<forall>l \<in> set (all_labels default_labels). clean_label l"
  by code_simp

lemma dispatched_edge:
  "\<exists>rm. map_of (edges default_labels) ''dispatched'' = Some ([''agent:in-progress''], rm) \<and> ''agent:queued'' \<in> set rm"
  by (auto simp: edges_def Let_def default_labels_def workflow_labels_def)

lemma sample_transition:
  obtains r fs' db' where
    "file_transition small_yaml (\<lambda>_ _. True) default_labels True db_up 7 ''dispatched'' None None (sample_dir, Some [])
       = Some (r, fs', db')"
    "tr_ok r"
proof -
  obtain rm where e: "map_of (edges default_labels) ''dispatched'' = Some ([''agent:in-progress''], rm)"
    using dispatched_edge by blast
  obtain r fs' db' where t: "file_transition small_yaml (\<lambda>_ _. True) default_labels True db_up 7 ''dispatched'' None None
      (sample_dir, Some []) = Some (r, fs', db')"
    using e by (cases "apply_issue_labels (add_issue_label small_yaml False (\<lambda>_ _. True)) (remove_issue_label small_yaml False (\<lambda>_ _. True))
      default_labels True False db_up 7 None [''agent:in-progress''] rm (edge_state_overrides ''dispatched'')
      (or_else None (Some ''dispatched'')) (sample_dir, Some [])") (auto simp: transition_def)
  obtain s1 where w: "write_labels (add_issue_label small_yaml False (\<lambda>_ _. True)) 7 [''agent:in-progress''] sample_dir
      = (tr_add_failures r, s1)"
    "write_labels (remove_issue_label small_yaml False (\<lambda>_ _. True)) 7 rm s1 = (tr_remove_failures r, fs')" "dir_ok small_yaml s1"
    "tr_ok r \<longleftrightarrow> tr_add_failures r = [] \<and> tr_remove_failures r = []"
    by (rule files.apply_writes [OF transition_apply [OF e t] sample_dir_ok]) (rule that)
  have i: "has_issue small_yaml sample_dir 7"
    by (simp add: has_issue_def sample_dir_scanned)
  with w have "has_issue small_yaml s1 7"
    using add_numbers_iff [OF sample_dir_ok w(1)] by simp
  with adds_succeed [OF sample_dir_ok i, of "[''agent:in-progress'']"]
    removes_succeed [OF w(3), of 7 rm] w t show thesis
    by (intro that) auto
qed

section \<open>What a transition leaves\<close>

text \<open>
  A transition that reports success leaves the issue with exactly the labels it had, plus the
  edge's added labels, minus its removed ones; where the edge adds a label, the workflow labels the
  issue then carries are the added ones and no others (the label state machine is single-state).
\<close>

theorem transition_moves_labels:
  assumes "file_transition y wr lc hp io n ev pr c (fs, db) = Some (r, fs', db')"
    and "map_of (edges lc) ev = Some (add, rm)" and "dir_ok y fs" and "labels_distinct lc"
    and "\<forall>l \<in> set (all_labels lc). clean_label l" and "tr_ok r"
  shows "local_labels y fs' n = (local_labels y fs n \<union> set add) - set rm \<and>
    (add \<noteq> [] \<longrightarrow> local_labels y fs' n \<inter> workflow_labels lc = set add \<inter> workflow_labels lc)"
  using transition_labels_after [OF assms(2,1,3,5,6)]
    files.transition_exclusive [OF assms(1,3,6,4,5,2)] by blast

theorem transition_moves_labels_witness:
  "\<exists>r fs' db'. file_transition small_yaml (\<lambda>_ _. True) default_labels True db_up 7 ''dispatched'' None None
      (sample_dir, Some []) = Some (r, fs', db') \<and>
    ''agent:queued'' \<notin> local_labels small_yaml fs' 7 \<and> ''agent:in-progress'' \<in> local_labels small_yaml fs' 7"
proof -
  obtain rm where e: "map_of (edges default_labels) ''dispatched'' = Some ([''agent:in-progress''], rm)"
      "''agent:queued'' \<in> set rm"
    using dispatched_edge by blast
  obtain r fs' db' where t: "file_transition small_yaml (\<lambda>_ _. True) default_labels True db_up 7 ''dispatched'' None None
       (sample_dir, Some []) = Some (r, fs', db')" "tr_ok r"
    by (rule sample_transition)
  from transition_moves_labels [OF t(1) e(1) sample_dir_ok default_labels_distinct default_labels_clean t(2)]
    e edges_disjoint [OF map_of_edges [OF e(1)] default_labels_distinct] t(1)
  show ?thesis
    by (intro exI [of _ r] exI [of _ fs'] exI [of _ db']) auto
qed



text \<open>
  A transition of the table on an issue the directory holds always succeeds where the disk takes
  the writes: no edge can be blocked by the labels the issue happens to carry.
\<close>

theorem transition_succeeds:
  assumes "map_of (edges lc) ev = Some e" and "dir_ok y fs" and "has_issue y fs n"
  shows "\<exists>r fs' db'. file_transition y (\<lambda>_ _. True) lc hp io n ev pr c (fs, db) = Some (r, fs', db') \<and>
    tr_ok r \<and> has_issue y fs' n"
proof -
  obtain add rm where e: "map_of (edges lc) ev = Some (add, rm)"
    using assms(1) by (cases e) auto
  then obtain r fs' db' where t: "file_transition y (\<lambda>_ _. True) lc hp io n ev pr c (fs, db) = Some (r, fs', db')"
    unfolding transition_def by (simp split: prod.split) (metis prod_cases3)
  obtain s1 where w: "write_labels (add_issue_label y False (\<lambda>_ _. True)) n add fs = (tr_add_failures r, s1)"
    "write_labels (remove_issue_label y False (\<lambda>_ _. True)) n rm s1 = (tr_remove_failures r, fs')" "dir_ok y s1"
    "tr_ok r \<longleftrightarrow> tr_add_failures r = [] \<and> tr_remove_failures r = []"
    by (rule files.apply_writes [OF transition_apply [OF e t] assms(2)]) (rule that)
  have s1: "has_issue y s1 n"
    using add_numbers_iff [OF assms(2) w(1)] assms(3) by simp
  then have "has_issue y fs' n"
    using remove_numbers_iff [OF w(3) w(2)] by simp
  moreover have "tr_ok r"
    using adds_succeed [OF assms(2,3), of add] removes_succeed [OF w(3) s1, of rm] w by simp
  ultimately show ?thesis
    using t by blast
qed

theorem transition_succeeds_witness:
  "\<exists>r fs' db'. file_transition small_yaml (\<lambda>_ _. True) default_labels True db_up 7 ''dispatched'' None None
    (sample_dir, Some []) = Some (r, fs', db') \<and> tr_ok r \<and> has_issue small_yaml fs' 7"
proof -
  obtain e where e: "map_of (edges default_labels) ''dispatched'' = Some e"
    using dispatched_edge by blast
  have "has_issue small_yaml sample_dir 7"
    by (simp add: has_issue_def sample_dir_scanned)
  from transition_succeeds [OF e sample_dir_ok this] show ?thesis .
qed

text \<open>
  Running the same transition again is idempotent: the second run succeeds, writes no file and
  records no event, whatever cause and pull request it names.
\<close>

theorem transition_idempotent:
  assumes "file_transition y wr lc hp io n ev pr c (fs, db) = Some (r, fs', db')"
    and "map_of (edges lc) ev = Some (add, rm)" and "dir_ok y fs" and "labels_distinct lc"
    and "\<forall>l \<in> set (all_labels lc). clean_label l" and "tr_ok r" and "has_issue y fs n"
    and "io_reads io \<and> io_writes io \<and> io_reads io' \<or> db = None"
  shows "file_transition y wr lc hp io' n ev pr' c' (fs', db') = Some (r, fs', db')"
proof -
  note a = transition_apply [OF assms(2,1)]
  obtain s1 where w: "write_labels (add_issue_label y False wr) n add fs = (tr_add_failures r, s1)"
    "write_labels (remove_issue_label y False wr) n rm s1 = (tr_remove_failures r, fs')" "dir_ok y s1"
    "tr_ok r \<longleftrightarrow> tr_add_failures r = [] \<and> tr_remove_failures r = []"
    by (rule files.apply_writes [OF a assms(3)]) (rule that)
  have "has_issue y fs' n"
    using assms(7) add_numbers_iff [OF assms(3) w(1)] remove_numbers_iff [OF w(3) w(2)] by simp
  then obtain i where i: "by_number (scanned (view y fs')) n = Some i"
    by (rule has_issueE)
  have "set (li_labels i) = (local_labels y fs n \<union> set add) - set rm"
    using transition_labels_after [OF assms(2,1,3,5,6)] i by (simp add: local_labels_def)
  with edges_disjoint [OF map_of_edges [OF assms(2)] assms(4)]
  have add: "set add \<subseteq> set (li_labels i)" and rm: "set rm \<inter> set (li_labels i) = {}"
    by auto
  have "settle_labels lc hp False io n pr add rm (edge_state_overrides ev) (or_else c (Some ev)) [] [] db = (r, db')"
    using a w assms(6) by (simp add: apply_issue_labels_def split: prod.splits)
  from settle_again [OF this assms(8)] add_all_present [OF i add] remove_all_absent [OF i rm] assms(2)
  show ?thesis
    by (simp add: transition_def apply_issue_labels_def)
qed

theorem transition_idempotent_witness:
  "\<exists>r fs' db'. file_transition small_yaml (\<lambda>_ _. True) default_labels True db_up 7 ''dispatched'' None None
      (sample_dir, Some []) = Some (r, fs', db') \<and>
    file_transition small_yaml (\<lambda>_ _. True) default_labels True db_up 7 ''dispatched'' (Some 3) (Some ''again'') (fs', db') =
      Some (r, fs', db')"
proof -
  obtain rm where e: "map_of (edges default_labels) ''dispatched'' = Some ([''agent:in-progress''], rm)"
    using dispatched_edge by blast
  obtain r fs' db' where t: "file_transition small_yaml (\<lambda>_ _. True) default_labels True db_up 7 ''dispatched'' None None
       (sample_dir, Some []) = Some (r, fs', db')" "tr_ok r"
    by (rule sample_transition)
  have i: "has_issue small_yaml sample_dir 7"
    by (simp add: has_issue_def sample_dir_scanned)
  from transition_idempotent [OF t(1) e sample_dir_ok default_labels_distinct default_labels_clean t(2) i,
      of db_up "Some 3" "Some ''again''"] t(1)
  show ?thesis
    by auto
qed

section \<open>What a transition records\<close>

text \<open>
  C18. In every event database reached by label writes, intake observations and events of other
  kinds, in any order and with any failures of the database, every transition event moves, and
  starts at the state recorded before it or, where the writer could not read the history, at no
  state. Where the reads succeed (the writes may still fail) each issue's history is a strict
  chain: a transition starts exactly at the state recorded before it, and a ready observation is
  recorded only where no ready episode is open.
\<close>

theorem history_is_a_chain:
  assumes "db_reachable reads_succeed db"
  shows "chained reads_succeed None (history db n)"
  using db_reachable_chain_ok [OF assms] by (simp add: chain_ok_def)

lemma sample_history:
  "snd (settle_labels default_labels True False db_up 7 None [''agent:queued''] [] None None [] []
      (intake_observe db_up default_labels 7 {''automated-ready''} (Some []))) =
    Some [\<lparr> ev_kind = ''ready_observed'', ev_issue = Some 7, ev_pr = None, ev_from = None,
            ev_to = None, ev_cause = None \<rparr>,
          \<lparr> ev_kind = ''lifecycle_transition'', ev_issue = Some 7, ev_pr = None,
            ev_from = Some ''ready'', ev_to = Some ''queued'', ev_cause = None \<rparr>]"
  by code_simp

text \<open>Two steps with the database up, and one whose read failed, which starts at no state.\<close>

theorem history_is_a_chain_witness:
  "\<exists>db db' e. chained True None (history (Some db) 7) \<and> length (history (Some db) 7) = 2 \<and>
     chained False None (history db' 7) \<and> history db' 7 = history (Some db) 7 @ [e] \<and>
     ev_from e = None \<and> ev_to e = Some ''in_progress''"
proof -
  let ?lc = default_labels
  let ?start = "intake_observe db_up ?lc 7 {''automated-ready''} (Some [])"
  obtain r es where s: "settle_labels ?lc True False db_up 7 None [''agent:queued''] [] None None [] [] ?start
      = (r, Some es)" and len: "length (history (Some es) 7) = 2"
    using sample_history by (cases "settle_labels ?lc True False db_up 7 None [''agent:queued''] [] None None [] [] ?start")
      (auto simp: history_def)
  have re: "db_reachable b (Some es)" for b
    by (rule db_reachable.step [OF db_reachable.step [OF db_reachable.fresh db_step.intake]
          db_step.label_write [OF s]]) simp_all
  let ?bad = "\<lparr> io_reads = False, io_writes = True \<rparr>"
  let ?e = "\<lparr> ev_kind = ''lifecycle_transition'', ev_issue = Some 7, ev_pr = None, ev_from = None,
              ev_to = Some ''in_progress'', ev_cause = None \<rparr>"
  have st: "state_for_labels ?lc [''agent:in-progress''] = Some ''in_progress''"
    by code_simp
  then obtain r' where s': "settle_labels ?lc True False ?bad 7 None [''agent:in-progress''] [] None None [] [] (Some es)
      = (r', Some (es @ [?e]))"
    by (auto simp: settle_labels_def emit_lifecycle_transition_def current_recorded log_event_def or_else_def)
  have "db_reachable False (Some (es @ [?e]))"
    by (rule db_reachable.step [OF re db_step.label_write [OF s']]) simp
  from history_is_a_chain [OF re [of True], of 7] history_is_a_chain [OF this, of 7] len show ?thesis
    by (intro exI [of _ es] exI [of _ "Some (es @ [?e])"] exI [of _ ?e]) (simp add: history_def)
qed

text \<open>
  The seam records what it did and nothing else: a write with a failure records no event; a
  write that took, outside a dry run and with a database that answers, leaves the recorded state
  of the issue equal to the state the write resolves to; and no other issue's history changes.
\<close>

theorem seam_records_state:
  assumes "apply_issue_labels wadd wrem lc hp dry io n pr add rm ts c (s, Some es) = (r, s', db')"
  shows "(\<not> tr_ok r \<longrightarrow> db' = Some es) \<and>
    (tr_ok r \<and> hp \<and> \<not> dry \<and> io_reads io \<and> io_writes io \<and>
       or_else ts (state_for_labels lc add) = Some st \<longrightarrow> recorded_state db' n = Some st) \<and>
    (dry \<or> \<not> hp \<longrightarrow> db' = Some es) \<and>
    (m \<noteq> n \<longrightarrow> history db' m = history (Some es) m)"
proof -
  obtain af rf where w: "settle_labels lc hp dry io n pr add rm ts c af rf (Some es) = (r, db')"
    using assms by (auto simp: apply_issue_labels_def split: prod.splits)
  show ?thesis
    using w emit_other_issue [of m n io pr _ c "Some es"] emit_state [of "Some es" io n pr _ c]
    by (auto simp: settle_labels_def Let_def tr_ok_def split: if_splits option.splits)
qed

theorem seam_records_state_witness:
  "\<exists>r fs' db'. file_transition small_yaml (\<lambda>_ _. True) default_labels True db_up 7 ''dispatched'' None None
      (sample_dir, Some []) = Some (r, fs', db') \<and>
    recorded_state db' 7 = Some ''in_progress'' \<and> history db' 8 = []"
proof -
  obtain rm where e: "map_of (edges default_labels) ''dispatched'' = Some ([''agent:in-progress''], rm)"
    using dispatched_edge by blast
  obtain r fs' db' where t: "file_transition small_yaml (\<lambda>_ _. True) default_labels True db_up 7 ''dispatched'' None None
       (sample_dir, Some []) = Some (r, fs', db')" "tr_ok r"
    by (rule sample_transition)
  have "or_else (edge_state_overrides ''dispatched'') (state_for_labels default_labels [''agent:in-progress''])
      = Some ''in_progress''"
    by code_simp
  with seam_records_state [OF transition_apply [OF e t(1)], of "''in_progress''" 8] t show ?thesis
    by (intro exI [of _ r] exI [of _ fs'] exI [of _ db']) (simp add: history_def)
qed

section \<open>The dependency gate\<close>

text \<open>
  The dependency gate counts an asked issue as open exactly when its file is loaded and either it
  is open, or it is closed while some candidate branch of its work resolves in the repository to a tip
  that is neither an ancestor of HEAD nor patch-equivalent to it. An issue with no usable file never
  blocks, and outside a repository closing the file is enough.
\<close>

theorem dependency_gate_exact:
  "n \<in> fst (are_issues_open g fs numbers m) \<longleftrightarrow>
     n \<in> set numbers \<and>
     (\<exists>i \<in> set (scanned fs). li_number i = n \<and>
        (li_open i \<or>
         (gv_repo g \<and>
          (\<exists>(name, tip) \<in> set (candidate_heads g i). \<not> gv_ancestor g tip \<and> \<not> gv_patch_equivalent g tip))))"
proof -
  have "fst (closed_issue_work_unlanded g i) \<longleftrightarrow> gv_repo g \<and>
      (\<exists>(name, tip) \<in> set (candidate_heads g i). \<not> gv_ancestor g tip \<and> \<not> gv_patch_equivalent g tip)" for i
    by (auto simp: closed_issue_work_unlanded_def Let_def list_ex_iff)
  then show ?thesis
    unfolding are_issues_open_member by simp
qed

end
