(* ===== verification/File_Props.thy ===== *)
theory File_Props
  imports Local_Issues
begin

text \<open>
  The properties of the issue files: what rewriting a frontmatter key leaves in the text, and what a
  scan of the directory gives.
\<close>

section \<open>One key among others\<close>

text \<open>The keys the tracker writes: a word that neither a colon nor a blank ends early.\<close>

definition plain_key :: "string \<Rightarrow> bool" where
  "plain_key k \<longleftrightarrow> k \<noteq> [] \<and> (\<forall>c \<in> set k. \<not> blank c \<and> c \<noteq> CHR 0x3A) \<and> hd k \<noteq> CHR 0x2D"

lemma key_line_split:
  assumes "key_line k l"
  obtains r where "l = k @ r" "r \<noteq> []" "blank (hd r) \<or> hd r = CHR 0x3A"
proof -
  obtain r where r: "strip_prefix k l = Some r" "dropWhile blank r \<noteq> []" "hd (dropWhile blank r) = CHR 0x3A"
    using assms by (auto simp: key_line_def simp del: dropWhile_eq_Nil_conv split: option.splits list.splits)
  have "blank (hd r) \<or> hd r = CHR 0x3A"
    using r(2,3) by (cases r) (auto split: if_splits)
  with r show thesis
    by (intro that [of r]) (auto simp: strip_prefix_Some)
qed

lemma plain_key_prefix:
  assumes "plain_key k" and "r \<noteq> []" and "blank (hd r) \<or> hd r = CHR 0x3A"
  shows "takeWhile (\<lambda>c. \<not> blank c \<and> c \<noteq> CHR 0x3A) (k @ r) = k"
proof -
  have "takeWhile (\<lambda>c. \<not> blank c \<and> c \<noteq> CHR 0x3A) r = []"
    using assms(2,3) by (cases r) auto
  with assms(1) show ?thesis
    by (simp add: plain_key_def takeWhile_append2)
qed

lemma key_line_unique: "key_line k l \<Longrightarrow> key_line k' l \<Longrightarrow> plain_key k \<Longrightarrow> plain_key k' \<Longrightarrow> k = k'"
  by (elim key_line_split) (metis plain_key_prefix)

lemma continuation_no_key:
  assumes "continuation l" and "plain_key k"
  shows "\<not> key_line k l"
proof
  assume "key_line k l"
  then obtain r where r: "l = k @ r" "r \<noteq> []"
    by (rule key_line_split)
  obtain c cs where k: "k = c # cs"
    using assms(2) by (cases k) (auto simp: plain_key_def)
  with assms(2) have c: "\<not> blank c" "c \<noteq> CHR 0x2D"
    by (simp_all add: plain_key_def)
  with assms(1) r k show False
    by (auto simp: continuation_def at_end_def)
qed

lemma find_append_none: "(\<forall>x \<in> set xs. \<not> P x) \<Longrightarrow> find P (xs @ ys) = find P ys"
  by (induction xs) auto

lemma find_after_value:
  assumes "plain_key k"
  shows "find (key_line k) (after_value ls) = find (key_line k) ls"
proof -
  have t: "\<forall>l \<in> set (takeWhile continuation ls). \<not> key_line k l"
    using continuation_no_key [OF _ assms] by (auto dest: set_takeWhileD)
  then have "find (key_line k) (after_value ls) = find (key_line k) (dropWhile continuation ls)"
    unfolding after_value_def by (intro find_append_none) (auto dest: set_takeWhileD)
  also have "\<dots> = find (key_line k) (takeWhile continuation ls @ dropWhile continuation ls)"
    using t by (rule find_append_none [symmetric])
  finally show ?thesis
    by simp
qed

lemma rewrite_lines_other:
  assumes "plain_key k" and "plain_key k'" and "k' \<noteq> k" and "key_line k N"
  shows "find (key_line k') (rewrite_lines k N ls) = find (key_line k') ls"
proof (induction ls)
  case Nil
  show ?case
    using assms key_line_unique by auto
next
  case (Cons l ls)
  have "\<not> key_line k' N" "key_line k l \<Longrightarrow> \<not> key_line k' l"
    using assms key_line_unique by auto
  with Cons show ?case
    by (simp add: find_after_value [OF assms(2)])
qed

section \<open>Rewriting a key\<close>

text \<open>
  C39. Rewriting a key gives a text that parses again: the text outside the block (the body of the
  issue) is unchanged byte for byte, the key's line now holds the rendered value, the line of every
  other key is the one it was, and rewriting the key again with the value changes nothing. It holds
  for a value without line breaks, in a file with one newline convention around its block.
\<close>

theorem rewrite_round_trip:
  assumes "match_frontmatter txt = Some m" and "plain_line (key @ '': '' @ rendered)"
    and "\<exists>t. fm_tail m = fm_nl m @ t" and "plain_key key" and "plain_key k" and "k \<noteq> key"
  shows "\<exists>txt' m'. rewrite_frontmatter_key txt key rendered = Some txt' \<and>
    match_frontmatter txt' = Some m' \<and>
    fm_head m' = fm_head m \<and> fm_tail m' = fm_tail m \<and> fm_rest m' = fm_rest m \<and>
    read_key_line txt' key = Some (key @ '': '' @ rendered) \<and>
    read_key_line txt' k = read_key_line txt k \<and>
    rewrite_frontmatter_key txt' key rendered = Some txt'"
proof -
  let ?N = "key @ '': '' @ rendered"
  let ?m = "m\<lparr>fm_block := join (fm_nl m) (rewrite_lines key ?N (split_on (fm_nl m) (fm_block m)))\<rparr>"
  obtain txt' where t: "rewrite_frontmatter_key txt key rendered = Some txt'" "match_frontmatter txt' = Some ?m"
    using rewrite_reparse [OF assms(1-3)] by blast
  have "block_lines ?m = rewrite_lines key ?N (block_lines m)"
    using split_rewritten [OF match_frontmatter_Some(5) [OF assms(1)] assms(2)] by (simp add: block_lines_def)
  then have "read_key_line txt' k = read_key_line txt k"
    using rewrite_lines_other [OF assms(4-6) key_line_new, of rendered] assms(1) t(2)
    by (simp add: read_key_line_def)
  with t rewrite_twice [OF assms(1-3) t(1)] show ?thesis
    by (intro exI [of _ txt'] exI [of _ ?m]) simp
qed

definition sample_text :: string where
  "sample_text = join [CHR 0x0A]
     [''---'', ''title: Fix'', ''labels:'', ''- bug'', ''state: open'', ''---'', ''The body'']"

theorem rewrite_round_trip_witness:
  "\<exists>txt'. rewrite_frontmatter_key sample_text ''labels'' ''[agent:queued]'' = Some txt' \<and>
     read_key_line txt' ''labels'' = Some ''labels: [agent:queued]'' \<and>
     read_key_line txt' ''state'' = Some ''state: open''"
proof -
  obtain m where m: "match_frontmatter sample_text = Some m" "\<exists>t. fm_tail m = fm_nl m @ t"
  proof -
    have "match_frontmatter sample_text = Some
        \<lparr> fm_head = ''---'' @ [CHR 0x0A], fm_nl = [CHR 0x0A],
          fm_block = join [CHR 0x0A] [''title: Fix'', ''labels:'', ''- bug'', ''state: open''],
          fm_tail = [CHR 0x0A] @ ''---'' @ [CHR 0x0A] @ ''The body'', fm_rest = ''The body'' \<rparr>"
      by code_simp
    then show thesis
      by (rule that) simp
  qed
  have "plain_line (''labels'' @ '': '' @ ''[agent:queued]'')" "plain_key ''labels''" "plain_key ''state''"
    "read_key_line sample_text ''state'' = Some ''state: open''"
    by code_simp+
  with rewrite_round_trip [OF m(1) _ m(2), of "''labels''" "''[agent:queued]''" "''state''"] show ?thesis
    by auto
qed

section \<open>Scanning the directory\<close>

text \<open>
  A scan loads no number twice and loses no file: every issue comes from a regular file of the
  directory whose name carries its number, with clean and pairwise different labels, and every
  issue-shaped regular file is either loaded or reported as a problem.
\<close>

theorem scan_sound_and_complete:
  "distinct (map li_number (scanned fs)) \<and>
   (i \<in> set (scanned fs) \<longrightarrow>
      (\<exists>f \<in> set fs. if_regular f \<and> if_name f = li_file i \<and>
         issue_number_from_name (li_file i) = Some (li_number i)) \<and>
      distinct (li_labels i)) \<and>
   (f \<in> set fs \<and> if_regular f \<and> issue_number_from_name (if_name f) = Some n \<longrightarrow>
      if_name f \<in> li_file ` set (scanned fs) \<union> fst ` set (snd (scan_issues (Some fs))))"
proof -
  have "(\<exists>f \<in> set fs. if_regular f \<and> if_name f = li_file i \<and>
         issue_number_from_name (li_file i) = Some (li_number i)) \<and> distinct (li_labels i)"
    if "i \<in> set (scanned fs)"
    using that scanned_labels_clean [OF that]
    by (auto simp: scanned_alt set_map_filter dest!: load_file_Some)
  with scanned_distinct scan_accounts show ?thesis
    unfolding scanned_def by blast
qed

definition mixed_files :: "issue_file list" where
  "mixed_files =
     [\<lparr> if_name = ''1_a.md'', if_regular = True, if_text = Loaded (\<lambda>_. None) ''one'' [] \<rparr>,
      \<lparr> if_name = ''1_b.md'', if_regular = True, if_text = Loaded (\<lambda>_. None) ''other'' [] \<rparr>,
      \<lparr> if_name = ''2_c.md'', if_regular = True, if_text = Unreadable Not_utf8 \<rparr>,
      \<lparr> if_name = ''3_d.md'', if_regular = True, if_text = Loaded (\<lambda>_. None) ''three'' [] \<rparr>]"

theorem scan_sound_and_complete_witness:
  "map li_number (scanned mixed_files) = [3] \<and>
   {''1_a.md'', ''1_b.md'', ''2_c.md''} \<subseteq> fst ` set (snd (scan_issues (Some mixed_files)))"
proof -
  have s: "map li_number (scanned mixed_files) = [3]" "map li_file (scanned mixed_files) = [''3_d.md'']"
    by code_simp+
  have n: "issue_number_from_name ''1_a.md'' = Some 1" "issue_number_from_name ''1_b.md'' = Some 1"
    "issue_number_from_name ''2_c.md'' = Some 2"
    by code_simp+
  have f: "li_file ` set (scanned mixed_files) = {''3_d.md''}"
    using arg_cong [OF s(2), of set] by simp
  have p: "if_name f \<in> fst ` set (snd (scan_issues (Some mixed_files)))"
    if "f \<in> set mixed_files" "if_regular f" "issue_number_from_name (if_name f) = Some k"
      "if_name f \<noteq> ''3_d.md''" for f k
    using scan_sound_and_complete [of mixed_files "hd (scanned mixed_files)" f k] that f by auto
  have m: "mixed_files ! 0 \<in> set mixed_files" "mixed_files ! 1 \<in> set mixed_files" "mixed_files ! 2 \<in> set mixed_files"
    "if_regular (mixed_files ! 0)" "if_regular (mixed_files ! 1)" "if_regular (mixed_files ! 2)"
    "if_name (mixed_files ! 0) = ''1_a.md''" "if_name (mixed_files ! 1) = ''1_b.md''"
    "if_name (mixed_files ! 2) = ''2_c.md''"
    by (simp_all add: mixed_files_def)
  show ?thesis
    using p [OF m(1,4), of 1] p [OF m(2,5), of 1] p [OF m(3,6), of 2] s(1) n m(7-9) by simp
qed

end
