(* ===== verification/Checks.thy ===== *)
theory Checks
  imports Prelude
begin

text \<open>
  Required checks (\<^verbatim>\<open>checks.py\<close>): the classification of one check run, the summary of a pull
  request's required checks, the classifier of fleet-wide infrastructure failures, and the two
  bounded rerun ledgers, one for first failures (issue 391) and one for infrastructure failures
  (issue 841). The contract the two ledgers share is the locale \<open>rerun_ledger\<close>.
\<close>

section \<open>One check run\<close>

record check_run =
  ck_name :: "string option"
  ck_state :: "string option"
  ck_bucket :: "string option"
  ck_run_id :: "int option"
  ck_link :: "string option"

datatype check_class =
  PASS | PENDING | EMPTY | SKIPPED | CANCELLED | INFRA | INFRA_BLOCKED | FAIL

definition classify_check_run :: "check_run \<Rightarrow> check_class" where
  "classify_check_run check =
     (let state = upper (or_empty (ck_state check));
          bucket = lower (or_empty (ck_bucket check))
      in if state = ''SUCCESS'' \<or> bucket = ''pass'' then PASS
         else if state \<in> {''PENDING'', ''QUEUED'', ''IN_PROGRESS'', ''REQUESTED''} \<or>
                 bucket = ''pending'' then PENDING
         else if state = [] \<and> bucket = [] then EMPTY
         else if state \<in> {''SKIPPED'', ''NEUTRAL''} then SKIPPED
         else if state = ''CANCELLED'' then CANCELLED
         else if state = ''INFRA_BLOCKED'' then INFRA_BLOCKED
         else if state \<in> {''INFRA_FAILURE'', ''TIMED_OUT''} then INFRA
         else FAIL)"

definition is_failing_run :: "check_run \<Rightarrow> bool" where
  "is_failing_run check \<longleftrightarrow> classify_check_run check = FAIL"

definition is_infra_run :: "check_run \<Rightarrow> bool" where
  "is_infra_run check \<longleftrightarrow> classify_check_run check \<in> {CANCELLED, INFRA}"

section \<open>The summary\<close>

record check_summary =
  cs_required :: "string list"
  cs_passed :: "string list"
  cs_pending :: "string list"
  cs_failed :: "string list"
  cs_missing :: "string list"
  cs_infra_failed :: "string list"
  cs_infra_blocked :: "string list"
  cs_unavailable :: "string list"

definition ready :: "check_summary \<Rightarrow> bool" where
  "ready s \<longleftrightarrow>
     cs_pending s = [] \<and> cs_failed s = [] \<and> cs_missing s = [] \<and> cs_infra_failed s = [] \<and>
     cs_infra_blocked s = [] \<and> cs_unavailable s = []"

text \<open>\<^verbatim>\<open>by_name\<close>: the runs of one name, in order.\<close>

definition runs_named :: "check_run list \<Rightarrow> string \<Rightarrow> check_run list" where
  "runs_named checks name = filter (\<lambda>c. or_empty (ck_name c) = name) checks"

text \<open>The flags the loop over the runs of a name sets.\<close>

record name_flags =
  nf_failed :: bool
  nf_pending :: bool
  nf_infra_failed :: bool
  nf_infra_blocked :: bool

fun flag_run :: "name_flags \<Rightarrow> check_class \<Rightarrow> name_flags" where
  "flag_run fl PASS = fl"
| "flag_run fl PENDING = fl\<lparr>nf_pending := True\<rparr>"
| "flag_run fl EMPTY = fl\<lparr>nf_pending := True\<rparr>"
| "flag_run fl SKIPPED = fl"
| "flag_run fl INFRA_BLOCKED = fl\<lparr>nf_infra_blocked := True\<rparr>"
| "flag_run fl CANCELLED = fl\<lparr>nf_infra_failed := True\<rparr>"
| "flag_run fl INFRA = fl\<lparr>nf_infra_failed := True\<rparr>"
| "flag_run fl FAIL = fl\<lparr>nf_failed := True\<rparr>"

definition no_flags :: name_flags where
  "no_flags = \<lparr> nf_failed = False, nf_pending = False, nf_infra_failed = False,
                nf_infra_blocked = False \<rparr>"

definition name_flags_of :: "check_run list \<Rightarrow> name_flags" where
  "name_flags_of runs = foldl flag_run no_flags (map classify_check_run runs)"

definition append_name :: "check_run list \<Rightarrow> check_summary \<Rightarrow> string \<Rightarrow> check_summary" where
  "append_name checks s name =
     (let runs = runs_named checks name; fl = name_flags_of runs
      in if runs = [] then s\<lparr>cs_missing := cs_missing s @ [name]\<rparr>
         else if nf_failed fl then s\<lparr>cs_failed := cs_failed s @ [name]\<rparr>
         else if nf_infra_blocked fl then s\<lparr>cs_infra_blocked := cs_infra_blocked s @ [name]\<rparr>
         else if nf_infra_failed fl then s\<lparr>cs_infra_failed := cs_infra_failed s @ [name]\<rparr>
         else if nf_pending fl then s\<lparr>cs_pending := cs_pending s @ [name]\<rparr>
         else s\<lparr>cs_passed := cs_passed s @ [name]\<rparr>)"

definition empty_summary :: "string list \<Rightarrow> check_summary" where
  "empty_summary required =
     \<lparr> cs_required = required, cs_passed = [], cs_pending = [], cs_failed = [], cs_missing = [],
       cs_infra_failed = [], cs_infra_blocked = [], cs_unavailable = [] \<rparr>"

text \<open>\<^verbatim>\<open>summarize_checks\<close>; None stands for a command that gave no check list.\<close>

definition summarize_checks :: "check_run list option \<Rightarrow> string list \<Rightarrow> check_summary" where
  "summarize_checks checks required =
     (case checks of
        None \<Rightarrow> (empty_summary required)\<lparr>cs_unavailable := required\<rparr>
      | Some cs \<Rightarrow> foldl (append_name cs) (empty_summary required) required)"

lemma flags_fold:
  "foldl flag_run fl cls =
     fl\<lparr> nf_failed := nf_failed fl \<or> FAIL \<in> set cls,
         nf_pending := nf_pending fl \<or> PENDING \<in> set cls \<or> EMPTY \<in> set cls,
         nf_infra_failed := nf_infra_failed fl \<or> CANCELLED \<in> set cls \<or> INFRA \<in> set cls,
         nf_infra_blocked := nf_infra_blocked fl \<or> INFRA_BLOCKED \<in> set cls \<rparr>"
proof (induction cls arbitrary: fl)
  case (Cons c cls)
  then show ?case
    by (cases c) auto
qed simp

lemma flags_of:
  "name_flags_of runs =
     \<lparr> nf_failed = (FAIL \<in> classify_check_run ` set runs),
       nf_pending = (PENDING \<in> classify_check_run ` set runs \<or> EMPTY \<in> classify_check_run ` set runs),
       nf_infra_failed =
         (CANCELLED \<in> classify_check_run ` set runs \<or> INFRA \<in> classify_check_run ` set runs),
       nf_infra_blocked = (INFRA_BLOCKED \<in> classify_check_run ` set runs) \<rparr>"
  by (simp add: name_flags_of_def flags_fold no_flags_def)

text \<open>The bucket of a name, as a function of the classes of its runs.\<close>

datatype bucket = Missing | Failed | Infra_blocked | Infra_failed | Pending | Passed

definition bucket_of :: "check_run list \<Rightarrow> string \<Rightarrow> bucket" where
  "bucket_of checks name =
     (let cls = classify_check_run ` set (runs_named checks name)
      in if runs_named checks name = [] then Missing
         else if FAIL \<in> cls then Failed
         else if INFRA_BLOCKED \<in> cls then Infra_blocked
         else if CANCELLED \<in> cls \<or> INFRA \<in> cls then Infra_failed
         else if PENDING \<in> cls \<or> EMPTY \<in> cls then Pending
         else Passed)"

lemma summarize_fold:
  "foldl (append_name cs) s names =
     s\<lparr> cs_passed := cs_passed s @ filter (\<lambda>n. bucket_of cs n = Passed) names,
        cs_pending := cs_pending s @ filter (\<lambda>n. bucket_of cs n = Pending) names,
        cs_failed := cs_failed s @ filter (\<lambda>n. bucket_of cs n = Failed) names,
        cs_missing := cs_missing s @ filter (\<lambda>n. bucket_of cs n = Missing) names,
        cs_infra_failed := cs_infra_failed s @ filter (\<lambda>n. bucket_of cs n = Infra_failed) names,
        cs_infra_blocked := cs_infra_blocked s @ filter (\<lambda>n. bucket_of cs n = Infra_blocked) names \<rparr>"
proof (induction names arbitrary: s)
  case (Cons n names)
  have "append_name cs s n =
     s\<lparr> cs_passed := cs_passed s @ filter (\<lambda>n. bucket_of cs n = Passed) [n],
        cs_pending := cs_pending s @ filter (\<lambda>n. bucket_of cs n = Pending) [n],
        cs_failed := cs_failed s @ filter (\<lambda>n. bucket_of cs n = Failed) [n],
        cs_missing := cs_missing s @ filter (\<lambda>n. bucket_of cs n = Missing) [n],
        cs_infra_failed := cs_infra_failed s @ filter (\<lambda>n. bucket_of cs n = Infra_failed) [n],
        cs_infra_blocked := cs_infra_blocked s @ filter (\<lambda>n. bucket_of cs n = Infra_blocked) [n] \<rparr>"
    by (simp add: append_name_def bucket_of_def flags_of Let_def)
  with Cons.IH show ?case
    by simp
qed simp

lemma summarize_Some:
  "summarize_checks (Some cs) required =
     \<lparr> cs_required = required,
       cs_passed = filter (\<lambda>n. bucket_of cs n = Passed) required,
       cs_pending = filter (\<lambda>n. bucket_of cs n = Pending) required,
       cs_failed = filter (\<lambda>n. bucket_of cs n = Failed) required,
       cs_missing = filter (\<lambda>n. bucket_of cs n = Missing) required,
       cs_infra_failed = filter (\<lambda>n. bucket_of cs n = Infra_failed) required,
       cs_infra_blocked = filter (\<lambda>n. bucket_of cs n = Infra_blocked) required,
       cs_unavailable = [] \<rparr>"
  by (simp add: summarize_checks_def summarize_fold empty_summary_def)

lemma summarize_None:
  "summarize_checks None required = (empty_summary required)\<lparr>cs_unavailable := required\<rparr>"
  by (simp add: summarize_checks_def)

lemma bucket_of_cong: "set cs = set ds \<Longrightarrow> bucket_of cs = bucket_of ds"
proof
  fix n
  assume "set cs = set ds"
  then have s: "set (runs_named cs n) = set (runs_named ds n)"
    by (simp add: runs_named_def)
  then have "runs_named cs n = [] \<longleftrightarrow> runs_named ds n = []"
    by (metis set_empty)
  with s show "bucket_of cs n = bucket_of ds n"
    by (simp add: bucket_of_def)
qed

section \<open>Fleet-wide infrastructure failures\<close>

text \<open>The \<^verbatim>\<open>steps\<close> of a job: absent, not a list, or a list whose entries may not be dicts.\<close>

datatype job_steps = No_steps | Not_a_list | Steps "string option option list"

record actions_job =
  aj_conclusion :: "string option"
  aj_steps :: job_steps

record infra_config =
  ib_enabled :: bool
  ib_patterns :: "string list"

definition setup_step_names :: "string list" where
  "setup_step_names = [''set up job'', ''checkout'', ''initialize'', ''complete job'']"

text \<open>\<open>annotations\<close>: None for no list; an entry that is no dict is None.\<close>

definition is_infra_blocked_check ::
  "actions_job option \<Rightarrow> string option option list option \<Rightarrow> infra_config \<Rightarrow> bool" where
  "is_infra_blocked_check job annotations cfg =
     (case job of
        None \<Rightarrow> False
      | Some j \<Rightarrow>
          if \<not> ib_enabled cfg then False
          else if upper (or_empty (aj_conclusion j)) \<noteq> ''FAILURE'' then False
          else if ib_patterns cfg \<noteq> [] \<and>
                  list_ex (\<lambda>a. case a of
                      None \<Rightarrow> False
                    | Some msg \<Rightarrow>
                        list_ex (\<lambda>p. p \<noteq> [] \<and> contains (lower p) (lower (or_empty msg)))
                          (ib_patterns cfg))
                    (or_empty annotations)
          then True
          else (case aj_steps j of
                  No_steps \<Rightarrow> True
                | Not_a_list \<Rightarrow> False
                | Steps ss \<Rightarrow>
                    \<not> list_ex (\<lambda>s. case s of
                        None \<Rightarrow> False
                      | Some nm \<Rightarrow> lower (or_empty nm) \<notin> set setup_step_names) ss))"

text \<open>
  \<^verbatim>\<open>workflow_run_terminal_by_id\<close>. An entry that is no dict is None; an id that is no int is None.
\<close>

fun terminal_loop ::
  "(int \<rightharpoonup> bool) \<Rightarrow> (int option \<times> string option) option list \<Rightarrow> int \<rightharpoonup> bool" where
  "terminal_loop out [] = out"
| "terminal_loop out (None # rs) = terminal_loop out rs"
| "terminal_loop out (Some (None, _) # rs) = terminal_loop out rs"
| "terminal_loop out (Some (Some i, st) # rs) =
     terminal_loop (out(i \<mapsto> lower (or_empty st) = ''completed'')) rs"

definition workflow_run_terminal_by_id ::
  "(int option \<times> string option) option list option \<Rightarrow> (int \<rightharpoonup> bool) option" where
  "workflow_run_terminal_by_id runs = map_option (terminal_loop (\<lambda>_. None)) runs"

section \<open>Run ids\<close>

text \<open>\<^verbatim>\<open>/actions/runs/(\d+)/job/\<close>, searched for in a link.\<close>

definition run_id_here :: "string \<Rightarrow> int option" where
  "run_id_here s =
     (case strip_prefix ''/actions/runs/'' s of
        None \<Rightarrow> None
      | Some r \<Rightarrow>
          (let ds = takeWhile is_digit r
           in if ds \<noteq> [] \<and> strip_prefix ''/job/'' (dropWhile is_digit r) \<noteq> None
              then Some (digits_val ds) else None))"

fun run_id_search :: "string \<Rightarrow> int option" where
  "run_id_search [] = None"
| "run_id_search (c # cs) =
     (case run_id_here (c # cs) of None \<Rightarrow> run_id_search cs | Some n \<Rightarrow> Some n)"

definition run_id_from_link :: "string option \<Rightarrow> int option" where
  "run_id_from_link link = run_id_search (or_empty link)"

definition run_id_of :: "check_run \<Rightarrow> int option" where
  "run_id_of check =
     (case ck_run_id check of None \<Rightarrow> run_id_from_link (ck_link check) | Some i \<Rightarrow> Some i)"

text \<open>The run ids of the runs of a name that a test selects; \<^verbatim>\<open>sorted\<close> of the set.\<close>

definition run_ids :: "(check_run \<Rightarrow> bool) \<Rightarrow> check_run list \<Rightarrow> string \<Rightarrow> int list" where
  "run_ids test checks name =
     sort (remdups (List.map_filter run_id_of (filter test (runs_named checks name))))"

end
