(* ===== verification/Check_Rerun.thy ===== *)
theory Check_Rerun
  imports Checks
begin

text \<open>
  The two rerun ledgers of \<^verbatim>\<open>checks.py\<close>: \<open>classify_check_failures\<close> gives every failing required
  check one rerun per head and run id, \<open>classify_infra_failures\<close> gives an infrastructure failure
  \<open>attempt_cap\<close> of them. Both are the same pass over the failed names around a step of their own;
  the locale \<open>rerun_ledger\<close> states what the pass needs of the step and proves the bound once.
\<close>

section \<open>The pass\<close>

datatype 'a step_result = Definitive | Rerun "int list" 'a

type_synonym 'a ledger = "string \<Rightarrow> (string \<rightharpoonup> 'a) option"

record 'a rerun_result =
  rr_rerun :: "int list"
  rr_attempts :: "'a ledger"
  rr_definitive :: "string list"

text \<open>The loop over the failed names: the run ids to retry, the attempts, the definitive names.\<close>

fun ledger_loop ::
  "(string \<Rightarrow> int list) \<Rightarrow> (int list \<Rightarrow> 'a option \<Rightarrow> 'a step_result) \<Rightarrow> string list \<Rightarrow>
   int list \<times> (string \<rightharpoonup> 'a) \<times> string list \<Rightarrow> int list \<times> (string \<rightharpoonup> 'a) \<times> string list" where
  "ledger_loop ids step [] acc = acc"
| "ledger_loop ids step (n # ns) (rr, cur, df) =
     ledger_loop ids step ns
       (case step (ids n) (cur n) of
          Definitive \<Rightarrow> (rr, cur, df @ [n])
        | Rerun rs a \<Rightarrow> (rr @ rs, cur(n \<mapsto> a), df))"

text \<open>The attempts of the current head, with those of the passing checks cleared.\<close>

definition current_attempts :: "'a ledger \<Rightarrow> string option \<Rightarrow> string list \<Rightarrow> string \<rightharpoonup> 'a" where
  "current_attempts ledger head passing =
     (\<lambda>n. if n \<in> set passing \<or> \<not> truthy head then None
          else (case ledger (or_empty head) of None \<Rightarrow> None | Some cur \<Rightarrow> cur n))"

definition rerun_pass ::
  "(int list \<Rightarrow> 'a option \<Rightarrow> 'a step_result) \<Rightarrow> (check_summary \<Rightarrow> string list) \<Rightarrow>
   (check_run \<Rightarrow> bool) \<Rightarrow> check_run list option \<Rightarrow> string list \<Rightarrow> 'a ledger \<Rightarrow> string option \<Rightarrow>
   'a rerun_result" where
  "rerun_pass step sel test checks required ledger head =
     (if required = [] then \<lparr> rr_rerun = [], rr_attempts = (\<lambda>_. None), rr_definitive = [] \<rparr>
      else (let summary = summarize_checks checks required
            in case ledger_loop (run_ids test (or_empty checks)) step (sel summary)
                      ([], current_attempts ledger head (cs_passed summary), []) of
                 (rr, cur, df) \<Rightarrow>
                   \<lparr> rr_rerun = sort (remdups rr),
                     rr_attempts = (if truthy head then [or_empty head \<mapsto> cur] else (\<lambda>_. None)),
                     rr_definitive = df \<rparr>))"

section \<open>The two steps\<close>

text \<open>One rerun for each run id: the attempts of a name are the run ids already retried.\<close>

definition debounce_step :: "bool \<Rightarrow> int list \<Rightarrow> int list option \<Rightarrow> int list step_result" where
  "debounce_step record_attempts ids attempted =
     (let new = filter (\<lambda>i. i \<notin> set (or_empty attempted)) ids
      in if ids = [] then Definitive
         else if new = [] then Definitive
         else if record_attempts then Rerun new (sort (remdups (or_empty attempted @ new)))
         else Definitive)"

definition classify_check_failures ::
  "check_run list option \<Rightarrow> string list \<Rightarrow> int list ledger \<Rightarrow> string option \<Rightarrow> bool \<Rightarrow>
   int list rerun_result" where
  "classify_check_failures checks required ledger head record_attempts =
     rerun_pass (debounce_step record_attempts) cs_failed is_failing_run checks required ledger head"

text \<open>
  At most \<open>cap\<close> reruns for each run id: the attempts of a name are the counts of its run ids (the
  code keys them by \<^verbatim>\<open>str(run_id)\<close>).
\<close>

definition attempts_made :: "(int \<rightharpoonup> int) option \<Rightarrow> int \<Rightarrow> int" where
  "attempts_made m i = (case m of None \<Rightarrow> 0 | Some counts \<Rightarrow> get_or counts i 0)"

definition infra_step ::
  "bool \<Rightarrow> int \<Rightarrow> int list \<Rightarrow> (int \<rightharpoonup> int) option \<Rightarrow> (int \<rightharpoonup> int) step_result" where
  "infra_step record_attempts cap ids counts =
     (let eligible = filter (\<lambda>i. attempts_made counts i < cap) ids
      in if ids = [] then Definitive
         else if \<not> record_attempts then Definitive
         else if eligible = [] then Definitive
         else Rerun eligible
                (\<lambda>i. if i \<in> set eligible then Some (attempts_made counts i + 1)
                     else (case counts of None \<Rightarrow> None | Some m \<Rightarrow> m i)))"

definition classify_infra_failures ::
  "check_run list option \<Rightarrow> string list \<Rightarrow> (int \<rightharpoonup> int) ledger \<Rightarrow> string option \<Rightarrow> bool \<Rightarrow> int \<Rightarrow>
   (int \<rightharpoonup> int) rerun_result" where
  "classify_infra_failures checks required ledger head record_attempts cap =
     rerun_pass (infra_step record_attempts cap) cs_infra_failed is_infra_run
       checks required ledger head"

section \<open>The contract\<close>

text \<open>Consecutive passes on one head, each on a check list of its own.\<close>

fun rerun_passes ::
  "(check_run list option \<Rightarrow> 'a ledger \<Rightarrow> 'a rerun_result) \<Rightarrow> 'a ledger \<Rightarrow>
   check_run list option list \<Rightarrow> 'a ledger" where
  "rerun_passes pass ledger [] = ledger"
| "rerun_passes pass ledger (c # cs) = rerun_passes pass (rr_attempts (pass c ledger)) cs"

definition ledger_entry :: "'a ledger \<Rightarrow> string \<Rightarrow> string \<Rightarrow> 'a option" where
  "ledger_entry ledger head n = (case ledger head of None \<Rightarrow> None | Some cur \<Rightarrow> cur n)"

locale rerun_ledger =
  fixes step :: "int list \<Rightarrow> 'a option \<Rightarrow> 'a step_result"
    and sel :: "check_summary \<Rightarrow> string list"
    and test :: "check_run \<Rightarrow> bool"
    and spent :: "'a option \<Rightarrow> int \<Rightarrow> int"
    and cap :: int
  assumes spent_none: "spent None i = 0"
    and step_rerun: "step ids a = Rerun rs a' \<Longrightarrow>
      rs \<noteq> [] \<and> set rs = {i \<in> set ids. spent a i < cap} \<and>
      (\<forall>i. spent (Some a') i = spent a i + (if i \<in> set rs then 1 else 0))"
    and step_definitive: "step ids a = Definitive \<Longrightarrow> \<forall>i \<in> set ids. cap \<le> spent a i"
    and sel_distinct: "distinct required \<Longrightarrow> distinct (sel (summarize_checks c required))"
    and sel_not_passed: "n \<in> set (sel (summarize_checks c required)) \<Longrightarrow>
      n \<notin> set (cs_passed (summarize_checks c required))"
    and cap_pos: "0 \<le> cap"
begin

lemma loop_shape:
  "ledger_loop ids step ns (rr, cur, df) = (rr', cur', df') \<Longrightarrow> distinct ns \<Longrightarrow>
     df' = df @ filter (\<lambda>n. step (ids n) (cur n) = Definitive) ns \<and>
     set rr' = set rr \<union> {i. \<exists>n \<in> set ns. \<exists>rs a. step (ids n) (cur n) = Rerun rs a \<and> i \<in> set rs} \<and>
     (\<forall>n. cur' n = (if n \<in> set ns
                    then (case step (ids n) (cur n) of Definitive \<Rightarrow> cur n | Rerun rs a \<Rightarrow> Some a)
                    else cur n))"
proof (induction ns arbitrary: rr cur df)
  case (Cons n ns)
  show ?case
  proof (cases "step (ids n) (cur n)")
    case Definitive
    with Cons.prems have "ledger_loop ids step ns (rr, cur, df @ [n]) = (rr', cur', df')"
      by simp
    from Cons.IH [OF this] Cons.prems(2) Definitive show ?thesis
      by auto
  next
    case (Rerun rs a)
    with Cons.prems have "ledger_loop ids step ns (rr @ rs, cur(n \<mapsto> a), df) = (rr', cur', df')"
      by simp
    note ih = Cons.IH [OF this]
    have "step (ids m) ((cur(n \<mapsto> a)) m) = step (ids m) (cur m)" if "m \<in> set ns" for m
      using that Cons.prems(2) by auto
    then have f: "filter (\<lambda>m. step (ids m) ((cur(n \<mapsto> a)) m) = Definitive) ns =
        filter (\<lambda>m. step (ids m) (cur m) = Definitive) ns"
      and r: "{i. \<exists>m \<in> set ns. \<exists>rs' a'. step (ids m) ((cur(n \<mapsto> a)) m) = Rerun rs' a' \<and> i \<in> set rs'} =
        {i. \<exists>m \<in> set ns. \<exists>rs' a'. step (ids m) (cur m) = Rerun rs' a' \<and> i \<in> set rs'}"
      by (auto cong: filter_cong)
    show ?thesis
      using ih Cons.prems(2) Rerun unfolding f r by (auto split: step_result.split)
  qed
qed simp

text \<open>One pass, name by name.\<close>

lemma pass_shape:
  fixes checks required ledger h
  defines "res \<equiv> rerun_pass step sel test checks required ledger (Some h)"
    and "sm \<equiv> summarize_checks checks required"
    and "ids \<equiv> run_ids test (or_empty checks)"
  assumes "required \<noteq> []" and "h \<noteq> []" and "distinct required"
  shows "n \<in> set (rr_definitive res) \<longleftrightarrow>
           n \<in> set (sel sm) \<and> step (ids n) (ledger_entry ledger h n) = Definitive"
    and "i \<in> set (rr_rerun res) \<longleftrightarrow>
           (\<exists>n \<in> set (sel sm). \<exists>rs a. step (ids n) (ledger_entry ledger h n) = Rerun rs a \<and> i \<in> set rs)"
    and "ledger_entry (rr_attempts res) h n =
           (if n \<in> set (sel sm)
            then (case step (ids n) (ledger_entry ledger h n) of
                    Definitive \<Rightarrow> ledger_entry ledger h n | Rerun rs a \<Rightarrow> Some a)
            else if n \<in> set (cs_passed sm) then None else ledger_entry ledger h n)"
proof -
  let ?cur = "current_attempts ledger (Some h) (cs_passed sm)"
  obtain rr cur df where l: "ledger_loop ids step (sel sm) ([], ?cur, []) = (rr, cur, df)"
    by (cases "ledger_loop ids step (sel sm) ([], ?cur, [])") auto
  have e: "?cur n = (if n \<in> set (cs_passed sm) then None else ledger_entry ledger h n)" for n
    using assms(5) by (simp add: current_attempts_def ledger_entry_def)
  have es: "?cur n = ledger_entry ledger h n" if "n \<in> set (sel sm)" for n
    using that sel_not_passed [of n checks required] unfolding sm_def [symmetric] by (simp add: e)
  have res: "res = \<lparr> rr_rerun = sort (remdups rr), rr_attempts = [h \<mapsto> cur], rr_definitive = df \<rparr>"
    using l assms(4,5) by (simp add: res_def rerun_pass_def sm_def ids_def Let_def)
  note sh = loop_shape [OF l] sel_distinct [OF assms(6), of checks, folded sm_def]
  show "n \<in> set (rr_definitive res) \<longleftrightarrow>
           n \<in> set (sel sm) \<and> step (ids n) (ledger_entry ledger h n) = Definitive"
    using sh es by (auto simp: res)
  show "i \<in> set (rr_rerun res) \<longleftrightarrow>
           (\<exists>n \<in> set (sel sm). \<exists>rs a. step (ids n) (ledger_entry ledger h n) = Rerun rs a \<and> i \<in> set rs)"
    using sh es by (simp add: res)
  show "ledger_entry (rr_attempts res) h n =
           (if n \<in> set (sel sm)
            then (case step (ids n) (ledger_entry ledger h n) of
                    Definitive \<Rightarrow> ledger_entry ledger h n | Rerun rs a \<Rightarrow> Some a)
            else if n \<in> set (cs_passed sm) then None else ledger_entry ledger h n)"
  proof -
    have "ledger_entry (rr_attempts res) h n = cur n"
      by (simp add: res ledger_entry_def)
    moreover have "cur n = (if n \<in> set (sel sm)
        then (case step (ids n) (?cur n) of Definitive \<Rightarrow> ?cur n | Rerun rs a \<Rightarrow> Some a)
        else ?cur n)"
      using sh by blast
    moreover have "n \<in> set (sel sm) \<Longrightarrow> n \<notin> set (cs_passed sm)"
      using sel_not_passed [of n checks required] by (simp add: sm_def)
    ultimately show ?thesis
      by (cases "n \<in> set (cs_passed sm)"; cases "n \<in> set (sel sm)")
        (simp_all only: if_True if_False e [of n] simp_thms)
  qed
qed

text \<open>A failed name is definitive, or one of its run ids is retried now.\<close>

lemma pass_decides:
  assumes "required \<noteq> []" and "h \<noteq> []" and "distinct required"
    and "n \<in> set (sel (summarize_checks checks required))"
    and "n \<notin> set (rr_definitive (rerun_pass step sel test checks required ledger (Some h)))"
  shows "\<exists>i \<in> set (run_ids test (or_empty checks) n).
    i \<in> set (rr_rerun (rerun_pass step sel test checks required ledger (Some h))) \<and>
    spent (ledger_entry ledger h n) i < cap"
proof -
  obtain rs a where s: "step (run_ids test (or_empty checks) n) (ledger_entry ledger h n) = Rerun rs a"
    using pass_shape(1) [OF assms(1-3)] assms(4,5)
    by (cases "step (run_ids test (or_empty checks) n) (ledger_entry ledger h n)") auto
  from step_rerun [OF s] obtain i where "i \<in> set rs"
    by (cases rs) auto
  with step_rerun [OF s] s assms(4) pass_shape(2) [OF assms(1-3)] show ?thesis
    by blast
qed

lemma pass_rerun_sound:
  assumes "required \<noteq> []" and "h \<noteq> []" and "distinct required"
    and "i \<in> set (rr_rerun (rerun_pass step sel test checks required ledger (Some h)))"
  shows "\<exists>n \<in> set (sel (summarize_checks checks required)).
    i \<in> set (run_ids test (or_empty checks) n) \<and> spent (ledger_entry ledger h n) i < cap"
proof -
  from assms(4) pass_shape(2) [OF assms(1-3)] obtain n rs a where
    "n \<in> set (sel (summarize_checks checks required))" "i \<in> set rs"
    "step (run_ids test (or_empty checks) n) (ledger_entry ledger h n) = Rerun rs a"
    by blast
  with step_rerun show ?thesis
    by blast
qed

text \<open>The attempts never exceed the cap.\<close>

lemma pass_bound:
  assumes "required \<noteq> []" and "h \<noteq> []" and "distinct required"
    and "\<forall>n i. spent (ledger_entry ledger h n) i \<le> cap"
  shows "spent (ledger_entry (rr_attempts (rerun_pass step sel test checks required ledger (Some h))) h n) i
    \<le> cap"
proof (cases "step (run_ids test (or_empty checks) n) (ledger_entry ledger h n)")
  case Definitive
  then show ?thesis
    using assms(4) by (simp add: pass_shape(3) [OF assms(1-3)] spent_none cap_pos)
next
  case (Rerun rs a)
  from step_rerun [OF Rerun] have "spent (Some a) i \<le> cap"
    using assms(4) by auto
  with Rerun assms(4) show ?thesis
    by (simp add: pass_shape(3) [OF assms(1-3)] spent_none cap_pos)
qed

lemma passes_bound:
  assumes "required \<noteq> []" and "h \<noteq> []" and "distinct required"
    and "\<forall>n i. spent (ledger_entry ledger h n) i \<le> cap"
  shows "spent (ledger_entry (rerun_passes
      (\<lambda>c l. rerun_pass step sel test c required l (Some h)) ledger cs) h n) i \<le> cap"
  using assms(4)
proof (induction cs arbitrary: ledger)
  case (Cons c cs)
  show ?case
    using Cons.IH pass_bound [OF assms(1-3) Cons.prems] by simp
qed simp

text \<open>A name that keeps failing on the same run ids uses them up, and is then definitive.\<close>

lemma pass_progress:
  assumes "required \<noteq> []" and "h \<noteq> []" and "distinct required"
    and "n \<in> set (sel (summarize_checks checks required))"
    and "i \<in> set (run_ids test (or_empty checks) n)"
  shows "min cap (spent (ledger_entry ledger h n) i + 1) \<le>
    spent (ledger_entry (rr_attempts (rerun_pass step sel test checks required ledger (Some h))) h n) i"
proof (cases "step (run_ids test (or_empty checks) n) (ledger_entry ledger h n)")
  case Definitive
  with step_definitive [OF Definitive] assms(4,5) show ?thesis
    by (auto simp: pass_shape(3) [OF assms(1-3)])
next
  case (Rerun rs a)
  with step_rerun [OF Rerun] assms(4,5) show ?thesis
    by (auto simp: pass_shape(3) [OF assms(1-3)])
qed

lemma passes_progress:
  assumes "required \<noteq> []" and "h \<noteq> []" and "distinct required"
    and "\<forall>c \<in> set cs. n \<in> set (sel (summarize_checks c required)) \<and>
           i \<in> set (run_ids test (or_empty c) n)"
    and "\<forall>n i. 0 \<le> spent (ledger_entry ledger h n) i"
  shows "min cap (spent (ledger_entry ledger h n) i + int (length cs)) \<le>
    spent (ledger_entry (rerun_passes
      (\<lambda>c l. rerun_pass step sel test c required l (Some h)) ledger cs) h n) i"
  using assms(4)
proof (induction cs arbitrary: ledger)
  case (Cons c cs)
  let ?l = "rr_attempts (rerun_pass step sel test c required ledger (Some h))"
  have "min cap (spent (ledger_entry ?l h n) i + int (length cs)) \<le>
      spent (ledger_entry (rerun_passes
        (\<lambda>c l. rerun_pass step sel test c required l (Some h)) ?l cs) h n) i"
    using Cons.IH [of ?l] Cons.prems by simp
  moreover have "min cap (spent (ledger_entry ledger h n) i + 1) \<le> spent (ledger_entry ?l h n) i"
    using pass_progress [OF assms(1-3)] Cons.prems by simp
  ultimately show ?case
    by simp
qed simp

lemma passes_exhaust:
  assumes "required \<noteq> []" and "h \<noteq> []" and "distinct required"
    and "\<forall>c \<in> set (c0 # cs). n \<in> set (sel (summarize_checks c required)) \<and>
           set (run_ids test (or_empty c) n) = ids"
    and "\<forall>n i. 0 \<le> spent (ledger_entry ledger h n) i" and "cap \<le> int (length cs)"
  shows "n \<in> set (rr_definitive (rerun_pass step sel test c0 required
    (rerun_passes (\<lambda>c l. rerun_pass step sel test c required l (Some h)) ledger cs) (Some h)))"
proof -
  let ?l = "rerun_passes (\<lambda>c l. rerun_pass step sel test c required l (Some h)) ledger cs"
  have "cap \<le> spent (ledger_entry ?l h n) i" if "i \<in> ids" for i
  proof -
    have "min cap (spent (ledger_entry ledger h n) i + int (length cs)) \<le>
        spent (ledger_entry ?l h n) i"
      using assms(4) that by (intro passes_progress [OF assms(1-3) _ assms(5)]) auto
    moreover have "0 \<le> spent (ledger_entry ledger h n) i"
      using assms(5) by blast
    ultimately show ?thesis
      using assms(6) by linarith
  qed
  then have l: "\<forall>i \<in> set (run_ids test (or_empty c0) n). cap \<le> spent (ledger_entry ?l h n) i"
    using assms(4) by simp
  have "step (run_ids test (or_empty c0) n) (ledger_entry ?l h n) = Definitive"
  proof (cases "step (run_ids test (or_empty c0) n) (ledger_entry ?l h n)")
    case (Rerun rs a)
    from step_rerun [OF Rerun] obtain i where "i \<in> set rs"
      by (cases rs) auto
    with step_rerun [OF Rerun] l show ?thesis
      by fastforce
  qed
  with assms(4) pass_shape(1) [OF assms(1-3)] show ?thesis
    by simp
qed

end

section \<open>The two ledgers\<close>

lemma set_run_ids: "set (run_ids test checks n) =
    {i. \<exists>c \<in> set checks. or_empty (ck_name c) = n \<and> test c \<and> run_id_of c = Some i}"
  by (force simp: run_ids_def runs_named_def List.map_filter_def)

definition debounce_spent :: "int list option \<Rightarrow> int \<Rightarrow> int" where
  "debounce_spent a i = (if i \<in> set (or_empty a) then 1 else 0)"

interpretation debounce: rerun_ledger "debounce_step True" cs_failed is_failing_run debounce_spent 1
proof unfold_locales
  fix ids a rs and a' :: "int list"
  assume "debounce_step True ids a = Rerun rs a'"
  then show "rs \<noteq> [] \<and> set rs = {i \<in> set ids. debounce_spent a i < 1} \<and>
      (\<forall>i. debounce_spent (Some a') i = debounce_spent a i + (if i \<in> set rs then 1 else 0))"
    by (auto simp: debounce_step_def Let_def debounce_spent_def split: if_splits)
next
  fix ids and a :: "int list option"
  assume "debounce_step True ids a = Definitive"
  then show "\<forall>i \<in> set ids. 1 \<le> debounce_spent a i"
    by (auto simp: debounce_step_def Let_def debounce_spent_def filter_empty_conv split: if_splits)
next
  fix c required
  show "distinct required \<Longrightarrow> distinct (cs_failed (summarize_checks c required))"
    by (cases c) (simp_all add: summarize_Some summarize_None empty_summary_def)
  show "n \<in> set (cs_failed (summarize_checks c required)) \<Longrightarrow>
      n \<notin> set (cs_passed (summarize_checks c required))" for n
    by (cases c) (auto simp: summarize_Some summarize_None empty_summary_def)
qed (simp_all add: debounce_spent_def)

text \<open>A cap below zero allows as much as a cap of zero.\<close>

lemma infra_step_cap:
  assumes "\<forall>i. 0 \<le> attempts_made a i"
  shows "infra_step r cap ids a = infra_step r (max 0 cap) ids a"
proof -
  have "attempts_made a i < cap \<longleftrightarrow> attempts_made a i < max 0 cap" for i
    using assms [rule_format, of i] by linarith
  then show ?thesis
    by (simp add: infra_step_def)
qed

interpretation infra: rerun_ledger
  "infra_step True (int cap)" cs_infra_failed is_infra_run attempts_made "int cap"
  for cap :: nat
proof unfold_locales
  fix ids a rs and a' :: "int \<rightharpoonup> int"
  assume a: "infra_step True (int cap) ids a = Rerun rs a'"
  then have "a' i = (if i \<in> set rs then Some (attempts_made a i + 1)
      else (case a of None \<Rightarrow> None | Some m \<Rightarrow> m i))" for i
    by (auto simp: infra_step_def Let_def split: if_splits)
  then have "attempts_made (Some a') i = attempts_made a i + (if i \<in> set rs then 1 else 0)" for i
    by (auto simp: attempts_made_def get_or_def split: option.splits)
  with a show "rs \<noteq> [] \<and> set rs = {i \<in> set ids. attempts_made a i < int cap} \<and>
      (\<forall>i. attempts_made (Some a') i = attempts_made a i + (if i \<in> set rs then 1 else 0))"
    by (auto simp: infra_step_def Let_def split: if_splits)
next
  fix ids and a :: "(int \<rightharpoonup> int) option"
  assume "infra_step True (int cap) ids a = Definitive"
  then show "\<forall>i \<in> set ids. int cap \<le> attempts_made a i"
    by (auto simp: infra_step_def Let_def filter_empty_conv linorder_not_less split: if_splits)
next
  fix c required
  show "distinct required \<Longrightarrow> distinct (cs_infra_failed (summarize_checks c required))"
    by (cases c) (simp_all add: summarize_Some summarize_None empty_summary_def)
  show "n \<in> set (cs_infra_failed (summarize_checks c required)) \<Longrightarrow>
      n \<notin> set (cs_passed (summarize_checks c required))" for n
    by (cases c) (auto simp: summarize_Some summarize_None empty_summary_def)
qed (simp_all add: attempts_made_def)

text \<open>A pass that may not record attempts retries nothing and leaves the ledger's counts alone.\<close>

lemma ledger_loop_definitive:
  "(\<And>is a. step is a = Definitive) \<Longrightarrow>
   ledger_loop ids step ns (rr, cur, df) = (rr, cur, df @ ns)"
  by (induction ns arbitrary: df) auto

lemma debounce_no_record [simp]: "debounce_step False ids a = Definitive"
  by (simp add: debounce_step_def Let_def)

lemma infra_no_record [simp]: "infra_step False cap ids a = Definitive"
  by (simp add: infra_step_def Let_def)

end
