(* ===== verification/Check_Props.thy ===== *)
theory Check_Props
  imports Check_Rerun "HOL-Library.Multiset"
begin

text \<open>
  The properties of the check summary and of the two rerun ledgers.
\<close>

section \<open>The summary\<close>

definition green_class :: "check_class \<Rightarrow> bool" where
  "green_class c \<longleftrightarrow> c = PASS \<or> c = SKIPPED"

lemma bucket_Passed:
  "bucket_of cs n = Passed \<longleftrightarrow>
     runs_named cs n \<noteq> [] \<and> (\<forall>c \<in> set (runs_named cs n). green_class (classify_check_run c))"
proof -
  have g: "green_class x \<longleftrightarrow> x \<noteq> FAIL \<and> x \<noteq> INFRA_BLOCKED \<and> x \<noteq> CANCELLED \<and> x \<noteq> INFRA \<and>
      x \<noteq> PENDING \<and> x \<noteq> EMPTY" for x
    by (cases x) (simp_all add: green_class_def)
  have i: "x \<notin> f ` X \<longleftrightarrow> (\<forall>c \<in> X. f c \<noteq> x)" for x and f :: "check_run \<Rightarrow> check_class" and X
    by auto
  have "(\<forall>c \<in> X. green_class (classify_check_run c)) \<longleftrightarrow>
      FAIL \<notin> classify_check_run ` X \<and> INFRA_BLOCKED \<notin> classify_check_run ` X \<and>
      CANCELLED \<notin> classify_check_run ` X \<and> INFRA \<notin> classify_check_run ` X \<and>
      PENDING \<notin> classify_check_run ` X \<and> EMPTY \<notin> classify_check_run ` X" for X
    unfolding g i ball_conj_distrib ..
  then show ?thesis
    by (simp add: bucket_of_def Let_def)
qed

lemma ready_Some:
  "ready (summarize_checks (Some cs) required) \<longleftrightarrow> (\<forall>n \<in> set required. bucket_of cs n = Passed)"
proof -
  have "bucket_of cs n = Passed \<longleftrightarrow> bucket_of cs n \<noteq> Pending \<and> bucket_of cs n \<noteq> Failed \<and>
      bucket_of cs n \<noteq> Missing \<and> bucket_of cs n \<noteq> Infra_failed \<and> bucket_of cs n \<noteq> Infra_blocked" for n
    by (cases "bucket_of cs n") simp_all
  then show ?thesis
    by (auto simp: summarize_Some ready_def filter_empty_conv)
qed

text \<open>
  The summary is ready exactly when the check list was read and every required check has a run
  and none of its runs is anything but passed or skipped. A single failing, pending, cancelled or
  unclassified run of a required name holds the gate; without a check list only an empty requirement
  is ready.
\<close>

theorem ready_exact:
  "ready (summarize_checks checks required) \<longleftrightarrow>
     required = [] \<or>
     (\<exists>cs. checks = Some cs \<and>
        (\<forall>n \<in> set required. runs_named cs n \<noteq> [] \<and>
           (\<forall>c \<in> set (runs_named cs n). green_class (classify_check_run c))))"
proof (cases checks)
  case None
  then show ?thesis
    by (simp add: summarize_None ready_def empty_summary_def)
next
  case (Some cs)
  then show ?thesis
    by (simp only: ready_Some bucket_Passed option.inject) auto
qed

theorem ready_exact_witness:
  "\<not> ready (summarize_checks (Some
      [\<lparr> ck_name = Some ''ci'', ck_state = Some ''SUCCESS'', ck_bucket = None, ck_run_id = None, ck_link = None \<rparr>,
       \<lparr> ck_name = Some ''ci'', ck_state = Some ''IN_PROGRESS'', ck_bucket = None, ck_run_id = None, ck_link = None \<rparr>])
     [''ci''])"
proof -
  have "\<not> green_class (classify_check_run
      \<lparr> ck_name = Some ''ci'', ck_state = Some ''IN_PROGRESS'', ck_bucket = None, ck_run_id = None, ck_link = None \<rparr>)"
    by code_simp
  then show ?thesis
    unfolding ready_exact by (intro notI) (auto simp: runs_named_def)
qed

lemma bucket_partition:
  "mset required = mset (filter (\<lambda>n. bucket_of cs n = Passed) required) +
     mset (filter (\<lambda>n. bucket_of cs n = Pending) required) +
     mset (filter (\<lambda>n. bucket_of cs n = Failed) required) +
     mset (filter (\<lambda>n. bucket_of cs n = Missing) required) +
     mset (filter (\<lambda>n. bucket_of cs n = Infra_failed) required) +
     mset (filter (\<lambda>n. bucket_of cs n = Infra_blocked) required)"
proof (induction required)
  case (Cons n ns)
  then show ?case
    by (cases "bucket_of cs n") simp_all
qed simp

text \<open>
  The summary accounts for every required check exactly once: the seven lists together hold each
  required name as often as it was asked for, and no other name.
\<close>

theorem summary_partitions:
  "let s = summarize_checks checks required
   in mset (cs_passed s) + mset (cs_pending s) + mset (cs_failed s) + mset (cs_missing s) +
      mset (cs_infra_failed s) + mset (cs_infra_blocked s) + mset (cs_unavailable s) = mset required"
  using bucket_partition [of required]
  by (cases checks) (simp_all add: summarize_Some summarize_None empty_summary_def)

text \<open>
  The order in which the client lists the runs, and repeated entries, have no influence.
\<close>

theorem summary_order_free:
  assumes "set cs = set ds"
  shows "summarize_checks (Some cs) required = summarize_checks (Some ds) required"
  by (simp add: summarize_Some bucket_of_cong [OF assms])

section \<open>The rerun ledgers\<close>

definition failing :: "string \<Rightarrow> int \<Rightarrow> check_run" where
  "failing state i =
     \<lparr> ck_name = Some ''ci'', ck_state = Some state, ck_bucket = None, ck_run_id = Some i, ck_link = None \<rparr>"

lemma failing_runs:
  "cs_failed (summarize_checks (Some [failing ''FAILURE'' i]) [''ci'']) = [''ci'']"
  "run_ids is_failing_run [failing ''FAILURE'' i] ''ci'' = [i]"
  "cs_infra_failed (summarize_checks (Some [failing ''TIMED_OUT'' i]) [''ci'']) = [''ci'']"
  "run_ids is_infra_run [failing ''TIMED_OUT'' i] ''ci'' = [i]"
proof -
  have "classify_check_run (failing ''FAILURE'' 0) = FAIL" "classify_check_run (failing ''TIMED_OUT'' 0) = INFRA"
    by code_simp+
  then have c: "classify_check_run (failing ''FAILURE'' i) = FAIL"
    "classify_check_run (failing ''TIMED_OUT'' i) = INFRA"
    by (simp_all add: classify_check_run_def failing_def)
  have n: "runs_named [failing st i] ''ci'' = [failing st i]" for st
    by (simp add: runs_named_def failing_def)
  have i: "run_id_of (failing st i) = Some i" for st
    by (simp add: run_id_of_def failing_def)
  show "cs_failed (summarize_checks (Some [failing ''FAILURE'' i]) [''ci'']) = [''ci'']"
    "cs_infra_failed (summarize_checks (Some [failing ''TIMED_OUT'' i]) [''ci'']) = [''ci'']"
    by (simp_all add: summarize_Some bucket_of_def Let_def n c)
  show "run_ids is_failing_run [failing ''FAILURE'' i] ''ci'' = [i]"
    "run_ids is_infra_run [failing ''TIMED_OUT'' i] ''ci'' = [i]"
    by (simp_all add: run_ids_def n c i is_failing_run_def is_infra_run_def List.map_filter_def)
qed

theorem summary_order_free_witness:
  "summarize_checks (Some [failing ''FAILURE'' 1, failing ''SUCCESS'' 2, failing ''SUCCESS'' 2]) [''ci''] =
   summarize_checks (Some [failing ''SUCCESS'' 2, failing ''FAILURE'' 1]) [''ci'']"
  by (rule summary_order_free) auto

abbreviation debounce_passes where
  "debounce_passes required h ledger cs \<equiv>
     rerun_passes (\<lambda>c l. classify_check_failures c required l (Some h) True) ledger cs"

abbreviation infra_passes where
  "infra_passes required h cap ledger cs \<equiv>
     rerun_passes (\<lambda>c l. classify_infra_failures c required l (Some h) True cap) ledger cs"

text \<open>
  The debounce retries a failed required check at most once for each of its runs: a run a pass
  retries belongs to a required check that failed and was not yet retried on this head, and a failed
  check none of whose runs is retried is reported as definitively failed.
\<close>

theorem debounce_retries_once:
  assumes "required \<noteq> []" and "h \<noteq> []" and "distinct required"
    and "res = classify_check_failures checks required ledger (Some h) True"
  shows "(i \<in> set (rr_rerun res) \<longrightarrow>
      (\<exists>n \<in> set (cs_failed (summarize_checks checks required)).
         i \<in> set (run_ids is_failing_run (or_empty checks) n) \<and>
         i \<notin> set (or_empty (ledger_entry ledger h n)) \<and>
         i \<in> set (or_empty (ledger_entry (rr_attempts res) h n)))) \<and>
    (n \<in> set (cs_failed (summarize_checks checks required)) \<longrightarrow>
       n \<in> set (rr_definitive res) \<or> set (run_ids is_failing_run (or_empty checks) n) \<inter> set (rr_rerun res) \<noteq> {})"
proof -
  note r = assms(4) [unfolded classify_check_failures_def]
  have "\<exists>n \<in> set (cs_failed (summarize_checks checks required)).
       i \<in> set (run_ids is_failing_run (or_empty checks) n) \<and> i \<notin> set (or_empty (ledger_entry ledger h n)) \<and>
       i \<in> set (or_empty (ledger_entry (rr_attempts res) h n))"
    if i: "i \<in> set (rr_rerun res)"
  proof -
    obtain n where n: "n \<in> set (cs_failed (summarize_checks checks required))"
        "i \<in> set (run_ids is_failing_run (or_empty checks) n)" "debounce_spent (ledger_entry ledger h n) i < 1"
      using debounce.pass_rerun_sound [OF assms(1-3) i [unfolded r]] by blast
    have "min 1 (debounce_spent (ledger_entry ledger h n) i + 1) \<le>
        debounce_spent (ledger_entry (rr_attempts res) h n) i"
      unfolding r using n by (intro debounce.pass_progress [OF assms(1-3)])
    with n show ?thesis
      by (intro bexI [of _ n]) (auto simp: debounce_spent_def split: if_splits)
  qed
  moreover have "n \<in> set (rr_definitive res) \<or>
      set (run_ids is_failing_run (or_empty checks) n) \<inter> set (rr_rerun res) \<noteq> {}"
    if "n \<in> set (cs_failed (summarize_checks checks required))"
    using debounce.pass_decides [OF assms(1-3) that, of ledger] unfolding r by blast
  ultimately show ?thesis
    by blast
qed

theorem debounce_retries_once_witness:
  "5 \<in> set (rr_rerun (classify_check_failures (Some [failing ''FAILURE'' 5]) [''ci''] (\<lambda>_. None) (Some ''abc'') True)) \<or>
   ''ci'' \<in> set (rr_definitive (classify_check_failures (Some [failing ''FAILURE'' 5]) [''ci''] (\<lambda>_. None) (Some ''abc'') True))"
  using debounce_retries_once [of "[''ci'']" "''abc''"
      "classify_check_failures (Some [failing ''FAILURE'' 5]) [''ci''] (\<lambda>_. None) (Some ''abc'') True"
      "Some [failing ''FAILURE'' 5]" "\<lambda>_. None" 5 "''ci''"]
  by (auto simp: failing_runs)

text \<open>
  The retries end: on one head, a required check that fails with the same runs in two passes is
  definitively failed in the second, whatever passes ran before.
\<close>

theorem debounce_ends:
  assumes "required \<noteq> []" and "h \<noteq> []" and "distinct required"
    and "\<forall>c \<in> {c1, c2}. n \<in> set (cs_failed (summarize_checks c required)) \<and>
           set (run_ids is_failing_run (or_empty c) n) = ids"
  shows "n \<in> set (rr_definitive (classify_check_failures c2 required
    (debounce_passes required h ledger (before @ [c1])) (Some h) True))"
proof -
  have app: "rerun_passes p l (xs @ ys) = rerun_passes p (rerun_passes p l xs) ys"
    for p and l :: "int list ledger" and xs ys
    by (induction xs arbitrary: l) simp_all
  have "n \<in> set (rr_definitive (classify_check_failures c2 required
      (debounce_passes required h l [c1]) (Some h) True))" for l
    unfolding classify_check_failures_def
    by (rule debounce.passes_exhaust [OF assms(1-3), where ids = ids])
      (use assms(4) in \<open>simp_all add: debounce_spent_def\<close>)
  then show ?thesis
    by (simp only: app)
qed

theorem debounce_ends_witness:
  "''ci'' \<in> set (rr_definitive (classify_check_failures (Some [failing ''FAILURE'' 5]) [''ci'']
     (debounce_passes [''ci''] ''abc'' (\<lambda>_. None) ([None] @ [Some [failing ''FAILURE'' 5]])) (Some ''abc'') True))"
  by (rule debounce_ends [where ids = "{5}"]) (simp_all add: failing_runs)

text \<open>
  The infrastructure retries are capped: over any number of passes on one head no run is counted
  more often than the cap, and a check that keeps failing on the same runs is definitive once it has
  failed in that many passes.
\<close>

theorem infra_retries_capped:
  assumes "required \<noteq> []" and "h \<noteq> []" and "distinct required"
    and "\<forall>c \<in> set (c0 # cs). n \<in> set (cs_infra_failed (summarize_checks c required)) \<and>
           set (run_ids is_infra_run (or_empty c) n) = ids" and "cap \<le> length cs"
  shows "attempts_made (ledger_entry (infra_passes required h (int cap) (\<lambda>_. None) anything) h n') i \<le> int cap \<and>
    n \<in> set (rr_definitive (classify_infra_failures c0 required
      (infra_passes required h (int cap) (\<lambda>_. None) cs) (Some h) True (int cap)))"
  unfolding classify_infra_failures_def
  using infra.passes_bound [OF assms(1-3), of "\<lambda>_. None" cap anything n' i]
    infra.passes_exhaust [OF assms(1-4), of "\<lambda>_. None" cap] assms(5)
  by (simp add: attempts_made_def ledger_entry_def)

theorem infra_retries_capped_witness:
  "''ci'' \<in> set (rr_definitive (classify_infra_failures (Some [failing ''TIMED_OUT'' 5]) [''ci'']
     (infra_passes [''ci''] ''abc'' (int 2) (\<lambda>_. None)
        [Some [failing ''TIMED_OUT'' 5], Some [failing ''TIMED_OUT'' 5]]) (Some ''abc'') True (int 2)))"
  by (rule conjunct2 [OF infra_retries_capped [where ids = "{5}"]]) (simp_all add: failing_runs)

text \<open>
  A pass that may not record attempts retries nothing and reports every failed check, of either
  kind, as definitive.
\<close>

theorem no_record_no_retry:
  assumes "required \<noteq> []"
  shows "rr_rerun (classify_check_failures checks required ledger head False) = [] \<and>
    rr_definitive (classify_check_failures checks required ledger head False) =
      cs_failed (summarize_checks checks required) \<and>
    rr_rerun (classify_infra_failures checks required ledger' head False cap) = [] \<and>
    rr_definitive (classify_infra_failures checks required ledger' head False cap) =
      cs_infra_failed (summarize_checks checks required)"
  using assms
  by (simp add: classify_check_failures_def classify_infra_failures_def rerun_pass_def Let_def
      ledger_loop_definitive)

theorem no_record_no_retry_witness:
  "rr_definitive (classify_check_failures (Some [failing ''FAILURE'' 5]) [''ci''] (\<lambda>_. None) (Some ''abc'') False) = [''ci'']"
  using no_record_no_retry [of "[''ci'']" "Some [failing ''FAILURE'' 5]"] by (simp add: failing_runs)

end
