(* ===== verification/Merge_Model.thy ===== *)
theory Merge_Model
  imports Checks Timestamps
begin

text \<open>
  The value types of the merge path (\<^verbatim>\<open>merge_path/model.py\<close>): facts are what a gather step
  observed, plans what a decide function concluded. An optional fact is None when the gather
  step left it unread; a decide function that needs it then raises \<open>Fact_not_gathered\<close>.
\<close>

section \<open>Vocabulary\<close>

datatype decide_error =
  Fact_not_gathered string | Counter_error | Assertion_failed string

definition mergequeue_wedged_revoke :: string where
  "mergequeue_wedged_revoke = ''mergequeue_wedged''"

datatype plan_kind =
  Skip | Not_found | Request_rework | Wait | Hold | Rerun_or_escalate | Escalate | Hand_off
| Merge | Nothing

text \<open>\<^verbatim>\<open>PlanKind | StageKind\<close>: the one stage kind is PROCEED.\<close>

datatype stage = Proceed | Stop plan_kind

datatype branch_stop =
  Conflict_in_flight | Conflict_blocked | Conflict_cap_exceeded | Not_train_head | Stale_base

datatype revert_status = Clean | Detected | Undetermined

datatype sync_outcome =
  Not_needed | Skipped_queued | Not_attempted | Sync_failed | Same_head | New_head

datatype hold =
  H_escalated | H_human_merge | H_human_merge_unavailable | H_merge_hold
| H_merge_hold_unavailable | H_revert_undetermined | H_checks_unavailable | H_requeue_capped
| H_human_block | H_human_block_unavailable

text \<open>
  A counter of the state file as \<^verbatim>\<open>int()\<close> reads it: the value it coerces to, or malformed (a
  TypeError or ValueError).
\<close>

datatype raw_counter = Coerces int | Malformed

text \<open>The observed train head: the first PR of the train, or a failed list.\<close>

datatype train_head = Train "int option" | Train_unavailable

section \<open>Facts and plans\<close>

text \<open>\<^verbatim>\<open>VerdictFact.raw\<close> is kept for rendering only; no decide function reads it.\<close>

record verdict_fact =
  vf_approved :: bool
  vf_reviewed_head_sha :: "string option"

record persisted_pr =
  pp_status :: "string option"
  pp_revoked_reason :: "string option"
  pp_failed_attempts :: raw_counter
  pp_stale_base_deferrals :: raw_counter
  pp_since :: "string option"
  pp_head_sha :: "string option"
  pp_checked_at :: "string option"
  pp_requeues :: raw_counter
  pp_requeues_head :: "string option"
  pp_conflict_cap_escalated :: bool
  pp_conflict_escalated_head :: "string option"
  pp_conflict_last_head :: "string option"

record merge_config =
  cfg_auto_merge_enabled :: bool
  cfg_mergequeue_label :: "string option"
  cfg_update_branch_strategy :: string
  cfg_require_approved_review :: bool
  cfg_failed_attempt_alarm :: int
  cfg_max_conflict_rework :: int
  cfg_human_merge_labels :: "string list"
  cfg_review_dispatch_enabled :: bool
  cfg_required_checks :: "string list"
  cfg_readiness_no_ci_minutes :: int
  cfg_merge_strategy :: string
  cfg_skip_line_label :: "string option"
  cfg_priority_prefix :: string
  cfg_requeue_cap :: int
  cfg_honor_human_block :: bool

record admission_facts =
  af_pr :: int
  af_config :: merge_config
  af_persisted :: "persisted_pr option"
  af_pr_found :: bool
  af_live_labels :: "string set"
  af_live_head :: "string option"
  af_issue :: "int option"
  af_verdict :: verdict_fact
  af_carry_forward :: "bool option"
  af_pr_escalated :: bool
  af_issue_escalated :: bool

record admission =
  adm_kind :: stage
  adm_approved :: bool
  adm_reverted :: bool
  adm_self_revoked :: bool
  adm_revoked_reason :: "string option"
  adm_carry_forward_needed :: bool
  adm_head_moved :: bool
  adm_escalated :: bool
  adm_stamp_reviewing :: bool
  adm_review_started :: bool
  adm_record_head_moved :: bool

definition admission_of :: "stage \<Rightarrow> admission" where
  "admission_of k =
     \<lparr> adm_kind = k, adm_approved = False, adm_reverted = False, adm_self_revoked = False,
       adm_revoked_reason = None, adm_carry_forward_needed = False, adm_head_moved = False,
       adm_escalated = False, adm_stamp_reviewing = False, adm_review_started = False,
       adm_record_head_moved = False \<rparr>"

record branch_facts =
  bf_pr :: int
  bf_config :: merge_config
  bf_admission :: admission
  bf_persisted :: "persisted_pr option"
  bf_merge_conflict :: bool
  bf_issue_status :: "string option"
  bf_train_head_param :: "int option"
  bf_train_head :: train_head
  bf_base_currency_gated :: "bool option"
  bf_base_current_read :: bool
  bf_base_current :: "bool option"
  bf_should_update_branch :: "bool option"
  bf_conflict_cap_stop :: bool

record branch_gate =
  bg_kind :: stage
  bg_admission :: admission
  bg_stop :: "branch_stop option"
  bg_merge_conflict :: bool
  bg_sync_failed :: bool
  bg_request_sync :: bool
  bg_already_queued :: bool
  bg_stale_base_reason :: "string option"

definition branch_gate_of :: "stage \<Rightarrow> admission \<Rightarrow> branch_gate" where
  "branch_gate_of k adm =
     \<lparr> bg_kind = k, bg_admission = adm, bg_stop = None, bg_merge_conflict = False,
       bg_sync_failed = False, bg_request_sync = False, bg_already_queued = False,
       bg_stale_base_reason = None \<rparr>"

record gate_inputs =
  gi_summary_ready :: bool
  gi_approved :: bool
  gi_require_approved_review :: bool
  gi_sync_failed :: bool

definition can_merge :: "gate_inputs \<Rightarrow> bool" where
  "can_merge g \<longleftrightarrow>
     gi_summary_ready g \<and> (gi_approved g \<or> \<not> gi_require_approved_review g) \<and> \<not> gi_sync_failed g"

record readiness_facts =
  rf_pr :: int
  rf_config :: merge_config
  rf_branch :: branch_gate
  rf_issue :: "int option"
  rf_issue_status :: "string option"
  rf_issue_reason_class :: "string option"
  rf_revert :: revert_status
  rf_revert_reason :: "string option"
  rf_checks :: check_summary
  rf_checks_unavailable :: bool
  rf_check_names_seen :: "string set"
  rf_now :: pytime
  rf_pr_updated_at :: "string option"
  rf_is_draft :: bool
  rf_human_merge_hold :: bool
  rf_human_merge_unavailable :: bool
  rf_pr_escalated :: bool
  rf_issue_escalated :: bool
  rf_containment_warnings :: "string list"

record revert_verdict =
  rv_sync_failed :: bool
  rv_detected :: bool
  rv_undetermined :: bool
  rv_route :: bool

record readiness =
  rd_kind :: stage
  rd_gate :: gate_inputs
  rd_branch :: branch_gate
  rd_issue :: "int option"
  rd_summary :: check_summary
  rd_checks_unavailable :: bool
  rd_pending_only :: bool
  rd_revert_detected :: bool
  rd_revert_undetermined :: bool
  rd_revert_reason :: "string option"
  rd_route_revert :: bool
  rd_stall :: bool
  rd_infra_eligible :: bool
  rd_deescalate :: bool
  rd_human_merge_hold :: bool
  rd_human_merge_unavailable :: bool
  rd_containment_warnings :: "string list"

record hold_facts =
  hf_config :: merge_config
  hf_persisted :: "persisted_pr option"
  hf_issue_status :: "string option"
  hf_pr_escalated :: bool
  hf_issue_escalated :: bool
  hf_should_merge :: bool
  hf_merge_hold :: "bool option"
  hf_merge_hold_unavailable :: bool
  hf_human_block :: "bool option"
  hf_human_block_unavailable :: bool
  hf_human_block_source :: "string option"
  hf_live_head :: "string option"

record merge_plan =
  mp_kind :: plan_kind
  mp_readiness :: readiness
  mp_escalated_hold :: bool
  mp_should_merge :: bool
  mp_action_merge :: bool
  mp_action_hand_off :: bool
  mp_action_human_merge :: bool
  mp_read_merge_hold :: bool
  mp_merge_hold :: bool
  mp_merge_hold_unavailable :: bool
  mp_read_human_block :: bool
  mp_human_block :: bool
  mp_human_block_unavailable :: bool
  mp_human_block_source :: "string option"
  mp_reset_on_hand_off :: bool
  mp_holds :: "hold set"
  mp_conflict_rework :: bool
  mp_check_failure_rework :: bool
  mp_requeues :: int
  mp_requeue_capped :: bool
  mp_requeue_rework :: bool

text \<open>
  What the effects reported. The results of the branch and run clean-up are carried as rendered
  text; \<open>er_rework_label_error\<close> is the text of a label failure's outcome, None for no failure.
\<close>

record effect_results =
  er_label_applied :: "bool option"
  er_merge_output :: "string option"
  er_merged_at :: "string option"
  er_cancel_results :: "string option"
  er_revert_routed :: bool
  er_conflict_routed :: bool
  er_conflict_escalated :: bool
  er_check_failure_routed :: bool
  er_requeue_routed :: bool
  er_requeue_escalated :: bool
  er_rework_label_error :: "string option"
  er_issue_status_after :: "string option"

record accounting_facts =
  acf_pr :: int
  acf_issue :: "int option"
  acf_config :: merge_config
  acf_locked :: persisted_pr
  acf_deadline_spent :: bool
  acf_now_iso :: string
  acf_live_head :: "string option"
  acf_mergeable :: "string option"
  acf_merge_state_status :: "string option"

record alarm_payload =
  al_pr :: int
  al_issue :: "int option"
  al_attempts :: int
  al_threshold :: int
  al_summary :: check_summary
  al_mergeable :: "string option"
  al_merge_state_status :: "string option"
  al_message :: string

record capped_payload =
  cp_pr :: int
  cp_issue :: "int option"
  cp_head_sha :: "string option"
  cp_requeues :: int
  cp_cap :: int
  cp_label :: "string option"

record ready_payload =
  rp_pr :: int
  rp_can_merge :: bool
  rp_merged :: bool
  rp_merge_hold :: bool
  rp_merge_hold_unavailable :: bool
  rp_human_block :: bool
  rp_human_block_unavailable :: bool
  rp_human_block_source :: "string option"
  rp_human_merge_hold :: bool
  rp_human_merge_unavailable :: bool
  rp_cancel_results :: "string option"
  rp_label_applied :: "bool option"
  rp_gate :: gate_inputs

record succeeded_payload =
  sp_pr :: int
  sp_issue :: "int option"
  sp_actor :: string
  sp_merge_method :: string
  sp_merged_at :: "string option"

datatype event_spec =
  Merge_failed_attempt_alarm alarm_payload
| Mergequeue_requeue_capped capped_payload
| Merge_ready_event ready_payload
| Merge_succeeded succeeded_payload

record accounting =
  acc_handoff_failed :: bool
  acc_failed_attempts :: int
  acc_stale_base_deferrals :: int
  acc_alarm :: bool
  acc_warning :: "string option"
  acc_merge_alert_ok :: bool
  acc_merged :: bool
  acc_pr_status :: "string option"
  acc_since :: "string option"
  acc_head_sha :: "string option"
  acc_requeues :: "int option"
  acc_requeues_head :: "string option"
  acc_events :: "event_spec list"

end
