(* ===== verification/Merge_Gates.thy ===== *)
theory Merge_Gates
  imports Merge_Model
begin

text \<open>
  The pure predicates of the merge path: the status sets and rules (\<^verbatim>\<open>rules.py\<close>), the revert and
  de-escalation gates of stage 3 (\<^verbatim>\<open>readiness_gates.py\<close>), the human request-changes hold
  (\<^verbatim>\<open>human_block.py\<close>), the queue lane's requeue ledger (\<^verbatim>\<open>mergequeue.py\<close>) and the alarm texts
  (\<^verbatim>\<open>alarm_text.py\<close>).
\<close>

section \<open>Rules\<close>

definition rework_already_routed_statuses :: "string list" where
  "rework_already_routed_statuses =
     [''escalated'', ''blocked'', ''dispatched'', ''dispatch_pending'', ''manifest_written'',
      ''rework_requested'']"

definition conflict_rework_in_flight_statuses :: "string list" where
  "conflict_rework_in_flight_statuses = [''dispatched'', ''dispatch_pending'', ''manifest_written'']"

definition conflict_route_excluded_statuses :: "string list" where
  "conflict_route_excluded_statuses = [''manifest_written'', ''blocked'']"

definition conflict_rework_cap_exceeded :: string where
  "conflict_rework_cap_exceeded = ''conflict_rework_attempts_cap_exceeded''"

definition check_route_excluded_statuses :: "string list" where
  "check_route_excluded_statuses = rework_already_routed_statuses"

text \<open>\<^verbatim>\<open>status in STATUSES\<close> for a status that may be absent.\<close>

definition status_in :: "string option \<Rightarrow> string list \<Rightarrow> bool" where
  "status_in st sts = (case st of None \<Rightarrow> False | Some s \<Rightarrow> s \<in> set sts)"

definition conflict_cap_stop :: "persisted_pr option \<Rightarrow> string option \<Rightarrow> bool" where
  "conflict_cap_stop persisted live_head =
     (case persisted of
        None \<Rightarrow> False
      | Some p \<Rightarrow>
          if \<not> pp_conflict_cap_escalated p then False
          else (let anchor = or_else (pp_conflict_escalated_head p) (pp_conflict_last_head p)
                in truthy anchor \<and> truthy live_head \<and> anchor = live_head))"

definition is_pending_only :: "check_summary \<Rightarrow> bool" where
  "is_pending_only s \<longleftrightarrow>
     cs_pending s \<noteq> [] \<and> cs_failed s = [] \<and> cs_missing s = [] \<and> cs_infra_failed s = [] \<and>
     cs_infra_blocked s = [] \<and> cs_unavailable s = []"

definition readiness_no_ci_stall ::
  "iso_parser \<Rightarrow> string set \<Rightarrow> string option \<Rightarrow> pytime \<Rightarrow> string list \<Rightarrow> int \<Rightarrow> bool" where
  "readiness_no_ci_stall fromiso seen updated_at now required mins =
     (if mins \<le> 0 \<or> required = [] then False
      else if list_ex (\<lambda>name. name \<in> seen) required then False
      else is_pr_updated_at_older_than fromiso updated_at now mins)"

text \<open>The alarm message of an approved PR that cannot merge.\<close>

definition bucket_text :: "string \<Rightarrow> string list \<Rightarrow> string list" where
  "bucket_text title names = (if names = [] then [] else [title @ '': '' @ join '', '' names])"

definition mergeability_text :: "string option \<Rightarrow> string option \<Rightarrow> string" where
  "mergeability_text mergeable merge_state =
     (let m = upper (or_empty mergeable); st = upper (or_empty merge_state)
      in if (m \<noteq> [] \<and> m \<noteq> ''UNKNOWN'') \<or> (st \<noteq> [] \<and> st \<noteq> ''UNKNOWN'')
         then ''mergeable='' @ (if m = [] then ''UNKNOWN'' else m) @ '', mergeStateStatus='' @
              (if st = [] then ''UNKNOWN'' else st) @ '', all required checks passed''
         else ''check summary unknown'')"

definition pass_str :: "int \<Rightarrow> string" where
  "pass_str attempts = (if attempts = 1 then ''pass'' else ''passes'')"

definition alarm_lead :: "int \<Rightarrow> int \<Rightarrow> string" where
  "alarm_lead pr attempts =
     ''PR #'' @ int_str pr @ '' approved but unmergeable for '' @ int_str attempts @ '' '' @
     pass_str attempts @ '': ''"

definition format_merge_attempt_alarm_message ::
  "int \<Rightarrow> int \<Rightarrow> check_summary \<Rightarrow> string option \<Rightarrow> string option \<Rightarrow> string" where
  "format_merge_attempt_alarm_message pr attempts s mergeable merge_state =
     (let buckets =
        (if cs_missing s = [] then []
         else [''required checks missing while GitHub shows the PR open'']) @
        bucket_text ''pending'' (cs_pending s) @ bucket_text ''failed'' (cs_failed s) @
        bucket_text ''infra_failed'' (cs_infra_failed s) @
        bucket_text ''infra_blocked'' (cs_infra_blocked s) @
        bucket_text ''unavailable'' (cs_unavailable s)
      in alarm_lead pr attempts @
         join ''; '' (if buckets = [] then [mergeability_text mergeable merge_state] else buckets))"

section \<open>Readiness gates\<close>

definition decide_revert ::
  "bool \<Rightarrow> bool \<Rightarrow> revert_status \<Rightarrow> int option \<Rightarrow> string option \<Rightarrow> revert_verdict" where
  "decide_revert approved sync_failed revert issue issue_status =
     (if approved \<and> \<not> sync_failed then
        (case revert of
           Detected \<Rightarrow>
             \<lparr> rv_sync_failed = True, rv_detected = True, rv_undetermined = False,
               rv_route = (issue \<noteq> None \<and> \<not> status_in issue_status rework_already_routed_statuses) \<rparr>
         | Undetermined \<Rightarrow>
             \<lparr> rv_sync_failed = True, rv_detected = False, rv_undetermined = True, rv_route = False \<rparr>
         | Clean \<Rightarrow>
             \<lparr> rv_sync_failed = sync_failed, rv_detected = False, rv_undetermined = False,
               rv_route = False \<rparr>)
      else \<lparr> rv_sync_failed = sync_failed, rv_detected = False, rv_undetermined = False,
             rv_route = False \<rparr>)"

definition deescalation_read_needed :: "merge_config \<Rightarrow> int option \<Rightarrow> bool \<Rightarrow> bool \<Rightarrow> bool" where
  "deescalation_read_needed cfg issue hold unavailable \<longleftrightarrow>
     cfg_human_merge_labels cfg \<noteq> [] \<and> issue \<noteq> None \<and> \<not> hold \<and> \<not> unavailable"

definition deescalates ::
  "merge_config \<Rightarrow> int option \<Rightarrow> bool \<Rightarrow> bool \<Rightarrow> string option \<Rightarrow> string option \<Rightarrow> bool" where
  "deescalates cfg issue hold unavailable issue_status reason_class \<longleftrightarrow>
     deescalation_read_needed cfg issue hold unavailable \<and>
     issue_status = Some ''escalated'' \<and> reason_class = Some ''policy''"

definition with_human_merge ::
  "readiness \<Rightarrow> merge_config \<Rightarrow> bool \<times> bool \<Rightarrow> string option \<Rightarrow> string option \<Rightarrow> readiness" where
  "with_human_merge rd cfg human_merge issue_status reason_class =
     rd\<lparr> rd_human_merge_hold := fst human_merge, rd_human_merge_unavailable := snd human_merge,
         rd_deescalate := deescalates cfg (rd_issue rd) (fst human_merge) (snd human_merge)
                            issue_status reason_class \<rparr>"

section \<open>A human's outstanding request-changes\<close>

record human_block_read =
  hb_blocked :: bool
  hb_unavailable :: bool
  hb_source :: "string option"

text \<open>
  A comment: whether it is a mapping, whether a bot or the orchestrator wrote it, and its body if
  that is text. The two verdict patterns are searches of a body.
\<close>

record review_comment =
  rc_mapping :: bool
  rc_bot :: bool
  rc_orchestrator :: bool
  rc_body :: "string option"

fun scan_verdicts ::
  "(string \<Rightarrow> bool) \<Rightarrow> (string \<Rightarrow> bool) \<Rightarrow> review_comment list \<Rightarrow> human_block_read" where
  "scan_verdicts rc ap [] = \<lparr> hb_blocked = False, hb_unavailable = False, hb_source = None \<rparr>"
| "scan_verdicts rc ap (c # cs) =
     (if \<not> rc_mapping c \<or> rc_bot c \<or> rc_orchestrator c then scan_verdicts rc ap cs
      else case rc_body c of
             None \<Rightarrow> scan_verdicts rc ap cs
           | Some body \<Rightarrow>
               if rc body
               then \<lparr> hb_blocked = True, hb_unavailable = False, hb_source = Some ''comment'' \<rparr>
               else if ap body
               then \<lparr> hb_blocked = False, hb_unavailable = False, hb_source = None \<rparr>
               else scan_verdicts rc ap cs)"

definition classify_human_block ::
  "string option \<Rightarrow> review_comment list \<Rightarrow> (string \<Rightarrow> bool) \<Rightarrow> (string \<Rightarrow> bool) \<Rightarrow> human_block_read" where
  "classify_human_block review_decision comments request_changes approved =
     (if review_decision = Some ''CHANGES_REQUESTED''
      then \<lparr> hb_blocked = True, hb_unavailable = False, hb_source = Some ''review_decision'' \<rparr>
      else scan_verdicts request_changes approved (rev comments))"

record human_block_gate =
  hg_read_needed :: bool
  hg_blocked :: bool
  hg_unavailable :: bool
  hg_source :: "string option"

definition held :: "human_block_gate \<Rightarrow> bool" where
  "held g \<longleftrightarrow> hg_blocked g \<or> hg_unavailable g"

definition gate_holds :: "human_block_gate \<Rightarrow> hold set" where
  "gate_holds g =
     (if hg_blocked g then {H_human_block} else {}) \<union>
     (if hg_unavailable g then {H_human_block_unavailable} else {})"

definition human_block_read_needed :: "bool \<Rightarrow> hold_facts \<Rightarrow> bool" where
  "human_block_read_needed enter h \<longleftrightarrow> enter \<and> cfg_honor_human_block (hf_config h)"

definition human_block_gate :: "bool \<Rightarrow> hold_facts \<Rightarrow> decide_error + human_block_gate" where
  "human_block_gate enter h =
     (if \<not> human_block_read_needed enter h
      then Inr \<lparr> hg_read_needed = False, hg_blocked = False, hg_unavailable = False,
                 hg_source = None \<rparr>
      else if hf_human_block h = None \<and> \<not> hf_human_block_unavailable h
      then Inl (Fact_not_gathered ''human_block'')
      else Inr \<lparr> hg_read_needed = True, hg_blocked = (hf_human_block h = Some True),
                 hg_unavailable = hf_human_block_unavailable h,
                 hg_source = (if hf_human_block h = Some True then hf_human_block_source h
                              else None) \<rparr>)"

section \<open>The queue lane\<close>

definition is_already_in_mergequeue :: "persisted_pr option \<Rightarrow> admission \<Rightarrow> bool" where
  "is_already_in_mergequeue persisted adm \<longleftrightarrow>
     (case persisted of None \<Rightarrow> False | Some p \<Rightarrow> pp_status p = Some ''mergequeue'') \<and>
     \<not> adm_reverted adm"

definition merge_entry :: "readiness \<Rightarrow> hold_facts \<Rightarrow> bool \<times> bool" where
  "merge_entry rd h =
     (let cm = can_merge (rd_gate rd);
          escalated = cm \<and> (hf_pr_escalated h \<or> hf_issue_escalated h)
      in (escalated,
          cm \<and> hf_should_merge h \<and> \<not> escalated \<and> \<not> rd_human_merge_hold rd \<and>
          \<not> rd_human_merge_unavailable rd))"

definition merge_hold_read_needed :: "readiness \<Rightarrow> hold_facts \<Rightarrow> bool \<Rightarrow> bool" where
  "merge_hold_read_needed rd h require_label \<longleftrightarrow>
     snd (merge_entry rd h) \<and> (truthy (cfg_mergequeue_label (hf_config h)) \<or> \<not> require_label)"

definition mergequeue_stamp_needs_now :: "persisted_pr \<Rightarrow> bool \<Rightarrow> string option \<Rightarrow> bool" where
  "mergequeue_stamp_needs_now locked merged live_head =
     (let status = (if merged then Some ''merged'' else pp_status locked)
      in if status \<noteq> Some ''mergequeue'' \<or> \<not> truthy live_head then False
         else \<not> (pp_head_sha locked = live_head \<and> truthy (pp_since locked)))"

definition is_counted_queue_revert :: "admission \<Rightarrow> bool \<Rightarrow> string option \<Rightarrow> bool" where
  "is_counted_queue_revert adm cm live_head \<longleftrightarrow>
     adm_reverted adm \<and> cm \<and> \<not> adm_self_revoked adm \<and> adm_revoked_reason adm = None \<and>
     truthy live_head"

definition mergequeue_re_add_pending :: "readiness \<Rightarrow> hold_facts \<Rightarrow> decide_error + bool" where
  "mergequeue_re_add_pending rd h =
     (if merge_hold_read_needed rd h True \<and> hf_merge_hold h = Some False \<and>
         \<not> hf_merge_hold_unavailable h
      then bindE (human_block_gate (snd (merge_entry rd h)) h) (\<lambda>g. Inr (\<not> held g))
      else Inr False)"

definition coerce_or_zero :: "raw_counter \<Rightarrow> int" where
  "coerce_or_zero c = (case c of Coerces n \<Rightarrow> n | Malformed \<Rightarrow> 0)"

definition mergequeue_requeue_count ::
  "persisted_pr option \<Rightarrow> admission \<Rightarrow> bool \<Rightarrow> string option \<Rightarrow> bool \<Rightarrow> int" where
  "mergequeue_requeue_count persisted adm cm live_head re_add_pending =
     (case persisted of
        None \<Rightarrow> 0
      | Some p \<Rightarrow>
          if truthy live_head \<and> pp_requeues_head p = live_head
          then coerce_or_zero (pp_requeues p) else 0) +
     (if re_add_pending \<and> is_counted_queue_revert adm cm live_head then 1 else 0)"

record requeue_gate_result =
  rg_requeues :: int
  rg_capped :: bool
  rg_rework :: bool

definition requeue_gate :: "readiness \<Rightarrow> hold_facts \<Rightarrow> bool \<Rightarrow> decide_error + requeue_gate_result" where
  "requeue_gate rd h re_add_pending =
     (let cfg = hf_config h; adm = bg_admission (rd_branch rd); cm = can_merge (rd_gate rd);
          escalated = fst (merge_entry rd h); enter = snd (merge_entry rd h);
          requeues = mergequeue_requeue_count (hf_persisted h) adm cm (hf_live_head h) re_add_pending;
          cap = cfg_requeue_cap cfg
      in bindE (if truthy (cfg_mergequeue_label cfg) \<and> hf_should_merge h \<and> \<not> escalated
                then bindE (human_block_gate enter h) (\<lambda>g.
                  Inr (\<not> held g \<and> cm \<and> truthy (hf_live_head h) \<and> 0 < cap \<and> cap \<le> requeues))
                else Inr False) (\<lambda>capped.
         Inr \<lparr> rg_requeues = requeues, rg_capped = capped,
               rg_rework = (capped \<and> rd_issue rd \<noteq> None \<and> \<not> rd_human_merge_hold rd \<and>
                            \<not> rd_human_merge_unavailable rd \<and>
                            \<not> status_in (hf_issue_status h) check_route_excluded_statuses) \<rparr>))"

record requeue_delta =
  dl_requeues :: "int option"
  dl_head_sha :: "string option"
  dl_capped_payload :: "capped_payload option"

definition requeue_accounting ::
  "admission \<Rightarrow> bool \<Rightarrow> accounting_facts \<Rightarrow> bool \<Rightarrow> requeue_delta" where
  "requeue_accounting adm cm f re_add_wanted =
     (if \<not> re_add_wanted \<or> \<not> is_counted_queue_revert adm cm (acf_live_head f)
      then \<lparr> dl_requeues = None, dl_head_sha = None, dl_capped_payload = None \<rparr>
      else (let base = coerce_or_zero (pp_requeues (acf_locked f));
                requeues = (if pp_requeues_head (acf_locked f) = acf_live_head f then base else 0) + 1;
                cap = cfg_requeue_cap (acf_config f)
            in \<lparr> dl_requeues = Some requeues, dl_head_sha = acf_live_head f,
                 dl_capped_payload =
                   (if 0 < cap \<and> requeues = cap
                    then Some \<lparr> cp_pr = acf_pr f, cp_issue = acf_issue f,
                                cp_head_sha = acf_live_head f, cp_requeues = requeues,
                                cp_cap = cap, cp_label = cfg_mergequeue_label (acf_config f) \<rparr>
                    else None) \<rparr>))"

section \<open>Alarm texts\<close>

text \<open>The dash of the messages, encoded in UTF-8.\<close>

definition em_dash :: string where
  "em_dash = [CHR 0xE2, CHR 0x80, CHR 0x94]"

text \<open>\<^verbatim>\<open>repr(s)\<close> of printable text: the quote is a double one only for a text with a single one.\<close>

definition py_repr :: "string \<Rightarrow> string" where
  "py_repr s =
     (let q = (if CHR 0x27 \<in> set s \<and> CHR 0x22 \<notin> set s then CHR 0x22 else CHR 0x27)
      in q # concat (map (\<lambda>c. if c = q \<or> c = CHR 0x5C then [CHR 0x5C, c] else [c]) s) @ [q])"

definition route_detail ::
  "int option \<Rightarrow> bool \<Rightarrow> bool \<Rightarrow> string option \<Rightarrow> string option \<Rightarrow> string" where
  "route_detail issue routed escalated label_error issue_status_after =
     (if issue = None then ''no linked issue, cannot route to rework''
      else if escalated then ''conflict-rework cap exhausted; escalated to a human''
      else if routed then
        (case label_error of
           Some outcome \<Rightarrow> ''rework dispatch attempted (label update failed: '' @ outcome @ '')''
         | None \<Rightarrow> ''rework dispatched'')
      else if issue_status_after = Some ''rework_requested'' then ''rework already requested''
      else ''rework not routed'')"

definition alarm_warning ::
  "readiness \<Rightarrow> effect_results \<Rightarrow> accounting_facts \<Rightarrow> int \<Rightarrow> bool \<Rightarrow> string" where
  "alarm_warning rd r f attempts handoff_failed =
     (let s = rd_summary rd; lead = alarm_lead (acf_pr f) attempts
      in if bg_merge_conflict (rd_branch rd) then
           lead @ ''merge conflict '' @ em_dash @ '' '' @
           route_detail (acf_issue f) (er_conflict_routed r) (er_conflict_escalated r)
             (er_rework_label_error r) (er_issue_status_after r)
         else if rd_revert_detected rd then
           lead @ ''cross-PR revert '' @ em_dash @ '' '' @
           route_detail (acf_issue f) (er_revert_routed r) False
             (er_rework_label_error r) (er_issue_status_after r)
         else if handoff_failed then
           ''PR #'' @ int_str (acf_pr f) @ '' approved and checks green but the mergequeue label '' @
           (case cfg_mergequeue_label (acf_config f) of
              None \<Rightarrow> ''None'' | Some l \<Rightarrow> py_repr l) @
           '' failed to apply for '' @ int_str attempts @ '' '' @ pass_str attempts @ '' '' @
           em_dash @ '' never handed off to Aviator''
         else if cs_failed s \<noteq> [] then
           lead @ ''required check(s) failed ('' @ join '', '' (cs_failed s) @ '') '' @ em_dash @ '' '' @
           route_detail (acf_issue f) (er_check_failure_routed r) False
             (er_rework_label_error r) (er_issue_status_after r)
         else format_merge_attempt_alarm_message (acf_pr f) attempts s (acf_mergeable f)
                (acf_merge_state_status f))"

end
