(* ===== verification/Lane_State.thy ===== *)
theory Lane_State
  imports Lifecycle Merge_Gates
begin

text \<open>
  The part of \<^verbatim>\<open>state.json\<close> the merge and rework lanes write: one entry for each pull request and
  each issue, and the events recorded with them; the escalation operations of \<^verbatim>\<open>escalation.py\<close> and
  \<^verbatim>\<open>state.py\<close>, the finalisation of a merged issue (\<^verbatim>\<open>merge_finalize.py\<close>), and the views the merge
  path takes of an entry (\<^verbatim>\<open>gather.py\<close>). The keys of the two dicts are \<^verbatim>\<open>str(number)\<close>; the maps here
  take the numbers.
\<close>

section \<open>Entries\<close>

text \<open>
  The fields of the rework lanes are keyed by the lane's \<^verbatim>\<open>attempts_key\<close>, as the code composes their
  names from it.
\<close>

record pr_entry =
  pe_issue :: "int option"
  pe_status :: "string option"
  pe_merged :: bool
  pe_merged_at :: "string option"
  pe_revoked_reason :: "string option"
  pe_failed_attempts :: raw_counter
  pe_stale_base_deferrals :: raw_counter
  pe_since :: "string option"
  pe_head_sha :: "string option"
  pe_checked_at :: "string option"
  pe_requeues :: raw_counter
  pe_requeues_head :: "string option"
  pe_escalation_reason :: "string option"
  pe_reasons_seen :: "string list"
  pe_attempts :: "string \<Rightarrow> raw_counter"
  pe_last_head :: "string \<Rightarrow> string option"
  pe_escalated_head :: "string \<Rightarrow> string option"
  pe_stall_since :: "string \<Rightarrow> string option"
  pe_stall_head :: "string \<Rightarrow> string option"
  pe_startup_death :: bool
  pe_failure_kind :: "string option"
  pe_rescue_attempted :: bool
  pe_rescue_cause :: "string option"
  pe_worker_launched :: "bool option"
  pe_comment_posted :: bool
  pe_head_moved :: bool
  pe_reviewed_head :: "string option"
  pe_live_head :: "string option"

definition fresh_pr :: pr_entry where
  "fresh_pr =
     \<lparr> pe_issue = None, pe_status = None, pe_merged = False, pe_merged_at = None,
       pe_revoked_reason = None, pe_failed_attempts = Coerces 0,
       pe_stale_base_deferrals = Coerces 0, pe_since = None, pe_head_sha = None,
       pe_checked_at = None, pe_requeues = Coerces 0, pe_requeues_head = None,
       pe_escalation_reason = None, pe_reasons_seen = [], pe_attempts = (\<lambda>_. Coerces 0),
       pe_last_head = (\<lambda>_. None), pe_escalated_head = (\<lambda>_. None),
       pe_stall_since = (\<lambda>_. None), pe_stall_head = (\<lambda>_. None), pe_startup_death = False,
       pe_failure_kind = None, pe_rescue_attempted = False, pe_rescue_cause = None,
       pe_worker_launched = None, pe_comment_posted = False, pe_head_moved = False,
       pe_reviewed_head = None, pe_live_head = None \<rparr>"

text \<open>A worker as the deferral marker names it: its source, pid and session start.\<close>

type_synonym worker_identity = "string \<times> int option \<times> string option"

record issue_entry =
  ie_status :: "string option"
  ie_merge_alert :: "string option"
  ie_labels :: "string list option"
  ie_escalation_reason :: "string option"
  ie_reason_class :: "string option"
  ie_reasons_seen :: "string list"
  ie_terminal_since :: "string option"
  ie_label_error :: "string option"
  ie_dispatched_at :: "string option"
  ie_deferred_worker :: "worker_identity option"

definition fresh_issue :: issue_entry where
  "fresh_issue =
     \<lparr> ie_status = None, ie_merge_alert = None, ie_labels = None, ie_escalation_reason = None,
       ie_reason_class = None, ie_reasons_seen = [], ie_terminal_since = None,
       ie_label_error = None, ie_dispatched_at = None, ie_deferred_worker = None \<rparr>"

text \<open>An event by its kind, with the pull request and the issue of its payload.\<close>

type_synonym lane_event = "string \<times> int option \<times> int option"

record lane_state =
  ls_prs :: "int \<Rightarrow> pr_entry option"
  ls_issues :: "int \<Rightarrow> issue_entry option"
  ls_events :: "lane_event list"

text \<open>\<^verbatim>\<open>state["prs"].get(str(n), {})\<close>, and the write of an entry changed from it.\<close>

definition pr_of :: "lane_state \<Rightarrow> int \<Rightarrow> pr_entry" where
  "pr_of st n = get_or (ls_prs st) n fresh_pr"

definition issue_of :: "lane_state \<Rightarrow> int \<Rightarrow> issue_entry" where
  "issue_of st n = get_or (ls_issues st) n fresh_issue"

definition put_pr :: "int \<Rightarrow> (pr_entry \<Rightarrow> pr_entry) \<Rightarrow> lane_state \<Rightarrow> lane_state" where
  "put_pr n f st = st\<lparr>ls_prs := (ls_prs st)(n \<mapsto> f (pr_of st n))\<rparr>"

definition put_issue :: "int \<Rightarrow> (issue_entry \<Rightarrow> issue_entry) \<Rightarrow> lane_state \<Rightarrow> lane_state" where
  "put_issue n f st = st\<lparr>ls_issues := (ls_issues st)(n \<mapsto> f (issue_of st n))\<rparr>"

text \<open>The write of the linked issue, where there is one.\<close>

definition put_bound :: "int option \<Rightarrow> (issue_entry \<Rightarrow> issue_entry) \<Rightarrow> lane_state \<Rightarrow> lane_state" where
  "put_bound n f st = (case n of None \<Rightarrow> st | Some k \<Rightarrow> put_issue k f st)"

definition record_event :: "string \<Rightarrow> int option \<Rightarrow> int option \<Rightarrow> lane_state \<Rightarrow> lane_state" where
  "record_event kind pr issue st = st\<lparr>ls_events := ls_events st @ [(kind, pr, issue)]\<rparr>"

named_theorems lane_simps \<open>reading an entry after a write\<close>

lemma pr_of_put_pr [lane_simps]:
  "pr_of (put_pr n f st) m = (if m = n then f (pr_of st n) else pr_of st m)"
  by (simp add: pr_of_def put_pr_def)

lemma pr_of_put_issue [lane_simps]: "pr_of (put_issue n f st) m = pr_of st m"
  by (simp add: pr_of_def put_issue_def)

lemma issue_of_put_issue [lane_simps]:
  "issue_of (put_issue n f st) m = (if m = n then f (issue_of st n) else issue_of st m)"
  by (simp add: issue_of_def put_issue_def)

lemma issue_of_put_pr [lane_simps]: "issue_of (put_pr n f st) m = issue_of st m"
  by (simp add: issue_of_def put_pr_def)

lemma put_bound_simps [lane_simps]:
  "put_bound None f st = st" "put_bound (Some k) f st = put_issue k f st"
  by (simp_all add: put_bound_def)

lemma pr_of_put_bound [lane_simps]: "pr_of (put_bound k f st) m = pr_of st m"
  by (cases k) (simp_all add: lane_simps)

lemma record_event_simps [lane_simps]:
  "pr_of (record_event kind p i st) m = pr_of st m"
  "issue_of (record_event kind p i st) m = issue_of st m"
  "ls_events (record_event kind p i st) = ls_events st @ [(kind, p, i)]"
  by (simp_all add: record_event_def pr_of_def issue_of_def)

lemma put_events [lane_simps]:
  "ls_events (put_pr n f st) = ls_events st" "ls_events (put_issue k g st) = ls_events st"
  "ls_events (put_bound b g st) = ls_events st"
  by (cases b; simp add: put_pr_def put_issue_def put_bound_def)+

section \<open>Views of an entry\<close>

definition persisted_from :: "pr_entry \<Rightarrow> persisted_pr" where
  "persisted_from e =
     \<lparr> pp_status = pe_status e, pp_revoked_reason = pe_revoked_reason e,
       pp_failed_attempts = pe_failed_attempts e,
       pp_stale_base_deferrals = pe_stale_base_deferrals e,
       pp_since = pe_since e, pp_head_sha = pe_head_sha e, pp_checked_at = pe_checked_at e,
       pp_requeues = pe_requeues e, pp_requeues_head = pe_requeues_head e,
       pp_conflict_cap_escalated = (conflict_rework_cap_exceeded \<in> set (pe_reasons_seen e)),
       pp_conflict_escalated_head = pe_escalated_head e ''conflict_rework_attempts'',
       pp_conflict_last_head = pe_last_head e ''conflict_rework_attempts'' \<rparr>"

text \<open>\<^verbatim>\<open>verdict_fact\<close>: the decision string and the reviewed head of \<^verbatim>\<open>review-decision.json\<close>.\<close>

definition verdict_fact_of :: "string option \<Rightarrow> string option \<Rightarrow> verdict_fact" where
  "verdict_fact_of decision reviewed_head =
     \<lparr> vf_approved = (decision = Some ''approved''), vf_reviewed_head_sha = reviewed_head \<rparr>"

definition escalation_flags :: "pr_entry \<Rightarrow> issue_entry option \<Rightarrow> bool \<times> bool" where
  "escalation_flags p i =
     (pe_status p = Some ''escalated'',
      (case i of None \<Rightarrow> False | Some e \<Rightarrow> ie_status e = Some ''escalated''))"

definition escalation_from :: "lane_state \<Rightarrow> int \<Rightarrow> int option \<Rightarrow> bool \<times> bool" where
  "escalation_from st pr issue =
     escalation_flags (pr_of st pr) (map_option (issue_of st) issue)"

definition holds_from_snapshot ::
  "lane_state \<Rightarrow> merge_config \<Rightarrow> int \<Rightarrow> int option \<Rightarrow> bool \<Rightarrow> string option \<Rightarrow> hold_facts" where
  "holds_from_snapshot st cfg pr issue should_merge live_head =
     \<lparr> hf_config = cfg, hf_persisted = Some (persisted_from (pr_of st pr)),
       hf_issue_status = (case issue of None \<Rightarrow> None | Some n \<Rightarrow> ie_status (issue_of st n)),
       hf_pr_escalated = fst (escalation_from st pr issue),
       hf_issue_escalated = snd (escalation_from st pr issue),
       hf_should_merge = should_merge, hf_merge_hold = None, hf_merge_hold_unavailable = False,
       hf_human_block = None, hf_human_block_unavailable = False, hf_human_block_source = None,
       hf_live_head = live_head \<rparr>"

section \<open>Escalation\<close>

definition passive_open_status :: string where
  "passive_open_status = ''open_passive''"

definition sink_statuses :: "string list" where
  "sink_statuses = [''escalated'', ''blocked'']"

definition escalation_reason_classes :: "string list" where
  "escalation_reason_classes = [''mechanical'', ''judgment'', ''policy'']"

text \<open>\<^verbatim>\<open>escalation_reason_class\<close>: a ValueError on an unknown class.\<close>

definition escalation_reason_class :: "string \<Rightarrow> string option" where
  "escalation_reason_class rc = (if rc \<in> set escalation_reason_classes then Some rc else None)"

definition mechanical_escalation_edges :: "(string \<times> string) list" where
  "mechanical_escalation_edges =
     [(''escalated'', ''operator_queued''), (''redispatch_escalated'', ''redispatch_operator_queued'')]"

definition escalation_edge :: "string \<Rightarrow> string \<Rightarrow> string option" where
  "escalation_edge edge rc =
     (case escalation_reason_class rc of
        None \<Rightarrow> None
      | Some _ \<Rightarrow>
          Some (if rc = ''mechanical''
                then (case map_of mechanical_escalation_edges edge of None \<Rightarrow> edge | Some e \<Rightarrow> e)
                else edge))"

text \<open>The label an edge adds: a KeyError (None) for an edge the table does not have.\<close>

definition escalation_label :: "label_config \<Rightarrow> string \<Rightarrow> string option option" where
  "escalation_label lc edge =
     map_option (\<lambda>(add, _). case add of [] \<Rightarrow> None | l # _ \<Rightarrow> Some l) (map_of (edges lc) edge)"

text \<open>\<^verbatim>\<open>_repair_reason_class\<close>; \<open>cap_notified\<close> is the truth of \<^verbatim>\<open>deescalation_cap_notified_at\<close>.\<close>

definition repair_reason_class :: "issue_entry option \<Rightarrow> bool \<Rightarrow> string" where
  "repair_reason_class entry cap_notified =
     (case entry of
        None \<Rightarrow> ''judgment''
      | Some e \<Rightarrow>
          if cap_notified then ''judgment''
          else (case ie_reason_class e of
                  None \<Rightarrow> ''judgment''
                | Some rc \<Rightarrow> if rc \<in> set escalation_reason_classes then rc else ''judgment''))"

definition append_seen :: "string \<Rightarrow> string list \<Rightarrow> string list" where
  "append_seen r seen = (if r \<in> set seen then seen else seen @ [r])"

text \<open>
  \<^verbatim>\<open>_escalate_issue\<close>. \<open>now\<close> is \<^verbatim>\<open>utc_now()\<close>; \<open>issue_extra\<close> and \<open>pr_extra\<close> are the caller's own fields,
  written before the required ones. None is a ValueError.
\<close>

definition escalate_issue_entry ::
  "string \<Rightarrow> string \<Rightarrow> string \<Rightarrow> string \<Rightarrow> (issue_entry \<Rightarrow> issue_entry) \<Rightarrow> issue_entry \<Rightarrow> issue_entry" where
  "escalate_issue_entry now reason rc status extra prior =
     (let e = extra prior
      in e\<lparr> ie_status := Some status, ie_escalation_reason := Some reason,
            ie_reason_class := Some rc, ie_merge_alert := Some ''OK'',
            ie_reasons_seen := append_seen reason (ie_reasons_seen e),
            ie_terminal_since :=
              (if reason \<notin> set (ie_reasons_seen prior) then Some now
               else or_else (ie_terminal_since prior) (Some now)) \<rparr>)"

definition escalate_pr_entry ::
  "int option \<Rightarrow> string \<Rightarrow> string \<Rightarrow> (pr_entry \<Rightarrow> pr_entry) \<Rightarrow> pr_entry \<Rightarrow> pr_entry" where
  "escalate_pr_entry issue reason status extra prior =
     (let e = extra prior
      in e\<lparr> pe_issue := (case issue of None \<Rightarrow> pe_issue e | Some n \<Rightarrow> Some n),
            pe_status := Some status, pe_escalation_reason := Some reason,
            pe_reasons_seen := append_seen reason (pe_reasons_seen e) \<rparr>)"

definition escalate_issue ::
  "string \<Rightarrow> int option \<Rightarrow> string \<Rightarrow> string \<Rightarrow> string \<Rightarrow> int option \<Rightarrow>
   (issue_entry \<Rightarrow> issue_entry) \<Rightarrow> (pr_entry \<Rightarrow> pr_entry) \<Rightarrow> lane_state \<Rightarrow> lane_state option" where
  "escalate_issue now issue reason rc status pr issue_extra pr_extra st =
     (if status = ''blocked'' \<and> rc \<noteq> ''judgment'' then None
      else if issue \<noteq> None \<and> escalation_reason_class rc = None then None
      else (let st1 = put_bound issue (escalate_issue_entry now reason rc status issue_extra) st
            in Some (case pr of
                       None \<Rightarrow> st1
                     | Some p \<Rightarrow> put_pr p (escalate_pr_entry issue reason status pr_extra) st1)))"

definition clear_issue_escalation :: "issue_entry \<Rightarrow> issue_entry" where
  "clear_issue_escalation e =
     e\<lparr> ie_escalation_reason := None, ie_reason_class := None, ie_reasons_seen := [] \<rparr>"

definition clear_pr_escalation :: "pr_entry \<Rightarrow> pr_entry" where
  "clear_pr_escalation e = e\<lparr> pe_escalation_reason := None, pe_reasons_seen := [] \<rparr>"

definition clear_escalation_on_issue_prs :: "int \<Rightarrow> lane_state \<Rightarrow> lane_state" where
  "clear_escalation_on_issue_prs issue st =
     st\<lparr> ls_prs := (\<lambda>n. map_option
            (\<lambda>e. if pe_issue e = Some issue then clear_pr_escalation e else e) (ls_prs st n)) \<rparr>"

definition reset_linked_pr_status_to_passive_open :: "int \<Rightarrow> lane_state \<Rightarrow> lane_state" where
  "reset_linked_pr_status_to_passive_open pr st =
     (case ls_prs st pr of
        None \<Rightarrow> st
      | Some e \<Rightarrow>
          if pe_status e \<in> {Some ''merged'', Some ''closed''} then st
          else put_pr pr (\<lambda>e. e\<lparr>pe_status := Some passive_open_status\<rparr>) st)"

definition merged_issue_fields :: "issue_entry \<Rightarrow> issue_entry" where
  "merged_issue_fields e =
     e\<lparr> ie_status := Some ''closed'', ie_merge_alert := Some ''OK'', ie_labels := None \<rparr>"

text \<open>
  \<^verbatim>\<open>_escalated_label_needs_repair\<close>: \<open>label_error\<close> is None where the key is absent, \<open>Some None\<close> for a
  stored None, \<open>Some (Some e)\<close> for a recorded failure.
\<close>

definition escalated_label_needs_repair ::
  "lane_state \<Rightarrow> int option \<Rightarrow> int option \<Rightarrow> string option option \<Rightarrow> bool" where
  "escalated_label_needs_repair st pr issue label_error =
     (case issue of
        None \<Rightarrow> False
      | Some n \<Rightarrow>
          (let pr_status = (case pr of None \<Rightarrow> None | Some p \<Rightarrow> pe_status (pr_of st p))
           in if \<not> status_in pr_status sink_statuses \<and>
                 \<not> status_in (ie_status (issue_of st n)) sink_statuses then False
              else label_error \<noteq> Some None))"

section \<open>The escalation invariant\<close>

text \<open>
  A sink status always carries its reason, the reason is in the episode's history, the history
  holds no reason twice, and a blocked issue is a judgment.
\<close>

definition issue_escalation_ok :: "issue_entry \<Rightarrow> bool" where
  "issue_escalation_ok e \<longleftrightarrow>
     distinct (ie_reasons_seen e) \<and>
     (status_in (ie_status e) sink_statuses \<longrightarrow>
        (\<exists>r rc. ie_escalation_reason e = Some r \<and> r \<in> set (ie_reasons_seen e) \<and>
           ie_reason_class e = Some rc \<and> rc \<in> set escalation_reason_classes \<and>
           (ie_status e = Some ''blocked'' \<longrightarrow> rc = ''judgment'') \<and> ie_terminal_since e \<noteq> None))"

definition pr_escalation_ok :: "pr_entry \<Rightarrow> bool" where
  "pr_escalation_ok e \<longleftrightarrow>
     distinct (pe_reasons_seen e) \<and>
     (status_in (pe_status e) sink_statuses \<longrightarrow>
        (\<exists>r. pe_escalation_reason e = Some r \<and> r \<in> set (pe_reasons_seen e)))"

definition escalation_ok :: "lane_state \<Rightarrow> bool" where
  "escalation_ok st \<longleftrightarrow>
     (\<forall>n. issue_escalation_ok (issue_of st n)) \<and> (\<forall>n. pr_escalation_ok (pr_of st n))"

lemma set_append_seen [simp]: "set (append_seen r seen) = insert r (set seen)"
  by (auto simp: append_seen_def)

lemma distinct_append_seen [simp]: "distinct (append_seen r seen) \<longleftrightarrow> distinct seen"
  by (auto simp: append_seen_def)

lemma escalation_ok_put_pr:
  "escalation_ok st \<Longrightarrow> (pr_escalation_ok (pr_of st n) \<Longrightarrow> pr_escalation_ok (f (pr_of st n))) \<Longrightarrow>
   escalation_ok (put_pr n f st)"
  by (simp add: escalation_ok_def lane_simps)

lemma escalation_ok_put_issue:
  "escalation_ok st \<Longrightarrow> (issue_escalation_ok (issue_of st n) \<Longrightarrow> issue_escalation_ok (f (issue_of st n))) \<Longrightarrow>
   escalation_ok (put_issue n f st)"
  by (simp add: escalation_ok_def lane_simps)

lemma escalation_ok_put_bound:
  "escalation_ok st \<Longrightarrow> (\<And>n. issue_escalation_ok (issue_of st n) \<Longrightarrow> issue_escalation_ok (f (issue_of st n))) \<Longrightarrow>
   escalation_ok (put_bound k f st)"
  by (cases k) (simp_all add: put_bound_def escalation_ok_put_issue)

lemma escalation_ok_record_event [simp]:
  "escalation_ok (record_event k p i st) = escalation_ok st"
  by (simp add: escalation_ok_def lane_simps)

text \<open>\<open>distinct\<close> survives caller extras that leave the history alone.\<close>

lemma escalate_issue_ok:
  assumes "escalate_issue now issue reason rc status pr ix px st = Some st'" and "escalation_ok st"
    and "\<And>e. ie_reasons_seen (ix e) = ie_reasons_seen e"
    and "\<And>e. pe_reasons_seen (px e) = pe_reasons_seen e"
  shows "escalation_ok st'"
proof -
  from assms(1) have b: "status = ''blocked'' \<longrightarrow> rc = ''judgment''"
    and c: "issue \<noteq> None \<longrightarrow> rc \<in> set escalation_reason_classes"
    by (auto simp: escalate_issue_def escalation_reason_class_def Let_def split: if_splits)
  have i: "issue_escalation_ok (escalate_issue_entry now reason rc status ix e)"
    if "issue_escalation_ok e" "rc \<in> set escalation_reason_classes" for e
    using that b assms(3) [of e]
    by (auto simp: issue_escalation_ok_def escalate_issue_entry_def Let_def or_else_def elim: truthyE)
  have p: "pr_escalation_ok (escalate_pr_entry issue reason status px e)" if "pr_escalation_ok e" for e
    using that assms(4) [of e] by (auto simp: pr_escalation_ok_def escalate_pr_entry_def Let_def)
  have "escalation_ok (put_bound issue (escalate_issue_entry now reason rc status ix) st)"
    using assms(2) i c by (cases issue) (auto simp: put_bound_def intro: escalation_ok_put_issue)
  with assms(1) p show ?thesis
    by (auto simp: escalate_issue_def Let_def intro: escalation_ok_put_pr
        split: if_splits option.splits)
qed

lemma clear_on_prs [lane_simps]:
  "pr_of (clear_escalation_on_issue_prs n st) m =
     (if pe_issue (pr_of st m) = Some n then clear_pr_escalation (pr_of st m) else pr_of st m)"
  "issue_of (clear_escalation_on_issue_prs n st) k = issue_of st k"
  by (simp_all add: pr_of_def issue_of_def get_or_def clear_escalation_on_issue_prs_def fresh_pr_def
      split: option.split)

lemma clear_escalation_ok:
  "escalation_ok st \<Longrightarrow>
   (\<And>m. pe_issue (pr_of st m) = Some n \<Longrightarrow> \<not> status_in (pe_status (pr_of st m)) sink_statuses) \<Longrightarrow>
   escalation_ok (clear_escalation_on_issue_prs n st)"
  by (simp add: escalation_ok_def lane_simps clear_pr_escalation_def pr_escalation_ok_def)

lemma reset_passive_simps [lane_simps]:
  "pr_of (reset_linked_pr_status_to_passive_open p st) m =
     (if m = p \<and> ls_prs st p \<noteq> None \<and> pe_status (pr_of st p) \<notin> {Some ''merged'', Some ''closed''}
      then (pr_of st p)\<lparr>pe_status := Some passive_open_status\<rparr> else pr_of st m)"
  "issue_of (reset_linked_pr_status_to_passive_open p st) k = issue_of st k"
proof -
  show "pr_of (reset_linked_pr_status_to_passive_open p st) m =
     (if m = p \<and> ls_prs st p \<noteq> None \<and> pe_status (pr_of st p) \<notin> {Some ''merged'', Some ''closed''}
      then (pr_of st p)\<lparr>pe_status := Some passive_open_status\<rparr> else pr_of st m)"
  proof (cases "ls_prs st p")
    case (Some e)
    then have "pr_of st p = e"
      by (simp add: pr_of_def get_or_def)
    with Some show ?thesis
      by (simp add: reset_linked_pr_status_to_passive_open_def lane_simps)
  qed (simp add: reset_linked_pr_status_to_passive_open_def)
  show "issue_of (reset_linked_pr_status_to_passive_open p st) k = issue_of st k"
    by (simp add: reset_linked_pr_status_to_passive_open_def lane_simps split: option.split)
qed

end
