(* ===== verification/Merge_Reads.thy ===== *)
theory Merge_Reads
  imports Lane_State
begin

text \<open>
  What the merge path reads of GitHub: the pull request view and the helpers over it
  (\<^verbatim>\<open>orchestration/helpers_merge_gate.py\<close>), the label reads
  (\<^verbatim>\<open>merge_path/issue_labels.py\<close>, \<^verbatim>\<open>orchestration/github_ops_merge_hold.py\<close>, \<^verbatim>\<open>gather.py\<close>), the
  merge train (\<^verbatim>\<open>orchestration/state_merge_train.py\<close>), the approval head
  (\<^verbatim>\<open>orchestration/state_approval.py\<close>) and the queue skip (\<^verbatim>\<open>merge_path/queue_skip.py\<close>).
\<close>

section \<open>The pull request view\<close>

record pr_view =
  pv_head :: "string option"
  pv_labels :: "string list"
  pv_mergeable :: "string option"
  pv_merge_state :: "string option"
  pv_draft :: bool
  pv_updated_at :: "string option"
  pv_review_decision :: "string option"
  pv_base_ref :: "string option"
  pv_head_ref :: string

definition is_merge_conflict :: "pr_view \<Rightarrow> bool" where
  "is_merge_conflict pr \<longleftrightarrow>
     upper (or_empty (pv_mergeable pr)) = ''CONFLICTING'' \<or>
     upper (or_empty (pv_merge_state pr)) = ''DIRTY''"

text \<open>
  \<^verbatim>\<open>branch_protection\<close>: the read raised, or gave the \<^verbatim>\<open>strict\<close> flag where the payload has one that
  is a boolean.
\<close>

datatype protection_read = Protection_raised | Protection "bool option"

definition is_base_freshness_required :: "bool \<Rightarrow> protection_read \<Rightarrow> bool" where
  "is_base_freshness_required require_current_base protection =
     (case protection of
        Protection_raised \<Rightarrow> require_current_base
      | Protection None \<Rightarrow> require_current_base
      | Protection (Some strict) \<Rightarrow> strict)"

definition is_base_currency_gated :: "bool \<Rightarrow> protection_read \<Rightarrow> bool" where
  "is_base_currency_gated require_current_base protection =
     (if require_current_base then True
      else is_base_freshness_required require_current_base protection)"

text \<open>
  \<^verbatim>\<open>compare\<close>: None for a falsy answer; the two commits' SHAs, None where the commit is no dict or
  carries no SHA.
\<close>

type_synonym comparison = "(string option \<times> string option) option"

definition is_base_current ::
  "string \<Rightarrow> (string \<Rightarrow> string \<Rightarrow> comparison) \<Rightarrow> pr_view \<Rightarrow> bool option" where
  "is_base_current default_branch compare pr =
     (let base_ref = or_empty (or_else (pv_base_ref pr) (Some default_branch));
          head = or_empty (pv_head pr)
      in if base_ref = [] \<or> head = [] then None
         else (case compare base_ref head of
                 None \<Rightarrow> None
               | Some (base, merge_base) \<Rightarrow>
                   if \<not> truthy base \<or> \<not> truthy merge_base then None
                   else Some (base = merge_base)))"

text \<open>\<^verbatim>\<open>_should_update_pr_branch\<close>, with the base signal the merge path always supplies.\<close>

definition should_update_pr_branch :: "string option \<Rightarrow> pr_view \<Rightarrow> bool option \<Rightarrow> bool" where
  "should_update_pr_branch mergequeue_label pr base_current =
     (if truthy mergequeue_label \<and> or_empty mergequeue_label \<in> set (pv_labels pr) then False
      else base_current = Some False)"

text \<open>A commit: its parents' SHAs, the committer's login and the committer's name.\<close>

record commit_read =
  cm_parents :: "string list"
  cm_login :: "string option"
  cm_name :: "string option"

definition verify_synced_head ::
  "pr_view option \<Rightarrow> (string \<Rightarrow> commit_read option) \<Rightarrow> string option \<Rightarrow> string option" where
  "verify_synced_head refetched commit old_head =
     (if \<not> truthy old_head then None
      else (case refetched of
              None \<Rightarrow> None
            | Some pr \<Rightarrow>
                if \<not> truthy (pv_head pr) then None
                else if pv_head pr = old_head then pv_head pr
                else (case commit (or_empty (pv_head pr)) of
                        None \<Rightarrow> None
                      | Some c \<Rightarrow>
                          if length (cm_parents c) \<noteq> 2 then None
                          else if or_empty old_head \<notin> set (cm_parents c) then None
                          else if cm_login c \<noteq> Some ''web-flow'' \<or> cm_name c \<noteq> Some ''GitHub'' then None
                          else pv_head pr)))"

section \<open>Label reads\<close>

text \<open>
  \<^verbatim>\<open>issue_view\<close>: the call raised, the answer is no dict with labels (\<open>Issue_malformed d\<close>: \<open>d\<close> tells a
  dict without labels), or the labels.
\<close>

datatype issue_read = Issue_error | Issue_malformed bool | Issue_labels "string list"

text \<open>
  \<^verbatim>\<open>open_issue_labels\<close>: the pass's cached list of open issues, None for an unreadable one; an entry
  without labels is None.
\<close>

type_synonym cached_issues = "(int \<times> string list option) list option"

fun cached_labels :: "(int \<times> string list option) list \<Rightarrow> int \<Rightarrow> string list option" where
  "cached_labels [] n = None"
| "cached_labels ((m, ls) # is) n =
     (if m = n \<and> ls \<noteq> None then ls else cached_labels is n)"

definition open_issue_labels :: "cached_issues \<Rightarrow> int \<Rightarrow> string list option" where
  "open_issue_labels cached n = (case cached of None \<Rightarrow> None | Some is \<Rightarrow> cached_labels is n)"

definition human_merge_hold_check :: "string list \<Rightarrow> int option \<Rightarrow> issue_read \<Rightarrow> bool \<times> bool" where
  "human_merge_hold_check human_merge_labels issue read =
     (if human_merge_labels = [] \<or> issue = None then (False, False)
      else (case read of
              Issue_labels ls \<Rightarrow> (set human_merge_labels \<inter> set ls \<noteq> {}, False)
            | _ \<Rightarrow> (False, True)))"

text \<open>\<^verbatim>\<open>gather_merge_hold\<close>: the hold and whether it could not be read.\<close>

definition gather_merge_hold ::
  "string \<Rightarrow> cached_issues \<Rightarrow> issue_read \<Rightarrow> pr_view \<Rightarrow> int option \<Rightarrow> bool \<times> bool" where
  "gather_merge_hold merge_hold_label cached read pr issue =
     (let on_pr = merge_hold_label \<in> set (pv_labels pr)
      in case issue of
           None \<Rightarrow> (on_pr, False)
         | Some n \<Rightarrow>
             if on_pr then (True, False)
             else (case open_issue_labels cached n of
                     Some ls \<Rightarrow> (merge_hold_label \<in> set ls, False)
                   | None \<Rightarrow>
                       (case read of
                          Issue_labels ls \<Rightarrow> (merge_hold_label \<in> set ls, False)
                        | _ \<Rightarrow> (False, True))))"

text \<open>
  \<^verbatim>\<open>gather_human_block\<close>: \<open>patterns\<close> is None for one that does not compile, \<open>comments\<close> None for a
  list that could not be read.
\<close>

definition gather_human_block ::
  "((string \<Rightarrow> bool) \<times> (string \<Rightarrow> bool)) option \<Rightarrow> review_comment list option \<Rightarrow> pr_view \<Rightarrow>
   human_block_read" where
  "gather_human_block patterns comments pr =
     (if pv_review_decision pr = Some ''CHANGES_REQUESTED''
      then \<lparr> hb_blocked = True, hb_unavailable = False, hb_source = Some ''review_decision'' \<rparr>
      else (case (patterns, comments) of
              (Some (rc, ap), Some cs) \<Rightarrow> classify_human_block (pv_review_decision pr) cs rc ap
            | _ \<Rightarrow> \<lparr> hb_blocked = False, hb_unavailable = True, hb_source = None \<rparr>))"

section \<open>The merge train\<close>

text \<open>A listed pull request with the facts the train reads of it.\<close>

record train_pr =
  tp_number :: int
  tp_cross_repository :: bool
  tp_head_ref :: string
  tp_head :: "string option"
  tp_updated_at :: "string option"
  tp_decision :: "string option"
  tp_reviewed_head :: "string option"
  tp_reviewed_at :: "string option"
  tp_human_merge :: bool

text \<open>\<open>tp_human_merge\<close> is \<^verbatim>\<open>_pr_bound_issue_has_human_merge_label\<close>, a read that fails open.\<close>

definition train_candidate ::
  "merge_config \<Rightarrow> string \<Rightarrow> int option \<Rightarrow> (int \<Rightarrow> string option) \<Rightarrow> train_pr \<Rightarrow> bool" where
  "train_candidate cfg branch_prefix exclude status pr \<longleftrightarrow>
     exclude \<noteq> Some (tp_number pr) \<and> \<not> tp_cross_repository pr \<and>
     strip_prefix branch_prefix (tp_head_ref pr) \<noteq> None \<and>
     \<not> (truthy (cfg_mergequeue_label cfg) \<and> status (tp_number pr) = Some ''mergequeue'') \<and>
     tp_decision pr = Some ''approved'' \<and>
     tp_reviewed_head pr \<noteq> None \<and> tp_head pr = tp_reviewed_head pr \<and>
     \<not> (cfg_human_merge_labels cfg \<noteq> [] \<and> tp_human_merge pr)"

text \<open>The sort key, \<^verbatim>\<open>(reviewed_at or updatedAt or "", number)\<close>; keys compare in order.\<close>

definition train_key :: "train_pr \<Rightarrow> string \<times> int" where
  "train_key pr =
     (or_empty (or_else (tp_reviewed_at pr) (tp_updated_at pr)), tp_number pr)"

definition key_less_eq :: "string \<times> int \<Rightarrow> string \<times> int \<Rightarrow> bool" where
  "key_less_eq a b \<longleftrightarrow> fst a < fst b \<or> (fst a = fst b \<and> snd a \<le> snd b)"

fun earliest :: "train_pr \<Rightarrow> train_pr list \<Rightarrow> train_pr" where
  "earliest p [] = p"
| "earliest p (q # qs) = earliest (if key_less_eq (train_key p) (train_key q) then p else q) qs"

definition merge_train_head ::
  "merge_config \<Rightarrow> string \<Rightarrow> (int \<Rightarrow> string option) \<Rightarrow> train_pr list \<Rightarrow> int option" where
  "merge_train_head cfg branch_prefix status prs =
     (case filter (train_candidate cfg branch_prefix None status) prs of
        [] \<Rightarrow> None
      | p # ps \<Rightarrow> Some (tp_number (earliest p ps)))"

section \<open>The approval head\<close>

text \<open>A \<^verbatim>\<open>review-decision.json\<close>: the decision and the reviewed head.\<close>

type_synonym verdict_file = "string option \<times> string option"

text \<open>\<^verbatim>\<open>carry_forward_tier\<close>.\<close>

datatype carry_tier = Patch_id | Line_content | Verified_sync

fun carry_event :: "carry_tier \<Rightarrow> string" where
  "carry_event Patch_id = ''verdict_carried_forward_clean_rebase''"
| "carry_event Line_content = ''verdict_carried_forward_line_content''"
| "carry_event Verified_sync = ''verdict_carried_forward_verified_sync''"

text \<open>
  \<^verbatim>\<open>_update_approval_head\<close>: \<open>disk\<close> is the verdict it re-reads under the lock, and the file it leaves
  is the result's second part.
\<close>

definition update_approval_head ::
  "int \<Rightarrow> int option \<Rightarrow> verdict_file \<Rightarrow> verdict_file \<Rightarrow> string option \<Rightarrow> string option \<Rightarrow>
   carry_tier \<Rightarrow> lane_state \<Rightarrow> bool \<times> verdict_file \<times> lane_state" where
  "update_approval_head pr issue decision disk new_head old_head tier st =
     (if fst disk \<noteq> fst decision \<or> (old_head \<noteq> None \<and> snd disk \<noteq> old_head)
      then (False, disk,
            record_event ''verdict_carry_forward_skipped_stale'' (Some pr) issue st)
      else (True, (fst disk, new_head),
            record_event (carry_event tier) (Some pr) issue
              (put_pr pr (\<lambda>e. e\<lparr> pe_status := Some (if truthy (pe_status e) then or_empty (pe_status e)
                                  else if truthy (fst disk) then or_empty (fst disk) else ''approved''),
                                 pe_reviewed_head := new_head \<rparr>) st)))"

section \<open>The queue skip\<close>

record queue_skip_facts =
  qs_label :: "string option"
  qs_hold_labels :: "string list"
  qs_priority_prefix :: string
  qs_pr_labels :: "string list"
  qs_head :: "string option"
  qs_persisted :: persisted_pr
  qs_issue_bound :: bool
  qs_issue_labels :: "string list option"
  qs_now :: int

definition recheck_interval :: int where
  "recheck_interval = minutes 30"

definition queue_skip_decide :: "iso_parser \<Rightarrow> queue_skip_facts \<Rightarrow> bool" where
  "queue_skip_decide fromiso f =
     (let p = qs_persisted f
      in if \<not> truthy (qs_label f) \<or> or_empty (qs_label f) \<notin> set (qs_pr_labels f) then False
         else if pp_status p \<noteq> Some ''mergequeue'' \<or> truthy (pp_revoked_reason p) then False
         else if \<not> truthy (qs_head f) \<or> pp_head_sha p \<noteq> qs_head f then False
         else if set (qs_pr_labels f) \<inter> set (qs_hold_labels f) \<noteq> {} then False
         else if qs_issue_bound f \<and>
                 (case qs_issue_labels f of
                    None \<Rightarrow> True
                  | Some ls \<Rightarrow>
                      set ls \<inter> set (qs_hold_labels f) \<noteq> {} \<or>
                      (qs_priority_prefix f \<noteq> [] \<and> is_critical ls (qs_priority_prefix f))) then False
         else (case parse_stamp fromiso (pp_checked_at p) of
                 None \<Rightarrow> False
               | Some checked \<Rightarrow>
                   0 \<le> qs_now f - as_utc checked \<and> qs_now f - as_utc checked < recheck_interval))"

definition hold_labels_of :: "string \<Rightarrow> string list \<Rightarrow> string list" where
  "hold_labels_of merge_hold human_merge_labels = merge_hold # human_merge_labels"

end
