(* ===== verification/Merge_Decide.thy ===== *)
theory Merge_Decide
  imports Merge_Gates
begin

text \<open>
  The five decision stages of the merge path (\<^verbatim>\<open>merge_path/decide.py\<close>): admission, branch gate,
  readiness, merge plan and accounting, each a function of its facts that may raise.
\<close>

section \<open>Stage 1: admission\<close>

definition self_revoke_reasons :: "string list" where
  "self_revoke_reasons = [''stale_head_pending_carry_forward'', mergequeue_wedged_revoke]"

definition sync_strategies :: "string list" where
  "sync_strategies = [''front_of_train'', ''broadcast'']"

definition is_head_moved :: "verdict_fact \<Rightarrow> string option \<Rightarrow> bool" where
  "is_head_moved v live_head \<longleftrightarrow>
     vf_reviewed_head_sha v = None \<or> live_head \<noteq> vf_reviewed_head_sha v"

definition needs_carry_forward :: "verdict_fact \<Rightarrow> string option \<Rightarrow> bool" where
  "needs_carry_forward v live_head \<longleftrightarrow>
     vf_approved v \<and> is_head_moved v live_head \<and> truthy live_head"

definition admission_base :: "admission_facts \<Rightarrow> admission" where
  "admission_base f =
     (let label = cfg_mergequeue_label (af_config f);
          prior = (case af_persisted f of None \<Rightarrow> None | Some p \<Rightarrow> pp_status p);
          reverted = (truthy label \<and> prior = Some ''mergequeue'' \<and> or_empty label \<notin> af_live_labels f);
          reason = (case af_persisted f of None \<Rightarrow> None | Some p \<Rightarrow> pp_revoked_reason p)
      in (admission_of Proceed)\<lparr>
           adm_approved := vf_approved (af_verdict f),
           adm_reverted := reverted,
           adm_self_revoked := (reverted \<and> status_in reason self_revoke_reasons),
           adm_revoked_reason := reason \<rparr>)"

definition re_review :: "admission_facts \<Rightarrow> admission \<Rightarrow> admission" where
  "re_review f base =
     (let escalated = (af_pr_escalated f \<or> af_issue_escalated f);
          dispatch = cfg_review_dispatch_enabled (af_config f)
      in base\<lparr> adm_kind := Stop Request_rework,
               adm_escalated := escalated,
               adm_stamp_reviewing := (\<not> escalated \<and> dispatch),
               adm_review_started := (\<not> escalated \<and> af_issue f \<noteq> None \<and> dispatch),
               adm_record_head_moved := (\<not> escalated) \<rparr>)"

definition decide_admission :: "admission_facts \<Rightarrow> bool \<Rightarrow> bool \<Rightarrow> decide_error + admission" where
  "decide_admission f observed_carry_forward preview_unknown_live_head_proceeds =
     (if (case af_persisted f of None \<Rightarrow> False | Some p \<Rightarrow> pp_status p = Some ''merged'')
      then Inr (admission_of (Stop Skip))
      else if \<not> af_pr_found f then Inr (admission_of (Stop Not_found))
      else (let base = admission_base f
            in if \<not> vf_approved (af_verdict f) then Inr base
               else (let moved = is_head_moved (af_verdict f) (af_live_head f);
                         base1 = base\<lparr>adm_head_moved := moved\<rparr>
                     in if \<not> moved \<or> observed_carry_forward then Inr base1
                        else if truthy (af_live_head f) then
                          (case af_carry_forward f of
                             None \<Rightarrow> Inl (Fact_not_gathered ''carry_forward'')
                           | Some True \<Rightarrow> Inr (base1\<lparr>adm_carry_forward_needed := True\<rparr>)
                           | Some False \<Rightarrow> Inr (re_review f base1))
                        else if preview_unknown_live_head_proceeds then Inr base1
                        else Inr (re_review f base1))))"

section \<open>Stage 2: branch gate\<close>

definition not_train_head :: "admission \<Rightarrow> bool \<Rightarrow> branch_gate" where
  "not_train_head adm merge_conflict =
     (branch_gate_of (Stop Wait) adm)\<lparr> bg_stop := Some Not_train_head,
                                       bg_merge_conflict := merge_conflict \<rparr>"

text \<open>The result of the precheck: the stopping gate, the conflict flag and the sync flag.\<close>

definition branch_precheck :: "branch_facts \<Rightarrow> branch_gate option \<times> bool \<times> bool" where
  "branch_precheck f =
     (let adm = bf_admission f; conflict = bf_merge_conflict f
      in if bf_conflict_cap_stop f then
           (Some ((branch_gate_of (Stop Hold) adm)\<lparr> bg_stop := Some Conflict_cap_exceeded,
                                                    bg_merge_conflict := conflict \<rparr>),
            conflict, False)
         else if conflict \<and> status_in (bf_issue_status f) conflict_rework_in_flight_statuses then
           (Some ((branch_gate_of (Stop Wait) adm)\<lparr> bg_stop := Some Conflict_in_flight,
                                                    bg_merge_conflict := True \<rparr>),
            True, False)
         else if conflict \<and> bf_issue_status f = Some ''blocked'' then
           (Some ((branch_gate_of (Stop Hold) adm)\<lparr> bg_stop := Some Conflict_blocked,
                                                    bg_merge_conflict := True \<rparr>),
            True, False)
         else if cfg_update_branch_strategy (bf_config f) = ''front_of_train'' then
           (case bf_train_head_param f of
              Some hp \<Rightarrow> (if hp \<noteq> bf_pr f then Some (not_train_head adm conflict) else None,
                          conflict, conflict)
            | None \<Rightarrow>
                (case bf_train_head f of
                   Train_unavailable \<Rightarrow> (None, conflict, True)
                 | Train None \<Rightarrow> (None, conflict, conflict)
                 | Train (Some h) \<Rightarrow>
                     (if h \<noteq> bf_pr f then Some (not_train_head adm conflict) else None,
                      conflict, conflict)))
         else (None, conflict, conflict))"

definition stale_base_gate :: "branch_facts \<Rightarrow> bool \<Rightarrow> bool \<Rightarrow> branch_gate" where
  "stale_base_gate f merge_conflict queued =
     (branch_gate_of (Stop Wait) (bf_admission f))\<lparr>
        bg_stop := Some Stale_base, bg_merge_conflict := merge_conflict,
        bg_already_queued := queued,
        bg_stale_base_reason :=
          Some (if bf_base_current f = None then ''compare_unavailable'' else ''base_stale'') \<rparr>"

text \<open>The part after the base-currency guard is read; \<open>gated\<close> is its value.\<close>

definition decide_branch_gated ::
  "branch_facts \<Rightarrow> sync_outcome option \<Rightarrow> bool \<Rightarrow> bool \<Rightarrow> bool \<Rightarrow> decide_error + branch_gate" where
  "decide_branch_gated f sync merge_conflict sync_failed0 gated =
     (let adm = bf_admission f;
          queued = is_already_in_mergequeue (bf_persisted f) adm;
          sync_failed = (sync_failed0 \<or> sync = Some Sync_failed);
          rest = (if \<not> sync_failed \<and> gated \<and> \<not> bf_base_current_read f
                  then Inl (Fact_not_gathered ''base_current'')
                  else if \<not> sync_failed \<and> gated \<and> bf_base_current f \<noteq> Some True
                  then Inr (stale_base_gate f merge_conflict queued)
                  else Inr ((branch_gate_of Proceed adm)\<lparr> bg_merge_conflict := merge_conflict,
                              bg_sync_failed := sync_failed, bg_already_queued := queued \<rparr>))
      in if sync = None \<and> \<not> sync_failed \<and> gated \<and>
            cfg_update_branch_strategy (bf_config f) \<in> set sync_strategies \<and> \<not> queued
         then (case bf_should_update_branch f of
                 None \<Rightarrow> Inl (Fact_not_gathered ''should_update_branch'')
               | Some True \<Rightarrow>
                   Inr ((branch_gate_of Proceed adm)\<lparr> bg_merge_conflict := merge_conflict,
                          bg_request_sync := True \<rparr>)
               | Some False \<Rightarrow> rest)
         else rest)"

definition decide_branch :: "branch_facts \<Rightarrow> sync_outcome option \<Rightarrow> decide_error + branch_gate" where
  "decide_branch f sync =
     (let adm = bf_admission f
      in if \<not> adm_approved adm then Inr (branch_gate_of Proceed adm)
         else (case branch_precheck f of
                 (Some stop, _, _) \<Rightarrow> Inr stop
               | (None, merge_conflict, sync_failed) \<Rightarrow>
                   if \<not> sync_failed \<and> cfg_update_branch_strategy (bf_config f) \<noteq> ''off''
                   then (case bf_base_currency_gated f of
                           None \<Rightarrow> Inl (Fact_not_gathered ''base_currency_gated'')
                         | Some gated \<Rightarrow> decide_branch_gated f sync merge_conflict sync_failed gated)
                   else decide_branch_gated f sync merge_conflict sync_failed False))"

section \<open>Stage 3: readiness\<close>

definition infra_eligible_of :: "readiness_facts \<Rightarrow> bool \<Rightarrow> bool" where
  "infra_eligible_of f sync_failed =
     (let approved = adm_approved (bg_admission (rf_branch f)); s = rf_checks f
      in \<not> ((\<not> approved \<and> cfg_require_approved_review (rf_config f)) \<or> sync_failed \<or>
            rf_issue f = None \<or> rf_is_draft f \<or> cs_infra_failed s = [] \<or> cs_failed s \<noteq> [] \<or>
            cs_missing s \<noteq> [] \<or> cs_unavailable s \<noteq> [] \<or> cs_infra_blocked s \<noteq> [] \<or>
            rf_pr_escalated f \<or> rf_issue_escalated f))"

definition stall_of :: "iso_parser \<Rightarrow> readiness_facts \<Rightarrow> bool \<Rightarrow> bool" where
  "stall_of fromiso f sync_failed =
     (let s = rf_checks f; cfg = rf_config f
      in \<not> rf_checks_unavailable f \<and> adm_approved (bg_admission (rf_branch f)) \<and> \<not> sync_failed \<and>
         \<not> ready s \<and> \<not> is_pending_only s \<and> rf_issue f \<noteq> None \<and>
         readiness_no_ci_stall fromiso (rf_check_names_seen f) (rf_pr_updated_at f) (rf_now f)
           (cfg_required_checks cfg) (cfg_readiness_no_ci_minutes cfg) \<and>
         \<not> status_in (rf_issue_status f) check_route_excluded_statuses)"

definition decide_readiness :: "iso_parser \<Rightarrow> readiness_facts \<Rightarrow> readiness" where
  "decide_readiness fromiso f =
     (let branch = rf_branch f; approved = adm_approved (bg_admission branch); cfg = rf_config f;
          s = rf_checks f;
          verdict = decide_revert approved (bg_sync_failed branch) (rf_revert f) (rf_issue f)
                      (rf_issue_status f);
          sync_failed = rv_sync_failed verdict;
          stall = stall_of fromiso f sync_failed;
          infra = infra_eligible_of f sync_failed
      in \<lparr> rd_kind = (if stall then Stop Request_rework
                      else if infra then Stop Rerun_or_escalate else Proceed),
           rd_gate = \<lparr> gi_summary_ready = ready s, gi_approved = approved,
                       gi_require_approved_review = cfg_require_approved_review cfg,
                       gi_sync_failed = sync_failed \<rparr>,
           rd_branch = branch, rd_issue = rf_issue f, rd_summary = s,
           rd_checks_unavailable = rf_checks_unavailable f,
           rd_pending_only = is_pending_only s,
           rd_revert_detected = rv_detected verdict,
           rd_revert_undetermined = rv_undetermined verdict,
           rd_revert_reason = rf_revert_reason f,
           rd_route_revert = rv_route verdict,
           rd_stall = stall, rd_infra_eligible = infra,
           rd_deescalate = deescalates cfg (rf_issue f) (rf_human_merge_hold f)
                             (rf_human_merge_unavailable f) (rf_issue_status f)
                             (rf_issue_reason_class f),
           rd_human_merge_hold = rf_human_merge_hold f,
           rd_human_merge_unavailable = rf_human_merge_unavailable f,
           rd_containment_warnings = rf_containment_warnings f \<rparr>)"

section \<open>Stage 4: merge plan\<close>

definition plan_holds :: "readiness \<Rightarrow> bool \<Rightarrow> bool \<Rightarrow> bool \<Rightarrow> bool \<Rightarrow> human_block_gate \<Rightarrow> hold set" where
  "plan_holds rd escalated merge_hold merge_hold_unavailable capped hb =
     (if escalated then {H_escalated} else {}) \<union>
     (if rd_human_merge_hold rd then {H_human_merge} else {}) \<union>
     (if rd_human_merge_unavailable rd then {H_human_merge_unavailable} else {}) \<union>
     (if merge_hold then {H_merge_hold} else {}) \<union>
     (if merge_hold_unavailable then {H_merge_hold_unavailable} else {}) \<union>
     (if rd_revert_undetermined rd then {H_revert_undetermined} else {}) \<union>
     (if rd_checks_unavailable rd then {H_checks_unavailable} else {}) \<union>
     (if capped then {H_requeue_capped} else {}) \<union>
     gate_holds hb"

text \<open>\<open>debounced\<close>: the persisted counter is read only while the PR cannot merge.\<close>

definition debounced :: "hold_facts \<Rightarrow> bool \<Rightarrow> decide_error + bool" where
  "debounced h cm =
     (let threshold = cfg_failed_attempt_alarm (hf_config h)
      in if 0 < threshold \<and> \<not> cm then
           (case hf_persisted h of
              None \<Rightarrow> Inr (threshold \<le> 1)
            | Some p \<Rightarrow>
                (case pp_failed_attempts p of
                   Malformed \<Rightarrow> Inl Counter_error
                 | Coerces n \<Rightarrow> Inr (threshold \<le> n + 1)))
         else Inr False)"

definition conflict_route :: "readiness \<Rightarrow> hold_facts \<Rightarrow> bool \<Rightarrow> bool" where
  "conflict_route rd h deb \<longleftrightarrow>
     bg_merge_conflict (rd_branch rd) \<and> gi_approved (rd_gate rd) \<and> \<not> can_merge (rd_gate rd) \<and>
     \<not> rd_pending_only rd \<and> rd_issue rd \<noteq> None \<and>
     \<not> status_in (hf_issue_status h) conflict_route_excluded_statuses \<and> deb"

definition check_failure_route :: "readiness \<Rightarrow> hold_facts \<Rightarrow> bool \<Rightarrow> bool" where
  "check_failure_route rd h deb \<longleftrightarrow>
     \<not> bg_merge_conflict (rd_branch rd) \<and> \<not> rd_revert_detected rd \<and> gi_approved (rd_gate rd) \<and>
     \<not> can_merge (rd_gate rd) \<and> cs_failed (rd_summary rd) \<noteq> [] \<and> rd_issue rd \<noteq> None \<and>
     \<not> status_in (hf_issue_status h) check_route_excluded_statuses \<and> deb"

text \<open>The order of the kinds: the stage's own, then the actions, the rework routes, the holds.\<close>

definition plan_kind_of ::
  "stage \<Rightarrow> bool \<Rightarrow> bool \<Rightarrow> bool \<Rightarrow> bool \<Rightarrow> hold set \<Rightarrow> plan_kind" where
  "plan_kind_of st action_merge action_hand_off action_human_merge rework holds =
     (case st of
        Stop k \<Rightarrow> k
      | Proceed \<Rightarrow>
          if action_merge then Merge
          else if action_hand_off then Hand_off
          else if action_human_merge then Escalate
          else if rework then Request_rework
          else if holds \<noteq> {} then Hold
          else Nothing)"

text \<open>The plan, from what the gates gave: \<open>hb\<close> the human block, \<open>re_add\<close> whether a re-add is pending,
  \<open>rg\<close> the requeue gate, \<open>deb\<close> whether the failed attempts reached the threshold.\<close>

definition merge_plan_of ::
  "readiness \<Rightarrow> hold_facts \<Rightarrow> human_block_gate \<Rightarrow> bool \<Rightarrow> requeue_gate_result \<Rightarrow> bool \<Rightarrow> merge_plan" where
  "merge_plan_of rd h hb re_add rg deb =
     (let cfg = hf_config h; cm = can_merge (rd_gate rd);
          escalated = fst (merge_entry rd h); enter = snd (merge_entry rd h);
          read_hold = merge_hold_read_needed rd h True;
          merge_hold = (read_hold \<and> hf_merge_hold h = Some True);
          hold_unavailable = (read_hold \<and> hf_merge_hold_unavailable h);
          action_hand_off = (re_add \<and> \<not> rg_capped rg);
          action_merge = (enter \<and> \<not> truthy (cfg_mergequeue_label cfg) \<and> \<not> held hb);
          action_human_merge =
            (rd_human_merge_hold rd \<and> cm \<and> hf_should_merge h \<and> \<not> escalated);
          conflict_rework = conflict_route rd h deb;
          check_rework = check_failure_route rd h deb;
          holds = plan_holds rd escalated merge_hold hold_unavailable (rg_capped rg) hb
      in \<lparr> mp_kind = plan_kind_of (rd_kind rd) action_merge action_hand_off action_human_merge
                      (conflict_rework \<or> check_rework \<or> rg_rework rg) holds,
           mp_readiness = rd, mp_escalated_hold = escalated,
           mp_should_merge = hf_should_merge h,
           mp_action_merge = action_merge, mp_action_hand_off = action_hand_off,
           mp_action_human_merge = action_human_merge,
           mp_read_merge_hold = read_hold, mp_merge_hold = merge_hold,
           mp_merge_hold_unavailable = hold_unavailable,
           mp_read_human_block = hg_read_needed hb, mp_human_block = hg_blocked hb,
           mp_human_block_unavailable = hg_unavailable hb,
           mp_human_block_source = hg_source hb,
           mp_reset_on_hand_off = (\<not> adm_reverted (bg_admission (rd_branch rd))),
           mp_holds = holds, mp_conflict_rework = conflict_rework,
           mp_check_failure_rework = check_rework,
           mp_requeues = rg_requeues rg, mp_requeue_capped = rg_capped rg,
           mp_requeue_rework = rg_rework rg \<rparr>)"

definition exclusive_routes :: "merge_plan \<Rightarrow> decide_error + merge_plan" where
  "exclusive_routes plan =
     (if (mp_conflict_rework plan \<or> mp_check_failure_rework plan) \<and>
         (mp_action_merge plan \<or> mp_action_hand_off plan \<or> mp_action_human_merge plan)
      then Inl (Assertion_failed ''rework routes and merge/hand-off actions are exclusive'')
      else Inr plan)"

definition decide_merge :: "readiness \<Rightarrow> hold_facts \<Rightarrow> decide_error + merge_plan" where
  "decide_merge rd h =
     bindE (raise_if (merge_hold_read_needed rd h True \<and> hf_merge_hold h = None \<and>
                      \<not> hf_merge_hold_unavailable h) (Fact_not_gathered ''merge_hold'')) (\<lambda>_.
     bindE (human_block_gate (snd (merge_entry rd h)) h) (\<lambda>hb.
     bindE (mergequeue_re_add_pending rd h) (\<lambda>re_add.
     bindE (requeue_gate rd h re_add) (\<lambda>rg.
     bindE (debounced h (can_merge (rd_gate rd))) (\<lambda>deb.
       exclusive_routes (merge_plan_of rd h hb re_add rg deb))))))"

section \<open>Stage 5: accounting\<close>

definition handoff_failed_of :: "merge_plan \<Rightarrow> effect_results \<Rightarrow> merge_config \<Rightarrow> bool" where
  "handoff_failed_of plan r cfg =
     (let adm = bg_admission (rd_branch (mp_readiness plan))
      in (truthy (cfg_mergequeue_label cfg) \<and> er_label_applied r = Some False) \<or>
         (adm_reverted adm \<and> can_merge (rd_gate (mp_readiness plan)) \<and> \<not> adm_self_revoked adm))"

text \<open>The failed-attempt counter of the pass, and whether it counted a failure.\<close>

definition count_attempts ::
  "bool \<Rightarrow> bool \<Rightarrow> int \<Rightarrow> raw_counter \<Rightarrow> bool \<Rightarrow> decide_error + int \<times> bool" where
  "count_attempts deadline_spent counts threshold locked cm =
     (if \<not> deadline_spent \<and> counts then
        (case locked of
           Malformed \<Rightarrow> Inl Counter_error
         | Coerces n \<Rightarrow>
             (let a = n + 1; b = (if 0 < threshold then min a (threshold + 1) else a)
              in Inr (b, 0 < threshold \<and> b = threshold)))
      else if \<not> (cm \<and> \<not> deadline_spent) then
        (case locked of Malformed \<Rightarrow> Inl Counter_error | Coerces n \<Rightarrow> Inr (n, False))
      else Inr (0, False))"

definition stamp_of :: "accounting_facts \<Rightarrow> bool \<Rightarrow> string option \<times> string option" where
  "stamp_of f merged =
     (let locked = acf_locked f; live = acf_live_head f;
          status = (if merged then Some ''merged'' else pp_status locked)
      in if status = Some ''mergequeue'' \<and> truthy live then
           (if mergequeue_stamp_needs_now locked merged live
            then (Some (acf_now_iso f), live)
            else (pp_since locked, pp_head_sha locked))
         else (None, None))"

definition merge_ready_event :: "merge_plan \<Rightarrow> effect_results \<Rightarrow> accounting_facts \<Rightarrow> event_spec" where
  "merge_ready_event plan r f =
     (let rd = mp_readiness plan
      in Merge_ready_event
           \<lparr> rp_pr = acf_pr f, rp_can_merge = can_merge (rd_gate rd),
             rp_merged = truthy (er_merge_output r),
             rp_merge_hold = mp_merge_hold plan,
             rp_merge_hold_unavailable = mp_merge_hold_unavailable plan,
             rp_human_block = mp_human_block plan,
             rp_human_block_unavailable = mp_human_block_unavailable plan,
             rp_human_block_source = mp_human_block_source plan,
             rp_human_merge_hold = rd_human_merge_hold rd,
             rp_human_merge_unavailable = rd_human_merge_unavailable rd,
             rp_cancel_results = er_cancel_results r,
             rp_label_applied = er_label_applied r, rp_gate = rd_gate rd \<rparr>)"

definition alarm_event :: "merge_plan \<Rightarrow> accounting_facts \<Rightarrow> int \<Rightarrow> string \<Rightarrow> event_spec" where
  "alarm_event plan f attempts warning =
     Merge_failed_attempt_alarm
       \<lparr> al_pr = acf_pr f, al_issue = acf_issue f, al_attempts = attempts,
         al_threshold = cfg_failed_attempt_alarm (acf_config f),
         al_summary = rd_summary (mp_readiness plan), al_mergeable = acf_mergeable f,
         al_merge_state_status = acf_merge_state_status f, al_message = warning \<rparr>"

definition decide_accounting ::
  "merge_plan \<Rightarrow> effect_results \<Rightarrow> accounting_facts \<Rightarrow> decide_error + accounting" where
  "decide_accounting plan r f =
     (let rd = mp_readiness plan; adm = bg_admission (rd_branch rd); cfg = acf_config f;
          cm = can_merge (rd_gate rd); approved = gi_approved (rd_gate rd);
          merged = truthy (er_merge_output r);
          handoff_failed = handoff_failed_of plan r cfg;
          counts = ((approved \<and> \<not> cm \<and> \<not> rd_pending_only rd) \<or> handoff_failed)
      in bindE (count_attempts (acf_deadline_spent f) counts (cfg_failed_attempt_alarm cfg)
                  (pp_failed_attempts (acf_locked f)) cm) (\<lambda>(attempts, alarm).
         let warning = (if alarm then Some (alarm_warning rd r f attempts handoff_failed) else None);
             re_add_wanted = (mp_action_hand_off plan \<or> er_label_applied r \<noteq> None \<or>
                              mp_requeue_capped plan);
             delta = requeue_accounting adm cm f re_add_wanted
         in Inr
           \<lparr> acc_handoff_failed = handoff_failed, acc_failed_attempts = attempts,
             acc_stale_base_deferrals = 0, acc_alarm = alarm, acc_warning = warning,
             acc_merge_alert_ok =
               (approved \<and> cm \<and> er_merge_output r = None \<and> \<not> handoff_failed \<and>
                \<not> mp_merge_hold_unavailable plan \<and> \<not> mp_human_block_unavailable plan \<and>
                \<not> rd_human_merge_hold rd \<and> \<not> rd_human_merge_unavailable rd),
             acc_merged = merged,
             acc_pr_status = (if merged then Some ''merged'' else None),
             acc_since = fst (stamp_of f merged), acc_head_sha = snd (stamp_of f merged),
             acc_requeues = dl_requeues delta, acc_requeues_head = dl_head_sha delta,
             acc_events =
               (case warning of None \<Rightarrow> [] | Some w \<Rightarrow> [alarm_event plan f attempts w]) @
               (case dl_capped_payload delta of
                  None \<Rightarrow> [] | Some p \<Rightarrow> [Mergequeue_requeue_capped p]) @
               [merge_ready_event plan r f] @
               (if merged
                then [Merge_succeeded
                        \<lparr> sp_pr = acf_pr f, sp_issue = acf_issue f, sp_actor = ''fleet'',
                          sp_merge_method = cfg_merge_strategy cfg,
                          sp_merged_at = er_merged_at r \<rparr>]
                else []) \<rparr>))"

end
