(* ===== verification/Merge_Lemmas.thy ===== *)
theory Merge_Lemmas
  imports Merge_Decide
begin

text \<open>
  What the decision stages guarantee: elimination rules for each stage, and the facts about holds,
  routes and counters the properties of the merge path rest on.
\<close>

section \<open>Admission and branch gate\<close>

lemma adm_base_simps [simp]:
  "adm_approved (admission_base f) = vf_approved (af_verdict f)"
  "adm_kind (admission_base f) = Proceed"
  "adm_head_moved (admission_base f) = False"
  "adm_carry_forward_needed (admission_base f) = False"
  by (simp_all add: admission_base_def admission_of_def Let_def)

lemma re_review_simps [simp]:
  "adm_kind (re_review f b) = Stop Request_rework"
  "adm_approved (re_review f b) = adm_approved b"
  "adm_head_moved (re_review f b) = adm_head_moved b"
  by (simp_all add: re_review_def Let_def)

lemma admission_of_simps [simp]:
  "adm_kind (admission_of k) = k" "\<not> adm_approved (admission_of k)"
  by (simp_all add: admission_of_def)

text \<open>An admission that proceeds with an approval has the approved head, or carries it forward.\<close>

lemma admission_approved:
  assumes "decide_admission f obs prev = Inr adm" and "adm_kind adm = Proceed" and "adm_approved adm"
  shows "vf_approved (af_verdict f) \<and>
    (\<not> is_head_moved (af_verdict f) (af_live_head f) \<or> obs \<or>
     (truthy (af_live_head f) \<and> af_carry_forward f = Some True \<and> adm_carry_forward_needed adm) \<or>
     (\<not> truthy (af_live_head f) \<and> prev))"
  using assms
  by (auto simp: decide_admission_def Let_def split: if_splits option.splits bool.splits)

text \<open>The admission never asks for a fact its guard says is not needed.\<close>

lemma admission_gathered:
  "(needs_carry_forward (af_verdict f) (af_live_head f) \<Longrightarrow> af_carry_forward f \<noteq> None) \<Longrightarrow>
   decide_admission f obs prev \<noteq> Inl e"
  by (auto simp: decide_admission_def needs_carry_forward_def Let_def
      split: if_splits option.splits bool.splits)

lemma branch_gate_of_simps [simp]:
  "bg_kind (branch_gate_of k adm) = k" "bg_admission (branch_gate_of k adm) = adm"
  "bg_merge_conflict (branch_gate_of k adm) = False" "bg_sync_failed (branch_gate_of k adm) = False"
  "bg_request_sync (branch_gate_of k adm) = False"
  by (simp_all add: branch_gate_of_def)

lemma precheck_stop:
  "branch_precheck f = (Some g, c, s) \<Longrightarrow>
     bg_kind g \<noteq> Proceed \<and> \<not> bg_request_sync g \<and> bg_admission g = bf_admission f"
  by (auto simp: branch_precheck_def not_train_head_def Let_def
      split: if_splits option.splits train_head.splits)

lemma precheck_pass:
  "branch_precheck f = (None, c, s) \<Longrightarrow>
     c = bf_merge_conflict f \<and> (c \<longrightarrow> s) \<and> \<not> bf_conflict_cap_stop f"
  by (auto simp: branch_precheck_def Let_def split: if_splits option.splits train_head.splits)

lemma stale_base_gate_simps [simp]:
  "bg_kind (stale_base_gate f c q) = Stop Wait"
  "bg_request_sync (stale_base_gate f c q) = False"
  "bg_admission (stale_base_gate f c q) = bf_admission f"
  by (simp_all add: stale_base_gate_def)

text \<open>
  A branch gate that proceeds for an approved admission: a conflict always fails the sync gate,
  and a gate that still passes has a current base wherever the currency gate applies.
\<close>

lemma branch_approved:
  assumes "decide_branch f sync = Inr g" and "bg_kind g = Proceed" and "adm_approved (bf_admission f)"
  shows "bg_admission g = bf_admission f"
    and "\<not> bg_request_sync g \<Longrightarrow> bf_merge_conflict f \<Longrightarrow> bg_sync_failed g"
    and "\<not> bg_request_sync g \<Longrightarrow> \<not> bg_sync_failed g \<Longrightarrow>
           cfg_update_branch_strategy (bf_config f) \<noteq> ''off'' \<Longrightarrow>
           bf_base_currency_gated f = Some True \<Longrightarrow> bf_base_current f = Some True"
    and "\<not> bg_request_sync g \<Longrightarrow> sync = Some Sync_failed \<Longrightarrow> bg_sync_failed g"
    and "\<not> bf_conflict_cap_stop f"
    and "bg_merge_conflict g = bf_merge_conflict f"
proof -
  obtain c s where p: "branch_precheck f = (None, c, s)"
    using assms precheck_stop by (auto simp: decide_branch_def Let_def split: prod.splits option.splits)
  note pp = precheck_pass [OF p]
  obtain gated where g: "decide_branch_gated f sync c s gated = Inr g"
      and gd: "\<not> s \<and> cfg_update_branch_strategy (bf_config f) \<noteq> ''off'' \<longrightarrow>
                bf_base_currency_gated f = Some gated"
    using assms p by (auto simp: decide_branch_def Let_def split: if_splits option.splits)
  have all: "bg_admission g = bf_admission f \<and> bg_merge_conflict g = c \<and>
      (\<not> bg_request_sync g \<longrightarrow>
         bg_sync_failed g = (s \<or> sync = Some Sync_failed) \<and>
         (\<not> bg_sync_failed g \<and> gated \<longrightarrow> bf_base_current f = Some True))"
    using g assms(2)
    by (auto simp: decide_branch_gated_def Let_def split: if_splits option.splits bool.splits)
  show "bg_admission g = bf_admission f"
    and "\<not> bg_request_sync g \<Longrightarrow> bf_merge_conflict f \<Longrightarrow> bg_sync_failed g"
    and "\<not> bg_request_sync g \<Longrightarrow> \<not> bg_sync_failed g \<Longrightarrow>
           cfg_update_branch_strategy (bf_config f) \<noteq> ''off'' \<Longrightarrow>
           bf_base_currency_gated f = Some True \<Longrightarrow> bf_base_current f = Some True"
    and "\<not> bg_request_sync g \<Longrightarrow> sync = Some Sync_failed \<Longrightarrow> bg_sync_failed g"
    and "\<not> bf_conflict_cap_stop f"
    and "bg_merge_conflict g = bf_merge_conflict f"
    using all gd pp by auto
qed

text \<open>The second call of the branch stage never asks for another sync.\<close>

lemma branch_second_call:
  "decide_branch f (Some sync) = Inr g \<Longrightarrow> \<not> bg_request_sync g"
  by (auto simp: decide_branch_def decide_branch_gated_def Let_def
      dest: precheck_stop split: if_splits option.splits prod.splits)

section \<open>Readiness\<close>

lemma readiness_kind:
  "rd_kind (decide_readiness p f) \<in> {Proceed, Stop Request_rework, Stop Rerun_or_escalate}"
  by (simp add: decide_readiness_def Let_def)

lemma readiness_simps [simp]:
  "rd_branch (decide_readiness p f) = rf_branch f"
  "rd_issue (decide_readiness p f) = rf_issue f"
  "rd_summary (decide_readiness p f) = rf_checks f"
  "rd_human_merge_hold (decide_readiness p f) = rf_human_merge_hold f"
  "rd_human_merge_unavailable (decide_readiness p f) = rf_human_merge_unavailable f"
  "gi_approved (rd_gate (decide_readiness p f)) = adm_approved (bg_admission (rf_branch f))"
  "gi_summary_ready (rd_gate (decide_readiness p f)) = ready (rf_checks f)"
  by (simp_all add: decide_readiness_def Let_def)

lemma readiness_can_merge:
  "can_merge (rd_gate (decide_readiness p f)) \<longleftrightarrow>
     ready (rf_checks f) \<and>
     (adm_approved (bg_admission (rf_branch f)) \<or> \<not> cfg_require_approved_review (rf_config f)) \<and>
     \<not> bg_sync_failed (rf_branch f) \<and>
     (adm_approved (bg_admission (rf_branch f)) \<longrightarrow> rf_revert f = Clean)"
  by (auto simp: decide_readiness_def can_merge_def decide_revert_def Let_def
      split: revert_status.splits)

section \<open>The merge plan\<close>

lemma gate_read:
  "human_block_gate enter h = Inr g \<Longrightarrow> enter \<Longrightarrow> cfg_honor_human_block (hf_config h) \<Longrightarrow> \<not> held g \<Longrightarrow>
     hf_human_block h = Some False \<and> \<not> hf_human_block_unavailable h"
  by (auto simp: human_block_gate_def human_block_read_needed_def held_def split: if_splits)

lemma plan_of_simps [simp]:
  "mp_readiness (merge_plan_of rd h hb re rg deb) = rd"
  "mp_action_merge (merge_plan_of rd h hb re rg deb) \<longleftrightarrow>
     snd (merge_entry rd h) \<and> \<not> truthy (cfg_mergequeue_label (hf_config h)) \<and> \<not> held hb"
  "mp_action_hand_off (merge_plan_of rd h hb re rg deb) \<longleftrightarrow> re \<and> \<not> rg_capped rg"
  "mp_action_human_merge (merge_plan_of rd h hb re rg deb) \<longleftrightarrow>
     rd_human_merge_hold rd \<and> can_merge (rd_gate rd) \<and> hf_should_merge h \<and> \<not> fst (merge_entry rd h)"
  "mp_conflict_rework (merge_plan_of rd h hb re rg deb) = conflict_route rd h deb"
  "mp_check_failure_rework (merge_plan_of rd h hb re rg deb) = check_failure_route rd h deb"
  "mp_requeue_capped (merge_plan_of rd h hb re rg deb) = rg_capped rg"
  "mp_requeue_rework (merge_plan_of rd h hb re rg deb) = rg_rework rg"
  "mp_requeues (merge_plan_of rd h hb re rg deb) = rg_requeues rg"
  "mp_human_block (merge_plan_of rd h hb re rg deb) = hg_blocked hb"
  "mp_human_block_unavailable (merge_plan_of rd h hb re rg deb) = hg_unavailable hb"
  "mp_merge_hold (merge_plan_of rd h hb re rg deb) \<longleftrightarrow>
     merge_hold_read_needed rd h True \<and> hf_merge_hold h = Some True"
  "mp_merge_hold_unavailable (merge_plan_of rd h hb re rg deb) \<longleftrightarrow>
     merge_hold_read_needed rd h True \<and> hf_merge_hold_unavailable h"
  "mp_holds (merge_plan_of rd h hb re rg deb) =
     plan_holds rd (fst (merge_entry rd h))
       (merge_hold_read_needed rd h True \<and> hf_merge_hold h = Some True)
       (merge_hold_read_needed rd h True \<and> hf_merge_hold_unavailable h) (rg_capped rg) hb"
  by (simp_all add: merge_plan_of_def Let_def)

lemma plan_of_kind:
  "mp_kind (merge_plan_of rd h hb re rg deb) =
     plan_kind_of (rd_kind rd) (mp_action_merge (merge_plan_of rd h hb re rg deb))
       (mp_action_hand_off (merge_plan_of rd h hb re rg deb))
       (mp_action_human_merge (merge_plan_of rd h hb re rg deb))
       (conflict_route rd h deb \<or> check_failure_route rd h deb \<or> rg_rework rg)
       (mp_holds (merge_plan_of rd h hb re rg deb))"
  by (simp add: merge_plan_of_def Let_def)

lemma decide_mergeE:
  assumes "decide_merge rd h = Inr plan"
  obtains hb re rg deb where
    "human_block_gate (snd (merge_entry rd h)) h = Inr hb"
    "mergequeue_re_add_pending rd h = Inr re" "requeue_gate rd h re = Inr rg"
    "debounced h (can_merge (rd_gate rd)) = Inr deb" "plan = merge_plan_of rd h hb re rg deb"
  using assms that
  unfolding decide_merge_def bindE_Inr_iff exclusive_routes_def
  by (auto split: if_splits)

lemma re_add_pendingD:
  assumes "mergequeue_re_add_pending rd h = Inr True"
  shows "snd (merge_entry rd h)" and "truthy (cfg_mergequeue_label (hf_config h))"
    and "hf_merge_hold h = Some False" and "\<not> hf_merge_hold_unavailable h"
    and "cfg_honor_human_block (hf_config h) \<Longrightarrow>
           hf_human_block h = Some False \<and> \<not> hf_human_block_unavailable h"
proof -
  show e: "snd (merge_entry rd h)" and "truthy (cfg_mergequeue_label (hf_config h))"
    and "hf_merge_hold h = Some False" and "\<not> hf_merge_hold_unavailable h"
    using assms by (auto simp: mergequeue_re_add_pending_def merge_hold_read_needed_def split: if_splits)
  from assms obtain g where "human_block_gate (snd (merge_entry rd h)) h = Inr g" "\<not> held g"
    by (auto simp: mergequeue_re_add_pending_def bindE_Inr_iff split: if_splits)
  with e gate_read show "cfg_honor_human_block (hf_config h) \<Longrightarrow>
      hf_human_block h = Some False \<and> \<not> hf_human_block_unavailable h"
    by blast
qed

lemma merge_entryD:
  "snd (merge_entry rd h) \<Longrightarrow>
     can_merge (rd_gate rd) \<and> hf_should_merge h \<and> \<not> hf_pr_escalated h \<and> \<not> hf_issue_escalated h \<and>
     \<not> rd_human_merge_hold rd \<and> \<not> rd_human_merge_unavailable rd"
  by (auto simp: merge_entry_def Let_def)

text \<open>A plan that acts had everything it needs.\<close>

lemma plan_acts:
  assumes "decide_merge rd h = Inr plan" and "mp_action_merge plan \<or> mp_action_hand_off plan"
  shows "snd (merge_entry rd h)"
    and "cfg_honor_human_block (hf_config h) \<Longrightarrow>
           hf_human_block h = Some False \<and> \<not> hf_human_block_unavailable h"
    and "mp_action_hand_off plan \<Longrightarrow> truthy (cfg_mergequeue_label (hf_config h)) \<and>
           hf_merge_hold h = Some False \<and> \<not> hf_merge_hold_unavailable h \<and> \<not> mp_requeue_capped plan"
    and "mp_action_merge plan \<Longrightarrow> \<not> truthy (cfg_mergequeue_label (hf_config h))"
proof -
  from assms(1) obtain hb re rg deb where p:
    "human_block_gate (snd (merge_entry rd h)) h = Inr hb"
    "mergequeue_re_add_pending rd h = Inr re" "plan = merge_plan_of rd h hb re rg deb"
    by (rule decide_mergeE)
  have re: "mergequeue_re_add_pending rd h = Inr True" if "mp_action_hand_off plan"
    using p(2,3) that by simp
  show e: "snd (merge_entry rd h)"
    using assms(2) re re_add_pendingD(1) p(3) by auto
  show "cfg_honor_human_block (hf_config h) \<Longrightarrow>
      hf_human_block h = Some False \<and> \<not> hf_human_block_unavailable h"
    using assms(2) re re_add_pendingD(5) gate_read [OF p(1) e] p(3) by auto
  show "mp_action_hand_off plan \<Longrightarrow> truthy (cfg_mergequeue_label (hf_config h)) \<and>
      hf_merge_hold h = Some False \<and> \<not> hf_merge_hold_unavailable h \<and> \<not> mp_requeue_capped plan"
    using re re_add_pendingD(2-4) p(3) by auto
  show "mp_action_merge plan \<Longrightarrow> \<not> truthy (cfg_mergequeue_label (hf_config h))"
    using p(3) by simp
qed

text \<open>
  What a plan can raise: an unread hold, an unread human block, or a malformed counter. The
  assertion that a rework route excludes every action never fires.
\<close>

lemma gate_error: "human_block_gate enter h = Inl e \<Longrightarrow>
    e = Fact_not_gathered ''human_block'' \<and> human_block_read_needed enter h \<and>
    hf_human_block h = None \<and> \<not> hf_human_block_unavailable h"
  by (auto simp: human_block_gate_def split: if_splits)

lemma re_add_error: "mergequeue_re_add_pending rd h = Inl e \<Longrightarrow>
    human_block_gate (snd (merge_entry rd h)) h = Inl e"
  by (auto simp: mergequeue_re_add_pending_def bindE_Inl_iff split: if_splits)

lemma requeue_error: "requeue_gate rd h b = Inl e \<Longrightarrow>
    human_block_gate (snd (merge_entry rd h)) h = Inl e"
  by (auto simp: requeue_gate_def Let_def bindE_Inl_iff split: if_splits)

lemma debounced_error: "debounced h cm = Inl e \<Longrightarrow> e = Counter_error \<and> \<not> cm \<and>
    (\<exists>p. hf_persisted h = Some p \<and> pp_failed_attempts p = Malformed)"
  by (auto simp: debounced_def Let_def split: if_splits option.splits raw_counter.splits)

lemma routes_exclude_actions:
  assumes "mergequeue_re_add_pending rd h = Inr re"
    and "conflict_route rd h deb \<or> check_failure_route rd h deb"
  shows "\<not> snd (merge_entry rd h) \<and> \<not> re \<and> \<not> can_merge (rd_gate rd)"
proof -
  have "\<not> can_merge (rd_gate rd)"
    using assms(2) by (auto simp: conflict_route_def check_failure_route_def)
  then have "\<not> snd (merge_entry rd h)"
    by (auto dest: merge_entryD)
  with re_add_pendingD(1) assms(1) show ?thesis
    using \<open>\<not> can_merge (rd_gate rd)\<close> by (cases re) auto
qed

lemma decide_merge_error:
  assumes "decide_merge rd h = Inl e"
  shows "(e = Fact_not_gathered ''merge_hold'' \<and> merge_hold_read_needed rd h True \<and>
            hf_merge_hold h = None \<and> \<not> hf_merge_hold_unavailable h) \<or>
         (e = Fact_not_gathered ''human_block'' \<and>
            human_block_read_needed (snd (merge_entry rd h)) h \<and>
            hf_human_block h = None \<and> \<not> hf_human_block_unavailable h) \<or>
         (e = Counter_error \<and> \<not> can_merge (rd_gate rd) \<and>
            (\<exists>p. hf_persisted h = Some p \<and> pp_failed_attempts p = Malformed))"
proof -
  have n: "exclusive_routes (merge_plan_of rd h hb re rg deb) \<noteq> Inl x"
    if "mergequeue_re_add_pending rd h = Inr re" for re hb rg deb x
    using routes_exclude_actions [OF that, of deb] by (auto simp: exclusive_routes_def)
  from assms consider
      "e = Fact_not_gathered ''merge_hold''" "merge_hold_read_needed rd h True"
        "hf_merge_hold h = None" "\<not> hf_merge_hold_unavailable h"
    | "human_block_gate (snd (merge_entry rd h)) h = Inl e"
    | "mergequeue_re_add_pending rd h = Inl e"
    | re where "requeue_gate rd h re = Inl e"
    | "debounced h (can_merge (rd_gate rd)) = Inl e"
    unfolding decide_merge_def bindE_Inl_iff raise_if_Inl by (elim disjE conjE exE) (use n in metis)+
  then show ?thesis
  proof cases
    case 1
    then show ?thesis
      by blast
  next
    case 2
    from gate_error [OF this] show ?thesis
      by blast
  next
    case 3
    from gate_error [OF re_add_error [OF this]] show ?thesis
      by blast
  next
    case 4
    from gate_error [OF requeue_error [OF this]] show ?thesis
      by blast
  next
    case 5
    from debounced_error [OF this] show ?thesis
      by blast
  qed
qed

end
