(* ===== verification/Rework_Route.thy ===== *)
theory Rework_Route
  imports Lane_State
begin

text \<open>
  The shared cap and escalation wrapper of the rework lanes
  (\<^verbatim>\<open>orchestration/state_rework_routing.py\<close>), with the stall bound
  (\<^verbatim>\<open>orchestration/state_stale_checks.py\<close>) and the live-worker deferral
  (\<^verbatim>\<open>live_worker_deferral.py\<close>) it consults. A lane is named by its \<^verbatim>\<open>attempts_key\<close>.

  Of a router call only its effects on the state and the label edge are modelled: the prompt file
  it writes and the time stamps it adds to the entry are not.
\<close>

section \<open>What a pass brings\<close>

text \<open>
  The clock (\<open>re_now\<close> its text), the configuration, whether a live worker holds the issue, and the
  outcome of each label edge (None for an applied one, else the failure's text).
\<close>

record route_env =
  re_fromiso :: iso_parser
  re_now :: string
  re_clock :: int
  re_stall_minutes :: int
  re_rescue_enabled :: bool
  re_live_worker :: "worker_identity option"
  re_edge_error :: "string \<Rightarrow> string option"

datatype route_result =
  Fall_through
| Stall_escalated "string option"
| Startup_requeued "string option"
| Deferred_live_worker int
| Rescue_dispatched "string option"
| Cap_escalated "string option"
| Routed "string option" int

definition routed_to_rework :: "route_result \<Rightarrow> bool" where
  "routed_to_rework r =
     (case r of
        Startup_requeued _ \<Rightarrow> True | Rescue_dispatched _ \<Rightarrow> True | Routed _ _ \<Rightarrow> True | _ \<Rightarrow> False)"

definition route_escalated :: "route_result \<Rightarrow> bool" where
  "route_escalated r = (case r of Stall_escalated _ \<Rightarrow> True | Cap_escalated _ \<Rightarrow> True | _ \<Rightarrow> False)"

definition route_label_error :: "route_result \<Rightarrow> string option" where
  "route_label_error r =
     (case r of
        Stall_escalated e \<Rightarrow> e | Startup_requeued e \<Rightarrow> e | Rescue_dispatched e \<Rightarrow> e
      | Cap_escalated e \<Rightarrow> e | Routed e _ \<Rightarrow> e | _ \<Rightarrow> None)"

section \<open>The generic router\<close>

text \<open>\<^verbatim>\<open>_route_to_rework\<close>: the two entries, the event, then the label edge.\<close>

definition route_to_rework ::
  "route_env \<Rightarrow> int \<Rightarrow> int \<Rightarrow> string \<Rightarrow> (pr_entry \<Rightarrow> pr_entry) \<Rightarrow> lane_state \<Rightarrow>
   string option \<times> lane_state" where
  "route_to_rework env pr issue event_kind extra st =
     (re_edge_error env ''rework_requested'',
      record_event event_kind (Some pr) (Some issue)
        (put_pr pr (\<lambda>e. extra (e\<lparr> pe_issue := Some issue, pe_status := Some ''rework_requested'' \<rparr>))
          (put_issue issue
            (\<lambda>i. i\<lparr> ie_status := Some ''rework_requested'', ie_merge_alert := Some ''OK'' \<rparr>) st)))"

text \<open>The fields the wrapper passes to a router, by lane.\<close>

definition set_attempts :: "string \<Rightarrow> int \<Rightarrow> pr_entry \<Rightarrow> pr_entry" where
  "set_attempts key n e = e\<lparr> pe_attempts := (pe_attempts e)(key := Coerces n) \<rparr>"

definition set_last_head :: "string \<Rightarrow> string \<Rightarrow> pr_entry \<Rightarrow> pr_entry" where
  "set_last_head key head e =
     (if head = [] then e else e\<lparr> pe_last_head := (pe_last_head e)(key := Some head) \<rparr>)"

definition clear_startup_death :: "pr_entry \<Rightarrow> pr_entry" where
  "clear_startup_death e = e\<lparr> pe_failure_kind := None, pe_startup_death := False \<rparr>"

definition set_stall :: "string \<Rightarrow> string option \<Rightarrow> string option \<Rightarrow> pr_entry \<Rightarrow> pr_entry" where
  "set_stall key since head e =
     e\<lparr> pe_stall_since := (pe_stall_since e)(key := since),
        pe_stall_head := (pe_stall_head e)(key := head) \<rparr>"

section \<open>The stall bound\<close>

definition stall_reason :: "string \<Rightarrow> string" where
  "stall_reason key = key @ ''_stall_exceeded''"

definition cap_reason :: "string \<Rightarrow> string" where
  "cap_reason key = key @ ''_cap_exceeded''"

text \<open>The last part of the check: the clock is running at \<open>started\<close>.\<close>

definition stall_expired :: "route_env \<Rightarrow> int \<Rightarrow> bool" where
  "stall_expired env started \<longleftrightarrow>
     0 < re_stall_minutes env \<and> minutes (re_stall_minutes env) \<le> re_clock env - started"

text \<open>None is the ValueError of a malformed attempt counter, which the escalation's event reports.\<close>

definition check_janitor_rework_stall ::
  "route_env \<Rightarrow> int \<Rightarrow> int \<Rightarrow> string option \<Rightarrow> string \<Rightarrow> string \<Rightarrow> lane_state \<Rightarrow>
   (route_result \<times> lane_state) option" where
  "check_janitor_rework_stall env pr issue issue_status head key st =
     (let e = pr_of st pr;
          progressed = (pe_stall_since e key \<noteq> None \<and> pe_stall_head e key \<noteq> None \<and> head \<noteq> [] \<and>
                        pe_stall_head e key \<noteq> Some head);
          st1 = (if progressed
                 then put_pr pr (\<lambda>e. set_stall key None None (e\<lparr>pe_issue := Some issue\<rparr>)) st else st);
          since = (if progressed then None else pe_stall_since e key);
          shead = (if progressed then None else pe_stall_head e key)
      in if issue_status \<noteq> Some ''rework_requested'' then Some (Fall_through, st1)
         else (case (parse_iso_timestamp (re_fromiso env) since, shead) of
                 (Some started, Some _) \<Rightarrow>
                   if \<not> stall_expired env (as_utc started) then Some (Fall_through, st1)
                   else if pe_attempts (pr_of st1 pr) key = Malformed then None
                   else (case escalate_issue (re_now env) (Some issue) (stall_reason key) ''mechanical''
                                ''escalated'' (Some pr) id (set_stall key None None) st1 of
                           None \<Rightarrow> None
                         | Some st2 \<Rightarrow>
                             Some (Stall_escalated (re_edge_error env ''operator_queued''),
                                   record_event ''janitor_rework_stalled'' (Some pr) (Some issue) st2))
               | _ \<Rightarrow>
                   Some (Fall_through,
                         put_pr pr (\<lambda>e. set_stall key (Some (re_now env))
                                          (if head = [] then None else Some head)
                                          (e\<lparr>pe_issue := Some issue\<rparr>)) st1)))"

section \<open>The live-worker deferral\<close>

text \<open>\<^verbatim>\<open>_defer_cap_escalation_for_live_worker\<close>: once for each worker.\<close>

definition defer_cap_escalation :: "int \<Rightarrow> worker_identity \<Rightarrow> lane_state \<Rightarrow> lane_state" where
  "defer_cap_escalation issue w st =
     (if ie_deferred_worker (issue_of st issue) = Some w then st
      else record_event ''escalation_deferred_live_worker'' None (Some issue)
             (put_issue issue (\<lambda>i. i\<lparr>ie_deferred_worker := Some w\<rparr>) st))"

definition over_cap :: "int \<Rightarrow> int \<Rightarrow> bool" where
  "over_cap max_attempts attempts \<longleftrightarrow> 0 < max_attempts \<and> max_attempts < attempts"

section \<open>The wrapper\<close>

definition rework_pending_statuses :: "string list" where
  "rework_pending_statuses = [''rework_requested'', ''dispatched'', ''dispatch_pending'']"

text \<open>The rescue tier: the marker first, under its own lock, then the lane's router.\<close>

definition dispatch_rescue ::
  "route_env \<Rightarrow> int \<Rightarrow> int \<Rightarrow> string \<Rightarrow> string \<Rightarrow> string \<Rightarrow> string \<Rightarrow> int \<Rightarrow> lane_state \<Rightarrow>
   route_result \<times> lane_state" where
  "dispatch_rescue env pr issue head key reason router attempts st =
     (case route_to_rework env pr issue router
             (clear_startup_death \<circ> set_last_head key head \<circ> set_attempts key attempts)
             (record_event ''rescue_dispatched'' (Some pr) (Some issue)
               (put_pr pr (\<lambda>e. clear_startup_death
                  ((set_attempts key attempts e)\<lparr> pe_issue := Some issue,
                     pe_rescue_attempted := True, pe_rescue_cause := Some reason \<rparr>)) st)) of
        (err, st1) \<Rightarrow> (Rescue_dispatched err, st1))"

text \<open>\<^verbatim>\<open>_cap_escalation_pr_extra\<close>.\<close>

definition cap_escalation_pr_extra ::
  "string \<Rightarrow> int \<Rightarrow> bool \<Rightarrow> string \<Rightarrow> pr_entry \<Rightarrow> pr_entry" where
  "cap_escalation_pr_extra key attempts launched head e =
     (let e' = clear_startup_death ((set_attempts key attempts e)\<lparr> pe_worker_launched := Some launched \<rparr>)
      in if head = [] then e'
         else e'\<lparr> pe_escalated_head := (pe_escalated_head e')(key := Some head) \<rparr>)"

definition escalate_over_cap ::
  "route_env \<Rightarrow> int \<Rightarrow> int \<Rightarrow> string \<Rightarrow> string \<Rightarrow> int \<Rightarrow> lane_state \<Rightarrow> route_result \<times> lane_state" where
  "escalate_over_cap env pr issue head key attempts st =
     (case escalate_issue (re_now env) (Some issue) (cap_reason key) ''mechanical'' ''escalated''
             (Some pr) id
             (cap_escalation_pr_extra key attempts (truthy (ie_dispatched_at (issue_of st issue))) head)
             st of
        None \<Rightarrow> (Fall_through, st)
      | Some st1 \<Rightarrow>
          (Cap_escalated (re_edge_error env ''operator_queued''),
           record_event ''janitor_rework_escalated'' (Some pr) (Some issue) st1))"

text \<open>A settled head of a pending rework: the cycle failed, its attempt is burnt.\<close>

definition burn_attempt ::
  "int \<Rightarrow> int \<Rightarrow> string \<Rightarrow> string \<Rightarrow> int \<Rightarrow> lane_state \<Rightarrow> lane_state" where
  "burn_attempt pr issue head key attempts st =
     record_event ''janitor_rework_cycle_failed'' (Some pr) (Some issue)
       (put_pr pr (\<lambda>e. clear_startup_death (set_stall key None None
          ((set_attempts key attempts e)\<lparr> pe_issue := Some issue,
             pe_last_head := (pe_last_head e)(key := Some head) \<rparr>))) st)"

text \<open>The part below the pending and startup-death exits; \<open>attempts\<close> is the count with this one.\<close>

definition route_counted ::
  "route_env \<Rightarrow> int \<Rightarrow> int \<Rightarrow> string \<Rightarrow> string \<Rightarrow> int \<Rightarrow> string \<Rightarrow> string \<Rightarrow> bool \<Rightarrow> int \<Rightarrow> lane_state \<Rightarrow>
   route_result \<times> lane_state" where
  "route_counted env pr issue head key max_attempts reason router pending attempts st =
     (if over_cap max_attempts attempts then
        (case re_live_worker env of
           Some w \<Rightarrow> (Deferred_live_worker attempts, defer_cap_escalation issue w st)
         | None \<Rightarrow>
             if re_rescue_enabled env \<and> \<not> pe_rescue_attempted (pr_of st pr)
             then dispatch_rescue env pr issue head key reason router attempts st
             else escalate_over_cap env pr issue head key attempts st)
      else if pending then (Fall_through, burn_attempt pr issue head key attempts st)
      else (case route_to_rework env pr issue router
                   (clear_startup_death \<circ> set_last_head key head \<circ> set_attempts key attempts) st of
              (err, st1) \<Rightarrow> (Routed err attempts, st1)))"

text \<open>None is the ValueError of a malformed attempt counter.\<close>

definition route_janitor_gate_failure_to_rework ::
  "route_env \<Rightarrow> int \<Rightarrow> int \<Rightarrow> string \<Rightarrow> string \<Rightarrow> int \<Rightarrow> string \<Rightarrow> string \<Rightarrow> lane_state \<Rightarrow>
   (route_result \<times> lane_state) option" where
  "route_janitor_gate_failure_to_rework env pr issue head key max_attempts reason router st =
     (let e = pr_of st pr; i = issue_of st issue;
          pending = status_in (ie_status i) rework_pending_statuses;
          settled = (reason = ''merge_conflict'' \<and> ie_status i = Some ''rework_requested'' \<and>
                     head \<noteq> [] \<and> pe_last_head e key \<noteq> Some head)
      in if {cap_reason key, stall_reason key} \<inter>
            (set (ie_reasons_seen i) \<union> set (pe_reasons_seen e)) \<noteq> {}
         then Some (Fall_through, st)
         else if pending \<and> \<not> settled
         then check_janitor_rework_stall env pr issue (ie_status i) head key st
         else if pending \<and> \<not> truthy (pe_last_head e key)
         then Some (Fall_through,
                    put_pr pr (\<lambda>e. set_stall key None None
                      (e\<lparr> pe_issue := Some issue,
                         pe_last_head := (pe_last_head e)(key := Some head) \<rparr>)) st)
         else if pe_startup_death e \<and> \<not> pending
         then (case route_to_rework env pr issue router
                      (clear_startup_death \<circ> set_last_head key head) st of
                 (err, st1) \<Rightarrow> Some (Startup_requeued err, st1))
         else (case pe_attempts e key of
                 Malformed \<Rightarrow> None
               | Coerces n \<Rightarrow>
                   Some (route_counted env pr issue head key max_attempts reason router
                           pending (n + 1) st)))"

end
