(* ===== verification/Merge_Lane.thy ===== *)
theory Merge_Lane
  imports Merge_Reads Merge_Lemmas Rework_Route
begin

text \<open>
  The live driver of the merge path: the gather steps (\<^verbatim>\<open>merge_path/gather.py\<close>), the stage effects
  (\<^verbatim>\<open>apply_stages.py\<close>), the planned effects (\<^verbatim>\<open>apply_merge.py\<close>), the accounting write
  (\<^verbatim>\<open>apply_accounting.py\<close>) and the pass that composes them (\<^verbatim>\<open>apply.py\<close>).

  One pass over one pull request runs alone on the state file. What it reads from outside is the
  record \<open>pass_reads\<close>; what it does to GitHub is the list of effects it appends to. The pass's
  reports (\<^verbatim>\<open>render.py\<close>) are not modelled: the result keeps the values they print.
\<close>

section \<open>The world of a pass\<close>

record app_config =
  ac_merge :: merge_config
  ac_merge_hold_label :: string
  ac_delete_branch :: bool
  ac_cancel_superseded :: bool
  ac_require_current_base :: bool
  ac_default_branch :: string
  ac_verdict_patterns :: "((string \<Rightarrow> bool) \<times> (string \<Rightarrow> bool)) option"

datatype gh_effect =
  E_transition int string
| E_update_branch int
| E_add_label int string
| E_merge int
| E_close_issue int
| E_delete_branch string
| E_update_open_prs int
| E_cancel_superseded
| E_comment int

text \<open>
  The reads of a pass, in their order. \<open>ps_env\<close> is what the rework lanes read; its label-edge
  outcomes serve every edge. \<open>ps_infra_drive\<close> stands for the rerun driver of the infra remediation:
  whether it ended the pass, and the state it left. A GitHub call that answers with None raised.
\<close>

record pass_reads =
  ps_env :: route_env
  ps_pr_view :: "pr_view option"
  ps_linked_issue :: "int option"
  ps_decision :: verdict_file
  ps_carry_check :: bool
  ps_carry_tier :: carry_tier
  ps_carry_disk :: verdict_file
  ps_carry_view :: "pr_view option"
  ps_carry_decision :: verdict_file
  ps_train :: train_head
  ps_protection :: protection_read
  ps_compare :: "string \<Rightarrow> string \<Rightarrow> comparison"
  ps_branch_updated :: bool
  ps_sync_view :: "pr_view option"
  ps_commit :: "string \<Rightarrow> commit_read option"
  ps_sync_disk :: verdict_file
  ps_synced_view :: "pr_view option"
  ps_synced_decision :: verdict_file
  ps_revert_status :: "revert_status option"
  ps_revert_blocks :: bool
  ps_revert_reason :: "string option"
  ps_checks :: "check_run list option"
  ps_containment :: "string list"
  ps_clock :: pytime
  ps_infra_drive :: "lane_state \<Rightarrow> bool \<times> lane_state"
  ps_human_issue :: issue_read
  ps_cached_issues :: cached_issues
  ps_hold_issue :: issue_read
  ps_comments :: "review_comment list option"
  ps_skip_line_issue :: issue_read
  ps_label_added :: "string \<Rightarrow> bool"
  ps_merge_output :: "string option"
  ps_branch_deleted :: bool
  ps_cancel_results :: "string option"
  ps_deadline_spent :: bool

datatype pass_error = Raised decide_error | Merge_refused | Bad_counter

datatype pass_result =
  Pass_skipped
| Pass_not_found
| Pass_head_moved
| Pass_approval_refused
| Pass_stopped branch_stop
| Pass_stalled "string option"
| Pass_remediated
| Pass_final merge_plan effect_results accounting "string option"
| Pass_raised pass_error

section \<open>Stage 1: the opening\<close>

record merge_opening =
  op_facts :: admission_facts
  op_admission :: admission
  op_pr :: pr_view
  op_decision :: verdict_file
  op_issue :: "int option"

definition verdict_of :: "verdict_file \<Rightarrow> verdict_fact" where
  "verdict_of d = verdict_fact_of (fst d) (snd d)"

text \<open>\<^verbatim>\<open>gather_opening\<close> for a pull request that was found; \<open>esc\<close> is read for a re-review only.\<close>

definition gather_opening ::
  "merge_config \<Rightarrow> pass_reads \<Rightarrow> int \<Rightarrow> pr_entry \<Rightarrow> (int option \<Rightarrow> bool \<times> bool) option \<Rightarrow> bool \<Rightarrow>
   pr_view \<Rightarrow> decide_error + merge_opening" where
  "gather_opening cfg ps pr entry esc preview view =
     (let issue = ps_linked_issue ps; verdict = verdict_of (ps_decision ps);
          facts = \<lparr> af_pr = pr, af_config = cfg, af_persisted = Some (persisted_from entry),
                    af_pr_found = True, af_live_labels = set (pv_labels view),
                    af_live_head = pv_head view, af_issue = issue, af_verdict = verdict,
                    af_carry_forward = (if needs_carry_forward verdict (pv_head view)
                                        then Some (ps_carry_check ps) else None),
                    af_pr_escalated = False, af_issue_escalated = False \<rparr>;
          opened = (\<lambda>f adm. \<lparr> op_facts = f, op_admission = adm, op_pr = view,
                               op_decision = ps_decision ps, op_issue = issue \<rparr>)
      in bindE (decide_admission facts False preview) (\<lambda>adm.
           case esc of
             None \<Rightarrow> Inr (opened facts adm)
           | Some read \<Rightarrow>
               if adm_kind adm \<noteq> Stop Request_rework then Inr (opened facts adm)
               else (let facts1 = facts\<lparr> af_pr_escalated := fst (read issue),
                                         af_issue_escalated := snd (read issue) \<rparr>
                     in bindE (decide_admission facts1 False False) (\<lambda>adm1.
                          Inr (opened facts1 adm1)))))"

text \<open>
  \<^verbatim>\<open>carry_forward\<close>: None inside is a refused stamp. The approval is stamped with the observed head;
  the pull request and the verdict are read again.
\<close>

definition carry_forward ::
  "pass_reads \<Rightarrow> int \<Rightarrow> merge_opening \<Rightarrow> lane_state \<Rightarrow> decide_error + (merge_opening option \<times> lane_state)" where
  "carry_forward ps pr op st =
     (case update_approval_head pr (op_issue op) (op_decision op) (ps_carry_disk ps)
             (pv_head (op_pr op)) (vf_reviewed_head_sha (af_verdict (op_facts op)))
             (ps_carry_tier ps) st of
        (carried, _, st1) \<Rightarrow>
          if \<not> carried then Inr (None, st1)
          else (let view = (case ps_carry_view ps of None \<Rightarrow> op_pr op | Some v \<Rightarrow> v);
                    decision = ps_carry_decision ps
                in bindE (decide_admission (op_facts op) True False) (\<lambda>adm.
                     Inr (Some (op\<lparr> op_pr := view, op_decision := decision, op_admission := adm \<rparr>),
                          put_pr pr (\<lambda>e. e\<lparr> pe_issue := op_issue op, pe_status := Some ''approved'',
                             pe_head_moved := False, pe_reviewed_head := snd decision,
                             pe_live_head := pv_head view, pe_failed_attempts := Coerces 0,
                             pe_stale_base_deferrals := Coerces 0 \<rparr>) st1))))"

text \<open>\<^verbatim>\<open>re_review\<close>: the label edge, then the head-moved write.\<close>

definition re_review_effects :: "int \<Rightarrow> merge_opening \<Rightarrow> lane_state \<Rightarrow> lane_state \<times> gh_effect list" where
  "re_review_effects pr op st =
     (let adm = op_admission op
      in (if adm_record_head_moved adm
          then record_event ''head_moved'' (Some pr) None
                 (put_bound (op_issue op) (\<lambda>i. i\<lparr> ie_merge_alert := Some ''OK'' \<rparr>)
                   (put_pr pr (\<lambda>e. (e\<lparr> pe_issue := op_issue op, pe_head_moved := True,
                        pe_reviewed_head := vf_reviewed_head_sha (af_verdict (op_facts op)),
                        pe_live_head := af_live_head (op_facts op),
                        pe_failed_attempts := Coerces 0, pe_stale_base_deferrals := Coerces 0,
                        pe_status := (if adm_stamp_reviewing adm then Some ''reviewing''
                                      else pe_status e) \<rparr>)) st))
          else st,
          case op_issue op of
            None \<Rightarrow> []
          | Some n \<Rightarrow> (if adm_review_started adm then [E_transition n ''review_started''] else [])))"

section \<open>Stage 2: the branch gate\<close>

text \<open>The base-currency reads of \<^verbatim>\<open>gather_branch\<close>, in the live mode or the preview's.\<close>

definition base_reads ::
  "bool \<Rightarrow> app_config \<Rightarrow> pass_reads \<Rightarrow> pr_view \<Rightarrow> branch_facts \<Rightarrow> branch_facts" where
  "base_reads live ac ps view f =
     (let strategy = cfg_update_branch_strategy (ac_merge ac);
          gated = is_base_currency_gated (ac_require_current_base ac) (ps_protection ps) \<and>
                  (live \<or> strategy \<in> set sync_strategies);
          current = is_base_current (ac_default_branch ac) (ps_compare ps) view;
          f1 = f\<lparr> bf_base_currency_gated := Some gated \<rparr>
      in if \<not> gated then f1
         else (let f2 = f1\<lparr> bf_base_current_read := True, bf_base_current := current \<rparr>
               in if live \<and> strategy \<in> set sync_strategies \<and>
                     \<not> is_already_in_mergequeue (bf_persisted f) (bf_admission f)
                  then f2\<lparr> bf_should_update_branch :=
                            Some (should_update_pr_branch (cfg_mergequeue_label (ac_merge ac)) view current) \<rparr>
                  else f2))"

definition branch_start :: "int \<Rightarrow> int option \<Rightarrow> merge_opening \<Rightarrow> branch_facts" where
  "branch_start pr train_head op =
     (let f0 = op_facts op
      in \<lparr> bf_pr = pr, bf_config = af_config f0, bf_admission = op_admission op,
           bf_persisted = af_persisted f0, bf_merge_conflict = False, bf_issue_status = None,
           bf_train_head_param = train_head, bf_train_head = Train None,
           bf_base_currency_gated = None, bf_base_current_read = False, bf_base_current = None,
           bf_should_update_branch = None,
           bf_conflict_cap_stop = conflict_cap_stop (af_persisted f0) (af_live_head f0) \<rparr>)"

text \<open>\<^verbatim>\<open>gather_branch\<close>: the facts and the first decision.\<close>

definition gather_branch ::
  "bool \<Rightarrow> app_config \<Rightarrow> pass_reads \<Rightarrow> int \<Rightarrow> int option \<Rightarrow> merge_opening \<Rightarrow> lane_state \<Rightarrow>
   decide_error + branch_facts \<times> branch_gate" where
  "gather_branch live ac ps pr train_head op st =
     (let f0 = branch_start pr train_head op; view = op_pr op;
          sync = (if live then None else Some Not_attempted)
      in if \<not> adm_approved (op_admission op)
         then bindE (decide_branch f0 None) (\<lambda>g. Inr (f0, g))
         else (let conflict = is_merge_conflict view;
                   f1 = f0\<lparr> bf_merge_conflict := conflict,
                            bf_issue_status :=
                              (if conflict \<and> live
                               then (case op_issue op of None \<Rightarrow> None | Some n \<Rightarrow> ie_status (issue_of st n))
                               else None) \<rparr>
               in case branch_precheck f1 of
                    (Some stop, _, _) \<Rightarrow> Inr (f1, stop)
                  | (None, _, failed1) \<Rightarrow>
                      (let listed = cfg_update_branch_strategy (ac_merge ac) = ''front_of_train'' \<and>
                                    train_head = None;
                           f2 = (if listed then f1\<lparr> bf_train_head := ps_train ps \<rparr> else f1)
                       in case (if listed then branch_precheck f2 else (None, conflict, failed1)) of
                            (Some stop, _, _) \<Rightarrow> Inr (f2, stop)
                          | (None, _, failed2) \<Rightarrow>
                              (let f3 = (if \<not> failed2 \<and> cfg_update_branch_strategy (ac_merge ac) \<noteq> ''off''
                                         then base_reads live ac ps view f2 else f2)
                               in bindE (decide_branch f3 sync) (\<lambda>g. Inr (f3, g))))))"

text \<open>\<^verbatim>\<open>regather_after_sync\<close>: the base is compared again where the sync moved the head.\<close>

definition regather_after_sync ::
  "app_config \<Rightarrow> pass_reads \<Rightarrow> branch_facts \<Rightarrow> pr_view \<Rightarrow> pr_view \<Rightarrow> sync_outcome \<Rightarrow>
   decide_error + branch_gate" where
  "regather_after_sync ac ps f before after outcome =
     decide_branch
       (if outcome \<noteq> Sync_failed \<and> bf_base_currency_gated f = Some True \<and>
           pv_head after \<noteq> pv_head before
        then f\<lparr> bf_base_current_read := True,
                bf_base_current := is_base_current (ac_default_branch ac) (ps_compare ps) after \<rparr>
        else f) (Some outcome)"

text \<open>
  \<^verbatim>\<open>sync_branch\<close>: what the update left (the view, the verdict and the outcome), None for a refused
  stamp of the synced head; then the second decision.
\<close>

definition sync_update ::
  "pass_reads \<Rightarrow> int \<Rightarrow> merge_opening \<Rightarrow> lane_state \<Rightarrow>
   (pr_view \<times> verdict_file \<times> sync_outcome) option \<times> lane_state" where
  "sync_update ps pr op st =
     (let live = pv_head (op_pr op)
      in case (if ps_branch_updated ps
               then verify_synced_head (ps_sync_view ps) (ps_commit ps) live else None) of
           None \<Rightarrow> (Some (op_pr op, op_decision op, Sync_failed), st)
         | Some head \<Rightarrow>
             if Some head = live then (Some (op_pr op, op_decision op, Same_head), st)
             else (case update_approval_head pr (op_issue op) (op_decision op)
                          (ps_sync_disk ps) (Some head) live Verified_sync st of
                     (stamped, _, st1) \<Rightarrow>
                       (if \<not> stamped then None
                        else Some (case ps_synced_view ps of None \<Rightarrow> op_pr op | Some v \<Rightarrow> v,
                                   ps_synced_decision ps, New_head), st1)))"

definition sync_branch ::
  "app_config \<Rightarrow> pass_reads \<Rightarrow> int \<Rightarrow> branch_facts \<Rightarrow> branch_gate \<Rightarrow> merge_opening \<Rightarrow> lane_state \<Rightarrow>
   (decide_error + branch_gate \<times> merge_opening) option \<times> lane_state \<times> gh_effect list" where
  "sync_branch ac ps pr f g op st =
     (if \<not> bg_request_sync g then (Some (Inr (g, op)), st, [])
      else (case sync_update ps pr op st of
              (None, st1) \<Rightarrow> (None, st1, [E_update_branch pr])
            | (Some (view, decision, outcome), st1) \<Rightarrow>
                (Some (bindE (regather_after_sync ac ps f (op_pr op) view outcome) (\<lambda>g1.
                         Inr (g1, op\<lparr> op_pr := view, op_decision := decision \<rparr>))),
                 st1, [E_update_branch pr])))"

text \<open>\<^verbatim>\<open>_merge_deferred_stale_base_result\<close>: a ValueError (None) for a malformed counter.\<close>

definition defer_stale_base ::
  "merge_config \<Rightarrow> int \<Rightarrow> int option \<Rightarrow> lane_state \<Rightarrow> lane_state option" where
  "defer_stale_base cfg pr issue st =
     (case pe_stale_base_deferrals (pr_of st pr) of
        Malformed \<Rightarrow> None
      | Coerces n \<Rightarrow>
          (let threshold = cfg_failed_attempt_alarm cfg;
               st1 = (if 0 < threshold \<and> n + 1 = threshold
                      then record_event ''merge_deferred_stale_base_alarm'' (Some pr) issue st else st)
           in Some (put_pr pr (\<lambda>e. e\<lparr> pe_issue := issue, pe_stale_base_deferrals := Coerces (n + 1) \<rparr>)
                      (record_event ''merge_deferred_stale_base'' (Some pr) issue st1))))"

text \<open>\<^verbatim>\<open>_branch_result\<close>: the result of a gate that stops, with the state it leaves.\<close>

definition branch_result ::
  "merge_config \<Rightarrow> int \<Rightarrow> int option \<Rightarrow> branch_gate \<Rightarrow> lane_state \<Rightarrow>
   (pass_result \<times> lane_state) option" where
  "branch_result cfg pr issue g st =
     (case bg_stop g of
        None \<Rightarrow> None
      | Some Stale_base \<Rightarrow>
          Some (case defer_stale_base cfg pr issue st of
                  None \<Rightarrow> (Pass_raised Bad_counter, st)
                | Some st1 \<Rightarrow> (Pass_stopped Stale_base, st1))
      | Some stop \<Rightarrow> Some (Pass_stopped stop, st))"

section \<open>Stage 3: readiness\<close>

definition gather_revert :: "pass_reads \<Rightarrow> merge_opening \<Rightarrow> branch_gate \<Rightarrow> revert_status \<times> string option" where
  "gather_revert ps op g =
     (if \<not> (adm_approved (op_admission op) \<and> \<not> bg_sync_failed g) then (Clean, None)
      else (let status = (case ps_revert_status ps of None \<Rightarrow> Undetermined | Some s \<Rightarrow> s)
            in (if ps_revert_blocks ps \<and> status = Clean then Undetermined else status,
                ps_revert_reason ps)))"

definition readiness_facts_of ::
  "pass_reads \<Rightarrow> int \<Rightarrow> merge_opening \<Rightarrow> branch_gate \<Rightarrow> revert_status \<times> string option \<Rightarrow>
   string option \<Rightarrow> string option \<Rightarrow> bool \<times> bool \<Rightarrow> readiness_facts" where
  "readiness_facts_of ps pr op g revert status reason_class human_merge =
     (let cfg = af_config (op_facts op)
      in \<lparr> rf_pr = pr, rf_config = cfg, rf_branch = g, rf_issue = op_issue op,
           rf_issue_status = status, rf_issue_reason_class = reason_class,
           rf_revert = fst revert, rf_revert_reason = snd revert,
           rf_checks = summarize_checks (ps_checks ps) (cfg_required_checks cfg),
           rf_checks_unavailable = (ps_checks ps = None),
           rf_check_names_seen = (\<lambda>c. or_empty (ck_name c)) ` set (or_empty (ps_checks ps)),
           rf_now = ps_clock ps, rf_pr_updated_at = pv_updated_at (op_pr op),
           rf_is_draft = pv_draft (op_pr op), rf_human_merge_hold = fst human_merge,
           rf_human_merge_unavailable = snd human_merge, rf_pr_escalated = False,
           rf_issue_escalated = False, rf_containment_warnings = ps_containment ps \<rparr>)"

text \<open>\<^verbatim>\<open>decide_readiness_lazily\<close>: the issue status is read for a stall only.\<close>

definition decide_readiness_lazily ::
  "iso_parser \<Rightarrow> readiness_facts \<Rightarrow> string option \<times> string option \<Rightarrow> readiness \<times> bool" where
  "decide_readiness_lazily fromiso f read_status =
     (let optimistic = decide_readiness fromiso f
      in if \<not> rd_stall optimistic then (optimistic, False)
         else (decide_readiness fromiso
                 (f\<lparr> rf_issue_status := fst read_status, rf_issue_reason_class := snd read_status \<rparr>),
               True))"

definition read_issue_status :: "int option \<Rightarrow> lane_state \<Rightarrow> string option \<times> string option" where
  "read_issue_status issue st =
     (case issue of
        None \<Rightarrow> (None, None)
      | Some n \<Rightarrow> (ie_status (issue_of st n), ie_reason_class (issue_of st n)))"

definition no_results :: effect_results where
  "no_results =
     \<lparr> er_label_applied = None, er_merge_output = None, er_merged_at = None,
       er_cancel_results = None, er_revert_routed = False, er_conflict_routed = False,
       er_conflict_escalated = False, er_check_failure_routed = False, er_requeue_routed = False,
       er_requeue_escalated = False, er_rework_label_error = None,
       er_issue_status_after = None \<rparr>"

text \<open>A direct rework route of the bound issue: its result, state and label edge.\<close>

definition request_rework ::
  "pass_reads \<Rightarrow> int \<Rightarrow> int option \<Rightarrow> string \<Rightarrow> lane_state \<Rightarrow>
   string option \<times> lane_state \<times> gh_effect list" where
  "request_rework ps pr issue kind st =
     (case issue of
        None \<Rightarrow> (None, st, [])
      | Some n \<Rightarrow>
          (case route_to_rework (ps_env ps) pr n kind id st of
             (err, st1) \<Rightarrow> (err, st1, [E_transition n ''rework_requested''])))"

definition route_cross_pr_revert ::
  "pass_reads \<Rightarrow> int \<Rightarrow> int option \<Rightarrow> revert_verdict \<Rightarrow> lane_state \<Rightarrow>
   effect_results \<times> lane_state \<times> gh_effect list" where
  "route_cross_pr_revert ps pr issue v st =
     (if \<not> rv_route v then (no_results, st, [])
      else (case request_rework ps pr issue ''cross_pr_revert_rework_requested'' st of
              (err, st1, fx) \<Rightarrow>
                (no_results\<lparr> er_revert_routed := True, er_rework_label_error := err \<rparr>, st1, fx)))"

definition record_containment :: "int \<Rightarrow> string list \<Rightarrow> lane_state \<Rightarrow> lane_state" where
  "record_containment pr warnings st =
     (if warnings = [] then st else record_event ''containment_check'' (Some pr) None st)"

text \<open>
  \<^verbatim>\<open>_merge_ready_infra_remediation\<close>: its gate on the live state. The driver below the gate classifies
  the failures (\<open>classify_infra_failures\<close>) and reruns or escalates; it is the reads' argument.
\<close>

definition infra_remediation ::
  "pass_reads \<Rightarrow> merge_config \<Rightarrow> int \<Rightarrow> merge_opening \<Rightarrow> readiness \<Rightarrow> lane_state \<Rightarrow> bool \<times> lane_state" where
  "infra_remediation ps cfg pr op rd st =
     (let s = rd_summary rd; esc = escalation_from st pr (op_issue op)
      in if (\<not> adm_approved (op_admission op) \<and> cfg_require_approved_review cfg) \<or>
            gi_sync_failed (rd_gate rd) \<or> op_issue op = None \<or> pv_draft (op_pr op) \<or>
            cs_infra_failed s = [] \<or> cs_failed s \<noteq> [] \<or> cs_missing s \<noteq> [] \<or>
            cs_unavailable s \<noteq> [] \<or> cs_infra_blocked s \<noteq> [] \<or> fst esc \<or> snd esc
         then (False, st)
         else ps_infra_drive ps st)"

definition deescalate_human_merge :: "int \<Rightarrow> int \<Rightarrow> lane_state \<Rightarrow> lane_state" where
  "deescalate_human_merge pr issue st =
     (let e = issue_of st issue
      in if \<not> (ie_status e = Some ''escalated'' \<and> ie_reason_class e = Some ''policy'') then st
         else record_event ''human_merge_label_removed'' (Some pr) (Some issue)
                (reset_linked_pr_status_to_passive_open pr
                  (clear_escalation_on_issue_prs issue
                    (put_issue issue
                      (\<lambda>e. (clear_issue_escalation e)\<lparr> ie_status := Some passive_open_status,
                              ie_label_error := None \<rparr>) st))))"

section \<open>Stage 4: the planned effects\<close>

text \<open>\<^verbatim>\<open>_add_skip_line_if_critical\<close>: whether the label is asked for.\<close>

definition skip_line_wanted :: "merge_config \<Rightarrow> pass_reads \<Rightarrow> int option \<Rightarrow> bool" where
  "skip_line_wanted cfg ps issue =
     (if \<not> truthy (cfg_skip_line_label cfg) \<or> cfg_priority_prefix cfg = [] then False
      else (case issue of
              None \<Rightarrow> False
            | Some n \<Rightarrow>
                (case open_issue_labels (ps_cached_issues ps) n of
                   Some ls \<Rightarrow> is_critical ls (cfg_priority_prefix cfg)
                 | None \<Rightarrow>
                     (case ps_skip_line_issue ps of
                        Issue_labels ls \<Rightarrow> is_critical ls (cfg_priority_prefix cfg)
                      | Issue_malformed _ \<Rightarrow> is_critical [] (cfg_priority_prefix cfg)
                      | Issue_error \<Rightarrow> False))))"

definition hand_off ::
  "merge_config \<Rightarrow> pass_reads \<Rightarrow> pr_view \<Rightarrow> int \<Rightarrow> int option \<Rightarrow> merge_plan \<Rightarrow> effect_results \<Rightarrow>
   lane_state \<Rightarrow> effect_results \<times> lane_state \<times> gh_effect list" where
  "hand_off cfg ps view pr issue plan r st =
     (let label = or_empty (cfg_mergequeue_label cfg);
          already = (label \<in> set (pv_labels view));
          skip = (if truthy (cfg_skip_line_label cfg) \<and>
                     or_empty (cfg_skip_line_label cfg) \<in> set (pv_labels view) then []
                  else if skip_line_wanted cfg ps issue
                  then [E_add_label pr (or_empty (cfg_skip_line_label cfg))] else []);
          applied = (already \<or> ps_label_added ps label)
      in (r\<lparr> er_label_applied := Some applied \<rparr>,
          (if applied
           then put_bound issue (\<lambda>i. i\<lparr> ie_merge_alert := Some ''OK'' \<rparr>)
                  (put_pr pr (\<lambda>e. e\<lparr> pe_issue := issue, pe_status := Some ''mergequeue'',
                     pe_revoked_reason := None,
                     pe_failed_attempts := (if mp_reset_on_hand_off plan then Coerces 0
                                            else pe_failed_attempts e) \<rparr>) st)
           else st),
          skip @ (if already then [] else [E_add_label pr label])))"

text \<open>\<^verbatim>\<open>_self_merge\<close>; None is the GitHubError of a refused merge.\<close>

definition self_merge ::
  "app_config \<Rightarrow> pass_reads \<Rightarrow> pr_view \<Rightarrow> int \<Rightarrow> int option \<Rightarrow> effect_results \<Rightarrow> lane_state \<Rightarrow>
   (effect_results \<times> string option \<times> lane_state \<times> gh_effect list) option" where
  "self_merge ac ps view pr issue r st =
     (case ps_merge_output ps of
        None \<Rightarrow> None
      | Some out \<Rightarrow>
          (let now = re_now (ps_env ps)
           in Some
             (r\<lparr> er_merge_output := Some out, er_merged_at := Some now,
                 er_cancel_results := (if ac_cancel_superseded ac then ps_cancel_results ps
                                       else er_cancel_results r) \<rparr>,
              (case issue of None \<Rightarrow> None | Some _ \<Rightarrow> re_edge_error (ps_env ps) ''merged''),
              put_bound issue merged_issue_fields
                (put_pr pr (\<lambda>e. e\<lparr> pe_issue := issue, pe_status := Some ''merged'',
                   pe_merged := True, pe_merged_at := Some now,
                   pe_failed_attempts := Coerces 0 \<rparr>) st),
              [E_merge pr] @
              (case issue of None \<Rightarrow> [] | Some n \<Rightarrow> [E_transition n ''merged'', E_close_issue n]) @
              (if ac_delete_branch ac \<and> pv_head_ref view \<noteq> []
               then [E_delete_branch (pv_head_ref view)] else []) @
              (if cfg_update_branch_strategy (ac_merge ac) \<in> set sync_strategies
               then [E_update_open_prs pr] else []) @
              (if ac_cancel_superseded ac then [E_cancel_superseded] else []))))"

definition human_merge ::
  "pass_reads \<Rightarrow> int \<Rightarrow> int option \<Rightarrow> lane_state \<Rightarrow> lane_state \<times> gh_effect list" where
  "human_merge ps pr issue st =
     (let posted = pe_comment_posted (pr_of st pr);
          st1 = (case escalate_issue (re_now (ps_env ps)) issue ''human_merge_required'' ''policy''
                        ''escalated'' (Some pr) id (\<lambda>e. e\<lparr> pe_comment_posted := True \<rparr>) st of
                   None \<Rightarrow> st | Some s \<Rightarrow> s)
      in (record_event ''human_merge_required'' (Some pr) issue st1,
          (case issue of
             None \<Rightarrow> []
           | Some n \<Rightarrow> E_transition n ''human_merge_required'' # (if posted then [] else [E_comment pr]))))"

text \<open>One rework lane of \<^verbatim>\<open>_route_rework\<close>: the wrapper's result, None a ValueError.\<close>

definition lane_route ::
  "merge_config \<Rightarrow> pass_reads \<Rightarrow> pr_view \<Rightarrow> int \<Rightarrow> int option \<Rightarrow> string \<Rightarrow> string \<Rightarrow> string \<Rightarrow>
   lane_state \<Rightarrow> (route_result \<times> lane_state \<times> gh_effect list) option" where
  "lane_route cfg ps view pr issue key reason router st =
     (case issue of
        None \<Rightarrow> Some (Fall_through, st, [])
      | Some n \<Rightarrow>
          (case route_janitor_gate_failure_to_rework (ps_env ps) pr n (or_empty (pv_head view)) key
                  (cfg_max_conflict_rework cfg) reason router st of
             None \<Rightarrow> None
           | Some (r, st1) \<Rightarrow>
               Some (r, st1,
                 (if routed_to_rework r then [E_transition n ''rework_requested'']
                  else if route_escalated r then [E_transition n ''operator_queued''] else []))))"

definition route_requeue ::
  "merge_config \<Rightarrow> pass_reads \<Rightarrow> pr_view \<Rightarrow> int \<Rightarrow> int option \<Rightarrow> merge_plan \<Rightarrow> effect_results \<Rightarrow>
   lane_state \<Rightarrow> (effect_results \<times> lane_state \<times> gh_effect list) option" where
  "route_requeue cfg ps view pr issue plan r st =
     (if \<not> mp_requeue_rework plan then Some (r, st, [])
      else (case lane_route cfg ps view pr issue ''mergequeue_rework_attempts'' ''mergequeue_requeue''
                   ''mergequeue_requeue_rework_requested'' st of
              None \<Rightarrow> None
            | Some (Fall_through, st1, fx) \<Rightarrow> Some (r, st1, fx)
            | Some (x, st1, fx) \<Rightarrow>
                Some (r\<lparr> er_requeue_routed := routed_to_rework x,
                         er_requeue_escalated := route_escalated x,
                         er_rework_label_error := route_label_error x \<rparr>, st1, fx)))"

definition route_conflict ::
  "merge_config \<Rightarrow> pass_reads \<Rightarrow> pr_view \<Rightarrow> int \<Rightarrow> int option \<Rightarrow> merge_plan \<Rightarrow> effect_results \<Rightarrow>
   lane_state \<Rightarrow> (effect_results \<times> lane_state \<times> gh_effect list) option" where
  "route_conflict cfg ps view pr issue plan r st =
     (if \<not> mp_conflict_rework plan then Some (r, st, [])
      else (case lane_route cfg ps view pr issue ''conflict_rework_attempts'' ''merge_conflict''
                   ''merge_conflict_rework_requested'' st of
              None \<Rightarrow> None
            | Some (Fall_through, st1, fx) \<Rightarrow> Some (r, st1, fx)
            | Some (x, st1, fx) \<Rightarrow>
                Some (r\<lparr> er_conflict_routed := routed_to_rework x,
                         er_conflict_escalated := route_escalated x,
                         er_rework_label_error := route_label_error x \<rparr>, st1, fx)))"

definition route_check_failure ::
  "pass_reads \<Rightarrow> int \<Rightarrow> int option \<Rightarrow> merge_plan \<Rightarrow> effect_results \<Rightarrow> lane_state \<Rightarrow>
   effect_results \<times> lane_state \<times> gh_effect list" where
  "route_check_failure ps pr issue plan r st =
     (if \<not> mp_check_failure_rework plan then (r, st, [])
      else (case request_rework ps pr issue ''check_failure_rework_requested'' st of
              (err, st1, fx) \<Rightarrow>
                (r\<lparr> er_check_failure_routed := True, er_rework_label_error := err \<rparr>, st1, fx)))"

text \<open>
  \<^verbatim>\<open>apply_merge_plan\<close>: one action, then the human-merge hand-off, then the rework routes (at most one of
  them runs). A raise keeps the state and the effects made before it.
\<close>

type_synonym applied = "(effect_results \<times> string option) \<times> lane_state \<times> gh_effect list"

definition apply_action ::
  "app_config \<Rightarrow> pass_reads \<Rightarrow> pr_view \<Rightarrow> int \<Rightarrow> int option \<Rightarrow> merge_plan \<Rightarrow> effect_results \<Rightarrow>
   lane_state \<Rightarrow> applied option" where
  "apply_action ac ps view pr issue plan r st =
     (if mp_action_hand_off plan
      then (case hand_off (ac_merge ac) ps view pr issue plan r st of
              (r1, st1, fx) \<Rightarrow> Some ((r1, None), st1, fx))
      else if mp_action_merge plan
      then map_option (\<lambda>(r1, err, st1, fx). ((r1, err), st1, fx)) (self_merge ac ps view pr issue r st)
      else Some ((r, None), st, []))"

definition apply_rework ::
  "merge_config \<Rightarrow> pass_reads \<Rightarrow> pr_view \<Rightarrow> int \<Rightarrow> int option \<Rightarrow> merge_plan \<Rightarrow> effect_results \<Rightarrow>
   lane_state \<Rightarrow> (effect_results \<times> lane_state \<times> gh_effect list) option" where
  "apply_rework cfg ps view pr issue plan r st =
     (case route_requeue cfg ps view pr issue plan r st of
        None \<Rightarrow> None
      | Some (r1, st1, fx1) \<Rightarrow>
          (case route_conflict cfg ps view pr issue plan r1 st1 of
             None \<Rightarrow> None
           | Some (r2, st2, fx2) \<Rightarrow>
               (case route_check_failure ps pr issue plan r2 st2 of
                  (r3, st3, fx3) \<Rightarrow> Some (r3, st3, fx1 @ fx2 @ fx3))))"

definition apply_merge_plan ::
  "app_config \<Rightarrow> pass_reads \<Rightarrow> pr_view \<Rightarrow> int \<Rightarrow> int option \<Rightarrow> merge_plan \<Rightarrow> effect_results \<Rightarrow>
   lane_state \<Rightarrow> (pass_error + effect_results \<times> string option) \<times> lane_state \<times> gh_effect list" where
  "apply_merge_plan ac ps view pr issue plan r st =
     (case apply_action ac ps view pr issue plan r st of
        None \<Rightarrow> (Inl Merge_refused, st, [])
      | Some ((r1, err), st1, fx1) \<Rightarrow>
          (case (if mp_action_human_merge plan then human_merge ps pr issue st1 else (st1, [])) of
             (st2, fx2) \<Rightarrow>
               (case apply_rework (ac_merge ac) ps view pr issue plan r1 st2 of
                  None \<Rightarrow> (Inl Bad_counter, st2, fx1 @ fx2)
                | Some (r3, st3, fx3) \<Rightarrow> (Inr (r3, err), st3, fx1 @ fx2 @ fx3))))"

section \<open>Stage 5: the accounting write\<close>

fun event_name :: "event_spec \<Rightarrow> string" where
  "event_name (Merge_failed_attempt_alarm _) = ''merge_failed_attempt_alarm''"
| "event_name (Mergequeue_requeue_capped _) = ''mergequeue_requeue_capped''"
| "event_name (Merge_ready_event _) = ''merge_ready''"
| "event_name (Merge_succeeded _) = ''merge_succeeded''"

text \<open>The entry of the pull request that \<^verbatim>\<open>settle_accounting\<close> writes; \<open>now\<close> is \<^verbatim>\<open>utc_now()\<close>.\<close>

definition settled_entry :: "int option \<Rightarrow> string \<Rightarrow> accounting \<Rightarrow> pr_entry \<Rightarrow> pr_entry" where
  "settled_entry issue now acc e =
     (let e1 = e\<lparr> pe_issue := issue, pe_failed_attempts := Coerces (acc_failed_attempts acc),
                 pe_stale_base_deferrals := Coerces (acc_stale_base_deferrals acc) \<rparr>;
          e2 = (case acc_pr_status acc of
                  None \<Rightarrow> e1 | Some s \<Rightarrow> e1\<lparr> pe_status := Some s, pe_merged := True \<rparr>);
          e3 = (if acc_since acc \<noteq> None \<and> acc_head_sha acc \<noteq> None
                then e2\<lparr> pe_since := acc_since acc, pe_head_sha := acc_head_sha acc,
                         pe_checked_at := Some now \<rparr>
                else e2\<lparr> pe_since := None, pe_head_sha := None, pe_checked_at := None \<rparr>)
      in case acc_requeues acc of
           None \<Rightarrow> e3
         | Some n \<Rightarrow> e3\<lparr> pe_requeues := Coerces n, pe_requeues_head := acc_requeues_head acc \<rparr>)"

definition accounting_facts_of ::
  "merge_config \<Rightarrow> pass_reads \<Rightarrow> pr_view \<Rightarrow> int \<Rightarrow> int option \<Rightarrow> effect_results \<Rightarrow> lane_state \<Rightarrow>
   accounting_facts" where
  "accounting_facts_of cfg ps view pr issue r st =
     (let locked = persisted_from (pr_of st pr)
      in \<lparr> acf_pr = pr, acf_issue = issue, acf_config = cfg, acf_locked = locked,
           acf_deadline_spent = ps_deadline_spent ps,
           acf_now_iso = (if mergequeue_stamp_needs_now locked (truthy (er_merge_output r)) (pv_head view)
                          then re_now (ps_env ps) else []),
           acf_live_head = pv_head view, acf_mergeable = pv_mergeable view,
           acf_merge_state_status = pv_merge_state view \<rparr>)"

definition settle_accounting ::
  "merge_config \<Rightarrow> pass_reads \<Rightarrow> pr_view \<Rightarrow> int \<Rightarrow> int option \<Rightarrow> merge_plan \<Rightarrow> effect_results \<Rightarrow>
   lane_state \<Rightarrow> decide_error + accounting \<times> lane_state" where
  "settle_accounting cfg ps view pr issue plan r st =
     bindE (decide_accounting plan r (accounting_facts_of cfg ps view pr issue r st)) (\<lambda>acc.
       let st1 = (if acc_merge_alert_ok acc
                  then put_bound issue (\<lambda>i. i\<lparr> ie_merge_alert := Some ''OK'' \<rparr>) st else st);
           st2 = put_pr pr (settled_entry issue (re_now (ps_env ps)) acc) st1
       in Inr (acc, foldl (\<lambda>s e. record_event (event_name e) (Some pr) issue s) st2 (acc_events acc)))"

section \<open>The pass\<close>

definition resolve_merge :: "merge_config \<Rightarrow> bool option \<Rightarrow> bool" where
  "resolve_merge cfg merge = (case merge of None \<Rightarrow> cfg_auto_merge_enabled cfg | Some b \<Rightarrow> b)"

text \<open>\<^verbatim>\<open>with_human_block\<close>: the human block, read only when a merge or hand-off is imminent.\<close>

definition with_human_block ::
  "app_config \<Rightarrow> pass_reads \<Rightarrow> pr_view \<Rightarrow> readiness \<Rightarrow> hold_facts \<Rightarrow> hold_facts" where
  "with_human_block ac ps view rd h =
     (let block = gather_human_block (ac_verdict_patterns ac) (ps_comments ps) view
      in if human_block_read_needed (snd (merge_entry rd h)) h
         then h\<lparr> hf_human_block := Some (hb_blocked block),
                 hf_human_block_unavailable := hb_unavailable block,
                 hf_human_block_source := hb_source block \<rparr>
         else h)"

text \<open>The holds of the merge decision: the snapshot, then the lazily read hold and human block.\<close>

definition gather_holds ::
  "app_config \<Rightarrow> pass_reads \<Rightarrow> pr_view \<Rightarrow> int \<Rightarrow> int option \<Rightarrow> bool \<Rightarrow> readiness \<Rightarrow> lane_state \<Rightarrow>
   hold_facts" where
  "gather_holds ac ps view pr issue should_merge rd st =
     (let h0 = holds_from_snapshot st (ac_merge ac) pr issue should_merge (pv_head view);
          hold = gather_merge_hold (ac_merge_hold_label ac) (ps_cached_issues ps) (ps_hold_issue ps)
                   view issue;
          h1 = (if merge_hold_read_needed rd h0 True
                then h0\<lparr> hf_merge_hold := Some (fst hold), hf_merge_hold_unavailable := snd hold \<rparr>
                else h0)
      in with_human_block ac ps view rd h1)"

text \<open>Stages 4 and 5, from a readiness that goes on.\<close>

definition decide_and_act ::
  "app_config \<Rightarrow> pass_reads \<Rightarrow> int \<Rightarrow> bool option \<Rightarrow> merge_opening \<Rightarrow> readiness \<Rightarrow> effect_results \<Rightarrow>
   lane_state \<Rightarrow> pass_result \<times> lane_state \<times> gh_effect list" where
  "decide_and_act ac ps pr merge op rd r st =
     (let view = op_pr op; issue = op_issue op; cfg = ac_merge ac;
          h = gather_holds ac ps view pr issue (resolve_merge cfg merge) rd st
      in case decide_merge rd h of
           Inl e \<Rightarrow> (Pass_raised (Raised e), st, [])
         | Inr plan \<Rightarrow>
             (case apply_merge_plan ac ps view pr issue plan
                     (r\<lparr> er_issue_status_after := hf_issue_status h \<rparr>) st of
                (Inl e, st1, fx) \<Rightarrow> (Pass_raised e, st1, fx)
              | (Inr (r1, err), st1, fx) \<Rightarrow>
                  (case settle_accounting cfg ps view pr issue plan r1 st1 of
                     Inl e \<Rightarrow> (Pass_raised (Raised e), st1, fx)
                   | Inr (acc, st2) \<Rightarrow>
                       (Pass_final plan r1 acc
                          (if er_rework_label_error r1 \<noteq> None then er_rework_label_error r1 else err),
                        st2, fx))))"

text \<open>
  \<^verbatim>\<open>_readiness_and_merge\<close>, in three parts. The last: the human-merge label, its de-escalation, and
  the merge decision.
\<close>

definition merge_unless_held ::
  "app_config \<Rightarrow> pass_reads \<Rightarrow> int \<Rightarrow> bool option \<Rightarrow> merge_opening \<Rightarrow> readiness \<Rightarrow> effect_results \<Rightarrow>
   lane_state \<Rightarrow> pass_result \<times> lane_state \<times> gh_effect list" where
  "merge_unless_held ac ps pr merge op rd r st =
     (let cfg = ac_merge ac; issue = op_issue op;
          hm = human_merge_hold_check (cfg_human_merge_labels cfg) issue (ps_human_issue ps);
          read = (if deescalation_read_needed cfg issue (fst hm) (snd hm)
                  then read_issue_status issue st else (None, None));
          rd1 = with_human_merge (rd\<lparr> rd_kind := Proceed \<rparr>) cfg hm (fst read) (snd read);
          st1 = (case issue of
                   Some n \<Rightarrow> if rd_deescalate rd1 then deescalate_human_merge pr n st else st
                 | None \<Rightarrow> st)
      in decide_and_act ac ps pr merge op rd1 r st1)"

text \<open>The middle: a stall or a remediation may end the pass.\<close>

definition stall_or_merge ::
  "app_config \<Rightarrow> pass_reads \<Rightarrow> int \<Rightarrow> bool option \<Rightarrow> merge_opening \<Rightarrow> readiness \<Rightarrow> effect_results \<Rightarrow>
   lane_state \<Rightarrow> pass_result \<times> lane_state \<times> gh_effect list" where
  "stall_or_merge ac ps pr merge op rd r st =
     (if rd_stall rd
      then (case request_rework ps pr (op_issue op) ''readiness_no_ci_rework_requested'' st of
              (err, st1, fx) \<Rightarrow> (Pass_stalled err, st1, fx))
      else (case (if rd_kind rd = Stop Rerun_or_escalate
                  then infra_remediation ps (ac_merge ac) pr op rd st else (False, st)) of
              (ended, st1) \<Rightarrow>
                if ended then (Pass_remediated, st1, [])
                else merge_unless_held ac ps pr merge op rd r st1))"

text \<open>The first: the revert gate and its route, the checks and the readiness decision.\<close>

definition readiness_and_merge ::
  "app_config \<Rightarrow> pass_reads \<Rightarrow> int \<Rightarrow> bool option \<Rightarrow> merge_opening \<Rightarrow> branch_gate \<Rightarrow> lane_state \<Rightarrow>
   pass_result \<times> lane_state \<times> gh_effect list" where
  "readiness_and_merge ac ps pr merge op g st =
     (let issue = op_issue op; revert = gather_revert ps op g;
          route = (\<lambda>status. decide_revert (adm_approved (op_admission op)) (bg_sync_failed g)
                              (fst revert) issue status);
          read = (if rv_route (route None) then read_issue_status issue st else (None, None));
          verdict = (if rv_route (route None) then route (fst read) else route None)
      in case route_cross_pr_revert ps pr issue verdict st of
           (r, st1, fx1) \<Rightarrow>
             (let facts = readiness_facts_of ps pr op g revert (fst read) (snd read) (False, False);
                  rd = fst (decide_readiness_lazily (re_fromiso (ps_env ps)) facts
                              (read_issue_status issue st1))
              in case stall_or_merge ac ps pr merge op rd r
                        (record_containment pr (rd_containment_warnings rd) st1) of
                   (res, st2, fx2) \<Rightarrow> (res, st2, fx1 @ fx2)))"

text \<open>A pass from stage 2 on: the gate may stop it before the sync, or after.\<close>

definition from_branch_gate ::
  "app_config \<Rightarrow> pass_reads \<Rightarrow> int \<Rightarrow> bool option \<Rightarrow> int option \<Rightarrow> merge_opening \<Rightarrow> lane_state \<Rightarrow>
   pass_result \<times> lane_state \<times> gh_effect list" where
  "from_branch_gate ac ps pr merge train_head op st =
     (case gather_branch True ac ps pr train_head op st of
        Inl e \<Rightarrow> (Pass_raised (Raised e), st, [])
      | Inr (f, g) \<Rightarrow>
          (case branch_result (ac_merge ac) pr (op_issue op) g st of
             Some (res, st1) \<Rightarrow> (res, st1, [])
           | None \<Rightarrow>
               (case sync_branch ac ps pr f g op st of
                  (None, st1, fx) \<Rightarrow> (Pass_approval_refused, st1, fx)
                | (Some (Inl e), st1, fx) \<Rightarrow> (Pass_raised (Raised e), st1, fx)
                | (Some (Inr (g1, op1)), st1, fx) \<Rightarrow>
                    (case branch_result (ac_merge ac) pr (op_issue op1) g1 st1 of
                       Some (res, st2) \<Rightarrow> (res, st2, fx)
                     | None \<Rightarrow>
                         (case readiness_and_merge ac ps pr merge op1 g1 st1 of
                            (res, st2, fx2) \<Rightarrow> (res, st2, fx @ fx2))))))"

definition run_merge_ready ::
  "app_config \<Rightarrow> pass_reads \<Rightarrow> int \<Rightarrow> bool option \<Rightarrow> int option \<Rightarrow> lane_state \<Rightarrow>
   pass_result \<times> lane_state \<times> gh_effect list" where
  "run_merge_ready ac ps pr merge train_head st =
     (let entry = pr_of st pr
      in if pe_status entry = Some ''merged''
         then (Pass_skipped, put_bound (pe_issue entry) merged_issue_fields st, [])
         else (case ps_pr_view ps of
                 None \<Rightarrow> (Pass_not_found, st, [])
               | Some view \<Rightarrow>
                   (case gather_opening (ac_merge ac) ps pr entry (Some (escalation_from st pr)) False view of
                      Inl e \<Rightarrow> (Pass_raised (Raised e), st, [])
                    | Inr op \<Rightarrow>
                        (case (if adm_carry_forward_needed (op_admission op)
                               then carry_forward ps pr op st else Inr (Some op, st)) of
                           Inl e \<Rightarrow> (Pass_raised (Raised e), st, [])
                         | Inr (None, st1) \<Rightarrow> (Pass_approval_refused, st1, [])
                         | Inr (Some op1, st1) \<Rightarrow>
                             if adm_kind (op_admission op1) = Stop Request_rework
                             then (case re_review_effects pr op1 st1 of
                                     (st2, fx) \<Rightarrow> (Pass_head_moved, st2, fx))
                             else from_branch_gate ac ps pr merge train_head op1 st1))))"

end
