(* ===== verification/Merge_Pass.thy ===== *)
theory Merge_Pass
  imports Merge_Lane
begin

text \<open>
  What one pass of the live merge path guarantees, from its first read to the effects it makes on
  GitHub: elimination rules for the stages of the pass, and the conditions of a merge and of a
  hand-off.
\<close>

section \<open>Effects that never merge or enqueue\<close>

lemma re_review_no_merge: "E_merge p \<notin> set (snd (re_review_effects pr op st))"
  by (simp add: re_review_effects_def Let_def split: option.split)

lemma request_rework_no_merge: "request_rework ps pr issue kind st = (e, st', fx) \<Longrightarrow> E_merge p \<notin> set fx"
  by (auto simp: request_rework_def split: option.splits prod.splits)

lemma route_revert_no_merge: "route_cross_pr_revert ps pr issue v st = (r, st', fx) \<Longrightarrow> E_merge p \<notin> set fx"
  by (auto simp: route_cross_pr_revert_def dest: request_rework_no_merge split: if_splits prod.splits)

lemma sync_no_merge: "sync_branch ac ps pr f g op st = (x, st', fx) \<Longrightarrow> E_merge p \<notin> set fx"
  by (auto simp: sync_branch_def split: if_splits prod.splits option.splits)

lemma hand_off_no_merge: "hand_off cfg ps view pr issue plan r st = (r', st', fx) \<Longrightarrow> E_merge p \<notin> set fx"
  by (auto simp: hand_off_def Let_def split: if_splits)

lemma human_merge_no_merge: "human_merge ps pr issue st = (st', fx) \<Longrightarrow> E_merge p \<notin> set fx"
  by (auto simp: human_merge_def Let_def split: option.splits if_splits)

lemma lane_route_no_merge: "lane_route cfg ps view pr issue key reason router st = Some (r, st', fx) \<Longrightarrow>
    E_merge p \<notin> set fx"
  by (auto simp: lane_route_def split: option.splits prod.splits if_splits)

lemma rework_no_merge:
  "apply_rework cfg ps view pr issue plan r st = Some (r', st', fx) \<Longrightarrow> E_merge p \<notin> set fx"
proof -
  have q: "route_requeue cfg ps view pr issue plan a s = Some (b, s', fx') \<Longrightarrow> E_merge p \<notin> set fx'" for a s b s' fx'
    by (auto simp: route_requeue_def dest: lane_route_no_merge
        split: if_splits option.splits prod.splits route_result.splits)
  have c: "route_conflict cfg ps view pr issue plan a s = Some (b, s', fx') \<Longrightarrow> E_merge p \<notin> set fx'" for a s b s' fx'
    by (auto simp: route_conflict_def dest: lane_route_no_merge
        split: if_splits option.splits prod.splits route_result.splits)
  have f: "route_check_failure ps pr issue plan a s = (b, s', fx') \<Longrightarrow> E_merge p \<notin> set fx'" for a s b s' fx'
    by (auto simp: route_check_failure_def dest: request_rework_no_merge split: if_splits prod.splits)
  assume "apply_rework cfg ps view pr issue plan r st = Some (r', st', fx)"
  then show ?thesis
    by (auto simp: apply_rework_def dest: q c f split: option.splits prod.splits)
qed

text \<open>Only the branch stage asks GitHub to update the branch.\<close>

lemma request_rework_no_update: "request_rework ps pr issue kind st = (e, st', fx) \<Longrightarrow> E_update_branch p \<notin> set fx"
  by (auto simp: request_rework_def split: option.splits prod.splits)

lemma lane_route_no_update:
  "lane_route cfg ps view pr issue key reason router st = Some (r, st', fx) \<Longrightarrow> E_update_branch p \<notin> set fx"
  by (auto simp: lane_route_def split: option.splits prod.splits if_splits)

lemma route_revert_no_update:
  "route_cross_pr_revert ps pr issue v st = (r, st', fx) \<Longrightarrow> E_update_branch p \<notin> set fx"
  by (auto simp: route_cross_pr_revert_def dest: request_rework_no_update split: if_splits prod.splits)

lemma rework_no_update:
  "apply_rework cfg ps view pr issue plan r st = Some (r', st', fx) \<Longrightarrow> E_update_branch p \<notin> set fx"
proof -
  have q: "route_requeue cfg ps view pr issue plan a s = Some (b, s', fx') \<Longrightarrow> E_update_branch p \<notin> set fx'" for a s b s' fx'
    by (auto simp: route_requeue_def dest: lane_route_no_update
        split: if_splits option.splits prod.splits route_result.splits)
  have c: "route_conflict cfg ps view pr issue plan a s = Some (b, s', fx') \<Longrightarrow> E_update_branch p \<notin> set fx'" for a s b s' fx'
    by (auto simp: route_conflict_def dest: lane_route_no_update
        split: if_splits option.splits prod.splits route_result.splits)
  have f: "route_check_failure ps pr issue plan a s = (b, s', fx') \<Longrightarrow> E_update_branch p \<notin> set fx'" for a s b s' fx'
    by (auto simp: route_check_failure_def dest: request_rework_no_update split: if_splits prod.splits)
  assume "apply_rework cfg ps view pr issue plan r st = Some (r', st', fx)"
  then show ?thesis
    by (auto simp: apply_rework_def dest: q c f split: option.splits prod.splits)
qed

lemma action_no_update:
  "apply_action ac ps view pr issue plan r st = Some (x, st', fx) \<Longrightarrow> E_update_branch p \<notin> set fx"
  by (auto simp: apply_action_def hand_off_def self_merge_def Let_def split: if_splits prod.splits option.splits)

lemma act_no_update:
  "decide_and_act ac ps pr merge op rd r st = (res, st', fx) \<Longrightarrow> E_update_branch p \<notin> set fx"
proof -
  have h: "human_merge ps pr issue s = (s', fx') \<Longrightarrow> E_update_branch p \<notin> set fx'" for issue s s' fx'
    by (auto simp: human_merge_def Let_def split: option.splits if_splits)
  have "apply_merge_plan ac ps view pr issue plan r st = (x, st', fx) \<Longrightarrow> E_update_branch p \<notin> set fx"
    for view issue plan r st x st' fx
    by (auto simp: apply_merge_plan_def dest: h action_no_update rework_no_update
        split: option.splits prod.splits if_splits)
  then show "decide_and_act ac ps pr merge op rd r st = (res, st', fx) \<Longrightarrow> E_update_branch p \<notin> set fx"
    by (fastforce simp: decide_and_act_def Let_def split: sum.splits prod.splits)
qed

text \<open>A merge effect is the plan's self-merge.\<close>

lemma plan_merges:
  assumes "apply_merge_plan ac ps view pr issue plan r st = (x, st', fx)" and "E_merge p \<in> set fx"
  shows "mp_action_merge plan \<and> \<not> mp_action_hand_off plan \<and> p = pr \<and> ps_merge_output ps \<noteq> None"
proof -
  from assms obtain r1 err st1 fx1 where a: "apply_action ac ps view pr issue plan r st = Some ((r1, err), st1, fx1)"
      and p: "E_merge p \<in> set fx1"
    by (auto simp: apply_merge_plan_def dest: human_merge_no_merge rework_no_merge
        split: option.splits prod.splits if_splits)
  show ?thesis
  proof (cases "mp_action_hand_off plan")
    case True
    with a p show ?thesis
      by (auto simp: apply_action_def dest: hand_off_no_merge split: prod.splits)
  next
    case False
    with a p have m: "mp_action_merge plan"
      by (auto simp: apply_action_def split: if_splits)
    with False a obtain q where "self_merge ac ps view pr issue r st = Some q" "snd (snd (snd q)) = fx1"
      by (auto simp: apply_action_def)
    with p show ?thesis
      using m False
      by (auto simp: self_merge_def Let_def split: option.splits if_splits)
  qed
qed

lemma act_merges:
  assumes "decide_and_act ac ps pr merge op rd r st = (res, st', fx)" and "E_merge p \<in> set fx"
  obtains plan where "decide_merge rd (gather_holds ac ps (op_pr op) pr (op_issue op)
      (resolve_merge (ac_merge ac) merge) rd st) = Inr plan" "mp_action_merge plan" "p = pr"
    "ps_merge_output ps \<noteq> None"
  using assms that plan_merges
  by (auto simp: decide_and_act_def Let_def split: sum.splits prod.splits)

section \<open>The stages of a pass that merges\<close>

lemma lazily_facts:
  "\<exists>f'. fst (decide_readiness_lazily p f read) = decide_readiness p f' \<and>
     rf_branch f' = rf_branch f \<and> rf_checks f' = rf_checks f \<and> rf_config f' = rf_config f \<and>
     rf_revert f' = rf_revert f \<and> rf_issue f' = rf_issue f"
proof (cases "rd_stall (decide_readiness p f)")
  case True
  then show ?thesis
    by (intro exI [of _ "f\<lparr> rf_issue_status := fst read, rf_issue_reason_class := snd read \<rparr>"])
      (simp add: decide_readiness_lazily_def Let_def)
next
  case False
  then show ?thesis
    by (intro exI [of _ f]) (simp add: decide_readiness_lazily_def Let_def)
qed

lemma with_human_merge_simps [simp]:
  "rd_gate (with_human_merge rd cfg hm s rc) = rd_gate rd"
  "rd_branch (with_human_merge rd cfg hm s rc) = rd_branch rd"
  "rd_kind (with_human_merge rd cfg hm s rc) = rd_kind rd"
  "rd_issue (with_human_merge rd cfg hm s rc) = rd_issue rd"
  "rd_human_merge_hold (with_human_merge rd cfg hm s rc) = fst hm"
  "rd_human_merge_unavailable (with_human_merge rd cfg hm s rc) = snd hm"
  by (simp_all add: with_human_merge_def)

lemma held_pass_acts:
  assumes "merge_unless_held ac ps pr merge op rd r st = (res, st', fx)"
  obtains rd1 st1 where
    "decide_and_act ac ps pr merge op rd1 r st1 = (res, st', fx)"
    "rd_gate rd1 = rd_gate rd" "rd_branch rd1 = rd_branch rd" "rd_kind rd1 = Proceed"
    "(rd_human_merge_hold rd1, rd_human_merge_unavailable rd1) =
       human_merge_hold_check (cfg_human_merge_labels (ac_merge ac)) (op_issue op) (ps_human_issue ps)"
  using assms unfolding merge_unless_held_def Let_def by (rule that) simp_all

text \<open>The readiness a pass decides on, whatever it read of the issue's status.\<close>

definition readiness_of_pass ::
  "pass_reads \<Rightarrow> merge_opening \<Rightarrow> branch_gate \<Rightarrow> readiness \<Rightarrow> bool" where
  "readiness_of_pass ps op g rd \<longleftrightarrow>
     (\<exists>f. rd = decide_readiness (re_fromiso (ps_env ps)) f \<and> rf_branch f = g \<and>
        rf_config f = af_config (op_facts op) \<and>
        rf_checks f = summarize_checks (ps_checks ps) (cfg_required_checks (af_config (op_facts op))) \<and>
        rf_revert f = fst (gather_revert ps op g))"

lemma readiness_acts:
  assumes "readiness_and_merge ac ps pr merge op g st = (res, st', fx)"
  obtains rd r st1 fx1 fx2 where
    "readiness_of_pass ps op g rd" "stall_or_merge ac ps pr merge op rd r st1 = (res, st', fx2)"
    "fx = fx1 @ fx2" "\<And>p. E_merge p \<notin> set fx1" "\<And>p. E_update_branch p \<notin> set fx1"
proof -
  define revert where "revert = gather_revert ps op g"
  have ex: "readiness_of_pass ps op g (fst (decide_readiness_lazily (re_fromiso (ps_env ps))
      (readiness_facts_of ps pr op g revert a b c) d))" for a b c d
    using lazily_facts [of "re_fromiso (ps_env ps)" "readiness_facts_of ps pr op g revert a b c" d]
    by (auto simp: readiness_of_pass_def readiness_facts_of_def revert_def Let_def)
  from assms show thesis
    unfolding readiness_and_merge_def Let_def revert_def [symmetric]
    by (auto split: prod.splits dest: route_revert_no_merge route_revert_no_update intro!: that ex)
qed

lemma readiness_merges:
  assumes "readiness_and_merge ac ps pr merge op g st = (res, st', fx)" and "E_merge p \<in> set fx"
  obtains rd rd1 st1 plan r fx1 fx2 where "readiness_of_pass ps op g rd" "rd_gate rd1 = rd_gate rd"
    "(rd_human_merge_hold rd1, rd_human_merge_unavailable rd1) =
       human_merge_hold_check (cfg_human_merge_labels (ac_merge ac)) (op_issue op) (ps_human_issue ps)"
    "decide_merge rd1 (gather_holds ac ps (op_pr op) pr (op_issue op)
       (resolve_merge (ac_merge ac) merge) rd1 st1) = Inr plan"
    "mp_action_merge plan" "p = pr"
    "decide_and_act ac ps pr merge op rd1 r st1 = (res, st', fx2)" "fx = fx1 @ fx2"
    "\<And>q. E_update_branch q \<notin> set fx"
proof -
  from assms(1) obtain rd r s fx1 fx2 where a: "readiness_of_pass ps op g rd"
      "stall_or_merge ac ps pr merge op rd r s = (res, st', fx2)"
      "fx = fx1 @ fx2" "\<And>p. E_merge p \<notin> set fx1" "\<And>p. E_update_branch p \<notin> set fx1"
    by (rule readiness_acts) blast
  with assms(2) have m: "E_merge p \<in> set fx2"
    by auto
  with a(2) obtain s1 where "merge_unless_held ac ps pr merge op rd r s1 = (res, st', fx2)"
    by (auto simp: stall_or_merge_def dest: request_rework_no_merge split: if_splits prod.splits)
  then obtain rd1 s2 where d: "decide_and_act ac ps pr merge op rd1 r s2 = (res, st', fx2)"
    "rd_gate rd1 = rd_gate rd"
    "(rd_human_merge_hold rd1, rd_human_merge_unavailable rd1) =
       human_merge_hold_check (cfg_human_merge_labels (ac_merge ac)) (op_issue op) (ps_human_issue ps)"
    by (rule held_pass_acts) blast
  from d(1) m obtain plan where "decide_merge rd1 (gather_holds ac ps (op_pr op) pr (op_issue op)
      (resolve_merge (ac_merge ac) merge) rd1 s2) = Inr plan" "mp_action_merge plan" "p = pr"
    by (rule act_merges) blast
  with a d act_no_update [OF d(1)] show thesis
    by (intro that [OF a(1) d(2,3) _ _ _ d(1) a(3)]) auto
qed

section \<open>The branch stage of a pass that goes on\<close>

lemma decide_branch_kind: "decide_branch f sync = Inr g \<Longrightarrow> bg_stop g = None \<Longrightarrow> bg_kind g = Proceed"
  by (auto simp: decide_branch_def decide_branch_gated_def branch_precheck_def not_train_head_def
      stale_base_gate_def branch_gate_of_def Let_def
      split: if_splits option.splits prod.splits train_head.splits bool.splits)

lemma precheck_stops: "branch_precheck f = (Some g, c, s) \<Longrightarrow> bg_stop g \<noteq> None"
  by (auto simp: branch_precheck_def not_train_head_def Let_def
      split: if_splits option.splits train_head.splits)

lemma base_reads_simps [simp]:
  "bf_admission (base_reads live ac ps view f) = bf_admission f"
  "bf_config (base_reads live ac ps view f) = bf_config f"
  "bf_merge_conflict (base_reads live ac ps view f) = bf_merge_conflict f"
  "bf_conflict_cap_stop (base_reads live ac ps view f) = bf_conflict_cap_stop f"
  "bf_pr (base_reads live ac ps view f) = bf_pr f"
  "bf_issue_status (base_reads live ac ps view f) = bf_issue_status f"
  "bf_train_head_param (base_reads live ac ps view f) = bf_train_head_param f"
  "bf_train_head (base_reads live ac ps view f) = bf_train_head f"
  "bf_base_currency_gated (base_reads True ac ps view f) =
     Some (is_base_currency_gated (ac_require_current_base ac) (ps_protection ps))"
  by (simp_all add: base_reads_def Let_def)

lemma base_reads_current:
  "is_base_currency_gated (ac_require_current_base ac) (ps_protection ps) \<Longrightarrow>
   bf_base_current (base_reads True ac ps view f) =
     is_base_current (ac_default_branch ac) (ps_compare ps) view"
  by (simp add: base_reads_def Let_def)

lemma base_reads_precheck: "branch_precheck (base_reads live ac ps view f) = branch_precheck f"
  by (simp only: branch_precheck_def base_reads_simps Let_def)

text \<open>The facts of a branch stage that goes on for an approved pull request.\<close>

lemma gather_branch_on:
  assumes "gather_branch True ac ps pr th op st = Inr (f, g)" and "bg_stop g = None"
    and "adm_approved (op_admission op)"
  shows "decide_branch f None = Inr g" and "bf_admission f = op_admission op"
    and "bf_config f = af_config (op_facts op)"
    and "bf_merge_conflict f = is_merge_conflict (op_pr op)"
    and "bf_conflict_cap_stop f = conflict_cap_stop (af_persisted (op_facts op)) (af_live_head (op_facts op))"
    and "cfg_update_branch_strategy (ac_merge ac) \<noteq> ''off'' \<Longrightarrow> \<not> snd (snd (branch_precheck f)) \<Longrightarrow>
      bf_base_currency_gated f =
        Some (is_base_currency_gated (ac_require_current_base ac) (ps_protection ps)) \<and>
      (is_base_currency_gated (ac_require_current_base ac) (ps_protection ps) \<longrightarrow>
         bf_base_current f = is_base_current (ac_default_branch ac) (ps_compare ps) (op_pr op))"
proof -
  let ?view = "op_pr op"
  let ?f1 = "(branch_start pr th op)\<lparr> bf_merge_conflict := is_merge_conflict ?view,
      bf_issue_status := (if is_merge_conflict ?view \<and> True
        then (case op_issue op of None \<Rightarrow> None | Some n \<Rightarrow> ie_status (issue_of st n)) else None) \<rparr>"
  let ?listed = "cfg_update_branch_strategy (ac_merge ac) = ''front_of_train'' \<and> th = None"
  define f2 where "f2 = (if ?listed then ?f1\<lparr> bf_train_head := ps_train ps \<rparr> else ?f1)"
  obtain p1 c1 s1 where p1: "branch_precheck ?f1 = (p1, c1, s1)"
    by (cases "branch_precheck ?f1") auto
  obtain p2 c2 s2 where p2: "branch_precheck f2 = (p2, c2, s2)"
    by (cases "branch_precheck f2") auto
  have "f = (if \<not> s2 \<and> cfg_update_branch_strategy (ac_merge ac) \<noteq> ''off''
             then base_reads True ac ps ?view f2 else f2) \<and> decide_branch f None = Inr g"
    using assms(1-3) p1 p2 unfolding gather_branch_def Let_def f2_def
    by (auto dest: precheck_stops simp: bindE_Inr_iff split: option.splits prod.splits if_splits)
  moreover have "bf_admission f2 = op_admission op \<and> bf_config f2 = af_config (op_facts op) \<and>
      bf_merge_conflict f2 = is_merge_conflict ?view \<and>
      bf_conflict_cap_stop f2 = conflict_cap_stop (af_persisted (op_facts op)) (af_live_head (op_facts op))"
    by (simp add: f2_def branch_start_def Let_def)
  ultimately show "decide_branch f None = Inr g" and "bf_admission f = op_admission op"
    and "bf_config f = af_config (op_facts op)"
    and "bf_merge_conflict f = is_merge_conflict (op_pr op)"
    and "bf_conflict_cap_stop f = conflict_cap_stop (af_persisted (op_facts op)) (af_live_head (op_facts op))"
    and "cfg_update_branch_strategy (ac_merge ac) \<noteq> ''off'' \<Longrightarrow> \<not> snd (snd (branch_precheck f)) \<Longrightarrow>
      bf_base_currency_gated f =
        Some (is_base_currency_gated (ac_require_current_base ac) (ps_protection ps)) \<and>
      (is_base_currency_gated (ac_require_current_base ac) (ps_protection ps) \<longrightarrow>
         bf_base_current f = is_base_current (ac_default_branch ac) (ps_compare ps) (op_pr op))"
    using p2 by (auto simp: base_reads_precheck base_reads_current split: if_splits)
qed

lemma decide_branch_failed:
  assumes "decide_branch f sync = Inr g" and "bg_stop g = None" and "adm_approved (bf_admission f)"
    and "snd (snd (branch_precheck f))"
  shows "bg_sync_failed g"
  using assms
  by (auto simp: decide_branch_def decide_branch_gated_def Let_def dest: precheck_stops
      split: option.splits prod.splits if_splits)

lemma admission_kinds:
  "decide_admission f obs prev = Inr adm \<Longrightarrow> adm_approved adm \<Longrightarrow>
     adm_kind adm = Proceed \<or> adm_kind adm = Stop Request_rework"
  by (auto simp: decide_admission_def Let_def split: if_splits option.splits bool.splits)

lemma opening_facts:
  assumes "gather_opening cfg ps pr entry esc False view = Inr op"
  shows "op_pr op = view" and "op_issue op = ps_linked_issue ps" and "op_decision op = ps_decision ps"
    and "af_config (op_facts op) = cfg" and "af_verdict (op_facts op) = verdict_of (ps_decision ps)"
    and "af_live_head (op_facts op) = pv_head view" and "af_persisted (op_facts op) = Some (persisted_from entry)"
    and "af_carry_forward (op_facts op) = Some True \<Longrightarrow> ps_carry_check ps"
    and "decide_admission (op_facts op) False False = Inr (op_admission op)"
  using assms
  by (auto simp: gather_opening_def Let_def bindE_Inr_iff
      split: option.splits if_splits)

lemma sync_branch_on:
  assumes "sync_branch ac ps pr f g op st = (Some (Inr (g1, op1)), st1, fx)"
  shows "op_admission op1 = op_admission op" and "op_facts op1 = op_facts op"
    and "op_issue op1 = op_issue op"
    and "\<not> bg_request_sync g \<Longrightarrow> g1 = g \<and> op1 = op"
    and "bg_request_sync g \<Longrightarrow> \<exists>outcome. regather_after_sync ac ps f (op_pr op) (op_pr op1) outcome = Inr g1"
  using assms
  by (auto simp: sync_branch_def bindE_Inr_iff split: if_splits prod.splits option.splits)

lemma precheck_base:
  "branch_precheck (f\<lparr> bf_base_current_read := a, bf_base_current := b \<rparr>) = branch_precheck f"
  by (cases f) (simp only: branch_precheck_def Let_def branch_facts.simps)

text \<open>An approved pass behind the branch stage: no conflict, and a current base where it is gated.\<close>

lemma branch_passed:
  assumes "gather_branch True ac ps pr th op st = Inr (f, g)" and "bg_stop g = None"
    and "adm_approved (op_admission op)" and "af_config (op_facts op) = ac_merge ac"
    and "sync_branch ac ps pr f g op st = (Some (Inr (g1, op1)), st1, fx)" and "bg_stop g1 = None"
    and "\<not> bg_sync_failed g1"
  shows "\<not> is_merge_conflict (op_pr op)"
    and "\<not> conflict_cap_stop (af_persisted (op_facts op)) (af_live_head (op_facts op))"
    and "cfg_update_branch_strategy (ac_merge ac) \<noteq> ''off'' \<Longrightarrow>
      is_base_currency_gated (ac_require_current_base ac) (ps_protection ps) \<Longrightarrow>
      \<exists>v. v \<in> {op_pr op, op_pr op1} \<and> pv_head v = pv_head (op_pr op1) \<and>
        is_base_current (ac_default_branch ac) (ps_compare ps) v = Some True"
    and "bg_admission g1 = op_admission op"
proof -
  note on = gather_branch_on [OF assms(1-3)]
  note sy = sync_branch_on [OF assms(5)]
  have app: "adm_approved (bf_admission f)"
    using assms(3) on(2) by simp
  obtain f' sync where d: "decide_branch f' sync = Inr g1"
    and f': "bf_admission f' = bf_admission f" "bf_config f' = bf_config f"
      "bf_merge_conflict f' = bf_merge_conflict f" "bf_base_currency_gated f' = bf_base_currency_gated f"
      "bf_conflict_cap_stop f' = bf_conflict_cap_stop f" "branch_precheck f' = branch_precheck f"
    and nr: "\<not> bg_request_sync g1"
    and cur: "sync \<noteq> Some Sync_failed \<Longrightarrow> bf_base_currency_gated f = Some True \<Longrightarrow>
        bf_base_current f' = bf_base_current f \<and> pv_head (op_pr op1) = pv_head (op_pr op) \<or>
        bf_base_current f' = is_base_current (ac_default_branch ac) (ps_compare ps) (op_pr op1)"
  proof (cases "bg_request_sync g")
    case False
    with sy(4) on(1) show thesis
      by (intro that [of f None]) auto
  next
    case True
    with sy(5) obtain outcome where r: "regather_after_sync ac ps f (op_pr op) (op_pr op1) outcome = Inr g1"
      by blast
    show thesis
    proof (cases "outcome \<noteq> Sync_failed \<and> bf_base_currency_gated f = Some True \<and>
        pv_head (op_pr op1) \<noteq> pv_head (op_pr op)")
      case True
      let ?f = "f\<lparr> bf_base_current_read := True, bf_base_current :=
        is_base_current (ac_default_branch ac) (ps_compare ps) (op_pr op1) \<rparr>"
      from True r have d: "decide_branch ?f (Some outcome) = Inr g1"
        by (simp add: regather_after_sync_def)
      from branch_second_call [OF d] show thesis
        by (intro that [OF d]) (simp_all add: precheck_base)
    next
      case False
      with r have d: "decide_branch f (Some outcome) = Inr g1"
        by (simp only: regather_after_sync_def if_False)
      from branch_second_call [OF d] False show thesis
        by (intro that [OF d]) auto
    qed
  qed
  note ba = branch_approved [OF d decide_branch_kind [OF d assms(6)]]
  show "\<not> is_merge_conflict (op_pr op)"
    using ba(2) nr assms(7) on(4) f' app by auto
  show "\<not> conflict_cap_stop (af_persisted (op_facts op)) (af_live_head (op_facts op))"
    using ba(5) on(5) f' app by simp
  show "bg_admission g1 = op_admission op"
    using ba(1) on(2) f' app by simp
  assume off: "cfg_update_branch_strategy (ac_merge ac) \<noteq> ''off''"
    and gated: "is_base_currency_gated (ac_require_current_base ac) (ps_protection ps)"
  have "\<not> snd (snd (branch_precheck f))"
    using decide_branch_failed [OF d assms(6)] f' app assms(7) by auto
  from on(6) [OF off this] gated have b: "bf_base_currency_gated f = Some True"
      "bf_base_current f = is_base_current (ac_default_branch ac) (ps_compare ps) (op_pr op)"
    by simp_all
  have "bf_base_current f' = Some True"
    using ba(3) nr assms(4,7) off b(1) f' on(3) app by simp
  moreover have "sync \<noteq> Some Sync_failed"
    using ba(4) nr assms(7) f' app by auto
  ultimately have "is_base_current (ac_default_branch ac) (ps_compare ps) (op_pr op) = Some True \<and>
        pv_head (op_pr op1) = pv_head (op_pr op) \<or>
      is_base_current (ac_default_branch ac) (ps_compare ps) (op_pr op1) = Some True"
    using cur b by metis
  then show "\<exists>v. v \<in> {op_pr op, op_pr op1} \<and> pv_head v = pv_head (op_pr op1) \<and>
      is_base_current (ac_default_branch ac) (ps_compare ps) v = Some True"
    by auto
qed

section \<open>From the first read to the merge\<close>

lemma gate_merges:
  assumes "from_branch_gate ac ps pr merge th op st = (res, st', fx)" and "E_merge p \<in> set fx"
  obtains f g g1 op1 s1 fx1 fx2 where
    "gather_branch True ac ps pr th op st = Inr (f, g)" "bg_stop g = None"
    "sync_branch ac ps pr f g op st = (Some (Inr (g1, op1)), s1, fx1)" "bg_stop g1 = None"
    "readiness_and_merge ac ps pr merge op1 g1 s1 = (res, st', fx2)" "E_merge p \<in> set fx2" "fx = fx1 @ fx2"
proof -
  have b: "branch_result c n i g s = None \<Longrightarrow> bg_stop g = None" for c n i g s
    by (auto simp: branch_result_def split: option.splits branch_stop.splits)
  obtain f g where g: "gather_branch True ac ps pr th op st = Inr (f, g)"
      "branch_result (ac_merge ac) pr (op_issue op) g st = None"
    using assms by (auto simp: from_branch_gate_def split: sum.splits option.splits prod.splits)
  obtain x s1 fx1 where s: "sync_branch ac ps pr f g op st = (x, s1, fx1)"
    by (cases "sync_branch ac ps pr f g op st") auto
  note n = sync_no_merge [OF s]
  from assms g s n obtain g1 op1 where x: "x = Some (Inr (g1, op1))"
      "branch_result (ac_merge ac) pr (op_issue op1) g1 s1 = None"
    by (auto simp: from_branch_gate_def split: sum.splits option.splits prod.splits)
  obtain r2 s2 fx2 where r: "readiness_and_merge ac ps pr merge op1 g1 s1 = (r2, s2, fx2)"
    by (cases "readiness_and_merge ac ps pr merge op1 g1 s1") auto
  from assms g s x r n have "r2 = res" "s2 = st'" "E_merge p \<in> set fx2" "fx = fx1 @ fx2"
    by (auto simp: from_branch_gate_def)
  with g s x r show thesis
    by (intro that [OF g(1)]) (auto dest: b)
qed

text \<open>The stages of a pass that merges: its opening, then the branch stage of the carried opening.\<close>

lemma run_merges:
  assumes "run_merge_ready ac ps pr merge th st = (res, st', fx)" and "E_merge p \<in> set fx"
  obtains view op op1 st1 where
    "pe_status (pr_of st pr) \<noteq> Some ''merged''" "ps_pr_view ps = Some view"
    "gather_opening (ac_merge ac) ps pr (pr_of st pr) (Some (escalation_from st pr)) False view = Inr op"
    "op_facts op1 = op_facts op" "op_issue op1 = op_issue op"
    "adm_carry_forward_needed (op_admission op) \<Longrightarrow> carry_forward ps pr op st = Inr (Some op1, st1)"
    "\<not> adm_carry_forward_needed (op_admission op) \<Longrightarrow> op1 = op \<and> st1 = st"
    "decide_admission (op_facts op) (adm_carry_forward_needed (op_admission op)) False = Inr (op_admission op1)"
    "adm_kind (op_admission op1) \<noteq> Stop Request_rework"
    "from_branch_gate ac ps pr merge th op1 st1 = (res, st', fx)"
proof -
  from assms obtain view where v: "ps_pr_view ps = Some view"
      "pe_status (pr_of st pr) \<noteq> Some ''merged''"
    by (auto simp: run_merge_ready_def Let_def split: if_splits option.splits)
  from assms v obtain op where o: "gather_opening (ac_merge ac) ps pr (pr_of st pr)
      (Some (escalation_from st pr)) False view = Inr op"
    by (auto simp: run_merge_ready_def Let_def split: sum.splits)
  let ?c = "if adm_carry_forward_needed (op_admission op) then carry_forward ps pr op st else Inr (Some op, st)"
  from assms v o obtain op1 st1 where c: "?c = Inr (Some op1, st1)"
    by (auto simp: run_merge_ready_def Let_def split: sum.splits option.splits prod.splits if_splits)
  have k: "adm_kind (op_admission op1) \<noteq> Stop Request_rework"
  proof
    assume "adm_kind (op_admission op1) = Stop Request_rework"
    with assms v o c have "E_merge p \<in> set (snd (re_review_effects pr op1 st1))"
      by (auto simp: run_merge_ready_def Let_def split: prod.splits)
    then show False
      by (simp add: re_review_no_merge)
  qed
  with assms v o c have "from_branch_gate ac ps pr merge th op1 st1 = (res, st', fx)"
    by (simp add: run_merge_ready_def Let_def)
  moreover have "op_facts op1 = op_facts op \<and> op_issue op1 = op_issue op \<and>
      decide_admission (op_facts op) (adm_carry_forward_needed (op_admission op)) False = Inr (op_admission op1)"
    using c opening_facts(9) [OF o]
    by (auto simp: carry_forward_def Let_def bindE_Inr_iff split: if_splits prod.splits)
  ultimately show thesis
    using v o c k by (intro that [of view op op1 st1]) (auto split: if_splits)
qed

section \<open>The conditions of a merge\<close>

lemma gather_holds_simps [simp]:
  "hf_config (gather_holds ac ps view pr issue sm rd st) = ac_merge ac"
  "hf_should_merge (gather_holds ac ps view pr issue sm rd st) = sm"
  "hf_live_head (gather_holds ac ps view pr issue sm rd st) = pv_head view"
  "hf_persisted (gather_holds ac ps view pr issue sm rd st) = Some (persisted_from (pr_of st pr))"
  "hf_pr_escalated (gather_holds ac ps view pr issue sm rd st) = fst (escalation_from st pr issue)"
  "hf_issue_escalated (gather_holds ac ps view pr issue sm rd st) = snd (escalation_from st pr issue)"
  by (simp_all add: gather_holds_def with_human_block_def holds_from_snapshot_def Let_def)

lemma entry_needs:
  "merge_entry rd (h\<lparr> hf_merge_hold := a, hf_merge_hold_unavailable := b \<rparr>) = merge_entry rd h"
  "merge_entry rd (h\<lparr> hf_human_block := c, hf_human_block_unavailable := d, hf_human_block_source := e \<rparr>) =
     merge_entry rd h"
  by (simp_all add: merge_entry_def)

text \<open>A human block that was read as absent was read from the pull request in hand.\<close>

lemma holds_block:
  assumes "hf_human_block (gather_holds ac ps view pr issue sm rd st) = Some False"
    and "\<not> hf_human_block_unavailable (gather_holds ac ps view pr issue sm rd st)"
  shows "\<not> hb_blocked (gather_human_block (ac_verdict_patterns ac) (ps_comments ps) view) \<and>
    \<not> hb_unavailable (gather_human_block (ac_verdict_patterns ac) (ps_comments ps) view)"
  using assms
  by (auto simp: gather_holds_def with_human_block_def holds_from_snapshot_def Let_def split: if_splits)

lemma views_of_pass:
  assumes "ps_pr_view ps = Some view" and "gather_opening cfg ps pr entry esc False view = Inr op"
    and "adm_carry_forward_needed (op_admission op) \<Longrightarrow> carry_forward ps pr op st = Inr (Some op1, st1)"
    and "\<not> adm_carry_forward_needed (op_admission op) \<Longrightarrow> op1 = op"
  shows "Some (op_pr op1) \<in> {ps_pr_view ps, ps_carry_view ps}"
proof (cases "adm_carry_forward_needed (op_admission op)")
  case True
  with assms(3) show ?thesis
    using opening_facts(1) [OF assms(2)] assms(1)
    by (auto simp: carry_forward_def Let_def bindE_Inr_iff split: if_splits prod.splits option.splits)
next
  case False
  with assms(1,4) opening_facts(1) [OF assms(2)] show ?thesis
    by simp
qed

lemma synced_view:
  assumes "sync_branch ac ps pr f g op st = (Some (Inr (g1, op1)), st1, fx)"
  shows "op_pr op1 = op_pr op \<or> ps_synced_view ps = Some (op_pr op1)"
  using assms
  by (auto simp: sync_branch_def sync_update_def bindE_Inr_iff Let_def
      split: if_splits prod.splits option.splits)

text \<open>
  The pass ended in the merge decision and its effects (\<open>decide_and_act\<close>), made on the view and
  from the state \<open>s\<close>, with the effects before them made by the stages before.
\<close>

definition decided_on ::
  "app_config \<Rightarrow> pass_reads \<Rightarrow> int \<Rightarrow> bool option \<Rightarrow> pr_view \<Rightarrow> lane_state \<Rightarrow>
   pass_result \<times> lane_state \<times> gh_effect list \<Rightarrow> bool" where
  "decided_on ac ps pr merge view s run \<longleftrightarrow>
     (\<exists>op rd r fx1 fx2. op_pr op = view \<and> op_issue op = ps_linked_issue ps \<and>
        decide_and_act ac ps pr merge op rd r s = (fst run, fst (snd run), fx2) \<and>
        snd (snd run) = fx1 @ fx2)"

text \<open>What held in a pass that merged.\<close>

lemma merge_conditions:
  assumes "run_merge_ready ac ps pr merge th st = (res, st', fx)" and "E_merge p \<in> set fx"
  obtains view op op1 op2 st1 f g g1 s1 fx1 rd rd1 s2 plan where
    "p = pr" "ps_pr_view ps = Some view"
    "gather_opening (ac_merge ac) ps pr (pr_of st pr) (Some (escalation_from st pr)) False view = Inr op"
    "op_facts op1 = op_facts op" "op_issue op1 = op_issue op"
    "adm_carry_forward_needed (op_admission op) \<Longrightarrow> carry_forward ps pr op st = Inr (Some op1, st1)"
    "\<not> adm_carry_forward_needed (op_admission op) \<Longrightarrow> op1 = op \<and> st1 = st"
    "decide_admission (op_facts op) (adm_carry_forward_needed (op_admission op)) False = Inr (op_admission op1)"
    "adm_kind (op_admission op1) \<noteq> Stop Request_rework"
    "gather_branch True ac ps pr th op1 st1 = Inr (f, g)" "bg_stop g = None"
    "sync_branch ac ps pr f g op1 st1 = (Some (Inr (g1, op2)), s1, fx1)" "bg_stop g1 = None"
    "readiness_of_pass ps op2 g1 rd" "rd_gate rd1 = rd_gate rd"
    "(rd_human_merge_hold rd1, rd_human_merge_unavailable rd1) =
       human_merge_hold_check (cfg_human_merge_labels (ac_merge ac)) (op_issue op2) (ps_human_issue ps)"
    "decide_merge rd1 (gather_holds ac ps (op_pr op2) pr (op_issue op2)
       (resolve_merge (ac_merge ac) merge) rd1 s2) = Inr plan"
    "mp_action_merge plan" "pe_status (pr_of st pr) \<noteq> Some ''merged''"
    "decided_on ac ps pr merge (op_pr op2) s2 (res, st', fx)"
    "\<And>q. E_update_branch q \<in> set fx \<Longrightarrow> E_update_branch q \<in> set fx1"
proof -
  from assms obtain view op op1 st1 where a: "pe_status (pr_of st pr) \<noteq> Some ''merged''" "ps_pr_view ps = Some view"
    "gather_opening (ac_merge ac) ps pr (pr_of st pr) (Some (escalation_from st pr)) False view = Inr op"
    "op_facts op1 = op_facts op" "op_issue op1 = op_issue op"
    "adm_carry_forward_needed (op_admission op) \<Longrightarrow> carry_forward ps pr op st = Inr (Some op1, st1)"
    "\<not> adm_carry_forward_needed (op_admission op) \<Longrightarrow> op1 = op \<and> st1 = st"
    "decide_admission (op_facts op) (adm_carry_forward_needed (op_admission op)) False = Inr (op_admission op1)"
    "adm_kind (op_admission op1) \<noteq> Stop Request_rework"
    "from_branch_gate ac ps pr merge th op1 st1 = (res, st', fx)"
    by (rule run_merges) blast
  from a(10) assms(2) obtain f g g1 op2 s1 fx1 fx2 where b:
    "gather_branch True ac ps pr th op1 st1 = Inr (f, g)" "bg_stop g = None"
    "sync_branch ac ps pr f g op1 st1 = (Some (Inr (g1, op2)), s1, fx1)" "bg_stop g1 = None"
    "readiness_and_merge ac ps pr merge op2 g1 s1 = (res, st', fx2)" "E_merge p \<in> set fx2" "fx = fx1 @ fx2"
    by (rule gate_merges) blast
  from b(5,6) obtain rd rd1 s3 plan r fx3 fx4 where c: "readiness_of_pass ps op2 g1 rd" "rd_gate rd1 = rd_gate rd"
    "(rd_human_merge_hold rd1, rd_human_merge_unavailable rd1) =
       human_merge_hold_check (cfg_human_merge_labels (ac_merge ac)) (op_issue op2) (ps_human_issue ps)"
    "decide_merge rd1 (gather_holds ac ps (op_pr op2) pr (op_issue op2)
       (resolve_merge (ac_merge ac) merge) rd1 s3) = Inr plan"
    "mp_action_merge plan" "p = pr"
    "decide_and_act ac ps pr merge op2 rd1 r s3 = (res, st', fx4)" "fx2 = fx3 @ fx4"
    "\<And>q. E_update_branch q \<notin> set fx2"
    by (rule readiness_merges) blast
  have "op_issue op2 = ps_linked_issue ps"
    using sync_branch_on(3) [OF b(3)] a(5) opening_facts(2) [OF a(3)] by simp
  then have d: "decided_on ac ps pr merge (op_pr op2) s3 (res, st', fx)"
    unfolding decided_on_def using b(7) c(7,8)
    by (intro exI [of _ op2] exI [of _ rd1] exI [of _ r] exI [of _ "fx1 @ fx3"] exI [of _ fx4]) simp
  have u: "E_update_branch q \<in> set fx \<Longrightarrow> E_update_branch q \<in> set fx1" for q
    using b(7) c(9) by simp
  show thesis
    by (rule that [OF c(6) a(2-9) b(1-4) c(1-5) a(1) d u])
qed

lemma decide_branch_admission: "decide_branch f sync = Inr g \<Longrightarrow> bg_admission g = bf_admission f"
proof -
  assume d: "decide_branch f sync = Inr g"
  have p: "branch_precheck f = (Some x, c, s) \<Longrightarrow> bg_admission x = bf_admission f" for x c s
    by (drule precheck_stop) simp
  from d show ?thesis
    by (auto simp: decide_branch_def decide_branch_gated_def Let_def dest: p
        split: if_splits option.splits prod.splits bool.splits)
qed

lemma gather_branch_admission:
  assumes "gather_branch True ac ps pr th op st = Inr (f, g)" and "bg_stop g = None"
  shows "bg_admission g = op_admission op \<and> bf_admission f = op_admission op"
proof (cases "adm_approved (op_admission op)")
  case False
  with assms show ?thesis
    by (auto simp: gather_branch_def Let_def bindE_Inr_iff branch_start_def dest: decide_branch_admission)
next
  case True
  from gather_branch_on(1,2) [OF assms True] decide_branch_admission show ?thesis
    by metis
qed

lemma regather_admission:
  "regather_after_sync ac ps f v w x = Inr g \<Longrightarrow> bg_admission g = bf_admission f"
  by (auto simp: regather_after_sync_def dest: decide_branch_admission split: if_splits)

lemma synced_admission:
  assumes "gather_branch True ac ps pr th op st = Inr (f, g)"
    and "bg_stop g = None" and "sync_branch ac ps pr f g op st = (Some (Inr (g1, op1)), st1, fx)"
  shows "bg_admission g1 = op_admission op"
  using gather_branch_admission [OF assms(1,2)] sync_branch_on(4,5) [OF assms(3)]
  by (cases "bg_request_sync g") (auto dest: regather_admission)

text \<open>The gate of a pass that merged, stage by stage.\<close>

lemma merge_gate:
  assumes "run_merge_ready ac ps pr merge th st = (res, st', fx)" and "E_merge p \<in> set fx"
  obtains view op op1 op2 st1 f g g1 s1 fx1 s2 where
    "p = pr" "ps_pr_view ps = Some view"
    "gather_opening (ac_merge ac) ps pr (pr_of st pr) (Some (escalation_from st pr)) False view = Inr op"
    "op_facts op1 = op_facts op"
    "adm_carry_forward_needed (op_admission op) \<Longrightarrow> carry_forward ps pr op st = Inr (Some op1, st1)"
    "\<not> adm_carry_forward_needed (op_admission op) \<Longrightarrow> op1 = op \<and> st1 = st"
    "gather_branch True ac ps pr th op1 st1 = Inr (f, g)" "bg_stop g = None"
    "sync_branch ac ps pr f g op1 st1 = (Some (Inr (g1, op2)), s1, fx1)" "bg_stop g1 = None"
    "\<not> bg_sync_failed g1" "cfg_require_approved_review (ac_merge ac) \<Longrightarrow> adm_approved (op_admission op1)"
    "adm_approved (op_admission op1) \<Longrightarrow> adm_kind (op_admission op1) = Proceed \<and>
       fst (gather_revert ps op2 g1) = Clean"
    "decide_admission (op_facts op) (adm_carry_forward_needed (op_admission op)) False = Inr (op_admission op1)"
    "ready (summarize_checks (ps_checks ps) (cfg_required_checks (ac_merge ac)))"
    "human_merge_hold_check (cfg_human_merge_labels (ac_merge ac)) (ps_linked_issue ps) (ps_human_issue ps) =
       (False, False)"
    "resolve_merge (ac_merge ac) merge" "\<not> truthy (cfg_mergequeue_label (ac_merge ac))"
    "cfg_honor_human_block (ac_merge ac) \<Longrightarrow>
       \<not> hb_blocked (gather_human_block (ac_verdict_patterns ac) (ps_comments ps) (op_pr op2)) \<and>
       \<not> hb_unavailable (gather_human_block (ac_verdict_patterns ac) (ps_comments ps) (op_pr op2))"
    "decided_on ac ps pr merge (op_pr op2) s2 (res, st', fx)"
    "escalation_from s2 pr (ps_linked_issue ps) = (False, False)"
    "\<And>q. E_update_branch q \<in> set fx \<Longrightarrow> E_update_branch q \<in> set fx1"
proof -
  from assms obtain view op op1 op2 st1 f g g1 s1 fx1 rd rd1 s2 plan where
    a: "p = pr" "ps_pr_view ps = Some view"
    "gather_opening (ac_merge ac) ps pr (pr_of st pr) (Some (escalation_from st pr)) False view = Inr op"
    "op_facts op1 = op_facts op"
    "adm_carry_forward_needed (op_admission op) \<Longrightarrow> carry_forward ps pr op st = Inr (Some op1, st1)"
    "\<not> adm_carry_forward_needed (op_admission op) \<Longrightarrow> op1 = op \<and> st1 = st"
    and i: "op_issue op1 = op_issue op"
    and d: "decide_admission (op_facts op) (adm_carry_forward_needed (op_admission op)) False = Inr (op_admission op1)"
    and k: "adm_kind (op_admission op1) \<noteq> Stop Request_rework"
    and b: "gather_branch True ac ps pr th op1 st1 = Inr (f, g)" "bg_stop g = None"
    "sync_branch ac ps pr f g op1 st1 = (Some (Inr (g1, op2)), s1, fx1)" "bg_stop g1 = None"
    and r: "readiness_of_pass ps op2 g1 rd" "rd_gate rd1 = rd_gate rd"
    "(rd_human_merge_hold rd1, rd_human_merge_unavailable rd1) =
       human_merge_hold_check (cfg_human_merge_labels (ac_merge ac)) (op_issue op2) (ps_human_issue ps)"
    "decide_merge rd1 (gather_holds ac ps (op_pr op2) pr (op_issue op2)
       (resolve_merge (ac_merge ac) merge) rd1 s2) = Inr plan" "mp_action_merge plan"
    and t: "decided_on ac ps pr merge (op_pr op2) s2 (res, st', fx)"
    "\<And>q. E_update_branch q \<in> set fx \<Longrightarrow> E_update_branch q \<in> set fx1"
    by (rule merge_conditions) blast
  note op = opening_facts [OF a(3)] and sy = sync_branch_on [OF b(3)]
  note acts = plan_acts [OF r(4)] and en = merge_entryD
  from acts(1) r(5) en have e: "can_merge (rd_gate rd1)"
      "resolve_merge (ac_merge ac) merge" "\<not> rd_human_merge_hold rd1" "\<not> rd_human_merge_unavailable rd1"
    by fastforce+
  have esc: "escalation_from s2 pr (op_issue op2) = (False, False)"
    using acts(1) r(5) en by (fastforce simp: prod_eq_iff)
  from r(1) obtain fa where fa: "rd = decide_readiness (re_fromiso (ps_env ps)) fa" "rf_branch fa = g1"
      "rf_config fa = ac_merge ac" "rf_checks fa = summarize_checks (ps_checks ps) (cfg_required_checks (ac_merge ac))"
      "rf_revert fa = fst (gather_revert ps op2 g1)"
    using op(4) a(4) sy(2) by (auto simp: readiness_of_pass_def)
  note ga = synced_admission [OF b(1-3)]
  from e(1) r(2) have cm: "can_merge (rd_gate (decide_readiness (re_fromiso (ps_env ps)) fa))"
    by (simp add: fa(1))
  note cm = cm [unfolded readiness_can_merge fa(2-5) ga]
  show thesis
  proof (rule that [OF a(1-6) b])
    show "\<not> bg_sync_failed g1" "cfg_require_approved_review (ac_merge ac) \<Longrightarrow> adm_approved (op_admission op1)"
      "ready (summarize_checks (ps_checks ps) (cfg_required_checks (ac_merge ac)))"
      using cm by auto
    show "adm_approved (op_admission op1) \<Longrightarrow> adm_kind (op_admission op1) = Proceed \<and>
        fst (gather_revert ps op2 g1) = Clean"
      using cm k admission_kinds [OF d] by auto
    show "human_merge_hold_check (cfg_human_merge_labels (ac_merge ac)) (ps_linked_issue ps)
        (ps_human_issue ps) = (False, False)"
      using r(3) e(3,4) sy(3) i op(2) by simp
    show "\<not> truthy (cfg_mergequeue_label (ac_merge ac))"
      using acts(4) r(5) by simp
    show "cfg_honor_human_block (ac_merge ac) \<Longrightarrow>
       \<not> hb_blocked (gather_human_block (ac_verdict_patterns ac) (ps_comments ps) (op_pr op2)) \<and>
       \<not> hb_unavailable (gather_human_block (ac_verdict_patterns ac) (ps_comments ps) (op_pr op2))"
      using acts(2) r(5) holds_block by fastforce
    show "escalation_from s2 pr (ps_linked_issue ps) = (False, False)"
      using esc sy(3) i op(2) by simp
    show "decided_on ac ps pr merge (op_pr op2) s2 (res, st', fx)"
      by (rule t(1))
    show "\<And>q. E_update_branch q \<in> set fx \<Longrightarrow> E_update_branch q \<in> set fx1"
      by (rule t(2))
  qed (use d e(2) in simp_all)
qed

section \<open>What a merge needs\<close>

text \<open>
  The approval that covers a merge: the verdict on disk approves, and it names the pull request's
  head; or the head moved, the carry check found the content unchanged and the verdict, read again
  under the lock, was still the approved one.
\<close>

definition approval_covers :: "pass_reads \<Rightarrow> bool" where
  "approval_covers ps \<longleftrightarrow>
     fst (ps_decision ps) = Some ''approved'' \<and>
     (case ps_pr_view ps of
        None \<Rightarrow> False
      | Some view \<Rightarrow>
          (pv_head view = snd (ps_decision ps) \<and> snd (ps_decision ps) \<noteq> None) \<or>
          (ps_carry_check ps \<and> truthy (pv_head view) \<and> fst (ps_carry_disk ps) = Some ''approved'' \<and>
           (snd (ps_decision ps) \<noteq> None \<longrightarrow> snd (ps_carry_disk ps) = snd (ps_decision ps))))"

lemma carried_on:
  "carry_forward ps pr op st = Inr (Some op1, st1) \<Longrightarrow>
     fst (ps_carry_disk ps) = fst (op_decision op) \<and>
     (vf_reviewed_head_sha (af_verdict (op_facts op)) \<noteq> None \<longrightarrow>
        snd (ps_carry_disk ps) = vf_reviewed_head_sha (af_verdict (op_facts op)))"
  by (auto simp: carry_forward_def update_approval_head_def bindE_Inr_iff Let_def
      split: if_splits prod.splits)

lemma carry_needed:
  "decide_admission f obs prev = Inr adm \<Longrightarrow> adm_carry_forward_needed adm \<Longrightarrow>
     vf_approved (af_verdict f) \<and> truthy (af_live_head f) \<and> af_carry_forward f = Some True"
  by (auto simp: decide_admission_def re_review_def admission_of_def Let_def
      split: if_splits option.splits bool.splits)

lemma opening_covers:
  assumes "ps_pr_view ps = Some view"
    and "gather_opening cfg ps pr entry esc False view = Inr op"
    and "adm_carry_forward_needed (op_admission op) \<Longrightarrow> carry_forward ps pr op st = Inr (Some op1, st1)"
    and "decide_admission (op_facts op) (adm_carry_forward_needed (op_admission op)) False = Inr (op_admission op1)"
    and "adm_approved (op_admission op1)" and "adm_kind (op_admission op1) = Proceed"
  shows "approval_covers ps"
proof -
  note o = opening_facts [OF assms(2)]
  let ?v = "af_verdict (op_facts op)"
  have v: "vf_approved ?v \<longleftrightarrow> fst (ps_decision ps) = Some ''approved''"
      "vf_reviewed_head_sha ?v = snd (ps_decision ps)"
    by (simp_all add: o(5) verdict_of_def verdict_fact_of_def)
  show ?thesis
  proof (cases "adm_carry_forward_needed (op_admission op)")
    case False
    with admission_approved [OF assms(4,6,5)] have "vf_approved ?v" "\<not> is_head_moved ?v (pv_head view)"
      using assms(4) o(6,9) by (auto split: if_splits)
    with v assms(1) show ?thesis
      by (auto simp: approval_covers_def is_head_moved_def)
  next
    case True
    with o(9) have "vf_approved ?v" "truthy (af_live_head (op_facts op))"
        "af_carry_forward (op_facts op) = Some True"
      using carry_needed by blast+
    with v o(3,6,8) assms(1) carried_on [OF assms(3) [OF True]] show ?thesis
      by (simp add: approval_covers_def)
  qed
qed

text \<open>
  The update of the branch that covers a merge: GitHub took it, and the head read after it is the
  head before it or a commit of GitHub's own with that head as one of its two parents, where
  the verdict on disk was still the one the pass held, for the head before, when the new head
  was stamped under the lock.
\<close>

definition sync_covers :: "pass_reads \<Rightarrow> pr_view \<Rightarrow> verdict_file \<Rightarrow> bool" where
  "sync_covers ps before decision \<longleftrightarrow>
     ps_branch_updated ps \<and>
     (\<exists>head. verify_synced_head (ps_sync_view ps) (ps_commit ps) (pv_head before) = Some head \<and>
        (Some head \<noteq> pv_head before \<longrightarrow> ps_sync_disk ps = (fst decision, pv_head before)))"

lemma decision_of_pass:
  assumes "gather_opening cfg ps pr entry esc False view = Inr op"
    and "adm_carry_forward_needed (op_admission op) \<Longrightarrow> carry_forward ps pr op st = Inr (Some op1, st1)"
    and "\<not> adm_carry_forward_needed (op_admission op) \<Longrightarrow> op1 = op"
  shows "op_decision op1 \<in> {ps_decision ps, ps_carry_decision ps}"
proof (cases "adm_carry_forward_needed (op_admission op)")
  case True
  with assms(2) show ?thesis
    by (auto simp: carry_forward_def Let_def bindE_Inr_iff split: if_splits prod.splits option.splits)
next
  case False
  with assms(3) opening_facts(3) [OF assms(1)] show ?thesis
    by simp
qed

lemma updated_covers:
  assumes "sync_update ps pr op st = (Some (v, d, x), st1)" and "x \<noteq> Sync_failed"
  shows "sync_covers ps (op_pr op) (op_decision op)"
proof -
  obtain head where h: "ps_branch_updated ps"
      "verify_synced_head (ps_sync_view ps) (ps_commit ps) (pv_head (op_pr op)) = Some head"
    using assms by (auto simp: sync_update_def Let_def split: if_splits option.splits)
  have live: "pv_head (op_pr op) \<noteq> None"
    using h(2) by (cases "pv_head (op_pr op)") (simp_all add: verify_synced_head_def truthy_def)
  have "ps_sync_disk ps = (fst (op_decision op), pv_head (op_pr op))" if "Some head \<noteq> pv_head (op_pr op)"
  proof -
    obtain stamped y z where u: "update_approval_head pr (op_issue op) (op_decision op) (ps_sync_disk ps)
        (Some head) (pv_head (op_pr op)) Verified_sync st = (stamped, y, z)"
      by (cases "update_approval_head pr (op_issue op) (op_decision op) (ps_sync_disk ps)
        (Some head) (pv_head (op_pr op)) Verified_sync st") auto
    with assms(1) h that have "stamped"
      by (auto simp: sync_update_def Let_def split: if_splits)
    with u live show ?thesis
      by (auto simp: update_approval_head_def prod_eq_iff split: if_splits)
  qed
  with h show ?thesis
    by (auto simp: sync_covers_def)
qed

lemma synced_covers:
  assumes "gather_branch True ac ps pr th op st = Inr (f, g)" and "bg_stop g = None"
    and "sync_branch ac ps pr f g op st = (Some (Inr (g1, op1)), st1, fx)" and "bg_stop g1 = None"
    and "\<not> bg_sync_failed g1" and "E_update_branch q \<in> set fx"
  shows "q = pr \<and> sync_covers ps (op_pr op) (op_decision op)"
proof -
  have req: "bg_request_sync g" and q: "q = pr"
    using assms(3,6) by (auto simp: sync_branch_def split: if_splits prod.splits option.splits)
  have app: "adm_approved (op_admission op)"
    using req assms(1)
    by (cases "adm_approved (op_admission op)")
      (auto simp: gather_branch_def decide_branch_def branch_start_def bindE_Inr_iff Let_def)
  obtain v d x where u: "sync_update ps pr op st = (Some (v, d, x), st1)"
      "regather_after_sync ac ps f (op_pr op) v x = Inr g1"
    using assms(3) req by (auto simp: sync_branch_def bindE_Inr_iff split: prod.splits option.splits)
  have "x \<noteq> Sync_failed"
  proof
    assume x: "x = Sync_failed"
    with u(2) have d: "decide_branch f (Some Sync_failed) = Inr g1"
      by (simp add: regather_after_sync_def)
    have "adm_approved (bf_admission f)"
      using app gather_branch_on(2) [OF assms(1,2) app] by simp
    from branch_approved(4) [OF d decide_branch_kind [OF d assms(4)] this branch_second_call [OF d]] assms(5)
    show False
      by simp
  qed
  from q updated_covers [OF u(1) this] show ?thesis
    by blast
qed

section \<open>A pull request with nothing in its way\<close>

text \<open>A pull request with nothing in its way.\<close>

definition green_pass :: "app_config \<Rightarrow> pass_reads \<Rightarrow> int \<Rightarrow> bool option \<Rightarrow> int option \<Rightarrow> lane_state \<Rightarrow> pr_view \<Rightarrow> bool" where
  "green_pass ac ps pr merge th st view \<longleftrightarrow>
     pe_status (pr_of st pr) \<notin> {Some ''merged'', Some ''escalated''} \<and>
     (\<forall>n. ps_linked_issue ps = Some n \<longrightarrow> ie_status (issue_of st n) \<noteq> Some ''escalated'') \<and>
     ps_pr_view ps = Some view \<and> ps_decision ps = (Some ''approved'', pv_head view) \<and>
     pv_head view \<noteq> None \<and> \<not> is_merge_conflict view \<and>
     \<not> conflict_cap_stop (Some (persisted_from (pr_of st pr))) (pv_head view) \<and>
     (cfg_update_branch_strategy (ac_merge ac) = ''front_of_train'' \<longrightarrow> th = Some pr) \<and>
     is_base_current (ac_default_branch ac) (ps_compare ps) view = Some True \<and>
     ps_revert_status ps = Some Clean \<and> \<not> ps_revert_blocks ps \<and>
     ready (summarize_checks (ps_checks ps) (cfg_required_checks (ac_merge ac))) \<and>
     human_merge_hold_check (cfg_human_merge_labels (ac_merge ac)) (ps_linked_issue ps)
       (ps_human_issue ps) = (False, False) \<and>
     resolve_merge (ac_merge ac) merge \<and>
     (cfg_honor_human_block (ac_merge ac) \<longrightarrow>
        \<not> hb_blocked (gather_human_block (ac_verdict_patterns ac) (ps_comments ps) view) \<and>
        \<not> hb_unavailable (gather_human_block (ac_verdict_patterns ac) (ps_comments ps) view))"

lemma admission_error:
  "decide_admission f obs prev = Inl e \<Longrightarrow>
     needs_carry_forward (af_verdict f) (af_live_head f) \<and> af_carry_forward f = None"
  using admission_gathered [of f obs prev e] by blast

lemma gather_opening_total: "\<exists>op. gather_opening cfg ps pr entry esc prev view = Inr op"
proof -
  have "gather_opening cfg ps pr entry esc prev view \<noteq> Inl e" for e
    by (auto simp: gather_opening_def Let_def bindE_Inl_iff dest!: admission_error
        split: option.splits if_splits)
  then show ?thesis
    by (intro not_Inl_ex allI)
qed

lemma green_opening:
  assumes "green_pass ac ps pr merge th st view"
    and "gather_opening (ac_merge ac) ps pr (pr_of st pr) esc False view = Inr op"
  shows "adm_kind (op_admission op) = Proceed" and "adm_approved (op_admission op)"
    and "\<not> adm_carry_forward_needed (op_admission op)"
proof -
  note o = opening_facts [OF assms(2)]
  have "vf_approved (af_verdict (op_facts op))" "\<not> is_head_moved (af_verdict (op_facts op)) (af_live_head (op_facts op))"
      "\<not> (case af_persisted (op_facts op) of None \<Rightarrow> False | Some p \<Rightarrow> pp_status p = Some ''merged'')"
    using assms(1) unfolding o(5-7)
    by (auto simp: green_pass_def verdict_of_def verdict_fact_of_def is_head_moved_def persisted_from_def)
  with o(9) have "af_pr_found (op_facts op) \<Longrightarrow> op_admission op = (admission_base (op_facts op))\<lparr>adm_head_moved := False\<rparr>"
    by (simp add: decide_admission_def Let_def)
  moreover have "af_pr_found (op_facts op)"
    using assms(2) by (auto simp: gather_opening_def Let_def bindE_Inr_iff split: option.splits if_splits)
  ultimately show "adm_kind (op_admission op) = Proceed" and "adm_approved (op_admission op)"
    and "\<not> adm_carry_forward_needed (op_admission op)"
    using \<open>vf_approved (af_verdict (op_facts op))\<close> by simp_all
qed

text \<open>The branch facts the gather leaves unread are never asked for.\<close>

lemma decide_branch_error:
  "decide_branch f sync = Inl e \<Longrightarrow>
     (\<exists>c. branch_precheck f = (None, c, False)) \<and> cfg_update_branch_strategy (bf_config f) \<noteq> ''off'' \<and>
     (bf_base_currency_gated f = None \<or>
      (bf_base_currency_gated f = Some True \<and>
       (\<not> bf_base_current_read f \<or>
        (sync = None \<and> cfg_update_branch_strategy (bf_config f) \<in> set sync_strategies \<and>
         \<not> is_already_in_mergequeue (bf_persisted f) (bf_admission f) \<and>
         bf_should_update_branch f = None))))"
  by (auto simp: decide_branch_def decide_branch_gated_def Let_def
      split: if_splits option.splits prod.splits bool.splits)

lemma base_reads_enough:
  "bf_config f = ac_merge ac \<Longrightarrow>
     decide_branch (base_reads live ac ps view f) (if live then None else Some Not_attempted) \<noteq> Inl e"
  by (auto dest!: decide_branch_error simp: base_reads_def Let_def split: if_splits)

text \<open>The conflict stops need the status of the issue, which a preview does not read.\<close>

definition conflict_stops :: "branch_stop option set" where
  "conflict_stops = {Some Conflict_in_flight, Some Conflict_blocked}"

lemma precheck_statusless:
  "branch_precheck f = (Some g, c, s) \<Longrightarrow> bf_issue_status f = None \<Longrightarrow> bg_stop g \<notin> conflict_stops"
  by (auto simp: branch_precheck_def not_train_head_def status_in_def conflict_stops_def Let_def
      split: if_splits option.splits train_head.splits)

lemma decide_branch_statusless:
  "decide_branch f sync = Inr g \<Longrightarrow> bf_issue_status f = None \<Longrightarrow> bg_stop g \<notin> conflict_stops"
  by (auto simp: decide_branch_def decide_branch_gated_def branch_gate_of_def stale_base_gate_def
      conflict_stops_def Let_def dest: precheck_statusless
      split: if_splits option.splits prod.splits bool.splits)

text \<open>The reads of the gather, in one of their outcomes, live or in a preview.\<close>

lemma gather_branch_walk:
  assumes "adm_approved (op_admission op)" and "af_config (op_facts op) = ac_merge ac"
  obtains (stopped) f g where "gather_branch live ac ps pr th op st = Inr (f, g)" "bg_stop g \<noteq> None"
      "live \<or> bg_stop g \<notin> conflict_stops"
  | (decided) f g where "gather_branch live ac ps pr th op st = Inr (f, g)"
      "decide_branch f (if live then None else Some Not_attempted) = Inr g" "bf_admission f = op_admission op"
      "bf_merge_conflict f = is_merge_conflict (op_pr op)"
      "bf_conflict_cap_stop f = conflict_cap_stop (af_persisted (op_facts op)) (af_live_head (op_facts op))"
      "live \<or> bg_stop g \<notin> conflict_stops"
proof -
  let ?view = "op_pr op"
  let ?listed = "cfg_update_branch_strategy (ac_merge ac) = ''front_of_train'' \<and> th = None"
  define f1 where "f1 = (branch_start pr th op)\<lparr> bf_merge_conflict := is_merge_conflict ?view,
      bf_issue_status := (if is_merge_conflict ?view \<and> live
        then (case op_issue op of None \<Rightarrow> None | Some n \<Rightarrow> ie_status (issue_of st n)) else None) \<rparr>"
  define f2 where "f2 = (if ?listed then f1\<lparr> bf_train_head := ps_train ps \<rparr> else f1)"
  obtain p1 c1 s1 where p1: "branch_precheck f1 = (p1, c1, s1)"
    by (cases "branch_precheck f1") auto
  obtain p2 c2 s2 where p2: "branch_precheck f2 = (p2, c2, s2)"
    by (cases "branch_precheck f2") auto
  define f3 where "f3 = (if \<not> s2 \<and> cfg_update_branch_strategy (ac_merge ac) \<noteq> ''off''
      then base_reads live ac ps ?view f2 else f2)"
  have c: "bf_config f2 = ac_merge ac"
    by (simp add: f2_def f1_def branch_start_def assms(2) Let_def)
  have "decide_branch f3 (if live then None else Some Not_attempted) \<noteq> Inl e" for e
  proof (cases "\<not> s2 \<and> cfg_update_branch_strategy (ac_merge ac) \<noteq> ''off''")
    case True
    with base_reads_enough [OF c] show ?thesis
      by (simp add: f3_def)
  next
    case False
    with p2 c show ?thesis
      by (auto dest!: decide_branch_error simp: f3_def)
  qed
  then obtain g3 where g3: "decide_branch f3 (if live then None else Some Not_attempted) = Inr g3"
    using not_Inl_ex by blast
  have facts: "bf_admission f3 = op_admission op" "bf_merge_conflict f3 = is_merge_conflict ?view"
      "bf_conflict_cap_stop f3 = conflict_cap_stop (af_persisted (op_facts op)) (af_live_head (op_facts op))"
    by (simp_all add: f3_def f2_def f1_def branch_start_def Let_def)
  have unread: "live \<or> bf_issue_status f1 = None \<and> bf_issue_status f2 = None \<and> bf_issue_status f3 = None"
    by (simp add: f3_def f2_def f1_def)
  have "(\<exists>f g. gather_branch live ac ps pr th op st = Inr (f, g) \<and> bg_stop g \<noteq> None \<and>
        (live \<or> bg_stop g \<notin> conflict_stops)) \<or>
      gather_branch live ac ps pr th op st = Inr (f3, g3)"
  proof (cases p1)
    case (Some x)
    with p1 assms(1) have "gather_branch live ac ps pr th op st = Inr (f1, x)"
      by (simp add: gather_branch_def Let_def f1_def)
    with precheck_stops precheck_statusless p1 Some unread show ?thesis
      by blast
  next
    case None
    note n1 = None
    show ?thesis
    proof (cases "?listed \<and> p2 \<noteq> None")
      case True
      then obtain x where x: "p2 = Some x"
        by auto
      with True p1 p2 n1 assms(1) have "gather_branch live ac ps pr th op st = Inr (f2, x)"
        by (simp add: gather_branch_def Let_def f1_def f2_def)
      with precheck_stops precheck_statusless p2 x unread show ?thesis
        by blast
    next
      case False
      with n1 p1 p2 assms(1) g3 have "gather_branch live ac ps pr th op st = Inr (f3, g3)"
        by (auto simp: gather_branch_def Let_def f1_def f2_def f3_def)
      then show ?thesis
        by blast
    qed
  qed
  moreover have "live \<or> bg_stop g3 \<notin> conflict_stops"
    using decide_branch_statusless [OF g3] unread by auto
  ultimately show thesis
    using stopped decided [OF _ g3 facts] by blast
qed

lemmas gather_branch_cases = gather_branch_walk [where live = True, simplified if_True]

lemma gather_branch_plain:
  assumes "adm_approved (op_admission op)" and "af_config (op_facts op) = ac_merge ac"
    and "\<not> is_merge_conflict (op_pr op)"
    and "\<not> conflict_cap_stop (af_persisted (op_facts op)) (af_live_head (op_facts op))"
    and "cfg_update_branch_strategy (ac_merge ac) = ''front_of_train'' \<Longrightarrow> th = Some pr"
    and "is_base_current (ac_default_branch ac) (ps_compare ps) (op_pr op) = Some True"
  obtains f g where "gather_branch True ac ps pr th op st = Inr (f, g)" "bg_stop g = None"
    "\<not> bg_request_sync g" "\<not> bg_sync_failed g"
proof -
  let ?s = "cfg_update_branch_strategy (ac_merge ac)"
  define f1 where "f1 = (branch_start pr th op)\<lparr> bf_merge_conflict := is_merge_conflict (op_pr op),
      bf_issue_status := (if is_merge_conflict (op_pr op) \<and> True
        then (case op_issue op of None \<Rightarrow> None | Some n \<Rightarrow> ie_status (issue_of st n)) else None) \<rparr>"
  define f3 where "f3 = (if ?s \<noteq> ''off'' then base_reads True ac ps (op_pr op) f1 else f1)"
  have f1: "bf_config f1 = ac_merge ac" "bf_pr f1 = pr" "bf_train_head_param f1 = th"
      "bf_merge_conflict f1 = False" "bf_conflict_cap_stop f1 = False"
    using assms(2-4) by (simp_all add: f1_def branch_start_def Let_def)
  have p1: "branch_precheck f1 = (None, False, False)"
    using assms(5) by (simp add: branch_precheck_def f1 Let_def)
  then have p3: "branch_precheck f3 = (None, False, False)"
    by (simp add: f3_def base_reads_precheck)
  have a: "bf_admission f3 = op_admission op" "bf_config f3 = ac_merge ac"
    using f1(1) by (simp_all add: f3_def f1_def branch_start_def Let_def)
  have "\<exists>g. decide_branch f3 None = Inr g \<and> bg_stop g = None \<and> \<not> bg_request_sync g \<and> \<not> bg_sync_failed g"
  proof (cases "?s = ''off''")
    case True
    then show ?thesis
      using assms(1) a p3
      by (simp add: decide_branch_def decide_branch_gated_def branch_gate_of_def Let_def)
  next
    case False
    let ?g = "is_base_currency_gated (ac_require_current_base ac) (ps_protection ps)"
    have b: "bf_base_currency_gated f3 = Some ?g"
        "?g \<Longrightarrow> bf_base_current_read f3 \<and> bf_base_current f3 = Some True"
        "?g \<Longrightarrow> ?s \<in> set sync_strategies \<Longrightarrow>
           \<not> is_already_in_mergequeue (bf_persisted f3) (bf_admission f3) \<Longrightarrow>
           bf_should_update_branch f3 = Some False"
      using False assms(6) by (auto simp: f3_def base_reads_def should_update_pr_branch_def Let_def)
    show ?thesis
      using assms(1) a p3 False b
      by (cases ?g) (auto simp: decide_branch_def decide_branch_gated_def branch_gate_of_def Let_def)
  qed
  then obtain g where g: "decide_branch f3 None = Inr g" "bg_stop g = None" "\<not> bg_request_sync g"
      "\<not> bg_sync_failed g"
    by blast
  have "\<not> (?s = ''front_of_train'' \<and> th = None)"
    using assms(5) by auto
  with p1 assms(1) g(1) have "gather_branch True ac ps pr th op st = Inr (f3, g)"
    unfolding gather_branch_def Let_def f1_def [symmetric] f3_def [symmetric] 
    by (auto simp: f1_def f3_def)
  with g show thesis
    using that by blast
qed

text \<open>The merge decision of a readiness that can merge, with nothing holding it and no queue label.\<close>

lemma decide_merge_green:
  assumes "can_merge (rd_gate rd)" and "hf_should_merge h" and "\<not> hf_pr_escalated h" "\<not> hf_issue_escalated h"
    and "\<not> rd_human_merge_hold rd" "\<not> rd_human_merge_unavailable rd"
    and "\<not> truthy (cfg_mergequeue_label (hf_config h))"
    and "cfg_honor_human_block (hf_config h) \<Longrightarrow> hf_human_block h = Some False \<and> \<not> hf_human_block_unavailable h"
  obtains plan where "decide_merge rd h = Inr plan" "mp_action_merge plan" "\<not> mp_action_hand_off plan"
    "\<not> mp_action_human_merge plan" "\<not> mp_conflict_rework plan" "\<not> mp_check_failure_rework plan"
    "\<not> mp_requeue_rework plan" "mp_readiness plan = rd"
proof -
  have e: "merge_entry rd h = (False, True)"
    using assms(1-6) by (simp add: merge_entry_def Let_def)
  have n: "\<not> merge_hold_read_needed rd h True"
    using assms(7) by (simp add: merge_hold_read_needed_def)
  obtain hb where hb: "human_block_gate True h = Inr hb" "\<not> held hb"
    using assms(8) by (cases "cfg_honor_human_block (hf_config h)")
      (auto simp: human_block_gate_def human_block_read_needed_def held_def)
  have re: "mergequeue_re_add_pending rd h = Inr False"
    using n by (simp add: mergequeue_re_add_pending_def)
  obtain rg where rg: "requeue_gate rd h False = Inr rg" "\<not> rg_capped rg" "\<not> rg_rework rg"
    using assms(7) by (simp add: requeue_gate_def Let_def)
  have deb: "debounced h True = Inr False"
    by (simp add: debounced_def Let_def)
  let ?p = "merge_plan_of rd h hb False rg False"
  have x: "exclusive_routes ?p = Inr ?p"
    using assms(1) by (simp add: exclusive_routes_def conflict_route_def check_failure_route_def)
  have "decide_merge rd h = Inr ?p"
    using n hb(1) re rg(1) deb x assms(1) by (simp add: decide_merge_def e)
  then show thesis
    using assms(1,5,7) hb(2) rg e
    by (intro that [of ?p]) (simp_all add: conflict_route_def check_failure_route_def)
qed

lemma green_plan_applied:
  assumes "mp_action_merge plan" "\<not> mp_action_hand_off plan" "\<not> mp_action_human_merge plan"
    "\<not> mp_conflict_rework plan" "\<not> mp_check_failure_rework plan" "\<not> mp_requeue_rework plan"
    and "ps_merge_output ps = Some out"
  obtains r1 err st1 fx where
    "apply_merge_plan ac ps view pr issue plan r st = (Inr (r1, err), st1, fx)" "E_merge pr \<in> set fx"
    "er_merge_output r1 = Some out" "pe_failed_attempts (pr_of st1 pr) = Coerces 0"
    "pe_status (pr_of st1 pr) = Some ''merged''"
  using assms
  by (simp add: apply_merge_plan_def apply_action_def apply_rework_def route_requeue_def
      route_conflict_def route_check_failure_def self_merge_def lane_simps Let_def)

lemma settled_status:
  "pe_status (pr_of st pr) = Some ''merged'' \<Longrightarrow>
   settle_accounting cfg ps view pr issue plan r st = Inr (acc, st') \<Longrightarrow>
   acc_pr_status acc \<in> {None, Some ''merged''} \<Longrightarrow>
   pe_status (pr_of st' pr) = Some ''merged''"
proof -
  have f: "pr_of (foldl (\<lambda>s e. record_event (event_name e) (Some pr) issue s) s es) pr = pr_of s pr" for s es
    by (induction es arbitrary: s) (simp_all add: lane_simps)
  show "pe_status (pr_of st pr) = Some ''merged'' \<Longrightarrow>
   settle_accounting cfg ps view pr issue plan r st = Inr (acc, st') \<Longrightarrow>
   acc_pr_status acc \<in> {None, Some ''merged''} \<Longrightarrow>
   pe_status (pr_of st' pr) = Some ''merged''"
    by (auto simp: settle_accounting_def settled_entry_def bindE_Inr_iff Let_def f lane_simps
        split: option.splits if_splits)
qed

text \<open>The counter's part of the accounting.\<close>

definition counts_failure :: "merge_plan \<Rightarrow> effect_results \<Rightarrow> merge_config \<Rightarrow> bool" where
  "counts_failure plan r cfg \<longleftrightarrow>
     (let rd = mp_readiness plan; cm = can_merge (rd_gate rd)
      in (gi_approved (rd_gate rd) \<and> \<not> cm \<and> \<not> rd_pending_only rd) \<or> handoff_failed_of plan r cfg)"

definition attempts_of :: "merge_plan \<Rightarrow> effect_results \<Rightarrow> accounting_facts \<Rightarrow> decide_error + int \<times> bool" where
  "attempts_of plan r f =
     count_attempts (acf_deadline_spent f) (counts_failure plan r (acf_config f))
       (cfg_failed_attempt_alarm (acf_config f)) (pp_failed_attempts (acf_locked f))
       (can_merge (rd_gate (mp_readiness plan)))"

lemma accounting_error: "decide_accounting plan r f = Inl e \<longleftrightarrow> attempts_of plan r f = Inl e"
  unfolding decide_accounting_def attempts_of_def counts_failure_def Let_def bindE_Inl_iff
  by (auto split: prod.splits)

lemma accounting_fields:
  assumes "decide_accounting plan r f = Inr acc"
  shows "attempts_of plan r f = Inr (acc_failed_attempts acc, acc_alarm acc)"
    and "acc_merged acc = truthy (er_merge_output r)"
    and "acc_pr_status acc = (if truthy (er_merge_output r) then Some ''merged'' else None)"
  using assms
  unfolding decide_accounting_def attempts_of_def counts_failure_def Let_def bindE_Inr_iff
  by (auto split: prod.splits)

lemma accounting_total:
  "pp_failed_attempts (acf_locked f) = Coerces n \<Longrightarrow> \<exists>acc. decide_accounting plan r f = Inr acc"
  by (intro not_Inl_ex allI) (auto simp: accounting_error attempts_of_def count_attempts_def Let_def split: if_splits)

lemma green_readiness:
  assumes "ready (rf_checks f)" and "adm_approved (bg_admission (rf_branch f))"
    and "\<not> bg_sync_failed (rf_branch f)" and "rf_revert f = Clean"
  shows "fst (decide_readiness_lazily p f s) = decide_readiness p f"
    and "\<not> rd_stall (decide_readiness p f)" and "rd_kind (decide_readiness p f) = Proceed"
    and "can_merge (rd_gate (decide_readiness p f))"
proof -
  have s: "\<not> stall_of p f x" for x
    using assms(1) by (simp add: stall_of_def Let_def)
  have i: "\<not> infra_eligible_of f x" for x
    using assms(1) by (simp add: infra_eligible_of_def ready_def Let_def)
  show st: "\<not> rd_stall (decide_readiness p f)" and "rd_kind (decide_readiness p f) = Proceed"
    by (simp_all add: decide_readiness_def Let_def s i)
  then show "fst (decide_readiness_lazily p f s) = decide_readiness p f"
    by (simp add: decide_readiness_lazily_def Let_def)
  show "can_merge (rd_gate (decide_readiness p f))"
    using assms by (simp add: readiness_can_merge)
qed

lemma gather_holds_entry:
  "merge_entry rd (gather_holds ac ps view pr issue sm rd st) =
     merge_entry rd (holds_from_snapshot st (ac_merge ac) pr issue sm (pv_head view))"
  by (simp add: gather_holds_def with_human_block_def Let_def entry_needs)

lemma gather_holds_block:
  assumes "snd (merge_entry rd (gather_holds ac ps view pr issue sm rd st))"
    and "cfg_honor_human_block (ac_merge ac)"
  shows "hf_human_block (gather_holds ac ps view pr issue sm rd st) =
      Some (hb_blocked (gather_human_block (ac_verdict_patterns ac) (ps_comments ps) view))"
    and "hf_human_block_unavailable (gather_holds ac ps view pr issue sm rd st) =
      hb_unavailable (gather_human_block (ac_verdict_patterns ac) (ps_comments ps) view)"
proof -
  let ?h0 = "holds_from_snapshot st (ac_merge ac) pr issue sm (pv_head view)"
  have "snd (merge_entry rd ?h0)" "hf_config ?h0 = ac_merge ac"
    using assms(1) unfolding gather_holds_entry by (simp_all add: holds_from_snapshot_def)
  then show "hf_human_block (gather_holds ac ps view pr issue sm rd st) =
      Some (hb_blocked (gather_human_block (ac_verdict_patterns ac) (ps_comments ps) view))"
    and "hf_human_block_unavailable (gather_holds ac ps view pr issue sm rd st) =
      hb_unavailable (gather_human_block (ac_verdict_patterns ac) (ps_comments ps) view)"
    using assms(2) by (simp_all add: gather_holds_def with_human_block_def human_block_read_needed_def entry_needs Let_def)
qed

lemma green_act:
  assumes "can_merge (rd_gate rd)" "\<not> rd_human_merge_hold rd" "\<not> rd_human_merge_unavailable rd"
    and "resolve_merge (ac_merge ac) merge" "\<not> truthy (cfg_mergequeue_label (ac_merge ac))"
    and "escalation_from st pr (op_issue op) = (False, False)"
    and "cfg_honor_human_block (ac_merge ac) \<Longrightarrow>
      \<not> hb_blocked (gather_human_block (ac_verdict_patterns ac) (ps_comments ps) (op_pr op)) \<and>
      \<not> hb_unavailable (gather_human_block (ac_verdict_patterns ac) (ps_comments ps) (op_pr op))"
    and "ps_merge_output ps = Some out"
  obtains plan r1 acc err st' fx where
    "decide_and_act ac ps pr merge op rd r st = (Pass_final plan r1 acc err, st', fx)"
    "E_merge pr \<in> set fx" "pe_status (pr_of st' pr) = Some ''merged''"
proof -
  let ?h = "gather_holds ac ps (op_pr op) pr (op_issue op) (resolve_merge (ac_merge ac) merge) rd st"
  have e: "\<not> hf_pr_escalated ?h" "\<not> hf_issue_escalated ?h"
    using assms(6) by simp_all
  have c: "hf_should_merge ?h" "\<not> truthy (cfg_mergequeue_label (hf_config ?h))"
    using assms(4,5) by simp_all
  have hb: "cfg_honor_human_block (hf_config ?h) \<Longrightarrow>
      hf_human_block ?h = Some False \<and> \<not> hf_human_block_unavailable ?h"
  proof -
    assume "cfg_honor_human_block (hf_config ?h)"
    moreover have "snd (merge_entry rd ?h)"
      using assms(1-4) e by (simp add: merge_entry_def Let_def)
    ultimately show ?thesis
      using assms(7) gather_holds_block by simp
  qed
  obtain plan where p: "decide_merge rd ?h = Inr plan" "mp_action_merge plan" "\<not> mp_action_hand_off plan"
    "\<not> mp_action_human_merge plan" "\<not> mp_conflict_rework plan" "\<not> mp_check_failure_rework plan"
    "\<not> mp_requeue_rework plan"
    by (rule decide_merge_green [OF assms(1) c(1) e assms(2,3) c(2)]) (erule hb, rule that)
  obtain r1 err st1 fx where a: "apply_merge_plan ac ps (op_pr op) pr (op_issue op) plan
      (r\<lparr> er_issue_status_after := hf_issue_status ?h \<rparr>) st = (Inr (r1, err), st1, fx)"
      "E_merge pr \<in> set fx" "pe_failed_attempts (pr_of st1 pr) = Coerces 0"
      "pe_status (pr_of st1 pr) = Some ''merged''"
    by (rule green_plan_applied [OF p(2-7) assms(8)]) (rule that)
  let ?f = "accounting_facts_of (ac_merge ac) ps (op_pr op) pr (op_issue op) r1 st1"
  have "pp_failed_attempts (acf_locked ?f) = Coerces 0"
    using a(3) by (simp add: accounting_facts_of_def persisted_from_def Let_def)
  then obtain acc where acc: "decide_accounting plan r1 ?f = Inr acc"
    using accounting_total by blast
  then obtain st2 where st2: "settle_accounting (ac_merge ac) ps (op_pr op) pr (op_issue op) plan r1 st1 = Inr (acc, st2)"
    by (auto simp: settle_accounting_def)
  have "pe_status (pr_of st2 pr) = Some ''merged''"
    using settled_status [OF a(4) st2] accounting_fields(3) [OF acc] by auto
  with p(1) a(1,2) st2 show thesis
    by (intro that) (auto simp: decide_and_act_def Let_def)
qed

lemma green_pass_runs:
  assumes "green_pass ac ps pr merge th st view" and "\<not> truthy (cfg_mergequeue_label (ac_merge ac))"
    and "ps_merge_output ps = Some out"
  obtains plan r1 acc err st' fx where
    "run_merge_ready ac ps pr merge th st = (Pass_final plan r1 acc err, st', fx)"
    "E_merge pr \<in> set fx" "pe_status (pr_of st' pr) = Some ''merged''"
proof -
  note gp = assms(1) [unfolded green_pass_def]
  obtain op where op: "gather_opening (ac_merge ac) ps pr (pr_of st pr) (Some (escalation_from st pr)) False view = Inr op"
    using gather_opening_total by blast
  note o = opening_facts [OF op] and g = green_opening [OF assms(1) op]
  obtain f b where b: "gather_branch True ac ps pr th op st = Inr (f, b)" "bg_stop b = None"
    "\<not> bg_request_sync b" "\<not> bg_sync_failed b"
    using gather_branch_plain [of op ac th pr ps st] g(2) o(1,4,6,7) gp by auto
  have ba: "bg_admission b = op_admission op"
    using gather_branch_admission [OF b(1,2)] by blast
  have rv: "gather_revert ps op b = (Clean, ps_revert_reason ps)"
    using g(2) b(4) gp by (simp add: gather_revert_def Let_def)
  define facts where "facts = readiness_facts_of ps pr op b (gather_revert ps op b) None None (False, False)"
  have f: "rf_checks facts = summarize_checks (ps_checks ps) (cfg_required_checks (ac_merge ac))"
      "rf_branch facts = b" "rf_revert facts = Clean"
    by (simp_all add: facts_def readiness_facts_of_def o(4) rv Let_def)
  note r = green_readiness [of facts, unfolded f ba, OF _ g(2) b(4) refl]
  let ?rd = "decide_readiness (re_fromiso (ps_env ps)) facts"
  let ?st1 = "record_containment pr (rd_containment_warnings ?rd) st"
  have rc: "pr_of ?st1 = pr_of st" "issue_of ?st1 = issue_of st"
    by (simp_all add: record_containment_def lane_simps fun_eq_iff)
  have ie: "snd (escalation_from st pr (op_issue op)) = False" "fst (escalation_from st pr (op_issue op)) = False"
    using gp o(2) by (auto simp: escalation_from_def escalation_flags_def split: option.split)
  have nd: "\<not> deescalates c (op_issue op) x y (fst (read_issue_status (op_issue op) ?st1)) z" for c x y z
    using gp o(2) rc(2) by (auto simp: deescalates_def read_issue_status_def split: option.splits)
  define read where "read = (if deescalation_read_needed (ac_merge ac) (op_issue op) False False
      then read_issue_status (op_issue op) ?st1 else (None, None))"
  define rd1 where "rd1 = with_human_merge (?rd\<lparr>rd_kind := Proceed\<rparr>) (ac_merge ac) (False, False) (fst read) (snd read)"
  have hm: "human_merge_hold_check (cfg_human_merge_labels (ac_merge ac)) (op_issue op) (ps_human_issue ps) = (False, False)"
    using gp o(2) by simp
  have "\<not> rd_deescalate rd1"
    using nd by (auto simp: rd1_def read_def with_human_merge_def deescalates_def f facts_def readiness_facts_of_def Let_def)
  then have m: "merge_unless_held ac ps pr merge op ?rd no_results ?st1 =
      decide_and_act ac ps pr merge op rd1 no_results ?st1"
    unfolding merge_unless_held_def Let_def hm fst_conv snd_conv read_def [symmetric] rd1_def [symmetric]
    by (simp split: option.split)
  have rd1: "can_merge (rd_gate rd1)" "\<not> rd_human_merge_hold rd1" "\<not> rd_human_merge_unavailable rd1"
    using r(4) gp by (simp_all add: rd1_def)
  have es: "escalation_from ?st1 pr (op_issue op) = (False, False)"
    using ie by (simp add: escalation_from_def rc prod_eq_iff)
  obtain plan r1 acc err st' fx where a:
    "decide_and_act ac ps pr merge op rd1 no_results ?st1 = (Pass_final plan r1 acc err, st', fx)"
    "E_merge pr \<in> set fx" "pe_status (pr_of st' pr) = Some ''merged''"
  proof (rule green_act [OF rd1 _ assms(2) es _ assms(3)])
    show "resolve_merge (ac_merge ac) merge"
      using gp by blast
    show "\<not> hb_blocked (gather_human_block (ac_verdict_patterns ac) (ps_comments ps) (op_pr op)) \<and>
        \<not> hb_unavailable (gather_human_block (ac_verdict_patterns ac) (ps_comments ps) (op_pr op))"
      if "cfg_honor_human_block (ac_merge ac)"
      using gp o(1) that by blast
  qed (rule that)
  have "readiness_and_merge ac ps pr merge op b st = (Pass_final plan r1 acc err, st', fx)"
    using m a(1) r(1-3) gp
    by (simp add: readiness_and_merge_def Let_def rv decide_revert_def route_cross_pr_revert_def
        facts_def [symmetric, unfolded rv] stall_or_merge_def)
  then have "from_branch_gate ac ps pr merge th op st = (Pass_final plan r1 acc err, st', fx)"
    using b by (simp add: from_branch_gate_def branch_result_def sync_branch_def)
  then have "run_merge_ready ac ps pr merge th st = (Pass_final plan r1 acc err, st', fx)"
    using gp op g(1,3) by (simp add: run_merge_ready_def Let_def)
  with a(2,3) show thesis
    using that by blast
qed

section \<open>The reads of a pass are enough\<close>

lemma carry_total: "carry_forward ps pr op st \<noteq> Inl e"
proof -
  have "decide_admission f True False \<noteq> Inl x" for f x
    by (auto simp: decide_admission_def Let_def split: if_splits option.splits bool.splits)
  then show ?thesis
    by (auto simp: carry_forward_def bindE_Inl_iff Let_def split: prod.splits if_splits)
qed

lemma gather_branch_total:
  assumes "af_config (op_facts op) = ac_merge ac"
  shows "gather_branch True ac ps pr th op st \<noteq> Inl e"
proof (cases "adm_approved (op_admission op)")
  case True
  then show ?thesis
    using gather_branch_cases [OF _ assms] by (metis Inr_not_Inl)
next
  case False
  then show ?thesis
    by (simp add: gather_branch_def decide_branch_def branch_start_def Let_def)
qed

lemma gather_branch_reads:
  assumes "gather_branch True ac ps pr th op st = Inr (f, g)"
  shows "bf_base_currency_gated f = Some True \<Longrightarrow> bf_base_current_read f"
proof -
  have b: "bf_base_currency_gated (branch_start pr t op) = None" for t
    by (simp add: branch_start_def Let_def)
  have r: "bf_base_currency_gated (base_reads True ac ps v x) = Some True \<Longrightarrow>
      bf_base_current_read (base_reads True ac ps v x)" for v x
    by (auto simp: base_reads_def Let_def)
  show "bf_base_currency_gated f = Some True \<Longrightarrow> bf_base_current_read f"
    using assms unfolding gather_branch_def Let_def bindE_Inr_iff
    by (auto simp: b bindE_Inr_iff split: if_splits option.splits prod.splits intro: r)
qed

lemma sync_total:
  assumes "gather_branch True ac ps pr th op st = Inr (f, g)" and "adm_approved (op_admission op)"
    and "bg_stop g = None"
    and "sync_branch ac ps pr f g op st = (Some (Inl e), st1, fx)"
  shows False
proof -
  from assms(4) have q: "bg_request_sync g"
    and "\<exists>v x. regather_after_sync ac ps f (op_pr op) v x = Inl e"
    by (auto simp: sync_branch_def bindE_Inl_iff split: if_splits prod.splits option.splits)
  then obtain v x f' where d: "decide_branch f' (Some x) = Inl e"
    and f': "bf_base_currency_gated f' = bf_base_currency_gated f"
      "bf_base_current_read f \<Longrightarrow> bf_base_current_read f'"
    by (auto simp: regather_after_sync_def split: if_splits)
  have "decide_branch f None = Inr g"
    using gather_branch_on(1) [OF assms(1,3,2)] .
  with q assms(2) have "bf_base_currency_gated f = Some True"
    by (auto simp: decide_branch_def decide_branch_gated_def Let_def dest: precheck_stop
        split: if_splits option.splits prod.splits bool.splits)
  with gather_branch_reads [OF assms(1)] f' decide_branch_error [OF d] show False
    by auto
qed

lemma holds_enough:
  assumes "decide_merge rd (gather_holds ac ps view pr issue sm rd st) = Inl e"
  shows "e = Counter_error"
proof -
  let ?h = "gather_holds ac ps view pr issue sm rd st"
  have m: "\<not> (merge_hold_read_needed rd ?h True \<and> hf_merge_hold ?h = None)"
    by (auto simp: gather_holds_def with_human_block_def Let_def merge_hold_read_needed_def entry_needs)
  have b: "\<not> (human_block_read_needed (snd (merge_entry rd ?h)) ?h \<and> hf_human_block ?h = None)"
    using gather_holds_block(1) [of rd ac ps view pr issue sm st]
    by (auto simp: human_block_read_needed_def)
  from decide_merge_error [OF assms] m b show ?thesis
    by blast
qed

lemma settle_error: "settle_accounting cfg ps view pr issue plan r st = Inl e \<Longrightarrow> e = Counter_error"
  by (auto simp: settle_accounting_def bindE_Inl_iff accounting_error attempts_of_def count_attempts_def
      Let_def split: if_splits raw_counter.splits)

definition expected_error :: "pass_error \<Rightarrow> bool" where
  "expected_error e \<longleftrightarrow> e \<in> {Merge_refused, Bad_counter, Raised Counter_error}"

lemma act_error:
  "decide_and_act ac ps pr merge op rd r st = (Pass_raised e, st', fx) \<Longrightarrow> expected_error e"
  by (auto simp: decide_and_act_def apply_merge_plan_def expected_error_def Let_def
      dest: holds_enough settle_error split: sum.splits prod.splits option.splits)

lemma readiness_error:
  "readiness_and_merge ac ps pr merge op g st = (Pass_raised e, st', fx) \<Longrightarrow> expected_error e"
proof -
  assume a: "readiness_and_merge ac ps pr merge op g st = (Pass_raised e, st', fx)"
  obtain rd r st1 fx2 where "stall_or_merge ac ps pr merge op rd r st1 = (Pass_raised e, st', fx2)"
    using a by (rule readiness_acts) blast
  then obtain s where s: "merge_unless_held ac ps pr merge op rd r s = (Pass_raised e, st', fx2)"
    by (auto simp: stall_or_merge_def split: if_splits prod.splits)
  from s show ?thesis
    by (rule held_pass_acts) (rule act_error)
qed

lemma branch_result_error:
  "branch_result cfg pr issue g st = Some (Pass_raised e, st') \<Longrightarrow> expected_error e"
  by (auto simp: branch_result_def expected_error_def split: option.splits branch_stop.splits)

lemma branch_result_none: "branch_result c n i g s = None \<Longrightarrow> bg_stop g = None"
  by (auto simp: branch_result_def split: option.splits branch_stop.splits)

lemma unapproved_no_sync:
  assumes "gather_branch True ac ps pr th op st = Inr (f, g)" and "\<not> adm_approved (op_admission op)"
  shows "\<not> bg_request_sync g"
  using assms by (auto simp: gather_branch_def decide_branch_def branch_start_def bindE_Inr_iff Let_def)

lemma branch_stage_error:
  assumes "from_branch_gate ac ps pr merge th op st = (Pass_raised e, st', fx)"
    and "af_config (op_facts op) = ac_merge ac"
  shows "expected_error e"
proof -
  obtain f g where g: "gather_branch True ac ps pr th op st = Inr (f, g)"
    using gather_branch_total [OF assms(2)] not_Inl_ex [of "gather_branch True ac ps pr th op st"] by fastforce
  show ?thesis
  proof (cases "branch_result (ac_merge ac) pr (op_issue op) g st")
    case (Some x)
    with assms(1) g show ?thesis
      by (cases x) (auto simp: from_branch_gate_def intro: branch_result_error)
  next
    case None
    obtain x s1 fx1 where s: "sync_branch ac ps pr f g op st = (x, s1, fx1)"
      by (cases "sync_branch ac ps pr f g op st") auto
    have "x \<noteq> Some (Inl y)" for y
    proof (cases "adm_approved (op_admission op)")
      case True
      with sync_total [OF g True branch_result_none [OF None]] s show ?thesis
        by auto
    next
      case False
      with unapproved_no_sync [OF g] s show ?thesis
        by (auto simp: sync_branch_def)
    qed
    with assms(1) g None s obtain g1 op1 where x: "x = Some (Inr (g1, op1))"
      by (auto simp: from_branch_gate_def split: option.splits sum.splits)
    show ?thesis
    proof (cases "branch_result (ac_merge ac) pr (op_issue op1) g1 s1")
      case (Some y)
      with assms(1) g None s x show ?thesis
        by (cases y) (auto simp: from_branch_gate_def intro: branch_result_error)
    next
      case n: None
      from assms(1) g None s x n obtain s2 fx2 where
          "readiness_and_merge ac ps pr merge op1 g1 s1 = (Pass_raised e, s2, fx2)"
        by (auto simp: from_branch_gate_def split: prod.splits)
      then show ?thesis
        by (rule readiness_error)
    qed
  qed
qed

text \<open>The only raises of a pass: a refused merge and a malformed counter.\<close>

lemma run_error:
  assumes "run_merge_ready ac ps pr merge th st = (Pass_raised e, st', fx)"
  shows "expected_error e"
proof -
  from assms obtain view where v: "ps_pr_view ps = Some view" "pe_status (pr_of st pr) \<noteq> Some ''merged''"
    by (auto simp: run_merge_ready_def Let_def split: if_splits option.splits)
  obtain op where o: "gather_opening (ac_merge ac) ps pr (pr_of st pr) (Some (escalation_from st pr)) False view = Inr op"
    using gather_opening_total by blast
  let ?c = "if adm_carry_forward_needed (op_admission op) then carry_forward ps pr op st else Inr (Some op, st)"
  have "?c \<noteq> Inl x" for x
    using carry_total by simp
  then obtain op1 st1 where c: "?c = Inr (op1, st1)"
    using not_Inl_ex [of ?c] by fastforce
  with assms v o obtain op2 where c2: "op1 = Some op2"
    by (auto simp: run_merge_ready_def Let_def split: option.splits)
  have "op_facts op2 = op_facts op"
    using c c2 by (auto simp: carry_forward_def Let_def bindE_Inr_iff split: if_splits prod.splits)
  with opening_facts(4) [OF o] have cfg: "af_config (op_facts op2) = ac_merge ac"
    by simp
  from assms v o c c2 have "from_branch_gate ac ps pr merge th op2 st1 = (Pass_raised e, st', fx)"
    by (auto simp: run_merge_ready_def Let_def split: if_splits prod.splits)
  with cfg show ?thesis
    using branch_stage_error by blast
qed

end
