(* ===== verification/Merge_Props.thy ===== *)
theory Merge_Props
  imports Merge_Pass
begin

text \<open>
  The properties of the merge path, with a sample pass their witnesses run on.
\<close>

section \<open>A sample pass\<close>

definition sample_config :: merge_config where
  "sample_config =
     \<lparr> cfg_auto_merge_enabled = True, cfg_mergequeue_label = None,
       cfg_update_branch_strategy = ''broadcast'', cfg_require_approved_review = True,
       cfg_failed_attempt_alarm = 3, cfg_max_conflict_rework = 2, cfg_human_merge_labels = [''human-merge''],
       cfg_review_dispatch_enabled = True, cfg_required_checks = [''ci''],
       cfg_readiness_no_ci_minutes = 30, cfg_merge_strategy = ''squash'',
       cfg_skip_line_label = None, cfg_priority_prefix = ''priority:'', cfg_requeue_cap = 3,
       cfg_honor_human_block = True \<rparr>"

definition sample_app :: "merge_config \<Rightarrow> app_config" where
  "sample_app cfg =
     \<lparr> ac_merge = cfg, ac_merge_hold_label = ''agent:merge-hold'', ac_delete_branch = True,
       ac_cancel_superseded = False, ac_require_current_base = True, ac_default_branch = ''main'',
       ac_verdict_patterns = Some (\<lambda>body. body = ''/request-changes'', \<lambda>body. body = ''/approve'') \<rparr>"

definition sample_env :: route_env where
  "sample_env =
     \<lparr> re_fromiso = iso_extended, re_now = ''2026-01-01T00:00:00Z'', re_clock = 0,
       re_stall_minutes = 60, re_rescue_enabled = False, re_live_worker = None,
       re_edge_error = (\<lambda>_. None) \<rparr>"

definition sample_view :: "string \<Rightarrow> string list \<Rightarrow> pr_view" where
  "sample_view head labels =
     \<lparr> pv_head = Some head, pv_labels = labels, pv_mergeable = Some ''MERGEABLE'',
       pv_merge_state = Some ''CLEAN'', pv_draft = False, pv_updated_at = None,
       pv_review_decision = None, pv_base_ref = Some ''main'', pv_head_ref = ''agent/7'' \<rparr>"

definition green_run :: check_run where
  "green_run = \<lparr> ck_name = Some ''ci'', ck_state = Some ''SUCCESS'', ck_bucket = None, ck_run_id = Some 1, ck_link = None \<rparr>"

text \<open>A pass on a pull request whose approval names its head \<^verbatim>\<open>abc\<close> and whose one check is green.\<close>

definition sample_reads :: pass_reads where
  "sample_reads =
     \<lparr> ps_env = sample_env, ps_pr_view = Some (sample_view ''abc'' []), ps_linked_issue = Some 7,
       ps_decision = (Some ''approved'', Some ''abc''), ps_carry_check = False, ps_carry_tier = Patch_id,
       ps_carry_disk = (Some ''approved'', Some ''abc''), ps_carry_view = None,
       ps_carry_decision = (Some ''approved'', Some ''abc''), ps_train = Train None,
       ps_protection = Protection None, ps_compare = (\<lambda>_ _. Some (Some ''base'', Some ''base'')),
       ps_branch_updated = False, ps_sync_view = None, ps_commit = (\<lambda>_. None),
       ps_sync_disk = (None, None), ps_synced_view = None, ps_synced_decision = (None, None),
       ps_revert_status = Some Clean, ps_revert_blocks = False, ps_revert_reason = None,
       ps_checks = Some [green_run], ps_containment = [], ps_clock = Aware 0,
       ps_infra_drive = (\<lambda>st. (False, st)), ps_human_issue = Issue_labels [],
       ps_cached_issues = None, ps_hold_issue = Issue_labels [], ps_comments = Some [],
       ps_skip_line_issue = Issue_labels [], ps_label_added = (\<lambda>_. True),
       ps_merge_output = Some ''merged #12'', ps_branch_deleted = True, ps_cancel_results = None,
       ps_deadline_spent = False \<rparr>"

definition empty_lane :: lane_state where
  "empty_lane = \<lparr> ls_prs = (\<lambda>_. None), ls_issues = (\<lambda>_. None), ls_events = [] \<rparr>"

lemma sample_checks:
  "summarize_checks (Some [green_run]) [''ci''] =
     \<lparr> cs_required = [''ci''], cs_passed = [''ci''], cs_pending = [], cs_failed = [], cs_missing = [],
       cs_infra_failed = [], cs_infra_blocked = [], cs_unavailable = [] \<rparr>"
  by code_simp

lemmas sample_defs = sample_config_def sample_app_def sample_env_def sample_view_def
  sample_reads_def empty_lane_def pr_of_def issue_of_def get_or_def fresh_pr_def fresh_issue_def

lemma sample_conflict: "\<not> is_merge_conflict (sample_view head labels)"
proof -
  have "upper ''MERGEABLE'' \<noteq> ''CONFLICTING'' \<and> upper ''CLEAN'' \<noteq> ''DIRTY''"
    by code_simp
  then show ?thesis
    by (simp add: is_merge_conflict_def sample_view_def)
qed

definition labelled_reads :: "string list \<Rightarrow> pass_reads" where
  "labelled_reads ls = sample_reads\<lparr> ps_pr_view := Some (sample_view ''abc'' ls) \<rparr>"

lemma sample_green:
  "green_pass (sample_app sample_config) (labelled_reads ls) 12 None None empty_lane (sample_view ''abc'' ls)"
  unfolding labelled_reads_def green_pass_def
  by (simp add: sample_conflict)
   (simp add: sample_defs sample_checks ready_def resolve_merge_def human_merge_hold_check_def
      is_base_current_def conflict_cap_stop_def persisted_from_def gather_human_block_def
      classify_human_block_def)

lemma sample_merges:
  obtains plan r1 acc err st' fx where
    "run_merge_ready (sample_app sample_config) (labelled_reads ls) 12 None None empty_lane =
       (Pass_final plan r1 acc err, st', fx)"
    "E_merge 12 \<in> set fx" "pe_status (pr_of st' 12) = Some ''merged''"
  by (rule green_pass_runs [OF sample_green [of ls], of "''merged #12''"])
    (simp_all add: sample_app_def sample_config_def labelled_reads_def sample_reads_def)

section \<open>What a merge needs\<close>


text \<open>
  C1. Where an approved review is required, a pass merges only the pull request it was asked about,
  and only under an approval of the head it read first: the verdict on disk approves that very head,
  or the head moved and the carry check found the content unchanged, with the approval still on
  disk, for the same reviewed head, when the stamp was written under the lock. Where the pass had
  GitHub update the branch before it merged, the head read after the update was checked to be the
  head before it or GitHub's own merge commit on top of it, and was stamped over a verdict that was
  still the one in hand. The merge call names no head, so a push after the last of these reads is
  not seen.
\<close>

theorem merge_needs_approval:
  assumes "run_merge_ready ac ps pr merge th st = (res, st', fx)" and "E_merge p \<in> set fx"
    and "cfg_require_approved_review (ac_merge ac)"
  shows "p = pr \<and> approval_covers ps \<and>
    (E_update_branch q \<in> set fx \<longrightarrow> q = pr \<and>
       (\<exists>before decision. Some before \<in> {ps_pr_view ps, ps_carry_view ps} \<and>
          decision \<in> {ps_decision ps, ps_carry_decision ps} \<and> sync_covers ps before decision))"
  using assms(1,2)
proof (rule merge_gate)
  fix view op op1 op2 st1 f g g1 s1 fx1
  assume p: "p = pr" and v: "ps_pr_view ps = Some view"
    and o: "gather_opening (ac_merge ac) ps pr (pr_of st pr) (Some (escalation_from st pr)) False view = Inr op"
    and c: "adm_carry_forward_needed (op_admission op) \<Longrightarrow> carry_forward ps pr op st = Inr (Some op1, st1)"
    "\<not> adm_carry_forward_needed (op_admission op) \<Longrightarrow> op1 = op \<and> st1 = st"
    and d: "decide_admission (op_facts op) (adm_carry_forward_needed (op_admission op)) False = Inr (op_admission op1)"
    and b: "gather_branch True ac ps pr th op1 st1 = Inr (f, g)" "bg_stop g = None"
    "sync_branch ac ps pr f g op1 st1 = (Some (Inr (g1, op2)), s1, fx1)" "bg_stop g1 = None"
    "\<not> bg_sync_failed g1"
    and a: "cfg_require_approved_review (ac_merge ac) \<Longrightarrow> adm_approved (op_admission op1)"
    "adm_approved (op_admission op1) \<Longrightarrow> adm_kind (op_admission op1) = Proceed \<and>
       fst (gather_revert ps op2 g1) = Clean"
    and u: "\<And>q. E_update_branch q \<in> set fx \<Longrightarrow> E_update_branch q \<in> set fx1"
  have "approval_covers ps"
    using opening_covers [OF v o c(1) d] a assms(3) by blast
  moreover have "q = pr \<and> sync_covers ps (op_pr op1) (op_decision op1)" if "E_update_branch q \<in> set fx"
    by (rule synced_covers [OF b u [OF that]])
  ultimately show ?thesis
    using p views_of_pass [OF v o c(1)] decision_of_pass [OF o c(1)] c(2) by blast
qed

theorem merge_needs_approval_witness:
  "\<exists>res st' fx. run_merge_ready (sample_app sample_config) (labelled_reads []) 12 None None empty_lane =
      (res, st', fx) \<and> E_merge 12 \<in> set fx \<and> 12 = (12 :: int) \<and> approval_covers (labelled_reads [])"
proof -
  obtain res st' fx where r: "run_merge_ready (sample_app sample_config) (labelled_reads []) 12 None None
      empty_lane = (res, st', fx)" "E_merge 12 \<in> set fx"
    using sample_merges by metis
  have "cfg_require_approved_review (ac_merge (sample_app sample_config))"
    by (simp add: sample_app_def sample_config_def)
  from merge_needs_approval [OF r this] r show ?thesis
    by blast
qed



text \<open>
  C3. Under a required review a pass merges only a branch GitHub does not report as conflicting in the
  view the branch stage opened with, the pass's first or the one read after the approval was carried;
  and where branches are kept current and the gate applies, the view it decides on (that one, or
  the one read after the branch was updated) has the head of a view of the pass whose base was
  compared and found current.
\<close>

theorem merge_needs_mergeable_branch:
  assumes "run_merge_ready ac ps pr merge th st = (res, st', fx)" and "E_merge p \<in> set fx"
    and "cfg_require_approved_review (ac_merge ac)"
  shows "\<exists>opened final s.
    Some opened \<in> {ps_pr_view ps, ps_carry_view ps} \<and> \<not> is_merge_conflict opened \<and>
    (final = opened \<or> ps_synced_view ps = Some final) \<and>
    decided_on ac ps pr merge final s (res, st', fx) \<and>
    (cfg_update_branch_strategy (ac_merge ac) \<noteq> ''off'' \<and>
     is_base_currency_gated (ac_require_current_base ac) (ps_protection ps) \<longrightarrow>
       (\<exists>compared. compared \<in> {opened, final} \<and> pv_head compared = pv_head final \<and>
          is_base_current (ac_default_branch ac) (ps_compare ps) compared = Some True))"
  using assms(1,2)
proof (rule merge_gate)
  fix view op op1 op2 st1 f g g1 s1 fx1 s2
  assume a: "ps_pr_view ps = Some view"
    "gather_opening (ac_merge ac) ps pr (pr_of st pr) (Some (escalation_from st pr)) False view = Inr op"
    "adm_carry_forward_needed (op_admission op) \<Longrightarrow> carry_forward ps pr op st = Inr (Some op1, st1)"
    "\<not> adm_carry_forward_needed (op_admission op) \<Longrightarrow> op1 = op \<and> st1 = st"
    and fo: "op_facts op1 = op_facts op"
    and b: "gather_branch True ac ps pr th op1 st1 = Inr (f, g)" "bg_stop g = None"
    "sync_branch ac ps pr f g op1 st1 = (Some (Inr (g1, op2)), s1, fx1)" "bg_stop g1 = None"
    and nf: "\<not> bg_sync_failed g1"
    and app: "cfg_require_approved_review (ac_merge ac) \<Longrightarrow> adm_approved (op_admission op1)"
    and d: "decided_on ac ps pr merge (op_pr op2) s2 (res, st', fx)"
  have "af_config (op_facts op1) = ac_merge ac"
    using opening_facts(4) [OF a(2)] fo by simp
  note bp = branch_passed [OF b(1,2) app [OF assms(3)] this b(3,4) nf]
  have "Some (op_pr op1) \<in> {ps_pr_view ps, ps_carry_view ps}"
    using views_of_pass [OF a(1-3)] a(4) by auto
  then show ?thesis
    using bp(1,3) synced_view [OF b(3)] d
    by (intro exI [of _ "op_pr op1"] exI [of _ "op_pr op2"] exI [of _ s2]) blast
qed

theorem merge_needs_mergeable_branch_witness:
  "\<exists>res st' fx opened. run_merge_ready (sample_app sample_config) (labelled_reads []) 12 None None empty_lane =
      (res, st', fx) \<and> E_merge 12 \<in> set fx \<and> opened = sample_view ''abc'' [] \<and> \<not> is_merge_conflict opened"
proof -
  obtain res st' fx where r: "run_merge_ready (sample_app sample_config) (labelled_reads []) 12 None None
      empty_lane = (res, st', fx)" "E_merge 12 \<in> set fx"
    using sample_merges by metis
  have "cfg_require_approved_review (ac_merge (sample_app sample_config))"
    by (simp add: sample_app_def sample_config_def)
  moreover have "{ps_pr_view (labelled_reads []), ps_carry_view (labelled_reads [])} =
      {Some (sample_view ''abc'' []), None}"
    by (simp add: labelled_reads_def sample_reads_def)
  ultimately show ?thesis
    using merge_needs_mergeable_branch [OF r] r by auto
qed



end
