(* ===== verification/Merge_Stage_Props.thy ===== *)
theory Merge_Stage_Props
  imports Merge_Props
begin

text \<open>
  Properties of the single stages of the merge path: the merge plan, the accounting, the queue lane,
  the human verdicts, the queue skip and the merge train, and the passes that must do nothing.
\<close>

section \<open>Sample facts\<close>

definition sample_readiness :: "bool \<Rightarrow> bool \<Rightarrow> readiness" where
  "sample_readiness ok reverted =
     \<lparr> rd_kind = Proceed,
       rd_gate = \<lparr> gi_summary_ready = ok, gi_approved = True, gi_require_approved_review = True,
                   gi_sync_failed = False \<rparr>,
       rd_branch = branch_gate_of Proceed ((admission_of Proceed)\<lparr> adm_approved := True, adm_reverted := reverted \<rparr>),
       rd_issue = Some 7, rd_summary = empty_summary [''ci''], rd_checks_unavailable = False,
       rd_pending_only = False, rd_revert_detected = False, rd_revert_undetermined = False,
       rd_revert_reason = None, rd_route_revert = False, rd_stall = False, rd_infra_eligible = False,
       rd_deescalate = False, rd_human_merge_hold = False, rd_human_merge_unavailable = False,
       rd_containment_warnings = [] \<rparr>"

definition queue_config :: merge_config where
  "queue_config = sample_config\<lparr> cfg_mergequeue_label := Some ''queue'' \<rparr>"

definition queue_holds :: "int \<Rightarrow> hold_facts" where
  "queue_holds requeues =
     (holds_from_snapshot
        (put_pr 12 (\<lambda>e. e\<lparr> pe_requeues := Coerces requeues, pe_requeues_head := Some ''abc'' \<rparr>) empty_lane)
        queue_config 12 (Some 7) True (Some ''abc''))
     \<lparr> hf_merge_hold := Some False, hf_human_block := Some False \<rparr>"

lemmas sample_fact_defs = sample_readiness_def queue_holds_def queue_config_def holds_from_snapshot_def
  escalation_from_def escalation_flags_def persisted_from_def

lemma empty_lane_entries: "pr_of empty_lane p = fresh_pr" "issue_of empty_lane i = fresh_issue"
  by (simp_all add: empty_lane_def pr_of_def issue_of_def get_or_def)

lemma queue_plan:
  obtains plan where "decide_merge (sample_readiness True True) (queue_holds 1) = Inr plan"
    "mp_action_hand_off plan" "mp_requeues plan = 2"
proof -
  let ?rd = "sample_readiness True True" and ?h = "queue_holds 1"
  have cfg: "hf_config ?h = queue_config" "hf_merge_hold ?h = Some False" "hf_human_block ?h = Some False"
      "hf_should_merge ?h" "\<not> hf_merge_hold_unavailable ?h" "\<not> hf_human_block_unavailable ?h"
      "hf_live_head ?h = Some ''abc''"
    by (simp_all add: sample_fact_defs)
  have esc: "\<not> hf_pr_escalated ?h" "\<not> hf_issue_escalated ?h"
    by (simp_all add: sample_fact_defs lane_simps empty_lane_entries fresh_pr_def fresh_issue_def)
  have cm: "can_merge (rd_gate ?rd)"
    by (simp add: sample_readiness_def can_merge_def)
  have rd: "\<not> rd_human_merge_hold ?rd" "\<not> rd_human_merge_unavailable ?rd" "rd_kind ?rd = Proceed"
    by (simp_all add: sample_readiness_def)
  have e: "merge_entry ?rd ?h = (False, True)"
    by (simp add: merge_entry_def Let_def cfg esc cm rd)
  obtain hb where hb: "human_block_gate True ?h = Inr hb" "\<not> held hb"
  proof -
    have "cfg_honor_human_block queue_config"
      by (simp add: queue_config_def sample_config_def)
    with cfg show thesis
      by (intro that [of "\<lparr> hg_read_needed = True, hg_blocked = False, hg_unavailable = False, hg_source = None \<rparr>"])
        (simp_all add: human_block_gate_def human_block_read_needed_def held_def)
  qed
  have lab: "truthy (cfg_mergequeue_label queue_config)" "cfg_requeue_cap queue_config = 3"
    by (simp_all add: queue_config_def sample_config_def)
  have re: "mergequeue_re_add_pending ?rd ?h = Inr True"
    by (simp add: mergequeue_re_add_pending_def merge_hold_read_needed_def e cfg lab hb)
  have cnt: "mergequeue_requeue_count (hf_persisted ?h) (bg_admission (rd_branch ?rd)) True (Some ''abc'') True = 2"
    by (simp add: mergequeue_requeue_count_def is_counted_queue_revert_def sample_fact_defs lane_simps
        branch_gate_of_def admission_of_def coerce_or_zero_def)
  obtain rg where rg: "requeue_gate ?rd ?h True = Inr rg" "\<not> rg_capped rg" "rg_requeues rg = 2"
    using hb lab cnt
    by (intro that [of "\<lparr> rg_requeues = 2, rg_capped = False, rg_rework = False \<rparr>"])
      (simp_all add: requeue_gate_def Let_def e cfg cm)
  have deb: "debounced ?h True = Inr False"
    by (simp add: debounced_def Let_def)
  let ?p = "merge_plan_of ?rd ?h hb True rg False"
  have "decide_merge ?rd ?h = Inr ?p"
    using cm rg re deb hb
    by (simp add: decide_merge_def e cfg exclusive_routes_def conflict_route_def check_failure_route_def)
  then show thesis
    using rg by (intro that [of ?p]) simp_all
qed

section \<open>The merge plan\<close>

text \<open>
  C21. A plan that merges or hands off is made only for a mergeable pull request with merging wanted,
  no escalation of the pull request or its issue and no human-merge label, with the human block read
  and clear where it is honoured. A hand-off also needs the queue's label configured, the
  merge-hold label read and absent, and a requeue count below the cap; a plan that merges does not
  read the merge-hold label. A merge, a hand-off and a human merge exclude one another, and a
  conflict or check-failure route excludes all three.
\<close>

theorem plan_is_clear:
  assumes "decide_merge rd h = Inr plan"
  shows "(mp_action_merge plan \<or> mp_action_hand_off plan \<longrightarrow>
      can_merge (rd_gate rd) \<and> hf_should_merge h \<and> \<not> hf_pr_escalated h \<and> \<not> hf_issue_escalated h \<and>
      \<not> rd_human_merge_hold rd \<and> \<not> rd_human_merge_unavailable rd \<and>
      (cfg_honor_human_block (hf_config h) \<longrightarrow>
         hf_human_block h = Some False \<and> \<not> hf_human_block_unavailable h)) \<and>
    (mp_action_hand_off plan \<longrightarrow>
      truthy (cfg_mergequeue_label (hf_config h)) \<and> hf_merge_hold h = Some False \<and>
      \<not> hf_merge_hold_unavailable h \<and> \<not> mp_requeue_capped plan) \<and>
    \<not> (mp_action_merge plan \<and> mp_action_hand_off plan) \<and>
    \<not> (mp_action_human_merge plan \<and> (mp_action_merge plan \<or> mp_action_hand_off plan)) \<and>
    \<not> ((mp_conflict_rework plan \<or> mp_check_failure_rework plan) \<and>
       (mp_action_merge plan \<or> mp_action_hand_off plan \<or> mp_action_human_merge plan))"
proof -
  note a = plan_acts [OF assms]
  obtain hb re rg deb where p: "mergequeue_re_add_pending rd h = Inr re" "plan = merge_plan_of rd h hb re rg deb"
    using assms by (rule decide_mergeE)
  note e = merge_entryD [of rd h]
  have clear: "can_merge (rd_gate rd) \<and> hf_should_merge h \<and> \<not> hf_pr_escalated h \<and> \<not> hf_issue_escalated h \<and>
      \<not> rd_human_merge_hold rd \<and> \<not> rd_human_merge_unavailable rd"
    if "mp_action_merge plan \<or> mp_action_hand_off plan"
    using e [OF a(1) [OF that]] .
  have human: "rd_human_merge_hold rd \<and> can_merge (rd_gate rd)" if "mp_action_human_merge plan"
    using that p(2) by simp
  have route: "\<not> can_merge (rd_gate rd)" if "mp_conflict_rework plan \<or> mp_check_failure_rework plan"
    using routes_exclude_actions [OF p(1), of deb] that p(2) by simp
  show ?thesis
    using clear human route a(2-4) by (intro conjI impI) blast+
qed

theorem plan_is_clear_witness:
  "\<exists>plan. decide_merge (sample_readiness True True) (queue_holds 1) = Inr plan \<and>
     mp_action_hand_off plan \<and> \<not> mp_action_merge plan \<and> \<not> mp_conflict_rework plan"
proof -
  obtain plan where "decide_merge (sample_readiness True True) (queue_holds 1) = Inr plan" "mp_action_hand_off plan"
    using queue_plan by metis
  with plan_is_clear [OF this(1)] show ?thesis
    by blast
qed

text \<open>
  The queue lane is bounded: with a positive cap a hand-off is planned only while the number of
  times the queue returned this very head, the present one included, is below the cap; at the cap the
  plan is capped and hands nothing off.
\<close>

theorem hand_off_below_cap:
  assumes "decide_merge rd h = Inr plan" and "0 < cfg_requeue_cap (hf_config h)" and "mp_action_hand_off plan"
  shows "mp_requeues plan < cfg_requeue_cap (hf_config h)"
proof -
  obtain hb re rg deb where p: "human_block_gate (snd (merge_entry rd h)) h = Inr hb"
      "mergequeue_re_add_pending rd h = Inr re" "requeue_gate rd h re = Inr rg" "plan = merge_plan_of rd h hb re rg deb"
    using assms(1) by (rule decide_mergeE)
  with assms(3) have re: "re" "\<not> rg_capped rg"
    by simp_all
  have act: "mp_action_merge plan \<or> mp_action_hand_off plan"
    using assms(3) by simp
  have e: "snd (merge_entry rd h)" "truthy (cfg_mergequeue_label (hf_config h))" "\<not> held hb"
    using plan_acts(1,3) [OF assms(1) act] assms(3) p(1,2) re(1)
    by (auto simp: mergequeue_re_add_pending_def bindE_Inr_iff split: if_splits)
  note m = merge_entryD [OF e(1)]
  have f: "\<not> fst (merge_entry rd h)"
    using m by (simp add: merge_entry_def Let_def)
  let ?n = "mergequeue_requeue_count (hf_persisted h) (bg_admission (rd_branch rd)) (can_merge (rd_gate rd)) (hf_live_head h) re"
  have rg: "rg_requeues rg = ?n" "truthy (hf_live_head h) \<longrightarrow> ?n < cfg_requeue_cap (hf_config h)"
    using p(1,3) re(2) e f m assms(2)
    by (auto simp: requeue_gate_def Let_def bindE_Inr_iff split: if_splits)
  have "?n = 0" if "\<not> truthy (hf_live_head h)"
    using that by (simp add: mergequeue_requeue_count_def is_counted_queue_revert_def split: option.split)
  with rg assms(2) p(4) show ?thesis
    by auto
qed

theorem hand_off_below_cap_witness:
  "\<exists>plan. decide_merge (sample_readiness True True) (queue_holds 1) = Inr plan \<and> mp_requeues plan < 3"
proof -
  obtain plan where a: "decide_merge (sample_readiness True True) (queue_holds 1) = Inr plan" "mp_action_hand_off plan"
    using queue_plan by metis
  have c: "cfg_requeue_cap (hf_config (queue_holds 1)) = 3"
    by (simp add: sample_fact_defs sample_config_def)
  from hand_off_below_cap [OF a(1) _ a(2)] a(1) c show ?thesis
    by simp
qed

section \<open>The failed-attempt alarm\<close>

lemma pr_of_recorded [simp]:
  "pr_of (foldl (\<lambda>s e. record_event (event_name e) p i s) s es) n = pr_of s n"
  by (induction es arbitrary: s) (simp_all add: lane_simps)

lemma settled_attempts:
  assumes "settle_accounting cfg ps view pr issue plan r st = Inr (acc, st')"
  shows "pe_failed_attempts (pr_of st' pr) = Coerces (acc_failed_attempts acc)"
proof -
  have s: "pe_failed_attempts (settled_entry issue now acc e) = Coerces (acc_failed_attempts acc)" for now e
    by (simp add: settled_entry_def Let_def split: option.split)
  show ?thesis
    using assms by (auto simp: settle_accounting_def bindE_Inr_iff Let_def lane_simps s)
qed

text \<open>Consecutive accountings of a pull request, each with the reads, plan and results of its pass.\<close>

fun settle_all ::
  "merge_config \<Rightarrow> int \<Rightarrow> int option \<Rightarrow> (pass_reads \<times> pr_view \<times> merge_plan \<times> effect_results) list \<Rightarrow>
   lane_state \<Rightarrow> decide_error + accounting list \<times> lane_state" where
  "settle_all cfg pr issue [] st = Inr ([], st)"
| "settle_all cfg pr issue ((ps, view, plan, r) # xs) st =
     bindE (settle_accounting cfg ps view pr issue plan r st) (\<lambda>(acc, st1).
     bindE (settle_all cfg pr issue xs st1) (\<lambda>(accs, st2). Inr (acc # accs, st2)))"

definition failing_pass :: "merge_config \<Rightarrow> pass_reads \<times> pr_view \<times> merge_plan \<times> effect_results \<Rightarrow> bool" where
  "failing_pass cfg x = (case x of (ps, view, plan, r) \<Rightarrow> counts_failure plan r cfg \<and> \<not> ps_deadline_spent ps)"

lemma failing_accounting:
  assumes "failing_pass cfg (ps, view, plan, r)" and "0 < cfg_failed_attempt_alarm cfg"
    and "pe_failed_attempts (pr_of st pr) = Coerces a"
  obtains acc st' where "settle_accounting cfg ps view pr issue plan r st = Inr (acc, st')"
    "acc_failed_attempts acc = min (a + 1) (cfg_failed_attempt_alarm cfg + 1)"
    "acc_alarm acc \<longleftrightarrow> min (a + 1) (cfg_failed_attempt_alarm cfg + 1) = cfg_failed_attempt_alarm cfg"
    "pe_failed_attempts (pr_of st' pr) = Coerces (acc_failed_attempts acc)"
proof -
  let ?f = "accounting_facts_of cfg ps view pr issue r st"
  have f: "pp_failed_attempts (acf_locked ?f) = Coerces a" "acf_config ?f = cfg"
      "acf_deadline_spent ?f = ps_deadline_spent ps"
    using assms(3) by (simp_all add: accounting_facts_of_def persisted_from_def Let_def)
  obtain acc where acc: "decide_accounting plan r ?f = Inr acc"
    using accounting_total [OF f(1)] by blast
  then obtain st' where st': "settle_accounting cfg ps view pr issue plan r st = Inr (acc, st')"
    by (simp add: settle_accounting_def)
  from accounting_fields(1) [OF acc] assms(1,2) f settled_attempts [OF st'] st' show thesis
    by (intro that [of acc st']) (auto simp: attempts_of_def count_attempts_def failing_pass_def Let_def)
qed

lemma settle_all_failing:
  assumes "\<forall>x \<in> set xs. failing_pass cfg x" and "0 < cfg_failed_attempt_alarm cfg"
    and "pe_failed_attempts (pr_of st pr) = Coerces a" and "a \<le> cfg_failed_attempt_alarm cfg + 1"
  shows "\<exists>accs st'. settle_all cfg pr issue xs st = Inr (accs, st') \<and> length accs = length xs \<and>
    (\<forall>k < length xs. acc_failed_attempts (accs ! k) = min (a + int k + 1) (cfg_failed_attempt_alarm cfg + 1) \<and>
       (acc_alarm (accs ! k) \<longleftrightarrow> a + int k + 1 = cfg_failed_attempt_alarm cfg)) \<and>
    pe_failed_attempts (pr_of st' pr) = Coerces (min (a + int (length xs)) (cfg_failed_attempt_alarm cfg + 1))"
  using assms(1,3,4)
proof (induction xs arbitrary: st a)
  case Nil
  then show ?case
    by (simp add: min_absorb1)
next
  case (Cons x xs)
  obtain ps view plan r where x: "x = (ps, view, plan, r)"
    by (cases x) auto
  let ?t = "cfg_failed_attempt_alarm cfg" and ?b = "min (a + 1) (cfg_failed_attempt_alarm cfg + 1)"
  from Cons.prems(1) x have "failing_pass cfg (ps, view, plan, r)"
    by simp
  then obtain acc st1 where s: "settle_accounting cfg ps view pr issue plan r st = Inr (acc, st1)"
      "acc_failed_attempts acc = ?b" "acc_alarm acc \<longleftrightarrow> ?b = ?t"
      "pe_failed_attempts (pr_of st1 pr) = Coerces (acc_failed_attempts acc)"
    using assms(2) Cons.prems(2) by (rule failing_accounting)
  from s(2,4) have "pe_failed_attempts (pr_of st1 pr) = Coerces ?b"
    by simp
  then obtain accs st' where i: "settle_all cfg pr issue xs st1 = Inr (accs, st')" "length accs = length xs"
      "\<forall>k < length xs. acc_failed_attempts (accs ! k) = min (?b + int k + 1) (?t + 1) \<and>
         (acc_alarm (accs ! k) \<longleftrightarrow> ?b + int k + 1 = ?t)"
      "pe_failed_attempts (pr_of st' pr) = Coerces (min (?b + int (length xs)) (?t + 1))"
    using Cons.IH [of st1 ?b] Cons.prems(1) by auto
  have k: "acc_failed_attempts ((acc # accs) ! k) = min (a + int k + 1) (?t + 1) \<and>
      (acc_alarm ((acc # accs) ! k) \<longleftrightarrow> a + int k + 1 = ?t)" if "k < Suc (length xs)" for k
    using that i(3) s(2,3) by (cases k) (auto simp: min_def split: if_splits)
  have "settle_all cfg pr issue (x # xs) st = Inr (acc # accs, st')"
    using x s(1) i(1) by simp
  moreover have "min (?b + int (length xs)) (?t + 1) = min (a + int (length (x # xs))) (?t + 1)"
    by (auto simp: min_def)
  ultimately show ?case
    using i(2,4) k by (intro exI [of _ "acc # accs"] exI [of _ st']) simp
qed

text \<open>
  The alarm of a pull request that cannot merge fires once: over any number of consecutive passes
  that count a failed attempt, starting from a cleared counter, the accounting never raises, the
  counter stops one above the threshold, and the alarm is raised in the pass whose number is the
  threshold and in no other.
\<close>

theorem alarm_fires_once:
  assumes "\<forall>x \<in> set passes. failing_pass cfg x" and "0 < cfg_failed_attempt_alarm cfg"
    and "pe_failed_attempts (pr_of st pr) = Coerces 0"
  shows "\<exists>accs st'. settle_all cfg pr issue passes st = Inr (accs, st') \<and> length accs = length passes \<and>
    (\<forall>k < length passes. acc_alarm (accs ! k) \<longleftrightarrow> int (k + 1) = cfg_failed_attempt_alarm cfg) \<and>
    pe_failed_attempts (pr_of st' pr) =
      Coerces (min (int (length passes)) (cfg_failed_attempt_alarm cfg + 1))"
proof -
  have "0 \<le> cfg_failed_attempt_alarm cfg + 1"
    using assms(2) by simp
  from settle_all_failing [OF assms this, of issue] show ?thesis
    by (auto simp: algebra_simps)
qed

definition stuck_pass :: "pass_reads \<times> pr_view \<times> merge_plan \<times> effect_results" where
  "stuck_pass =
     (sample_reads, sample_view ''abc'' [],
      merge_plan_of (sample_readiness False False) (queue_holds 0)
        \<lparr> hg_read_needed = False, hg_blocked = False, hg_unavailable = False, hg_source = None \<rparr> False
        \<lparr> rg_requeues = 0, rg_capped = False, rg_rework = False \<rparr> False, no_results)"

theorem alarm_fires_once_witness:
  "\<exists>accs st'. settle_all sample_config 12 (Some 7) (replicate 5 stuck_pass) empty_lane = Inr (accs, st') \<and>
     acc_alarm (accs ! 2) \<and> \<not> acc_alarm (accs ! 3) \<and> pe_failed_attempts (pr_of st' 12) = Coerces 4"
proof -
  have f: "failing_pass sample_config stuck_pass"
    by (simp add: failing_pass_def stuck_pass_def counts_failure_def Let_def sample_readiness_def can_merge_def
        sample_reads_def)
  have t: "cfg_failed_attempt_alarm sample_config = 3"
    by (simp add: sample_config_def)
  have z: "pe_failed_attempts (pr_of empty_lane 12) = Coerces 0"
    by (simp add: empty_lane_entries fresh_pr_def)
  obtain accs st' where a: "settle_all sample_config 12 (Some 7) (replicate 5 stuck_pass) empty_lane = Inr (accs, st')"
      "\<forall>k < 5. acc_alarm (accs ! k) \<longleftrightarrow> int (k + 1) = 3" "pe_failed_attempts (pr_of st' 12) = Coerces 4"
    using alarm_fires_once [of "replicate 5 stuck_pass" sample_config empty_lane 12 "Some 7"] f t z by auto
  then show ?thesis
    by (intro exI [of _ accs] exI [of _ st']) simp
qed

section \<open>The reads of a pass\<close>

text \<open>
  C22. A pass always has the facts its decisions ask for: whatever its reads gave, it never raises
  for a fact that was not gathered, and never trips the assertion that the rework routes and the
  merge actions exclude each other.
\<close>

theorem reads_are_enough:
  "fst (run_merge_ready ac ps pr merge th st) \<noteq> Pass_raised (Raised (Fact_not_gathered name)) \<and>
   fst (run_merge_ready ac ps pr merge th st) \<noteq> Pass_raised (Raised (Assertion_failed msg))"
proof -
  obtain res st' fx where r: "run_merge_ready ac ps pr merge th st = (res, st', fx)"
    by (cases "run_merge_ready ac ps pr merge th st") auto
  have "res \<noteq> Pass_raised e" if "\<not> expected_error e" for e
    using run_error [of ac ps pr merge th st e st' fx] r that by auto
  then show ?thesis
    by (simp add: r expected_error_def)
qed

section \<open>The newest human verdict\<close>

text \<open>A comment that is a human's verdict: of a person, with a text that asks for changes or approves.\<close>

definition is_verdict :: "(string \<Rightarrow> bool) \<Rightarrow> (string \<Rightarrow> bool) \<Rightarrow> review_comment \<Rightarrow> bool" where
  "is_verdict requests approves c \<longleftrightarrow>
     rc_mapping c \<and> \<not> rc_bot c \<and> \<not> rc_orchestrator c \<and>
     (case rc_body c of None \<Rightarrow> False | Some b \<Rightarrow> requests b \<or> approves b)"

lemma scan_verdicts_skip:
  "\<not> is_verdict rc ap c \<Longrightarrow> scan_verdicts rc ap (c # cs) = scan_verdicts rc ap cs"
  by (auto simp: is_verdict_def split: option.splits)

lemma scan_verdicts_hit:
  "is_verdict rc ap c \<Longrightarrow> hb_blocked (scan_verdicts rc ap (c # cs)) \<longleftrightarrow> rc (or_empty (rc_body c))"
  by (auto simp: is_verdict_def or_empty_def split: option.splits)

lemma scan_verdicts_head:
  "hb_blocked (scan_verdicts rc ap cs) \<longleftrightarrow>
     (case filter (is_verdict rc ap) cs of [] \<Rightarrow> False | c # _ \<Rightarrow> rc (or_empty (rc_body c)))"
proof (induction cs)
  case (Cons c cs)
  show ?case
  proof (cases "is_verdict rc ap c")
    case True
    with scan_verdicts_hit [OF True] show ?thesis
      by simp
  next
    case False
    with scan_verdicts_skip [OF False] Cons show ?thesis
      by simp
  qed
qed simp

text \<open>
  The human block is decided by GitHub's review decision, and else by the newest comment in
  which a person gave a verdict: an approval written after a request for changes lifts it, and the
  comments of bots and of the orchestrator itself never count.
\<close>

theorem newest_verdict_decides:
  "hb_blocked (classify_human_block decision comments requests approves) \<longleftrightarrow>
     decision = Some ''CHANGES_REQUESTED'' \<or>
     (let verdicts = filter (is_verdict requests approves) comments
      in verdicts \<noteq> [] \<and> requests (or_empty (rc_body (last verdicts))))"
proof (cases "filter (is_verdict requests approves) comments" rule: rev_cases)
  case Nil
  then have "filter (is_verdict requests approves) (rev comments) = []"
    by (simp add: rev_filter [symmetric])
  with Nil show ?thesis
    by (simp add: classify_human_block_def scan_verdicts_head)
next
  case (snoc vs v)
  then have "filter (is_verdict requests approves) (rev comments) = v # rev vs"
    by (simp add: rev_filter [symmetric])
  with snoc show ?thesis
    by (simp add: classify_human_block_def scan_verdicts_head)
qed

section \<open>The queue skip\<close>

text \<open>
  A pull request that waits in the queue is skipped for a while only: from a pass that skips, a
  later one with the same stamp runs again once half an hour has passed since the stamp, and at once
  when a hold label or a failed read of the issue turns up, the head moves, or the label is gone.
\<close>

theorem queue_skip_ends:
  assumes "queue_skip_decide fromiso f"
  shows "\<not> queue_skip_decide fromiso (f\<lparr> qs_now := qs_now f + recheck_interval \<rparr>) \<and>
    (\<forall>l \<in> set (qs_hold_labels f). \<not> queue_skip_decide fromiso (f\<lparr> qs_pr_labels := l # qs_pr_labels f \<rparr>)) \<and>
    (qs_issue_bound f \<longrightarrow> \<not> queue_skip_decide fromiso (f\<lparr> qs_issue_labels := None \<rparr>)) \<and>
    (head \<noteq> qs_head f \<longrightarrow> \<not> queue_skip_decide fromiso (f\<lparr> qs_head := head \<rparr>)) \<and>
    \<not> queue_skip_decide fromiso
        (f\<lparr> qs_pr_labels := filter (\<lambda>l. Some l \<noteq> qs_label f) (qs_pr_labels f) \<rparr>)"
proof -
  from assms have label: "truthy (qs_label f)" and h: "pp_head_sha (qs_persisted f) = qs_head f"
    and c: "\<exists>t. parse_stamp fromiso (pp_checked_at (qs_persisted f)) = Some t \<and> 0 \<le> qs_now f - as_utc t"
    by (auto simp: queue_skip_decide_def Let_def split: if_splits option.splits)
  have "\<not> queue_skip_decide fromiso (f\<lparr> qs_now := qs_now f + recheck_interval \<rparr>)"
    using c by (auto simp: queue_skip_decide_def Let_def)
  moreover have "\<not> queue_skip_decide fromiso (f\<lparr> qs_pr_labels := l # qs_pr_labels f \<rparr>)"
    if "l \<in> set (qs_hold_labels f)" for l
    using that by (auto simp: queue_skip_decide_def Let_def)
  moreover have "qs_issue_bound f \<Longrightarrow> \<not> queue_skip_decide fromiso (f\<lparr> qs_issue_labels := None \<rparr>)"
    by (simp add: queue_skip_decide_def Let_def)
  moreover have "\<not> queue_skip_decide fromiso (f\<lparr> qs_head := head \<rparr>)" if "head \<noteq> qs_head f"
    using that h by (simp add: queue_skip_decide_def Let_def)
  moreover have "\<not> queue_skip_decide fromiso
      (f\<lparr> qs_pr_labels := filter (\<lambda>l. Some l \<noteq> qs_label f) (qs_pr_labels f) \<rparr>)"
    using label by (cases "qs_label f") (auto simp: queue_skip_decide_def Let_def or_empty_def)
  ultimately show ?thesis
    by blast
qed

definition waiting_facts :: queue_skip_facts where
  "waiting_facts =
     \<lparr> qs_label = Some ''queue'', qs_hold_labels = [''hold''], qs_priority_prefix = ''priority:'',
       qs_pr_labels = [''queue''], qs_head = Some ''abc'',
       qs_persisted = (persisted_from fresh_pr)
         \<lparr> pp_status := Some ''mergequeue'', pp_head_sha := Some ''abc'',
           pp_checked_at := Some ''1970-01-01T00:00:00Z'' \<rparr>,
       qs_issue_bound = True, qs_issue_labels = Some [''bug''], qs_now = minutes 5 \<rparr>"

theorem queue_skip_ends_witness:
  "queue_skip_decide iso_extended waiting_facts \<and>
   \<not> queue_skip_decide iso_extended (waiting_facts\<lparr> qs_pr_labels := [''hold'', ''queue''] \<rparr>)"
proof -
  have p: "parse_stamp iso_extended (Some ''1970-01-01T00:00:00Z'') = Some (Aware 0)"
    by (simp add: parse_stamp_def iso_extended_epoch)
  have "\<not> is_critical [''bug''] ''priority:''"
    by code_simp
  with p have "queue_skip_decide iso_extended waiting_facts"
    by (simp add: queue_skip_decide_def waiting_facts_def Let_def persisted_from_def fresh_pr_def
        recheck_interval_def minutes_def)
  from queue_skip_ends [OF this, of None] this show ?thesis
    by (simp add: waiting_facts_def)
qed

section \<open>The merge train\<close>

lemma key_less_eq_total: "key_less_eq a b \<or> key_less_eq b a"
  by (auto simp: key_less_eq_def)

lemma key_less_eq_trans: "key_less_eq a b \<Longrightarrow> key_less_eq b c \<Longrightarrow> key_less_eq a c"
  by (auto simp: key_less_eq_def)

lemma earliest_least:
  "earliest p qs \<in> set (p # qs) \<and> (\<forall>q \<in> set (p # qs). key_less_eq (train_key (earliest p qs)) (train_key q))"
proof (induction qs arbitrary: p)
  case Nil
  show ?case
    by (simp add: key_less_eq_def)
next
  case (Cons q qs)
  show ?case
  proof (cases "key_less_eq (train_key p) (train_key q)")
    case True
    with Cons.IH [of p] show ?thesis
      using key_less_eq_trans by (simp, blast)
  next
    case False
    with key_less_eq_total have "key_less_eq (train_key q) (train_key p)"
      by blast
    with False Cons.IH [of q] show ?thesis
      using key_less_eq_trans by (simp, blast)
  qed
qed

lemma key_less_eq_antisym: "key_less_eq a b \<Longrightarrow> key_less_eq b a \<Longrightarrow> a = b"
  by (cases a; cases b) (auto simp: key_less_eq_def)

text \<open>
  The head of the merge train is the candidate with the least key, the oldest review first and
  the lower number on a tie; there is a head exactly when there is a candidate; and the order in which
  the open pull requests are listed has no influence on it.
\<close>

theorem train_head_least:
  assumes "set prs' = set prs"
  shows "merge_train_head cfg prefix status prs' = merge_train_head cfg prefix status prs \<and>
    (case merge_train_head cfg prefix status prs of
       None \<Rightarrow> filter (train_candidate cfg prefix None status) prs = []
     | Some n \<Rightarrow> \<exists>p \<in> set prs. tp_number p = n \<and> train_candidate cfg prefix None status p \<and>
         (\<forall>q \<in> set prs. train_candidate cfg prefix None status q \<longrightarrow> key_less_eq (train_key p) (train_key q)))"
proof -
  let ?c = "train_candidate cfg prefix None status"
  have h: "case merge_train_head cfg prefix status xs of
       None \<Rightarrow> filter ?c xs = []
     | Some n \<Rightarrow> \<exists>p \<in> set xs. tp_number p = n \<and> ?c p \<and> (\<forall>q \<in> set xs. ?c q \<longrightarrow> key_less_eq (train_key p) (train_key q))"
    for xs
  proof (cases "filter ?c xs")
    case (Cons p ps)
    have s: "set (p # ps) = {q \<in> set xs. ?c q}"
      using arg_cong [OF Cons, of set] by auto
    from earliest_least [of p ps] have "\<exists>x \<in> set xs. tp_number x = tp_number (earliest p ps) \<and> ?c x \<and>
        (\<forall>q \<in> set xs. ?c q \<longrightarrow> key_less_eq (train_key x) (train_key q))"
      unfolding s by blast
    with Cons show ?thesis
      by (simp add: merge_train_head_def)
  qed (simp add: merge_train_head_def)
  have "merge_train_head cfg prefix status prs' = merge_train_head cfg prefix status prs"
  proof (cases "merge_train_head cfg prefix status prs"; cases "merge_train_head cfg prefix status prs'")
    fix n n'
    assume n: "merge_train_head cfg prefix status prs = Some n" "merge_train_head cfg prefix status prs' = Some n'"
    obtain p where p: "p \<in> set prs" "tp_number p = n" "?c p" "\<forall>q \<in> set prs. ?c q \<longrightarrow> key_less_eq (train_key p) (train_key q)"
      using h [of prs] n(1) by auto
    obtain p' where p': "p' \<in> set prs" "tp_number p' = n'" "?c p'" "\<forall>q \<in> set prs. ?c q \<longrightarrow> key_less_eq (train_key p') (train_key q)"
      using h [of prs'] n(2) assms by auto
    from p p' have "train_key p = train_key p'"
      by (intro key_less_eq_antisym) auto
    with p(2) p'(2) n show ?thesis
      by (simp add: train_key_def)
  qed (use h [of prs] h [of prs'] assms in \<open>auto simp: filter_empty_conv\<close>)
  with h [of prs] show ?thesis
    by blast
qed

definition train_entry :: "int \<Rightarrow> string \<Rightarrow> train_pr" where
  "train_entry n reviewed =
     \<lparr> tp_number = n, tp_cross_repository = False, tp_head_ref = ''agent/x'', tp_head = Some ''abc'',
       tp_updated_at = None, tp_decision = Some ''approved'', tp_reviewed_head = Some ''abc'',
       tp_reviewed_at = Some reviewed, tp_human_merge = False \<rparr>"

theorem train_head_least_witness:
  "merge_train_head sample_config ''agent/'' (\<lambda>_. None) [train_entry 9 ''2026-01-02'', train_entry 12 ''2026-01-01'']
     = merge_train_head sample_config ''agent/'' (\<lambda>_. None) [train_entry 12 ''2026-01-01'', train_entry 9 ''2026-01-02''] \<and>
   merge_train_head sample_config ''agent/'' (\<lambda>_. None) [train_entry 12 ''2026-01-01'', train_entry 9 ''2026-01-02''] = Some 12"
proof -
  have "merge_train_head sample_config ''agent/'' (\<lambda>_. None)
      [train_entry 12 ''2026-01-01'', train_entry 9 ''2026-01-02''] = Some 12"
    by code_simp
  with train_head_least [of "[train_entry 9 ''2026-01-02'', train_entry 12 ''2026-01-01'']"
      "[train_entry 12 ''2026-01-01'', train_entry 9 ''2026-01-02'']" sample_config "''agent/''" "\<lambda>_. None"] show ?thesis
    by auto
qed

section \<open>Passes that change nothing\<close>

text \<open>
  A pass over a pull request recorded as merged reads nothing, asks nothing of GitHub and leaves
  every pull request's entry alone; it closes the bound issue, and a second pass changes nothing more.
\<close>

theorem merged_is_final:
  assumes "pe_status (pr_of st pr) = Some ''merged''"
  shows "\<exists>st1. run_merge_ready ac ps pr merge th st = (Pass_skipped, st1, []) \<and> ls_prs st1 = ls_prs st \<and>
    (\<forall>n. pe_issue (pr_of st pr) = Some n \<longrightarrow> ie_status (issue_of st1 n) = Some ''closed'') \<and>
    run_merge_ready ac' ps' pr merge' th' st1 = (Pass_skipped, st1, [])"
proof -
  let ?st1 = "put_bound (pe_issue (pr_of st pr)) merged_issue_fields st"
  have p: "ls_prs ?st1 = ls_prs st"
    by (simp add: put_bound_def put_issue_def split: option.split)
  then have e: "pr_of ?st1 pr = pr_of st pr"
    by (simp add: pr_of_def)
  have idem: "merged_issue_fields (merged_issue_fields x) = merged_issue_fields x" for x
    by (simp add: merged_issue_fields_def)
  have "put_bound (pe_issue (pr_of st pr)) merged_issue_fields ?st1 = ?st1"
    by (simp add: put_bound_def put_issue_def issue_of_def get_or_def idem split: option.split)
  moreover have "ie_status (issue_of ?st1 n) = Some ''closed''" if "pe_issue (pr_of st pr) = Some n" for n
    using that by (simp add: put_bound_def lane_simps merged_issue_fields_def)
  ultimately show ?thesis
    using assms p e by (intro exI [of _ ?st1]) (simp add: run_merge_ready_def Let_def)
qed

theorem merged_is_final_witness:
  "run_merge_ready (sample_app sample_config) sample_reads 12 None None
     (put_pr 12 (\<lambda>e. e\<lparr> pe_status := Some ''merged'' \<rparr>) empty_lane)
   = (Pass_skipped, put_pr 12 (\<lambda>e. e\<lparr> pe_status := Some ''merged'' \<rparr>) empty_lane, [])"
proof -
  let ?st = "put_pr 12 (\<lambda>e. e\<lparr> pe_status := Some ''merged'' \<rparr>) empty_lane"
  have m: "pe_status (pr_of ?st 12) = Some ''merged''" "pe_issue (pr_of ?st 12) = None"
    by (simp_all add: lane_simps empty_lane_entries fresh_pr_def)
  from merged_is_final [OF m(1), of "sample_app sample_config" sample_reads None None] show ?thesis
    using m by (auto simp: run_merge_ready_def Let_def put_bound_def)
qed

text \<open>
  A pull request whose conflict lane escalated past its cap stays untouched while its head is the
  one the escalation was made for: each pass over its approved head stops at once, without an effect
  on GitHub and without a write to the state, so neither counters nor alarms grow.
\<close>

theorem conflict_cap_holds:
  assumes "pe_status (pr_of st pr) \<noteq> Some ''merged''" and "ps_pr_view ps = Some view"
    and "vf_approved (verdict_of (ps_decision ps))"
    and "\<not> is_head_moved (verdict_of (ps_decision ps)) (pv_head view)"
    and "conflict_cap_stop (Some (persisted_from (pr_of st pr))) (pv_head view)"
  shows "run_merge_ready ac ps pr merge th st = (Pass_stopped Conflict_cap_exceeded, st, [])"
proof -
  obtain op where op: "gather_opening (ac_merge ac) ps pr (pr_of st pr) (Some (escalation_from st pr)) False view = Inr op"
    using gather_opening_total by blast
  note o = opening_facts [OF op]
  have a: "adm_approved (op_admission op)" "adm_kind (op_admission op) = Proceed"
      "\<not> adm_carry_forward_needed (op_admission op)"
  proof -
    have "af_pr_found (op_facts op)"
      using op by (auto simp: gather_opening_def Let_def bindE_Inr_iff split: option.splits if_splits)
    then have "op_admission op = (admission_base (op_facts op))\<lparr> adm_head_moved := False \<rparr>"
      using o(9) assms(1,3,4) o(5-7)
      by (auto simp: decide_admission_def Let_def persisted_from_def split: if_splits)
    with assms(3) o(5) show "adm_approved (op_admission op)" "adm_kind (op_admission op) = Proceed"
        "\<not> adm_carry_forward_needed (op_admission op)"
      by simp_all
  qed
  have c: "bf_conflict_cap_stop (branch_start pr th op)"
    using assms(5) o(6,7) by (simp add: branch_start_def Let_def)
  obtain f g where g: "gather_branch True ac ps pr th op st = Inr (f, g)" "bg_stop g = Some Conflict_cap_exceeded"
    using a(1) c by (simp add: gather_branch_def branch_precheck_def Let_def)
  then have "from_branch_gate ac ps pr merge th op st = (Pass_stopped Conflict_cap_exceeded, st, [])"
    by (simp add: from_branch_gate_def branch_result_def)
  with assms(1,2) op a show ?thesis
    by (simp add: run_merge_ready_def Let_def)
qed

theorem conflict_cap_holds_witness:
  "run_merge_ready (sample_app sample_config) sample_reads 12 None None
     (put_pr 12 (\<lambda>e. e\<lparr> pe_reasons_seen := [conflict_rework_cap_exceeded],
        pe_escalated_head := (\<lambda>_. Some ''abc'') \<rparr>) empty_lane)
   = (Pass_stopped Conflict_cap_exceeded,
      put_pr 12 (\<lambda>e. e\<lparr> pe_reasons_seen := [conflict_rework_cap_exceeded],
        pe_escalated_head := (\<lambda>_. Some ''abc'') \<rparr>) empty_lane, [])"
  by (rule conflict_cap_holds [where view = "sample_view ''abc'' []"])
    (simp_all add: lane_simps empty_lane_entries fresh_pr_def sample_reads_def sample_view_def verdict_of_def
      verdict_fact_of_def is_head_moved_def conflict_cap_stop_def persisted_from_def or_else_def)

end
