(* ===== verification/Rework_Bounds.thy ===== *)
theory Rework_Bounds
  imports Rework_Route
begin

text \<open>
  The bounds of the rework lanes, over any number of passes: the attempts of a lane, the one rescue
  of a pull request and the one cap escalation of a lane in an episode.
\<close>

section \<open>What one call does to the counted fields\<close>

lemma counted_field_simps [simp]:
  "pe_attempts (set_attempts k n e) = (pe_attempts e)(k := Coerces n)"
  "pe_rescue_attempted (set_attempts k n e) = pe_rescue_attempted e"
  "pe_reasons_seen (set_attempts k n e) = pe_reasons_seen e"
  "pe_attempts (set_last_head k h e) = pe_attempts e"
  "pe_rescue_attempted (set_last_head k h e) = pe_rescue_attempted e"
  "pe_reasons_seen (set_last_head k h e) = pe_reasons_seen e"
  "pe_attempts (clear_startup_death e) = pe_attempts e"
  "pe_rescue_attempted (clear_startup_death e) = pe_rescue_attempted e"
  "pe_reasons_seen (clear_startup_death e) = pe_reasons_seen e"
  "pe_attempts (set_stall k s sh e) = pe_attempts e"
  "pe_rescue_attempted (set_stall k s sh e) = pe_rescue_attempted e"
  "pe_reasons_seen (set_stall k s sh e) = pe_reasons_seen e"
  by (simp_all add: set_attempts_def set_last_head_def clear_startup_death_def set_stall_def)

lemma escalate_mechanical:
  "escalate_issue now (Some i) reason ''mechanical'' ''escalated'' (Some p) ix px st =
     Some (put_pr p (escalate_pr_entry (Some i) reason ''escalated'' px)
            (put_issue i (escalate_issue_entry now reason ''mechanical'' ''escalated'' ix) st))"
  by (simp add: escalate_issue_def escalation_reason_class_def escalation_reason_classes_def
      put_bound_def)

lemma escalate_pr_fields [simp]:
  "pe_attempts (escalate_pr_entry i r s px e) = pe_attempts (px e)"
  "pe_rescue_attempted (escalate_pr_entry i r s px e) = pe_rescue_attempted (px e)"
  "pe_reasons_seen (escalate_pr_entry i r s px e) = append_seen r (pe_reasons_seen (px e))"
  "pe_status (escalate_pr_entry i r s px e) = Some s"
  by (simp_all add: escalate_pr_entry_def Let_def)

lemma escalate_issue_fields [simp]:
  "ie_reasons_seen (escalate_issue_entry now r rc s id e) = append_seen r (ie_reasons_seen e)"
  "ie_status (escalate_issue_entry now r rc s id e) = Some s"
  by (simp_all add: escalate_issue_entry_def Let_def)

lemma stall_check_fields:
  assumes "check_janitor_rework_stall env pr issue status head key st = Some (r, st')"
  shows "pe_attempts (pr_of st' pr) = pe_attempts (pr_of st pr) \<and>
    pe_rescue_attempted (pr_of st' pr) = pe_rescue_attempted (pr_of st pr) \<and>
    set (pe_reasons_seen (pr_of st pr)) \<subseteq> set (pe_reasons_seen (pr_of st' pr)) \<and>
    set (pe_reasons_seen (pr_of st' pr)) \<subseteq> insert (stall_reason key) (set (pe_reasons_seen (pr_of st pr))) \<and>
    (\<exists>es. ls_events st' = ls_events st @ es \<and>
       set es \<subseteq> {(''janitor_rework_stalled'', Some pr, Some issue)})"
  using assms
  by (auto simp: check_janitor_rework_stall_def Let_def escalate_mechanical lane_simps
      split: if_splits option.splits prod.splits)

definition lane_events :: "string \<Rightarrow> int \<Rightarrow> lane_state \<Rightarrow> nat" where
  "lane_events kind pr st = length (filter (\<lambda>e. fst e = kind \<and> fst (snd e) = Some pr) (ls_events st))"

text \<open>What each branch leaves, and what a counted route does by its result.\<close>

lemma rescue_fields:
  assumes "dispatch_rescue env pr issue head key reason router n st = (r, st')"
    and "router \<noteq> ''rescue_dispatched''"
  shows "pe_rescue_attempted (pr_of st' pr)"
    and "pe_attempts (pr_of st' pr) = (pe_attempts (pr_of st pr))(key := Coerces n)"
    and "pe_reasons_seen (pr_of st' pr) = pe_reasons_seen (pr_of st pr)"
    and "lane_events ''rescue_dispatched'' pr st' = Suc (lane_events ''rescue_dispatched'' pr st)"
    and "r = Rescue_dispatched (re_edge_error env ''rework_requested'')"
  using assms by (auto simp: dispatch_rescue_def route_to_rework_def lane_simps lane_events_def)

lemma cap_extra_fields [simp]:
  "pe_attempts (cap_escalation_pr_extra key n l head e) = (pe_attempts e)(key := Coerces n)"
  "pe_rescue_attempted (cap_escalation_pr_extra key n l head e) = pe_rescue_attempted e"
  "pe_reasons_seen (cap_escalation_pr_extra key n l head e) = pe_reasons_seen e"
  by (simp_all add: cap_escalation_pr_extra_def Let_def)

lemma cap_fields:
  assumes "escalate_over_cap env pr issue head key n st = (r, st')"
  shows "pe_rescue_attempted (pr_of st' pr) = pe_rescue_attempted (pr_of st pr)"
    and "pe_attempts (pr_of st' pr) = (pe_attempts (pr_of st pr))(key := Coerces n)"
    and "pe_reasons_seen (pr_of st' pr) = append_seen (cap_reason key) (pe_reasons_seen (pr_of st pr))"
    and "pe_status (pr_of st' pr) = Some ''escalated''"
    and "ie_status (issue_of st' issue) = Some ''escalated''"
    and "lane_events ''rescue_dispatched'' pr st' = lane_events ''rescue_dispatched'' pr st"
    and "r = Cap_escalated (re_edge_error env ''operator_queued'')"
  using assms by (auto simp: escalate_over_cap_def escalate_mechanical lane_simps lane_events_def)

lemma burn_fields:
  "pe_rescue_attempted (pr_of (burn_attempt pr issue head key n st) pr) = pe_rescue_attempted (pr_of st pr)"
  "pe_attempts (pr_of (burn_attempt pr issue head key n st) pr) =
     (pe_attempts (pr_of st pr))(key := Coerces n)"
  "pe_reasons_seen (pr_of (burn_attempt pr issue head key n st) pr) = pe_reasons_seen (pr_of st pr)"
  "lane_events ''rescue_dispatched'' pr (burn_attempt pr issue head key n st) =
     lane_events ''rescue_dispatched'' pr st"
  by (simp_all add: burn_attempt_def lane_simps lane_events_def)

lemma routed_fields:
  assumes "route_to_rework env pr issue router
      (clear_startup_death \<circ> set_last_head key head \<circ> set_attempts key n) st = (err, st')"
    and "router \<noteq> ''rescue_dispatched''"
  shows "pe_rescue_attempted (pr_of st' pr) = pe_rescue_attempted (pr_of st pr)"
    and "pe_attempts (pr_of st' pr) = (pe_attempts (pr_of st pr))(key := Coerces n)"
    and "pe_reasons_seen (pr_of st' pr) = pe_reasons_seen (pr_of st pr)"
    and "lane_events ''rescue_dispatched'' pr st' = lane_events ''rescue_dispatched'' pr st"
  using assms by (auto simp: route_to_rework_def lane_simps lane_events_def)

lemma counted_cases:
  assumes "route_counted env pr issue head key mx reason router pending n st = (r, st')"
    and "router \<noteq> ''rescue_dispatched''"
  obtains (deferred) "r = Deferred_live_worker n" "over_cap mx n" "re_live_worker env \<noteq> None"
      "pr_of st' pr = pr_of st pr"
      "lane_events ''rescue_dispatched'' pr st' = lane_events ''rescue_dispatched'' pr st"
  | (rescued) "over_cap mx n" "\<not> pe_rescue_attempted (pr_of st pr)"
      "pe_rescue_attempted (pr_of st' pr)"
      "pe_attempts (pr_of st' pr) = (pe_attempts (pr_of st pr))(key := Coerces n)"
      "lane_events ''rescue_dispatched'' pr st' = Suc (lane_events ''rescue_dispatched'' pr st)"
      "pe_reasons_seen (pr_of st' pr) = pe_reasons_seen (pr_of st pr)"
  | (capped) "over_cap mx n" "re_live_worker env = None"
      "re_rescue_enabled env \<Longrightarrow> pe_rescue_attempted (pr_of st pr)"
      "escalate_over_cap env pr issue head key n st = (r, st')"
  | (within) "\<not> over_cap mx n"
      "pe_rescue_attempted (pr_of st' pr) = pe_rescue_attempted (pr_of st pr)"
      "pe_attempts (pr_of st' pr) = (pe_attempts (pr_of st pr))(key := Coerces n)"
      "lane_events ''rescue_dispatched'' pr st' = lane_events ''rescue_dispatched'' pr st"
      "pe_reasons_seen (pr_of st' pr) = pe_reasons_seen (pr_of st pr)"
proof (cases "over_cap mx n")
  case True
  show thesis
  proof (cases "re_live_worker env")
    case (Some w)
    with True assms(1) have "r = Deferred_live_worker n" "st' = defer_cap_escalation issue w st"
      by (simp_all add: route_counted_def)
    with True Some show thesis
      by (intro deferred) (simp_all add: defer_cap_escalation_def lane_simps lane_events_def)
  next
    case None
    show thesis
    proof (cases "re_rescue_enabled env \<and> \<not> pe_rescue_attempted (pr_of st pr)")
      case rescue: True
      with True None assms(1) have "dispatch_rescue env pr issue head key reason router n st = (r, st')"
        by (simp add: route_counted_def)
      from rescue_fields [OF this assms(2)] True rescue show thesis
        by (intro rescued) simp_all
    next
      case False
      with True None assms(1) have "escalate_over_cap env pr issue head key n st = (r, st')"
        by (simp add: route_counted_def del: de_Morgan_conj)
      with True None False show thesis
        by (intro capped) simp_all
    qed
  qed
next
  case no: False
  show thesis
  proof (cases pending)
    case True
    with no assms(1) have "st' = burn_attempt pr issue head key n st"
      by (simp add: route_counted_def)
    with no burn_fields [of pr issue head key n st] show thesis
      by (intro within) simp_all
  next
    case False
    with no assms(1) obtain err where "route_to_rework env pr issue router
        (clear_startup_death \<circ> set_last_head key head \<circ> set_attempts key n) st = (err, st')"
      by (auto simp: route_counted_def split: prod.splits)
    from routed_fields [OF this assms(2)] no show thesis
      by (intro within) simp_all
  qed
qed

section \<open>One call, by what it changes\<close>

lemma stall_check_events:
  assumes "check_janitor_rework_stall env pr issue status head key st = Some (r, st')"
  shows "lane_events ''rescue_dispatched'' pr st' = lane_events ''rescue_dispatched'' pr st"
proof -
  from stall_check_fields [OF assms] obtain es where es: "ls_events st' = ls_events st @ es"
      "set es \<subseteq> {(''janitor_rework_stalled'', Some pr, Some issue)}"
    by blast
  have "\<forall>e \<in> set es. fst e = ''janitor_rework_stalled''"
    using es(2) by fastforce
  then have "filter (\<lambda>e. fst e = ''rescue_dispatched'' \<and> fst (snd e) = Some pr) es = []"
    by (simp add: filter_empty_conv)
  with es(1) show ?thesis
    by (simp add: lane_events_def)
qed

text \<open>
  A call leaves the counters, the rescue mark and the rescue events alone, or it counts one attempt: within
  the cap, with the pull request's rescue, or with the cap escalation.
\<close>

lemma route_cases:
  assumes "route_janitor_gate_failure_to_rework env pr issue head key mx reason router st = Some (r, st')"
    and "router \<noteq> ''rescue_dispatched''"
  obtains (same) "pe_attempts (pr_of st' pr) = pe_attempts (pr_of st pr)"
      "pe_rescue_attempted (pr_of st' pr) = pe_rescue_attempted (pr_of st pr)"
      "lane_events ''rescue_dispatched'' pr st' = lane_events ''rescue_dispatched'' pr st"
      "set (pe_reasons_seen (pr_of st pr)) \<subseteq> set (pe_reasons_seen (pr_of st' pr))"
  | (counted) n where "pe_attempts (pr_of st pr) key = Coerces n"
      "pe_attempts (pr_of st' pr) = (pe_attempts (pr_of st pr))(key := Coerces (n + 1))"
      "cap_reason key \<notin> set (pe_reasons_seen (pr_of st pr))"
      "set (pe_reasons_seen (pr_of st pr)) \<subseteq> set (pe_reasons_seen (pr_of st' pr))"
      "\<not> over_cap mx (n + 1) \<and> pe_rescue_attempted (pr_of st' pr) = pe_rescue_attempted (pr_of st pr) \<and>
         lane_events ''rescue_dispatched'' pr st' = lane_events ''rescue_dispatched'' pr st \<or>
       \<not> pe_rescue_attempted (pr_of st pr) \<and> pe_rescue_attempted (pr_of st' pr) \<and>
         lane_events ''rescue_dispatched'' pr st' = Suc (lane_events ''rescue_dispatched'' pr st) \<or>
       cap_reason key \<in> set (pe_reasons_seen (pr_of st' pr)) \<and>
         pe_rescue_attempted (pr_of st' pr) = pe_rescue_attempted (pr_of st pr) \<and>
         lane_events ''rescue_dispatched'' pr st' = lane_events ''rescue_dispatched'' pr st"
proof -
  let ?e = "pr_of st pr" and ?i = "issue_of st issue"
  let ?guard = "{cap_reason key, stall_reason key} \<inter> (set (ie_reasons_seen ?i) \<union> set (pe_reasons_seen ?e))"
  let ?pending = "status_in (ie_status ?i) rework_pending_statuses"
  let ?settled = "reason = ''merge_conflict'' \<and> ie_status ?i = Some ''rework_requested'' \<and>
    head \<noteq> [] \<and> pe_last_head ?e key \<noteq> Some head"
  note d = route_janitor_gate_failure_to_rework_def Let_def
  consider (guard) "?guard \<noteq> {}"
    | (stall) "?guard = {}" "?pending \<and> \<not> ?settled"
    | (baseline) "?guard = {}" "\<not> (?pending \<and> \<not> ?settled)" "?pending \<and> \<not> truthy (pe_last_head ?e key)"
    | (death) "?guard = {}" "\<not> (?pending \<and> \<not> ?settled)"
        "\<not> (?pending \<and> \<not> truthy (pe_last_head ?e key))" "pe_startup_death ?e \<and> \<not> ?pending"
    | (counts) "?guard = {}" "\<not> (?pending \<and> \<not> ?settled)"
        "\<not> (?pending \<and> \<not> truthy (pe_last_head ?e key))" "\<not> (pe_startup_death ?e \<and> \<not> ?pending)"
    by blast
  then show thesis
  proof cases
    case guard
    then show thesis
      using assms(1) by (intro same) (simp_all add: d)
  next
    case stall
    then have s: "check_janitor_rework_stall env pr issue (ie_status ?i) head key st = Some (r, st')"
      using assms(1) by (simp add: d split: if_splits)
    from stall_check_fields [OF s] stall_check_events [OF s] show thesis
      by (intro same) blast+
  next
    case baseline
    then have "st' = put_pr pr (\<lambda>e. set_stall key None None
        (e\<lparr> pe_issue := Some issue, pe_last_head := (pe_last_head e)(key := Some head) \<rparr>)) st"
      using assms(1) by (simp only: d if_False if_True simp_thms option.inject prod.inject)
    then show thesis
      by (intro same) (simp_all add: lane_events_def lane_simps)
  next
    case death
    then have "st' = snd (route_to_rework env pr issue router
        (clear_startup_death \<circ> set_last_head key head) st)"
      using assms(1)
      by (simp only: d if_False if_True simp_thms option.inject prod.inject split: prod.splits) simp
    with assms(2) show thesis
      by (intro same) (simp_all add: lane_events_def lane_simps route_to_rework_def)
  next
    case counts
    have g: "cap_reason key \<notin> set (pe_reasons_seen ?e)"
      using counts(1) by blast
    obtain n where pa: "pe_attempts ?e key = Coerces n"
      using assms(1) counts by (cases "pe_attempts ?e key") (simp_all only: d if_False if_True simp_thms raw_counter.case, simp_all)
    then have c: "route_counted env pr issue head key mx reason router ?pending (n + 1) st = (r, st')"
      using assms(1) counts by (simp only: d if_False if_True simp_thms raw_counter.case option.inject)
    from c assms(2) show thesis
    proof (cases rule: counted_cases)
      case deferred
      then show thesis
        by (intro same) simp_all
    next
      case rescued
      with g pa show thesis
        by (intro counted [of n]) simp_all
    next
      case capped
      from cap_fields [OF capped(4)] g pa show thesis
        by (intro counted [of n]) auto
    next
      case within
      with g pa show thesis
        by (intro counted [of n]) simp_all
    qed
  qed
qed

lemma stall_check_total:
  assumes "pe_attempts (pr_of st pr) key = Coerces n"
  shows "\<exists>x. check_janitor_rework_stall env pr issue status head key st = Some x"
proof -
  have "pe_attempts (pr_of (put_pr pr (\<lambda>e. set_stall key None None (e\<lparr>pe_issue := Some issue\<rparr>)) st) pr) key = Coerces n"
    using assms by (simp add: lane_simps)
  with assms show ?thesis
    by (simp add: check_janitor_rework_stall_def Let_def escalate_mechanical split: option.split)
qed

lemma route_total:
  assumes "pe_attempts (pr_of st pr) key = Coerces n"
  shows "\<exists>r st'. route_janitor_gate_failure_to_rework env pr issue head key mx reason router st = Some (r, st')"
  using assms stall_check_total [OF assms]
  by (auto simp: route_janitor_gate_failure_to_rework_def Let_def split: prod.split)

text \<open>A call about another pull request touches nothing of this one.\<close>

lemma stall_check_other:
  assumes "check_janitor_rework_stall env p issue status head key st = Some (r, st')" and "p \<noteq> pr"
  shows "pr_of st' pr = pr_of st pr \<and> lane_events ''rescue_dispatched'' pr st' = lane_events ''rescue_dispatched'' pr st"
  using assms
  by (auto simp: check_janitor_rework_stall_def Let_def escalate_mechanical lane_simps lane_events_def
      split: if_splits option.splits prod.splits)

lemma counted_other:
  assumes "route_counted env p issue head key mx reason router pending n st = (r, st')" and "p \<noteq> pr"
  shows "pr_of st' pr = pr_of st pr \<and> lane_events ''rescue_dispatched'' pr st' = lane_events ''rescue_dispatched'' pr st"
  using assms
  by (auto simp: route_counted_def defer_cap_escalation_def dispatch_rescue_def escalate_over_cap_def
      escalate_mechanical burn_attempt_def route_to_rework_def lane_simps lane_events_def
      split: if_splits option.splits prod.splits)

lemma route_other:
  assumes "route_janitor_gate_failure_to_rework env p issue head key mx reason router st = Some (r, st')" and "p \<noteq> pr"
  shows "pr_of st' pr = pr_of st pr \<and> lane_events ''rescue_dispatched'' pr st' = lane_events ''rescue_dispatched'' pr st"
proof -
  have death: "pr_of s pr = pr_of st pr \<and> lane_events ''rescue_dispatched'' pr s = lane_events ''rescue_dispatched'' pr st"
    if "route_to_rework env p issue router f st = (e, s)" for e f s
    using that assms(2) by (auto simp: route_to_rework_def lane_simps lane_events_def)
  have base: "lane_events ''rescue_dispatched'' pr (put_pr p f st) = lane_events ''rescue_dispatched'' pr st" for f
    by (simp add: lane_events_def lane_simps)
  show ?thesis
    using assms death base stall_check_other [OF _ assms(2)] counted_other [OF _ assms(2)]
    unfolding route_janitor_gate_failure_to_rework_def Let_def
    by (simp split: if_splits raw_counter.splits prod.splits) (auto simp: lane_simps base)
qed

section \<open>The history of a lane\<close>

text \<open>
  The states that any component can bring a lane to, with the number of times its escalations were cleared
  (\<open>clears\<close>) and the number of operator re-arms (\<open>rearms\<close>). \<open>route\<close> is a call of any lane about any pull request;
  the cap of this lane is \<open>mx\<close> throughout. \<open>rescue\<close> is the rescue that \<^verbatim>\<open>record_review\<close> dispatches at its own cap.
  \<open>reset\<close> is a packet, a merge or a sweep that zeroes the counter, \<open>deescalate\<close> the sweep that clears the
  escalations and may leave the counter, \<open>unescalate\<close> the operator's re-arm, which also gives the rescue back, and
  \<open>other\<close> any other write.
\<close>

inductive lane_history :: "string \<Rightarrow> int \<Rightarrow> int \<Rightarrow> lane_state \<Rightarrow> nat \<Rightarrow> nat \<Rightarrow> bool" for key mx pr where
  start: "ls_prs st pr = None \<Longrightarrow> lane_events ''rescue_dispatched'' pr st = 0 \<Longrightarrow> lane_history key mx pr st 0 0"
| route: "lane_history key mx pr st clears rearms \<Longrightarrow>
    route_janitor_gate_failure_to_rework env p issue head k m reason router st = Some (r, st') \<Longrightarrow>
    router \<noteq> ''rescue_dispatched'' \<Longrightarrow> (p = pr \<and> k = key \<longrightarrow> m = mx) \<Longrightarrow> lane_history key mx pr st' clears rearms"
| rescue: "lane_history key mx pr st clears rearms \<Longrightarrow>
    \<not> pe_rescue_attempted (pr_of st pr) \<Longrightarrow> pe_rescue_attempted (pr_of st' pr) \<Longrightarrow>
    pe_attempts (pr_of st' pr) key = pe_attempts (pr_of st pr) key \<Longrightarrow>
    set (pe_reasons_seen (pr_of st pr)) \<subseteq> set (pe_reasons_seen (pr_of st' pr)) \<Longrightarrow>
    lane_events ''rescue_dispatched'' pr st' = Suc (lane_events ''rescue_dispatched'' pr st) \<Longrightarrow>
    lane_history key mx pr st' clears rearms"
| reset: "lane_history key mx pr st clears rearms \<Longrightarrow>
    pe_attempts (pr_of st' pr) key = Coerces 0 \<Longrightarrow>
    pe_rescue_attempted (pr_of st' pr) = pe_rescue_attempted (pr_of st pr) \<Longrightarrow>
    lane_events ''rescue_dispatched'' pr st' = lane_events ''rescue_dispatched'' pr st \<Longrightarrow>
    lane_history key mx pr st' clears rearms"
| deescalate: "lane_history key mx pr st clears rearms \<Longrightarrow>
    pe_attempts (pr_of st' pr) key \<in> {pe_attempts (pr_of st pr) key, Coerces 0} \<Longrightarrow>
    pe_rescue_attempted (pr_of st' pr) = pe_rescue_attempted (pr_of st pr) \<Longrightarrow>
    lane_events ''rescue_dispatched'' pr st' = lane_events ''rescue_dispatched'' pr st \<Longrightarrow>
    lane_history key mx pr st' (Suc clears) rearms"
| unescalate: "lane_history key mx pr st clears rearms \<Longrightarrow>
    pe_attempts (pr_of st' pr) key = Coerces 0 \<Longrightarrow> \<not> pe_rescue_attempted (pr_of st' pr) \<Longrightarrow>
    lane_events ''rescue_dispatched'' pr st' = lane_events ''rescue_dispatched'' pr st \<Longrightarrow>
    lane_history key mx pr st' clears (Suc rearms)"
| other: "lane_history key mx pr st clears rearms \<Longrightarrow>
    pe_attempts (pr_of st' pr) key = pe_attempts (pr_of st pr) key \<Longrightarrow>
    pe_rescue_attempted (pr_of st' pr) = pe_rescue_attempted (pr_of st pr) \<Longrightarrow>
    set (pe_reasons_seen (pr_of st pr)) \<subseteq> set (pe_reasons_seen (pr_of st' pr)) \<Longrightarrow>
    lane_events ''rescue_dispatched'' pr st' = lane_events ''rescue_dispatched'' pr st \<Longrightarrow>
    lane_history key mx pr st' clears rearms"

text \<open>
  The invariant. Each clearing gives the counter room for one more attempt, the spent rescue gives it one
  and the recorded cap escalation another.
\<close>

definition attempts_bounded :: "string \<Rightarrow> int \<Rightarrow> int \<Rightarrow> nat \<Rightarrow> lane_state \<Rightarrow> bool" where
  "attempts_bounded key mx pr clears st \<longleftrightarrow>
     (\<exists>n. pe_attempts (pr_of st pr) key = Coerces n \<and> 0 \<le> n \<and>
        (0 < mx \<longrightarrow> n \<le> mx + int clears + (if pe_rescue_attempted (pr_of st pr) then 1 else 0) +
                         (if cap_reason key \<in> set (pe_reasons_seen (pr_of st pr)) then 1 else 0)))"

definition rescues_bounded :: "int \<Rightarrow> nat \<Rightarrow> lane_state \<Rightarrow> bool" where
  "rescues_bounded pr rearms st \<longleftrightarrow>
     lane_events ''rescue_dispatched'' pr st \<le> rearms + (if pe_rescue_attempted (pr_of st pr) then 1 else 0)"

lemma attempts_bounded_mono:
  assumes "attempts_bounded key mx pr clears st" and "clears \<le> clears'"
    and "pe_attempts (pr_of st' pr) key = pe_attempts (pr_of st pr) key"
    and "pe_rescue_attempted (pr_of st pr) \<longrightarrow> pe_rescue_attempted (pr_of st' pr)"
    and "clears < clears' \<or> set (pe_reasons_seen (pr_of st pr)) \<subseteq> set (pe_reasons_seen (pr_of st' pr))"
  shows "attempts_bounded key mx pr clears' st'"
  using assms by (auto simp: attempts_bounded_def split: if_splits)

lemma attempts_bounded_zero: "pe_attempts (pr_of st pr) key = Coerces 0 \<Longrightarrow> attempts_bounded key mx pr clears st"
  by (auto simp: attempts_bounded_def)

lemma route_keeps_bounds:
  assumes "route_janitor_gate_failure_to_rework env p issue head k m reason router st = Some (r, st')"
    and "router \<noteq> ''rescue_dispatched''" and "p = pr \<and> k = key \<longrightarrow> m = mx"
    and "attempts_bounded key mx pr clears st" and "rescues_bounded pr rearms st"
  shows "attempts_bounded key mx pr clears st' \<and> rescues_bounded pr rearms st'"
proof (cases "p = pr")
  case False
  from route_other [OF assms(1) this] show ?thesis
    using assms(4,5) by (simp add: attempts_bounded_def rescues_bounded_def)
next
  case True
  from assms(1) [unfolded True] assms(2) show ?thesis
  proof (cases rule: route_cases)
    case same
    then show ?thesis
      using attempts_bounded_mono [OF assms(4) order_refl, of st'] assms(5) by (simp add: rescues_bounded_def)
  next
    case (counted n)
    have rescues: "rescues_bounded pr rearms st'"
      using counted(5) assms(5) by (auto simp: rescues_bounded_def)
    have attempts: "attempts_bounded key mx pr clears st'"
    proof (cases "k = key")
      case False
      then show ?thesis
        using attempts_bounded_mono [OF assms(4) order_refl, of st'] counted(2,4,5) by auto
    next
      case key: True
      then have "m = mx"
        using True assms(3) by simp
      with counted assms(4) key show ?thesis
        by (auto simp: attempts_bounded_def over_cap_def split: if_splits)
    qed
    from attempts rescues show ?thesis ..
  qed
qed

lemma lane_history_bounded:
  "lane_history key mx pr st clears rearms \<Longrightarrow> attempts_bounded key mx pr clears st \<and> rescues_bounded pr rearms st"
proof (induction rule: lane_history.induct)
  case (start st)
  then show ?case
    by (simp add: attempts_bounded_def rescues_bounded_def pr_of_def get_or_def fresh_pr_def)
next
  case (route st clears rearms env p issue head k m reason router r st')
  then show ?case
    by (blast intro: route_keeps_bounds [THEN conjunct1] route_keeps_bounds [THEN conjunct2])
next
  case (rescue st clears rearms st')
  then show ?case
    using attempts_bounded_mono [of key mx pr clears st clears st'] by (simp add: rescues_bounded_def)
next
  case (reset st clears rearms st')
  then show ?case
    by (simp add: attempts_bounded_zero rescues_bounded_def)
next
  case (deescalate st clears rearms st')
  then show ?case
    using attempts_bounded_mono [of key mx pr clears st "Suc clears" st'] attempts_bounded_zero [of st' pr key mx "Suc clears"]
    by (auto simp: rescues_bounded_def)
next
  case (unescalate st clears rearms st')
  then show ?case
    by (auto simp: attempts_bounded_zero rescues_bounded_def split: if_splits)
next
  case (other st clears rearms st')
  then show ?case
    using attempts_bounded_mono [of key mx pr clears st clears st'] by (simp add: rescues_bounded_def)
qed

section \<open>Settled outcomes\<close>

text \<open>Once a lane has escalated, its calls change nothing until the history is cleared.\<close>

lemma escalated_lane_idle:
  assumes "cap_reason key \<in> set (pe_reasons_seen (pr_of st pr)) \<or>
      stall_reason key \<in> set (pe_reasons_seen (pr_of st pr)) \<or>
      cap_reason key \<in> set (ie_reasons_seen (issue_of st issue)) \<or>
      stall_reason key \<in> set (ie_reasons_seen (issue_of st issue))"
  shows "route_janitor_gate_failure_to_rework env pr issue head key mx reason router st =
    Some (Fall_through, st)"
proof -
  have "{cap_reason key, stall_reason key} \<inter>
      (set (ie_reasons_seen (issue_of st issue)) \<union> set (pe_reasons_seen (pr_of st pr))) \<noteq> {}"
    using assms by blast
  then show ?thesis
    by (simp add: route_janitor_gate_failure_to_rework_def Let_def)
qed

end
