(* ===== verification/Rework_Props.thy ===== *)
theory Rework_Props
  imports Rework_Bounds
begin

text \<open>
  The properties of the rework lanes: the bounds, the escalation, and the invariant of the escalation
  records.
\<close>

section \<open>The invariant of the escalation records under a routing call\<close>

lemma rework_requested_no_sink: "\<not> status_in (Some ''rework_requested'') sink_statuses"
  by (simp add: sink_statuses_def status_in_def)

lemma issue_ok_requested:
  "issue_escalation_ok i \<Longrightarrow>
   issue_escalation_ok (i\<lparr> ie_status := Some ''rework_requested'', ie_merge_alert := Some ''OK'' \<rparr>)"
  by (simp add: issue_escalation_ok_def rework_requested_no_sink)

lemma route_escalation_ok:
  assumes "escalation_ok st" and "route_to_rework env pr issue kind extra st = (err, st')"
    and "\<And>e. pe_reasons_seen (extra e) = pe_reasons_seen e" and "\<And>e. pe_status (extra e) = pe_status e"
  shows "escalation_ok st'"
proof -
  have i: "escalation_ok (put_issue issue
      (\<lambda>i. i\<lparr> ie_status := Some ''rework_requested'', ie_merge_alert := Some ''OK'' \<rparr>) st)"
    by (intro escalation_ok_put_issue [OF assms(1)] issue_ok_requested)
  have "pr_escalation_ok e \<Longrightarrow> pr_escalation_ok (extra (e\<lparr> pe_issue := Some issue, pe_status := Some ''rework_requested'' \<rparr>))"
    for e
    using assms(3,4) by (simp add: pr_escalation_ok_def rework_requested_no_sink)
  then have "escalation_ok (put_pr pr (\<lambda>e. extra (e\<lparr> pe_issue := Some issue, pe_status := Some ''rework_requested'' \<rparr>))
      (put_issue issue (\<lambda>i. i\<lparr> ie_status := Some ''rework_requested'', ie_merge_alert := Some ''OK'' \<rparr>) st))"
    by (intro escalation_ok_put_pr [OF i]) simp
  with assms(2) show ?thesis
    by (auto simp: route_to_rework_def)
qed

lemma pr_ok_same:
  "pr_escalation_ok e \<Longrightarrow> pe_reasons_seen e' = pe_reasons_seen e \<Longrightarrow> pe_status e' = pe_status e \<Longrightarrow>
   pe_escalation_reason e' = pe_escalation_reason e \<Longrightarrow> pr_escalation_ok e'"
  by (simp add: pr_escalation_ok_def)

lemma escalation_ok_put_same:
  assumes "escalation_ok st"
    and "\<And>e. pe_reasons_seen (f e) = pe_reasons_seen e" and "\<And>e. pe_status (f e) = pe_status e"
    and "\<And>e. pe_escalation_reason (f e) = pe_escalation_reason e"
  shows "escalation_ok (put_pr pr f st)"
  using assms(2-4) by (intro escalation_ok_put_pr [OF assms(1)]) (rule pr_ok_same)

lemma kept_fields [simp]:
  "pe_status (set_attempts k n e) = pe_status e"
  "pe_escalation_reason (set_attempts k n e) = pe_escalation_reason e"
  "pe_status (set_last_head k h e) = pe_status e"
  "pe_escalation_reason (set_last_head k h e) = pe_escalation_reason e"
  "pe_status (clear_startup_death e) = pe_status e"
  "pe_escalation_reason (clear_startup_death e) = pe_escalation_reason e"
  "pe_status (set_stall k s sh e) = pe_status e"
  "pe_escalation_reason (set_stall k s sh e) = pe_escalation_reason e"
  by (simp_all add: set_attempts_def set_last_head_def clear_startup_death_def set_stall_def)

lemma stall_escalation_ok:
  assumes "check_janitor_rework_stall env pr issue status head key st = Some (r, st')" and "escalation_ok st"
  shows "escalation_ok st'"
proof -
  define st1 where "st1 = (if pe_stall_since (pr_of st pr) key \<noteq> None \<and> pe_stall_head (pr_of st pr) key \<noteq> None \<and>
      head \<noteq> [] \<and> pe_stall_head (pr_of st pr) key \<noteq> Some head
    then put_pr pr (\<lambda>e. set_stall key None None (e\<lparr>pe_issue := Some issue\<rparr>)) st else st)"
  have ok1: "escalation_ok st1"
    unfolding st1_def using assms(2) by (auto intro: escalation_ok_put_same)
  have put: "escalation_ok (put_pr pr (\<lambda>e. set_stall key s h (e\<lparr>pe_issue := Some issue\<rparr>)) st1)" for s h
    using ok1 by (rule escalation_ok_put_same) simp_all
  have esc: "escalation_ok st2"
    if "escalate_issue now (Some issue) reason rc status' (Some pr) id (set_stall key None None) st1 = Some st2"
    for now reason rc status' st2
    by (rule escalate_issue_ok [OF that ok1]) simp_all
  have "st' = st1 \<or> (\<exists>s h. st' = put_pr pr (\<lambda>e. set_stall key s h (e\<lparr>pe_issue := Some issue\<rparr>)) st1) \<or>
      (\<exists>st2. escalate_issue (re_now env) (Some issue) (stall_reason key) ''mechanical'' ''escalated''
              (Some pr) id (set_stall key None None) st1 = Some st2 \<and>
            st' = record_event ''janitor_rework_stalled'' (Some pr) (Some issue) st2)"
    using assms(1) unfolding check_janitor_rework_stall_def Let_def st1_def [symmetric]
    by (simp split: if_splits option.splits prod.splits) blast+
  then show ?thesis
    using ok1 put esc by auto
qed

lemma counted_escalation_ok:
  assumes "route_counted env pr issue head key mx reason router pending n st = (r, st')" and "escalation_ok st"
  shows "escalation_ok st'"
proof -
  have kept: "escalation_ok (defer_cap_escalation issue w st)" for w
    using assms(2) by (auto simp: defer_cap_escalation_def issue_escalation_ok_def intro: escalation_ok_put_issue)
  have rescue: "escalation_ok s" if d: "dispatch_rescue env pr issue head key reason router n st = (x, s)" for x s
  proof -
    let ?s = "record_event ''rescue_dispatched'' (Some pr) (Some issue)
      (put_pr pr (\<lambda>e. clear_startup_death ((set_attempts key n e)\<lparr> pe_issue := Some issue,
         pe_rescue_attempted := True, pe_rescue_cause := Some reason \<rparr>)) st)"
    have ok: "escalation_ok ?s"
      unfolding escalation_ok_record_event by (rule escalation_ok_put_same [OF assms(2)]) simp_all
    obtain err where "route_to_rework env pr issue router
        (clear_startup_death \<circ> set_last_head key head \<circ> set_attempts key n) ?s = (err, s)"
      using d by (auto simp: dispatch_rescue_def split: prod.splits)
    from route_escalation_ok [OF ok this] show ?thesis
      by simp
  qed
  have cap: "escalation_ok s" if c: "escalate_over_cap env pr issue head key n st = (x, s)" for x s
  proof -
    note e = escalate_mechanical [of "re_now env" issue "cap_reason key" pr id
        "cap_escalation_pr_extra key n (truthy (ie_dispatched_at (issue_of st issue))) head" st]
    have "escalation_ok (the (escalate_issue (re_now env) (Some issue) (cap_reason key) ''mechanical'' ''escalated''
        (Some pr) id (cap_escalation_pr_extra key n (truthy (ie_dispatched_at (issue_of st issue))) head) st))"
      unfolding e option.sel by (rule escalate_issue_ok [OF e assms(2)]) simp_all
    with c show ?thesis
      by (auto simp: escalate_over_cap_def e)
  qed
  have burn: "escalation_ok (burn_attempt pr issue head key n st)"
    unfolding burn_attempt_def escalation_ok_record_event
    by (rule escalation_ok_put_same [OF assms(2)]) simp_all
  have routed: "escalation_ok s" if "route_to_rework env pr issue router
      (clear_startup_death \<circ> set_last_head key head \<circ> set_attempts key n) st = (x, s)" for x s
    by (rule route_escalation_ok [OF assms(2) that]) simp_all
  show ?thesis
    using assms(1) kept rescue cap burn routed
    by (auto simp: route_counted_def split: if_splits option.splits prod.splits)
qed

section \<open>A sample lane\<close>

definition lane_env :: "bool \<Rightarrow> route_env" where
  "lane_env rescue =
     \<lparr> re_fromiso = iso_extended, re_now = ''2026-01-01T00:00:00Z'', re_clock = 0,
       re_stall_minutes = 60, re_rescue_enabled = rescue, re_live_worker = None,
       re_edge_error = (\<lambda>_. None) \<rparr>"

definition clean_lane :: lane_state where
  "clean_lane = \<lparr> ls_prs = (\<lambda>_. None), ls_issues = (\<lambda>_. None), ls_events = [] \<rparr>"

text \<open>A lane that has made \<open>n\<close> attempts.\<close>

definition lane_at :: "int \<Rightarrow> lane_state" where
  "lane_at n = put_pr 12 (set_attempts ''check_rework_attempts'' n) clean_lane"

abbreviation sample_route where
  "sample_route rescue st \<equiv>
     route_janitor_gate_failure_to_rework (lane_env rescue) 12 7 ''abc'' ''check_rework_attempts'' 2
       ''check_failure'' ''rework_requested'' st"

lemma clean_lane_entries: "pr_of clean_lane p = fresh_pr" "issue_of clean_lane i = fresh_issue"
  by (simp_all add: clean_lane_def pr_of_def issue_of_def get_or_def)

lemma clean_lane_ok: "escalation_ok clean_lane"
  by (simp add: escalation_ok_def clean_lane_entries fresh_pr_def fresh_issue_def
      issue_escalation_ok_def pr_escalation_ok_def status_in_def)

lemma lane_at_entries [simp]:
  "pe_attempts (pr_of (lane_at n) 12) ''check_rework_attempts'' = Coerces n"
  "pe_reasons_seen (pr_of (lane_at n) 12) = []" "\<not> pe_startup_death (pr_of (lane_at n) 12)"
  "\<not> pe_rescue_attempted (pr_of (lane_at n) 12)" "issue_of (lane_at n) 7 = fresh_issue"
  by (simp_all add: lane_at_def lane_simps clean_lane_entries set_attempts_def fresh_pr_def)

lemma lane_at_route:
  "sample_route rescue (lane_at n) = Some (route_counted (lane_env rescue) 12 7 ''abc''
     ''check_rework_attempts'' 2 ''check_failure'' ''rework_requested'' False (n + 1) (lane_at n))"
  by (simp add: route_janitor_gate_failure_to_rework_def Let_def fresh_issue_def status_in_def
      rework_pending_statuses_def)

section \<open>The bounds of a lane\<close>



text \<open>
  While a rework is pending and its head has not settled on a new one, a call burns no attempt
  and routes nothing: a pull request is not sent to rework twice for the same failure.
\<close>

theorem pending_burns_nothing:
  assumes "route_janitor_gate_failure_to_rework env pr issue head key mx reason router st = Some (r, st')"
    and "status_in (ie_status (issue_of st issue)) rework_pending_statuses"
    and "reason \<noteq> ''merge_conflict'' \<or> ie_status (issue_of st issue) \<noteq> Some ''rework_requested'' \<or>
      head = [] \<or> pe_last_head (pr_of st pr) key = Some head"
  shows "pe_attempts (pr_of st' pr) = pe_attempts (pr_of st pr) \<and> \<not> routed_to_rework r"
proof (cases "{cap_reason key, stall_reason key} \<inter>
      (set (ie_reasons_seen (issue_of st issue)) \<union> set (pe_reasons_seen (pr_of st pr))) = {}")
  case True
  then have s: "check_janitor_rework_stall env pr issue (ie_status (issue_of st issue)) head key st = Some (r, st')"
    using assms by (auto simp: route_janitor_gate_failure_to_rework_def Let_def split: if_splits)
  then have "\<not> routed_to_rework r"
    by (auto simp: check_janitor_rework_stall_def Let_def routed_to_rework_def escalate_mechanical
        split: if_splits option.splits prod.splits)
  with stall_check_fields [OF s] show ?thesis
    by blast
next
  case False
  then show ?thesis
    using assms(1)
    by (auto simp: route_janitor_gate_failure_to_rework_def Let_def routed_to_rework_def split: if_splits)
qed

definition waiting_lane :: lane_state where
  "waiting_lane = put_issue 7 (\<lambda>i. i\<lparr>ie_status := Some ''dispatched''\<rparr>) (lane_at 1)"

theorem pending_burns_nothing_witness:
  "\<exists>r st'. sample_route True waiting_lane = Some (r, st') \<and> \<not> routed_to_rework r \<and>
    pe_attempts (pr_of st' 12) ''check_rework_attempts'' = Coerces 1"
proof -
  have w: "ie_status (issue_of waiting_lane 7) = Some ''dispatched''" "pr_of waiting_lane 12 = pr_of (lane_at 1) 12"
    "ie_reasons_seen (issue_of waiting_lane 7) = []"
    by (simp_all add: waiting_lane_def lane_simps fresh_issue_def)
  have "sample_route True waiting_lane = check_janitor_rework_stall (lane_env True) 12 7
      (Some ''dispatched'') ''abc'' ''check_rework_attempts'' waiting_lane"
    by (simp add: route_janitor_gate_failure_to_rework_def Let_def w status_in_def rework_pending_statuses_def)
  then obtain r st' where r: "sample_route True waiting_lane = Some (r, st')"
    by (simp add: check_janitor_rework_stall_def Let_def)
  have "status_in (ie_status (issue_of waiting_lane 7)) rework_pending_statuses"
    by (simp add: w status_in_def rework_pending_statuses_def)
  from pending_burns_nothing [OF r this] r w show ?thesis
    by (simp add: w)
qed

section \<open>The cap escalation\<close>

text \<open>
   A failure past the cap, with no live worker on the issue and no rescue left, escalates: the
  pull request and its issue get the status \<^verbatim>\<open>escalated\<close> with the lane's reason in both histories,
  the attempt is counted, and from then on every call of the lane for the pull request and the issue
  changes nothing.
\<close>

theorem over_cap_escalates:
  assumes "{cap_reason key, stall_reason key} \<inter>
      (set (ie_reasons_seen (issue_of st issue)) \<union> set (pe_reasons_seen (pr_of st pr))) = {}"
    and "\<not> status_in (ie_status (issue_of st issue)) rework_pending_statuses"
    and "\<not> pe_startup_death (pr_of st pr)" and "pe_attempts (pr_of st pr) key = Coerces n"
    and "over_cap mx (n + 1)" and "re_live_worker env = None"
    and "\<not> re_rescue_enabled env \<or> pe_rescue_attempted (pr_of st pr)"
  shows "\<exists>e st'. route_janitor_gate_failure_to_rework env pr issue head key mx reason router st =
      Some (Cap_escalated e, st') \<and>
    pe_status (pr_of st' pr) = Some ''escalated'' \<and> ie_status (issue_of st' issue) = Some ''escalated'' \<and>
    cap_reason key \<in> set (pe_reasons_seen (pr_of st' pr)) \<and> pe_attempts (pr_of st' pr) key = Coerces (n + 1) \<and>
    (\<forall>env' head' mx' reason' router'. route_janitor_gate_failure_to_rework env' pr issue head' key mx' reason' router' st' =
       Some (Fall_through, st'))"
proof -
  obtain r st' where e: "escalate_over_cap env pr issue head key (n + 1) st = (r, st')"
    by (cases "escalate_over_cap env pr issue head key (n + 1) st") auto
  have "route_janitor_gate_failure_to_rework env pr issue head key mx reason router st = Some (r, st')"
    using assms e by (auto simp: route_janitor_gate_failure_to_rework_def Let_def route_counted_def)
  moreover have "route_janitor_gate_failure_to_rework env' pr issue head' key mx' reason' router' st' = Some (Fall_through, st')"
    for env' head' mx' reason' router'
    by (rule escalated_lane_idle) (simp add: cap_fields(3) [OF e])
  ultimately show ?thesis
    using cap_fields [OF e] by auto
qed

theorem over_cap_escalates_witness:
  "\<exists>e st'. sample_route False (lane_at 2) = Some (Cap_escalated e, st') \<and>
    sample_route True st' = Some (Fall_through, st')"
proof -
  have "over_cap 2 (2 + 1)" "\<not> status_in (ie_status (issue_of (lane_at 2) 7)) rework_pending_statuses"
    "re_live_worker (lane_env False) = None" "\<not> re_rescue_enabled (lane_env False)"
    "ie_reasons_seen (issue_of (lane_at 2) 7) = []"
    by (simp_all add: over_cap_def fresh_issue_def status_in_def lane_env_def)
  with over_cap_escalates [of "''check_rework_attempts''" "lane_at 2" 7 12 2 2 "lane_env False" "''abc''"
      "''check_failure''" "''rework_requested''"] show ?thesis
    by auto
qed

text \<open>
  The escalation records stay consistent: a routing call, whatever it decides, keeps the
  invariant that an escalated or blocked issue or pull request names a reason, that the reason is in
  its history, that no history holds a reason twice, and that a blocked issue is a judgment call.
\<close>

theorem routing_keeps_escalations_ok:
  assumes "route_janitor_gate_failure_to_rework env pr issue head key mx reason router st = Some (r, st')"
    and "escalation_ok st"
  shows "escalation_ok st'"
proof -
  have stall: "escalation_ok s" if "check_janitor_rework_stall env pr issue x head key st = Some (q, s)" for x q s
    using stall_escalation_ok [OF that assms(2)] .
  have base: "escalation_ok (put_pr pr (\<lambda>e. set_stall key None None
      (e\<lparr> pe_issue := Some issue, pe_last_head := (pe_last_head e)(key := Some head) \<rparr>)) st)"
    by (rule escalation_ok_put_same [OF assms(2)]) simp_all
  have death: "escalation_ok s" if "route_to_rework env pr issue router
      (clear_startup_death \<circ> set_last_head key head) st = (x, s)" for x s
    by (rule route_escalation_ok [OF assms(2) that]) simp_all
  have counted: "escalation_ok s"
    if "route_counted env pr issue head key mx reason router b n st = (q, s)" for b n q s
    using counted_escalation_ok [OF that assms(2)] .
  show ?thesis
    using assms stall base death counted unfolding route_janitor_gate_failure_to_rework_def Let_def
    by (simp split: if_splits raw_counter.splits prod.splits)
qed

theorem routing_keeps_escalations_ok_witness:
  "\<exists>r st'. sample_route False (lane_at 2) = Some (r, st') \<and> escalation_ok st'"
proof -
  obtain r st' where r: "sample_route False (lane_at 2) = Some (r, st')"
    using lane_at_route by (metis prod.collapse)
  have "escalation_ok (lane_at 2)"
    unfolding lane_at_def by (rule escalation_ok_put_same [OF clean_lane_ok]) simp_all
  from routing_keeps_escalations_ok [OF r this] r show ?thesis
    by blast
qed

section \<open>The stall bound\<close>

text \<open>
  A pending rework escalates as stalled exactly when it waits in the queue (the issue is
  \<^verbatim>\<open>rework_requested\<close>, so no session works on it), a stall clock with a head anchor is running,
  the head has not moved since, and the configured minutes have passed. A dispatched session is never
  escalated for a stall, and a moved head never is either.
\<close>

theorem stall_escalates_exactly:
  assumes "check_janitor_rework_stall env pr issue status head key st = Some (r, st')"
  shows "route_escalated r \<longleftrightarrow>
    status = Some ''rework_requested'' \<and>
    (\<exists>t h. parse_iso_timestamp (re_fromiso env) (pe_stall_since (pr_of st pr) key) = Some t \<and>
       pe_stall_head (pr_of st pr) key = Some h \<and> (head = [] \<or> head = h) \<and> stall_expired env (as_utc t))"
proof -
  have n: "parse_iso_timestamp f None = None" for f
    by (simp add: parse_iso_timestamp_def)
  show ?thesis
    using assms unfolding check_janitor_rework_stall_def Let_def
    by (auto simp: n route_escalated_def escalate_mechanical split: if_splits option.splits)
qed

definition stalled_lane :: lane_state where
  "stalled_lane =
     put_pr 12 (set_stall ''check_rework_attempts'' (Some ''1970-01-01T00:00:00Z'') (Some ''abc'')) (lane_at 1)"

theorem stall_escalates_exactly_witness:
  "\<exists>r st'. check_janitor_rework_stall ((lane_env False)\<lparr>re_clock := minutes 60\<rparr>) 12 7
      (Some ''rework_requested'') ''abc'' ''check_rework_attempts'' stalled_lane = Some (r, st') \<and>
    route_escalated r"
proof -
  let ?env = "(lane_env False)\<lparr>re_clock := minutes 60\<rparr>"
  let ?check = "check_janitor_rework_stall ?env 12 7 (Some ''rework_requested'') ''abc''
    ''check_rework_attempts'' stalled_lane"
  have s: "pe_stall_since (pr_of stalled_lane 12) ''check_rework_attempts'' = Some ''1970-01-01T00:00:00Z''"
    "pe_stall_head (pr_of stalled_lane 12) ''check_rework_attempts'' = Some ''abc''"
    "pe_attempts (pr_of stalled_lane 12) ''check_rework_attempts'' = Coerces 1"
    by (simp_all add: stalled_lane_def lane_simps set_stall_def)
  have p: "parse_iso_timestamp (re_fromiso ?env) (Some ''1970-01-01T00:00:00Z'') = Some (Aware 0)"
    by (simp add: parse_iso_timestamp_def lane_env_def iso_extended_epoch)
  have x: "stall_expired ?env (as_utc (Aware 0))"
    by (simp add: stall_expired_def lane_env_def)
  obtain r st' where r: "?check = Some (r, st')"
    using s p x by (simp add: check_janitor_rework_stall_def Let_def escalate_mechanical del: as_utc.simps)
  from stall_escalates_exactly [OF r] s p x r show ?thesis
    by auto
qed

end
