(* ===== verification/Blocker_Cycles.thy ===== *)
theory Blocker_Cycles
  imports Local_Issues "HOL-Library.Multiset"
begin

text \<open>
  The blocker-cycle scan (\<^verbatim>\<open>blocker_cycles.py\<close>): the graph of the open issues and the open issues
  that block them, its strongly connected components (Kosaraju's algorithm), and the enumeration of
  its elementary cycles under a report limit, a cycle limit for each component and a work budget for
  each component.

  A dict of adjacency lists is an association list in the dict's order, with one entry for each key.
  A Python iterator over a list is the list of what it has still to give; a stack has its top first.
\<close>

section \<open>Graphs\<close>

type_synonym adjacency = "(int \<times> int list) list"

text \<open>
  \<^verbatim>\<open>adjacency[node]\<close>. Every vertex is a key where the program looks one up (\<open>closed\<close> below), so the
  branch of a missing key, a KeyError, is not reached.
\<close>

definition succs :: "adjacency \<Rightarrow> int \<Rightarrow> int list" where
  "succs adj n = (case map_of adj n of None \<Rightarrow> [] | Some ts \<Rightarrow> ts)"

definition targets_of :: "adjacency \<Rightarrow> int set" where
  "targets_of adj = \<Union> (set ` snd ` set adj)"

definition closed :: "adjacency \<Rightarrow> bool" where
  "closed adj \<longleftrightarrow> distinct (map fst adj) \<and> targets_of adj \<subseteq> set (map fst adj)"

lemma finite_targets_of [simp]: "finite (targets_of adj)"
  by (simp add: targets_of_def)

lemma succs_subset: "set (succs adj n) \<subseteq> targets_of adj"
proof (cases "map_of adj n")
  case (Some ts)
  then show ?thesis by (force simp: succs_def targets_of_def dest: map_of_SomeD)
qed (simp add: succs_def)

section \<open>Strongly connected components\<close>

text \<open>The inner loop of the first pass: depth-first search, noting the order vertices finish in.\<close>

function finish_loop ::
  "adjacency \<Rightarrow> int set \<Rightarrow> (int \<times> int list) list \<Rightarrow> int list \<Rightarrow> int set \<times> int list" where
  "finish_loop adj visited [] finished = (visited, finished)"
| "finish_loop adj visited ((node, []) # stack) finished =
     finish_loop adj visited stack (finished @ [node])"
| "finish_loop adj visited ((node, nxt # rest) # stack) finished =
     (if nxt \<notin> visited
      then finish_loop adj (insert nxt visited) ((nxt, succs adj nxt) # (node, rest) # stack) finished
      else finish_loop adj visited ((node, rest) # stack) finished)"
  by pat_completeness auto

text \<open>
  Each push visits a vertex of the graph, or of the stack's lists, that was not visited; between two
  pushes the lists get shorter.
\<close>

definition unvisited :: "adjacency \<Rightarrow> int set \<Rightarrow> (int \<times> int list) list \<Rightarrow> nat" where
  "unvisited adj visited stack =
     card ((targets_of adj \<union> \<Union> (set ` snd ` set stack)) - visited)"

lemma unvisited_mono:
  assumes "\<Union> (set ` snd ` set stack') \<subseteq> \<Union> (set ` snd ` set stack)"
  shows "unvisited adj visited stack' \<le> unvisited adj visited stack"
  unfolding unvisited_def by (rule card_mono) (use assms in auto)

lemma unvisited_push:
  assumes "nxt \<notin> visited"
  shows "unvisited adj (insert nxt visited) ((nxt, succs adj nxt) # (node, rest) # stack)
    < unvisited adj visited ((node, nxt # rest) # stack)"
  unfolding unvisited_def
  by (rule psubset_card_mono) (use assms succs_subset [of adj nxt] in auto)

termination finish_loop
proof (relation "(\<lambda>(adj, v, st, _). unvisited adj v st) <*mlex*>
    measure (\<lambda>(adj, v, st, _). \<Sum>(n, ts)\<leftarrow>st. Suc (length ts))", goal_cases)
  case 1
  show ?case by (intro wf_mlex wf_measure)
next
  case (2 adj visited node stack finished)
  have "unvisited adj visited stack \<le> unvisited adj visited ((node, []) # stack)"
    by (rule unvisited_mono) simp
  then show ?case by (intro mlex_leq) simp_all
next
  case (3 adj visited node nxt rest stack finished)
  then show ?case by (intro mlex_less) (simp add: unvisited_push)
next
  case (4 adj visited node nxt rest stack finished)
  have "unvisited adj visited ((node, rest) # stack) \<le> unvisited adj visited ((node, nxt # rest) # stack)"
    by (rule unvisited_mono) auto
  then show ?case by (intro mlex_leq) simp_all
qed

fun finish_roots :: "adjacency \<Rightarrow> int list \<Rightarrow> int set \<times> int list \<Rightarrow> int set \<times> int list" where
  "finish_roots adj [] (visited, finished) = (visited, finished)"
| "finish_roots adj (root # roots) (visited, finished) =
     finish_roots adj roots
       (if root \<in> visited then (visited, finished)
        else finish_loop adj (insert root visited) [(root, succs adj root)] finished)"

definition finish_order :: "adjacency \<Rightarrow> int list" where
  "finish_order adj = snd (finish_roots adj (map fst adj) ({}, []))"

text \<open>\<^verbatim>\<open>reversed_adjacency\<close>: the sources of the edges into each vertex, in the order of the dict.\<close>

definition reversed_adjacency :: "adjacency \<Rightarrow> adjacency" where
  "reversed_adjacency adj =
     map (\<lambda>(t, _). (t, concat (map (\<lambda>(n, ts). map (\<lambda>_. n) (filter (\<lambda>t'. t' = t) ts)) adj))) adj"

text \<open>The inner loops of the second pass: one step pushes every predecessor not yet seen.\<close>

fun push_unseen :: "int list \<Rightarrow> int set \<times> int list \<times> int list \<Rightarrow> int set \<times> int list \<times> int list" where
  "push_unseen [] (seen, component, stack) = (seen, component, stack)"
| "push_unseen (p # ps) (seen, component, stack) =
     push_unseen ps
       (if p \<notin> seen then (insert p seen, component @ [p], p # stack) else (seen, component, stack))"

lemma push_unseen_eq:
  "push_unseen ps (seen, component, stack) =
    (seen \<union> set ps, component @ dedup (filter (\<lambda>p. p \<notin> seen) ps),
     rev (dedup (filter (\<lambda>p. p \<notin> seen) ps)) @ stack)"
proof (induction ps arbitrary: seen component stack)
  case (Cons p ps)
  show ?case
  proof (cases "p \<in> seen")
    case False
    have "filter (\<lambda>q. q \<noteq> p \<and> q \<notin> seen) ps = removeAll p (filter (\<lambda>q. q \<notin> seen) ps)"
      by (simp add: removeAll_filter_not_eq conj_commute eq_commute [of _ p])
    with False show ?thesis by (simp add: Cons.IH)
  qed (auto simp: Cons.IH)
qed simp

definition component_measure :: "((adjacency \<times> int set \<times> int list \<times> int list) \<times>
    (adjacency \<times> int set \<times> int list \<times> int list)) set" where
  "component_measure = (\<lambda>(radj, seen, _, _). card (targets_of radj - seen)) <*mlex*>
     measure (\<lambda>(radj, seen, _, stack). length stack)"

lemma wf_component_measure: "wf component_measure"
  unfolding component_measure_def by (intro wf_mlex wf_measure)

lemma push_unseen_measure:
  assumes "(seen', component', stack') = push_unseen (succs radj node) (seen, component, stack)"
  shows "((radj, seen', component', stack'), (radj, seen, component, node # stack)) \<in> component_measure"
proof -
  have s: "seen' = seen \<union> set (succs radj node)"
    and st: "stack' = rev (dedup (filter (\<lambda>p. p \<notin> seen) (succs radj node))) @ stack"
    using assms by (simp_all add: push_unseen_eq)
  show ?thesis
  proof (cases "set (succs radj node) \<subseteq> seen")
    case True
    then have "filter (\<lambda>p. p \<notin> seen) (succs radj node) = []" by (auto simp: filter_empty_conv)
    with s st True show ?thesis
      unfolding component_measure_def by (intro mlex_leq) (auto simp: Un_absorb2)
  next
    case False
    then have "card (targets_of radj - seen') < card (targets_of radj - seen)"
      unfolding s by (intro psubset_card_mono) (use succs_subset [of radj node] in auto)
    then show ?thesis unfolding component_measure_def by (intro mlex_less) simp
  qed
qed

function component_loop ::
  "adjacency \<Rightarrow> int set \<Rightarrow> int list \<Rightarrow> int list \<Rightarrow> int set \<times> int list" where
  "component_loop radj seen component [] = (seen, component)"
| "component_loop radj seen component (node # stack) =
     (case push_unseen (succs radj node) (seen, component, stack) of
        (seen', component', stack') \<Rightarrow> component_loop radj seen' component' stack')"
  by pat_completeness auto

termination component_loop
  by (relation component_measure) (rule wf_component_measure, metis push_unseen_measure)

fun component_roots ::
  "adjacency \<Rightarrow> int list \<Rightarrow> int set \<times> int list list \<Rightarrow> int set \<times> int list list" where
  "component_roots radj [] (seen, components) = (seen, components)"
| "component_roots radj (root # roots) (seen, components) =
     component_roots radj roots
       (if root \<in> seen then (seen, components)
        else case component_loop radj (insert root seen) [root] [root] of
               (seen', component) \<Rightarrow> (seen', components @ [component]))"

definition strongly_connected_components :: "adjacency \<Rightarrow> int list list" where
  "strongly_connected_components adj =
     snd (component_roots (reversed_adjacency adj) (rev (finish_order adj)) ({}, []))"

text \<open>\<^verbatim>\<open>_is_cyclic_component\<close>.\<close>

definition is_cyclic_component :: "adjacency \<Rightarrow> int list \<Rightarrow> bool" where
  "is_cyclic_component adj component \<longleftrightarrow>
     length component > 1 \<or> hd component \<in> set (succs adj (hd component))"


section \<open>Cycles of one component\<close>

definition reaches_limit :: "int option \<Rightarrow> int \<Rightarrow> bool" where
  "reaches_limit limit n \<longleftrightarrow> (case limit of None \<Rightarrow> False | Some l \<Rightarrow> l \<le> n)"

definition exceeds_limit :: "int option \<Rightarrow> int \<Rightarrow> bool" where
  "exceeds_limit limit n \<longleftrightarrow> (case limit of None \<Rightarrow> False | Some l \<Rightarrow> l < n)"

text \<open>
  The search below one anchor. \<open>path\<close> has its last vertex first and \<open>stack\<close> one iterator for each
  vertex of it; \<^verbatim>\<open>in_path\<close> is the set of its vertices. The result is what was found, the steps made
  and whether a cap ended the search.
\<close>

function cycle_search ::
  "adjacency \<Rightarrow> int list \<Rightarrow> int \<Rightarrow> int option \<Rightarrow> int option \<Rightarrow> int list \<Rightarrow> int list list \<Rightarrow>
   int list list \<Rightarrow> int \<Rightarrow> int list list \<times> int \<times> bool" where
  "cycle_search adj component start cycle_limit step_budget path [] found steps = (found, steps, False)"
| "cycle_search adj component start cycle_limit step_budget path ([] # stack) found steps =
     cycle_search adj component start cycle_limit step_budget (tl path) stack found steps"
| "cycle_search adj component start cycle_limit step_budget path ((nxt # rest) # stack) found steps =
     (if reaches_limit step_budget (steps + 1) \<or> exceeds_limit cycle_limit (int (length found))
      then (found, steps + 1, True)
      else if nxt = start
      then cycle_search adj component start cycle_limit step_budget path (rest # stack)
             (found @ [rev path]) (steps + 1)
      else if nxt > start \<and> nxt \<in> set component \<and> nxt \<notin> set path
      then cycle_search adj component start cycle_limit step_budget (nxt # path)
             (succs adj nxt # rest # stack) found (steps + 1)
      else cycle_search adj component start cycle_limit step_budget path (rest # stack) found (steps + 1))"
  by pat_completeness auto

text \<open>
  The work a stack stands for: an iterator weighs its length times a power of the out-degree, one
  factor for each vertex of the component that the path can still take.
\<close>

definition out_degree :: "adjacency \<Rightarrow> nat" where
  "out_degree adj = sum_list (map (\<lambda>(n, ts). length ts) adj)"

fun search_weight :: "adjacency \<Rightarrow> int list \<Rightarrow> int list \<Rightarrow> int list list \<Rightarrow> nat" where
  "search_weight adj component path [] = 0"
| "search_weight adj component path (it # stack) =
     length it * (out_degree adj + 2) ^ card (set component - set path) + 1
     + search_weight adj component (tl path) stack"

lemma length_succs: "length (succs adj n) \<le> out_degree adj"
proof (cases "map_of adj n")
  case (Some ts)
  then have "(\<lambda>(n, ts). length ts) (n, ts) \<le> sum_list (map (\<lambda>(n, ts). length ts) adj)"
    by (intro member_le_sum_list) (force dest: map_of_SomeD, simp)
  with Some show ?thesis by (simp add: succs_def out_degree_def)
qed (simp add: succs_def)

lemma search_weight_push:
  assumes "nxt \<in> set component" and "nxt \<notin> set path"
  shows "search_weight adj component (nxt # path) (succs adj nxt # rest # stack)
    < search_weight adj component path ((nxt # rest) # stack)"
proof -
  let ?b = "out_degree adj + 2"
  let ?k = "card (set component - set (nxt # path))"
  have k: "card (set component - set path) = Suc ?k"
    using assms card_Suc_Diff1 [of "set component - set path" nxt]
    by (simp add: Diff_insert2 [symmetric])
  have "length (succs adj nxt) * ?b ^ ?k \<le> out_degree adj * ?b ^ ?k"
    by (rule mult_right_mono) (simp_all add: length_succs)
  moreover have "1 \<le> ?b ^ ?k" by simp
  moreover have "?b ^ Suc ?k = out_degree adj * ?b ^ ?k + 2 * ?b ^ ?k"
    by (simp add: algebra_simps)
  ultimately have step: "length (succs adj nxt) * ?b ^ ?k + 1 < ?b ^ Suc ?k" by linarith
  have "length (nxt # rest) * ?b ^ Suc ?k = ?b ^ Suc ?k + length rest * ?b ^ Suc ?k"
    by (simp only: list.size add_mult_distrib)
  with step show ?thesis unfolding search_weight.simps list.sel k by linarith
qed

termination cycle_search
proof (relation "measure (\<lambda>(adj, component, start, cl, sb, path, stack, found, steps).
    search_weight adj component path stack)", goal_cases)
  case 4
  then show ?case by (simp add: search_weight_push del: search_weight.simps)
qed simp_all

text \<open>The anchors in ascending order; a cap ends the enumeration of the component.\<close>

fun anchor_loop ::
  "adjacency \<Rightarrow> int list \<Rightarrow> int option \<Rightarrow> int option \<Rightarrow> int list \<Rightarrow> int list list \<times> int \<times> bool \<Rightarrow>
   int list list \<times> int \<times> bool" where
  "anchor_loop adj component cl sb [] (found, steps, exhausted) = (found, steps, exhausted)"
| "anchor_loop adj component cl sb (start # starts) (found, steps, exhausted) =
     (if exhausted then (found, steps, exhausted)
      else anchor_loop adj component cl sb starts
             (cycle_search adj component start cl sb [start] [succs adj start] found steps))"

text \<open>\<^verbatim>\<open>del xs[k:]\<close> when a limit was given.\<close>

definition cut_at :: "int option \<Rightarrow> 'a list \<Rightarrow> 'a list" where
  "cut_at limit xs = (case limit of None \<Rightarrow> xs | Some l \<Rightarrow> py_take l xs)"

definition component_cycles ::
  "adjacency \<Rightarrow> int list \<Rightarrow> int option \<Rightarrow> int option \<Rightarrow> int list list \<times> bool \<times> int" where
  "component_cycles adj component cycle_limit step_budget =
     (case anchor_loop adj component cycle_limit step_budget
             (sorted_list_of_set (set component)) ([], 0, False) of
        (found, steps, exhausted) \<Rightarrow>
          (cut_at cycle_limit found,
           exhausted \<or> exceeds_limit cycle_limit (int (length found)), steps))"

section \<open>The enumeration\<close>

record cycle_enumeration =
  ce_cycles :: "int list list"
  ce_truncated :: bool
  ce_steps :: int

text \<open>
  The adjacency dict: sorted, deduplicated targets, then an empty list for each vertex that is only a
  target. The program adds those in the order of a set; here they come in ascending order (the
  result does not depend on it, see \<open>find_blocker_cycles_order_free\<close>).
\<close>

definition build_adjacency :: "(int \<times> int list) list \<Rightarrow> adjacency" where
  "build_adjacency edge_map =
     (let adj = map (\<lambda>(n, ts). (n, sorted_list_of_set (set ts))) edge_map
      in adj @ map (\<lambda>t. (t, []))
           (filter (\<lambda>t. t \<notin> set (map fst adj)) (sorted_list_of_set (targets_of adj))))"

definition component_step ::
  "adjacency \<Rightarrow> int option \<Rightarrow> int option \<Rightarrow> int list \<Rightarrow>
   int list list \<times> int \<times> bool \<Rightarrow> int list list \<times> int \<times> bool" where
  "component_step adj cl sb component = (\<lambda>(cycles, steps, truncated).
     if length component = 1
     then (if hd component \<in> set (succs adj (hd component)) then cycles @ [[hd component]] else cycles,
           steps, truncated)
     else (case component_cycles adj component cl sb of
             (found, component_truncated, component_steps) \<Rightarrow>
               (cycles @ found, steps + component_steps, truncated \<or> component_truncated)))"

fun report_loop ::
  "adjacency \<Rightarrow> int option \<Rightarrow> int option \<Rightarrow> int option \<Rightarrow> int list list \<Rightarrow>
   int list list \<times> int \<times> bool \<Rightarrow> int list list \<times> int \<times> bool" where
  "report_loop adj limit cl sb [] (cycles, steps, truncated) = (cycles, steps, truncated)"
| "report_loop adj limit cl sb (component # later) state =
     (case component_step adj cl sb component state of
        (cycles, steps, truncated) \<Rightarrow>
          (if reaches_limit limit (int (length cycles))
           then (cycles, steps,
                 if exceeds_limit limit (int (length cycles)) then True
                 else truncated \<or> list_ex (is_cyclic_component adj) later)
           else report_loop adj limit cl sb later (cycles, steps, truncated)))"

definition find_blocker_cycles ::
  "(int \<times> int list) list \<Rightarrow> int option \<Rightarrow> int option \<Rightarrow> int option \<Rightarrow> cycle_enumeration" where
  "find_blocker_cycles edge_map limit component_cycle_limit component_step_budget =
     (let adj = build_adjacency edge_map;
          components = sort_key (\<lambda>c. Min (set c)) (strongly_connected_components adj)
      in case report_loop adj limit component_cycle_limit component_step_budget components ([], 0, False) of
           (cycles, steps, truncated) \<Rightarrow>
             \<lparr>ce_cycles = sort (cut_at limit cycles), ce_truncated = truncated, ce_steps = steps\<rparr>)"

section \<open>The scan of the open issues\<close>

text \<open>
  What the scan reads of a tracker: the open issues (number and body), their dependencies in one
  query or one by one, and which numbers count as open. \<open>Cross_repo_blocker\<close> is the class of that
  name, a dependency in another repository. The body scan \<^verbatim>\<open>parse_blockers\<close> is an argument \<open>parse\<close>.
\<close>

datatype read_error = Github_error | Os_error | Value_error | Type_error | Other_error

datatype dependency = Same_repo int | Cross_repo_blocker int

record blocker_reads =
  br_open_issues :: "read_error + (int option \<times> string option) list"
  br_dependencies :: "int list \<Rightarrow> read_error + (int \<Rightarrow> dependency list option)"
  br_dependency :: "int \<Rightarrow> dependency list"
  br_are_open :: "int list \<Rightarrow> read_error + int set"

text \<open>The first body of each number, in the order of the issues.\<close>

fun first_bodies :: "(int option \<times> string option) list \<Rightarrow> (int \<times> string) list \<Rightarrow> (int \<times> string) list" where
  "first_bodies [] bodies = bodies"
| "first_bodies ((None, body) # issues) bodies = first_bodies issues bodies"
| "first_bodies ((Some n, body) # issues) bodies =
     first_bodies issues
       (if n \<in> fst ` set bodies then bodies else bodies @ [(n, or_empty body)])"

definition local_dependencies :: "dependency list \<Rightarrow> int set" where
  "local_dependencies ds = {n. Same_repo n \<in> set ds}"

definition declared_blockers_by_issue ::
  "(string \<Rightarrow> int list) \<Rightarrow> blocker_reads \<Rightarrow> (int option \<times> string option) list \<Rightarrow>
   read_error + (int \<times> int set) list" where
  "declared_blockers_by_issue parse R issues =
     (let bodies = first_bodies issues [];
          numbers = map fst bodies;
          declared = (\<lambda>deps. map (\<lambda>(n, body).
             (n, set (parse body) \<union> local_dependencies (or_empty (deps n)))) bodies)
      in if numbers = [] then Inr []
         else case br_dependencies R numbers of
                Inr deps \<Rightarrow> Inr (declared deps)
              | Inl e \<Rightarrow> if e = Other_error then Inl e
                         else Inr (declared (\<lambda>n. Some (br_dependency R n))))"

definition open_blocker_edges ::
  "(string \<Rightarrow> int list) \<Rightarrow> blocker_reads \<Rightarrow> (int option \<times> string option) list \<Rightarrow>
   read_error + (int \<times> int list) list" where
  "open_blocker_edges parse R issues =
     bindE (declared_blockers_by_issue parse R issues) (\<lambda>declared.
       let all_blockers = sorted_list_of_set (\<Union> (snd ` set declared))
       in bindE (if all_blockers = [] then Inr {} else br_are_open R all_blockers) (\<lambda>open_targets.
            Inr (map (\<lambda>(n, ts). (n, sorted_list_of_set (ts \<inter> open_targets))) declared)))"

definition max_reported_cycles :: int where
  "max_reported_cycles = 100"

definition max_cycles_per_component :: int where
  "max_cycles_per_component = 25"

definition max_component_dfs_steps :: int where
  "max_component_dfs_steps = 50000"

record blocker_cycle_scan =
  bs_cycles :: "int list list"
  bs_truncated :: bool

text \<open>Any exception ends in an empty scan.\<close>

definition detect_open_blocker_cycles ::
  "(string \<Rightarrow> int list) \<Rightarrow> blocker_reads \<Rightarrow> blocker_cycle_scan" where
  "detect_open_blocker_cycles parse R =
     (case bindE (br_open_issues R) (open_blocker_edges parse R) of
        Inl e \<Rightarrow> \<lparr>bs_cycles = [], bs_truncated = False\<rparr>
      | Inr edge_map \<Rightarrow>
          let r = find_blocker_cycles edge_map (Some max_reported_cycles)
                    (Some max_cycles_per_component) (Some max_component_dfs_steps)
          in \<lparr>bs_cycles = ce_cycles r, bs_truncated = ce_truncated r\<rparr>)"

text \<open>What the local-file tracker answers; it knows no dependencies but those in the bodies.\<close>

definition local_blocker_reads ::
  "git_view \<Rightarrow> issue_file list option \<Rightarrow> client_memory \<Rightarrow> blocker_reads" where
  "local_blocker_reads g dir m =
     \<lparr> br_open_issues =
         (case dir of None \<Rightarrow> Inl Github_error
          | Some fs \<Rightarrow> Inr (map (\<lambda>i. (Some (li_number i), Some (li_body i))) (issue_list [] (Some ''open'') fs))),
       br_dependencies = (\<lambda>ns. Inr (\<lambda>n. if n \<in> set ns then Some [] else None)),
       br_dependency = (\<lambda>n. []),
       br_are_open =
         (\<lambda>ns. case dir of None \<Rightarrow> Inl Github_error | Some fs \<Rightarrow> Inr (fst (are_issues_open g fs ns m))) \<rparr>"

end
