(* ===== verification/Blocker_Scc.thy ===== *)
theory Blocker_Scc
  imports Blocker_Cycles
begin

text \<open>
  Kosaraju's algorithm as the blocker-cycle scan runs it: what the finishing order of the first pass
  guarantees, and that the trees of the second pass are the strongly connected components.
\<close>

section \<open>Reachability\<close>

definition arcs :: "adjacency \<Rightarrow> (int \<times> int) set" where
  "arcs adj = {(u, v). v \<in> set (succs adj u)}"

definition mutual :: "adjacency \<Rightarrow> int \<Rightarrow> int \<Rightarrow> bool" where
  "mutual adj u v \<longleftrightarrow> (u, v) \<in> (arcs adj)\<^sup>* \<and> (v, u) \<in> (arcs adj)\<^sup>*"

abbreviation vertices :: "adjacency \<Rightarrow> int set" where
  "vertices adj \<equiv> set (map fst adj)"

lemma arcs_iff [simp]: "(u, v) \<in> arcs adj \<longleftrightarrow> v \<in> set (succs adj u)"
  by (simp add: arcs_def)

lemma mutual_refl [simp]: "mutual adj u u"
  by (simp add: mutual_def)

lemma mutual_sym: "mutual adj u v \<Longrightarrow> mutual adj v u"
  by (simp add: mutual_def)

lemma mutual_trans: "mutual adj u v \<Longrightarrow> mutual adj v w \<Longrightarrow> mutual adj u w"
  unfolding mutual_def by (meson rtrancl_trans)

lemma closed_succs: "closed adj \<Longrightarrow> v \<in> set (succs adj u) \<Longrightarrow> v \<in> vertices adj"
  using succs_subset by (fastforce simp: closed_def)

lemma succs_vertex: "v \<in> set (succs adj u) \<Longrightarrow> u \<in> vertices adj"
  by (cases "map_of adj u") (force simp: succs_def dest: map_of_SomeD)+

text \<open>A path that leaves a set leaves it over an edge.\<close>

lemma rtrancl_exit:
  assumes "(x, y) \<in> R\<^sup>*" and "x \<in> S" and "y \<notin> S"
  obtains p w where "p \<in> S" "w \<notin> S" "(x, p) \<in> R\<^sup>*" "(p, w) \<in> R"
  using assms by (induction rule: rtrancl_induct) blast+

text \<open>A set that holds the predecessors of its members holds whatever reaches them.\<close>

definition pred_closed :: "adjacency \<Rightarrow> int set \<Rightarrow> bool" where
  "pred_closed adj S \<longleftrightarrow> (\<forall>u v. v \<in> set (succs adj u) \<longrightarrow> v \<in> S \<longrightarrow> u \<in> S)"

lemma pred_closed_reaches:
  assumes "(x, y) \<in> (arcs adj)\<^sup>*" and "y \<in> S" and "pred_closed adj S"
  shows "x \<in> S"
  using assms by (induction rule: converse_rtrancl_induct) (auto simp: pred_closed_def)

lemma pred_closed_vertices: "pred_closed adj (vertices adj)"
  unfolding pred_closed_def by (blast intro: succs_vertex)

section \<open>The first pass\<close>

fun linked :: "adjacency \<Rightarrow> int list \<Rightarrow> bool" where
  "linked adj (x # y # zs) \<longleftrightarrow> x \<in> set (succs adj y) \<and> linked adj (y # zs)"
| "linked adj _ \<longleftrightarrow> True"

lemma linked_reaches: "linked adj (x # zs) \<Longrightarrow> z \<in> set zs \<Longrightarrow> (z, x) \<in> (arcs adj)\<^sup>*"
proof (induction adj "x # zs" arbitrary: x zs rule: linked.induct)
  case (1 adj x y zs)
  then have "(z, y) \<in> (arcs adj)\<^sup>*" by auto
  with "1.prems" show ?case by (auto intro: rtrancl_into_rtrancl)
qed simp_all

text \<open>
  What the finishing order guarantees: a vertex reaches only vertices that finished before it, or its
  component holds a vertex that is still to finish.
\<close>

definition finish_before :: "adjacency \<Rightarrow> int list \<Rightarrow> int set \<Rightarrow> bool" where
  "finish_before adj finished active \<longleftrightarrow>
     (\<forall>A x B y. finished = A @ x # B \<and> (x, y) \<in> (arcs adj)\<^sup>* \<longrightarrow>
        y \<in> set A \<union> {x} \<or> (\<exists>g \<in> set B \<union> active. mutual adj x g))"

definition finish_inv :: "adjacency \<Rightarrow> int set \<Rightarrow> (int \<times> int list) list \<Rightarrow> int list \<Rightarrow> bool" where
  "finish_inv adj visited stack finished \<longleftrightarrow>
     visited = set finished \<union> fst ` set stack \<and>
     distinct (finished @ map fst stack) \<and>
     visited \<subseteq> vertices adj \<and>
     linked adj (map fst stack) \<and>
     (\<forall>(n, rest) \<in> set stack. set rest \<subseteq> set (succs adj n) \<and> set (succs adj n) \<subseteq> visited \<union> set rest) \<and>
     (\<forall>x \<in> set finished. set (succs adj x) \<subseteq> visited) \<and>
     finish_before adj finished (fst ` set stack)"

lemma finish_before_pop:
  assumes inv: "finish_inv adj visited ((node, []) # stack) finished"
  shows "finish_before adj (finished @ [node]) (fst ` set stack)"
proof -
  let ?st = "(node, []) # stack"
  have vis: "visited = set finished \<union> fst ` set ?st"
    and link': "linked adj (map fst ?st)"
    and grey: "\<forall>(n, rest) \<in> set ?st. set rest \<subseteq> set (succs adj n) \<and> set (succs adj n) \<subseteq> visited \<union> set rest"
    and black: "\<forall>x \<in> set finished. set (succs adj x) \<subseteq> visited"
    and before': "finish_before adj finished (fst ` set ?st)"
    using inv unfolding finish_inv_def by blast+
  have link: "linked adj (node # map fst stack)" and top: "set (succs adj node) \<subseteq> visited"
    and before: "finish_before adj finished (insert node (fst ` set stack))"
    using link' grey before' by simp_all
  have last: "y \<in> set finished \<union> {node} \<or> (\<exists>g \<in> fst ` set stack. mutual adj node g)"
    if r: "(node, y) \<in> (arcs adj)\<^sup>*" for y
  proof (rule ccontr)
    assume no: "\<not> ?thesis"
    then have "node \<in> set finished \<union> {node}" "y \<notin> set finished \<union> {node}" by auto
    from rtrancl_exit [OF r this] obtain p w where p: "p \<in> set finished \<union> {node}"
      and w: "w \<notin> set finished \<union> {node}" and np: "(node, p) \<in> (arcs adj)\<^sup>*" and pw: "(p, w) \<in> arcs adj"
      by blast
    have "w \<in> visited" using p pw top black by auto
    with w vis have g: "w \<in> fst ` set stack" by auto
    have "(node, w) \<in> (arcs adj)\<^sup>*" using np pw by (rule rtrancl_into_rtrancl)
    moreover have "(w, node) \<in> (arcs adj)\<^sup>*" using linked_reaches [OF link] g by auto
    ultimately show False using no g by (auto simp: mutual_def)
  qed
  show ?thesis
    unfolding finish_before_def
  proof (intro allI impI, elim conjE)
    fix A x B y
    assume split: "finished @ [node] = A @ x # B" and r: "(x, y) \<in> (arcs adj)\<^sup>*"
    show "y \<in> set A \<union> {x} \<or> (\<exists>g \<in> set B \<union> fst ` set stack. mutual adj x g)"
    proof (cases B rule: rev_cases)
      case Nil
      with split have "A = finished" "x = node" by auto
      with last [of y] r Nil show ?thesis by auto
    next
      case (snoc B' b)
      with split have f: "finished = A @ x # B'" and b: "b = node"
        by (metis append_Cons append_assoc append_is_Nil_conv butlast_snoc last_snoc)+
      with before r have "y \<in> set A \<union> {x} \<or> (\<exists>g \<in> set B' \<union> insert node (fst ` set stack). mutual adj x g)"
        unfolding finish_before_def by blast
      with snoc b show ?thesis by auto
    qed
  qed
qed

lemma finish_before_mono:
  "finish_before adj finished active \<Longrightarrow> active \<subseteq> active' \<Longrightarrow> finish_before adj finished active'"
  unfolding finish_before_def by blast

lemma linked_tl: "linked adj (x # zs) \<Longrightarrow> linked adj zs"
  by (cases zs) auto

lemma finish_inv_pop:
  assumes "finish_inv adj visited ((node, []) # stack) finished"
  shows "finish_inv adj visited stack (finished @ [node])"
  using finish_before_pop [OF assms] assms unfolding finish_inv_def
  by (elim conjE, intro conjI) (auto dest: linked_tl)

lemma finish_inv_skip:
  "finish_inv adj visited ((node, nxt # rest) # stack) finished \<Longrightarrow> nxt \<in> visited \<Longrightarrow>
   finish_inv adj visited ((node, rest) # stack) finished"
  by (auto simp: finish_inv_def)

lemma finish_inv_push:
  assumes inv: "finish_inv adj visited ((node, nxt # rest) # stack) finished"
    and c: "closed adj" and n: "nxt \<notin> visited"
  shows "finish_inv adj (insert nxt visited) ((nxt, succs adj nxt) # (node, rest) # stack) finished"
proof -
  have "nxt \<in> set (succs adj node)" using inv by (simp add: finish_inv_def)
  moreover from this c have "nxt \<in> vertices adj" by (rule closed_succs [rotated])
  moreover have "finish_before adj finished (fst ` set ((nxt, succs adj nxt) # (node, rest) # stack))"
    using inv by (auto simp: finish_inv_def intro: finish_before_mono)
  ultimately show ?thesis
    using inv n unfolding finish_inv_def by auto
qed

lemma finish_loop_inv:
  assumes "finish_inv adj visited stack finished" and "closed adj"
    and "finish_loop adj visited stack finished = (visited', finished')"
  shows "finish_inv adj visited' [] finished' \<and> visited \<subseteq> visited'"
  using assms
proof (induction adj visited stack finished rule: finish_loop.induct)
  case (2 adj visited node stack finished)
  then show ?case by (auto dest: finish_inv_pop)
next
  case (3 adj visited node nxt rest stack finished)
  show ?case
  proof (cases "nxt \<in> visited")
    case True
    with 3 show ?thesis by (auto dest: finish_inv_skip)
  next
    case False
    with 3 finish_inv_push show ?thesis by (auto simp del: fun_upd_apply)
  qed
qed simp

lemma finish_roots_inv:
  assumes "finish_inv adj visited [] finished" and "closed adj" and "set roots \<subseteq> vertices adj"
    and "finish_roots adj roots (visited, finished) = (visited', finished')"
  shows "finish_inv adj visited' [] finished' \<and> visited \<union> set roots \<subseteq> visited'"
  using assms
proof (induction roots arbitrary: visited finished)
  case (Cons root roots)
  show ?case
  proof (cases "root \<in> visited")
    case True
    with Cons show ?thesis by auto
  next
    case False
    obtain v f where l: "finish_loop adj (insert root visited) [(root, succs adj root)] finished = (v, f)"
      by (rule prod.exhaust)
    have "finish_before adj finished {root}" using Cons.prems(1)
      by (auto simp: finish_inv_def intro: finish_before_mono)
    with False Cons.prems have "finish_inv adj (insert root visited) [(root, succs adj root)] finished"
      unfolding finish_inv_def by auto
    from finish_loop_inv [OF this Cons.prems(2) l]
    have vf: "finish_inv adj v [] f" "insert root visited \<subseteq> v" by auto
    have "finish_roots adj roots (v, f) = (visited', finished')"
      using Cons.prems(4) False l by simp
    with Cons.IH [OF vf(1) Cons.prems(2)] Cons.prems(3) vf(2) show ?thesis by auto
  qed
qed simp

lemma finish_order_props:
  assumes "closed adj"
  shows "set (finish_order adj) = vertices adj" and "distinct (finish_order adj)"
    and "finish_before adj (finish_order adj) {}"
proof -
  obtain v f where r: "finish_roots adj (map fst adj) ({}, []) = (v, f)" by (rule prod.exhaust)
  have "finish_inv adj {} [] []" by (simp add: finish_inv_def finish_before_def)
  from finish_roots_inv [OF this assms _ r]
  have "finish_inv adj v [] f" "vertices adj \<subseteq> v" by auto
  moreover have "finish_order adj = f" using r by (simp add: finish_order_def)
  ultimately show "set (finish_order adj) = vertices adj" "distinct (finish_order adj)"
    "finish_before adj (finish_order adj) {}"
    by (auto simp: finish_inv_def)
qed

section \<open>The second pass\<close>

lemma map_of_map_keys: "map_of (map (\<lambda>(t, x). (t, f t)) xs) k = (if k \<in> fst ` set xs then Some (f k) else None)"
  by (induction xs) auto

lemma succs_entry: "distinct (map fst adj) \<Longrightarrow> (n, ts) \<in> set adj \<Longrightarrow> succs adj n = ts"
  by (simp add: succs_def)

lemma succs_reversed:
  assumes c: "closed adj"
  shows "set (succs (reversed_adjacency adj) t) = {n. t \<in> set (succs adj n)}"
proof (cases "t \<in> vertices adj")
  case True
  have d: "distinct (map fst adj)" using c by (simp add: closed_def)
  have "set (succs (reversed_adjacency adj) t) = {n. \<exists>ts. (n, ts) \<in> set adj \<and> t \<in> set ts}"
    using True by (auto simp: succs_def reversed_adjacency_def map_of_map_keys)
  also have "\<dots> = {n. t \<in> set (succs adj n)}"
  proof (intro Collect_cong iffI)
    fix n
    assume "t \<in> set (succs adj n)"
    then show "\<exists>ts. (n, ts) \<in> set adj \<and> t \<in> set ts"
      by (cases "map_of adj n") (auto simp: succs_def dest: map_of_SomeD)
  qed (auto simp: succs_entry [OF d])
  finally show ?thesis .
next
  case False
  then show ?thesis using closed_succs [OF c]
    by (auto simp: succs_def reversed_adjacency_def map_of_map_keys)
qed

definition component_inv ::
  "adjacency \<Rightarrow> int \<Rightarrow> int set \<Rightarrow> int set \<Rightarrow> int list \<Rightarrow> int list \<Rightarrow> bool" where
  "component_inv adj root seen0 seen component stack \<longleftrightarrow>
     set stack \<subseteq> set component \<and> distinct component \<and> root \<in> set component \<and>
     seen = seen0 \<union> set component \<and> seen0 \<inter> set component = {} \<and>
     (\<forall>c \<in> set component. (c, root) \<in> (arcs adj)\<^sup>*) \<and>
     (\<forall>c \<in> set component - set stack. \<forall>p. c \<in> set (succs adj p) \<longrightarrow> p \<in> seen)"

lemma component_inv_step:
  assumes inv: "component_inv adj root seen0 seen component (node # stack)" and c: "closed adj"
    and push: "push_unseen (succs (reversed_adjacency adj) node) (seen, component, stack) =
      (seen', component', stack')"
  shows "component_inv adj root seen0 seen' component' stack'"
proof -
  let ?P = "{p. node \<in> set (succs adj p)}"
  let ?new = "dedup (filter (\<lambda>p. p \<notin> seen) (succs (reversed_adjacency adj) node))"
  have new: "set ?new = ?P - seen" by (auto simp: succs_reversed [OF c])
  have eqs: "seen' = seen \<union> ?P" "component' = component @ ?new" "stack' = rev ?new @ stack"
    using push by (simp_all add: push_unseen_eq succs_reversed [OF c])
  have seen: "seen = seen0 \<union> set component" and disj: "seen0 \<inter> set component = {}"
    and sub: "set (node # stack) \<subseteq> set component" and dist: "distinct component"
    and root: "root \<in> set component"
    and reach: "\<forall>c \<in> set component. (c, root) \<in> (arcs adj)\<^sup>*"
    and preds: "\<forall>c \<in> set component - set (node # stack). \<forall>p. c \<in> set (succs adj p) \<longrightarrow> p \<in> seen"
    using inv unfolding component_inv_def by blast+
  have "(p, root) \<in> (arcs adj)\<^sup>*" if "p \<in> ?P" for p
    using that reach sub by (auto intro: converse_rtrancl_into_rtrancl)
  with reach new have "\<forall>c \<in> set component'. (c, root) \<in> (arcs adj)\<^sup>*"
    by (auto simp: eqs simp del: set_dedup)
  moreover have "distinct component'" using dist new seen by (auto simp: eqs simp del: set_dedup)
  moreover have "seen' = seen0 \<union> set component'" using seen new by (auto simp: eqs simp del: set_dedup)
  moreover have "seen0 \<inter> set component' = {}" using seen disj new by (auto simp: eqs simp del: set_dedup)
  moreover have "set stack' \<subseteq> set component'" using sub by (auto simp: eqs simp del: set_dedup)
  moreover have "\<forall>c \<in> set component' - set stack'. \<forall>p. c \<in> set (succs adj p) \<longrightarrow> p \<in> seen'"
  proof (intro ballI allI impI)
    fix c p
    assume "c \<in> set component' - set stack'" and cp: "c \<in> set (succs adj p)"
    then have "c \<in> set component" "c \<notin> set stack" by (auto simp: eqs simp del: set_dedup)
    with preds cp show "p \<in> seen'" by (cases "c = node") (auto simp: eqs)
  qed
  ultimately show ?thesis using root unfolding component_inv_def by (auto simp: eqs)
qed

lemma component_loop_inv:
  assumes "component_inv adj root seen0 seen component stack" and "closed adj"
    and "component_loop (reversed_adjacency adj) seen component stack = (seen', component')"
  shows "component_inv adj root seen0 seen' component' []"
  using assms
proof (induction "reversed_adjacency adj" seen component stack rule: component_loop.induct)
  case (2 seen component node stack)
  obtain s c st where p: "push_unseen (succs (reversed_adjacency adj) node) (seen, component, stack) = (s, c, st)"
    by (metis prod_cases3)
  have "component_inv adj root seen0 s c st" by (rule component_inv_step [OF 2(2,3) p])
  with 2(1) [OF p [symmetric] refl _ 2(3)] 2(4) p show ?case by simp
qed simp

text \<open>A tree of the second pass: what reaches its root and was not seen before.\<close>

lemma component_loop_set:
  assumes c: "closed adj" and root: "root \<notin> seen"
    and pred_closed: "pred_closed adj seen"
    and l: "component_loop (reversed_adjacency adj) (insert root seen) [root] [root] = (seen', component)"
  shows "set component = {x. (x, root) \<in> (arcs adj)\<^sup>*} - seen" and "distinct component"
    and "seen' = seen \<union> set component"
    and "pred_closed adj seen'"
proof -
  have "component_inv adj root seen (insert root seen) [root] [root]"
    using root by (simp add: component_inv_def)
  from component_loop_inv [OF this c l] have inv: "component_inv adj root seen seen' component []" .
  then have s: "seen' = seen \<union> set component" and disj: "seen \<inter> set component = {}"
    and r: "root \<in> set component"
    and reach: "\<forall>c \<in> set component. (c, root) \<in> (arcs adj)\<^sup>*"
    and preds': "\<forall>c \<in> set component - set []. \<forall>p. c \<in> set (succs adj p) \<longrightarrow> p \<in> seen'"
    unfolding component_inv_def by blast+
  have preds: "\<forall>c \<in> set component. \<forall>p. c \<in> set (succs adj p) \<longrightarrow> p \<in> seen'"
    using preds' by simp
  show closed': "pred_closed adj seen'"
    using preds pred_closed s unfolding pred_closed_def by blast
  have "x \<in> seen'" if "(x, root) \<in> (arcs adj)\<^sup>*" for x
    using r s by (intro pred_closed_reaches [OF that _ closed']) auto
  with reach disj s show "set component = {x. (x, root) \<in> (arcs adj)\<^sup>*} - seen" by blast
  show "distinct component" using inv unfolding component_inv_def by blast
  show "seen' = seen \<union> set component" by (rule s)
qed


text \<open>
  The roots come in reverse finishing order, so what reaches a root and was not seen is reached back.
\<close>

lemma unseen_reached_back:
  assumes fin: "finish_before adj (rev roots @ root # finished) {}" "distinct (rev roots @ root # finished)"
      "set (rev roots @ root # finished) = vertices adj"
    and "set finished \<subseteq> seen" and pred_closed: "pred_closed adj seen"
    and c: "c \<in> vertices adj" "c \<notin> seen" "(c, root) \<in> (arcs adj)\<^sup>*"
  shows "mutual adj c root"
proof -
  have "\<exists>g \<in> set (rev roots @ root # finished). mutual adj c g" using c(1) fin(3) by (intro bexI) auto
  then obtain A g B where split: "rev roots @ root # finished = A @ g # B" and g: "mutual adj c g"
    and later: "\<forall>h \<in> set B. \<not> mutual adj c h"
    by (rule split_list_last_propE)
  have "(g, root) \<in> (arcs adj)\<^sup>*" using g c(3) unfolding mutual_def by (meson rtrancl_trans)
  with fin(1) split have "root \<in> set A \<union> {g} \<or> (\<exists>h \<in> set B. mutual adj g h)"
    unfolding finish_before_def by blast
  with later g have "root \<in> set A \<union> {g}" by (blast intro: mutual_trans)
  moreover have "root \<notin> set A"
  proof
    assume "root \<in> set A"
    then obtain A1 A2 where "A = A1 @ root # A2" by (auto dest: split_list)
    with split have e: "rev roots @ root # finished = A1 @ root # A2 @ g # B" by simp
    with fin(2) have "finished = A2 @ g # B"
      by (metis append_Cons_eq_iff distinct.simps(2) distinct_append disjoint_iff list.set_intros(1))
    with assms(4) have "g \<in> seen" by auto
    then have "c \<in> seen"
      using g pred_closed pred_closed_reaches unfolding mutual_def by blast
    with c(2) show False by contradiction
  qed
  ultimately show ?thesis using g by auto
qed

definition scc_of :: "adjacency \<Rightarrow> int \<Rightarrow> int set" where
  "scc_of adj r = {x. mutual adj x r}"

lemma component_roots_sccs:
  assumes c: "closed adj" and fin: "finish_before adj (rev roots @ finished) {}" "distinct (rev roots @ finished)"
      "set (rev roots @ finished) = vertices adj"
    and seen: "set finished \<subseteq> seen" "seen = set (concat components)" "distinct (concat components)"
      "seen \<subseteq> vertices adj"
    and pred_closed: "pred_closed adj seen"
    and comps: "\<forall>k \<in> set components. \<exists>r \<in> set k. set k = scc_of adj r"
    and run: "component_roots (reversed_adjacency adj) roots (seen, components) = (seen', components')"
  shows "set (concat components') = vertices adj \<and> distinct (concat components') \<and>
    (\<forall>k \<in> set components'. \<exists>r \<in> set k. set k = scc_of adj r)"
  using fin seen pred_closed comps run
proof (induction roots arbitrary: finished seen components)
  case Nil
  then show ?case by auto
next
  case (Cons root roots)
  have fin': "finish_before adj (rev roots @ root # finished) {}" "distinct (rev roots @ root # finished)"
    "set (rev roots @ root # finished) = vertices adj"
    using Cons.prems(1-3) by auto
  show ?case
  proof (cases "root \<in> seen")
    case True
    then have "set (root # finished) \<subseteq> seen" using Cons.prems(4) by auto
    from Cons.IH [OF fin' this Cons.prems(5-9)] Cons.prems(10) True show ?thesis by auto
  next
    case False
    obtain s k where l: "component_loop (reversed_adjacency adj) (insert root seen) [root] [root] = (s, k)"
      by (rule prod.exhaust)
    note pc = Cons.prems(8)
    note k = component_loop_set [OF c False pc l]
    have rv: "root \<in> vertices adj" using fin'(3) by auto
    have in_vertices: "x \<in> vertices adj" if "(x, root) \<in> (arcs adj)\<^sup>*" for x
      by (rule pred_closed_reaches [OF that rv pred_closed_vertices])
    have "set k = scc_of adj root"
    proof (intro equalityI subsetI)
      fix x assume "x \<in> set k"
      then have "(x, root) \<in> (arcs adj)\<^sup>*" "x \<notin> seen" by (auto simp: k(1))
      with unseen_reached_back [OF fin' Cons.prems(4) pc] in_vertices show "x \<in> scc_of adj root"
        by (auto simp: scc_of_def)
    next
      fix x assume x: "x \<in> scc_of adj root"
      have "x \<notin> seen"
        using x False pc pred_closed_reaches [of root x adj seen] by (auto simp: scc_of_def mutual_def)
      with x show "x \<in> set k" by (auto simp: k(1) scc_of_def mutual_def)
    qed
    moreover from this have "root \<in> set k" by (simp add: scc_of_def)
    ultimately have js: "\<forall>j \<in> set (components @ [k]). \<exists>r \<in> set j. set j = scc_of adj r"
      using Cons.prems(9) by auto
    have rk: "root \<in> set k" using False by (simp add: k(1))
    have fs: "set (root # finished) \<subseteq> s" using rk Cons.prems(4) k(3) by auto
    have sc: "s = set (concat (components @ [k]))" using k(3) Cons.prems(5) by auto
    have dc: "distinct (concat (components @ [k]))" using k(1,2) Cons.prems(5,6) by auto
    have sv: "s \<subseteq> vertices adj" using k(1,3) in_vertices Cons.prems(7) by blast
    have run: "component_roots (reversed_adjacency adj) roots (s, components @ [k]) = (seen', components')"
      using Cons.prems(10) False l by simp
    show ?thesis by (rule Cons.IH [OF fin' fs sc dc sv k(4) js run])
  qed
qed

lemma sccs_exact:
  assumes c: "closed adj"
  shows "set (concat (strongly_connected_components adj)) = vertices adj"
    and "distinct (concat (strongly_connected_components adj))"
    and "\<forall>k \<in> set (strongly_connected_components adj). \<exists>r \<in> set k. set k = scc_of adj r"
proof -
  obtain seen ks where r: "component_roots (reversed_adjacency adj) (rev (finish_order adj)) ({}, []) = (seen, ks)"
    by (rule prod.exhaust)
  have "set (concat ks) = vertices adj \<and> distinct (concat ks) \<and> (\<forall>k \<in> set ks. \<exists>r \<in> set k. set k = scc_of adj r)"
    by (rule component_roots_sccs [OF c _ _ _ _ _ _ _ _ _ r, of "[]"])
      (use finish_order_props [OF c] in \<open>simp_all add: pred_closed_def\<close>)
  moreover have "strongly_connected_components adj = ks"
    using r by (simp add: strongly_connected_components_def)
  ultimately show "set (concat (strongly_connected_components adj)) = vertices adj"
    "distinct (concat (strongly_connected_components adj))"
    "\<forall>k \<in> set (strongly_connected_components adj). \<exists>r \<in> set k. set k = scc_of adj r"
    by auto
qed

end
