(* ===== verification/Blocker_Search.thy ===== *)
theory Blocker_Search
  imports Blocker_Scc
begin

text \<open>
  The enumeration of the blocker-cycle scan: a search below one anchor finds every elementary cycle
  whose least member is the anchor once, and the whole scan every elementary cycle of the graph once,
  unless a cap ends it, which it then reports.
\<close>

section \<open>Elementary cycles\<close>

fun walk :: "adjacency \<Rightarrow> int list \<Rightarrow> bool" where
  "walk adj (x # y # zs) \<longleftrightarrow> y \<in> set (succs adj x) \<and> walk adj (y # zs)"
| "walk adj _ \<longleftrightarrow> True"

text \<open>
  An elementary cycle in its canonical rotation: each member is blocked by the next and the last by
  the first, no member occurs twice, and the first is the least.
\<close>

definition elementary_cycle :: "adjacency \<Rightarrow> int list \<Rightarrow> bool" where
  "elementary_cycle adj c \<longleftrightarrow>
     c \<noteq> [] \<and> distinct c \<and> walk adj c \<and> hd c \<in> set (succs adj (last c)) \<and> (\<forall>x \<in> set (tl c). hd c < x)"

lemma walk_append:
  "walk adj (xs @ y # ys) \<longleftrightarrow> walk adj (xs @ [y]) \<and> walk adj (y # ys)"
  by (induction adj xs rule: walk.induct) auto

lemma walk_snoc: "xs \<noteq> [] \<Longrightarrow> walk adj (xs @ [y]) \<longleftrightarrow> walk adj xs \<and> y \<in> set (succs adj (last xs))"
  by (induction adj xs rule: walk.induct) auto

lemma walk_reaches: "walk adj (x # xs) \<Longrightarrow> y \<in> set (x # xs) \<Longrightarrow> (x, y) \<in> (arcs adj)\<^sup>*"
  by (induction adj "x # xs" arbitrary: x xs rule: walk.induct)
    (auto intro: converse_rtrancl_into_rtrancl)

lemma walk_reaches_last: "walk adj xs \<Longrightarrow> y \<in> set xs \<Longrightarrow> (y, last xs) \<in> (arcs adj)\<^sup>*"
  by (induction adj xs arbitrary: y rule: walk.induct) (auto intro: converse_rtrancl_into_rtrancl)

text \<open>The members of a cycle are in one strongly connected component.\<close>

lemma cycle_mutual:
  assumes "elementary_cycle adj c" and "x \<in> set c"
  shows "mutual adj x (hd c)"
proof -
  have c: "c = hd c # tl c" and w: "walk adj c" and e: "(last c, hd c) \<in> arcs adj"
    using assms by (auto simp: elementary_cycle_def)
  have "(hd c, x) \<in> (arcs adj)\<^sup>*" using walk_reaches [of adj "hd c" "tl c" x] c w assms(2) by simp
  moreover have "(x, hd c) \<in> (arcs adj)\<^sup>*"
    using walk_reaches_last [OF w assms(2)] e by (rule rtrancl_into_rtrancl)
  ultimately show ?thesis by (simp add: mutual_def)
qed

section \<open>The search below one anchor\<close>

text \<open>The cycles of a component with a given least member.\<close>

definition anchored :: "adjacency \<Rightarrow> int list \<Rightarrow> int \<Rightarrow> int list set" where
  "anchored adj component start =
     {c. elementary_cycle adj c \<and> hd c = start \<and> set c \<subseteq> set component}"

text \<open>
  The cycles an iterator of the stack has still to give: those that go on from the path with one of
  the successors left, or close there.
\<close>

definition going_on :: "int list set \<Rightarrow> int \<Rightarrow> int list \<Rightarrow> int list \<Rightarrow> int list set" where
  "going_on C start path it =
     {c \<in> C. (\<exists>x xs. c = rev path @ x # xs \<and> x \<in> set it) \<or> c = rev path \<and> start \<in> set it}"

fun pending :: "int list set \<Rightarrow> int \<Rightarrow> int list \<Rightarrow> int list list \<Rightarrow> int list set" where
  "pending C start path [] = {}"
| "pending C start path (it # stack) = going_on C start path it \<union> pending C start (tl path) stack"

text \<open>The stack holds, for each vertex of the path, successors not taken yet.\<close>

fun stack_ok :: "adjacency \<Rightarrow> int \<Rightarrow> int list \<Rightarrow> int list list \<Rightarrow> bool" where
  "stack_ok adj start path [] \<longleftrightarrow> True"
| "stack_ok adj start path (it # stack) \<longleftrightarrow>
     path \<noteq> [] \<and> last path = start \<and> distinct it \<and> set it \<subseteq> set (succs adj (hd path)) \<and>
     stack_ok adj start (tl path) stack \<and>
     (case stack of [] \<Rightarrow> True | below # _ \<Rightarrow> hd path \<notin> set below)"

lemma going_on_Nil [simp]: "going_on C start path [] = {}"
  by (auto simp: going_on_def)

lemma going_on_close:
  assumes "\<forall>c \<in> C. distinct c \<and> c \<noteq> [] \<and> hd c = start" and "path \<noteq> []" and "last path = start"
  shows "going_on C start path (start # rest) = going_on C start path rest \<union> ({rev path} \<inter> C)"
proof -
  have "\<not> (c \<in> C \<and> c = rev path @ start # xs)" for c xs
    using assms by (cases path rule: rev_cases) auto
  then show ?thesis by (auto simp: going_on_def)
qed

lemma going_on_push:
  assumes "\<forall>c \<in> C. walk adj c \<and> start \<in> set (succs adj (last c))" and "nxt \<noteq> start"
  shows "going_on C start path (nxt # rest) =
    going_on C start path rest \<union> going_on C start (nxt # path) (succs adj nxt)"
proof -
  have "c \<in> going_on C start (nxt # path) (succs adj nxt)" if c: "c \<in> C" "c = rev path @ nxt # xs" for c xs
  proof (cases xs)
    case Nil
    have "start \<in> set (succs adj (last c))" using assms(1) c(1) by blast
    with Nil c show ?thesis by (simp add: going_on_def)
  next
    case (Cons y ys)
    have "walk adj (rev path @ nxt # y # ys)" using assms(1) c Cons by blast
    then have "y \<in> set (succs adj nxt)" using walk_append [of adj "rev path" nxt "y # ys"] by simp
    with Cons c show ?thesis by (auto simp: going_on_def)
  qed
  moreover have "c \<in> C \<and> (\<exists>xs. c = rev path @ nxt # xs)" if "c \<in> going_on C start (nxt # path) it" for c it
    using that unfolding going_on_def by (simp, blast)
  moreover have "c \<in> going_on C start path (nxt # rest) \<longleftrightarrow>
      c \<in> going_on C start path rest \<or> c \<in> C \<and> (\<exists>xs. c = rev path @ nxt # xs)" for c
    using assms(2) unfolding going_on_def by (simp, blast)
  ultimately show ?thesis by blast
qed

lemma going_on_skip:
  assumes "\<And>xs. rev path @ nxt # xs \<notin> C" and "nxt \<noteq> start"
  shows "going_on C start path (nxt # rest) = going_on C start path rest"
  using assms by (auto simp: going_on_def)


lemma pending_not_extending:
  assumes "stack_ok adj start path (it # stack)" and "length path = Suc (length stack)"
  shows "rev path @ ys \<notin> pending C start (tl path) stack"
  using assms
proof (induction stack arbitrary: path it ys)
  case (Cons below stack)
  obtain p ps where p: "path = p # ps" using Cons.prems(2) by (cases path) auto
  have ok: "stack_ok adj start ps (below # stack)" and nb: "p \<notin> set below"
    using Cons.prems(1) p by simp_all
  have "rev path @ ys \<notin> going_on C start ps below" using p nb by (auto simp: going_on_def)
  moreover have "rev ps @ (p # ys) \<notin> pending C start (tl ps) stack"
    by (rule Cons.IH [OF ok]) (use Cons.prems(2) p in simp)
  ultimately show ?case using p by simp
qed simp

definition search_ok ::
  "adjacency \<Rightarrow> int list \<Rightarrow> int \<Rightarrow> int list \<Rightarrow> int list list \<Rightarrow> int list list \<Rightarrow> bool" where
  "search_ok adj component start path stack found \<longleftrightarrow>
     stack_ok adj start path stack \<and> length path = length stack \<and> walk adj (rev path) \<and>
     distinct path \<and> set path \<subseteq> set component \<and> (\<forall>x \<in> set (butlast path). start < x) \<and>
     distinct found \<and> set found \<inter> pending (anchored adj component start) start path stack = {}"

lemma search_okD:
  assumes "search_ok adj component start path stack found"
  shows "stack_ok adj start path stack" "length path = length stack" "walk adj (rev path)"
    "distinct path" "set path \<subseteq> set component" "\<forall>x \<in> set (butlast path). start < x"
    "distinct found" "set found \<inter> pending (anchored adj component start) start path stack = {}"
  using assms by (simp_all add: search_ok_def)

lemma butlast_greater_walk:
  assumes "path \<noteq> []" "last path = start" "\<forall>x \<in> set (butlast path). start < x"
  shows "hd (rev path) = start" and "\<forall>x \<in> set (tl (rev path)). start < x"
  using assms by (cases path rule: rev_cases; simp)+

lemma search_ok_pop:
  assumes "search_ok adj component start path ([] # stack) found"
  shows "search_ok adj component start (tl path) stack found"
proof (cases path)
  case Nil
  with search_okD(2) [OF assms] show ?thesis by simp
next
  case (Cons p ps)
  note ok = search_okD [OF assms]
  have "walk adj (rev ps)" using ok(3) Cons by (cases "ps = []") (simp_all add: walk_snoc)
  moreover have "\<forall>x \<in> set (butlast ps). start < x" using ok(6) Cons by (cases ps) auto
  ultimately show ?thesis using ok Cons unfolding search_ok_def by auto
qed

lemma search_ok_close:
  assumes ok: "search_ok adj component start path ((start # rest) # stack) found"
  shows "search_ok adj component start path (rest # stack) (found @ [rev path])"
    and "pending (anchored adj component start) start path ((start # rest) # stack) =
      insert (rev path) (pending (anchored adj component start) start path (rest # stack))"
proof -
  let ?C = "anchored adj component start"
  note d = search_okD [OF ok]
  have ne: "path \<noteq> []" and la: "last path = start" and nr: "start \<notin> set rest"
    and su: "start \<in> set (succs adj (hd path))"
    using d(1) by auto
  have "elementary_cycle adj (rev path)"
    unfolding elementary_cycle_def
    using ne d(3,4) su butlast_greater_walk [OF ne la d(6)] by (simp add: last_rev)
  then have mem: "rev path \<in> ?C"
    using d(5) butlast_greater_walk(1) [OF ne la d(6)] by (simp add: anchored_def)
  have "\<forall>c \<in> ?C. distinct c \<and> c \<noteq> [] \<and> hd c = start"
    by (auto simp: anchored_def elementary_cycle_def)
  from going_on_close [OF this ne la] mem
  show p: "pending ?C start path ((start # rest) # stack) = insert (rev path) (pending ?C start path (rest # stack))"
    by simp
  have "rev path \<notin> going_on ?C start path rest" using nr by (auto simp: going_on_def)
  moreover have "rev path @ [] \<notin> pending ?C start (tl path) stack"
    by (rule pending_not_extending [OF d(1)]) (use d(2) in simp)
  ultimately have "rev path \<notin> pending ?C start path (rest # stack)" by simp
  moreover have "stack_ok adj start path (rest # stack)" using d(1) by simp
  ultimately show "search_ok adj component start path (rest # stack) (found @ [rev path])"
    using d p unfolding search_ok_def by auto
qed

lemma search_ok_push:
  assumes ok: "search_ok adj component start path ((nxt # rest) # stack) found"
    and dist: "\<And>n. distinct (succs adj n)"
    and n: "nxt > start" "nxt \<in> set component" "nxt \<notin> set path"
  shows "search_ok adj component start (nxt # path) (succs adj nxt # rest # stack) found"
    and "pending (anchored adj component start) start path ((nxt # rest) # stack) =
      pending (anchored adj component start) start (nxt # path) (succs adj nxt # rest # stack)"
proof -
  let ?C = "anchored adj component start"
  note d = search_okD [OF ok]
  have ne: "path \<noteq> []" and la: "last path = start" and su: "nxt \<in> set (succs adj (hd path))"
    using d(1) by auto
  have "\<forall>c \<in> ?C. walk adj c \<and> start \<in> set (succs adj (last c))"
    by (auto simp: anchored_def elementary_cycle_def)
  from going_on_push [OF this] n(1)
  show p: "pending ?C start path ((nxt # rest) # stack) =
      pending ?C start (nxt # path) (succs adj nxt # rest # stack)"
    by auto
  have "walk adj (rev (nxt # path))" using d(3) ne su by (simp add: walk_snoc last_rev)
  moreover have "stack_ok adj start (nxt # path) (succs adj nxt # rest # stack)"
    using d(1) dist ne la by auto
  moreover have "\<forall>x \<in> set (butlast (nxt # path)). start < x" using d(6) n(1) ne by simp
  ultimately show "search_ok adj component start (nxt # path) (succs adj nxt # rest # stack) found"
    using d p n unfolding search_ok_def by simp
qed

lemma search_ok_skip:
  assumes ok: "search_ok adj component start path ((nxt # rest) # stack) found"
    and n: "nxt \<noteq> start" "\<not> (nxt > start \<and> nxt \<in> set component \<and> nxt \<notin> set path)"
  shows "search_ok adj component start path (rest # stack) found"
    and "pending (anchored adj component start) start path ((nxt # rest) # stack) =
      pending (anchored adj component start) start path (rest # stack)"
proof -
  let ?C = "anchored adj component start"
  note d = search_okD [OF ok]
  have ne: "path \<noteq> []" using d(1) by auto
  have "rev path @ nxt # xs \<notin> ?C" for xs
  proof
    assume "rev path @ nxt # xs \<in> ?C"
    then have "distinct (rev path @ nxt # xs)" "set (rev path @ nxt # xs) \<subseteq> set component"
      "\<forall>x \<in> set (tl (rev path @ nxt # xs)). start < x"
      by (auto simp: anchored_def elementary_cycle_def)
    moreover have "nxt \<in> set (tl (rev path @ nxt # xs))" using ne by (cases "rev path") auto
    ultimately show False using n by auto
  qed
  from going_on_skip [OF this n(1)]
  show p: "pending ?C start path ((nxt # rest) # stack) = pending ?C start path (rest # stack)" by simp
  show "search_ok adj component start path (rest # stack) found"
    using d p unfolding search_ok_def by simp
qed

text \<open>
  The result of a search, from any of its states: nothing but cycles of the anchor is found, none
  twice, and unless a cap ended the search, all that were pending are.
\<close>

lemma cycle_search_exact:
  assumes "search_ok adj component start path stack found" and "\<And>n. distinct (succs adj n)"
    and "cycle_search adj component start cl sb path stack found steps = (found', steps', exhausted)"
  shows "distinct found' \<and> set found \<subseteq> set found' \<and>
    set found' \<subseteq> set found \<union> pending (anchored adj component start) start path stack \<and>
    (\<not> exhausted \<longrightarrow> set found' = set found \<union> pending (anchored adj component start) start path stack)"
  using assms
proof (induction adj component start cl sb path stack found steps rule: cycle_search.induct)
  case (1 adj component start cl sb path found steps)
  then show ?case by (simp add: search_ok_def)
next
  case (2 adj component start cl sb path stack found steps)
  from 2(1) [OF search_ok_pop [OF 2(2)] 2(3)] 2(4) show ?case by simp
next
  case (3 adj component start cl sb path nxt rest stack found steps)
  let ?cap = "reaches_limit sb (steps + 1) \<or> exceeds_limit cl (int (length found))"
  consider (cap) ?cap | (close) "\<not> ?cap" "nxt = start"
    | (push) "\<not> ?cap" "nxt \<noteq> start" "nxt > start \<and> nxt \<in> set component \<and> nxt \<notin> set path"
    | (skip) "\<not> ?cap" "nxt \<noteq> start" "\<not> (nxt > start \<and> nxt \<in> set component \<and> nxt \<notin> set path)"
    by blast
  then show ?case
  proof cases
    case cap
    with 3(6) 3(4) show ?thesis by (auto simp: search_ok_def)
  next
    case close
    note c = search_ok_close [OF 3(4) [unfolded close(2)]]
    have "cycle_search adj component start cl sb path (rest # stack) (found @ [rev path]) (steps + 1) =
        (found', steps', exhausted)"
      using 3(6) close by simp
    from 3(1) [OF close c(1) 3(5) this] c(2) close(2) show ?thesis by auto
  next
    case push
    note c = search_ok_push [OF 3(4) 3(5)]
    have "cycle_search adj component start cl sb (nxt # path) (succs adj nxt # rest # stack) found (steps + 1) =
        (found', steps', exhausted)"
      using 3(6) push by simp
    from 3(2) [OF push c(1) 3(5) this] c(2) push(3) show ?thesis by simp
  next
    case skip
    note c = search_ok_skip [OF 3(4) skip(2,3)]
    have "cycle_search adj component start cl sb path (rest # stack) found (steps + 1) =
        (found', steps', exhausted)"
      using 3(6) skip by simp
    from 3(3) [OF skip c(1) 3(5) this] c(2) show ?thesis by simp
  qed
qed

section \<open>The cycles of one component\<close>

definition cycles_in :: "adjacency \<Rightarrow> int set \<Rightarrow> int list set" where
  "cycles_in adj S = {c. elementary_cycle adj c \<and> set c \<subseteq> S}"

lemma hd_in_cycle: "elementary_cycle adj c \<Longrightarrow> hd c \<in> set c"
  by (simp add: elementary_cycle_def)

lemma cycles_in_anchored: "cycles_in adj (set k) = (\<Union>s \<in> set k. anchored adj k s)"
  using hd_in_cycle by (auto simp: cycles_in_def anchored_def)

lemma pending_start: "pending (anchored adj k s) s [s] [succs adj s] = anchored adj k s"
proof -
  have "c \<in> going_on (anchored adj k s) s [s] (succs adj s)" if c: "c \<in> anchored adj k s" for c
  proof (cases "tl c")
    case Nil
    with c have "c = [s]" by (cases c) (auto simp: anchored_def elementary_cycle_def)
    with c show ?thesis by (simp add: going_on_def anchored_def elementary_cycle_def)
  next
    case (Cons x xs)
    with c have "c = s # x # xs" by (cases c) (auto simp: anchored_def elementary_cycle_def)
    with c show ?thesis by (simp add: going_on_def anchored_def elementary_cycle_def)
  qed
  then show ?thesis by (auto simp: going_on_def)
qed

lemma anchor_loop_exact:
  assumes "distinct starts" and "set starts \<subseteq> set k" and "\<And>n. distinct (succs adj n)"
    and "distinct found" and "set found \<inter> (\<Union>s \<in> set starts. anchored adj k s) = {}"
    and "anchor_loop adj k cl sb starts (found, steps, False) = (found', steps', exhausted)"
  shows "distinct found' \<and> set found \<subseteq> set found' \<and>
    set found' \<subseteq> set found \<union> (\<Union>s \<in> set starts. anchored adj k s) \<and>
    (\<not> exhausted \<longrightarrow> set found' = set found \<union> (\<Union>s \<in> set starts. anchored adj k s))"
  using assms
proof (induction starts arbitrary: found steps)
  case (Cons s starts)
  obtain f st e where r: "cycle_search adj k s cl sb [s] [succs adj s] found steps = (f, st, e)"
    by (metis prod_cases3)
  have "search_ok adj k s [s] [succs adj s] found"
    using Cons.prems unfolding search_ok_def pending_start by auto
  from cycle_search_exact [OF this Cons.prems(3) r] have
    f: "distinct f" "set found \<subseteq> set f" "set f \<subseteq> set found \<union> anchored adj k s"
    "\<not> e \<longrightarrow> set f = set found \<union> anchored adj k s"
    unfolding pending_start by blast+
  have other: "anchored adj k s \<inter> anchored adj k s' = {}" if "s' \<in> set starts" for s'
    using that Cons.prems(1) by (auto simp: anchored_def)
  show ?case
  proof (cases e)
    case True
    have "(found', steps', exhausted) = (f, st, True)"
      using Cons.prems(6) r True by (cases starts) simp_all
    with f show ?thesis by auto
  next
    case False
    have dj: "set f \<inter> (\<Union>s \<in> set starts. anchored adj k s) = {}"
      using f(3) Cons.prems(5) other by (simp, blast)
    have run: "anchor_loop adj k cl sb starts (f, st, False) = (found', steps', exhausted)"
      using Cons.prems(6) r False by simp
    have d: "distinct starts" "set starts \<subseteq> set k" using Cons.prems(1,2) by auto
    have ih: "distinct found' \<and> set f \<subseteq> set found' \<and>
        set found' \<subseteq> set f \<union> (\<Union>s \<in> set starts. anchored adj k s) \<and>
        (\<not> exhausted \<longrightarrow> set found' = set f \<union> (\<Union>s \<in> set starts. anchored adj k s))"
      by (rule Cons.IH [OF d Cons.prems(3) f(1) dj run])
    from f(4) False have "set f = set found \<union> anchored adj k s" by simp
    with ih show ?thesis by auto
  qed
qed simp

text \<open>The two caps: the work of a component and the number of cycles it finds.\<close>

definition cap_ok :: "int option \<Rightarrow> int option \<Rightarrow> bool" where
  "cap_ok cl sb \<longleftrightarrow> (\<forall>l. cl = Some l \<longrightarrow> 0 \<le> l) \<and> (\<forall>b. sb = Some b \<longrightarrow> 0 < b)"

lemma cycle_search_steps:
  assumes "cycle_search adj k s cl (Some b) path stack found steps = (found', steps', exhausted)"
    and "steps < b"
  shows "steps \<le> steps' \<and> steps' \<le> b \<and> (\<not> exhausted \<longrightarrow> steps' < b)"
  using assms
  by (induction adj k s cl "Some b" path stack found steps rule: cycle_search.induct)
    (auto simp: reaches_limit_def split: if_splits)

lemma anchor_loop_steps:
  assumes "anchor_loop adj k cl (Some b) starts (found, steps, exhausted) = (found', steps', exhausted')"
    and "steps \<le> b" "\<not> exhausted \<longrightarrow> steps < b"
  shows "steps' \<le> b"
  using assms
proof (induction starts arbitrary: found steps exhausted)
  case (Cons s starts)
  show ?case
  proof (cases exhausted)
    case False
    obtain f st e where r: "cycle_search adj k s cl (Some b) [s] [succs adj s] found steps = (f, st, e)"
      by (metis prod_cases3)
    have "st \<le> b" "\<not> e \<longrightarrow> st < b"
      using cycle_search_steps [OF r] Cons.prems(3) False by auto
    with Cons.IH [of f st e] Cons.prems(1) False r show ?thesis by simp
  qed (use Cons.prems in simp)
qed simp

lemma component_cycles_exact:
  assumes run: "component_cycles adj k cl sb = (cycles, truncated, steps)"
    and d: "\<And>n. distinct (succs adj n)" and cap: "cap_ok cl sb"
  shows "distinct cycles" and "set cycles \<subseteq> cycles_in adj (set k)"
    and "\<not> truncated \<Longrightarrow> set cycles = cycles_in adj (set k)"
    and "sb = Some b \<Longrightarrow> steps \<le> b"
    and "cl = Some l \<Longrightarrow> int (length cycles) \<le> l"
proof -
  obtain f st e where r: "anchor_loop adj k cl sb (sorted_list_of_set (set k)) ([], 0, False) = (f, st, e)"
    by (metis prod_cases3)
  have res: "cycles = cut_at cl f" "truncated = (e \<or> exceeds_limit cl (int (length f)))" "steps = st"
    using run r by (simp_all add: component_cycles_def)
  have ex: "distinct f \<and> set [] \<subseteq> set f \<and>
      set f \<subseteq> set [] \<union> (\<Union>s \<in> set (sorted_list_of_set (set k)). anchored adj k s) \<and>
      (\<not> e \<longrightarrow> set f = set [] \<union> (\<Union>s \<in> set (sorted_list_of_set (set k)). anchored adj k s))"
    by (rule anchor_loop_exact [OF _ _ d _ _ r]) simp_all
  then have f: "distinct f" "set f \<subseteq> cycles_in adj (set k)" "\<not> e \<longrightarrow> set f = cycles_in adj (set k)"
    by (simp_all add: cycles_in_anchored)
  have cut: "\<exists>ys. f = cycles @ ys"
    unfolding res cut_at_def by (cases cl) (simp_all add: py_take_prefix)
  with f show "distinct cycles" "set cycles \<subseteq> cycles_in adj (set k)" by auto
  show "set cycles = cycles_in adj (set k)" if "\<not> truncated"
    using that f(3) cap unfolding res
    by (cases cl) (auto simp: cut_at_def exceeds_limit_def cap_ok_def)
  show "steps \<le> b" if "sb = Some b"
    using anchor_loop_steps [of adj k cl b] r that cap res(3) by (auto simp: cap_ok_def)
  show "int (length cycles) \<le> l" if "cl = Some l"
    using that cap unfolding res by (auto simp: cut_at_def cap_ok_def)
qed

end
