(* ===== verification/Blocker_Report.thy ===== *)
theory Blocker_Report
  imports Blocker_Search
begin

text \<open>
  The report of the blocker-cycle scan: the components one after the other under the report limit,
  the adjacency the edges make, and what follows for a graph without cycles and for another order of
  the edges.
\<close>

section \<open>The components one after the other\<close>

definition cycles_of :: "adjacency \<Rightarrow> int list list \<Rightarrow> int list set" where
  "cycles_of adj ks = (\<Union>k \<in> set ks. cycles_in adj (set k))"

definition state_ok :: "adjacency \<Rightarrow> int list list \<Rightarrow> int list list \<Rightarrow> bool" where
  "state_ok adj before cycles \<longleftrightarrow> distinct cycles \<and> set cycles \<subseteq> cycles_of adj before"

lemma cycles_of_Nil [simp]: "cycles_of adj [] = {}"
  by (simp add: cycles_of_def)

lemma cycles_of_append [simp]: "cycles_of adj (ks @ js) = cycles_of adj ks \<union> cycles_of adj js"
  by (simp add: cycles_of_def)

lemma cycles_of_Cons [simp]: "cycles_of adj (k # ks) = cycles_in adj (set k) \<union> cycles_of adj ks"
  by (simp add: cycles_of_def)

lemma cycles_in_singleton:
  "cycles_in adj {x} = (if x \<in> set (succs adj x) then {[x]} else {})"
proof -
  have "c = [x]" if "c \<in> cycles_in adj {x}" for c
    using that by (cases c; cases "tl c") (auto simp: cycles_in_def elementary_cycle_def)
  moreover have "[x] \<in> cycles_in adj {x} \<longleftrightarrow> x \<in> set (succs adj x)"
    by (simp add: cycles_in_def elementary_cycle_def)
  ultimately show ?thesis by auto
qed

lemma cycles_in_disjoint: "S \<inter> T = {} \<Longrightarrow> cycles_in adj S \<inter> cycles_in adj T = {}"
  by (auto simp: cycles_in_def dest!: hd_in_cycle)

lemma acyclic_component: "\<not> is_cyclic_component adj k \<Longrightarrow> cycles_in adj (set k) = {}"
proof (cases k)
  case Nil
  then show ?thesis by (auto simp: cycles_in_def dest!: hd_in_cycle)
next
  case (Cons x xs)
  assume "\<not> is_cyclic_component adj k"
  with Cons have "k = [x]" "x \<notin> set (succs adj x)" by (auto simp: is_cyclic_component_def)
  then show ?thesis by (simp add: cycles_in_singleton)
qed

lemma component_step_exact:
  assumes run: "component_step adj cl sb k (cycles, steps, truncated) = (cycles', steps', truncated')"
    and d: "\<And>n. distinct (succs adj n)" and cap: "cap_ok cl sb"
  obtains found where "cycles' = cycles @ found" "distinct found" "set found \<subseteq> cycles_in adj (set k)"
    "\<not> truncated' \<Longrightarrow> \<not> truncated \<and> set found = cycles_in adj (set k)"
    "\<And>b. sb = Some b \<Longrightarrow> steps' \<le> steps + b"
proof (cases "length k = 1")
  case True
  then obtain x where k: "k = [x]" by (auto simp: length_Suc_conv)
  have pos: "\<And>b. sb = Some b \<Longrightarrow> 0 < b" using cap by (simp add: cap_ok_def)
  show thesis
    by (rule that [of "if x \<in> set (succs adj x) then [[x]] else []"])
      (use run k in \<open>auto simp: component_step_def cycles_in_singleton split: if_splits dest: pos\<close>)
next
  case False
  obtain f t s where r: "component_cycles adj k cl sb = (f, t, s)" by (metis prod_cases3)
  note e = component_cycles_exact [OF r d cap]
  show thesis
    by (rule that [of f]) (use run r False e in \<open>auto simp: component_step_def\<close>)
qed

lemma report_loop_exact:
  assumes "\<And>n. distinct (succs adj n)" and "cap_ok cl sb" and "cap_ok limit None"
    and "distinct (concat (before @ ks))" and "state_ok adj before cycles"
    and "\<not> truncated \<longrightarrow> set cycles = cycles_of adj before"
    and "report_loop adj limit cl sb ks (cycles, steps, truncated) = (cycles', steps', truncated')"
    and "ks = [] \<longrightarrow> \<not> exceeds_limit limit (int (length cycles))"
  shows "state_ok adj (before @ ks) cycles' \<and>
    (\<not> truncated' \<longrightarrow> set cycles' = cycles_of adj (before @ ks) \<and> \<not> exceeds_limit limit (int (length cycles'))) \<and>
    (\<forall>b. sb = Some b \<longrightarrow> steps' \<le> steps + int (length ks) * b)"
  using assms
proof (induction ks arbitrary: before cycles steps truncated)
  case Nil
  then show ?case by (auto simp: state_ok_def)
next
  case (Cons k ks)
  obtain cy st tr where r: "component_step adj cl sb k (cycles, steps, truncated) = (cy, st, tr)"
    by (metis prod_cases3)
  obtain found where f: "cy = cycles @ found" "distinct found" "set found \<subseteq> cycles_in adj (set k)"
    "\<not> tr \<Longrightarrow> \<not> truncated \<and> set found = cycles_in adj (set k)"
    "\<And>b. sb = Some b \<Longrightarrow> st \<le> steps + b"
    using component_step_exact [OF r Cons.prems(1,2)] by metis
  have "cycles_of adj before \<inter> cycles_in adj (set k) = {}"
  proof -
    have "cycles_in adj (set j) \<inter> cycles_in adj (set k) = {}" if "j \<in> set before" for j
      using Cons.prems(4) that by (intro cycles_in_disjoint) auto
    then show ?thesis unfolding cycles_of_def by blast
  qed
  with f(1-3) Cons.prems(5) have ok: "state_ok adj (before @ [k]) cy" by (auto simp: state_ok_def)
  have full: "\<not> tr \<longrightarrow> set cy = cycles_of adj (before @ [k])" using f(1,4) Cons.prems(6) by auto
  have pos: "0 < b" if "sb = Some b" for b using Cons.prems(2) that by (simp add: cap_ok_def)
  show ?case
  proof (cases "reaches_limit limit (int (length cy))")
    case True
    have res: "cycles' = cy" "steps' = st"
        "truncated' = (exceeds_limit limit (int (length cy)) \<or> tr \<or> list_ex (is_cyclic_component adj) ks)"
      using Cons.prems(7) r True by (auto split: if_splits)
    have "cycles_of adj ks = {}" if "\<not> list_ex (is_cyclic_component adj) ks"
      using that acyclic_component by (auto simp: cycles_of_def list_ex_iff)
    moreover have "st \<le> steps + int (length (k # ks)) * b" if "sb = Some b" for b
    proof -
      have "0 \<le> int (length ks) * b" using pos [OF that] by simp
      then show ?thesis using f(5) [OF that] by (simp add: algebra_simps)
    qed
    ultimately show ?thesis using ok full res by (auto simp: state_ok_def)
  next
    case False
    have run: "report_loop adj limit cl sb ks (cy, st, tr) = (cycles', steps', truncated')"
      using Cons.prems(7) r False by simp
    have dk: "distinct (concat ((before @ [k]) @ ks))" using Cons.prems(4) by simp
    have nx: "\<not> exceeds_limit limit (int (length cy))"
      using False by (auto simp: reaches_limit_def exceeds_limit_def split: option.splits)
    have ih: "state_ok adj ((before @ [k]) @ ks) cycles' \<and>
        (\<not> truncated' \<longrightarrow> set cycles' = cycles_of adj ((before @ [k]) @ ks) \<and>
           \<not> exceeds_limit limit (int (length cycles'))) \<and>
        (\<forall>b. sb = Some b \<longrightarrow> steps' \<le> st + int (length ks) * b)"
      by (rule Cons.IH [OF Cons.prems(1-3) dk ok full run]) (use nx in simp)
    have "steps' \<le> steps + int (length (k # ks)) * b" if "sb = Some b" for b
      using ih f(5) [OF that] that by (fastforce simp: algebra_simps)
    with ih show ?thesis by simp
  qed
qed

section \<open>The adjacency\<close>

lemma build_keys:
  "map fst (build_adjacency em) = map fst em @
     filter (\<lambda>t. t \<notin> fst ` set em) (sorted_list_of_set (targets_of em))"
  by (simp add: build_adjacency_def Let_def targets_of_def image_image case_prod_unfold comp_def)

lemma build_closed:
  assumes "distinct (map fst em)"
  shows "closed (build_adjacency em)" and "set (succs (build_adjacency em) n) = set (succs em n)"
    and "distinct (succs (build_adjacency em) n)"
    and "succs (build_adjacency em) n = sorted_list_of_set (set (succs em n))"
proof -
  let ?adj = "map (\<lambda>(n, ts). (n, sorted_list_of_set (set ts))) em"
  have t: "targets_of ?adj = targets_of em" by (force simp: targets_of_def)
  have m: "map_of ?adj k = map_option (\<lambda>ts. sorted_list_of_set (set ts)) (map_of em k)" for k
    by (induction em) auto
  have "map_of (map (\<lambda>t. (t, [])) xs) k = (if k \<in> set xs then Some ([] :: int list) else None)" for xs and k :: int
    by (induction xs) auto
  then have s: "succs (build_adjacency em) k = sorted_list_of_set (set (succs em k))" for k
    unfolding build_adjacency_def Let_def succs_def map_of_append map_add_def m
    by (cases "map_of em k") (simp_all split: option.split)
  show "succs (build_adjacency em) n = sorted_list_of_set (set (succs em n))" by (rule s)
  show "set (succs (build_adjacency em) n) = set (succs em n)" "distinct (succs (build_adjacency em) n)"
    by (simp_all add: s)
  have "targets_of (build_adjacency em) = targets_of em"
    unfolding build_adjacency_def Let_def t [symmetric] by (auto simp: targets_of_def)
  then show "closed (build_adjacency em)"
    using assms unfolding closed_def build_keys by auto
qed

lemma cycle_cong:
  assumes "\<And>n. set (succs adj n) = set (succs adj' n)"
  shows "elementary_cycle adj c \<longleftrightarrow> elementary_cycle adj' c"
proof -
  have "walk adj c \<longleftrightarrow> walk adj' c"
    by (induction c rule: induct_list012) (simp_all add: assms)
  then show ?thesis by (simp add: elementary_cycle_def assms)
qed

section \<open>The whole scan\<close>

definition ordered_components :: "adjacency \<Rightarrow> int list list" where
  "ordered_components adj = sort_key (\<lambda>c. Min (set c)) (strongly_connected_components adj)"

lemma mset_concat_mset: "mset (concat ks) = sum_mset (image_mset mset (mset ks))"
  by (induction ks) simp_all

lemma ordered_components_props:
  assumes "closed adj"
  shows "distinct (concat (ordered_components adj))"
    and "set (concat (ordered_components adj)) = vertices adj"
    and "\<forall>k \<in> set (ordered_components adj). \<exists>r \<in> set k. set k = scc_of adj r"
proof -
  have "mset (concat (ordered_components adj)) = mset (concat (strongly_connected_components adj))"
    unfolding mset_concat_mset ordered_components_def by simp
  then show "distinct (concat (ordered_components adj))"
    using sccs_exact(2) [OF assms] mset_eq_imp_distinct_iff by blast
  show "set (concat (ordered_components adj)) = vertices adj"
    "\<forall>k \<in> set (ordered_components adj). \<exists>r \<in> set k. set k = scc_of adj r"
    using sccs_exact(1,3) [OF assms] by (simp_all add: ordered_components_def)
qed

lemma cycles_of_components:
  assumes c: "closed adj"
  shows "cycles_of adj (ordered_components adj) = {c. elementary_cycle adj c}"
proof -
  note k = ordered_components_props [OF c]
  have "\<exists>j \<in> set (ordered_components adj). set cy \<subseteq> set j" if e: "elementary_cycle adj cy" for cy
  proof -
    have "hd cy \<in> vertices adj" using e by (intro closed_succs [OF c]) (auto simp: elementary_cycle_def)
    with k(2) obtain j where j: "j \<in> set (ordered_components adj)" "hd cy \<in> set j" by auto
    with k(3) obtain r where "set j = scc_of adj r" by blast
    with j cycle_mutual [OF e] have "set cy \<subseteq> set j"
      by (auto simp: scc_of_def intro: mutual_trans)
    with j(1) show ?thesis by blast
  qed
  then show ?thesis by (auto simp: cycles_of_def cycles_in_def)
qed

lemma find_exact:
  assumes d: "distinct (map fst em)" and cap: "cap_ok cl sb" and lim: "cap_ok limit None"
  defines "r \<equiv> find_blocker_cycles em limit cl sb"
  shows "sorted (ce_cycles r)" and "distinct (ce_cycles r)"
    and "c \<in> set (ce_cycles r) \<Longrightarrow> elementary_cycle em c"
    and "\<not> ce_truncated r \<Longrightarrow> elementary_cycle em c \<Longrightarrow> c \<in> set (ce_cycles r)"
    and "limit = Some l \<Longrightarrow> int (length (ce_cycles r)) \<le> l"
    and "sb = Some b \<Longrightarrow> ce_steps r \<le> int (length (strongly_connected_components (build_adjacency em))) * b"
proof -
  let ?adj = "build_adjacency em"
  let ?ks = "ordered_components ?adj"
  note a = build_closed [OF d]
  note k = ordered_components_props [OF a(1)]
  obtain cy st tr where run: "report_loop ?adj limit cl sb ?ks ([], 0, False) = (cy, st, tr)"
    by (metis prod_cases3)
  have r: "ce_cycles r = sort (cut_at limit cy)" "ce_truncated r = tr" "ce_steps r = st"
    using run by (simp_all add: r_def find_blocker_cycles_def Let_def ordered_components_def)
  have ex: "state_ok ?adj ([] @ ?ks) cy \<and>
      (\<not> tr \<longrightarrow> set cy = cycles_of ?adj ([] @ ?ks) \<and> \<not> exceeds_limit limit (int (length cy))) \<and>
      (\<forall>b. sb = Some b \<longrightarrow> st \<le> 0 + int (length ?ks) * b)"
    by (rule report_loop_exact [OF a(3) cap lim _ _ _ run])
      (use k(1) lim in \<open>auto simp: state_ok_def exceeds_limit_def cap_ok_def split: option.split\<close>)
  have e: "elementary_cycle ?adj c \<longleftrightarrow> elementary_cycle em c" for c
    by (rule cycle_cong) (rule a(2))
  have cyc: "distinct cy" "\<And>c. c \<in> set cy \<Longrightarrow> elementary_cycle em c"
    "\<not> tr \<Longrightarrow> set cy = {c. elementary_cycle em c}" "\<not> tr \<Longrightarrow> \<not> exceeds_limit limit (int (length cy))"
    using ex by (auto simp: state_ok_def cycles_of_components [OF a(1)] e)
  have cut: "\<exists>ys. cy = cut_at limit cy @ ys"
    unfolding cut_at_def by (cases limit) (simp_all add: py_take_prefix)
  then obtain ys where ys: "cy = cut_at limit cy @ ys" by blast
  show "sorted (ce_cycles r)" by (simp add: r)
  have "distinct (cut_at limit cy)" using cyc(1) by (subst (asm) ys) simp
  then show "distinct (ce_cycles r)" by (simp add: r)
  have "set (cut_at limit cy) \<subseteq> set cy" by (subst (2) ys) simp
  then show "elementary_cycle em c" if "c \<in> set (ce_cycles r)" using that cyc(2) by (auto simp: r)
  show "c \<in> set (ce_cycles r)" if "\<not> ce_truncated r" "elementary_cycle em c"
    using that cyc(3,4) lim unfolding r
    by (cases limit) (auto simp: cut_at_def exceeds_limit_def cap_ok_def)
  show "int (length (ce_cycles r)) \<le> l" if "limit = Some l"
    using that lim by (auto simp: r cut_at_def cap_ok_def)
  have "length ?ks = length (strongly_connected_components ?adj)" by (simp add: ordered_components_def)
  with ex show "ce_steps r \<le> int (length (strongly_connected_components ?adj)) * b" if "sb = Some b"
    using that by (simp add: r)
qed

section \<open>A graph without cycles\<close>

lemma walk_app:
  "xs \<noteq> [] \<Longrightarrow> ys \<noteq> [] \<Longrightarrow> walk adj (xs @ ys) \<longleftrightarrow> walk adj xs \<and> walk adj ys \<and> hd ys \<in> set (succs adj (last xs))"
  by (induction xs rule: induct_list012) (auto simp: neq_Nil_conv)

lemma trancl_closed_walk:
  "(x, y) \<in> (arcs adj)\<^sup>+ \<Longrightarrow> \<exists>xs. walk adj (x # xs) \<and> y \<in> set (succs adj (last (x # xs)))"
proof (induction rule: trancl_induct)
  case (base y)
  then show ?case by (intro exI [of _ "[]"]) simp
next
  case (step y z)
  then obtain xs where "walk adj (x # xs)" "y \<in> set (succs adj (last (x # xs)))" by blast
  then have "walk adj (x # xs @ [y])" using walk_snoc [of "x # xs" adj y] by simp
  with step(2) show ?case by (intro exI [of _ "xs @ [y]"]) simp
qed

definition closed_walk :: "adjacency \<Rightarrow> int list \<Rightarrow> bool" where
  "closed_walk adj c \<longleftrightarrow> c \<noteq> [] \<and> walk adj c \<and> hd c \<in> set (succs adj (last c))"

lemma closed_walk_rotate:
  assumes "closed_walk adj (xs @ ys)"
  shows "closed_walk adj (ys @ xs)"
proof (cases "xs = [] \<or> ys = []")
  case False
  with assms show ?thesis by (auto simp: closed_walk_def walk_app)
qed (use assms in auto)

lemma closed_walk_distinct:
  assumes "closed_walk adj c"
  obtains c' where "closed_walk adj c'" "distinct c'"
proof -
  obtain c' where c': "closed_walk adj c'" and least: "\<And>d. closed_walk adj d \<Longrightarrow> length c' \<le> length d"
    using ex_has_least_nat [of "closed_walk adj" c length] assms by blast
  have "distinct c'"
  proof (rule ccontr)
    assume "\<not> distinct c'"
    then obtain xs ys zs y where s: "c' = xs @ [y] @ ys @ [y] @ zs" using not_distinct_decomp by blast
    have "walk adj ((y # ys) @ y # zs)"
      using c' s walk_app [of xs "(y # ys) @ y # zs" adj] by (cases xs) (auto simp: closed_walk_def)
    then have "closed_walk adj (y # ys)"
      using walk_app [of "y # ys" "y # zs" adj] by (simp add: closed_walk_def)
    with least s show False by fastforce
  qed
  with c' show thesis by (rule that)
qed

lemma closed_walk_elementary:
  assumes "closed_walk adj c"
  obtains c' where "elementary_cycle adj c'"
proof -
  obtain d where d: "closed_walk adj d" "distinct d" by (rule closed_walk_distinct [OF assms])
  have ne: "d \<noteq> []" using d(1) by (simp add: closed_walk_def)
  then have "Min (set d) \<in> set d" by simp
  then obtain xs ys where s: "d = xs @ Min (set d) # ys" by (auto dest: split_list)
  let ?m = "Min (set d)"
  have "closed_walk adj ((?m # ys) @ xs)" using d(1) by (subst (asm) s) (rule closed_walk_rotate)
  moreover have dist: "distinct (xs @ ?m # ys)" using d(2) by (subst (asm) s)
  moreover have "\<forall>x \<in> set (ys @ xs). ?m < x"
  proof
    fix x assume x: "x \<in> set (ys @ xs)"
    have "set d = insert ?m (set ys \<union> set xs)" by (subst s) auto
    with x have "x \<in> set d" by auto
    then have "?m \<le> x" by simp
    moreover have "x \<noteq> ?m" using x dist by auto
    ultimately show "?m < x" by simp
  qed
  ultimately have "elementary_cycle adj ((?m # ys) @ xs)"
    by (auto simp: elementary_cycle_def closed_walk_def)
  then show thesis by (rule that)
qed

lemma no_cycle_component:
  assumes none: "\<And>c. \<not> elementary_cycle adj c" and k: "r \<in> set k" "set k = scc_of adj r" "distinct k"
  shows "length k = 1" and "x \<notin> set (succs adj x)"
proof -
  have irr: "(x, x) \<notin> (arcs adj)\<^sup>+" for x
    using trancl_closed_walk [of x x adj] closed_walk_elementary none
    by (metis closed_walk_def list.discI list.sel(1))
  then show "x \<notin> set (succs adj x)" by (metis arcs_iff trancl.r_into_trancl)
  have "y = r" if "y \<in> set k" for y
  proof (rule ccontr)
    assume "y \<noteq> r"
    moreover have "(y, r) \<in> (arcs adj)\<^sup>*" "(r, y) \<in> (arcs adj)\<^sup>*"
      using that k(2) by (auto simp: scc_of_def mutual_def)
    ultimately have "(y, y) \<in> (arcs adj)\<^sup>+" by (metis rtranclD trancl_rtrancl_trancl)
    with irr show False by blast
  qed
  with k(1) have "set k = {r}" by blast
  then show "length k = 1" using distinct_card [OF k(3)] by simp
qed

lemma report_loop_acyclic:
  assumes "\<forall>k \<in> set ks. length k = 1 \<and> hd k \<notin> set (succs adj (hd k))" and "cap_ok limit None"
  shows "report_loop adj limit cl sb ks ([], 0, False) = ([], 0, False)"
  using assms(1)
proof (induction ks)
  case (Cons k ks)
  have "component_step adj cl sb k ([], 0, False) = ([], 0, False)"
    using Cons.prems by (simp add: component_step_def)
  moreover have "\<not> list_ex (is_cyclic_component adj) ks"
    using Cons.prems by (auto simp: list_ex_iff is_cyclic_component_def)
  moreover have "\<not> exceeds_limit limit 0"
    using assms(2) by (auto simp: exceeds_limit_def cap_ok_def split: option.split)
  ultimately show ?case using Cons by simp
qed simp

lemma find_acyclic:
  assumes d: "distinct (map fst em)" and lim: "cap_ok limit None"
    and none: "\<And>c. \<not> elementary_cycle em c"
  shows "find_blocker_cycles em limit cl sb = \<lparr>ce_cycles = [], ce_truncated = False, ce_steps = 0\<rparr>"
proof -
  let ?adj = "build_adjacency em"
  note a = build_closed [OF d]
  note k = ordered_components_props [OF a(1)]
  have none': "\<not> elementary_cycle ?adj c" for c
    using none cycle_cong [of ?adj em] a(2) by blast
  have "length j = 1 \<and> hd j \<notin> set (succs ?adj (hd j))" if j: "j \<in> set (ordered_components ?adj)" for j
  proof -
    have "distinct j" using k(1) j by (auto simp: distinct_concat_iff)
    then show ?thesis using no_cycle_component [OF none'] k(3) j by blast
  qed
  then have "report_loop ?adj limit cl sb (ordered_components ?adj) ([], 0, False) = ([], 0, False)"
    using report_loop_acyclic lim by blast
  then show ?thesis
    using lim by (simp add: find_blocker_cycles_def ordered_components_def Let_def cut_at_def cap_ok_def split: option.split)
qed

section \<open>The order of the edges\<close>

lemma cycle_search_cong:
  assumes "\<And>n. succs adj n = succs adj' n" and "set k = set k'"
  shows "cycle_search adj k s cl sb path stack found steps = cycle_search adj' k' s cl sb path stack found steps"
  using assms
proof (induction adj k s cl sb path stack found steps rule: cycle_search.induct)
  case (3 adj k s cl sb path nxt rest stack found steps)
  let ?cap = "reaches_limit sb (steps + 1) \<or> exceeds_limit cl (int (length found))"
  consider (cap) ?cap | (close) "\<not> ?cap" "nxt = s"
    | (push) "\<not> ?cap" "nxt \<noteq> s" "nxt > s \<and> nxt \<in> set k \<and> nxt \<notin> set path"
    | (skip) "\<not> ?cap" "nxt \<noteq> s" "\<not> (nxt > s \<and> nxt \<in> set k \<and> nxt \<notin> set path)"
    by blast
  then show ?case
  proof cases
    case close
    from 3(1) [OF close 3(4,5)] close show ?thesis by simp
  next
    case push
    from 3(2) [OF push 3(4,5)] push 3(4,5) show ?thesis by simp
  next
    case skip
    from 3(3) [OF skip 3(4,5)] skip 3(5) show ?thesis by auto
  qed simp
qed simp_all

lemma anchor_loop_cong:
  assumes "\<And>n. succs adj n = succs adj' n" and "set k = set k'"
  shows "anchor_loop adj k cl sb starts st = anchor_loop adj' k' cl sb starts st"
proof (induction starts arbitrary: st)
  case Nil
  show ?case by (cases st) simp
next
  case (Cons s starts)
  obtain f t e where "st = (f, t, e)" by (metis prod_cases3)
  with Cons show ?case using cycle_search_cong [OF assms] assms(1) by simp
qed

definition alike :: "int list \<Rightarrow> int list \<Rightarrow> bool" where
  "alike k k' \<longleftrightarrow> set k = set k' \<and> length k = length k'"

lemma alike_hd: "alike k k' \<Longrightarrow> length k \<le> 1 \<Longrightarrow> hd k = hd k'"
  by (cases k; cases k') (auto simp: alike_def)

lemma component_step_cong:
  assumes "\<And>n. succs adj n = succs adj' n" and "alike k k'"
  shows "component_step adj cl sb k = component_step adj' cl sb k'"
proof -
  have "component_cycles adj k cl sb = component_cycles adj' k' cl sb"
    using anchor_loop_cong [of adj adj' k k'] assms by (simp add: component_cycles_def alike_def)
  moreover have "length k = length k'" using assms(2) by (simp add: alike_def)
  ultimately show ?thesis
    using alike_hd [OF assms(2)] assms(1)
    by (cases "length k = 1") (auto simp: component_step_def fun_eq_iff)
qed

lemma is_cyclic_component_cong:
  assumes "\<And>n. succs adj n = succs adj' n" and "alike k k'"
  shows "is_cyclic_component adj k = is_cyclic_component adj' k'"
proof (cases "length k > 1")
  case False
  then show ?thesis using alike_hd [OF assms(2)] assms by (simp add: is_cyclic_component_def alike_def)
qed (use assms(2) in \<open>simp add: is_cyclic_component_def alike_def\<close>)

lemma report_loop_cong:
  assumes "list_all2 alike ks ks'" and "\<And>n. succs adj n = succs adj' n"
  shows "report_loop adj limit cl sb ks st = report_loop adj' limit cl sb ks' st"
  using assms(1)
proof (induction arbitrary: st rule: list_all2_induct)
  case Nil
  show ?case by (cases st) simp
next
  case (Cons k ks k' ks')
  have "list_ex (is_cyclic_component adj) ks = list_ex (is_cyclic_component adj') ks'"
    using Cons(2) by (induction rule: list_all2_induct)
      (simp_all add: is_cyclic_component_cong [OF assms(2)])
  then show ?case
    using component_step_cong [OF assms(2) Cons(1)] Cons(3) by (simp split: prod.split)
qed

text \<open>Components in ascending order of their least members are determined by their members.\<close>

lemma component_of_min:
  assumes "closed adj" and "k \<in> set (ordered_components adj)"
  shows "Min (set k) \<in> set k" and "set k = scc_of adj (Min (set k))"
proof -
  obtain r where r: "r \<in> set k" "set k = scc_of adj r"
    using ordered_components_props(3) [OF assms(1)] assms(2) by blast
  show m: "Min (set k) \<in> set k" by (rule Min_in) (use r(1) in auto)
  then have "mutual adj (Min (set k)) r" using r by (simp add: scc_of_def)
  then have "scc_of adj (Min (set k)) = scc_of adj r"
    unfolding scc_of_def by (blast intro: mutual_trans mutual_sym)
  with r show "set k = scc_of adj (Min (set k))" by simp
qed

lemma component_mins:
  assumes c: "closed adj"
  shows "sorted (map (\<lambda>k. Min (set k)) (ordered_components adj))"
    and "distinct (map (\<lambda>k. Min (set k)) (ordered_components adj))"
    and "set (map (\<lambda>k. Min (set k)) (ordered_components adj)) = {x \<in> vertices adj. \<forall>y \<in> scc_of adj x. x \<le> y}"
proof -
  let ?l = "ordered_components adj" and ?min = "\<lambda>k :: int list. Min (set k)"
  note p = ordered_components_props [OF c] and m = component_of_min [OF c]
  show "sorted (map ?min ?l)" by (simp add: ordered_components_def)
  have "inj_on ?min (set ?l)"
  proof (rule inj_onI)
    fix k j assume kj: "k \<in> set ?l" "j \<in> set ?l" "?min k = ?min j"
    then have "?min k \<in> set k \<inter> set j" using m(1) by fastforce
    with p(1) kj(1,2) show "k = j" by (auto simp: distinct_concat_iff)
  qed
  moreover have "[] \<notin> set ?l" using p(3) by fastforce
  then have "distinct ?l" using p(1) by (simp add: distinct_concat_iff removeAll_id)
  ultimately show "distinct (map ?min ?l)" by (simp add: distinct_map)
  show "set (map ?min ?l) = {x \<in> vertices adj. \<forall>y \<in> scc_of adj x. x \<le> y}"
  proof (intro equalityI subsetI)
    fix x assume "x \<in> set (map ?min ?l)"
    then obtain k where k: "k \<in> set ?l" "x = ?min k" by auto
    with m(1) p(2) have "x \<in> vertices adj" by (metis UN_I set_concat)
    moreover have "\<forall>y \<in> scc_of adj x. x \<le> y" using m(2) [OF k(1)] k(2) by (metis List.finite_set Min_le)
    ultimately show "x \<in> {x \<in> vertices adj. \<forall>y \<in> scc_of adj x. x \<le> y}" by simp
  next
    fix x assume x: "x \<in> {x \<in> vertices adj. \<forall>y \<in> scc_of adj x. x \<le> y}"
    then have "x \<in> set (concat ?l)" using p(2) by auto
    then obtain k where k: "k \<in> set ?l" "x \<in> set k" by auto
    have "x \<in> scc_of adj (?min k)" using m(2) [OF k(1)] k(2) by simp
    then have "?min k \<in> scc_of adj x" by (simp add: scc_of_def mutual_sym)
    with x have "x \<le> ?min k" by blast
    moreover have "?min k \<le> x" using k(2) by simp
    ultimately show "x \<in> set (map ?min ?l)" using k(1) by auto
  qed
qed

lemma components_alike:
  assumes c: "closed adj" "closed adj'" and s: "\<And>n. succs adj n = succs adj' n"
    and v: "vertices adj = vertices adj'"
  shows "list_all2 alike (ordered_components adj) (ordered_components adj')"
proof -
  let ?ks = "ordered_components adj" and ?ks' = "ordered_components adj'"
  let ?min = "\<lambda>k :: int list. Min (set k)"
  have "arcs adj = arcs adj'" by (simp add: arcs_def s)
  then have cls: "scc_of adj = scc_of adj'" by (simp add: scc_of_def mutual_def fun_eq_iff)
  have eq: "map ?min ?ks = map ?min ?ks'"
    by (rule sorted_distinct_set_unique)
      (use component_mins [OF c(1)] component_mins [OF c(2)] cls v in simp_all)
  show ?thesis
  proof (rule list_all2_all_nthI)
    show "length ?ks = length ?ks'" using eq map_eq_imp_length_eq by blast
    fix i assume i: "i < length ?ks"
    with \<open>length ?ks = length ?ks'\<close> have i': "i < length ?ks'" by simp
    have "?min (?ks ! i) = ?min (?ks' ! i)" using eq i i' by (metis nth_map)
    moreover have "set (?ks ! i) = scc_of adj (?min (?ks ! i))" "set (?ks' ! i) = scc_of adj (?min (?ks' ! i))"
      using component_of_min(2) [OF c(1) nth_mem [OF i]] component_of_min(2) [OF c(2) nth_mem [OF i']] cls by simp_all
    moreover have "distinct (?ks ! i)" "distinct (?ks' ! i)"
      using ordered_components_props(1) c i i' by (auto simp: distinct_concat_iff)
    ultimately show "alike (?ks ! i) (?ks' ! i)" by (metis alike_def distinct_card)
  qed
qed

lemma targets_of_map:
  assumes "distinct (map fst em)"
  shows "targets_of em = \<Union> (set ` ran (map_of em))"
  using assms by (force simp: targets_of_def ran_def)

lemma find_order_free:
  assumes d: "distinct (map fst em)" "distinct (map fst em')" and m: "map_of em = map_of em'"
  shows "find_blocker_cycles em limit cl sb = find_blocker_cycles em' limit cl sb"
proof -
  note a = build_closed [OF d(1)] and a' = build_closed [OF d(2)]
  have s: "succs (build_adjacency em) n = succs (build_adjacency em') n" for n
    using a(4) a'(4) by (simp add: succs_def [of em] succs_def [of em'] m)
  have "fst ` set em = fst ` set em'" using m by (metis dom_map_of_conv_image_fst)
  moreover have "targets_of em = targets_of em'" using targets_of_map d m by simp
  ultimately have v: "vertices (build_adjacency em) = vertices (build_adjacency em')"
    unfolding build_keys by auto
  from report_loop_cong [OF components_alike [OF a(1) a'(1) s v] s]
  show ?thesis by (simp add: find_blocker_cycles_def ordered_components_def Let_def)
qed

end
