(* ===== verification/Blocker_Scan.thy ===== *)
theory Blocker_Scan
  imports Blocker_Report
begin

text \<open>
  From the tracker to the graph: what the edges of the scan are, over any tracker whose answer about
  open numbers is exact (the locale \<open>blocker_tracker\<close>), and the local-file tracker as such a one.
\<close>

section \<open>The declared blockers\<close>

lemma first_bodies_distinct: "distinct (map fst bs) \<Longrightarrow> distinct (map fst (first_bodies is bs))"
  by (induction "is" bs rule: first_bodies.induct) auto

lemma first_bodies_all:
  "distinct (map fst bs @ map fst xs) \<Longrightarrow>
   first_bodies (map (\<lambda>(n, b). (Some n, Some b)) xs) bs = bs @ xs"
proof (induction xs arbitrary: bs)
  case (Cons x xs)
  obtain n b where x: "x = (n, b)" by (rule prod.exhaust)
  then have "n \<notin> fst ` set bs" using Cons.prems by auto
  with Cons.IH [of "bs @ [(n, b)]"] Cons.prems x show ?case by simp
qed simp

lemma declared_finite:
  "declared_blockers_by_issue parse R is = Inr ds \<Longrightarrow> (n, ts) \<in> set ds \<Longrightarrow> finite ts"
proof -
  have "finite {n. Same_repo n \<in> A}" if "finite A" for A
    by (rule finite_subset [of _ "(\<lambda>d. case d of Same_repo n \<Rightarrow> n | Cross_repo_blocker n \<Rightarrow> n) ` A"])
      (use that in \<open>force+\<close>)
  then show "declared_blockers_by_issue parse R is = Inr ds \<Longrightarrow> (n, ts) \<in> set ds \<Longrightarrow> finite ts"
    by (auto simp: declared_blockers_by_issue_def Let_def local_dependencies_def split: if_splits sum.splits)
qed

lemma declared_distinct:
  "declared_blockers_by_issue parse R is = Inr ds \<Longrightarrow> distinct (map fst ds)"
  using first_bodies_distinct [of "[]" "is"]
  by (auto simp: declared_blockers_by_issue_def Let_def case_prod_unfold comp_def split: if_splits sum.splits)

section \<open>The interface\<close>

locale blocker_tracker =
  fixes open_of :: "int list \<Rightarrow> int set" and counts_open :: "int \<Rightarrow> bool"
  assumes open_exact: "n \<in> open_of ns \<longleftrightarrow> n \<in> set ns \<and> counts_open n"
begin

lemma edges_exact:
  assumes "br_are_open R = (\<lambda>ns. Inr (open_of ns))"
    and "declared_blockers_by_issue parse R is = Inr ds"
  shows "open_blocker_edges parse R is =
    Inr (map (\<lambda>(n, ts). (n, sorted_list_of_set {b \<in> ts. counts_open b})) ds)"
proof -
  let ?all = "sorted_list_of_set (\<Union> (snd ` set ds))"
  define opn where "opn = (if ?all = [] then {} else open_of ?all)"
  have f: "finite (\<Union> (snd ` set ds))" using declared_finite [OF assms(2)] by auto
  have "ts \<inter> opn = {b \<in> ts. counts_open b}" if "(n, ts) \<in> set ds" for n ts
  proof -
    have "ts \<subseteq> set ?all" using that f by force
    then show ?thesis
      unfolding opn_def by (cases "?all = []") (auto simp only: open_exact list.set if_True if_False)
  qed
  then have e: "map (\<lambda>(n, ts). (n, sorted_list_of_set (ts \<inter> opn))) ds =
      map (\<lambda>(n, ts). (n, sorted_list_of_set {b \<in> ts. counts_open b})) ds"
    by (intro map_cong) auto
  have "(if ?all = [] then Inr {} else br_are_open R ?all) = Inr opn"
    by (simp only: opn_def assms(1) split: if_split) simp
  then have "open_blocker_edges parse R is = Inr (map (\<lambda>(n, ts). (n, sorted_list_of_set (ts \<inter> opn))) ds)"
    by (simp only: open_blocker_edges_def assms(2) bindE.simps Let_def)
  with e show ?thesis by simp
qed

lemma edge_iff:
  assumes "br_are_open R = (\<lambda>ns. Inr (open_of ns))"
    and "declared_blockers_by_issue parse R is = Inr ds" and "open_blocker_edges parse R is = Inr es"
  shows "y \<in> set (succs es x) \<longleftrightarrow> (\<exists>ts. (x, ts) \<in> set ds \<and> y \<in> ts) \<and> counts_open y"
    and "distinct (map fst es)"
proof -
  have es: "es = map (\<lambda>(n, ts). (n, sorted_list_of_set {b \<in> ts. counts_open b})) ds"
    using edges_exact [OF assms(1,2)] assms(3) by simp
  then have k: "map fst es = map fst ds" by (simp add: case_prod_unfold comp_def)
  then show d: "distinct (map fst es)" using declared_distinct [OF assms(2)] by simp
  show "y \<in> set (succs es x) \<longleftrightarrow> (\<exists>ts. (x, ts) \<in> set ds \<and> y \<in> ts) \<and> counts_open y"
  proof (cases "x \<in> fst ` set ds")
    case True
    then obtain ts where ts: "(x, ts) \<in> set ds" by auto
    then have "(x, sorted_list_of_set {b \<in> ts. counts_open b}) \<in> set es" unfolding es by force
    then have "succs es x = sorted_list_of_set {b \<in> ts. counts_open b}" by (rule succs_entry [OF d])
    then have m: "y \<in> set (succs es x) \<longleftrightarrow> y \<in> ts \<and> counts_open y"
      using declared_finite [OF assms(2) ts] by simp
    have "ts' = ts" if "(x, ts') \<in> set ds" for ts'
      using that ts declared_distinct [OF assms(2)] by (meson eq_key_imp_eq_value)
    then have "(\<exists>ts. (x, ts) \<in> set ds \<and> y \<in> ts) \<longleftrightarrow> y \<in> ts" using ts by blast
    with m show ?thesis by simp
  next
    case False
    with k have "map_of es x = None" by (metis list.set_map map_of_eq_None_iff)
    with False show ?thesis by (force simp: succs_def)
  qed
qed

end

section \<open>The local-file tracker\<close>

definition gate_open :: "git_view \<Rightarrow> issue_file list \<Rightarrow> int \<Rightarrow> bool" where
  "gate_open g fs n \<longleftrightarrow>
     (\<exists>i \<in> set (scanned fs). li_number i = n \<and> (li_open i \<or> fst (closed_issue_work_unlanded g i)))"

interpretation local_gate: blocker_tracker "\<lambda>ns. fst (are_issues_open g fs ns m)" "gate_open g fs" for g fs m
  by unfold_locales (simp add: are_issues_open_member gate_open_def)

lemma open_issue_list: "set (issue_list [] (Some ''open'') fs) = {i \<in> set (scanned fs). li_open i}"
proof -
  have "lower ''OPEN'' = ''open''" "lower ''CLOSED'' = ''closed''" "lower ''open'' = ''open''"
    by code_simp+
  then show ?thesis by (auto simp: issue_list_def state_name_def Let_def)
qed

lemma open_issue_list_distinct: "distinct (map li_number (issue_list [] (Some ''open'') fs))"
proof -
  have "distinct (map li_number (sort_key li_number (filter P (scanned fs))))" for P
    using scanned_distinct [of fs]
    by (metis distinct_map_filter mset_eq_imp_distinct_iff mset_map mset_sort)
  then show ?thesis by (simp add: issue_list_def Let_def rev_map [symmetric])
qed

lemma local_declared:
  "declared_blockers_by_issue parse (local_blocker_reads g (Some fs) m)
      (map (\<lambda>i. (Some (li_number i), Some (li_body i))) (issue_list [] (Some ''open'') fs)) =
   Inr (map (\<lambda>i. (li_number i, set (parse (li_body i)))) (issue_list [] (Some ''open'') fs))"
proof -
  let ?l = "issue_list [] (Some ''open'') fs"
  have "first_bodies (map (\<lambda>(n, b). (Some n, Some b)) (map (\<lambda>i. (li_number i, li_body i)) ?l)) [] =
      map (\<lambda>i. (li_number i, li_body i)) ?l"
    using first_bodies_all [of "[]" "map (\<lambda>i. (li_number i, li_body i)) ?l"] open_issue_list_distinct
    by (simp add: comp_def)
  then show ?thesis
    by (auto simp: declared_blockers_by_issue_def local_blocker_reads_def Let_def comp_def
        local_dependencies_def)
qed

text \<open>An issue waits for another: it is open, its body declares the other, and the gate holds that open.\<close>

definition waits_for :: "(string \<Rightarrow> int list) \<Rightarrow> git_view \<Rightarrow> issue_file list \<Rightarrow> int \<Rightarrow> int \<Rightarrow> bool" where
  "waits_for parse g fs x y \<longleftrightarrow>
     (\<exists>i \<in> set (scanned fs). li_number i = x \<and> li_open i \<and> y \<in> set (parse (li_body i))) \<and> gate_open g fs y"

lemma local_edges:
  obtains es where
    "bindE (br_open_issues (local_blocker_reads g (Some fs) m))
       (open_blocker_edges parse (local_blocker_reads g (Some fs) m)) = Inr es"
    "distinct (map fst es)" "\<And>x y. y \<in> set (succs es x) \<longleftrightarrow> waits_for parse g fs x y"
proof -
  let ?R = "local_blocker_reads g (Some fs) m"
  let ?is = "map (\<lambda>i. (Some (li_number i), Some (li_body i))) (issue_list [] (Some ''open'') fs)"
  have o: "br_open_issues ?R = Inr ?is" and a: "br_are_open ?R = (\<lambda>ns. Inr (fst (are_issues_open g fs ns m)))"
    by (simp_all add: local_blocker_reads_def)
  obtain es where es: "open_blocker_edges parse ?R ?is = Inr es"
    using local_gate.edges_exact [OF a local_declared] by blast
  note e = local_gate.edge_iff [OF a local_declared es]
  have "(\<exists>ts. (x, ts) \<in> set (map (\<lambda>i. (li_number i, set (parse (li_body i)))) (issue_list [] (Some ''open'') fs)) \<and> y \<in> ts) \<longleftrightarrow>
      (\<exists>i \<in> set (scanned fs). li_number i = x \<and> li_open i \<and> y \<in> set (parse (li_body i)))" for x y
    using open_issue_list [of fs] by auto
  with e(1) have "y \<in> set (succs es x) \<longleftrightarrow> waits_for parse g fs x y" for x y
    unfolding waits_for_def by simp
  moreover have "bindE (br_open_issues ?R) (open_blocker_edges parse ?R) = Inr es"
    unfolding o bindE.simps by (rule es)
  ultimately show thesis using e(2) by (intro that [of es])
qed

end
