(* ===== verification/Blocker_Work.thy ===== *)
theory Blocker_Work
  imports Blocker_Report
begin

text \<open>
  When the blocker-cycle scan may call itself truncated: each step of a search looks at one trail of the
  graph that no earlier step looked at, so a cap on the steps is reached only in a graph with that
  many trails, and a cap on the cycles only in one with more cycles than the cap.
\<close>

section \<open>Trails\<close>

text \<open>
  What one step of a search looks at: a walk without repetition from its least member, and one more edge,
  which may lead back into the walk.
\<close>

definition trails :: "adjacency \<Rightarrow> int \<Rightarrow> int list set" where
  "trails adj start =
     {t. 2 \<le> length t \<and> walk adj t \<and> distinct (butlast t) \<and> hd t = start \<and> (\<forall>x \<in> set (tl (butlast t)). start < x)}"

definition all_trails :: "adjacency \<Rightarrow> int list set" where
  "all_trails adj = (\<Union>s. trails adj s)"

text \<open>The trails that the iterators of a stack have still to give.\<close>

definition going_over :: "int list set \<Rightarrow> int list \<Rightarrow> int list \<Rightarrow> int list set" where
  "going_over T path it = {t \<in> T. \<exists>x xs. t = rev path @ x # xs \<and> x \<in> set it}"

fun untried :: "int list set \<Rightarrow> int list \<Rightarrow> int list list \<Rightarrow> int list set" where
  "untried T path [] = {}"
| "untried T path (it # stack) = going_over T path it \<union> untried T (tl path) stack"

lemma untried_subset: "untried T path stack \<subseteq> T"
  by (induction T path stack rule: untried.induct) (auto simp: going_over_def)

lemma untried_not_extending:
  assumes "stack_ok adj start path (it # stack)" and "length path = Suc (length stack)"
  shows "rev path @ ys \<notin> untried T (tl path) stack"
  using assms
proof (induction stack arbitrary: path it ys)
  case (Cons below stack)
  obtain p ps where p: "path = p # ps" using Cons.prems(2) by (cases path) auto
  have ok: "stack_ok adj start ps (below # stack)" and nb: "p \<notin> set below"
    using Cons.prems(1) p by simp_all
  have "rev path @ ys \<notin> going_over T ps below" using p nb by (auto simp: going_over_def)
  moreover have "rev ps @ (p # ys) \<notin> untried T (tl ps) stack"
    by (rule Cons.IH [OF ok]) (use Cons.prems(2) p in simp)
  ultimately show ?case using p by simp
qed simp

text \<open>A step takes its own trail away and adds none.\<close>

lemma step_takes_trail:
  assumes ok: "search_ok adj component start path ((nxt # rest) # stack) found"
  defines "T \<equiv> trails adj start"
  shows "rev path @ [nxt] \<in> untried T path ((nxt # rest) # stack)"
    and "untried T path (rest # stack) \<subseteq> untried T path ((nxt # rest) # stack) - {rev path @ [nxt]}"
    and "untried T (nxt # path) (succs adj nxt # rest # stack) \<subseteq>
      untried T path ((nxt # rest) # stack) - {rev path @ [nxt]}"
proof -
  note d = search_okD [OF ok]
  have ne: "path \<noteq> []" and la: "last path = start" and su: "nxt \<in> set (succs adj (hd path))" and nr: "nxt \<notin> set rest"
    using d(1) by auto
  have "walk adj (rev path @ [nxt])"
    using ne d(3) su by (simp add: walk_snoc last_rev)
  then have "rev path @ [nxt] \<in> T"
    using ne d(4) butlast_greater_walk [OF ne la d(6)]
    by (cases path rule: rev_cases) (auto simp: T_def trails_def butlast_append)
  then show "rev path @ [nxt] \<in> untried T path ((nxt # rest) # stack)"
    by (simp add: going_over_def)
  have below: "rev path @ [nxt] \<notin> untried T (tl path) stack"
    by (rule untried_not_extending [OF d(1)]) (use d(2) in simp)
  have "going_over T path rest \<subseteq> going_over T path (nxt # rest) - {rev path @ [nxt]}"
    using nr by (auto simp: going_over_def)
  with below show rest: "untried T path (rest # stack) \<subseteq> untried T path ((nxt # rest) # stack) - {rev path @ [nxt]}"
    by auto
  have "going_over T (nxt # path) (succs adj nxt) \<subseteq> going_over T path (nxt # rest) - {rev path @ [nxt]}"
    by (auto simp: going_over_def)
  with rest show "untried T (nxt # path) (succs adj nxt # rest # stack) \<subseteq>
      untried T path ((nxt # rest) # stack) - {rev path @ [nxt]}"
    by auto
qed

lemma cycle_search_work:
  assumes "search_ok adj component start path stack found" and "\<And>n. distinct (succs adj n)" and "finite (trails adj start)"
    and "cycle_search adj component start cl sb path stack found steps = (found', steps', exhausted)"
  shows "steps' \<le> steps + int (card (untried (trails adj start) path stack))"
  using assms
proof (induction adj component start cl sb path stack found steps rule: cycle_search.induct)
  case (2 adj component start cl sb path stack found steps)
  from 2(1) [OF search_ok_pop [OF 2(2)] 2(3,4)] 2(5) show ?case by (simp add: going_over_def)
next
  case (3 adj component start cl sb path nxt rest stack found steps)
  let ?T = "trails adj start"
  let ?U = "untried ?T path ((nxt # rest) # stack)"
  note t = step_takes_trail [OF 3(4)]
  have fin: "finite ?U" using untried_subset 3(6) by (rule finite_subset)
  have less: "int (card S) + 1 \<le> int (card ?U)" if "S \<subseteq> ?U - {rev path @ [nxt]}" for S
    using card_mono [OF _ that] card_Suc_Diff1 [OF fin t(1)] fin by simp
  let ?cap = "reaches_limit sb (steps + 1) \<or> exceeds_limit cl (int (length found))"
  consider (cap) ?cap | (close) "\<not> ?cap" "nxt = start"
    | (push) "\<not> ?cap" "nxt \<noteq> start" "nxt > start \<and> nxt \<in> set component \<and> nxt \<notin> set path"
    | (skip) "\<not> ?cap" "nxt \<noteq> start" "\<not> (nxt > start \<and> nxt \<in> set component \<and> nxt \<notin> set path)"
    by blast
  then show ?case
  proof cases
    case cap
    with 3(7) less [of "{}"] show ?thesis by (auto simp del: untried.simps)
  next
    case close
    note c = search_ok_close(1) [OF 3(4) [unfolded close(2)]]
    have "cycle_search adj component start cl sb path (rest # stack) (found @ [rev path]) (steps + 1) =
        (found', steps', exhausted)"
      using 3(7) close by simp
    from 3(1) [OF close c 3(5,6) this] less [OF t(2)] show ?thesis by linarith
  next
    case push
    note c = search_ok_push(1) [OF 3(4) 3(5)]
    have "cycle_search adj component start cl sb (nxt # path) (succs adj nxt # rest # stack) found (steps + 1) =
        (found', steps', exhausted)"
      using 3(7) push by simp
    from 3(2) [OF push c 3(5,6) this] push(3) less [OF t(3)] show ?thesis by auto
  next
    case skip
    note c = search_ok_skip(1) [OF 3(4) skip(2,3)]
    have "cycle_search adj component start cl sb path (rest # stack) found (steps + 1) = (found', steps', exhausted)"
      using 3(7) skip by simp
    from 3(3) [OF skip c 3(5,6) this] less [OF t(2)] show ?thesis by linarith
  qed
qed simp

section \<open>The caps\<close>

lemma cycle_search_capped:
  assumes "cycle_search adj k s cl sb path stack found steps = (found', steps', True)"
  shows "reaches_limit sb steps' \<or> exceeds_limit cl (int (length found'))"
  using assms
  by (induction adj k s cl sb path stack found steps rule: cycle_search.induct) (auto split: if_splits)

lemma finite_trails:
  assumes "closed adj"
  shows "finite (all_trails adj)"
proof -
  have mem: "set (butlast t) \<subseteq> vertices adj \<and> last t \<in> vertices adj" if "walk adj t" "2 \<le> length t" for t
    using that
  proof (induction t rule: induct_list012)
    case (3 x y zs)
    then show ?case
      using closed_succs [OF assms, of y x] succs_vertex [of y adj x] by (cases zs) auto
  qed simp_all
  have "all_trails adj \<subseteq> (\<lambda>(p, x). p @ [x]) ` ({p. set p \<subseteq> vertices adj \<and> distinct p} \<times> vertices adj)"
  proof
    fix t assume t: "t \<in> all_trails adj"
    then have "t = butlast t @ [last t]" by (cases t rule: rev_cases) (auto simp: all_trails_def trails_def)
    then show "t \<in> (\<lambda>(p, x). p @ [x]) ` ({p. set p \<subseteq> vertices adj \<and> distinct p} \<times> vertices adj)"
      using mem [of t] t by (intro image_eqI [of _ _ "(butlast t, last t)"]) (auto simp: all_trails_def trails_def)
  qed
  moreover have "finite {p. set p \<subseteq> vertices adj \<and> distinct p}"
    by (rule finite_subset_distinct) simp
  ultimately show ?thesis
    by (meson finite_SigmaI finite_imageI finite_subset List.finite_set)
qed

lemma anchor_loop_work:
  assumes "distinct starts" and "set starts \<subseteq> set k" and "\<And>n. distinct (succs adj n)" and "finite (all_trails adj)"
    and "distinct found" and "set found \<inter> (\<Union>s \<in> set starts. anchored adj k s) = {}"
    and "anchor_loop adj k cl sb starts (found, steps, False) = (found', steps', exhausted)"
  shows "steps' \<le> steps + int (card (\<Union>s \<in> set starts. trails adj s)) \<and>
    (exhausted \<longrightarrow> reaches_limit sb steps' \<or> exceeds_limit cl (int (length found')))"
  using assms
proof (induction starts arbitrary: found steps)
  case (Cons s starts)
  let ?ts = "\<Union>s \<in> set starts. trails adj s"
  obtain f st e where r: "cycle_search adj k s cl sb [s] [succs adj s] found steps = (f, st, e)"
    by (metis prod_cases3)
  have ok: "search_ok adj k s [s] [succs adj s] found"
    using Cons.prems unfolding search_ok_def pending_start by auto
  have fin: "finite (trails adj s)" "finite ?ts"
    by (rule finite_subset [OF _ Cons.prems(4)]; auto simp: all_trails_def)+
  have "card (untried (trails adj s) [s] [succs adj s]) \<le> card (trails adj s)"
    by (rule card_mono [OF fin(1) untried_subset])
  with cycle_search_work [OF ok Cons.prems(3) fin(1) r] have st: "st \<le> steps + int (card (trails adj s))"
    by linarith
  have "trails adj s \<inter> ?ts = {}"
    using Cons.prems(1) by (auto simp: trails_def)
  then have card: "card (trails adj s \<union> ?ts) = card (trails adj s) + card ?ts"
    using fin by (rule card_Un_disjoint [rotated 2])
  note exact = cycle_search_exact [OF ok Cons.prems(3) r, unfolded pending_start]
  show ?case
  proof (cases e)
    case True
    then have "(found', steps', exhausted) = (f, st, True)"
      using Cons.prems(7) r by (cases starts) simp_all
    moreover have "reaches_limit sb st \<or> exceeds_limit cl (int (length f))"
      using cycle_search_capped [of adj k s cl sb _ _ found steps f st] r True by simp
    moreover have "(\<Union>s \<in> set (s # starts). trails adj s) = trails adj s \<union> ?ts"
      by simp
    ultimately show ?thesis
      using st card by simp
  next
    case False
    have run: "anchor_loop adj k cl sb starts (f, st, False) = (found', steps', exhausted)"
      using Cons.prems(7) r False by simp
    have other: "anchored adj k s \<inter> anchored adj k s' = {}" if "s' \<in> set starts" for s'
      using that Cons.prems(1) by (auto simp: anchored_def)
    have sub: "set f \<subseteq> set found \<union> anchored adj k s"
      using exact by blast
    have apart: "set f \<inter> (\<Union>s \<in> set starts. anchored adj k s) = {}"
      using sub Cons.prems(6) other by (simp, blast)
    have d: "distinct starts" "set starts \<subseteq> set k" "distinct f"
      using Cons.prems(1,2) exact by auto
    have "steps' \<le> st + int (card ?ts) \<and> (exhausted \<longrightarrow> reaches_limit sb steps' \<or> exceeds_limit cl (int (length found')))"
      by (rule Cons.IH [OF d(1,2) Cons.prems(3,4) d(3) apart run])
    moreover have "card (\<Union>s \<in> set (s # starts). trails adj s) = card (trails adj s) + card ?ts"
      using card by simp
    ultimately show ?thesis
      using st by linarith
  qed
qed simp

text \<open>A component is cut short only for its steps or its cycles.\<close>

definition cap_reached :: "adjacency \<Rightarrow> int option \<Rightarrow> int option \<Rightarrow> bool" where
  "cap_reached adj cl sb \<longleftrightarrow>
     reaches_limit sb (int (card (all_trails adj))) \<or> exceeds_limit cl (int (card {c. elementary_cycle adj c}))"

lemma limit_mono:
  "reaches_limit b n \<Longrightarrow> n \<le> m \<Longrightarrow> reaches_limit b m" "exceeds_limit b n \<Longrightarrow> n \<le> m \<Longrightarrow> exceeds_limit b m"
  by (auto simp: reaches_limit_def exceeds_limit_def split: option.splits)

lemma component_capped:
  assumes c: "closed adj" and d: "\<And>n. distinct (succs adj n)" and fin: "finite {c. elementary_cycle adj c}"
    and run: "component_cycles adj k cl sb = (cycles, True, steps)"
  shows "cap_reached adj cl sb"
proof -
  obtain f st e where r: "anchor_loop adj k cl sb (sorted_list_of_set (set k)) ([], 0, False) = (f, st, e)"
    by (metis prod_cases3)
  have res: "e \<or> exceeds_limit cl (int (length f))"
    using run r by (simp add: component_cycles_def)
  note ft = finite_trails [OF c]
  have ex: "distinct f \<and> set [] \<subseteq> set f \<and>
      set f \<subseteq> set [] \<union> (\<Union>s \<in> set (sorted_list_of_set (set k)). anchored adj k s) \<and>
      (\<not> e \<longrightarrow> set f = set [] \<union> (\<Union>s \<in> set (sorted_list_of_set (set k)). anchored adj k s))"
    by (rule anchor_loop_exact [OF _ _ d _ _ r]) simp_all
  then have "set f \<subseteq> {c. elementary_cycle adj c}" "distinct f"
    by (auto simp: anchored_def)
  then have len: "int (length f) \<le> int (card {c. elementary_cycle adj c})"
    using card_mono [OF fin, of "set f"] by (simp add: distinct_card)
  have work: "st \<le> 0 + int (card (\<Union>s \<in> set (sorted_list_of_set (set k)). trails adj s)) \<and>
      (e \<longrightarrow> reaches_limit sb st \<or> exceeds_limit cl (int (length f)))"
    by (rule anchor_loop_work [OF _ _ d ft _ _ r]) simp_all
  have "(\<Union>s \<in> set (sorted_list_of_set (set k)). trails adj s) \<subseteq> all_trails adj"
    by (auto simp: all_trails_def)
  with work have "st \<le> int (card (all_trails adj))"
    using card_mono [OF ft] by (smt (verit) int_ops(1) nat_int_comparison(3))
  with res work len show ?thesis
    unfolding cap_reached_def using limit_mono by blast
qed


lemma component_step_capped:
  assumes "closed adj" and "\<And>n. distinct (succs adj n)" and "finite {c. elementary_cycle adj c}"
    and "component_step adj cl sb k (cycles, steps, truncated) = (cycles', steps', True)"
  shows "truncated \<or> cap_reached adj cl sb"
proof (cases "length k = 1")
  case True
  then show ?thesis
    using assms(4) by (simp add: component_step_def)
next
  case False
  obtain f t s where r: "component_cycles adj k cl sb = (f, t, s)" by (metis prod_cases3)
  then have "truncated \<or> t"
    using assms(4) False by (simp add: component_step_def)
  then show ?thesis
    using component_capped [OF assms(1-3), of k cl sb f s] r by auto
qed

text \<open>The report is cut short only by a component, or when it has as many cycles as it may report.\<close>

lemma report_loop_capped:
  assumes "closed adj" and "\<And>n. distinct (succs adj n)" and "finite {c. elementary_cycle adj c}" and "cap_ok cl sb"
    and "distinct (concat (before @ ks))" and "state_ok adj before cycles" and "truncated \<longrightarrow> cap_reached adj cl sb"
    and "report_loop adj limit cl sb ks (cycles, steps, truncated) = (cycles', steps', True)"
  shows "cap_reached adj cl sb \<or> reaches_limit limit (int (card {c. elementary_cycle adj c}))"
  using assms(5-8)
proof (induction ks arbitrary: before cycles steps truncated)
  case (Cons k ks)
  obtain cy st tr where r: "component_step adj cl sb k (cycles, steps, truncated) = (cy, st, tr)"
    by (metis prod_cases3)
  have tr: "tr \<longrightarrow> cap_reached adj cl sb"
    using component_step_capped [OF assms(1-3), of cl sb k cycles steps truncated cy st] r Cons.prems(3) by auto
  obtain found where f: "cy = cycles @ found" "distinct found" "set found \<subseteq> cycles_in adj (set k)"
    using component_step_exact [OF r assms(2,4)] by metis
  have "cycles_of adj before \<inter> cycles_in adj (set k) = {}"
  proof -
    have "cycles_in adj (set j) \<inter> cycles_in adj (set k) = {}" if "j \<in> set before" for j
      using Cons.prems(1) that by (intro cycles_in_disjoint) auto
    then show ?thesis unfolding cycles_of_def by blast
  qed
  with f Cons.prems(2) have ok: "state_ok adj (before @ [k]) cy" by (auto simp: state_ok_def)
  then have "distinct cy" "set cy \<subseteq> {c. elementary_cycle adj c}"
    by (auto simp: state_ok_def cycles_of_def cycles_in_def)
  then have len: "int (length cy) \<le> int (card {c. elementary_cycle adj c})"
    using card_mono [OF assms(3), of "set cy"] by (simp add: distinct_card)
  show ?case
  proof (cases "reaches_limit limit (int (length cy))")
    case True
    then show ?thesis
      using limit_mono(1) len by blast
  next
    case False
    then have run: "report_loop adj limit cl sb ks (cy, st, tr) = (cycles', steps', True)"
      using Cons.prems(4) r by simp
    show ?thesis
      by (rule Cons.IH [OF _ ok tr run]) (use Cons.prems(1) in simp)
  qed
qed simp

lemma succs_cong_walk:
  assumes "\<And>n. set (succs adj n) = set (succs adj' n)"
  shows "all_trails adj = all_trails adj'"
proof -
  have "walk adj c \<longleftrightarrow> walk adj' c" for c
    by (induction c rule: induct_list012) (simp_all add: assms)
  then show ?thesis by (simp add: all_trails_def trails_def)
qed

lemma truncated_for_a_cap:
  assumes d: "distinct (map fst em)" and cap: "cap_ok cl sb"
    and t: "ce_truncated (find_blocker_cycles em limit cl sb)"
  shows "cap_reached em cl sb \<or> reaches_limit limit (int (card {c. elementary_cycle em c}))"
proof -
  let ?adj = "build_adjacency em"
  note a = build_closed [OF d]
  have e: "elementary_cycle ?adj c \<longleftrightarrow> elementary_cycle em c" for c
    by (rule cycle_cong) (rule a(2))
  have cap_eq: "cap_reached ?adj cl sb \<longleftrightarrow> cap_reached em cl sb"
    using succs_cong_walk [OF a(2)] e by (simp add: cap_reached_def)
  have fin: "finite {c. elementary_cycle ?adj c}"
  proof (rule finite_subset)
    show "finite {p. set p \<subseteq> vertices ?adj \<and> distinct p}"
      by (rule finite_subset_distinct) simp
    have "set c \<subseteq> vertices ?adj" if "elementary_cycle ?adj c" for c
    proof
      fix x assume "x \<in> set c"
      then have reaches: "(x, hd c) \<in> (arcs ?adj)\<^sup>*"
        using cycle_mutual [OF that] by (simp add: mutual_def)
      have "hd c \<in> vertices ?adj"
        using that by (intro closed_succs [OF a(1)]) (auto simp: elementary_cycle_def)
      then show "x \<in> vertices ?adj"
        using reaches by (cases rule: converse_rtranclE [consumes 1, case_names base step, OF reaches])
          (auto dest: succs_vertex)
    qed
    then show "{c. elementary_cycle ?adj c} \<subseteq> {p. set p \<subseteq> vertices ?adj \<and> distinct p}"
      by (auto simp: elementary_cycle_def)
  qed
  obtain cy st where run: "report_loop ?adj limit cl sb (ordered_components ?adj) ([], 0, False) = (cy, st, True)"
    using t by (auto simp: find_blocker_cycles_def Let_def ordered_components_def split: prod.splits)
  have "cap_reached ?adj cl sb \<or> reaches_limit limit (int (card {c. elementary_cycle ?adj c}))"
    by (rule report_loop_capped [OF a(1,3) fin cap _ _ _ run, of "[]"])
      (use ordered_components_props(1) [OF a(1)] in \<open>simp_all add: state_ok_def\<close>)
  then show ?thesis
    by (simp add: cap_eq e)
qed

end
