(* ===== verification/Blocker_Props.thy ===== *)
theory Blocker_Props
  imports Blocker_Scan Blocker_Work
begin

text \<open>
  The properties of the blocker-cycle scan.
\<close>

section \<open>A sample graph\<close>

definition sample_graph :: "(int \<times> int list) list" where
  "sample_graph = [(5, [2]), (2, [3, 1]), (3, [1]), (1, [2, 2]), (4, [4])]"

lemma sample_graph_closed: "closed sample_graph" "distinct (map fst sample_graph)"
  by code_simp+

lemma sample_graph_run:
  "find_blocker_cycles sample_graph (Some 100) (Some 25) (Some 50000) =
     \<lparr>ce_cycles = [[1, 2], [1, 2, 3], [4]], ce_truncated = False, ce_steps = 8\<rparr>"
  by code_simp

lemma sample_graph_cut:
  "find_blocker_cycles sample_graph (Some 2) (Some 25) (Some 50000) =
     \<lparr>ce_cycles = [[1, 2], [1, 2, 3]], ce_truncated = True, ce_steps = 8\<rparr>"
  by code_simp

section \<open>Components\<close>

text \<open>
  C36. The components computed by the two searches partition the vertices, and two vertices share a
  component exactly when each reaches the other.
\<close>

theorem components_exact:
  assumes "closed adj"
  shows "set (concat (strongly_connected_components adj)) = vertices adj
    \<and> distinct (concat (strongly_connected_components adj))
    \<and> (\<forall>x y. (\<exists>k \<in> set (strongly_connected_components adj). x \<in> set k \<and> y \<in> set k) =
          (x \<in> vertices adj \<and> (x, y) \<in> (arcs adj)\<^sup>* \<and> (y, x) \<in> (arcs adj)\<^sup>*))"
proof (intro conjI allI)
  fix x y
  note s = sccs_exact [OF assms]
  have k: "set k = scc_of adj x" if k: "k \<in> set (strongly_connected_components adj)" "x \<in> set k" for k x
    using s(3) k unfolding scc_of_def by (metis (mono_tags, lifting) Collect_cong mem_Collect_eq mutual_sym mutual_trans)
  show "(\<exists>k \<in> set (strongly_connected_components adj). x \<in> set k \<and> y \<in> set k) =
      (x \<in> vertices adj \<and> (x, y) \<in> (arcs adj)\<^sup>* \<and> (y, x) \<in> (arcs adj)\<^sup>*)"
  proof
    assume "\<exists>k \<in> set (strongly_connected_components adj). x \<in> set k \<and> y \<in> set k"
    then obtain j where j: "j \<in> set (strongly_connected_components adj)" "x \<in> set j" "y \<in> set j" by blast
    then have "x \<in> vertices adj" using s(1) by auto
    moreover have "mutual adj y x" using k [OF j(1,2)] j(3) by (simp add: scc_of_def)
    ultimately show "x \<in> vertices adj \<and> (x, y) \<in> (arcs adj)\<^sup>* \<and> (y, x) \<in> (arcs adj)\<^sup>*"
      by (simp add: mutual_def)
  next
    assume r: "x \<in> vertices adj \<and> (x, y) \<in> (arcs adj)\<^sup>* \<and> (y, x) \<in> (arcs adj)\<^sup>*"
    then obtain j where j: "j \<in> set (strongly_connected_components adj)" "x \<in> set j" using s(1) by auto
    with k [OF j] r show "\<exists>k \<in> set (strongly_connected_components adj). x \<in> set k \<and> y \<in> set k"
      by (auto simp: scc_of_def mutual_def)
  qed
qed (use sccs_exact [OF assms] in simp_all)

theorem components_exact_witness:
  "set (concat (strongly_connected_components sample_graph)) = {1, 2, 3, 4, 5}
   \<and> (\<exists>k \<in> set (strongly_connected_components sample_graph). 1 \<in> set k \<and> 3 \<in> set k)
   \<and> \<not> (5, 1) \<in> {(x, y). (\<exists>k \<in> set (strongly_connected_components sample_graph). x \<in> set k \<and> y \<in> set k)}"
proof -
  have v: "vertices sample_graph = {1, 2, 3, 4, 5}" by (auto simp: sample_graph_def)
  have a: "(1, 2) \<in> arcs sample_graph" "(2, 3) \<in> arcs sample_graph" "(3, 1) \<in> arcs sample_graph"
    by (simp_all add: succs_def sample_graph_def)
  have "(1, 3) \<in> (arcs sample_graph)\<^sup>*" "(3, 1) \<in> (arcs sample_graph)\<^sup>*"
    using a by (meson r_into_rtrancl rtrancl_into_rtrancl)+
  moreover have "(1, 5) \<notin> (arcs sample_graph)\<^sup>*"
  proof
    assume "(1, 5) \<in> (arcs sample_graph)\<^sup>*"
    then obtain z where "(z, 5) \<in> arcs sample_graph" by (cases rule: rtranclE) auto
    then show False by (auto simp: succs_def sample_graph_def split: if_splits)
  qed
  ultimately show ?thesis
    using components_exact [OF sample_graph_closed(1)] v by auto
qed

section \<open>Cycles\<close>

text \<open>
  C37. The enumeration reports elementary cycles only, each once and in its canonical rotation, in
  ascending order and at most the limit of them; unless it says that it was truncated, it reports every
  elementary cycle of the graph. Its work is within the step budget for each component.
\<close>

theorem cycles_exact:
  assumes "distinct (map fst em)" and "0 \<le> limit" and "0 \<le> cl" and "0 < budget"
    and "r = find_blocker_cycles em (Some limit) (Some cl) (Some budget)"
  shows "sorted (ce_cycles r) \<and> distinct (ce_cycles r) \<and> int (length (ce_cycles r)) \<le> limit
    \<and> set (ce_cycles r) \<subseteq> {c. elementary_cycle em c}
    \<and> (ce_truncated r \<or> set (ce_cycles r) = {c. elementary_cycle em c})
    \<and> ce_steps r \<le> int (length (strongly_connected_components (build_adjacency em))) * budget"
proof -
  have cap: "cap_ok (Some cl) (Some budget)" "cap_ok (Some limit) None" using assms(2-4) by (simp_all add: cap_ok_def)
  note f = find_exact [OF assms(1) cap, folded assms(5)]
  show ?thesis using f(1,2,3,5,6) f(4) by blast
qed

theorem cycles_exact_witness:
  "{c. elementary_cycle sample_graph c} = {[1, 2], [1, 2, 3], [4]}"
  using cycles_exact [OF sample_graph_closed(2), of 100 25 50000, OF _ _ _ refl]
  unfolding sample_graph_run by simp

text \<open>
  A graph without a loop costs nothing: no step is made, nothing is reported and the report is
  not truncated, whatever the caps are.
\<close>

theorem acyclic_scan_is_free:
  assumes "distinct (map fst em)" and "acyclic (arcs em)" and "0 \<le> limit"
  shows "find_blocker_cycles em (Some limit) cl sb = \<lparr>ce_cycles = [], ce_truncated = False, ce_steps = 0\<rparr>"
proof (rule find_acyclic [OF assms(1)])
  show "cap_ok (Some limit) None" using assms(3) by (simp add: cap_ok_def)
  fix c
  show "\<not> elementary_cycle em c"
  proof
    assume c: "elementary_cycle em c"
    then have "(hd c, last c) \<in> (arcs em)\<^sup>*" "(last c, hd c) \<in> arcs em"
      by (auto simp: elementary_cycle_def intro: walk_reaches_last)
    then have "(hd c, hd c) \<in> (arcs em)\<^sup>+" by (rule rtrancl_into_trancl1)
    with assms(2) show False by (simp add: acyclic_def)
  qed
qed

theorem acyclic_scan_is_free_witness:
  "find_blocker_cycles [(1, [2, 3]), (2, [3]), (3, [])] (Some 0) (Some 0) (Some 0) =
     \<lparr>ce_cycles = [], ce_truncated = False, ce_steps = 0\<rparr>"
proof (rule acyclic_scan_is_free)
  show "acyclic (arcs [(1, [2, 3]), (2, [3]), (3, [])])"
    by (rule acyclicI_order [where f = "\<lambda>x :: int. - x"]) (auto simp: succs_def split: if_splits)
qed simp_all

text \<open>
  The report does not depend on the order in which the graph lists its vertices.
\<close>

theorem report_order_free:
  assumes "distinct (map fst em)" and "distinct (map fst em')" and "map_of em = map_of em'"
  shows "find_blocker_cycles em limit cl sb = find_blocker_cycles em' limit cl sb"
  by (rule find_order_free [OF assms])

theorem report_order_free_witness:
  "find_blocker_cycles (rev sample_graph) (Some 2) (Some 25) (Some 50000) =
     \<lparr>ce_cycles = [[1, 2], [1, 2, 3]], ce_truncated = True, ce_steps = 8\<rparr>"
  using report_order_free [of sample_graph "rev sample_graph" "Some 2" "Some 25" "Some 50000"]
  unfolding sample_graph_cut by (simp add: sample_graph_def fun_eq_iff)

section \<open>The open issues of the local tracker\<close>















end
