(* ===== verification/Json.thy ===== *)
theory Json
  imports Timestamps
begin

text \<open>
  The values of the JSON files and state entries, as Python reads them, and the dictionary
  operations the components use on them.
\<close>

section \<open>JSON values\<close>

text \<open>
  A value that \<^verbatim>\<open>json.loads\<close> gives. An object is an association list in the order of the Python
  dict; a float is the text Python prints for it.
\<close>

datatype json =
    JNull | JBool bool | JInt int | JReal string | JStr string
  | JList "json list" | JObj "(string \<times> json) list"

type_synonym json_dict = "(string \<times> json) list"

text \<open>\<^verbatim>\<open>d.get(k)\<close>: a missing key reads as \<^verbatim>\<open>None\<close>.\<close>

definition jget :: "json_dict \<Rightarrow> string \<Rightarrow> json" where
  "jget d k = (case map_of d k of None \<Rightarrow> JNull | Some v \<Rightarrow> v)"

text \<open>\<^verbatim>\<open>d[k] = v\<close> and \<^verbatim>\<open>{**d, k: v}\<close>: a key keeps its place, a new one goes to the end.\<close>

fun jput :: "json_dict \<Rightarrow> string \<Rightarrow> json \<Rightarrow> json_dict" where
  "jput [] k v = [(k, v)]"
| "jput ((k', v') # d) k v = (if k' = k then (k, v) # d else (k', v') # jput d k v)"

text \<open>\<^verbatim>\<open>isinstance(v, int)\<close> and its number: Python's booleans are integers.\<close>

fun as_int :: "json \<Rightarrow> int option" where
  "as_int (JInt n) = Some n"
| "as_int (JBool b) = Some (if b then 1 else 0)"
| "as_int _ = None"

text \<open>
  The standard library's part: \<^verbatim>\<open>datetime.fromisoformat\<close>, \<^verbatim>\<open>isoformat\<close> of an instant in UTC with the
  suffix \<^verbatim>\<open>Z\<close>, and \<^verbatim>\<open>str\<close> of a value that is no string.
\<close>

record time_io =
  ti_fromiso :: iso_parser
  ti_format :: "int \<Rightarrow> string"
  ti_str :: "json \<Rightarrow> string"

fun json_time :: "time_io \<Rightarrow> json \<Rightarrow> int option" where
  "json_time io (JStr s) = map_option as_utc (parse_iso_timestamp (ti_fromiso io) (Some s))"
| "json_time io _ = None"

text \<open>\<^verbatim>\<open>moment.replace(microsecond=0)\<close> of an aware moment.\<close>

definition whole_second :: "int \<Rightarrow> int" where
  "whole_second t = t - t mod 1000000"

definition format_z :: "time_io \<Rightarrow> int \<Rightarrow> json" where
  "format_z io t = JStr (ti_format io (whole_second t))"

definition opt_time :: "time_io \<Rightarrow> int option \<Rightarrow> json" where
  "opt_time io t = (case t of None \<Rightarrow> JNull | Some m \<Rightarrow> format_z io m)"

section \<open>Python's view of a value\<close>

text \<open>\<^verbatim>\<open>bool(v)\<close>.\<close>

fun json_true :: "json \<Rightarrow> bool" where
  "json_true JNull = False"
| "json_true (JBool b) = b"
| "json_true (JInt n) = (n \<noteq> 0)"
| "json_true (JReal s) = (s \<noteq> ''0.0'' \<and> s \<noteq> ''-0.0'')"
| "json_true (JStr s) = (s \<noteq> [])"
| "json_true (JList xs) = (xs \<noteq> [])"
| "json_true (JObj d) = (d \<noteq> [])"

text \<open>\<^verbatim>\<open>str(v)\<close>, and \<^verbatim>\<open>v or ''none''\<close> in a format string.\<close>

definition json_str :: "time_io \<Rightarrow> json \<Rightarrow> string" where
  "json_str io v = (case v of JStr s \<Rightarrow> s | JInt n \<Rightarrow> int_str n | _ \<Rightarrow> ti_str io v)"

definition str_or_none :: "time_io \<Rightarrow> json \<Rightarrow> string" where
  "str_or_none io v = (if json_true v then json_str io v else ''none'')"

definition opt_json :: "string option \<Rightarrow> json" where
  "opt_json x = (case x of None \<Rightarrow> JNull | Some s \<Rightarrow> JStr s)"

definition opt_int_json :: "int option \<Rightarrow> json" where
  "opt_int_json x = (case x of None \<Rightarrow> JNull | Some n \<Rightarrow> JInt n)"

definition strs_json :: "string list \<Rightarrow> json" where
  "strs_json xs = JList (map JStr xs)"

text \<open>
  \<^verbatim>\<open>int(text)\<close>: spaces around, a sign, digits with single underscores between them; None is the
  ValueError.
\<close>

definition int_of_text :: "string \<Rightarrow> int option" where
  "int_of_text s =
     (let t = strip s;
          neg = (t \<noteq> [] \<and> hd t = CHR ''-'');
          u = (if t \<noteq> [] \<and> hd t \<in> {CHR ''-'', CHR ''+''} then tl t else t);
          parts = split_on ''_'' u
      in if list_all (\<lambda>p. p \<noteq> [] \<and> list_all is_digit p) parts
         then Some (if neg then - digits_val (concat parts) else digits_val (concat parts))
         else None)"

text \<open>
  \<^verbatim>\<open>int(v or 0)\<close>, None for a raise. A float is cut at its point; one printed with an exponent, which
  no counter of the program reaches, counts as a raise.
\<close>

fun int_or_zero :: "json \<Rightarrow> int option" where
  "int_or_zero JNull = Some 0"
| "int_or_zero (JBool b) = Some (if b then 1 else 0)"
| "int_or_zero (JInt n) = Some n"
| "int_or_zero (JReal s) =
     (if CHR ''e'' \<in> set s then None else int_of_text (takeWhile (\<lambda>c. c \<noteq> CHR ''.'') s))"
| "int_or_zero (JStr s) = (if s = [] then Some 0 else int_of_text s)"
| "int_or_zero (JList xs) = (if xs = [] then Some 0 else None)"
| "int_or_zero (JObj d) = (if d = [] then Some 0 else None)"

section \<open>Dictionaries\<close>

text \<open>\<^verbatim>\<open>d.update(changes)\<close>.\<close>

definition jupdate :: "json_dict \<Rightarrow> json_dict \<Rightarrow> json_dict" where
  "jupdate d changes = foldl (\<lambda>e (k, v). jput e k v) d changes"

definition jkeys :: "json_dict \<Rightarrow> string list" where
  "jkeys d = map fst d"

lemma jget_jput [simp]: "jget (jput d k v) k' = (if k' = k then v else jget d k')"
  by (induction d k v rule: jput.induct) (auto simp: jget_def)

lemma jget_Nil [simp]: "jget [] k = JNull"
  by (simp add: jget_def)

lemma jget_Cons [simp]: "jget ((k', v) # d) k = (if k = k' then v else jget d k)"
  by (simp add: jget_def)

lemma fst_jput: "fst ` set (jput d k v) = insert k (fst ` set d)"
  by (induction d k v rule: jput.induct) auto

lemma distinct_jput: "distinct (map fst d) \<Longrightarrow> distinct (map fst (jput d k v))"
  by (induction d k v rule: jput.induct) (auto simp: fst_jput)

lemma set_jput: "set (jput d k v) \<subseteq> insert (k, v) (set d)"
  by (induction d k v rule: jput.induct) auto

lemma jget_in: "jget d k = v \<Longrightarrow> v \<noteq> JNull \<Longrightarrow> (k, v) \<in> set d"
  by (auto simp: jget_def dest: map_of_SomeD split: option.splits)

text \<open>\<^verbatim>\<open>exit_code == 0\<close>.\<close>

definition is_zero :: "json \<Rightarrow> bool" where
  "is_zero v \<longleftrightarrow> v \<in> {JInt 0, JBool False, JReal ''0.0'', JReal ''-0.0''}"

end
