(* ===== verification/Role_Ledger.thy ===== *)
theory Role_Ledger
  imports Json "HOL-Library.Product_Lexorder"
begin

text \<open>
  The fleet's quota ledger (\<^verbatim>\<open>role_quota_ledger.py\<close>): a JSON file of restrictions, one record for each
  harness and model, with the monotone write of a quota window, and one record for a whole harness
  whose credential is dead, with the episode operations (arm, claim the alert, note the credential
  check, resume).

  The state is what the file holds, None when it cannot be read or parsed. Each
  operation reads, changes and writes the file under the ledger's lock; the argument \<open>wr\<close> says whether
  the write goes through. An instant is a number of microseconds, as in \<open>Timestamps\<close>.
\<close>

type_synonym ledger_file = "json option"

section \<open>Reading\<close>

definition wide_model :: string where
  "wide_model = ''*''"

definition ledger_key :: "string \<Rightarrow> string \<Rightarrow> string" where
  "ledger_key harness model = harness @ ''|'' @ model"

text \<open>\<^verbatim>\<open>_read_raw(path).get("restrictions", {})\<close>.\<close>

fun restrictions_of :: "ledger_file \<Rightarrow> json_dict" where
  "restrictions_of (Some (JObj raw)) = (case jget raw ''restrictions'' of JObj d \<Rightarrow> d | _ \<Rightarrow> [])"
| "restrictions_of _ = []"

text \<open>
  \<^verbatim>\<open>_iter_restrictions\<close>, as the list of the dict's assignments: a later one of the same key wins.
\<close>

definition record_window :: "time_io \<Rightarrow> bool option \<Rightarrow> json \<Rightarrow> ((string \<times> string) \<times> int) option" where
  "record_window io wide r =
     (case r of
        JObj d \<Rightarrow>
          (if (case wide of None \<Rightarrow> False | Some w \<Rightarrow> (jget d ''model'' = JStr wide_model) \<noteq> w) then None
           else case (jget d ''harness'', jget d ''model'', json_time io (jget d ''until'')) of
                  (JStr h, JStr m, Some u) \<Rightarrow> Some ((h, m), u)
                | _ \<Rightarrow> None)
      | _ \<Rightarrow> None)"

definition iter_restrictions :: "time_io \<Rightarrow> bool option \<Rightarrow> ledger_file \<Rightarrow> (string \<times> string) \<rightharpoonup> int" where
  "iter_restrictions io wide f =
     map_of (rev (List.map_filter (record_window io wide) (map snd (restrictions_of f))))"

definition load_restrictions :: "time_io \<Rightarrow> bool \<Rightarrow> ledger_file \<Rightarrow> (string \<times> string) \<rightharpoonup> int" where
  "load_restrictions io harness_auth f =
     iter_restrictions io (if harness_auth then None else Some False) f"

definition load_harness_restrictions :: "time_io \<Rightarrow> ledger_file \<Rightarrow> (string \<times> string) \<rightharpoonup> int" where
  "load_harness_restrictions io f = iter_restrictions io (Some True) f"

definition effective_restriction ::
  "((string \<times> string) \<rightharpoonup> int) \<Rightarrow> string \<Rightarrow> string \<Rightarrow> int \<Rightarrow> int option \<times> bool" where
  "effective_restriction ledger harness model now =
     (let live = (\<lambda>w. case w of None \<Rightarrow> None | Some u \<Rightarrow> if u > now then Some u else None);
          own = live (ledger (harness, model));
          wide = live (ledger (harness, wide_model))
      in case wide of
           Some w \<Rightarrow> if (case own of None \<Rightarrow> True | Some u \<Rightarrow> w \<ge> u) then (Some w, True) else (own, False)
         | None \<Rightarrow> (own, False))"

section \<open>Recording a quota window\<close>

definition hours :: "int \<Rightarrow> int" where
  "hours n = minutes (60 * n)"

definition consecutive_hit_reset_window :: int where
  "consecutive_hit_reset_window = hours 2"

definition max_escalated_backoff :: int where
  "max_escalated_backoff = hours 4"

definition escalatable_base_max :: int where
  "escalatable_base_max = hours 2"

definition dict_of :: "json \<Rightarrow> json_dict option" where
  "dict_of v = (case v of JObj d \<Rightarrow> Some d | _ \<Rightarrow> None)"

definition hits_of :: "json_dict option \<Rightarrow> int" where
  "hits_of existing =
     (case existing of
        None \<Rightarrow> 1
      | Some d \<Rightarrow> (case as_int (jget d ''consecutive_hits'') of
                     None \<Rightarrow> 1
                   | Some n \<Rightarrow> if n \<ge> 1 then n else 1))"

text \<open>The hits and the window a new hit gives, from the record in the file.\<close>

definition escalate_window :: "int option \<Rightarrow> int \<Rightarrow> int \<Rightarrow> int \<Rightarrow> int \<times> int" where
  "escalate_window existing_until prev_hits now until =
     (case existing_until of
        None \<Rightarrow> (1, until)
      | Some e \<Rightarrow>
          if e \<le> now \<and> now - e \<le> consecutive_hit_reset_window
          then (let hits = prev_hits + 1; base = until - now
                in (hits,
                    if 0 < base \<and> base \<le> escalatable_base_max
                    then now + min (base * 2 ^ nat (min (hits - 1) 3)) max_escalated_backoff
                    else until))
          else if e > now then (prev_hits, until)
          else (1, until))"

definition jstr_opt :: "string option \<Rightarrow> json" where
  "jstr_opt s = (case s of None \<Rightarrow> JNull | Some x \<Rightarrow> JStr x)"

definition restriction_record ::
  "time_io \<Rightarrow> string \<Rightarrow> string \<Rightarrow> int \<Rightarrow> string option \<Rightarrow> string \<Rightarrow> string \<Rightarrow> int \<Rightarrow> int \<Rightarrow> json" where
  "restriction_record io harness model until reason source role now hits =
     JObj [(''harness'', JStr harness), (''model'', JStr model), (''until'', format_z io until),
           (''reason'', jstr_opt reason), (''source'', JStr source), (''role'', JStr role),
           (''updated_at'', format_z io now), (''consecutive_hits'', JInt hits)]"

definition ledger_payload :: "json_dict \<Rightarrow> ledger_file" where
  "ledger_payload restrictions = Some (JObj [(''version'', JInt 1), (''restrictions'', JObj restrictions)])"

definition record_restriction ::
  "time_io \<Rightarrow> bool \<Rightarrow> string \<Rightarrow> string \<Rightarrow> json \<Rightarrow> string option \<Rightarrow> string \<Rightarrow> string \<Rightarrow> int \<Rightarrow>
   ledger_file \<Rightarrow> bool \<times> ledger_file" where
  "record_restriction io wr harness model until reason source role now f =
     (case json_time io until of
        None \<Rightarrow> (False, f)
      | Some u \<Rightarrow>
          let now' = whole_second now;
              restrictions = restrictions_of f;
              existing = dict_of (jget restrictions (ledger_key harness model));
              existing_until = (case existing of None \<Rightarrow> None | Some d \<Rightarrow> json_time io (jget d ''until''))
          in case escalate_window existing_until (hits_of existing) now' (whole_second u) of
               (hits, until') \<Rightarrow>
                 if (case existing_until of None \<Rightarrow> False | Some e \<Rightarrow> e \<ge> until') then (False, f)
                 else if wr
                 then (True, ledger_payload
                         (jput restrictions (ledger_key harness model)
                           (restriction_record io harness model until' reason source role now' hits)))
                 else (False, f))"

section \<open>The harness-wide block\<close>

record harness_block =
  hb_harness :: string
  hb_until :: int
  hb_evidence :: string
  hb_hits :: int
  hb_started :: "int option"
  hb_alerted :: "int option"
  hb_stage_a :: "int option"
  hb_resumed :: "int option"
  hb_affected :: "(string \<times> int) list"

definition episode_open :: "harness_block \<Rightarrow> bool" where
  "episode_open b \<longleftrightarrow> hb_resumed b = None"

text \<open>\<^verbatim>\<open>_backoff_window\<close>.\<close>

definition backoff_window :: "int \<Rightarrow> int \<Rightarrow> int" where
  "backoff_window base hits = min (base * 2 ^ nat (min (max hits 1 - 1) 3)) max_escalated_backoff"

text \<open>\<^verbatim>\<open>str(record.get("evidence") or "")\<close>.\<close>

definition evidence_text :: "time_io \<Rightarrow> json \<Rightarrow> string" where
  "evidence_text io v =
     (case v of
        JStr s \<Rightarrow> s
      | JNull \<Rightarrow> []
      | JBool b \<Rightarrow> if b then ''True'' else []
      | JInt n \<Rightarrow> if n = 0 then [] else ti_str io v
      | JList xs \<Rightarrow> if xs = [] then [] else ti_str io v
      | JObj d \<Rightarrow> if d = [] then [] else ti_str io v
      | JReal s \<Rightarrow> if s = ''0.0'' \<or> s = ''-0.0'' then [] else ti_str io v)"

definition affected_pairs :: "json \<Rightarrow> (string \<times> int) list" where
  "affected_pairs v =
     (case v of
        JObj d \<Rightarrow>
          concat (map (\<lambda>(repo, js).
            case js of JList xs \<Rightarrow> map (Pair repo) (List.map_filter as_int xs) | _ \<Rightarrow> []) d)
      | _ \<Rightarrow> [])"

definition parse_block :: "time_io \<Rightarrow> json_dict option \<Rightarrow> harness_block option" where
  "parse_block io existing =
     (case existing of
        None \<Rightarrow> None
      | Some d \<Rightarrow>
          (case (jget d ''harness'', json_time io (jget d ''until'')) of
             (JStr h, Some u) \<Rightarrow>
               Some \<lparr> hb_harness = h, hb_until = u,
                      hb_evidence = evidence_text io (jget d ''evidence''),
                      hb_hits = hits_of existing,
                      hb_started = json_time io (jget d ''episode_started_at''),
                      hb_alerted = json_time io (jget d ''alerted_at''),
                      hb_stage_a = json_time io (jget d ''stage_a_green_at''),
                      hb_resumed = json_time io (jget d ''resumed_at''),
                      hb_affected = sorted_list_of_set (set (affected_pairs (jget d ''affected''))) \<rparr>
           | _ \<Rightarrow> None))"

text \<open>The record of a harness as the file holds it: a dict, or None.\<close>

definition harness_record :: "ledger_file \<Rightarrow> string \<Rightarrow> json_dict option" where
  "harness_record f harness = dict_of (jget (restrictions_of f) (ledger_key harness wide_model))"

definition read_harness_block :: "time_io \<Rightarrow> ledger_file \<Rightarrow> string \<Rightarrow> harness_block option" where
  "read_harness_block io f harness = parse_block io (harness_record f harness)"

definition list_harness_blocks :: "time_io \<Rightarrow> ledger_file \<Rightarrow> harness_block list" where
  "list_harness_blocks io f =
     List.map_filter (\<lambda>v. case dict_of v of
         None \<Rightarrow> None
       | Some d \<Rightarrow> if jget d ''model'' = JStr wide_model then parse_block io (Some d) else None)
       (map snd (restrictions_of f))"

text \<open>
  \<^verbatim>\<open>_update_harness_record\<close>: \<open>updated\<close> is what \<^verbatim>\<open>mutate\<close> gave for the record in the file, None for
  ``no change''. A write that fails gives None.
\<close>

definition update_harness_record ::
  "time_io \<Rightarrow> bool \<Rightarrow> string \<Rightarrow> (json_dict option \<Rightarrow> json_dict option) \<Rightarrow> ledger_file \<Rightarrow>
   harness_block option \<times> ledger_file" where
  "update_harness_record io wr harness mutate f =
     (let restrictions = restrictions_of f;
          key = ledger_key harness wide_model;
          existing = harness_record f harness
      in case mutate existing of
           None \<Rightarrow> (parse_block io existing, f)
         | Some updated \<Rightarrow>
             if wr then (parse_block io (Some updated), ledger_payload (jput restrictions key (JObj updated)))
             else (None, f))"

text \<open>\<^verbatim>\<open>issues_by_repo.setdefault(repo, []).append(issue)\<close>, unless it is there.\<close>

fun add_affected :: "(string \<times> int list) list \<Rightarrow> string \<times> int \<Rightarrow> (string \<times> int list) list" where
  "add_affected [] (repo, n) = [(repo, [n])]"
| "add_affected ((r, ns) # d) (repo, n) =
     (if r = repo then (r, if n \<in> set ns then ns else ns @ [n]) # d else (r, ns) # add_affected d (repo, n))"

definition affected_json :: "(string \<times> int list) list \<Rightarrow> json" where
  "affected_json d = JObj (map (\<lambda>(r, ns). (r, JList (map JInt (sort ns)))) (sort_key fst d))"

definition harness_auth_reason :: string where
  "harness_auth_reason = ''harness_auth_failed''"

definition harness_auth_base_window :: int where
  "harness_auth_base_window = minutes 15"

definition new_episode :: "time_io \<Rightarrow> json_dict option \<Rightarrow> bool" where
  "new_episode io existing =
     (case parse_block io existing of None \<Rightarrow> True | Some b \<Rightarrow> \<not> episode_open b)"

text \<open>
  What an arming makes of the block in the file: hits, end of the window, start of the episode, alert,
  affected issues, credential check.
\<close>

definition rearmed ::
  "int \<Rightarrow> int \<Rightarrow> bool \<Rightarrow> harness_block option \<Rightarrow>
   int \<times> int \<times> int \<times> int option \<times> (string \<times> int list) list \<times> int option" where
  "rearmed base_window now escalate block =
     (case block of
        None \<Rightarrow> (1, now + base_window, now, None, [], None)
      | Some b \<Rightarrow>
          if \<not> episode_open b then (1, now + base_window, now, None, [], None)
          else (let lapsed = hb_until b \<le> now;
                    hits = (if lapsed \<and> escalate then hb_hits b + 1 else hb_hits b)
                in (hits,
                    if \<not> lapsed then hb_until b
                    else if escalate then now + backoff_window base_window hits
                    else now + base_window,
                    (case hb_started b of None \<Rightarrow> now | Some t \<Rightarrow> t),
                    hb_alerted b,
                    foldl add_affected [] (hb_affected b),
                    if lapsed then None else hb_stage_a b)))"

text \<open>The record an arming stores (the body of \<^verbatim>\<open>arm_harness_block\<close>'s \<^verbatim>\<open>mutate\<close>).\<close>

definition armed_record ::
  "time_io \<Rightarrow> string \<Rightarrow> int \<Rightarrow> string option \<Rightarrow> string \<Rightarrow> int \<Rightarrow> bool \<Rightarrow> (string \<times> int) option \<Rightarrow>
   json_dict option \<Rightarrow> json_dict" where
  "armed_record io harness base_window evidence source now escalate affected existing =
     (let block = parse_block io existing
      in case rearmed base_window now escalate block of
           (hits, until, started, alerted, issues, stage_a) \<Rightarrow>
             [(''harness'', JStr harness), (''model'', JStr wide_model), (''until'', format_z io until),
              (''reason'', JStr harness_auth_reason), (''source'', JStr source), (''role'', JStr []),
              (''updated_at'', format_z io now), (''consecutive_hits'', JInt hits),
              (''evidence'', JStr (if truthy evidence then or_empty evidence
                                  else case block of None \<Rightarrow> [] | Some b \<Rightarrow> hb_evidence b)),
              (''episode_started_at'', format_z io started), (''alerted_at'', opt_time io alerted),
              (''stage_a_green_at'', opt_time io stage_a), (''resumed_at'', JNull),
              (''affected'', affected_json
                 (case affected of None \<Rightarrow> issues | Some p \<Rightarrow> add_affected issues p))])"

text \<open>\<open>arm_harness_block\<close> gives the stored block and whether it began an episode.\<close>

definition arm_harness_block ::
  "time_io \<Rightarrow> bool \<Rightarrow> string \<Rightarrow> int \<Rightarrow> string option \<Rightarrow> string \<Rightarrow> int \<Rightarrow> bool \<Rightarrow> (string \<times> int) option \<Rightarrow>
   ledger_file \<Rightarrow> (harness_block option \<times> bool) \<times> ledger_file" where
  "arm_harness_block io wr harness base_window evidence source now escalate affected f =
     (let now' = whole_second now
      in case update_harness_record io wr harness
                (\<lambda>e. Some (armed_record io harness base_window evidence source now' escalate affected e)) f of
           (None, f') \<Rightarrow> ((None, False), f')
         | (Some b, f') \<Rightarrow> ((Some b, new_episode io (harness_record f harness)), f'))"

text \<open>
  The other three stamp one field of an open episode's record. \<open>stamp_if\<close> is their common \<^verbatim>\<open>mutate\<close>:
  the record with the field set, where the parsed block passes the test.
\<close>

definition stamp_if ::
  "time_io \<Rightarrow> (harness_block \<Rightarrow> bool) \<Rightarrow> string \<Rightarrow> int \<Rightarrow> json_dict option \<Rightarrow> json_dict option" where
  "stamp_if io test field now existing =
     (case (existing, parse_block io existing) of
        (Some d, Some b) \<Rightarrow> if test b then Some (jput d field (format_z io now)) else None
      | _ \<Rightarrow> None)"

definition claim_harness_alert ::
  "time_io \<Rightarrow> bool \<Rightarrow> string \<Rightarrow> int \<Rightarrow> ledger_file \<Rightarrow> harness_block option \<times> ledger_file" where
  "claim_harness_alert io wr harness now f =
     (let mutate = stamp_if io (\<lambda>b. episode_open b \<and> hb_alerted b = None) ''alerted_at'' (whole_second now)
      in case update_harness_record io wr harness mutate f of
           (b, f') \<Rightarrow> (if mutate (harness_record f harness) \<noteq> None then b else None, f'))"

definition mark_stage_a_green ::
  "time_io \<Rightarrow> bool \<Rightarrow> string \<Rightarrow> int \<Rightarrow> ledger_file \<Rightarrow> bool \<times> ledger_file" where
  "mark_stage_a_green io wr harness now f =
     (case update_harness_record io wr harness
             (stamp_if io episode_open ''stage_a_green_at'' (whole_second now)) f of
        (b, f') \<Rightarrow> (case b of None \<Rightarrow> False | Some k \<Rightarrow> episode_open k \<and> hb_stage_a k \<noteq> None, f'))"

definition mark_harness_resumed ::
  "time_io \<Rightarrow> bool \<Rightarrow> string \<Rightarrow> int \<Rightarrow> ledger_file \<Rightarrow> harness_block option \<times> ledger_file" where
  "mark_harness_resumed io wr harness now f =
     (let mutate = stamp_if io episode_open ''resumed_at'' (whole_second now)
      in case update_harness_record io wr harness mutate f of
           (b, f') \<Rightarrow> (if mutate (harness_record f harness) \<noteq> None then b else None, f'))"

section \<open>Classified deaths\<close>

definition session_role_key :: string where
  "session_role_key = ''role_entry''"

definition restricting_failure_kinds :: "string list" where
  "restricting_failure_kinds = [''rate_limited'', ''quota_exhausted'']"

text \<open>\<^verbatim>\<open>str(stamp.get("role") or "")\<close>.\<close>

definition record_from_stamp ::
  "time_io \<Rightarrow> bool \<Rightarrow> json_dict \<Rightarrow> json \<Rightarrow> string option \<Rightarrow> string \<Rightarrow> int \<Rightarrow> ledger_file \<Rightarrow> bool \<times> ledger_file" where
  "record_from_stamp io wr stamp until reason source now f =
     (case (jget stamp ''harness'', jget stamp ''model'') of
        (JStr h, JStr m) \<Rightarrow>
          record_restriction io wr h m until reason source (evidence_text io (jget stamp ''role'')) now f
      | _ \<Rightarrow> (False, f))"

definition record_from_sidecar_payload ::
  "time_io \<Rightarrow> bool \<Rightarrow> json_dict \<Rightarrow> json \<Rightarrow> string option \<Rightarrow> string \<Rightarrow> int \<Rightarrow> ledger_file \<Rightarrow> bool \<times> ledger_file" where
  "record_from_sidecar_payload io wr payload until reason source now f =
     (case dict_of (jget payload session_role_key) of
        None \<Rightarrow> (False, f)
      | Some stamp \<Rightarrow> if until = JNull then (False, f)
                      else record_from_stamp io wr stamp until reason source now f)"

definition record_classified_death ::
  "time_io \<Rightarrow> bool \<Rightarrow> json_dict \<Rightarrow> string option \<Rightarrow> json \<Rightarrow> string \<Rightarrow> string option \<Rightarrow> string option \<Rightarrow>
   string option \<Rightarrow> int \<Rightarrow> ledger_file \<Rightarrow> bool \<times> ledger_file" where
  "record_classified_death io wr payload failure_kind until source harness evidence repo now f =
     (if failure_kind = Some harness_auth_reason
      then (let stamped = (case dict_of (jget payload session_role_key) of
                             None \<Rightarrow> None
                           | Some d \<Rightarrow> (case jget d ''harness'' of JStr h \<Rightarrow> Some h | _ \<Rightarrow> None));
                resolved = (if truthy harness then harness else stamped)
            in if \<not> truthy resolved then (False, f)
               else (let affected = (case (repo, as_int (jget payload ''issue_number'')) of
                                       (Some r, Some n) \<Rightarrow> Some (r, n) | _ \<Rightarrow> None)
                     in case arm_harness_block io wr (or_empty resolved) harness_auth_base_window evidence
                               source now True affected f of
                          ((b, _), f') \<Rightarrow> (b \<noteq> None, f')))
      else if \<not> (case failure_kind of None \<Rightarrow> False | Some k \<Rightarrow> k \<in> set restricting_failure_kinds)
      then (False, f)
      else record_from_sidecar_payload io wr payload until failure_kind source now f)"

end
