(* ===== verification/Ledger_Episodes.thy ===== *)
theory Ledger_Episodes
  imports Role_Ledger
begin

text \<open>
  The episodes of a harness-wide block as an abstract machine of three phases, and the proof that the
  ledger's operations on the file, in any interleaving, run it.
\<close>

section \<open>Dictionaries and keys\<close>

lemma restrictions_of_payload [simp]: "restrictions_of (ledger_payload d) = d"
  by (simp add: ledger_payload_def jget_def)

lemma restrictions_of_None [simp]: "restrictions_of None = []"
  by simp

text \<open>A name of a harness has no bar, so the key tells harness and model apart.\<close>

definition plain_name :: "string \<Rightarrow> bool" where
  "plain_name h \<longleftrightarrow> CHR ''|'' \<notin> set h"

lemma ledger_key_inj:
  assumes "plain_name h" and "plain_name h'" and "ledger_key h m = ledger_key h' m'"
  shows "h = h'" and "m = m'"
proof -
  have t: "takeWhile (\<lambda>c. c \<noteq> CHR ''|'') (ledger_key x y) = x" if "plain_name x" for x y
    using that unfolding ledger_key_def plain_name_def by (auto simp: takeWhile_append)
  show "h = h'" using t [OF assms(1), of m] t [OF assms(2), of m'] assms(3) by simp
  with assms(3) show "m = m'" by (simp add: ledger_key_def)
qed

text \<open>The standard library reads back the stamps it writes, in whole seconds.\<close>

definition stamps_ok :: "time_io \<Rightarrow> bool" where
  "stamps_ok io \<longleftrightarrow> (\<forall>t. json_time io (format_z io t) = Some (whole_second t))"

lemma stamps_okD [simp]: "stamps_ok io \<Longrightarrow> json_time io (format_z io t) = Some (whole_second t)"
  by (simp add: stamps_ok_def)

lemma json_time_opt [simp]: "stamps_ok io \<Longrightarrow> json_time io (opt_time io t) = map_option whole_second t"
  by (cases t) (simp_all add: opt_time_def)

lemma whole_second_idem [simp]: "whole_second (whole_second t) = whole_second t"
  by (simp add: whole_second_def mod_diff_eq)

section \<open>Operations in any order\<close>

datatype ledger_op =
    Restrict string string json "string option" string string
  | Arm string int "string option" string bool "(string \<times> int) option"
  | Claim string
  | Stage_a string
  | Resume string

datatype ledger_outcome =
    Restricted bool
  | Armed "harness_block option" bool
  | Claimed "harness_block option"
  | Staged bool
  | Resumed "harness_block option"

text \<open>An operation with the outcome of its write and the time it is made at.\<close>

type_synonym ledger_call = "ledger_op \<times> bool \<times> int"

fun run_op :: "time_io \<Rightarrow> ledger_call \<Rightarrow> ledger_file \<Rightarrow> ledger_outcome \<times> ledger_file" where
  "run_op io (Restrict h m until reason source role, wr, now) f =
     apfst Restricted (record_restriction io wr h m until reason source role now f)"
| "run_op io (Arm h base evidence source escalate affected, wr, now) f =
     (case arm_harness_block io wr h base evidence source now escalate affected f of
        ((b, new), f') \<Rightarrow> (Armed b new, f'))"
| "run_op io (Claim h, wr, now) f = apfst Claimed (claim_harness_alert io wr h now f)"
| "run_op io (Stage_a h, wr, now) f = apfst Staged (mark_stage_a_green io wr h now f)"
| "run_op io (Resume h, wr, now) f = apfst Resumed (mark_harness_resumed io wr h now f)"

fun outcomes :: "time_io \<Rightarrow> ledger_call list \<Rightarrow> ledger_file \<Rightarrow> ledger_outcome list" where
  "outcomes io [] f = []"
| "outcomes io (x # xs) f = (case run_op io x f of (r, f') \<Rightarrow> r # outcomes io xs f')"

text \<open>A call names harnesses without a bar, and restricts a real model.\<close>

fun plain_call :: "ledger_call \<Rightarrow> bool" where
  "plain_call (Restrict h m until reason source role, wr, now) \<longleftrightarrow> plain_name h \<and> m \<noteq> wide_model"
| "plain_call (Arm h base evidence source escalate affected, wr, now) \<longleftrightarrow> plain_name h"
| "plain_call (Claim h, wr, now) \<longleftrightarrow> plain_name h"
| "plain_call (Stage_a h, wr, now) \<longleftrightarrow> plain_name h"
| "plain_call (Resume h, wr, now) \<longleftrightarrow> plain_name h"

section \<open>The abstract machine\<close>

text \<open>No episode, one whose alert is not yet claimed, one whose alert is.\<close>

datatype phase = Idle | Unalerted | Alerted

definition phase_of :: "time_io \<Rightarrow> string \<Rightarrow> ledger_file \<Rightarrow> phase" where
  "phase_of io h f =
     (case read_harness_block io f h of
        None \<Rightarrow> Idle
      | Some b \<Rightarrow> if \<not> episode_open b then Idle else if hb_alerted b = None then Unalerted else Alerted)"

fun phase_step :: "string \<Rightarrow> ledger_call \<Rightarrow> phase \<Rightarrow> phase" where
  "phase_step h (Restrict h' m until reason source role, wr, now) p = p"
| "phase_step h (Arm h' base evidence source escalate affected, wr, now) p =
     (if h' = h \<and> wr \<and> p = Idle then Unalerted else p)"
| "phase_step h (Claim h', wr, now) p = (if h' = h \<and> wr \<and> p = Unalerted then Alerted else p)"
| "phase_step h (Stage_a h', wr, now) p = p"
| "phase_step h (Resume h', wr, now) p = (if h' = h \<and> wr then Idle else p)"

text \<open>Whether a call reports to its caller that it took the alert, ended or began the episode of a harness.\<close>

fun claims :: "string \<Rightarrow> ledger_call \<Rightarrow> ledger_outcome \<Rightarrow> bool" where
  "claims h (Claim h', wr, now) (Claimed b) \<longleftrightarrow> h' = h \<and> b \<noteq> None"
| "claims h _ _ \<longleftrightarrow> False"

fun resumes :: "string \<Rightarrow> ledger_call \<Rightarrow> ledger_outcome \<Rightarrow> bool" where
  "resumes h (Resume h', wr, now) (Resumed b) \<longleftrightarrow> h' = h \<and> b \<noteq> None"
| "resumes h _ _ \<longleftrightarrow> False"

fun begins :: "string \<Rightarrow> ledger_call \<Rightarrow> ledger_outcome \<Rightarrow> bool" where
  "begins h (Arm h' base evidence source escalate affected, wr, now) (Armed b new) \<longleftrightarrow> h' = h \<and> new"
| "begins h _ _ \<longleftrightarrow> False"

section \<open>The operations on the file\<close>

lemma update_frame:
  assumes "plain_name h" and "plain_name h'" and "h' \<noteq> h"
  shows "harness_record (snd (update_harness_record io wr h' mutate f)) h = harness_record f h"
proof -
  have "ledger_key h wide_model \<noteq> ledger_key h' wide_model" using ledger_key_inj(1) assms by blast
  then show ?thesis
    by (auto simp: update_harness_record_def Let_def harness_record_def split: option.split)
qed

lemma restriction_frame:
  assumes "ledger_key h m \<noteq> ledger_key h' m'"
  shows "jget (restrictions_of (snd (record_restriction io wr h' m' until reason source role now f)))
      (ledger_key h m) = jget (restrictions_of f) (ledger_key h m)"
  using assms unfolding record_restriction_def
  by (auto simp: Let_def split: option.split prod.split)

lemma update_record:
  "harness_record (snd (update_harness_record io wr h mutate f)) h =
     (case mutate (harness_record f h) of
        None \<Rightarrow> harness_record f h | Some d \<Rightarrow> if wr then Some d else harness_record f h)"
  "fst (update_harness_record io wr h mutate f) =
     (case mutate (harness_record f h) of
        None \<Rightarrow> parse_block io (harness_record f h) | Some d \<Rightarrow> if wr then parse_block io (Some d) else None)"
  by (auto simp: update_harness_record_def Let_def harness_record_def dict_of_def split: option.split)

lemma hits_jput [simp]: "k \<noteq> ''consecutive_hits'' \<Longrightarrow> hits_of (Some (jput d k v)) = hits_of (Some d)"
  by (simp add: hits_of_def)

lemma parse_blockE:
  assumes "parse_block io (Some d) = Some b"
  obtains h u where "jget d ''harness'' = JStr h" "json_time io (jget d ''until'') = Some u"
  using assms that
  by (cases "jget d ''harness''"; cases "json_time io (jget d ''until'')") (simp_all add: parse_block_def)

lemma parse_block_Some:
  assumes "jget d ''harness'' = JStr h" and "json_time io (jget d ''until'') = Some u"
  shows "parse_block io (Some d) =
      Some \<lparr> hb_harness = h, hb_until = u,
             hb_evidence = evidence_text io (jget d ''evidence''), hb_hits = hits_of (Some d),
             hb_started = json_time io (jget d ''episode_started_at''),
             hb_alerted = json_time io (jget d ''alerted_at''),
             hb_stage_a = json_time io (jget d ''stage_a_green_at''),
             hb_resumed = json_time io (jget d ''resumed_at''),
             hb_affected = sorted_list_of_set (set (affected_pairs (jget d ''affected''))) \<rparr>"
  using assms unfolding parse_block_def by simp

lemma parse_stamped:
  assumes "stamps_ok io" and "parse_block io (Some d) = Some b"
  shows "parse_block io (Some (jput d ''alerted_at'' (format_z io t))) = Some (b\<lparr>hb_alerted := Some (whole_second t)\<rparr>)"
    and "parse_block io (Some (jput d ''stage_a_green_at'' (format_z io t))) = Some (b\<lparr>hb_stage_a := Some (whole_second t)\<rparr>)"
    and "parse_block io (Some (jput d ''resumed_at'' (format_z io t))) = Some (b\<lparr>hb_resumed := Some (whole_second t)\<rparr>)"
proof -
  obtain h u where hu: "jget d ''harness'' = JStr h" "json_time io (jget d ''until'') = Some u"
    by (rule parse_blockE [OF assms(2)])
  have j: "jget (jput d k v) ''harness'' = JStr h" "json_time io (jget (jput d k v) ''until'') = Some u"
    if "k \<noteq> ''harness''" "k \<noteq> ''until''" for k v
    using that hu by simp_all
  note b = parse_block_Some [OF hu, unfolded assms(2), THEN option.inject [THEN iffD1]]
  show "parse_block io (Some (jput d ''alerted_at'' (format_z io t))) = Some (b\<lparr>hb_alerted := Some (whole_second t)\<rparr>)"
    by (subst parse_block_Some [OF j]) (simp_all add: b assms(1))
  show "parse_block io (Some (jput d ''stage_a_green_at'' (format_z io t))) = Some (b\<lparr>hb_stage_a := Some (whole_second t)\<rparr>)"
    by (subst parse_block_Some [OF j]) (simp_all add: b assms(1))
  show "parse_block io (Some (jput d ''resumed_at'' (format_z io t))) = Some (b\<lparr>hb_resumed := Some (whole_second t)\<rparr>)"
    by (subst parse_block_Some [OF j]) (simp_all add: b assms(1))
qed

lemma parse_armed:
  assumes "stamps_ok io"
  obtains b where "parse_block io (Some (armed_record io h base evidence source now escalate affected e)) = Some b"
    "episode_open b" "hb_harness b = h"
    "hb_until b = whole_second (fst (snd (rearmed base now escalate (parse_block io e))))"
    "hb_alerted b = None \<longleftrightarrow> (case parse_block io e of None \<Rightarrow> True | Some k \<Rightarrow> \<not> episode_open k \<or> hb_alerted k = None)"
proof -
  obtain hits until started alerted issues stage_a where
    r: "rearmed base now escalate (parse_block io e) = (hits, until, started, alerted, issues, stage_a)"
    by (rule prod_cases6)
  then have al: "alerted = None \<longleftrightarrow>
      (case parse_block io e of None \<Rightarrow> True | Some k \<Rightarrow> \<not> episode_open k \<or> hb_alerted k = None)"
    by (auto simp: rearmed_def Let_def split: option.splits if_splits)
  let ?d = "armed_record io h base evidence source now escalate affected e"
  have d: "jget ?d ''harness'' = JStr h" "json_time io (jget ?d ''until'') = Some (whole_second until)"
    "jget ?d ''resumed_at'' = JNull" "json_time io (jget ?d ''alerted_at'') = map_option whole_second alerted"
    using assms by (simp_all add: armed_record_def Let_def r)
  show thesis
    by (rule that [OF parse_block_Some [OF d(1,2)]]) (simp_all add: d al r episode_open_def)
qed

section \<open>The operations run the machine\<close>

lemma phase_of_record:
  "phase_of io h f = (case parse_block io (harness_record f h) of
     None \<Rightarrow> Idle
   | Some b \<Rightarrow> if \<not> episode_open b then Idle else if hb_alerted b = None then Unalerted else Alerted)"
  by (simp add: phase_of_def read_harness_block_def)

lemma phase_frame: "harness_record f' h = harness_record f h \<Longrightarrow> phase_of io h f' = phase_of io h f"
  by (simp add: phase_of_record)

lemma stamp_if_cases:
  obtains (none) "stamp_if io test field now e = None" "\<And>b. parse_block io e = Some b \<Longrightarrow> \<not> test b"
    | (stamp) d b where "e = Some d" "parse_block io e = Some b" "test b"
        "stamp_if io test field now e = Some (jput d field (format_z io now))"
proof (cases "parse_block io e")
  case None
  then show thesis by (intro none) (auto simp: stamp_if_def split: option.split)
next
  case (Some b)
  then obtain d where "e = Some d" by (cases e) (auto simp: parse_block_def)
  with Some show thesis by (cases "test b") (auto intro: none stamp simp: stamp_if_def)
qed

definition phase_change :: "phase \<Rightarrow> phase \<Rightarrow> string \<Rightarrow> ledger_call \<Rightarrow> ledger_outcome \<Rightarrow> bool" where
  "phase_change p p' h x r \<longleftrightarrow>
     p' = phase_step h x p \<and>
     (claims h x r \<longleftrightarrow> p = Unalerted \<and> p' = Alerted) \<and>
     (resumes h x r \<longleftrightarrow> p \<noteq> Idle \<and> p' = Idle) \<and>
     (begins h x r \<longleftrightarrow> p = Idle \<and> p' \<noteq> Idle)"

lemma stamp_update:
  fixes io wr h test field now f
  defines "u \<equiv> update_harness_record io wr h (stamp_if io test field now) f"
  obtains (kept) "harness_record (snd u) h = harness_record f h"
        "stamp_if io test field now (harness_record f h) = None \<or> fst u = None"
        "\<not> wr \<or> (\<forall>b. parse_block io (harness_record f h) = Some b \<longrightarrow> \<not> test b)"
    | (stamped) d b where "harness_record f h = Some d" "parse_block io (Some d) = Some b" "test b" "wr"
        "harness_record (snd u) h = Some (jput d field (format_z io now))"
        "fst u = parse_block io (Some (jput d field (format_z io now)))"
        "stamp_if io test field now (harness_record f h) \<noteq> None"
proof (cases rule: stamp_if_cases [of io test field now "harness_record f h"])
  case none
  show thesis by (rule kept) (use none in \<open>simp_all add: u_def update_record\<close>)
next
  case (stamp d b)
  show thesis
  proof (cases wr)
    case True
    show thesis
      by (rule stamped [OF stamp(1) _ stamp(3) True])
        (use stamp True in \<open>simp_all add: u_def update_record\<close>)
  next
    case False
    show thesis by (rule kept) (use stamp False in \<open>simp_all add: u_def update_record\<close>)
  qed
qed

lemma run_claim:
  assumes "stamps_ok io"
  shows "case run_op io (Claim h, wr, now) f of
    (r, f') \<Rightarrow> phase_change (phase_of io h f) (phase_of io h f') h (Claim h, wr, now) r"
proof -
  let ?t = "\<lambda>b. episode_open b \<and> hb_alerted b = None"
  let ?m = "stamp_if io ?t ''alerted_at'' (whole_second now)"
  let ?u = "update_harness_record io wr h ?m f"
  have run: "run_op io (Claim h, wr, now) f =
      (Claimed (if ?m (harness_record f h) \<noteq> None then fst ?u else None), snd ?u)"
    by (simp add: claim_harness_alert_def Let_def case_prod_unfold)
  show ?thesis
  proof (cases rule: stamp_update [of io wr h ?t "''alerted_at''" "whole_second now" f])
    case kept
    have "phase_of io h f = Unalerted \<longrightarrow> \<not> wr"
      using kept(3) by (auto simp: phase_of_record split: option.splits if_splits)
    then show ?thesis unfolding run using phase_frame [OF kept(1)] kept(2) by (auto simp: phase_change_def)
  next
    case (stamped d b)
    note p = parse_stamped(1) [OF assms stamped(2)]
    have "phase_of io h f = Unalerted" using stamped(1-3) by (simp add: phase_of_record)
    moreover have "phase_of io h (snd ?u) = Alerted"
      unfolding phase_of_record stamped(5) p using stamped(3) by (simp add: episode_open_def)
    moreover have "fst ?u \<noteq> None" unfolding stamped(6) p by simp
    ultimately show ?thesis unfolding run using stamped(4,7) by (simp add: phase_change_def)
  qed
qed

lemma run_resume:
  assumes "stamps_ok io"
  shows "case run_op io (Resume h, wr, now) f of
    (r, f') \<Rightarrow> phase_change (phase_of io h f) (phase_of io h f') h (Resume h, wr, now) r"
proof -
  let ?m = "stamp_if io episode_open ''resumed_at'' (whole_second now)"
  let ?u = "update_harness_record io wr h ?m f"
  have run: "run_op io (Resume h, wr, now) f =
      (Resumed (if ?m (harness_record f h) \<noteq> None then fst ?u else None), snd ?u)"
    by (simp add: mark_harness_resumed_def Let_def case_prod_unfold)
  show ?thesis
  proof (cases rule: stamp_update [of io wr h episode_open "''resumed_at''" "whole_second now" f])
    case kept
    have "phase_of io h f \<noteq> Idle \<longrightarrow> \<not> wr"
      using kept(3) by (auto simp: phase_of_record split: option.splits if_splits)
    then show ?thesis unfolding run using phase_frame [OF kept(1)] kept(2) by (auto simp: phase_change_def)
  next
    case (stamped d b)
    note p = parse_stamped(3) [OF assms stamped(2)]
    have "phase_of io h f \<noteq> Idle" using stamped(1-3) by (simp add: phase_of_record)
    moreover have "phase_of io h (snd ?u) = Idle"
      unfolding phase_of_record stamped(5) p by (simp add: episode_open_def)
    moreover have "fst ?u \<noteq> None" unfolding stamped(6) p by simp
    ultimately show ?thesis unfolding run using stamped(4,7) by (simp add: phase_change_def)
  qed
qed

lemma run_stage_a:
  assumes "stamps_ok io"
  shows "case run_op io (Stage_a h, wr, now) f of
    (r, f') \<Rightarrow> phase_change (phase_of io h f) (phase_of io h f') h (Stage_a h, wr, now) r"
proof -
  let ?u = "update_harness_record io wr h (stamp_if io episode_open ''stage_a_green_at'' (whole_second now)) f"
  obtain s where run: "run_op io (Stage_a h, wr, now) f = (Staged s, snd ?u)"
    by (simp add: mark_stage_a_green_def case_prod_unfold)
  have "phase_of io h (snd ?u) = phase_of io h f"
  proof (cases rule: stamp_update [of io wr h episode_open "''stage_a_green_at''" "whole_second now" f])
    case kept
    then show ?thesis by (intro phase_frame)
  next
    case (stamped d b)
    note p = parse_stamped(2) [OF assms stamped(2)]
    show ?thesis unfolding phase_of_record stamped(1,2,5) p by (simp add: episode_open_def)
  qed
  then show ?thesis unfolding run by (simp add: phase_change_def)
qed

lemma run_arm:
  assumes "stamps_ok io"
  shows "case run_op io (Arm h base evidence source escalate affected, wr, now) f of
    (r, f') \<Rightarrow> phase_change (phase_of io h f) (phase_of io h f') h (Arm h base evidence source escalate affected, wr, now) r"
proof -
  let ?d = "armed_record io h base evidence source (whole_second now) escalate affected (harness_record f h)"
  obtain b where b: "parse_block io (Some ?d) = Some b" "episode_open b"
    "hb_alerted b = None \<longleftrightarrow> (case parse_block io (harness_record f h) of
        None \<Rightarrow> True | Some k \<Rightarrow> \<not> episode_open k \<or> hb_alerted k = None)"
    by (rule parse_armed [OF assms])
  define u where "u = update_harness_record io wr h
      (\<lambda>e. Some (armed_record io h base evidence source (whole_second now) escalate affected e)) f"
  have u: "fst u = (if wr then Some b else None)"
    "harness_record (snd u) h = (if wr then Some ?d else harness_record f h)"
    by (simp_all add: u_def update_record b(1))
  have run: "run_op io (Arm h base evidence source escalate affected, wr, now) f =
      (if wr then Armed (Some b) (new_episode io (harness_record f h)) else Armed None False, snd u)"
    using u(1) by (auto simp: arm_harness_block_def Let_def u_def [symmetric] split: prod.split)
  show ?thesis
  proof (cases wr)
    case True
    then show ?thesis
      unfolding run phase_change_def using b u(2)
      by (auto simp: phase_of_record new_episode_def split: option.splits)
  next
    case False
    then have "phase_of io h (snd u) = phase_of io h f" by (intro phase_frame) (simp add: u(2))
    with False show ?thesis unfolding run phase_change_def by simp
  qed
qed

text \<open>Calls that name another harness, or restrict a model, leave the block alone.\<close>

lemma run_frame:
  assumes "plain_name h" and "plain_call x"
    and "\<And>base evidence source escalate affected. fst x \<noteq> Arm h base evidence source escalate affected"
    and "fst x \<noteq> Claim h" "fst x \<noteq> Stage_a h" "fst x \<noteq> Resume h"
  shows "harness_record (snd (run_op io x f)) h = harness_record f h"
proof -
  obtain op wr now where x: "x = (op, wr, now)" by (metis prod_cases3)
  show ?thesis
  proof (cases op)
    case (Restrict h' m until reason source role)
    have "ledger_key h wide_model \<noteq> ledger_key h' m"
      using assms(1,2) ledger_key_inj [of h h' wide_model m] x Restrict by auto
    from restriction_frame [OF this] show ?thesis
      by (simp add: x Restrict harness_record_def)
  next
    case (Arm h' base evidence source escalate affected)
    then have "h' \<noteq> h" using assms(3) [of base evidence source escalate affected] x by auto
    with Arm show ?thesis using assms(1,2) x update_frame [of h h']
      by (simp add: arm_harness_block_def Let_def case_prod_unfold split: option.split)
  next
    case (Claim h')
    then show ?thesis using assms(1,2,4) x update_frame [of h h']
      by (simp add: claim_harness_alert_def Let_def case_prod_unfold)
  next
    case (Stage_a h')
    then show ?thesis using assms(1,2,5) x update_frame [of h h']
      by (simp add: mark_stage_a_green_def case_prod_unfold)
  next
    case (Resume h')
    then show ?thesis using assms(1,2,6) x update_frame [of h h']
      by (simp add: mark_harness_resumed_def Let_def case_prod_unfold)
  qed
qed

end
