(* ===== verification/Digit_Clock.thy ===== *)
theory Digit_Clock
  imports Json
begin

text \<open>
  The decimal text of an integer reads back as the integer, so two numbers have the same key only when they
  are the same; and a clock for the examples, whose stamps are the decimal number of seconds.
\<close>

section \<open>A clock for the examples\<close>

text \<open>Stamps that are the decimal number of seconds.\<close>

definition read_int :: "string \<Rightarrow> int" where
  "read_int s = (case s of [] \<Rightarrow> 0 | c # r \<Rightarrow> if c = CHR ''-'' then - digits_val r else digits_val s)"

definition digit_io :: time_io where
  "digit_io = \<lparr> ti_fromiso = (\<lambda>s. Some (Aware (read_int s * 1000000))),
                ti_format = (\<lambda>t. int_str (t div 1000000)), ti_str = (\<lambda>v. []) \<rparr>"

lemma digits_val_snoc: "digits_val (s @ [c]) = 10 * digits_val s + digit_val c"
  by (simp add: digits_val_def)

lemma digit_char: "k < 10 \<Longrightarrow> digit_val (char_of (48 + k)) = int k"
  by (simp add: digit_val_def)

lemma digits_val_nat_digits: "digits_val (nat_digits n) = int n"
proof (induction n rule: nat_digits.induct)
  case (1 n)
  show ?case
  proof (cases "n < 10")
    case True
    then show ?thesis using digit_char [of n] by (simp add: nat_digits.simps [of n] digits_val_def)
  next
    case False
    have "int n = int (10 * (n div 10) + n mod 10)" by simp
    then have "int n = 10 * int (n div 10) + int (n mod 10)" by (simp only: of_nat_add of_nat_mult of_nat_numeral)
    with False show ?thesis using 1 digit_char [of "n mod 10"]
      by (simp add: nat_digits.simps [of n] digits_val_snoc del: of_nat_mod of_nat_div)
  qed
qed

lemma digit_chars: "c \<in> set (nat_digits n) \<Longrightarrow> \<exists>k < (10 :: nat). c = char_of (48 + k)"
proof (induction n rule: nat_digits.induct)
  case (1 n)
  show ?case
  proof (cases "n < 10")
    case True
    with "1.prems" show ?thesis by (auto simp: nat_digits.simps [of n])
  next
    case False
    then have "c \<in> set (nat_digits (n div 10)) \<or> c = char_of (48 + n mod 10)"
      using "1.prems" False by (auto simp: nat_digits.simps [of n])
    moreover have "n mod 10 < 10" by simp
    ultimately show ?thesis using "1.IH" [OF False] by blast
  qed
qed

lemma nat_digits_no_sign: "CHR ''-'' \<notin> set (nat_digits n)" "CHR ''Z'' \<notin> set (nat_digits n)"
proof -
  have "char_of (48 + k) \<noteq> CHR ''-'' \<and> char_of (48 + k) \<noteq> CHR ''Z''" if "k < 10" for k :: nat
  proof -
    have o: "(of_char (char_of (48 + k) :: char) :: nat) = 48 + k" using that by simp
    have "(of_char (CHR ''-'') :: nat) = 45" "(of_char (CHR ''Z'') :: nat) = 90" by simp_all
    moreover have "48 + k \<noteq> 45" "48 + k \<noteq> 90" using that by simp_all
    ultimately show ?thesis using o by metis
  qed
  then show "CHR ''-'' \<notin> set (nat_digits n)" "CHR ''Z'' \<notin> set (nat_digits n)"
    using digit_chars by metis+
qed

lemma nat_digits_nonempty: "nat_digits n \<noteq> []"
  by (simp add: nat_digits.simps [of n])

lemma read_int_str: "read_int (int_str i) = i"
proof (cases "i < 0")
  case True
  then show ?thesis by (simp add: int_str_def read_int_def digits_val_nat_digits)
next
  case False
  then have "hd (nat_digits (nat i)) \<noteq> CHR ''-''"
    using nat_digits_no_sign(1) nat_digits_nonempty by (metis hd_in_set)
  with False show ?thesis
    using digits_val_nat_digits [of "nat i"]
    by (cases "nat_digits (nat i)") (auto simp: int_str_def read_int_def nat_digits_nonempty)
qed

lemma zulu_int_str: "zulu (int_str i) = int_str i"
proof -
  have "concat (map (\<lambda>c. if c = CHR ''Z'' then ''+00:00'' else [c]) s) = s" if "CHR ''Z'' \<notin> set s" for s
    using that by (induction s) auto
  moreover have "CHR ''Z'' \<notin> set (int_str i)" using nat_digits_no_sign(2) by (simp add: int_str_def)
  ultimately show ?thesis by (simp add: zulu_def)
qed

lemma int_str_eq_iff [simp]: "int_str a = int_str b \<longleftrightarrow> a = b"
  by (metis read_int_str)

end
