(* ===== verification/Ledger_Props.thy ===== *)
theory Ledger_Props
  imports Ledger_Episodes Digit_Clock
begin

text \<open>
  The properties of the quota ledger: its episodes, the once-per-episode alert, the monotone windows and
  the reach of a harness-wide block.
\<close>

lemma digit_io_ok: "stamps_ok digit_io"
proof -
  have "t - t mod 1000000 = t div 1000000 * 1000000" for t :: int by (simp add: minus_mod_eq_div_mult)
  then show ?thesis
    by (simp add: stamps_ok_def digit_io_def format_z_def parse_iso_timestamp_def zulu_int_str read_int_str
        whole_second_def)
qed

section \<open>Every call is a step\<close>

lemma run_other:
  assumes same: "harness_record (snd (run_op io x f)) h = harness_record f h"
    and idle: "phase_step h x (phase_of io h f) = phase_of io h f"
    and quiet: "\<And>r. \<not> claims h x r \<and> \<not> resumes h x r \<and> \<not> begins h x r"
  shows "case run_op io x f of (r, f') \<Rightarrow> phase_change (phase_of io h f) (phase_of io h f') h x r"
  using phase_frame [OF same] idle quiet by (auto simp: phase_change_def case_prod_unfold)

fun about_harness :: "string \<Rightarrow> ledger_op \<Rightarrow> bool" where
  "about_harness h (Restrict h' m until reason source role) \<longleftrightarrow> False"
| "about_harness h (Arm h' base evidence source escalate affected) \<longleftrightarrow> h' = h"
| "about_harness h (Claim h') \<longleftrightarrow> h' = h"
| "about_harness h (Stage_a h') \<longleftrightarrow> h' = h"
| "about_harness h (Resume h') \<longleftrightarrow> h' = h"

lemma quiet_other:
  "\<not> about_harness h op \<Longrightarrow>
   \<not> claims h (op, wr, now) r \<and> \<not> resumes h (op, wr, now) r \<and> \<not> begins h (op, wr, now) r"
  by (cases op; cases r; simp)

lemma run_phase_change:
  assumes io: "stamps_ok io" and h: "plain_name h" and x: "plain_call x"
  shows "case run_op io x f of (r, f') \<Rightarrow> phase_change (phase_of io h f) (phase_of io h f') h x r"
proof -
  obtain op wr now where xe: "x = (op, wr, now)" by (metis prod_cases3)
  show ?thesis
  proof (cases "about_harness h op")
    case True
    then show ?thesis
      using run_arm [OF io] run_claim [OF io] run_stage_a [OF io] run_resume [OF io] xe by (cases op) simp_all
  next
    case False
    have "harness_record (snd (run_op io x f)) h = harness_record f h"
      by (rule run_frame [OF h x]) (use False xe in auto)
    moreover have "phase_step h x (phase_of io h f) = phase_of io h f" using False xe by (cases op) simp_all
    ultimately show ?thesis using quiet_other [OF False] xe by (intro run_other) simp_all
  qed
qed

text \<open>
  C35. Every call of the ledger, whatever it meets in the file, is a step of the three-phase machine for
  every harness, and its report to the caller tells the phase change: a claim is granted exactly when
  an unalerted episode becomes an alerted one, an end is reported exactly when an episode becomes idle,
  and a beginning exactly when an idle harness gets an episode.
\<close>

theorem ledger_runs_episodes:
  assumes "stamps_ok io" and "plain_name h" and "plain_call x" and "run_op io x f = (r, f')"
  shows "phase_of io h f' = phase_step h x (phase_of io h f)
    \<and> (claims h x r = (phase_of io h f = Unalerted \<and> phase_of io h f' = Alerted))
    \<and> (resumes h x r = (phase_of io h f \<noteq> Idle \<and> phase_of io h f' = Idle))
    \<and> (begins h x r = (phase_of io h f = Idle \<and> phase_of io h f' \<noteq> Idle))"
  using run_phase_change [OF assms(1-3), of f] assms(4) by (simp add: phase_change_def)

text \<open>One harness over its life: armed twice in one episode, alerted, resumed, armed and alerted again.\<close>

definition sample_calls :: "ledger_call list" where
  "sample_calls =
     [(Arm ''codex'' (minutes 15) (Some ''401'') ''reap'' True (Some (''repo'', 7)), True, minutes 1),
      (Claim ''codex'', True, minutes 2), (Claim ''codex'', True, minutes 3),
      (Arm ''codex'' (minutes 15) None ''reap'' True (Some (''repo'', 9)), True, minutes 20),
      (Resume ''codex'', True, minutes 90),
      (Arm ''codex'' (minutes 15) None ''probe'' False None, True, minutes 95),
      (Claim ''codex'', True, minutes 96)]"

lemma sample_calls_plain: "\<forall>x \<in> set sample_calls. plain_call x" "plain_name ''codex''"
  by code_simp+

lemma claims_nth:
  assumes "stamps_ok io" and "plain_name h" and "\<forall>x \<in> set xs. plain_call x" and "j < length xs"
  shows "claims h (xs ! j) (outcomes io xs f ! j) \<longleftrightarrow>
    (let p = foldl (\<lambda>p x. phase_step h x p) (phase_of io h f) (take j xs)
     in p = Unalerted \<and> phase_step h (xs ! j) p = Alerted)"
  using assms(3,4)
proof (induction xs arbitrary: f j)
  case (Cons x xs)
  obtain r f' where r: "run_op io x f = (r, f')" by (rule prod.exhaust)
  then have "phase_change (phase_of io h f) (phase_of io h f') h x r"
    using run_phase_change [OF assms(1,2), of x f] Cons.prems(1) by simp
  then show ?case using Cons r by (cases j) (simp_all add: phase_change_def Let_def)
qed simp

lemma idle_at_first: "phase_of io h None = Idle"
  by (simp add: phase_of_record harness_record_def dict_of_def parse_block_def)

lemma sample_calls_claims:
  "claims ''codex'' (sample_calls ! 1) (outcomes digit_io sample_calls None ! 1)"
  "claims ''codex'' (sample_calls ! 6) (outcomes digit_io sample_calls None ! 6)"
proof -
  have "length sample_calls = 7" by (simp add: sample_calls_def)
  then have c: "claims ''codex'' (sample_calls ! j) (outcomes digit_io sample_calls None ! j) \<longleftrightarrow>
      (let p = foldl (\<lambda>p x. phase_step ''codex'' x p) Idle (take j sample_calls)
       in p = Unalerted \<and> phase_step ''codex'' (sample_calls ! j) p = Alerted)" if "j < 7" for j
    using claims_nth [OF digit_io_ok sample_calls_plain(2,1), of j None] that by (simp add: idle_at_first)
  show "claims ''codex'' (sample_calls ! 1) (outcomes digit_io sample_calls None ! 1)"
    "claims ''codex'' (sample_calls ! 6) (outcomes digit_io sample_calls None ! 6)"
    by (subst c; simp add: sample_calls_def Let_def)+
qed

theorem ledger_runs_episodes_witness:
  "phase_of digit_io ''codex'' (snd (run_op digit_io (hd sample_calls) None)) = Unalerted
   \<and> begins ''codex'' (hd sample_calls) (fst (run_op digit_io (hd sample_calls) None))"
proof -
  have "phase_of digit_io ''codex'' None = Idle" by (rule idle_at_first)
  moreover have "phase_step ''codex'' (hd sample_calls) Idle = Unalerted" by code_simp
  moreover have "plain_call (hd sample_calls)" by code_simp
  ultimately show ?thesis
    using ledger_runs_episodes [OF digit_io_ok sample_calls_plain(2) _ surjective_pairing, of "hd sample_calls" None]
    by simp
qed

section \<open>The alert\<close>

lemma claimed_after_alert:
  assumes "stamps_ok io" and "plain_name h" and "\<forall>x \<in> set xs. plain_call x" and "phase_of io h f = Alerted"
    and "j < length xs" and "claims h (xs ! j) (outcomes io xs f ! j)"
  shows "\<exists>k < j. resumes h (xs ! k) (outcomes io xs f ! k)"
  using assms(3-)
proof (induction xs arbitrary: f j)
  case (Cons x xs)
  obtain r f' where r: "run_op io x f = (r, f')" by (rule prod.exhaust)
  have c: "phase_change Alerted (phase_of io h f') h x r"
    using run_phase_change [OF assms(1,2), of x f] Cons.prems(1,2) r by simp
  then have "\<not> claims h x r" by (simp add: phase_change_def)
  with Cons.prems(4) r obtain i where j: "j = Suc i" by (cases j) simp_all
  show ?case
  proof (cases "resumes h x r")
    case True
    then show ?thesis using r j by (intro exI [of _ 0]) simp
  next
    case False
    have "phase_step h x Alerted = Alerted \<or> phase_step h x Alerted = Idle"
      by (cases x rule: plain_call.cases) simp_all
    with c False have "phase_of io h f' = Alerted" by (auto simp: phase_change_def)
    then obtain k where "k < i" "resumes h (xs ! k) (outcomes io xs f' ! k)"
      using Cons.IH [of f' i] Cons.prems(1,3,4) r j by auto
    then show ?thesis using r j by (intro exI [of _ "Suc k"]) simp
  qed
qed simp

text \<open>
  However the calls of all processes interleave, and whatever the ledger held at first, an
  operator is alerted once for each episode: between two granted claims of one harness a call ended
  its episode.
\<close>

theorem alert_claimed_once:
  assumes "stamps_ok io" and "plain_name h" and "\<forall>x \<in> set xs. plain_call x"
    and "i < j" and "j < length xs"
    and "claims h (xs ! i) (outcomes io xs f ! i)" and "claims h (xs ! j) (outcomes io xs f ! j)"
  shows "\<exists>k. i < k \<and> k < j \<and> resumes h (xs ! k) (outcomes io xs f ! k)"
  using assms(3-)
proof (induction xs arbitrary: f i j)
  case (Cons x xs)
  obtain r f' where r: "run_op io x f = (r, f')" by (rule prod.exhaust)
  obtain j' where j: "j = Suc j'" using Cons.prems(2) by (cases j) simp_all
  show ?case
  proof (cases i)
    case 0
    then have "claims h x r" using Cons.prems(4) r by simp
    then have "phase_of io h f' = Alerted"
      using run_phase_change [OF assms(1,2), of x f] Cons.prems(1) r by (auto simp: phase_change_def)
    then obtain k where "k < j'" "resumes h (xs ! k) (outcomes io xs f' ! k)"
      using claimed_after_alert [OF assms(1,2), of xs f' j'] Cons.prems(1,3,5) r j by auto
    then show ?thesis using r j 0 by (intro exI [of _ "Suc k"]) simp
  next
    case (Suc i')
    then obtain k where "i' < k" "k < j'" "resumes h (xs ! k) (outcomes io xs f' ! k)"
      using Cons.IH [of i' j' f'] Cons.prems r j by auto
    then show ?thesis using r j Suc by (intro exI [of _ "Suc k"]) simp
  qed
qed simp

theorem alert_claimed_once_witness:
  "\<exists>k. 1 < k \<and> k < 6 \<and> resumes ''codex'' (sample_calls ! k) (outcomes digit_io sample_calls None ! k)"
  by (rule alert_claimed_once [OF digit_io_ok sample_calls_plain(2,1) _ _ sample_calls_claims])
    (simp_all add: sample_calls_def)

section \<open>Quota windows\<close>

definition window_of :: "time_io \<Rightarrow> ledger_file \<Rightarrow> string \<Rightarrow> string \<Rightarrow> int option" where
  "window_of io f h m =
     (case dict_of (jget (restrictions_of f) (ledger_key h m)) of
        None \<Rightarrow> None | Some d \<Rightarrow> json_time io (jget d ''until''))"

definition whole :: "int \<Rightarrow> bool" where
  "whole t \<longleftrightarrow> 1000000 dvd t"

lemma whole_iff: "whole t \<longleftrightarrow> whole_second t = t"
  by (auto simp: whole_def whole_second_def dvd_eq_mod_eq_0)

lemma whole_second_whole [simp]: "whole (whole_second t)"
  by (simp add: whole_iff)

lemma whole_arith: "whole a \<Longrightarrow> whole b \<Longrightarrow> whole (a + b)" "whole a \<Longrightarrow> whole b \<Longrightarrow> whole (a - b)"
  "whole a \<Longrightarrow> whole (a * c)" "whole a \<Longrightarrow> whole b \<Longrightarrow> whole (min a b)" "whole (minutes n)" "whole (hours n)"
  by (simp_all add: whole_def minutes_def hours_def min_def)

lemma escalate_window_bounds:
  assumes "whole u" and "whole now" and "escalate_window e hits now u = (hits', u')"
  shows "u \<le> u'" and "u' \<le> max u (now + max_escalated_backoff)" and "whole u'"
proof -
  have "u \<le> u' \<and> u' \<le> max u (now + max_escalated_backoff) \<and> whole u'"
  proof (cases "u' = u")
    case False
    define base where "base = u - now"
    obtain t where "e = Some t" using assms(3) False by (cases e) (auto simp: escalate_window_def)
    with assms(3) False have base: "0 < base" "base \<le> escalatable_base_max"
      and "u' = now + min (base * 2 ^ nat (min (hits + 1 - 1) 3)) max_escalated_backoff"
      unfolding escalate_window_def Let_def base_def by (simp_all split: if_split_asm)
    then obtain k where u': "u' = now + min (base * 2 ^ k) max_escalated_backoff" by blast
    have "base \<le> base * 2 ^ k" using base(1) by (simp add: mult_le_cancel_left1)
    moreover have "base \<le> max_escalated_backoff"
      using base(2) by (simp add: escalatable_base_max_def max_escalated_backoff_def hours_def minutes_def)
    ultimately have "u \<le> u'" by (simp add: u' base_def)
    moreover have "whole u'"
      unfolding u' base_def max_escalated_backoff_def using assms(1,2) by (intro whole_arith)
    ultimately show ?thesis by (simp add: u')
  qed (use assms(1) in simp)
  then show "u \<le> u'" "u' \<le> max u (now + max_escalated_backoff)" "whole u'" by simp_all
qed

lemma restriction_cases:
  assumes "stamps_ok io" and "json_time io until = Some u"
    and "record_restriction io True h m until reason source role now f = (changed, f')"
  obtains (kept) e where "window_of io f h m = Some e" "changed = False" "f' = f" "whole_second u \<le> e"
    | (written) u' where "changed" "window_of io f' h m = Some u'" "whole_second u \<le> u'"
        "u' \<le> max (whole_second u) (whole_second now + max_escalated_backoff)"
        "\<And>e. window_of io f h m = Some e \<Longrightarrow> e < u'"
proof -
  let ?ex = "dict_of (jget (restrictions_of f) (ledger_key h m))"
  have e: "(case ?ex of None \<Rightarrow> None | Some d \<Rightarrow> json_time io (jget d ''until'')) = window_of io f h m"
    by (simp add: window_of_def)
  obtain hits u' where w: "escalate_window (window_of io f h m) (hits_of ?ex) (whole_second now) (whole_second u) = (hits, u')"
    by (rule prod.exhaust)
  note b = escalate_window_bounds [OF whole_second_whole whole_second_whole w]
  show thesis
  proof (cases "case window_of io f h m of None \<Rightarrow> False | Some t \<Rightarrow> t \<ge> u'")
    case True
    then obtain t where t: "window_of io f h m = Some t" "u' \<le> t" by (cases "window_of io f h m") auto
    have "(changed, f') = (False, f)"
      using assms(3) unfolding record_restriction_def assms(2) Let_def option.case e w by (simp add: True)
    with t b(1) show thesis by (intro kept [OF t(1)]) simp_all
  next
    case False
    have r: "changed" "f' = ledger_payload (jput (restrictions_of f) (ledger_key h m)
        (restriction_record io h m u' reason source role (whole_second now) hits))"
      using assms(3) unfolding record_restriction_def assms(2) Let_def option.case e w by (simp_all add: False)
    have "window_of io f' h m = Some (whole_second u')"
      using assms(1) by (simp add: window_of_def r(2) dict_of_def restriction_record_def)
    then have "window_of io f' h m = Some u'" using b(3) by (simp add: whole_iff)
    with r(1) b False show thesis by (intro written) (auto split: option.splits)
  qed
qed

text \<open>
  Recording a quota window never shortens one: the new end is at least the recorded one and at
  least the one asked for, and beyond both it is at most four hours from now (the escalation's bound).
  No other record changes, and the call reports a change exactly when the window changed.
\<close>

theorem restriction_monotone:
  assumes "stamps_ok io" and "json_time io until = Some u"
    and "record_restriction io True h m until reason source role now f = (changed, f')"
  shows "(\<exists>w. window_of io f' h m = Some w \<and> whole_second u \<le> w
      \<and> (\<forall>e. window_of io f h m = Some e \<longrightarrow> e \<le> w)
      \<and> (changed \<longrightarrow> w \<le> max (whole_second u) (whole_second now + max_escalated_backoff))
      \<and> changed = (window_of io f h m \<noteq> Some w))
    \<and> (\<forall>k. k = ledger_key h m \<or> jget (restrictions_of f') k = jget (restrictions_of f) k)"
proof
  show "\<forall>k. k = ledger_key h m \<or> jget (restrictions_of f') k = jget (restrictions_of f) k"
    using assms(3) unfolding record_restriction_def assms(2)
    by (auto simp: Let_def split: prod.splits if_splits)
  show "\<exists>w. window_of io f' h m = Some w \<and> whole_second u \<le> w
      \<and> (\<forall>e. window_of io f h m = Some e \<longrightarrow> e \<le> w)
      \<and> (changed \<longrightarrow> w \<le> max (whole_second u) (whole_second now + max_escalated_backoff))
      \<and> changed = (window_of io f h m \<noteq> Some w)"
    by (rule restriction_cases [OF assms]) (fastforce simp: less_imp_le)+
qed

theorem restriction_monotone_witness:
  "\<exists>w. window_of digit_io (snd (record_restriction digit_io True ''codex'' ''m'' (format_z digit_io (minutes 60))
      None ''reap'' [] (minutes 45) None)) ''codex'' ''m'' = Some w \<and> minutes 60 \<le> w"
proof -
  have "whole_second (whole_second (minutes 60)) = minutes 60"
    using whole_arith(5) [of 60] by (simp add: whole_iff)
  then show ?thesis
    using restriction_monotone [OF digit_io_ok stamps_okD [OF digit_io_ok, of "minutes 60"] surjective_pairing,
        where h = "''codex''" and m = "''m''" and reason = None and source = "''reap''" and role = "[]"
          and now = "minutes 45" and f = None] by auto
qed

section \<open>A harness-wide block\<close>

definition entry_ok :: "time_io \<Rightarrow> string \<times> json \<Rightarrow> bool" where
  "entry_ok io e \<longleftrightarrow>
     (\<forall>d. snd e = JObj d \<longrightarrow>
        (\<forall>h m. jget d ''harness'' = JStr h \<longrightarrow> jget d ''model'' = JStr m \<longrightarrow> fst e = ledger_key h m) \<and>
        (\<forall>u. json_time io (jget d ''until'') = Some u \<longrightarrow> whole u))"

definition ledger_ok :: "time_io \<Rightarrow> ledger_file \<Rightarrow> bool" where
  "ledger_ok io f \<longleftrightarrow>
     distinct (map fst (restrictions_of f)) \<and> (\<forall>e \<in> set (restrictions_of f). entry_ok io e)"

lemma ledger_ok_put:
  assumes "ledger_ok io f" and "entry_ok io (k, v)"
  shows "ledger_ok io (ledger_payload (jput (restrictions_of f) k v))"
  using assms set_jput [of "restrictions_of f" k v] distinct_jput by (auto simp: ledger_ok_def)

lemma record_entry_ok:
  assumes "ledger_ok io f" and "harness_record f h = Some d"
  shows "entry_ok io (ledger_key h wide_model, JObj d)"
proof -
  have "jget (restrictions_of f) (ledger_key h wide_model) = JObj d"
    using assms(2) by (simp add: harness_record_def dict_of_def split: json.splits)
  from jget_in [OF this] assms(1) show ?thesis by (auto simp: ledger_ok_def)
qed

lemma ledger_ok_update:
  assumes "ledger_ok io f"
    and "\<And>d. mutate (harness_record f h) = Some d \<Longrightarrow> entry_ok io (ledger_key h wide_model, JObj d)"
  shows "ledger_ok io (snd (update_harness_record io wr h mutate f))"
  using assms ledger_ok_put [OF assms(1)] by (auto simp: update_harness_record_def Let_def split: option.split)

lemma ledger_ok_stamp:
  assumes "ledger_ok io f" and "field \<notin> {''harness'', ''model'', ''until''}"
  shows "ledger_ok io (snd (update_harness_record io wr h (stamp_if io test field now) f))"
proof (rule ledger_ok_update [OF assms(1)])
  fix d'
  assume s: "stamp_if io test field now (harness_record f h) = Some d'"
  show "entry_ok io (ledger_key h wide_model, JObj d')"
  proof (cases rule: stamp_if_cases [of io test field now "harness_record f h"])
    case (stamp d b)
    with s have "d' = jput d field (format_z io now)" by simp
    moreover have "''harness'' \<noteq> field" "''model'' \<noteq> field" "''until'' \<noteq> field" using assms(2) by auto
    ultimately show ?thesis using record_entry_ok [OF assms(1) stamp(1)] by (simp add: entry_ok_def)
  qed (use s in simp)
qed

lemma armed_entry_ok:
  assumes "stamps_ok io"
  shows "entry_ok io (ledger_key h wide_model, JObj (armed_record io h base evidence source now escalate affected e))"
proof -
  obtain hits until started alerted issues stage_a where
    r: "rearmed base now escalate (parse_block io e) = (hits, until, started, alerted, issues, stage_a)"
    by (rule prod_cases6)
  show ?thesis using assms by (simp add: entry_ok_def armed_record_def Let_def r)
qed

lemma ledger_ok_run:
  assumes io: "stamps_ok io" and f: "ledger_ok io f"
  shows "ledger_ok io (snd (run_op io x f))"
proof -
  obtain op wr now where x: "x = (op, wr, now)" by (metis prod_cases3)
  show ?thesis
  proof (cases op)
    case (Restrict h m until reason source role)
    have "entry_ok io (ledger_key h m, restriction_record io h m u reason source role n hits)" for u n hits
      using io by (simp add: entry_ok_def restriction_record_def)
    then show ?thesis using f ledger_ok_put [OF f]
      by (simp add: x Restrict record_restriction_def Let_def split: option.split prod.split)
  next
    case (Arm h base evidence source escalate affected)
    have "ledger_ok io (snd (update_harness_record io wr h
        (\<lambda>e. Some (armed_record io h base evidence source (whole_second now) escalate affected e)) f))"
      by (rule ledger_ok_update [OF f]) (use armed_entry_ok [OF io] in auto)
    then show ?thesis by (simp add: x Arm arm_harness_block_def Let_def case_prod_unfold split: option.split)
  next
    case (Claim h)
    then show ?thesis using ledger_ok_stamp [OF f]
      by (simp add: x claim_harness_alert_def Let_def case_prod_unfold)
  next
    case (Stage_a h)
    then show ?thesis using ledger_ok_stamp [OF f] by (simp add: x mark_stage_a_green_def case_prod_unfold)
  next
    case (Resume h)
    then show ?thesis using ledger_ok_stamp [OF f]
      by (simp add: x mark_harness_resumed_def Let_def case_prod_unfold)
  qed
qed

fun run_calls :: "time_io \<Rightarrow> ledger_call list \<Rightarrow> ledger_file \<Rightarrow> ledger_file" where
  "run_calls io [] f = f"
| "run_calls io (x # xs) f = run_calls io xs (snd (run_op io x f))"

lemma run_calls_ok: "stamps_ok io \<Longrightarrow> ledger_ok io f \<Longrightarrow> ledger_ok io (run_calls io xs f)"
  by (induction xs arbitrary: f) (auto intro: ledger_ok_run)

lemma empty_ledger_ok: "ledger_ok io None"
  by (simp add: ledger_ok_def)

text \<open>In such a ledger the windows of the records are what the file holds under their keys.\<close>

lemma map_of_unique: "(k, v) \<in> set xs \<Longrightarrow> (\<And>v'. (k, v') \<in> set xs \<Longrightarrow> v' = v) \<Longrightarrow> map_of xs k = Some v"
  by (metis map_of_SomeD map_of_eq_None_iff fst_conv image_eqI not_None_eq)

lemma map_filter_set: "set (List.map_filter g xs) = {y. \<exists>x \<in> set xs. g x = Some y}"
  by (induction xs) (auto split: option.splits)

lemma record_window_JObj:
  "record_window io None v = Some ((h, m), u) \<longleftrightarrow>
     (\<exists>d. v = JObj d \<and> jget d ''harness'' = JStr h \<and> jget d ''model'' = JStr m \<and>
          json_time io (jget d ''until'') = Some u)"
  by (cases v) (auto simp: record_window_def split: json.splits option.splits)

lemma load_window:
  assumes "ledger_ok io f" and "jget (restrictions_of f) (ledger_key h m) = JObj d"
    and "jget d ''harness'' = JStr h" "jget d ''model'' = JStr m" "json_time io (jget d ''until'') = Some u"
  shows "load_restrictions io True f (h, m) = Some u"
proof -
  let ?xs = "List.map_filter (record_window io None) (map snd (restrictions_of f))"
  have e: "((h, m), u') \<in> set ?xs \<longleftrightarrow>
      (\<exists>k d. (k, JObj d) \<in> set (restrictions_of f) \<and> jget d ''harness'' = JStr h \<and>
             jget d ''model'' = JStr m \<and> json_time io (jget d ''until'') = Some u')" for u'
    unfolding map_filter_set set_map by (simp add: record_window_JObj Bex_def image_iff) blast
  have mem: "(ledger_key h m, JObj d) \<in> set (restrictions_of f)" by (rule jget_in [OF assms(2)]) simp
  have unique: "u' = u" if mem': "((h, m), u') \<in> set ?xs" for u'
  proof -
    obtain k d' where d': "(k, JObj d') \<in> set (restrictions_of f)" "jget d' ''harness'' = JStr h"
      "jget d' ''model'' = JStr m" "json_time io (jget d' ''until'') = Some u'"
      using mem' unfolding e by blast
    then have "entry_ok io (k, JObj d')" using assms(1) by (simp add: ledger_ok_def)
    with d' have "k = ledger_key h m" by (simp add: entry_ok_def)
    moreover have "distinct (map fst (restrictions_of f))" using assms(1) by (simp add: ledger_ok_def)
    ultimately have "JObj d' = JObj d" using d'(1) mem by (meson eq_key_imp_eq_value)
    with d'(4) assms(5) show ?thesis by simp
  qed
  have "((h, m), u) \<in> set ?xs" unfolding e using mem assms(3-5) by blast
  then have "map_of (rev ?xs) (h, m) = Some u"
    by (intro map_of_unique) (simp_all only: set_rev unique)
  then show ?thesis by (simp add: load_restrictions_def iter_restrictions_def)
qed

lemma whole_less: "whole a \<Longrightarrow> a + 1000000 \<le> b \<Longrightarrow> a < whole_second b"
proof -
  assume "a + 1000000 \<le> b"
  moreover have "b mod 1000000 < 1000000" by simp
  ultimately show "a < whole_second b" unfolding whole_second_def by linarith
qed

lemma backoff_positive: "1000000 \<le> base \<Longrightarrow> 1000000 \<le> backoff_window base hits"
proof -
  assume b: "1000000 \<le> base"
  have "base * 1 \<le> base * 2 ^ nat (min (max hits 1 - 1) 3)"
    by (rule mult_left_mono) (use b in simp_all)
  with b have "1000000 \<le> base * 2 ^ nat (min (max hits 1 - 1) 3)" by linarith
  then show ?thesis by (simp add: backoff_window_def max_escalated_backoff_def hours_def minutes_def)
qed

lemma rearmed_live:
  assumes "1000000 \<le> base" and "whole now"
    and "\<And>b. block = Some b \<Longrightarrow> whole (hb_until b)"
  shows "now < whole_second (fst (snd (rearmed base now escalate block)))"
proof (cases block)
  case None
  then show ?thesis using assms(1,2) by (simp add: rearmed_def whole_less)
next
  case (Some b)
  note w = assms(3) [OF Some, unfolded whole_iff]
  show ?thesis
    by (cases "episode_open b"; cases "hb_until b \<le> now"; cases escalate)
      (use assms(1,2) w backoff_positive in \<open>simp_all add: Some rearmed_def Let_def whole_less\<close>)
qed

lemma recorded_until_whole:
  assumes "ledger_ok io f" and "parse_block io (harness_record f h) = Some b"
  shows "whole (hb_until b)"
proof -
  obtain d where d: "harness_record f h = Some d" using assms(2) by (cases "harness_record f h") (auto simp: parse_block_def)
  obtain h' u where hu: "jget d ''harness'' = JStr h'" "json_time io (jget d ''until'') = Some u"
    using parse_blockE assms(2) d by metis
  have "hb_until b = u" using assms(2) parse_block_Some [OF hu] d by auto
  with record_entry_ok [OF assms(1) d] hu show ?thesis by (simp add: entry_ok_def)
qed

lemma effective_wide:
  assumes "ledger (h, wide_model) = Some w"
  shows "t < w \<Longrightarrow> \<exists>u. fst (effective_restriction ledger h m t) = Some u \<and> w \<le> u"
    and "w \<le> t \<Longrightarrow> \<not> snd (effective_restriction ledger h m t)"
  using assms by (auto simp: effective_restriction_def Let_def split: option.split)

text \<open>
  Over any ledger the operations can leave, arming a harness with a base window of a second or more
  gives a window that ends after now; until it ends every model of that harness is restricted at
  least as long, and once it has ended the block no longer binds any.
\<close>

theorem armed_block_binds:
  assumes "stamps_ok io" and "1000000 \<le> base" and "f = run_calls io xs None"
    and "arm_harness_block io True h base evidence source now escalate affected f = ((armed, new), f')"
  shows "\<exists>b. armed = Some b \<and> whole_second now < hb_until b
    \<and> (\<forall>m t. (if t < hb_until b
         then \<exists>u. fst (effective_restriction (load_restrictions io True f') h m t) = Some u \<and> hb_until b \<le> u
         else \<not> snd (effective_restriction (load_restrictions io True f') h m t)))"
proof -
  have ok: "ledger_ok io f" unfolding assms(3) by (intro run_calls_ok assms(1) empty_ledger_ok)
  define e where "e = harness_record f h"
  let ?d = "armed_record io h base evidence source (whole_second now) escalate affected e"
  obtain b where b: "parse_block io (Some ?d) = Some b" "episode_open b" "hb_harness b = h"
    "hb_until b = whole_second (fst (snd (rearmed base (whole_second now) escalate (parse_block io e))))"
    by (rule parse_armed [OF assms(1)])
  let ?p = "ledger_payload (jput (restrictions_of f) (ledger_key h wide_model) (JObj ?d))"
  have "update_harness_record io True h
      (\<lambda>e. Some (armed_record io h base evidence source (whole_second now) escalate affected e)) f = (Some b, ?p)"
    using b(1) by (simp add: update_harness_record_def e_def)
  then have arm: "arm_harness_block io True h base evidence source now escalate affected f =
      ((Some b, new_episode io (harness_record f h)), ?p)"
    by (simp add: arm_harness_block_def Let_def)
  have f': "armed = Some b" "f' = ?p" using assms(4) unfolding arm by simp_all
  have "snd (run_op io (Arm h base evidence source escalate affected, True, now) f) = ?p" by (simp add: arm)
  with ledger_ok_run [OF assms(1) ok] have ok': "ledger_ok io f'" unfolding f'(2) by metis
  have rec: "jget (restrictions_of f') (ledger_key h wide_model) = JObj ?d" by (simp add: f'(2))
  have d: "jget ?d ''harness'' = JStr h" "jget ?d ''model'' = JStr wide_model"
    by (simp_all add: armed_record_def Let_def split: prod.split)
  have "json_time io (jget ?d ''until'') = Some (hb_until b)"
    using b(1) d(1) parse_block_Some [OF d(1)] by (cases "json_time io (jget ?d ''until'')") (auto simp: parse_block_def)
  from load_window [OF ok' rec d this] have w: "load_restrictions io True f' (h, wide_model) = Some (hb_until b)" .
  have "whole_second now < hb_until b"
    unfolding b(4) by (rule rearmed_live [OF assms(2) whole_second_whole])
      (use recorded_until_whole [OF ok] in \<open>simp add: e_def\<close>)
  with f'(1) effective_wide [where ledger = "load_restrictions io True f'" and h = h, OF w] show ?thesis by (intro exI [of _ b]) auto
qed

theorem armed_block_binds_witness:
  "\<exists>b. fst (fst (arm_harness_block digit_io True ''codex'' (minutes 15) None ''reap'' (minutes 200) True None
         (run_calls digit_io sample_calls None))) = Some b \<and> minutes 200 < hb_until b"
proof -
  have "whole_second (minutes 200) = minutes 200" "1000000 \<le> minutes 15"
    using whole_arith(5) [of 200] by (simp_all add: whole_iff minutes_def)
  then show ?thesis
    using armed_block_binds [OF digit_io_ok _ refl, where base = "minutes 15" and h = "''codex''"
        and evidence = None and source = "''reap''" and now = "minutes 200" and escalate = True
        and affected = None and xs = sample_calls]
    by (metis prod.collapse)
qed

end
