(* ===== verification/Preview.thy ===== *)
theory Preview
  imports Merge_Pass
begin

text \<open>
  The dry run of the merge path (\<^verbatim>\<open>merge_path/preview.py\<close>) and its report (\<^verbatim>\<open>merge_path/render.py\<close>): the
  stages of a pass with the preview's gathers, nothing written and nothing sent. A preview is a
  function of the same reads as the pass of \<open>Merge_Lane\<close>, so the two can be compared.
\<close>

section \<open>The holds of a preview\<close>

text \<open>The merge hold is read whenever a merge could be attempted, with or without a queue label.\<close>

definition preview_holds ::
  "app_config \<Rightarrow> pass_reads \<Rightarrow> pr_view \<Rightarrow> int \<Rightarrow> int option \<Rightarrow> bool \<Rightarrow> readiness \<Rightarrow> lane_state \<Rightarrow>
   hold_facts" where
  "preview_holds ac ps view pr issue should_merge rd st =
     (let h0 = holds_from_snapshot st (ac_merge ac) pr issue should_merge (pv_head view);
          hold = gather_merge_hold (ac_merge_hold_label ac) (ps_cached_issues ps) (ps_hold_issue ps)
                   view issue;
          h1 = (if snd (merge_entry rd h0)
                then h0\<lparr> hf_merge_hold := Some (fst hold), hf_merge_hold_unavailable := snd hold \<rparr>
                else h0)
      in with_human_block ac ps view rd h1)"

section \<open>The report\<close>

record preview_final =
  pf_issue :: "int option"
  pf_readiness :: readiness
  pf_config :: merge_config
  pf_should_merge :: bool
  pf_escalated_hold :: bool
  pf_merge_hold :: bool
  pf_merge_hold_unavailable :: bool
  pf_merge_hold_label :: string
  pf_failed_attempts :: raw_counter
  pf_stale_base_deferrals :: raw_counter
  pf_requeues :: int
  pf_requeue_capped :: bool
  pf_human_block :: bool
  pf_human_block_unavailable :: bool

datatype preview_result =
  Preview_skip "int option"
| Preview_not_found
| Preview_head_moved "string option" "string option"
| Preview_conflict_cap raw_counter
| Preview_not_train_head raw_counter
| Preview_stale_base raw_counter raw_counter
| Preview_final preview_final
| Preview_raised decide_error

text \<open>\<open>merge_hold\<close> and its availability as the driver passes them on: both False where nothing was read.\<close>

definition preview_final_of ::
  "app_config \<Rightarrow> pass_reads \<Rightarrow> pr_view \<Rightarrow> int \<Rightarrow> int option \<Rightarrow> bool \<Rightarrow> readiness \<Rightarrow> lane_state \<Rightarrow>
   decide_error + preview_final" where
  "preview_final_of ac ps view pr issue should_merge rd st =
     (let h = preview_holds ac ps view pr issue should_merge rd st; entry = persisted_from (pr_of st pr)
      in bindE (mergequeue_re_add_pending rd h) (\<lambda>re_add.
         bindE (requeue_gate rd h re_add) (\<lambda>rg.
           Inr \<lparr> pf_issue = issue, pf_readiness = rd, pf_config = ac_merge ac,
                 pf_should_merge = should_merge, pf_escalated_hold = fst (merge_entry rd h),
                 pf_merge_hold = (hf_merge_hold h = Some True),
                 pf_merge_hold_unavailable = hf_merge_hold_unavailable h,
                 pf_merge_hold_label = ac_merge_hold_label ac,
                 pf_failed_attempts = pp_failed_attempts entry,
                 pf_stale_base_deferrals = pp_stale_base_deferrals entry,
                 pf_requeues = rg_requeues rg, pf_requeue_capped = rg_capped rg,
                 pf_human_block = (hf_human_block h = Some True),
                 pf_human_block_unavailable = hf_human_block_unavailable h \<rparr>)))"

section \<open>The preview\<close>

text \<open>
  From the branch gate on. The conflict stops of the live path need the status of the issue, which a
  preview does not read.
\<close>

definition preview_from_branch ::
  "app_config \<Rightarrow> pass_reads \<Rightarrow> int \<Rightarrow> bool option \<Rightarrow> int option \<Rightarrow> merge_opening \<Rightarrow> lane_state \<Rightarrow>
   preview_result" where
  "preview_from_branch ac ps pr merge train_head op st =
     (let entry = persisted_from (pr_of st pr); cfg = ac_merge ac; issue = op_issue op
      in case gather_branch False ac ps pr train_head op st of
           Inl e \<Rightarrow> Preview_raised e
         | Inr (_, g) \<Rightarrow>
             if bg_stop g = Some Conflict_cap_exceeded
             then Preview_conflict_cap (pp_failed_attempts entry)
             else if bg_stop g = Some Not_train_head
             then Preview_not_train_head (pp_failed_attempts entry)
             else if bg_stop g = Some Stale_base
             then Preview_stale_base (pp_failed_attempts entry) (pp_stale_base_deferrals entry)
             else (let hm = human_merge_hold_check (cfg_human_merge_labels cfg) issue (ps_human_issue ps);
                       rd = decide_readiness (re_fromiso (ps_env ps))
                              (readiness_facts_of ps pr op g (gather_revert ps op g) None None hm)
                   in case preview_final_of ac ps (op_pr op) pr issue (resolve_merge cfg merge) rd st of
                        Inl e \<Rightarrow> Preview_raised e
                      | Inr p \<Rightarrow> Preview_final p))"

definition preview_merge_ready ::
  "app_config \<Rightarrow> pass_reads \<Rightarrow> int \<Rightarrow> bool option \<Rightarrow> int option \<Rightarrow> lane_state \<Rightarrow> preview_result" where
  "preview_merge_ready ac ps pr merge train_head st =
     (let entry = pr_of st pr
      in if pe_status entry = Some ''merged'' then Preview_skip (pe_issue entry)
         else (case ps_pr_view ps of
                 None \<Rightarrow> Preview_not_found
               | Some view \<Rightarrow>
                   (case gather_opening (ac_merge ac) ps pr entry None True view of
                      Inl e \<Rightarrow> Preview_raised e
                    | Inr op \<Rightarrow>
                        if adm_kind (op_admission op) = Stop Request_rework
                        then Preview_head_moved (vf_reviewed_head_sha (af_verdict (op_facts op)))
                               (af_live_head (op_facts op))
                        else preview_from_branch ac ps pr merge train_head op st)))"

section \<open>The message\<close>

definition or_none :: "string option \<Rightarrow> string" where
  "or_none s = (case s of None \<Rightarrow> ''None'' | Some t \<Rightarrow> t)"

definition issue_text :: "int option \<Rightarrow> string" where
  "issue_text issue = (case issue of None \<Rightarrow> ''None'' | Some n \<Rightarrow> int_str n)"

text \<open>What the report says: the first matching rule of \<^verbatim>\<open>preview_message\<close>.\<close>

datatype preview_says =
  Says_capped | Says_hand_off | Says_merge | Says_escalated | Says_human_merge
| Says_human_merge_unknown | Says_merge_hold | Says_human_block | Says_human_block_unknown
| Says_conflict | Says_revert | Says_revert_unknown | Says_checks_unavailable
| Says_merge_hold_unknown | Says_nothing

definition preview_rule :: "preview_final \<Rightarrow> preview_says" where
  "preview_rule p =
     (let r = pf_readiness p
      in if pf_requeue_capped p then Says_capped
         else if can_merge (rd_gate r) \<and> pf_should_merge p \<and> \<not> pf_merge_hold p \<and>
                 \<not> pf_human_block p \<and> \<not> pf_human_block_unavailable p \<and> \<not> pf_escalated_hold p \<and>
                 \<not> rd_human_merge_hold r \<and> \<not> rd_human_merge_unavailable r
         then (if truthy (cfg_mergequeue_label (pf_config p)) then Says_hand_off else Says_merge)
         else if pf_escalated_hold p then Says_escalated
         else if rd_human_merge_hold r then Says_human_merge
         else if rd_human_merge_unavailable r then Says_human_merge_unknown
         else if pf_merge_hold p then Says_merge_hold
         else if pf_human_block p then Says_human_block
         else if pf_human_block_unavailable p then Says_human_block_unknown
         else if bg_merge_conflict (rd_branch r) then Says_conflict
         else if rd_revert_detected r then Says_revert
         else if rd_revert_undetermined r then Says_revert_unknown
         else if rd_checks_unavailable r then Says_checks_unavailable
         else if pf_merge_hold_unavailable p then Says_merge_hold_unknown
         else Says_nothing)"

definition preview_message :: "preview_final \<Rightarrow> string" where
  "preview_message p =
     (let base = ''dry-run: merge readiness evaluated''; cfg = pf_config p;
          label = py_repr (or_empty (cfg_mergequeue_label cfg))
      in case preview_rule p of
           Says_capped \<Rightarrow>
             base @ '' (mergequeue label '' @ label @ '' reverts at this head capped ('' @
             int_str (pf_requeues p) @ ''/'' @ int_str (cfg_requeue_cap cfg) @ '') '' @ em_dash @
             '' would hold and route to rework)''
         | Says_hand_off \<Rightarrow> base @ '' (would hand off to mergequeue label '' @ label @ '')''
         | Says_merge \<Rightarrow> base @ '' (would merge)''
         | Says_escalated \<Rightarrow>
             base @ '' (escalated '' @ em_dash @ '' would hold merge while agent:human-needed is up)''
         | Says_human_merge \<Rightarrow>
             base @ '' (human-merge label on issue '' @ em_dash @ '' would not auto-merge)''
         | Says_human_merge_unknown \<Rightarrow>
             base @ '' (human-merge label check unavailable for issue #'' @ issue_text (pf_issue p) @ '')''
         | Says_merge_hold \<Rightarrow>
             base @ '' (merge-hold label '' @ py_repr (pf_merge_hold_label p) @ '' present '' @ em_dash @
             '' would be left alone)''
         | Says_human_block \<Rightarrow>
             base @ '' (human request-changes outstanding '' @ em_dash @ '' would not merge or hand off)''
         | Says_human_block_unknown \<Rightarrow>
             base @ '' (human-review check unavailable '' @ em_dash @ '' would hold, fail-closed)''
         | Says_conflict \<Rightarrow>
             base @ '' (merge conflict '' @ em_dash @ '' would route to rework on threshold)''
         | Says_revert \<Rightarrow> base @ '' (cross-PR revert: '' @ or_none (rd_revert_reason (pf_readiness p)) @ '')''
         | Says_revert_unknown \<Rightarrow>
             base @ '' (cross-PR revert gate undetermined '' @ em_dash @ '' would hold merge, fail-closed: '' @
             or_none (rd_revert_reason (pf_readiness p)) @ '')''
         | Says_checks_unavailable \<Rightarrow> ''dry-run: checks unavailable (gh failure)''
         | Says_merge_hold_unknown \<Rightarrow>
             base @ '' (merge-hold check unavailable for issue #'' @ issue_text (pf_issue p) @ '')''
         | Says_nothing \<Rightarrow> base)"

text \<open>The flag and the message of the command's result; the payload repeats the fields of the result.\<close>

fun preview_report :: "int \<Rightarrow> preview_result \<Rightarrow> (decide_error + bool \<times> string)" where
  "preview_report pr (Preview_skip issue) = Inr (True, ''PR #'' @ int_str pr @ '' already merged'')"
| "preview_report pr Preview_not_found = Inr (False, ''PR #'' @ int_str pr @ '' was not found'')"
| "preview_report pr (Preview_head_moved reviewed live) =
     Inr (False, ''PR head moved since approval '' @ em_dash @ '' re-review required'')"
| "preview_report pr (Preview_conflict_cap n) =
     Inr (True, ''PR #'' @ int_str pr @ '' conflict-rework cap exceeded; escalated '' @ em_dash @
       '' merge lane would skip until the head moves or the operator unescalates'')"
| "preview_report pr (Preview_not_train_head n) =
     Inr (True, ''PR #'' @ int_str pr @ '' is not the head of the merge-train queue'')"
| "preview_report pr (Preview_stale_base n m) =
     Inr (True, ''PR #'' @ int_str pr @ '' base is stale; merge deferred until base is current'')"
| "preview_report pr (Preview_final p) =
     Inr (\<not> (rd_checks_unavailable (pf_readiness p) \<or> pf_merge_hold_unavailable p \<or>
             pf_human_block_unavailable p \<or> rd_human_merge_unavailable (pf_readiness p)),
          preview_message p)"
| "preview_report pr (Preview_raised e) = Inl e"

end
