(* ===== verification/Preview_Props.thy ===== *)
theory Preview_Props
  imports Preview Merge_Stage_Props
begin

text \<open>
  The properties of the dry run: it never asks for a fact it did not read, what it says of holds and
  queue is what the merge decision would plan, and its promise to merge is kept by the pass.
\<close>

section \<open>The holds\<close>

lemma with_human_block_simps [simp]:
  "hf_config (with_human_block ac ps view rd h) = hf_config h"
  "hf_should_merge (with_human_block ac ps view rd h) = hf_should_merge h"
  "hf_persisted (with_human_block ac ps view rd h) = hf_persisted h"
  "hf_live_head (with_human_block ac ps view rd h) = hf_live_head h"
  "hf_issue_status (with_human_block ac ps view rd h) = hf_issue_status h"
  "hf_merge_hold (with_human_block ac ps view rd h) = hf_merge_hold h"
  "hf_merge_hold_unavailable (with_human_block ac ps view rd h) = hf_merge_hold_unavailable h"
  "merge_entry rd (with_human_block ac ps view rd h) = merge_entry rd h"
  by (simp_all add: with_human_block_def Let_def entry_needs)

lemma with_human_block_gate:
  "human_block_gate (snd (merge_entry rd h)) (with_human_block ac ps view rd h) \<noteq> Inl e"
  by (auto simp: human_block_gate_def with_human_block_def human_block_read_needed_def Let_def)

lemma preview_holds_entry:
  "merge_entry rd (preview_holds ac ps view pr issue sm rd st) =
     merge_entry rd (holds_from_snapshot st (ac_merge ac) pr issue sm (pv_head view))"
  by (simp add: preview_holds_def Let_def entry_needs)

lemma preview_holds_simps [simp]:
  "hf_config (preview_holds ac ps view pr issue sm rd st) = ac_merge ac"
  "hf_should_merge (preview_holds ac ps view pr issue sm rd st) = sm"
  "hf_persisted (preview_holds ac ps view pr issue sm rd st) = Some (persisted_from (pr_of st pr))"
  "hf_live_head (preview_holds ac ps view pr issue sm rd st) = pv_head view"
  by (simp_all add: preview_holds_def holds_from_snapshot_def Let_def)

lemma preview_gate:
  "human_block_gate (snd (merge_entry rd (preview_holds ac ps view pr issue sm rd st)))
     (preview_holds ac ps view pr issue sm rd st) \<noteq> Inl e"
proof -
  obtain h where "preview_holds ac ps view pr issue sm rd st = with_human_block ac ps view rd h"
    by (simp add: preview_holds_def Let_def)
  then show ?thesis
    by (simp add: with_human_block_gate)
qed

lemma preview_final_total: "\<exists>p. preview_final_of ac ps view pr issue sm rd st = Inr p"
proof -
  have "preview_final_of ac ps view pr issue sm rd st \<noteq> Inl e" for e
    using preview_gate by (auto simp: preview_final_of_def Let_def bindE_Inl_iff dest!: re_add_error requeue_error)
  then show ?thesis
    by (intro not_Inl_ex allI)
qed

section \<open>The branch stage\<close>

lemmas preview_branch_cases = gather_branch_walk [where live = False, simplified if_False]

lemma preview_branch_total:
  assumes "af_config (op_facts op) = ac_merge ac"
  shows "\<exists>x. gather_branch False ac ps pr th op st = Inr x"
proof (cases "adm_approved (op_admission op)")
  case True
  from this assms show ?thesis
    by (rule preview_branch_cases) blast+
next
  case False
  then show ?thesis
    by (simp add: gather_branch_def Let_def decide_branch_def branch_start_def)
qed


section \<open>A preview never raises\<close>

lemma preview_opening:
  assumes "gather_opening cfg ps pr entry None True view = Inr op"
  shows "op_pr op = view" and "op_issue op = ps_linked_issue ps"
    and "af_config (op_facts op) = cfg" and "af_verdict (op_facts op) = verdict_of (ps_decision ps)"
    and "af_live_head (op_facts op) = pv_head view"
    and "af_persisted (op_facts op) = Some (persisted_from entry)" and "af_pr_found (op_facts op)"
    and "decide_admission (op_facts op) False True = Inr (op_admission op)"
  using assms by (auto simp: gather_opening_def Let_def bindE_Inr_iff)

text \<open>
  A preview never raises: whatever it reads and whatever the state holds, each stage is given every
  fact it asks for.
\<close>

theorem preview_never_raises: "preview_merge_ready ac ps pr merge th st \<noteq> Preview_raised e"
proof -
  have "preview_from_branch ac ps pr merge th op st \<noteq> Preview_raised e"
    if o: "gather_opening (ac_merge ac) ps pr (pr_of st pr) None True view = Inr op" for op view
  proof -
    obtain f g where "gather_branch False ac ps pr th op st = Inr (f, g)"
      using preview_branch_total [OF preview_opening(3) [OF o]] by (metis surj_pair)
    moreover obtain p where "preview_final_of ac ps (op_pr op) pr (op_issue op) (resolve_merge (ac_merge ac) merge)
        (decide_readiness (re_fromiso (ps_env ps))
          (readiness_facts_of ps pr op g (gather_revert ps op g) None None
            (human_merge_hold_check (cfg_human_merge_labels (ac_merge ac)) (op_issue op) (ps_human_issue ps)))) st = Inr p"
      using preview_final_total by blast
    ultimately show ?thesis
      by (simp add: preview_from_branch_def Let_def)
  qed
  moreover have "gather_opening (ac_merge ac) ps pr (pr_of st pr) None True view \<noteq> Inl x" for x view
    using gather_opening_total by (metis Inr_not_Inl)
  ultimately show ?thesis
    by (auto simp: preview_merge_ready_def Let_def split: option.split sum.split)
qed

section \<open>A preview and the plan\<close>

lemma preview_finalE:
  assumes "preview_final_of ac ps view pr issue sm rd st = Inr p"
  obtains re rg where
    "mergequeue_re_add_pending rd (preview_holds ac ps view pr issue sm rd st) = Inr re"
    "requeue_gate rd (preview_holds ac ps view pr issue sm rd st) re = Inr rg"
    "pf_readiness p = rd" "pf_config p = ac_merge ac" "pf_should_merge p = sm"
    "pf_escalated_hold p = fst (merge_entry rd (preview_holds ac ps view pr issue sm rd st))"
    "pf_merge_hold p = (hf_merge_hold (preview_holds ac ps view pr issue sm rd st) = Some True)"
    "pf_merge_hold_unavailable p = hf_merge_hold_unavailable (preview_holds ac ps view pr issue sm rd st)"
    "pf_requeues p = rg_requeues rg" "pf_requeue_capped p = rg_capped rg"
    "pf_human_block p = (hf_human_block (preview_holds ac ps view pr issue sm rd st) = Some True)"
    "pf_human_block_unavailable p = hf_human_block_unavailable (preview_holds ac ps view pr issue sm rd st)"
  using assms that by (auto simp: preview_final_of_def Let_def bindE_Inr_iff)

text \<open>With a queue label the two sets of holds are the same; without one they differ in the merge hold only.\<close>

lemma preview_holds_queue:
  "truthy (cfg_mergequeue_label (ac_merge ac)) \<Longrightarrow>
     preview_holds ac ps view pr issue sm rd st = gather_holds ac ps view pr issue sm rd st"
  by (simp add: preview_holds_def gather_holds_def merge_hold_read_needed_def holds_from_snapshot_def Let_def)

lemma block_simps [simp]:
  "human_block_gate e (h\<lparr> hf_merge_hold := a, hf_merge_hold_unavailable := b \<rparr>) = human_block_gate e h"
  "with_human_block ac ps view rd (h\<lparr> hf_merge_hold := a, hf_merge_hold_unavailable := b \<rparr>) =
     (with_human_block ac ps view rd h)\<lparr> hf_merge_hold := a, hf_merge_hold_unavailable := b \<rparr>"
  by (simp_all add: human_block_gate_def human_block_read_needed_def with_human_block_def entry_needs Let_def)

lemma preview_holds_plain:
  assumes "\<not> truthy (cfg_mergequeue_label (ac_merge ac))"
  obtains a b where "preview_holds ac ps view pr issue sm rd st =
    (gather_holds ac ps view pr issue sm rd st)\<lparr> hf_merge_hold := a, hf_merge_hold_unavailable := b \<rparr>"
proof -
  let ?h0 = "holds_from_snapshot st (ac_merge ac) pr issue sm (pv_head view)"
  have g: "gather_holds ac ps view pr issue sm rd st = with_human_block ac ps view rd ?h0"
    using assms by (simp add: gather_holds_def merge_hold_read_needed_def holds_from_snapshot_def Let_def)
  show thesis
  proof (cases "snd (merge_entry rd ?h0)")
    case True
    with g that show thesis
      by (simp add: preview_holds_def Let_def)
  next
    case False
    then have "preview_holds ac ps view pr issue sm rd st = gather_holds ac ps view pr issue sm rd st"
      by (simp add: preview_holds_def g Let_def)
    with that [where a = "hf_merge_hold (gather_holds ac ps view pr issue sm rd st)" and
        b = "hf_merge_hold_unavailable (gather_holds ac ps view pr issue sm rd st)"] show thesis
      by simp
  qed
qed

lemma requeue_gate_plain:
  "\<not> truthy (cfg_mergequeue_label (hf_config h)) \<Longrightarrow> requeue_gate rd h re = Inr rg \<Longrightarrow>
     \<not> rg_capped rg \<and> rg_requeues rg = mergequeue_requeue_count (hf_persisted h)
       (bg_admission (rd_branch rd)) (can_merge (rd_gate rd)) (hf_live_head h) re"
  by (auto simp: requeue_gate_def Let_def bindE_Inr_iff)

lemma gate_of_holds:
  assumes "human_block_gate (snd (merge_entry rd h)) h = Inr hb"
    and "hf_human_block h \<noteq> None \<or> hf_human_block_unavailable h \<Longrightarrow>
      human_block_read_needed (snd (merge_entry rd h)) h"
  shows "hg_blocked hb = (hf_human_block h = Some True)"
    and "hg_unavailable hb = hf_human_block_unavailable h"
  using assms by (auto simp: human_block_gate_def split: if_splits)

lemma block_was_needed:
  assumes "hf_human_block (gather_holds ac ps view pr issue sm rd st) \<noteq> None \<or>
      hf_human_block_unavailable (gather_holds ac ps view pr issue sm rd st)"
  shows "human_block_read_needed (snd (merge_entry rd (gather_holds ac ps view pr issue sm rd st)))
    (gather_holds ac ps view pr issue sm rd st)"
  using assms
  by (auto simp: gather_holds_def with_human_block_def human_block_read_needed_def entry_needs
      holds_from_snapshot_def Let_def split: if_splits)

lemma entry_exact:
  "snd (merge_entry rd h) \<longleftrightarrow> can_merge (rd_gate rd) \<and> hf_should_merge h \<and> \<not> fst (merge_entry rd h) \<and>
     \<not> rd_human_merge_hold rd \<and> \<not> rd_human_merge_unavailable rd"
  by (simp add: merge_entry_def Let_def)

lemma re_add_exact:
  assumes "mergequeue_re_add_pending rd h = Inr re" and "human_block_gate (snd (merge_entry rd h)) h = Inr hb"
  shows "re \<longleftrightarrow> snd (merge_entry rd h) \<and> truthy (cfg_mergequeue_label (hf_config h)) \<and>
    hf_merge_hold h = Some False \<and> \<not> hf_merge_hold_unavailable h \<and> \<not> held hb"
  using assms by (auto simp: mergequeue_re_add_pending_def merge_hold_read_needed_def split: if_splits)

lemma merge_hold_exclusive: "snd (gather_merge_hold l c i v n) \<Longrightarrow> \<not> fst (gather_merge_hold l c i v n)"
  by (auto simp: gather_merge_hold_def Let_def split: option.splits if_splits issue_read.splits)

text \<open>The hold of a preview, read exactly where a merge could be attempted.\<close>

lemma preview_hold_read:
  assumes "h = preview_holds ac ps view pr issue sm rd st"
  shows "\<not> snd (merge_entry rd h) \<Longrightarrow> hf_merge_hold h = None \<and> \<not> hf_merge_hold_unavailable h"
    and "snd (merge_entry rd h) \<Longrightarrow> hf_merge_hold h \<noteq> None"
    and "hf_merge_hold_unavailable h \<Longrightarrow> hf_merge_hold h \<noteq> Some True"
proof -
  let ?h0 = "holds_from_snapshot st (ac_merge ac) pr issue sm (pv_head view)"
  have e: "merge_entry rd h = merge_entry rd ?h0"
    by (simp add: assms preview_holds_entry)
  have n: "hf_merge_hold ?h0 = None" "\<not> hf_merge_hold_unavailable ?h0"
    by (simp_all add: holds_from_snapshot_def)
  show "\<not> snd (merge_entry rd h) \<Longrightarrow> hf_merge_hold h = None \<and> \<not> hf_merge_hold_unavailable h"
    using n by (simp add: e) (simp add: assms preview_holds_def Let_def)
  show "snd (merge_entry rd h) \<Longrightarrow> hf_merge_hold h \<noteq> None"
    by (simp add: e) (simp add: assms preview_holds_def Let_def)
  show "hf_merge_hold_unavailable h \<Longrightarrow> hf_merge_hold h \<noteq> Some True"
    using n merge_hold_exclusive
    by (cases "snd (merge_entry rd ?h0)") (auto simp: assms preview_holds_def Let_def)
qed

definition preview_clear :: "preview_final \<Rightarrow> bool" where
  "preview_clear p \<longleftrightarrow>
     can_merge (rd_gate (pf_readiness p)) \<and> pf_should_merge p \<and> \<not> pf_merge_hold p \<and>
     \<not> pf_human_block p \<and> \<not> pf_human_block_unavailable p \<and> \<not> pf_escalated_hold p \<and>
     \<not> rd_human_merge_hold (pf_readiness p) \<and> \<not> rd_human_merge_unavailable (pf_readiness p)"

lemma says_merge_iff:
  "preview_rule p = Says_merge \<longleftrightarrow>
     \<not> pf_requeue_capped p \<and> preview_clear p \<and> \<not> truthy (cfg_mergequeue_label (pf_config p))"
  by (auto simp: preview_rule_def preview_clear_def Let_def)

lemma says_hand_off_iff:
  "preview_rule p = Says_hand_off \<longleftrightarrow>
     \<not> pf_requeue_capped p \<and> preview_clear p \<and> truthy (cfg_mergequeue_label (pf_config p))"
  by (auto simp: preview_rule_def preview_clear_def Let_def)

lemma plan_of_escalated: "mp_escalated_hold (merge_plan_of rd h hb re rg deb) = fst (merge_entry rd h)"
  by (simp add: merge_plan_of_def Let_def)

text \<open>
  What a preview says of the next pass is what that pass would plan from the same readiness and
  the same state: its escalation hold, human block, requeue count and cap are the plan's, it says that
  it would merge exactly when the plan merges and no merge-hold label was seen, and it says that it
  would hand off exactly when the plan hands off or the merge hold could not be read.
\<close>

theorem preview_reports_the_plan:
  assumes "decide_merge rd (gather_holds ac ps view pr issue sm rd st) = Inr plan"
    and "preview_final_of ac ps view pr issue sm rd st = Inr p"
  shows "pf_escalated_hold p = mp_escalated_hold plan \<and> pf_requeues p = mp_requeues plan \<and>
    pf_requeue_capped p = mp_requeue_capped plan \<and> pf_human_block p = mp_human_block plan \<and>
    pf_human_block_unavailable p = mp_human_block_unavailable plan \<and>
    (preview_rule p = Says_merge \<longleftrightarrow> mp_action_merge plan \<and> \<not> pf_merge_hold p) \<and>
    (preview_rule p = Says_hand_off \<longleftrightarrow>
       mp_action_hand_off plan \<or>
       mp_merge_hold_unavailable plan \<and> \<not> mp_human_block plan \<and>
       \<not> mp_human_block_unavailable plan \<and> \<not> mp_requeue_capped plan)"
proof -
  let ?h = "gather_holds ac ps view pr issue sm rd st"
  let ?p = "preview_holds ac ps view pr issue sm rd st"
  from assms(1) obtain hb re rg deb where d: "human_block_gate (snd (merge_entry rd ?h)) ?h = Inr hb"
    "mergequeue_re_add_pending rd ?h = Inr re" "requeue_gate rd ?h re = Inr rg"
    "plan = merge_plan_of rd ?h hb re rg deb"
    by (rule decide_mergeE)
  from assms(2) obtain re' rg' where q: "mergequeue_re_add_pending rd ?p = Inr re'"
    "requeue_gate rd ?p re' = Inr rg'"
    "pf_readiness p = rd" "pf_config p = ac_merge ac" "pf_should_merge p = sm"
    "pf_escalated_hold p = fst (merge_entry rd ?p)" "pf_merge_hold p = (hf_merge_hold ?p = Some True)"
    "pf_merge_hold_unavailable p = hf_merge_hold_unavailable ?p"
    "pf_requeues p = rg_requeues rg'" "pf_requeue_capped p = rg_capped rg'"
    "pf_human_block p = (hf_human_block ?p = Some True)"
    "pf_human_block_unavailable p = hf_human_block_unavailable ?p"
    by (rule preview_finalE)
  have hb: "hg_blocked hb = (hf_human_block ?h = Some True)"
      "hg_unavailable hb = hf_human_block_unavailable ?h"
    using gate_of_holds [OF d(1)] block_was_needed by blast+
  have en: "merge_entry rd ?p = merge_entry rd ?h"
    by (simp only: preview_holds_entry gather_holds_entry)
  have clear: "preview_clear p \<longleftrightarrow> snd (merge_entry rd ?h) \<and> hf_merge_hold ?p \<noteq> Some True \<and>
      hf_human_block ?p \<noteq> Some True \<and> \<not> hf_human_block_unavailable ?p"
    using q(3-12) by (auto simp: preview_clear_def en entry_exact [of rd ?h, unfolded gather_holds_simps])
  have hold: "snd (merge_entry rd ?h) \<Longrightarrow> hf_merge_hold ?p \<noteq> Some True \<Longrightarrow> hf_merge_hold ?p = Some False"
      "hf_merge_hold_unavailable ?p \<Longrightarrow> hf_merge_hold ?p \<noteq> Some True"
    using preview_hold_read [where h = ?p and rd = rd, OF refl] by (auto simp: en)
  show ?thesis
  proof (cases "truthy (cfg_mergequeue_label (ac_merge ac))")
    case True
    note same = preview_holds_queue [OF this, of ps view pr issue sm rd st]
    have "re' = re" "rg' = rg"
      using d(2,3) q(1,2) by (auto simp: same)
    moreover note re_add_exact [OF d(2,1), unfolded gather_holds_simps held_def hb]
    ultimately have "preview_rule p = Says_merge \<longleftrightarrow> mp_action_merge plan \<and> \<not> pf_merge_hold p"
      and "preview_rule p = Says_hand_off \<longleftrightarrow> mp_action_hand_off plan \<or>
       mp_merge_hold_unavailable plan \<and> \<not> mp_human_block plan \<and>
       \<not> mp_human_block_unavailable plan \<and> \<not> mp_requeue_capped plan"
      using hold True unfolding says_merge_iff says_hand_off_iff clear d(4) plan_of_simps
        merge_hold_read_needed_def gather_holds_simps same held_def hb q(4,7,10) \<open>rg' = rg\<close> by auto
    then show ?thesis
      using q \<open>rg' = rg\<close> hb by (simp add: d(4) plan_of_escalated same)
  next
    case False
    from preview_holds_plain [OF this] obtain a b
      where ab: "?p = ?h\<lparr> hf_merge_hold := a, hf_merge_hold_unavailable := b \<rparr>"
      by metis
    have "re' = re"
      using d(2) q(1) False by (simp add: mergequeue_re_add_pending_def merge_hold_read_needed_def ab)
    moreover have "\<not> re"
      using d(2) False by (simp add: mergequeue_re_add_pending_def merge_hold_read_needed_def)
    moreover have "rg_capped rg' = rg_capped rg" "rg_requeues rg' = rg_requeues rg" "\<not> rg_capped rg"
      using requeue_gate_plain [of ?h, OF _ d(3)] requeue_gate_plain [of ?p, OF _ q(2)] False \<open>re' = re\<close>
      by simp_all
    moreover have "hf_human_block ?p = hf_human_block ?h"
        "hf_human_block_unavailable ?p = hf_human_block_unavailable ?h"
      by (simp_all add: ab)
    ultimately show ?thesis
      using False
      unfolding says_merge_iff says_hand_off_iff clear d(4) plan_of_simps plan_of_escalated held_def
        merge_hold_read_needed_def gather_holds_simps hb q(4,6-12) en by auto
  qed
qed

text \<open>
  The rule for an unreadable merge hold is never reached: such a preview says that it would hand off.
\<close>

lemma merge_hold_unknown_is_never_said:
  assumes "preview_final_of ac ps view pr issue sm rd st = Inr p"
  shows "preview_rule p \<noteq> Says_merge_hold_unknown"
proof -
  let ?p = "preview_holds ac ps view pr issue sm rd st"
  from assms obtain re' rg' where q:
    "pf_readiness p = rd" "pf_should_merge p = sm"
    "pf_escalated_hold p = fst (merge_entry rd ?p)" "pf_merge_hold p = (hf_merge_hold ?p = Some True)"
    "pf_merge_hold_unavailable p = hf_merge_hold_unavailable ?p"
    by (rule preview_finalE)
  show ?thesis
    using preview_hold_read [where h = ?p and rd = rd, OF refl] entry_exact [of rd ?p] q
    by (auto simp: preview_rule_def Let_def)
qed

section \<open>A promise to merge is kept\<close>

lemma preview_block:
  assumes "snd (merge_entry rd (preview_holds ac ps view pr issue sm rd st))" and "cfg_honor_human_block (ac_merge ac)"
  shows "hf_human_block (preview_holds ac ps view pr issue sm rd st) =
      Some (hb_blocked (gather_human_block (ac_verdict_patterns ac) (ps_comments ps) view))"
    and "hf_human_block_unavailable (preview_holds ac ps view pr issue sm rd st) =
      hb_unavailable (gather_human_block (ac_verdict_patterns ac) (ps_comments ps) view)"
proof -
  let ?h0 = "holds_from_snapshot st (ac_merge ac) pr issue sm (pv_head view)"
  have "snd (merge_entry rd ?h0)" "hf_config ?h0 = ac_merge ac"
    using assms(1) unfolding preview_holds_entry by (simp_all add: holds_from_snapshot_def)
  then show "hf_human_block (preview_holds ac ps view pr issue sm rd st) =
      Some (hb_blocked (gather_human_block (ac_verdict_patterns ac) (ps_comments ps) view))"
    and "hf_human_block_unavailable (preview_holds ac ps view pr issue sm rd st) =
      hb_unavailable (gather_human_block (ac_verdict_patterns ac) (ps_comments ps) view)"
    using assms(2) by (simp_all add: preview_holds_def with_human_block_def human_block_read_needed_def entry_needs Let_def)
qed

text \<open>The stages behind a final report.\<close>

lemma preview_final_stages:
  assumes "preview_merge_ready ac ps pr merge th st = Preview_final p" and "ps_pr_view ps = Some view"
  obtains op f g where "pe_status (pr_of st pr) \<noteq> Some ''merged''"
    "gather_opening (ac_merge ac) ps pr (pr_of st pr) None True view = Inr op"
    "gather_branch False ac ps pr th op st = Inr (f, g)"
    "bg_stop g \<notin> {Some Conflict_cap_exceeded, Some Not_train_head, Some Stale_base}"
    "preview_final_of ac ps view pr (ps_linked_issue ps) (resolve_merge (ac_merge ac) merge)
       (decide_readiness (re_fromiso (ps_env ps))
         (readiness_facts_of ps pr op g (gather_revert ps op g) None None
           (human_merge_hold_check (cfg_human_merge_labels (ac_merge ac)) (ps_linked_issue ps)
             (ps_human_issue ps)))) st = Inr p"
proof -
  from assms obtain op where o: "pe_status (pr_of st pr) \<noteq> Some ''merged''"
      "gather_opening (ac_merge ac) ps pr (pr_of st pr) None True view = Inr op"
      "preview_from_branch ac ps pr merge th op st = Preview_final p"
    by (auto simp: preview_merge_ready_def Let_def split: if_splits sum.splits)
  note po = preview_opening(1,2) [OF o(2)]
  obtain f g where fg: "gather_branch False ac ps pr th op st = Inr (f, g)"
    using preview_branch_total [OF preview_opening(3) [OF o(2)]] by (metis surj_pair)
  note r = o(3) [unfolded preview_from_branch_def Let_def fg po, simplified]
  show thesis
    by (rule that [OF o(1,2) fg]) (use r in \<open>auto split: if_splits sum.splits\<close>)
qed

lemma stop_cases:
  "x \<notin> conflict_stops \<Longrightarrow> x \<notin> {Some Conflict_cap_exceeded, Some Not_train_head, Some Stale_base} \<Longrightarrow> x = None"
  by (cases x; cases "the x") (auto simp: conflict_stops_def)

text \<open>
  C14. A dry run that says it would merge is right, over the same reads and the same state, when the
  decision is an approval recorded for the head the dry run observed, the comparison shows the branch current, the
  pull request is the train's head where the train is on, and the merge command answers: the pass then merges the
  pull request. An approval carried from an earlier head and a branch that is behind or could not be compared,
  for which the dry run may say the same, are outside of it.
\<close>

theorem preview_promise_kept:
  assumes "preview_merge_ready ac ps pr merge th st = Preview_final p" and "preview_rule p = Says_merge"
    and "ps_pr_view ps = Some view" and "ps_decision ps = (Some ''approved'', pv_head view)"
    and "pv_head view \<noteq> None" and "is_base_current (ac_default_branch ac) (ps_compare ps) view = Some True"
    and "cfg_update_branch_strategy (ac_merge ac) = ''front_of_train'' \<longrightarrow> th = Some pr"
    and "ps_merge_output ps = Some out"
  shows "\<exists>plan r acc err st' fx. run_merge_ready ac ps pr merge th st = (Pass_final plan r acc err, st', fx) \<and>
    E_merge pr \<in> set fx \<and> pe_status (pr_of st' pr) = Some ''merged''"
proof -
  let ?hm = "human_merge_hold_check (cfg_human_merge_labels (ac_merge ac)) (ps_linked_issue ps) (ps_human_issue ps)"
  obtain op f g where s: "pe_status (pr_of st pr) \<noteq> Some ''merged''"
    "gather_opening (ac_merge ac) ps pr (pr_of st pr) None True view = Inr op"
    "gather_branch False ac ps pr th op st = Inr (f, g)"
    "bg_stop g \<notin> {Some Conflict_cap_exceeded, Some Not_train_head, Some Stale_base}"
    "preview_final_of ac ps view pr (ps_linked_issue ps) (resolve_merge (ac_merge ac) merge)
       (decide_readiness (re_fromiso (ps_env ps))
         (readiness_facts_of ps pr op g (gather_revert ps op g) None None ?hm)) st = Inr p"
    using preview_final_stages [OF assms(1,3)] by metis
  note o = preview_opening [OF s(2)]
  define rf where "rf = readiness_facts_of ps pr op g (gather_revert ps op g) None None ?hm"
  define rd where "rd = decide_readiness (re_fromiso (ps_env ps)) rf"
  let ?p = "preview_holds ac ps view pr (ps_linked_issue ps) (resolve_merge (ac_merge ac) merge) rd st"
  have app: "adm_approved (op_admission op)"
  proof -
    have "vf_approved (af_verdict (op_facts op))" "\<not> is_head_moved (af_verdict (op_facts op)) (af_live_head (op_facts op))"
        "\<not> (case af_persisted (op_facts op) of None \<Rightarrow> False | Some p \<Rightarrow> pp_status p = Some ''merged'')"
      using s(1) assms(4,5) unfolding o(4-6)
      by (auto simp: verdict_of_def verdict_fact_of_def is_head_moved_def persisted_from_def)
    with o(7,8) have "op_admission op = (admission_base (op_facts op))\<lparr>adm_head_moved := False\<rparr>"
      by (simp add: decide_admission_def Let_def)
    then show ?thesis
      using \<open>vf_approved (af_verdict (op_facts op))\<close> by simp
  qed
  obtain f' where b: "decide_branch f' (Some Not_attempted) = Inr g" "bf_admission f' = op_admission op"
      "bf_merge_conflict f' = is_merge_conflict view"
      "bf_conflict_cap_stop f' = conflict_cap_stop (Some (persisted_from (pr_of st pr))) (pv_head view)"
      "bg_stop g = None"
  proof (rule preview_branch_cases [OF app o(3), where pr = pr and th = th and ps = ps and st = st])
    fix f1 g1
    assume "gather_branch False ac ps pr th op st = Inr (f1, g1)" "bg_stop g1 \<noteq> None"
      "False \<or> bg_stop g1 \<notin> conflict_stops"
    with s(3,4) show thesis
      using stop_cases [of "bg_stop g"] by auto
  next
    fix f1 g1
    assume a: "gather_branch False ac ps pr th op st = Inr (f1, g1)"
      "decide_branch f1 (Some Not_attempted) = Inr g1" "bf_admission f1 = op_admission op"
      "bf_merge_conflict f1 = is_merge_conflict (op_pr op)"
      "bf_conflict_cap_stop f1 = conflict_cap_stop (af_persisted (op_facts op)) (af_live_head (op_facts op))"
      "False \<or> bg_stop g1 \<notin> conflict_stops"
    have "bg_stop g1 = None"
      using a(1,6) s(3,4) stop_cases [of "bg_stop g"] by auto
    with a s(3) o show thesis
      by (intro that [of f1]) auto
  qed
  note ba = branch_approved [OF b(1) decide_branch_kind [OF b(1,5)], unfolded b(2-4), OF app]
  note nr = branch_second_call [OF b(1)]
  have q: "preview_clear p" "\<not> truthy (cfg_mergequeue_label (pf_config p))"
    using assms(2) by (simp_all add: says_merge_iff)
  from s(5) [folded rf_def, folded rd_def] obtain re rg where
    pf: "pf_readiness p = rd" "pf_config p = ac_merge ac" "pf_should_merge p = resolve_merge (ac_merge ac) merge"
    "pf_escalated_hold p = fst (merge_entry rd ?p)"
    "pf_human_block p = (hf_human_block ?p = Some True)"
    "pf_human_block_unavailable p = hf_human_block_unavailable ?p"
    by (rule preview_finalE)
  note c = q(1) [unfolded preview_clear_def pf]
  have cm: "ready (rf_checks rf)" "\<not> bg_sync_failed g" "fst (gather_revert ps op g) = Clean"
    using c app ba(1) unfolding rd_def readiness_can_merge
    by (auto simp: rf_def readiness_facts_of_def Let_def)
  have en: "snd (merge_entry rd ?p)"
    using c unfolding entry_exact [of rd ?p] preview_holds_simps by blast
  have esc: "escalation_from st pr (ps_linked_issue ps) = (False, False)"
    using en unfolding preview_holds_entry
    by (auto simp: merge_entry_def holds_from_snapshot_def prod_eq_iff Let_def)
  have "green_pass ac ps pr merge th st view"
    unfolding green_pass_def
  proof (intro conjI)
    show "pe_status (pr_of st pr) \<notin> {Some ''merged'', Some ''escalated''}"
      using s(1) esc by (simp add: escalation_from_def escalation_flags_def)
    show "\<forall>n. ps_linked_issue ps = Some n \<longrightarrow> ie_status (issue_of st n) \<noteq> Some ''escalated''"
      using esc by (auto simp: escalation_from_def escalation_flags_def)
    show "\<not> is_merge_conflict view"
      using ba(2) nr cm(2) by blast
    show "\<not> conflict_cap_stop (Some (persisted_from (pr_of st pr))) (pv_head view)"
      using ba(5) .
    show "ps_revert_status ps = Some Clean" and "\<not> ps_revert_blocks ps"
      using cm(2,3) app by (auto simp: gather_revert_def Let_def split: option.splits if_splits)
    show "ready (summarize_checks (ps_checks ps) (cfg_required_checks (ac_merge ac)))"
      using cm(1) o(3) by (simp add: rf_def readiness_facts_of_def Let_def)
    show "?hm = (False, False)"
      using c by (auto simp: rd_def rf_def readiness_facts_of_def prod_eq_iff Let_def)
    show "cfg_honor_human_block (ac_merge ac) \<longrightarrow>
        \<not> hb_blocked (gather_human_block (ac_verdict_patterns ac) (ps_comments ps) view) \<and>
        \<not> hb_unavailable (gather_human_block (ac_verdict_patterns ac) (ps_comments ps) view)"
      using c preview_block [OF en] by auto
  qed (use assms(3-7) c in simp_all)
  from green_pass_runs [OF this _ assms(8)] q(2) pf(2) show ?thesis
    by metis
qed


lemma sample_preview:
  "\<exists>p. preview_merge_ready (sample_app sample_config) (labelled_reads []) 12 None None empty_lane =
     Preview_final p \<and> preview_rule p = Says_merge"
proof -
  have "case preview_merge_ready (sample_app sample_config) (labelled_reads []) 12 None None empty_lane of
      Preview_final p \<Rightarrow> preview_rule p = Says_merge | _ \<Rightarrow> False"
    by code_simp
  then show ?thesis
    by (auto split: preview_result.splits)
qed

theorem preview_promise_kept_witness:
  "\<exists>plan r acc err st' fx. run_merge_ready (sample_app sample_config) (labelled_reads []) 12 None None empty_lane =
      (Pass_final plan r acc err, st', fx) \<and>
    E_merge 12 \<in> set fx \<and> pe_status (pr_of st' 12) = Some ''merged''"
proof -
  obtain p where p: "preview_merge_ready (sample_app sample_config) (labelled_reads []) 12 None None empty_lane =
      Preview_final p" "preview_rule p = Says_merge"
    using sample_preview by blast
  show ?thesis
    by (rule preview_promise_kept [OF p, of "sample_view ''abc'' []" "''merged #12''"])
      (simp_all add: labelled_reads_def sample_reads_def sample_view_def sample_app_def sample_config_def
        is_base_current_def)
qed

text \<open>A queue pass whose issue could not be read: the plan holds, the preview says that it would hand off.\<close>

definition unread_hold :: pass_reads where
  "unread_hold = (labelled_reads [])\<lparr> ps_hold_issue := Issue_error \<rparr>"

lemma sample_unread_hold:
  "case decide_merge (sample_readiness True False) (gather_holds (sample_app queue_config) unread_hold
      (sample_view ''abc'' []) 12 (Some 7) True (sample_readiness True False) empty_lane) of
     Inl _ \<Rightarrow> False
   | Inr plan \<Rightarrow>
       (case preview_final_of (sample_app queue_config) unread_hold (sample_view ''abc'' []) 12 (Some 7) True
            (sample_readiness True False) empty_lane of
          Inl _ \<Rightarrow> False
        | Inr p \<Rightarrow> mp_merge_hold_unavailable plan \<and> \<not> mp_human_block plan \<and>
            \<not> mp_human_block_unavailable plan \<and> \<not> mp_requeue_capped plan \<and>
            \<not> mp_action_hand_off plan)"
  by code_simp

theorem preview_reports_the_plan_witness:
  "\<exists>plan p. decide_merge (sample_readiness True False) (gather_holds (sample_app queue_config) unread_hold
      (sample_view ''abc'' []) 12 (Some 7) True (sample_readiness True False) empty_lane) = Inr plan \<and>
    preview_final_of (sample_app queue_config) unread_hold (sample_view ''abc'' []) 12 (Some 7) True
      (sample_readiness True False) empty_lane = Inr p \<and>
    \<not> mp_action_hand_off plan \<and> preview_rule p = Says_hand_off"
proof -
  obtain plan p where s: "decide_merge (sample_readiness True False) (gather_holds (sample_app queue_config)
      unread_hold (sample_view ''abc'' []) 12 (Some 7) True (sample_readiness True False) empty_lane) = Inr plan"
    "preview_final_of (sample_app queue_config) unread_hold (sample_view ''abc'' []) 12 (Some 7) True
      (sample_readiness True False) empty_lane = Inr p"
    "mp_merge_hold_unavailable plan" "\<not> mp_human_block plan" "\<not> mp_human_block_unavailable plan"
    "\<not> mp_requeue_capped plan" "\<not> mp_action_hand_off plan"
    using sample_unread_hold by (auto split: sum.splits)
  from preview_reports_the_plan [OF s(1,2)] s show ?thesis
    by blast
qed

end
