(* ===== verification/Sweep_Model.thy ===== *)
theory Sweep_Model
  imports Json
begin

text \<open>
  The types of the dead-worker sweep (\<^verbatim>\<open>dead_worker_sweep/model.py\<close>): the facts a decision reads, the
  requests it may put to the shell with their results, the commits it decides, and what one phase
  hands to the next.

  A state entry is the JSON object of \<^verbatim>\<open>state.json\<close>; the tables of issues and pull requests are
  association lists in the order of the file, keyed by number. An instant is a number of
  microseconds in UTC. A dictionary the flows only look a number up in is an association list too.
\<close>

section \<open>Facts\<close>

datatype phase = Pre_phase | Lock_phase | Post_phase

record repo_facts =
  rp_has_root :: bool
  rp_has_worktrees :: bool
  rp_root_is_path :: bool

record sweep_config =
  sc_active :: "string list"
  sc_ready :: string
  sc_pre_review_stale_minutes :: int
  sc_reap_minutes :: int
  sc_redispatch_window :: int
  sc_max_redispatch :: int
  sc_outcome_every_route :: bool

text \<open>The part of \<^verbatim>\<open>state.json\<close> a sweep reads; an entry that is no object is another JSON value.\<close>

record sweep_state =
  ss_issues :: "(int \<times> json) list"
  ss_prs :: "(int \<times> json_dict) list"
  ss_throttled_until :: json
  ss_applied_heads :: "(int \<times> string) list"

record sweep_facts =
  sf_phase :: phase
  sf_now :: int
  sf_stamp :: string
  sf_config :: sweep_config
  sf_snapshot :: sweep_state
  sf_locked :: sweep_state
  sf_pid_alive :: "(int \<times> bool) list"
  sf_repo :: repo_facts
  sf_review_available :: bool

section \<open>What a request answers with\<close>

record pull_row =
  pw_number :: int
  pw_head_ref :: "string option"
  pw_head_oid :: "string option"
  pw_cross_repository :: bool
  pw_mergeable :: "string option"
  pw_merge_state :: "string option"
  pw_rollup :: "bool option"
  pw_updated_at :: "string option"

record live_candidate =
  lc_branch :: string
  lc_outcome_at :: string
  lc_worker_pid :: json
  lc_outcome_age :: int

text \<open>\<open>fa_outcome\<close> is the raw outcome file of the worker, if it is an object.\<close>

record fate_result =
  fa_branch :: string
  fa_blocked_escalatable :: bool
  fa_blocked_reason_kind :: string
  fa_blocked_detail :: string
  fa_throttled :: bool
  fa_verified_no_changes :: bool
  fa_pushed_without_pr :: bool
  fa_outcome :: "json_dict option"

record verified_close =
  vc_ok :: bool
  vc_removed :: "string list"
  vc_reason :: "string option"

text \<open>What a reclaim left: the three fields of every one, and those of a failed salvage.\<close>

record reclaim =
  rc_removed :: "string list"
  rc_added_ready :: bool
  rc_write_ok :: bool
  rc_extra :: json_dict

record backstop_result =
  br_deferred :: "(int \<times> string) list"
  br_reclaims :: "(int \<times> reclaim) list"

record salvage_result =
  sv_pushed :: bool
  sv_old_sha :: "string option"
  sv_new_sha :: "string option"
  sv_commits :: "int option"
  sv_error :: "string option"

record remote_probe =
  rb_ahead :: "int option"
  rb_ahead_error :: "string option"
  rb_head :: "string option"

record review_facts =
  rd_verdict :: "string option"
  rd_stale :: bool
  rd_missing :: bool
  rd_reviewed_head :: "string option"

record pr_open_result =
  po_number :: "int option"
  po_error :: "string option"

record credit_result =
  cr_kind :: "string option"
  cr_throttled_until :: json

record terminal_facts =
  tf_exit :: json
  tf_duration :: json

record review_result =
  rr_ok :: bool
  rr_routed_to_rework :: bool
  rr_closed_converged :: bool
  rr_deferred_live_worker :: bool
  rr_no_op_rework :: bool
  rr_raised :: "string option"
  rr_entry_status :: json
  rr_reviewed_head :: "string option"
  rr_entry_branch :: "string option"

section \<open>Requests\<close>

datatype fetch_lane = Lane_no_pr | Lane_unreviewed | Lane_live_handoff

datatype fate_stage = Stage_no_pr | Stage_pushed "string option" "int option"

datatype strip_kind = Strip_blocked | Strip_zero_artifact | Strip_cross_repo

datatype review_stage = Stage_pre_review | Stage_unreviewed | Stage_lock

datatype pr_source = Pushed_orphan | Live_handoff

record no_op_route =
  nr_issue :: int
  nr_pr :: int
  nr_live_head :: "string option"
  nr_reason :: string
  nr_branch :: json

record guarded_update =
  gu_issue :: int
  gu_set :: json_dict
  gu_stamp_fields :: "string list"
  gu_require_status :: "string option"
  gu_require_head :: "string option"
  gu_event :: "(string \<times> json_dict) option"

datatype request =
  Read_clock
| Collect_live_handoff
| Fetch_open_prs
| Fetch_open_issues fetch_lane
| Resolve_fate int fate_stage
| Strip_and_flag int strip_kind
| Close_verified_no_changes int string
| Probe_zero_artifact int
| Probe_cross_repo_scope int
| Park_or_reclaim int
| Park_backstop "int list" "int list"
| Salvage_push int string
| Probe_remote_branch int string
| Probe_worktree_head int string
| Read_review_decision int "string option" review_stage
| Fetch_pr_view int
| Open_pr_for_branch int string pr_source
| Advance_to_pr_open int
| Credit_dead_worker int bool json "int option"
| Exempt_throttle_clean_exit int json "int option"
| Read_terminal int
| Read_completed_outcome int int string string
| Read_blocked_outcome int
| Apply_outcomes "(int \<times> int) list"
| Read_applied_heads int
| Review int int string
| Guarded_update guarded_update
| Drain_no_op "no_op_route list"

text \<open>
  The results, one constructor for each type a handler returns. An object that a handler reads from a
  file is its JSON dictionary.
\<close>

datatype response =
  R_time int
| R_live "(int \<times> live_candidate) list"
| R_prs "(int \<times> pull_row) list"
| R_issues "(int \<times> string list) list"
| R_fate fate_result
| R_label_write bool
| R_verified verified_close
| R_bool bool
| R_scope bool "string option"
| R_backstop backstop_result
| R_salvage salvage_result
| R_probe remote_probe
| R_sha "string option"
| R_review_facts review_facts
| R_pr_view "pull_row option"
| R_pr_open pr_open_result
| R_credit credit_result
| R_terminal terminal_facts
| R_outcome "json_dict option"
| R_heads "(int \<times> string) list"
| R_review review_result

text \<open>The result type of each handler (\<^verbatim>\<open>HANDLERS\<close>).\<close>

fun answers :: "request \<Rightarrow> response \<Rightarrow> bool" where
  "answers Read_clock r = (case r of R_time _ \<Rightarrow> True | _ \<Rightarrow> False)"
| "answers Collect_live_handoff r = (case r of R_live _ \<Rightarrow> True | _ \<Rightarrow> False)"
| "answers Fetch_open_prs r = (case r of R_prs _ \<Rightarrow> True | _ \<Rightarrow> False)"
| "answers (Fetch_open_issues _) r = (case r of R_issues _ \<Rightarrow> True | _ \<Rightarrow> False)"
| "answers (Resolve_fate _ _) r = (case r of R_fate _ \<Rightarrow> True | _ \<Rightarrow> False)"
| "answers (Strip_and_flag _ _) r = (case r of R_label_write _ \<Rightarrow> True | _ \<Rightarrow> False)"
| "answers (Close_verified_no_changes _ _) r = (case r of R_verified _ \<Rightarrow> True | _ \<Rightarrow> False)"
| "answers (Probe_zero_artifact _) r = (case r of R_bool _ \<Rightarrow> True | _ \<Rightarrow> False)"
| "answers (Probe_cross_repo_scope _) r = (case r of R_scope _ _ \<Rightarrow> True | _ \<Rightarrow> False)"
| "answers (Park_or_reclaim _) r = (case r of R_bool _ \<Rightarrow> True | _ \<Rightarrow> False)"
| "answers (Park_backstop _ _) r = (case r of R_backstop _ \<Rightarrow> True | _ \<Rightarrow> False)"
| "answers (Salvage_push _ _) r = (case r of R_salvage _ \<Rightarrow> True | _ \<Rightarrow> False)"
| "answers (Probe_remote_branch _ _) r = (case r of R_probe _ \<Rightarrow> True | _ \<Rightarrow> False)"
| "answers (Probe_worktree_head _ _) r = (case r of R_sha _ \<Rightarrow> True | _ \<Rightarrow> False)"
| "answers (Read_review_decision _ _ _) r = (case r of R_review_facts _ \<Rightarrow> True | _ \<Rightarrow> False)"
| "answers (Fetch_pr_view _) r = (case r of R_pr_view _ \<Rightarrow> True | _ \<Rightarrow> False)"
| "answers (Open_pr_for_branch _ _ _) r = (case r of R_pr_open _ \<Rightarrow> True | _ \<Rightarrow> False)"
| "answers (Advance_to_pr_open _) r = (case r of R_bool _ \<Rightarrow> True | _ \<Rightarrow> False)"
| "answers (Credit_dead_worker _ _ _ _) r = (case r of R_credit _ \<Rightarrow> True | _ \<Rightarrow> False)"
| "answers (Exempt_throttle_clean_exit _ _ _) r = (case r of R_credit _ \<Rightarrow> True | _ \<Rightarrow> False)"
| "answers (Read_terminal _) r = (case r of R_terminal _ \<Rightarrow> True | _ \<Rightarrow> False)"
| "answers (Read_completed_outcome _ _ _ _) r = (case r of R_outcome _ \<Rightarrow> True | _ \<Rightarrow> False)"
| "answers (Read_blocked_outcome _) r = (case r of R_outcome _ \<Rightarrow> True | _ \<Rightarrow> False)"
| "answers (Apply_outcomes _) r = (case r of R_bool _ \<Rightarrow> True | _ \<Rightarrow> False)"
| "answers (Read_applied_heads _) r = (case r of R_heads _ \<Rightarrow> True | _ \<Rightarrow> False)"
| "answers (Review _ _ _) r = (case r of R_review _ \<Rightarrow> True | _ \<Rightarrow> False)"
| "answers (Guarded_update _) r = (case r of R_bool _ \<Rightarrow> True | _ \<Rightarrow> False)"
| "answers (Drain_no_op _) r = (case r of R_bool _ \<Rightarrow> True | _ \<Rightarrow> False)"

text \<open>\<^verbatim>\<open>LOCK_LEGAL\<close>, \<^verbatim>\<open>POST_LEGAL\<close> and \<^verbatim>\<open>PRE_LEGAL\<close>.\<close>

fun lock_legal :: "request \<Rightarrow> bool" where
  "lock_legal (Open_pr_for_branch _ _ _) = True"
| "lock_legal (Advance_to_pr_open _) = True"
| "lock_legal (Credit_dead_worker _ _ _ _) = True"
| "lock_legal (Exempt_throttle_clean_exit _ _ _) = True"
| "lock_legal (Read_terminal _) = True"
| "lock_legal (Read_completed_outcome _ _ _ _) = True"
| "lock_legal (Read_blocked_outcome _) = True"
| "lock_legal (Read_review_decision _ _ _) = True"
| "lock_legal _ = False"

fun post_legal :: "request \<Rightarrow> bool" where
  "post_legal (Apply_outcomes _) = True"
| "post_legal (Read_applied_heads _) = True"
| "post_legal (Review _ _ _) = True"
| "post_legal (Guarded_update _) = True"
| "post_legal (Drain_no_op _) = True"
| "post_legal _ = False"

fun is_review_read :: "request \<Rightarrow> bool" where
  "is_review_read (Read_review_decision _ _ _) = True"
| "is_review_read _ = False"

definition pre_legal :: "request \<Rightarrow> bool" where
  "pre_legal q \<longleftrightarrow> \<not> post_legal q \<and> (lock_legal q \<longrightarrow> is_review_read q)"

fun request_legal :: "phase \<Rightarrow> request \<Rightarrow> bool" where
  "request_legal Pre_phase q = pre_legal q"
| "request_legal Lock_phase q = lock_legal q"
| "request_legal Post_phase q = post_legal q"

section \<open>Commits\<close>

datatype bucket_name = Bucket_live_handoff | Bucket_no_pr | Bucket_swept

datatype label_edge = Edge_escalated | Edge_rework_requested

datatype commit =
  Emit string json_dict "string option" bool
| Update_issue int json_dict "string list"
| Escalate_entry int string string "int option" json_dict
| Report_stale_evidence bucket_name
| Route_pre_review_rework int int string
| Transition_label int label_edge bool

text \<open>\<^verbatim>\<open>LOCK_ILLEGAL_COMMITS\<close> and \<^verbatim>\<open>POST_ILLEGAL_COMMITS\<close> (\<^verbatim>\<open>apply_commits.py\<close>).\<close>

fun commit_legal :: "phase \<Rightarrow> commit \<Rightarrow> bool" where
  "commit_legal Lock_phase (Route_pre_review_rework _ _ _) = False"
| "commit_legal Lock_phase (Transition_label _ _ _) = False"
| "commit_legal Post_phase (Update_issue _ _ _) = False"
| "commit_legal Post_phase (Escalate_entry _ _ _ _ _) = False"
| "commit_legal Post_phase (Route_pre_review_rework _ _ _) = False"
| "commit_legal _ _ = True"

section \<open>What a phase hands on\<close>

record branch_detail =
  bd_labels :: "string list"
  bd_active :: "string list"
  bd_branch :: string
  bd_remote_head :: "string option"
  bd_local_head :: "string option"

record pushed_candidate =
  pc_branch :: string
  pc_reported :: bool
  pc_ahead :: "int option"
  pc_ahead_error :: "string option"

datatype pre_escalation =
  Esc_verified "string list" string
| Esc_blocked "string list" bool string string
| Esc_zero_artifact "string list" bool
| Esc_cross_repo "string list" bool "string option"

record review_route =
  vr_issue :: int
  vr_pr :: int
  vr_reviewed_head :: "string option"
  vr_live_head :: "string option"
  vr_fingerprint :: string
  vr_reason :: string
  vr_awaits_head :: bool

record pre_outcome =
  pre_orphans :: "int list"
  pre_no_pr :: "int list"
  pre_prs :: "(int \<times> pull_row) list"
  pre_details :: "(int \<times> branch_detail) list"
  pre_candidates :: "(int \<times> pushed_candidate) list"
  pre_escalations :: "(int \<times> pre_escalation) list"
  pre_deferred :: "(int \<times> string) list"
  pre_reclaims :: "(int \<times> reclaim) list"
  pre_unreviewed :: "(int \<times> string list) list"
  pre_live :: "(int \<times> live_candidate) list"
  pre_pr_already_open :: "(int \<times> live_candidate) list"
  pre_salvage_events :: "(string \<times> json_dict) list"
  pre_heads :: "(int \<times> string option) list"
  pre_early_exit :: bool
  pre_now :: int

record lock_outcome =
  lo_apply_routes :: "(int \<times> int) list"
  lo_review_routes :: "review_route list"
  lo_no_op_routes :: "no_op_route list"
  lo_escalations :: "int list"

end
