(* ===== verification/Replay_Flow.thy ===== *)
theory Replay_Flow
  imports Prelude
begin

text \<open>
  A decision as a flow: the Python generator that yields requests and commits and returns a value
  (\<^verbatim>\<open>decide_common.py\<close>). A flow is a tree: at a request it branches on the result that is sent back, at
  a commit it goes on with None, at the end it holds the value it returned; \<open>Raise\<close> is an exception.
  \<open>run_flow\<close> replays a flow against the results observed so far.
\<close>

section \<open>Flows\<close>

datatype (dead 'c, dead 'q, dead 'r, 'a) gen =
  Return 'a
| Commit 'c "('c, 'q, 'r, 'a) gen"
| Ask 'q "'r \<Rightarrow> ('c, 'q, 'r, 'a) gen"
| Raise

primrec bind_flow :: "('c, 'q, 'r, 'a) gen \<Rightarrow> ('a \<Rightarrow> ('c, 'q, 'r, 'b) gen) \<Rightarrow> ('c, 'q, 'r, 'b) gen" where
  "bind_flow (Return a) k = k a"
| "bind_flow (Commit c f) k = Commit c (bind_flow f k)"
| "bind_flow (Ask q f) k = Ask q (\<lambda>r. bind_flow (f r) k)"
| "bind_flow Raise k = Raise"

lemma bind_flow_return [simp]: "bind_flow f Return = f"
  by (induction f) (auto simp: fun_eq_iff)

lemma bind_flow_assoc: "bind_flow (bind_flow f k) l = bind_flow f (\<lambda>a. bind_flow (k a) l)"
  by (induction f) (auto simp: fun_eq_iff)

text \<open>
  \<^verbatim>\<open>x = yield request\<close>, where the flow goes on with the fields of a result of one type: on any other
  value the attribute access that follows raises.
\<close>

definition ask :: "'q \<Rightarrow> ('r \<Rightarrow> 'a option) \<Rightarrow> ('c, 'q, 'r, 'a) gen" where
  "ask q result = Ask q (\<lambda>r. case result r of None \<Rightarrow> Raise | Some a \<Rightarrow> Return a)"

definition commit_flow :: "'c \<Rightarrow> ('c, 'q, 'r, unit) gen" where
  "commit_flow c = Commit c (Return ())"

fun commit_all :: "'c list \<Rightarrow> 'a \<Rightarrow> ('c, 'q, 'r, 'a) gen" where
  "commit_all [] a = Return a"
| "commit_all (c # cs) a = Commit c (commit_all cs a)"

text \<open>A loop over a list with an accumulator.\<close>

fun loop_flow :: "('x \<Rightarrow> 's \<Rightarrow> ('c, 'q, 'r, 's) gen) \<Rightarrow> 'x list \<Rightarrow> 's \<Rightarrow> ('c, 'q, 'r, 's) gen" where
  "loop_flow body [] s = Return s"
| "loop_flow body (x # xs) s = bind_flow (body x s) (loop_flow body xs)"

section \<open>Replaying a flow\<close>

datatype ('q, 'a) gen_end = Finished 'a | Pending 'q | Raised

text \<open>\<^verbatim>\<open>run_flow\<close>: the commits up to the first request without a result, and that request.\<close>

primrec run_flow :: "('c, 'q, 'r, 'a) gen \<Rightarrow> ('q \<Rightarrow> 'r option) \<Rightarrow> ('q, 'a) gen_end \<times> 'c list" where
  "run_flow (Return a) obs = (Finished a, [])"
| "run_flow (Commit c f) obs = (case run_flow f obs of (e, cs) \<Rightarrow> (e, c # cs))"
| "run_flow (Ask q f) obs =
     (case obs q of None \<Rightarrow> (Pending q, []) | Some r \<Rightarrow> run_flow (f r) obs)"
| "run_flow Raise obs = (Raised, [])"

text \<open>A flow's bind runs its second part where the first one finishes.\<close>

lemma run_bind:
  "run_flow (bind_flow f k) obs =
     (case run_flow f obs of
        (Finished a, cs) \<Rightarrow> (case run_flow (k a) obs of (e, cs') \<Rightarrow> (e, cs @ cs'))
      | (Pending q, cs) \<Rightarrow> (Pending q, cs)
      | (Raised, cs) \<Rightarrow> (Raised, cs))"
  by (induction f) (auto split: option.split prod.split gen_end.split)

lemma run_pending: "run_flow f obs = (Pending q, cs) \<Longrightarrow> obs q = None"
  by (induction f arbitrary: cs) (auto split: option.splits prod.splits)

text \<open>More results: a run goes on where it stopped, behind the commits it has made.\<close>

lemma run_extends:
  assumes "obs \<subseteq>\<^sub>m obs'"
  shows "\<exists>cs. snd (run_flow f obs') = snd (run_flow f obs) @ cs"
proof (induction f)
  case (Ask q f)
  show ?case
  proof (cases "obs q")
    case (Some r)
    with assms have "obs' q = Some r"
      by (metis domI map_le_def)
    with Some Ask show ?thesis
      by simp
  qed simp
qed (auto split: prod.splits)

lemma run_finished_stays:
  assumes "run_flow f obs = (Finished a, cs)" and "obs \<subseteq>\<^sub>m obs'"
  shows "run_flow f obs' = (Finished a, cs)"
  using assms(1)
proof (induction f arbitrary: cs)
  case (Ask q f)
  then obtain r where r: "obs q = Some r" "run_flow (f r) obs = (Finished a, cs)"
    by (auto split: option.splits)
  with assms(2) have "obs' q = Some r"
    by (metis domI map_le_def)
  with r Ask.IH show ?case
    by simp
qed (auto split: prod.splits)

section \<open>What a flow asks, commits and returns\<close>

text \<open>
  A contract names the results a request may have, the requests a flow may put and the commits it may
  make. \<open>flow_sat\<close> is a flow that keeps a contract, asks at most \<open>n\<close> requests on any path, never
  raises and returns a value in \<open>P\<close>.
\<close>

record ('c, 'q, 'r) gen_contract =
  ct_result :: "'q \<Rightarrow> 'r \<Rightarrow> bool"
  ct_request :: "'q \<Rightarrow> bool"
  ct_commit :: "'c \<Rightarrow> bool"

primrec flow_sat :: "('c, 'q, 'r) gen_contract \<Rightarrow> ('a \<Rightarrow> bool) \<Rightarrow> ('c, 'q, 'r, 'a) gen \<Rightarrow> nat \<Rightarrow> bool" where
  "flow_sat ct P (Return a) n \<longleftrightarrow> P a"
| "flow_sat ct P (Commit c f) n \<longleftrightarrow> ct_commit ct c \<and> flow_sat ct P f n"
| "flow_sat ct P (Ask q f) n \<longleftrightarrow>
     ct_request ct q \<and> 0 < n \<and> (\<forall>r. ct_result ct q r \<longrightarrow> flow_sat ct P (f r) (n - 1))"
| "flow_sat ct P Raise n \<longleftrightarrow> False"

lemma flow_sat_mono:
  "flow_sat ct P f n \<Longrightarrow> (\<And>a. P a \<Longrightarrow> Q a) \<Longrightarrow> n \<le> m \<Longrightarrow> flow_sat ct Q f m"
proof (induction f arbitrary: n m)
  case (Ask q f)
  then show ?case
    by (simp, metis (no_types, lifting) diff_le_mono rangeI)
qed auto

lemma flow_sat_bind:
  assumes "flow_sat ct R f k"
    and "\<And>a. R a \<Longrightarrow> flow_sat ct P (g a) (n - k)"
    and "k \<le> n"
  shows "flow_sat ct P (bind_flow f g) n"
  using assms
proof (induction f arbitrary: k n)
  case (Return a)
  then have "flow_sat ct P (g a) (n - k)"
    by simp
  then show ?case
    by (auto intro: flow_sat_mono)
next
  case (Ask q f)
  have "flow_sat ct P (bind_flow (f r) g) (n - 1)" if "ct_result ct q r" for r
    by (rule Ask.IH [where k = "k - 1"]) (use Ask.prems that in \<open>auto simp: Suc_le_eq\<close>)
  with Ask.prems show ?case
    by simp
qed auto

lemma flow_sat_ask [simp]:
  "flow_sat ct P (bind_flow (ask q result) g) n \<longleftrightarrow>
     ct_request ct q \<and> 0 < n \<and>
     (\<forall>r. ct_result ct q r \<longrightarrow>
        (case result r of None \<Rightarrow> False | Some a \<Rightarrow> flow_sat ct P (g a) (n - 1)))"
  by (auto simp: ask_def split: option.split)

lemma flow_sat_ask_last [simp]:
  "flow_sat ct P (ask q result) n \<longleftrightarrow>
     ct_request ct q \<and> 0 < n \<and>
     (\<forall>r. ct_result ct q r \<longrightarrow> (case result r of None \<Rightarrow> False | Some a \<Rightarrow> P a))"
  by (auto simp: ask_def split: option.split)

lemma bind_commit_flow [simp]: "bind_flow (commit_flow c) g = Commit c (g ())"
  by (simp add: commit_flow_def)

lemma flow_sat_commit_flow [simp]: "flow_sat ct P (commit_flow c) n \<longleftrightarrow> ct_commit ct c \<and> P ()"
  by (simp add: commit_flow_def)

lemma flow_sat_commit_all [simp]:
  "flow_sat ct P (commit_all cs a) n \<longleftrightarrow> (\<forall>c \<in> set cs. ct_commit ct c) \<and> P a"
  by (induction cs) auto

text \<open>A loop with an invariant over the part of the list that is done.\<close>

lemma flow_sat_loop_prefix:
  assumes "\<And>ys x zs s. xs = ys @ x # zs \<Longrightarrow> I ys s \<Longrightarrow> flow_sat ct (I (ys @ [x])) (body x s) k"
    and "I [] s" and "length xs * k \<le> n"
  shows "flow_sat ct (I xs) (loop_flow body xs s) n"
proof -
  have "flow_sat ct (I xs) (loop_flow body zs s) n"
    if "xs = ys @ zs" "I ys s" "length zs * k \<le> n" for ys zs s n
    using that
  proof (induction zs arbitrary: ys s n)
    case (Cons x zs)
    have "flow_sat ct (I xs) (bind_flow (body x s) (loop_flow body zs)) n"
    proof (rule flow_sat_bind)
      show "flow_sat ct (I (ys @ [x])) (body x s) k"
        using assms(1) Cons.prems by blast
      show "flow_sat ct (I xs) (loop_flow body zs t) (n - k)" if "I (ys @ [x]) t" for t
        by (rule Cons.IH) (use Cons.prems that in auto)
      show "k \<le> n"
        using Cons.prems by simp
    qed
    then show ?case
      by simp
  qed simp
  from this [of "[]" xs s n] assms show ?thesis
    by simp
qed

lemma flow_sat_loop:
  assumes "\<And>x s. x \<in> set xs \<Longrightarrow> I s \<Longrightarrow> flow_sat ct I (body x s) k"
    and "I s" and "length xs * k \<le> n"
  shows "flow_sat ct I (loop_flow body xs s) n"
  using flow_sat_loop_prefix [where I = "\<lambda>_. I"] assms by (metis in_set_conv_decomp)

text \<open>What a run of such a flow commits and returns.\<close>

lemma flow_sat_run:
  assumes "flow_sat ct P f n" and "\<And>q r. obs q = Some r \<Longrightarrow> ct_result ct q r"
    and "run_flow f obs = (e, cs)"
  shows "(\<forall>c \<in> set cs. ct_commit ct c) \<and>
    (case e of Finished a \<Rightarrow> P a | Pending q \<Rightarrow> ct_request ct q | Raised \<Rightarrow> False)"
  using assms(1,3)
proof (induction f arbitrary: n e cs)
  case (Ask q f)
  show ?case
  proof (cases "obs q")
    case None
    with Ask.prems show ?thesis
      by auto
  next
    case (Some r)
    with Ask.prems assms(2) have "flow_sat ct P (f r) (n - 1)" "run_flow (f r) obs = (e, cs)"
      by auto
    with Ask.IH show ?thesis
      by blast
  qed
qed (auto split: prod.splits)

end
