(* ===== verification/Sweep_Flow.thy ===== *)
theory Sweep_Flow
  imports Sweep_Model Replay_Flow
begin

text \<open>
  The flows of the orphan sweep: \<open>Replay_Flow\<close> at its commits, requests and results, with the result each
  request of the sweep has.
\<close>

type_synonym 'a flow = "(commit, request, response, 'a) gen"
type_synonym 'a run_end = "(request, 'a) gen_end"
type_synonym observations = "request \<Rightarrow> response option"
type_synonym contract = "(commit, request, response) gen_contract"

section \<open>The results\<close>

fun time_of :: "response \<Rightarrow> int option" where
  "time_of (R_time t) = Some t" | "time_of _ = None"

fun live_of :: "response \<Rightarrow> (int \<times> live_candidate) list option" where
  "live_of (R_live x) = Some x" | "live_of _ = None"

fun prs_of :: "response \<Rightarrow> (int \<times> pull_row) list option" where
  "prs_of (R_prs x) = Some x" | "prs_of _ = None"

fun issues_of :: "response \<Rightarrow> (int \<times> string list) list option" where
  "issues_of (R_issues x) = Some x" | "issues_of _ = None"

fun fate_of :: "response \<Rightarrow> fate_result option" where
  "fate_of (R_fate x) = Some x" | "fate_of _ = None"

fun write_of :: "response \<Rightarrow> bool option" where
  "write_of (R_label_write x) = Some x" | "write_of _ = None"

fun verified_of :: "response \<Rightarrow> verified_close option" where
  "verified_of (R_verified x) = Some x" | "verified_of _ = None"

fun bool_of :: "response \<Rightarrow> bool option" where
  "bool_of (R_bool x) = Some x" | "bool_of _ = None"

fun scope_of :: "response \<Rightarrow> (bool \<times> string option) option" where
  "scope_of (R_scope p r) = Some (p, r)" | "scope_of _ = None"

fun backstop_of :: "response \<Rightarrow> backstop_result option" where
  "backstop_of (R_backstop x) = Some x" | "backstop_of _ = None"

fun salvage_of :: "response \<Rightarrow> salvage_result option" where
  "salvage_of (R_salvage x) = Some x" | "salvage_of _ = None"

fun probe_of :: "response \<Rightarrow> remote_probe option" where
  "probe_of (R_probe x) = Some x" | "probe_of _ = None"

fun sha_of :: "response \<Rightarrow> string option option" where
  "sha_of (R_sha x) = Some x" | "sha_of _ = None"

fun verdict_facts_of :: "response \<Rightarrow> review_facts option" where
  "verdict_facts_of (R_review_facts x) = Some x" | "verdict_facts_of _ = None"

fun pr_view_of :: "response \<Rightarrow> pull_row option option" where
  "pr_view_of (R_pr_view x) = Some x" | "pr_view_of _ = None"

fun pr_open_of :: "response \<Rightarrow> pr_open_result option" where
  "pr_open_of (R_pr_open x) = Some x" | "pr_open_of _ = None"

fun credit_of :: "response \<Rightarrow> credit_result option" where
  "credit_of (R_credit x) = Some x" | "credit_of _ = None"

fun terminal_of :: "response \<Rightarrow> terminal_facts option" where
  "terminal_of (R_terminal x) = Some x" | "terminal_of _ = None"

fun outcome_of :: "response \<Rightarrow> json_dict option option" where
  "outcome_of (R_outcome x) = Some x" | "outcome_of _ = None"

fun heads_of :: "response \<Rightarrow> (int \<times> string) list option" where
  "heads_of (R_heads x) = Some x" | "heads_of _ = None"

fun review_of :: "response \<Rightarrow> review_result option" where
  "review_of (R_review x) = Some x" | "review_of _ = None"

end
