(* ===== verification/Sweep_Common.thy ===== *)
theory Sweep_Common
  imports Sweep_Flow
begin

text \<open>
  The pure helpers of the sweep's flows (\<^verbatim>\<open>decide_common.py\<close>, \<^verbatim>\<open>decide_redispatch.py\<close> and the deferral
  counter of \<^verbatim>\<open>dead_dispatched_timer.py\<close>): drafts of state entries, drift fingerprints, the predicates
  that read a clock as an argument, and the cap on redispatches.
\<close>

section \<open>Drafts\<close>

record draft =
  dr_issue :: int
  dr_work :: json_dict
  dr_base :: json_dict
  dr_dead :: bool

definition new_draft :: "int \<Rightarrow> json_dict \<Rightarrow> draft" where
  "new_draft n entry = \<lparr> dr_issue = n, dr_work = entry, dr_base = entry, dr_dead = False \<rparr>"

definition dget :: "draft \<Rightarrow> string \<Rightarrow> json" where
  "dget d k = jget (dr_work d) k"

definition dset :: "draft \<Rightarrow> string \<Rightarrow> json \<Rightarrow> draft" where
  "dset d k v = d\<lparr> dr_work := jput (dr_work d) k v \<rparr>"

definition invalidate :: "draft \<Rightarrow> draft" where
  "invalidate d = d\<lparr> dr_dead := True \<rparr>"

text \<open>The accumulated difference; a key the base has and the work has not is a ValueError (None).\<close>

definition draft_diff :: "draft \<Rightarrow> json_dict" where
  "draft_diff d = filter (\<lambda>(k, v). map_of (dr_base d) k \<noteq> Some v) (dr_work d)"

definition take_draft :: "draft \<Rightarrow> (commit option \<times> draft) option" where
  "take_draft d =
     (if dr_dead d then Some (None, d)
      else if \<exists>k \<in> set (jkeys (dr_base d)). k \<notin> set (jkeys (dr_work d)) then None
      else Some (if draft_diff d = [] then None else Some (Update_issue (dr_issue d) (draft_diff d) []),
                 d\<lparr> dr_base := dr_work d \<rparr>))"

definition flush :: "draft \<Rightarrow> draft flow" where
  "flush d =
     (case take_draft d of
        None \<Rightarrow> Raise
      | Some (None, d') \<Rightarrow> Return d'
      | Some (Some c, d') \<Rightarrow> Commit c (Return d'))"

text \<open>\<^verbatim>\<open>yield emit(kind, payload)\<close>.\<close>

definition emit :: "string \<Rightarrow> json_dict \<Rightarrow> unit flow" where
  "emit kind payload = commit_flow (Emit kind payload None False)"

section \<open>Fingerprints\<close>

text \<open>\<^verbatim>\<open>json.dumps\<close> of a string: \<open>\u\<close> escapes beyond ASCII, read from the bytes of UTF-8.\<close>

definition hex_digit :: "nat \<Rightarrow> char" where
  "hex_digit n = (''0123456789abcdef'' ! (n mod 16))"

definition unicode_escape :: "nat \<Rightarrow> string" where
  "unicode_escape n =
     [CHR 0x5C, CHR ''u'', hex_digit (n div 4096), hex_digit (n div 256), hex_digit (n div 16), hex_digit n]"

definition ascii_escape :: "char \<Rightarrow> string" where
  "ascii_escape c =
     (let n = (of_char c :: nat)
      in if c = CHR 0x22 then [CHR 0x5C, CHR 0x22]
         else if c = CHR 0x5C then [CHR 0x5C, CHR 0x5C]
         else if n = 10 then [CHR 0x5C, CHR ''n'']
         else if n = 13 then [CHR 0x5C, CHR ''r'']
         else if n = 9 then [CHR 0x5C, CHR ''t'']
         else if n = 8 then [CHR 0x5C, CHR ''b'']
         else if n = 12 then [CHR 0x5C, CHR ''f'']
         else if n < 32 then unicode_escape n
         else [c])"

definition code_escape :: "nat \<Rightarrow> string" where
  "code_escape n =
     (if n < 65536 then unicode_escape n
      else unicode_escape (55296 + (n - 65536) div 1024) @ unicode_escape (56320 + (n - 65536) mod 1024))"

definition more_bits :: "nat \<Rightarrow> string \<Rightarrow> nat" where
  "more_bits lead cs = foldl (\<lambda>a c. 64 * a + of_char c mod 64) lead cs"

function json_chars :: "string \<Rightarrow> string" where
  "json_chars [] = []"
| "json_chars (c # cs) =
     (let n = (of_char c :: nat)
      in if n < 128 then ascii_escape c @ json_chars cs
         else if n < 224 then code_escape (more_bits (n mod 32) (take 1 cs)) @ json_chars (drop 1 cs)
         else if n < 240 then code_escape (more_bits (n mod 16) (take 2 cs)) @ json_chars (drop 2 cs)
         else code_escape (more_bits (n mod 8) (take 3 cs)) @ json_chars (drop 3 cs))"
  by pat_completeness auto
termination
  by (relation "measure length") auto

definition json_text :: "string \<Rightarrow> string" where
  "json_text s = [CHR 0x22] @ json_chars s @ [CHR 0x22]"

text \<open>\<^verbatim>\<open>drift_fingerprint\<close> of parts that are text or absent, or a number as its own text.\<close>

datatype part = Part_text "string option" | Part_number int

fun part_text :: "part \<Rightarrow> string" where
  "part_text (Part_text None) = ''null''"
| "part_text (Part_text (Some s)) = json_text s"
| "part_text (Part_number n) = int_str n"

definition drift_fingerprint :: "(string \<times> part) list \<Rightarrow> string" where
  "drift_fingerprint parts =
     ''{'' @ join '', '' (map (\<lambda>(k, v). json_text k @ '': '' @ part_text v) (sort_key fst parts)) @ ''}''"

section \<open>Predicates\<close>

definition provider_throttle_kinds :: "string list" where
  "provider_throttle_kinds = [''quota_exhausted'', ''rate_limited'', ''provider_auth'', ''harness_auth_failed'']"

text \<open>
  \<^verbatim>\<open>persisted_failure(entry).is_throttle\<close>. The membership test hashes the stored kind: a list or an
  object raises (None).
\<close>

definition failure_kind :: "json_dict \<Rightarrow> json" where
  "failure_kind entry = jget entry ''dead_worker_failure_kind''"

definition throttle_death :: "json_dict \<Rightarrow> bool option" where
  "throttle_death entry =
     (case failure_kind entry of
        JStr s \<Rightarrow> Some (s \<in> set provider_throttle_kinds)
      | JList _ \<Rightarrow> None
      | JObj _ \<Rightarrow> None
      | _ \<Rightarrow> Some False)"

text \<open>\<^verbatim>\<open>reap_due\<close>; None where the throttle test raises.\<close>

definition reap_due :: "time_io \<Rightarrow> json_dict \<Rightarrow> json \<Rightarrow> int \<Rightarrow> int \<Rightarrow> bool option" where
  "reap_due io entry throttled_until reap_minutes now =
     (let drift_at = jget entry ''orphan_drift_at'';
          drift = (if json_true drift_at then json_time io drift_at else None)
      in case drift of
           None \<Rightarrow> Some False
         | Some drifted \<Rightarrow>
             if reap_minutes \<le> 0 then Some False
             else (case throttle_death entry of
                     None \<Rightarrow> None
                   | Some False \<Rightarrow> Some (minutes reap_minutes \<le> now - drifted)
                   | Some True \<Rightarrow>
                       (case json_time io throttled_until of
                          None \<Rightarrow> Some (minutes reap_minutes \<le> now - drifted)
                        | Some until \<Rightarrow>
                            Some (until \<le> now \<and> minutes reap_minutes \<le> now - max drifted until))))"

text \<open>\<^verbatim>\<open>is_pre_review_rework_candidate\<close>.\<close>

definition is_pre_review_rework_candidate :: "iso_parser \<Rightarrow> pull_row \<Rightarrow> int \<Rightarrow> int \<Rightarrow> bool \<times> string" where
  "is_pre_review_rework_candidate fromiso pr stale_minutes now =
     (if upper (or_empty (pw_mergeable pr)) = ''CONFLICTING'' then (True, ''merge_conflict'')
      else if upper (or_empty (pw_merge_state pr)) = ''DIRTY'' then (True, ''rework_branch_conflict'')
      else if stale_minutes \<le> 0 then (False, [])
      else if pw_rollup pr \<noteq> Some False then (False, [])
      else if is_pr_updated_at_older_than fromiso (pw_updated_at pr) (Aware now) stale_minutes
      then (True, ''stale_empty_checks'')
      else (False, []))"

text \<open>
  \<^verbatim>\<open>windowed_orphan_redispatch_at\<close>: a stamp that is no text, does not parse or has no zone (which does
  not compare with the aware clock) is left out.
\<close>

definition in_window :: "iso_parser \<Rightarrow> int \<Rightarrow> json \<Rightarrow> string option" where
  "in_window fromiso start stamp =
     (case stamp of
        JStr s \<Rightarrow>
          (case fromiso (zulu s) of
             Some (Aware t) \<Rightarrow> if start \<le> t then Some s else None
           | _ \<Rightarrow> None)
      | _ \<Rightarrow> None)"

definition windowed_orphan_redispatch_at :: "iso_parser \<Rightarrow> json_dict \<Rightarrow> int \<Rightarrow> int \<Rightarrow> string list" where
  "windowed_orphan_redispatch_at fromiso entry window_minutes now =
     (case jget entry ''orphan_redispatch_at'' of
        JList xs \<Rightarrow> List.map_filter (in_window fromiso (now - minutes window_minutes)) xs
      | _ \<Rightarrow> [])"

section \<open>The redispatch cap\<close>

record redispatch_verdict =
  rv_exceeded :: bool
  rv_count :: int
  rv_history :: "string list"
  rv_head :: string
  rv_identity :: string

text \<open>\<^verbatim>\<open>a or 'none'\<close> of an optional text.\<close>

definition text_or_none :: "string option \<Rightarrow> string" where
  "text_or_none x = (if truthy x then or_empty x else ''none'')"

definition orphan_head_fingerprint :: "string option \<Rightarrow> string option \<Rightarrow> string" where
  "orphan_head_fingerprint remote local_sha = text_or_none remote @ '':'' @ text_or_none local_sha"

definition dispatch_identity :: "time_io \<Rightarrow> json_dict \<Rightarrow> string" where
  "dispatch_identity io entry =
     str_or_none io (jget entry ''dispatched_at'') @ '':'' @ str_or_none io (jget entry ''worker_pid'')"

definition decide_redispatch_cap ::
  "time_io \<Rightarrow> json_dict \<Rightarrow> string option \<Rightarrow> string option \<Rightarrow> int \<Rightarrow> int \<Rightarrow> string \<Rightarrow> int \<Rightarrow>
   redispatch_verdict option" where
  "decide_redispatch_cap io entry remote_head local_head window_minutes max_redispatch stamp now =
     (case throttle_death entry of
        None \<Rightarrow> None
      | Some throttled \<Rightarrow>
          (let current = orphan_head_fingerprint remote_head local_head;
               prior = jget entry ''orphan_redispatch_head_sha'';
               changed = (prior \<noteq> JNull \<and> JStr current \<noteq> prior);
               identity = dispatch_identity io entry;
               counted = jget entry ''orphan_redispatch_counted_dispatch'';
               window = windowed_orphan_redispatch_at (ti_fromiso io) entry window_minutes now;
               history = (if changed \<or> prior = JNull then (if throttled then [] else [stamp])
                          else if JStr identity \<noteq> counted \<and> \<not> throttled then window @ [stamp]
                          else window)
           in Some \<lparr> rv_exceeded = (max_redispatch < int (length history) \<and> \<not> changed),
                     rv_count = int (length history), rv_history = history,
                     rv_head = current, rv_identity = identity \<rparr>))"

section \<open>The bounded deferral of a local park\<close>

definition local_park_defer_max_passes :: int where
  "local_park_defer_max_passes = 3"

text \<open>\<^verbatim>\<open>now.isoformat()\<close>.\<close>

definition pass_key :: "time_io \<Rightarrow> int \<Rightarrow> string" where
  "pass_key io now = zulu (ti_format io now)"

definition note_local_park_deferral :: "time_io \<Rightarrow> draft \<Rightarrow> int \<Rightarrow> string \<Rightarrow> (int \<times> draft) option" where
  "note_local_park_deferral io d now reason =
     (case int_or_zero (dget d ''local_park_defer_count'') of
        None \<Rightarrow> None
      | Some n \<Rightarrow>
          if dget d ''local_park_defer_pass_key'' = JStr (pass_key io now) then Some (n, d)
          else (let d1 = dset (dset (dset d ''local_park_defer_count'' (JInt (n + 1)))
                           ''local_park_defer_pass_key'' (JStr (pass_key io now)))
                           ''local_park_defer_reason'' (JStr reason)
                in Some (n + 1, if n + 1 = 1 then dset d1 ''local_park_defer_since'' (JStr (ti_format io now))
                                else d1)))"

text \<open>\<^verbatim>\<open>defer_or_expire_local_park\<close>: whether the pass is deferred, the events and the entry.\<close>

definition defer_or_expire_local_park ::
  "time_io \<Rightarrow> draft \<Rightarrow> int \<Rightarrow> string \<Rightarrow> int \<Rightarrow> json \<Rightarrow> (bool \<times> commit list \<times> draft) option" where
  "defer_or_expire_local_park io d issue reason now drift_at =
     (case note_local_park_deferral io d now reason of
        None \<Rightarrow> None
      | Some (count, d1) \<Rightarrow>
          if local_park_defer_max_passes \<le> count then Some (False, [], d1)
          else (let fp = ''local_park_reap_deferred:'' @ reason
                in if dget d1 ''orphan_drift_fingerprint'' = JStr fp then Some (True, [], d1)
                   else Some (True,
                     [Emit ''orphaned_worker_drift''
                        [(''issue_number'', JInt issue), (''previous_status'', JStr ''dispatched''),
                         (''reason'', JStr ''dead_dispatched_local_park_deferred''),
                         (''detail'', JStr reason), (''orphan_drift_at'', drift_at),
                         (''defer_count'', JInt count), (''defer_max'', JInt local_park_defer_max_passes)]
                        None False],
                     dset d1 ''orphan_drift_fingerprint'' (JStr fp))))"

section \<open>The scratch of the lock phase\<close>

record lock_acc =
  la_throttled_until :: json
  la_apply_routes :: "(int \<times> int) list"
  la_review_routes :: "review_route list"
  la_no_op_routes :: "no_op_route list"
  la_escalations :: "int list"

definition names_in :: "string list \<Rightarrow> string list \<Rightarrow> string list" where
  "names_in names active = sort (remdups (filter (\<lambda>l. l \<in> set active) names))"

end
