(* ===== verification/Sweep_Pre.thy ===== *)
theory Sweep_Pre
  imports Sweep_Common
begin

text \<open>
  The pre-lock phase (\<^verbatim>\<open>decide_pre.py\<close> and the pre-lock half of \<^verbatim>\<open>decide_no_pr.py\<close>): which workers are
  dead, the triage of those without a pull request, the salvage of stranded commits, the probes of
  their branches, the routing of stuck pull requests and the reads the locked phase needs.
\<close>

section \<open>Workers without a pull request\<close>

record no_pr_triage =
  tr_issues :: "(int \<times> string list) list"
  tr_fates :: "(int \<times> fate_result) list"
  tr_escalations :: "(int \<times> pre_escalation) list"
  tr_deferred :: "(int \<times> string) list"
  tr_reclaims :: "(int \<times> reclaim) list"

definition empty_triage :: no_pr_triage where
  "empty_triage = \<lparr> tr_issues = [], tr_fates = [], tr_escalations = [], tr_deferred = [], tr_reclaims = [] \<rparr>"

text \<open>\<^verbatim>\<open>verified_no_changes.verified_detail\<close>.\<close>

definition verified_detail :: "time_io \<Rightarrow> json_dict option \<Rightarrow> string" where
  "verified_detail io outcome =
     (case outcome of
        None \<Rightarrow> []
      | Some d \<Rightarrow> if json_true (jget d ''detail'') then strip (json_str io (jget d ''detail'')) else [])"

definition resolve_fates :: "(int \<times> string list) list \<Rightarrow> int list \<Rightarrow> (int \<times> fate_result) list flow" where
  "resolve_fates issues no_pr =
     loop_flow (\<lambda>n fates.
       case map_of issues n of
         None \<Rightarrow> Return fates
       | Some _ \<Rightarrow> bind_flow (ask (Resolve_fate n Stage_no_pr) fate_of) (\<lambda>fate. Return (fates @ [(n, fate)])))
     no_pr []"

text \<open>
  One issue of the second loop, from the declared success on. A refused claim is recorded and falls
  through to the classes that the operator must see, and last to the park or reclaim lane.
\<close>

definition triage_orphan ::
  "int \<Rightarrow> string list \<Rightarrow> fate_result \<Rightarrow> (int \<times> pre_escalation) list \<Rightarrow> (int \<times> pre_escalation) list flow" where
  "triage_orphan n removed fate esc =
     (if fa_blocked_escalatable fate
      then bind_flow (ask (Strip_and_flag n Strip_blocked) write_of) (\<lambda>ok.
           Return (esc @ [(n, Esc_blocked removed ok (fa_blocked_reason_kind fate) (fa_blocked_detail fate))]))
      else bind_flow (if fa_throttled fate then Return False else ask (Probe_zero_artifact n) bool_of) (\<lambda>zero.
           if zero
           then bind_flow (ask (Strip_and_flag n Strip_zero_artifact) write_of) (\<lambda>ok.
                Return (esc @ [(n, Esc_zero_artifact removed ok)]))
           else bind_flow (ask (Probe_cross_repo_scope n) scope_of) (\<lambda>(passed, reason).
                if \<not> passed
                then bind_flow (ask (Strip_and_flag n Strip_cross_repo) write_of) (\<lambda>ok.
                     Return (esc @ [(n, Esc_cross_repo removed ok reason)]))
                else bind_flow (ask (Park_or_reclaim n) bool_of) (\<lambda>_. Return esc))))"

definition triage_claim ::
  "time_io \<Rightarrow> int \<Rightarrow> string list \<Rightarrow> fate_result \<Rightarrow> (int \<times> pre_escalation) list \<Rightarrow> (int \<times> pre_escalation) list flow" where
  "triage_claim io n removed fate esc =
     (if \<not> fa_verified_no_changes fate then triage_orphan n removed fate esc
      else (let detail = verified_detail io (fa_outcome fate)
            in bind_flow (ask (Close_verified_no_changes n detail) verified_of) (\<lambda>closed.
               if vc_ok closed then Return (esc @ [(n, Esc_verified (vc_removed closed) detail)])
               else bind_flow (emit ''worker_verified_no_changes_ignored''
                      [(''issue_number'', JInt n), (''previous_status'', JStr ''dispatched''),
                       (''reason'', opt_json (vc_reason closed))]) (\<lambda>_.
                    triage_orphan n removed fate esc))))"

definition triage_issue ::
  "time_io \<Rightarrow> sweep_config \<Rightarrow> (int \<times> string list) list \<Rightarrow> (int \<times> fate_result) list \<Rightarrow> int \<Rightarrow>
   (int \<times> pre_escalation) list \<Rightarrow> (int \<times> pre_escalation) list flow" where
  "triage_issue io cfg issues fates n esc =
     (case map_of issues n of
        None \<Rightarrow> Return esc
      | Some labels \<Rightarrow>
          (let removed = names_in labels (sc_active cfg)
           in if removed = [] then Return esc
              else (case map_of fates n of
                      None \<Rightarrow> Raise
                    | Some fate \<Rightarrow> triage_claim io n removed fate esc)))"

definition triage_no_pr :: "time_io \<Rightarrow> sweep_facts \<Rightarrow> int list \<Rightarrow> no_pr_triage flow" where
  "triage_no_pr io facts no_pr =
     bind_flow (ask (Fetch_open_issues Lane_no_pr) issues_of) (\<lambda>issues.
     bind_flow (resolve_fates issues no_pr) (\<lambda>fates.
     bind_flow (loop_flow (triage_issue io (sf_config facts) issues fates) no_pr []) (\<lambda>esc.
     bind_flow (ask (Park_backstop no_pr (map fst esc)) backstop_of) (\<lambda>backstop.
       Return \<lparr> tr_issues = issues, tr_fates = fates, tr_escalations = esc,
                tr_deferred = br_deferred backstop, tr_reclaims = br_reclaims backstop \<rparr>))))"

text \<open>\<^verbatim>\<open>probe_no_pr\<close>: the branch heads of each issue and the branches pushed without a pull request.\<close>

definition reported_push :: "json_dict option \<Rightarrow> bool" where
  "reported_push outcome \<longleftrightarrow>
     (case outcome of
        None \<Rightarrow> False
      | Some d \<Rightarrow> jget d ''push_succeeded'' = JBool True \<and> jget d ''pr_created'' = JBool False)"

type_synonym probes = "(int \<times> branch_detail) list \<times> (int \<times> pushed_candidate) list"

definition no_probe :: remote_probe where
  "no_probe = \<lparr> rb_ahead = None, rb_ahead_error = None, rb_head = None \<rparr>"

definition probe_issue :: "sweep_facts \<Rightarrow> no_pr_triage \<Rightarrow> int \<Rightarrow> probes \<Rightarrow> probes flow" where
  "probe_issue facts triage n found =
     (case map_of (tr_issues triage) n of
        None \<Rightarrow> Return found
      | Some labels \<Rightarrow>
          (case map_of (tr_fates triage) n of
             None \<Rightarrow> Raise
           | Some fate \<Rightarrow>
               (let branch = fa_branch fate; rp = sf_repo facts
                in bind_flow (if rp_has_root rp then ask (Probe_remote_branch n branch) probe_of
                              else Return no_probe) (\<lambda>probe.
                   bind_flow (if rp_has_root rp \<and> rp_has_worktrees rp
                              then ask (Probe_worktree_head n branch) sha_of else Return None) (\<lambda>local_sha.
                   bind_flow (ask (Resolve_fate n (Stage_pushed (rb_head probe) (rb_ahead probe))) fate_of) (\<lambda>pushed.
                     Return (fst found @ [(n, \<lparr> bd_labels = sort (remdups labels),
                                                bd_active = names_in labels (sc_active (sf_config facts)),
                                                bd_branch = branch, bd_remote_head = rb_head probe,
                                                bd_local_head = local_sha \<rparr>)],
                             if fa_pushed_without_pr pushed
                             then snd found @ [(n, \<lparr> pc_branch = branch,
                                                     pc_reported = reported_push (fa_outcome fate),
                                                     pc_ahead = rb_ahead probe,
                                                     pc_ahead_error = rb_ahead_error probe \<rparr>)]
                             else snd found)))))))"

definition probe_no_pr :: "sweep_facts \<Rightarrow> int list \<Rightarrow> no_pr_triage \<Rightarrow> probes flow" where
  "probe_no_pr facts no_pr triage = loop_flow (probe_issue facts triage) no_pr ([], [])"

section \<open>Dead workers\<close>

definition is_dispatched :: "json \<Rightarrow> bool" where
  "is_dispatched entry = (case entry of JObj d \<Rightarrow> jget d ''status'' = JStr ''dispatched'' | _ \<Rightarrow> False)"

text \<open>Dispatched issues whose worker's process is gone, in the order of the state.\<close>

definition dead_orphans :: "sweep_facts \<Rightarrow> int list" where
  "dead_orphans facts =
     map fst (filter (\<lambda>(n, entry). is_dispatched entry \<and> map_of (sf_pid_alive facts) n = Some False)
       (ss_issues (sf_snapshot facts)))"

section \<open>Stranded commits\<close>

type_synonym salvaged = "(string \<times> json_dict) list \<times> (int \<times> string option) list"

text \<open>
  The branch to push: the pull request's, else the entry's. A stored name that is no text counts as
  missing. The newest head of an issue is the first in its list.
\<close>

definition salvage_branch :: "sweep_facts \<Rightarrow> int \<Rightarrow> pull_row option \<Rightarrow> string" where
  "salvage_branch facts n pr =
     (let of_pr = (case pr of None \<Rightarrow> [] | Some p \<Rightarrow> or_empty (pw_head_ref p))
      in if of_pr \<noteq> [] then of_pr
         else (case map_of (ss_issues (sf_snapshot facts)) n of
                 Some (JObj d) \<Rightarrow> (case jget d ''branch_name'' of JStr s \<Rightarrow> s | _ \<Rightarrow> [])
               | _ \<Rightarrow> []))"

definition salvage_issue ::
  "sweep_facts \<Rightarrow> (int \<times> pull_row) list \<Rightarrow> int \<Rightarrow> salvaged \<Rightarrow> salvaged flow" where
  "salvage_issue facts prs n acc =
     (let pr = map_of prs n; branch = salvage_branch facts n pr
      in if (case pr of None \<Rightarrow> False | Some p \<Rightarrow> pw_cross_repository p) then Return acc
         else if branch = [] then Return acc
         else bind_flow (ask (Salvage_push n branch) salvage_of) (\<lambda>result.
           let payload = [(''issue_number'', JInt n), (''pr_number'', opt_int_json (map_option pw_number pr)),
                          (''branch'', JStr branch), (''old_remote_sha'', opt_json (sv_old_sha result)),
                          (''commit_count'', opt_int_json (sv_commits result))]
           in if sv_pushed result
              then Return (fst acc @ [(''salvage_pushed_stranded_commits'',
                                       payload @ [(''new_remote_sha'', opt_json (sv_new_sha result))])],
                           if pr \<noteq> None \<and> truthy (sv_new_sha result)
                           then (n, sv_new_sha result) # snd acc else snd acc)
              else if truthy (sv_error result)
              then Return (fst acc @ [(''salvage_push_failed'',
                                       payload @ [(''error'', opt_json (sv_error result))])], snd acc)
              else Return acc))"

definition salvage_flow :: "sweep_facts \<Rightarrow> int list \<Rightarrow> (int \<times> pull_row) list \<Rightarrow> salvaged flow" where
  "salvage_flow facts orphans prs =
     (let heads = map (\<lambda>n. (n, case map_of prs n of None \<Rightarrow> None | Some p \<Rightarrow> pw_head_oid p)) orphans
      in if \<not> (rp_has_root (sf_repo facts) \<and> rp_has_worktrees (sf_repo facts)) then Return ([], heads)
         else loop_flow (salvage_issue facts prs) orphans ([], heads))"

section \<open>Pull requests of dead workers\<close>

definition head_of :: "(int \<times> string option) list \<Rightarrow> int \<Rightarrow> string option" where
  "head_of heads n = (case map_of heads n of None \<Rightarrow> None | Some h \<Rightarrow> h)"

definition pre_review_issue ::
  "time_io \<Rightarrow> sweep_facts \<Rightarrow> (int \<times> pull_row) list \<Rightarrow> (int \<times> string option) list \<Rightarrow> int \<Rightarrow> int \<Rightarrow> int flow" where
  "pre_review_issue io facts prs heads n now =
     (case map_of prs n of
        None \<Rightarrow> Return now
      | Some pr \<Rightarrow>
          bind_flow (ask (Read_review_decision (pw_number pr) (head_of heads n) Stage_pre_review) verdict_facts_of) (\<lambda>verdict.
          if rd_verdict verdict = Some ''request_changes'' \<and> \<not> rd_stale verdict then Return now
          else bind_flow (ask (Fetch_pr_view (pw_number pr)) pr_view_of) (\<lambda>view.
               case is_pre_review_rework_candidate (ti_fromiso io)
                      (case view of None \<Rightarrow> pr | Some v \<Rightarrow> v)
                      (sc_pre_review_stale_minutes (sf_config facts)) now of
                 (candidate, reason) \<Rightarrow>
                   if candidate
                   then bind_flow (commit_flow (Route_pre_review_rework n (pw_number pr) reason)) (\<lambda>_. Return now)
                   else Return now)))"

definition pre_review_flow ::
  "time_io \<Rightarrow> sweep_facts \<Rightarrow> int list \<Rightarrow> (int \<times> pull_row) list \<Rightarrow> (int \<times> string option) list \<Rightarrow> int flow" where
  "pre_review_flow io facts orphans prs heads =
     bind_flow (ask Read_clock time_of) (loop_flow (pre_review_issue io facts prs heads) orphans)"

definition unverdicted ::
  "(int \<times> pull_row) list \<Rightarrow> (int \<times> string option) list \<Rightarrow> int \<Rightarrow> int list \<Rightarrow> int list flow" where
  "unverdicted prs heads n waiting =
     (case map_of prs n of
        None \<Rightarrow> Return waiting
      | Some pr \<Rightarrow>
          bind_flow (ask (Read_review_decision (pw_number pr) (head_of heads n) Stage_unreviewed) verdict_facts_of) (\<lambda>verdict.
            Return (if rd_missing verdict \<or> rd_verdict verdict = Some ''pending'' then waiting @ [n] else waiting)))"

definition unreviewed_flow ::
  "sweep_facts \<Rightarrow> int list \<Rightarrow> (int \<times> pull_row) list \<Rightarrow> (int \<times> string option) list \<Rightarrow>
   (int \<times> string list) list flow" where
  "unreviewed_flow facts orphans prs heads =
     bind_flow (loop_flow (unverdicted prs heads) orphans []) (\<lambda>waiting.
       if waiting = [] then Return []
       else bind_flow (ask (Fetch_open_issues Lane_unreviewed) issues_of) (\<lambda>issues.
         Return (List.map_filter (\<lambda>n. map_option (\<lambda>labels. (n, names_in labels (sc_active (sf_config facts))))
                                        (map_of issues n)) waiting)))"

section \<open>The phase\<close>

definition early_exit :: "sweep_facts \<Rightarrow> int list \<Rightarrow> pre_outcome" where
  "early_exit facts orphans =
     \<lparr> pre_orphans = orphans, pre_no_pr = [], pre_prs = [], pre_details = [], pre_candidates = [],
       pre_escalations = [], pre_deferred = [], pre_reclaims = [], pre_unreviewed = [], pre_live = [],
       pre_pr_already_open = [], pre_salvage_events = [], pre_heads = [], pre_early_exit = True,
       pre_now = sf_now facts \<rparr>"

definition live_candidates ::
  "(int \<times> live_candidate) list \<Rightarrow> (int \<times> live_candidate) list flow" where
  "live_candidates declared =
     (if declared = [] then Return []
      else bind_flow (ask (Fetch_open_issues Lane_live_handoff) issues_of) (\<lambda>issues.
        Return (filter (\<lambda>(n, c). map_of issues n \<noteq> None) declared)))"

definition pre_flow :: "time_io \<Rightarrow> sweep_facts \<Rightarrow> pre_outcome flow" where
  "pre_flow io facts =
     (let orphans = dead_orphans facts
      in bind_flow (ask Collect_live_handoff live_of) (\<lambda>stale.
         bind_flow (commit_flow (Report_stale_evidence Bucket_live_handoff)) (\<lambda>_.
         if orphans = [] \<and> stale = [] then Return (early_exit facts orphans)
         else bind_flow (ask Fetch_open_prs prs_of) (\<lambda>prs.
           let no_pr = filter (\<lambda>n. map_of prs n = None) orphans
           in bind_flow (if no_pr = [] then Return empty_triage else triage_no_pr io facts no_pr) (\<lambda>triage.
              bind_flow (salvage_flow facts orphans prs) (\<lambda>(events, heads).
              bind_flow (probe_no_pr facts no_pr triage) (\<lambda>(details, candidates).
              bind_flow (commit_flow (Report_stale_evidence Bucket_no_pr)) (\<lambda>_.
              bind_flow (pre_review_flow io facts orphans prs heads) (\<lambda>now.
              bind_flow (unreviewed_flow facts orphans prs heads) (\<lambda>unreviewed.
              bind_flow (live_candidates (filter (\<lambda>(n, c). map_of prs n = None) stale)) (\<lambda>live.
                Return \<lparr> pre_orphans = orphans, pre_no_pr = no_pr, pre_prs = prs, pre_details = details,
                         pre_candidates = candidates, pre_escalations = tr_escalations triage,
                         pre_deferred = tr_deferred triage, pre_reclaims = tr_reclaims triage,
                         pre_unreviewed = unreviewed, pre_live = live,
                         pre_pr_already_open = filter (\<lambda>(n, c). map_of prs n \<noteq> None) stale,
                         pre_salvage_events = events, pre_heads = heads, pre_early_exit = False,
                         pre_now = now \<rparr>)))))))))))"

end
