(* ===== verification/Sweep_Lock.thy ===== *)
theory Sweep_Lock
  imports Sweep_Pre
begin

text \<open>
  The locked phase (\<^verbatim>\<open>decide_reap.py\<close>, the in-lock half of \<^verbatim>\<open>decide_no_pr.py\<close>, \<^verbatim>\<open>decide_with_pr.py\<close> and
  \<^verbatim>\<open>lock_flow\<close> of \<^verbatim>\<open>decide.py\<close>): the classification of every dead dispatched worker on the state as it
  stands under the lock. The generators change a draft and a scratch in place; here they take and
  return both.
\<close>

section \<open>The timed backstop\<close>

definition back_in_queue :: "sweep_config \<Rightarrow> branch_detail option \<Rightarrow> bool" where
  "back_in_queue cfg detail \<longleftrightarrow>
     (case detail of None \<Rightarrow> False | Some b \<Rightarrow> bd_active b = [] \<and> sc_ready cfg \<in> set (bd_labels b))"

text \<open>The escalation at the end of \<^verbatim>\<open>reap_flow\<close>.\<close>

definition reap_entry ::
  "sweep_config \<Rightarrow> draft \<Rightarrow> pull_row option \<Rightarrow> json \<Rightarrow> string option \<Rightarrow> draft flow" where
  "reap_entry cfg d pr drift_at park =
     (let n = dr_issue d; pr_json = opt_int_json (map_option pw_number pr)
      in bind_flow (ask (Read_terminal n) terminal_of) (\<lambda>terminal.
         bind_flow (flush d) (\<lambda>d1.
         bind_flow (commit_flow (Escalate_entry n ''dead_dispatched_worker_reap'' ''mechanical''
             (map_option pw_number pr)
             [(''dispatched_at'', JNull), (''orphan_drift_fingerprint'', JNull), (''orphan_drift_at'', JNull),
              (''local_park_defer_count'', JNull), (''local_park_defer_since'', JNull),
              (''local_park_defer_pass_key'', JNull), (''local_park_defer_reason'', opt_json park)])) (\<lambda>_.
         bind_flow (emit ''dead_dispatched_worker_reaped''
             [(''issue_number'', JInt n), (''pr_number'', pr_json), (''previous_status'', JStr ''dispatched''),
              (''reason'', JStr ''dead_dispatched_worker_reap''), (''orphan_drift_at'', drift_at),
              (''reap_minutes'', JInt (sc_reap_minutes cfg)), (''exit_code'', tf_exit terminal),
              (''local_park_defer_error'', opt_json park)]) (\<lambda>_.
           Return (invalidate d1))))))"

definition reap_after_throttle ::
  "time_io \<Rightarrow> sweep_config \<Rightarrow> pre_outcome \<Rightarrow> draft \<Rightarrow> pull_row option \<Rightarrow> json \<Rightarrow> (bool \<times> draft) flow" where
  "reap_after_throttle io cfg pre d pr drift_at =
     (let park = map_of (pre_deferred pre) (dr_issue d);
          escalate = (\<lambda>d1. bind_flow (reap_entry cfg d1 pr drift_at park) (\<lambda>d2. Return (True, d2)))
      in case park of
           None \<Rightarrow> escalate d
         | Some reason \<Rightarrow>
             (case defer_or_expire_local_park io d (dr_issue d) reason (pre_now pre) drift_at of
                None \<Rightarrow> Raise
              | Some (deferred, events, d1) \<Rightarrow>
                  bind_flow (commit_all events ()) (\<lambda>_.
                    if deferred then Return (False, d1) else escalate d1)))"

text \<open>\<^verbatim>\<open>reap_flow\<close>: True where the entry was escalated.\<close>

definition reap_flow ::
  "time_io \<Rightarrow> sweep_facts \<Rightarrow> pre_outcome \<Rightarrow> draft \<Rightarrow> pull_row option \<Rightarrow> lock_acc \<Rightarrow> (bool \<times> draft) flow" where
  "reap_flow io facts pre d pr acc =
     (let cfg = sf_config facts; now = pre_now pre; n = dr_issue d
      in case reap_due io (dr_work d) (la_throttled_until acc) (sc_reap_minutes cfg) now of
           None \<Rightarrow> Raise
         | Some False \<Rightarrow> Return (False, d)
         | Some True \<Rightarrow>
             if back_in_queue cfg (map_of (pre_details pre) n) then Return (False, d)
             else (case (throttle_death (dr_work d), int_or_zero (dget d ''throttle_reap_rearm_count'')) of
                     (Some throttled, Some rearms) \<Rightarrow>
                       (let drift_at = dget d ''orphan_drift_at''
                        in if throttled \<and> pr = None \<and> rearms < sc_max_redispatch cfg
                           then bind_flow (emit ''dead_dispatched_throttle_rearmed''
                                  [(''issue_number'', JInt n), (''failure_kind'', failure_kind (dr_work d)),
                                   (''previous_orphan_drift_at'', drift_at),
                                   (''throttled_until'', la_throttled_until acc),
                                   (''rearm_count'', JInt (rearms + 1)),
                                   (''max_rearms'', JInt (sc_max_redispatch cfg))]) (\<lambda>_.
                                Return (False, dset (dset d ''orphan_drift_at'' (JStr (ti_format io now)))
                                                 ''throttle_reap_rearm_count'' (JInt (rearms + 1))))
                           else reap_after_throttle io cfg pre d pr drift_at)
                   | _ \<Rightarrow> Raise))"

section \<open>Without a pull request\<close>

text \<open>\<^verbatim>\<open>session_failed_relabeled_payload\<close>.\<close>

definition relabeled_payload ::
  "int \<Rightarrow> string \<Rightarrow> json \<Rightarrow> string list \<Rightarrow> bool \<Rightarrow> bool \<Rightarrow> json_dict \<Rightarrow> json_dict" where
  "relabeled_payload n reason kind removed added_ready write_ok extra =
     jupdate ([(''issue_number'', JInt n), (''reason'', JStr reason), (''removed_labels'', strs_json (sort removed)),
               (''added_ready'', JBool added_ready), (''label_write_ok'', JBool write_ok)] @
              (if kind = JNull then [] else [(''failure_kind'', kind)])) extra"

text \<open>A branch that was pushed: the pull request is opened, or the failure is recorded once.\<close>

definition open_pushed_branch ::
  "string \<Rightarrow> pushed_candidate \<Rightarrow> draft \<Rightarrow> draft flow" where
  "open_pushed_branch stamp c d =
     (let n = dr_issue d
      in bind_flow (ask (Open_pr_for_branch n (pc_branch c) Pushed_orphan) pr_open_of) (\<lambda>opened.
         case po_number opened of
           Some pr \<Rightarrow>
             bind_flow (emit (if pc_reported c then ''worker_handoff_pr_opened'' else ''orphaned_worker_opened_pr'')
               [(''issue_number'', JInt n), (''pr_number'', JInt pr), (''branch_name'', JStr (pc_branch c)),
                (''worker_reported'', JBool (pc_reported c)), (''ahead_count'', opt_int_json (pc_ahead c)),
                (''previous_status'', JStr ''dispatched''), (''label_write_ok'', JBool (po_error opened = None)),
                (''pr_error'', opt_json (po_error opened)),
                (''reason'', JStr (if pc_reported c then ''worker_handoff_clean_exit''
                                  else ''dead_worker_branch_pushed_no_pr''))]) (\<lambda>_.
             Return (dset (dset d ''status'' (JStr ''open_passive'')) ''pr_number'' (JInt pr)))
         | None \<Rightarrow>
             (let fp = drift_fingerprint
                    [(''reason'', Part_text (Some ''dead_worker_branch_pushed_pr_create_failed'')),
                     (''branch_name'', Part_text (Some (pc_branch c))),
                     (''error'', Part_text (Some (if truthy (po_error opened) then or_empty (po_error opened)
                                                  else ''unknown'')))]
              in if dget d ''orphan_drift_fingerprint'' = JStr fp then Return d
                 else bind_flow (emit ''pr_create_failed_branch_stranded''
                        [(''issue_number'', JInt n), (''branch_name'', JStr (pc_branch c)),
                         (''previous_status'', JStr ''dispatched''),
                         (''reason'', JStr ''dead_worker_branch_pushed_pr_create_failed''),
                         (''pr_create_error'', opt_json (po_error opened)),
                         (''worker_reported'', JBool (pc_reported c)),
                         (''ahead_count'', opt_int_json (pc_ahead c))]) (\<lambda>_.
                      Return (dset (dset d ''orphan_drift_fingerprint'' (JStr fp))
                                ''orphan_drift_at'' (JStr stamp))))))"

text \<open>The escalations the triage decided; the second component is True for a declared block only.\<close>

definition lock_escalation ::
  "string \<Rightarrow> string \<Rightarrow> draft \<Rightarrow> (int \<Rightarrow> unit flow) \<Rightarrow> draft flow" where
  "lock_escalation stamp reason d report =
     (let n = dr_issue d
      in bind_flow (flush d) (\<lambda>d1.
         bind_flow (commit_flow (Escalate_entry n reason ''mechanical'' None [])) (\<lambda>_.
         bind_flow (commit_flow (Update_issue n [(''orphan_flagged_at'', JStr stamp)] [])) (\<lambda>_.
         bind_flow (report n) (\<lambda>_. Return (invalidate d1))))))"

definition report_relabeled :: "string \<Rightarrow> string list \<Rightarrow> bool \<Rightarrow> int \<Rightarrow> unit flow" where
  "report_relabeled reason removed ok n =
     emit ''session_failed_escalated'' (relabeled_payload n reason JNull removed False ok [])"

definition report_declared_block :: "string list \<Rightarrow> bool \<Rightarrow> string \<Rightarrow> string \<Rightarrow> int \<Rightarrow> unit flow" where
  "report_declared_block removed ok kind detail n =
     emit ''worker_declared_blocked''
       [(''issue_number'', JInt n), (''previous_status'', JStr ''dispatched''),
        (''reason'', JStr ''worker_declared_blocked''), (''reason_kind'', JStr kind), (''detail'', JStr detail),
        (''removed_labels'', strs_json removed), (''label_write_ok'', JBool ok)]"

fun decided_escalation :: "string \<Rightarrow> draft \<Rightarrow> pre_escalation \<Rightarrow> (bool \<times> draft) flow" where
  "decided_escalation stamp d (Esc_verified removed detail) =
     bind_flow (emit ''worker_verified_no_changes''
       [(''issue_number'', JInt (dr_issue d)), (''previous_status'', JStr ''dispatched''),
        (''detail'', JStr detail), (''removed_labels'', strs_json removed)]) (\<lambda>_.
     Return (False, dset (dset d ''status'' (JStr ''closed'')) ''orphan_flagged_at'' (JStr stamp)))"
| "decided_escalation stamp d (Esc_blocked removed ok kind detail) =
     bind_flow (lock_escalation stamp ''worker_declared_blocked'' d (report_declared_block removed ok kind detail))
       (\<lambda>d1. Return (True, d1))"
| "decided_escalation stamp d (Esc_zero_artifact removed ok) =
     bind_flow (lock_escalation stamp ''zero_artifact_dispatch_loop'' d
                  (report_relabeled ''zero_artifact_dispatch_loop'' removed ok))
       (\<lambda>d1. Return (False, d1))"
| "decided_escalation stamp d (Esc_cross_repo removed ok reason) =
     bind_flow (lock_escalation stamp ''cross_repo_hop'' d (report_relabeled ''cross_repo_hop'' removed ok))
       (\<lambda>d1. Return (False, d1))"

fun is_verified :: "pre_escalation \<Rightarrow> bool" where
  "is_verified (Esc_verified _ _) = True"
| "is_verified _ = False"

text \<open>The reclaim's report and the drift record, behind the redispatch cap.\<close>

definition drift_backfill :: "string \<Rightarrow> draft \<Rightarrow> draft flow" where
  "drift_backfill stamp d =
     (let d1 = (if dget d ''orphan_drift_at'' = JNull \<and> dget d ''orphan_flagged_at'' \<noteq> JNull
                then dset d ''orphan_drift_at'' (dget d ''orphan_flagged_at'') else d)
      in if json_true (dget d1 ''orphan_flagged_at'') then Return d1
         else bind_flow (emit ''orphaned_worker_drift''
                [(''issue_number'', JInt (dr_issue d)), (''previous_status'', JStr ''dispatched''),
                 (''reason'', JStr ''dead_worker_no_open_pr'')]) (\<lambda>_.
              Return (dset (dset d1 ''orphan_flagged_at'' (JStr stamp)) ''orphan_drift_at'' (JStr stamp))))"

definition after_cap :: "string \<Rightarrow> reclaim option \<Rightarrow> draft \<Rightarrow> draft flow" where
  "after_cap stamp reclaim d =
     (case reclaim of
        None \<Rightarrow> drift_backfill stamp d
      | Some r \<Rightarrow>
          bind_flow (emit ''session_failed_relabeled''
            (relabeled_payload (dr_issue d) ''dead_worker_no_open_pr_orphan_sweep'' (failure_kind (dr_work d))
               (rc_removed r) (rc_added_ready r) (rc_write_ok r) (rc_extra r))) (\<lambda>_.
          if rc_write_ok r then Return (dset d ''orphan_flagged_at'' (JStr stamp)) else drift_backfill stamp d))"

definition redispatch_or_reclaim ::
  "time_io \<Rightarrow> sweep_facts \<Rightarrow> pre_outcome \<Rightarrow> draft \<Rightarrow> (bool \<times> draft) flow" where
  "redispatch_or_reclaim io facts pre d =
     (let n = dr_issue d; cfg = sf_config facts; detail = map_of (pre_details pre) n;
          remote = (case detail of None \<Rightarrow> None | Some b \<Rightarrow> bd_remote_head b);
          local_sha = (case detail of None \<Rightarrow> None | Some b \<Rightarrow> bd_local_head b)
      in case decide_redispatch_cap io (dr_work d) remote local_sha (sc_redispatch_window cfg)
                (sc_max_redispatch cfg) (sf_stamp facts) (pre_now pre) of
           None \<Rightarrow> Raise
         | Some v \<Rightarrow>
             if rv_exceeded v
             then bind_flow (flush d) (\<lambda>d1.
                  bind_flow (commit_flow (Escalate_entry n ''orphan_sweep_redispatch_cap_exceeded'' ''mechanical'' None
                    [(''dispatched_at'', JNull), (''orphan_redispatch_head_sha'', JStr (rv_head v)),
                     (''orphan_redispatch_at'', strs_json (rv_history v)),
                     (''orphan_redispatch_counted_dispatch'', JNull), (''orphan_flagged_at'', JNull),
                     (''orphan_drift_fingerprint'', JNull), (''orphan_drift_at'', JNull)])) (\<lambda>_.
                  bind_flow (emit ''orphan_sweep_redispatch_escalated''
                    [(''issue_number'', JInt n), (''previous_status'', JStr ''dispatched''),
                     (''reason'', JStr ''orphan_sweep_redispatch_cap_exceeded''),
                     (''redispatch_count'', JInt (rv_count v)), (''branch_head_sha'', opt_json remote),
                     (''worktree_head_sha'', opt_json local_sha),
                     (''orphan_redispatch_at_len'', JInt (int (length (rv_history v))))]) (\<lambda>_.
                  Return (True, invalidate d1))))
             else bind_flow (after_cap (sf_stamp facts) (map_of (pre_reclaims pre) n)
                    (dset (dset (dset d ''orphan_redispatch_head_sha'' (JStr (rv_head v)))
                       ''orphan_redispatch_at'' (strs_json (rv_history v)))
                       ''orphan_redispatch_counted_dispatch'' (JStr (rv_identity v)))) (\<lambda>d1.
                  Return (False, d1)))"

text \<open>\<^verbatim>\<open>lock_no_pr_flow\<close>: a verified close, a pushed branch, a decided escalation, or the cap.\<close>

definition lock_no_pr_flow ::
  "time_io \<Rightarrow> sweep_facts \<Rightarrow> pre_outcome \<Rightarrow> draft \<Rightarrow> (bool \<times> draft) flow" where
  "lock_no_pr_flow io facts pre d =
     (let n = dr_issue d; stamp = sf_stamp facts; esc = map_of (pre_escalations pre) n;
          candidate = map_of (pre_candidates pre) n
      in case (esc, candidate) of
           (Some (Esc_verified removed detail), _) \<Rightarrow> decided_escalation stamp d (Esc_verified removed detail)
         | (_, Some c) \<Rightarrow> bind_flow (open_pushed_branch stamp c d) (\<lambda>d1. Return (False, d1))
         | (Some e, None) \<Rightarrow> decided_escalation stamp d e
         | (None, None) \<Rightarrow> redispatch_or_reclaim io facts pre d)"

section \<open>With a pull request\<close>

record pr_ctx =
  px_number :: int
  px_pr :: pull_row
  px_reviewed :: "string option"
  px_live :: "string option"
  px_pid :: json
  px_exit :: json
  px_duration :: json

definition base_payload :: "pr_ctx \<Rightarrow> json_dict" where
  "base_payload x =
     [(''issue_number'', JInt (px_number x)), (''pr_number'', JInt (pw_number (px_pr x))),
      (''previous_status'', JStr ''dispatched'')]"

definition proc_payload :: "pr_ctx \<Rightarrow> json_dict" where
  "proc_payload x = [(''pid'', px_pid x), (''exit_code'', px_exit x), (''duration_seconds'', px_duration x)]"

text \<open>\<^verbatim>\<open>ctx.pr.get("headRefName") or entry.get("branch_name")\<close>.\<close>

definition branch_value :: "pr_ctx \<Rightarrow> draft \<Rightarrow> json" where
  "branch_value x d =
     (if truthy (pw_head_ref (px_pr x)) then JStr (or_empty (pw_head_ref (px_pr x)))
      else dget d ''branch_name'')"

definition no_op_of :: "pr_ctx \<Rightarrow> draft \<Rightarrow> no_op_route" where
  "no_op_of x d =
     \<lparr> nr_issue = px_number x, nr_pr = pw_number (px_pr x), nr_live_head = px_live x,
       nr_reason = ''dead_worker_no_op'', nr_branch = branch_value x d \<rparr>"

text \<open>\<^verbatim>\<open>_resolve_outcome\<close>; a stored branch name that is no text counts as missing.\<close>

definition resolve_outcome :: "sweep_facts \<Rightarrow> draft \<Rightarrow> pr_ctx \<Rightarrow> json_dict option flow" where
  "resolve_outcome facts d x =
     (if \<not> truthy (px_live x) then Return None
      else (case branch_value x d of
              JStr branch \<Rightarrow>
                if branch = [] \<or> \<not> rp_root_is_path (sf_repo facts) \<or> \<not> rp_has_worktrees (sf_repo facts)
                then Return None
                else ask (Read_completed_outcome (px_number x) (pw_number (px_pr x)) (or_empty (px_live x)) branch)
                       outcome_of
            | _ \<Rightarrow> Return None))"

text \<open>\<^verbatim>\<open>_queue_apply\<close>; an outcome without its head is a KeyError.\<close>

definition queue_apply :: "sweep_facts \<Rightarrow> lock_acc \<Rightarrow> pr_ctx \<Rightarrow> json_dict \<Rightarrow> lock_acc flow" where
  "queue_apply facts acc x outcome =
     (case map_of outcome ''head_sha'' of
        None \<Rightarrow> Raise
      | Some head \<Rightarrow>
          Return (if head = opt_json (map_of (ss_applied_heads (sf_locked facts)) (px_number x)) then acc
                  else acc\<lparr> la_apply_routes := la_apply_routes acc @ [(px_number x, pw_number (px_pr x))] \<rparr>))"

type_synonym lock_state = "draft \<times> lock_acc"

definition drift_event :: "draft \<Rightarrow> string \<Rightarrow> string \<Rightarrow> json_dict \<Rightarrow> draft flow" where
  "drift_event d fp stamp payload =
     bind_flow (emit ''orphaned_worker_drift'' payload) (\<lambda>_.
       Return (dset (dset d ''orphan_drift_fingerprint'' (JStr fp)) ''orphan_drift_at'' (JStr stamp)))"

text \<open>\<^verbatim>\<open>acc.review_routes.append\<close>, anchoring the backstop's clock where the flow does.\<close>

definition add_review_route ::
  "sweep_facts \<Rightarrow> bool \<Rightarrow> draft \<Rightarrow> lock_acc \<Rightarrow> pr_ctx \<Rightarrow> string \<Rightarrow> string \<Rightarrow> bool \<Rightarrow> lock_state" where
  "add_review_route facts anchor d acc x fp reason awaits =
     (if anchor \<and> dget d ''orphan_drift_at'' = JNull
      then dset d ''orphan_drift_at'' (JStr (sf_stamp facts)) else d,
      acc\<lparr> la_review_routes := la_review_routes acc @
             [\<lparr> vr_issue = px_number x, vr_pr = pw_number (px_pr x), vr_reviewed_head = px_reviewed x,
                vr_live_head = px_live x, vr_fingerprint = fp, vr_reason = reason,
                vr_awaits_head = awaits \<rparr>] \<rparr>)"

definition add_no_op :: "lock_acc \<Rightarrow> pr_ctx \<Rightarrow> draft \<Rightarrow> lock_acc" where
  "add_no_op acc x d = acc\<lparr> la_no_op_routes := la_no_op_routes acc @ [no_op_of x d] \<rparr>"

text \<open>\<^verbatim>\<open>_completed_outcome\<close>: True when a fresh completed outcome was routed.\<close>

definition completed_outcome ::
  "sweep_facts \<Rightarrow> draft \<Rightarrow> lock_acc \<Rightarrow> pr_ctx \<Rightarrow> json_dict \<Rightarrow> (bool \<times> lock_state) flow" where
  "completed_outcome facts d acc x extra =
     bind_flow (resolve_outcome facts d x) (\<lambda>found.
     case found of
       None \<Rightarrow> Return (False, d, acc)
     | Some outcome \<Rightarrow>
         bind_flow (if sc_outcome_every_route (sf_config facts) then Return acc
                    else queue_apply facts acc x outcome) (\<lambda>acc1.
         let fp = drift_fingerprint [(''reason'', Part_text (Some ''dead_worker_completed_outcome'')),
                    (''reviewed_head_sha'', Part_text (px_reviewed x))]
         in if dget d ''orphan_drift_fingerprint'' = JStr fp then Return (True, d, acc1)
            else if sf_review_available facts
            then Return (True, add_review_route facts True d acc1 x fp ''dead_worker_completed_outcome'' False)
            else (case map_of outcome ''head_sha'' of
                    None \<Rightarrow> Raise
                  | Some head \<Rightarrow>
                      bind_flow (drift_event d fp (sf_stamp facts)
                        (jupdate (base_payload x @ [(''reason'', JStr ''dead_worker_completed_outcome'')] @
                           proc_payload x @ [(''worker_outcome_head_sha'', head)]) extra)) (\<lambda>d1.
                      Return (True, d1, acc1)))))"

definition declared_block ::
  "time_io \<Rightarrow> draft \<Rightarrow> lock_acc \<Rightarrow> pr_ctx \<Rightarrow> json_dict \<Rightarrow> json_dict \<Rightarrow> lock_state flow" where
  "declared_block io d acc x extra blocked =
     (let n = px_number x
      in bind_flow (flush d) (\<lambda>d1.
         bind_flow (commit_flow (Escalate_entry n ''worker_declared_blocked'' ''mechanical''
             (Some (pw_number (px_pr x))) [(''dispatched_at'', JNull)])) (\<lambda>_.
         bind_flow (emit ''worker_declared_blocked''
           (base_payload x @ [(''reason'', JStr ''worker_declared_blocked'')] @ extra @
            [(''reason_kind'', JStr (if json_true (jget blocked ''reason_kind'')
                                    then json_str io (jget blocked ''reason_kind'') else ''unknown'')),
             (''detail'', JStr (if json_true (jget blocked ''detail'')
                               then json_str io (jget blocked ''detail'') else []))] @
            proc_payload x)) (\<lambda>_.
         Return (invalidate d1, acc\<lparr> la_escalations := la_escalations acc @ [n] \<rparr>)))))"

definition recovered_event ::
  "pr_ctx \<Rightarrow> string \<Rightarrow> string \<Rightarrow> json_dict \<Rightarrow> string option \<Rightarrow> unit flow" where
  "recovered_event x stamp reason extra kind =
     emit ''orphaned_worker_recovered''
       (base_payload x @ [(''new_status'', JStr ''rework_requested''), (''reason'', JStr reason)] @ extra @
        proc_payload x @ [(''worker_death_at'', JStr stamp), (''failure_kind'', opt_json kind)])"

definition back_to_rework :: "draft \<Rightarrow> draft" where
  "back_to_rework d = dset (dset d ''status'' (JStr ''rework_requested'')) ''dispatched_at'' JNull"

text \<open>A session that ended with exit code 0: a provider's throttle, or nothing was done.\<close>

definition clean_exit ::
  "sweep_facts \<Rightarrow> draft \<Rightarrow> lock_acc \<Rightarrow> pr_ctx \<Rightarrow> json_dict \<Rightarrow> lock_state flow" where
  "clean_exit facts d acc x extra =
     bind_flow (ask (Exempt_throttle_clean_exit (px_number x) (dget d ''dispatched_at'')
                  (Some (pw_number (px_pr x)))) credit_of) (\<lambda>credit.
     if cr_kind credit \<noteq> None
     then bind_flow (flush (back_to_rework d)) (\<lambda>d1.
          bind_flow (recovered_event x (sf_stamp facts) ''dead_worker_clean_exit_throttle'' extra (cr_kind credit)) (\<lambda>_.
          Return (d1, acc\<lparr> la_throttled_until := cr_throttled_until credit \<rparr>)))
     else (let fp = drift_fingerprint [(''reason'', Part_text (Some ''dead_worker_clean_exit_no_op'')),
                      (''reviewed_head_sha'', Part_text (px_reviewed x))]
           in if dget d ''orphan_drift_fingerprint'' = JStr fp then Return (d, add_no_op acc x d)
              else bind_flow (drift_event d fp (sf_stamp facts)
                     (base_payload x @ [(''reason'', JStr ''dead_worker_clean_exit_no_op'')] @ extra @
                      proc_payload x)) (\<lambda>d1.
                   Return (d1, add_no_op acc x d))))"

definition credited_death ::
  "sweep_facts \<Rightarrow> draft \<Rightarrow> lock_acc \<Rightarrow> pr_ctx \<Rightarrow> string \<Rightarrow> json_dict \<Rightarrow> lock_state flow" where
  "credited_death facts d acc x reason extra =
     bind_flow (flush (back_to_rework d)) (\<lambda>d1.
     bind_flow (ask (Credit_dead_worker (px_number x) True (dget d ''dispatched_at'')
                  (Some (pw_number (px_pr x)))) credit_of) (\<lambda>credit.
     bind_flow (recovered_event x (sf_stamp facts) reason extra (cr_kind credit)) (\<lambda>_.
     Return (d1, acc\<lparr> la_throttled_until := cr_throttled_until credit \<rparr>))))"

definition same_head ::
  "time_io \<Rightarrow> sweep_facts \<Rightarrow> draft \<Rightarrow> lock_acc \<Rightarrow> pr_ctx \<Rightarrow> string \<Rightarrow> json_dict \<Rightarrow> lock_state flow" where
  "same_head io facts d acc x reason extra =
     bind_flow (completed_outcome facts d acc x extra) (\<lambda>(routed, d1, acc1).
     if routed then Return (d1, acc1)
     else bind_flow (ask (Read_blocked_outcome (px_number x)) outcome_of) (\<lambda>blocked.
          case blocked of
            Some b \<Rightarrow> declared_block io d1 acc1 x extra b
          | None \<Rightarrow>
              if is_zero (px_exit x) then clean_exit facts d1 acc1 x extra
              else credited_death facts d1 acc1 x reason extra))"

definition head_changed ::
  "sweep_facts \<Rightarrow> draft \<Rightarrow> lock_acc \<Rightarrow> pr_ctx \<Rightarrow> string option \<Rightarrow> bool \<Rightarrow> lock_state flow" where
  "head_changed facts d acc x verdict carries_apply =
     (let fp = drift_fingerprint [(''reason'', Part_text (Some ''dead_worker_with_head_change'')),
                 (''reviewed_head_sha'', Part_text (px_reviewed x)), (''live_head_sha'', Part_text (px_live x))]
      in if dget d ''no_op_deferred_head'' = opt_json (px_live x) then Return (d, add_no_op acc x d)
         else if dget d ''orphan_drift_fingerprint'' = JStr fp then Return (d, acc)
         else if sf_review_available facts
         then Return (add_review_route facts carries_apply d acc x fp ''dead_worker_with_head_change'' carries_apply)
         else bind_flow (drift_event d fp (sf_stamp facts)
                (base_payload x @ [(''last_decision'', opt_json verdict),
                  (''reviewed_head_sha'', opt_json (px_reviewed x)), (''live_head_sha'', opt_json (px_live x)),
                  (''reason'', JStr ''dead_worker_with_head_change'')] @ proc_payload x)) (\<lambda>d1.
              Return (d1, add_no_op acc x d)))"

text \<open>\<^verbatim>\<open>_advance_unreviewed\<close>: True when the issue moved to an open pull request.\<close>

definition advance_unreviewed ::
  "sweep_facts \<Rightarrow> pre_outcome \<Rightarrow> draft \<Rightarrow> lock_acc \<Rightarrow> pr_ctx \<Rightarrow> (bool \<times> lock_state) flow" where
  "advance_unreviewed facts pre d acc x =
     (case map_of (pre_unreviewed pre) (px_number x) of
        None \<Rightarrow> Return (False, d, acc)
      | Some active \<Rightarrow>
          bind_flow (ask (Advance_to_pr_open (px_number x)) bool_of) (\<lambda>moved.
          if \<not> moved then Return (False, d, acc)
          else bind_flow (flush (dset (dset (dset (dset d ''status'' (JStr ''open_passive''))
                   ''dispatched_at'' JNull) ''orphan_drift_fingerprint'' JNull) ''orphan_drift_at'' JNull)) (\<lambda>d1.
               bind_flow (ask (Credit_dead_worker (px_number x) False JNull None) credit_of) (\<lambda>credit.
               bind_flow (emit ''orphaned_worker_advanced_to_pr_open''
                 (base_payload x @ [(''new_status'', JStr ''open_passive''),
                   (''reason'', JStr ''dead_worker_unsafe_to_auto_reset_open_unreviewed_pr''),
                   (''removed_labels'', strs_json (sort active))] @ proc_payload x @
                  [(''label_write_ok'', JBool True), (''worker_death_at'', JStr (sf_stamp facts)),
                   (''failure_kind'', opt_json (cr_kind credit))])) (\<lambda>_.
               Return (True, d1, acc\<lparr> la_throttled_until := cr_throttled_until credit \<rparr>))))))"

definition unsafe_drift ::
  "sweep_facts \<Rightarrow> draft \<Rightarrow> lock_acc \<Rightarrow> pr_ctx \<Rightarrow> string option \<Rightarrow> lock_state flow" where
  "unsafe_drift facts d acc x verdict =
     (let fp = drift_fingerprint [(''reason'', Part_text (Some ''dead_worker_unsafe_to_auto_reset'')),
                 (''last_decision'', Part_text (Some (or_empty verdict))),
                 (''pr_number'', Part_number (pw_number (px_pr x)))]
      in if dget d ''orphan_drift_fingerprint'' = JStr fp then Return (d, acc)
         else bind_flow (drift_event d fp (sf_stamp facts)
                (base_payload x @ [(''last_decision'', opt_json verdict),
                  (''reason'', JStr ''dead_worker_unsafe_to_auto_reset'')] @ proc_payload x)) (\<lambda>d1.
              Return (d1, acc)))"

text \<open>The fan-out behind the reads of \<^verbatim>\<open>with_pr_flow\<close>; \<open>carries\<close> tells whether an apply was queued.\<close>

definition route_pr ::
  "time_io \<Rightarrow> sweep_facts \<Rightarrow> pre_outcome \<Rightarrow> draft \<Rightarrow> lock_acc \<Rightarrow> pr_ctx \<Rightarrow> string option \<Rightarrow> bool \<Rightarrow> lock_state flow" where
  "route_pr io facts pre d acc x verdict carries =
     (if verdict \<in> {Some ''request_changes'', Some ''approved''} \<and> truthy (px_reviewed x) \<and> truthy (px_live x)
      then (if px_reviewed x \<noteq> px_live x then head_changed facts d acc x verdict carries
            else if verdict = Some ''approved''
            then same_head io facts d acc x ''dead_worker_with_approved_rework''
                   [(''decision'', JStr ''approved''),
                    (''pr_state_status'', case map_of (ss_prs (sf_locked facts)) (pw_number (px_pr x)) of
                       None \<Rightarrow> JNull | Some p \<Rightarrow> jget p ''status'')]
            else same_head io facts d acc x ''dead_worker_with_request_changes'' [])
      else if verdict = None \<or> verdict = Some ''pending''
      then bind_flow (advance_unreviewed facts pre d acc x) (\<lambda>(moved, d1, acc1).
           if moved then Return (d1, acc1) else unsafe_drift facts d1 acc1 x verdict)
      else unsafe_drift facts d acc x verdict)"

definition with_pr_flow ::
  "time_io \<Rightarrow> sweep_facts \<Rightarrow> pre_outcome \<Rightarrow> draft \<Rightarrow> pull_row \<Rightarrow> lock_acc \<Rightarrow> lock_state flow" where
  "with_pr_flow io facts pre d pr acc =
     (let n = dr_issue d; live = head_of (pre_heads pre) n
      in bind_flow (ask (Read_review_decision (pw_number pr) live Stage_lock) verdict_facts_of) (\<lambda>resolved.
         bind_flow (ask (Read_terminal n) terminal_of) (\<lambda>terminal.
         let x = \<lparr> px_number = n, px_pr = pr, px_reviewed = rd_reviewed_head resolved, px_live = live,
                   px_pid = dget d ''worker_pid'', px_exit = tf_exit terminal, px_duration = tf_duration terminal \<rparr>
         in if sc_outcome_every_route (sf_config facts)
            then bind_flow (resolve_outcome facts d x) (\<lambda>found.
                 bind_flow (case found of None \<Rightarrow> Return acc | Some outcome \<Rightarrow> queue_apply facts acc x outcome) (\<lambda>acc1.
                   route_pr io facts pre d acc1 x (rd_verdict resolved) (found \<noteq> None)))
            else route_pr io facts pre d acc x (rd_verdict resolved) False)))"

section \<open>Live hand-offs\<close>

text \<open>\<^verbatim>\<open>round(minutes, 1)\<close> of an age in microseconds, halves to even, as text.\<close>

definition tenths :: "int \<Rightarrow> int" where
  "tenths age =
     (let q = age div 6000000; r = 2 * (age mod 6000000)
      in if r < 6000000 \<or> (r = 6000000 \<and> even q) then q else q + 1)"

definition age_text :: "int \<Rightarrow> string" where
  "age_text age =
     (let t = tenths age
      in (if t < 0 then ''-'' else []) @ int_str (\<bar>t\<bar> div 10) @ ''.'' @ int_str (\<bar>t\<bar> mod 10))"

definition routed_outcome_key :: string where
  "routed_outcome_key = ''live_handoff_routed_outcome_at''"

definition stamp_routed :: "sweep_facts \<Rightarrow> int \<times> live_candidate \<Rightarrow> unit \<Rightarrow> unit flow" where
  "stamp_routed facts = (\<lambda>(n, c) u.
     if (case map_of (ss_issues (sf_locked facts)) n of None \<Rightarrow> False | Some e \<Rightarrow> is_dispatched e)
     then commit_flow (Update_issue n [(routed_outcome_key, JStr (lc_outcome_at c))] [])
     else Return ())"

definition hand_off_live :: "sweep_facts \<Rightarrow> int \<Rightarrow> live_candidate \<Rightarrow> draft \<Rightarrow> unit flow" where
  "hand_off_live facts n c d =
     bind_flow (ask (Open_pr_for_branch n (lc_branch c) Live_handoff) pr_open_of) (\<lambda>opened.
     case po_number opened of
       Some pr \<Rightarrow>
         bind_flow (flush (dset (dset d ''status'' (JStr ''open_passive'')) ''pr_number'' (JInt pr))) (\<lambda>_.
         emit ''worker_handoff_pr_opened''
           [(''issue_number'', JInt n), (''pr_number'', JInt pr), (''branch_name'', JStr (lc_branch c)),
            (''worker_reported'', JBool True), (''previous_status'', JStr ''dispatched''),
            (''reason'', JStr ''worker_outcome_stale_live_pid''), (''worker_pid'', lc_worker_pid c),
            (''worker_pid_still_running'', JBool True), (''outcome_age_minutes'', JReal (age_text (lc_outcome_age c))),
            (''label_write_ok'', JBool (po_error opened = None)), (''pr_error'', opt_json (po_error opened))])
     | None \<Rightarrow>
         (let fp = drift_fingerprint [(''reason'', Part_text (Some ''live_worker_handoff_pr_create_failed'')),
                     (''branch_name'', Part_text (Some (lc_branch c))),
                     (''error'', Part_text (Some (if truthy (po_error opened) then or_empty (po_error opened)
                                                  else ''unknown'')))]
          in if dget d ''orphan_drift_fingerprint'' = JStr fp then bind_flow (flush d) (\<lambda>_. Return ())
             else bind_flow (flush (dset (dset d ''orphan_drift_fingerprint'' (JStr fp))
                      ''orphan_drift_at'' (JStr (sf_stamp facts)))) (\<lambda>_.
                  emit ''pr_create_failed_branch_stranded''
                    [(''issue_number'', JInt n), (''branch_name'', JStr (lc_branch c)),
                     (''previous_status'', JStr ''dispatched''),
                     (''reason'', JStr ''live_worker_handoff_pr_create_failed''),
                     (''pr_create_error'', opt_json (po_error opened)), (''worker_reported'', JBool True),
                     (''worker_pid'', lc_worker_pid c), (''worker_pid_still_running'', JBool True)])))"

definition live_issue :: "sweep_facts \<Rightarrow> pre_outcome \<Rightarrow> int \<times> live_candidate \<Rightarrow> unit \<Rightarrow> unit flow" where
  "live_issue facts pre = (\<lambda>(n, c) u.
     (case map_of (ss_issues (sf_locked facts)) n of
        Some (JObj entry) \<Rightarrow>
          if jget entry ''status'' \<noteq> JStr ''dispatched'' then Return ()
          else (let d = dset (new_draft n entry) routed_outcome_key (JStr (lc_outcome_at c))
                in if map_of (pre_prs pre) n \<noteq> None then bind_flow (flush d) (\<lambda>_. Return ())
                   else hand_off_live facts n c d)
      | _ \<Rightarrow> Return ()))"

definition live_handoff_flow :: "sweep_facts \<Rightarrow> pre_outcome \<Rightarrow> unit flow" where
  "live_handoff_flow facts pre =
     bind_flow (loop_flow (stamp_routed facts) (pre_pr_already_open pre) ()) (\<lambda>_.
       loop_flow (live_issue facts pre) (pre_live pre) ())"

section \<open>The phase\<close>

definition escalated_in :: "lock_acc \<Rightarrow> int \<Rightarrow> lock_acc" where
  "escalated_in acc n = acc\<lparr> la_escalations := la_escalations acc @ [n] \<rparr>"

text \<open>One dead worker: the backstop first, then the arm of its pull request or of its absence.\<close>

definition lock_orphan ::
  "time_io \<Rightarrow> sweep_facts \<Rightarrow> pre_outcome \<Rightarrow> int \<Rightarrow> lock_acc \<Rightarrow> lock_acc flow" where
  "lock_orphan io facts pre n acc =
     (case map_of (ss_issues (sf_locked facts)) n of
        Some (JObj entry) \<Rightarrow>
          if jget entry ''status'' \<noteq> JStr ''dispatched'' then Return acc
          else (let pr = map_of (pre_prs pre) n
                in bind_flow (reap_flow io facts pre (new_draft n entry) pr acc) (\<lambda>(reaped, d).
                   if reaped then Return (escalated_in acc n)
                   else (case pr of
                           Some p \<Rightarrow>
                             bind_flow (with_pr_flow io facts pre d p acc) (\<lambda>(d1, acc1).
                             bind_flow (flush d1) (\<lambda>_. Return acc1))
                         | None \<Rightarrow>
                             bind_flow (lock_no_pr_flow io facts pre d) (\<lambda>(escalated, d1).
                             bind_flow (flush d1) (\<lambda>_.
                               Return (if escalated then escalated_in acc n else acc))))))
      | _ \<Rightarrow> Return acc)"

definition nothing_locked :: lock_outcome where
  "nothing_locked = \<lparr> lo_apply_routes = [], lo_review_routes = [], lo_no_op_routes = [], lo_escalations = [] \<rparr>"

definition lock_flow :: "time_io \<Rightarrow> sweep_facts \<Rightarrow> pre_outcome \<Rightarrow> lock_outcome flow" where
  "lock_flow io facts pre =
     (if pre_early_exit pre then Return nothing_locked
      else (let acc = \<lparr> la_throttled_until = ss_throttled_until (sf_locked facts), la_apply_routes = [],
                        la_review_routes = [], la_no_op_routes = [], la_escalations = [] \<rparr>
            in bind_flow (commit_all (map (\<lambda>(kind, payload). Emit kind payload None False) (pre_salvage_events pre)) ()) (\<lambda>_.
               bind_flow (loop_flow (lock_orphan io facts pre) (pre_orphans pre) acc) (\<lambda>acc1.
               bind_flow (live_handoff_flow facts pre) (\<lambda>_.
                 Return \<lparr> lo_apply_routes = la_apply_routes acc1, lo_review_routes = la_review_routes acc1,
                          lo_no_op_routes = la_no_op_routes acc1, lo_escalations = la_escalations acc1 \<rparr>)))))"

end
