(* ===== verification/Sweep_Post.thy ===== *)
theory Sweep_Post
  imports Sweep_Lock
begin

text \<open>
  The post-lock phase (\<^verbatim>\<open>decide_post.py\<close>): the queued outcomes, the review of each route with its
  guarded dispositions, the label edges and the drain of the no-op routes.
\<close>

type_synonym drained = "no_op_route list \<times> int list"

section \<open>One review route\<close>

definition review_payload :: "review_route \<Rightarrow> review_result \<Rightarrow> bool \<Rightarrow> json_dict" where
  "review_payload v r routed =
     [(''issue_number'', JInt (vr_issue v)), (''pr_number'', JInt (vr_pr v)), (''review_ok'', JBool (rr_ok r)),
      (''routed'', JBool routed), (''live_head_sha'', opt_json (vr_live_head v)),
      (''reviewed_head_sha'', opt_json (vr_reviewed_head v)), (''reason'', JStr (vr_reason v))]"

definition guarded :: "guarded_update \<Rightarrow> bool flow" where
  "guarded u = ask (Guarded_update u) bool_of"

definition to_review :: "review_route \<Rightarrow> review_result \<Rightarrow> guarded_update" where
  "to_review v r =
     \<lparr> gu_issue = vr_issue v, gu_set = [(''status'', JStr ''reviewing'')], gu_stamp_fields = [],
       gu_require_status = Some ''dispatched'', gu_require_head = vr_reviewed_head v,
       gu_event = Some (''orphaned_worker_routed_to_review'', review_payload v r True) \<rparr>"

definition to_rework :: "review_route \<Rightarrow> guarded_update" where
  "to_rework v =
     \<lparr> gu_issue = vr_issue v,
       gu_set = [(''status'', JStr ''rework_requested''), (''dispatched_at'', JNull), (''orphan_drift_at'', JNull)],
       gu_stamp_fields = [], gu_require_status = Some ''dispatched'', gu_require_head = vr_reviewed_head v,
       gu_event = Some (''orphaned_worker_recovered'',
         [(''issue_number'', JInt (vr_issue v)), (''pr_number'', JInt (vr_pr v)),
          (''previous_status'', JStr ''dispatched''), (''new_status'', JStr ''rework_requested''),
          (''reason'', JStr (vr_reason v))]) \<rparr>"

definition to_drift :: "review_route \<Rightarrow> review_result \<Rightarrow> guarded_update" where
  "to_drift v r =
     \<lparr> gu_issue = vr_issue v, gu_set = [(''orphan_drift_fingerprint'', JStr (vr_fingerprint v))],
       gu_stamp_fields = [''orphan_drift_at''], gu_require_status = Some ''dispatched'', gu_require_head = None,
       gu_event = Some (''orphaned_worker_drift'', review_payload v r False) \<rparr>"

definition review_no_op :: "review_route \<Rightarrow> review_result \<Rightarrow> no_op_route" where
  "review_no_op v r =
     \<lparr> nr_issue = vr_issue v, nr_pr = vr_pr v, nr_live_head = vr_live_head v, nr_reason = vr_reason v,
       nr_branch = opt_json (rr_entry_branch r) \<rparr>"

text \<open>The standalone record of a route whose every disposition was refused or did not apply.\<close>

definition report_uncommitted :: "review_route \<Rightarrow> review_result \<Rightarrow> unit flow" where
  "report_uncommitted v r =
     emit (if rr_ok r \<and> \<not> rr_deferred_live_worker r then ''orphaned_worker_routed_to_review''
           else ''orphaned_worker_drift'') (review_payload v r False)"

text \<open>The third disposition, and the record.\<close>

definition drift_disposition :: "review_route \<Rightarrow> review_result \<Rightarrow> bool \<Rightarrow> drained \<Rightarrow> drained flow" where
  "drift_disposition v r dispatched acc =
     (if \<not> rr_ok r \<and> \<not> rr_routed_to_rework r \<and> dispatched
      then bind_flow (guarded (to_drift v r)) (\<lambda>drifted.
           let acc1 = (if drifted \<and> vr_reason v = ''dead_worker_with_head_change'' \<and> rr_no_op_rework r
                       then (fst acc @ [review_no_op v r], snd acc) else acc)
           in if drifted then Return acc1 else bind_flow (report_uncommitted v r) (\<lambda>_. Return acc1))
      else bind_flow (report_uncommitted v r) (\<lambda>_. Return acc))"

text \<open>The dispositions in their order: a refused one falls through to the next.\<close>

definition dispose_review :: "review_route \<Rightarrow> review_result \<Rightarrow> drained \<Rightarrow> drained flow" where
  "dispose_review v r acc =
     (let dispatched = (rr_entry_status r = JStr ''dispatched'');
          unchanged = (rr_reviewed_head r = vr_reviewed_head v);
          blocked_route = (rr_routed_to_rework r \<or> rr_closed_converged r)
      in bind_flow (if rr_ok r \<and> \<not> blocked_route \<and> \<not> rr_deferred_live_worker r \<and> unchanged \<and> dispatched
                    then guarded (to_review v r) else Return False) (\<lambda>reviewing.
         if reviewing then Return acc
         else bind_flow (if \<not> rr_ok r \<and> \<not> blocked_route \<and> unchanged \<and>
                           vr_reason v = ''dead_worker_completed_outcome'' \<and> dispatched
                        then guarded (to_rework v) else Return False) (\<lambda>recovered.
              if recovered then Return (fst acc, snd acc @ [vr_issue v])
              else drift_disposition v r dispatched acc)))"

definition route_flow :: "review_route \<Rightarrow> drained \<Rightarrow> drained flow" where
  "route_flow v acc =
     (let review = bind_flow (ask (Review (vr_issue v) (vr_pr v) (vr_reason v)) review_of) (\<lambda>r.
            case rr_raised r of
              Some err \<Rightarrow>
                bind_flow (commit_flow (Emit ''orphaned_worker_review_route_failed''
                  [(''issue_number'', JInt (vr_issue v)), (''pr_number'', JInt (vr_pr v)),
                   (''reason'', JStr (vr_reason v)), (''error'', JStr err)] (Some ''warning'') True)) (\<lambda>_.
                Return acc)
            | None \<Rightarrow> dispose_review v r acc)
      in if vr_reason v = ''dead_worker_completed_outcome'' \<or> vr_awaits_head v
         then bind_flow (ask (Read_applied_heads (vr_issue v)) heads_of) (\<lambda>heads.
              if map_of heads (vr_issue v) = vr_live_head v then review else Return acc)
         else review)"

section \<open>The phase\<close>

definition post_flow :: "sweep_facts \<Rightarrow> pre_outcome \<Rightarrow> lock_outcome \<Rightarrow> unit flow" where
  "post_flow facts pre lo =
     bind_flow (commit_flow (Report_stale_evidence Bucket_swept)) (\<lambda>_.
     bind_flow (if lo_apply_routes lo = [] then Return False
                else ask (Apply_outcomes (lo_apply_routes lo)) bool_of) (\<lambda>_.
     bind_flow (if sf_review_available facts
                then loop_flow route_flow (lo_review_routes lo) (lo_no_op_routes lo, [])
                else Return (lo_no_op_routes lo, [])) (\<lambda>(no_op, recovered).
     bind_flow (commit_all (map (\<lambda>n. Transition_label n Edge_rework_requested True) recovered) ()) (\<lambda>_.
     bind_flow (if no_op = [] then Return False else ask (Drain_no_op no_op) bool_of) (\<lambda>_.
       commit_all (map (\<lambda>n. Transition_label n Edge_escalated False) (lo_escalations lo)) ())))))"

end
