(* ===== verification/Sweep_Decide.thy ===== *)
theory Sweep_Decide
  imports Sweep_Post "HOL-Library.AList"
begin

text \<open>
  The pure entry \<^verbatim>\<open>decide\<close> (\<^verbatim>\<open>decide.py\<close>), the shell that loops decide, apply, serve
  (\<^verbatim>\<open>apply.py\<close>), and the two writes of an issue's entry (\<^verbatim>\<open>apply_commits.py\<close>,
  \<^verbatim>\<open>apply_requests_lock.py\<close>). The shell runs on a world of any type: its handlers, the appliers of its
  commits, the abort record, the clock and the locked load and save are a record of functions.
\<close>

section \<open>Decide\<close>

datatype plan = Plan "request list" "commit list" | Phase_order_error | Decide_raised

fun plan_of :: "'a run_end \<times> commit list \<Rightarrow> plan" where
  "plan_of (Finished a, cs) = Plan [] cs"
| "plan_of (Pending q, cs) = Plan [q] cs"
| "plan_of (Raised, cs) = Decide_raised"

text \<open>\<^verbatim>\<open>_completed\<close>: a phase needs the value its predecessor returned.\<close>

definition completed :: "'a flow \<Rightarrow> observations \<Rightarrow> ('a \<Rightarrow> plan) \<Rightarrow> plan" where
  "completed f obs k =
     (case fst (run_flow f obs) of
        Finished a \<Rightarrow> k a
      | Pending q \<Rightarrow> Phase_order_error
      | Raised \<Rightarrow> Decide_raised)"

definition decide :: "time_io \<Rightarrow> sweep_facts \<Rightarrow> observations \<Rightarrow> plan" where
  "decide io facts obs =
     (case sf_phase facts of
        Pre_phase \<Rightarrow> plan_of (run_flow (pre_flow io facts) obs)
      | Lock_phase \<Rightarrow>
          completed (pre_flow io facts) obs (\<lambda>pre. plan_of (run_flow (lock_flow io facts pre) obs))
      | Post_phase \<Rightarrow>
          completed (pre_flow io facts) obs (\<lambda>pre.
            completed (lock_flow io facts pre) obs (\<lambda>locked.
              plan_of (run_flow (post_flow facts pre locked) obs))))"

section \<open>The shell\<close>

datatype abort_reason =
  Order_error
| Prefix_changed
| Illegal_commit commit
| Already_observed request
| Illegal_request request
| Too_many_rounds

definition plan_violation_kind :: string where
  "plan_violation_kind = ''dead_worker_sweep_plan_violation''"

definition no_progress_kind :: string where
  "no_progress_kind = ''dead_worker_sweep_no_progress''"

fun abort_kind :: "abort_reason \<Rightarrow> string" where
  "abort_kind (Already_observed q) = no_progress_kind"
| "abort_kind Too_many_rounds = no_progress_kind"
| "abort_kind _ = plan_violation_kind"

text \<open>
  What the shell calls. A handler or an applier may raise: None, False. \<open>sh_load\<close> is the load under
  the sweep's lock with \<^verbatim>\<open>persist_pre_classified\<close>, and \<open>sh_save\<close> appends the queued events, saves and
  releases the lock.
\<close>

record 'w shell =
  sh_serve :: "request \<Rightarrow> 'w \<Rightarrow> 'w \<times> response option"
  sh_apply :: "phase \<Rightarrow> commit \<Rightarrow> 'w \<Rightarrow> 'w \<times> bool"
  sh_abort :: "phase \<Rightarrow> abort_reason \<Rightarrow> 'w \<Rightarrow> 'w"
  sh_stamp :: "'w \<Rightarrow> 'w \<times> string"
  sh_load :: "'w \<Rightarrow> 'w \<times> sweep_state"
  sh_save :: "'w \<Rightarrow> 'w"

datatype phase_end = Phase_done | Phase_aborted abort_reason | Phase_raised

text \<open>The loop over the new commits of a plan; None when all were applied.\<close>

fun apply_commits :: "'w shell \<Rightarrow> phase \<Rightarrow> commit list \<Rightarrow> 'w \<Rightarrow> 'w \<times> phase_end option" where
  "apply_commits sh ph [] w = (w, None)"
| "apply_commits sh ph (c # cs) w =
     (if \<not> commit_legal ph c then (w, Some (Phase_aborted (Illegal_commit c)))
      else (case sh_apply sh ph c w of
              (w', True) \<Rightarrow> apply_commits sh ph cs w'
            | (w', False) \<Rightarrow> (w', Some Phase_raised)))"

text \<open>The rounds of \<^verbatim>\<open>_run_phase\<close>; \<open>applied\<close> are the commits of the earlier rounds.\<close>

fun phase_rounds ::
  "nat \<Rightarrow> 'w shell \<Rightarrow> (observations \<Rightarrow> plan) \<Rightarrow> phase \<Rightarrow> commit list \<Rightarrow> observations \<Rightarrow> 'w \<Rightarrow>
   'w \<times> observations \<times> phase_end" where
  "phase_rounds 0 sh plans ph applied obs w = (w, obs, Phase_aborted Too_many_rounds)"
| "phase_rounds (Suc k) sh plans ph applied obs w =
     (case plans obs of
        Phase_order_error \<Rightarrow> (w, obs, Phase_aborted Order_error)
      | Decide_raised \<Rightarrow> (w, obs, Phase_raised)
      | Plan requests commits \<Rightarrow>
          if take (length applied) commits \<noteq> applied then (w, obs, Phase_aborted Prefix_changed)
          else (case apply_commits sh ph (drop (length applied) commits) w of
                  (w1, Some e) \<Rightarrow> (w1, obs, e)
                | (w1, None) \<Rightarrow>
                    (case requests of
                       [] \<Rightarrow> (w1, obs, Phase_done)
                     | q # _ \<Rightarrow>
                         if obs q \<noteq> None then (w1, obs, Phase_aborted (Already_observed q))
                         else if \<not> request_legal ph q then (w1, obs, Phase_aborted (Illegal_request q))
                         else (case sh_serve sh q w1 of
                                 (w2, None) \<Rightarrow> (w2, obs, Phase_raised)
                               | (w2, Some r) \<Rightarrow>
                                   phase_rounds k sh plans ph commits (obs(q \<mapsto> r)) w2))))"

definition max_rounds_per_phase :: nat where
  "max_rounds_per_phase = 5000"

definition run_phase ::
  "'w shell \<Rightarrow> time_io \<Rightarrow> sweep_facts \<Rightarrow> observations \<Rightarrow> 'w \<Rightarrow> 'w \<times> observations \<times> phase_end" where
  "run_phase sh io facts obs w =
     (case phase_rounds max_rounds_per_phase sh (decide io facts) (sf_phase facts) [] obs w of
        (w', obs', Phase_aborted a) \<Rightarrow> (sh_abort sh (sf_phase facts) a w', obs', Phase_aborted a)
      | done \<Rightarrow> done)"

text \<open>\<^verbatim>\<open>_facts\<close>: a phase's facts, with a stamp minted for it.\<close>

definition phase_facts ::
  "'w shell \<Rightarrow> sweep_facts \<Rightarrow> phase \<Rightarrow> sweep_state \<Rightarrow> 'w \<Rightarrow> 'w \<times> sweep_facts" where
  "phase_facts sh base ph locked w =
     (case sh_stamp sh w of
        (w', stamp) \<Rightarrow> (w', base\<lparr> sf_phase := ph, sf_stamp := stamp, sf_locked := locked \<rparr>))"

definition no_state :: sweep_state where
  "no_state = \<lparr> ss_issues = [], ss_prs = [], ss_throttled_until = JNull, ss_applied_heads = [] \<rparr>"

text \<open>\<^verbatim>\<open>_run_sweep\<close>. The save runs also when the locked phase aborts or raises.\<close>

definition run_locked ::
  "'w shell \<Rightarrow> time_io \<Rightarrow> sweep_facts \<Rightarrow> observations \<Rightarrow> 'w \<Rightarrow> 'w \<times> observations \<times> sweep_state \<times> phase_end" where
  "run_locked sh io base obs w =
     (case sh_load sh w of
        (w1, locked) \<Rightarrow>
          (case phase_facts sh base Lock_phase locked w1 of
             (w2, facts) \<Rightarrow>
               (case run_phase sh io facts obs w2 of
                  (w3, obs', e) \<Rightarrow> (sh_save sh w3, obs', locked, e))))"

definition run_sweep :: "'w shell \<Rightarrow> time_io \<Rightarrow> sweep_facts \<Rightarrow> 'w \<Rightarrow> 'w \<times> phase_end" where
  "run_sweep sh io base w =
     (case phase_facts sh base Pre_phase no_state w of
        (w1, facts) \<Rightarrow>
          (case run_phase sh io facts Map.empty w1 of
             (w2, obs, Phase_done) \<Rightarrow>
               if obs Fetch_open_prs = None then (w2, Phase_done)
               else (case run_locked sh io base obs w2 of
                       (w3, obs', locked, Phase_done) \<Rightarrow>
                         (case phase_facts sh base Post_phase locked w3 of
                            (w4, facts') \<Rightarrow>
                              (case run_phase sh io facts' obs' w4 of (w5, _, e) \<Rightarrow> (w5, e)))
                     | (w3, _, _, e) \<Rightarrow> (w3, e))
           | (w2, _, e) \<Rightarrow> (w2, e)))"

section \<open>The writes of an issue's entry\<close>

definition put_issue :: "sweep_state \<Rightarrow> int \<Rightarrow> json_dict \<Rightarrow> sweep_state" where
  "put_issue s n entry = s\<lparr> ss_issues := AList.update n (JObj entry) (ss_issues s) \<rparr>"

text \<open>\<^verbatim>\<open>_apply_update\<close> and \<^verbatim>\<open>_update_in_memory\<close>.\<close>

definition updated_entry :: "json_dict \<Rightarrow> json_dict \<Rightarrow> string list \<Rightarrow> json_dict" where
  "updated_entry entry set_fields cleared =
     filter (\<lambda>(k, v). k \<notin> set cleared) (jupdate entry set_fields)"

definition update_in_memory :: "sweep_state \<Rightarrow> int \<Rightarrow> json_dict \<Rightarrow> string list \<Rightarrow> sweep_state" where
  "update_in_memory s n set_fields cleared =
     (case map_of (ss_issues s) n of
        Some (JObj entry) \<Rightarrow> put_issue s n (updated_entry entry set_fields cleared)
      | _ \<Rightarrow> s)"

text \<open>
  \<^verbatim>\<open>guarded_update\<close>: the guards are checked on a fresh load in the lock window that writes. \<open>review_prs\<close> is
  the shell's table of the pull request reviewed for an issue; a stored pull request number that is no
  number finds no pull request. An append that raises (\<open>appended\<close> is False) leaves the file as it is:
  the outer None.
\<close>

definition guard_pr :: "(int \<times> int) list \<Rightarrow> int \<Rightarrow> json_dict \<Rightarrow> int option" where
  "guard_pr review_prs n entry =
     (case map_of review_prs n of
        Some pr \<Rightarrow> Some pr
      | None \<Rightarrow> (case jget entry ''pr_number'' of JInt pr \<Rightarrow> Some pr | _ \<Rightarrow> None))"

definition reviewed_head_of :: "sweep_state \<Rightarrow> int option \<Rightarrow> json" where
  "reviewed_head_of s pr =
     (case pr of
        None \<Rightarrow> JNull
      | Some p \<Rightarrow> (case map_of (ss_prs s) p of None \<Rightarrow> JNull | Some d \<Rightarrow> jget d ''reviewed_head_sha''))"

definition guards_hold :: "sweep_state \<Rightarrow> (int \<times> int) list \<Rightarrow> guarded_update \<Rightarrow> json_dict \<Rightarrow> bool" where
  "guards_hold s review_prs u entry \<longleftrightarrow>
     (case gu_require_status u of None \<Rightarrow> True | Some v \<Rightarrow> jget entry ''status'' = JStr v) \<and>
     (case gu_require_head u of
        None \<Rightarrow> True
      | Some v \<Rightarrow> reviewed_head_of s (guard_pr review_prs (gu_issue u) entry) = JStr v)"

definition guarded_entry :: "guarded_update \<Rightarrow> string \<Rightarrow> json_dict \<Rightarrow> json_dict" where
  "guarded_entry u stamp entry =
     foldl (\<lambda>e k. jput e k (JStr stamp)) (jupdate entry (gu_set u)) (gu_stamp_fields u)"

type_synonym event_log = "(string \<times> json_dict) list"

definition guarded_update ::
  "sweep_state \<times> event_log \<Rightarrow> (int \<times> int) list \<Rightarrow> string \<Rightarrow> bool \<Rightarrow> guarded_update \<Rightarrow>
   ((sweep_state \<times> event_log) \<times> bool) option" where
  "guarded_update file review_prs stamp appended u =
     (case map_of (ss_issues (fst file)) (gu_issue u) of
        Some (JObj entry) \<Rightarrow>
          if \<not> guards_hold (fst file) review_prs u entry then Some (file, False)
          else if gu_event u \<noteq> None \<and> \<not> appended then None
          else Some ((put_issue (fst file) (gu_issue u) (guarded_entry u stamp entry),
                      snd file @ (case gu_event u of None \<Rightarrow> [] | Some ev \<Rightarrow> [ev])), True)
      | _ \<Rightarrow> Some (file, False))"

end
