(* ===== verification/Sweep_Shell.thy ===== *)
theory Sweep_Shell
  imports Sweep_Decide
begin

text \<open>
  The shell's loop and the flow it replays. \<open>exec_flow\<close> runs a flow directly: a request is served where
  the flow reaches it, a commit applied where it is made. The locale \<open>phase_contract\<close> is what the
  shell needs of a phase's flow; under it the loop is the direct run.
\<close>

section \<open>A direct run\<close>

primrec exec_flow ::
  "'w shell \<Rightarrow> phase \<Rightarrow> 'a flow \<Rightarrow> observations \<Rightarrow> 'w \<Rightarrow> 'w \<times> observations \<times> 'a option" where
  "exec_flow sh ph (Return a) obs w = (w, obs, Some a)"
| "exec_flow sh ph (Commit c f) obs w =
     (case sh_apply sh ph c w of
        (w', True) \<Rightarrow> exec_flow sh ph f obs w'
      | (w', False) \<Rightarrow> (w', obs, None))"
| "exec_flow sh ph (Ask q f) obs w =
     (case obs q of
        Some r \<Rightarrow> exec_flow sh ph (f r) obs w
      | None \<Rightarrow>
          (case sh_serve sh q w of
             (w', None) \<Rightarrow> (w', obs, None)
           | (w', Some r) \<Rightarrow> exec_flow sh ph (f r) (obs(q \<mapsto> r)) w'))"
| "exec_flow sh ph Raise obs w = (w, obs, None)"

fun end_of :: "'w \<times> observations \<times> 'a option \<Rightarrow> 'w \<times> observations \<times> phase_end" where
  "end_of (w, obs, Some a) = (w, obs, Phase_done)"
| "end_of (w, obs, None) = (w, obs, Phase_raised)"

text \<open>Results stay, and the results observed are those the contract allows.\<close>

definition observed_ok :: "contract \<Rightarrow> observations \<Rightarrow> bool" where
  "observed_ok ct obs \<longleftrightarrow> (\<forall>q r. obs q = Some r \<longrightarrow> ct_result ct q r)"

definition serves_ok :: "contract \<Rightarrow> 'w shell \<Rightarrow> bool" where
  "serves_ok ct sh \<longleftrightarrow> (\<forall>q w w' r. sh_serve sh q w = (w', Some r) \<longrightarrow> ct_result ct q r)"

lemma observed_ok_upd: "observed_ok ct obs \<Longrightarrow> ct_result ct q r \<Longrightarrow> observed_ok ct (obs(q \<mapsto> r))"
  by (simp add: observed_ok_def)

lemma observed_okD: "observed_ok ct obs \<Longrightarrow> obs q = Some r \<Longrightarrow> ct_result ct q r"
  by (simp add: observed_ok_def)

lemma serves_okD: "serves_ok ct sh \<Longrightarrow> sh_serve sh q w = (w', Some r) \<Longrightarrow> ct_result ct q r"
  unfolding serves_ok_def by blast

lemma map_le_new:
  assumes "obs q = None" and "obs(q \<mapsto> r) \<subseteq>\<^sub>m obs'"
  shows "obs \<subseteq>\<^sub>m obs'" and "obs' q = Some r"
proof -
  show "obs' q = Some r"
    using assms(2) by (simp add: map_le_def dom_def)
  show "obs \<subseteq>\<^sub>m obs'"
    unfolding map_le_def
  proof
    fix p
    assume "p \<in> dom obs"
    then have "p \<noteq> q" and "p \<in> dom (obs(q \<mapsto> r))"
      using assms(1) by auto
    then show "obs p = obs' p"
      using assms(2) unfolding map_le_def by (metis fun_upd_other)
  qed
qed

lemma exec_observed:
  assumes "serves_ok ct sh" and "observed_ok ct obs" and "exec_flow sh ph f obs w = (w', obs', v)"
  shows "obs \<subseteq>\<^sub>m obs' \<and> observed_ok ct obs'"
  using assms(2,3)
proof (induction f arbitrary: obs w)
  case (Ask q f)
  show ?case
  proof (cases "obs q")
    case (Some r)
    with Ask.prems have "exec_flow sh ph (f r) obs w = (w', obs', v)"
      by simp
    from Ask.IH [OF rangeI Ask.prems(1) this] show ?thesis .
  next
    case None
    show ?thesis
    proof (cases "sh_serve sh q w")
      case (Pair w1 answer)
      show ?thesis
      proof (cases answer)
        case (Some r)
        with None Pair Ask.prems have "exec_flow sh ph (f r) (obs(q \<mapsto> r)) w1 = (w', obs', v)"
          by simp
        moreover have "observed_ok ct (obs(q \<mapsto> r))"
          using Ask.prems(1) Pair Some assms(1) by (blast intro: observed_ok_upd serves_okD)
        ultimately have "obs(q \<mapsto> r) \<subseteq>\<^sub>m obs' \<and> observed_ok ct obs'"
          using Ask.IH [OF rangeI] by blast+
        then show ?thesis
          using map_le_new(1) [where obs = obs and q = q and r = r] None by blast
      qed (use None Pair Ask.prems in auto)
    qed
  qed
qed (auto split: prod.splits bool.splits)

text \<open>The value of a direct run is the value of a replay under its results.\<close>

lemma exec_replays:
  assumes "exec_flow sh ph f obs w = (w', obs', Some a)"
  shows "\<exists>cs. run_flow f obs' = (Finished a, cs)"
  using assms
proof (induction f arbitrary: obs w)
  case (Ask q f)
  show ?case
  proof (cases "obs q")
    case (Some r)
    with Ask.prems have "exec_flow sh ph (f r) obs w = (w', obs', Some a)"
      by simp
    moreover from exec_observed [OF _ _ this, where ct = "\<lparr> ct_result = \<lambda>_ _. True, ct_request = \<lambda>_. True, ct_commit = \<lambda>_. True \<rparr>"]
    have "obs' q = Some r"
      using Some by (simp add: serves_ok_def observed_ok_def map_le_def dom_def)
    ultimately show ?thesis
      using Ask.IH [OF rangeI] by auto
  next
    case None
    with Ask.prems obtain w1 r where r: "sh_serve sh q w = (w1, Some r)"
      "exec_flow sh ph (f r) (obs(q \<mapsto> r)) w1 = (w', obs', Some a)"
      by (auto split: prod.splits option.splits)
    from exec_observed [OF _ _ r(2), where ct = "\<lparr> ct_result = \<lambda>_ _. True, ct_request = \<lambda>_. True, ct_commit = \<lambda>_. True \<rparr>"]
    have "obs' q = Some r"
      by (simp add: serves_ok_def observed_ok_def map_le_def dom_def)
    with r Ask.IH [OF rangeI] show ?thesis
      by auto
  qed
qed (fastforce split: prod.splits bool.splits)+

section \<open>The loop is a direct run\<close>

lemma apply_commits_append:
  "apply_commits sh ph (cs @ ds) w =
     (case apply_commits sh ph cs w of
        (w', None) \<Rightarrow> apply_commits sh ph ds w'
      | (w', Some e) \<Rightarrow> (w', Some e))"
  by (induction cs arbitrary: w) (auto split: prod.split bool.split option.split)

fun behind :: "commit list \<Rightarrow> 'a run_end \<times> commit list \<Rightarrow> 'a run_end \<times> commit list" where
  "behind ds (e, cs) = (e, ds @ cs)"

text \<open>
  In the middle of a round: \<open>applied\<close> were applied in the earlier rounds, \<open>ds\<close> in this one up to the
  point where \<open>f\<close> is what is left of the flow.
\<close>

lemma rounds_exec:
  assumes "flow_sat ct P f n" and "n \<le> k"
    and "observed_ok ct obs" and "serves_ok ct sh"
    and "\<And>q. ct_request ct q \<Longrightarrow> request_legal ph q"
    and "\<And>c. ct_commit ct c \<Longrightarrow> commit_legal ph c"
    and "\<And>obs'. obs \<subseteq>\<^sub>m obs' \<Longrightarrow> plans obs' = plan_of (behind (applied @ ds) (run_flow f obs'))"
    and "apply_commits sh ph ds w = (w1, None)"
  shows "phase_rounds (Suc k) sh plans ph applied obs w = end_of (exec_flow sh ph f obs w1)"
  using assms(1,2,3,7,8)
proof (induction f arbitrary: n k obs applied ds w w1)
  case (Return a)
  from Return.prems(4) [of obs] Return.prems(5) show ?case
    by simp
next
  case (Commit c f)
  have legal: "commit_legal ph c" and sat: "flow_sat ct P f n"
    using Commit.prems(1) assms(6) by auto
  have plans: "plans obs' = plan_of (behind (applied @ (ds @ [c])) (run_flow f obs'))"
    if "obs \<subseteq>\<^sub>m obs'" for obs'
    using Commit.prems(4) [OF that] by (cases "run_flow f obs'") auto
  show ?case
  proof (cases "sh_apply sh ph c w1")
    case (Pair w2 ok)
    show ?thesis
    proof (cases ok)
      case True
      have "apply_commits sh ph (ds @ [c]) w = (w2, None)"
        using Commit.prems(5) Pair True legal by (simp add: apply_commits_append)
      from Commit.IH [OF sat Commit.prems(2,3) plans this] show ?thesis
        using Pair True by simp
    next
      case False
      obtain e cs where run: "run_flow f obs = (e, cs)"
        by (cases "run_flow f obs")
      have "e \<noteq> Raised"
        using flow_sat_run [OF sat observed_okD [OF Commit.prems(3)] run] by auto
      then obtain qs where "plan_of (e, (applied @ (ds @ [c])) @ cs) = Plan qs ((applied @ (ds @ [c])) @ cs)"
        by (cases e) auto
      moreover have "apply_commits sh ph ((ds @ [c]) @ cs) w = (w2, Some Phase_raised)"
        using Commit.prems(5) Pair False legal by (simp add: apply_commits_append)
      ultimately show ?thesis
        using plans [of obs] run Pair False by simp
    qed
  qed
next
  case (Ask q f)
  have legal: "request_legal ph q" and pos: "0 < n"
    and sat: "\<And>r. ct_result ct q r \<Longrightarrow> flow_sat ct P (f r) (n - 1)"
    using Ask.prems(1) assms(5) by auto
  show ?case
  proof (cases "obs q")
    case (Some r)
    have plans: "plans obs' = plan_of (behind (applied @ ds) (run_flow (f r) obs'))"
      if "obs \<subseteq>\<^sub>m obs'" for obs'
    proof -
      have "obs' q = Some r"
        using that Some by (metis domI map_le_def)
      with Ask.prems(4) [OF that] show ?thesis
        by simp
    qed
    have "n - 1 \<le> k"
      using Ask.prems(2) by simp
    from Ask.IH [OF rangeI sat [OF observed_okD [OF Ask.prems(3) Some]] this Ask.prems(3) plans Ask.prems(5)]
    show ?thesis
      using Some by simp
  next
    case None
    have plan: "plans obs = Plan [q] (applied @ ds)"
      using Ask.prems(4) [of obs] None by simp
    show ?thesis
    proof (cases "sh_serve sh q w1")
      case (Pair w2 answer)
      show ?thesis
      proof (cases answer)
        case None
        with plan Pair \<open>obs q = None\<close> legal Ask.prems(5) show ?thesis
          by simp
      next
        case (Some r)
        let ?obs = "obs(q \<mapsto> r)"
        have res: "ct_result ct q r"
          using serves_okD [OF assms(4)] Pair Some by blast
        obtain m where k: "k = Suc m"
          using pos Ask.prems(2) by (cases k) auto
        have plans: "plans obs' = plan_of (behind ((applied @ ds) @ []) (run_flow (f r) obs'))"
          if "?obs \<subseteq>\<^sub>m obs'" for obs'
        proof -
          note obs = map_le_new [where obs = obs and q = q and r = r, OF \<open>obs q = None\<close> that]
          show ?thesis
            using Ask.prems(4) [OF obs(1)] obs(2) by simp
        qed
        have nm: "n - 1 \<le> m"
          using Ask.prems(2) k by simp
        have "phase_rounds (Suc m) sh plans ph (applied @ ds) ?obs w2 = end_of (exec_flow sh ph (f r) ?obs w2)"
          by (rule Ask.IH [OF rangeI sat [OF res] nm observed_ok_upd [OF Ask.prems(3) res],
                where applied = "applied @ ds" and ds = "[]"])
            (use plans in \<open>simp_all del: fun_upd_apply\<close>)
        then show ?thesis
          using plan Pair Some \<open>obs q = None\<close> legal Ask.prems(5)
          by (simp only: k phase_rounds.simps(2) [of "Suc m"]) simp
      qed
    qed
  qed
next
  case Raise
  then show ?case
    by simp
qed

text \<open>
  What the shell needs of a phase: its flow keeps the contract within \<open>bound\<close> requests, the contract
  allows what the phase's gates allow, and the bound is below the round cap.
\<close>

locale phase_contract =
  fixes ct :: contract and ph :: phase and ready :: bool
    and flow :: "'a flow" and returns :: "'a \<Rightarrow> bool" and bound :: nat
  assumes keeps: "ready \<Longrightarrow> flow_sat ct returns flow bound"
    and legal_requests: "ct_request ct q \<Longrightarrow> request_legal ph q"
    and legal_commits: "ct_commit ct c \<Longrightarrow> commit_legal ph c"
    and below_cap: "ready \<Longrightarrow> bound < max_rounds_per_phase"
begin

lemma rounds_suffice:
  assumes "ready" and "observed_ok ct obs" and "serves_ok ct sh" and "bound < k"
    and "\<And>obs'. obs \<subseteq>\<^sub>m obs' \<Longrightarrow> plans obs' = plan_of (run_flow flow obs')"
  shows "phase_rounds k sh plans ph [] obs w = end_of (exec_flow sh ph flow obs w)"
proof -
  obtain m where k: "k = Suc m" "bound \<le> m"
    using assms(4) by (cases k) auto
  have "plans obs' = plan_of (behind ([] @ []) (run_flow flow obs'))" if "obs \<subseteq>\<^sub>m obs'" for obs'
    using assms(5) [OF that] by (cases "run_flow flow obs'") simp
  from rounds_exec [OF keeps [OF assms(1)] k(2) assms(2,3) legal_requests legal_commits this]
  show ?thesis
    using k(1) by simp
qed

lemma rounds_are_direct:
  assumes "ready" and "observed_ok ct obs" and "serves_ok ct sh"
    and "\<And>obs'. obs \<subseteq>\<^sub>m obs' \<Longrightarrow> plans obs' = plan_of (run_flow flow obs')"
  shows "phase_rounds max_rounds_per_phase sh plans ph [] obs w = end_of (exec_flow sh ph flow obs w)"
  by (rule rounds_suffice [OF assms(1-3) below_cap [OF assms(1)] assms(4)])

lemma returned:
  assumes "ready" and "observed_ok ct obs" and "run_flow flow obs = (Finished a, cs)"
  shows "returns a"
  using flow_sat_run [OF keeps [OF assms(1)] observed_okD [OF assms(2)] assms(3)] by simp

lemma commits_kept:
  assumes "ready" and "observed_ok ct obs" and "run_flow flow obs = (e, cs)"
  shows "e \<noteq> Raised \<and> (\<forall>c \<in> set cs. ct_commit ct c) \<and> (\<forall>q. e = Pending q \<longrightarrow> ct_request ct q)"
  using flow_sat_run [OF keeps [OF assms(1)] observed_okD [OF assms(2)] assms(3)] by auto

end

end
