(* ===== verification/Sweep_Contracts.thy ===== *)
theory Sweep_Contracts
  imports Sweep_Shell
begin

text \<open>
  The contract of each phase's flow: the requests it puts and the commits it makes, that it never
  raises, what it returns, and the number of requests on any path.
\<close>

section \<open>Results\<close>

text \<open>
  What the handlers guarantee beyond the type: an outcome that pins the live head has one, and at most
  \<open>lim\<close> live workers are candidates.
\<close>

fun result_holds :: "nat \<Rightarrow> request \<Rightarrow> response \<Rightarrow> bool" where
  "result_holds lim (Read_completed_outcome _ _ _ _) (R_outcome (Some d)) \<longleftrightarrow> map_of d ''head_sha'' \<noteq> None"
| "result_holds lim Collect_live_handoff (R_live x) \<longleftrightarrow> length x \<le> lim"
| "result_holds lim q r \<longleftrightarrow> True"

definition well_answered :: "nat \<Rightarrow> request \<Rightarrow> response \<Rightarrow> bool" where
  "well_answered lim q r \<longleftrightarrow> answers q r \<and> result_holds lim q r"

lemma well_answered_simps [simp]:
  "well_answered lim Read_clock r \<longleftrightarrow> (\<exists>x. r = R_time x)"
  "well_answered lim Collect_live_handoff r \<longleftrightarrow> (\<exists>x. r = R_live x \<and> length x \<le> lim)"
  "well_answered lim Fetch_open_prs r \<longleftrightarrow> (\<exists>x. r = R_prs x)"
  "well_answered lim (Fetch_open_issues lane) r \<longleftrightarrow> (\<exists>x. r = R_issues x)"
  "well_answered lim (Resolve_fate n stage) r \<longleftrightarrow> (\<exists>x. r = R_fate x)"
  "well_answered lim (Strip_and_flag n kind) r \<longleftrightarrow> (\<exists>x. r = R_label_write x)"
  "well_answered lim (Close_verified_no_changes n detail) r \<longleftrightarrow> (\<exists>x. r = R_verified x)"
  "well_answered lim (Probe_zero_artifact n) r \<longleftrightarrow> (\<exists>x. r = R_bool x)"
  "well_answered lim (Probe_cross_repo_scope n) r \<longleftrightarrow> (\<exists>x y. r = R_scope x y)"
  "well_answered lim (Park_or_reclaim n) r \<longleftrightarrow> (\<exists>x. r = R_bool x)"
  "well_answered lim (Park_backstop ns ms) r \<longleftrightarrow> (\<exists>x. r = R_backstop x)"
  "well_answered lim (Salvage_push n b) r \<longleftrightarrow> (\<exists>x. r = R_salvage x)"
  "well_answered lim (Probe_remote_branch n b) r \<longleftrightarrow> (\<exists>x. r = R_probe x)"
  "well_answered lim (Probe_worktree_head n b) r \<longleftrightarrow> (\<exists>x. r = R_sha x)"
  "well_answered lim (Read_review_decision p h review_stage) r \<longleftrightarrow> (\<exists>x. r = R_review_facts x)"
  by (cases r; simp add: well_answered_def)+

lemma well_answered_simps' [simp]:
  "well_answered lim (Fetch_pr_view p) r \<longleftrightarrow> (\<exists>x. r = R_pr_view x)"
  "well_answered lim (Open_pr_for_branch n b source) r \<longleftrightarrow> (\<exists>x. r = R_pr_open x)"
  "well_answered lim (Advance_to_pr_open n) r \<longleftrightarrow> (\<exists>x. r = R_bool x)"
  "well_answered lim (Credit_dead_worker n c at p') r \<longleftrightarrow> (\<exists>x. r = R_credit x)"
  "well_answered lim (Exempt_throttle_clean_exit n at p') r \<longleftrightarrow> (\<exists>x. r = R_credit x)"
  "well_answered lim (Read_terminal n) r \<longleftrightarrow> (\<exists>x. r = R_terminal x)"
  "well_answered lim (Read_blocked_outcome n) r \<longleftrightarrow> (\<exists>x. r = R_outcome x)"
  "well_answered lim (Apply_outcomes routes) r \<longleftrightarrow> (\<exists>x. r = R_bool x)"
  "well_answered lim (Read_applied_heads n) r \<longleftrightarrow> (\<exists>x. r = R_heads x)"
  "well_answered lim (Review n p reason) r \<longleftrightarrow> (\<exists>x. r = R_review x)"
  "well_answered lim (Guarded_update u) r \<longleftrightarrow> (\<exists>x. r = R_bool x)"
  "well_answered lim (Drain_no_op routes') r \<longleftrightarrow> (\<exists>x. r = R_bool x)"
  by (cases r; simp add: well_answered_def)+

lemma well_answered_outcome [simp]:
  "well_answered lim (Read_completed_outcome n p head branch) r \<longleftrightarrow>
     (\<exists>x. r = R_outcome x \<and> (\<forall>d. x = Some d \<longrightarrow> map_of d ''head_sha'' \<noteq> None))"
proof (cases r)
  case (R_outcome x)
  then show ?thesis
    by (cases x) (simp_all add: well_answered_def)
qed (simp_all add: well_answered_def)

section \<open>The pre-lock phase\<close>

definition pre_contract :: "nat \<Rightarrow> contract" where
  "pre_contract lim =
     \<lparr> ct_result = well_answered lim, ct_request = pre_legal, ct_commit = commit_legal Pre_phase \<rparr>"

lemma pre_contract_simps [simp]:
  "ct_result (pre_contract lim) = well_answered lim"
  "ct_request (pre_contract lim) = pre_legal"
  "ct_commit (pre_contract lim) = commit_legal Pre_phase"
  by (simp_all add: pre_contract_def)

lemma pre_legal_simps [simp]:
  "pre_legal Read_clock" "pre_legal Collect_live_handoff" "pre_legal Fetch_open_prs"
  "pre_legal (Fetch_open_issues lane)" "pre_legal (Resolve_fate n stage)" "pre_legal (Strip_and_flag n kind)"
  "pre_legal (Close_verified_no_changes n detail)" "pre_legal (Probe_zero_artifact n)"
  "pre_legal (Probe_cross_repo_scope n)" "pre_legal (Park_or_reclaim n)" "pre_legal (Park_backstop ns ms)"
  "pre_legal (Salvage_push n b)" "pre_legal (Probe_remote_branch n b)" "pre_legal (Probe_worktree_head n b)"
  "pre_legal (Read_review_decision p h review_stage)" "pre_legal (Fetch_pr_view p)"
  by (simp_all add: pre_legal_def)

lemma commit_legal_pre [simp]: "commit_legal Pre_phase c"
  by (cases c) simp_all

definition fates_for :: "(int \<times> string list) list \<Rightarrow> int list \<Rightarrow> (int \<times> fate_result) list \<Rightarrow> bool" where
  "fates_for issues ns fates \<longleftrightarrow> (\<forall>n \<in> set ns. map_of issues n \<noteq> None \<longrightarrow> map_of fates n \<noteq> None)"

lemma fates_for_snoc: "fates_for issues ns fates \<Longrightarrow> fates_for issues ns (fates @ [(n, f)])"
  by (auto simp: fates_for_def map_of_append map_add_def split: option.split)

lemma resolve_fates_sat:
  "flow_sat (pre_contract lim) (fates_for issues no_pr) (resolve_fates issues no_pr) (length no_pr)"
  unfolding resolve_fates_def
proof (rule flow_sat_loop_prefix [where k = 1])
  fix ys x zs fates
  assume fates: "fates_for issues ys fates"
  have "fates_for issues (ys @ [x]) (fates @ [(x, f)])" for f
    using fates by (auto simp: fates_for_def map_of_append map_add_def split: option.split)
  moreover have "fates_for issues (ys @ [x]) fates" if "map_of issues x = None"
    using fates that by (auto simp: fates_for_def)
  ultimately show "flow_sat (pre_contract lim) (fates_for issues (ys @ [x]))
     (case map_of issues x of None \<Rightarrow> Return fates
      | Some a \<Rightarrow> bind_flow (ask (Resolve_fate x Stage_no_pr) fate_of) (\<lambda>fate. Return (fates @ [(x, fate)]))) 1"
    by (auto split: option.split)
qed (auto simp: fates_for_def)

lemma emit_sat [simp]: "flow_sat ct P (bind_flow (emit kind payload) g) n \<longleftrightarrow>
    ct_commit ct (Emit kind payload None False) \<and> flow_sat ct P (g ()) n"
  by (simp add: emit_def)

lemma triage_orphan_sat:
  "flow_sat (pre_contract lim) (\<lambda>_. True) (triage_orphan n removed fate esc) 3"
  by (auto simp: triage_orphan_def)

lemma triage_claim_sat:
  "flow_sat (pre_contract lim) (\<lambda>_. True) (triage_claim io n removed fate esc) 4"
proof -
  have "flow_sat (pre_contract lim) (\<lambda>_. True) (triage_orphan n removed fate esc) 4"
    by (rule flow_sat_mono [OF triage_orphan_sat]) auto
  then show ?thesis
    using triage_orphan_sat by (auto simp: triage_claim_def Let_def)
qed

lemma triage_issue_sat:
  assumes "fates_for issues ns fates" and "n \<in> set ns"
  shows "flow_sat (pre_contract lim) (\<lambda>_. True) (triage_issue io cfg issues fates n esc) 4"
  using assms triage_claim_sat
  by (auto simp: triage_issue_def fates_for_def Let_def split: option.split)

lemma triage_sat:
  "flow_sat (pre_contract lim) (\<lambda>t. fates_for (tr_issues t) no_pr (tr_fates t))
     (triage_no_pr io facts no_pr) (2 + 5 * length no_pr)"
proof -
  have "flow_sat (pre_contract lim) (\<lambda>t. fates_for (tr_issues t) no_pr (tr_fates t))
      (bind_flow (resolve_fates issues no_pr) (\<lambda>fates.
       bind_flow (loop_flow (triage_issue io (sf_config facts) issues fates) no_pr []) (\<lambda>esc.
       bind_flow (ask (Park_backstop no_pr (map fst esc)) backstop_of) (\<lambda>backstop.
         Return \<lparr> tr_issues = issues, tr_fates = fates, tr_escalations = esc,
                  tr_deferred = br_deferred backstop, tr_reclaims = br_reclaims backstop \<rparr>))))
      (1 + 5 * length no_pr)" for issues
  proof (rule flow_sat_bind [OF resolve_fates_sat])
    fix fates
    assume fates: "fates_for issues no_pr fates"
    have "flow_sat (pre_contract lim) (\<lambda>_. True)
        (loop_flow (triage_issue io (sf_config facts) issues fates) no_pr []) (length no_pr * 4)"
      by (rule flow_sat_loop [where k = 4]) (use fates in \<open>auto intro: triage_issue_sat\<close>)
    then show "flow_sat (pre_contract lim) (\<lambda>t. fates_for (tr_issues t) no_pr (tr_fates t))
      (bind_flow (loop_flow (triage_issue io (sf_config facts) issues fates) no_pr []) (\<lambda>esc.
       bind_flow (ask (Park_backstop no_pr (map fst esc)) backstop_of) (\<lambda>backstop.
         Return \<lparr> tr_issues = issues, tr_fates = fates, tr_escalations = esc,
                  tr_deferred = br_deferred backstop, tr_reclaims = br_reclaims backstop \<rparr>)))
      (1 + 5 * length no_pr - length no_pr)"
      by (rule flow_sat_bind) (use fates in auto)
  qed simp
  then show ?thesis
    by (auto simp: triage_no_pr_def)
qed

lemma probe_issue_sat:
  assumes "fates_for (tr_issues t) ns (tr_fates t)" and "n \<in> set ns"
  shows "flow_sat (pre_contract lim) (\<lambda>_. True) (probe_issue facts t n found) 3"
  using assms by (auto simp: probe_issue_def fates_for_def Let_def split: option.split)

lemma salvage_issue_sat:
  "flow_sat (pre_contract lim) (\<lambda>_. True) (salvage_issue facts prs n acc) 1"
  by (auto simp: salvage_issue_def Let_def)

lemma salvage_sat:
  "flow_sat (pre_contract lim) (\<lambda>_. True) (salvage_flow facts orphans prs) (length orphans)"
  unfolding salvage_flow_def Let_def
  by (auto intro: flow_sat_loop [where k = 1] salvage_issue_sat)

lemma probe_sat:
  assumes "fates_for (tr_issues t) no_pr (tr_fates t)"
  shows "flow_sat (pre_contract lim) (\<lambda>_. True) (probe_no_pr facts no_pr t) (3 * length no_pr)"
  unfolding probe_no_pr_def
  by (rule flow_sat_loop [where k = 3]) (use assms in \<open>auto intro: probe_issue_sat\<close>)

lemma pre_review_issue_sat:
  "flow_sat (pre_contract lim) (\<lambda>_. True) (pre_review_issue io facts prs heads n now) 2"
  by (auto simp: pre_review_issue_def split: option.split prod.split)

lemma pre_review_sat:
  "flow_sat (pre_contract lim) (\<lambda>_. True) (pre_review_flow io facts orphans prs heads) (1 + 2 * length orphans)"
proof -
  have "flow_sat (pre_contract lim) (\<lambda>_. True) (loop_flow (pre_review_issue io facts prs heads) orphans now)
      (2 * length orphans)" for now
    by (rule flow_sat_loop [where k = 2]) (auto intro: pre_review_issue_sat)
  then show ?thesis
    by (auto simp: pre_review_flow_def)
qed

lemma unverdicted_sat:
  "flow_sat (pre_contract lim) (\<lambda>_. True) (unverdicted prs heads n waiting) 1"
  by (auto simp: unverdicted_def split: option.split)

lemma unreviewed_sat:
  "flow_sat (pre_contract lim) (\<lambda>_. True) (unreviewed_flow facts orphans prs heads) (1 + length orphans)"
  unfolding unreviewed_flow_def
proof (rule flow_sat_bind)
  show "flow_sat (pre_contract lim) (\<lambda>_. True) (loop_flow (unverdicted prs heads) orphans []) (length orphans)"
    by (auto intro: flow_sat_loop [where k = 1] unverdicted_sat)
qed auto

lemma live_candidates_sat:
  "flow_sat (pre_contract lim) (\<lambda>live. length live \<le> length declared) (live_candidates declared) 1"
  by (auto simp: live_candidates_def)

definition pre_bound :: "nat \<Rightarrow> nat" where
  "pre_bound n = 8 + 12 * n"

lemma length_filter_le_trans: "length xs \<le> k \<Longrightarrow> length (filter p xs) \<le> k"
  using le_trans length_filter_le by blast

text \<open>The value of the phase: its dead workers, and no more live candidates than were collected.\<close>

lemma pre_flow_sat:
  "flow_sat (pre_contract lim) (\<lambda>pre. pre_orphans pre = dead_orphans facts \<and> length (pre_live pre) \<le> lim)
     (pre_flow io facts) (pre_bound (length (dead_orphans facts)))"
proof -
  define orphans where "orphans = dead_orphans facts"
  define N where "N = length orphans"
  have rest: "flow_sat (pre_contract lim) (\<lambda>pre. pre_orphans pre = orphans \<and> length (pre_live pre) \<le> lim)
     (bind_flow (if no_pr = [] then Return empty_triage else triage_no_pr io facts no_pr) (\<lambda>triage.
              bind_flow (salvage_flow facts orphans prs) (\<lambda>(events, heads).
              bind_flow (probe_no_pr facts no_pr triage) (\<lambda>(details, candidates).
              bind_flow (commit_flow (Report_stale_evidence Bucket_no_pr)) (\<lambda>_.
              bind_flow (pre_review_flow io facts orphans prs heads) (\<lambda>now.
              bind_flow (unreviewed_flow facts orphans prs heads) (\<lambda>unreviewed.
              bind_flow (live_candidates (filter (\<lambda>(n, c). map_of prs n = None) stale)) (\<lambda>live.
                Return \<lparr> pre_orphans = orphans, pre_no_pr = no_pr, pre_prs = prs, pre_details = details,
                         pre_candidates = candidates, pre_escalations = tr_escalations triage,
                         pre_deferred = tr_deferred triage, pre_reclaims = tr_reclaims triage,
                         pre_unreviewed = unreviewed, pre_live = live,
                         pre_pr_already_open = filter (\<lambda>(n, c). map_of prs n \<noteq> None) stale,
                         pre_salvage_events = events, pre_heads = heads, pre_early_exit = False,
                         pre_now = now \<rparr>)))))))) (6 + 12 * N)"
    if no_pr: "length no_pr \<le> N" and stale: "length stale \<le> lim"
    for no_pr prs and stale :: "(int \<times> live_candidate) list"
  proof (rule flow_sat_bind [where k = "2 + 5 * N"])
    show "flow_sat (pre_contract lim) (\<lambda>t. fates_for (tr_issues t) no_pr (tr_fates t))
        (if no_pr = [] then Return empty_triage else triage_no_pr io facts no_pr) (2 + 5 * N)"
    proof (cases "no_pr = []")
      case False
      have "flow_sat (pre_contract lim) (\<lambda>t. fates_for (tr_issues t) no_pr (tr_fates t))
          (triage_no_pr io facts no_pr) (2 + 5 * N)"
        by (rule flow_sat_mono [OF triage_sat]) (use no_pr in auto)
      with False show ?thesis
        by simp
    qed (simp add: fates_for_def)
  next
    fix t :: no_pr_triage
    assume fates: "fates_for (tr_issues t) no_pr (tr_fates t)"
    have probes: "flow_sat (pre_contract lim) (\<lambda>_. True) (probe_no_pr facts no_pr t) (3 * N)"
      by (rule flow_sat_mono [OF probe_sat [OF fates]]) (use no_pr in auto)
    have live: "flow_sat (pre_contract lim) (\<lambda>live. length live \<le> lim)
        (live_candidates (filter (\<lambda>(n, c). map_of prs n = None) stale)) 1"
      by (rule flow_sat_mono [OF live_candidates_sat]) (use stale length_filter_le_trans in \<open>auto intro: order_trans\<close>)
    note salvage = salvage_sat [where orphans = orphans, folded N_def]
      and review = pre_review_sat [where orphans = orphans, folded N_def]
      and unreviewed = unreviewed_sat [where orphans = orphans, folded N_def]
    show "flow_sat (pre_contract lim) (\<lambda>pre. pre_orphans pre = orphans \<and> length (pre_live pre) \<le> lim)
     (bind_flow (salvage_flow facts orphans prs) (\<lambda>(events, heads).
              bind_flow (probe_no_pr facts no_pr t) (\<lambda>(details, candidates).
              bind_flow (commit_flow (Report_stale_evidence Bucket_no_pr)) (\<lambda>_.
              bind_flow (pre_review_flow io facts orphans prs heads) (\<lambda>now.
              bind_flow (unreviewed_flow facts orphans prs heads) (\<lambda>unreviewed.
              bind_flow (live_candidates (filter (\<lambda>(n, c). map_of prs n = None) stale)) (\<lambda>live.
                Return \<lparr> pre_orphans = orphans, pre_no_pr = no_pr, pre_prs = prs, pre_details = details,
                         pre_candidates = candidates, pre_escalations = tr_escalations t,
                         pre_deferred = tr_deferred t, pre_reclaims = tr_reclaims t,
                         pre_unreviewed = unreviewed, pre_live = live,
                         pre_pr_already_open = filter (\<lambda>(n, c). map_of prs n \<noteq> None) stale,
                         pre_salvage_events = events, pre_heads = heads, pre_early_exit = False,
                         pre_now = now \<rparr>))))))) (6 + 12 * N - (2 + 5 * N))"
      apply (rule flow_sat_bind [OF salvage], split prod.split, intro allI impI)
       apply (rule flow_sat_bind [OF probes], split prod.split, intro allI impI)
        apply (simp only: bind_commit_flow flow_sat.simps pre_contract_simps commit_legal_pre simp_thms)
        apply (rule flow_sat_bind [OF review])
         apply (rule flow_sat_bind [OF unreviewed])
          apply (rule flow_sat_bind [OF live])
           apply simp_all
      done
  qed simp
  show ?thesis
    unfolding pre_flow_def pre_bound_def Let_def orphans_def [symmetric]
    apply (simp only: flow_sat_ask bind_commit_flow flow_sat.simps pre_contract_simps pre_legal_simps
        commit_legal_pre simp_thms well_answered_simps)
    apply (intro conjI allI impI)
     apply simp
    apply (elim exE conjE)
    apply (simp only: live_of.simps option.case)
    apply (split if_split, intro conjI impI)
     apply (simp add: early_exit_def)
    apply (simp only: flow_sat_ask pre_contract_simps pre_legal_simps simp_thms well_answered_simps)
    apply (intro conjI allI impI)
     apply simp
    apply (elim exE conjE)
    apply (simp only: prs_of.simps option.case)
    apply (rule flow_sat_mono [OF rest [unfolded bind_commit_flow]])
       apply (simp_all add: N_def length_filter_le)
    done
qed

end
