(* ===== verification/Sweep_Lock_Contract.thy ===== *)
theory Sweep_Lock_Contract
  imports Sweep_Contracts
begin

text \<open>
  The contract of the locked phase: its requests, updates and escalations are for issues that the
  locked state holds as dispatched, a worker adds at most one review route, and on readable entries
  nothing raises.
\<close>

section \<open>The contract\<close>

definition dispatched_in :: "sweep_state \<Rightarrow> int \<Rightarrow> bool" where
  "dispatched_in s n \<longleftrightarrow> (case map_of (ss_issues s) n of None \<Rightarrow> False | Some e \<Rightarrow> is_dispatched e)"

text \<open>The issue a request of the locked phase, or a commit, is about.\<close>

fun request_issue :: "request \<Rightarrow> int option" where
  "request_issue (Open_pr_for_branch n _ _) = Some n"
| "request_issue (Advance_to_pr_open n) = Some n"
| "request_issue (Credit_dead_worker n _ _ _) = Some n"
| "request_issue (Exempt_throttle_clean_exit n _ _) = Some n"
| "request_issue (Read_terminal n) = Some n"
| "request_issue (Read_completed_outcome n _ _ _) = Some n"
| "request_issue (Read_blocked_outcome n) = Some n"
| "request_issue _ = None"

fun commit_issue :: "commit \<Rightarrow> int option" where
  "commit_issue (Update_issue n _ _) = Some n"
| "commit_issue (Escalate_entry n _ _ _ _) = Some n"
| "commit_issue _ = None"

definition about_dispatched :: "sweep_state \<Rightarrow> int option \<Rightarrow> bool" where
  "about_dispatched s x \<longleftrightarrow> (case x of None \<Rightarrow> True | Some n \<Rightarrow> dispatched_in s n)"

definition lock_contract :: "nat \<Rightarrow> sweep_facts \<Rightarrow> contract" where
  "lock_contract lim facts =
     \<lparr> ct_result = well_answered lim,
       ct_request = (\<lambda>q. lock_legal q \<and> about_dispatched (sf_locked facts) (request_issue q)),
       ct_commit = (\<lambda>c. commit_legal Lock_phase c \<and> about_dispatched (sf_locked facts) (commit_issue c)) \<rparr>"

lemma lock_contract_simps [simp]:
  "ct_result (lock_contract lim facts) = well_answered lim"
  "ct_request (lock_contract lim facts) q \<longleftrightarrow>
     lock_legal q \<and> about_dispatched (sf_locked facts) (request_issue q)"
  "ct_commit (lock_contract lim facts) c \<longleftrightarrow>
     commit_legal Lock_phase c \<and> about_dispatched (sf_locked facts) (commit_issue c)"
  by (simp_all add: lock_contract_def)

lemma about_dispatched_simps [simp]:
  "about_dispatched s None"
  "about_dispatched s (Some n) \<longleftrightarrow> dispatched_in s n"
  by (simp_all add: about_dispatched_def)

section \<open>Entries\<close>

text \<open>
  The fields a flow must be able to read: a failure kind that can be looked up in a set, and counters
  that are numbers.
\<close>

definition readable_entry :: "json_dict \<Rightarrow> bool" where
  "readable_entry entry \<longleftrightarrow>
     throttle_death entry \<noteq> None \<and>
     int_or_zero (jget entry ''throttle_reap_rearm_count'') \<noteq> None \<and>
     int_or_zero (jget entry ''local_park_defer_count'') \<noteq> None"

definition readable_state :: "sweep_state \<Rightarrow> bool" where
  "readable_state s \<longleftrightarrow>
     (\<forall>(n, e) \<in> set (ss_issues s). case e of JObj entry \<Rightarrow> readable_entry entry | _ \<Rightarrow> True)"

text \<open>A draft that kept the keys of its base, with a readable kind, of a dispatched issue.\<close>

definition draft_ok :: "sweep_facts \<Rightarrow> draft \<Rightarrow> bool" where
  "draft_ok facts d \<longleftrightarrow>
     set (jkeys (dr_base d)) \<subseteq> set (jkeys (dr_work d)) \<and> throttle_death (dr_work d) \<noteq> None \<and>
     dispatched_in (sf_locked facts) (dr_issue d)"

lemma jkeys_jput [simp]: "set (jkeys (jput d k v)) = insert k (set (jkeys d))"
  unfolding jkeys_def by (induction d k v rule: jput.induct) auto

lemma throttle_death_jput [simp]:
  "k \<noteq> ''dead_worker_failure_kind'' \<Longrightarrow> throttle_death (jput d k v) = throttle_death d"
  by (simp add: throttle_death_def failure_kind_def)

lemma draft_ok_dset [simp]:
  "k \<noteq> ''dead_worker_failure_kind'' \<Longrightarrow> draft_ok facts d \<Longrightarrow> draft_ok facts (dset d k v)"
  by (auto simp: draft_ok_def dset_def)

lemma dset_simps [simp]:
  "dr_issue (dset d k v) = dr_issue d"
  "dr_base (dset d k v) = dr_base d"
  "dr_dead (dset d k v) = dr_dead d"
  "dget (dset d k v) k' = (if k' = k then v else dget d k')"
  by (simp_all add: dset_def dget_def)

lemma draft_ok_invalidate [simp]: "draft_ok facts (invalidate d) = draft_ok facts d"
  by (simp add: draft_ok_def invalidate_def)

lemma dr_issue_invalidate [simp]: "dr_issue (invalidate d) = dr_issue d"
  by (simp add: invalidate_def)

lemma draft_okD: "draft_ok facts d \<Longrightarrow> dispatched_in (sf_locked facts) (dr_issue d)"
  by (simp add: draft_ok_def)

text \<open>A flush makes at most the one commit and cannot raise.\<close>

definition flushed :: "draft \<Rightarrow> draft" where
  "flushed d = (if dr_dead d then d else d\<lparr> dr_base := dr_work d \<rparr>)"

lemma flush_cases:
  assumes "set (jkeys (dr_base d)) \<subseteq> set (jkeys (dr_work d))"
  shows "flush d = Return (flushed d) \<or>
    flush d = Commit (Update_issue (dr_issue d) (draft_diff d) []) (Return (flushed d))"
proof -
  have "\<not> (\<exists>k \<in> set (jkeys (dr_base d)). k \<notin> set (jkeys (dr_work d)))"
    using assms by blast
  then show ?thesis
    by (simp add: flush_def take_draft_def flushed_def)
qed

lemma draft_ok_flushed [simp]: "draft_ok facts d \<Longrightarrow> draft_ok facts (flushed d)"
  by (auto simp: draft_ok_def flushed_def)

lemma dr_issue_flushed [simp]: "dr_issue (flushed d) = dr_issue d"
  by (simp add: flushed_def)

lemma flush_sat:
  assumes "draft_ok facts d"
    and "flow_sat (lock_contract lim facts) P (g (flushed d)) n"
  shows "flow_sat (lock_contract lim facts) P (bind_flow (flush d) g) n"
  using flush_cases [of d] assms by (auto simp: draft_ok_def)

section \<open>The timed backstop\<close>

definition same_draft :: "sweep_facts \<Rightarrow> int \<Rightarrow> draft \<Rightarrow> bool" where
  "same_draft facts n d \<longleftrightarrow> draft_ok facts d \<and> dr_issue d = n"

lemma same_draft_simps [simp]:
  "k \<noteq> ''dead_worker_failure_kind'' \<Longrightarrow> same_draft facts n d \<Longrightarrow> same_draft facts n (dset d k v)"
  "same_draft facts n (invalidate d) = same_draft facts n d"
  "same_draft facts n d \<Longrightarrow> same_draft facts n (flushed d)"
  by (auto simp: same_draft_def)

lemma same_draftD:
  "same_draft facts n d \<Longrightarrow> draft_ok facts d"
  "same_draft facts n d \<Longrightarrow> dr_issue d = n"
  "same_draft facts n d \<Longrightarrow> dispatched_in (sf_locked facts) n"
  by (auto simp: same_draft_def dest: draft_okD)

lemma flush_same:
  assumes "same_draft facts n d"
    and "\<And>d'. same_draft facts n d' \<Longrightarrow> flow_sat (lock_contract lim facts) P (g d') k"
  shows "flow_sat (lock_contract lim facts) P (bind_flow (flush d) g) k"
  by (rule flush_sat) (use assms in \<open>auto dest: same_draftD\<close>)

lemma bind_Commit [simp]: "bind_flow (Commit c f) g = Commit c (bind_flow f g)"
  by simp

lemma commit_flow_unit [simp]: "bind_flow (emit kind payload) g = Commit (Emit kind payload None False) (g ())"
  by (simp add: emit_def)

lemma reap_entry_sat:
  assumes "same_draft facts n d"
  shows "flow_sat (lock_contract lim facts) (same_draft facts n) (reap_entry cfg d pr drift_at park) 1"
  using assms
  by (auto simp: reap_entry_def Let_def same_draftD intro!: flush_same [OF assms])

lemma note_deferral_ok:
  assumes "int_or_zero (dget d ''local_park_defer_count'') \<noteq> None" and "same_draft facts n d"
  shows "\<exists>count d1. note_local_park_deferral io d now reason = Some (count, d1) \<and> same_draft facts n d1"
  using assms by (auto simp: note_local_park_deferral_def Let_def)

lemma defer_ok:
  assumes "int_or_zero (dget d ''local_park_defer_count'') \<noteq> None" and "same_draft facts n d"
  shows "\<exists>deferred events d1. defer_or_expire_local_park io d issue reason now drift_at = Some (deferred, events, d1) \<and>
    same_draft facts n d1 \<and> (\<forall>c \<in> set events. commit_legal Lock_phase c \<and> commit_issue c = None)"
proof -
  obtain count d1 where "note_local_park_deferral io d now reason = Some (count, d1)" "same_draft facts n d1"
    using note_deferral_ok [OF assms] by blast
  then show ?thesis
    by (simp add: defer_or_expire_local_park_def Let_def) blast
qed

lemma reap_after_throttle_sat:
  assumes "same_draft facts n d" and "int_or_zero (dget d ''local_park_defer_count'') \<noteq> None"
  shows "flow_sat (lock_contract lim facts) (\<lambda>(_, d1). same_draft facts n d1)
    (reap_after_throttle io cfg pre d pr drift_at) 1"
proof -
  have escalate: "flow_sat (lock_contract lim facts) (\<lambda>(_, d1). same_draft facts n d1)
      (bind_flow (reap_entry cfg d1 pr drift_at park) (\<lambda>d2. Return (True, d2))) 1"
    if "same_draft facts n d1" for d1 park
    by (rule flow_sat_bind [OF reap_entry_sat [OF that]]) auto
  show ?thesis
  proof (cases "map_of (pre_deferred pre) (dr_issue d)")
    case None
    then show ?thesis
      using escalate [OF assms(1)] by (simp add: reap_after_throttle_def Let_def)
  next
    case (Some reason)
    obtain deferred events d1 where deferral:
      "defer_or_expire_local_park io d (dr_issue d) reason (pre_now pre) drift_at = Some (deferred, events, d1)"
      "same_draft facts n d1" "\<forall>c \<in> set events. commit_legal Lock_phase c \<and> commit_issue c = None"
      using defer_ok [OF assms(2,1)] by metis
    have "flow_sat (lock_contract lim facts) (\<lambda>(_, d1). same_draft facts n d1)
      (bind_flow (commit_all events ()) (\<lambda>_. if deferred then Return (False, d1)
         else bind_flow (reap_entry cfg d1 pr drift_at (Some reason)) (\<lambda>d2. Return (True, d2)))) 1"
      by (rule flow_sat_bind [where k = 0 and R = "\<lambda>_. True"])
        (use deferral escalate in auto)
    then show ?thesis
      using Some deferral(1) by (simp add: reap_after_throttle_def Let_def)
  qed
qed

lemma reap_sat:
  assumes "same_draft facts n d" and "readable_entry (dr_work d)"
  shows "flow_sat (lock_contract lim facts) (\<lambda>(_, d1). same_draft facts n d1)
    (reap_flow io facts pre d pr acc) 1"
proof -
  have entry: "throttle_death (dr_work d) \<noteq> None" "int_or_zero (dget d ''throttle_reap_rearm_count'') \<noteq> None"
    "int_or_zero (dget d ''local_park_defer_count'') \<noteq> None"
    using assms(2) by (simp_all add: readable_entry_def dget_def)
  have "reap_due io (dr_work d) until reap now \<noteq> None" for until reap now
    using entry(1) by (auto simp: reap_due_def Let_def split: option.split bool.split)
  with entry(1,2) assms(1) reap_after_throttle_sat [OF assms(1) entry(3)] show ?thesis
    unfolding reap_flow_def Let_def by (auto split: option.split bool.split)
qed

section \<open>Without a pull request\<close>

definition escalated_draft :: "sweep_facts \<Rightarrow> int \<Rightarrow> bool \<times> draft \<Rightarrow> bool" where
  "escalated_draft facts n r \<longleftrightarrow> same_draft facts n (snd r)"

lemma escalated_draft_simps [simp]: "escalated_draft facts n (b, d) = same_draft facts n d"
  by (simp add: escalated_draft_def)

lemma open_pushed_branch_sat:
  assumes "same_draft facts n d"
  shows "flow_sat (lock_contract lim facts) (same_draft facts n) (open_pushed_branch stamp c d) 1"
  using assms same_draftD [OF assms]
  by (auto simp: open_pushed_branch_def Let_def split: option.split)

lemma lock_escalation_sat:
  assumes "same_draft facts n d"
    and "flow_sat (lock_contract lim facts) (\<lambda>_. True) (report n) 0"
  shows "flow_sat (lock_contract lim facts) (same_draft facts n) (lock_escalation stamp reason d report) 0"
proof -
  have "flow_sat (lock_contract lim facts) (same_draft facts n)
      (bind_flow (report n) (\<lambda>_. Return (invalidate d1))) 0" if "same_draft facts n d1" for d1
    by (rule flow_sat_bind [OF assms(2)]) (use that in simp_all)
  then show ?thesis
    unfolding lock_escalation_def Let_def
    by (intro flush_same [OF assms(1)]) (use same_draftD [OF assms(1)] in simp)
qed

lemma decided_escalation_sat:
  assumes "same_draft facts n d"
  shows "flow_sat (lock_contract lim facts) (escalated_draft facts n) (decided_escalation stamp d esc) 0"
proof -
  have report: "flow_sat (lock_contract lim facts) (\<lambda>_. True) (report_relabeled reason removed ok n) 0"
    "flow_sat (lock_contract lim facts) (\<lambda>_. True) (report_declared_block removed ok kind detail n) 0"
    for reason removed ok kind detail
    by (simp_all add: report_relabeled_def report_declared_block_def emit_def)
  show ?thesis
    using assms
    by (cases esc) (auto intro!: flow_sat_bind [OF lock_escalation_sat [OF assms]] report)
qed

lemma drift_backfill_sat:
  assumes "same_draft facts n d"
  shows "flow_sat (lock_contract lim facts) (same_draft facts n) (drift_backfill stamp d) 0"
  using assms by (simp add: drift_backfill_def Let_def)

lemma after_cap_sat:
  assumes "same_draft facts n d"
  shows "flow_sat (lock_contract lim facts) (same_draft facts n) (after_cap stamp reclaim d) 0"
  using assms drift_backfill_sat [OF assms] by (auto simp: after_cap_def split: option.split)

text \<open>Whether the cap escalates; it does not depend on the phase's stamp.\<close>

definition cap_escalates :: "time_io \<Rightarrow> sweep_facts \<Rightarrow> pre_outcome \<Rightarrow> draft \<Rightarrow> bool" where
  "cap_escalates io facts pre d \<longleftrightarrow>
     (let detail = map_of (pre_details pre) (dr_issue d)
      in case decide_redispatch_cap io (dr_work d)
             (case detail of None \<Rightarrow> None | Some b \<Rightarrow> bd_remote_head b)
             (case detail of None \<Rightarrow> None | Some b \<Rightarrow> bd_local_head b)
             (sc_redispatch_window (sf_config facts)) (sc_max_redispatch (sf_config facts))
             (sf_stamp facts) (pre_now pre) of
           None \<Rightarrow> False
         | Some v \<Rightarrow> rv_exceeded v)"

lemma redispatch_exact:
  assumes "same_draft facts n d"
  shows "flow_sat (lock_contract lim facts)
    (\<lambda>r. fst r = cap_escalates io facts pre d \<and> same_draft facts n (snd r)) (redispatch_or_reclaim io facts pre d) 0"
proof -
  define verdict where "verdict remote local_sha =
    decide_redispatch_cap io (dr_work d) remote local_sha (sc_redispatch_window (sf_config facts))
      (sc_max_redispatch (sf_config facts)) (sf_stamp facts) (pre_now pre)" for remote local_sha
  have some: "verdict remote local_sha \<noteq> None" for remote local_sha
    using same_draftD(1) [OF assms]
    by (auto simp: verdict_def decide_redispatch_cap_def draft_ok_def Let_def)
  have reclaimed: "flow_sat (lock_contract lim facts) (\<lambda>r. \<not> fst r \<and> same_draft facts n (snd r))
      (bind_flow (after_cap (sf_stamp facts) r (dset (dset (dset d ''orphan_redispatch_head_sha'' a)
         ''orphan_redispatch_at'' b) ''orphan_redispatch_counted_dispatch'' c)) (\<lambda>d1. Return (False, d1))) 0"
    for r a b c
    by (rule flow_sat_bind [OF after_cap_sat [where n = n]]) (use assms in simp_all)
  have capped: "flow_sat (lock_contract lim facts) (\<lambda>r. fst r \<and> same_draft facts n (snd r))
      (bind_flow (flush d) (\<lambda>d1. Commit (Escalate_entry (dr_issue d) a b None x)
         (Commit (Emit kind payload None False) (Return (True, invalidate d1))))) 0" for a b x kind payload
    by (rule flush_same [OF assms]) (use same_draftD [OF assms] in simp)
  show ?thesis
    unfolding redispatch_or_reclaim_def cap_escalates_def Let_def verdict_def [symmetric] bind_commit_flow
      commit_flow_unit
    using some capped reclaimed by (auto split: option.split)
qed

lemma redispatch_sat:
  assumes "same_draft facts n d"
  shows "flow_sat (lock_contract lim facts) (escalated_draft facts n) (redispatch_or_reclaim io facts pre d) 0"
  by (rule flow_sat_mono [OF redispatch_exact [OF assms]]) (auto simp: escalated_draft_def)

lemma lock_no_pr_sat:
  assumes "same_draft facts n d"
  shows "flow_sat (lock_contract lim facts) (escalated_draft facts n) (lock_no_pr_flow io facts pre d) 1"
proof -
  have opened: "flow_sat (lock_contract lim facts) (escalated_draft facts n)
      (bind_flow (open_pushed_branch stamp c d) (\<lambda>d1. Return (False, d1))) 1" for stamp c
    by (rule flow_sat_bind [OF open_pushed_branch_sat [OF assms]]) simp_all
  have decided: "flow_sat (lock_contract lim facts) (escalated_draft facts n) (decided_escalation stamp d esc) 1"
    for stamp esc
    by (rule flow_sat_mono [OF decided_escalation_sat [OF assms]]) auto
  have redispatched:
    "flow_sat (lock_contract lim facts) (escalated_draft facts n) (redispatch_or_reclaim io facts pre d) 1"
    by (rule flow_sat_mono [OF redispatch_sat [OF assms]]) auto
  show ?thesis
    unfolding lock_no_pr_flow_def Let_def
    by (auto simp del: decided_escalation.simps One_nat_def split: option.split pre_escalation.split
      intro: opened decided redispatched)
qed

section \<open>With a pull request\<close>

definition acc_ok :: "sweep_facts \<Rightarrow> nat \<Rightarrow> lock_acc \<Rightarrow> bool" where
  "acc_ok facts k acc \<longleftrightarrow>
     length (la_review_routes acc) \<le> k \<and>
     (\<forall>v \<in> set (la_review_routes acc). dispatched_in (sf_locked facts) (vr_issue v)) \<and>
     (\<forall>n \<in> set (la_escalations acc). dispatched_in (sf_locked facts) n)"

definition state_ok :: "sweep_facts \<Rightarrow> int \<Rightarrow> nat \<Rightarrow> lock_state \<Rightarrow> bool" where
  "state_ok facts n k st \<longleftrightarrow> same_draft facts n (fst st) \<and> acc_ok facts k (snd st)"

lemma state_ok_simps [simp]:
  "state_ok facts n k (d, acc) \<longleftrightarrow> same_draft facts n d \<and> acc_ok facts k acc"
  by (simp add: state_ok_def)

lemma acc_ok_simps [simp]:
  "acc_ok facts k (la_throttled_until_update f acc) = acc_ok facts k acc"
  "acc_ok facts k (la_apply_routes_update g acc) = acc_ok facts k acc"
  "acc_ok facts k (add_no_op acc x d) = acc_ok facts k acc"
  "acc_ok facts k acc \<Longrightarrow> acc_ok facts (Suc k) acc"
  by (auto simp: acc_ok_def add_no_op_def)

lemma acc_ok_escalated [simp]:
  "acc_ok facts k acc \<Longrightarrow> dispatched_in (sf_locked facts) n \<Longrightarrow>
   acc_ok facts k (acc\<lparr> la_escalations := la_escalations acc @ [n] \<rparr>)"
  by (auto simp: acc_ok_def)

lemma resolve_outcome_sat:
  assumes "dispatched_in (sf_locked facts) (px_number x)"
  shows "flow_sat (lock_contract lim facts)
    (\<lambda>found. \<forall>d. found = Some d \<longrightarrow> map_of d ''head_sha'' \<noteq> None) (resolve_outcome facts d x) 1"
  using assms by (auto simp: resolve_outcome_def split: json.split)

lemma queue_apply_sat:
  assumes "map_of outcome ''head_sha'' \<noteq> None" and "acc_ok facts k acc"
  shows "flow_sat (lock_contract lim facts) (acc_ok facts k) (queue_apply facts acc x outcome) 0"
  using assms by (auto simp: queue_apply_def split: option.split)

lemma drift_event_sat:
  assumes "same_draft facts n d"
  shows "flow_sat (lock_contract lim facts) (same_draft facts n) (drift_event d fp stamp payload) 0"
  using assms by (simp add: drift_event_def)

lemma add_review_route_ok:
  assumes "same_draft facts n d" and "acc_ok facts k acc" and "px_number x = n"
  shows "state_ok facts n (Suc k) (add_review_route facts anchor d acc x fp reason awaits)"
  using assms same_draftD(3) [OF assms(1)] by (auto simp: add_review_route_def acc_ok_def)

lemma routed_sat:
  assumes "state_ok facts n k st"
  shows "flow_sat (lock_contract lim facts) (\<lambda>(b, st'). state_ok facts n k st') (Return (b, st)) m"
  using assms by simp

lemma drift_event_then:
  assumes "same_draft facts n d"
    and "\<And>d1. same_draft facts n d1 \<Longrightarrow> flow_sat (lock_contract lim facts) P (g d1) m"
  shows "flow_sat (lock_contract lim facts) P (bind_flow (drift_event d fp stamp payload) g) m"
  by (rule flow_sat_bind [OF drift_event_sat [OF assms(1)]]) (use assms in simp_all)

text \<open>The outcome arm: unless it routed, it left the draft as it was.\<close>

definition outcome_ok :: "sweep_facts \<Rightarrow> int \<Rightarrow> nat \<Rightarrow> bool \<times> lock_state \<Rightarrow> bool" where
  "outcome_ok facts n k r \<longleftrightarrow> state_ok facts n (if fst r then Suc k else k) (snd r)"

lemma completed_outcome_sat:
  assumes "same_draft facts n d" and "acc_ok facts k acc" and "px_number x = n"
  shows "flow_sat (lock_contract lim facts) (outcome_ok facts n k) (completed_outcome facts d acc x extra) 1"
proof -
  have step: "flow_sat (lock_contract lim facts) (outcome_ok facts n k)
    (bind_flow (if sc_outcome_every_route (sf_config facts) then Return acc
                    else queue_apply facts acc x outcome) (\<lambda>acc1.
         let fp = drift_fingerprint [(''reason'', Part_text (Some ''dead_worker_completed_outcome'')),
                    (''reviewed_head_sha'', Part_text (px_reviewed x))]
         in if dget d ''orphan_drift_fingerprint'' = JStr fp then Return (True, d, acc1)
            else if sf_review_available facts
            then Return (True, add_review_route facts True d acc1 x fp ''dead_worker_completed_outcome'' False)
            else (case map_of outcome ''head_sha'' of
                    None \<Rightarrow> Raise
                  | Some head \<Rightarrow>
                      bind_flow (drift_event d fp (sf_stamp facts)
                        (jupdate (base_payload x @ [(''reason'', JStr ''dead_worker_completed_outcome'')] @
                           proc_payload x @ [(''worker_outcome_head_sha'', head)]) extra)) (\<lambda>d1.
                      Return (True, d1, acc1))))) 0"
    if head: "map_of outcome ''head_sha'' \<noteq> None" for outcome
  proof (rule flow_sat_bind [where k = 0])
    show "flow_sat (lock_contract lim facts) (acc_ok facts k)
        (if sc_outcome_every_route (sf_config facts) then Return acc else queue_apply facts acc x outcome) 0"
      using queue_apply_sat [OF head assms(2)] assms(2) by simp
  next
    fix acc1
    assume acc1: "acc_ok facts k acc1"
    have "flow_sat (lock_contract lim facts) (outcome_ok facts n k)
        (bind_flow (drift_event d fp stamp payload) (\<lambda>d1. Return (True, d1, acc1))) (0 - 0)" for fp stamp payload
      by (rule drift_event_then [OF assms(1)]) (use acc1 in \<open>simp add: outcome_ok_def\<close>)
    moreover have "outcome_ok facts n k (True, add_review_route facts anchor d acc1 x fp reason awaits)"
      for anchor fp reason awaits
      using add_review_route_ok [OF assms(1) acc1 assms(3)] by (simp add: outcome_ok_def)
    ultimately show "flow_sat (lock_contract lim facts) (outcome_ok facts n k)
      (let fp = drift_fingerprint [(''reason'', Part_text (Some ''dead_worker_completed_outcome'')),
                    (''reviewed_head_sha'', Part_text (px_reviewed x))]
         in if dget d ''orphan_drift_fingerprint'' = JStr fp then Return (True, d, acc1)
            else if sf_review_available facts
            then Return (True, add_review_route facts True d acc1 x fp ''dead_worker_completed_outcome'' False)
            else (case map_of outcome ''head_sha'' of
                    None \<Rightarrow> Raise
                  | Some head \<Rightarrow>
                      bind_flow (drift_event d fp (sf_stamp facts)
                        (jupdate (base_payload x @ [(''reason'', JStr ''dead_worker_completed_outcome'')] @
                           proc_payload x @ [(''worker_outcome_head_sha'', head)]) extra)) (\<lambda>d1.
                      Return (True, d1, acc1)))) (0 - 0)"
      unfolding Let_def using head assms(1) acc1 by (auto simp: outcome_ok_def)
  qed simp
  show ?thesis
    unfolding completed_outcome_def
  proof (rule flow_sat_bind [OF resolve_outcome_sat])
    show "dispatched_in (sf_locked facts) (px_number x)"
      using assms(3) same_draftD(3) [OF assms(1)] by simp
  qed (use step assms in \<open>auto simp: outcome_ok_def split: option.split\<close>)
qed

lemma declared_block_sat:
  assumes "same_draft facts n d" and "acc_ok facts k acc" and "px_number x = n"
  shows "flow_sat (lock_contract lim facts) (state_ok facts n k) (declared_block io d acc x extra blocked) 0"
  unfolding declared_block_def Let_def
  by (rule flush_same [OF assms(1)]) (use assms same_draftD(3) [OF assms(1)] in simp)

lemma clean_exit_sat:
  assumes "same_draft facts n d" and "acc_ok facts k acc" and "px_number x = n"
  shows "flow_sat (lock_contract lim facts) (state_ok facts n k) (clean_exit facts d acc x extra) 1"
proof -
  have rework: "same_draft facts n (back_to_rework d)"
    using assms(1) by (simp add: back_to_rework_def)
  have recovered: "flow_sat (lock_contract lim facts) (state_ok facts n k)
    (bind_flow (flush (back_to_rework d)) (\<lambda>d1.
          bind_flow (recovered_event x stamp reason extra kind) (\<lambda>_.
          Return (d1, acc\<lparr> la_throttled_until := until \<rparr>)))) 0" for stamp reason kind until
    by (rule flush_same [OF rework]) (use assms in \<open>simp add: recovered_event_def\<close>)
  have drift: "flow_sat (lock_contract lim facts) (state_ok facts n k)
    (bind_flow (drift_event d fp stamp payload) (\<lambda>d1. Return (d1, add_no_op acc x d))) 0" for fp stamp payload
    by (rule drift_event_then [OF assms(1)]) (use assms in simp)
  show ?thesis
    using recovered drift assms same_draftD(3) [OF assms(1)]
    by (auto simp: clean_exit_def Let_def)
qed

lemma credited_death_sat:
  assumes "same_draft facts n d" and "acc_ok facts k acc" and "px_number x = n"
  shows "flow_sat (lock_contract lim facts) (state_ok facts n k) (credited_death facts d acc x reason extra) 1"
proof -
  have rework: "same_draft facts n (back_to_rework d)"
    using assms(1) by (simp add: back_to_rework_def)
  show ?thesis
    unfolding credited_death_def
    by (rule flush_same [OF rework])
      (use assms same_draftD(3) [OF assms(1)] in \<open>auto simp: recovered_event_def\<close>)
qed

lemma same_head_sat:
  assumes "same_draft facts n d" and "acc_ok facts k acc" and "px_number x = n"
  shows "flow_sat (lock_contract lim facts) (state_ok facts n (Suc k)) (same_head io facts d acc x reason extra) 3"
  unfolding same_head_def
proof (rule flow_sat_bind [OF completed_outcome_sat [OF assms]])
  fix r
  assume r: "outcome_ok facts n k r"
  obtain routed d1 acc1 where r_eq: "r = (routed, d1, acc1)"
    by (cases r)
  have block: "flow_sat (lock_contract lim facts) (state_ok facts n (Suc k)) (declared_block io d1 acc1 x extra b) 1"
    if "\<not> routed" for b
    by (rule flow_sat_mono [OF declared_block_sat [where k = k]])
      (use r r_eq that assms(3) in \<open>auto simp: outcome_ok_def\<close>)
  have clean: "flow_sat (lock_contract lim facts) (state_ok facts n (Suc k)) (clean_exit facts d1 acc1 x extra) 1"
    if "\<not> routed"
    by (rule flow_sat_mono [OF clean_exit_sat [where k = k]])
      (use r r_eq that assms(3) in \<open>auto simp: outcome_ok_def\<close>)
  have death: "flow_sat (lock_contract lim facts) (state_ok facts n (Suc k))
      (credited_death facts d1 acc1 x reason extra) 1" if "\<not> routed"
    by (rule flow_sat_mono [OF credited_death_sat [where k = k]])
      (use r r_eq that assms(3) in \<open>auto simp: outcome_ok_def\<close>)
  show "flow_sat (lock_contract lim facts) (state_ok facts n (Suc k))
     (case r of (routed, d1, acc1) \<Rightarrow>
        if routed then Return (d1, acc1)
        else bind_flow (ask (Read_blocked_outcome (px_number x)) outcome_of) (\<lambda>blocked.
          case blocked of
            Some b \<Rightarrow> declared_block io d1 acc1 x extra b
          | None \<Rightarrow>
              if is_zero (px_exit x) then clean_exit facts d1 acc1 x extra
              else credited_death facts d1 acc1 x reason extra)) (3 - 1)"
    using r r_eq block clean death assms(3) same_draftD(3) [OF assms(1)]
    by (auto simp: outcome_ok_def split: option.split)
qed simp

lemma head_changed_sat:
  assumes "same_draft facts n d" and "acc_ok facts k acc" and "px_number x = n"
  shows "flow_sat (lock_contract lim facts) (state_ok facts n (Suc k)) (head_changed facts d acc x verdict carries) 0"
proof -
  have drift: "flow_sat (lock_contract lim facts) (state_ok facts n (Suc k))
    (bind_flow (drift_event d fp stamp payload) (\<lambda>d1. Return (d1, add_no_op acc x d))) 0" for fp stamp payload
    by (rule drift_event_then [OF assms(1)]) (use assms in simp)
  show ?thesis
    unfolding head_changed_def Let_def
    using drift assms add_review_route_ok [OF assms] by simp
qed

lemma unsafe_drift_sat:
  assumes "same_draft facts n d" and "acc_ok facts k acc"
  shows "flow_sat (lock_contract lim facts) (state_ok facts n (Suc k)) (unsafe_drift facts d acc x verdict) 0"
proof -
  have drift: "flow_sat (lock_contract lim facts) (state_ok facts n (Suc k))
    (bind_flow (drift_event d fp stamp payload) (\<lambda>d1. Return (d1, acc))) 0" for fp stamp payload
    by (rule drift_event_then [OF assms(1)]) (use assms in simp)
  show ?thesis
    unfolding unsafe_drift_def Let_def
    using drift assms by simp
qed

lemma advance_unreviewed_sat:
  assumes "same_draft facts n d" and "acc_ok facts k acc" and "px_number x = n"
  shows "flow_sat (lock_contract lim facts) (\<lambda>(_, st). state_ok facts n k st) (advance_unreviewed facts pre d acc x) 2"
proof (cases "map_of (pre_unreviewed pre) (px_number x)")
  case (Some active)
  have advanced: "flow_sat (lock_contract lim facts) (\<lambda>(_, st). state_ok facts n k st)
    (bind_flow (flush (dset (dset (dset (dset d ''status'' a) ''dispatched_at'' JNull)
        ''orphan_drift_fingerprint'' JNull) ''orphan_drift_at'' JNull)) (\<lambda>d1.
       bind_flow (ask (Credit_dead_worker n False JNull None) credit_of) (\<lambda>credit.
       bind_flow (emit kind (payload credit)) (\<lambda>_.
       Return (True, d1, acc\<lparr> la_throttled_until := cr_throttled_until credit \<rparr>))))) 1" for a kind payload
    by (rule flush_same [where n = n]) (use assms same_draftD(3) [OF assms(1)] in auto)
  from this [where kind = "''orphaned_worker_advanced_to_pr_open''"] Some assms same_draftD(3) [OF assms(1)]
  show ?thesis
    unfolding advance_unreviewed_def by auto
qed (use assms in \<open>simp add: advance_unreviewed_def\<close>)

lemma route_pr_sat:
  assumes "same_draft facts n d" and "acc_ok facts k acc" and "px_number x = n"
  shows "flow_sat (lock_contract lim facts) (state_ok facts n (Suc k)) (route_pr io facts pre d acc x verdict carries) 3"
proof -
  have changed: "flow_sat (lock_contract lim facts) (state_ok facts n (Suc k))
      (head_changed facts d acc x verdict carries) 3"
    by (rule flow_sat_mono [OF head_changed_sat [OF assms]]) auto
  have unsafe: "flow_sat (lock_contract lim facts) (state_ok facts n (Suc k))
      (unsafe_drift facts d1 acc1 x verdict) m" if "state_ok facts n k (d1, acc1)" for d1 acc1 m
    by (rule flow_sat_mono [OF unsafe_drift_sat [where n = n and k = k]]) (use that in auto)
  have advance: "flow_sat (lock_contract lim facts) (state_ok facts n (Suc k))
      (bind_flow (advance_unreviewed facts pre d acc x) (\<lambda>(moved, d1, acc1).
           if moved then Return (d1, acc1) else unsafe_drift facts d1 acc1 x verdict)) 3"
    by (rule flow_sat_bind [OF advance_unreviewed_sat [OF assms]]) (use unsafe in auto)
  note same = same_head_sat [OF assms, where io = io and lim = lim]
  show ?thesis
    unfolding route_pr_def
    by (rule changed | rule same | rule advance | rule unsafe | (split if_split, intro conjI impI))+
      (use assms in simp)
qed

lemma with_pr_sat:
  assumes "same_draft facts n d" and "acc_ok facts k acc"
  shows "flow_sat (lock_contract lim facts) (state_ok facts n (Suc k)) (with_pr_flow io facts pre d pr acc) 6"
proof -
  have n: "dr_issue d = n" "dispatched_in (sf_locked facts) n"
    using same_draftD [OF assms(1)] by simp_all
  have every: "flow_sat (lock_contract lim facts) (state_ok facts n (Suc k))
     (bind_flow (resolve_outcome facts d x) (\<lambda>found.
        bind_flow (case found of None \<Rightarrow> Return acc | Some outcome \<Rightarrow> queue_apply facts acc x outcome) (\<lambda>acc1.
          route_pr io facts pre d acc1 x verdict (found \<noteq> None)))) 4"
    if x: "px_number x = n" for x verdict
  proof (rule flow_sat_bind [OF resolve_outcome_sat])
    fix found :: "json_dict option"
    assume found: "\<forall>d. found = Some d \<longrightarrow> map_of d ''head_sha'' \<noteq> None"
    show "flow_sat (lock_contract lim facts) (state_ok facts n (Suc k))
      (bind_flow (case found of None \<Rightarrow> Return acc | Some outcome \<Rightarrow> queue_apply facts acc x outcome) (\<lambda>acc1.
          route_pr io facts pre d acc1 x verdict (found \<noteq> None))) (4 - 1)"
    proof (rule flow_sat_bind [where k = 0])
      show "flow_sat (lock_contract lim facts) (acc_ok facts k)
          (case found of None \<Rightarrow> Return acc | Some outcome \<Rightarrow> queue_apply facts acc x outcome) 0"
        using found assms(2) queue_apply_sat [OF _ assms(2)] by (auto split: option.split)
      show "flow_sat (lock_contract lim facts) (state_ok facts n (Suc k))
          (route_pr io facts pre d acc1 x verdict (found \<noteq> None)) (4 - 1 - 0)" if "acc_ok facts k acc1" for acc1
        using route_pr_sat [OF assms(1) that x] by simp
    qed simp
  qed (use x n in simp_all)
  have plain: "flow_sat (lock_contract lim facts) (state_ok facts n (Suc k))
      (route_pr io facts pre d acc x verdict False) 4" if "px_number x = n" for x verdict
    by (rule flow_sat_mono [OF route_pr_sat [OF assms that]]) auto
  show ?thesis
    unfolding with_pr_flow_def Let_def n
    apply (simp only: flow_sat_ask lock_contract_simps lock_legal.simps request_issue.simps about_dispatched_simps
        well_answered_simps well_answered_simps' n simp_thms)
    apply (intro conjI allI impI, simp, elim exE, simp only: verdict_facts_of.simps option.case)
    apply (intro conjI allI impI, simp, elim exE, simp only: terminal_of.simps option.case)
    apply (split if_split, intro conjI impI)
     apply (rule flow_sat_mono [OF every])
       apply simp_all
    apply (rule flow_sat_mono [OF plain])
      apply simp_all
    done
qed

section \<open>Live hand-offs\<close>

lemma stamp_routed_sat: "flow_sat (lock_contract lim facts) (\<lambda>_. True) (stamp_routed facts c u) 0"
  by (cases c) (auto simp: stamp_routed_def dispatched_in_def split: option.split)

lemma hand_off_live_sat:
  assumes "same_draft facts n d"
  shows "flow_sat (lock_contract lim facts) (\<lambda>_. True) (hand_off_live facts n c d) 1"
proof -
  have opened: "flow_sat (lock_contract lim facts) (\<lambda>_. True)
      (bind_flow (flush (dset (dset d ''status'' a) ''pr_number'' b)) (\<lambda>_. emit kind payload)) 0" for a b kind payload
    by (rule flush_same [where n = n]) (use assms in \<open>simp_all add: emit_def\<close>)
  have stranded: "flow_sat (lock_contract lim facts) (\<lambda>_. True)
      (bind_flow (flush (dset (dset d ''orphan_drift_fingerprint'' a) ''orphan_drift_at'' b)) (\<lambda>_. emit kind payload)) 0"
    for a b kind payload
    by (rule flush_same [where n = n]) (use assms in \<open>simp_all add: emit_def\<close>)
  have quiet: "flow_sat (lock_contract lim facts) (\<lambda>_. True) (bind_flow (flush d) (\<lambda>_. Return ())) 0"
    by (rule flush_same [OF assms]) simp
  show ?thesis
    unfolding hand_off_live_def Let_def
    using same_draftD(3) [OF assms] opened stranded quiet by (auto split: option.split)
qed

lemma same_draft_new:
  assumes "map_of (ss_issues (sf_locked facts)) n = Some (JObj entry)"
    and "jget entry ''status'' = JStr ''dispatched''" and "readable_state (sf_locked facts)"
  shows "same_draft facts n (new_draft n entry)" and "readable_entry entry"
proof -
  show "readable_entry entry"
    using assms(1,3) map_of_SomeD by (fastforce simp: readable_state_def)
  then show "same_draft facts n (new_draft n entry)"
    using assms(1,2)
    by (simp add: same_draft_def draft_ok_def new_draft_def dispatched_in_def is_dispatched_def readable_entry_def)
qed

lemma live_issue_sat:
  assumes "readable_state (sf_locked facts)"
  shows "flow_sat (lock_contract lim facts) (\<lambda>_. True) (live_issue facts pre c u) 1"
proof (cases c)
  case (Pair n x)
  show ?thesis
  proof (cases "\<exists>entry. map_of (ss_issues (sf_locked facts)) n = Some (JObj entry) \<and>
      jget entry ''status'' = JStr ''dispatched''")
    case True
    then obtain entry where entry: "map_of (ss_issues (sf_locked facts)) n = Some (JObj entry)"
      "jget entry ''status'' = JStr ''dispatched''"
      by blast
    define d where "d = dset (new_draft n entry) routed_outcome_key (JStr (lc_outcome_at x))"
    have d: "same_draft facts n d"
      using same_draft_new(1) [OF entry assms] by (simp add: d_def routed_outcome_key_def)
    have "flow_sat (lock_contract lim facts) (\<lambda>_. True) (bind_flow (flush d) (\<lambda>_. Return ())) 1"
      by (rule flush_same [OF d]) simp
    then show ?thesis
      using Pair entry hand_off_live_sat [OF d] by (simp add: live_issue_def d_def Let_def)
  next
    case False
    then show ?thesis
      using Pair by (auto simp: live_issue_def split: option.split json.split)
  qed
qed

lemma live_handoff_sat:
  assumes "readable_state (sf_locked facts)"
  shows "flow_sat (lock_contract lim facts) (\<lambda>_. True) (live_handoff_flow facts pre) (length (pre_live pre))"
  unfolding live_handoff_flow_def
proof (rule flow_sat_bind [where k = 0])
  show "flow_sat (lock_contract lim facts) (\<lambda>_. True) (loop_flow (stamp_routed facts) (pre_pr_already_open pre) ()) 0"
    by (rule flow_sat_loop [where k = 0]) (auto intro: stamp_routed_sat)
  show "flow_sat (lock_contract lim facts) (\<lambda>_. True) (loop_flow (live_issue facts pre) (pre_live pre) ())
      (length (pre_live pre) - 0)"
    by (rule flow_sat_loop [where k = 1]) (simp_all add: live_issue_sat [OF assms] del: One_nat_def)
qed simp

section \<open>The phase\<close>

lemma flush_then_return:
  assumes "same_draft facts n d" and "P a"
  shows "flow_sat (lock_contract lim facts) P (bind_flow (flush d) (\<lambda>_. Return a)) m"
  by (rule flush_same [OF assms(1)]) (use assms(2) in simp)

lemma escalated_in_ok [simp]:
  "acc_ok facts k acc \<Longrightarrow> dispatched_in (sf_locked facts) n \<Longrightarrow> acc_ok facts k (escalated_in acc n)"
  by (simp add: escalated_in_def)

lemma lock_dispatched_sat:
  assumes entry: "map_of (ss_issues (sf_locked facts)) n = Some (JObj entry)"
      "jget entry ''status'' = JStr ''dispatched''"
    and "readable_state (sf_locked facts)" and acc: "acc_ok facts k acc"
  shows "flow_sat (lock_contract lim facts) (acc_ok facts (Suc k))
    (bind_flow (reap_flow io facts pre (new_draft n entry) pr acc) (\<lambda>(reaped, d).
       if reaped then Return (escalated_in acc n)
       else (case pr of
               Some p \<Rightarrow>
                 bind_flow (with_pr_flow io facts pre d p acc) (\<lambda>(d1, acc1).
                 bind_flow (flush d1) (\<lambda>_. Return acc1))
             | None \<Rightarrow>
                 bind_flow (lock_no_pr_flow io facts pre d) (\<lambda>(escalated, d1).
                 bind_flow (flush d1) (\<lambda>_.
                   Return (if escalated then escalated_in acc n else acc)))))) 7"
proof -
  note draft = same_draft_new [OF entry assms(3)]
  have n: "dispatched_in (sf_locked facts) n"
    using same_draftD(3) [OF draft(1)] .
  have "readable_entry (dr_work (new_draft n entry))"
    using draft(2) by (simp add: new_draft_def)
  note reap = reap_sat [OF draft(1) this, where io = io and pre = pre and pr = pr and acc = acc and lim = lim]
  have with_pr: "flow_sat (lock_contract lim facts) (acc_ok facts (Suc k))
      (bind_flow (with_pr_flow io facts pre d p acc) (\<lambda>(d1, acc1). bind_flow (flush d1) (\<lambda>_. Return acc1))) 6"
    if "same_draft facts n d" for d p
    by (rule flow_sat_bind [OF with_pr_sat [OF that acc]]) (auto intro: flush_then_return)
  have without: "flow_sat (lock_contract lim facts) (acc_ok facts (Suc k))
      (bind_flow (lock_no_pr_flow io facts pre d) (\<lambda>(escalated, d1). bind_flow (flush d1) (\<lambda>_.
         Return (if escalated then escalated_in acc n else acc)))) 6"
    if "same_draft facts n d" for d
    by (rule flow_sat_bind [OF lock_no_pr_sat [OF that]])
      (use acc n in \<open>auto simp: escalated_draft_def intro: flush_then_return\<close>)
  show ?thesis
    by (rule flow_sat_bind [OF reap]) (use with_pr without acc n in \<open>auto split: option.split\<close>)
qed

lemma lock_orphan_sat:
  assumes "readable_state (sf_locked facts)" and "acc_ok facts k acc"
  shows "flow_sat (lock_contract lim facts) (acc_ok facts (Suc k)) (lock_orphan io facts pre n acc) 7"
proof (cases "\<exists>entry. map_of (ss_issues (sf_locked facts)) n = Some (JObj entry) \<and>
    jget entry ''status'' = JStr ''dispatched''")
  case True
  then obtain entry where entry: "map_of (ss_issues (sf_locked facts)) n = Some (JObj entry)"
    "jget entry ''status'' = JStr ''dispatched''"
    by blast
  show ?thesis
    using lock_dispatched_sat [OF entry assms] entry by (simp add: lock_orphan_def Let_def)
next
  case False
  then show ?thesis
    using assms(2) by (auto simp: lock_orphan_def split: option.split json.split)
qed

definition lock_bound :: "pre_outcome \<Rightarrow> nat" where
  "lock_bound pre = 7 * length (pre_orphans pre) + length (pre_live pre)"

text \<open>What the locked phase hands on: routes and escalations of dispatched issues, a route for a worker at most.\<close>

definition lock_returns :: "sweep_facts \<Rightarrow> nat \<Rightarrow> lock_outcome \<Rightarrow> bool" where
  "lock_returns facts k locked \<longleftrightarrow>
     length (lo_review_routes locked) \<le> k \<and>
     (\<forall>v \<in> set (lo_review_routes locked). dispatched_in (sf_locked facts) (vr_issue v)) \<and>
     (\<forall>n \<in> set (lo_escalations locked). dispatched_in (sf_locked facts) n)"

lemma lock_flow_sat:
  assumes "readable_state (sf_locked facts)"
  shows "flow_sat (lock_contract lim facts) (lock_returns facts (length (pre_orphans pre)))
    (lock_flow io facts pre) (lock_bound pre)"
proof -
  have orphans: "flow_sat (lock_contract lim facts) (acc_ok facts (length (pre_orphans pre)))
      (loop_flow (lock_orphan io facts pre) (pre_orphans pre) acc) (7 * length (pre_orphans pre))"
    if "acc_ok facts 0 acc" for acc
    by (rule flow_sat_loop_prefix [where I = "\<lambda>ys. acc_ok facts (length ys)" and k = 7])
      (use that lock_orphan_sat [OF assms] in auto)
  have live: "flow_sat (lock_contract lim facts) (lock_returns facts (length (pre_orphans pre)))
      (bind_flow (live_handoff_flow facts pre) (\<lambda>_.
         Return \<lparr> lo_apply_routes = la_apply_routes acc1, lo_review_routes = la_review_routes acc1,
                  lo_no_op_routes = la_no_op_routes acc1, lo_escalations = la_escalations acc1 \<rparr>))
      (length (pre_live pre))" if "acc_ok facts (length (pre_orphans pre)) acc1" for acc1
    by (rule flow_sat_bind [OF live_handoff_sat [OF assms]])
      (use that in \<open>auto simp: lock_returns_def acc_ok_def\<close>)
  have body: "flow_sat (lock_contract lim facts) (lock_returns facts (length (pre_orphans pre)))
     (bind_flow (loop_flow (lock_orphan io facts pre) (pre_orphans pre) acc) (\<lambda>acc1.
      bind_flow (live_handoff_flow facts pre) (\<lambda>_.
         Return \<lparr> lo_apply_routes = la_apply_routes acc1, lo_review_routes = la_review_routes acc1,
                  lo_no_op_routes = la_no_op_routes acc1, lo_escalations = la_escalations acc1 \<rparr>)))
     (lock_bound pre)" if "acc_ok facts 0 acc" for acc
    by (rule flow_sat_bind [OF orphans [OF that]]) (use live in \<open>auto simp: lock_bound_def\<close>)
  have events: "flow_sat (lock_contract lim facts) (\<lambda>_. True)
      (commit_all (map (\<lambda>(kind, payload). Emit kind payload None False) (pre_salvage_events pre)) ()) 0"
    by auto
  have start: "acc_ok facts 0 \<lparr> la_throttled_until = u, la_apply_routes = [],
      la_review_routes = [], la_no_op_routes = [], la_escalations = [] \<rparr>" for u
    by (simp add: acc_ok_def)
  show ?thesis
    unfolding lock_flow_def Let_def
    by (split if_split, intro conjI impI, simp add: nothing_locked_def lock_returns_def,
        rule flow_sat_bind [OF events]) (use body [OF start] in simp_all)
qed

end
