(* ===== verification/Sweep_Replay.thy ===== *)
theory Sweep_Replay
  imports Sweep_Lock_Contract
begin

text \<open>
  The post-lock phase replays the locked flow under another stamp. \<open>sim\<close> relates flows that put the same
  requests and may differ in what they commit; the locked flow is related to itself under any stamp, so
  a replay finds the results it needs and returns the same outcome.
\<close>

section \<open>Flows that differ in what they commit\<close>

primrec erase :: "(request \<Rightarrow> response \<Rightarrow> bool) \<Rightarrow> 'a flow \<Rightarrow> 'a flow" where
  "erase res (Return a) = Return a"
| "erase res (Commit c f) = erase res f"
| "erase res (Ask q f) = Ask q (\<lambda>r. if res q r then erase res (f r) else Raise)"
| "erase res Raise = Raise"

text \<open>The same requests, on the results \<open>res\<close> allows; the values returned are related by \<open>R\<close>.\<close>

definition sim :: "(request \<Rightarrow> response \<Rightarrow> bool) \<Rightarrow> ('a \<Rightarrow> 'b \<Rightarrow> bool) \<Rightarrow> 'a flow \<Rightarrow> 'b flow \<Rightarrow> bool" where
  "sim res R f g \<longleftrightarrow> rel_gen R (erase res f) (erase res g)"

lemma erase_bind [simp]: "erase res (bind_flow f k) = bind_flow (erase res f) (\<lambda>a. erase res (k a))"
  by (induction f) (auto simp: fun_eq_iff)

lemma sim_return [simp]: "sim res R (Return a) (Return b) \<longleftrightarrow> R a b"
  by (simp add: sim_def)

lemma sim_raise [simp]: "sim res R Raise Raise"
  by (simp add: sim_def)

lemma sim_commit [simp]:
  "sim res R (Commit c f) g = sim res R f g"
  "sim res R f (Commit c g) = sim res R f g"
  by (simp_all add: sim_def)

lemma sim_mono: "sim res R f g \<Longrightarrow> (\<And>a b. R a b \<Longrightarrow> S a b) \<Longrightarrow> sim res S f g"
  unfolding sim_def by (erule gen.rel_mono_strong) blast

lemma rel_flow_bind:
  "rel_gen R f g \<Longrightarrow> (\<And>a b. R a b \<Longrightarrow> rel_gen S (k a) (l b)) \<Longrightarrow> rel_gen S (bind_flow f k) (bind_flow g l)"
  by (induction rule: gen.rel_induct) (auto simp: rel_fun_def)

lemma sim_bind:
  "sim res R f g \<Longrightarrow> (\<And>a b. R a b \<Longrightarrow> sim res S (k a) (l b)) \<Longrightarrow> sim res S (bind_flow f k) (bind_flow g l)"
  unfolding sim_def erase_bind by (rule rel_flow_bind)

text \<open>A flow that keeps a contract is related to itself, on the values the contract names.\<close>

lemma sim_same: "flow_sat ct P f n \<Longrightarrow> sim (ct_result ct) (\<lambda>a b. a = b \<and> P a) f f"
  unfolding sim_def by (induction f arbitrary: n) (auto simp: rel_fun_def)

lemma sim_refl: "sim res (=) f f"
  by (simp add: sim_def gen.rel_eq)

lemma sim_ask:
  assumes "\<And>r a. res q r \<Longrightarrow> result r = Some a \<Longrightarrow> sim res S (k a) (l a)"
  shows "sim res S (bind_flow (ask q result) k) (bind_flow (ask q result) l)"
  using assms by (auto simp: sim_def ask_def rel_fun_def split: option.split)

lemma sim_if:
  "(c \<Longrightarrow> sim res R f f') \<Longrightarrow> (\<not> c \<Longrightarrow> sim res R g g') \<Longrightarrow> sim res R (if c then f else g) (if c then f' else g')"
  by simp

lemma sim_option:
  "(v = None \<Longrightarrow> sim res R f f') \<Longrightarrow> (\<And>y. v = Some y \<Longrightarrow> sim res R (g y) (g' y)) \<Longrightarrow>
   sim res R (case v of None \<Rightarrow> f | Some y \<Rightarrow> g y) (case v of None \<Rightarrow> f' | Some y \<Rightarrow> g' y)"
  by (simp split: option.split)

lemma sim_loop:
  assumes "\<And>x s t. x \<in> set xs \<Longrightarrow> R s t \<Longrightarrow> sim res R (f x s) (g x t)" and "R s t"
  shows "sim res R (loop_flow f xs s) (loop_flow g xs t)"
  using assms
proof (induction xs arbitrary: s t)
  case (Cons x xs)
  show ?case
    unfolding loop_flow.simps
    by (rule sim_bind [where R = R]) (use Cons in auto)
qed auto

lemma sim_run:
  assumes "sim res (=) f g" and "\<And>q r. obs q = Some r \<Longrightarrow> res q r" and "run_flow f obs = (Finished a, cs)"
  shows "\<exists>ds. run_flow g obs = (Finished a, ds)"
proof -
  have run: "fst (run_flow (erase res h) obs) = fst (run_flow h obs)" for h :: "'a flow"
    using assms(2) by (induction h) (auto split: option.split prod.split)
  have "erase res f = erase res g"
    using assms(1) by (simp add: sim_def gen.rel_eq)
  then have "fst (run_flow g obs) = Finished a"
    using run [of f] run [of g] assms(3) by simp
  then show ?thesis
    by (metis prod.collapse)
qed

section \<open>Drafts\<close>

definition drafts_sim :: "sweep_facts \<Rightarrow> int \<Rightarrow> draft \<Rightarrow> draft \<Rightarrow> bool" where
  "drafts_sim facts n d d' \<longleftrightarrow> same_draft facts n d \<and> same_draft facts n d'"

lemma drafts_simI [intro]: "same_draft facts n d \<Longrightarrow> same_draft facts n d' \<Longrightarrow> drafts_sim facts n d d'"
  by (simp add: drafts_sim_def)

lemma sim_flush:
  assumes "same_draft facts n d" and "same_draft facts n d'"
    and "\<And>e e'. same_draft facts n e \<Longrightarrow> same_draft facts n e' \<Longrightarrow> sim res S (k e) (l e')"
  shows "sim res S (bind_flow (flush d) k) (bind_flow (flush d') l)"
proof -
  have "sim res S (k (flushed d)) (l (flushed d'))"
    using assms by (auto intro: same_draft_simps)
  then show ?thesis
    using flush_cases [of d] flush_cases [of d'] assms(1,2)
    by (auto simp: same_draft_def draft_ok_def)
qed

text \<open>Facts of another phase and stamp.\<close>

definition restamped :: "sweep_facts \<Rightarrow> phase \<Rightarrow> string \<Rightarrow> sweep_facts" where
  "restamped facts ph stamp = facts\<lparr> sf_phase := ph, sf_stamp := stamp \<rparr>"

lemma restamped_simps [simp]:
  "sf_phase (restamped facts ph stamp) = ph"
  "sf_stamp (restamped facts ph stamp) = stamp"
  "sf_now (restamped facts ph stamp) = sf_now facts"
  "sf_config (restamped facts ph stamp) = sf_config facts"
  "sf_snapshot (restamped facts ph stamp) = sf_snapshot facts"
  "sf_locked (restamped facts ph stamp) = sf_locked facts"
  "sf_pid_alive (restamped facts ph stamp) = sf_pid_alive facts"
  "sf_repo (restamped facts ph stamp) = sf_repo facts"
  "sf_review_available (restamped facts ph stamp) = sf_review_available facts"
  by (simp_all add: restamped_def)

section \<open>Without a pull request\<close>

lemma reap_restamped: "reap_flow io (restamped facts ph stamp) pre d pr acc = reap_flow io facts pre d pr acc"
  by (simp add: reap_flow_def)

definition escalations_sim :: "sweep_facts \<Rightarrow> int \<Rightarrow> bool \<times> draft \<Rightarrow> bool \<times> draft \<Rightarrow> bool" where
  "escalations_sim facts n r r' \<longleftrightarrow> fst r = fst r' \<and> drafts_sim facts n (snd r) (snd r')"

lemma escalations_sim_simps [simp]:
  "escalations_sim facts n (b, d) (b', d') \<longleftrightarrow> b = b' \<and> drafts_sim facts n d d'"
  by (simp add: escalations_sim_def)

lemma sim_open_pushed_branch:
  assumes "same_draft facts n d"
  shows "sim res (drafts_sim facts n) (open_pushed_branch s c d) (open_pushed_branch t c d)"
  unfolding open_pushed_branch_def Let_def
  by (rule sim_ask) (use assms in \<open>auto split: option.split\<close>)

lemma sim_report:
  "sim res S (bind_flow (report_relabeled reason removed ok n) k) (bind_flow (report_relabeled reason removed ok n) l) =
   sim res S (k ()) (l ())"
  "sim res S (bind_flow (report_declared_block removed ok kind detail n) k)
     (bind_flow (report_declared_block removed ok kind detail n) l) = sim res S (k ()) (l ())"
  by (simp_all add: report_relabeled_def report_declared_block_def emit_def)

lemma sim_lock_escalation:
  assumes "same_draft facts n d"
    and "\<And>k l. sim res (drafts_sim facts n) (k ()) (l ()) \<Longrightarrow>
       sim res (drafts_sim facts n) (bind_flow (report n) k) (bind_flow (report n) l)"
  shows "sim res (drafts_sim facts n) (lock_escalation s reason d report) (lock_escalation t reason d report)"
  unfolding lock_escalation_def Let_def same_draftD(2) [OF assms(1)]
  by (rule sim_flush [OF assms(1,1)]) (auto intro!: assms(2) drafts_simI)

lemma sim_decided_escalation:
  assumes "same_draft facts n d"
  shows "sim res (escalations_sim facts n) (decided_escalation s d esc) (decided_escalation t d esc)"
proof (cases esc)
  case (Esc_verified removed detail)
  then show ?thesis
    using assms by (auto intro!: drafts_simI)
next
  case (Esc_blocked removed ok kind detail)
  then show ?thesis
    by (auto simp: sim_report intro!: sim_bind [OF sim_lock_escalation [OF assms]])
next
  case (Esc_zero_artifact removed ok)
  then show ?thesis
    by (auto simp: sim_report intro!: sim_bind [OF sim_lock_escalation [OF assms]])
next
  case (Esc_cross_repo removed ok reason)
  then show ?thesis
    by (auto simp: sim_report intro!: sim_bind [OF sim_lock_escalation [OF assms]])
qed

text \<open>A flow without a request comes to its end.\<close>

lemma sim_silent:
  assumes "flow_sat ct P f 0" and "flow_sat ct' Q g 0" and "\<And>a b. P a \<Longrightarrow> Q b \<Longrightarrow> R a b"
  shows "sim res R f g"
proof -
  have "\<exists>a. P a \<and> erase res f = Return a"
    using assms(1) by (induction f) auto
  moreover have "\<exists>a. Q a \<and> erase res g = Return a"
    using assms(2) by (induction g) auto
  ultimately show ?thesis
    using assms(3) by (auto simp: sim_def)
qed

lemma same_draft_restamped [simp]: "same_draft (restamped facts ph stamp) n d = same_draft facts n d"
  by (simp add: same_draft_def draft_ok_def)

lemma lock_contract_restamped [simp]: "lock_contract lim (restamped facts ph stamp) = lock_contract lim facts"
  by (simp add: lock_contract_def)

lemma cap_escalates_restamped [simp]: "cap_escalates io (restamped facts ph stamp) pre d = cap_escalates io facts pre d"
  by (auto simp: cap_escalates_def decide_redispatch_cap_def Let_def split: option.split)

lemma sim_redispatch:
  assumes "same_draft facts n d"
  shows "sim res (escalations_sim facts n) (redispatch_or_reclaim io facts pre d)
    (redispatch_or_reclaim io (restamped facts ph stamp) pre d)"
  by (rule sim_silent [OF redispatch_exact [where lim = 0] redispatch_exact [where lim = 0]])
    (use assms in \<open>auto simp: escalations_sim_def\<close>)

lemma sim_lock_no_pr:
  assumes "same_draft facts n d"
  shows "sim res (escalations_sim facts n) (lock_no_pr_flow io facts pre d)
    (lock_no_pr_flow io (restamped facts ph stamp) pre d)"
proof -
  have opened: "sim res (escalations_sim facts n)
      (bind_flow (open_pushed_branch s c d) (\<lambda>d1. Return (False, d1)))
      (bind_flow (open_pushed_branch t c d) (\<lambda>d1. Return (False, d1)))" for s t c
    by (rule sim_bind [OF sim_open_pushed_branch [OF assms]]) simp
  show ?thesis
    unfolding lock_no_pr_flow_def Let_def
    using opened sim_decided_escalation [OF assms] sim_redispatch [OF assms]
    by (auto simp del: decided_escalation.simps split: option.split pre_escalation.split)
qed

section \<open>With a pull request\<close>

definition states_sim :: "sweep_facts \<Rightarrow> int \<Rightarrow> lock_state \<Rightarrow> lock_state \<Rightarrow> bool" where
  "states_sim facts n st st' \<longleftrightarrow> snd st = snd st' \<and> drafts_sim facts n (fst st) (fst st')"

lemma states_sim_simps [simp]:
  "states_sim facts n (d, acc) (d', acc') \<longleftrightarrow> acc = acc' \<and> drafts_sim facts n d d'"
  by (auto simp: states_sim_def)

text \<open>An arm that may leave the entry to the next one: then it left the draft alone.\<close>

definition arms_sim :: "sweep_facts \<Rightarrow> int \<Rightarrow> draft \<Rightarrow> bool \<times> lock_state \<Rightarrow> bool \<times> lock_state \<Rightarrow> bool" where
  "arms_sim facts n d r r' \<longleftrightarrow>
     fst r = fst r' \<and> states_sim facts n (snd r) (snd r') \<and> (\<not> fst r \<longrightarrow> fst (snd r) = d \<and> fst (snd r') = d)"

lemma arms_sim_simps [simp]:
  "arms_sim facts n d (b, e, acc) (b', e', acc') \<longleftrightarrow>
     b = b' \<and> acc = acc' \<and> drafts_sim facts n e e' \<and> (\<not> b \<longrightarrow> e = d \<and> e' = d)"
  by (auto simp: arms_sim_def)

lemma sim_drift_event:
  assumes "same_draft facts n d"
    and "\<And>e e'. drafts_sim facts n e e' \<Longrightarrow> sim res S (k e) (l e')"
  shows "sim res S (bind_flow (drift_event d fp s payload) k) (bind_flow (drift_event d fp t payload) l)"
  using assms by (auto simp: drift_event_def intro!: assms(2))

lemma add_review_route_sim:
  assumes "same_draft facts n d"
  shows "states_sim facts n (add_review_route facts anchor d acc x fp reason awaits)
    (add_review_route (restamped facts ph stamp) anchor d acc x fp reason awaits)"
  using assms by (auto simp: add_review_route_def)

lemma add_review_route_arms:
  assumes "same_draft facts n d"
  shows "arms_sim facts n d (True, add_review_route facts anchor d acc x fp reason awaits)
    (True, add_review_route (restamped facts ph stamp) anchor d acc x fp reason awaits)"
  using add_review_route_sim [OF assms] by (simp add: arms_sim_def)

lemma resolve_outcome_restamped: "resolve_outcome (restamped facts ph stamp) d x = resolve_outcome facts d x"
  unfolding resolve_outcome_def restamped_simps ..

lemma queue_apply_restamped: "queue_apply (restamped facts ph stamp) acc x outcome = queue_apply facts acc x outcome"
  unfolding queue_apply_def restamped_simps ..

lemma sim_bind_same:
  "(\<And>a. sim res S (k a) (l a)) \<Longrightarrow> sim res S (bind_flow f k) (bind_flow f l)"
  by (rule sim_bind [OF sim_refl]) simp

lemma sim_completed_outcome:
  assumes "same_draft facts n d"
  shows "sim res (arms_sim facts n d) (completed_outcome facts d acc x extra)
    (completed_outcome (restamped facts ph stamp) d acc x extra)"
proof -
  have drift: "sim res (arms_sim facts n d)
      (bind_flow (drift_event d fp s payload) (\<lambda>d1. Return (True, d1, acc1)))
      (bind_flow (drift_event d fp t payload) (\<lambda>d1. Return (True, d1, acc1)))" for fp s t payload acc1
    by (rule sim_drift_event [OF assms]) simp
  have quiet: "drafts_sim facts n d d"
    using assms by auto
  show ?thesis
    unfolding completed_outcome_def resolve_outcome_restamped queue_apply_restamped restamped_simps Let_def
    by (rule sim_bind_same sim_option sim_if drift | (simp add: quiet add_review_route_arms assms; fail))+
qed

lemma sim_declared_block:
  assumes "same_draft facts n d"
  shows "sim res (states_sim facts n) (declared_block io d acc x extra b) (declared_block io d acc x extra b)"
  unfolding declared_block_def Let_def
  by (rule sim_flush [OF assms assms]) (auto intro!: drafts_simI)

lemma sim_clean_exit:
  assumes "same_draft facts n d"
  shows "sim res (states_sim facts n) (clean_exit facts d acc x extra)
    (clean_exit (restamped facts ph stamp) d acc x extra)"
proof -
  have rework: "same_draft facts n (back_to_rework d)"
    using assms by (simp add: back_to_rework_def)
  have recovered: "sim res (states_sim facts n)
    (bind_flow (flush (back_to_rework d)) (\<lambda>d1.
          bind_flow (recovered_event x s reason extra kind) (\<lambda>_. Return (d1, acc1))))
    (bind_flow (flush (back_to_rework d)) (\<lambda>d1.
          bind_flow (recovered_event x t reason extra kind) (\<lambda>_. Return (d1, acc1))))" for s t reason kind acc1
    by (rule sim_flush [OF rework rework]) (auto simp: recovered_event_def)
  have drift: "sim res (states_sim facts n)
    (bind_flow (drift_event d fp s payload) (\<lambda>d1. Return (d1, acc1)))
    (bind_flow (drift_event d fp t payload) (\<lambda>d1. Return (d1, acc1)))" for fp s t payload acc1
    by (rule sim_drift_event [OF assms]) simp
  show ?thesis
    unfolding clean_exit_def restamped_simps Let_def
    by (rule sim_ask sim_if recovered drift | (simp add: drafts_simI assms; fail))+
qed

lemma sim_credited_death:
  assumes "same_draft facts n d"
  shows "sim res (states_sim facts n) (credited_death facts d acc x reason extra)
    (credited_death (restamped facts ph stamp) d acc x reason extra)"
proof -
  have rework: "same_draft facts n (back_to_rework d)"
    using assms by (simp add: back_to_rework_def)
  show ?thesis
    unfolding credited_death_def restamped_simps
    by (rule sim_flush [OF rework rework], rule sim_ask) (auto simp: recovered_event_def)
qed

lemma sim_same_head:
  assumes "same_draft facts n d"
  shows "sim res (states_sim facts n) (same_head io facts d acc x reason extra)
    (same_head io (restamped facts ph stamp) d acc x reason extra)"
  unfolding same_head_def
proof (rule sim_bind [OF sim_completed_outcome [OF assms]])
  fix r r'
  assume r: "arms_sim facts n d r r'"
  obtain b e acc1 where r_eq: "r = (b, e, acc1)"
    by (cases r)
  obtain b' e' acc1' where r'_eq: "r' = (b', e', acc1')"
    by (cases r')
  have block: "sim res (states_sim facts n)
      (bind_flow (ask (Read_blocked_outcome (px_number x)) outcome_of) (\<lambda>blocked.
          case blocked of
            Some b \<Rightarrow> declared_block io d acc1 x extra b
          | None \<Rightarrow>
              if is_zero (px_exit x) then clean_exit facts d acc1 x extra
              else credited_death facts d acc1 x reason extra))
      (bind_flow (ask (Read_blocked_outcome (px_number x)) outcome_of) (\<lambda>blocked.
          case blocked of
            Some b \<Rightarrow> declared_block io d acc1 x extra b
          | None \<Rightarrow>
              if is_zero (px_exit x) then clean_exit (restamped facts ph stamp) d acc1 x extra
              else credited_death (restamped facts ph stamp) d acc1 x reason extra))"
    by (rule sim_ask)
      (simp add: sim_declared_block [OF assms] sim_clean_exit [OF assms] sim_credited_death [OF assms] split: option.split)
  show "sim res (states_sim facts n)
     (case r of (routed, d1, acc1) \<Rightarrow>
        if routed then Return (d1, acc1)
        else bind_flow (ask (Read_blocked_outcome (px_number x)) outcome_of) (\<lambda>blocked.
          case blocked of
            Some b \<Rightarrow> declared_block io d1 acc1 x extra b
          | None \<Rightarrow>
              if is_zero (px_exit x) then clean_exit facts d1 acc1 x extra
              else credited_death facts d1 acc1 x reason extra))
     (case r' of (routed, d1, acc1) \<Rightarrow>
        if routed then Return (d1, acc1)
        else bind_flow (ask (Read_blocked_outcome (px_number x)) outcome_of) (\<lambda>blocked.
          case blocked of
            Some b \<Rightarrow> declared_block io d1 acc1 x extra b
          | None \<Rightarrow>
              if is_zero (px_exit x) then clean_exit (restamped facts ph stamp) d1 acc1 x extra
              else credited_death (restamped facts ph stamp) d1 acc1 x reason extra))"
  proof (cases b)
    case True
    then show ?thesis
      using r r_eq r'_eq by simp
  next
    case False
    then have "b' = b" "acc1' = acc1" "e = d" "e' = d"
      using r r_eq r'_eq by simp_all
    with block False show ?thesis
      by (simp only: r_eq r'_eq prod.case if_False)
  qed
qed

lemma sim_head_changed:
  assumes "same_draft facts n d"
  shows "sim res (states_sim facts n) (head_changed facts d acc x verdict carries)
    (head_changed (restamped facts ph stamp) d acc x verdict carries)"
proof -
  have drift: "sim res (states_sim facts n)
    (bind_flow (drift_event d fp s payload) (\<lambda>d1. Return (d1, acc1)))
    (bind_flow (drift_event d fp t payload) (\<lambda>d1. Return (d1, acc1)))" for fp s t payload acc1
    by (rule sim_drift_event [OF assms]) simp
  show ?thesis
    unfolding head_changed_def restamped_simps Let_def
    by (rule sim_if drift | (simp add: drafts_simI assms add_review_route_sim; fail))+
qed

lemma sim_unsafe_drift:
  assumes "same_draft facts n d"
  shows "sim res (states_sim facts n) (unsafe_drift facts d acc x verdict)
    (unsafe_drift (restamped facts ph stamp) d acc x verdict)"
proof -
  have drift: "sim res (states_sim facts n)
    (bind_flow (drift_event d fp s payload) (\<lambda>d1. Return (d1, acc1)))
    (bind_flow (drift_event d fp t payload) (\<lambda>d1. Return (d1, acc1)))" for fp s t payload acc1
    by (rule sim_drift_event [OF assms]) simp
  show ?thesis
    unfolding unsafe_drift_def restamped_simps Let_def
    by (rule sim_if drift | (simp add: drafts_simI assms; fail))+
qed

lemma sim_advance_unreviewed:
  assumes "same_draft facts n d"
  shows "sim res (arms_sim facts n d) (advance_unreviewed facts pre d acc x)
    (advance_unreviewed (restamped facts ph stamp) pre d acc x)"
proof -
  have advanced: "sim res (arms_sim facts n d)
    (bind_flow (flush (dset (dset (dset (dset d ''status'' a) ''dispatched_at'' JNull)
        ''orphan_drift_fingerprint'' JNull) ''orphan_drift_at'' JNull)) (\<lambda>d1.
       bind_flow (ask q credit_of) (\<lambda>credit.
       bind_flow (emit kind (payload credit)) (\<lambda>_.
       Return (True, d1, acc\<lparr> la_throttled_until := cr_throttled_until credit \<rparr>)))))
    (bind_flow (flush (dset (dset (dset (dset d ''status'' a) ''dispatched_at'' JNull)
        ''orphan_drift_fingerprint'' JNull) ''orphan_drift_at'' JNull)) (\<lambda>d1.
       bind_flow (ask q credit_of) (\<lambda>credit.
       bind_flow (emit kind (payload' credit)) (\<lambda>_.
       Return (True, d1, acc\<lparr> la_throttled_until := cr_throttled_until credit \<rparr>)))))"
    for a q kind payload payload'
    by (rule sim_flush [where n = n and facts = facts], simp_all add: assms, rule sim_ask) auto
  show ?thesis
    unfolding advance_unreviewed_def restamped_simps
    by (rule sim_ask sim_option sim_if advanced | (simp add: drafts_simI assms; fail))+
qed

lemma sim_route_pr:
  assumes "same_draft facts n d"
  shows "sim res (states_sim facts n) (route_pr io facts pre d acc x verdict carries)
    (route_pr io (restamped facts ph stamp) pre d acc x verdict carries)"
proof -
  have advance: "sim res (states_sim facts n)
      (bind_flow (advance_unreviewed facts pre d acc x) (\<lambda>(moved, d1, acc1).
           if moved then Return (d1, acc1) else unsafe_drift facts d1 acc1 x verdict))
      (bind_flow (advance_unreviewed (restamped facts ph stamp) pre d acc x) (\<lambda>(moved, d1, acc1).
           if moved then Return (d1, acc1) else unsafe_drift (restamped facts ph stamp) d1 acc1 x verdict))"
    by (rule sim_bind [OF sim_advance_unreviewed [OF assms]])
      (auto simp: arms_sim_def sim_unsafe_drift [OF assms] split: prod.split)
  show ?thesis
    unfolding route_pr_def restamped_simps
    by (rule sim_if sim_head_changed sim_same_head sim_unsafe_drift advance | rule assms)+
qed

lemma sim_with_pr:
  assumes "same_draft facts n d"
  shows "sim res (states_sim facts n) (with_pr_flow io facts pre d pr acc)
    (with_pr_flow io (restamped facts ph stamp) pre d pr acc)"
  unfolding with_pr_flow_def restamped_simps Let_def resolve_outcome_restamped queue_apply_restamped
  by (rule sim_ask sim_if sim_route_pr sim_bind_same | rule assms)+

section \<open>The phase\<close>

lemma stamp_routed_restamped: "stamp_routed (restamped facts ph stamp) = stamp_routed facts"
  by (simp add: stamp_routed_def fun_eq_iff)

lemma sim_hand_off_live:
  assumes "same_draft facts n d"
  shows "sim res (=) (hand_off_live facts n c d) (hand_off_live (restamped facts ph stamp) n c d)"
proof -
  have opened: "sim res (=) (bind_flow (flush (dset (dset d ''status'' a) ''pr_number'' b)) (\<lambda>_. emit kind payload))
     (bind_flow (flush (dset (dset d ''status'' a) ''pr_number'' b)) (\<lambda>_. emit kind payload))" for a b kind payload
    by (rule sim_refl)
  have stranded: "sim res (=)
      (bind_flow (flush (dset (dset d ''orphan_drift_fingerprint'' a) ''orphan_drift_at'' s)) (\<lambda>_. emit kind payload))
      (bind_flow (flush (dset (dset d ''orphan_drift_fingerprint'' a) ''orphan_drift_at'' t)) (\<lambda>_. emit kind payload))"
    for a s t kind payload
    by (rule sim_flush [where n = n and facts = facts]) (simp_all add: assms emit_def commit_flow_def)
  show ?thesis
    unfolding hand_off_live_def restamped_simps Let_def
    by (rule sim_ask sim_option sim_if opened stranded sim_refl)+
qed

lemma sim_live_issue:
  assumes "readable_state (sf_locked facts)"
  shows "sim res (=) (live_issue facts pre c u) (live_issue (restamped facts ph stamp) pre c u)"
proof (cases c)
  case (Pair n x)
  show ?thesis
  proof (cases "\<exists>entry. map_of (ss_issues (sf_locked facts)) n = Some (JObj entry) \<and>
      jget entry ''status'' = JStr ''dispatched''")
    case True
    then obtain entry where entry: "map_of (ss_issues (sf_locked facts)) n = Some (JObj entry)"
      "jget entry ''status'' = JStr ''dispatched''"
      by blast
    have d: "same_draft facts n (dset (new_draft n entry) routed_outcome_key (JStr (lc_outcome_at x)))"
      using same_draft_new(1) [OF entry assms] by (simp add: routed_outcome_key_def)
    show ?thesis
      using Pair entry sim_hand_off_live [OF d]
      by (simp add: live_issue_def Let_def sim_refl)
  next
    case False
    then show ?thesis
      using Pair by (auto simp: live_issue_def split: option.split json.split)
  qed
qed

lemma sim_live_handoff:
  assumes "readable_state (sf_locked facts)"
  shows "sim res (=) (live_handoff_flow facts pre) (live_handoff_flow (restamped facts ph stamp) pre)"
  unfolding live_handoff_flow_def stamp_routed_restamped
  by (rule sim_bind_same, rule sim_loop) (auto intro: sim_live_issue [OF assms])

lemma sim_dispatched:
  assumes entry: "map_of (ss_issues (sf_locked facts)) n = Some (JObj entry)"
      "jget entry ''status'' = JStr ''dispatched''"
    and "readable_state (sf_locked facts)"
  shows "sim (well_answered lim) (=)
    (bind_flow (reap_flow io facts pre (new_draft n entry) pr acc) (\<lambda>(reaped, d).
       if reaped then Return (escalated_in acc n)
       else (case pr of
               Some p \<Rightarrow>
                 bind_flow (with_pr_flow io facts pre d p acc) (\<lambda>(d1, acc1).
                 bind_flow (flush d1) (\<lambda>_. Return acc1))
             | None \<Rightarrow>
                 bind_flow (lock_no_pr_flow io facts pre d) (\<lambda>(escalated, d1).
                 bind_flow (flush d1) (\<lambda>_. Return (if escalated then escalated_in acc n else acc))))))
    (bind_flow (reap_flow io facts pre (new_draft n entry) pr acc) (\<lambda>(reaped, d).
       if reaped then Return (escalated_in acc n)
       else (case pr of
               Some p \<Rightarrow>
                 bind_flow (with_pr_flow io (restamped facts ph stamp) pre d p acc) (\<lambda>(d1, acc1).
                 bind_flow (flush d1) (\<lambda>_. Return acc1))
             | None \<Rightarrow>
                 bind_flow (lock_no_pr_flow io (restamped facts ph stamp) pre d) (\<lambda>(escalated, d1).
                 bind_flow (flush d1) (\<lambda>_. Return (if escalated then escalated_in acc n else acc))))))"
proof -
  note draft = same_draft_new [OF entry assms(3)]
  have "readable_entry (dr_work (new_draft n entry))"
    using draft(2) by (simp add: new_draft_def)
  note reap = sim_same [OF reap_sat [OF draft(1) this, where lim = lim], unfolded lock_contract_simps]
  have with_pr: "sim (well_answered lim) (=)
      (bind_flow (with_pr_flow io facts pre d p acc) (\<lambda>(d1, acc1). bind_flow (flush d1) (\<lambda>_. Return acc1)))
      (bind_flow (with_pr_flow io (restamped facts ph stamp) pre d p acc)
         (\<lambda>(d1, acc1). bind_flow (flush d1) (\<lambda>_. Return acc1)))"
    if "same_draft facts n d" for d p
    by (rule sim_bind [OF sim_with_pr [OF that]])
      (auto simp: states_sim_def drafts_sim_def intro!: sim_flush split: prod.split)
  have without: "sim (well_answered lim) (=)
      (bind_flow (lock_no_pr_flow io facts pre d) (\<lambda>(escalated, d1). bind_flow (flush d1) (\<lambda>_. Return (h escalated))))
      (bind_flow (lock_no_pr_flow io (restamped facts ph stamp) pre d)
         (\<lambda>(escalated, d1). bind_flow (flush d1) (\<lambda>_. Return (h escalated))))"
    if "same_draft facts n d" for d and h :: "bool \<Rightarrow> lock_acc"
    by (rule sim_bind [OF sim_lock_no_pr [OF that]])
      (auto simp: escalations_sim_def drafts_sim_def intro!: sim_flush split: prod.split)
  show ?thesis
    by (rule sim_bind [OF reap]) (auto simp: with_pr without intro!: sim_option)
qed

lemma sim_lock_orphan:
  assumes "readable_state (sf_locked facts)"
  shows "sim (well_answered lim) (=) (lock_orphan io facts pre n acc)
    (lock_orphan io (restamped facts ph stamp) pre n acc)"
proof (cases "\<exists>entry. map_of (ss_issues (sf_locked facts)) n = Some (JObj entry) \<and>
    jget entry ''status'' = JStr ''dispatched''")
  case True
  then obtain entry where entry: "map_of (ss_issues (sf_locked facts)) n = Some (JObj entry)"
    "jget entry ''status'' = JStr ''dispatched''"
    by blast
  show ?thesis
    using sim_dispatched [OF entry assms] entry by (simp add: lock_orphan_def Let_def reap_restamped)
next
  case False
  then show ?thesis
    by (auto simp: lock_orphan_def split: option.split json.split)
qed

text \<open>The locked flow under another stamp puts the same requests and returns the same outcome.\<close>

lemma lock_flow_restamped:
  assumes "readable_state (sf_locked facts)"
  shows "sim (well_answered lim) (=) (lock_flow io facts pre) (lock_flow io (restamped facts ph stamp) pre)"
proof -
  have loop: "sim (well_answered lim) (=) (loop_flow (lock_orphan io facts pre) (pre_orphans pre) acc)
      (loop_flow (lock_orphan io (restamped facts ph stamp) pre) (pre_orphans pre) acc)" for acc
    by (rule sim_loop) (auto intro: sim_lock_orphan [OF assms])
  show ?thesis
    unfolding lock_flow_def restamped_simps Let_def
    by (rule sim_if sim_refl sim_bind_same sim_bind [OF loop] sim_bind [OF sim_live_handoff [OF assms]] | simp)+
qed

end
