(* ===== verification/Sweep_Post_Contract.thy ===== *)
theory Sweep_Post_Contract
  imports Sweep_Lock_Contract
begin

text \<open>
  The contract of the post-lock phase: a route is reworked only behind a guarded update that committed,
  and no more than five requests are put for a route.
\<close>

text \<open>
  What a commit of the phase may be, under the results \<open>res\<close> that requests may have: an event, a
  report, an escalation label of an issue the locked phase escalated, or a rework label of a route whose
  guarded update may have committed.
\<close>

definition post_commit :: "(request \<Rightarrow> response \<Rightarrow> bool) \<Rightarrow> lock_outcome \<Rightarrow> commit \<Rightarrow> bool" where
  "post_commit res locked c \<longleftrightarrow>
     (case c of
        Emit _ _ _ _ \<Rightarrow> True
      | Report_stale_evidence _ \<Rightarrow> True
      | Transition_label n Edge_escalated p \<Rightarrow> n \<in> set (lo_escalations locked)
      | Transition_label n Edge_rework_requested p \<Rightarrow>
          \<exists>v \<in> set (lo_review_routes locked). vr_issue v = n \<and> res (Guarded_update (to_rework v)) (R_bool True)
      | _ \<Rightarrow> False)"

lemma post_commit_simps [simp]:
  "post_commit res locked (Emit kind payload level audit)"
  "post_commit res locked (Report_stale_evidence b)"
  "post_commit res locked (Transition_label n Edge_escalated p) \<longleftrightarrow> n \<in> set (lo_escalations locked)"
  by (simp_all add: post_commit_def)

definition post_contract :: "(request \<Rightarrow> response \<Rightarrow> bool) \<Rightarrow> lock_outcome \<Rightarrow> contract" where
  "post_contract res locked =
     \<lparr> ct_result = res, ct_request = post_legal, ct_commit = post_commit res locked \<rparr>"

lemma post_contract_simps [simp]:
  "ct_result (post_contract res locked) = res"
  "ct_request (post_contract res locked) = post_legal"
  "ct_commit (post_contract res locked) = post_commit res locked"
  by (simp_all add: post_contract_def)

definition reworked :: "(request \<Rightarrow> response \<Rightarrow> bool) \<Rightarrow> lock_outcome \<Rightarrow> int \<Rightarrow> bool" where
  "reworked res locked n \<longleftrightarrow>
     (\<exists>v \<in> set (lo_review_routes locked). vr_issue v = n \<and> res (Guarded_update (to_rework v)) (R_bool True))"

definition drained_ok :: "(request \<Rightarrow> response \<Rightarrow> bool) \<Rightarrow> lock_outcome \<Rightarrow> drained \<Rightarrow> bool" where
  "drained_ok res locked acc \<longleftrightarrow> (\<forall>n \<in> set (snd acc). reworked res locked n)"

lemma drained_ok_simps [simp]:
  "drained_ok res locked (xs, []) "
  "drained_ok res locked (fst acc @ ys, snd acc) = drained_ok res locked acc"
  "drained_ok res locked (fst acc, snd acc @ [n]) \<longleftrightarrow> drained_ok res locked acc \<and> reworked res locked n"
  by (auto simp: drained_ok_def)

lemma typed_bool:
  assumes "\<And>q r. res q r \<Longrightarrow> well_answered lim q r"
  shows "flow_sat (post_contract res locked) (\<lambda>b. b \<longrightarrow> res (Guarded_update u) (R_bool True)) (guarded u) 1"
  unfolding guarded_def flow_sat_ask_last post_contract_simps
proof (intro conjI allI impI)
  fix r
  assume r: "res (Guarded_update u) r"
  then obtain b where "r = R_bool b"
    using assms [OF r] by auto
  with r show "case bool_of r of None \<Rightarrow> False | Some b \<Rightarrow> b \<longrightarrow> res (Guarded_update u) (R_bool True)"
    by (cases b) simp_all
qed simp_all

lemma report_uncommitted_sat:
  "flow_sat (post_contract res locked) (\<lambda>_. True) (report_uncommitted v r) 0"
  by (simp add: report_uncommitted_def emit_def)

lemma drift_disposition_sat:
  assumes "\<And>q r. res q r \<Longrightarrow> well_answered lim q r" and "drained_ok res locked acc"
  shows "flow_sat (post_contract res locked) (drained_ok res locked) (drift_disposition v r dispatched acc) 1"
proof -
  have report: "flow_sat (post_contract res locked) (drained_ok res locked)
      (bind_flow (report_uncommitted v r) (\<lambda>_. Return a)) m" if "drained_ok res locked a" for a m
    by (rule flow_sat_bind [OF report_uncommitted_sat]) (use that in simp_all)
  show ?thesis
    unfolding drift_disposition_def Let_def
    by (split if_split, intro conjI impI report assms(2), rule flow_sat_bind [OF typed_bool])
      (use assms report in auto)
qed

lemma dispose_review_sat:
  assumes "\<And>q r. res q r \<Longrightarrow> well_answered lim q r" and "drained_ok res locked acc"
    and "v \<in> set (lo_review_routes locked)"
  shows "flow_sat (post_contract res locked) (drained_ok res locked) (dispose_review v r acc) 3"
proof -
  have guard: "flow_sat (post_contract res locked) (\<lambda>b. b \<longrightarrow> res (Guarded_update u) (R_bool True))
      (if c then guarded u else Return False) 1" for c u
    using typed_bool [OF assms(1)] by simp
  note drift = drift_disposition_sat [OF assms(1,2)]
  show ?thesis
    unfolding dispose_review_def Let_def
    apply (rule flow_sat_bind [OF guard])
     apply (split if_split, intro conjI impI)
      apply (simp add: assms(2))
     apply (rule flow_sat_bind [OF guard])
      apply (split if_split, intro conjI impI)
       apply (use assms in \<open>auto simp: reworked_def\<close>)[1]
      apply (use drift in simp)
     apply simp_all
    done
qed

lemma route_sat:
  assumes "\<And>q r. res q r \<Longrightarrow> well_answered lim q r" and "drained_ok res locked acc"
    and "v \<in> set (lo_review_routes locked)"
  shows "flow_sat (post_contract res locked) (drained_ok res locked) (route_flow v acc) 5"
proof -
  have review: "flow_sat (post_contract res locked) (drained_ok res locked)
     (bind_flow (ask (Review (vr_issue v) (vr_pr v) (vr_reason v)) review_of) (\<lambda>r.
            case rr_raised r of
              Some err \<Rightarrow>
                bind_flow (commit_flow (Emit ''orphaned_worker_review_route_failed''
                  [(''issue_number'', JInt (vr_issue v)), (''pr_number'', JInt (vr_pr v)),
                   (''reason'', JStr (vr_reason v)), (''error'', JStr err)] (Some ''warning'') True)) (\<lambda>_.
                Return acc)
            | None \<Rightarrow> dispose_review v r acc)) 4"
  proof -
    have "flow_sat (post_contract res locked) (drained_ok res locked) (dispose_review v r acc) 3" for r
      by (rule dispose_review_sat [OF assms])
    then show ?thesis
      using assms(2) by (auto dest!: assms(1) split: option.split)
  qed
  have later: "flow_sat (post_contract res locked) (drained_ok res locked)
     (bind_flow (ask (Read_applied_heads n) heads_of) (\<lambda>heads. if c heads then f else Return acc)) 5"
    if "flow_sat (post_contract res locked) (drained_ok res locked) f 4" for c f n
    using that assms(2) by (auto dest!: assms(1))
  show ?thesis
    unfolding route_flow_def Let_def
    by (split if_split, intro conjI impI later review flow_sat_mono [OF review]) auto
qed

definition post_bound :: "lock_outcome \<Rightarrow> nat" where
  "post_bound locked = 2 + 5 * length (lo_review_routes locked)"

lemma post_flow_sat:
  assumes "\<And>q r. res q r \<Longrightarrow> well_answered lim q r"
  shows "flow_sat (post_contract res locked) (\<lambda>_. True) (post_flow facts pre locked) (post_bound locked)"
proof -
  define n where "n = length (lo_review_routes locked)"
  have routes: "flow_sat (post_contract res locked) (drained_ok res locked)
      (if sf_review_available facts then loop_flow route_flow (lo_review_routes locked) (lo_no_op_routes locked, [])
       else Return (lo_no_op_routes locked, [])) (5 * n)"
    using flow_sat_loop [where I = "drained_ok res locked" and k = 5 and body = route_flow
        and xs = "lo_review_routes locked"] route_sat [OF assms]
    by (simp add: n_def)
  have escalated: "flow_sat (post_contract res locked) (\<lambda>_. True)
      (commit_all (map (\<lambda>n. Transition_label n Edge_escalated False) (lo_escalations locked)) ()) m" for m
    by simp
  have drain: "flow_sat (post_contract res locked) (\<lambda>_. True)
      (bind_flow (if no_op = [] then Return False else ask (Drain_no_op no_op) bool_of) (\<lambda>_.
         commit_all (map (\<lambda>n. Transition_label n Edge_escalated False) (lo_escalations locked)) ())) 1" for no_op
    using escalated by (auto dest!: assms)
  have labels: "flow_sat (post_contract res locked) (\<lambda>_. True)
     (bind_flow (commit_all (map (\<lambda>n. Transition_label n Edge_rework_requested True) recovered) ()) (\<lambda>_.
      bind_flow (if no_op = [] then Return False else ask (Drain_no_op no_op) bool_of) (\<lambda>_.
       commit_all (map (\<lambda>n. Transition_label n Edge_escalated False) (lo_escalations locked)) ()))) 1"
    if "drained_ok res locked (no_op, recovered)" for no_op recovered
    by (rule flow_sat_bind [where k = 0 and R = "\<lambda>_. True"])
      (use that drain in \<open>auto simp: drained_ok_def reworked_def post_commit_def\<close>)
  have mid: "flow_sat (post_contract res locked) (\<lambda>_. True)
     (bind_flow (if sf_review_available facts
                then loop_flow route_flow (lo_review_routes locked) (lo_no_op_routes locked, [])
                else Return (lo_no_op_routes locked, [])) (\<lambda>(no_op, recovered).
     bind_flow (commit_all (map (\<lambda>n. Transition_label n Edge_rework_requested True) recovered) ()) (\<lambda>_.
     bind_flow (if no_op = [] then Return False else ask (Drain_no_op no_op) bool_of) (\<lambda>_.
       commit_all (map (\<lambda>n. Transition_label n Edge_escalated False) (lo_escalations locked)) ())))) (1 + 5 * n)"
    apply (rule flow_sat_bind [OF routes])
     apply (split prod.split, intro allI impI, rule flow_sat_mono [OF labels])
       apply simp_all
    done
  have rest: "flow_sat (post_contract res locked) (\<lambda>_. True)
     (bind_flow (if lo_apply_routes locked = [] then Return False
                else ask (Apply_outcomes (lo_apply_routes locked)) bool_of) (\<lambda>_.
     bind_flow (if sf_review_available facts
                then loop_flow route_flow (lo_review_routes locked) (lo_no_op_routes locked, [])
                else Return (lo_no_op_routes locked, [])) (\<lambda>(no_op, recovered).
     bind_flow (commit_all (map (\<lambda>n. Transition_label n Edge_rework_requested True) recovered) ()) (\<lambda>_.
     bind_flow (if no_op = [] then Return False else ask (Drain_no_op no_op) bool_of) (\<lambda>_.
       commit_all (map (\<lambda>n. Transition_label n Edge_escalated False) (lo_escalations locked)) ()))))) (2 + 5 * n)"
  proof (rule flow_sat_bind [where k = 1 and R = "\<lambda>_. True"])
    show "flow_sat (post_contract res locked) (\<lambda>_. True)
        (if lo_apply_routes locked = [] then Return False else ask (Apply_outcomes (lo_apply_routes locked)) bool_of) 1"
      by (auto dest!: assms)
  qed (rule flow_sat_mono [OF mid], simp_all)
  then show ?thesis
    unfolding post_flow_def post_bound_def n_def by simp
qed

end
