(* ===== verification/Sweep_Direct.thy ===== *)
theory Sweep_Direct
  imports Sweep_Replay Sweep_Post_Contract
begin

text \<open>
  The three phases keep their contracts (the interpretations of \<open>phase_contract\<close>), and the whole sweep
  is the direct run of its three flows.
\<close>

section \<open>The phases keep their contracts\<close>

text \<open>The number of dead workers, and of live candidates, for which the round cap is known to be enough.\<close>

definition sweep_limit :: nat where
  "sweep_limit = 400"

lemma post_commit_legal: "post_commit res locked c \<Longrightarrow> commit_legal Post_phase c"
  by (cases c) (auto simp: post_commit_def)

interpretation pre_phase: phase_contract "pre_contract sweep_limit" Pre_phase
    "length (dead_orphans facts) \<le> sweep_limit" "pre_flow io facts"
    "\<lambda>pre. pre_orphans pre = dead_orphans facts \<and> length (pre_live pre) \<le> sweep_limit"
    "pre_bound (length (dead_orphans facts))"
  for facts io
proof unfold_locales
  show "flow_sat (pre_contract sweep_limit)
      (\<lambda>pre. pre_orphans pre = dead_orphans facts \<and> length (pre_live pre) \<le> sweep_limit) (pre_flow io facts)
      (pre_bound (length (dead_orphans facts)))"
    by (rule pre_flow_sat)
qed (simp_all add: pre_bound_def sweep_limit_def max_rounds_per_phase_def)

interpretation locked_phase: phase_contract "lock_contract sweep_limit facts" Lock_phase
    "readable_state (sf_locked facts) \<and> length (pre_orphans pre) \<le> sweep_limit \<and>
     length (pre_live pre) \<le> sweep_limit"
    "lock_flow io facts pre" "lock_returns facts (length (pre_orphans pre))" "lock_bound pre"
  for facts io pre
proof unfold_locales
  assume "readable_state (sf_locked facts) \<and> length (pre_orphans pre) \<le> sweep_limit \<and>
     length (pre_live pre) \<le> sweep_limit"
  then show "flow_sat (lock_contract sweep_limit facts) (lock_returns facts (length (pre_orphans pre)))
      (lock_flow io facts pre) (lock_bound pre)"
    by (simp add: lock_flow_sat)
qed (simp_all add: lock_bound_def sweep_limit_def max_rounds_per_phase_def)

interpretation post_phase: phase_contract "post_contract (well_answered sweep_limit) locked" Post_phase
    "length (lo_review_routes locked) \<le> sweep_limit" "post_flow facts pre locked" "\<lambda>_. True" "post_bound locked"
  for facts pre locked
proof unfold_locales
  show "flow_sat (post_contract (well_answered sweep_limit) locked) (\<lambda>_. True) (post_flow facts pre locked)
      (post_bound locked)"
    by (rule post_flow_sat)
qed (auto simp: post_bound_def sweep_limit_def max_rounds_per_phase_def intro: post_commit_legal)

section \<open>The direct sweep\<close>

text \<open>
  The specification of a sweep: the flows run directly, one after the other, each on the value of the
  one before; a raise ends the sweep, and the locked phase is saved in any case.
\<close>

definition direct_sweep :: "'w shell \<Rightarrow> time_io \<Rightarrow> sweep_facts \<Rightarrow> 'w \<Rightarrow> 'w \<times> phase_end" where
  "direct_sweep sh io base w =
     (let (w1, facts) = phase_facts sh base Pre_phase no_state w
      in case exec_flow sh Pre_phase (pre_flow io facts) Map.empty w1 of
           (w2, _, None) \<Rightarrow> (w2, Phase_raised)
         | (w2, obs, Some pre) \<Rightarrow>
             if obs Fetch_open_prs = None then (w2, Phase_done)
             else (let (w3, locked_state) = sh_load sh w2;
                       (w4, facts) = phase_facts sh base Lock_phase locked_state w3
                   in case exec_flow sh Lock_phase (lock_flow io facts pre) obs w4 of
                        (w5, _, None) \<Rightarrow> (sh_save sh w5, Phase_raised)
                      | (w5, obs, Some locked) \<Rightarrow>
                          (let (w6, facts) = phase_facts sh base Post_phase locked_state (sh_save sh w5)
                           in case exec_flow sh Post_phase (post_flow facts pre locked) obs w6 of
                                (w7, _, None) \<Rightarrow> (w7, Phase_raised)
                              | (w7, _, Some _) \<Rightarrow> (w7, Phase_done))))"

lemma pre_flow_facts:
  "pre_flow io (base\<lparr> sf_phase := ph, sf_stamp := stamp, sf_locked := locked \<rparr>) = pre_flow io base"
proof -
  let ?facts = "base\<lparr> sf_phase := ph, sf_stamp := stamp, sf_locked := locked \<rparr>"
  have sels: "sf_config ?facts = sf_config base" "sf_snapshot ?facts = sf_snapshot base"
    "sf_repo ?facts = sf_repo base" "sf_pid_alive ?facts = sf_pid_alive base" "sf_now ?facts = sf_now base"
    by simp_all
  have "triage_no_pr io ?facts = triage_no_pr io base"
    unfolding fun_eq_iff triage_no_pr_def sels by simp
  moreover have "salvage_flow ?facts = salvage_flow base"
    unfolding fun_eq_iff salvage_flow_def salvage_issue_def salvage_branch_def sels by simp
  moreover have "probe_no_pr ?facts = probe_no_pr base"
    unfolding fun_eq_iff probe_no_pr_def probe_issue_def sels by simp
  moreover have "pre_review_flow io ?facts = pre_review_flow io base"
    unfolding fun_eq_iff pre_review_flow_def pre_review_issue_def sels by simp
  moreover have "unreviewed_flow ?facts = unreviewed_flow base"
    unfolding fun_eq_iff unreviewed_flow_def sels by simp
  moreover have "dead_orphans ?facts = dead_orphans base"
    unfolding dead_orphans_def sels by simp
  moreover have "early_exit ?facts = early_exit base"
    unfolding fun_eq_iff early_exit_def sels by simp
  ultimately show ?thesis
    unfolding pre_flow_def by (simp only:)
qed

section \<open>The sweep is direct\<close>

text \<open>Results of the right types, and a shell whose handlers return such results.\<close>

definition typed_results :: "observations \<Rightarrow> bool" where
  "typed_results obs \<longleftrightarrow> (\<forall>q r. obs q = Some r \<longrightarrow> well_answered sweep_limit q r)"

definition typed_shell :: "'w shell \<Rightarrow> bool" where
  "typed_shell sh \<longleftrightarrow> (\<forall>q w w' r. sh_serve sh q w = (w', Some r) \<longrightarrow> well_answered sweep_limit q r)"

lemma typed_contracts [simp]:
  "observed_ok (pre_contract sweep_limit) obs = typed_results obs"
  "observed_ok (lock_contract sweep_limit facts) obs = typed_results obs"
  "observed_ok (post_contract (well_answered sweep_limit) locked) obs = typed_results obs"
  "serves_ok (pre_contract sweep_limit) sh = typed_shell sh"
  "serves_ok (lock_contract sweep_limit facts) sh = typed_shell sh"
  "serves_ok (post_contract (well_answered sweep_limit) locked) sh = typed_shell sh"
  by (simp_all add: observed_ok_def serves_ok_def typed_results_def typed_shell_def)

lemma typed_empty [simp]: "typed_results Map.empty"
  by (simp add: typed_results_def)

lemma typed_exec:
  assumes "typed_shell sh" and "typed_results obs" and "exec_flow sh ph f obs w = (w', obs', v)"
  shows "obs \<subseteq>\<^sub>m obs'" and "typed_results obs'"
  using exec_observed [where ct = "pre_contract sweep_limit", OF _ _ assms(3)] assms(1,2) by simp_all

text \<open>A phase whose rounds are a direct run ends without an abort.\<close>

lemma run_phase_direct:
  assumes "phase_rounds max_rounds_per_phase sh (decide io facts) (sf_phase facts) [] obs w =
    end_of (exec_flow sh ph f obs w)"
  shows "run_phase sh io facts obs w = end_of (exec_flow sh ph f obs w)"
proof (cases "exec_flow sh ph f obs w")
  case (fields w' obs' v)
  then show ?thesis
    using assms by (cases v) (simp_all add: run_phase_def)
qed

definition facts_at :: "sweep_facts \<Rightarrow> phase \<Rightarrow> string \<Rightarrow> sweep_state \<Rightarrow> sweep_facts" where
  "facts_at base ph stamp locked = base\<lparr> sf_phase := ph, sf_stamp := stamp, sf_locked := locked \<rparr>"

lemma facts_at_simps [simp]:
  "sf_phase (facts_at base ph stamp locked) = ph"
  "sf_locked (facts_at base ph stamp locked) = locked"
  "restamped (facts_at base ph stamp locked) ph' stamp' = facts_at base ph' stamp' locked"
  "pre_flow io (facts_at base ph stamp locked) = pre_flow io base"
  by (simp_all add: facts_at_def restamped_def pre_flow_facts)

lemma pre_rounds:
  assumes "typed_shell sh" and "length (dead_orphans base) \<le> sweep_limit"
  shows "run_phase sh io (facts_at base Pre_phase stamp locked) Map.empty w =
    end_of (exec_flow sh Pre_phase (pre_flow io base) Map.empty w)"
proof (rule run_phase_direct)
  show "phase_rounds max_rounds_per_phase sh (decide io (facts_at base Pre_phase stamp locked))
      (sf_phase (facts_at base Pre_phase stamp locked)) [] Map.empty w =
    end_of (exec_flow sh Pre_phase (pre_flow io base) Map.empty w)"
    unfolding facts_at_simps
    by (rule pre_phase.rounds_are_direct [OF assms(2)])
      (use assms(1) in \<open>simp_all add: decide_def\<close>)
qed

lemma locked_rounds:
  assumes "typed_shell sh" and "typed_results obs"
    and "readable_state locked" and "length (pre_orphans pre) \<le> sweep_limit" and "length (pre_live pre) \<le> sweep_limit"
    and "run_flow (pre_flow io base) obs = (Finished pre, cs)"
  shows "run_phase sh io (facts_at base Lock_phase stamp locked) obs w =
    end_of (exec_flow sh Lock_phase (lock_flow io (facts_at base Lock_phase stamp locked) pre) obs w)"
proof (rule run_phase_direct)
  let ?facts = "facts_at base Lock_phase stamp locked"
  have "decide io ?facts obs' = plan_of (run_flow (lock_flow io ?facts pre) obs')" if "obs \<subseteq>\<^sub>m obs'" for obs'
    using run_finished_stays [OF assms(6) that] by (simp add: decide_def completed_def)
  then show "phase_rounds max_rounds_per_phase sh (decide io ?facts) (sf_phase ?facts) [] obs w =
    end_of (exec_flow sh Lock_phase (lock_flow io ?facts pre) obs w)"
    unfolding facts_at_simps
    by (intro locked_phase.rounds_are_direct)
      (use assms in simp_all)
qed

lemma post_rounds:
  assumes "typed_shell sh" and "typed_results obs"
    and "readable_state locked" and "length (lo_review_routes outcome) \<le> sweep_limit"
    and "run_flow (pre_flow io base) obs = (Finished pre, cs)"
    and "run_flow (lock_flow io (facts_at base Lock_phase stamp' locked) pre) obs = (Finished outcome, cs')"
  shows "run_phase sh io (facts_at base Post_phase stamp locked) obs w =
    end_of (exec_flow sh Post_phase (post_flow (facts_at base Post_phase stamp locked) pre outcome) obs w)"
proof (rule run_phase_direct)
  let ?facts = "facts_at base Post_phase stamp locked"
  let ?locked = "facts_at base Lock_phase stamp' locked"
  have typed: "obs q = Some r \<Longrightarrow> well_answered sweep_limit q r" for q r
    using assms(2) by (simp add: typed_results_def)
  have "sim (well_answered sweep_limit) (=) (lock_flow io ?locked pre) (lock_flow io ?facts pre)"
    using lock_flow_restamped [of ?locked sweep_limit io pre Post_phase stamp] assms(3) by simp
  from sim_run [OF this typed assms(6)]
  obtain ds where outcome: "run_flow (lock_flow io ?facts pre) obs = (Finished outcome, ds)"
    by blast
  have "decide io ?facts obs' = plan_of (run_flow (post_flow ?facts pre outcome) obs')" if "obs \<subseteq>\<^sub>m obs'" for obs'
    using run_finished_stays [OF assms(5) that] run_finished_stays [OF outcome that]
    by (simp add: decide_def completed_def)
  then show "phase_rounds max_rounds_per_phase sh (decide io ?facts) (sf_phase ?facts) [] obs w =
    end_of (exec_flow sh Post_phase (post_flow ?facts pre outcome) obs w)"
    unfolding facts_at_simps
    by (intro post_phase.rounds_are_direct)
      (use assms in simp_all)
qed

lemma phase_facts_at:
  "phase_facts sh base ph locked w = (case sh_stamp sh w of (w', stamp) \<Rightarrow> (w', facts_at base ph stamp locked))"
  by (simp add: phase_facts_def facts_at_def)

lemma run_sweep_direct:
  assumes "typed_shell sh"
    and "\<And>w. readable_state (snd (sh_load sh w))" and "length (dead_orphans base) \<le> sweep_limit"
  shows "run_sweep sh io base w = direct_sweep sh io base w"
proof -
  note serves = assms(1)
  obtain w1 stamp1 where stamp1: "sh_stamp sh w = (w1, stamp1)"
    by (cases "sh_stamp sh w")
  obtain w2 obs v where pre_run: "exec_flow sh Pre_phase (pre_flow io base) Map.empty w1 = (w2, obs, v)"
    by (cases "exec_flow sh Pre_phase (pre_flow io base) Map.empty w1") auto
  note pre = pre_rounds [OF serves assms(3), of io stamp1 no_state w1]
  show ?thesis
  proof (cases v)
    case None
    then show ?thesis
      using stamp1 pre_run pre by (simp add: run_sweep_def direct_sweep_def phase_facts_at)
  next
    case (Some pre)
    have obs: "typed_results obs"
      using typed_exec(2) [OF serves _ pre_run] by simp
    obtain cs where replayed: "run_flow (pre_flow io base) obs = (Finished pre, cs)"
      using exec_replays [OF pre_run [unfolded Some]] by blast
    have few: "length (pre_orphans pre) \<le> sweep_limit" "length (pre_live pre) \<le> sweep_limit"
      using pre_phase.returned [OF assms(3) _ replayed] obs assms(3) by auto
    show ?thesis
    proof (cases "obs Fetch_open_prs = None")
      case True
      then show ?thesis
        using stamp1 pre_run pre Some by (simp add: run_sweep_def direct_sweep_def phase_facts_at)
    next
      case False
      then obtain prs where fetched: "obs Fetch_open_prs = Some prs"
        by blast
      have pf: "phase_facts sh base Pre_phase no_state w = (w1, facts_at base Pre_phase stamp1 no_state)"
        using stamp1 by (simp add: phase_facts_at)
      obtain w3 locked where load: "sh_load sh w2 = (w3, locked)"
        by (cases "sh_load sh w2")
      obtain w4 stamp2 where stamp2: "sh_stamp sh w3 = (w4, stamp2)"
        by (cases "sh_stamp sh w3")
      have readable: "readable_state locked"
        using assms(2) [of w2] load by simp
      let ?lflow = "lock_flow io (facts_at base Lock_phase stamp2 locked) pre"
      obtain w5 obs2 v2 where lock_run: "exec_flow sh Lock_phase ?lflow obs w4 = (w5, obs2, v2)"
        by (cases "exec_flow sh Lock_phase ?lflow obs w4") auto
      note lock = locked_rounds [OF serves obs readable few replayed, of stamp2 w4]
      have reach: "run_sweep sh io base w =
          (case run_locked sh io base obs w2 of
             (w3, obs', locked, Phase_done) \<Rightarrow>
               (case phase_facts sh base Post_phase locked w3 of
                  (w4, facts') \<Rightarrow> (case run_phase sh io facts' obs' w4 of (w5, _, e) \<Rightarrow> (w5, e)))
           | (w3, _, _, e) \<Rightarrow> (w3, e))"
        using pf pre_run pre Some fetched by (simp add: run_sweep_def)
      have reach': "direct_sweep sh io base w =
          (case exec_flow sh Lock_phase ?lflow obs w4 of
             (w5, _, None) \<Rightarrow> (sh_save sh w5, Phase_raised)
           | (w5, obs, Some outcome) \<Rightarrow>
               (case phase_facts sh base Post_phase locked (sh_save sh w5) of
                  (w6, facts) \<Rightarrow> case exec_flow sh Post_phase (post_flow facts pre outcome) obs w6 of
                     (w7, _, None) \<Rightarrow> (w7, Phase_raised)
                   | (w7, _, Some _) \<Rightarrow> (w7, Phase_done)))"
        using pf pre_run Some fetched load stamp2 by (simp add: direct_sweep_def phase_facts_at [where ph = Lock_phase])
      have locked_run: "run_locked sh io base obs w2 =
          (case end_of (w5, obs2, v2) of (w5, obs', e) \<Rightarrow> (sh_save sh w5, obs', locked, e))"
        using load stamp2 lock lock_run by (simp add: run_locked_def phase_facts_at)
      show ?thesis
      proof (cases v2)
        case None
        then show ?thesis
          using reach reach' locked_run lock_run by simp
      next
        case (Some outcome)
        have obs2: "typed_results obs2" "obs \<subseteq>\<^sub>m obs2"
          using typed_exec [OF serves obs lock_run] by simp_all
        obtain cs' where outcome: "run_flow ?lflow obs2 = (Finished outcome, cs')"
          using exec_replays [OF lock_run [unfolded Some]] by blast
        note replayed2 = run_finished_stays [OF replayed obs2(2)]
        have routes: "length (lo_review_routes outcome) \<le> sweep_limit"
          using locked_phase.returned [OF _ _ outcome] obs2(1) readable few
          by (simp add: lock_returns_def)
        obtain w6 stamp3 where stamp3: "sh_stamp sh (sh_save sh w5) = (w6, stamp3)"
          by (cases "sh_stamp sh (sh_save sh w5)")
        let ?pflow = "post_flow (facts_at base Post_phase stamp3 locked) pre outcome"
        obtain w7 obs3 v3 where post_run: "exec_flow sh Post_phase ?pflow obs2 w6 = (w7, obs3, v3)"
          by (cases "exec_flow sh Post_phase ?pflow obs2 w6") auto
        note post = post_rounds [OF serves obs2(1) readable routes replayed2 outcome, of stamp3 w6]
        show ?thesis
          using reach reach' locked_run lock_run Some stamp3 post post_run
          by (cases v3) (simp_all add: phase_facts_at)
      qed
    qed
  qed
qed

lemma direct_sweep_never_aborts: "snd (direct_sweep sh io base w) \<in> {Phase_done, Phase_raised}"
  by (simp add: direct_sweep_def Let_def split: prod.split option.split)

end
