(* ===== verification/Sweep_Demo.thy ===== *)
theory Sweep_Demo
  imports Sweep_Direct
begin

text \<open>
  An example that the witnesses run: a dead worker whose completed outcome ends in a rework. Its flows are
  evaluated phase by phase and its sweep is run directly.
\<close>

section \<open>An example\<close>

text \<open>
  Issue 7 has a dead worker, an approved pull request 9 at head \<^verbatim>\<open>h\<close> and an outcome that pins this head;
  the review of the hand-off fails.
\<close>

definition demo_io :: time_io where
  "demo_io = \<lparr> ti_fromiso = (\<lambda>_. None), ti_format = (\<lambda>_. ''T''), ti_str = (\<lambda>_. []) \<rparr>"

definition demo_state :: sweep_state where
  "demo_state =
     \<lparr> ss_issues = [(7, JObj [(''status'', JStr ''dispatched''), (''branch_name'', JStr ''b'')])],
       ss_prs = [(9, [(''reviewed_head_sha'', JStr ''h'')])], ss_throttled_until = JNull, ss_applied_heads = [] \<rparr>"

definition demo_facts :: "phase \<Rightarrow> sweep_facts" where
  "demo_facts ph =
     \<lparr> sf_phase = ph, sf_now = 0, sf_stamp = ''S'',
       sf_config = \<lparr> sc_active = [''working''], sc_ready = ''ready'', sc_pre_review_stale_minutes = 0,
                     sc_reap_minutes = 0, sc_redispatch_window = 60, sc_max_redispatch = 2,
                     sc_outcome_every_route = False \<rparr>,
       sf_snapshot = demo_state, sf_locked = demo_state, sf_pid_alive = [(7, False)],
       sf_repo = \<lparr> rp_has_root = True, rp_has_worktrees = True, rp_root_is_path = True \<rparr>,
       sf_review_available = True \<rparr>"

definition demo_pr :: pull_row where
  "demo_pr =
     \<lparr> pw_number = 9, pw_head_ref = Some ''b'', pw_head_oid = Some ''h'', pw_cross_repository = False,
       pw_mergeable = None, pw_merge_state = None, pw_rollup = None, pw_updated_at = None \<rparr>"

fun demo_answer :: "request \<Rightarrow> response" where
  "demo_answer Read_clock = R_time 0"
| "demo_answer Collect_live_handoff = R_live []"
| "demo_answer Fetch_open_prs = R_prs [(7, demo_pr)]"
| "demo_answer (Fetch_open_issues _) = R_issues []"
| "demo_answer (Resolve_fate _ _) =
     R_fate \<lparr> fa_branch = [], fa_blocked_escalatable = False, fa_blocked_reason_kind = [],
              fa_blocked_detail = [], fa_throttled = False, fa_verified_no_changes = False,
              fa_pushed_without_pr = False, fa_outcome = None \<rparr>"
| "demo_answer (Strip_and_flag _ _) = R_label_write True"
| "demo_answer (Close_verified_no_changes _ _) = R_verified \<lparr> vc_ok = False, vc_removed = [], vc_reason = None \<rparr>"
| "demo_answer (Probe_zero_artifact _) = R_bool False"
| "demo_answer (Probe_cross_repo_scope _) = R_scope True None"
| "demo_answer (Park_or_reclaim _) = R_bool True"
| "demo_answer (Park_backstop _ _) = R_backstop \<lparr> br_deferred = [], br_reclaims = [] \<rparr>"
| "demo_answer (Salvage_push _ _) =
     R_salvage \<lparr> sv_pushed = False, sv_old_sha = None, sv_new_sha = None, sv_commits = None, sv_error = None \<rparr>"
| "demo_answer (Probe_remote_branch _ _) = R_probe no_probe"
| "demo_answer (Probe_worktree_head _ _) = R_sha None"
| "demo_answer (Read_review_decision _ _ _) =
     R_review_facts \<lparr> rd_verdict = Some ''approved'', rd_stale = False, rd_missing = False,
                      rd_reviewed_head = Some ''h'' \<rparr>"
| "demo_answer (Fetch_pr_view _) = R_pr_view None"
| "demo_answer (Open_pr_for_branch _ _ _) = R_pr_open \<lparr> po_number = None, po_error = None \<rparr>"
| "demo_answer (Advance_to_pr_open _) = R_bool False"
| "demo_answer (Credit_dead_worker _ _ _ _) = R_credit \<lparr> cr_kind = None, cr_throttled_until = JNull \<rparr>"
| "demo_answer (Exempt_throttle_clean_exit _ _ _) = R_credit \<lparr> cr_kind = None, cr_throttled_until = JNull \<rparr>"
| "demo_answer (Read_terminal _) = R_terminal \<lparr> tf_exit = JNull, tf_duration = JNull \<rparr>"
| "demo_answer (Read_completed_outcome _ _ _ _) = R_outcome (Some [(''head_sha'', JStr ''h'')])"
| "demo_answer (Read_blocked_outcome _) = R_outcome None"
| "demo_answer (Apply_outcomes _) = R_bool True"
| "demo_answer (Read_applied_heads _) = R_heads [(7, ''h'')]"
| "demo_answer (Review _ _ _) =
     R_review \<lparr> rr_ok = False, rr_routed_to_rework = False, rr_closed_converged = False,
                rr_deferred_live_worker = False, rr_no_op_rework = False, rr_raised = None,
                rr_entry_status = JStr ''dispatched'', rr_reviewed_head = Some ''h'', rr_entry_branch = Some ''b'' \<rparr>"
| "demo_answer (Guarded_update _) = R_bool True"
| "demo_answer (Drain_no_op _) = R_bool True"

text \<open>A shell that answers so and keeps the commits it applied.\<close>

definition demo_shell :: "commit list shell" where
  "demo_shell =
     \<lparr> sh_serve = (\<lambda>q w. (w, Some (demo_answer q))), sh_apply = (\<lambda>ph c w. (w @ [c], True)),
       sh_abort = (\<lambda>ph a w. w), sh_stamp = (\<lambda>w. (w, ''S'')), sh_load = (\<lambda>w. (w, demo_state)),
       sh_save = (\<lambda>w. w) \<rparr>"

lemma demo_typed: "well_answered sweep_limit q (demo_answer q)"
  by (cases q) (simp_all add: well_answered_def sweep_limit_def
      del: well_answered_simps well_answered_simps' well_answered_outcome)

lemma demo_readable: "readable_state demo_state"
  by (simp add: readable_state_def demo_state_def readable_entry_def throttle_death_def failure_kind_def jget_def)

lemma demo_orphans: "dead_orphans (demo_facts ph) = [7]"
  by (simp add: dead_orphans_def demo_facts_def demo_state_def is_dispatched_def jget_def)

lemma demo_facts_simps [simp]:
  "rp_has_root (sf_repo (demo_facts ph))" "rp_has_worktrees (sf_repo (demo_facts ph))"
  "rp_root_is_path (sf_repo (demo_facts ph))" "sf_snapshot (demo_facts ph) = demo_state"
  "sf_locked (demo_facts ph) = demo_state" "sf_phase (demo_facts ph) = ph" "sf_stamp (demo_facts ph) = ''S''"
  "sf_review_available (demo_facts ph)" "sc_reap_minutes (sf_config (demo_facts ph)) = 0"
  "\<not> sc_outcome_every_route (sf_config (demo_facts ph))"
  "sc_pre_review_stale_minutes (sf_config (demo_facts ph)) = 0"
  by (simp_all add: demo_facts_def)

lemma demo_pr_simps [simp]:
  "pw_number demo_pr = 9" "pw_head_ref demo_pr = Some ''b''" "pw_head_oid demo_pr = Some ''h''"
  "\<not> pw_cross_repository demo_pr" "pw_mergeable demo_pr = None" "pw_merge_state demo_pr = None"
  by (simp_all add: demo_pr_def)

definition demo_observed :: observations where
  "demo_observed q = Some (demo_answer q)"

lemma demo_pre:
  "\<exists>pre cs. run_flow (pre_flow demo_io (demo_facts ph)) demo_observed = (Finished pre, cs) \<and>
     pre_orphans pre = [7] \<and> pre_prs pre = [(7, demo_pr)] \<and> pre_heads pre = [(7, Some ''h'')] \<and>
     pre_live pre = [] \<and> pre_pr_already_open pre = [] \<and> pre_unreviewed pre = [] \<and> pre_salvage_events pre = [] \<and>
     pre_details pre = [] \<and> pre_deferred pre = [] \<and> \<not> pre_early_exit pre \<and> pre_now pre = 0"
  by (simp add: pre_flow_def Let_def demo_orphans ask_def demo_observed_def live_candidates_def
      salvage_flow_def salvage_issue_def salvage_branch_def probe_no_pr_def pre_review_flow_def pre_review_issue_def
      unreviewed_flow_def unverdicted_def empty_triage_def head_of_def commit_flow_def
      is_pre_review_rework_candidate_def or_empty_def)

text \<open>The run of the locked flow on what the pre-lock phase returned, and of the post-lock flow on that.\<close>

definition demo_route :: review_route where
  "demo_route =
     \<lparr> vr_issue = 7, vr_pr = 9, vr_reviewed_head = Some ''h'', vr_live_head = Some ''h'',
       vr_fingerprint = drift_fingerprint [(''reason'', Part_text (Some ''dead_worker_completed_outcome'')),
         (''reviewed_head_sha'', Part_text (Some ''h''))],
       vr_reason = ''dead_worker_completed_outcome'', vr_awaits_head = False \<rparr>"

definition demo_outcome :: lock_outcome where
  "demo_outcome =
     \<lparr> lo_apply_routes = [(7, 9)], lo_review_routes = [demo_route], lo_no_op_routes = [], lo_escalations = [] \<rparr>"

lemma demo_lock:
  assumes "pre_orphans pre = [7]" and "pre_prs pre = [(7, demo_pr)]" and "pre_heads pre = [(7, Some ''h'')]"
    and "pre_live pre = []" and "pre_pr_already_open pre = []" and "pre_unreviewed pre = []"
    and "pre_salvage_events pre = []" and "pre_details pre = []" and "pre_deferred pre = []"
    and "\<not> pre_early_exit pre" and "pre_now pre = 0"
  shows "\<exists>cs. run_flow (lock_flow demo_io (demo_facts ph) pre) demo_observed = (Finished demo_outcome, cs) \<and>
    Update_issue 7 [(''orphan_drift_at'', JStr ''S'')] [] \<in> set cs"
  by (simp add: lock_flow_def Let_def assms lock_orphan_def demo_state_def jget_def new_draft_def
      reap_flow_def reap_due_def with_pr_flow_def ask_def demo_observed_def head_of_def dget_def
      route_pr_def same_head_def completed_outcome_def resolve_outcome_def branch_value_def
      queue_apply_def opt_json_def add_review_route_def flush_def take_draft_def draft_diff_def jkeys_def dset_def
      live_handoff_flow_def demo_outcome_def demo_route_def or_empty_def)

lemma demo_post:
  "\<exists>cs. run_flow (post_flow (demo_facts ph) pre demo_outcome) demo_observed = (Finished (), cs) \<and>
    cs = [Report_stale_evidence Bucket_swept, Transition_label 7 Edge_rework_requested True]"
  by (simp add: post_flow_def demo_outcome_def demo_route_def ask_def demo_observed_def route_flow_def
      Let_def dispose_review_def guarded_def)

section \<open>Its runs\<close>

lemma demo_shell_simps [simp]:
  "sh_serve demo_shell q w = (w, Some (demo_answer q))"
  "sh_load demo_shell w = (w, demo_state)"
  by (simp_all add: demo_shell_def)

lemma demo_shell_typed: "typed_shell demo_shell"
  by (simp add: typed_shell_def demo_typed)

lemma demo_facts_update:
  "(demo_facts ph)\<lparr> sf_phase := ph', sf_stamp := ''S'', sf_locked := demo_state \<rparr> = demo_facts ph'"
  by (simp add: demo_facts_def)

lemma demo_phase_facts:
  "phase_facts demo_shell (demo_facts ph) ph' demo_state w = (w, demo_facts ph')"
  by (simp add: phase_facts_def demo_shell_def demo_facts_update)

lemma fetched_unless_early:
  assumes "run_flow (pre_flow io base) obs = (Finished pre, cs)" and "\<not> pre_early_exit pre"
  shows "obs Fetch_open_prs \<noteq> None"
  using assms
  by (auto simp: pre_flow_def Let_def ask_def early_exit_def split: option.splits prod.splits if_splits)

lemma demo_exec:
  assumes "run_flow f demo_observed = (Finished a, cs)" and "\<And>q r. obs q = Some r \<Longrightarrow> r = demo_answer q"
  shows "\<exists>obs'. exec_flow demo_shell ph f obs w = (w @ cs, obs', Some a) \<and> (\<forall>q r. obs' q = Some r \<longrightarrow> r = demo_answer q)"
  using assms
proof (induction f arbitrary: cs obs w)
  case (Commit c f)
  then obtain cs1 where "cs = c # cs1" "run_flow f demo_observed = (Finished a, cs1)"
    by (auto split: prod.splits)
  with Commit.IH [of cs1 obs "w @ [c]"] Commit.prems(2) show ?case
    by (simp add: demo_shell_def)
next
  case (Ask q f)
  have run: "run_flow (f (demo_answer q)) demo_observed = (Finished a, cs)"
  proof -
    have "demo_observed q = Some (demo_answer q)"
      by (simp add: demo_observed_def)
    with Ask.prems(1) show ?thesis
      by simp
  qed
  show ?case
  proof (cases "obs q")
    case None
    have "r = demo_answer q'" if "(obs(q \<mapsto> demo_answer q)) q' = Some r" for q' r
      using that Ask.prems(2) by (auto split: if_splits)
    then have "\<exists>obs'. exec_flow demo_shell ph (f (demo_answer q)) (obs(q \<mapsto> demo_answer q)) w = (w @ cs, obs', Some a) \<and>
        (\<forall>q r. obs' q = Some r \<longrightarrow> r = demo_answer q)"
      by (rule Ask.IH [OF rangeI run])
    with None show ?thesis
      by simp
  next
    case (Some r)
    with Ask.prems(2) have "r = demo_answer q"
      by blast
    with Ask.IH [OF rangeI run Ask.prems(2)] Some show ?thesis
      by simp
  qed
qed simp_all

text \<open>The sweep of the example, run directly: the rework label is its last commit.\<close>

lemma demo_sweep:
  "\<exists>w. direct_sweep demo_shell demo_io (demo_facts Pre_phase) [] = (w, Phase_done) \<and>
     last w = Transition_label 7 Edge_rework_requested True"
proof -
  let ?base = "demo_facts Pre_phase"
  obtain pre cs where pre: "run_flow (pre_flow demo_io ?base) demo_observed = (Finished pre, cs)"
    and late: "\<not> pre_early_exit pre"
    and run: "\<exists>cs'. run_flow (lock_flow demo_io (demo_facts Lock_phase) pre) demo_observed = (Finished demo_outcome, cs')"
    using demo_pre [of Pre_phase] demo_lock [where ph = Lock_phase] by metis
  obtain cs' where lock: "run_flow (lock_flow demo_io (demo_facts Lock_phase) pre) demo_observed = (Finished demo_outcome, cs')"
    using run by blast
  have post: "run_flow (post_flow (demo_facts Post_phase) pre demo_outcome) demo_observed =
      (Finished (), [Report_stale_evidence Bucket_swept, Transition_label 7 Edge_rework_requested True])"
    using demo_post by simp
  obtain obs1 where e1: "exec_flow demo_shell Pre_phase (pre_flow demo_io ?base) Map.empty [] = (cs, obs1, Some pre)"
    and o1: "\<And>q r. obs1 q = Some r \<Longrightarrow> r = demo_answer q"
    using demo_exec [OF pre, of Map.empty Pre_phase "[]"] by auto
  obtain prs where fetched: "obs1 Fetch_open_prs = Some prs"
    using fetched_unless_early late exec_replays [OF e1] by blast
  obtain obs2 where e2: "exec_flow demo_shell Lock_phase (lock_flow demo_io (demo_facts Lock_phase) pre) obs1 cs = (cs @ cs', obs2, Some demo_outcome)"
    and o2: "\<And>q r. obs2 q = Some r \<Longrightarrow> r = demo_answer q"
    using demo_exec [OF lock, of obs1 Lock_phase cs] o1 by auto
  obtain obs3 where e3: "exec_flow demo_shell Post_phase (post_flow (demo_facts Post_phase) pre demo_outcome) obs2 (cs @ cs') =
      ((cs @ cs') @ [Report_stale_evidence Bucket_swept, Transition_label 7 Edge_rework_requested True], obs3, Some ())"
    using demo_exec [OF post, of obs2 Post_phase "cs @ cs'"] o2 by auto
  have first: "phase_facts demo_shell ?base Pre_phase no_state [] = ([], facts_at ?base Pre_phase ''S'' no_state)"
    by (simp add: phase_facts_at demo_shell_def)
  have save: "sh_save demo_shell w = w" for w
    by (simp add: demo_shell_def)
  show ?thesis
    using fetched e1 e2 e3 by (simp add: direct_sweep_def first demo_phase_facts save)
qed

lemma demo_observed_typed: "typed_results demo_observed"
  by (simp add: typed_results_def demo_observed_def demo_typed)

lemma demo_decide:
  "\<exists>commits. decide demo_io (demo_facts Lock_phase) demo_observed = Plan [] commits \<and>
     Update_issue 7 [(''orphan_drift_at'', JStr ''S'')] [] \<in> set commits"
  "decide demo_io (demo_facts Post_phase) demo_observed =
     Plan [] [Report_stale_evidence Bucket_swept, Transition_label 7 Edge_rework_requested True]"
proof -
  have lock: "\<exists>pre cs cs'. run_flow (pre_flow demo_io (demo_facts ph)) demo_observed = (Finished pre, cs) \<and>
      run_flow (lock_flow demo_io (demo_facts ph) pre) demo_observed = (Finished demo_outcome, cs') \<and>
      Update_issue 7 [(''orphan_drift_at'', JStr ''S'')] [] \<in> set cs'" for ph
    using demo_pre [of ph] demo_lock [where ph = ph] by metis
  show "\<exists>commits. decide demo_io (demo_facts Lock_phase) demo_observed = Plan [] commits \<and>
     Update_issue 7 [(''orphan_drift_at'', JStr ''S'')] [] \<in> set commits"
    using lock [of Lock_phase] by (auto simp: decide_def completed_def)
  show "decide demo_io (demo_facts Post_phase) demo_observed =
     Plan [] [Report_stale_evidence Bucket_swept, Transition_label 7 Edge_rework_requested True]"
    using lock [of Post_phase] demo_post [of Post_phase] by (auto simp: decide_def completed_def)
qed

end
