(* ===== verification/Sweep_Props.thy ===== *)
theory Sweep_Props
  imports Sweep_Demo
begin

text \<open>
  The properties of the dead-worker sweep: the replaying shell runs each flow once, plans are legal and
  never raise, the locked phase stays on dispatched issues, a rework label follows its guarded write, the
  redispatch cap counts dispatches, and a guarded write is atomic.
\<close>

section \<open>The shell\<close>

text \<open>C6. The replaying shell runs each flow once.

  For handlers that answer in the types the flows expect, a readable state, and at most 400 dead workers,
  a sweep of the decide-apply loop ends in the same world as the direct run of the three flows: each
  request is served once, each commit is applied once, both in the order of the flow, although every
  round replays the flow from its start. No gate of the loop trips: no changed prefix, no illegal commit
  or request, no request asked again, no phase out of order, no exhausted rounds.\<close>
theorem sweep_runs_each_flow_once:
  assumes "typed_shell sh" and "\<And>w. readable_state (snd (sh_load sh w))"
    and "length (dead_orphans base) \<le> sweep_limit"
  shows "run_sweep sh io base w = direct_sweep sh io base w \<and>
    snd (run_sweep sh io base w) \<in> {Phase_done, Phase_raised}"
  using run_sweep_direct [OF assms] direct_sweep_never_aborts by metis

theorem sweep_runs_each_flow_once_witness:
  "\<exists>w. run_sweep demo_shell demo_io (demo_facts Pre_phase) [] = (w, Phase_done) \<and>
     last w = Transition_label 7 Edge_rework_requested True"
proof -
  have "run_sweep demo_shell demo_io (demo_facts Pre_phase) [] = direct_sweep demo_shell demo_io (demo_facts Pre_phase) []"
    using sweep_runs_each_flow_once [OF demo_shell_typed, of "demo_facts Pre_phase" demo_io "[]"]
    by (simp add: demo_readable demo_orphans sweep_limit_def)
  with demo_sweep show ?thesis
    by simp
qed

text \<open>C34. The pre-lock phase ends, in a number of rounds linear in the dead workers.

  With \<open>n\<close> dead workers the loop of the pre-lock phase comes to its end in any number of rounds above
  \<open>8 + 12 * n\<close>, with the result of the direct run, whatever the handlers answer and however many
  workers there are; only the cap of 5000 rounds limits \<open>n\<close>.\<close>
theorem pre_phase_ends:
  assumes "typed_shell sh" and "sf_phase facts = Pre_phase" and "pre_bound (length (dead_orphans facts)) < k"
  shows "phase_rounds k sh (decide io facts) Pre_phase [] Map.empty w =
    end_of (exec_flow sh Pre_phase (pre_flow io facts) Map.empty w)"
proof -
  obtain m where k: "k = Suc m" "pre_bound (length (dead_orphans facts)) \<le> m"
    using assms(3) by (cases k) auto
  have plans: "decide io facts obs = plan_of (behind ([] @ []) (run_flow (pre_flow io facts) obs))" for obs
    using assms(2) by (cases "run_flow (pre_flow io facts) obs") (simp add: decide_def)
  show ?thesis
    unfolding k(1)
    by (rule rounds_exec [OF pre_flow_sat [where lim = sweep_limit] k(2) _ _ _ _ plans])
      (use assms(1) in simp_all)
qed

theorem pre_phase_ends_witness:
  "phase_rounds 21 demo_shell (decide demo_io (demo_facts Pre_phase)) Pre_phase [] Map.empty [] =
   end_of (exec_flow demo_shell Pre_phase (pre_flow demo_io (demo_facts Pre_phase)) Map.empty [])"
  using pre_phase_ends [OF demo_shell_typed, of "demo_facts Pre_phase" 21 demo_io "[]"]
  by (simp add: demo_orphans pre_bound_def)

section \<open>Plans\<close>

lemma readable_lock_run:
  assumes "typed_results obs" and "readable_state (sf_locked facts)" and "run_flow (lock_flow io facts pre) obs = (e, cs)"
  shows "(\<forall>c \<in> set cs. ct_commit (lock_contract sweep_limit facts) c) \<and>
    (case e of Finished outcome \<Rightarrow> lock_returns facts (length (pre_orphans pre)) outcome
     | Pending q \<Rightarrow> ct_request (lock_contract sweep_limit facts) q | Raised \<Rightarrow> False)"
  by (rule flow_sat_run [OF lock_flow_sat [OF assms(2)] _ assms(3)])
    (use assms(1) in \<open>simp add: typed_results_def\<close>)

lemma pre_run:
  assumes "typed_results obs" and "run_flow (pre_flow io facts) obs = (e, cs)"
  shows "(\<forall>c \<in> set cs. ct_commit (pre_contract sweep_limit) c) \<and>
    (case e of Finished pre \<Rightarrow> pre_orphans pre = dead_orphans facts \<and> length (pre_live pre) \<le> sweep_limit
     | Pending q \<Rightarrow> ct_request (pre_contract sweep_limit) q | Raised \<Rightarrow> False)"
  by (rule flow_sat_run [OF pre_flow_sat _ assms(2)]) (use assms(1) in \<open>simp add: typed_results_def\<close>)

lemma post_run:
  assumes "typed_results obs" and "run_flow (post_flow facts pre outcome) obs = (e, cs)"
  shows "(\<forall>c \<in> set cs. post_commit (\<lambda>q r. obs q = Some r) outcome c) \<and>
    (case e of Finished u \<Rightarrow> True | Pending q \<Rightarrow> post_legal q | Raised \<Rightarrow> False)"
  using flow_sat_run [OF post_flow_sat [where res = "\<lambda>q r. obs q = Some r" and lim = sweep_limit] _ assms(2)] assms(1)
  by (auto simp: typed_results_def split: gen_end.splits)

text \<open>What a plan of \<^verbatim>\<open>decide\<close> is: the commits and the pending request of the phase's flow.\<close>

definition plan_ok :: "(request \<Rightarrow> bool) \<Rightarrow> (commit \<Rightarrow> bool) \<Rightarrow> observations \<Rightarrow> plan \<Rightarrow> bool" where
  "plan_ok Q C obs p \<longleftrightarrow>
     (case p of
        Plan requests commits \<Rightarrow>
          length requests \<le> 1 \<and> (\<forall>q \<in> set requests. Q q \<and> obs q = None) \<and> (\<forall>c \<in> set commits. C c)
      | Phase_order_error \<Rightarrow> True
      | Decide_raised \<Rightarrow> False)"

lemma plan_okI:
  assumes "run_flow f obs = (e, cs)" and "\<forall>c \<in> set cs. C c"
    and "case e of Finished a \<Rightarrow> True | Pending q \<Rightarrow> Q q | Raised \<Rightarrow> False"
  shows "plan_ok Q C obs (plan_of (run_flow f obs))"
  using assms run_pending [of f obs] by (cases e) (auto simp: plan_ok_def)

lemma plan_ok_ends [simp]: "plan_ok Q C obs Phase_order_error" "\<not> plan_ok Q C obs Decide_raised"
  by (simp_all add: plan_ok_def)

text \<open>C26. Every plan is legal, and deciding never raises.

  On results of the right types and a readable locked state, a plan holds at most one request; it has no
  result yet and is legal in the phase, every commit is legal in the phase, and deciding does not raise.
  Deciding a later phase too early is the only error left, and the pre-lock phase has none.\<close>
theorem plans_are_legal:
  assumes "typed_results obs" and "readable_state (sf_locked facts)"
  shows "plan_ok (request_legal (sf_phase facts)) (commit_legal (sf_phase facts)) obs (decide io facts obs) \<and>
    (sf_phase facts = Pre_phase \<longrightarrow> decide io facts obs \<noteq> Phase_order_error)"
proof -
  obtain e cs where pre: "run_flow (pre_flow io facts) obs = (e, cs)"
    by (cases "run_flow (pre_flow io facts) obs")
  note pre_ok = pre_run [OF assms(1) pre]
  show ?thesis
  proof (cases "sf_phase facts")
    case Pre_phase
    have "plan_ok (request_legal Pre_phase) (commit_legal Pre_phase) obs (plan_of (run_flow (pre_flow io facts) obs))"
      by (rule plan_okI [OF pre]) (use pre_ok in \<open>auto split: gen_end.splits\<close>)
    moreover have "plan_of (run_flow (pre_flow io facts) obs) \<noteq> Phase_order_error"
      using pre by (cases e) simp_all
    ultimately show ?thesis
      using Pre_phase by (simp only: decide_def phase.case simp_thms)
  next
    case Lock_phase
    have "plan_ok (request_legal Lock_phase) (commit_legal Lock_phase) obs (plan_of (run_flow (lock_flow io facts p) obs))" for p
    proof (cases "run_flow (lock_flow io facts p) obs")
      case (Pair e' cs')
      show ?thesis
        by (rule plan_okI [OF Pair])
          (use readable_lock_run [OF assms Pair] in \<open>auto split: gen_end.splits\<close>)
    qed
    then show ?thesis
      using Lock_phase pre pre_ok by (cases e) (simp_all add: decide_def completed_def)
  next
    case Post_phase
    have plan: "plan_ok (request_legal Post_phase) (commit_legal Post_phase) obs (plan_of (run_flow (post_flow facts p outcome) obs))"
      for p outcome
    proof (cases "run_flow (post_flow facts p outcome) obs")
      case (Pair e' cs')
      show ?thesis
        by (rule plan_okI [OF Pair])
          (use post_run [OF assms(1) Pair] in \<open>auto split: gen_end.splits intro: post_commit_legal\<close>)
    qed
    show ?thesis
    proof (cases e)
      case (Finished p)
      obtain e' cs' where lock: "run_flow (lock_flow io facts p) obs = (e', cs')"
        by (cases "run_flow (lock_flow io facts p) obs")
      show ?thesis
        using Post_phase pre Finished lock plan readable_lock_run [OF assms lock]
        by (cases e') (simp_all add: decide_def completed_def)
    qed (use Post_phase pre pre_ok in \<open>simp_all add: decide_def completed_def\<close>)
  qed
qed

theorem plans_are_legal_witness:
  "plan_ok (request_legal Post_phase) (commit_legal Post_phase) demo_observed
     (decide demo_io (demo_facts Post_phase) demo_observed) \<and>
   decide demo_io (demo_facts Post_phase) demo_observed =
     Plan [] [Report_stale_evidence Bucket_swept, Transition_label 7 Edge_rework_requested True]"
  using plans_are_legal [OF demo_observed_typed, of "demo_facts Post_phase" demo_io] demo_decide(2)
  by (simp add: demo_readable)

section \<open>Which issues a sweep touches\<close>

text \<open>C7. The locked phase stays on the issues it locked as dispatched.

  The request of a plan of the locked phase, and every entry it updates or escalates, is for an issue
  that the state loaded under the lock holds as dispatched: an issue that another pass moved between
  the two phases is not asked about, written or escalated.\<close>
theorem locked_phase_stays_on_dispatched:
  assumes "typed_results obs" and "readable_state (sf_locked facts)" and "sf_phase facts = Lock_phase"
    and "decide io facts obs = Plan requests commits"
  shows "(\<forall>q \<in> set requests. about_dispatched (sf_locked facts) (request_issue q)) \<and>
    (\<forall>c \<in> set commits. about_dispatched (sf_locked facts) (commit_issue c))"
proof -
  obtain pre cs0 where pre: "run_flow (pre_flow io facts) obs = (Finished pre, cs0)"
    using assms(3,4) by (cases "run_flow (pre_flow io facts) obs")
      (auto simp: decide_def completed_def split: gen_end.splits)
  obtain e cs where run: "run_flow (lock_flow io facts pre) obs = (e, cs)"
    by (cases "run_flow (lock_flow io facts pre) obs")
  have "plan_of (e, cs) = Plan requests commits"
    using assms(3,4) pre run by (simp add: decide_def completed_def)
  with readable_lock_run [OF assms(1,2) run] show ?thesis
    by (cases e) auto
qed

theorem locked_phase_stays_on_dispatched_witness:
  "\<exists>commits. decide demo_io (demo_facts Lock_phase) demo_observed = Plan [] commits \<and>
     Update_issue 7 [(''orphan_drift_at'', JStr ''S'')] [] \<in> set commits \<and>
     (\<forall>c \<in> set commits. about_dispatched demo_state (commit_issue c))"
  using locked_phase_stays_on_dispatched [OF demo_observed_typed, of "demo_facts Lock_phase" demo_io "[]"]
    demo_decide(1) by (auto simp: demo_readable)

text \<open>C8. A rework label follows its guarded write, and every label a dispatched issue.

  When a plan of the post-lock phase moves the label of an issue to rework, a guarded update of this issue
  has committed: one that requires the status dispatched and sets rework requested. A label moves only for an issue
  that the locked state held as dispatched.\<close>
theorem labels_follow_guarded_writes:
  assumes "typed_results obs" and "readable_state (sf_locked facts)" and "sf_phase facts = Post_phase"
    and "decide io facts obs = Plan requests commits" and "Transition_label n edge persist \<in> set commits"
  shows "dispatched_in (sf_locked facts) n \<and>
    (edge = Edge_rework_requested \<longrightarrow>
       (\<exists>u. obs (Guarded_update u) = Some (R_bool True) \<and> gu_issue u = n \<and>
          gu_require_status u = Some ''dispatched'' \<and> map_of (gu_set u) ''status'' = Some (JStr ''rework_requested'')))"
proof -
  obtain pre cs0 where pre: "run_flow (pre_flow io facts) obs = (Finished pre, cs0)"
    using assms(3,4) by (cases "run_flow (pre_flow io facts) obs")
      (auto simp: decide_def completed_def split: gen_end.splits)
  obtain outcome cs1 where lock: "run_flow (lock_flow io facts pre) obs = (Finished outcome, cs1)"
    using assms(3,4) pre by (cases "run_flow (lock_flow io facts pre) obs")
      (auto simp: decide_def completed_def split: gen_end.splits)
  obtain e cs where run: "run_flow (post_flow facts pre outcome) obs = (e, cs)"
    by (cases "run_flow (post_flow facts pre outcome) obs")
  have "plan_of (e, cs) = Plan requests commits"
    using assms(3,4) pre lock run by (simp add: decide_def completed_def)
  then have "Transition_label n edge persist \<in> set cs"
    using assms(5) by (cases e) auto
  then have label: "post_commit (\<lambda>q r. obs q = Some r) outcome (Transition_label n edge persist)"
    using post_run [OF assms(1) run] by blast
  have routes: "\<forall>v \<in> set (lo_review_routes outcome). dispatched_in (sf_locked facts) (vr_issue v)"
    "\<forall>m \<in> set (lo_escalations outcome). dispatched_in (sf_locked facts) m"
    using readable_lock_run [OF assms(1,2) lock] by (simp_all add: lock_returns_def)
  show ?thesis
  proof (cases edge)
    case Edge_escalated
    then show ?thesis
      using label routes(2) by simp
  next
    case Edge_rework_requested
    then obtain v where v: "v \<in> set (lo_review_routes outcome)" "vr_issue v = n"
      "obs (Guarded_update (to_rework v)) = Some (R_bool True)"
      using label by (auto simp: post_commit_def)
    then have "dispatched_in (sf_locked facts) n"
      using routes(1) by blast
    moreover have "gu_issue (to_rework v) = n" "gu_require_status (to_rework v) = Some ''dispatched''"
      "map_of (gu_set (to_rework v)) ''status'' = Some (JStr ''rework_requested'')"
      using v(2) by (simp_all add: to_rework_def)
    ultimately show ?thesis
      using v(3) by blast
  qed
qed

theorem labels_follow_guarded_writes_witness:
  "Transition_label 7 Edge_rework_requested True \<in>
     set [Report_stale_evidence Bucket_swept, Transition_label 7 Edge_rework_requested True] \<and>
   (\<exists>u. demo_observed (Guarded_update u) = Some (R_bool True) \<and> gu_issue u = 7)"
  using labels_follow_guarded_writes [OF demo_observed_typed, of "demo_facts Post_phase" demo_io "[]" _ 7
      Edge_rework_requested True] demo_decide(2)
  by (auto simp: demo_readable)

section \<open>Guarded writes\<close>

lemma jget_jupdate_other:
  "k \<notin> set (jkeys changes) \<Longrightarrow> jget (jupdate d changes) k = jget d k"
proof (induction changes arbitrary: d)
  case (Cons c changes)
  obtain k' v where "c = (k', v)"
    by (cases c)
  with Cons.prems Cons.IH [of "jput d k' v"] show ?case
    by (auto simp: jupdate_def jkeys_def)
qed (simp add: jupdate_def)

lemma jget_stamps_other:
  "k \<notin> set ks \<Longrightarrow> jget (foldl (\<lambda>e k. jput e k v) d ks) k = jget d k"
  by (induction ks arbitrary: d) auto

lemma jget_stamps:
  "k \<in> set ks \<Longrightarrow> jget (foldl (\<lambda>e k. jput e k v) d ks) k = v"
proof (induction ks arbitrary: d)
  case (Cons x ks)
  then show ?case
    by (cases "k \<in> set ks") (auto simp: jget_stamps_other)
qed simp

text \<open>A guarded update is atomic.

  It answers whether it wrote. It wrote exactly when the entry exists and both guards hold on the state
  just loaded; then the entry has the stamped fields at the stamp and every field it does not name as it
  was, every other issue and all pull requests are as they were, and its event is appended. Where it
  answers False nothing changed, and where the append raises nothing is saved.\<close>
theorem guarded_update_atomic:
  assumes "guarded_update (s, log) review_prs stamp appended u = Some ((s', log'), wrote)"
  shows "(wrote \<longleftrightarrow> (\<exists>entry. map_of (ss_issues s) (gu_issue u) = Some (JObj entry) \<and> guards_hold s review_prs u entry)) \<and>
    (\<not> wrote \<longrightarrow> s' = s \<and> log' = log) \<and>
    (wrote \<longrightarrow>
       log' = log @ (case gu_event u of None \<Rightarrow> [] | Some ev \<Rightarrow> [ev]) \<and> ss_prs s' = ss_prs s \<and>
       (\<forall>n. n \<noteq> gu_issue u \<longrightarrow> map_of (ss_issues s') n = map_of (ss_issues s) n) \<and>
       (\<exists>entry entry'. map_of (ss_issues s) (gu_issue u) = Some (JObj entry) \<and>
          map_of (ss_issues s') (gu_issue u) = Some (JObj entry') \<and>
          (\<forall>k. k \<notin> set (jkeys (gu_set u)) \<union> set (gu_stamp_fields u) \<longrightarrow> jget entry' k = jget entry k) \<and>
          (\<forall>k \<in> set (gu_stamp_fields u). jget entry' k = JStr stamp)))"
proof (cases "\<exists>entry. map_of (ss_issues s) (gu_issue u) = Some (JObj entry) \<and> guards_hold s review_prs u entry")
  case True
  then obtain entry where entry: "map_of (ss_issues s) (gu_issue u) = Some (JObj entry)" "guards_hold s review_prs u entry"
    by blast
  then have result: "wrote" "s' = put_issue s (gu_issue u) (guarded_entry u stamp entry)"
    "log' = log @ (case gu_event u of None \<Rightarrow> [] | Some ev \<Rightarrow> [ev])"
    using assms by (auto simp: guarded_update_def split: if_splits)
  have "map_of (ss_issues s') n = (if n = gu_issue u then Some (JObj (guarded_entry u stamp entry)) else map_of (ss_issues s) n)"
    for n
    by (simp add: result(2) put_issue_def update_conv)
  moreover have "jget (guarded_entry u stamp entry) k = jget entry k"
    if "k \<notin> set (jkeys (gu_set u)) \<union> set (gu_stamp_fields u)" for k
    using that by (simp add: guarded_entry_def jget_stamps_other jget_jupdate_other)
  moreover have "jget (guarded_entry u stamp entry) k = JStr stamp" if "k \<in> set (gu_stamp_fields u)" for k
    using that by (simp add: guarded_entry_def jget_stamps)
  moreover have "ss_prs s' = ss_prs s"
    by (simp add: result(2) put_issue_def)
  ultimately show ?thesis
    using result(1,3) entry by simp
next
  case False
  then have "\<not> wrote \<and> s' = s \<and> log' = log"
    using assms by (auto simp: guarded_update_def split: option.splits json.splits if_splits)
  with False show ?thesis
    by simp
qed

theorem guarded_update_atomic_witness:
  "\<exists>s' log'. guarded_update (demo_state, []) [(7, 9)] ''S'' True (to_rework demo_route) = Some ((s', log'), True) \<and>
     length log' = 1 \<and> ss_prs s' = ss_prs demo_state"
proof -
  have "\<exists>s' log'. guarded_update (demo_state, []) [(7, 9)] ''S'' True (to_rework demo_route) = Some ((s', log'), True)"
    by (simp add: guarded_update_def demo_state_def to_rework_def demo_route_def guards_hold_def jget_def
        reviewed_head_of_def guard_pr_def)
  then obtain s' log' where
    result: "guarded_update (demo_state, []) [(7, 9)] ''S'' True (to_rework demo_route) = Some ((s', log'), True)"
    by blast
  from guarded_update_atomic [OF result] have "length log' = 1" "ss_prs s' = ss_prs demo_state"
    by (simp_all add: to_rework_def)
  with result show ?thesis
    by blast
qed

section \<open>The redispatch cap\<close>

text \<open>
  One look of the sweep at a dead worker whose branch does not move: the dispatch it died of (its stamp
  and process id), and the stamp and the instant of the look. A look that does not escalate records its
  verdict in the entry; one that escalates ends the series, since the entry is no longer dispatched.
\<close>

record look =
  lk_dispatched_at :: json
  lk_worker_pid :: json
  lk_stamp :: string
  lk_now :: int

definition seen_entry :: "json_dict \<Rightarrow> look \<Rightarrow> json_dict" where
  "seen_entry entry x = jput (jput entry ''dispatched_at'' (lk_dispatched_at x)) ''worker_pid'' (lk_worker_pid x)"

definition recorded_entry :: "json_dict \<Rightarrow> redispatch_verdict \<Rightarrow> json_dict" where
  "recorded_entry entry v =
     jput (jput (jput entry ''orphan_redispatch_head_sha'' (JStr (rv_head v)))
       ''orphan_redispatch_at'' (strs_json (rv_history v)))
       ''orphan_redispatch_counted_dispatch'' (JStr (rv_identity v))"

fun cap_looks ::
  "time_io \<Rightarrow> string option \<Rightarrow> string option \<Rightarrow> int \<Rightarrow> int \<Rightarrow> json_dict \<Rightarrow> look list \<Rightarrow> (int \<times> bool) list" where
  "cap_looks io remote local_sha window max_redispatch entry [] = []"
| "cap_looks io remote local_sha window max_redispatch entry (x # xs) =
     (case decide_redispatch_cap io (seen_entry entry x) remote local_sha window max_redispatch (lk_stamp x) (lk_now x) of
        None \<Rightarrow> []
      | Some v \<Rightarrow> (rv_count v, rv_exceeded v) #
          (if rv_exceeded v then []
           else cap_looks io remote local_sha window max_redispatch (recorded_entry (seen_entry entry x) v) xs))"

definition look_identity :: "time_io \<Rightarrow> look \<Rightarrow> string" where
  "look_identity io x = str_or_none io (lk_dispatched_at x) @ '':'' @ str_or_none io (lk_worker_pid x)"

text \<open>The number of different dispatches up to each look: consecutive looks at one dispatch count once.\<close>

fun dispatch_counts :: "string option \<Rightarrow> int \<Rightarrow> string list \<Rightarrow> int list" where
  "dispatch_counts prev c [] = []"
| "dispatch_counts prev c (i # is) =
     (let c' = (if Some i = prev then c else c + 1) in c' # dispatch_counts (Some i) c' is)"

text \<open>The counts up to the first that is above the maximum.\<close>

fun up_to_cap :: "int \<Rightarrow> int list \<Rightarrow> (int \<times> bool) list" where
  "up_to_cap mx [] = []"
| "up_to_cap mx (c # cs) = (c, mx < c) # (if mx < c then [] else up_to_cap mx cs)"

lemma throttle_death_seen [simp]:
  "throttle_death (seen_entry entry x) = throttle_death entry"
  "throttle_death (recorded_entry entry v) = throttle_death entry"
  by (simp_all add: seen_entry_def recorded_entry_def)

lemma dispatch_identity_seen [simp]: "dispatch_identity io (seen_entry entry x) = look_identity io x"
  by (simp add: dispatch_identity_def seen_entry_def look_identity_def)

lemma jget_seen:
  "k \<noteq> ''dispatched_at'' \<Longrightarrow> k \<noteq> ''worker_pid'' \<Longrightarrow> jget (seen_entry entry x) k = jget entry k"
  by (simp add: seen_entry_def)

lemma jget_recorded [simp]:
  "jget (recorded_entry entry v) ''orphan_redispatch_head_sha'' = JStr (rv_head v)"
  "jget (recorded_entry entry v) ''orphan_redispatch_at'' = strs_json (rv_history v)"
  "jget (recorded_entry entry v) ''orphan_redispatch_counted_dispatch'' = JStr (rv_identity v)"
  by (simp_all add: recorded_entry_def)

text \<open>A stamp that every look still has in its window.\<close>

definition stays_in_window :: "time_io \<Rightarrow> int \<Rightarrow> look list \<Rightarrow> string \<Rightarrow> bool" where
  "stays_in_window io window xs s \<longleftrightarrow>
     (\<forall>x \<in> set xs. in_window (ti_fromiso io) (lk_now x - minutes window) (JStr s) = Some s)"

lemma map_filter_all: "(\<And>x. x \<in> set xs \<Longrightarrow> f (JStr x) = Some x) \<Longrightarrow> List.map_filter f (map JStr xs) = xs"
  by (induction xs) (simp_all add: map_filter_simps)

lemma window_all:
  assumes "jget entry ''orphan_redispatch_at'' = strs_json history"
    and "\<And>s. s \<in> set history \<Longrightarrow> in_window fromiso (now - minutes window) (JStr s) = Some s"
  shows "windowed_orphan_redispatch_at fromiso entry window now = history"
  using assms by (simp add: windowed_orphan_redispatch_at_def strs_json_def map_filter_all)

text \<open>A look at an entry that an earlier look recorded.\<close>

lemma later_look:
  assumes "throttle_death entry = Some False"
    and "jget entry ''orphan_redispatch_head_sha'' = JStr (orphan_head_fingerprint remote local_sha)"
    and "jget entry ''orphan_redispatch_at'' = strs_json history"
    and "jget entry ''orphan_redispatch_counted_dispatch'' = JStr prev"
    and "\<And>s. s \<in> set history \<Longrightarrow> stays_in_window io window (x # xs) s"
  shows "\<exists>v. decide_redispatch_cap io (seen_entry entry x) remote local_sha window mx (lk_stamp x) (lk_now x) = Some v \<and>
    rv_head v = orphan_head_fingerprint remote local_sha \<and> rv_identity v = look_identity io x \<and>
    rv_history v = (if look_identity io x = prev then history else history @ [lk_stamp x]) \<and>
    rv_count v = int (length (rv_history v)) \<and> (rv_exceeded v \<longleftrightarrow> mx < rv_count v)"
proof -
  have "windowed_orphan_redispatch_at (ti_fromiso io) (seen_entry entry x) window (lk_now x) = history"
    by (rule window_all) (use assms(3,5) in \<open>simp_all add: jget_seen stays_in_window_def\<close>)
  then show ?thesis
    using assms(1,2,4) by (simp add: decide_redispatch_cap_def Let_def jget_seen)
qed

lemma later_looks:
  assumes "throttle_death entry = Some False"
    and "jget entry ''orphan_redispatch_head_sha'' = JStr (orphan_head_fingerprint remote local_sha)"
    and "jget entry ''orphan_redispatch_at'' = strs_json history"
    and "jget entry ''orphan_redispatch_counted_dispatch'' = JStr prev"
    and "\<And>s. s \<in> set history \<union> set (map lk_stamp xs) \<Longrightarrow> stays_in_window io window xs s"
  shows "cap_looks io remote local_sha window mx entry xs =
    up_to_cap mx (dispatch_counts (Some prev) (int (length history)) (map (look_identity io) xs))"
  using assms
proof (induction xs arbitrary: entry history prev)
  case (Cons x xs)
  obtain v where v: "decide_redispatch_cap io (seen_entry entry x) remote local_sha window mx (lk_stamp x) (lk_now x) = Some v"
    "rv_head v = orphan_head_fingerprint remote local_sha" "rv_identity v = look_identity io x"
    "rv_history v = (if look_identity io x = prev then history else history @ [lk_stamp x])"
    "rv_count v = int (length (rv_history v))" "rv_exceeded v \<longleftrightarrow> mx < rv_count v"
    using later_look [OF Cons.prems(1-4), of io window x xs mx] Cons.prems(5) by auto
  have "cap_looks io remote local_sha window mx (recorded_entry (seen_entry entry x) v) xs =
    up_to_cap mx (dispatch_counts (Some (look_identity io x)) (int (length (rv_history v))) (map (look_identity io) xs))"
    by (rule Cons.IH) (use Cons.prems v in \<open>auto simp: stays_in_window_def split: if_splits\<close>)
  with v show ?case
    by (simp add: Let_def add.commute)
qed simp

text \<open>The redispatch cap counts dispatches, not looks.

  Over any series of looks at a worker whose branch does not move and that no provider throttled, with
  every stamp within the window, the count after each look is the number of dispatches seen so far:
  several looks at one dispatch count once. The cap escalates at the first look where this number is
  above the configured maximum, which ends the series, and at no look before.\<close>
theorem redispatch_cap_counts_dispatches:
  assumes "throttle_death entry = Some False" and "jget entry ''orphan_redispatch_head_sha'' = JNull"
    and "\<And>s. s \<in> set (map lk_stamp xs) \<Longrightarrow> stays_in_window io window xs s"
  shows "cap_looks io remote local_sha window mx entry xs =
    up_to_cap mx (dispatch_counts None 0 (map (look_identity io) xs))"
proof (cases xs)
  case (Cons x ys)
  have "\<exists>v. decide_redispatch_cap io (seen_entry entry x) remote local_sha window mx (lk_stamp x) (lk_now x) = Some v \<and>
    rv_head v = orphan_head_fingerprint remote local_sha \<and> rv_identity v = look_identity io x \<and>
    rv_history v = [lk_stamp x] \<and> rv_count v = 1 \<and> (rv_exceeded v \<longleftrightarrow> mx < 1)"
    using assms(1,2) by (simp add: decide_redispatch_cap_def Let_def jget_seen)
  then obtain v where v: "decide_redispatch_cap io (seen_entry entry x) remote local_sha window mx (lk_stamp x) (lk_now x) = Some v"
    "rv_head v = orphan_head_fingerprint remote local_sha" "rv_identity v = look_identity io x"
    "rv_history v = [lk_stamp x]" "rv_count v = 1" "rv_exceeded v \<longleftrightarrow> mx < 1"
    by blast
  have "cap_looks io remote local_sha window mx (recorded_entry (seen_entry entry x) v) ys =
    up_to_cap mx (dispatch_counts (Some (look_identity io x)) (int (length [lk_stamp x])) (map (look_identity io) ys))"
    by (rule later_looks) (use assms(1,3) v Cons in \<open>auto simp: stays_in_window_def\<close>)
  with v Cons show ?thesis
    by (simp add: Let_def)
qed simp

definition demo_look :: "string \<Rightarrow> look" where
  "demo_look at = \<lparr> lk_dispatched_at = JStr at, lk_worker_pid = JInt 5, lk_stamp = ''S'', lk_now = 0 \<rparr>"

definition demo_clock :: time_io where
  "demo_clock = \<lparr> ti_fromiso = (\<lambda>_. Some (Aware 0)), ti_format = (\<lambda>_. ''T''), ti_str = (\<lambda>_. []) \<rparr>"

theorem redispatch_cap_counts_dispatches_witness:
  "cap_looks demo_clock None None 60 1 [] [demo_look ''A'', demo_look ''A'', demo_look ''B''] =
   [(1, False), (1, False), (2, True)]"
proof -
  have "stays_in_window demo_clock 60 [demo_look ''A'', demo_look ''A'', demo_look ''B''] ''S''"
    by (simp add: stays_in_window_def in_window_def demo_look_def demo_clock_def minutes_def)
  then show ?thesis
    using redispatch_cap_counts_dispatches [where entry = "[]" and io = demo_clock and window = 60 and mx = 1 and
        xs = "[demo_look ''A'', demo_look ''A'', demo_look ''B'']" and remote = None and local_sha = None]
    by (simp add: throttle_death_def failure_kind_def jget_def demo_look_def look_identity_def str_or_none_def json_str_def)
qed

end
