(* ===== verification/Worker_Fate.thy ===== *)
theory Worker_Fate
  imports Sweep_Common
begin

text \<open>
  What became of a worker (\<^verbatim>\<open>worker_fate.py\<close>, \<^verbatim>\<open>worker_fate_stale.py\<close>, \<^verbatim>\<open>no_pr_orphan_fate.py\<close>,
  \<^verbatim>\<open>blocked_worker_escalation.py\<close>): the evidence, its freshness, the ordered rows of \<open>resolve_fate\<close>, the
  report of ignored evidence, and the write of a classified failure.
  A claim of an outcome file is the JSON value the file holds; an instant is a number of microseconds
  in UTC, since every reader gives aware times.
\<close>

section \<open>Evidence\<close>

datatype evidence_source = From_terminal | From_worktree

datatype stale_reason = Older_than_dispatch | Head_mismatch

record outcome_evidence =
  oe_source :: evidence_source
  oe_written_at :: "int option"
  oe_outcome :: json
  oe_push_succeeded :: json
  oe_pr_created :: json
  oe_head :: json
  oe_raw :: json_dict

record terminal_evidence =
  te_ended_at :: int
  te_exit :: json
  te_outcome :: "outcome_evidence option"

record branch_evidence =
  be_remote_head :: "string option"
  be_remote_ahead :: "int option"
  be_unpushed :: "int option"
  be_open_pr :: "int option"
  be_pr_known :: bool
  be_local_ahead :: "int option"

text \<open>A kind is a text or absent; a persisted one is the stored value.\<close>

record failure_evidence =
  fe_kind :: json
  fe_throttled_until :: "int option"
  fe_fresh :: bool
  fe_harness :: json
  fe_model :: json

datatype worker_health = Healthy | Slow | Stalled | Runaway | Dead | Orphaned

record fate_evidence =
  ev_issue :: int
  ev_adapter :: string
  ev_dispatched_at :: "int option"
  ev_alive :: bool
  ev_health :: "worker_health option"
  ev_terminal :: "terminal_evidence option"
  ev_worktree :: "outcome_evidence option"
  ev_branch :: branch_evidence
  ev_failure :: "failure_evidence option"

record stale_evidence =
  se_source :: evidence_source
  se_reason :: stale_reason
  se_written_at :: "int option"
  se_head :: json
  se_live_head :: "string option"

record fate_basis =
  fb_issue :: int
  fb_alive :: bool
  fb_outcome :: "outcome_evidence option"
  fb_exit :: json
  fb_stale :: "stale_evidence list"
  fb_rule :: string
  fb_dispatched_at :: "int option"

datatype worker_fate =
  Live fate_basis "worker_health option"
| Completed fate_basis int json
| Pushed_without_pr fate_basis json
| Stranded fate_basis int "failure_evidence option"
| Declared_blocked fate_basis json
| Throttled fate_basis failure_evidence
| Crashed fate_basis "failure_evidence option"

fun basis_of :: "worker_fate \<Rightarrow> fate_basis" where
  "basis_of (Live b h) = b"
| "basis_of (Completed b pr head) = b"
| "basis_of (Pushed_without_pr b head) = b"
| "basis_of (Stranded b n f) = b"
| "basis_of (Declared_blocked b reason) = b"
| "basis_of (Throttled b f) = b"
| "basis_of (Crashed b f) = b"

section \<open>Freshness\<close>

definition rule_suffix :: "int option \<Rightarrow> string" where
  "rule_suffix dispatched = (if dispatched = None then ''-nodispatch'' else [])"

definition dispatch_fresh :: "int option \<Rightarrow> int option \<Rightarrow> bool" where
  "dispatch_fresh written dispatched =
     (case dispatched of
        None \<Rightarrow> True
      | Some d \<Rightarrow> (case written of None \<Rightarrow> False | Some t \<Rightarrow> t > d))"

definition head_fresh :: "json \<Rightarrow> string option \<Rightarrow> bool" where
  "head_fresh head live =
     (if head = JNull then True else case live of None \<Rightarrow> True | Some sha \<Rightarrow> head = JStr sha)"

definition carries_no_claim :: "outcome_evidence \<Rightarrow> bool" where
  "carries_no_claim c \<longleftrightarrow>
     oe_outcome c = JNull \<and> oe_push_succeeded c = JNull \<and> oe_pr_created c = JNull \<and> oe_head c = JNull"

definition evaluate_candidate ::
  "outcome_evidence option \<Rightarrow> int option \<Rightarrow> string option \<Rightarrow> bool \<times> stale_evidence list" where
  "evaluate_candidate candidate dispatched live =
     (case candidate of
        None \<Rightarrow> (False, [])
      | Some c \<Rightarrow>
          if carries_no_claim c then (False, [])
          else if dispatch_fresh (oe_written_at c) dispatched \<and> head_fresh (oe_head c) live then (True, [])
          else (False, [\<lparr> se_source = oe_source c,
                          se_reason = (if head_fresh (oe_head c) live then Older_than_dispatch else Head_mismatch),
                          se_written_at = oe_written_at c, se_head = oe_head c, se_live_head = live \<rparr>]))"

record fresh_outcome =
  fo_outcome :: "outcome_evidence option"
  fo_suffix :: string
  fo_exit :: json
  fo_stale :: "stale_evidence list"

text \<open>The terminal record's own end: its exit code counts only when it is newer than the dispatch.\<close>

definition fresh_exit :: "terminal_evidence option \<Rightarrow> int option \<Rightarrow> string option \<Rightarrow> json \<times> stale_evidence list" where
  "fresh_exit terminal dispatched live =
     (case terminal of
        None \<Rightarrow> (JNull, [])
      | Some t \<Rightarrow>
          if dispatch_fresh (Some (te_ended_at t)) dispatched then (te_exit t, [])
          else (JNull, [\<lparr> se_source = From_terminal, se_reason = Older_than_dispatch,
                          se_written_at = Some (te_ended_at t), se_head = JNull, se_live_head = live \<rparr>]))"

definition terminal_outcome :: "fate_evidence \<Rightarrow> outcome_evidence option" where
  "terminal_outcome ev = (case ev_terminal ev of None \<Rightarrow> None | Some t \<Rightarrow> te_outcome t)"

definition resolve_freshness :: "fate_evidence \<Rightarrow> fresh_outcome" where
  "resolve_freshness ev =
     (let live = be_remote_head (ev_branch ev); dispatched = ev_dispatched_at ev;
          (terminal_ok, stale1) = evaluate_candidate (terminal_outcome ev) dispatched live;
          (worktree_ok, stale2) = evaluate_candidate (ev_worktree ev) dispatched live;
          (exit_code, stale3) = fresh_exit (ev_terminal ev) dispatched live
      in \<lparr> fo_outcome = (if terminal_ok then terminal_outcome ev else if worktree_ok then ev_worktree ev else None),
           fo_suffix = (if terminal_ok \<or> worktree_ok then rule_suffix dispatched else []),
           fo_exit = exit_code, fo_stale = stale1 @ stale2 @ stale3 \<rparr>)"

section \<open>The rows\<close>

definition is_pushed :: "outcome_evidence \<Rightarrow> branch_evidence \<Rightarrow> bool" where
  "is_pushed outcome branch =
     (if be_remote_head branch \<noteq> None \<and> oe_head outcome \<noteq> JNull
      then opt_json (be_remote_head branch) = oe_head outcome
      else (case be_remote_ahead branch of None \<Rightarrow> False | Some n \<Rightarrow> 0 < n))"

definition is_throttle_kind :: "json \<Rightarrow> bool" where
  "is_throttle_kind kind = (case kind of JStr s \<Rightarrow> s \<in> set provider_throttle_kinds | _ \<Rightarrow> False)"

definition positive :: "int option \<Rightarrow> bool" where
  "positive x = (case x of None \<Rightarrow> False | Some n \<Rightarrow> 0 < n)"

definition fate_basis_of :: "fate_evidence \<Rightarrow> fresh_outcome \<Rightarrow> string \<Rightarrow> fate_basis" where
  "fate_basis_of ev fresh rule =
     \<lparr> fb_issue = ev_issue ev, fb_alive = ev_alive ev, fb_outcome = fo_outcome fresh, fb_exit = fo_exit fresh,
       fb_stale = fo_stale fresh, fb_rule = rule, fb_dispatched_at = ev_dispatched_at ev \<rparr>"

definition completed_or_pushed :: "fate_basis \<Rightarrow> branch_evidence \<Rightarrow> json \<Rightarrow> worker_fate" where
  "completed_or_pushed basis branch head =
     (case be_open_pr branch of Some pr \<Rightarrow> Completed basis pr head | None \<Rightarrow> Pushed_without_pr basis head)"

text \<open>Rows 1 to 4: what a fresh outcome decides by itself.\<close>

definition outcome_rows :: "fate_evidence \<Rightarrow> fresh_outcome \<Rightarrow> outcome_evidence \<Rightarrow> worker_fate option" where
  "outcome_rows ev fresh outcome =
     (let branch = ev_branch ev; suffix = fo_suffix fresh; basis = fate_basis_of ev fresh;
          head = (if json_true (oe_head outcome) then oe_head outcome else opt_json (be_remote_head branch))
      in if oe_outcome outcome = JStr ''blocked''
         then Some (Declared_blocked (basis (''R2'' @ suffix)) (jget (oe_raw outcome) ''reason''))
         else if oe_push_succeeded outcome \<noteq> JBool True then None
         else if is_pushed outcome branch
         then (case be_open_pr branch of
                 Some pr \<Rightarrow> Some (Completed (basis (''R4+R5+R8'' @ suffix)) pr head)
               | None \<Rightarrow>
                   if be_pr_known branch
                   then Some (Pushed_without_pr (basis (''R8'' @ suffix @ '' (pr_created claim ignored)'')) head)
                   else None)
         else (case be_unpushed branch of
                 Some n \<Rightarrow> if 0 < n then Some (Stranded (basis (''R3+R9'' @ suffix)) n (ev_failure ev)) else None
               | None \<Rightarrow> None))"

definition throttled_by :: "outcome_evidence option \<Rightarrow> failure_evidence option \<Rightarrow> failure_evidence option" where
  "throttled_by outcome failure =
     (case (outcome, failure) of
        (None, Some f) \<Rightarrow> if is_throttle_kind (fe_kind f) then Some f else None
      | _ \<Rightarrow> None)"

text \<open>Rows 6 to 10: a dead worker the outcome did not decide.\<close>

definition dead_rows :: "fate_evidence \<Rightarrow> fresh_outcome \<Rightarrow> worker_fate" where
  "dead_rows ev fresh =
     (let branch = ev_branch ev; basis = fate_basis_of ev fresh; failure = ev_failure ev;
          remote_head = opt_json (be_remote_head branch);
          no_opinion = (case fo_outcome fresh of None \<Rightarrow> True | Some c \<Rightarrow> oe_push_succeeded c \<noteq> JBool True)
      in if positive (be_unpushed branch)
         then Stranded (basis ''R3+R9'') (the (be_unpushed branch)) failure
         else if be_unpushed branch = None \<and> be_remote_ahead branch = None \<and> be_remote_head branch = None \<and>
                 positive (be_local_ahead branch)
         then Stranded (basis ''R3+R9-remote-unknown'') (the (be_local_ahead branch)) failure
         else (case throttled_by (fo_outcome fresh) failure of
                 Some f \<Rightarrow> Throttled (basis ''R6'') f
               | None \<Rightarrow>
                   if no_opinion \<and> is_zero (fo_exit fresh) \<and>
                      (positive (be_remote_ahead branch) \<or> be_open_pr branch \<noteq> None)
                   then completed_or_pushed (basis ''R4'') branch remote_head
                   else if no_opinion \<and> positive (be_remote_ahead branch)
                   then completed_or_pushed (basis ''R3'') branch remote_head
                   else Crashed (basis ''R10'') failure))"

definition resolve_fate :: "fate_evidence \<Rightarrow> worker_fate" where
  "resolve_fate ev =
     (let fresh = resolve_freshness ev
      in case (case fo_outcome fresh of None \<Rightarrow> None | Some c \<Rightarrow> outcome_rows ev fresh c) of
           Some fate \<Rightarrow> fate
         | None \<Rightarrow>
             if ev_alive ev then Live (fate_basis_of ev fresh ''R5'') (ev_health ev)
             else dead_rows ev fresh)"

text \<open>The throttle a fate carries, in whichever variant.\<close>

definition throttle_failure :: "worker_fate option \<Rightarrow> failure_evidence option" where
  "throttle_failure fate =
     (let failure = (case fate of
            Some (Throttled b f) \<Rightarrow> Some f
          | Some (Stranded b n f) \<Rightarrow> f
          | Some (Crashed b f) \<Rightarrow> f
          | _ \<Rightarrow> None)
      in case failure of
           Some f \<Rightarrow> if is_throttle_kind (fe_kind f) then Some f else None
         | None \<Rightarrow> None)"

section \<open>Blocked declarations that do not count\<close>

text \<open>
  A permission denial is no declared block; whether the session's log shows one is the argument
  \<open>denied\<close> (\<^verbatim>\<open>claude_code.worker_permission_denied\<close>), asked with the declaration's detail.
\<close>

definition escalatable_blocked_outcome ::
  "time_io \<Rightarrow> (string \<Rightarrow> bool) \<Rightarrow> json_dict option \<Rightarrow> json_dict option" where
  "escalatable_blocked_outcome io denied outcome =
     (case outcome of
        None \<Rightarrow> None
      | Some d \<Rightarrow>
          if denied (if json_true (jget d ''detail'') then json_str io (jget d ''detail'') else []) then None
          else Some d)"

definition is_exempt_blocked :: "time_io \<Rightarrow> (string \<Rightarrow> bool) \<Rightarrow> worker_fate \<Rightarrow> bool" where
  "is_exempt_blocked io denied fate =
     (case fate of
        Declared_blocked b reason \<Rightarrow>
          (case fb_outcome b of
             None \<Rightarrow> False
           | Some c \<Rightarrow> escalatable_blocked_outcome io denied (Some (oe_raw c)) = None)
      | _ \<Rightarrow> False)"

definition without_verdict :: "outcome_evidence \<Rightarrow> outcome_evidence" where
  "without_verdict c = c\<lparr> oe_outcome := JNull \<rparr>"

definition resolve_fate_exempting_blocked :: "time_io \<Rightarrow> (string \<Rightarrow> bool) \<Rightarrow> fate_evidence \<Rightarrow> worker_fate" where
  "resolve_fate_exempting_blocked io denied ev =
     (let fate = resolve_fate ev
      in if \<not> is_exempt_blocked io denied fate then fate
         else resolve_fate (ev\<lparr> ev_worktree := map_option without_verdict (ev_worktree ev),
                                ev_terminal := map_option
                                  (\<lambda>t. t\<lparr> te_outcome := map_option without_verdict (te_outcome t) \<rparr>)
                                  (ev_terminal ev) \<rparr>))"

section \<open>The terminal record of an earlier dispatch\<close>

text \<open>\<^verbatim>\<open>fresh_terminal_record\<close>: the record, and the fate a dropped one is reported with.\<close>

definition stale_terminal_fate :: "int \<Rightarrow> int option \<Rightarrow> int option \<Rightarrow> worker_fate" where
  "stale_terminal_fate n ended dispatched =
     Crashed \<lparr> fb_issue = n, fb_alive = False, fb_outcome = None, fb_exit = JNull,
       fb_stale = [\<lparr> se_source = From_terminal, se_reason = Older_than_dispatch, se_written_at = ended,
                     se_head = JNull, se_live_head = None \<rparr>],
       fb_rule = ''R1-stale-terminal'', fb_dispatched_at = dispatched \<rparr> None"

definition fresh_terminal_record ::
  "time_io \<Rightarrow> json \<Rightarrow> int option \<Rightarrow> int option \<Rightarrow> json_dict option \<times> worker_fate list" where
  "fresh_terminal_record io record dispatched reporting =
     (case record of
        JObj d \<Rightarrow>
          let ended = json_time io (jget d ''ended_at'')
          in if dispatch_fresh ended dispatched then (Some d, [])
             else (None, case reporting of None \<Rightarrow> [] | Some n \<Rightarrow> [stale_terminal_fate n ended dispatched])
      | _ \<Rightarrow> (None, []))"

section \<open>The sweep's evidence\<close>

text \<open>\<^verbatim>\<open>persisted_failure(entry).as_evidence()\<close>; the outer None is the TypeError of an unhashable kind.\<close>

definition persisted_evidence :: "json_dict \<Rightarrow> failure_evidence option option" where
  "persisted_evidence entry =
     (case throttle_death entry of
        None \<Rightarrow> None
      | Some throttled \<Rightarrow>
          Some (if failure_kind entry = JNull then None
                else Some \<lparr> fe_kind = failure_kind entry, fe_throttled_until = None, fe_fresh = False,
                            fe_harness = JNull, fe_model = JNull \<rparr>))"

fun outcome_evidence_of :: "json \<Rightarrow> evidence_source \<Rightarrow> int option \<Rightarrow> outcome_evidence option" where
  "outcome_evidence_of (JObj d) source written =
     Some \<lparr> oe_source = source, oe_written_at = written, oe_outcome = jget d ''outcome'',
            oe_push_succeeded = jget d ''push_succeeded'', oe_pr_created = jget d ''pr_created'',
            oe_head = jget d ''head_sha'', oe_raw = d \<rparr>"
| "outcome_evidence_of _ source written = None"

fun entry_dict :: "json \<Rightarrow> json_dict" where
  "entry_dict (JObj d) = d"
| "entry_dict _ = []"

definition adapter_of :: "time_io \<Rightarrow> json \<Rightarrow> string" where
  "adapter_of io entry =
     (let a = jget (entry_dict entry) ''adapter'' in if json_true a then json_str io a else ''unknown'')"

text \<open>The terminal record of an orphan: the outcome's own time, else the end of the session.\<close>

fun terminal_evidence_of :: "time_io \<Rightarrow> int \<Rightarrow> json \<Rightarrow> terminal_evidence option" where
  "terminal_evidence_of io now (JObj d) =
     (let ended = (case json_time io (jget d ''ended_at'') of None \<Rightarrow> now | Some t \<Rightarrow> t);
          written = (case json_time io (jget d ''worker_outcome_written_at'') of None \<Rightarrow> ended | Some t \<Rightarrow> t)
      in Some \<lparr> te_ended_at = ended, te_exit = jget d ''exit_code'',
                te_outcome = outcome_evidence_of (jget d ''worker_outcome'') From_terminal (Some written) \<rparr>)"
| "terminal_evidence_of io now _ = None"

definition unknown_branch :: branch_evidence where
  "unknown_branch =
     \<lparr> be_remote_head = None, be_remote_ahead = None, be_unpushed = None, be_open_pr = None,
       be_pr_known = True, be_local_ahead = None \<rparr>"

text \<open>\<open>worktree\<close> is the time and the content of the outcome file, where the worktree is known.\<close>

definition resolve_no_pr_orphan_fate ::
  "time_io \<Rightarrow> int \<Rightarrow> json \<Rightarrow> json \<Rightarrow> (int option \<times> json) option \<Rightarrow> int \<Rightarrow> worker_fate option" where
  "resolve_no_pr_orphan_fate io n entry terminal worktree now =
     map_option (\<lambda>failure. resolve_fate
       \<lparr> ev_issue = n, ev_adapter = adapter_of io entry,
         ev_dispatched_at = json_time io (jget (entry_dict entry) ''dispatched_at''),
         ev_alive = False, ev_health = None, ev_terminal = terminal_evidence_of io now terminal,
         ev_worktree = (case worktree of
                          None \<Rightarrow> None
                        | Some (mtime, raw) \<Rightarrow> outcome_evidence_of raw From_worktree mtime),
         ev_branch = unknown_branch, ev_failure = failure \<rparr>)
       (persisted_evidence (entry_dict entry))"

definition resolve_pushed_orphan_fate ::
  "time_io \<Rightarrow> (string \<Rightarrow> bool) \<Rightarrow> int \<Rightarrow> json \<Rightarrow> worker_fate \<Rightarrow> string option \<Rightarrow> int option \<Rightarrow> worker_fate" where
  "resolve_pushed_orphan_fate io denied n entry precompute remote_head ahead =
     resolve_fate_exempting_blocked io denied
       \<lparr> ev_issue = n, ev_adapter = adapter_of io entry,
         ev_dispatched_at = json_time io (jget (entry_dict entry) ''dispatched_at''),
         ev_alive = False, ev_health = None, ev_terminal = None, ev_worktree = fb_outcome (basis_of precompute),
         ev_branch = unknown_branch\<lparr> be_remote_head := remote_head, be_remote_ahead := ahead \<rparr>,
         ev_failure = None \<rparr>"

end
