(* ===== verification/Fate_Records.thy ===== *)
theory Fate_Records
  imports Worker_Fate "HOL-Library.AList"
begin

text \<open>
  What a fate leaves in \<^verbatim>\<open>state.json\<close>: the report of ignored evidence with its marker
  (\<^verbatim>\<open>worker_fate_stale.py\<close>), the provider's cooldown window and the stamp of a classified failure
  (\<^verbatim>\<open>state.py\<close>, \<^verbatim>\<open>worker_fate.persist_failure\<close>). The state is the JSON object of the file.
\<close>

section \<open>Ignored evidence\<close>

fun source_text :: "evidence_source \<Rightarrow> string" where
  "source_text From_terminal = ''terminal''"
| "source_text From_worktree = ''worktree''"

fun reason_text :: "stale_reason \<Rightarrow> string" where
  "reason_text Older_than_dispatch = ''older_than_dispatch''"
| "reason_text Head_mismatch = ''head_mismatch''"

text \<open>\<^verbatim>\<open>moment.isoformat()\<close> of a moment in UTC.\<close>

definition iso_text :: "time_io \<Rightarrow> int \<Rightarrow> string" where
  "iso_text io t = zulu (ti_format io t)"

definition stale_evidence_key :: "time_io \<Rightarrow> stale_evidence \<Rightarrow> string" where
  "stale_evidence_key io s =
     source_text (se_source s) @ '':'' @
     (case se_written_at s of None \<Rightarrow> ''unknown'' | Some t \<Rightarrow> iso_text io t)"

text \<open>The marker is a list of keys; a value that is no list of text marks nothing.\<close>

fun marked_keys :: "json \<Rightarrow> string list" where
  "marked_keys (JList xs) = List.map_filter (\<lambda>v. case v of JStr s \<Rightarrow> Some s | _ \<Rightarrow> None) xs"
| "marked_keys _ = []"

type_synonym events = "(string \<times> json_dict) list"

definition stale_payload :: "time_io \<Rightarrow> json_dict \<Rightarrow> fate_basis \<Rightarrow> stale_evidence \<Rightarrow> json_dict" where
  "stale_payload io entry basis s =
     (let stored = jget entry ''dispatched_at'';
          dispatched = (case (stored, fb_dispatched_at basis) of
                          (JNull, Some t) \<Rightarrow> JStr (iso_text io t)
                        | _ \<Rightarrow> stored)
      in [(''issue_number'', JInt (fb_issue basis)), (''source'', JStr (source_text (se_source s))),
          (''reason'', JStr (reason_text (se_reason s))),
          (''written_at'', opt_json (map_option (iso_text io) (se_written_at s))),
          (''dispatched_at'', dispatched), (''evidence_head'', se_head s),
          (''live_head'', opt_json (se_live_head s)), (''adapter'', jget entry ''adapter'')])"

fun stale_events_loop ::
  "time_io \<Rightarrow> json_dict \<Rightarrow> fate_basis \<Rightarrow> stale_evidence list \<Rightarrow> string set \<Rightarrow> events" where
  "stale_events_loop io entry basis [] reported = []"
| "stale_events_loop io entry basis (s # ss) reported =
     (let key = stale_evidence_key io s
      in if key \<in> reported then stale_events_loop io entry basis ss reported
         else (''worker_evidence_stale'', stale_payload io entry basis s) #
              stale_events_loop io entry basis ss (insert key reported))"

definition stale_evidence_events :: "time_io \<Rightarrow> json_dict \<Rightarrow> worker_fate \<Rightarrow> events" where
  "stale_evidence_events io entry fate =
     stale_events_loop io entry (basis_of fate) (fb_stale (basis_of fate))
       (set (marked_keys (jget entry ''stale_evidence_reported'')))"

definition fate_keys :: "time_io \<Rightarrow> worker_fate \<Rightarrow> string list" where
  "fate_keys io fate = map (stale_evidence_key io) (fb_stale (basis_of fate))"

text \<open>\<^verbatim>\<open>collect_fate\<close>: the fates of a pass, by issue, all of them.\<close>

definition collect_fate :: "(int \<times> worker_fate list) list \<Rightarrow> worker_fate \<Rightarrow> (int \<times> worker_fate list) list" where
  "collect_fate fates fate =
     (let n = fb_issue (basis_of fate)
      in AList.update n ((case map_of fates n of None \<Rightarrow> [] | Some fs \<Rightarrow> fs) @ [fate]) fates)"

section \<open>The report\<close>

text \<open>The events of the fates of one issue, each seeing the keys of the fates before it as reported.\<close>

fun issue_events :: "time_io \<Rightarrow> json_dict \<Rightarrow> worker_fate list \<Rightarrow> string list \<Rightarrow> events" where
  "issue_events io entry [] reported = []"
| "issue_events io entry (fate # fates) reported =
     stale_evidence_events io (jput entry ''stale_evidence_reported'' (strs_json (sort reported))) fate @
     issue_events io entry fates (remdups (reported @ fate_keys io fate))"

definition state_entry :: "json_dict \<Rightarrow> int \<Rightarrow> json" where
  "state_entry state n = (case jget state ''issues'' of JObj issues \<Rightarrow> jget issues (int_str n) | _ \<Rightarrow> JNull)"

definition pending_events :: "time_io \<Rightarrow> json_dict \<Rightarrow> int \<Rightarrow> worker_fate list \<Rightarrow> events" where
  "pending_events io snapshot n fates =
     (let entry = entry_dict (state_entry snapshot n)
      in issue_events io entry fates (remdups (marked_keys (jget entry ''stale_evidence_reported''))))"

text \<open>The marker of one issue in the state that is loaded under the lock.\<close>

definition mark_reported :: "time_io \<Rightarrow> json_dict \<Rightarrow> int \<times> worker_fate list \<Rightarrow> json_dict" where
  "mark_reported io state p =
     (case (jget state ''issues'', state_entry state (fst p)) of
        (JObj issues, JObj entry) \<Rightarrow>
          jput state ''issues'' (JObj (jput issues (int_str (fst p)) (JObj (jput entry ''stale_evidence_reported''
            (strs_json (sort (remdups (marked_keys (jget entry ''stale_evidence_reported'') @
                                       concat (map (fate_keys io) (snd p))))))))))
      | _ \<Rightarrow> state)"

text \<open>
  \<^verbatim>\<open>report_stale_evidence\<close>: the events that are logged, and the state that is saved, if any. \<open>snapshot\<close>
  is the first load and \<open>locked\<close> the one under the lock.
\<close>

definition report_stale_evidence ::
  "time_io \<Rightarrow> bool \<Rightarrow> json_dict \<Rightarrow> json_dict \<Rightarrow> (int \<times> worker_fate list) list \<Rightarrow> events \<times> json_dict option" where
  "report_stale_evidence io dry_run snapshot locked fates =
     (let pending = filter (\<lambda>(n, fs). pending_events io snapshot n fs \<noteq> []) fates
      in if dry_run \<or> pending = [] then ([], None)
         else (concat (map (\<lambda>(n, fs). pending_events io snapshot n fs) pending),
               Some (foldl (mark_reported io) locked pending)))"

section \<open>The cooldown window\<close>

text \<open>
  \<^verbatim>\<open>is_throttled\<close>: None where the stored value is no text and the \<^verbatim>\<open>replace\<close> raises. A naive value
  compares with the clock as a TypeError, which reads as not throttled.
\<close>

definition is_throttled :: "time_io \<Rightarrow> int \<Rightarrow> json_dict \<Rightarrow> bool option" where
  "is_throttled io now state =
     (case jget state ''throttled_until'' of
        JStr s \<Rightarrow> Some (s \<noteq> [] \<and> (case ti_fromiso io (zulu s) of Some (Aware t) \<Rightarrow> now < t | _ \<Rightarrow> False))
      | v \<Rightarrow> if json_true v then None else Some False)"

text \<open>Whether the running window ends at or after the new one.\<close>

definition window_outlasts :: "time_io \<Rightarrow> int \<Rightarrow> json_dict \<Rightarrow> string \<Rightarrow> bool option" where
  "window_outlasts io now state until =
     map_option (\<lambda>throttled.
       throttled \<and>
       (case (jget state ''throttled_until'', ti_fromiso io (zulu until)) of
          (JStr s, Some t) \<Rightarrow>
            (case ti_fromiso io (zulu s) of Some t0 \<Rightarrow> as_utc t \<le> as_utc t0 | None \<Rightarrow> False)
        | _ \<Rightarrow> False))
       (is_throttled io now state)"

definition set_throttled_until ::
  "time_io \<Rightarrow> int \<Rightarrow> json_dict \<Rightarrow> string \<Rightarrow> string \<Rightarrow> json \<Rightarrow> json \<Rightarrow> json \<Rightarrow> json \<Rightarrow> (json_dict \<times> events) option" where
  "set_throttled_until io now state until source reason adapter harness model =
     (let previous = jget state ''throttled_until''
      in case window_outlasts io now state until of
           None \<Rightarrow> None
         | Some True \<Rightarrow> Some (state, [])
         | Some False \<Rightarrow>
             Some (jupdate state [(''throttled_until'', JStr until), (''throttle_reason'', reason),
                     (''throttle_adapter_kind'', adapter), (''throttle_harness'', harness),
                     (''throttle_model'', model)],
                   if previous = JStr until then []
                   else [(''throttle_window_set'',
                     [(''previous'', previous), (''throttled_until'', JStr until), (''reason'', reason),
                      (''adapter_kind'', adapter), (''harness'', harness), (''model'', model),
                      (''source'', JStr source)])]))"

section \<open>The stamp of a classified failure\<close>

definition record_dead_worker_failure_kind ::
  "json_dict \<Rightarrow> int \<Rightarrow> json \<Rightarrow> json \<Rightarrow> json_dict" where
  "record_dead_worker_failure_kind state n kind classified_at =
     (case (jget state ''issues'', state_entry state n) of
        (JObj issues, JObj entry) \<Rightarrow>
          let stamped = jput entry ''dead_worker_failure_kind'' kind
          in jput state ''issues'' (JObj (jput issues (int_str n) (JObj
               (if classified_at = JNull then stamped
                else jput stamped ''dead_worker_failure_classified_at'' classified_at))))
      | _ \<Rightarrow> state)"

definition local_park_defer_fields :: "string list" where
  "local_park_defer_fields =
     [''local_park_defer_count'', ''local_park_defer_since'', ''local_park_defer_pass_key'',
      ''local_park_defer_reason'']"

definition clear_dead_worker_failure_kind :: "json_dict \<Rightarrow> json_dict" where
  "clear_dead_worker_failure_kind entry =
     filter (\<lambda>(k, v). k \<notin> set ([''dead_worker_failure_kind'', ''dead_worker_failure_classified_at'',
       ''throttle_reap_rearm_count''] @ local_park_defer_fields @ [''live_handoff_routed_outcome_at''])) entry"

definition persist_failure ::
  "time_io \<Rightarrow> int \<Rightarrow> json_dict \<Rightarrow> int \<Rightarrow> failure_evidence \<Rightarrow> json \<Rightarrow> string \<Rightarrow> (json_dict \<times> events) option" where
  "persist_failure io now state n failure adapter source =
     (let stamp = (\<lambda>s. if fe_kind failure = JNull then s
                       else record_dead_worker_failure_kind s n (fe_kind failure) (format_z io now))
      in case fe_throttled_until failure of
           None \<Rightarrow> Some (stamp state, [])
         | Some until \<Rightarrow>
             map_option (\<lambda>(s, evs). (stamp s, evs))
               (set_throttled_until io now state (ti_format io (whole_second until)) source
                  (fe_kind failure) adapter (fe_harness failure) (fe_model failure)))"

end
