(* ===== verification/Fate_Props.thy ===== *)
theory Fate_Props
  imports Fate_Records Digit_Clock
begin

text \<open>
  What the fate of a worker rests on: evidence that is stale never decides, commits without proof are
  stranded and not completed, a completed fate has proof, and ignored evidence is reported once.
\<close>

section \<open>Freshness\<close>

text \<open>
  What it means for evidence to be of this dispatch, said of the instants themselves: it came after the
  dispatch, where the dispatch is known, and a claim that names a head names the branch's.
\<close>

definition after_dispatch :: "int option \<Rightarrow> fate_evidence \<Rightarrow> bool" where
  "after_dispatch at ev \<longleftrightarrow> (\<forall>d. ev_dispatched_at ev = Some d \<longrightarrow> (\<exists>t. at = Some t \<and> d < t))"

definition current :: "fate_evidence \<Rightarrow> outcome_evidence \<Rightarrow> bool" where
  "current ev c \<longleftrightarrow>
     after_dispatch (oe_written_at c) ev \<and>
     (\<forall>sha. be_remote_head (ev_branch ev) = Some sha \<longrightarrow> oe_head c \<in> {JNull, JStr sha})"

text \<open>The evidence without what is not of this dispatch: its claims and its exit code.\<close>

definition keep_current :: "fate_evidence \<Rightarrow> outcome_evidence option \<Rightarrow> outcome_evidence option" where
  "keep_current ev c = (case c of None \<Rightarrow> None | Some x \<Rightarrow> if current ev x then Some x else None)"

definition current_part :: "fate_evidence \<Rightarrow> fate_evidence" where
  "current_part ev = ev\<lparr>
     ev_terminal := map_option (\<lambda>t. t\<lparr>
       te_exit := (if after_dispatch (Some (te_ended_at t)) ev then te_exit t else JNull),
       te_outcome := keep_current ev (te_outcome t) \<rparr>) (ev_terminal ev),
     ev_worktree := keep_current ev (ev_worktree ev) \<rparr>"

text \<open>What is reported as ignored: the claims not of this dispatch that say something, then the exit code.\<close>

definition ignored :: "fate_evidence \<Rightarrow> (evidence_source \<times> int option) list" where
  "ignored ev =
     map (\<lambda>c. (oe_source c, oe_written_at c))
       (filter (\<lambda>c. \<not> carries_no_claim c \<and> \<not> current ev c)
          (List.map_filter id [terminal_outcome ev, ev_worktree ev])) @
     (case ev_terminal ev of
        None \<Rightarrow> []
      | Some t \<Rightarrow> if after_dispatch (Some (te_ended_at t)) ev then [] else [(From_terminal, Some (te_ended_at t))])"

definition clear_stale :: "fate_basis \<Rightarrow> fate_basis" where
  "clear_stale b = b\<lparr> fb_stale := [] \<rparr>"

fun forget_stale :: "worker_fate \<Rightarrow> worker_fate" where
  "forget_stale (Live b h) = Live (clear_stale b) h"
| "forget_stale (Completed b pr head) = Completed (clear_stale b) pr head"
| "forget_stale (Pushed_without_pr b head) = Pushed_without_pr (clear_stale b) head"
| "forget_stale (Stranded b n f) = Stranded (clear_stale b) n f"
| "forget_stale (Declared_blocked b reason) = Declared_blocked (clear_stale b) reason"
| "forget_stale (Throttled b f) = Throttled (clear_stale b) f"
| "forget_stale (Crashed b f) = Crashed (clear_stale b) f"

lemma dispatch_fresh_after: "dispatch_fresh at (ev_dispatched_at ev) \<longleftrightarrow> after_dispatch at ev"
  by (auto simp: dispatch_fresh_def after_dispatch_def split: option.split)

lemma current_evaluates:
  "dispatch_fresh (oe_written_at c) (ev_dispatched_at ev) \<and> head_fresh (oe_head c) (be_remote_head (ev_branch ev)) \<longleftrightarrow>
     current ev c"
  by (auto simp: dispatch_fresh_after current_def head_fresh_def split: option.split)

lemma evaluate_current:
  "evaluate_candidate c (ev_dispatched_at ev) (be_remote_head (ev_branch ev)) =
     (case c of
        None \<Rightarrow> (False, [])
      | Some x \<Rightarrow>
          if carries_no_claim x then (False, [])
          else if current ev x then (True, [])
          else (False, [\<lparr> se_source = oe_source x,
                          se_reason = (if head_fresh (oe_head x) (be_remote_head (ev_branch ev)) then Older_than_dispatch
                                       else Head_mismatch),
                          se_written_at = oe_written_at x, se_head = oe_head x,
                          se_live_head = be_remote_head (ev_branch ev) \<rparr>]))"
  unfolding evaluate_candidate_def current_evaluates ..

lemma current_part_fields [simp]:
  "ev_branch (current_part ev) = ev_branch ev" "ev_failure (current_part ev) = ev_failure ev"
  "ev_alive (current_part ev) = ev_alive ev" "ev_health (current_part ev) = ev_health ev"
  "ev_dispatched_at (current_part ev) = ev_dispatched_at ev" "ev_issue (current_part ev) = ev_issue ev"
  "ev_worktree (current_part ev) = keep_current ev (ev_worktree ev)"
  "terminal_outcome (current_part ev) = keep_current ev (terminal_outcome ev)"
  by (auto simp: current_part_def terminal_outcome_def keep_current_def split: option.split)

lemma after_current_part [simp]: "after_dispatch at (current_part ev) = after_dispatch at ev"
  by (simp add: after_dispatch_def)

lemma current_current_part [simp]: "current (current_part ev) = current ev"
  by (auto simp: current_def fun_eq_iff)

lemma evaluate_keep:
  "fst (evaluate_candidate (keep_current ev c) (ev_dispatched_at ev) (be_remote_head (ev_branch ev))) =
     fst (evaluate_candidate c (ev_dispatched_at ev) (be_remote_head (ev_branch ev)))"
  "fst (evaluate_candidate c (ev_dispatched_at ev) (be_remote_head (ev_branch ev))) \<Longrightarrow> keep_current ev c = c"
  unfolding evaluate_current by (auto simp: keep_current_def split: option.splits if_splits)

lemma exit_current:
  "fst (fresh_exit (ev_terminal (current_part ev)) (ev_dispatched_at ev) live) =
     fst (fresh_exit (ev_terminal ev) (ev_dispatched_at ev) live)"
  by (simp add: fresh_exit_def current_part_def dispatch_fresh_after split: option.split)

text \<open>The fresh outcome of the current part is that of the evidence, up to the list of what was ignored.\<close>

lemma freshness_fields:
  "fo_outcome (resolve_freshness ev) =
     (if fst (evaluate_candidate (terminal_outcome ev) (ev_dispatched_at ev) (be_remote_head (ev_branch ev)))
      then terminal_outcome ev
      else if fst (evaluate_candidate (ev_worktree ev) (ev_dispatched_at ev) (be_remote_head (ev_branch ev)))
      then ev_worktree ev else None)"
  "fo_suffix (resolve_freshness ev) =
     (if fst (evaluate_candidate (terminal_outcome ev) (ev_dispatched_at ev) (be_remote_head (ev_branch ev))) \<or>
         fst (evaluate_candidate (ev_worktree ev) (ev_dispatched_at ev) (be_remote_head (ev_branch ev)))
      then rule_suffix (ev_dispatched_at ev) else [])"
  "fo_exit (resolve_freshness ev) =
     fst (fresh_exit (ev_terminal ev) (ev_dispatched_at ev) (be_remote_head (ev_branch ev)))"
  by (simp_all add: resolve_freshness_def Let_def case_prod_unfold)

lemma freshness_current_part:
  "(resolve_freshness (current_part ev))\<lparr> fo_stale := [] \<rparr> = (resolve_freshness ev)\<lparr> fo_stale := [] \<rparr>"
  by (rule fresh_outcome.equality)
    (auto simp: freshness_fields evaluate_keep(1) exit_current dest: evaluate_keep(2))

lemma basis_clear:
  "f\<lparr> fo_stale := [] \<rparr> = g\<lparr> fo_stale := [] \<rparr> \<Longrightarrow>
   clear_stale (fate_basis_of (current_part ev) f rule) = clear_stale (fate_basis_of ev g rule)"
  by (cases f; cases g) (simp add: fate_basis_of_def clear_stale_def)

lemma forget_completed_or_pushed [simp]:
  "forget_stale (completed_or_pushed b branch head) = completed_or_pushed (clear_stale b) branch head"
  by (simp add: completed_or_pushed_def split: option.split)

lemma rows_current_part:
  assumes "f\<lparr> fo_stale := [] \<rparr> = g\<lparr> fo_stale := [] \<rparr>"
  shows "map_option forget_stale (outcome_rows (current_part ev) f c) = map_option forget_stale (outcome_rows ev g c)"
    and "forget_stale (dead_rows (current_part ev) f) = forget_stale (dead_rows ev g)"
proof -
  have fg: "fo_outcome f = fo_outcome g" "fo_suffix f = fo_suffix g" "fo_exit f = fo_exit g"
    using assms by (cases f; cases g; simp)+
  note b = basis_clear [OF assms, of ev]
  show "map_option forget_stale (outcome_rows (current_part ev) f c) = map_option forget_stale (outcome_rows ev g c)"
    by (simp add: outcome_rows_def Let_def fg b split: option.split)
  show "forget_stale (dead_rows (current_part ev) f) = forget_stale (dead_rows ev g)"
    by (cases "throttled_by (fo_outcome g) (ev_failure ev)")
      (simp_all add: dead_rows_def Let_def fg b if_distrib [of forget_stale] split del: if_split cong: if_cong)
qed

lemma fate_current_part: "forget_stale (resolve_fate ev) = forget_stale (resolve_fate (current_part ev))"
proof -
  let ?f = "resolve_freshness (current_part ev)" and ?g = "resolve_freshness ev"
  note eq = freshness_current_part [of ev]
  have fo: "fo_outcome ?f = fo_outcome ?g"
    using eq by (cases ?f; cases ?g; simp)
  show ?thesis
  proof (cases "fo_outcome ?g")
    case None
    then show ?thesis
      using fo rows_current_part(2) [OF eq] basis_clear [OF eq] by (simp add: resolve_fate_def Let_def)
  next
    case (Some c)
    then show ?thesis
      using fo rows_current_part(1) [OF eq, where ev = ev and c = c] rows_current_part(2) [OF eq, where ev = ev]
        basis_clear [OF eq, where ev = ev]
      by (cases "outcome_rows (current_part ev) ?f c"; cases "outcome_rows ev ?g c")
        (simp_all add: resolve_fate_def Let_def)
  qed
qed

lemma fate_stale: "fb_stale (basis_of (resolve_fate ev)) = fo_stale (resolve_freshness ev)"
proof -
  have s: "fb_stale (fate_basis_of ev f rule) = fo_stale f" for f rule
    by (simp add: fate_basis_of_def)
  have c: "basis_of (completed_or_pushed b branch head) = b" for b branch head
    by (simp add: completed_or_pushed_def split: option.split)
  have "fb_stale (basis_of x) = fo_stale f" if "outcome_rows ev f o' = Some x" for f o' x
    using that by (auto simp: outcome_rows_def Let_def s split: if_splits option.splits)
  moreover have "fb_stale (basis_of (dead_rows ev f)) = fo_stale f" for f
    by (auto simp: dead_rows_def Let_def s c split: option.split)
  ultimately show ?thesis
    by (auto simp: resolve_fate_def Let_def s split: option.split)
qed

lemma stale_ignored:
  "map (\<lambda>e. (se_source e, se_written_at e)) (fo_stale (resolve_freshness ev)) = ignored ev"
proof -
  have e: "map (\<lambda>e. (se_source e, se_written_at e))
      (snd (evaluate_candidate c (ev_dispatched_at ev) (be_remote_head (ev_branch ev)))) =
    map (\<lambda>c. (oe_source c, oe_written_at c))
      (filter (\<lambda>c. \<not> carries_no_claim c \<and> \<not> current ev c) (case c of None \<Rightarrow> [] | Some x \<Rightarrow> [x]))" for c
    unfolding evaluate_current by (simp split: option.split)
  have x: "map (\<lambda>e. (se_source e, se_written_at e)) (snd (fresh_exit (ev_terminal ev) (ev_dispatched_at ev) live)) =
    (case ev_terminal ev of
        None \<Rightarrow> []
      | Some t \<Rightarrow> if after_dispatch (Some (te_ended_at t)) ev then [] else [(From_terminal, Some (te_ended_at t))])" for live
    by (simp add: fresh_exit_def dispatch_fresh_after split: option.split)
  have m: "List.map_filter id [a, b] = (case a of None \<Rightarrow> [] | Some x \<Rightarrow> [x]) @ (case b of None \<Rightarrow> [] | Some x \<Rightarrow> [x])" for a b
    by (simp add: List.map_filter_def split: option.split)
  have "fo_stale (resolve_freshness ev) =
      snd (evaluate_candidate (terminal_outcome ev) (ev_dispatched_at ev) (be_remote_head (ev_branch ev))) @
      snd (evaluate_candidate (ev_worktree ev) (ev_dispatched_at ev) (be_remote_head (ev_branch ev))) @
      snd (fresh_exit (ev_terminal ev) (ev_dispatched_at ev) (be_remote_head (ev_branch ev)))"
    by (simp add: resolve_freshness_def Let_def split: prod.split)
  then show ?thesis
    by (simp only: map_append e x ignored_def m filter_append append_assoc)
qed

text \<open>
  C25. Evidence of an earlier dispatch decides nothing, and is reported. Evidence is of this dispatch when it
  came after the dispatch's instant and a claim that names a head names the branch's. The fate is the one
  that remains when every other claim and a terminal record's earlier exit code are taken away, up to
  the list of what was ignored; and that list holds exactly the source and the time of what was taken away and
  said something, in the order terminal claim, worktree claim, exit code.
\<close>

theorem stale_evidence_never_decides:
  "forget_stale (resolve_fate ev) = forget_stale (resolve_fate (current_part ev)) \<and>
   map (\<lambda>e. (se_source e, se_written_at e)) (fb_stale (basis_of (resolve_fate ev))) = ignored ev"
  using fate_current_part stale_ignored fate_stale by metis

section \<open>What a fate rests on\<close>

text \<open>
  C11. Work is not given up. For a dead worker whose branch holds commits that are not proven on the
  remote, the fate is stranded with that count and the failure at hand, unless a fresh outcome declares
  a block or a push that the remote confirms; it is never crashed or throttled.
\<close>

theorem unproven_commits_are_stranded:
  assumes "\<not> ev_alive ev"
    and "be_unpushed (ev_branch ev) = Some n \<or>
      be_unpushed (ev_branch ev) = None \<and> be_remote_ahead (ev_branch ev) = None \<and>
      be_remote_head (ev_branch ev) = None \<and> be_local_ahead (ev_branch ev) = Some n"
    and "0 < n"
  shows "(\<exists>basis. resolve_fate ev = Stranded basis n (ev_failure ev)) \<or>
    (\<exists>c. fo_outcome (resolve_freshness ev) = Some c \<and>
       (oe_outcome c = JStr ''blocked'' \<and> (\<exists>basis reason. resolve_fate ev = Declared_blocked basis reason) \<or>
        oe_push_succeeded c = JBool True \<and> is_pushed c (ev_branch ev) \<and>
        (\<exists>basis head. resolve_fate ev = Pushed_without_pr basis head \<or>
           (\<exists>pr. resolve_fate ev = Completed basis pr head))))"
proof -
  let ?f = "resolve_freshness ev"
  have dead: "\<exists>basis. dead_rows ev ?f = Stranded basis n (ev_failure ev)"
    using assms(2,3) by (auto simp: dead_rows_def Let_def positive_def)
  show ?thesis
  proof (cases "fo_outcome ?f")
    case None
    then show ?thesis
      using dead assms(1) by (simp add: resolve_fate_def Let_def)
  next
    case (Some c)
    then show ?thesis
      using dead assms
      by (auto simp: resolve_fate_def Let_def outcome_rows_def split: option.splits if_splits)
  qed
qed





section \<open>The report of ignored evidence\<close>

lemma marked_keys_strs [simp]: "marked_keys (strs_json xs) = xs"
  by (induction xs) (simp_all add: strs_json_def)

definition event_key :: "string \<times> json_dict \<Rightarrow> string" where
  "event_key e =
     (case jget (snd e) ''source'' of JStr s \<Rightarrow> s | _ \<Rightarrow> []) @ '':'' @
     (case jget (snd e) ''written_at'' of JStr t \<Rightarrow> t | _ \<Rightarrow> ''unknown'')"

definition event_issue :: "string \<times> json_dict \<Rightarrow> int" where
  "event_issue e = (case jget (snd e) ''issue_number'' of JInt n \<Rightarrow> n | _ \<Rightarrow> 0)"

lemma event_key_stale [simp]: "event_key (kind, stale_payload io entry basis s) = stale_evidence_key io s"
  by (simp add: event_key_def stale_payload_def Let_def jget_def stale_evidence_key_def opt_json_def split: option.split)

lemma event_issue_stale [simp]: "event_issue (kind, stale_payload io entry basis s) = fb_issue basis"
  by (simp add: event_issue_def stale_payload_def Let_def jget_def)

text \<open>New events: distinct keys, none of them reported before, and all of the evidence is reported after.\<close>

definition newly :: "string set \<Rightarrow> string set \<Rightarrow> int \<Rightarrow> events \<Rightarrow> bool" where
  "newly reported ks n evs \<longleftrightarrow>
     distinct (map event_key evs) \<and> event_key ` set evs = ks - reported \<and> event_issue ` set evs \<subseteq> {n}"

lemma newly_append:
  "newly R ks n xs \<Longrightarrow> newly (R \<union> ks) ls n ys \<Longrightarrow> newly R (ks \<union> ls) n (xs @ ys)"
  by (auto simp: newly_def image_Un)

lemma loop_newly:
  "newly R (stale_evidence_key io ` set ss) (fb_issue basis) (stale_events_loop io entry basis ss R)"
proof (induction ss arbitrary: R)
  case (Cons s ss)
  show ?case
  proof (cases "stale_evidence_key io s \<in> R")
    case True
    then show ?thesis
      using Cons.IH [of R] by (auto simp: newly_def)
  next
    case False
    then show ?thesis
      using Cons.IH [of "insert (stale_evidence_key io s) R"] by (auto simp: newly_def Let_def)
  qed
qed (simp add: newly_def)

lemma events_newly:
  "newly (set (marked_keys (jget entry ''stale_evidence_reported''))) (set (fate_keys io fate))
     (fb_issue (basis_of fate)) (stale_evidence_events io entry fate)"
  using loop_newly [of _ io "fb_stale (basis_of fate)"]
  by (simp add: stale_evidence_events_def fate_keys_def)

lemma issue_events_newly:
  "\<forall>f \<in> set fates. fb_issue (basis_of f) = n \<Longrightarrow>
   newly (set R) (\<Union>f \<in> set fates. set (fate_keys io f)) n (issue_events io entry fates R)"
proof (induction fates arbitrary: R)
  case (Cons f fs)
  have "newly (set R) (set (fate_keys io f)) n
      (stale_evidence_events io (jput entry ''stale_evidence_reported'' (strs_json (sort R))) f)"
    using events_newly [of "jput entry ''stale_evidence_reported'' (strs_json (sort R))" io f] Cons.prems by simp
  moreover have "newly (set R \<union> set (fate_keys io f)) (\<Union>f \<in> set fs. set (fate_keys io f)) n
      (issue_events io entry fs (remdups (R @ fate_keys io f)))"
    using Cons.IH [of "remdups (R @ fate_keys io f)"] Cons.prems by simp
  ultimately show ?case
    using newly_append by simp
qed (simp add: newly_def)

text \<open>The keys that the state marks as reported for an issue.\<close>

definition marked :: "json_dict \<Rightarrow> int \<Rightarrow> string set" where
  "marked state n = set (marked_keys (jget (entry_dict (state_entry state n)) ''stale_evidence_reported''))"

lemma pending_newly:
  assumes "\<forall>f \<in> set fs. fb_issue (basis_of f) = n"
  shows "newly (marked state n) (\<Union>f \<in> set fs. set (fate_keys io f)) n (pending_events io state n fs)"
  using issue_events_newly [OF assms, of "remdups (marked_keys (jget (entry_dict (state_entry state n))
      ''stale_evidence_reported''))" io]
  by (simp add: pending_events_def marked_def Let_def)

section \<open>The marker\<close>

definition has_entry :: "json_dict \<Rightarrow> int \<Rightarrow> bool" where
  "has_entry state n \<longleftrightarrow> (\<exists>entry. state_entry state n = JObj entry)"

lemma mark_reported_other: "m \<noteq> n \<Longrightarrow> state_entry (mark_reported io state (m, fs)) n = state_entry state n"
  by (auto simp: mark_reported_def state_entry_def split: json.split)

lemma mark_reported_same:
  assumes "has_entry state n"
  shows "has_entry (mark_reported io state (n, fs)) n \<and>
    marked (mark_reported io state (n, fs)) n = marked state n \<union> (\<Union>f \<in> set fs. set (fate_keys io f))"
proof -
  from assms obtain issues entry where s: "jget state ''issues'' = JObj issues" "jget issues (int_str n) = JObj entry"
    by (auto simp: has_entry_def state_entry_def split: json.splits)
  then show ?thesis
    by (auto simp: mark_reported_def state_entry_def has_entry_def marked_def)
qed

lemma marks_reported:
  assumes "has_entry state n" and "distinct (map fst fates)"
  shows "has_entry (foldl (mark_reported io) state fates) n \<and>
    marked (foldl (mark_reported io) state fates) n =
      marked state n \<union> (case map_of fates n of None \<Rightarrow> {} | Some fs \<Rightarrow> \<Union>f \<in> set fs. set (fate_keys io f))"
  using assms
proof (induction fates arbitrary: state)
  case (Cons p fates)
  obtain m fs where p: "p = (m, fs)"
    by (cases p)
  show ?case
  proof (cases "m = n")
    case True
    then have "map_of fates n = None"
      using Cons.prems(2) p by (auto simp: map_of_eq_None_iff)
    then show ?thesis
      using Cons.IH [of "mark_reported io state p"] Cons.prems mark_reported_same [OF Cons.prems(1)] p True by auto
  next
    case False
    then have "has_entry (mark_reported io state p) n" "marked (mark_reported io state p) n = marked state n"
      using Cons.prems(1) mark_reported_other [OF False] p by (simp_all add: has_entry_def marked_def)
    then show ?thesis
      using Cons.IH [of "mark_reported io state p"] Cons.prems(2) p False by auto
  qed
qed simp

section \<open>A pass after another\<close>

definition sorted_out :: "(int \<times> worker_fate list) list \<Rightarrow> bool" where
  "sorted_out fates \<longleftrightarrow> distinct (map fst fates) \<and> (\<forall>(m, fs) \<in> set fates. \<forall>f \<in> set fs. fb_issue (basis_of f) = m)"

lemma collect_sorted_out:
  assumes "sorted_out fates"
  shows "sorted_out (collect_fate fates fate)"
proof -
  let ?n = "fb_issue (basis_of fate)"
  have keys: "distinct (map fst (collect_fate fates fate))"
    using assms by (simp add: sorted_out_def collect_fate_def Let_def distinct_update)
  have old: "fb_issue (basis_of f) = m" if "map_of fates m = Some fs" "f \<in> set fs" for m fs f
    using that assms by (auto simp: sorted_out_def dest: map_of_SomeD)
  have "fb_issue (basis_of f) = m" if "(m, fs) \<in> set (collect_fate fates fate)" "f \<in> set fs" for m fs f
  proof -
    have fs: "map_of (collect_fate fates fate) m = Some fs"
      using keys that(1) by simp
    show ?thesis
    proof (cases "m = ?n")
      case True
      then have "f = fate \<or> (\<exists>fs'. map_of fates m = Some fs' \<and> f \<in> set fs')"
        using fs that(2) by (auto simp: collect_fate_def Let_def update_conv' split: option.splits)
      then show ?thesis
        using True old by auto
    next
      case False
      then show ?thesis
        using fs that(2) old by (simp add: collect_fate_def Let_def update_conv')
    qed
  qed
  with keys show ?thesis
    by (auto simp: sorted_out_def)
qed

lemma collected_sorted_out: "sorted_out fates \<Longrightarrow> sorted_out (foldl collect_fate fates xs)"
  by (induction xs arbitrary: fates) (simp_all add: collect_sorted_out)

definition fates_of :: "(int \<times> worker_fate list) list \<Rightarrow> int \<Rightarrow> worker_fate set" where
  "fates_of fates n = (case map_of fates n of None \<Rightarrow> {} | Some fs \<Rightarrow> set fs)"

lemma fates_of_collected:
  "fates_of (foldl collect_fate fates xs) n = fates_of fates n \<union> {f \<in> set xs. fb_issue (basis_of f) = n}"
proof (induction xs arbitrary: fates)
  case (Cons x xs)
  have "fates_of (collect_fate fates x) n = fates_of fates n \<union> {f \<in> {x}. fb_issue (basis_of f) = n}"
    by (auto simp: fates_of_def collect_fate_def Let_def update_conv' split: option.splits)
  with Cons show ?case
    by auto
qed simp

lemma filter_pending:
  assumes "distinct (map fst ps)" and "\<forall>p \<in> set ps. event_issue ` set (g p) \<subseteq> {fst p}"
  shows "filter (\<lambda>e. event_issue e = n) (concat (map g ps)) =
    (case map_of ps n of None \<Rightarrow> [] | Some fs \<Rightarrow> g (n, fs))"
  using assms
proof (induction ps)
  case (Cons p ps)
  obtain m fs where p: "p = (m, fs)"
    by (cases p)
  have issue: "\<And>e. e \<in> set (g p) \<Longrightarrow> event_issue e = m"
    using Cons.prems(2) p by auto
  show ?case
  proof (cases "m = n")
    case True
    then have "map_of ps n = None"
      using Cons.prems(1) p by (auto simp: map_of_eq_None_iff)
    moreover have "filter (\<lambda>e. event_issue e = n) (g p) = g p"
      using issue True by (auto simp: filter_id_conv)
    ultimately show ?thesis
      using Cons p True by simp
  next
    case False
    then have "filter (\<lambda>e. event_issue e = n) (g p) = []"
      using issue by (auto simp: filter_empty_conv)
    then show ?thesis
      using Cons p False by simp
  qed
qed simp

lemma map_of_filter_value:
  "distinct (map fst xs) \<Longrightarrow> map_of (filter (\<lambda>(m, v). P m v) xs) n =
     (case map_of xs n of None \<Rightarrow> None | Some v \<Rightarrow> if P n v then Some v else None)"
proof (induction xs)
  case (Cons x xs)
  have "map_of xs (fst x) = None"
    using Cons.prems by (simp add: map_of_eq_None_iff)
  with Cons show ?case
    by (cases x) (auto split: option.split)
qed simp

definition keys_of :: "time_io \<Rightarrow> worker_fate set \<Rightarrow> string set" where
  "keys_of io fates = (\<Union>f \<in> fates. set (fate_keys io f))"

lemma report_once:
  assumes "sorted_out fates" and "has_entry state n"
    and "report_stale_evidence io False state state fates = (evs, saved)"
    and "state' = (case saved of None \<Rightarrow> state | Some s \<Rightarrow> s)"
    and "mine = filter (\<lambda>e. event_issue e = n) evs"
  shows "has_entry state' n \<and> marked state' n = marked state n \<union> keys_of io (fates_of fates n) \<and>
    distinct (map event_key mine) \<and> event_key ` set mine = keys_of io (fates_of fates n) - marked state n"
proof -
  let ?g = "\<lambda>(m, fs). pending_events io state m fs"
  let ?p = "filter (\<lambda>(m, fs). pending_events io state m fs \<noteq> []) fates"
  have new: "newly (marked state m) (keys_of io (set fs)) m (pending_events io state m fs)" if "(m, fs) \<in> set fates" for m fs
    using pending_newly [of fs m state io] assms(1) that by (auto simp: sorted_out_def keys_of_def)
  have distinct: "distinct (map fst fates)" "distinct (map fst ?p)"
    using assms(1) by (auto simp: sorted_out_def intro: distinct_map_filter)
  have result: "evs = concat (map ?g ?p)" "state' = foldl (mark_reported io) state ?p"
    using assms(3,4) by (auto simp: report_stale_evidence_def Let_def split: if_splits)
  have mine: "mine = (case map_of ?p n of None \<Rightarrow> [] | Some fs \<Rightarrow> pending_events io state n fs)"
    using filter_pending [OF distinct(2), of ?g n] new unfolding assms(5) result(1)
    by (fastforce simp: newly_def)
  have marks: "has_entry state' n" "marked state' n = marked state n \<union>
      (case map_of ?p n of None \<Rightarrow> {} | Some fs \<Rightarrow> keys_of io (set fs))"
    using marks_reported [OF assms(2) distinct(2), of io] unfolding result(2)
    by (simp_all add: keys_of_def cong: option.case_cong)
  have pending: "map_of ?p n = (case map_of fates n of None \<Rightarrow> None
      | Some fs \<Rightarrow> if pending_events io state n fs = [] then None else Some fs)"
    using map_of_filter_value [OF distinct(1), of "\<lambda>m fs. pending_events io state m fs \<noteq> []"]
    by (auto split: option.split)
  show ?thesis
  proof (cases "map_of fates n")
    case None
    then show ?thesis
      using mine marks pending by (simp add: fates_of_def keys_of_def)
  next
    case (Some fs)
    then have n: "newly (marked state n) (keys_of io (set fs)) n (pending_events io state n fs)"
      using new map_of_SomeD by fast
    show ?thesis
    proof (cases "pending_events io state n fs = []")
      case True
      then have "keys_of io (set fs) - marked state n = {}"
        using n by (simp add: newly_def)
      then show ?thesis
        using True Some mine marks pending by (auto simp: fates_of_def)
    next
      case False
      then show ?thesis
        using n Some mine marks pending by (simp add: fates_of_def newly_def)
    qed
  qed
qed

primrec report_all :: "time_io \<Rightarrow> json_dict \<Rightarrow> worker_fate list list \<Rightarrow> events" where
  "report_all io state [] = []"
| "report_all io state (xs # passes) =
     (case report_stale_evidence io False state state (foldl collect_fate [] xs) of
        (evs, saved) \<Rightarrow> evs @ report_all io (case saved of None \<Rightarrow> state | Some s \<Rightarrow> s) passes)"

text \<open>
  Ignored evidence is reported, and once. Over any number of passes, each with the fates it resolved in any
  order, the events logged for an issue that has an entry have distinct keys, and they are exactly the
  keys of the evidence its fates ignored that the entry did not mark as reported at first.
\<close>

theorem ignored_evidence_reported_once:
  assumes "state_entry state n = JObj entry"
    and "mine = filter (\<lambda>e. event_issue e = n) (report_all io state passes)"
  shows "distinct (map event_key mine) \<and>
    event_key ` set mine =
      (\<Union>xs \<in> set passes. \<Union>f \<in> {f \<in> set xs. fb_issue (basis_of f) = n}. set (fate_keys io f)) -
      set (marked_keys (jget entry ''stale_evidence_reported''))"
proof -
  have "distinct (map event_key (filter (\<lambda>e. event_issue e = n) (report_all io state passes))) \<and>
      event_key ` set (filter (\<lambda>e. event_issue e = n) (report_all io state passes)) =
      (\<Union>xs \<in> set passes. keys_of io {f \<in> set xs. fb_issue (basis_of f) = n}) - marked state n"
    if "has_entry state n" for state
    using that
  proof (induction passes arbitrary: state)
    case (Cons xs passes)
    obtain evs saved where r: "report_stale_evidence io False state state (foldl collect_fate [] xs) = (evs, saved)"
      by fastforce
    have "sorted_out (foldl collect_fate [] xs)"
      by (rule collected_sorted_out) (simp add: sorted_out_def)
    note one = report_once [OF this Cons.prems r refl refl]
    have "fates_of (foldl collect_fate [] xs) n = {f \<in> set xs. fb_issue (basis_of f) = n}"
      by (simp add: fates_of_collected) (simp add: fates_of_def)
    then show ?case
      using one Cons.IH [of "case saved of None \<Rightarrow> state | Some s \<Rightarrow> s"] r
      by (auto simp: image_Un)
  qed simp
  from this [of state] show ?thesis
    using assms by (simp add: has_entry_def marked_def keys_of_def)
qed

end
