(* ===== verification/Fate_Window.thy ===== *)
theory Fate_Window
  imports Fate_Props
begin

text \<open>
  The cooldown of a throttled provider across a run of classified failures: it is never shortened.
\<close>

section \<open>The cooldown\<close>

text \<open>A stamp the code writes reads back as the aware moment it was written for.\<close>

definition stamps_aware :: "time_io \<Rightarrow> bool" where
  "stamps_aware io \<longleftrightarrow>
     (\<forall>t. ti_format io (whole_second t) \<noteq> [] \<and>
        ti_fromiso io (zulu (ti_format io (whole_second t))) = Some (Aware (whole_second t)))"

type_synonym failure_call = "int \<times> int \<times> failure_evidence \<times> json \<times> string"

primrec run_failures :: "time_io \<Rightarrow> failure_call list \<Rightarrow> json_dict \<Rightarrow> json_dict option" where
  "run_failures io [] state = Some state"
| "run_failures io (c # calls) state =
     (case c of (now, n, failure, adapter, source) \<Rightarrow>
        (case persist_failure io now state n failure adapter source of
           None \<Rightarrow> None
         | Some (state', evs) \<Rightarrow> run_failures io calls state'))"

definition window_text :: "json_dict \<Rightarrow> bool" where
  "window_text state \<longleftrightarrow> jget state ''throttled_until'' = JNull \<or> (\<exists>s. jget state ''throttled_until'' = JStr s)"

text \<open>The stored window ends at or after \<open>w\<close>.\<close>

definition reaches :: "time_io \<Rightarrow> json_dict \<Rightarrow> int \<Rightarrow> bool" where
  "reaches io state w \<longleftrightarrow>
     (\<exists>s e. jget state ''throttled_until'' = JStr s \<and> s \<noteq> [] \<and> ti_fromiso io (zulu s) = Some (Aware e) \<and> w \<le> e)"

lemma never_naive [simp]: "(\<forall>x. p \<noteq> Naive x) \<longleftrightarrow> (\<exists>e. p = Aware e)"
  by (cases p) auto

lemma reaches_throttled: "reaches io state w \<Longrightarrow> now < w \<Longrightarrow> is_throttled io now state = Some True"
  by (auto simp: reaches_def is_throttled_def)

lemma record_keeps_window [simp]:
  "jget (record_dead_worker_failure_kind state n kind at) ''throttled_until'' = jget state ''throttled_until''"
  by (auto simp: record_dead_worker_failure_kind_def Let_def split: json.split)

lemma is_throttled_cong:
  "jget s ''throttled_until'' = jget s' ''throttled_until'' \<Longrightarrow>
   is_throttled io now s = is_throttled io now s' \<and> reaches io s w = reaches io s' w \<and> window_text s = window_text s'"
  by (simp add: is_throttled_def reaches_def window_text_def)

lemma set_window:
  assumes "stamps_aware io" and "window_text state"
  shows "\<exists>state' evs. set_throttled_until io now state (ti_format io (whole_second u)) source reason adapter harness model =
      Some (state', evs) \<and> window_text state' \<and> reaches io state' (whole_second u) \<and>
      (\<forall>w. now < w \<longrightarrow> reaches io state w \<longrightarrow> reaches io state' w)"
proof -
  let ?until = "ti_format io (whole_second u)"
  have until: "?until \<noteq> []" "ti_fromiso io (zulu ?until) = Some (Aware (whole_second u))"
    using assms(1) by (simp_all add: stamps_aware_def)
  have "\<exists>b. is_throttled io now state = Some b"
    using assms(2) by (auto simp: window_text_def is_throttled_def)
  then obtain b where b: "is_throttled io now state = Some b"
    by blast
  then obtain longer where longer: "window_outlasts io now state ?until = Some longer"
    by (simp add: window_outlasts_def)
  show ?thesis
  proof (cases longer)
    case True
    then have "reaches io state (whole_second u)"
      using longer b until assms(2)
      by (auto simp: window_outlasts_def is_throttled_def reaches_def window_text_def split: option.splits pytime.splits)
    then show ?thesis
      using longer True assms(2) by (simp add: set_throttled_until_def)
  next
    case False
    let ?new = "jupdate state [(''throttled_until'', JStr ?until), (''throttle_reason'', reason),
      (''throttle_adapter_kind'', adapter), (''throttle_harness'', harness), (''throttle_model'', model)]"
    have field: "jget ?new ''throttled_until'' = JStr ?until"
      by (simp add: jupdate_def)
    have "reaches io ?new w" if "now < w" "reaches io state w" for w
    proof -
      have "w \<le> whole_second u"
        using that longer False b until reaches_throttled [OF that(2,1)]
        by (auto simp: window_outlasts_def reaches_def)
      then show ?thesis
        using field until by (auto simp: reaches_def)
    qed
    moreover have "window_text ?new" "reaches io ?new (whole_second u)"
      using field until by (auto simp: window_text_def reaches_def)
    ultimately show ?thesis
      using longer False by (auto simp: set_throttled_until_def Let_def)
  qed
qed

lemma persist_window:
  assumes "stamps_aware io" and "window_text state"
  shows "\<exists>state' evs. persist_failure io now state n failure adapter source = Some (state', evs) \<and> window_text state' \<and>
      (\<forall>u. fe_throttled_until failure = Some u \<longrightarrow> reaches io state' (whole_second u)) \<and>
      (\<forall>w. now < w \<longrightarrow> reaches io state w \<longrightarrow> reaches io state' w)"
proof -
  let ?stamp = "\<lambda>s. if fe_kind failure = JNull then s
    else record_dead_worker_failure_kind s n (fe_kind failure) (format_z io now)"
  have stamp: "window_text (?stamp s) = window_text s" "reaches io (?stamp s) w = reaches io s w" for s w
    using is_throttled_cong [of "?stamp s" s] by (simp_all split: if_splits)
  show ?thesis
  proof (cases "fe_throttled_until failure")
    case None
    then show ?thesis
      using assms(2) stamp by (simp add: persist_failure_def Let_def del: if_split) 
  next
    case (Some u)
    obtain s evs where "set_throttled_until io now state (ti_format io (whole_second u)) source (fe_kind failure) adapter
        (fe_harness failure) (fe_model failure) = Some (s, evs)" "window_text s" "reaches io s (whole_second u)"
      "\<forall>w. now < w \<longrightarrow> reaches io state w \<longrightarrow> reaches io s w"
      using set_window [OF assms] by blast
    then show ?thesis
      using Some stamp by (simp add: persist_failure_def Let_def)
  qed
qed

lemma failures_window:
  assumes "stamps_aware io" and "window_text state" and "sorted (map fst calls @ [now])"
    and "now < w" and "reaches io state w \<or>
      (\<exists>t n failure adapter source u. (t, n, failure, adapter, source) \<in> set calls \<and>
         fe_throttled_until failure = Some u \<and> w = whole_second u)"
  shows "\<exists>state'. run_failures io calls state = Some state' \<and> reaches io state' w"
  using assms
proof (induction calls arbitrary: state)
  case (Cons c calls)
  obtain t n failure adapter source where c: "c = (t, n, failure, adapter, source)"
    by (cases c)
  obtain state' evs where s: "persist_failure io t state n failure adapter source = Some (state', evs)" "window_text state'"
    "\<forall>u. fe_throttled_until failure = Some u \<longrightarrow> reaches io state' (whole_second u)"
    "\<forall>w. t < w \<longrightarrow> reaches io state w \<longrightarrow> reaches io state' w"
    using persist_window [OF Cons.prems(1,2)] by blast
  have "t \<le> now"
    using Cons.prems(3) c by simp
  have "reaches io state' w \<or>
      (\<exists>t n failure adapter source u. (t, n, failure, adapter, source) \<in> set calls \<and>
         fe_throttled_until failure = Some u \<and> w = whole_second u)"
    using Cons.prems(5)
  proof
    assume "reaches io state w"
    then show ?thesis
      using s(4) \<open>t \<le> now\<close> Cons.prems(4) by auto
  next
    assume "\<exists>t n failure adapter source u. (t, n, failure, adapter, source) \<in> set (c # calls) \<and>
       fe_throttled_until failure = Some u \<and> w = whole_second u"
    then obtain t' n' failure' adapter' source' u where call: "(t', n', failure', adapter', source') \<in> set (c # calls)"
      "fe_throttled_until failure' = Some u" "w = whole_second u"
      by blast
    show ?thesis
    proof (cases "(t', n', failure', adapter', source') = c")
      case True
      then show ?thesis
        using s(3) call(2,3) c by simp
    next
      case False
      then have "(t', n', failure', adapter', source') \<in> set calls"
        using call(1) by simp
      with call(2,3) show ?thesis
        by blast
    qed
  qed
  moreover have "sorted (map fst calls @ [now])"
    using Cons.prems(3) by simp
  ultimately show ?case
    using Cons.IH [OF Cons.prems(1) s(2) _ Cons.prems(4)] s(1) c by simp
qed simp

text \<open>
  A cooldown is never lost. However many classified failures are persisted, in the order of the
  clock, none of them raises on a window that is text or absent, and until the end that any of them
  asked for the state reads as throttled.
\<close>

theorem cooldown_is_kept:
  assumes "stamps_aware io" and "window_text state" and "sorted (map fst calls @ [now])"
    and "(t, n, failure, adapter, source) \<in> set calls"
    and "fe_throttled_until failure = Some until" and "now < whole_second until"
  shows "\<exists>state'. run_failures io calls state = Some state' \<and> is_throttled io now state' = Some True"
proof -
  have "\<exists>state'. run_failures io calls state = Some state' \<and> reaches io state' (whole_second until)"
    by (rule failures_window [OF assms(1-3) assms(6)]) (use assms(4,5) in blast)
  then show ?thesis
    using reaches_throttled assms(6) by blast
qed

end
