(* ===== verification/Fate_Examples.thy ===== *)
theory Fate_Examples
  imports Fate_Window
begin

text \<open>
  The properties of the fates at concrete evidence and states.
\<close>

section \<open>Examples\<close>

definition old_claim :: outcome_evidence where
  "old_claim = \<lparr> oe_source = From_worktree, oe_written_at = Some 50, oe_outcome = JStr ''completed'',
     oe_push_succeeded = JBool True, oe_pr_created = JNull, oe_head = JNull, oe_raw = [] \<rparr>"

definition left_behind :: "int option \<Rightarrow> int option \<Rightarrow> fate_evidence" where
  "left_behind unpushed open_pr =
     \<lparr> ev_issue = 7, ev_adapter = ''claude-code'', ev_dispatched_at = Some 100, ev_alive = False, ev_health = None,
       ev_terminal = Some \<lparr> te_ended_at = 200, te_exit = JInt 0, te_outcome = None \<rparr>,
       ev_worktree = Some old_claim,
       ev_branch = unknown_branch\<lparr> be_unpushed := unpushed, be_open_pr := open_pr \<rparr>, ev_failure = None \<rparr>"

lemmas left_behind_run = left_behind_def old_claim_def unknown_branch_def resolve_freshness_def terminal_outcome_def
  evaluate_candidate_def carries_no_claim_def dispatch_fresh_def head_fresh_def fresh_exit_def

lemma left_behind_fresh [simp]:
  "fo_outcome (resolve_freshness (left_behind unpushed open_pr)) = None"
  "fo_exit (resolve_freshness (left_behind unpushed open_pr)) = JInt 0"
  by (simp_all add: left_behind_run)

lemma left_behind_fields [simp]:
  "ev_branch (left_behind unpushed open_pr) = unknown_branch\<lparr> be_unpushed := unpushed, be_open_pr := open_pr \<rparr>"
  "ev_alive (left_behind unpushed open_pr) = False" "ev_failure (left_behind unpushed open_pr) = None"
  "ev_issue (left_behind unpushed open_pr) = 7"
  by (simp_all add: left_behind_def)

lemma left_behind_fate:
  "resolve_fate (left_behind (Some 2) open_pr) =
     Stranded (fate_basis_of (left_behind (Some 2) open_pr) (resolve_freshness (left_behind (Some 2) open_pr)) ''R3+R9'') 2 None"
  "resolve_fate (left_behind None (Some pr)) =
     Completed (fate_basis_of (left_behind None (Some pr)) (resolve_freshness (left_behind None (Some pr))) ''R4'') pr JNull"
  by (simp_all add: resolve_fate_def Let_def dead_rows_def completed_or_pushed_def throttled_by_def positive_def
      is_zero_def unknown_branch_def opt_json_def)

lemma left_behind_stale:
  "map (stale_evidence_key io) (fo_stale (resolve_freshness (left_behind unpushed open_pr))) =
     [''worktree:'' @ iso_text io 50]"
  by (simp add: left_behind_run stale_evidence_key_def)

theorem unproven_commits_are_stranded_witness:
  "\<exists>basis. resolve_fate (left_behind (Some 2) (Some 9)) = Stranded basis 2 None"
  using unproven_commits_are_stranded [of "left_behind (Some 2) (Some 9)" 2] by simp


text \<open>An outcome file of an earlier dispatch beside a fresh terminal record: it alone is ignored.\<close>

theorem stale_evidence_never_decides_witness:
  "map (\<lambda>e. (se_source e, se_written_at e)) (fb_stale (basis_of (resolve_fate (left_behind (Some 2) None)))) =
     [(From_worktree, Some 50)] \<and>
   forget_stale (resolve_fate (left_behind (Some 2) None)) =
     forget_stale (resolve_fate ((left_behind (Some 2) None)\<lparr> ev_worktree := None \<rparr>))"
proof -
  let ?ev = "left_behind (Some 2) None"
  have a: "after_dispatch (Some 200) ?ev" "\<not> current ?ev old_claim" "\<not> carries_no_claim old_claim"
    by (simp_all add: left_behind_def after_dispatch_def current_def old_claim_def carries_no_claim_def)
  have "ignored ?ev = [(From_worktree, Some 50)]"
    using a by (simp add: ignored_def left_behind_def terminal_outcome_def List.map_filter_def old_claim_def)
  moreover have "current_part ?ev = ?ev\<lparr> ev_worktree := None \<rparr>"
    using a by (simp add: current_part_def left_behind_def keep_current_def)
  ultimately show ?thesis
    using stale_evidence_never_decides [of ?ev] by simp
qed

definition marked_state :: json_dict where
  "marked_state = [(''issues'', JObj [(int_str 7, JObj [(''status'', JStr ''dispatched'')])])]"

theorem ignored_evidence_reported_once_witness:
  "event_key ` set (filter (\<lambda>e. event_issue e = 7) (report_all digit_io marked_state
      [[resolve_fate (left_behind (Some 2) None)], [resolve_fate (left_behind (Some 2) None)]])) =
   {''worktree:'' @ iso_text digit_io 50}"
proof -
  let ?fate = "resolve_fate (left_behind (Some 2) None)"
  have keys: "fb_issue (basis_of ?fate) = 7" "fate_keys digit_io ?fate = [''worktree:'' @ iso_text digit_io 50]"
    using left_behind_stale [of digit_io "Some 2" None]
    by (simp_all add: left_behind_fate fate_basis_of_def fate_keys_def)
  have "state_entry marked_state 7 = JObj [(''status'', JStr ''dispatched'')]"
    by (simp add: state_entry_def marked_state_def jget_def)
  from ignored_evidence_reported_once [OF this refl, of digit_io "[[?fate], [?fate]]"]
  show ?thesis
    using keys by (simp add: jget_def)
qed

lemma digit_io_aware: "stamps_aware digit_io"
proof -
  have "int_str i \<noteq> []" for i
    by (simp add: int_str_def nat_digits_nonempty)
  moreover have "t - t mod 1000000 = t div 1000000 * 1000000" for t :: int by (simp add: minus_mod_eq_div_mult)
  ultimately show ?thesis
    by (simp add: stamps_aware_def digit_io_def zulu_int_str read_int_str whole_second_def)
qed

definition quota_failure :: failure_evidence where
  "quota_failure = \<lparr> fe_kind = JStr ''quota_exhausted'', fe_throttled_until = Some 5000000, fe_fresh = True,
     fe_harness = JNull, fe_model = JNull \<rparr>"

theorem cooldown_is_kept_witness:
  "\<exists>state'. run_failures digit_io [(0, 7, quota_failure, JNull, ''sweep'')] marked_state = Some state' \<and>
     is_throttled digit_io 1 state' = Some True"
  using cooldown_is_kept [OF digit_io_aware, of marked_state "[(0, 7, quota_failure, JNull, ''sweep'')]" 1 0 7 quota_failure
      JNull "''sweep''" 5000000]
  by (simp add: quota_failure_def whole_second_def window_text_def marked_state_def jget_def)

end
