(* ===== verification/Dispatch_Select.thy ===== *)
theory Dispatch_Select
  imports Fate_Records
begin

text \<open>
  The selection of what is dispatched (\<^verbatim>\<open>dispatch_selection.py\<close>, \<^verbatim>\<open>no_op_checkpoint.py\<close>): issues for a
  worker, pull requests for a rework or a reviewer, and the windowed stamps the caps count. The state is
  the JSON object of \<^verbatim>\<open>state.json\<close>; an entry that is no object reads as an empty one.
\<close>

section \<open>Issues\<close>

record dispatch_issue =
  di_number :: int
  di_title :: string

text \<open>\<^verbatim>\<open>parse_issue_numbers\<close>; None is the ValueError of a part that is no number.\<close>

definition parse_issue_numbers :: "string \<Rightarrow> int list option" where
  "parse_issue_numbers s =
     those (map int_of_text (filter (\<lambda>p. p \<noteq> []) (split_on '','' (filter (\<lambda>c. c \<noteq> CHR '' '') s))))"

definition max_recovery_retry_per_pass :: int where
  "max_recovery_retry_per_pass = 1"

definition max_deferred_concurrency_examples :: int where
  "max_deferred_concurrency_examples = 5"

definition is_recovery_candidate :: "(dispatch_issue \<Rightarrow> string) \<Rightarrow> json_dict \<Rightarrow> dispatch_issue \<Rightarrow> bool" where
  "is_recovery_candidate branch_name state issue \<longleftrightarrow>
     (let entry = entry_dict (state_entry state (di_number issue))
      in jget entry ''status'' = JStr ''dispatched'' \<and> jget entry ''branch_name'' = JStr (branch_name issue))"

text \<open>The asked numbers in their order, of the last candidate with each number.\<close>

definition by_number :: "dispatch_issue list \<Rightarrow> int \<Rightarrow> dispatch_issue option" where
  "by_number candidates = map_of (rev (map (\<lambda>i. (di_number i, i)) candidates))"

definition asked_for :: "dispatch_issue list \<Rightarrow> int list \<Rightarrow> dispatch_issue list" where
  "asked_for candidates wanted = List.map_filter (by_number candidates) wanted"

text \<open>The loop over the asked issues, with what was selected and how many recoveries are left.\<close>

fun pick_in_order ::
  "(dispatch_issue \<Rightarrow> bool) \<Rightarrow> int \<Rightarrow> int \<Rightarrow> dispatch_issue list \<Rightarrow> dispatch_issue list \<Rightarrow> dispatch_issue list" where
  "pick_in_order recovery limit left [] selected = selected"
| "pick_in_order recovery limit left (i # issues) selected =
     (if limit \<le> int (length selected) then selected
      else if recovery i
      then (if 0 < left then pick_in_order recovery limit (left - 1) issues (selected @ [i])
            else pick_in_order recovery limit left issues selected)
      else pick_in_order recovery limit left issues (selected @ [i]))"

record dispatch_selection =
  ds_selected :: "dispatch_issue list"
  ds_skipped :: "int list"
  ds_deferred :: "int list"
  ds_deferred_count :: int

definition deferred_numbers :: "dispatch_issue list \<Rightarrow> dispatch_issue list \<Rightarrow> int list" where
  "deferred_numbers ordered selected =
     filter (\<lambda>n. n \<notin> di_number ` set selected) (map di_number ordered)"

definition ordered_candidates ::
  "dispatch_issue list \<Rightarrow> string option \<Rightarrow> (dispatch_issue list \<times> int list) option" where
  "ordered_candidates candidates only =
     (if \<not> truthy only then Some (candidates, [])
      else map_option (\<lambda>wanted.
             (asked_for candidates wanted,
              sort (remdups (filter (\<lambda>n. n \<notin> di_number ` set candidates) wanted))))
           (parse_issue_numbers (or_empty only)))"

definition recovery_cap :: "(dispatch_issue \<Rightarrow> bool) \<Rightarrow> dispatch_issue list \<Rightarrow> int \<Rightarrow> int" where
  "recovery_cap recovery ordered limit =
     min max_recovery_retry_per_pass (max 0 (limit - int (length (filter (\<lambda>i. \<not> recovery i) ordered))))"

definition select_dispatch_candidates ::
  "(dispatch_issue \<Rightarrow> string) \<Rightarrow> dispatch_issue list \<Rightarrow> int \<Rightarrow> json_dict \<Rightarrow> string option \<Rightarrow>
   dispatch_selection option" where
  "select_dispatch_candidates branch_name candidates limit state only =
     map_option (\<lambda>(ordered, skipped).
       let recovery = is_recovery_candidate branch_name state;
           cap = recovery_cap recovery ordered limit;
           selected = (if truthy only then pick_in_order recovery limit cap ordered []
                       else py_take limit (filter (\<lambda>i. \<not> recovery i) ordered) @
                            py_take cap (filter recovery ordered));
           deferred = deferred_numbers ordered selected
       in \<lparr> ds_selected = selected, ds_skipped = skipped, ds_deferred = deferred,
            ds_deferred_count = int (length deferred) \<rparr>)
     (ordered_candidates candidates only)"

record rework_selection =
  rs_selected :: "dispatch_issue list"
  rs_deferred_full :: "int list"
  rs_deferred :: "int list"
  rs_deferred_count :: int

definition select_rework_candidates ::
  "dispatch_issue list \<Rightarrow> int \<Rightarrow> string option \<Rightarrow> rework_selection option" where
  "select_rework_candidates candidates limit only =
     map_option (\<lambda>(ordered, skipped).
       let selected = py_take limit ordered; deferred = deferred_numbers ordered selected
       in \<lparr> rs_selected = selected, rs_deferred_full = deferred,
            rs_deferred = py_take max_deferred_concurrency_examples deferred,
            rs_deferred_count = int (length deferred) \<rparr>)
     (ordered_candidates candidates only)"

section \<open>Windowed stamps\<close>

text \<open>
  The stamps of a list that are inside the window. A stamp that does not parse is dropped; a naive one
  compares with the aware start of the window as a TypeError, which no reader of this module catches:
  None.
\<close>

fun windowed :: "iso_parser \<Rightarrow> pytime \<Rightarrow> json list \<Rightarrow> string list option" where
  "windowed fromiso start [] = Some []"
| "windowed fromiso start (v # vs) =
     (case v of
        JStr s \<Rightarrow>
          (case fromiso (zulu s) of
             None \<Rightarrow> windowed fromiso start vs
           | Some t \<Rightarrow>
               (case time_diff t start of
                  None \<Rightarrow> None
                | Some d \<Rightarrow> map_option (\<lambda>r. if 0 \<le> d then s # r else r) (windowed fromiso start vs)))
      | _ \<Rightarrow> windowed fromiso start vs)"

definition windowed_field :: "iso_parser \<Rightarrow> json_dict \<Rightarrow> string \<Rightarrow> pytime option \<Rightarrow> string list option" where
  "windowed_field fromiso entry field start =
     (case jget entry field of
        JList xs \<Rightarrow> (case start of None \<Rightarrow> None | Some t \<Rightarrow> windowed fromiso t xs)
      | _ \<Rightarrow> Some [])"

definition no_op_checkpoint :: "iso_parser \<Rightarrow> json_dict \<Rightarrow> pytime option" where
  "no_op_checkpoint fromiso entry =
     (case jget entry ''no_op_checkpoint_at'' of JStr s \<Rightarrow> fromiso (zulu s) | _ \<Rightarrow> None)"

text \<open>The start of the window; None where a naive checkpoint meets the aware clock.\<close>

definition no_op_window_start :: "iso_parser \<Rightarrow> json_dict \<Rightarrow> int \<Rightarrow> int \<Rightarrow> pytime option" where
  "no_op_window_start fromiso entry window_minutes now =
     (let start = Aware (now - minutes window_minutes)
      in case no_op_checkpoint fromiso entry of
           None \<Rightarrow> Some start
         | Some t \<Rightarrow>
             (case time_diff t start of None \<Rightarrow> None | Some d \<Rightarrow> Some (if 0 < d then t else start)))"

definition windowed_redispatch_at :: "iso_parser \<Rightarrow> json_dict \<Rightarrow> int \<Rightarrow> int \<Rightarrow> string list option" where
  "windowed_redispatch_at fromiso entry window_minutes now =
     windowed_field fromiso entry ''redispatch_at'' (no_op_window_start fromiso entry window_minutes now)"

definition windowed_worker_death_at :: "iso_parser \<Rightarrow> json_dict \<Rightarrow> int \<Rightarrow> int \<Rightarrow> string list option" where
  "windowed_worker_death_at fromiso entry window_minutes now =
     windowed_field fromiso entry ''worker_death_at'' (no_op_window_start fromiso entry window_minutes now)"

definition windowed_blocked_environment_at :: "iso_parser \<Rightarrow> json_dict \<Rightarrow> int \<Rightarrow> int \<Rightarrow> string list option" where
  "windowed_blocked_environment_at fromiso entry window_minutes now =
     windowed_field fromiso entry ''blocked_environment_at'' (Some (Aware (now - minutes window_minutes)))"

definition windowed_foreign_writer_reaps :: "iso_parser \<Rightarrow> json_dict \<Rightarrow> int \<Rightarrow> int \<Rightarrow> string list option" where
  "windowed_foreign_writer_reaps fromiso entry window_minutes now =
     windowed_field fromiso entry ''foreign_writer_reaps'' (Some (Aware (now - minutes window_minutes)))"

definition windowed_orphan_redispatches :: "iso_parser \<Rightarrow> json_dict \<Rightarrow> int \<Rightarrow> int \<Rightarrow> string list option" where
  "windowed_orphan_redispatches fromiso entry window_minutes now =
     windowed_field fromiso entry ''orphan_redispatch_at'' (Some (Aware (now - minutes window_minutes)))"

definition normalized_timestamps :: "iso_parser \<Rightarrow> json \<Rightarrow> string list" where
  "normalized_timestamps fromiso raw =
     (case raw of
        JList xs \<Rightarrow> List.map_filter (\<lambda>v. case v of
            JStr s \<Rightarrow> if fromiso (zulu s) = None then None else Some s | _ \<Rightarrow> None) xs
      | _ \<Rightarrow> [])"

definition paired_death_count :: "string list \<Rightarrow> string list \<Rightarrow> nat" where
  "paired_death_count redispatches deaths = min (length deaths) (length redispatches)"

text \<open>\<^verbatim>\<open>_credit_worker_death\<close>: the new history, and the entry with the kind of this death.\<close>

definition credit_worker_death ::
  "time_io \<Rightarrow> json_dict \<Rightarrow> string option \<Rightarrow> json \<Rightarrow> int \<Rightarrow> string list \<times> json_dict" where
  "credit_worker_death io entry at kind now =
     (let stamp = (case at of Some s \<Rightarrow> s | None \<Rightarrow> ti_format io now);
          kinds = (case jget entry ''worker_death_failure_kinds'' of JObj d \<Rightarrow> d | _ \<Rightarrow> [])
      in (normalized_timestamps (ti_fromiso io) (jget entry ''worker_death_at'') @ [stamp],
          jput entry ''worker_death_failure_kinds'' (JObj (jput kinds stamp kind))))"

section \<open>Reviews\<close>

record review_candidate =
  rc_pr :: int
  rc_issue :: "int option"
  rc_mergeable :: "string option"
  rc_merge_state :: "string option"

record local_review_cap =
  lr_clamped :: bool
  lr_max :: int
  lr_live :: int
  lr_available :: int
  lr_limit :: int

definition apply_local_review_cap :: "int \<Rightarrow> int \<Rightarrow> int \<Rightarrow> local_review_cap" where
  "apply_local_review_cap limit max_local live =
     (if max_local \<le> 0
      then \<lparr> lr_clamped = False, lr_max = 0, lr_live = live, lr_available = limit, lr_limit = limit \<rparr>
      else (let available = max 0 (max_local - live)
            in \<lparr> lr_clamped = (available < limit), lr_max = max_local, lr_live = live,
                 lr_available = available, lr_limit = min limit available \<rparr>))"

text \<open>\<^verbatim>\<open>int(d.get(k, 0))\<close>; a stored value that is no number raises.\<close>

definition counter :: "json_dict \<Rightarrow> string \<Rightarrow> int option" where
  "counter d k =
     (case map_of d k of
        None \<Rightarrow> Some 0
      | Some (JStr s) \<Rightarrow> int_of_text s
      | Some v \<Rightarrow> if v \<in> {JNull, JList [], JObj []} then None else int_or_zero v)"

definition stale_claim_minutes :: int where
  "stale_claim_minutes = 5"

definition dead_claim_backstop_minutes :: int where
  "dead_claim_backstop_minutes = stale_claim_minutes * 3"

text \<open>\<^verbatim>\<open>at is None or is_claim_stale(at, \<dots>)\<close>; a truthy claim that is no text raises.\<close>

definition claim_free :: "iso_parser \<Rightarrow> json \<Rightarrow> int \<Rightarrow> int \<Rightarrow> bool option" where
  "claim_free fromiso at timeout now =
     (case at of
        JNull \<Rightarrow> Some True
      | JStr s \<Rightarrow> Some (is_claim_stale fromiso (Some s) timeout (Aware now))
      | v \<Rightarrow> if json_true v then None else Some False)"

record review_limits =
  rl_max_attempts :: int
  rl_max_turn_limit_misses :: int
  rl_max_local :: int
  rl_max_concurrent :: int

definition pr_entry :: "json_dict \<Rightarrow> int \<Rightarrow> json_dict" where
  "pr_entry state pr = entry_dict (jget (entry_dict (jget state ''prs'')) (int_str pr))"

text \<open>\<^verbatim>\<open>_is_review_dispatchable\<close>; \<open>alive\<close> is the probe of the reviewer's process.\<close>

definition is_review_dispatchable ::
  "iso_parser \<Rightarrow> (json_dict \<Rightarrow> bool) \<Rightarrow> json_dict \<Rightarrow> int \<Rightarrow> review_limits \<Rightarrow> int \<Rightarrow> bool option" where
  "is_review_dispatchable fromiso alive state pr limits now =
     (let d = pr_entry state pr; status = jget d ''review_dispatch_status''
      in case counter d ''review_dispatch_attempt_count'' of
           None \<Rightarrow> None
         | Some attempts \<Rightarrow>
             if rl_max_attempts limits \<le> attempts then Some False
             else (case (if 0 < rl_max_turn_limit_misses limits
                         then map_option (\<lambda>n. rl_max_turn_limit_misses limits \<le> n)
                                (counter d ''review_turn_limit_miss_streak'')
                         else Some False) of
                     None \<Rightarrow> None
                   | Some True \<Rightarrow> Some False
                   | Some False \<Rightarrow>
                       if status = JStr ''review_dispatch_pending''
                       then claim_free fromiso (jget d ''review_dispatch_pending_at'') stale_claim_minutes now
                       else if status = JStr ''review_dispatch_dispatched''
                       then (if alive d then Some False
                             else claim_free fromiso (jget d ''review_dispatched_at'') dead_claim_backstop_minutes now)
                       else if status = JStr ''review_dispatch_failed''
                       then claim_free fromiso (jget d ''review_dispatch_failed_at'') stale_claim_minutes now
                       else Some True))"

definition is_escalated_candidate :: "time_io \<Rightarrow> json_dict \<Rightarrow> review_candidate \<Rightarrow> bool" where
  "is_escalated_candidate io state c \<longleftrightarrow>
     (let d = pr_entry state (rc_pr c);
          issue = (if json_true (jget d ''issue_number'') then jget d ''issue_number'' else opt_int_json (rc_issue c));
          issue_entry = (if issue = JNull then []
                         else entry_dict (jget (entry_dict (jget state ''issues'')) (json_str io issue)))
      in jget d ''status'' = JStr ''escalated'' \<or> jget issue_entry ''status'' = JStr ''escalated'')"

definition is_conflicting :: "review_candidate \<Rightarrow> bool" where
  "is_conflicting c \<longleftrightarrow>
     upper (or_empty (rc_mergeable c)) = ''CONFLICTING'' \<or> upper (or_empty (rc_merge_state c)) = ''DIRTY''"

definition under_review :: "(json_dict \<Rightarrow> bool) \<Rightarrow> json_dict \<Rightarrow> int \<Rightarrow> bool" where
  "under_review alive state pr \<longleftrightarrow>
     jget (pr_entry state pr) ''review_dispatch_status'' = JStr ''review_dispatch_dispatched'' \<and>
     alive (pr_entry state pr)"

record review_selection =
  sel_escalated :: "int list"
  sel_conflicts :: "review_candidate list"
  sel_dispatchable :: "review_candidate list"
  sel_local_cap :: local_review_cap
  sel_limit :: int
  sel_selected :: "review_candidate list"
  sel_fleet_clamped :: bool

text \<open>The candidates that pass a test that may raise.\<close>

fun filter_maybe :: "('a \<Rightarrow> bool option) \<Rightarrow> 'a list \<Rightarrow> 'a list option" where
  "filter_maybe p [] = Some []"
| "filter_maybe p (x # xs) =
     (case p x of
        None \<Rightarrow> None
      | Some b \<Rightarrow> map_option (\<lambda>r. if b then x # r else r) (filter_maybe p xs))"

text \<open>\<open>fleet\<close> is the room left under the fleet's cap, None where the cap is off.\<close>

definition review_limit ::
  "review_limits \<Rightarrow> int \<Rightarrow> int \<Rightarrow> int option \<Rightarrow> bool \<Rightarrow> local_review_cap \<times> int \<times> bool" where
  "review_limit limits requested live fleet probe =
     (let lr = apply_local_review_cap requested (rl_max_local limits) live;
          cap = (if 0 < rl_max_concurrent limits
                 then min (lr_limit lr) (max 0 (rl_max_concurrent limits - live)) else lr_limit lr);
          clamped = (case fleet of None \<Rightarrow> False | Some room \<Rightarrow> room < cap);
          capped = (if clamped then the fleet else cap)
      in (lr, if probe then 1 else capped, clamped \<and> \<not> probe))"

definition select_review_dispatch_candidates ::
  "time_io \<Rightarrow> (json_dict \<Rightarrow> bool) \<Rightarrow> review_candidate list \<Rightarrow> json_dict \<Rightarrow> review_limits \<Rightarrow> int \<Rightarrow> int \<Rightarrow>
   int option \<Rightarrow> bool \<Rightarrow> int option \<Rightarrow> review_selection option" where
  "select_review_dispatch_candidates io alive candidates state limits live now limit probe fleet =
     (let escalated = map rc_pr (filter (is_escalated_candidate io state) candidates);
          conflicts = filter (\<lambda>c. \<not> is_escalated_candidate io state c \<and> is_conflicting c \<and>
                                  \<not> under_review alive state (rc_pr c)) candidates;
          open_ones = filter (\<lambda>c. rc_pr c \<notin> set escalated \<and> rc_pr c \<notin> rc_pr ` set conflicts) candidates
      in map_option (\<lambda>dispatchable.
           case review_limit limits (case limit of None \<Rightarrow> int (length dispatchable) | Some n \<Rightarrow> n) live fleet probe of
             (lr, n, clamped) \<Rightarrow>
               \<lparr> sel_escalated = escalated, sel_conflicts = conflicts, sel_dispatchable = dispatchable,
                 sel_local_cap = lr, sel_limit = n, sel_selected = py_take n dispatchable,
                 sel_fleet_clamped = clamped \<rparr>)
         (filter_maybe (\<lambda>c. is_review_dispatchable (ti_fromiso io) alive state (rc_pr c) limits now) open_ones))"

end
