(* ===== verification/Dispatch_Props.thy ===== *)
theory Dispatch_Props
  imports Dispatch_Select Digit_Clock
begin

text \<open>
  The bounds of a dispatch selection and of a review selection, and the two copies of the window over the
  orphan redispatches.
\<close>

section \<open>Issues\<close>

lemma pick_in_order_run:
  assumes "0 \<le> left" and "int (length acc) \<le> limit"
  shows "\<exists>picked. pick_in_order recovery limit left issues acc = acc @ picked \<and> set picked \<subseteq> set issues \<and>
    int (length (acc @ picked)) \<le> limit \<and> int (length (filter recovery picked)) \<le> left \<and>
    ((\<exists>i \<in> set issues. \<not> recovery i \<and> i \<notin> set picked) \<longrightarrow> int (length (acc @ picked)) = limit)"
  using assms
proof (induction issues arbitrary: left acc)
  case (Cons i issues)
  show ?case
  proof (cases "limit \<le> int (length acc)")
    case True
    then show ?thesis
      using Cons.prems by (intro exI [of _ "[]"]) simp
  next
    case False
    then have room: "int (length (acc @ [i])) \<le> limit"
      by simp
    show ?thesis
    proof (cases "recovery i \<and> left \<le> 0")
      case True
      then obtain picked where "pick_in_order recovery limit left issues acc = acc @ picked" "set picked \<subseteq> set issues"
        "int (length (acc @ picked)) \<le> limit" "int (length (filter recovery picked)) \<le> left"
        "(\<exists>i \<in> set issues. \<not> recovery i \<and> i \<notin> set picked) \<longrightarrow> int (length (acc @ picked)) = limit"
        using Cons.IH [OF Cons.prems] by blast
      with True False show ?thesis
        by (intro exI [of _ picked]) auto
    next
      case take: False
      let ?left = "if recovery i then left - 1 else left"
      have "0 \<le> ?left"
        using take Cons.prems(1) by auto
      then obtain picked where "pick_in_order recovery limit ?left issues (acc @ [i]) = (acc @ [i]) @ picked"
        "set picked \<subseteq> set issues" "int (length ((acc @ [i]) @ picked)) \<le> limit"
        "int (length (filter recovery picked)) \<le> ?left"
        "(\<exists>i' \<in> set issues. \<not> recovery i' \<and> i' \<notin> set picked) \<longrightarrow> int (length ((acc @ [i]) @ picked)) = limit"
        using Cons.IH [OF _ room, of ?left] by blast
      with take False show ?thesis
        by (intro exI [of _ "i # picked"]) (auto split: if_splits)
    qed
  qed
qed simp

lemma pick_all_fresh:
  assumes "0 \<le> left" and "int (length acc) + int (length (filter (\<lambda>i. \<not> recovery i) issues)) + left \<le> limit"
    and "i \<in> set issues" and "\<not> recovery i"
  shows "i \<in> set (pick_in_order recovery limit left issues acc)"
  using assms
proof (induction issues arbitrary: left acc)
  case (Cons x issues)
  have kept: "y \<in> set (pick_in_order recovery limit left' issues acc')" if "y \<in> set acc'" "0 \<le> left'" 
      "int (length acc') \<le> limit" for y left' acc'
    using pick_in_order_run [OF that(2,3), of recovery issues] that(1) by auto
  show ?case
  proof (cases "recovery x")
    case True
    then have "i \<in> set issues" "i \<noteq> x"
      using Cons.prems by auto
    moreover have "\<not> limit \<le> int (length acc)"
    proof -
      have "i \<in> set (filter (\<lambda>i. \<not> recovery i) issues)"
        using \<open>i \<in> set issues\<close> Cons.prems(4) by simp
      then have "0 < length (filter (\<lambda>i. \<not> recovery i) issues)"
        by (metis length_pos_if_in_set)
      then show ?thesis
        using Cons.prems(1,2) True by (simp del: length_greater_0_conv)
    qed
    ultimately have room: "i \<in> set issues" "\<not> limit \<le> int (length acc)"
      by simp_all
    show ?thesis
    proof (cases "0 < left")
      case left: True
      have "i \<in> set (pick_in_order recovery limit (left - 1) issues (acc @ [x]))"
        by (rule Cons.IH) (use Cons.prems True left room in simp_all)
      with True left room show ?thesis
        by simp
    next
      case left: False
      have "i \<in> set (pick_in_order recovery limit left issues acc)"
        by (rule Cons.IH) (use Cons.prems True room in simp_all)
      with True left room show ?thesis
        by simp
    qed
  next
    case False
    then have "\<not> limit \<le> int (length acc)"
      using Cons.prems(1,2) by simp
    then show ?thesis
      using False Cons.prems Cons.IH [of left "acc @ [x]"] kept [of x "acc @ [x]" left] by auto
  qed
qed simp

lemma take_all_or_full:
  "x \<in> set xs \<Longrightarrow> x \<notin> set (take n xs) \<Longrightarrow> length (take n xs) = n"
  by (metis length_take min_def nat_le_linear take_all)

text \<open>
  C15. A dispatch selection keeps its bounds. With a limit that is not negative it selects candidates
  only, at most the limit, at most one retry of an earlier dispatch, and a retry only when every fresh
  candidate is selected; a fresh candidate is left out only when the limit is used up. What it defers is
  what it left out, on the automatic path and for issues asked for by number.
\<close>

theorem dispatch_selection_bounded:
  assumes "select_dispatch_candidates branch_name candidates limit state only = Some s" and "0 \<le> limit"
    and "ordered_candidates candidates only = Some (ordered, skipped)"
    and "recovery = is_recovery_candidate branch_name state"
  shows "int (length (ds_selected s)) \<le> limit \<and> set (ds_selected s) \<subseteq> set ordered \<and>
    length (filter recovery (ds_selected s)) \<le> 1 \<and>
    ((\<exists>i \<in> set (ds_selected s). recovery i) \<longrightarrow> (\<forall>i \<in> set ordered. \<not> recovery i \<longrightarrow> i \<in> set (ds_selected s))) \<and>
    ((\<exists>i \<in> set ordered. \<not> recovery i \<and> i \<notin> set (ds_selected s)) \<longrightarrow> int (length (ds_selected s)) = limit) \<and>
    set (ds_deferred s) = di_number ` set ordered - di_number ` set (ds_selected s)"
proof -
  let ?fresh = "filter (\<lambda>i. \<not> recovery i) ordered" and ?cap = "recovery_cap recovery ordered limit"
  have cap: "0 \<le> ?cap" "?cap \<le> 1" "0 < ?cap \<Longrightarrow> int (length ?fresh) + ?cap \<le> limit"
    by (auto simp: recovery_cap_def max_recovery_retry_per_pass_def)
  have result: "ds_selected s = (if truthy only then pick_in_order recovery limit ?cap ordered []
      else py_take limit ?fresh @ py_take ?cap (filter recovery ordered))"
    "ds_deferred s = deferred_numbers ordered (ds_selected s)"
    using assms(1,3) unfolding assms(4) by (auto simp: select_dispatch_candidates_def Let_def)
  have deferred: "set (ds_deferred s) = di_number ` set ordered - di_number ` set (ds_selected s)"
    unfolding result(2) deferred_numbers_def by auto
  show ?thesis
  proof (cases "truthy only")
    case True
    then obtain picked where p: "ds_selected s = picked" "set picked \<subseteq> set ordered" "int (length picked) \<le> limit"
      "int (length (filter recovery picked)) \<le> ?cap"
      "(\<exists>i \<in> set ordered. \<not> recovery i \<and> i \<notin> set picked) \<longrightarrow> int (length picked) = limit"
      using pick_in_order_run [OF cap(1), of "[]" limit recovery ordered] assms(2) result(1) by auto
    have "i \<in> set picked" if "r \<in> set picked" "recovery r" "i \<in> set ordered" "\<not> recovery i" for r i
    proof -
      have "r \<in> set (filter recovery picked)"
        using that by simp
      then have "0 < length (filter recovery picked)"
        by (metis length_pos_if_in_set)
      then have "0 < ?cap"
        using p(4) by linarith
      then show ?thesis
        using pick_all_fresh [OF cap(1), of "[]" recovery ordered limit i] cap(3) that(3,4) p(1) result(1) True by simp
    qed
    then show ?thesis
      using p cap(2) deferred by auto
  next
    case False
    let ?r = "filter recovery ordered"
    have sel: "ds_selected s = take (nat limit) ?fresh @ take (nat ?cap) ?r"
      using result(1) False assms(2) cap(1) by simp
    have full: "int (length (ds_selected s)) = limit" if "i \<in> set ?fresh" "i \<notin> set (take (nat limit) ?fresh)" for i
    proof -
      have "length (take (nat limit) ?fresh) = nat limit"
        using take_all_or_full that by fast
      moreover have "length (take (nat limit) ?fresh) \<le> length ?fresh"
        by simp
      ultimately have "limit \<le> int (length ?fresh)"
        using assms(2) by linarith
      then have "?cap = 0"
        using cap by linarith
      with \<open>length (take (nat limit) ?fresh) = nat limit\<close> show ?thesis
        using sel assms(2) by simp
    qed
    have all: "take (nat limit) ?fresh = ?fresh" if "0 < ?cap"
      using cap(3) [OF that] that by (intro take_all) simp
    have one: "length (filter recovery (ds_selected s)) \<le> 1"
    proof -
      have none: "filter recovery (take (nat limit) ?fresh) = []"
        by (auto simp: filter_empty_conv dest: in_set_takeD)
      have "length (filter recovery (take (nat ?cap) ?r)) \<le> length (take (nat ?cap) ?r)"
        by (rule length_filter_le)
      moreover have "length (take (nat ?cap) ?r) \<le> 1"
        using cap(2) by simp
      ultimately have "length (filter recovery (take (nat ?cap) ?r)) \<le> 1"
        by (rule order_trans)
      with none show ?thesis
        unfolding sel filter_append by simp
    qed
    have bound: "int (length (ds_selected s)) \<le> limit"
    proof (cases "0 < ?cap")
      case True
      then show ?thesis
        using sel all cap(3) by simp
    next
      case False
      then show ?thesis
        using sel assms(2) by simp
    qed
    have some: "\<forall>i \<in> set ordered. \<not> recovery i \<longrightarrow> i \<in> set (ds_selected s)" if "r \<in> set (ds_selected s)" "recovery r" for r
    proof -
      have "r \<in> set (take (nat ?cap) ?r)"
        using that sel by (auto dest: in_set_takeD)
      then have "0 < ?cap"
        by (cases "0 < ?cap") auto
      then show ?thesis
        using all sel by simp
    qed
    have "set (ds_selected s) \<subseteq> set ordered"
      using sel by (auto dest: in_set_takeD)
    with full one bound some deferred show ?thesis
      using sel by auto
  qed
qed

section \<open>Reviews\<close>

lemma filter_maybe_set: "filter_maybe p xs = Some ys \<Longrightarrow> set ys = {x \<in> set xs. p x = Some True}"
  by (induction xs arbitrary: ys) (auto split: option.splits if_splits)

lemma dispatchable_not_reviewed:
  "is_review_dispatchable fromiso alive state pr limits now = Some True \<Longrightarrow>
   \<not> under_review alive state pr \<and>
   (\<exists>n. counter (pr_entry state pr) ''review_dispatch_attempt_count'' = Some n \<and> n < rl_max_attempts limits)"
  by (auto simp: is_review_dispatchable_def Let_def under_review_def split: option.splits bool.splits if_splits)

lemma review_limit_bounds:
  assumes "review_limit limits requested live fleet False = (lr, n, clamped)" and "0 \<le> requested"
    and "\<forall>room. fleet = Some room \<longrightarrow> 0 \<le> room"
  shows "0 \<le> n \<and> n \<le> requested \<and> (0 < rl_max_local limits \<longrightarrow> n \<le> max 0 (rl_max_local limits - live)) \<and>
    (0 < rl_max_concurrent limits \<longrightarrow> n \<le> max 0 (rl_max_concurrent limits - live)) \<and>
    (\<forall>room. fleet = Some room \<longrightarrow> n \<le> room)"
proof -
  let ?loc = "lr_limit (apply_local_review_cap requested (rl_max_local limits) live)"
  let ?cap = "if 0 < rl_max_concurrent limits then min ?loc (max 0 (rl_max_concurrent limits - live)) else ?loc"
  have loc: "0 \<le> ?loc" "?loc \<le> requested" "0 < rl_max_local limits \<Longrightarrow> ?loc \<le> max 0 (rl_max_local limits - live)"
    using assms(2) by (simp_all add: apply_local_review_cap_def Let_def)
  obtain cap where cap: "cap = ?cap"
    by simp
  then have bounds: "0 \<le> cap" "cap \<le> ?loc" "0 < rl_max_concurrent limits \<Longrightarrow> cap \<le> max 0 (rl_max_concurrent limits - live)"
    using loc(1) by simp_all
  have n: "n = (case fleet of None \<Rightarrow> cap | Some room \<Rightarrow> if room < cap then room else cap)"
    using assms(1) unfolding review_limit_def Let_def cap [symmetric] by (cases fleet) (auto split: if_splits)
  have "0 \<le> n \<and> n \<le> cap \<and> (\<forall>room. fleet = Some room \<longrightarrow> n \<le> room)"
    using bounds(1) assms(3) by (cases fleet) (simp_all add: n)
  with loc bounds show ?thesis
    by (meson order_trans)
qed

text \<open>
  C16. A reviewer is dispatched only where one is due and only within the caps: a selected pull request is
  a candidate below its attempt cap, not escalated, not in conflict and without a live reviewer, and a
  pass that is no probe, with a limit that is not negative, selects no more than the limit and than the
  room left under the local cap, the repository's cap and the fleet's.
\<close>

theorem review_selection_bounded:
  assumes "select_review_dispatch_candidates io alive candidates state limits live now limit probe fleet = Some s"
  shows "(\<forall>c \<in> set (sel_selected s). c \<in> set candidates \<and> \<not> is_escalated_candidate io state c \<and> \<not> is_conflicting c \<and>
      \<not> under_review alive state (rc_pr c) \<and>
      (\<exists>n. counter (pr_entry state (rc_pr c)) ''review_dispatch_attempt_count'' = Some n \<and> n < rl_max_attempts limits)) \<and>
    (\<not> probe \<longrightarrow> (\<forall>n. limit = Some n \<longrightarrow> 0 \<le> n) \<longrightarrow> (\<forall>room. fleet = Some room \<longrightarrow> 0 \<le> room) \<longrightarrow>
      (\<forall>n. limit = Some n \<longrightarrow> int (length (sel_selected s)) \<le> n) \<and>
      (0 < rl_max_local limits \<longrightarrow> int (length (sel_selected s)) \<le> max 0 (rl_max_local limits - live)) \<and>
      (0 < rl_max_concurrent limits \<longrightarrow> int (length (sel_selected s)) \<le> max 0 (rl_max_concurrent limits - live)) \<and>
      (\<forall>room. fleet = Some room \<longrightarrow> int (length (sel_selected s)) \<le> room))"
proof -
  let ?esc = "map rc_pr (filter (is_escalated_candidate io state) candidates)"
  let ?con = "filter (\<lambda>c. \<not> is_escalated_candidate io state c \<and> is_conflicting c \<and> \<not> under_review alive state (rc_pr c)) candidates"
  let ?open = "filter (\<lambda>c. rc_pr c \<notin> set ?esc \<and> rc_pr c \<notin> rc_pr ` set ?con) candidates"
  obtain dispatchable lr n clamped where
    d: "filter_maybe (\<lambda>c. is_review_dispatchable (ti_fromiso io) alive state (rc_pr c) limits now) ?open = Some dispatchable"
      "review_limit limits (case limit of None \<Rightarrow> int (length dispatchable) | Some n \<Rightarrow> n) live fleet probe = (lr, n, clamped)"
      "sel_selected s = py_take n dispatchable"
  proof -
    obtain dispatchable where f:
      "filter_maybe (\<lambda>c. is_review_dispatchable (ti_fromiso io) alive state (rc_pr c) limits now) ?open = Some dispatchable"
      using assms unfolding select_review_dispatch_candidates_def Let_def by (blast elim: map_option_eq_Some [THEN iffD1, elim_format])
    obtain lr n clamped where r:
      "review_limit limits (case limit of None \<Rightarrow> int (length dispatchable) | Some n \<Rightarrow> n) live fleet probe = (lr, n, clamped)"
      by (metis prod_cases3)
    have "sel_selected s = py_take n dispatchable"
      using assms unfolding select_review_dispatch_candidates_def Let_def f by (auto simp: r)
    with f r that show ?thesis
      by blast
  qed
  have "c \<in> set candidates \<and> \<not> is_escalated_candidate io state c \<and> \<not> is_conflicting c \<and>
      \<not> under_review alive state (rc_pr c) \<and>
      (\<exists>n. counter (pr_entry state (rc_pr c)) ''review_dispatch_attempt_count'' = Some n \<and> n < rl_max_attempts limits)"
    if "c \<in> set (sel_selected s)" for c
  proof -
    have "c \<in> set dispatchable"
      using that set_py_take unfolding d(3) by fast
    then have "c \<in> set ?open" "is_review_dispatchable (ti_fromiso io) alive state (rc_pr c) limits now = Some True"
      using filter_maybe_set [OF d(1)] by auto
    then show ?thesis
      using dispatchable_not_reviewed by fastforce
  qed
  moreover have "(\<forall>m. limit = Some m \<longrightarrow> int (length (sel_selected s)) \<le> m) \<and>
      (0 < rl_max_local limits \<longrightarrow> int (length (sel_selected s)) \<le> max 0 (rl_max_local limits - live)) \<and>
      (0 < rl_max_concurrent limits \<longrightarrow> int (length (sel_selected s)) \<le> max 0 (rl_max_concurrent limits - live)) \<and>
      (\<forall>room. fleet = Some room \<longrightarrow> int (length (sel_selected s)) \<le> room)"
    if "\<not> probe" "\<forall>n. limit = Some n \<longrightarrow> 0 \<le> n" "\<forall>room. fleet = Some room \<longrightarrow> 0 \<le> room"
  proof -
    let ?req = "case limit of None \<Rightarrow> int (length dispatchable) | Some n \<Rightarrow> n"
    have "0 \<le> ?req"
      using that(2) by (simp split: option.split)
    then have n: "0 \<le> n \<and> n \<le> ?req \<and> (0 < rl_max_local limits \<longrightarrow> n \<le> max 0 (rl_max_local limits - live)) \<and>
        (0 < rl_max_concurrent limits \<longrightarrow> n \<le> max 0 (rl_max_concurrent limits - live)) \<and>
        (\<forall>room. fleet = Some room \<longrightarrow> n \<le> room)"
      using review_limit_bounds [OF _ _ that(3), of limits ?req live lr n clamped] d(2) that(1)
      by (metis (full_types))
    then have "int (length (sel_selected s)) \<le> n"
      unfolding d(3) by (simp only: py_take_nonneg length_take) linarith
    with n show ?thesis
      by (auto split: option.splits)
  qed
  ultimately show ?thesis
    by blast
qed

text \<open>A negative limit is no bound: it leaves the last candidate out and ignores the caps.\<close>

lemma negative_limit_ignores_the_caps:
  "review_limit \<lparr> rl_max_attempts = 3, rl_max_turn_limit_misses = 0, rl_max_local = 1, rl_max_concurrent = 1 \<rparr>
     (-1) 1 (Some 0) False = (apply_local_review_cap (-1) 1 1, -1, False)"
  "py_take (-1) [a, b, c] = [a, b]"
  by (simp_all add: review_limit_def apply_local_review_cap_def Let_def py_take_def)

section \<open>Windows\<close>

lemma windowed_in_window:
  "windowed fromiso (Aware start) xs = Some r \<Longrightarrow> List.map_filter (in_window fromiso start) xs = r"
proof (induction xs arbitrary: r)
  case (Cons v vs)
  then show ?case
    by (cases v) (auto simp: in_window_def map_filter_simps split: option.splits pytime.splits if_splits)
qed (simp add: map_filter_simps)

text \<open>
  The sweep's copy of the window over the orphan redispatches agrees with the original: wherever the
  reader of the dispatch selection returns, the sweep's returns the same stamps. The original raises on
  a naive stamp, which the copy drops.
\<close>

theorem window_copies_agree:
  assumes "windowed_orphan_redispatches fromiso entry window_minutes now = Some stamps"
  shows "windowed_orphan_redispatch_at fromiso entry window_minutes now = stamps"
  using assms windowed_in_window
  by (auto simp: windowed_orphan_redispatches_def windowed_field_def windowed_orphan_redispatch_at_def split: json.splits)

section \<open>Examples\<close>

definition three_issues :: "dispatch_issue list" where
  "three_issues = [\<lparr> di_number = 7, di_title = ''a'' \<rparr>, \<lparr> di_number = 8, di_title = ''b'' \<rparr>, \<lparr> di_number = 9, di_title = ''c'' \<rparr>]"

definition one_dispatched :: json_dict where
  "one_dispatched = [(''issues'', JObj [(int_str 7, JObj [(''status'', JStr ''dispatched''), (''branch_name'', JStr ''x'')])])]"

lemma three_issues_recovery:
  "is_recovery_candidate (\<lambda>_. ''x'') one_dispatched i \<longleftrightarrow> di_number i = 7"
  by (simp add: is_recovery_candidate_def one_dispatched_def state_entry_def entry_dict.simps jget_def Let_def int_str_eq_iff)

theorem dispatch_selection_bounded_witness:
  "ds_selected (the (select_dispatch_candidates (\<lambda>_. ''x'') three_issues 2 one_dispatched None)) \<noteq> [] \<and>
   int (length (ds_selected (the (select_dispatch_candidates (\<lambda>_. ''x'') three_issues 2 one_dispatched None)))) \<le> 2"
proof -
  have run: "select_dispatch_candidates (\<lambda>_. ''x'') three_issues 2 one_dispatched None =
    Some \<lparr> ds_selected = [\<lparr> di_number = 8, di_title = ''b'' \<rparr>, \<lparr> di_number = 9, di_title = ''c'' \<rparr>],
           ds_skipped = [], ds_deferred = [7], ds_deferred_count = 1 \<rparr>"
    by (simp add: select_dispatch_candidates_def ordered_candidates_def truthy_def three_issues_recovery three_issues_def
        Let_def recovery_cap_def max_recovery_retry_per_pass_def deferred_numbers_def)
  have "ordered_candidates three_issues None = Some (three_issues, [])"
    by (simp add: ordered_candidates_def truthy_def)
  then show ?thesis
    using dispatch_selection_bounded [OF run _ _ refl] run by simp
qed

definition two_reviews :: "review_candidate list" where
  "two_reviews = [\<lparr> rc_pr = 11, rc_issue = Some 7, rc_mergeable = None, rc_merge_state = None \<rparr>,
     \<lparr> rc_pr = 12, rc_issue = Some 8, rc_mergeable = None, rc_merge_state = None \<rparr>]"

definition one_reviewer :: review_limits where
  "one_reviewer = \<lparr> rl_max_attempts = 3, rl_max_turn_limit_misses = 0, rl_max_local = 1, rl_max_concurrent = 0 \<rparr>"

theorem review_selection_bounded_witness:
  "\<exists>s. select_review_dispatch_candidates digit_io (\<lambda>_. False) two_reviews [] one_reviewer 0 0 (Some 2) False (Some 5) = Some s \<and>
     length (sel_selected s) = 1 \<and> int (length (sel_selected s)) \<le> max 0 (1 - 0)"
proof -
  have entry: "pr_entry [] pr = []" for pr
    by (simp add: pr_entry_def entry_dict.simps jget_def)
  have "is_review_dispatchable f (\<lambda>_. False) [] pr one_reviewer 0 = Some True" for f pr
    by (simp add: is_review_dispatchable_def entry counter_def jget_def one_reviewer_def Let_def)
  moreover have "\<not> is_escalated_candidate digit_io [] c" for c
    by (simp add: is_escalated_candidate_def entry entry_dict.simps jget_def Let_def)
  moreover have "\<not> is_conflicting c" if "c \<in> set two_reviews" for c
    using that by (auto simp: two_reviews_def is_conflicting_def or_empty_def upper_def)
  ultimately obtain s where s: "select_review_dispatch_candidates digit_io (\<lambda>_. False) two_reviews [] one_reviewer 0 0
      (Some 2) False (Some 5) = Some s" "length (sel_selected s) = 1"
    by (auto simp: select_review_dispatch_candidates_def review_limit_def apply_local_review_cap_def one_reviewer_def
        two_reviews_def Let_def)
  then show ?thesis
    using review_selection_bounded [OF s(1)] by (auto simp: one_reviewer_def)
qed

theorem window_copies_agree_witness:
  "windowed_orphan_redispatch_at (ti_fromiso digit_io) [(''orphan_redispatch_at'', JList [JStr (int_str 5)])] 1 0 = [int_str 5]"
proof -
  have "windowed_orphan_redispatches (ti_fromiso digit_io) [(''orphan_redispatch_at'', JList [JStr (int_str 5)])] 1 0 = Some [int_str 5]"
    by (simp add: windowed_orphan_redispatches_def windowed_field_def jget_def digit_io_def zulu_int_str read_int_str minutes_def)
  then show ?thesis
    by (rule window_copies_agree)
qed

end
