(* ===== verification/Stalled.thy ===== *)
theory Stalled
  imports Fate_Records
begin

text \<open>
  The lane of the stalled sessions (\<^verbatim>\<open>dead_worker_sweep/stalled_model.py\<close>, \<^verbatim>\<open>decide_stalled.py\<close>,
  \<^verbatim>\<open>apply_stalled.py\<close>): the flow that decides what happens to one worker, its replay, the shell that
  serves and applies in rounds, and the state transaction it applies. What a request reads of processes,
  logs and sidecars is served by an argument of the shell.
\<close>

section \<open>Requests, results and commits\<close>

datatype stalled_request =
  Read_adapter_profile int
| Probe_health int
| Probe_rate_limit_defer int
| Kill_tree int
| Kill_orphans int
| Release_blocked_tool int
| Record_failure int
| Probe_completed_handoff int
| Read_log_tail int

record adapter_facts =
  af_over_budget :: bool
  af_can_record :: bool
  af_can_release :: bool

text \<open>The payload of the probe, None where there is no probe.\<close>

record health_probe =
  hp_payload :: "json_dict option"
  hp_health :: worker_health
  hp_next_count :: int

record log_tail =
  lt_last_line :: "string option"
  lt_mtime :: string

datatype stalled_result =
  SR_adapter adapter_facts
| SR_health health_probe
| SR_defer "string option"
| SR_pids "int list"
| SR_failure "string option" "string option"
| SR_bool bool
| SR_tail log_tail

record throttle_arm =
  ta_until :: string
  ta_source :: string
  ta_reason :: string
  ta_adapter :: string

record failure_stamp =
  fst_issue :: int
  fst_kind :: string
  fst_adapter :: string

datatype stalled_commit =
  Stamp_sidecar int json_dict
| Mark_budget_exceeded int
| Record_role_quota int string string string
| Record_post_mortem int
| State_txn "throttle_arm option" "failure_stamp option" "string option" json_dict

type_synonym 'a stalled_gen = "(stalled_commit, stalled_request, stalled_result, 'a) gen"
type_synonym stalled_observations = "stalled_request \<Rightarrow> stalled_result option"

record stalled_worker =
  sw_issue :: int
  sw_pid :: "int option"
  sw_start :: json
  sw_error :: "string option"
  sw_adapter :: string
  sw_provider :: json
  sw_defer_until :: "string option"
  sw_released_at :: "string option"

record stalled_facts =
  sl_worker :: stalled_worker
  sl_defer_enabled :: bool
  sl_release_enabled :: bool
  sl_now :: int
  sl_dry_run :: bool

text \<open>The row of a worker the lane has handled: its issue and its process.\<close>

type_synonym stalled_row = "int \<times> int"

fun adapter_of_result :: "stalled_result \<Rightarrow> adapter_facts option" where
  "adapter_of_result (SR_adapter x) = Some x" | "adapter_of_result _ = None"

fun health_of_result :: "stalled_result \<Rightarrow> health_probe option" where
  "health_of_result (SR_health x) = Some x" | "health_of_result _ = None"

fun defer_of_result :: "stalled_result \<Rightarrow> string option option" where
  "defer_of_result (SR_defer x) = Some x" | "defer_of_result _ = None"

fun pids_of_result :: "stalled_result \<Rightarrow> int list option" where
  "pids_of_result (SR_pids x) = Some x" | "pids_of_result _ = None"

fun failure_of_result :: "stalled_result \<Rightarrow> (string option \<times> string option) option" where
  "failure_of_result (SR_failure k u) = Some (k, u)" | "failure_of_result _ = None"

fun bool_of_result :: "stalled_result \<Rightarrow> bool option" where
  "bool_of_result (SR_bool x) = Some x" | "bool_of_result _ = None"

fun tail_of_result :: "stalled_result \<Rightarrow> log_tail option" where
  "tail_of_result (SR_tail x) = Some x" | "tail_of_result _ = None"

section \<open>The flow\<close>

definition reap_source :: string where
  "reap_source = ''stalled_sessions_reap''"

definition defer_source :: string where
  "defer_source = ''stalled_sessions_rate_limit_defer''"

definition release_resume_grace :: int where
  "release_resume_grace = minutes 10"

text \<open>\<^verbatim>\<open>_parse_defer_until\<close>: a naive time is taken as UTC.\<close>

definition parse_defer_until :: "iso_parser \<Rightarrow> string option \<Rightarrow> int option" where
  "parse_defer_until fromiso value =
     (if truthy value then map_option as_utc (fromiso (zulu (or_empty value))) else None)"

definition is_deferred :: "iso_parser \<Rightarrow> stalled_facts \<Rightarrow> bool" where
  "is_deferred fromiso facts \<longleftrightarrow>
     (case parse_defer_until fromiso (sw_defer_until (sl_worker facts)) of
        None \<Rightarrow> False | Some t \<Rightarrow> sl_now facts < t)"

definition pids_json :: "int list \<Rightarrow> json" where
  "pids_json pids = JList (map JInt pids)"

definition pids_or_null :: "int list \<Rightarrow> json" where
  "pids_or_null pids = (if pids = [] then JNull else pids_json pids)"

definition kill_flow :: "stalled_facts \<Rightarrow> (int list \<times> int list) stalled_gen" where
  "kill_flow facts =
     bind_flow (ask (Kill_tree (sw_issue (sl_worker facts))) pids_of_result) (\<lambda>tree.
     bind_flow (ask (Kill_orphans (sw_issue (sl_worker facts))) pids_of_result) (\<lambda>orphans.
     Return (tree @ orphans, orphans)))"

definition unless_dry :: "stalled_facts \<Rightarrow> stalled_commit list \<Rightarrow> unit stalled_gen" where
  "unless_dry facts cs = (if sl_dry_run facts then Return () else commit_all cs ())"

definition process_payload :: "stalled_worker \<Rightarrow> json_dict" where
  "process_payload w =
     [(''issue_number'', JInt (sw_issue w)), (''pid'', opt_int_json (sw_pid w)), (''process_start_time'', sw_start w)]"

definition budget_flow :: "stalled_facts \<Rightarrow> unit stalled_gen" where
  "budget_flow facts =
     (let w = sl_worker facts
      in bind_flow (kill_flow facts) (\<lambda>(killed, orphans).
         bind_flow (unless_dry facts [Mark_budget_exceeded (sw_issue w)]) (\<lambda>_.
         commit_flow (State_txn None None (Some ''session_budget_exceeded'')
           (process_payload w @ [(''killed_pids'', pids_json killed), (''orphan_pids'', pids_or_null orphans),
              (''provider'', sw_provider w)])))))"

text \<open>Whether the worker is left running: its tool was released now, or lately.\<close>

definition release_flow :: "time_io \<Rightarrow> stalled_facts \<Rightarrow> bool stalled_gen" where
  "release_flow io facts =
     (let w = sl_worker facts; n = sw_issue w
      in case parse_defer_until (ti_fromiso io) (sw_released_at w) of
           Some t \<Rightarrow> Return (sl_now facts < t + release_resume_grace)
         | None \<Rightarrow>
             if sl_dry_run facts then Return False
             else bind_flow (ask (Release_blocked_tool n) pids_of_result) (\<lambda>released.
               if released = [] then Return False
               else bind_flow (commit_flow (Stamp_sidecar n
                   [(''tool_released_at'', JStr (iso_text io (sl_now facts)))])) (\<lambda>_.
                 bind_flow (ask (Read_log_tail n) tail_of_result) (\<lambda>tail.
                 bind_flow (commit_flow (State_txn None None (Some ''session_tool_released'')
                   (process_payload w @ [(''released_pids'', pids_json released), (''log_mtime'', JStr (lt_mtime tail)),
                      (''last_log_line'', opt_json (lt_last_line tail))]))) (\<lambda>_.
                 Return True)))))"

fun health_name :: "worker_health \<Rightarrow> string" where
  "health_name Healthy = ''HEALTHY''"
| "health_name Slow = ''SLOW''"
| "health_name Stalled = ''STALLED''"
| "health_name Runaway = ''RUNAWAY''"
| "health_name Dead = ''DEAD''"
| "health_name Orphaned = ''ORPHANED''"

definition probe_payload :: "json_dict option \<Rightarrow> json_dict" where
  "probe_payload probe =
     (case probe of
        Some d \<Rightarrow> d
      | None \<Rightarrow> [(''sources'', JList []), (''latest_timestamp'', JNull), (''latest_source'', JStr ''probe unavailable'')])"

definition reap_txn :: "stalled_worker \<Rightarrow> health_probe \<Rightarrow> int list \<Rightarrow> int list \<Rightarrow> string option \<Rightarrow> log_tail \<Rightarrow> stalled_commit" where
  "reap_txn w h killed orphans kind tail =
     (let probe = probe_payload (hp_payload h)
      in State_txn None
        (case kind of
           None \<Rightarrow> None
         | Some k \<Rightarrow> Some \<lparr> fst_issue = sw_issue w, fst_kind = k, fst_adapter = sw_adapter w \<rparr>)
        (Some (if hp_health h = Stalled then ''session_stalled'' else ''session_exited''))
        (process_payload w @ [(''worker_health'', JStr (health_name (hp_health h))),
          (''log_mtime'', JStr (lt_mtime tail)), (''last_log_line'', opt_json (lt_last_line tail)),
          (''killed_pids'', pids_json killed), (''orphan_pids'', pids_or_null orphans),
          (''failure_kind'', opt_json kind),
          (''activity_sources'', (case map_of probe ''sources'' of None \<Rightarrow> JList [] | Some v \<Rightarrow> v)),
          (''latest_real_activity_at'', jget probe ''latest_timestamp''),
          (''latest_real_activity_source'', jget probe ''latest_source'')]))"

definition handed_off_flow :: "stalled_facts \<Rightarrow> health_probe \<Rightarrow> bool stalled_gen" where
  "handed_off_flow facts h =
     (if hp_health h = Dead then ask (Probe_completed_handoff (sw_issue (sl_worker facts))) bool_of_result
      else Return False)"

definition record_failure_flow ::
  "stalled_facts \<Rightarrow> adapter_facts \<Rightarrow> bool \<Rightarrow> (string option \<times> string option) stalled_gen" where
  "record_failure_flow facts adapter handed_off =
     (if \<not> handed_off \<and> \<not> sl_dry_run facts \<and> af_can_record adapter
      then ask (Record_failure (sw_issue (sl_worker facts))) failure_of_result
      else Return (None, None))"

definition arm_flow :: "stalled_worker \<Rightarrow> string option \<Rightarrow> string option \<Rightarrow> unit stalled_gen" where
  "arm_flow w kind until =
     (if truthy kind \<and> truthy until
      then commit_flow (State_txn (Some \<lparr> ta_until = the until, ta_source = reap_source, ta_reason = the kind,
                                          ta_adapter = sw_adapter w \<rparr>) None None [])
      else Return ())"

definition reap_flow :: "stalled_facts \<Rightarrow> health_probe \<Rightarrow> adapter_facts \<Rightarrow> unit stalled_gen" where
  "reap_flow facts h adapter =
     (let w = sl_worker facts
      in bind_flow (kill_flow facts) (\<lambda>(killed, orphans).
         bind_flow (unless_dry facts [Record_post_mortem (sw_issue w)]) (\<lambda>_.
         bind_flow (handed_off_flow facts h) (\<lambda>handed_off.
         bind_flow (record_failure_flow facts adapter handed_off) (\<lambda>(kind, until).
         bind_flow (arm_flow w kind until) (\<lambda>_.
         bind_flow (ask (Read_log_tail (sw_issue w)) tail_of_result) (\<lambda>tail.
         commit_flow (reap_txn w h killed orphans kind tail))))))))"

text \<open>The deferral of a rate-limited worker; the flow goes on where the log shows no limit.\<close>

definition defer_flow :: "stalled_facts \<Rightarrow> string \<Rightarrow> unit stalled_gen" where
  "defer_flow facts until =
     (let w = sl_worker facts; n = sw_issue w
      in bind_flow (unless_dry facts [Stamp_sidecar n [(''rate_limit_defer_until'', JStr until)],
                                      Record_role_quota n until ''rate_limited'' defer_source]) (\<lambda>_.
         commit_flow (State_txn (Some \<lparr> ta_until = until, ta_source = defer_source, ta_reason = ''rate_limited'',
                                        ta_adapter = sw_adapter w \<rparr>) None (Some ''session_rate_limit_deferred'')
           [(''issue_number'', JInt n), (''pid'', opt_int_json (sw_pid w)), (''defer_until'', JStr until)])))"

definition rate_limit_flow :: "iso_parser \<Rightarrow> stalled_facts \<Rightarrow> health_probe \<Rightarrow> string option stalled_gen" where
  "rate_limit_flow fromiso facts h =
     (if hp_health h = Stalled \<and> sl_defer_enabled facts \<and> \<not> is_deferred fromiso facts \<and>
         sw_defer_until (sl_worker facts) = None
      then ask (Probe_rate_limit_defer (sw_issue (sl_worker facts))) defer_of_result
      else Return None)"

definition released_flow :: "time_io \<Rightarrow> stalled_facts \<Rightarrow> health_probe \<Rightarrow> adapter_facts \<Rightarrow> bool stalled_gen" where
  "released_flow io facts h adapter =
     (if hp_health h = Stalled \<and> af_can_release adapter \<and> sl_release_enabled facts then release_flow io facts
      else Return False)"

text \<open>The decision once the health is known.\<close>

definition healthy_or_reaped ::
  "time_io \<Rightarrow> stalled_facts \<Rightarrow> int \<Rightarrow> adapter_facts \<Rightarrow> health_probe \<Rightarrow> stalled_row option stalled_gen" where
  "healthy_or_reaped io facts pid adapter h =
     (let row = Some (sw_issue (sl_worker facts), pid)
      in if af_over_budget adapter then bind_flow (budget_flow facts) (\<lambda>_. Return row)
         else if hp_health h = Stalled \<and> is_deferred (ti_fromiso io) facts then Return None
         else if hp_health h \<noteq> Stalled \<and> hp_health h \<noteq> Dead then Return None
         else bind_flow (rate_limit_flow (ti_fromiso io) facts h) (\<lambda>until.
           case until of
             Some t \<Rightarrow> bind_flow (defer_flow facts t) (\<lambda>_. Return None)
           | None \<Rightarrow>
               bind_flow (released_flow io facts h adapter) (\<lambda>released.
                 if released then Return None
                 else bind_flow (reap_flow facts h adapter) (\<lambda>_. Return row))))"

definition stalled_flow :: "time_io \<Rightarrow> stalled_facts \<Rightarrow> stalled_row option stalled_gen" where
  "stalled_flow io facts =
     (let w = sl_worker facts; n = sw_issue w
      in case sw_pid w of
           None \<Rightarrow> Return None
         | Some pid \<Rightarrow>
             if sw_error w \<noteq> None then Return None
             else bind_flow (ask (Read_adapter_profile n) adapter_of_result) (\<lambda>adapter.
               bind_flow (unless_dry facts [Stamp_sidecar n []]) (\<lambda>_.
               bind_flow (ask (Probe_health n) health_of_result) (\<lambda>h.
               bind_flow (unless_dry facts
                 [Stamp_sidecar n [(''inconclusive_probe_deferred_count'', JInt (hp_next_count h))]]) (\<lambda>_.
               healthy_or_reaped io facts pid adapter h)))))"

datatype stalled_plan =
  Stalled_plan "stalled_request list" "stalled_commit list" bool "stalled_row option"
| Stalled_raised

definition decide_stalled :: "time_io \<Rightarrow> stalled_facts \<Rightarrow> stalled_observations \<Rightarrow> stalled_plan" where
  "decide_stalled io facts obs =
     (case run_flow (stalled_flow io facts) obs of
        (Finished row, cs) \<Rightarrow> Stalled_plan [] cs True row
      | (Pending q, cs) \<Rightarrow> Stalled_plan [q] cs False None
      | (Raised, cs) \<Rightarrow> Stalled_raised)"

section \<open>The shell\<close>

definition max_rounds_per_worker :: nat where
  "max_rounds_per_worker = 64"

datatype stalled_violation = Prefix_moved | Unservable stalled_request | Rounds_exceeded

record 'w stalled_shell =
  st_serve :: "stalled_request \<Rightarrow> 'w \<Rightarrow> 'w \<times> stalled_result option"
  st_apply :: "stalled_commit \<Rightarrow> 'w \<Rightarrow> 'w \<times> bool"
  st_violation :: "stalled_violation \<Rightarrow> 'w \<Rightarrow> 'w"

text \<open>How a worker's rounds end: handled, given up with an event, or with an exception.\<close>

datatype worker_end = Handled "stalled_row option" | Given_up stalled_violation | Lane_raised

fun apply_stalled :: "'w stalled_shell \<Rightarrow> stalled_commit list \<Rightarrow> 'w \<Rightarrow> 'w \<times> bool" where
  "apply_stalled sh [] w = (w, True)"
| "apply_stalled sh (c # cs) w =
     (case st_apply sh c w of (w', True) \<Rightarrow> apply_stalled sh cs w' | (w', False) \<Rightarrow> (w', False))"

fun worker_rounds ::
  "nat \<Rightarrow> 'w stalled_shell \<Rightarrow> (stalled_observations \<Rightarrow> stalled_plan) \<Rightarrow> stalled_commit list \<Rightarrow>
   stalled_observations \<Rightarrow> 'w \<Rightarrow> 'w \<times> worker_end" where
  "worker_rounds 0 sh plans applied obs w = (w, Given_up Rounds_exceeded)"
| "worker_rounds (Suc k) sh plans applied obs w =
     (case plans obs of
        Stalled_raised \<Rightarrow> (w, Lane_raised)
      | Stalled_plan requests commits finished row \<Rightarrow>
          if take (length applied) commits \<noteq> applied then (w, Given_up Prefix_moved)
          else (case apply_stalled sh (drop (length applied) commits) w of
                  (w1, False) \<Rightarrow> (w1, Lane_raised)
                | (w1, True) \<Rightarrow>
                    if finished then (w1, Handled row)
                    else (case requests of
                            [q] \<Rightarrow>
                              if obs q \<noteq> None then (w1, Given_up (Unservable q))
                              else (case st_serve sh q w1 of
                                      (w2, None) \<Rightarrow> (w2, Lane_raised)
                                    | (w2, Some r) \<Rightarrow> worker_rounds k sh plans commits (obs(q \<mapsto> r)) w2)
                          | _ \<Rightarrow> (w1, Lane_raised))))"

definition handle_worker :: "'w stalled_shell \<Rightarrow> time_io \<Rightarrow> stalled_facts \<Rightarrow> 'w \<Rightarrow> 'w \<times> worker_end" where
  "handle_worker sh io facts w =
     (case worker_rounds max_rounds_per_worker sh (decide_stalled io facts) [] Map.empty w of
        (w', Given_up v) \<Rightarrow> (st_violation sh v w', Given_up v)
      | other \<Rightarrow> other)"

text \<open>\<^verbatim>\<open>run_stalled_sweep\<close>; an exception ends the pass without rows.\<close>

fun sweep_workers ::
  "'w stalled_shell \<Rightarrow> time_io \<Rightarrow> (stalled_worker \<Rightarrow> stalled_facts) \<Rightarrow> stalled_worker list \<Rightarrow> 'w \<Rightarrow>
   'w \<times> stalled_row list option" where
  "sweep_workers sh io facts [] w = (w, Some [])"
| "sweep_workers sh io facts (v # vs) w =
     (case handle_worker sh io (facts v) w of
        (w1, Lane_raised) \<Rightarrow> (w1, None)
      | (w1, e) \<Rightarrow>
          (case sweep_workers sh io facts vs w1 of
             (w2, rows) \<Rightarrow>
               (w2, map_option (\<lambda>rs. (case e of Handled (Some row) \<Rightarrow> row # rs | _ \<Rightarrow> rs)) rows)))"

definition run_stalled_sweep ::
  "'w stalled_shell \<Rightarrow> time_io \<Rightarrow> bool \<Rightarrow> (stalled_worker \<Rightarrow> stalled_facts) \<Rightarrow> stalled_worker list \<Rightarrow> 'w \<Rightarrow>
   'w \<times> stalled_row list option" where
  "run_stalled_sweep sh io enabled facts workers w =
     (if \<not> enabled then (w, Some []) else sweep_workers sh io facts workers w)"

section \<open>What is served and applied\<close>

record adapter_profile =
  ap_over_budget :: "bool option"
  ap_records_failure :: bool
  ap_releases_tool :: bool

text \<open>\<open>ap_over_budget\<close> is what the profile's test says of the worker, None where it has no test.\<close>

definition adapter_facts_of :: "adapter_profile option \<Rightarrow> adapter_facts" where
  "adapter_facts_of profile =
     (case profile of
        None \<Rightarrow> \<lparr> af_over_budget = False, af_can_record = False, af_can_release = False \<rparr>
      | Some p \<Rightarrow> \<lparr> af_over_budget = (ap_over_budget p = Some True), af_can_record = ap_records_failure p,
                    af_can_release = ap_releases_tool p \<rparr>)"

text \<open>\<^verbatim>\<open>_completed_handoff\<close>: \<open>terminal\<close> is the terminal record and \<open>worktree\<close> the outcome file.\<close>

definition completed_handoff ::
  "time_io \<Rightarrow> int \<Rightarrow> json_dict \<Rightarrow> json \<Rightarrow> (int option \<times> json) option \<Rightarrow> int \<Rightarrow> bool option" where
  "completed_handoff io n state terminal worktree now =
     map_option (\<lambda>fate.
       case fb_outcome (basis_of fate) of
         Some c \<Rightarrow> oe_outcome c \<noteq> JStr ''blocked'' \<and>
                   (oe_push_succeeded c = JBool True \<or> oe_outcome c = JStr ''completed'')
       | None \<Rightarrow> is_zero (fb_exit (basis_of fate)))
     (resolve_no_pr_orphan_fate io n (state_entry state n) terminal worktree now)"

definition arm_throttle ::
  "time_io \<Rightarrow> int \<Rightarrow> json \<times> json \<Rightarrow> json_dict \<Rightarrow> throttle_arm \<Rightarrow> (json_dict \<times> events) option" where
  "arm_throttle io now role state arm =
     (if ta_source arm = reap_source \<or> ta_source arm = defer_source
      then set_throttled_until io now state (ta_until arm) (ta_source arm) (JStr (ta_reason arm))
             (JStr (ta_adapter arm)) (fst role) (snd role)
      else None)"

text \<open>
  \<^verbatim>\<open>_state_txn\<close> on the state loaded under the lock; \<open>role\<close> is the session's harness and model. None is an
  exception, which saves nothing.
\<close>

definition state_txn ::
  "time_io \<Rightarrow> int \<Rightarrow> json \<times> json \<Rightarrow> throttle_arm option \<Rightarrow> failure_stamp option \<Rightarrow> string option \<Rightarrow> json_dict \<Rightarrow>
   json_dict \<Rightarrow> (json_dict \<times> events) option" where
  "state_txn io now role throttle stamp event payload state =
     (case (case throttle of None \<Rightarrow> Some (state, []) | Some arm \<Rightarrow> arm_throttle io now role state arm) of
        None \<Rightarrow> None
      | Some (state1, events1) \<Rightarrow>
          (case (case stamp of
                   None \<Rightarrow> Some (state1, [])
                 | Some s \<Rightarrow> persist_failure io now state1 (fst_issue s)
                     \<lparr> fe_kind = JStr (fst_kind s), fe_throttled_until = None, fe_fresh = True,
                       fe_harness = JNull, fe_model = JNull \<rparr> (JStr (fst_adapter s)) ''stalled_sessions_reap'') of
             None \<Rightarrow> None
           | Some (state2, events2) \<Rightarrow>
               Some (state2, events1 @ events2 @ (case event of None \<Rightarrow> [] | Some k \<Rightarrow> [(k, payload)]))))"

end
