(* ===== verification/Stalled_Props.thy ===== *)
theory Stalled_Props
  imports Stalled Digit_Clock
begin

text \<open>
  What the stalled lane promises: it kills only what has earned it, a dry run changes nothing but the event
  it previews, and the rounds of a worker end with its row.
\<close>

section \<open>Results of the right type\<close>

fun typed_stalled :: "stalled_request \<Rightarrow> stalled_result \<Rightarrow> bool" where
  "typed_stalled (Read_adapter_profile n) r \<longleftrightarrow> adapter_of_result r \<noteq> None"
| "typed_stalled (Probe_health n) r \<longleftrightarrow> health_of_result r \<noteq> None"
| "typed_stalled (Probe_rate_limit_defer n) r \<longleftrightarrow> defer_of_result r \<noteq> None"
| "typed_stalled (Kill_tree n) r \<longleftrightarrow> pids_of_result r \<noteq> None"
| "typed_stalled (Kill_orphans n) r \<longleftrightarrow> pids_of_result r \<noteq> None"
| "typed_stalled (Release_blocked_tool n) r \<longleftrightarrow> pids_of_result r \<noteq> None"
| "typed_stalled (Record_failure n) r \<longleftrightarrow> failure_of_result r \<noteq> None"
| "typed_stalled (Probe_completed_handoff n) r \<longleftrightarrow> bool_of_result r \<noteq> None"
| "typed_stalled (Read_log_tail n) r \<longleftrightarrow> tail_of_result r \<noteq> None"

text \<open>The requests about one issue, and what a dry run may ask and commit.\<close>

definition requests_about :: "int \<Rightarrow> stalled_request set" where
  "requests_about n =
     {Read_adapter_profile n, Probe_health n, Probe_rate_limit_defer n, Kill_tree n, Kill_orphans n,
      Release_blocked_tool n, Record_failure n, Probe_completed_handoff n, Read_log_tail n}"

definition dry_request :: "bool \<Rightarrow> stalled_request \<Rightarrow> bool" where
  "dry_request dry q \<longleftrightarrow> (dry \<longrightarrow> (\<forall>n. q \<noteq> Release_blocked_tool n \<and> q \<noteq> Record_failure n))"

fun dry_commit :: "bool \<Rightarrow> stalled_commit \<Rightarrow> bool" where
  "dry_commit dry (State_txn throttle stamp event payload) \<longleftrightarrow> (dry \<longrightarrow> stamp = None \<and> event \<noteq> None)"
| "dry_commit dry _ \<longleftrightarrow> \<not> dry"

definition stalled_contract :: "stalled_facts \<Rightarrow> (stalled_commit, stalled_request, stalled_result) gen_contract" where
  "stalled_contract facts =
     \<lparr> ct_result = typed_stalled,
       ct_request = (\<lambda>q. q \<in> requests_about (sw_issue (sl_worker facts)) \<and> dry_request (sl_dry_run facts) q),
       ct_commit = dry_commit (sl_dry_run facts) \<rparr>"

lemma contract_simps [simp]:
  "ct_result (stalled_contract facts) = typed_stalled"
  "ct_request (stalled_contract facts) q \<longleftrightarrow>
     q \<in> requests_about (sw_issue (sl_worker facts)) \<and> dry_request (sl_dry_run facts) q"
  "ct_commit (stalled_contract facts) = dry_commit (sl_dry_run facts)"
  by (simp_all add: stalled_contract_def)

lemma about_simps [simp]:
  "Read_adapter_profile n \<in> requests_about n" "Probe_health n \<in> requests_about n"
  "Probe_rate_limit_defer n \<in> requests_about n" "Kill_tree n \<in> requests_about n"
  "Kill_orphans n \<in> requests_about n" "Release_blocked_tool n \<in> requests_about n"
  "Record_failure n \<in> requests_about n" "Probe_completed_handoff n \<in> requests_about n"
  "Read_log_tail n \<in> requests_about n"
  by (simp_all add: requests_about_def)

lemma dry_request_simps [simp]:
  "dry_request dry (Read_adapter_profile n)" "dry_request dry (Probe_health n)"
  "dry_request dry (Probe_rate_limit_defer n)" "dry_request dry (Kill_tree n)" "dry_request dry (Kill_orphans n)"
  "dry_request dry (Probe_completed_handoff n)" "dry_request dry (Read_log_tail n)"
  "dry_request False q"
  by (simp_all add: dry_request_def)

section \<open>The flow keeps the contract\<close>

lemma kill_sat: "2 \<le> n \<Longrightarrow> flow_sat (stalled_contract facts) (\<lambda>_. True) (kill_flow facts) n"
  by (auto simp: kill_flow_def split: option.split)

lemma unless_dry_sat:
  "(\<And>c. c \<in> set cs \<Longrightarrow> dry_commit False c) \<Longrightarrow> flow_sat (stalled_contract facts) (\<lambda>_. True) (unless_dry facts cs) n"
  by (auto simp: unless_dry_def)

lemma any_then:
  assumes "flow_sat ct (\<lambda>_. True) f k" and "\<And>a. flow_sat ct P (g a) (n - k)" and "k \<le> n"
  shows "flow_sat ct P (bind_flow f g) n"
  using assms by (intro flow_sat_bind)

lemma budget_sat: "flow_sat (stalled_contract facts) (\<lambda>_. True) (budget_flow facts) 2"
  unfolding budget_flow_def Let_def
  by (rule any_then [OF kill_sat [OF order_refl]])
    (auto intro!: any_then [OF unless_dry_sat [where n = 0]])

lemma release_sat: "flow_sat (stalled_contract facts) (\<lambda>_. True) (release_flow io facts) 2"
  by (auto simp: release_flow_def Let_def dry_request_def split: option.split)

lemma reap_txn_dry: "dry_commit dry (reap_txn w h killed orphans kind tail) \<longleftrightarrow> (dry \<longrightarrow> kind = None)"
  by (simp add: reap_txn_def Let_def split: option.split)

lemma stalled_reap_sat: "flow_sat (stalled_contract facts) (\<lambda>_. True) (reap_flow facts h adapter) 5"
proof -
  have handed: "flow_sat (stalled_contract facts) (\<lambda>_. True) (handed_off_flow facts h) 1"
    by (auto simp: handed_off_flow_def split: option.split)
  have recorded: "flow_sat (stalled_contract facts) (\<lambda>(kind, until). sl_dry_run facts \<longrightarrow> kind = None)
      (record_failure_flow facts adapter b) 1" for b
    by (auto simp: record_failure_flow_def dry_request_def split: option.split)
  have arm: "flow_sat (stalled_contract facts) (\<lambda>_. True) (arm_flow w kind until) 0"
    if "sl_dry_run facts \<longrightarrow> kind = None" for w kind until
    using that by (auto simp: arm_flow_def)
  show ?thesis
    unfolding reap_flow_def Let_def
  proof (rule any_then [OF kill_sat [where n = 2]], simp, clarify)
    fix killed orphans :: "int list"
    show "flow_sat (stalled_contract facts) (\<lambda>_. True)
      (bind_flow (unless_dry facts [Record_post_mortem (sw_issue (sl_worker facts))]) (\<lambda>_.
       bind_flow (handed_off_flow facts h) (\<lambda>handed_off.
       bind_flow (record_failure_flow facts adapter handed_off) (\<lambda>(kind, until).
       bind_flow (arm_flow (sl_worker facts) kind until) (\<lambda>_.
       bind_flow (ask (Read_log_tail (sw_issue (sl_worker facts))) tail_of_result) (\<lambda>tail.
       commit_flow (reap_txn (sl_worker facts) h killed orphans kind tail))))))) (5 - 2)"
      by (rule any_then [OF unless_dry_sat [where n = 0]], simp, rule any_then [OF handed])
        (auto intro!: flow_sat_bind [OF recorded] any_then [OF arm] simp: reap_txn_dry split: option.split)
  qed simp
qed

lemma defer_sat: "flow_sat (stalled_contract facts) (\<lambda>_. True) (defer_flow facts until) 0"
  unfolding defer_flow_def Let_def by (auto intro!: any_then [OF unless_dry_sat [where n = 0]])

lemma decided_sat: "flow_sat (stalled_contract facts) (\<lambda>_. True) (healthy_or_reaped io facts pid adapter h) 8"
proof -
  have limit: "flow_sat (stalled_contract facts) (\<lambda>_. True) (rate_limit_flow f facts h) 1" for f
    by (auto simp: rate_limit_flow_def split: option.split)
  have released: "flow_sat (stalled_contract facts) (\<lambda>_. True) (released_flow io facts h adapter) 2"
    by (auto simp: released_flow_def release_sat)
  have sat: "flow_sat (stalled_contract facts) (\<lambda>_. True) (bind_flow f (\<lambda>_. Return a)) n"
    if "flow_sat (stalled_contract facts) (\<lambda>_. True) f n" for f :: "unit stalled_gen" and a :: "stalled_row option" and n
    using that by (auto intro: flow_sat_bind)
  show ?thesis
    unfolding healthy_or_reaped_def Let_def
    by (auto intro!: any_then [OF limit] any_then [OF released] sat flow_sat_mono [OF budget_sat]
        flow_sat_mono [OF stalled_reap_sat] flow_sat_mono [OF defer_sat] any_then [OF budget_sat]
        any_then [OF stalled_reap_sat] any_then [OF defer_sat] split: option.split)
qed

lemma stalled_sat: "flow_sat (stalled_contract facts) (\<lambda>_. True) (stalled_flow io facts) 10"
  unfolding stalled_flow_def Let_def
  by (auto split: option.split intro!: any_then [OF unless_dry_sat [where n = 0]] flow_sat_mono [OF decided_sat])

section \<open>The rounds of a worker\<close>

definition typed_observations :: "stalled_observations \<Rightarrow> bool" where
  "typed_observations obs \<longleftrightarrow> (\<forall>q r. obs q = Some r \<longrightarrow> typed_stalled q r)"

lemma typed_observations_upd: "typed_observations obs \<Longrightarrow> typed_stalled q r \<Longrightarrow> typed_observations (obs(q \<mapsto> r))"
  by (simp add: typed_observations_def)

lemma stalled_run:
  assumes "typed_observations obs" and "run_flow (stalled_flow io facts) obs = (e, cs)"
  shows "e \<noteq> Raised \<and> list_all (dry_commit (sl_dry_run facts)) cs \<and>
    (\<forall>q. e = Pending q \<longrightarrow> q \<in> requests_about (sw_issue (sl_worker facts)) \<and> dry_request (sl_dry_run facts) q)"
  using flow_sat_run [OF stalled_sat [of facts io], of obs e cs] assms
  by (auto simp: typed_observations_def list_all_iff split: gen_end.splits)

lemma card_requests_about: "finite (requests_about n)" "card (requests_about n) \<le> 9"
  by (simp_all add: requests_about_def card_insert_if)

text \<open>
  A shell whose answers have the type of what was asked, and one whose reads and effects never raise. The
  shell of the code is typed; a probe or an effect of it may raise.
\<close>

definition answers_typed :: "'w stalled_shell \<Rightarrow> bool" where
  "answers_typed sh \<longleftrightarrow> (\<forall>q w w' r. st_serve sh q w = (w', Some r) \<longrightarrow> typed_stalled q r)"

definition never_raises :: "'w stalled_shell \<Rightarrow> bool" where
  "never_raises sh \<longleftrightarrow> (\<forall>q w. snd (st_serve sh q w) \<noteq> None) \<and> (\<forall>c w. snd (st_apply sh c w))"

text \<open>Handled, or an exception of the shell; never given up.\<close>

fun row_or_raised :: "'w stalled_shell \<Rightarrow> worker_end \<Rightarrow> bool" where
  "row_or_raised sh (Handled row) \<longleftrightarrow> True"
| "row_or_raised sh Lane_raised \<longleftrightarrow> \<not> never_raises sh"
| "row_or_raised sh (Given_up v) \<longleftrightarrow> False"

lemma apply_stalled_raises: "apply_stalled sh cs w = (w', False) \<Longrightarrow> \<not> never_raises sh"
  by (induction sh cs w arbitrary: w' rule: apply_stalled.induct)
    (auto simp: never_raises_def split: prod.splits bool.splits, metis snd_conv)

lemma serve_raises: "st_serve sh q w = (w', None) \<Longrightarrow> \<not> never_raises sh"
  by (auto simp: never_raises_def) (metis snd_conv)

lemma rounds_end:
  assumes "answers_typed sh" and "typed_observations obs"
    and "dom obs \<subseteq> requests_about (sw_issue (sl_worker facts))" and "9 < card (dom obs) + k"
    and "snd (run_flow (stalled_flow io facts) obs) = applied @ ds"
  shows "row_or_raised sh (snd (worker_rounds k sh (decide_stalled io facts) applied obs w))"
  using assms(2-5)
proof (induction k arbitrary: applied ds obs w)
  case 0
  then have "card (dom obs) \<le> 9"
    using card_mono [OF card_requests_about(1)] card_requests_about(2) by (meson order_trans)
  with 0 show ?case
    by simp
next
  case (Suc k)
  let ?flow = "stalled_flow io facts"
  obtain e where run: "run_flow ?flow obs = (e, applied @ ds)"
    using Suc.prems(4) by (cases "run_flow ?flow obs") auto
  note ok = stalled_run [OF Suc.prems(1) run]
  obtain w1 fine where w1: "apply_stalled sh ds w = (w1, fine)"
    by (cases "apply_stalled sh ds w")
  note raised = apply_stalled_raises [of sh ds w w1]
  show ?case
  proof (cases e)
    case (Finished row)
    then show ?thesis
      using run w1 raised by (simp add: decide_stalled_def split: bool.split)
  next
    case (Pending q)
    have fresh: "obs q = None"
      using run Pending run_pending [of ?flow obs q] by simp
    have about: "q \<in> requests_about (sw_issue (sl_worker facts))"
      using ok Pending by simp
    have plan: "decide_stalled io facts obs = Stalled_plan [q] (applied @ ds) False None"
      using run Pending by (simp add: decide_stalled_def)
    show ?thesis
    proof (cases "snd (st_serve sh q w1)")
      case None
      then show ?thesis
        using plan w1 raised fresh serve_raises [of sh q w1]
        by (cases "st_serve sh q w1") (simp split: bool.split)
    next
      case (Some r)
      then obtain w2 where served: "st_serve sh q w1 = (w2, Some r)"
        by (cases "st_serve sh q w1") simp
      then have typed: "typed_stalled q r"
        using assms(1) unfolding answers_typed_def by blast
      have "obs \<subseteq>\<^sub>m obs(q \<mapsto> r)"
        using fresh by (auto simp: map_le_def)
      then obtain cs where "snd (run_flow ?flow (obs(q \<mapsto> r))) = (applied @ ds) @ cs"
        using run_extends [of obs "obs(q \<mapsto> r)" ?flow] run by auto
      moreover have "finite (dom obs)"
        using Suc.prems(2) card_requests_about(1) by (rule finite_subset)
      then have card: "card (dom (obs(q \<mapsto> r))) = Suc (card (dom obs))"
        using fresh by (simp add: domIff)
      moreover have "dom (obs(q \<mapsto> r)) \<subseteq> requests_about (sw_issue (sl_worker facts))"
        using Suc.prems(2) about by simp
      moreover have "9 < card (dom (obs(q \<mapsto> r))) + k"
        using Suc.prems(3) card by linarith
      ultimately have "row_or_raised sh (snd (worker_rounds k sh (decide_stalled io facts) (applied @ ds) (obs(q \<mapsto> r)) w2))"
        using Suc.IH [OF typed_observations_upd [OF Suc.prems(1) typed], of "applied @ ds" cs w2] by blast
      then show ?thesis
        using plan w1 raised served fresh by (simp split: bool.split)
    qed
  qed (use ok in simp)
qed

text \<open>
  C33. The rounds of a stalled worker end with its row, or with an exception that the shell itself raised: for
  any shell whose answers have the type of the request, a worker is never given up for a moved prefix, a
  request asked before or too many rounds, because the flow asks each of nine requests at most once and a
  replay only adds commits; and where no read and no effect of the shell raises, the rounds end with the row.
\<close>

theorem stalled_worker_is_handled:
  assumes "answers_typed sh"
  shows "row_or_raised sh (snd (handle_worker sh io facts w))"
proof -
  have "row_or_raised sh (snd (worker_rounds max_rounds_per_worker sh (decide_stalled io facts) [] Map.empty w))"
    using rounds_end [OF assms, of Map.empty facts max_rounds_per_worker io "[]" _ w]
    by (simp add: typed_observations_def max_rounds_per_worker_def)
  then show ?thesis
    by (auto simp: handle_worker_def split: prod.split worker_end.split)
qed

text \<open>
  A dry run of the stalled lane asks for no release and no classification and commits nothing but the
  event it previews: no stamp on a sidecar, no ledger entry, no post-mortem and no failure kind.
\<close>

theorem dry_run_only_previews:
  assumes "sl_dry_run facts" and "typed_observations obs"
    and "decide_stalled io facts obs = Stalled_plan requests commits finished row"
  shows "(\<forall>c \<in> set commits. \<exists>throttle event payload. c = State_txn throttle None (Some event) payload) \<and>
    (\<forall>n. Release_blocked_tool n \<notin> set requests \<and> Record_failure n \<notin> set requests)"
proof -
  obtain e where run: "run_flow (stalled_flow io facts) obs = (e, commits)" "set requests \<subseteq> {q. e = Pending q}"
    using assms(3) by (cases "run_flow (stalled_flow io facts) obs")
      (auto simp: decide_stalled_def split: gen_end.splits)
  have "\<exists>throttle event payload. c = State_txn throttle None (Some event) payload" if "c \<in> set commits" for c
    using stalled_run [OF assms(2) run(1)] that assms(1) by (cases c) (auto simp: list_all_iff)
  then show ?thesis
    using stalled_run [OF assms(2) run(1)] run(2) assms(1) by (auto simp: dry_request_def)
qed

section \<open>What a kill has been earned by\<close>

lemma pending_ask:
  "fst (run_flow (bind_flow (ask q res) k) obs) =
     (case obs q of
        None \<Rightarrow> Pending q
      | Some r \<Rightarrow> (case res r of None \<Rightarrow> Raised | Some a \<Rightarrow> fst (run_flow (k a) obs)))"
  by (simp add: ask_def split: option.split)

lemma pending_bind:
  "fst (run_flow (bind_flow f k) obs) =
     (case fst (run_flow f obs) of Finished a \<Rightarrow> fst (run_flow (k a) obs) | Pending q \<Rightarrow> Pending q | Raised \<Rightarrow> Raised)"
  by (simp add: run_bind split: prod.split gen_end.split)

lemma pending_commit: "fst (run_flow (Commit c f) obs) = fst (run_flow f obs)"
  by (simp split: prod.split)

lemma pending_unless_dry: "fst (run_flow (bind_flow (unless_dry facts cs) k) obs) = fst (run_flow (k ()) obs)"
proof -
  have "fst (run_flow (bind_flow (commit_all cs ()) k) obs) = fst (run_flow (k ()) obs)"
    by (induction cs) (simp_all add: pending_commit del: run_flow.simps(2))
  then show ?thesis
    by (simp add: unless_dry_def)
qed

lemma pending_defer: "fst (run_flow (defer_flow facts until) obs) = Finished ()"
  by (simp add: defer_flow_def Let_def pending_unless_dry commit_flow_def)

definition is_kill :: "stalled_request \<Rightarrow> bool" where
  "is_kill q \<longleftrightarrow> (\<exists>n. q = Kill_tree n \<or> q = Kill_orphans n)"

lemma is_kill_simps [simp]:
  "is_kill (Kill_tree n)" "is_kill (Kill_orphans n)" "\<not> is_kill (Read_adapter_profile n)" "\<not> is_kill (Probe_health n)"
  "\<not> is_kill (Probe_rate_limit_defer n)" "\<not> is_kill (Release_blocked_tool n)" "\<not> is_kill (Record_failure n)"
  "\<not> is_kill (Probe_completed_handoff n)" "\<not> is_kill (Read_log_tail n)"
  by (simp_all add: is_kill_def)

text \<open>What the log and the blocked tool must have said before a stalled worker is killed.\<close>

definition no_way_out :: "time_io \<Rightarrow> stalled_facts \<Rightarrow> adapter_facts \<Rightarrow> stalled_observations \<Rightarrow> bool" where
  "no_way_out io facts adapter obs \<longleftrightarrow>
     (let w = sl_worker facts; n = sw_issue w
      in \<not> is_deferred (ti_fromiso io) facts \<and>
         (sl_defer_enabled facts \<and> sw_defer_until w = None \<longrightarrow> obs (Probe_rate_limit_defer n) = Some (SR_defer None)) \<and>
         (af_can_release adapter \<and> sl_release_enabled facts \<and> \<not> sl_dry_run facts \<longrightarrow>
            (case parse_defer_until (ti_fromiso io) (sw_released_at w) of
               Some t \<Rightarrow> t + release_resume_grace \<le> sl_now facts
             | None \<Rightarrow> obs (Release_blocked_tool n) = Some (SR_pids []))))"

lemma stalled_result_inverses:
  "defer_of_result r = Some x \<longleftrightarrow> r = SR_defer x" "pids_of_result r = Some ps \<longleftrightarrow> r = SR_pids ps"
  "adapter_of_result r = Some a \<longleftrightarrow> r = SR_adapter a" "health_of_result r = Some h \<longleftrightarrow> r = SR_health h"
  by (cases r; auto)+

lemma released_false:
  assumes "fst (run_flow (released_flow io facts h adapter) obs) = Finished False" and "hp_health h = Stalled"
  shows "af_can_release adapter \<and> sl_release_enabled facts \<and> \<not> sl_dry_run facts \<longrightarrow>
    (case parse_defer_until (ti_fromiso io) (sw_released_at (sl_worker facts)) of
       Some t \<Rightarrow> t + release_resume_grace \<le> sl_now facts
     | None \<Rightarrow> obs (Release_blocked_tool (sw_issue (sl_worker facts))) = Some (SR_pids []))"
  using assms
  by (auto simp: released_flow_def release_flow_def Let_def pending_ask pending_commit stalled_result_inverses
      simp del: run_flow.simps(2) split: option.splits if_splits)

lemma released_asks_no_kill:
  "fst (run_flow (released_flow io facts h adapter) obs) = Pending q \<Longrightarrow> \<not> is_kill q"
  by (auto simp: released_flow_def release_flow_def Let_def pending_ask pending_commit
      simp del: run_flow.simps(2) split: option.splits if_splits)

lemma decided_kill:
  assumes "fst (run_flow (healthy_or_reaped io facts pid adapter h) obs) = Pending q" and "is_kill q"
  shows "af_over_budget adapter \<or> hp_health h = Dead \<or> hp_health h = Stalled \<and> no_way_out io facts adapter obs"
proof (rule ccontr)
  assume neg: "\<not> ?thesis"
  then have stalled: "hp_health h = Stalled" "\<not> af_over_budget adapter" "\<not> is_deferred (ti_fromiso io) facts"
    using assms(1) by (auto simp: healthy_or_reaped_def Let_def split: if_splits)
  have no_defer: "fst (run_flow (rate_limit_flow (ti_fromiso io) facts h) obs) = Finished None"
    using assms stalled
    by (auto simp: healthy_or_reaped_def Let_def pending_bind pending_commit pending_defer
        rate_limit_flow_def ask_def simp del: run_flow.simps(2) split: if_splits gen_end.splits option.splits)
  then have limit: "sl_defer_enabled facts \<and> sw_defer_until (sl_worker facts) = None \<longrightarrow>
      obs (Probe_rate_limit_defer (sw_issue (sl_worker facts))) = Some (SR_defer None)"
    using stalled by (auto simp: rate_limit_flow_def ask_def stalled_result_inverses split: if_splits option.splits)
  have "fst (run_flow (released_flow io facts h adapter) obs) = Finished False"
    using assms stalled no_defer released_asks_no_kill [of io facts h adapter obs q]
    by (auto simp: healthy_or_reaped_def Let_def pending_bind split: gen_end.splits if_splits)
  from released_false [OF this stalled(1)] limit stalled neg show False
    by (simp add: no_way_out_def Let_def)
qed

text \<open>
  C10. A worker is killed only when it has earned it: its session is over its budget, its process is dead, or
  it is stalled and nothing explains the silence, which means that no deferral is running, the log was asked
  for a rate limit and shows none, and a blocked tool call was released in vain or there was none.
\<close>

theorem kills_are_earned:
  assumes "decide_stalled io facts obs = Stalled_plan requests commits finished row" and "q \<in> set requests" and "is_kill q"
  shows "\<exists>adapter h. obs (Read_adapter_profile (sw_issue (sl_worker facts))) = Some (SR_adapter adapter) \<and>
    obs (Probe_health (sw_issue (sl_worker facts))) = Some (SR_health h) \<and>
    (af_over_budget adapter \<or> hp_health h = Dead \<or> hp_health h = Stalled \<and> no_way_out io facts adapter obs)"
proof -
  have "fst (run_flow (stalled_flow io facts) obs) = Pending q"
    using assms(1,2) by (auto simp: decide_stalled_def split: gen_end.splits prod.splits)
  then obtain pid adapter h where
    "obs (Read_adapter_profile (sw_issue (sl_worker facts))) = Some (SR_adapter adapter)"
    "obs (Probe_health (sw_issue (sl_worker facts))) = Some (SR_health h)"
    "fst (run_flow (healthy_or_reaped io facts pid adapter h) obs) = Pending q"
    using assms(3)
    by (auto simp: stalled_flow_def Let_def pending_ask pending_unless_dry stalled_result_inverses split: option.splits if_splits)
  then show ?thesis
    using decided_kill [OF _ assms(3)] by blast
qed

section \<open>Examples\<close>

definition quiet_worker :: stalled_worker where
  "quiet_worker = \<lparr> sw_issue = 7, sw_pid = Some 11, sw_start = JNull, sw_error = None, sw_adapter = ''opencode'',
     sw_provider = JNull, sw_defer_until = None, sw_released_at = None \<rparr>"

definition quiet_facts :: "bool \<Rightarrow> stalled_facts" where
  "quiet_facts dry = \<lparr> sl_worker = quiet_worker, sl_defer_enabled = True, sl_release_enabled = True, sl_now = 0, sl_dry_run = dry \<rparr>"

fun quiet_results :: "stalled_request \<Rightarrow> stalled_result" where
  "quiet_results (Read_adapter_profile n) = SR_adapter \<lparr> af_over_budget = False, af_can_record = True, af_can_release = True \<rparr>"
| "quiet_results (Probe_health n) = SR_health \<lparr> hp_payload = None, hp_health = Stalled, hp_next_count = 0 \<rparr>"
| "quiet_results (Probe_rate_limit_defer n) = SR_defer None"
| "quiet_results (Record_failure n) = SR_failure (Some ''stalled'') None"
| "quiet_results (Probe_completed_handoff n) = SR_bool False"
| "quiet_results (Read_log_tail n) = SR_tail \<lparr> lt_last_line = None, lt_mtime = [] \<rparr>"
| "quiet_results _ = SR_pids []"

definition quiet_shell :: "stalled_commit list stalled_shell" where
  "quiet_shell = \<lparr> st_serve = (\<lambda>q w. (w, Some (quiet_results q))), st_apply = (\<lambda>c w. (w @ [c], True)),
     st_violation = (\<lambda>v w. w) \<rparr>"

text \<open>A shell whose ledger entry fails: its worker ends with the exception.\<close>

definition broken_shell :: "stalled_commit list stalled_shell" where
  "broken_shell = quiet_shell\<lparr> st_serve := (\<lambda>q w. (w, if q = Record_failure 7 then None else Some (quiet_results q))) \<rparr>"

theorem stalled_worker_is_handled_witness:
  "(\<exists>row. snd (handle_worker quiet_shell digit_io (quiet_facts False) []) = Handled row) \<and>
   row_or_raised broken_shell (snd (handle_worker broken_shell digit_io (quiet_facts False) []))"
proof -
  have typed: "typed_stalled q (quiet_results q)" for q
    by (cases q) auto
  have "row_or_raised quiet_shell (snd (handle_worker quiet_shell digit_io (quiet_facts False) []))"
    by (rule stalled_worker_is_handled) (simp add: typed answers_typed_def quiet_shell_def)
  moreover have "never_raises quiet_shell"
    by (simp add: never_raises_def quiet_shell_def)
  moreover have "answers_typed broken_shell"
    using typed by (auto simp: answers_typed_def broken_shell_def quiet_shell_def)
  ultimately show ?thesis
    by (cases "snd (handle_worker quiet_shell digit_io (quiet_facts False) [])")
      (auto intro: stalled_worker_is_handled)
qed

definition killing_observations :: stalled_observations where
  "killing_observations q = (if is_kill q then None else Some (quiet_results q))"

theorem kills_are_earned_witness:
  "\<exists>adapter. killing_observations (Read_adapter_profile 7) = Some (SR_adapter adapter) \<and>
     no_way_out digit_io (quiet_facts False) adapter killing_observations"
proof -
  have run: "decide_stalled digit_io (quiet_facts False) killing_observations =
      Stalled_plan [Kill_tree 7] (snd (run_flow (stalled_flow digit_io (quiet_facts False)) killing_observations)) False None"
    by (simp add: decide_stalled_def stalled_flow_def Let_def quiet_facts_def quiet_worker_def ask_def unless_dry_def
        healthy_or_reaped_def is_deferred_def parse_defer_until_def rate_limit_flow_def released_flow_def release_flow_def
        reap_flow_def kill_flow_def killing_observations_def)
  show ?thesis
    using kills_are_earned [OF run, of "Kill_tree 7"] by (simp add: quiet_facts_def quiet_worker_def killing_observations_def)
qed

theorem dry_run_only_previews_witness:
  "Release_blocked_tool 7 \<notin> set [Kill_tree 7] \<and> sl_dry_run (quiet_facts True)"
proof -
  have "typed_stalled q (quiet_results q)" for q
    by (cases q) auto
  then have typed: "typed_observations killing_observations"
    by (simp add: typed_observations_def killing_observations_def)
  have run: "decide_stalled digit_io (quiet_facts True) killing_observations = Stalled_plan [Kill_tree 7] [] False None"
    by (simp add: decide_stalled_def stalled_flow_def Let_def quiet_facts_def quiet_worker_def ask_def unless_dry_def
        healthy_or_reaped_def is_deferred_def parse_defer_until_def rate_limit_flow_def released_flow_def release_flow_def
        reap_flow_def kill_flow_def killing_observations_def)
  show ?thesis
    using dry_run_only_previews [OF _ typed run] by (simp add: quiet_facts_def)
qed

end
