(* ===== verification/Dead_Sessions.thy ===== *)
theory Dead_Sessions
  imports Dispatch_Select Lane_State Sweep_Lock
begin

text \<open>
  The lane of the dead sessions (\<^verbatim>\<open>dead_worker_sweep/decide_dead_sessions.py\<close>,
  \<^verbatim>\<open>decide_dead_sessions_plan.py\<close>, \<^verbatim>\<open>dead_sessions.py\<close>, \<^verbatim>\<open>dead_sessions_reclaim.py\<close>): its
  predicates, its plans, and the shell that carries a plan out. The shell is written as a flow: a request
  is a read, or an effect whose result the lane looks at (a salvage, a write of labels, a classification);
  a commit is an effect it only orders. \<open>perform\<close> runs a flow against a world.
\<close>

section \<open>Failure kinds\<close>

definition deterministic_kinds :: "string list" where
  "deterministic_kinds =
     [''worker_blocked'', ''worktree_unsafe_shim_dirt'', ''rework_branch_conflict'', ''cross_repo_hop'', ''provider_suspended'']"

definition judgment_kinds :: "string list" where
  "judgment_kinds = [''worktree_unsafe_local_commits'', ''worktree_unsafe_uncommitted_work'']"

definition unsafe_kinds :: "string list" where
  "unsafe_kinds =
     [''worktree_unsafe_shim_dirt'', ''worktree_unsafe_local_commits'', ''worktree_unsafe_uncommitted_work'']"

definition kind_in :: "string option \<Rightarrow> string list \<Rightarrow> bool" where
  "kind_in kind kinds = (case kind of None \<Rightarrow> False | Some k \<Rightarrow> k \<in> set kinds)"

record escalation_class =
  ec_immediate :: bool
  ec_reason_class :: string

definition escalation_class_of :: "string option \<Rightarrow> escalation_class" where
  "escalation_class_of kind =
     (let terminal = kind_in kind deterministic_kinds; judgment = kind_in kind judgment_kinds
      in \<lparr> ec_immediate = (terminal \<or> judgment),
           ec_reason_class = (if judgment then ''judgment'' else ''mechanical'') \<rparr>)"

definition launch_failure_escalates :: "string option \<Rightarrow> bool \<Rightarrow> bool" where
  "launch_failure_escalates kind has_open_pr = (ec_immediate (escalation_class_of kind) \<and> \<not> has_open_pr)"

definition launch_failure_redispatch_at :: "time_io \<Rightarrow> string list \<Rightarrow> int \<Rightarrow> string list" where
  "launch_failure_redispatch_at io stamps now = stamps @ [ti_format io now]"

definition background_exit_max_seconds :: int where
  "background_exit_max_seconds = 600"

definition background_exit_kind :: string where
  "background_exit_kind = ''worker_exited_with_background_work''"

text \<open>\<^verbatim>\<open>int(v)\<close>; None is the TypeError or the ValueError.\<close>

fun int_of_json :: "json \<Rightarrow> int option" where
  "int_of_json JNull = None"
| "int_of_json (JStr s) = int_of_text s"
| "int_of_json (JList xs) = None"
| "int_of_json (JObj d) = None"
| "int_of_json v = int_or_zero v"

text \<open>
  \<^verbatim>\<open>isinstance(v, int | float) and v < limit\<close> for a positive limit that no float with a positive exponent
  is below. A float is the text Python prints.
\<close>

fun number_below :: "int \<Rightarrow> json \<Rightarrow> bool" where
  "number_below limit (JInt n) = (n < limit)"
| "number_below limit (JBool b) = ((if b then 1 else 0) < limit)"
| "number_below limit (JReal s) =
     (if strip_prefix ''-'' s \<noteq> None then True
      else if CHR ''e'' \<in> set s then contains ''e-'' s
      else (case int_of_text (takeWhile (\<lambda>c. c \<noteq> CHR ''.'') s) of None \<Rightarrow> False | Some n \<Rightarrow> n < limit))"
| "number_below limit _ = False"

definition exited_with_background_work ::
  "json_dict option \<Rightarrow> string \<Rightarrow> bool \<Rightarrow> int \<Rightarrow> int option \<Rightarrow> bool" where
  "exited_with_background_work terminal adapter dirty ahead pid =
     (case (terminal, pid) of
        (Some t, Some p) \<Rightarrow>
          adapter = ''claude-code'' \<and> int_of_json (jget t ''pid'') = Some p \<and> is_zero (jget t ''exit_code'') \<and>
          number_below background_exit_max_seconds (jget t ''duration_seconds'') \<and> dirty \<and> ahead = 0
      | _ \<Rightarrow> False)"

definition dead_fallback_kind :: "bool \<Rightarrow> bool \<Rightarrow> bool \<Rightarrow> string option" where
  "dead_fallback_kind is_completed unknown background =
     (if is_completed then Some ''unpublished_work''
      else if background \<and> \<not> unknown then Some background_exit_kind
      else if unknown then None else Some ''stalled'')"

definition wants_unsafe_salvage :: "string option \<Rightarrow> bool \<Rightarrow> string \<Rightarrow> string list \<Rightarrow> bool" where
  "wants_unsafe_salvage kind has_root branch active =
     (kind_in kind unsafe_kinds \<and> has_root \<and> branch \<noteq> [] \<and> active \<noteq> [])"

record dead_verdict =
  vd_stamps :: "string list"
  vd_escalate :: bool
  vd_reason :: "string option"
  vd_class :: string

definition dead_verdict_of :: "time_io \<Rightarrow> string list \<Rightarrow> string option \<Rightarrow> int \<Rightarrow> int \<Rightarrow> dead_verdict" where
  "dead_verdict_of io recent kind now cap =
     (let stamps = (if kind_in kind provider_throttle_kinds then recent else recent @ [ti_format io now]);
          cls = escalation_class_of kind;
          escalate = (ec_immediate cls \<or> cap < int (length stamps))
      in \<lparr> vd_stamps = stamps, vd_escalate = escalate,
           vd_reason = (if \<not> escalate then None
                        else if ec_immediate cls \<and> kind \<noteq> None then kind
                        else Some ''redispatch_cap_exceeded''),
           vd_class = ec_reason_class cls \<rparr>)"

section \<open>Plans\<close>

datatype dead_step =
  Persist_step string
| Escalate_launch_step
| Reap_step
| Restore_step
| Warn_tmp_step
| Background_exit_step
| Suspended_step
| Reclaim_step

definition launch_failure_source :: string where
  "launch_failure_source = ''dead_sessions_launch_failure''"

definition dead_reap_source :: string where
  "dead_reap_source = ''dead_sessions_reap''"

definition plan_launch_failed :: "string option \<Rightarrow> bool \<Rightarrow> dead_step list" where
  "plan_launch_failed kind has_open_pr =
     (if truthy kind then [Persist_step launch_failure_source] else []) @
     (if launch_failure_escalates kind has_open_pr then [Escalate_launch_step] else []) @
     [Reap_step, Restore_step]"

record dead_classification =
  dc_post_mortem_first :: bool
  dc_session_completed :: bool
  dc_fallback_kind :: "string option"

definition plan_dead_classification :: "bool \<Rightarrow> bool \<Rightarrow> bool \<Rightarrow> dead_classification" where
  "plan_dead_classification is_completed unknown background =
     \<lparr> dc_post_mortem_first = (\<not> is_completed), dc_session_completed = is_completed,
       dc_fallback_kind = dead_fallback_kind is_completed unknown background \<rparr>"

definition plan_dead_reap :: "string option \<Rightarrow> dead_step list" where
  "plan_dead_reap kind =
     (if truthy kind then [Persist_step dead_reap_source] else []) @ [Reap_step, Warn_tmp_step] @
     (if kind = Some background_exit_kind then [Background_exit_step] else []) @
     (if kind = Some ''provider_suspended'' then [Suspended_step] else []) @ [Reclaim_step]"

datatype no_pr_gate = Gate_skip | Gate_park | Gate_proceed

definition no_pr_gate_of :: "bool \<Rightarrow> string list \<Rightarrow> no_pr_gate" where
  "no_pr_gate_of issue_found active =
     (if \<not> issue_found then Gate_skip else if active \<noteq> [] then Gate_proceed else Gate_park)"

definition wants_publish_salvage :: "int \<Rightarrow> bool \<Rightarrow> bool" where
  "wants_publish_salvage ahead has_root = (0 < ahead \<and> has_root)"

definition wants_salvage_from_unsafe :: "int \<Rightarrow> bool" where
  "wants_salvage_from_unsafe ahead = (0 < ahead)"

definition scope_adjusted_kind :: "string option \<Rightarrow> bool \<Rightarrow> string option" where
  "scope_adjusted_kind kind scope_passed = (if scope_passed then kind else Some ''cross_repo_hop'')"

record launch_escalation =
  le_reason :: string
  le_class :: string
  le_stamps :: "string list"
  le_removed :: "string list"

definition plan_launch_escalation :: "time_io \<Rightarrow> string list \<Rightarrow> string \<Rightarrow> int \<Rightarrow> string list \<Rightarrow> launch_escalation" where
  "plan_launch_escalation io recent kind now active =
     \<lparr> le_reason = kind, le_class = ec_reason_class (escalation_class_of (Some kind)),
       le_stamps = launch_failure_redispatch_at io recent now, le_removed = sort active \<rparr>"

record reclaim_commit =
  rl_verdict :: dead_verdict
  rl_removed :: "string list"
  rl_add_ready :: bool

definition plan_reclaim_commit ::
  "time_io \<Rightarrow> string list \<Rightarrow> string option \<Rightarrow> int \<Rightarrow> int \<Rightarrow> string list \<Rightarrow> bool \<Rightarrow> reclaim_commit" where
  "plan_reclaim_commit io recent kind now cap active ready_present =
     \<lparr> rl_verdict = dead_verdict_of io recent kind now cap, rl_removed = sort active,
       rl_add_ready = (\<not> ready_present) \<rparr>"

datatype open_pr_route = Route_skip | Route_restore | Route_inspect | Route_pre_review

definition open_pr_route_of :: "bool \<Rightarrow> bool \<Rightarrow> open_pr_route" where
  "open_pr_route_of is_completed has_rework_pr =
     (if is_completed then Route_skip else if has_rework_pr then Route_inspect else Route_restore)"

definition open_pr_candidate_route :: "bool \<Rightarrow> open_pr_route" where
  "open_pr_candidate_route is_candidate = (if is_candidate then Route_pre_review else Route_restore)"

text \<open>
  \<^verbatim>\<open>cross_repo_scope_gate\<close> of \<^verbatim>\<open>cross_repo_gate.py\<close>: the other managed repository whose name and a colon
  open the title, if any.
\<close>

definition scope_target :: "string \<Rightarrow> string \<Rightarrow> string list \<Rightarrow> string option" where
  "scope_target title repo managed =
     (let t = dropWhile is_space (lower title)
      in find (\<lambda>r. strip_prefix (lower r @ '':'') t \<noteq> None) (sort (filter (\<lambda>r. r \<noteq> repo) managed)))"

section \<open>Facts, requests and commits\<close>

datatype worktree_state = Worktree_completed | Worktree_partial | Worktree_no_commits | Worktree_unknown

record inspection =
  in_state :: worktree_state
  in_ahead :: int
  in_dirty :: bool
  in_base_ref :: "string option"

text \<open>The live issue: its title (empty where it has none) and its labels.\<close>

record live_issue =
  li_title :: string
  li_labels :: "string list"

record dead_session =
  dd_issue :: int
  dd_pid :: "int option"
  dd_start :: json
  dd_error :: "string option"
  dd_adapter :: string
  dd_branch :: string
  dd_provider :: json

text \<open>
  \<^verbatim>\<open>SessionPass\<close>: what a pass reads once, with the configuration the lane uses. \<open>df_classifies\<close> says
  whether an adapter's profile records failures; \<open>df_open_prs\<close> are the open pull requests by the issue
  they link.
\<close>

record dead_facts =
  df_active :: "string list"
  df_ready :: string
  df_base_ref :: string
  df_has_root :: bool
  df_repo :: string
  df_fleet_repos :: "string list"
  df_max_redispatch :: int
  df_stale_minutes :: int
  df_open_prs :: "(int \<times> pull_row list) list"
  df_classifies :: "string \<Rightarrow> bool"
  df_persist_counter :: bool
  df_now :: int

datatype dead_request =
  Is_session_alive int
| Confirm_dead int bool
| Inspect_session_worktree int
| Read_terminal_status int
| Classify_failure int "string option" bool
| View_live_issue int
| Inspect_branch_worktree string
| Salvage_commits int string string "string list" "string option"
| Read_redispatches int
| Write_issue_labels int "string list" "string list"
| View_pull int

datatype dead_result =
  DR_bool bool
| DR_inspection inspection
| DR_terminal "json_dict option"
| DR_kind "string option" "string option"
| DR_issue "live_issue option"
| DR_salvage bool "string option"
| DR_stamps "string list" int
| DR_pull "pull_row option"

text \<open>
  An escalation names its reason, class and stamps, and whether the fingerprint of the process is dropped
  with it.
\<close>

datatype dead_commit =
  Persist_kind int string string "string option"
| Drop_sidecar int
| Restore_rework int "string option"
| Warn_literal_tmp int
| Log_event string json_dict
| Post_mortem_of int
| Park_labelless int "string list"
| Escalate_dead_issue int string string "string list" bool
| Move_label int string
| Save_redispatches int "string list"
| Send_to_pre_review int int string "string option"

type_synonym 'a dead_gen = "(dead_commit, dead_request, dead_result, 'a) gen"

fun flag_of :: "dead_result \<Rightarrow> bool option" where
  "flag_of (DR_bool b) = Some b" | "flag_of _ = None"

fun inspection_of :: "dead_result \<Rightarrow> inspection option" where
  "inspection_of (DR_inspection i) = Some i" | "inspection_of _ = None"

fun terminal_of :: "dead_result \<Rightarrow> json_dict option option" where
  "terminal_of (DR_terminal t) = Some t" | "terminal_of _ = None"

fun kind_of :: "dead_result \<Rightarrow> (string option \<times> string option) option" where
  "kind_of (DR_kind k u) = Some (k, u)" | "kind_of _ = None"

fun live_issue_of :: "dead_result \<Rightarrow> live_issue option option" where
  "live_issue_of (DR_issue i) = Some i" | "live_issue_of _ = None"

fun salvage_of :: "dead_result \<Rightarrow> (bool \<times> string option) option" where
  "salvage_of (DR_salvage ok e) = Some (ok, e)" | "salvage_of _ = None"

fun stamps_of :: "dead_result \<Rightarrow> (string list \<times> int) option" where
  "stamps_of (DR_stamps ss now) = Some (ss, now)" | "stamps_of _ = None"

fun pull_of :: "dead_result \<Rightarrow> pull_row option option" where
  "pull_of (DR_pull p) = Some p" | "pull_of _ = None"

text \<open>\<open>or_raise\<close> is a value whose absence is an exception.\<close>

definition or_raise :: "'a option \<Rightarrow> 'a dead_gen" where
  "or_raise x = (case x of None \<Rightarrow> Raise | Some a \<Rightarrow> Return a)"

section \<open>The shell\<close>

definition session_active_labels :: "dead_facts \<Rightarrow> string list \<Rightarrow> string list" where
  "session_active_labels facts labels = filter (\<lambda>l. l \<in> set (df_active facts)) (remdups labels)"

definition has_open_pr :: "dead_facts \<Rightarrow> int \<Rightarrow> bool" where
  "has_open_pr facts n = (n \<in> fst ` set (df_open_prs facts))"

text \<open>\<^verbatim>\<open>_rework_pr_for_worker\<close>.\<close>

definition rework_pr_for :: "dead_facts \<Rightarrow> dead_session \<Rightarrow> pull_row option" where
  "rework_pr_for facts w =
     (case map_of (df_open_prs facts) (dd_issue w) of
        None \<Rightarrow> None
      | Some prs \<Rightarrow>
          if prs = [] then None
          else (case find (\<lambda>p. pw_head_ref p = Some (dd_branch w)) prs of
                  Some p \<Rightarrow> Some p
                | None \<Rightarrow> find (\<lambda>p. pw_number p = Min (set (map pw_number prs))) prs))"

text \<open>The escalation the two halves share: the entry, the label edge, the event.\<close>

definition escalate_session ::
  "int \<Rightarrow> string \<Rightarrow> string \<Rightarrow> string list \<Rightarrow> bool \<Rightarrow> string option \<Rightarrow> string list \<Rightarrow> unit dead_gen" where
  "escalate_session n reason class stamps drop_fingerprint kind removed =
     Commit (Escalate_dead_issue n reason class stamps drop_fingerprint)
       (bind_flow (or_raise (escalation_edge ''redispatch_escalated'' class)) (\<lambda>edge.
        Commit (Move_label n edge)
          (commit_flow (Log_event ''session_failed_escalated''
            [(''issue_number'', JInt n), (''failure_kind'', opt_json kind), (''removed_labels'', strs_json removed),
             (''redispatch_count'', JInt (int (length stamps)))]))))"

definition labels_of :: "live_issue option \<Rightarrow> string list" where
  "labels_of issue = (case issue of None \<Rightarrow> [] | Some i \<Rightarrow> li_labels i)"

text \<open>Whether the commits of an unsafe worktree were salvaged.\<close>

definition salvage_unsafe_flow :: "dead_facts \<Rightarrow> dead_session \<Rightarrow> string option \<Rightarrow> string list \<Rightarrow> bool dead_gen" where
  "salvage_unsafe_flow facts w kind active =
     (if wants_unsafe_salvage kind (df_has_root facts) (dd_branch w) active
      then bind_flow (ask (Inspect_branch_worktree (dd_branch w)) inspection_of) (\<lambda>i.
        if wants_salvage_from_unsafe (in_ahead i)
        then bind_flow (ask (Salvage_commits (dd_issue w) (dd_branch w)
               (if truthy (in_base_ref i) then the (in_base_ref i) else df_base_ref facts) active kind) salvage_of)
               (\<lambda>(ok, _). Return ok)
        else Return False)
      else Return False)"

definition escalate_launch_flow :: "time_io \<Rightarrow> dead_facts \<Rightarrow> dead_session \<Rightarrow> string \<Rightarrow> unit dead_gen" where
  "escalate_launch_flow io facts w kind =
     bind_flow (ask (View_live_issue (dd_issue w)) live_issue_of) (\<lambda>issue.
     bind_flow (salvage_unsafe_flow facts w (Some kind) (session_active_labels facts (labels_of issue))) (\<lambda>salvaged.
       if salvaged then Return ()
       else bind_flow (ask (Read_redispatches (dd_issue w)) stamps_of) (\<lambda>(recent, now).
         let plan = plan_launch_escalation io recent kind now (session_active_labels facts (labels_of issue))
         in escalate_session (dd_issue w) (le_reason plan) (le_class plan) (le_stamps plan) True (Some kind)
              (le_removed plan))))"

text \<open>The salvage of the first half: None where there was nothing to salvage, else how it ended.\<close>

definition publish_salvage_flow ::
  "dead_facts \<Rightarrow> dead_session \<Rightarrow> string option \<Rightarrow> inspection \<Rightarrow> string list \<Rightarrow> (bool \<times> string option) dead_gen" where
  "publish_salvage_flow facts w kind i active =
     (if wants_publish_salvage (in_ahead i) (df_has_root facts)
      then ask (Salvage_commits (dd_issue w) (dd_branch w) (or_empty (in_base_ref i)) active kind) salvage_of
      else Return (False, None))"

definition relabel_flow ::
  "dead_facts \<Rightarrow> dead_session \<Rightarrow> string option \<Rightarrow> inspection \<Rightarrow> reclaim_commit \<Rightarrow> string option \<Rightarrow> unit dead_gen" where
  "relabel_flow facts w kind i plan salvage_error =
     (let n = dd_issue w
      in Commit (Save_redispatches n (vd_stamps (rl_verdict plan)))
        (bind_flow (ask (Write_issue_labels n (if rl_add_ready plan then [df_ready facts] else []) (rl_removed plan))
           flag_of) (\<lambda>ok.
         commit_flow (Log_event ''session_failed_relabeled''
           (relabeled_payload n ''dead_worker_no_open_pr'' (opt_json kind) (rl_removed plan) (rl_add_ready plan) ok
             [(''salvage_failed'', JBool (0 < in_ahead i)), (''salvage_error'', opt_json salvage_error)])))))"

text \<open>\<^verbatim>\<open>_reclaim_no_open_pr\<close>.\<close>

definition reclaim_no_open_pr ::
  "time_io \<Rightarrow> dead_facts \<Rightarrow> dead_session \<Rightarrow> string option \<Rightarrow> inspection \<Rightarrow> unit dead_gen" where
  "reclaim_no_open_pr io facts w kind i =
     bind_flow (ask (View_live_issue (dd_issue w)) live_issue_of) (\<lambda>issue.
     let n = dd_issue w; active = session_active_labels facts (labels_of issue)
     in case no_pr_gate_of (issue \<noteq> None) active of
          Gate_skip \<Rightarrow> Return ()
        | Gate_park \<Rightarrow> commit_flow (Park_labelless n (labels_of issue))
        | Gate_proceed \<Rightarrow>
            bind_flow (publish_salvage_flow facts w kind i active) (\<lambda>(salvaged, salvage_error).
              if salvaged then Return ()
              else
                let scoped = scope_adjusted_kind kind
                      (scope_target (li_title (the issue)) (df_repo facts) (df_fleet_repos facts) = None)
                in bind_flow (ask (Read_redispatches n) stamps_of) (\<lambda>(recent, now).
                  let plan = plan_reclaim_commit io recent scoped now (df_max_redispatch facts) active
                               (df_ready facts \<in> set (labels_of issue));
                      v = rl_verdict plan
                  in if vd_escalate v
                     then escalate_session n (or_empty (vd_reason v)) (vd_class v) (vd_stamps v) False scoped
                            (rl_removed plan)
                     else relabel_flow facts w scoped i plan salvage_error)))"

text \<open>\<^verbatim>\<open>_route_open_pr\<close>.\<close>

definition route_open_pr ::
  "iso_parser \<Rightarrow> dead_facts \<Rightarrow> dead_session \<Rightarrow> string option \<Rightarrow> bool \<Rightarrow> unit dead_gen" where
  "route_open_pr fromiso facts w kind is_completed =
     (let restore = commit_flow (Restore_rework (dd_issue w) kind); pr = rework_pr_for facts w
      in case open_pr_route_of is_completed (pr \<noteq> None) of
           Route_skip \<Rightarrow> Return ()
         | Route_restore \<Rightarrow> restore
         | _ \<Rightarrow>
             bind_flow (ask (View_pull (pw_number (the pr))) pull_of) (\<lambda>view.
               let seen = (case view of None \<Rightarrow> the pr | Some v \<Rightarrow> v);
                   (candidate, reason) = is_pre_review_rework_candidate fromiso seen (df_stale_minutes facts) (df_now facts)
               in if open_pr_candidate_route candidate = Route_pre_review
                  then commit_flow (Send_to_pre_review (dd_issue w) (pw_number seen) reason kind)
                  else restore))"

definition reclaim_or_route ::
  "time_io \<Rightarrow> dead_facts \<Rightarrow> dead_session \<Rightarrow> string option \<Rightarrow> inspection \<Rightarrow> unit dead_gen" where
  "reclaim_or_route io facts w kind i =
     (if has_open_pr facts (dd_issue w)
      then route_open_pr (ti_fromiso io) facts w kind (in_state i = Worktree_completed)
      else reclaim_no_open_pr io facts w kind i)"

text \<open>\<^verbatim>\<open>_run_steps\<close>: a step without a handler raises.\<close>

fun run_steps :: "(dead_step \<Rightarrow> unit dead_gen) \<Rightarrow> dead_step list \<Rightarrow> unit dead_gen" where
  "run_steps handle [] = Return ()"
| "run_steps handle (s # ss) = bind_flow (handle s) (\<lambda>_. run_steps handle ss)"

text \<open>\<^verbatim>\<open>_reap_entry\<close>: the row of a reaped session.\<close>

definition reap_entry :: "dead_session \<Rightarrow> string option \<Rightarrow> json_dict" where
  "reap_entry w kind =
     [(''issue_number'', JInt (dd_issue w)), (''adapter_kind'', JStr (dd_adapter w)), (''failure_kind'', opt_json kind),
      (''error'', opt_json (dd_error w)), (''pid'', opt_int_json (dd_pid w))]"

fun launch_step ::
  "time_io \<Rightarrow> dead_facts \<Rightarrow> dead_session \<Rightarrow> string option \<Rightarrow> string option \<Rightarrow> dead_step \<Rightarrow> unit dead_gen" where
  "launch_step io facts w kind until (Persist_step src) =
     commit_flow (Persist_kind (dd_issue w) src (or_empty kind) until)"
| "launch_step io facts w kind until Escalate_launch_step = escalate_launch_flow io facts w (or_empty kind)"
| "launch_step io facts w kind until Reap_step = commit_flow (Drop_sidecar (dd_issue w))"
| "launch_step io facts w kind until Restore_step = commit_flow (Restore_rework (dd_issue w) kind)"
| "launch_step io facts w kind until _ = Raise"

definition reap_launch_failed :: "time_io \<Rightarrow> dead_facts \<Rightarrow> dead_session \<Rightarrow> json_dict dead_gen" where
  "reap_launch_failed io facts w =
     bind_flow (if df_classifies facts (dd_adapter w)
                then ask (Classify_failure (dd_issue w) (Some ''launch_failed'') False) kind_of
                else Return (Some ''launch_failed'', None)) (\<lambda>(kind, until).
     bind_flow (run_steps (launch_step io facts w kind until)
                 (plan_launch_failed kind (has_open_pr facts (dd_issue w)))) (\<lambda>_.
     Return (reap_entry w kind)))"

fun dead_step_flow ::
  "time_io \<Rightarrow> dead_facts \<Rightarrow> dead_session \<Rightarrow> inspection \<Rightarrow> string option \<Rightarrow> string option \<Rightarrow> dead_step \<Rightarrow> unit dead_gen" where
  "dead_step_flow io facts w i kind until (Persist_step src) =
     commit_flow (Persist_kind (dd_issue w) src (or_empty kind) until)"
| "dead_step_flow io facts w i kind until Reap_step = commit_flow (Drop_sidecar (dd_issue w))"
| "dead_step_flow io facts w i kind until Warn_tmp_step = commit_flow (Warn_literal_tmp (dd_issue w))"
| "dead_step_flow io facts w i kind until Background_exit_step =
     commit_flow (Log_event background_exit_kind
       [(''issue_number'', JInt (dd_issue w)), (''pid'', opt_int_json (dd_pid w)), (''adapter_kind'', JStr (dd_adapter w)),
        (''failure_kind'', opt_json kind), (''ahead_count'', JInt (in_ahead i))])"
| "dead_step_flow io facts w i kind until Suspended_step =
     commit_flow (Log_event ''api_worker_provider_suspended''
       [(''issue_number'', JInt (dd_issue w)), (''pid'', opt_int_json (dd_pid w)), (''process_start_time'', dd_start w),
        (''provider'', dd_provider w), (''failure_kind'', opt_json kind)])"
| "dead_step_flow io facts w i kind until Reclaim_step = reclaim_or_route io facts w kind i"
| "dead_step_flow io facts w i kind until _ = Raise"

text \<open>\<open>background_flow\<close> reads the terminal record only for a worktree that is not completed.\<close>

definition background_flow :: "dead_session \<Rightarrow> inspection \<Rightarrow> bool dead_gen" where
  "background_flow w i =
     (if in_state i = Worktree_completed then Return False
      else bind_flow (ask (Read_terminal_status (dd_issue w)) terminal_of) (\<lambda>t.
        Return (exited_with_background_work t (dd_adapter w) (in_dirty i) (in_ahead i) (dd_pid w))))"

definition classify_flow ::
  "dead_facts \<Rightarrow> dead_session \<Rightarrow> dead_classification \<Rightarrow> (string option \<times> string option) dead_gen" where
  "classify_flow facts w c =
     (let n = dd_issue w;
          classify = (if df_classifies facts (dd_adapter w)
                      then ask (Classify_failure n (dc_fallback_kind c) (dc_session_completed c)) kind_of
                      else Return (None, None))
      in if dc_post_mortem_first c then Commit (Post_mortem_of n) classify
         else bind_flow classify (\<lambda>x. Commit (Post_mortem_of n) (Return x)))"

text \<open>\<^verbatim>\<open>_reap_dead\<close>: no row for a worker whose death is not confirmed yet.\<close>

definition reap_dead :: "time_io \<Rightarrow> dead_facts \<Rightarrow> dead_session \<Rightarrow> json_dict option dead_gen" where
  "reap_dead io facts w =
     bind_flow (ask (Confirm_dead (dd_issue w) (df_persist_counter facts)) flag_of) (\<lambda>dead.
       if \<not> dead then Return None
       else
         bind_flow (ask (Inspect_session_worktree (dd_issue w)) inspection_of) (\<lambda>i.
         bind_flow (background_flow w i) (\<lambda>background.
         bind_flow (classify_flow facts w (plan_dead_classification (in_state i = Worktree_completed)
                      (in_state i = Worktree_unknown) background)) (\<lambda>(kind, until).
         bind_flow (run_steps (dead_step_flow io facts w i kind until) (plan_dead_reap kind)) (\<lambda>_.
         Return (Some (reap_entry w kind)))))))"

definition dead_session_flow :: "time_io \<Rightarrow> dead_facts \<Rightarrow> dead_session \<Rightarrow> json_dict option dead_gen" where
  "dead_session_flow io facts w =
     (if dd_pid w = None \<and> dd_error w \<noteq> None
      then bind_flow (reap_launch_failed io facts w) (\<lambda>row. Return (Some row))
      else bind_flow (ask (Is_session_alive (dd_issue w)) flag_of) (\<lambda>alive.
        if alive then Return None else reap_dead io facts w))"

text \<open>\<^verbatim>\<open>classify_dead_sessions\<close>: the rows of the sessions that were reaped.\<close>

definition dead_sessions_flow :: "time_io \<Rightarrow> dead_facts \<Rightarrow> dead_session list \<Rightarrow> json_dict list dead_gen" where
  "dead_sessions_flow io facts workers =
     loop_flow (\<lambda>w rows. bind_flow (dead_session_flow io facts w) (\<lambda>row.
       Return (case row of None \<Rightarrow> rows | Some r \<Rightarrow> rows @ [r]))) workers []"

section \<open>Running the lane\<close>

record 'w dead_world =
  dx_serve :: "dead_request \<Rightarrow> 'w \<Rightarrow> 'w \<times> dead_result option"
  dx_apply :: "dead_commit \<Rightarrow> 'w \<Rightarrow> 'w \<times> bool"

text \<open>The result is None after an exception, which ends the pass with the effects so far.\<close>

primrec perform :: "'w dead_world \<Rightarrow> 'a dead_gen \<Rightarrow> 'w \<Rightarrow> 'w \<times> 'a option" where
  "perform dx (Return a) w = (w, Some a)"
| "perform dx (Commit c f) w =
     (case dx_apply dx c w of (w', True) \<Rightarrow> perform dx f w' | (w', False) \<Rightarrow> (w', None))"
| "perform dx (Ask q f) w =
     (case dx_serve dx q w of (w', Some r) \<Rightarrow> perform dx (f r) w' | (w', None) \<Rightarrow> (w', None))"
| "perform dx Raise w = (w, None)"

text \<open>What \<open>Read_redispatches\<close> is served: the stamps in the window of the entry read under the lock.\<close>

definition served_redispatches :: "time_io \<Rightarrow> int \<Rightarrow> int \<Rightarrow> int \<Rightarrow> json_dict \<Rightarrow> dead_result option" where
  "served_redispatches io window_minutes now n state =
     map_option (\<lambda>stamps. DR_stamps stamps now)
       (windowed_redispatch_at (ti_fromiso io) (entry_dict (state_entry state n)) window_minutes now)"

end
