(* ===== verification/Dead_Props.thy ===== *)
theory Dead_Props
  imports Dead_Sessions Digit_Clock "HOL-Library.Sublist"
begin

text \<open>
  What the lane of the dead sessions promises: how many deaths an issue survives before it goes to a human,
  what must hold before an issue is put back, and in which order a session is reaped.
\<close>

section \<open>The cap on redispatches\<close>

text \<open>
  The deaths of one issue's workers, each with its kind and its time, played against the entry of the
  issue: whether one of them escalated. None is an exception.
\<close>

fun deaths_escalate :: "time_io \<Rightarrow> int \<Rightarrow> int \<Rightarrow> json_dict \<Rightarrow> (string option \<times> int) list \<Rightarrow> bool option" where
  "deaths_escalate io window_minutes cap entry [] = Some False"
| "deaths_escalate io window_minutes cap entry ((kind, now) # deaths) =
     (case windowed_redispatch_at (ti_fromiso io) entry window_minutes now of
        None \<Rightarrow> None
      | Some recent \<Rightarrow>
          (let v = dead_verdict_of io recent kind now cap
           in if vd_escalate v then Some True
              else deaths_escalate io window_minutes cap (jput entry ''redispatch_at'' (strs_json (vd_stamps v))) deaths))"

definition deterministic_death :: "string option \<Rightarrow> bool" where
  "deterministic_death kind = (kind_in kind deterministic_kinds \<or> kind_in kind judgment_kinds)"

definition counted_death :: "string option \<Rightarrow> bool" where
  "counted_death kind = (\<not> kind_in kind provider_throttle_kinds)"

lemma windowed_stamps:
  assumes "\<And>t. t \<in> set ts \<Longrightarrow> fromiso (zulu (fmt t)) = Some (Aware t)"
  shows "windowed fromiso (Aware start) (map JStr (map fmt ts)) = Some (map fmt (filter (\<lambda>t. start \<le> t) ts))"
  using assms by (induction ts) auto

lemma verdict_simps:
  "vd_escalate (dead_verdict_of io recent kind now cap) \<longleftrightarrow>
     deterministic_death kind \<or> cap < int (length recent) + (if counted_death kind then 1 else 0)"
  "vd_stamps (dead_verdict_of io recent kind now cap) =
     (if counted_death kind then recent @ [ti_format io now] else recent)"
  by (auto simp: dead_verdict_of_def escalation_class_of_def Let_def deterministic_death_def counted_death_def)

definition history :: "time_io \<Rightarrow> json_dict \<Rightarrow> int list \<Rightarrow> bool" where
  "history io entry ts \<longleftrightarrow>
     (jget entry ''redispatch_at'' = strs_json (map (ti_format io) ts) \<or>
      jget entry ''redispatch_at'' = JNull \<and> ts = []) \<and>
     jget entry ''no_op_checkpoint_at'' = JNull"

lemma history_window:
  assumes "history io entry ts" and "\<And>t. t \<in> set ts \<Longrightarrow> ti_fromiso io (zulu (ti_format io t)) = Some (Aware t)"
    and "\<And>t. t \<in> set ts \<Longrightarrow> now \<le> t + minutes window_minutes"
  shows "windowed_redispatch_at (ti_fromiso io) entry window_minutes now = Some (map (ti_format io) ts)"
proof -
  have all: "filter (\<lambda>t. now - minutes window_minutes \<le> t) ts = ts"
    using assms(3) by (auto intro!: filter_True simp: algebra_simps)
  have "no_op_window_start (ti_fromiso io) entry window_minutes now = Some (Aware (now - minutes window_minutes))"
    using assms(1) by (simp add: no_op_window_start_def no_op_checkpoint_def history_def Let_def)
  moreover have "windowed (ti_fromiso io) (Aware (now - minutes window_minutes)) (map JStr (map (ti_format io) ts)) =
      Some (map (ti_format io) ts)"
    using windowed_stamps [of ts "ti_fromiso io" "ti_format io"] assms(2) all by metis
  ultimately show ?thesis
    using assms(1)
    by (auto simp: windowed_redispatch_at_def windowed_field_def history_def strs_json_def simp del: map_map)
qed

lemma deaths_from:
  assumes "history io entry ts" and "int (length ts) \<le> cap"
    and "\<And>t. t \<in> set ts \<union> snd ` set deaths \<Longrightarrow> ti_fromiso io (zulu (ti_format io t)) = Some (Aware t)"
    and "\<And>t u. t \<in> set ts \<union> snd ` set deaths \<Longrightarrow> u \<in> snd ` set deaths \<Longrightarrow> u \<le> t + minutes window_minutes"
  shows "deaths_escalate io window_minutes cap entry deaths =
    Some ((\<exists>d \<in> set deaths. deterministic_death (fst d)) \<or>
          cap < int (length ts) + int (length (filter (\<lambda>d. counted_death (fst d)) deaths)))"
  using assms
proof (induction deaths arbitrary: entry ts)
  case (Cons d deaths)
  obtain kind now where d: "d = (kind, now)"
    by (cases d)
  define v where "v = dead_verdict_of io (map (ti_format io) ts) kind now cap"
  define ts' where "ts' = (if counted_death kind then ts @ [now] else ts)"
  have recent: "windowed_redispatch_at (ti_fromiso io) entry window_minutes now = Some (map (ti_format io) ts)"
    by (rule history_window [OF Cons.prems(1)]) (use Cons.prems(3,4) d in auto)
  have stamps: "vd_stamps v = map (ti_format io) ts'"
    by (simp add: v_def verdict_simps ts'_def)
  show ?case
  proof (cases "vd_escalate v")
    case True
    then have "deterministic_death kind \<or> cap < int (length ts) + (if counted_death kind then 1 else 0)"
      by (simp add: v_def verdict_simps)
    then show ?thesis
      using True recent Cons.prems(2) by (auto simp: d v_def [symmetric])
  next
    case False
    then have "\<not> deterministic_death kind" "int (length ts') \<le> cap"
      by (auto simp: v_def verdict_simps ts'_def split: if_splits)
    moreover have "deaths_escalate io window_minutes cap (jput entry ''redispatch_at'' (strs_json (vd_stamps v))) deaths =
        Some ((\<exists>d \<in> set deaths. deterministic_death (fst d)) \<or>
          cap < int (length ts') + int (length (filter (\<lambda>d. counted_death (fst d)) deaths)))"
    proof (rule Cons.IH)
      show "history io (jput entry ''redispatch_at'' (strs_json (vd_stamps v))) ts'"
        using Cons.prems(1) by (simp add: history_def stamps)
    qed (use Cons.prems(3,4) d \<open>int (length ts') \<le> cap\<close> in \<open>auto simp: ts'_def split: if_splits\<close>)
    ultimately show ?thesis
      using False recent by (auto simp: d v_def [symmetric] ts'_def)
  qed
qed simp

text \<open>
  C31. The deaths of an issue's workers within one window end in an escalation exactly when one of them is of
  a deterministic kind, or more of them than the cap allows are not the provider's throttling: a throttled
  death is never counted, whatever its number.
\<close>

theorem deaths_are_capped:
  assumes "jget entry ''redispatch_at'' = JNull" and "jget entry ''no_op_checkpoint_at'' = JNull" and "0 \<le> cap"
    and "\<And>t. t \<in> snd ` set deaths \<Longrightarrow> ti_fromiso io (zulu (ti_format io t)) = Some (Aware t)"
    and "\<And>t u. t \<in> snd ` set deaths \<Longrightarrow> u \<in> snd ` set deaths \<Longrightarrow> u \<le> t + minutes window_minutes"
  shows "deaths_escalate io window_minutes cap entry deaths =
    Some ((\<exists>d \<in> set deaths. deterministic_death (fst d)) \<or>
          cap < int (length (filter (\<lambda>d. counted_death (fst d)) deaths)))"
  using deaths_from [of io entry "[]" cap deaths window_minutes] assms by (simp add: history_def)

section \<open>Before an issue is put back\<close>


definition takes_back :: "dead_commit \<Rightarrow> bool" where
  "takes_back c \<longleftrightarrow> (case c of Escalate_dead_issue _ _ _ _ _ \<Rightarrow> True | Move_label _ _ \<Rightarrow> True
     | Save_redispatches _ _ \<Rightarrow> True | _ \<Rightarrow> False)"



lemma run_ask_last:
  "run_flow (ask q res) obs =
     (case obs q of
        None \<Rightarrow> (gen_end.Pending q, [])
      | Some r \<Rightarrow> (case res r of None \<Rightarrow> (Raised, []) | Some a \<Rightarrow> (Finished a, [])))"
  by (simp add: ask_def split: option.split)




text \<open>A flow that takes nothing back: none of its commits does, and it never asks to write labels.\<close>

definition takes_nothing :: "'a dead_gen \<Rightarrow> (dead_request \<Rightarrow> dead_result option) \<Rightarrow> bool" where
  "takes_nothing f obs \<longleftrightarrow>
     (\<forall>c \<in> set (snd (run_flow f obs)). \<not> takes_back c) \<and>
     (\<forall>n add remove. fst (run_flow f obs) \<noteq> gen_end.Pending (Write_issue_labels n add remove))"

lemma takes_nothing_simps [simp]:
  "takes_nothing (Return a) obs" "takes_nothing Raise obs" "takes_nothing (commit_flow c) obs \<longleftrightarrow> \<not> takes_back c"
  "takes_nothing (Commit c f) obs \<longleftrightarrow> \<not> takes_back c \<and> takes_nothing f obs"
  by (auto simp: takes_nothing_def commit_flow_def split: prod.split)


lemma takes_nothing_ask_last [simp]:
  "(\<forall>n add remove. q \<noteq> Write_issue_labels n add remove) \<Longrightarrow> takes_nothing (ask q res) obs"
  by (auto simp: takes_nothing_def run_ask_last split: option.split)















section \<open>The order of a reap\<close>

text \<open>A flow whose commits all have a property, on every path.\<close>

primrec commits_in :: "('c \<Rightarrow> bool) \<Rightarrow> ('c, 'q, 'r, 'a) gen \<Rightarrow> bool" where
  "commits_in C (Return a) = True"
| "commits_in C (Commit c f) = (C c \<and> commits_in C f)"
| "commits_in C (Ask q f) = (\<forall>r. commits_in C (f r))"
| "commits_in C Raise = True"



lemma commits_in_ask [simp]: "commits_in C (ask q res)" "commits_in C (bind_flow (ask q res) k) = (\<forall>r. case res r of None \<Rightarrow> True | Some a \<Rightarrow> commits_in C (k a))"
  by (auto simp: ask_def split: option.split)

lemma commits_in_commit_flow [simp]: "commits_in C (commit_flow c) = C c"
  by (simp add: commit_flow_def)

lemma commits_in_or_raise [simp]: "commits_in C (bind_flow (or_raise x) k) = (case x of None \<Rightarrow> True | Some a \<Rightarrow> commits_in C (k a))"
  by (simp add: or_raise_def split: option.split)



















section \<open>Every pass returns\<close>

fun typed_dead :: "dead_request \<Rightarrow> dead_result \<Rightarrow> bool" where
  "typed_dead (Is_session_alive n) r \<longleftrightarrow> flag_of r \<noteq> None"
| "typed_dead (Confirm_dead n persist) r \<longleftrightarrow> flag_of r \<noteq> None"
| "typed_dead (Inspect_session_worktree n) r \<longleftrightarrow> inspection_of r \<noteq> None"
| "typed_dead (Read_terminal_status n) r \<longleftrightarrow> terminal_of r \<noteq> None"
| "typed_dead (Classify_failure n fallback completed) r \<longleftrightarrow> kind_of r \<noteq> None"
| "typed_dead (View_live_issue n) r \<longleftrightarrow> live_issue_of r \<noteq> None"
| "typed_dead (Inspect_branch_worktree b) r \<longleftrightarrow> inspection_of r \<noteq> None"
| "typed_dead (Salvage_commits n b base active kind) r \<longleftrightarrow> salvage_of r \<noteq> None"
| "typed_dead (Read_redispatches n) r \<longleftrightarrow> stamps_of r \<noteq> None"
| "typed_dead (Write_issue_labels n add remove) r \<longleftrightarrow> flag_of r \<noteq> None"
| "typed_dead (View_pull n) r \<longleftrightarrow> pull_of r \<noteq> None"

definition dead_contract :: "(dead_commit, dead_request, dead_result) gen_contract" where
  "dead_contract = \<lparr> ct_result = typed_dead, ct_request = (\<lambda>_. True), ct_commit = (\<lambda>_. True) \<rparr>"

lemma dead_contract_simps [simp]:
  "ct_result dead_contract = typed_dead" "ct_request dead_contract q" "ct_commit dead_contract c"
  by (simp_all add: dead_contract_def)

lemma escalate_session_sat:
  "cls \<in> {''judgment'', ''mechanical''} \<Longrightarrow>
     flow_sat dead_contract (\<lambda>_. True) (escalate_session n reason cls stamps drop_fp kind removed) k"
  by (auto simp: escalate_session_def escalation_edge_def escalation_reason_class_def escalation_reason_classes_def
      or_raise_def)

lemma class_cases: "ec_reason_class (escalation_class_of kind) \<in> {''judgment'', ''mechanical''}"
  by (simp add: escalation_class_of_def Let_def)

lemma salvage_unsafe_sat: "flow_sat dead_contract (\<lambda>_. True) (salvage_unsafe_flow facts w kind active) 2"
  by (auto simp: salvage_unsafe_flow_def split: option.split)

lemma escalate_launch_sat: "flow_sat dead_contract (\<lambda>_. True) (escalate_launch_flow io facts w kind) 4"
  using class_cases [of "Some kind"]
  by (auto simp: escalate_launch_flow_def Let_def plan_launch_escalation_def split: option.split
      intro!: flow_sat_bind [OF salvage_unsafe_sat] escalate_session_sat)

lemma publish_salvage_sat: "flow_sat dead_contract (\<lambda>_. True) (publish_salvage_flow facts w kind i active) 1"
  by (auto simp: publish_salvage_flow_def split: option.split)

lemma verdict_class: "vd_class (dead_verdict_of io recent kind now cap) \<in> {''judgment'', ''mechanical''}"
  using class_cases by (simp add: dead_verdict_of_def Let_def)

lemma escalate_verdict_sat:
  "flow_sat dead_contract (\<lambda>_. True)
     (escalate_session n reason (vd_class (dead_verdict_of io recent kind now cap)) stamps drop_fp k removed) m"
  using verdict_class by (rule escalate_session_sat)

lemma reclaim_no_open_pr_sat: "flow_sat dead_contract (\<lambda>_. True) (reclaim_no_open_pr io facts w kind i) 4"
  by (auto simp: reclaim_no_open_pr_def Let_def plan_reclaim_commit_def relabel_flow_def
      split: option.split no_pr_gate.split intro!: flow_sat_bind [OF publish_salvage_sat] escalate_verdict_sat)

lemma route_open_pr_sat: "flow_sat dead_contract (\<lambda>_. True) (route_open_pr fromiso facts w kind done) 1"
  by (auto simp: route_open_pr_def Let_def split: option.split open_pr_route.split prod.split)

lemma reclaim_or_route_sat: "flow_sat dead_contract (\<lambda>_. True) (reclaim_or_route io facts w kind i) 4"
  using flow_sat_mono [OF route_open_pr_sat, of "\<lambda>_. True" 4] reclaim_no_open_pr_sat
  by (simp add: reclaim_or_route_def)

lemma launch_steps_sat:
  "flow_sat dead_contract (\<lambda>_. True) (run_steps (launch_step io facts w kind until) (plan_launch_failed kind pr)) 4"
  by (auto simp: plan_launch_failed_def intro!: flow_sat_bind [OF escalate_launch_sat])

lemma dead_steps_sat:
  "flow_sat dead_contract (\<lambda>_. True) (run_steps (dead_step_flow io facts w i kind until) (plan_dead_reap kind)) 4"
  by (auto simp: plan_dead_reap_def intro!: reclaim_or_route_sat)

definition row_of :: "dead_session \<Rightarrow> json_dict option \<Rightarrow> bool" where
  "row_of w row \<longleftrightarrow> (\<forall>r. row = Some r \<longrightarrow> jget r ''issue_number'' = JInt (dd_issue w))"

lemma row_of_simps [simp]: "row_of w None" "row_of w (Some (reap_entry w kind))"
  by (simp_all add: row_of_def reap_entry_def)

lemma classify_sat: "flow_sat dead_contract (\<lambda>_. True) (classify_flow facts w c) 1"
  by (auto simp: classify_flow_def Let_def split: option.split)

lemma background_sat: "flow_sat dead_contract (\<lambda>_. True) (background_flow w i) 1"
  by (auto simp: background_flow_def split: option.split)

lemma launch_failed_sat: "flow_sat dead_contract (\<lambda>r. row_of w (Some r)) (reap_launch_failed io facts w) 5"
  by (auto simp: reap_launch_failed_def split: option.split
      intro!: flow_sat_bind [OF launch_steps_sat] flow_sat_mono [OF launch_steps_sat])

lemma reap_dead_sat: "flow_sat dead_contract (row_of w) (reap_dead io facts w) 8"
  by (auto simp: reap_dead_def split: option.split
      intro!: flow_sat_bind [OF background_sat] flow_sat_bind [OF classify_sat] flow_sat_bind [OF dead_steps_sat])

lemma dead_session_sat: "flow_sat dead_contract (row_of w) (dead_session_flow io facts w) 9"
  by (auto simp: dead_session_flow_def split: option.split intro!: reap_dead_sat flow_sat_bind [OF launch_failed_sat])

text \<open>A world that answers with results of the right types and whose effects do not raise.\<close>

definition calm_world :: "'w dead_world \<Rightarrow> bool" where
  "calm_world dx \<longleftrightarrow>
     (\<forall>q w. \<exists>w' r. dx_serve dx q w = (w', Some r) \<and> typed_dead q r) \<and> (\<forall>c w. \<exists>w'. dx_apply dx c w = (w', True))"

lemma perform_sat:
  assumes "calm_world dx" and "flow_sat dead_contract P f n"
  shows "\<exists>w' a. perform dx f w = (w', Some a) \<and> P a"
  using assms(2)
proof (induction f arbitrary: n w)
  case (Commit c f)
  obtain w' where "dx_apply dx c w = (w', True)"
    using assms(1) unfolding calm_world_def by blast
  with Commit show ?case
    by simp
next
  case (Ask q f)
  obtain w' r where "dx_serve dx q w = (w', Some r)" "typed_dead q r"
    using assms(1) unfolding calm_world_def by blast
  with Ask show ?case
    by (simp, blast)
qed auto

definition row_issues :: "json_dict list \<Rightarrow> json list" where
  "row_issues rows = map (\<lambda>r. jget r ''issue_number'') rows"

text \<open>
  C32. A pass over the sessions returns: when the reads answer and the effects do not raise, no session makes
  the lane raise, whatever its sidecar, its log, its issue and its entry say, and the rows name a part of the
  sessions in their order.
\<close>

theorem dead_pass_returns:
  assumes "calm_world dx"
  shows "\<exists>w' rows. perform dx (dead_sessions_flow io facts workers) w = (w', Some rows) \<and>
    subseq (row_issues rows) (map (\<lambda>v. JInt (dd_issue v)) workers)"
proof -
  have "flow_sat dead_contract (\<lambda>rows. subseq (row_issues rows) (map (\<lambda>v. JInt (dd_issue v)) workers))
      (dead_sessions_flow io facts workers) (length workers * 9)"
    unfolding dead_sessions_flow_def
  proof (rule flow_sat_loop_prefix [where I = "\<lambda>vs rows. subseq (row_issues rows) (map (\<lambda>v. JInt (dd_issue v)) vs)"])
    fix ys zs :: "dead_session list" and x rows
    assume "subseq (row_issues rows) (map (\<lambda>v. JInt (dd_issue v)) ys)"
    then show "flow_sat dead_contract (\<lambda>rows. subseq (row_issues rows) (map (\<lambda>v. JInt (dd_issue v)) (ys @ [x])))
        (bind_flow (dead_session_flow io facts x) (\<lambda>row. Return (case row of None \<Rightarrow> rows | Some r \<Rightarrow> rows @ [r]))) 9"
      by (intro flow_sat_bind [OF dead_session_sat])
        (auto simp: row_of_def row_issues_def split: option.split intro: list_emb_append_mono list_emb_append2)
  qed (simp_all add: row_issues_def)
  then show ?thesis
    by (rule perform_sat [OF assms])
qed

end
