(* ===== verification/Dead_Examples.thy ===== *)
theory Dead_Examples
  imports Dead_Props
begin

text \<open>A dead session without a pull request, and the deaths of one issue: the properties of the lane at concrete inputs.\<close>

definition lost_session :: dead_session where
  "lost_session = \<lparr> dd_issue = 5, dd_pid = Some 11, dd_start = JNull, dd_error = None, dd_adapter = ''devin'',
     dd_branch = ''agent/issue-5'', dd_provider = JNull \<rparr>"

definition lost_facts :: dead_facts where
  "lost_facts = \<lparr> df_active = [''working''], df_ready = ''ready'', df_base_ref = ''main'', df_has_root = True,
     df_repo = ''here'', df_fleet_repos = [''here''], df_max_redispatch = 2, df_stale_minutes = 0, df_open_prs = [],
     df_classifies = (\<lambda>_. True), df_persist_counter = False, df_now = 0 \<rparr>"

definition lost_inspection :: inspection where
  "lost_inspection = \<lparr> in_state = Worktree_partial, in_ahead = 1, in_dirty = True, in_base_ref = Some ''main'' \<rparr>"

fun lost_results :: "dead_request \<Rightarrow> dead_result" where
  "lost_results (Is_session_alive n) = DR_bool False"
| "lost_results (Confirm_dead n persist) = DR_bool True"
| "lost_results (Inspect_session_worktree n) = DR_inspection lost_inspection"
| "lost_results (Read_terminal_status n) = DR_terminal None"
| "lost_results (Classify_failure n fallback completed) = DR_kind fallback None"
| "lost_results (View_live_issue n) = DR_issue (Some \<lparr> li_title = ''Fix it'', li_labels = [''working''] \<rparr>)"
| "lost_results (Inspect_branch_worktree b) = DR_inspection lost_inspection"
| "lost_results (Salvage_commits n b base active kind) = DR_salvage False (Some ''no remote'')"
| "lost_results (Read_redispatches n) = DR_stamps [] 0"
| "lost_results (Write_issue_labels n add remove) = DR_bool True"
| "lost_results (View_pull n) = DR_pull None"

definition lost_world :: "dead_commit list dead_world" where
  "lost_world = \<lparr> dx_serve = (\<lambda>q w. (w, Some (lost_results q))), dx_apply = (\<lambda>c w. (w @ [c], True)) \<rparr>"

lemma lost_world_calm: "calm_world lost_world"
proof -
  have "typed_dead q (lost_results q)" for q
    by (cases q) simp_all
  then show ?thesis
    by (simp add: calm_world_def lost_world_def)
qed

theorem dead_pass_returns_witness:
  "\<exists>w rows. perform lost_world (dead_sessions_flow digit_io lost_facts [lost_session]) [] = (w, Some rows)"
  using dead_pass_returns [OF lost_world_calm, of digit_io lost_facts "[lost_session]" "[]"] by blast









theorem deaths_are_capped_witness:
  "deaths_escalate digit_io 1 1 [] [(Some ''rate_limited'', 0), (Some ''stalled'', 1000000), (Some ''stalled'', 2000000)] =
     Some True"
  by (subst deaths_are_capped)
    (auto simp: digit_io_def zulu_int_str read_int_str minutes_def counted_death_def kind_in_def provider_throttle_kinds_def)

end
