(* ===== verification/Role_Select.thy ===== *)
theory Role_Select
  imports Role_Ledger
begin

text \<open>
  The role chain (\<^verbatim>\<open>role_chain.py\<close>, \<^verbatim>\<open>harnesses.py\<close>) and the selection of the entry a launch runs on
  (\<^verbatim>\<open>role_selection.py\<close>): a primary and its fallbacks, walked against the quota ledger and the ceilings of the
  harnesses, and the test whether a window that holds the repository is explained by the entries passed over.
\<close>

section \<open>Harnesses\<close>

record harness_capabilities =
  hc_worker :: bool
  hc_review :: bool
  hc_adapter :: string
  hc_skill_dirs :: "string list"
  hc_requires_model :: bool

definition harness_registry :: "(string \<times> harness_capabilities) list" where
  "harness_registry =
     [(''claude-code'', \<lparr> hc_worker = True, hc_review = True, hc_adapter = ''claude-code'',
        hc_skill_dirs = [''.claude/skills''], hc_requires_model = False \<rparr>),
      (''devin-shell'', \<lparr> hc_worker = True, hc_review = True, hc_adapter = ''devin'',
        hc_skill_dirs = [''.devin/skills'', ''.claude/skills''], hc_requires_model = False \<rparr>),
      (''api'', \<lparr> hc_worker = True, hc_review = True, hc_adapter = ''api'', hc_skill_dirs = [], hc_requires_model = False \<rparr>),
      (''opencode'', \<lparr> hc_worker = True, hc_review = False, hc_adapter = ''opencode'',
        hc_skill_dirs = [''.opencode/skills'', ''.claude/skills''], hc_requires_model = True \<rparr>),
      (''command'', \<lparr> hc_worker = True, hc_review = False, hc_adapter = ''command'', hc_skill_dirs = [],
        hc_requires_model = False \<rparr>),
      (''manual'', \<lparr> hc_worker = True, hc_review = False, hc_adapter = ''manual'', hc_skill_dirs = [],
        hc_requires_model = False \<rparr>)]"

definition adapter_kind_of :: "string \<Rightarrow> string option" where
  "adapter_kind_of harness = map_option hc_adapter (map_of harness_registry harness)"

section \<open>The chain\<close>

record role_entry =
  re_harness :: string
  re_model :: string
  re_effort :: string

definition entry_key :: "role_entry \<Rightarrow> string \<times> string" where
  "entry_key e = (re_harness e, re_model e)"

definition entry_payload :: "role_entry \<Rightarrow> json_dict" where
  "entry_payload e = [(''harness'', JStr (re_harness e)), (''model'', JStr (re_model e))]"

text \<open>A role of the configuration; a worker's has no effort, which reads as the empty one.\<close>

record role_config =
  rf_harness :: string
  rf_model :: string
  rf_effort :: string
  rf_fallbacks :: "role_entry list"

definition chain_of :: "role_config \<Rightarrow> role_entry list" where
  "chain_of role = \<lparr> re_harness = rf_harness role, re_model = rf_model role, re_effort = rf_effort role \<rparr> # rf_fallbacks role"

definition max_fallbacks :: nat where
  "max_fallbacks = 3"

definition non_session_harnesses :: "string list" where
  "non_session_harnesses = [''command'', ''manual'']"

text \<open>\<^verbatim>\<open>FieldError\<close>: the field that is wrong, and what was found there.\<close>

record field_error =
  fx_field :: string
  fx_found :: json

definition fallback_field :: "nat \<Rightarrow> string" where
  "fallback_field index = ''fallbacks['' @ int_str (int index - 1) @ '']''"

definition chain_field :: "nat \<Rightarrow> string \<Rightarrow> string" where
  "chain_field index name = (if index = 0 then name else fallback_field index @ ''.'' @ name)"

fun check_models :: "nat \<Rightarrow> role_entry list \<Rightarrow> field_error option" where
  "check_models index [] = None"
| "check_models index (e # es) =
     (if (case map_of harness_registry (re_harness e) of None \<Rightarrow> False | Some c \<Rightarrow> hc_requires_model c) \<and>
         strip (re_model e) = []
      then Some \<lparr> fx_field = chain_field index ''model'', fx_found = JStr (re_model e) \<rparr>
      else check_models (Suc index) es)"

fun check_sessions :: "nat \<Rightarrow> role_entry list \<Rightarrow> field_error option" where
  "check_sessions index [] = None"
| "check_sessions index (e # es) =
     (if re_harness e \<in> set non_session_harnesses
      then Some \<lparr> fx_field = chain_field index ''harness'', fx_found = JStr (re_harness e) \<rparr>
      else check_sessions (Suc index) es)"

fun check_duplicates :: "nat \<Rightarrow> (string \<times> string) list \<Rightarrow> role_entry list \<Rightarrow> field_error option" where
  "check_duplicates index seen [] = None"
| "check_duplicates index seen (e # es) =
     (if entry_key e \<in> set seen
      then Some \<lparr> fx_field = fallback_field index, fx_found = strs_json [re_harness e, re_model e] \<rparr>
      else check_duplicates (Suc index) (entry_key e # seen) es)"

definition orelse :: "'a option \<Rightarrow> 'a option \<Rightarrow> 'a option" where
  "orelse x y = (case x of None \<Rightarrow> y | Some a \<Rightarrow> Some a)"

text \<open>\<^verbatim>\<open>check_role_chain\<close>: None where nothing is wrong.\<close>

definition check_role_chain :: "role_config \<Rightarrow> field_error option" where
  "check_role_chain role =
     orelse (check_models 0 (chain_of role))
       (if rf_fallbacks role = [] then None
        else orelse (check_sessions 0 (chain_of role)) (check_duplicates 0 [] (chain_of role)))"

section \<open>Families\<close>

definition family_prefixes :: "(string \<times> string) list" where
  "family_prefixes =
     [(''claude'', ''anthropic''), (''opus'', ''anthropic''), (''sonnet'', ''anthropic''), (''haiku'', ''anthropic''),
      (''swe-'', ''cognition''), (''gpt'', ''openai''), (''codex'', ''openai''), (''o1'', ''openai''),
      (''o3'', ''openai''), (''o4'', ''openai''), (''gemini'', ''google''), (''kimi'', ''moonshot''),
      (''glm'', ''zhipu''), (''qwen'', ''alibaba''), (''deepseek'', ''deepseek'')]"

text \<open>\<^verbatim>\<open>text.rpartition("/")[2]\<close>.\<close>

definition after_last_slash :: "string \<Rightarrow> string" where
  "after_last_slash s = rev (takeWhile (\<lambda>c. c \<noteq> CHR ''/'') (rev s))"

definition model_family :: "role_entry \<Rightarrow> string option" where
  "model_family e =
     (let model = after_last_slash (lower (strip (re_model e)))
      in if model = [] then (if re_harness e = ''claude-code'' then Some ''anthropic'' else None)
         else map_option snd (find (\<lambda>(p, f). strip_prefix p model \<noteq> None) family_prefixes))"

definition same_family_pairs :: "role_entry list \<Rightarrow> role_entry list \<Rightarrow> (nat \<times> nat \<times> string) list" where
  "same_family_pairs workers reviewers =
     concat (map (\<lambda>(i, w).
       case model_family w of
         None \<Rightarrow> []
       | Some f \<Rightarrow>
           List.map_filter (\<lambda>(j, r).
             if (i = 0 \<and> j = 0) \<or> model_family r \<noteq> Some f then None else Some (i, j, f))
             (enumerate 0 reviewers))
       (enumerate 0 workers))"

section \<open>Selection\<close>

type_synonym role_ledger = "(string \<times> string) \<rightharpoonup> int"

record skipped_entry =
  sk_index :: nat
  sk_entry :: role_entry
  sk_until :: int
  sk_harness_auth :: bool

record capped_entry =
  cp_index :: nat
  cp_entry :: role_entry

definition skipped_payload :: "time_io \<Rightarrow> skipped_entry \<Rightarrow> json" where
  "skipped_payload io s =
     JObj (entry_payload (sk_entry s) @ [(''index'', JInt (int (sk_index s))), (''until'', format_z io (sk_until s))] @
           (if sk_harness_auth s then [(''harness_auth'', JBool True)] else []))"

definition capped_payload :: "capped_entry \<Rightarrow> json" where
  "capped_payload c = JObj (entry_payload (cp_entry c) @ [(''index'', JInt (int (cp_index c)))])"

record role_selection =
  rx_chain :: "role_entry list"
  rx_entry :: "role_entry option"
  rx_index :: "nat option"
  rx_skipped :: "skipped_entry list"
  rx_restrictions :: role_ledger
  rx_capped :: "capped_entry list"

definition is_fallback :: "role_selection \<Rightarrow> bool" where
  "is_fallback s = (case rx_index s of None \<Rightarrow> False | Some i \<Rightarrow> 0 < i)"

definition exhausted :: "role_selection \<Rightarrow> bool" where
  "exhausted s = (rx_entry s = None)"

definition harness_auth_blocked :: "role_selection \<Rightarrow> bool" where
  "harness_auth_blocked s = (exhausted s \<and> list_ex sk_harness_auth (rx_skipped s))"

definition exhausted_reason_or :: "role_selection \<Rightarrow> string \<Rightarrow> string" where
  "exhausted_reason_or s quota_reason = (if harness_auth_blocked s then ''harness_auth_blocked'' else quota_reason)"

definition exhausted_reason :: "role_selection \<Rightarrow> string" where
  "exhausted_reason s = exhausted_reason_or s ''provider_throttled''"

definition earliest_until :: "role_selection \<Rightarrow> int option" where
  "earliest_until s = (if rx_skipped s = [] then None else Some (Min (set (map sk_until (rx_skipped s)))))"

definition report_fields :: "time_io \<Rightarrow> role_selection \<Rightarrow> json_dict" where
  "report_fields io s =
     [(''chain_length'', JInt (int (length (rx_chain s)))),
      (''chain_index'', opt_int_json (map_option int (rx_index s))),
      (''skipped'', JList (map (skipped_payload io) (rx_skipped s)))] @
     (case rx_entry s of
        None \<Rightarrow> (case earliest_until s of None \<Rightarrow> [] | Some t \<Rightarrow> [(''chain_retry_at'', format_z io t)])
      | Some e \<Rightarrow> entry_payload e) @
     (if rx_capped s = [] then [] else [(''harness_capped'', JList (map capped_payload (rx_capped s)))])"

definition chain_report_fields :: "time_io \<Rightarrow> role_selection \<Rightarrow> json_dict" where
  "chain_report_fields io s = (if 1 < length (rx_chain s) then report_fields io s else [])"

text \<open>\<open>index\<close> is the position of the first entry of the list in the chain.\<close>

fun select_from :: "nat \<Rightarrow> role_entry list \<Rightarrow> role_ledger \<Rightarrow> int \<Rightarrow> role_entry option \<times> skipped_entry list" where
  "select_from index [] ledger now = (None, [])"
| "select_from index (e # es) ledger now =
     (case effective_restriction ledger (re_harness e) (re_model e) now of
        (Some until, wide) \<Rightarrow>
          (case select_from (Suc index) es ledger now of
             (found, skipped) \<Rightarrow>
               (found, \<lparr> sk_index = index, sk_entry = e, sk_until = until, sk_harness_auth = wide \<rparr> # skipped))
      | (None, _) \<Rightarrow> (Some e, []))"

definition select_role_entry :: "role_entry list \<Rightarrow> role_ledger \<Rightarrow> int \<Rightarrow> role_entry option \<times> skipped_entry list" where
  "select_role_entry chain ledger now = select_from 0 chain ledger now"

text \<open>\<^verbatim>\<open>chain.index(entry)\<close>: the first equal entry.\<close>

definition index_of :: "'a list \<Rightarrow> 'a \<Rightarrow> nat" where
  "index_of xs x = length (takeWhile (\<lambda>y. y \<noteq> x) xs)"

definition build_selection :: "role_entry list \<Rightarrow> role_ledger \<Rightarrow> int \<Rightarrow> role_selection" where
  "build_selection chain ledger now =
     (case select_role_entry chain ledger now of
        (entry, skipped) \<Rightarrow>
          \<lparr> rx_chain = chain, rx_entry = entry, rx_index = map_option (index_of chain) entry, rx_skipped = skipped,
            rx_restrictions = ledger, rx_capped = [] \<rparr>)"

definition ledger_for_chain :: "time_io \<Rightarrow> role_entry list \<Rightarrow> bool \<Rightarrow> ledger_file \<Rightarrow> role_ledger" where
  "ledger_for_chain io chain harness_auth f =
     (if 1 < length chain then load_restrictions io harness_auth f
      else if harness_auth then load_harness_restrictions io f else Map.empty)"

text \<open>
  \<^verbatim>\<open>select_for_launch\<close> of a chain that has its primary. A chain of length 1 whose ledger is empty is not
  walked.
\<close>

definition ledger_windows :: "time_io \<Rightarrow> bool option \<Rightarrow> ledger_file \<Rightarrow> ((string \<times> string) \<times> int) list" where
  "ledger_windows io wide f = List.map_filter (record_window io wide) (map snd (restrictions_of f))"

definition select_for_launch :: "time_io \<Rightarrow> role_entry list \<Rightarrow> bool \<Rightarrow> int \<Rightarrow> ledger_file \<Rightarrow> role_selection" where
  "select_for_launch io chain harness_auth now f =
     (let ledger = ledger_for_chain io chain harness_auth f
      in if length chain \<le> 1 \<and> (harness_auth \<longrightarrow> ledger_windows io (Some True) f = [])
         then \<lparr> rx_chain = chain, rx_entry = Some (hd chain), rx_index = Some 0, rx_skipped = [],
                rx_restrictions = Map.empty, rx_capped = [] \<rparr>
         else build_selection chain ledger now)"

text \<open>
  \<^verbatim>\<open>reselect_within_harness_caps\<close>: \<open>free\<close> is the number of slots left on a harness, None where it has no
  ceiling.
\<close>

fun reselect_from ::
  "nat \<Rightarrow> role_entry list \<Rightarrow> role_ledger \<Rightarrow> (string \<Rightarrow> int option) \<Rightarrow> int \<Rightarrow>
   (nat \<times> role_entry) option \<times> skipped_entry list \<times> capped_entry list" where
  "reselect_from index [] ledger free now = (None, [], [])"
| "reselect_from index (e # es) ledger free now =
     (case effective_restriction ledger (re_harness e) (re_model e) now of
        (Some until, wide) \<Rightarrow>
          (case reselect_from (Suc index) es ledger free now of
             (found, skipped, capped) \<Rightarrow>
               (found, \<lparr> sk_index = index, sk_entry = e, sk_until = until, sk_harness_auth = wide \<rparr> # skipped, capped))
      | (None, _) \<Rightarrow>
          (if free (re_harness e) = Some 0
           then (case reselect_from (Suc index) es ledger free now of
                   (found, skipped, capped) \<Rightarrow>
                     (found, skipped, \<lparr> cp_index = index, cp_entry = e \<rparr> # capped))
           else (Some (index, e), [], [])))"

definition reselect_within_harness_caps :: "role_selection \<Rightarrow> (string \<Rightarrow> int option) \<Rightarrow> int \<Rightarrow> role_selection" where
  "reselect_within_harness_caps s free now =
     (case rx_entry s of
        None \<Rightarrow> s
      | Some chosen \<Rightarrow>
          if free (re_harness chosen) \<noteq> Some 0 then s
          else (case reselect_from 0 (rx_chain s) (rx_restrictions s) free now of
                  (found, skipped, capped) \<Rightarrow>
                    s\<lparr> rx_entry := map_option snd found, rx_index := map_option fst found, rx_skipped := skipped,
                       rx_capped := capped \<rparr>))"

section \<open>Windows the selection explains\<close>

definition skipped_explains :: "string \<Rightarrow> int \<Rightarrow> skipped_entry \<Rightarrow> bool" where
  "skipped_explains adapter until item = (adapter_kind_of (re_harness (sk_entry item)) = Some adapter \<and> until \<le> sk_until item)"

definition stamp_explains :: "role_selection \<Rightarrow> role_entry \<Rightarrow> string \<Rightarrow> int \<Rightarrow> json \<Rightarrow> json \<Rightarrow> bool" where
  "stamp_explains s entry adapter until harness model =
     (case (harness, model) of
        (JStr h, JStr m) \<Rightarrow>
          adapter_kind_of h = Some adapter \<and> (h, m) \<noteq> entry_key entry \<and>
          (case rx_restrictions s (h, m) of None \<Rightarrow> False | Some t \<Rightarrow> until \<le> t)
      | _ \<Rightarrow> False)"

text \<open>None is the TypeError of a reason that is a list or an object, which does not hash.\<close>

definition window_covered ::
  "time_io \<Rightarrow> json \<Rightarrow> role_selection \<Rightarrow> json \<Rightarrow> json \<Rightarrow> json \<Rightarrow> json \<Rightarrow> bool option" where
  "window_covered io per_repo_until s reason adapter harness model =
     (case rx_entry s of
        None \<Rightarrow> Some False
      | Some entry \<Rightarrow>
          if length (rx_chain s) \<le> 1 then Some False
          else (case reason of
                  JList _ \<Rightarrow> None
                | JObj _ \<Rightarrow> None
                | JStr r \<Rightarrow>
                    (case (adapter, json_time io per_repo_until) of
                       (JStr a, Some until) \<Rightarrow>
                         Some (r \<in> set restricting_failure_kinds \<and>
                           (list_ex (skipped_explains a (whole_second until)) (rx_skipped s) \<or>
                            stamp_explains s entry a (whole_second until) harness model))
                     | _ \<Rightarrow> Some False)
                | _ \<Rightarrow> Some False))"

definition reviewer_window_covered :: "time_io \<Rightarrow> json_dict \<Rightarrow> role_selection \<Rightarrow> bool option" where
  "reviewer_window_covered io state s =
     (let covered = (\<lambda>q. window_covered io (jget q ''throttled_until'') s (jget q ''reason'') (jget q ''adapter_kind'')
                           (jget q ''harness'') (jget q ''model''))
      in case jget state ''reviewer_quota'' of
           JObj q \<Rightarrow> covered q
         | v \<Rightarrow> if json_true v then None else covered [])"

section \<open>The launch\<close>

definition worker_role_for :: "role_config \<Rightarrow> role_selection \<Rightarrow> role_config" where
  "worker_role_for role s =
     (case rx_entry s of
        Some e \<Rightarrow> if is_fallback s then role\<lparr> rf_harness := re_harness e, rf_model := re_model e \<rparr> else role
      | None \<Rightarrow> role)"

text \<open>The second component is the fraction of the effort experiment.\<close>

definition reviewer_role_for :: "role_config \<Rightarrow> 'f \<Rightarrow> 'f \<Rightarrow> role_selection \<Rightarrow> role_config \<times> 'f" where
  "reviewer_role_for role fraction none s =
     (case rx_entry s of
        Some e \<Rightarrow>
          if is_fallback s
          then (role\<lparr> rf_harness := re_harness e, rf_model := re_model e, rf_effort := re_effort e \<rparr>, none)
          else (role, fraction)
      | None \<Rightarrow> (role, fraction))"

definition fallback_event :: "time_io \<Rightarrow> string \<Rightarrow> role_selection \<Rightarrow> int list \<Rightarrow> json_dict option" where
  "fallback_event io role s numbers =
     (if \<not> is_fallback s then None
      else Some (jupdate [(''role'', JStr role), (''numbers'', JList (map JInt numbers))] (report_fields io s)))"

definition record_launch_quota_hit ::
  "time_io \<Rightarrow> bool \<Rightarrow> role_selection \<Rightarrow> json \<Rightarrow> string \<Rightarrow> int \<Rightarrow> ledger_file \<Rightarrow> bool \<times> ledger_file" where
  "record_launch_quota_hit io wr s until source now f =
     (case rx_entry s of
        None \<Rightarrow> (False, f)
      | Some e \<Rightarrow>
          record_restriction io wr (re_harness e) (re_model e) until (Some ''quota_exhausted'') source ''reviewer'' now f)"

end
