(* ===== verification/Role_Select_Props.thy ===== *)
theory Role_Select_Props
  imports Role_Select Digit_Clock
begin

text \<open>
  What the selection over a role chain promises: the first free entry, the time at which an exhausted chain
  has one again, and that a window is never explained by the entry that is about to launch.
\<close>

section \<open>The walk\<close>

definition restricted_at :: "role_ledger \<Rightarrow> int \<Rightarrow> role_entry \<Rightarrow> bool" where
  "restricted_at ledger now e \<longleftrightarrow> fst (effective_restriction ledger (re_harness e) (re_model e) now) \<noteq> None"

lemma places_Cons: "index # map ((+) (Suc index)) [0 ..< n] = map ((+) index) [0 ..< Suc n]"
proof -
  have "[0 ..< Suc n] = 0 # map Suc [0 ..< n]"
    by (simp add: upt_conv_Cons map_Suc_upt del: upt_Suc)
  then show ?thesis
    by (simp del: upt_Suc)
qed

lemma select_from_spec:
  "fst (select_from index es ledger now) = find (\<lambda>e. \<not> restricted_at ledger now e) es"
  "map sk_entry (snd (select_from index es ledger now)) = takeWhile (restricted_at ledger now) es"
  "map sk_index (snd (select_from index es ledger now)) =
     map ((+) index) [0 ..< length (takeWhile (restricted_at ledger now) es)]"
  "list_all (\<lambda>s. effective_restriction ledger (re_harness (sk_entry s)) (re_model (sk_entry s)) now =
     (Some (sk_until s), sk_harness_auth s)) (snd (select_from index es ledger now))"
  by (induction index es ledger now rule: select_from.induct)
    (auto simp: restricted_at_def places_Cons simp del: upt_Suc split: prod.splits option.splits)

text \<open>The first entry equal to the selected one is the selected one: entries before it are restricted.\<close>

lemma index_of_found:
  assumes "find (\<lambda>e. \<not> P e) es = Some x"
  shows "takeWhile (\<lambda>y. y \<noteq> x) es = takeWhile P es"
  using assms by (induction es) (auto simp: find_Some_iff split: if_splits)

lemma find_takeWhile: "find (\<lambda>e. \<not> P e) es = Some x \<Longrightarrow> \<not> P x \<and> length (takeWhile P es) < length es \<and> es ! length (takeWhile P es) = x"
  by (induction es) (auto split: if_splits)

text \<open>
  A launch runs on the first entry of the chain that neither its own window nor its harness's block
  restricts; the index it reports is that entry's place, and the entries it reports as skipped are the ones
  before it, each with its place and the window that binds.
\<close>

theorem selection_is_first_free:
  "rx_entry (build_selection chain ledger now) = find (\<lambda>e. \<not> restricted_at ledger now e) chain \<and>
   map sk_entry (rx_skipped (build_selection chain ledger now)) = takeWhile (restricted_at ledger now) chain \<and>
   map sk_index (rx_skipped (build_selection chain ledger now)) =
     [0 ..< length (takeWhile (restricted_at ledger now) chain)] \<and>
   rx_index (build_selection chain ledger now) =
     map_option (\<lambda>_. length (takeWhile (restricted_at ledger now) chain)) (rx_entry (build_selection chain ledger now))"
proof -
  obtain entry skipped where run: "select_role_entry chain ledger now = (entry, skipped)"
    by fastforce
  note spec = select_from_spec [where index = 0 and es = chain and ledger = ledger and now = now, folded select_role_entry_def, unfolded run, simplified, unfolded add_0 map_ident]
  have "map_option (index_of chain) entry = map_option (\<lambda>_. length (takeWhile (restricted_at ledger now) chain)) entry"
    using index_of_found [of "restricted_at ledger now" chain] spec(1) [symmetric] by (cases entry) (auto simp: index_of_def)
  with spec run show ?thesis
    by (simp add: build_selection_def)
qed

section \<open>An exhausted chain\<close>

lemma restriction_end:
  assumes "fst (effective_restriction ledger h m now) = Some u" and "now \<le> t"
  shows "fst (effective_restriction ledger h m t) = (if t < u then Some u else None)"
  using assms
  by (auto simp: effective_restriction_def Let_def split: option.splits if_splits)

definition until_of :: "role_ledger \<Rightarrow> int \<Rightarrow> role_entry \<Rightarrow> int" where
  "until_of ledger now e = the (fst (effective_restriction ledger (re_harness e) (re_model e) now))"

lemma built_entry: "rx_entry (build_selection chain ledger now) = find (\<lambda>e. \<not> restricted_at ledger now e) chain"
  using select_from_spec(1) [where index = 0 and es = chain and ledger = ledger and now = now] by (auto simp: build_selection_def select_role_entry_def split: prod.split)

lemma exhausted_iff: "exhausted (build_selection chain ledger now) \<longleftrightarrow> list_all (restricted_at ledger now) chain"
  by (auto simp: exhausted_def built_entry find_None_iff list_all_iff)

lemma skipped_untils:
  "map sk_until (rx_skipped (build_selection chain ledger now)) =
     map (until_of ledger now) (takeWhile (restricted_at ledger now) chain)"
proof -
  obtain entry skipped where run: "select_role_entry chain ledger now = (entry, skipped)"
    by fastforce
  note spec = select_from_spec [where index = 0 and es = chain and ledger = ledger and now = now, folded select_role_entry_def, unfolded run, simplified]
  have "map sk_until skipped = map (until_of ledger now) (map sk_entry skipped)"
    using spec(4) by (auto simp: until_of_def list_all_iff)
  with spec(2) run show ?thesis
    by (simp add: build_selection_def)
qed

lemma restricted_later:
  assumes "restricted_at ledger now e" and "now \<le> t"
  shows "restricted_at ledger t e \<longleftrightarrow> t < until_of ledger now e"
proof -
  obtain u where u: "fst (effective_restriction ledger (re_harness e) (re_model e) now) = Some u"
    using assms(1) by (auto simp: restricted_at_def)
  show ?thesis
    using restriction_end [OF u assms(2)] u by (simp add: restricted_at_def until_of_def)
qed

lemma restricted_future: "restricted_at ledger now e \<Longrightarrow> now < until_of ledger now e"
  using restricted_later [of ledger now e now] by simp

text \<open>
  C27. A chain whose entries are all restricted stays exhausted exactly until the retry time it reports: at
  that moment, and from then on, some entry can be launched again.
\<close>

theorem exhausted_until_retry:
  assumes "exhausted (build_selection chain ledger now)" and "chain \<noteq> []"
  shows "\<exists>retry. earliest_until (build_selection chain ledger now) = Some retry \<and> now < retry \<and>
    (\<forall>t \<ge> now. exhausted (build_selection chain ledger t) \<longleftrightarrow> t < retry)"
proof -
  let ?untils = "until_of ledger now ` set chain"
  have all: "list_all (restricted_at ledger now) chain"
    using assms(1) by (simp add: exhausted_iff)
  then have "takeWhile (restricted_at ledger now) chain = chain"
    by (simp add: list_all_iff takeWhile_eq_all_conv)
  then have "set (map sk_until (rx_skipped (build_selection chain ledger now))) = ?untils"
    by (simp only: skipped_untils) simp
  moreover from this assms(2) have "rx_skipped (build_selection chain ledger now) \<noteq> []"
    by auto
  ultimately have retry: "earliest_until (build_selection chain ledger now) = Some (Min ?untils)"
    by (simp add: earliest_until_def)
  have "now < Min ?untils"
    using all assms(2) restricted_future by (auto simp: list_all_iff)
  moreover have "exhausted (build_selection chain ledger t) \<longleftrightarrow> t < Min ?untils" if "now \<le> t" for t
    using all assms(2) restricted_later [OF _ that] by (auto simp: exhausted_iff list_all_iff)
  ultimately show ?thesis
    using retry by blast
qed

section \<open>Ceilings\<close>

lemma reselect_from_spec:
  "map_option snd (fst (reselect_from index es ledger free now)) =
     find (\<lambda>e. \<not> restricted_at ledger now e \<and> free (re_harness e) \<noteq> Some 0) es"
  "list_all (\<lambda>s. \<exists>wide. effective_restriction ledger (re_harness (sk_entry s)) (re_model (sk_entry s)) now =
     (Some (sk_until s), wide)) (fst (snd (reselect_from index es ledger free now)))"
  by (induction index es ledger free now rule: reselect_from.induct)
    (auto simp: restricted_at_def split: prod.splits option.splits)

definition launch_selection ::
  "role_entry list \<Rightarrow> role_ledger \<Rightarrow> (string \<Rightarrow> int option) \<Rightarrow> int \<Rightarrow> role_selection" where
  "launch_selection chain ledger free now = reselect_within_harness_caps (build_selection chain ledger now) free now"

lemma find_weaker:
  "find (\<lambda>e. \<not> P e) es = Some x \<Longrightarrow> Q x \<Longrightarrow> find (\<lambda>e. \<not> P e \<and> Q e) es = Some x"
  by (induction es) (auto split: if_splits)

lemma find_none_weaker: "find (\<lambda>e. \<not> P e) es = None \<Longrightarrow> find (\<lambda>e. \<not> P e \<and> Q e) es = None"
  by (simp add: find_None_iff)

lemma launch_entry:
  "rx_entry (launch_selection chain ledger free now) =
     find (\<lambda>e. \<not> restricted_at ledger now e \<and> free (re_harness e) \<noteq> Some 0) chain"
proof (cases "rx_entry (build_selection chain ledger now)")
  case None
  then show ?thesis
    using find_none_weaker [of "restricted_at ledger now" chain "\<lambda>e. free (re_harness e) \<noteq> Some 0"]
    by (simp add: launch_selection_def reselect_within_harness_caps_def built_entry)
next
  case (Some e)
  have "rx_chain (build_selection chain ledger now) = chain" "rx_restrictions (build_selection chain ledger now) = ledger"
    by (simp_all add: build_selection_def split: prod.split)
  then show ?thesis
    using Some reselect_from_spec(1) [where index = 0 and es = chain and ledger = ledger and now = now and free = free]
      find_weaker [of "restricted_at ledger now" chain e "\<lambda>e. free (re_harness e) \<noteq> Some 0"]
    by (auto simp: launch_selection_def reselect_within_harness_caps_def built_entry split: prod.splits)
qed

text \<open>
  With ceilings on the harnesses a launch runs on the first entry that is neither restricted nor on a
  full harness, and on none exactly when every entry is one or the other.
\<close>

theorem launch_respects_ceilings:
  "rx_entry (launch_selection chain ledger free now) =
     find (\<lambda>e. \<not> restricted_at ledger now e \<and> free (re_harness e) \<noteq> Some 0) chain"
  by (rule launch_entry)

section \<open>Windows\<close>

lemma launch_skipped:
  "list_all (\<lambda>s. \<exists>wide. effective_restriction ledger (re_harness (sk_entry s)) (re_model (sk_entry s)) now =
     (Some (sk_until s), wide)) (rx_skipped (launch_selection chain ledger free now))"
proof -
  have built: "rx_chain (build_selection chain ledger now) = chain" "rx_restrictions (build_selection chain ledger now) = ledger"
    "list_all (\<lambda>s. \<exists>wide. effective_restriction ledger (re_harness (sk_entry s)) (re_model (sk_entry s)) now =
       (Some (sk_until s), wide)) (rx_skipped (build_selection chain ledger now))"
    using select_from_spec(4) [where index = 0 and es = chain and ledger = ledger and now = now]
    by (auto simp: build_selection_def select_role_entry_def list_all_iff split: prod.splits)
  then show ?thesis
    using reselect_from_spec(2) [where index = 0 and es = chain and ledger = ledger and now = now and free = free]
    by (auto simp: launch_selection_def reselect_within_harness_caps_def split: option.split prod.splits)
qed

lemma launch_restrictions: "rx_restrictions (launch_selection chain ledger free now) = ledger"
  by (auto simp: launch_selection_def reselect_within_harness_caps_def build_selection_def split: option.split prod.splits)

lemma effective_source:
  "effective_restriction ledger h m now = (Some u, wide) \<Longrightarrow> ledger (h, m) = Some u \<or> ledger (h, wide_model) = Some u"
  by (auto simp: effective_restriction_def Let_def split: option.splits if_splits)

text \<open>An entry other than the launched one, on the window's adapter, that the ledger holds back as long.\<close>

definition explained_by :: "role_ledger \<Rightarrow> role_entry \<Rightarrow> string \<Rightarrow> int \<Rightarrow> string \<times> string \<Rightarrow> bool" where
  "explained_by ledger entry adapter until key \<longleftrightarrow>
     key \<noteq> entry_key entry \<and> adapter_kind_of (fst key) = Some adapter \<and>
     (\<exists>t \<ge> until. ledger key = Some t \<or> ledger (fst key, wide_model) = Some t)"

text \<open>
  A window that holds the repository is passed over only when the ledger explains it: it carries a
  quota's reason, and a model other than the one about to launch, on the window's own adapter, is held back
  at least as long. The entry that launches is itself restricted by nothing.
\<close>

theorem covered_window_is_explained:
  assumes "window_covered io until (launch_selection chain ledger free now) (JStr reason) (JStr adapter) harness model = Some True"
  shows "\<exists>entry w key. rx_entry (launch_selection chain ledger free now) = Some entry \<and>
    \<not> restricted_at ledger now entry \<and> json_time io until = Some w \<and> reason \<in> set restricting_failure_kinds \<and>
    explained_by ledger entry adapter (whole_second w) key"
proof -
  let ?s = "launch_selection chain ledger free now"
  obtain entry w where entry: "rx_entry ?s = Some entry" "json_time io until = Some w" "reason \<in> set restricting_failure_kinds"
    and why: "list_ex (skipped_explains adapter (whole_second w)) (rx_skipped ?s) \<or>
      stamp_explains ?s entry adapter (whole_second w) harness model"
    using assms by (auto simp: window_covered_def split: option.splits if_splits)
  have free_entry: "\<not> restricted_at ledger now entry"
    using entry(1) by (auto simp: launch_entry find_Some_iff)
  have "\<exists>key. explained_by ledger entry adapter (whole_second w) key"
    using why
  proof
    assume "list_ex (skipped_explains adapter (whole_second w)) (rx_skipped ?s)"
    then obtain s where s: "s \<in> set (rx_skipped ?s)" "skipped_explains adapter (whole_second w) s"
      by (auto simp: list_ex_iff)
    obtain wide where eff: "effective_restriction ledger (re_harness (sk_entry s)) (re_model (sk_entry s)) now = (Some (sk_until s), wide)"
      using launch_skipped [of ledger now chain free] s(1) by (auto simp: list_all_iff)
    have "entry_key (sk_entry s) \<noteq> entry_key entry"
      using free_entry eff by (auto simp: restricted_at_def entry_key_def)
    then have "explained_by ledger entry adapter (whole_second w) (entry_key (sk_entry s))"
      using s(2) effective_source [OF eff] by (auto simp: explained_by_def skipped_explains_def entry_key_def)
    then show ?thesis ..
  next
    assume "stamp_explains ?s entry adapter (whole_second w) harness model"
    then show ?thesis
      by (auto simp: stamp_explains_def explained_by_def launch_restrictions split: json.splits option.splits)
  qed
  with entry free_entry show ?thesis
    by blast
qed

section \<open>A chain that may be configured\<close>

lemma check_duplicates_none:
  "check_duplicates index seen es = None \<longleftrightarrow> distinct (map entry_key es) \<and> set seen \<inter> entry_key ` set es = {}"
  by (induction index seen es rule: check_duplicates.induct) auto

lemma check_sessions_none:
  "check_sessions index es = None \<longleftrightarrow> (\<forall>e \<in> set es. re_harness e \<notin> set non_session_harnesses)"
  by (induction index es rule: check_sessions.induct) auto

definition lacks_model :: "role_entry \<Rightarrow> bool" where
  "lacks_model e \<longleftrightarrow>
     (case map_of harness_registry (re_harness e) of None \<Rightarrow> False | Some c \<Rightarrow> hc_requires_model c) \<and> strip (re_model e) = []"

lemma check_models_none: "check_models index es = None \<longleftrightarrow> (\<forall>e \<in> set es. \<not> lacks_model e)"
  by (induction index es rule: check_models.induct) (auto simp: lacks_model_def)

text \<open>
  A role passes the chain check exactly when no entry lacks the model its harness needs and, once it has
  a fallback, no two entries share harness and model and no entry runs on a harness without sessions.
\<close>

theorem role_chain_check:
  "check_role_chain role = None \<longleftrightarrow>
     (\<forall>e \<in> set (chain_of role). \<not> lacks_model e) \<and>
     (rf_fallbacks role = [] \<or>
      distinct (map entry_key (chain_of role)) \<and>
      (\<forall>e \<in> set (chain_of role). re_harness e \<notin> set non_session_harnesses))"
proof -
  have "orelse x y = None \<longleftrightarrow> x = None \<and> y = None" for x y :: "field_error option"
    by (simp add: orelse_def split: option.split)
  then show ?thesis
    by (simp add: check_role_chain_def check_models_none check_sessions_none check_duplicates_none)
      (auto simp: chain_of_def)
qed

section \<open>Examples\<close>

definition opus :: role_entry where
  "opus = \<lparr> re_harness = ''claude-code'', re_model = ''opus'', re_effort = [] \<rparr>"

definition swe :: role_entry where
  "swe = \<lparr> re_harness = ''devin-shell'', re_model = ''swe-2'', re_effort = [] \<rparr>"

definition both_restricted :: role_ledger where
  "both_restricted = [(''claude-code'', ''opus'') \<mapsto> 100, (''devin-shell'', ''swe-2'') \<mapsto> 50]"

lemma both_exhausted: "exhausted (build_selection [opus, swe] both_restricted 0)"
  by (simp add: exhausted_iff restricted_at_def effective_restriction_def both_restricted_def opus_def swe_def wide_model_def)

theorem exhausted_until_retry_witness:
  "\<exists>retry > 0. earliest_until (build_selection [opus, swe] both_restricted 0) = Some retry \<and>
     (exhausted (build_selection [opus, swe] both_restricted 50) \<longleftrightarrow> 50 < retry)"
  using exhausted_until_retry [OF both_exhausted] by force

text \<open>The primary is restricted until second 100; the window of its death ends at second 5.\<close>

definition primary_restricted :: role_ledger where
  "primary_restricted = [(''claude-code'', ''opus'') \<mapsto> 100000000]"

definition unbounded :: "string \<Rightarrow> int option" where
  "unbounded harness = None"

lemma fallback_launch:
  "launch_selection [opus, swe] primary_restricted unbounded 0 =
     \<lparr> rx_chain = [opus, swe], rx_entry = Some swe, rx_index = Some 1,
       rx_skipped = [\<lparr> sk_index = 0, sk_entry = opus, sk_until = 100000000, sk_harness_auth = False \<rparr>],
       rx_restrictions = primary_restricted, rx_capped = [] \<rparr>"
  by (simp add: launch_selection_def reselect_within_harness_caps_def build_selection_def select_role_entry_def
      effective_restriction_def primary_restricted_def opus_def swe_def wide_model_def index_of_def unbounded_def)

theorem covered_window_is_explained_witness:
  "\<exists>key. explained_by primary_restricted swe ''claude-code'' 5000000 key"
proof -
  have time: "json_time digit_io (JStr (int_str 5)) = Some 5000000" "whole_second 5000000 = 5000000"
    by (simp_all add: parse_iso_timestamp_def digit_io_def zulu_int_str read_int_str whole_second_def)
  have "adapter_kind_of (re_harness opus) = Some ''claude-code''"
    by (simp add: adapter_kind_of_def harness_registry_def opus_def)
  then have "window_covered digit_io (JStr (int_str 5)) (launch_selection [opus, swe] primary_restricted unbounded 0)
      (JStr ''rate_limited'') (JStr ''claude-code'') JNull JNull = Some True"
    by (simp add: window_covered_def fallback_launch time restricting_failure_kinds_def skipped_explains_def
        del: json_time.simps)
  from covered_window_is_explained [OF this] time show ?thesis
    by (auto simp: fallback_launch simp del: json_time.simps)
qed

theorem role_chain_check_witness:
  "check_role_chain \<lparr> rf_harness = ''claude-code'', rf_model = ''opus'', rf_effort = [], rf_fallbacks = [swe] \<rparr> = None"
  by (subst role_chain_check)
    (simp add: chain_of_def swe_def lacks_model_def harness_registry_def entry_key_def non_session_harnesses_def)

end
