(* ===== verification/Cadence.thy ===== *)
theory Cadence
  imports Fate_Records
begin

text \<open>
  When something is due and when silence is an alarm: the schedules of the periodic passes
  (\<^verbatim>\<open>periodic_pass_schedule.py\<close>), the baseline of the last dispatch and the stale alert
  (\<^verbatim>\<open>dispatch_cadence.py\<close>), the check for staleness (\<^verbatim>\<open>check_dispatch_staleness\<close> of
  \<^verbatim>\<open>ci_findings.py\<close>) and the part of a dispatch pass that acts on it
  (\<^verbatim>\<open>orchestration/dispatch_state.py\<close>). The state is the JSON object of \<^verbatim>\<open>state.json\<close>.
\<close>

section \<open>Schedules\<close>

text \<open>A section of the state, empty where it is no object.\<close>

definition section_of :: "json_dict \<Rightarrow> string \<Rightarrow> json_dict" where
  "section_of state name = (case jget state name of JObj d \<Rightarrow> d | _ \<Rightarrow> [])"

definition put_section :: "json_dict \<Rightarrow> string \<Rightarrow> json_dict \<Rightarrow> json_dict" where
  "put_section state name d = jput state name (JObj d)"

text \<open>
  The test the three schedules share: due when nothing is set, when the time does not parse or has no zone,
  or when it has come. None is the AttributeError of a value that is no text.
\<close>

definition schedule_due :: "iso_parser \<Rightarrow> json \<Rightarrow> int \<Rightarrow> bool option" where
  "schedule_due fromiso next now =
     (if \<not> json_true next then Some True
      else (case next of
              JStr s \<Rightarrow> Some (case fromiso (zulu s) of Some (Aware t) \<Rightarrow> t \<le> now | _ \<Rightarrow> True)
            | _ \<Rightarrow> None))"

definition is_worktree_reclamation_due :: "iso_parser \<Rightarrow> json_dict \<Rightarrow> int \<Rightarrow> bool option" where
  "is_worktree_reclamation_due fromiso state now =
     schedule_due fromiso (jget (section_of state ''worktree_reclamation'') ''next_run_at'') now"

definition schedule_worktree_reclamation :: "json_dict \<Rightarrow> string \<Rightarrow> json_dict" where
  "schedule_worktree_reclamation state at =
     put_section state ''worktree_reclamation''
       (jput (section_of state ''worktree_reclamation'') ''next_run_at'' (JStr at))"

definition is_reconcile_due :: "iso_parser \<Rightarrow> json_dict \<Rightarrow> int \<Rightarrow> bool option" where
  "is_reconcile_due fromiso state now =
     schedule_due fromiso (jget (section_of state ''reconcile_pass'') ''next_reconcile_at'') now"

definition arm_reconcile_pass :: "json_dict \<Rightarrow> string \<Rightarrow> json_dict" where
  "arm_reconcile_pass state at =
     put_section state ''reconcile_pass'' (jput (section_of state ''reconcile_pass'') ''next_reconcile_at'' (JStr at))"

definition is_deescalation_due :: "iso_parser \<Rightarrow> json_dict \<Rightarrow> int \<Rightarrow> bool option" where
  "is_deescalation_due fromiso state now =
     schedule_due fromiso (jget (section_of state ''deescalation_pass'') ''next_deescalation_at'') now"

definition arm_deescalation_pass :: "json_dict \<Rightarrow> string \<Rightarrow> json_dict" where
  "arm_deescalation_pass state at =
     put_section state ''deescalation_pass''
       (jput (section_of state ''deescalation_pass'') ''next_deescalation_at'' (JStr at))"

section \<open>The baseline\<close>

definition cadence_of :: "json_dict \<Rightarrow> json_dict" where
  "cadence_of state = section_of state ''dispatch_cadence''"

definition put_cadence :: "json_dict \<Rightarrow> json_dict \<Rightarrow> json_dict" where
  "put_cadence state d = put_section state ''dispatch_cadence'' d"

text \<open>\<open>numbers\<close> are the sorted issue numbers.\<close>

definition record_non_empty_dispatch :: "json_dict \<Rightarrow> json \<Rightarrow> json list \<Rightarrow> json_dict" where
  "record_non_empty_dispatch state at numbers =
     put_cadence state
       (jput (jput (cadence_of state) ''last_non_empty_dispatch_at'' at)
          ''last_non_empty_dispatch_issue_numbers'' (JList numbers))"

text \<open>\<^verbatim>\<open>list(v)\<close>; None is the TypeError.\<close>

fun json_items :: "json \<Rightarrow> json list option" where
  "json_items (JList xs) = Some xs"
| "json_items (JStr s) = Some (map (\<lambda>c. JStr [c]) s)"
| "json_items (JObj d) = Some (map (JStr \<circ> fst) d)"
| "json_items _ = None"

text \<open>The outer option is an exception, the inner one the absence of a baseline.\<close>

definition last_non_empty_dispatch :: "json_dict \<Rightarrow> (json \<times> json list) option option" where
  "last_non_empty_dispatch state =
     (let d = cadence_of state; at = jget d ''last_non_empty_dispatch_at''
      in if \<not> json_true at then Some None
         else (case map_of d ''last_non_empty_dispatch_issue_numbers'' of
                 None \<Rightarrow> Some (Some (at, []))
               | Some v \<Rightarrow> map_option (\<lambda>xs. Some (at, xs)) (json_items v)))"

definition dispatch_baseline_needs_backfill :: "json_dict \<Rightarrow> bool" where
  "dispatch_baseline_needs_backfill state =
     (let d = cadence_of state
      in \<not> json_true (jget d ''last_non_empty_dispatch_at'') \<and> \<not> json_true (jget d ''baseline_backfill_attempted''))"

definition mark_dispatch_baseline_backfill_attempted :: "json_dict \<Rightarrow> json_dict" where
  "mark_dispatch_baseline_backfill_attempted state =
     put_cadence state (jput (cadence_of state) ''baseline_backfill_attempted'' (JBool True))"

text \<open>The dispatch events of the log, oldest first: the time and the issue numbers of each.\<close>

type_synonym dispatch_log = "(string \<times> int list) list"

definition backfill_dispatch_baseline :: "dispatch_log \<Rightarrow> json_dict \<Rightarrow> json_dict" where
  "backfill_dispatch_baseline log state =
     (if \<not> dispatch_baseline_needs_backfill state then state
      else (let marked = mark_dispatch_baseline_backfill_attempted state
            in case find (\<lambda>(ts, ns). ns \<noteq> []) (rev log) of
                 None \<Rightarrow> marked
               | Some (ts, ns) \<Rightarrow> record_non_empty_dispatch marked (JStr ts) (map JInt (sort ns))))"

section \<open>The alert\<close>

definition is_dispatch_stale_alert_due :: "time_io \<Rightarrow> json_dict \<Rightarrow> int \<Rightarrow> int \<Rightarrow> bool" where
  "is_dispatch_stale_alert_due io state now reminder_minutes =
     (let at = jget (cadence_of state) ''last_stale_alert_at''
      in \<not> json_true at \<or> reminder_minutes \<le> 0 \<or>
         (case ti_fromiso io (zulu (json_str io at)) of
            Some (Aware t) \<Rightarrow> t + minutes reminder_minutes \<le> now
          | _ \<Rightarrow> True))"

definition arm_dispatch_stale_alert :: "json_dict \<Rightarrow> json \<Rightarrow> json_dict" where
  "arm_dispatch_stale_alert state at = put_cadence state (jput (cadence_of state) ''last_stale_alert_at'' at)"

definition resolved_reasons :: "string list" where
  "resolved_reasons =
     [''current_pass_dispatched'', ''within_threshold'', ''empty_backlog'', ''all_ready_blocked_by_dependencies'',
      ''not_default_host'']"

definition clear_dispatch_stale_alert :: "json_dict \<Rightarrow> string \<Rightarrow> json_dict" where
  "clear_dispatch_stale_alert state reason =
     (if reason \<notin> set resolved_reasons \<or> jget (cadence_of state) ''last_stale_alert_at'' = JNull then state
      else put_cadence state (jput (cadence_of state) ''last_stale_alert_at'' JNull))"

section \<open>Progress of the root blockers\<close>

definition has_suffix :: "string \<Rightarrow> string \<Rightarrow> bool" where
  "has_suffix suffix s = (strip_prefix (rev suffix) (rev s) \<noteq> None)"

text \<open>\<^verbatim>\<open>_parse_iso_ts\<close> of a text: an aware time.\<close>

definition aware_time :: "iso_parser \<Rightarrow> string \<Rightarrow> int option" where
  "aware_time fromiso s = (case fromiso (zulu s) of Some (Aware t) \<Rightarrow> Some t | _ \<Rightarrow> None)"

definition past_dated_timestamps :: "iso_parser \<Rightarrow> json_dict \<Rightarrow> int \<Rightarrow> int list" where
  "past_dated_timestamps fromiso entry now =
     List.map_filter (\<lambda>(key, value).
       case value of
         JStr s \<Rightarrow>
           if has_suffix ''_at'' key \<or> has_suffix ''_since'' key
           then (case aware_time fromiso s of None \<Rightarrow> None | Some t \<Rightarrow> if t \<le> now then Some t else None)
           else None
       | _ \<Rightarrow> None) entry"

text \<open>A root blocker as the classifier of the backlog gives it; a number of another repository is a text.\<close>

datatype root_number = Local_root int | Foreign_root string

record root_blocker =
  rb_number :: root_number
  rb_updated_at :: "string option"

record blocking_pr =
  bp_number :: "int option"
  bp_status :: json
  bp_last_change :: "int option"

record root_progress =
  rp_issue :: int
  rp_last_change :: "int option"
  rp_idle_seconds :: "int option"
  rp_blocking_prs :: "blocking_pr list"

definition newest :: "int list \<Rightarrow> int option" where
  "newest ts = (if ts = [] then None else Some (Max (set ts)))"

definition is_number_text :: "string \<Rightarrow> bool" where
  "is_number_text s \<longleftrightarrow> s \<noteq> [] \<and> list_all is_digit s"

definition key_number :: "string \<Rightarrow> int" where
  "key_number key = (if is_number_text key then digits_val key else 0)"

text \<open>The tracked pull requests of an issue, with their past stamps.\<close>

definition bound_prs :: "time_io \<Rightarrow> json_dict \<Rightarrow> int \<Rightarrow> int \<Rightarrow> (blocking_pr \<times> int list) list" where
  "bound_prs io prs number now =
     List.map_filter (\<lambda>(key, value).
       case value of
         JObj entry \<Rightarrow>
           if json_str io (jget entry ''issue_number'') \<noteq> int_str number then None
           else (let ts = past_dated_timestamps (ti_fromiso io) entry now
                 in Some (\<lparr> bp_number = (case jget entry ''number'' of
                                          JInt n \<Rightarrow> Some n
                                        | JBool b \<Rightarrow> Some (if b then 1 else 0)
                                        | _ \<Rightarrow> if is_number_text key then Some (digits_val key) else None),
                            bp_status = jget entry ''status'', bp_last_change = newest ts \<rparr>, ts))
       | _ \<Rightarrow> None) (sort_key (\<lambda>(key, value). key_number key) prs)"

definition root_progress_of :: "time_io \<Rightarrow> json_dict \<Rightarrow> int \<Rightarrow> root_blocker \<Rightarrow> root_progress option" where
  "root_progress_of io state now root =
     (case rb_number root of
        Foreign_root _ \<Rightarrow> None
      | Local_root number \<Rightarrow>
          (let fromiso = ti_fromiso io;
               updated = (case rb_updated_at root of
                            None \<Rightarrow> []
                          | Some s \<Rightarrow> (case aware_time fromiso s of None \<Rightarrow> [] | Some t \<Rightarrow> if t \<le> now then [t] else []));
               own = (case jget (section_of state ''issues'') (int_str number) of
                        JObj entry \<Rightarrow> past_dated_timestamps fromiso entry now
                      | _ \<Rightarrow> []);
               prs = bound_prs io (section_of state ''prs'') number now;
               last = newest (updated @ own @ concat (map snd prs))
           in Some \<lparr> rp_issue = number, rp_last_change = last,
                     rp_idle_seconds = map_option (\<lambda>t. (now - t) div 1000000) last,
                     rp_blocking_prs = map fst prs \<rparr>))"

section \<open>The check\<close>

record dispatch_config =
  dg_staleness_minutes :: int
  dg_dependency_stall_minutes :: int
  dg_host :: "string option"
  dg_default_host :: bool

text \<open>What the backlog looked like; \<open>bl_roots\<close> is None where the reading has no list of root blockers.\<close>

record backlog =
  bl_observed :: bool
  bl_open_total :: int
  bl_dispatchable :: int
  bl_blocked :: int
  bl_roots :: "root_blocker list option"

record staleness =
  ss_stale :: bool
  ss_emit :: bool
  ss_last_at :: json
  ss_issues :: "json list option"
  ss_age :: "int option"
  ss_threshold :: "int option"
  ss_reason :: string
  ss_roots :: "root_progress list option"

definition quiet_reading :: "int option \<Rightarrow> string \<Rightarrow> staleness" where
  "quiet_reading threshold reason =
     \<lparr> ss_stale = False, ss_emit = False, ss_last_at = JNull, ss_issues = None, ss_age = None, ss_threshold = threshold,
       ss_reason = reason, ss_roots = None \<rparr>"

definition min_reminder_minutes :: int where
  "min_reminder_minutes = 240"

text \<open>\<^verbatim>\<open>int(delta.total_seconds())\<close>: towards zero.\<close>

definition whole_seconds :: "int \<Rightarrow> int" where
  "whole_seconds d = (if d < 0 then - ((- d) div 1000000) else d div 1000000)"

definition is_foreign :: "root_blocker \<Rightarrow> bool" where
  "is_foreign root = (case rb_number root of Foreign_root _ \<Rightarrow> True | Local_root _ \<Rightarrow> False)"

definition blocked_reading :: "time_io \<Rightarrow> dispatch_config \<Rightarrow> json_dict \<Rightarrow> backlog \<Rightarrow> int \<Rightarrow> staleness" where
  "blocked_reading io cfg state backlog now =
     (let exempt = quiet_reading (Some (dg_staleness_minutes cfg * 60)) ''all_ready_blocked_by_dependencies'';
          stall = dg_dependency_stall_minutes cfg
      in case bl_roots backlog of
           None \<Rightarrow> exempt
         | Some roots \<Rightarrow>
             if stall \<le> 0 \<or> roots = [] \<or> list_ex is_foreign roots then exempt
             else (let details = List.map_filter (root_progress_of io state now) roots;
                       idles = map rp_idle_seconds details
                   in if details \<noteq> [] \<and> list_all (\<lambda>i. case i of None \<Rightarrow> True | Some s \<Rightarrow> stall * 60 < s) idles
                      then exempt\<lparr> ss_threshold := Some (stall * 60), ss_stale := True,
                             ss_reason := ''dependency_root_blocker_idle'',
                             ss_age := newest (List.map_filter id idles),
                             ss_emit := is_dispatch_stale_alert_due io state now (max stall min_reminder_minutes),
                             ss_roots := Some details \<rparr>
                      else exempt\<lparr> ss_roots := Some details \<rparr>))"

definition aged_reading :: "time_io \<Rightarrow> dispatch_config \<Rightarrow> json_dict \<Rightarrow> int \<Rightarrow> staleness option" where
  "aged_reading io cfg state now =
     (let threshold = dg_staleness_minutes cfg * 60; unknown = quiet_reading (Some threshold) ''no_baseline''
      in case last_non_empty_dispatch state of
           None \<Rightarrow> None
         | Some None \<Rightarrow> Some unknown
         | Some (Some (JStr s, numbers)) \<Rightarrow>
             (case aware_time (ti_fromiso io) s of
                None \<Rightarrow> Some unknown
              | Some t \<Rightarrow>
                  (let age = whole_seconds (now - t);
                       read = unknown\<lparr> ss_last_at := JStr s, ss_issues := Some numbers, ss_age := Some age \<rparr>
                   in if threshold < age
                      then Some (read\<lparr> ss_stale := True, ss_reason := ''dispatch_stale'',
                             ss_emit := is_dispatch_stale_alert_due io state now
                               (max (dg_staleness_minutes cfg) min_reminder_minutes) \<rparr>)
                      else Some (read\<lparr> ss_reason := ''within_threshold'' \<rparr>)))
         | Some (Some _) \<Rightarrow> None)"

text \<open>\<^verbatim>\<open>check_dispatch_staleness\<close>; None is an exception.\<close>

definition check_dispatch_staleness ::
  "time_io \<Rightarrow> dispatch_config \<Rightarrow> json_dict \<Rightarrow> backlog \<Rightarrow> int list \<Rightarrow> int \<Rightarrow> staleness option" where
  "check_dispatch_staleness io cfg state backlog dispatched now =
     (let threshold = Some (dg_staleness_minutes cfg * 60)
      in if dg_staleness_minutes cfg \<le> 0 then Some (quiet_reading (Some 0) ''threshold_disabled'')
         else if dispatched \<noteq> []
         then Some ((quiet_reading threshold ''current_pass_dispatched'')
                \<lparr> ss_last_at := format_z io now, ss_issues := Some (map JInt (sort dispatched)), ss_age := Some 0 \<rparr>)
         else if \<not> bl_observed backlog then Some (quiet_reading threshold ''backlog_not_observed'')
         else if bl_open_total backlog \<le> 0 then Some (quiet_reading threshold ''empty_backlog'')
         else if dg_host cfg \<noteq> None \<and> \<not> dg_default_host cfg \<and> bl_dispatchable backlog = 0 \<and> bl_blocked backlog = 0
         then Some (quiet_reading threshold ''not_default_host'')
         else if bl_dispatchable backlog = 0 \<and> 0 < bl_blocked backlog
         then Some (blocked_reading io cfg state backlog now)
         else aged_reading io cfg state now)"

section \<open>The end of a dispatch pass\<close>

text \<open>What a pass brings: its clock, the issues it dispatched, the backlog it saw.\<close>

record cadence_input =
  ci_now :: int
  ci_dispatched :: "int list"
  ci_backlog :: backlog

text \<open>
  The new state with the reading; a reading with \<open>ss_emit\<close> is also recorded as a \<^verbatim>\<open>dispatch_stale\<close> event.
  None is an exception.
\<close>

definition cadence_pass ::
  "time_io \<Rightarrow> dispatch_config \<Rightarrow> dispatch_log \<Rightarrow> cadence_input \<Rightarrow> json_dict \<Rightarrow> (json_dict \<times> staleness) option" where
  "cadence_pass io cfg log input state =
     (let now = ci_now input; stamp = format_z io now;
          recorded = (if ci_dispatched input = [] then state
                      else record_non_empty_dispatch state stamp (map JInt (sort (ci_dispatched input))));
          based = backfill_dispatch_baseline log recorded
      in map_option (\<lambda>reading.
           (if ss_stale reading
            then if ss_emit reading then arm_dispatch_stale_alert based stamp else based
            else clear_dispatch_stale_alert based (ss_reason reading), reading))
         (check_dispatch_staleness io cfg based (ci_backlog input) (ci_dispatched input) now))"

end
