(* ===== verification/Cadence_Props.thy ===== *)
theory Cadence_Props
  imports Cadence Digit_Clock
begin

text \<open>
  What the schedules and the stale alert promise: a schedule is due when its time has come and touches no
  other, an alert is raised at the onset of a stall and then at most once per reminder, and a dispatch that
  was recorded is never forgotten.
\<close>

section \<open>Schedules\<close>

lemma section_put [simp]: "section_of (put_section state name d) name' = (if name' = name then d else section_of state name')"
  by (simp add: section_of_def put_section_def)

lemma schedule_due_text: "at \<noteq> [] \<Longrightarrow> fromiso (zulu at) = Some (Aware t) \<Longrightarrow> schedule_due fromiso (JStr at) now = Some (t \<le> now)"
  by (simp add: schedule_due_def)

text \<open>
  A pass that is armed for a time is due exactly from that time on, and arming one of the three passes
  changes nothing for the other two.
\<close>

theorem armed_pass_is_due:
  assumes "at \<noteq> []" and "fromiso (zulu at) = Some (Aware t)"
  shows "is_reconcile_due fromiso (arm_reconcile_pass state at) now = Some (t \<le> now) \<and>
    is_deescalation_due fromiso (arm_deescalation_pass state at) now = Some (t \<le> now) \<and>
    is_worktree_reclamation_due fromiso (schedule_worktree_reclamation state at) now = Some (t \<le> now) \<and>
    (\<forall>armed \<in> {arm_deescalation_pass state at, schedule_worktree_reclamation state at}.
       is_reconcile_due fromiso armed now = is_reconcile_due fromiso state now) \<and>
    (\<forall>armed \<in> {arm_reconcile_pass state at, schedule_worktree_reclamation state at}.
       is_deescalation_due fromiso armed now = is_deescalation_due fromiso state now) \<and>
    (\<forall>armed \<in> {arm_reconcile_pass state at, arm_deescalation_pass state at}.
       is_worktree_reclamation_due fromiso armed now = is_worktree_reclamation_due fromiso state now)"
  using assms
  by (simp add: is_reconcile_due_def is_deescalation_due_def is_worktree_reclamation_due_def arm_reconcile_pass_def
      arm_deescalation_pass_def schedule_worktree_reclamation_def schedule_due_text)

section \<open>The clock\<close>

text \<open>The time text of a whole second reads back; \<^verbatim>\<open>isoformat\<close> promises it.\<close>

definition stamps_read_back :: "time_io \<Rightarrow> bool" where
  "stamps_read_back io \<longleftrightarrow>
     (\<forall>t. ti_format io (whole_second t) \<noteq> [] \<and>
        ti_fromiso io (zulu (ti_format io (whole_second t))) = Some (Aware (whole_second t)))"

definition marker :: "json_dict \<Rightarrow> json" where
  "marker state = jget (cadence_of state) ''last_stale_alert_at''"

lemma cadence_put [simp]: "cadence_of (put_cadence state d) = d"
  by (simp add: cadence_of_def put_cadence_def)

lemma marker_simps [simp]:
  "marker (record_non_empty_dispatch state at numbers) = marker state"
  "marker (mark_dispatch_baseline_backfill_attempted state) = marker state"
  "marker (arm_dispatch_stale_alert state at) = at"
  by (simp_all add: marker_def record_non_empty_dispatch_def mark_dispatch_baseline_backfill_attempted_def
      arm_dispatch_stale_alert_def)

lemma marker_backfill [simp]: "marker (backfill_dispatch_baseline log state) = marker state"
  by (simp add: backfill_dispatch_baseline_def Let_def split: option.split prod.split)

lemma marker_clear:
  "marker (clear_dispatch_stale_alert state reason) = (if reason \<in> set resolved_reasons then JNull else marker state)"
  by (simp add: clear_dispatch_stale_alert_def marker_def)

lemma alert_due:
  assumes "stamps_read_back io" and "marker state = JNull \<or> marker state = format_z io t"
  shows "is_dispatch_stale_alert_due io state now m \<longleftrightarrow>
    marker state = JNull \<or> m \<le> 0 \<or> whole_second t + minutes m \<le> now"
  using assms
  by (auto simp: is_dispatch_stale_alert_due_def marker_def [symmetric] Let_def format_z_def stamps_read_back_def json_str_def)

text \<open>The reminder of a reading, never below the floor.\<close>

definition reminder_of :: "dispatch_config \<Rightarrow> staleness \<Rightarrow> int" where
  "reminder_of cfg r =
     max (if ss_reason r = ''dependency_root_blocker_idle'' then dg_dependency_stall_minutes cfg else dg_staleness_minutes cfg)
       min_reminder_minutes"

lemma emit_due:
  assumes "check_dispatch_staleness io cfg state backlog dispatched now = Some r"
  shows "ss_emit r \<longleftrightarrow> ss_stale r \<and> is_dispatch_stale_alert_due io state now (reminder_of cfg r)"
  using assms
  by (auto simp: check_dispatch_staleness_def blocked_reading_def aged_reading_def quiet_reading_def Let_def reminder_of_def
      split: if_splits option.splits json.splits)

section \<open>The alert over many passes\<close>

fun run_passes ::
  "time_io \<Rightarrow> dispatch_config \<Rightarrow> dispatch_log \<Rightarrow> cadence_input list \<Rightarrow> json_dict \<Rightarrow>
   (json_dict \<times> staleness list) option" where
  "run_passes io cfg log [] state = Some (state, [])"
| "run_passes io cfg log (i # inputs) state =
     (case cadence_pass io cfg log i state of
        None \<Rightarrow> None
      | Some (state1, r) \<Rightarrow> map_option (\<lambda>(state2, rs). (state2, r # rs)) (run_passes io cfg log inputs state1))"

definition resolves :: "staleness \<Rightarrow> bool" where
  "resolves r \<longleftrightarrow> \<not> ss_stale r \<and> ss_reason r \<in> set resolved_reasons"

text \<open>The state the check reads: the dispatch of this pass and the recovered baseline are in it.\<close>

definition based_state :: "time_io \<Rightarrow> dispatch_log \<Rightarrow> cadence_input \<Rightarrow> json_dict \<Rightarrow> json_dict" where
  "based_state io log i state =
     backfill_dispatch_baseline log
       (if ci_dispatched i = [] then state
        else record_non_empty_dispatch state (format_z io (ci_now i)) (map JInt (sort (ci_dispatched i))))"

lemma cadence_pass_parts:
  assumes "cadence_pass io cfg log i state = Some (state', r)"
  shows "check_dispatch_staleness io cfg (based_state io log i state) (ci_backlog i) (ci_dispatched i) (ci_now i) = Some r"
    and "marker (based_state io log i state) = marker state"
    and "marker state' = (if ss_stale r then if ss_emit r then format_z io (ci_now i) else marker state
                          else if ss_reason r \<in> set resolved_reasons then JNull else marker state)"
proof -
  show marked: "marker (based_state io log i state) = marker state"
    by (simp add: based_state_def)
  show "check_dispatch_staleness io cfg (based_state io log i state) (ci_backlog i) (ci_dispatched i) (ci_now i) = Some r"
    using assms by (auto simp: cadence_pass_def Let_def based_state_def)
  have "state' = (if ss_stale r
      then if ss_emit r then arm_dispatch_stale_alert (based_state io log i state) (format_z io (ci_now i))
           else based_state io log i state
      else clear_dispatch_stale_alert (based_state io log i state) (ss_reason r))"
    using assms by (auto simp: cadence_pass_def Let_def based_state_def)
  with marked show "marker state' = (if ss_stale r then if ss_emit r then format_z io (ci_now i) else marker state
                          else if ss_reason r \<in> set resolved_reasons then JNull else marker state)"
    by (simp add: marker_clear)
qed

lemma held_alert:
  assumes "stamps_read_back io" and "marker state = format_z io t" and "cadence_pass io cfg log i state = Some (state', r)"
    and "ci_now i < whole_second t + minutes min_reminder_minutes"
  shows "\<not> ss_emit r \<and> (resolves r \<or> marker state' = format_z io t)"
proof -
  note parts = cadence_pass_parts [OF assms(3)]
  have "0 < reminder_of cfg r" "minutes min_reminder_minutes \<le> minutes (reminder_of cfg r)"
    by (simp_all add: reminder_of_def min_reminder_minutes_def minutes_def)
  then have "\<not> ss_emit r"
    using alert_due [OF assms(1), of "based_state io log i state" t "ci_now i" "reminder_of cfg r"] assms(2,4) parts(2)
      emit_due [OF parts(1)]
    by (simp add: format_z_def)
  with parts(3) assms(2) show ?thesis
    by (auto simp: resolves_def)
qed

text \<open>
  C29. Between two alerts of the same stall at least four hours pass, whatever the configured thresholds: until
  then a pass raises no alert unless one before it found the stall resolved, and a reading that merely does
  not know resolves nothing.
\<close>

theorem alerts_are_spaced:
  assumes "stamps_read_back io" and "cadence_pass io cfg log i state = Some (state1, r)" and "ss_emit r"
    and "run_passes io cfg log inputs state1 = Some (state2, rs)"
    and "\<And>j. j \<in> set inputs \<Longrightarrow> ci_now j < whole_second (ci_now i) + minutes min_reminder_minutes"
    and "\<And>r. r \<in> set rs \<Longrightarrow> \<not> resolves r"
  shows "\<forall>r \<in> set rs. \<not> ss_emit r"
proof -
  have armed: "marker state1 = format_z io (ci_now i)"
    using cadence_pass_parts(3) [OF assms(2)] emit_due [OF cadence_pass_parts(1) [OF assms(2)]] assms(3) by simp
  have "\<forall>r \<in> set rs. \<not> ss_emit r"
    if "marker s = format_z io (ci_now i)" "run_passes io cfg log is s = Some (state2, rs)"
      "\<And>j. j \<in> set is \<Longrightarrow> ci_now j < whole_second (ci_now i) + minutes min_reminder_minutes"
      "\<And>r. r \<in> set rs \<Longrightarrow> \<not> resolves r" for s "is" rs
    using that
  proof (induction "is" arbitrary: s rs)
    case (Cons j "is")
    then obtain s' q qs where step: "cadence_pass io cfg log j s = Some (s', q)"
      "run_passes io cfg log is s' = Some (state2, qs)" "rs = q # qs"
      by (auto split: option.splits)
    have "\<not> ss_emit q \<and> (resolves q \<or> marker s' = format_z io (ci_now i))"
      by (rule held_alert [OF assms(1) Cons.prems(1) step(1)]) (use Cons.prems(3) in simp)
    with Cons.prems(4) step(3) have q: "\<not> ss_emit q" "marker s' = format_z io (ci_now i)"
      by auto
    have "\<forall>r \<in> set qs. \<not> ss_emit r"
      by (rule Cons.IH [OF q(2) step(2)]) (use Cons.prems(3,4) step(3) in auto)
    with q(1) step(3) show ?case
      by simp
  qed simp
  from this [OF armed assms(4-6)] show ?thesis .
qed

text \<open>
  The onset of a stall is alerted at once: a pass that finds the dispatcher stale while no alert is on
  record raises one, and so does every pass once the reminder of the alert on record has run out.
\<close>

theorem stall_is_alerted:
  assumes "stamps_read_back io" and "cadence_pass io cfg log i state = Some (state', r)" and "ss_stale r"
    and "marker state = JNull \<or>
      marker state = format_z io t \<and>
      whole_second t + minutes (max min_reminder_minutes (max (dg_staleness_minutes cfg) (dg_dependency_stall_minutes cfg))) \<le> ci_now i"
  shows "ss_emit r \<and> marker state' = format_z io (ci_now i)"
proof -
  note parts = cadence_pass_parts [OF assms(2)]
  let ?m = "max min_reminder_minutes (max (dg_staleness_minutes cfg) (dg_dependency_stall_minutes cfg))"
  have "minutes (reminder_of cfg r) \<le> minutes ?m"
    by (auto simp: reminder_of_def minutes_def max_def)
  then have "ss_emit r"
    using alert_due [OF assms(1), of "based_state io log i state" t "ci_now i" "reminder_of cfg r"] assms(3,4) parts(2)
      emit_due [OF parts(1)]
    by auto
  with parts(3) assms(3) show ?thesis
    by simp
qed

section \<open>The baseline lasts\<close>

definition has_baseline :: "time_io \<Rightarrow> json_dict \<Rightarrow> bool" where
  "has_baseline io state \<longleftrightarrow>
     (\<exists>s ns. jget (cadence_of state) ''last_non_empty_dispatch_at'' = JStr s \<and> s \<noteq> [] \<and>
        aware_time (ti_fromiso io) s \<noteq> None \<and>
        map_of (cadence_of state) ''last_non_empty_dispatch_issue_numbers'' = Some (JList ns))"

lemma map_of_jput: "map_of (jput d k v) k' = (if k' = k then Some v else map_of d k')"
  by (induction d k v rule: jput.induct) auto

lemma baseline_recorded: "stamps_read_back io \<Longrightarrow> has_baseline io (record_non_empty_dispatch state (format_z io t) (map JInt ns))"
  by (auto simp: has_baseline_def record_non_empty_dispatch_def format_z_def stamps_read_back_def aware_time_def map_of_jput)

lemma baseline_kept:
  assumes "has_baseline io state"
  shows "has_baseline io (backfill_dispatch_baseline log state)" "has_baseline io (arm_dispatch_stale_alert state at)"
    "has_baseline io (clear_dispatch_stale_alert state reason)"
  using assms
  by (auto simp: has_baseline_def backfill_dispatch_baseline_def dispatch_baseline_needs_backfill_def Let_def
      arm_dispatch_stale_alert_def clear_dispatch_stale_alert_def map_of_jput)

lemma baseline_read:
  assumes "has_baseline io state"
  shows "\<exists>r. check_dispatch_staleness io cfg state backlog dispatched now = Some r \<and> ss_reason r \<noteq> ''no_baseline''"
proof -
  obtain s ns where "last_non_empty_dispatch state = Some (Some (JStr s, ns))" "aware_time (ti_fromiso io) s \<noteq> None"
    using assms by (auto simp: has_baseline_def last_non_empty_dispatch_def Let_def)
  then show ?thesis
    by (auto simp: check_dispatch_staleness_def aged_reading_def blocked_reading_def quiet_reading_def Let_def
        split: option.split)
qed

lemma baseline_pass:
  assumes "has_baseline io state \<or> ci_dispatched i \<noteq> []" and "stamps_read_back io"
  shows "\<exists>state' r. cadence_pass io cfg log i state = Some (state', r) \<and> ss_reason r \<noteq> ''no_baseline'' \<and> has_baseline io state'"
proof -
  have based: "has_baseline io (based_state io log i state)"
    using assms baseline_recorded by (auto simp: based_state_def intro: baseline_kept(1))
  then obtain r where
    "check_dispatch_staleness io cfg (based_state io log i state) (ci_backlog i) (ci_dispatched i) (ci_now i) = Some r"
    "ss_reason r \<noteq> ''no_baseline''"
    using baseline_read by blast
  then show ?thesis
    using based by (auto simp: cadence_pass_def Let_def based_state_def [symmetric] intro: baseline_kept)
qed

text \<open>
  C28. A dispatch is never forgotten: after a pass that launched an issue no later pass raises or reports
  that it has no baseline, however many empty passes follow, so a stall can always be measured.
\<close>

theorem dispatch_is_never_forgotten:
  assumes "stamps_read_back io" and "ci_dispatched i \<noteq> []"
  shows "\<exists>state' rs. run_passes io cfg log (i # inputs) state = Some (state', rs) \<and>
    (\<forall>r \<in> set rs. ss_reason r \<noteq> ''no_baseline'')"
proof -
  have "\<exists>s' rs. run_passes io cfg log is s = Some (s', rs) \<and> (\<forall>r \<in> set rs. ss_reason r \<noteq> ''no_baseline'')"
    if "has_baseline io s" for s "is"
    using that
  proof (induction "is" arbitrary: s)
    case (Cons j "is")
    then obtain s1 r where "cadence_pass io cfg log j s = Some (s1, r)" "ss_reason r \<noteq> ''no_baseline''" "has_baseline io s1"
      using baseline_pass [OF _ assms(1)] by blast
    with Cons.IH [of s1] show ?case
      by auto
  qed simp
  moreover obtain s1 r where "cadence_pass io cfg log i state = Some (s1, r)" "ss_reason r \<noteq> ''no_baseline''" "has_baseline io s1"
    using baseline_pass [OF _ assms(1)] assms(2) by blast
  ultimately show ?thesis
    by fastforce
qed

section \<open>Examples\<close>

lemma int_str_nonempty: "int_str i \<noteq> []"
  by (simp add: int_str_def nat_digits_nonempty)

lemma digit_stamps: "stamps_read_back digit_io"
proof -
  have "whole_second t div 1000000 * 1000000 = whole_second t" for t
    by (simp add: whole_second_def minus_mod_eq_mult_div)
  then show ?thesis
    by (simp add: stamps_read_back_def digit_io_def zulu_int_str read_int_str int_str_nonempty)
qed

theorem armed_pass_is_due_witness:
  "is_reconcile_due (ti_fromiso digit_io) (arm_reconcile_pass [] (int_str 5)) 5000000 = Some True"
  using armed_pass_is_due [of "int_str 5" "ti_fromiso digit_io" 5000000 "[]" 5000000]
  by (simp add: digit_io_def zulu_int_str read_int_str int_str_nonempty)

definition busy_backlog :: backlog where
  "busy_backlog = \<lparr> bl_observed = True, bl_open_total = 3, bl_dispatchable = 1, bl_blocked = 0, bl_roots = None \<rparr>"

definition hourly :: dispatch_config where
  "hourly = \<lparr> dg_staleness_minutes = 60, dg_dependency_stall_minutes = 0, dg_host = None, dg_default_host = True \<rparr>"

definition pass_at :: "int \<Rightarrow> int list \<Rightarrow> cadence_input" where
  "pass_at hour issues = \<lparr> ci_now = hour * 3600000000, ci_dispatched = issues, ci_backlog = busy_backlog \<rparr>"

text \<open>A state whose last dispatch is at hour 0, with an alert on record or JNull.\<close>

definition stalled_state :: "json \<Rightarrow> json_dict" where
  "stalled_state alert =
     [(''dispatch_cadence'', JObj [(''last_non_empty_dispatch_at'', format_z digit_io 0), (''last_stale_alert_at'', alert)])]"

lemma stalled_cadence: "cadence_of (stalled_state alert) =
    [(''last_non_empty_dispatch_at'', format_z digit_io 0), (''last_stale_alert_at'', alert)]"
  by (simp add: cadence_of_def section_of_def stalled_state_def)

definition stale_reading :: "int \<Rightarrow> bool \<Rightarrow> staleness" where
  "stale_reading hour emits =
     \<lparr> ss_stale = True, ss_emit = emits, ss_last_at = format_z digit_io 0, ss_issues = Some [], ss_age = Some (hour * 3600),
       ss_threshold = Some 3600, ss_reason = ''dispatch_stale'', ss_roots = None \<rparr>"

lemma stalled_pass:
  assumes "1 < hour" and "alert = JNull \<or> alert = format_z digit_io t" and "due \<longleftrightarrow> alert = JNull \<or> whole_second t + minutes 240 \<le> hour * 3600000000"
  shows "cadence_pass digit_io hourly log (pass_at hour []) (stalled_state alert) =
    Some (stalled_state (if due then format_z digit_io (hour * 3600000000) else alert), stale_reading hour due)"
proof -
  have zero: "format_z digit_io 0 = JStr (int_str 0)" "int_str 0 \<noteq> []"
    by (simp_all add: format_z_def digit_io_def whole_second_def int_str_nonempty)
  have read: "aware_time (ti_fromiso digit_io) (int_str 0) = Some 0"
    by (simp add: aware_time_def digit_io_def zulu_int_str read_int_str)
  have "marker (stalled_state alert) = alert"
    by (simp add: marker_def stalled_cadence)
  then have due: "is_dispatch_stale_alert_due digit_io (stalled_state alert) (hour * 3600000000) 240 = due"
    using alert_due [OF digit_stamps, of "stalled_state alert" t "hour * 3600000000" 240] assms(2,3) by auto
  have "last_non_empty_dispatch (stalled_state alert) = Some (Some (JStr (int_str 0), []))"
    by (simp add: last_non_empty_dispatch_def stalled_cadence zero Let_def)
  then have "check_dispatch_staleness digit_io hourly (stalled_state alert) busy_backlog [] (hour * 3600000000) =
      Some (stale_reading hour due)"
    using assms(1) read due
    by (simp add: check_dispatch_staleness_def hourly_def busy_backlog_def aged_reading_def quiet_reading_def Let_def
        stale_reading_def zero whole_seconds_def min_reminder_minutes_def)
  moreover have "backfill_dispatch_baseline log (stalled_state alert) = stalled_state alert"
    by (simp add: backfill_dispatch_baseline_def dispatch_baseline_needs_backfill_def stalled_cadence zero)
  moreover have "arm_dispatch_stale_alert (stalled_state alert) at = stalled_state at" for at
    by (simp add: arm_dispatch_stale_alert_def stalled_cadence put_cadence_def put_section_def) (simp add: stalled_state_def)
  ultimately show ?thesis
    by (simp add: cadence_pass_def pass_at_def stale_reading_def Let_def)
qed

lemma quiet_pass:
  assumes "hour \<in> {3, 5}"
  shows "cadence_pass digit_io hourly log (pass_at hour []) (stalled_state (format_z digit_io 7200000000)) =
    Some (stalled_state (format_z digit_io 7200000000), stale_reading hour False)"
  using stalled_pass [of hour "format_z digit_io 7200000000" 7200000000 False] assms
  by (auto simp: format_z_def whole_second_def minutes_def)

lemma onset_pass:
  "cadence_pass digit_io hourly log (pass_at 2 []) (stalled_state JNull) =
     Some (stalled_state (format_z digit_io 7200000000), stale_reading 2 True)"
  using stalled_pass [of 2 JNull 0 True] by simp

theorem alerts_are_spaced_witness:
  "run_passes digit_io hourly [] [pass_at 3 [], pass_at 5 []] (stalled_state (format_z digit_io 7200000000)) =
     Some (stalled_state (format_z digit_io 7200000000), [stale_reading 3 False, stale_reading 5 False]) \<and>
   list_all (\<lambda>r. \<not> ss_emit r) [stale_reading 3 False, stale_reading 5 False]"
proof -
  have run: "run_passes digit_io hourly [] [pass_at 3 [], pass_at 5 []] (stalled_state (format_z digit_io 7200000000)) =
     Some (stalled_state (format_z digit_io 7200000000), [stale_reading 3 False, stale_reading 5 False])"
    by (simp add: quiet_pass)
  have "\<forall>r \<in> set [stale_reading 3 False, stale_reading 5 False]. \<not> ss_emit r"
    by (rule alerts_are_spaced [OF digit_stamps onset_pass _ run])
      (auto simp: stale_reading_def resolves_def pass_at_def min_reminder_minutes_def minutes_def whole_second_def)
  with run show ?thesis
    unfolding list_all_iff by blast
qed

theorem stall_is_alerted_witness:
  "ss_emit (stale_reading 2 True) \<and> marker (stalled_state (format_z digit_io 7200000000)) = format_z digit_io (ci_now (pass_at 2 []))"
  by (rule stall_is_alerted [OF digit_stamps onset_pass, of 0]) (simp_all add: stale_reading_def marker_def stalled_cadence)

theorem dispatch_is_never_forgotten_witness:
  "\<exists>state' rs. run_passes digit_io hourly [] [pass_at 0 [4], pass_at 2 []] [] = Some (state', rs) \<and>
     list_all (\<lambda>r. ss_reason r \<noteq> ''no_baseline'') rs"
  unfolding list_all_iff by (rule dispatch_is_never_forgotten [OF digit_stamps]) (simp add: pass_at_def)

end
