(* ===== verification/Review_Record.thy ===== *)
theory Review_Record
  imports Json
begin

text \<open>
  The record of a pull request's review decision (\<^verbatim>\<open>review_decision.py\<close>): the flat file, the archive of one
  directory per round, the one reader over both and the one writer, step by step, so that a crash between
  two of its steps is a state of the model; and the reclassification of verdicts that call for a human.
\<close>

section \<open>The directory of a pull request\<close>

text \<open>A decision file: none, one that does not decode to an object, or its object.\<close>

datatype decision_file = No_file | Torn_file | Decision_object json_dict

text \<open>
  \<open>rd_rounds\<close> lists the directories under \<^verbatim>\<open>rounds/\<close> whose name starts with \<^verbatim>\<open>round-\<close>, by the rest of the
  name, each with its decision file.
\<close>

record review_dir =
  rd_flat :: decision_file
  rd_rounds :: "(string \<times> decision_file) list"

fun usable :: "decision_file \<Rightarrow> json_dict option" where
  "usable (Decision_object d) = Some d"
| "usable _ = None"

section \<open>Reading\<close>

definition is_number :: "string \<Rightarrow> bool" where
  "is_number s \<longleftrightarrow> s \<noteq> [] \<and> list_all is_digit s"

definition existing_round_numbers :: "review_dir \<Rightarrow> int list" where
  "existing_round_numbers dir = map digits_val (filter is_number (map fst (rd_rounds dir)))"

definition round_file :: "review_dir \<Rightarrow> int \<Rightarrow> decision_file" where
  "round_file dir n = (case map_of (rd_rounds dir) (int_str n) of None \<Rightarrow> No_file | Some f \<Rightarrow> f)"

definition archived_rounds :: "review_dir \<Rightarrow> (int \<times> json_dict) list" where
  "archived_rounds dir =
     List.map_filter (\<lambda>n. map_option (Pair n) (usable (round_file dir n))) (sort (existing_round_numbers dir))"

definition round_history_entries :: "review_dir \<Rightarrow> json_dict option \<Rightarrow> (int \<times> json_dict) list" where
  "round_history_entries dir fallback =
     (if archived_rounds dir \<noteq> [] then archived_rounds dir
      else (case fallback of None \<Rightarrow> [] | Some d \<Rightarrow> [(1, d)]))"

record review_decision_record =
  rr_decision :: "string option"
  rr_head :: "string option"
  rr_recorded_at :: "string option"
  rr_source_round :: "int option"
  rr_stale :: bool
  rr_missing :: bool

fun text_of :: "json \<Rightarrow> string option" where
  "text_of (JStr s) = Some s"
| "text_of _ = None"

text \<open>The payload the reader resolves to, with the round it came from.\<close>

definition resolved_payload :: "review_dir \<Rightarrow> (json_dict \<times> int option) option" where
  "resolved_payload dir =
     (case usable (rd_flat dir) of
        Some d \<Rightarrow> Some (d, None)
      | None \<Rightarrow>
          (let entries = round_history_entries dir None
           in if entries = [] then None else Some (snd (last entries), Some (fst (last entries)))))"

definition decision_view :: "(json_dict \<times> int option) option \<Rightarrow> string option \<Rightarrow> review_decision_record" where
  "decision_view resolved head =
     (case resolved of
        None \<Rightarrow> \<lparr> rr_decision = None, rr_head = None, rr_recorded_at = None, rr_source_round = None, rr_stale = False,
                  rr_missing = True \<rparr>
      | Some (d, src) \<Rightarrow>
          (let reviewed = jget d ''reviewed_head_sha''
           in \<lparr> rr_decision = text_of (jget d ''decision''), rr_head = text_of reviewed,
                rr_recorded_at = text_of (jget d ''recorded_at''), rr_source_round = src,
                rr_stale = (reviewed = JNull \<or> reviewed \<noteq> opt_json head), rr_missing = False \<rparr>))"

definition review_decision_of :: "review_dir \<Rightarrow> string option \<Rightarrow> review_decision_record" where
  "review_decision_of dir head = decision_view (resolved_payload dir) head"

definition resolve_decision_payload :: "review_dir \<Rightarrow> json_dict" where
  "resolve_decision_payload dir =
     (case resolved_payload dir of None \<Rightarrow> [(''decision'', JStr ''missing'')] | Some (d, _) \<Rightarrow> d)"

section \<open>Writing\<close>

definition round_compare_keys :: "string list" where
  "round_compare_keys = [''decision'', ''summary'', ''required_changes'', ''reviewed_head_sha'']"

definition same_round :: "json_dict \<Rightarrow> json_dict \<Rightarrow> bool" where
  "same_round a b \<longleftrightarrow> list_all (\<lambda>k. jget a k = jget b k) round_compare_keys"

definition highest_round :: "review_dir \<Rightarrow> int" where
  "highest_round dir = (if existing_round_numbers dir = [] then 0 else Max (set (existing_round_numbers dir)))"

definition next_round_number :: "review_dir \<Rightarrow> json_dict \<Rightarrow> int" where
  "next_round_number dir payload =
     (let highest = highest_round dir
      in if highest = 0 then 1
         else (case usable (round_file dir highest) of
                 Some prior \<Rightarrow> if same_round prior payload then highest else highest + 1
               | None \<Rightarrow> highest + 1))"

text \<open>
  The steps of a write: the round's directory is made, then its file is replaced, then the flat one is. Each
  is atomic; a crash leaves the steps before it done.
\<close>

datatype write_step = Make_round int | Put_round int json_dict | Put_flat json_dict

definition put_round_file :: "string \<Rightarrow> decision_file \<Rightarrow> (string \<times> decision_file) list \<Rightarrow> (string \<times> decision_file) list" where
  "put_round_file name f rounds =
     (if map_of rounds name = None then rounds @ [(name, f)]
      else map (\<lambda>(k, v). if k = name then (k, f) else (k, v)) rounds)"

fun do_step :: "write_step \<Rightarrow> review_dir \<Rightarrow> review_dir" where
  "do_step (Make_round n) dir =
     (if map_of (rd_rounds dir) (int_str n) = None
      then dir\<lparr> rd_rounds := put_round_file (int_str n) No_file (rd_rounds dir) \<rparr> else dir)"
| "do_step (Put_round n d) dir = dir\<lparr> rd_rounds := put_round_file (int_str n) (Decision_object d) (rd_rounds dir) \<rparr>"
| "do_step (Put_flat d) dir = dir\<lparr> rd_flat := Decision_object d \<rparr>"

definition stamped_payload :: "json_dict \<Rightarrow> string option \<Rightarrow> json_dict" where
  "stamped_payload verdict head =
     (case head of None \<Rightarrow> verdict | Some h \<Rightarrow> jput verdict ''reviewed_head_sha'' (JStr h))"

definition write_steps :: "review_dir \<Rightarrow> json_dict \<Rightarrow> string option \<Rightarrow> bool \<Rightarrow> write_step list" where
  "write_steps dir verdict head archive_round =
     (let payload = stamped_payload verdict head; n = next_round_number dir payload
      in (if archive_round then [Make_round n, Put_round n payload] else []) @ [Put_flat payload])"

definition run_steps_of :: "write_step list \<Rightarrow> review_dir \<Rightarrow> review_dir" where
  "run_steps_of steps dir = fold do_step steps dir"

text \<open>\<^verbatim>\<open>record_decision\<close>: the directory with all steps done, and the view of it the caller gets.\<close>

definition record_decision ::
  "review_dir \<Rightarrow> json_dict \<Rightarrow> string option \<Rightarrow> bool \<Rightarrow> review_dir \<times> review_decision_record" where
  "record_decision dir verdict head archive_round =
     (let dir' = run_steps_of (write_steps dir verdict head archive_round) dir in (dir', review_decision_of dir' head))"

section \<open>Voiding and reclassifying\<close>

definition terminal_decisions :: "string list" where
  "terminal_decisions = [''approved'', ''request_changes'', ''blocked'']"

definition is_terminal_decision :: "json \<Rightarrow> bool" where
  "is_terminal_decision d = (case d of JStr s \<Rightarrow> s \<in> set terminal_decisions | _ \<Rightarrow> False)"

text \<open>\<^verbatim>\<open>classify_verdict_void\<close>: whether the verdict is voided, and whether \<open>force\<close> alone did it.\<close>

definition classify_verdict_void :: "json \<Rightarrow> json \<Rightarrow> json \<Rightarrow> bool \<Rightarrow> bool \<times> bool" where
  "classify_verdict_void decision reviewed live force =
     (let terminal = is_terminal_decision decision; stale = (reviewed = JNull \<or> reviewed \<noteq> live)
      in (terminal \<and> (force \<or> stale), force \<and> terminal \<and> \<not> stale))"

definition force_voided_event_payload :: "json_dict \<Rightarrow> json \<Rightarrow> json \<Rightarrow> json \<Rightarrow> json_dict" where
  "force_voided_event_payload live pr issue head =
     [(''pr_number'', pr), (''issue_number'', issue), (''voided_decision'', jget live ''decision''),
      (''voided_reviewed_head_sha'', jget live ''reviewed_head_sha''),
      (''verdict_provenance'', jget live ''verdict_provenance''), (''head_sha'', head)]"

definition authored_provenances :: "string list" where
  "authored_provenances = [''fresh_llm_review'', ''stranded_reconciliation'', ''rescue_review'', ''operator_manual'']"

definition normalized_markers :: "string list \<Rightarrow> string list" where
  "normalized_markers markers = map (\<lambda>m. lower (strip m)) (filter (\<lambda>m. strip m \<noteq> []) markers)"

fun human_decision_marker_match :: "string list \<Rightarrow> string list \<Rightarrow> (string \<times> string) option" where
  "human_decision_marker_match [] markers = None"
| "human_decision_marker_match (item # items) markers =
     (case find (\<lambda>m. contains m (lower item)) (normalized_markers markers) of
        Some m \<Rightarrow> Some (item, m)
      | None \<Rightarrow> human_decision_marker_match items markers)"

text \<open>\<open>required_changes\<close> are the items as \<^verbatim>\<open>str\<close> prints them.\<close>

definition reclassify_human_call_verdict ::
  "string \<Rightarrow> string list \<Rightarrow> string list \<Rightarrow> string \<Rightarrow> string \<times> (string \<times> string) option" where
  "reclassify_human_call_verdict decision required_changes markers provenance =
     (if decision = ''request_changes'' \<and> provenance \<in> set authored_provenances
      then (case human_decision_marker_match required_changes markers of
              None \<Rightarrow> (decision, None)
            | Some m \<Rightarrow> (''blocked'', Some m))
      else (decision, None))"

end
