(* ===== verification/Review_Record_Props.thy ===== *)
theory Review_Record_Props
  imports Review_Record Digit_Clock
begin

text \<open>
  What the record of a review decision promises: a write is atomic at every crash point, a fresh verdict was
  recorded for the head it is read for, and the archive only grows.
\<close>

section \<open>Round numbers\<close>

lemma digits_chars: "list_all is_digit (nat_digits n)"
proof -
  have "is_digit c" if c: "c \<in> set (nat_digits n)" for c
  proof -
    obtain k where k: "k < (10 :: nat)" "c = char_of (48 + k)"
      using digit_chars [OF c] by blast
    then have "(of_char c :: nat) = 48 + k"
      by simp
    with k(1) show ?thesis
      by (simp add: is_digit_def)
  qed
  then show ?thesis
    by (simp add: list_all_iff)
qed

lemma number_text: "0 \<le> n \<Longrightarrow> is_number (int_str n) \<and> digits_val (int_str n) = n"
  by (simp add: is_number_def int_str_def nat_digits_nonempty digits_chars digits_val_nat_digits)

lemma digits_val_nonneg: "list_all is_digit s \<Longrightarrow> 0 \<le> digits_val s"
proof (induction s rule: rev_induct)
  case (snoc c s)
  then have "48 \<le> (of_char c :: nat)"
    by (simp add: is_digit_def Let_def)
  with snoc show ?case
    by (simp add: digits_val_snoc digit_val_def)
qed (simp add: digits_val_def)

lemma round_numbers_nonneg: "n \<in> set (existing_round_numbers dir) \<Longrightarrow> 0 \<le> n"
  by (auto simp: existing_round_numbers_def is_number_def intro: digits_val_nonneg)

lemma highest_round_ge: "n \<in> set (existing_round_numbers dir) \<Longrightarrow> n \<le> highest_round dir"
  by (auto simp: highest_round_def)

lemma highest_nonneg: "0 \<le> highest_round dir"
  using Max_in [of "set (existing_round_numbers dir)"] round_numbers_nonneg [of _ dir]
  by (auto simp: highest_round_def)

lemma next_round_cases:
  obtains (retry) prior where "next_round_number dir payload = highest_round dir" "0 < highest_round dir"
      "usable (round_file dir (highest_round dir)) = Some prior" "same_round prior payload"
    | (fresh) "next_round_number dir payload = highest_round dir + 1"
  using highest_nonneg [of dir]
  by (cases "usable (round_file dir (highest_round dir))") (force simp: next_round_number_def Let_def split: if_splits)+

section \<open>Steps\<close>

lemma map_of_put: "map_of (put_round_file k f rounds) k' = (if k' = k then Some f else map_of rounds k')"
proof -
  have "map_of (map (\<lambda>(k'', v). if k'' = k then (k'', f) else (k'', v)) rounds) k' =
      (if k' = k then map_option (\<lambda>_. f) (map_of rounds k) else map_of rounds k')"
    by (induction rounds) auto
  then show ?thesis
    by (auto simp: put_round_file_def map_add_def split: option.split)
qed

lemma names_put:
  "map fst (put_round_file k f rounds) = (if map_of rounds k = None then map fst rounds @ [k] else map fst rounds)"
  by (auto simp: put_round_file_def intro: map_cong)

lemma round_file_put: "round_file (dir\<lparr> rd_rounds := put_round_file (int_str n) f (rd_rounds dir) \<rparr>) m =
    (if m = n then f else round_file dir m)"
  by (simp add: round_file_def map_of_put)

lemma numbers_put:
  assumes "0 \<le> n"
  shows "existing_round_numbers (dir\<lparr> rd_rounds := put_round_file (int_str n) f (rd_rounds dir) \<rparr>) =
    existing_round_numbers dir @ (if map_of (rd_rounds dir) (int_str n) = None then [n] else [])"
  using number_text [OF assms] by (simp add: existing_round_numbers_def names_put)

lemma number_listed: "0 \<le> n \<Longrightarrow> map_of (rd_rounds dir) (int_str n) \<noteq> None \<Longrightarrow> n \<in> set (existing_round_numbers dir)"
  using number_text [of n]
  by (auto simp: existing_round_numbers_def dest!: map_of_SomeD intro!: image_eqI [of _ _ "int_str n"]) force

section \<open>A write is atomic\<close>

lemma map_filter_snoc: "List.map_filter f (xs @ [x]) = List.map_filter f xs @ (case f x of None \<Rightarrow> [] | Some y \<Rightarrow> [y])"
  by (simp add: List.map_filter_def split: option.split)

lemma map_filter_agree: "(\<And>x. x \<in> set xs \<Longrightarrow> f x = g x) \<Longrightarrow> List.map_filter f xs = List.map_filter g xs"
  by (induction xs) (auto simp: List.map_filter_simps split: option.split)

lemma sorted_last_filter:
  assumes "sorted (xs :: int list)" and "n \<in> set xs" and "\<And>x. x \<in> set xs \<Longrightarrow> x \<le> n" and "f n = Some y"
  shows "List.map_filter f xs \<noteq> [] \<and> last (List.map_filter f xs) = y"
proof (cases xs rule: rev_cases)
  case Nil
  with assms(2) show ?thesis
    by simp
next
  case (snoc ys z)
  with assms(1-3) have "z = n"
    by (force simp: sorted_append intro: order_antisym)
  with snoc assms(4) show ?thesis
    by (simp add: map_filter_snoc)
qed

lemma sort_snoc: "(\<And>x. x \<in> set xs \<Longrightarrow> x \<le> n) \<Longrightarrow> sort (xs @ [n]) = sort xs @ [n :: int]"
proof (induction xs)
  case (Cons x xs)
  have "insort x (ys @ [n]) = insort x ys @ [n]" if "x \<le> n" for ys
    using that by (induction ys) auto
  with Cons show ?case
    by simp
qed simp

text \<open>Once the file of the highest round holds a payload, the archive resolves to it.\<close>

lemma archive_resolves:
  assumes "n \<in> set (existing_round_numbers dir)" and "\<And>m. m \<in> set (existing_round_numbers dir) \<Longrightarrow> m \<le> n"
    and "usable (round_file dir n) = Some payload"
  shows "archived_rounds dir \<noteq> [] \<and> last (archived_rounds dir) = (n, payload)"
  unfolding archived_rounds_def
  by (rule sorted_last_filter) (use assms in auto)

lemma resolved_simps:
  "map_option fst (resolved_payload dir) =
     (case usable (rd_flat dir) of
        Some d \<Rightarrow> Some d
      | None \<Rightarrow> if archived_rounds dir = [] then None else Some (snd (last (archived_rounds dir))))"
  by (auto simp: resolved_payload_def round_history_entries_def Let_def split: option.split)

lemma archived_make:
  assumes "0 \<le> n" and "\<And>m. m \<in> set (existing_round_numbers dir) \<Longrightarrow> m \<le> n"
  shows "archived_rounds (do_step (Make_round n) dir) = archived_rounds dir"
proof (cases "map_of (rd_rounds dir) (int_str n)")
  case None
  then have absent: "round_file dir n = No_file"
    by (simp add: round_file_def)
  have "round_file (dir\<lparr> rd_rounds := put_round_file (int_str n) No_file (rd_rounds dir) \<rparr>) m = round_file dir m" for m
    using absent by (simp add: round_file_put)
  with None assms absent show ?thesis
    by (simp add: archived_rounds_def numbers_put sort_snoc map_filter_snoc)
qed simp

text \<open>The number a write takes is new or the highest, so no archived round lies behind it.\<close>

lemma next_round_bounds:
  "0 \<le> next_round_number dir payload" "m \<in> set (existing_round_numbers dir) \<Longrightarrow> m \<le> next_round_number dir payload"
  using highest_nonneg [of dir] highest_round_ge [of m dir] by (cases rule: next_round_cases [of dir payload]; simp)+

lemma made_numbers:
  assumes "0 \<le> n" and "\<And>m. m \<in> set (existing_round_numbers dir) \<Longrightarrow> m \<le> n"
  shows "n \<in> set (existing_round_numbers (do_step (Make_round n) dir))"
    "m \<in> set (existing_round_numbers (do_step (Make_round n) dir)) \<Longrightarrow> m \<le> n"
  using assms number_listed [OF assms(1)] by (auto simp: numbers_put split: if_splits)

lemma put_archived:
  assumes "0 \<le> n" and "n \<in> set (existing_round_numbers dir)" and "\<And>m. m \<in> set (existing_round_numbers dir) \<Longrightarrow> m \<le> n"
  shows "archived_rounds (do_step (Put_round n payload) dir) \<noteq> [] \<and>
    last (archived_rounds (do_step (Put_round n payload) dir)) = (n, payload)"
proof (rule archive_resolves)
  show "usable (round_file (do_step (Put_round n payload) dir) n) = Some payload"
    by (simp add: round_file_put)
qed (use assms in \<open>auto simp: numbers_put split: if_splits\<close>)

lemma steps_flat [simp]:
  "rd_flat (do_step (Make_round n) dir) = rd_flat dir" "rd_flat (do_step (Put_round n payload) dir) = rd_flat dir"
  "rd_flat (do_step (Put_flat payload) dir) = Decision_object payload"
  by simp_all

text \<open>
  C4. The write of a verdict is atomic for every reader: whatever step a crash falls behind, the reader
  resolves to the decision there was before or to the new verdict, never to nothing and never to an older
  round; and when all steps are done it resolves to the new one.
\<close>

theorem verdict_write_is_atomic:
  "map_option fst (resolved_payload (run_steps_of (take crash (write_steps dir verdict head archive)) dir))
     \<in> {map_option fst (resolved_payload dir), Some (stamped_payload verdict head)} \<and>
   map_option fst (resolved_payload (run_steps_of (write_steps dir verdict head archive) dir)) =
     Some (stamped_payload verdict head)"
proof -
  define payload where "payload = stamped_payload verdict head"
  define n where "n = next_round_number dir payload"
  let ?made = "do_step (Make_round n) dir" and ?put = "do_step (Put_round n payload) (do_step (Make_round n) dir)"
  note bounds = next_round_bounds [where dir = dir and payload = payload, folded n_def]
  have made: "map_option fst (resolved_payload ?made) = map_option fst (resolved_payload dir)"
    using archived_make [of n dir] bounds by (simp add: resolved_simps del: do_step.simps split: option.split)
  have put: "map_option fst (resolved_payload ?put) \<in> {map_option fst (resolved_payload dir), Some payload}"
  proof -
    have "archived_rounds ?put \<noteq> [] \<and> last (archived_rounds ?put) = (n, payload)"
      by (rule put_archived [OF bounds(1)]) (use bounds made_numbers [of n dir] in blast)+
    then show ?thesis
      by (cases "usable (rd_flat dir)") (simp_all add: resolved_simps del: do_step.simps)
  qed
  have flat: "map_option fst (resolved_payload (do_step (Put_flat payload) d)) = Some payload" for d
    by (simp add: resolved_simps)
  have steps: "write_steps dir verdict head archive =
      (if archive then [Make_round n, Put_round n payload] else []) @ [Put_flat payload]"
    by (simp add: write_steps_def Let_def payload_def [symmetric] n_def [symmetric])
  let ?ends = "\<lambda>steps. map_option fst (resolved_payload (run_steps_of steps dir))"
  have all: "take crash [Make_round n, Put_round n payload, Put_flat payload] \<in>
      {[], [Make_round n], [Make_round n, Put_round n payload], [Make_round n, Put_round n payload, Put_flat payload]}"
    "take crash [Put_flat payload] \<in> {[], [Put_flat payload]}"
    by (simp_all add: take_Cons split: nat.split)
  have ends: "?ends [] = map_option fst (resolved_payload dir)" "?ends [Make_round n] = map_option fst (resolved_payload dir)"
    "?ends [Make_round n, Put_round n payload] \<in> {map_option fst (resolved_payload dir), Some payload}"
    "?ends [Make_round n, Put_round n payload, Put_flat payload] = Some payload" "?ends [Put_flat payload] = Some payload"
    using made put flat by (simp_all add: run_steps_of_def del: do_step.simps)
  show ?thesis
  proof (cases archive)
    case True
    with steps have "write_steps dir verdict head archive = [Make_round n, Put_round n payload, Put_flat payload]"
      by (simp only: if_True) simp
    then show ?thesis
      using all(1) ends payload_def by auto
  next
    case False
    with steps have "write_steps dir verdict head archive = [Put_flat payload]"
      by (simp only: if_False) simp
    then show ?thesis
      using all(2) ends payload_def by auto
  qed
qed

section \<open>A fresh verdict\<close>

lemma resolved_from:
  assumes "resolved_payload dir = Some (d, src)"
  shows "rd_flat dir = Decision_object d \<or> (\<exists>name. (name, Decision_object d) \<in> set (rd_rounds dir))"
proof (cases "usable (rd_flat dir)")
  case None
  then have "archived_rounds dir \<noteq> []" "d = snd (last (archived_rounds dir))"
    using assms by (auto simp: resolved_payload_def round_history_entries_def Let_def split: if_splits)
  then obtain m where "(m, d) \<in> set (archived_rounds dir)"
    by (metis last_in_set prod.collapse)
  then have "usable (round_file dir m) = Some d"
    by (auto simp: archived_rounds_def List.map_filter_def)
  then show ?thesis
    by (cases "round_file dir m") (auto simp: round_file_def split: option.splits dest: map_of_SomeD)
next
  case (Some e)
  with assms show ?thesis
    by (cases "rd_flat dir") (auto simp: resolved_payload_def)
qed

text \<open>
  C5. A decision that reads as fresh was recorded for that very head: some file of the record holds it with
  the head it is read for. A torn or missing file, a payload without a head and a verdict of another head
  never read as a fresh approval.
\<close>

theorem fresh_verdict_was_recorded:
  assumes "rr_decision (review_decision_of dir head) = Some verdict" and "\<not> rr_stale (review_decision_of dir head)"
  shows "\<exists>d h. head = Some h \<and> jget d ''decision'' = JStr verdict \<and> jget d ''reviewed_head_sha'' = JStr h \<and>
    (rd_flat dir = Decision_object d \<or> (\<exists>name. (name, Decision_object d) \<in> set (rd_rounds dir)))"
proof -
  obtain d src where d: "resolved_payload dir = Some (d, src)"
    using assms(1) by (cases "resolved_payload dir") (auto simp: review_decision_of_def decision_view_def)
  moreover have "jget d ''decision'' = JStr verdict"
    using assms(1) d by (cases "jget d ''decision''") (auto simp: review_decision_of_def decision_view_def Let_def)
  moreover obtain h where "head = Some h" "jget d ''reviewed_head_sha'' = JStr h"
    using assms(2) d by (cases head) (auto simp: review_decision_of_def decision_view_def Let_def opt_json_def)
  ultimately show ?thesis
    using resolved_from by blast
qed

section \<open>The archive grows\<close>

definition verdict_key :: "json_dict \<Rightarrow> json list" where
  "verdict_key d = map (jget d) round_compare_keys"

lemma same_round_key: "same_round a b \<longleftrightarrow> verdict_key a = verdict_key b"
  by (simp add: same_round_def verdict_key_def round_compare_keys_def)

definition history :: "review_dir \<Rightarrow> json list list" where
  "history dir = map (verdict_key \<circ> snd) (archived_rounds dir)"

definition one_directory_per_round :: "review_dir \<Rightarrow> bool" where
  "one_directory_per_round dir \<longleftrightarrow> distinct (existing_round_numbers dir)"

definition last_round_agrees :: "review_dir \<Rightarrow> json_dict \<Rightarrow> bool" where
  "last_round_agrees dir payload \<longleftrightarrow> existing_round_numbers dir \<noteq> [] \<and> 0 < Max (set (existing_round_numbers dir)) \<and>
     (case round_file dir (Max (set (existing_round_numbers dir))) of
        Decision_object prior \<Rightarrow> verdict_key prior = verdict_key payload
      | _ \<Rightarrow> False)"

lemma last_round_agrees_next: "last_round_agrees dir payload \<longleftrightarrow> next_round_number dir payload = highest_round dir"
  using highest_nonneg [of dir]
  by (auto simp: last_round_agrees_def highest_round_def next_round_number_def same_round_key Let_def
      split: decision_file.splits option.splits if_splits)

lemma recorded_rounds:
  "archived_rounds (fst (record_decision dir verdict head True)) =
     archived_rounds (do_step (Put_round (next_round_number dir (stamped_payload verdict head)) (stamped_payload verdict head))
       (do_step (Make_round (next_round_number dir (stamped_payload verdict head))) dir))"
  by (simp add: record_decision_def write_steps_def run_steps_of_def Let_def archived_rounds_def existing_round_numbers_def
      round_file_def)

text \<open>
  C30. The archive only grows: recording a verdict leaves the history of the rounds as it was and adds at most
  this verdict behind it; it adds nothing exactly when the last round already holds a verdict that agrees in
  decision, summary, required changes and head, which is a retry.
\<close>

theorem verdict_history_grows:
  assumes "one_directory_per_round dir"
  shows "history (fst (record_decision dir verdict head True)) =
    (let payload = stamped_payload verdict head
     in if last_round_agrees dir payload then history dir else history dir @ [verdict_key payload])"
proof -
  define payload where "payload = stamped_payload verdict head"
  define n where "n = next_round_number dir payload"
  let ?put = "do_step (Put_round n payload) (do_step (Make_round n) dir)"
  note bounds = next_round_bounds [where dir = dir and payload = payload, folded n_def]
  let ?f = "\<lambda>d m. map_option (Pair m) (usable (round_file d m))"
  have others: "round_file ?put m = (if m = n then Decision_object payload else round_file dir m)" for m
    by (simp add: round_file_put)
  show ?thesis
  proof (cases rule: next_round_cases [of dir payload])
    case (retry prior)
    then have kept: "usable (round_file dir n) = Some prior" "verdict_key prior = verdict_key payload"
      by (simp_all add: n_def same_round_key)
    from retry have "map_of (rd_rounds dir) (int_str n) \<noteq> None"
      by (auto simp: n_def round_file_def split: option.splits)
    then have numbers: "existing_round_numbers ?put = existing_round_numbers dir"
      using bounds(1) by (auto simp: numbers_put)
    have "map (verdict_key \<circ> snd) (List.map_filter (?f ?put) ns) = map (verdict_key \<circ> snd) (List.map_filter (?f dir) ns)" for ns
      using kept by (induction ns) (auto simp: others List.map_filter_simps simp del: do_step.simps split: option.split)
    then have "history ?put = history dir"
      by (simp add: history_def archived_rounds_def numbers del: do_step.simps)
    with retry show ?thesis
      by (simp add: last_round_agrees_next history_def recorded_rounds payload_def [symmetric] n_def [symmetric] del: do_step.simps)
  next
    case fresh
    then have new: "n \<notin> set (existing_round_numbers dir)"
      using highest_round_ge [of n dir] by (auto simp: n_def)
    then have "map_of (rd_rounds dir) (int_str n) = None"
      using number_listed [OF bounds(1)] by blast
    then have numbers: "existing_round_numbers ?put = existing_round_numbers dir @ [n]"
      using numbers_put [OF bounds(1), where dir = dir and f = No_file]
        numbers_put [OF bounds(1), where dir = "do_step (Make_round n) dir" and f = "Decision_object payload"]
      by (simp add: map_of_put)
    have "List.map_filter (?f ?put) (sort (existing_round_numbers dir)) = List.map_filter (?f dir) (sort (existing_round_numbers dir))"
      by (rule map_filter_agree) (use new in \<open>auto simp: others simp del: do_step.simps\<close>)
    then have "history ?put = history dir @ [verdict_key payload]"
      using bounds(2)
      by (simp add: history_def archived_rounds_def numbers sort_snoc map_filter_snoc others del: do_step.simps)
    with fresh show ?thesis
      by (simp add: last_round_agrees_next history_def recorded_rounds payload_def [symmetric] n_def [symmetric] del: do_step.simps)
  qed
qed

section \<open>Examples\<close>

definition approved_at :: "string \<Rightarrow> json_dict" where
  "approved_at head = [(''decision'', JStr ''approved''), (''reviewed_head_sha'', JStr head)]"

definition one_round :: review_dir where
  "one_round = \<lparr> rd_flat = Torn_file, rd_rounds = [(int_str 1, Decision_object (approved_at ''aa''))] \<rparr>"

lemma one_round_numbers: "existing_round_numbers one_round = [1]"
  using number_text [of 1] by (simp add: existing_round_numbers_def one_round_def)

lemma one_round_file: "round_file one_round 1 = Decision_object (approved_at ''aa'')"
  by (simp add: round_file_def one_round_def)

lemma one_round_resolved: "resolved_payload one_round = Some (approved_at ''aa'', Some 1)"
proof -
  have "rd_flat one_round = Torn_file"
    by (simp add: one_round_def)
  then show ?thesis
    by (simp add: resolved_payload_def round_history_entries_def archived_rounds_def one_round_numbers one_round_file
        List.map_filter_simps)
qed

theorem fresh_verdict_was_recorded_witness:
  "\<exists>d. jget d ''reviewed_head_sha'' = JStr ''aa'' \<and> (\<exists>name. (name, Decision_object d) \<in> set (rd_rounds one_round))"
proof -
  have "rr_decision (review_decision_of one_round (Some ''aa'')) = Some ''approved''"
    "\<not> rr_stale (review_decision_of one_round (Some ''aa''))"
    by (simp_all add: review_decision_of_def one_round_resolved decision_view_def approved_at_def Let_def opt_json_def)
  from fresh_verdict_was_recorded [OF this] show ?thesis
    by (auto simp: one_round_def)
qed

theorem verdict_history_grows_witness:
  "history (fst (record_decision one_round (approved_at ''aa'') (Some ''bb'') True)) =
     history one_round @ [verdict_key (stamped_payload (approved_at ''aa'') (Some ''bb''))]"
proof -
  have "highest_round one_round = 1" "usable (round_file one_round 1) = Some (approved_at ''aa'')"
    by (simp_all add: highest_round_def one_round_numbers one_round_file)
  then have "next_round_number one_round (stamped_payload (approved_at ''aa'') (Some ''bb'')) \<noteq> highest_round one_round"
    by (simp add: next_round_number_def stamped_payload_def approved_at_def same_round_def round_compare_keys_def)
  moreover have "one_directory_per_round one_round"
    by (simp add: one_directory_per_round_def one_round_numbers)
  ultimately show ?thesis
    using verdict_history_grows [of one_round "approved_at ''aa''" "Some ''bb''"]
    by (simp add: last_round_agrees_next Let_def)
qed

end
