(* ===== verification/Interdiff.thy ===== *)
theory Interdiff
  imports Json "HOL-Library.List_Lexorder" "HOL-Library.Char_ord"
begin

text \<open>
  The interdiff of two rounds of review (\<^verbatim>\<open>review_interdiff.py\<close>, \<^verbatim>\<open>unified_diff.py\<close>): the split of a unified
  diff into files, the comparison of two diffs file by file, and the kind of a review round. A text is ASCII;
  the regular expression of a hunk header is written out.
\<close>

section \<open>Lines and hunk headers\<close>

definition is_line_end :: "char \<Rightarrow> bool" where
  "is_line_end c \<longleftrightarrow> (of_char c :: nat) \<in> {10, 11, 12, 13, 28, 29, 30}"

fun onto_first :: "char \<Rightarrow> string list \<Rightarrow> string list" where
  "onto_first c [] = [[c]]"
| "onto_first c (l # ls) = (c # l) # ls"

text \<open>\<^verbatim>\<open>text.splitlines()\<close>.\<close>

fun py_lines :: "string \<Rightarrow> string list" where
  "py_lines [] = []"
| "py_lines (c # cs) =
     (if c = CHR 0x0D
      then (case cs of
              [] \<Rightarrow> [[]]
            | d # ds \<Rightarrow> if d = CHR 0x0A then [] # py_lines ds else [] # py_lines cs)
      else if is_line_end c then [] # py_lines cs
      else onto_first c (py_lines cs))"

definition begins :: "string \<Rightarrow> string \<Rightarrow> bool" where
  "begins p s \<longleftrightarrow> strip_prefix p s \<noteq> None"

text \<open>A number, and what follows it; a range of a hunk header is a number and perhaps a comma and another.\<close>

definition after_number :: "string \<Rightarrow> string option" where
  "after_number s = (case s of [] \<Rightarrow> None | c # _ \<Rightarrow> if is_digit c then Some (dropWhile is_digit s) else None)"

definition after_range :: "string \<Rightarrow> string option" where
  "after_range s =
     (case after_number s of
        None \<Rightarrow> None
      | Some r \<Rightarrow>
          (case strip_prefix '','' r of
             None \<Rightarrow> Some r
           | Some q \<Rightarrow> (case after_number q of None \<Rightarrow> Some r | Some t \<Rightarrow> Some t)))"

text \<open>The context behind the numbers of a hunk header, None where the line is no header.\<close>

definition hunk_context :: "string \<Rightarrow> string option" where
  "hunk_context line =
     Option.bind (strip_prefix ''@@ -'' line) (\<lambda>a.
     Option.bind (after_range a) (\<lambda>b.
     Option.bind (strip_prefix '' +'' b) (\<lambda>c.
     Option.bind (after_range c) (\<lambda>d.
     strip_prefix '' @@'' d))))"

definition normalize_hunk_line :: "string \<Rightarrow> string" where
  "normalize_hunk_line line = (case hunk_context line of None \<Rightarrow> line | Some rest \<Rightarrow> ''@@ @@'' @ rest)"

section \<open>The files of a diff\<close>

definition header_mark :: string where
  "header_mark = ''diff --git''"

definition section_break :: string where
  "section_break = CHR 0x0A # header_mark"

definition new_path_mark :: string where
  "new_path_mark = ''+++ b/''"

definition with_header :: "string \<Rightarrow> string" where
  "with_header part = (if begins header_mark part then part else header_mark @ part)"

definition diff_parts :: "string \<Rightarrow> string list" where
  "diff_parts diff = map with_header (filter (\<lambda>p. strip p \<noteq> []) (split_on section_break diff))"

text \<open>\<^verbatim>\<open>d.setdefault(k, v)\<close> over the pairs in order.\<close>

definition first_wins :: "(string \<times> 'v) list \<Rightarrow> (string \<times> 'v) list" where
  "first_wins pairs = foldl (\<lambda>d (k, v). if map_of d k = None then d @ [(k, v)] else d) [] pairs"

definition section_path :: "string \<Rightarrow> string option" where
  "section_path part = map_option (drop 6) (find (begins new_path_mark) (py_lines part))"

definition pathed :: "string \<Rightarrow> (string \<times> string) option" where
  "pathed part = map_option (\<lambda>path. (path, part)) (section_path part)"

definition split_diff_sections :: "string \<Rightarrow> (string \<times> string) list" where
  "split_diff_sections diff = first_wins (List.map_filter pathed (diff_parts diff))"

text \<open>One file of \<^verbatim>\<open>iter_diff_files\<close>: its name, whether it is new, its hunk lines.\<close>

fun scan_file :: "string option \<Rightarrow> bool \<Rightarrow> string list \<Rightarrow> string list \<Rightarrow> string option \<times> bool \<times> string list" where
  "scan_file file is_new hunks [] = (file, is_new, hunks)"
| "scan_file file is_new hunks (l # ls) =
     (if begins new_path_mark l then scan_file (Some (drop 6 l)) is_new hunks ls
      else if begins ''new file mode'' l then scan_file file True hunks ls
      else if begins ''@@'' l then scan_file file is_new (hunks @ [l]) ls
      else if hunks \<noteq> [] \<and> \<not> begins [CHR 0x5C] l then scan_file file is_new (hunks @ [l]) ls
      else scan_file file is_new hunks ls)"

definition iter_diff_files :: "string \<Rightarrow> (string \<times> bool \<times> string list) list" where
  "iter_diff_files diff =
     List.map_filter (\<lambda>part.
       case scan_file None False [] (py_lines part) of
         (None, _, _) \<Rightarrow> None
       | (Some f, is_new, hunks) \<Rightarrow> Some (f, is_new, hunks)) (diff_parts diff)"

definition normalized_bodies :: "string \<Rightarrow> (string \<times> string) list" where
  "normalized_bodies diff =
     first_wins (map (\<lambda>(f, _, hunks). (f, join [CHR 0x0A] (map normalize_hunk_line hunks))) (iter_diff_files diff))"

section \<open>The interdiff\<close>

record interdiff =
  it_changed :: "string list"
  it_unchanged :: "string list"
  it_removed :: "string list"
  it_text :: string

definition patch_changed :: "string \<Rightarrow> string \<Rightarrow> string \<Rightarrow> bool" where
  "patch_changed prior new path \<longleftrightarrow> map_of (normalized_bodies new) path \<noteq> map_of (normalized_bodies prior) path"

definition changed_sections :: "string \<Rightarrow> string \<Rightarrow> (string \<times> string) list" where
  "changed_sections prior new = filter (\<lambda>(path, _). patch_changed prior new path) (split_diff_sections new)"

definition with_last_newline :: "string \<Rightarrow> string" where
  "with_last_newline text = (if text \<noteq> [] \<and> last text \<noteq> CHR 0x0A then text @ [CHR 0x0A] else text)"

definition build_pr_interdiff :: "string \<Rightarrow> string \<Rightarrow> interdiff" where
  "build_pr_interdiff prior new =
     (let paths = map fst (split_diff_sections new)
      in \<lparr> it_changed = map fst (changed_sections prior new),
           it_unchanged = sort (filter (\<lambda>p. \<not> patch_changed prior new p) paths),
           it_removed = sort (filter (\<lambda>p. p \<notin> set paths) (map fst (split_diff_sections prior))),
           it_text = with_last_newline (join [CHR 0x0A] (map snd (changed_sections prior new))) \<rparr>)"

definition interdiff_file_count :: "interdiff \<Rightarrow> nat" where
  "interdiff_file_count d = length (it_changed d)"

definition interdiff_line_count :: "interdiff \<Rightarrow> nat" where
  "interdiff_line_count d = length (py_lines (it_text d))"

section \<open>The kind of a round\<close>

text \<open>\<open>prior\<close> is None where it is no mapping.\<close>

definition has_terminal_decision :: "json_dict option \<Rightarrow> bool" where
  "has_terminal_decision prior =
     (case prior of None \<Rightarrow> False | Some d \<Rightarrow> jget d ''decision'' \<notin> {JStr ''pending'', JNull, JStr ''missing''})"

definition is_round2_review :: "json_dict option \<Rightarrow> bool" where
  "is_round2_review prior =
     (has_terminal_decision prior \<and> (case prior of None \<Rightarrow> False | Some d \<Rightarrow> json_true (jget d ''reviewed_head_sha'')))"

text \<open>A diff file on the disk.\<close>

datatype diff_file = Absent_diff | Unreadable_diff | Diff_text string

record incremental_inputs =
  ii_prior :: string
  ii_new :: string
  ii_fallback :: "string option"

text \<open>\<open>archived\<close> is the diff of the last round of the history, None where the history is empty.\<close>

definition load_incremental_inputs :: "diff_file option \<Rightarrow> diff_file \<Rightarrow> incremental_inputs" where
  "load_incremental_inputs archived live =
     (let fallback = (\<lambda>why. \<lparr> ii_prior = [], ii_new = [], ii_fallback = Some why \<rparr>)
      in case archived of
           None \<Rightarrow> fallback ''no_archived_diff''
         | Some Absent_diff \<Rightarrow> fallback ''no_archived_diff''
         | Some Unreadable_diff \<Rightarrow> fallback ''archive_read_failed''
         | Some (Diff_text prior) \<Rightarrow>
             (case live of
                Diff_text new \<Rightarrow> \<lparr> ii_prior = prior, ii_new = new, ii_fallback = None \<rparr>
              | _ \<Rightarrow> fallback ''archive_read_failed''))"

text \<open>\<open>prior_head\<close> is the head of the last archived round, empty where there is none.\<close>

definition classify_review_round_kind ::
  "bool \<Rightarrow> bool \<Rightarrow> string \<Rightarrow> string option \<Rightarrow> diff_file option \<Rightarrow> diff_file \<Rightarrow> string option" where
  "classify_review_round_kind enabled round2 prior_head new_head archived live =
     (if \<not> enabled then None
      else if \<not> round2 then Some ''first''
      else if prior_head \<noteq> [] \<and> truthy new_head \<and> new_head = Some prior_head then Some ''fallback''
      else if ii_fallback (load_incremental_inputs archived live) = None then Some ''incremental'' else Some ''fallback'')"

definition count_interdiff :: "diff_file \<Rightarrow> nat \<times> nat" where
  "count_interdiff f =
     (case f of
        Diff_text text \<Rightarrow>
          if strip text = [] then (0, 0) else (length (split_diff_sections text), length (py_lines text))
      | _ \<Rightarrow> (0, 0))"

definition round_kind_from_record :: "json_dict \<Rightarrow> string option" where
  "round_kind_from_record entry = (case jget entry ''review_round_kind'' of JStr s \<Rightarrow> Some s | _ \<Rightarrow> None)"

text \<open>None is the exception of a count that is no number.\<close>

definition round_info_from_record :: "json_dict \<Rightarrow> json_dict option" where
  "round_info_from_record entry =
     (case (int_or_zero (jget entry ''review_interdiff_files''), int_or_zero (jget entry ''review_interdiff_lines'')) of
        (Some files, Some lns) \<Rightarrow>
          Some [(''review_round_kind'', opt_json (round_kind_from_record entry)),
                (''review_interdiff_files'', JInt files), (''review_interdiff_lines'', JInt lns)]
      | _ \<Rightarrow> None)"

definition round_kind_stamp :: "string option \<Rightarrow> nat \<Rightarrow> nat \<Rightarrow> json_dict" where
  "round_kind_stamp kind files lns =
     (case kind of
        None \<Rightarrow> []
      | Some k \<Rightarrow> [(''review_round_kind'', JStr k), (''review_interdiff_files'', JInt (int files)),
                   (''review_interdiff_lines'', JInt (int lns))])"

record turn_config =
  tc_incremental :: bool
  tc_incremental_turns :: int
  tc_turns :: int

definition base_turn_cap :: "json_dict \<Rightarrow> turn_config \<Rightarrow> int" where
  "base_turn_cap entry cfg =
     (if round_kind_from_record entry = Some ''incremental'' \<and> tc_incremental cfg \<and> 0 < tc_incremental_turns cfg
      then tc_incremental_turns cfg else tc_turns cfg)"

end
