(* ===== verification/Interdiff_Props.thy ===== *)
theory Interdiff_Props
  imports Interdiff Issue_Files
begin

text \<open>
  What the interdiff promises, and what it does not see: its text is a diff whose files are the changed ones,
  and a section without a new path, such as a deleted file's, leaves no trace in it.
\<close>

section \<open>Splitting at a mark\<close>

lemma split_on_step:
  assumes "a \<notin> set t" and "\<not> contains (a # t) w"
  shows "split_on (a # t) (w @ (a # t) @ s) = w # split_on (a # t) s"
  using assms(2)
proof (induction w)
  case (Cons c w)
  have "strip_prefix (a # t) (c # w @ (a # t) @ s) = None"
  proof (rule ccontr)
    assume "strip_prefix (a # t) (c # w @ (a # t) @ s) \<noteq> None"
    then obtain r where r: "c = a" "w @ (a # t) @ s = t @ r"
      by (auto simp: strip_prefix_Some simp del: strip_prefix.simps)
    show False
    proof (cases "length t \<le> length w")
      case True
      with r(2) obtain w' where "w = t @ w'"
        by (metis append_eq_append_conv_if append_take_drop_id)
      with r(1) Cons.prems show False
        by (auto simp: contains_iff simp del: contains.simps)
    next
      case False
      then have "t ! length w = a"
        using arg_cong [OF r(2), of "\<lambda>l. l ! length w"] by (simp add: nth_append)
      with False assms(1) show False
        by (metis linorder_not_le nth_mem)
    qed
  qed
  with Cons show ?case
    by simp
qed simp

lemma split_on_append:
  assumes "a \<notin> set t"
  shows "split_on (a # t) (s @ (a # t) @ r) = split_on (a # t) s @ split_on (a # t) r"
proof -
  have parts: "split_on (a # t) (join (a # t) ws @ (a # t) @ r) = ws @ split_on (a # t) r"
    if "ws \<noteq> []" "\<forall>w \<in> set ws. \<not> contains (a # t) w" for ws
    using that
  proof (induction ws rule: induct_list012)
    case (3 v w ws)
    have "join (a # t) (v # w # ws) @ (a # t) @ r = v @ (a # t) @ (join (a # t) (w # ws) @ (a # t) @ r)"
      by simp
    then show ?case
      using 3 split_on_step [OF assms, of v] by (simp del: join.simps split_on.simps)
  qed (simp_all add: split_on_step [OF assms, simplified] assms)
  show ?thesis
    using parts [of "split_on (a # t) s"] join_split_on [of "a # t" s] contains_split_on [of "a # t" _ s] by fastforce
qed

lemma split_on_joined:
  assumes "a \<notin> set t" and "ws \<noteq> []" and "\<forall>w \<in> set ws. \<not> contains (a # t) w"
  shows "split_on (a # t) (join (a # t) ws) = ws"
  using assms(2,3)
proof (induction ws rule: induct_list012)
  case (3 v w ws)
  then show ?case
    using split_on_append [OF assms(1), of v "join (a # t) (w # ws)"] by (simp add: split_on_plain)
qed (simp_all add: split_on_plain)

lemma break_mark: "section_break = CHR 0x0A # header_mark" "CHR 0x0A \<notin> set header_mark"
  by (simp_all add: section_break_def header_mark_def)

section \<open>A section without a new path\<close>

lemma first_wins_append_skip: "List.map_filter f (xs @ ys) = List.map_filter f xs" if "\<And>y. y \<in> set ys \<Longrightarrow> f y = None"
  using that by (induction ys) (auto simp: List.map_filter_def)

text \<open>A line that names a new path; a section without one has no file, whatever it deletes or renames.\<close>

definition pathless :: "string \<Rightarrow> bool" where
  "pathless part \<longleftrightarrow> \<not> list_ex (begins new_path_mark) (py_lines part)"

lemma pathless_scan: "\<not> list_ex (begins new_path_mark) ls \<Longrightarrow> fst (scan_file f is_new hunks ls) = f"
  by (induction f is_new hunks ls rule: scan_file.induct) auto

lemma pathless_file:
  assumes "pathless part"
  shows "pathed part = None" "(case scan_file None False [] (py_lines part) of (None, _, _) \<Rightarrow> None
       | (Some f, is_new, hunks) \<Rightarrow> Some (f, is_new, hunks)) = None"
proof -
  show "pathed part = None"
    using assms by (auto simp: pathed_def section_path_def pathless_def find_None_iff list_ex_iff)
  show "(case scan_file None False [] (py_lines part) of (None, _, _) \<Rightarrow> None
       | (Some f, is_new, hunks) \<Rightarrow> Some (f, is_new, hunks)) = None"
    using pathless_scan [of "py_lines part" None False "[]"] assms by (auto simp: pathless_def split: prod.splits)
qed

text \<open>
  A section that ends the new diff and names no new path, which is what git writes for a deleted, a renamed or
  a binary file, changes nothing in the interdiff: the text, the counts and the three lists are those of the
  diff without it. The round after a rework that deletes a file is therefore shown as if nothing changed.
\<close>

theorem deletions_are_invisible:
  assumes "\<not> contains section_break rest" and "pathless (with_header rest)"
  shows "build_pr_interdiff prior (new @ section_break @ rest) = build_pr_interdiff prior new"
proof -
  have "split_on section_break (new @ section_break @ rest) = split_on section_break new @ [rest]"
    using split_on_append [OF break_mark(2), of new rest, folded break_mark(1)] assms(1) by (simp add: split_on_plain)
  then have parts: "\<exists>ys. diff_parts (new @ section_break @ rest) = diff_parts new @ ys \<and> set ys \<subseteq> {with_header rest}"
    by (simp add: diff_parts_def)
  have "split_diff_sections (new @ section_break @ rest) = split_diff_sections new"
    using parts pathless_file(1) [OF assms(2)]
    by (auto simp: split_diff_sections_def intro!: arg_cong [where f = first_wins] first_wins_append_skip)
  moreover have "iter_diff_files (new @ section_break @ rest) = iter_diff_files new"
    using parts pathless_file(2) [OF assms(2)] unfolding iter_diff_files_def
    by (auto intro!: first_wins_append_skip)
  ultimately show ?thesis
    by (simp add: build_pr_interdiff_def changed_sections_def patch_changed_def normalized_bodies_def)
qed

text \<open>A round of review in which a worker changes one file and deletes another.\<close>

definition edited_section :: string where
  "edited_section = header_mark @ '' a/m.py b/m.py'' @ [CHR 0x0A] @ ''+++ b/m.py'' @ [CHR 0x0A] @ ''@@ -1 +1 @@'' @
     [CHR 0x0A] @ ''+two''"

definition deleted_section :: string where
  "deleted_section = '' a/gone.py b/gone.py'' @ [CHR 0x0A] @ ''deleted file mode 100644'' @ [CHR 0x0A] @
     ''--- a/gone.py'' @ [CHR 0x0A] @ ''+++ /dev/null'' @ [CHR 0x0A] @ ''@@ -1 +0,0 @@'' @ [CHR 0x0A] @ ''-one''"

lemmas demo_diff = edited_section_def deleted_section_def header_mark_def section_break_def

lemma deletions_are_invisible_witness:
  "it_changed (build_pr_interdiff [] (edited_section @ section_break @ deleted_section)) = [''m.py'']"
proof -
  have "build_pr_interdiff [] (edited_section @ section_break @ deleted_section) = build_pr_interdiff [] edited_section"
    by (rule deletions_are_invisible) code_simp+
  moreover have "it_changed (build_pr_interdiff [] edited_section) = [''m.py'']"
    by code_simp
  ultimately show ?thesis
    by simp
qed

section \<open>The text is a diff of the changed files\<close>

lemma strip_nonblank: "strip s \<noteq> [] \<longleftrightarrow> (\<exists>c \<in> set s. \<not> is_space c)"
proof
  assume "strip s \<noteq> []"
  then have "dropWhile is_space s \<noteq> []"
    by (metis dropWhile.simps(1) rev.simps(1) strip_def)
  then show "\<exists>c \<in> set s. \<not> is_space c"
    unfolding dropWhile_eq_Nil_conv by blast
next
  assume "\<exists>c \<in> set s. \<not> is_space c"
  then have "\<exists>c \<in> set (dropWhile is_space s). \<not> is_space c"
    by (metis Un_iff set_append set_takeWhileD takeWhile_dropWhile_id)
  then have "\<exists>c \<in> set (rev (dropWhile is_space s)). \<not> is_space c"
    by simp
  then have "dropWhile is_space (rev (dropWhile is_space s)) \<noteq> []"
    unfolding dropWhile_eq_Nil_conv by blast
  then show "strip s \<noteq> []"
    by (simp add: strip_def)
qed

lemma py_lines_chars: "l \<in> set (py_lines s) \<Longrightarrow> set l \<subseteq> set s"
proof (induction s arbitrary: l rule: py_lines.induct)
  case (2 c cs)
  show ?case
  proof (cases "c = CHR 0x0D")
    case True
    with 2 show ?thesis
      by (cases cs) (fastforce split: if_splits)+
  next
    case False
    with 2 show ?thesis
      by (cases "py_lines cs") (fastforce split: if_splits)+
  qed
qed simp

lemma py_lines_newline: "py_lines (s @ [CHR 0x0A]) = py_lines s \<or> py_lines (s @ [CHR 0x0A]) = py_lines s @ [[]]"
proof (induction s rule: py_lines.induct)
  case 1
  have "is_line_end (CHR 0x0A)"
    by (simp add: is_line_end_def)
  then show ?case
    by simp
next
  case (2 c cs)
  have onto: "onto_first c (ls @ [[]]) = onto_first c ls @ [[]]" if "ls \<noteq> []" for ls
    using that by (cases ls) auto
  show ?case
  proof (cases "c = CHR 0x0D")
    case True
    with 2 show ?thesis
      by (cases cs) (auto split: if_splits)
  next
    case False
    have "py_lines [CHR 0x0A] = [[]]"
      by (simp add: is_line_end_def)
    then show ?thesis
      using False 2 onto [of "py_lines cs"] by (cases "py_lines cs") (auto split: if_splits)
  qed
qed

lemma section_path_newline: "section_path (s @ [CHR 0x0A]) = section_path s"
proof -
  have "\<not> begins new_path_mark []"
    by (simp add: begins_def new_path_mark_def)
  then have "find (begins new_path_mark) (ls @ [[]]) = find (begins new_path_mark) ls" for ls
    by (induction ls) auto
  then show ?thesis
    using py_lines_newline [of s] by (auto simp: section_path_def)
qed

text \<open>What a chunk of the text looks like: a header, a tail with a path, and no break inside.\<close>

definition diff_chunk :: "string \<Rightarrow> bool" where
  "diff_chunk c \<longleftrightarrow>
     (\<exists>r. c = header_mark @ r \<and> \<not> begins header_mark r \<and> strip r \<noteq> []) \<and> \<not> contains section_break c"

lemma contains_append: "contains p s \<Longrightarrow> contains p (u @ s)"
  by (auto simp: contains_iff simp del: contains.simps) (metis append.assoc)

lemma join_first: "join sep ((u @ w) # ws) = u @ join sep (w # ws)"
  by (cases ws) auto

lemma join_headers:
  "join [CHR 0x0A] (map ((@) header_mark) (r # rs)) = join section_break ((header_mark @ r) # rs)"
  by (induction rs arbitrary: r) (auto simp: section_break_def join_first)

lemma parts_of_chunks:
  assumes "cs \<noteq> []" and "\<forall>c \<in> set cs. diff_chunk c"
  shows "diff_parts (join [CHR 0x0A] cs) = cs"
proof -
  define tail where "tail c = drop (length header_mark) c" for c :: string
  have tails: "c = header_mark @ tail c" "\<not> begins header_mark (tail c)" "strip (tail c) \<noteq> []"
    "\<not> contains section_break (tail c)" "\<not> contains section_break c" if inside: "c \<in> set cs" for c
  proof -
    obtain r where r: "c = header_mark @ r" "\<not> begins header_mark r" "strip r \<noteq> []" "\<not> contains section_break c"
      using bspec [OF assms(2) inside] unfolding diff_chunk_def by blast
    moreover from r have "\<not> contains section_break r"
      using contains_append [of section_break r header_mark] by blast
    moreover have "tail c = r"
      by (simp add: tail_def r(1))
    ultimately show "c = header_mark @ tail c" "\<not> begins header_mark (tail c)" "strip (tail c) \<noteq> []"
      "\<not> contains section_break (tail c)" "\<not> contains section_break c"
      by simp_all
  qed
  obtain c rest where cs: "cs = c # rest"
    using assms(1) by (cases cs) auto
  have "map ((@) header_mark) (map tail cs) = cs"
    using tails(1) by (simp add: map_idI)
  then have "join [CHR 0x0A] cs = join section_break (c # map tail rest)"
    using join_headers [of "tail c" "map tail rest"] tails(1) [of c] cs by simp
  moreover have "split_on section_break (join section_break (c # map tail rest)) = c # map tail rest"
    unfolding break_mark(1)
    by (rule split_on_joined [OF break_mark(2)]) (use tails(4,5) cs break_mark(1) in \<open>auto simp del: contains.simps\<close>)
  moreover have "filter (\<lambda>p. strip p \<noteq> []) (c # map tail rest) = c # map tail rest"
  proof -
    have "strip c \<noteq> []"
      using tails(1,3) [of c] cs by (metis strip_nonblank list.set_intros(1) Un_iff set_append)
    with tails(3) cs show ?thesis
      by (auto intro!: filter_True)
  qed
  moreover have "map with_header (c # map tail rest) = cs"
  proof -
    have "with_header c = c"
      using tails(1) [of c] cs by (metis with_header_def begins_def list.set_intros(1) option.distinct(1) strip_prefix_append)
    moreover have "with_header (tail d) = d" if "d \<in> set rest" for d
      using tails(1,2) [of d] that cs by (simp add: with_header_def)
    ultimately show ?thesis
      by (simp add: cs map_idI)
  qed
  ultimately show ?thesis
    by (simp add: diff_parts_def)
qed

lemma fold_first_wins:
  "distinct (map fst (d @ ps)) \<Longrightarrow> foldl (\<lambda>d (k, v). if map_of d k = None then d @ [(k, v)] else d) d ps = d @ ps"
proof (induction ps arbitrary: d)
  case (Cons p ps)
  then have "map_of d (fst p) = None"
    by (auto simp: map_of_eq_None_iff)
  with Cons.IH [of "d @ [p]"] Cons.prems show ?case
    by (cases p) simp
qed simp

lemma first_wins_distinct: "distinct (map fst ps) \<Longrightarrow> first_wins ps = ps"
  using fold_first_wins [of "[]" ps] by (simp add: first_wins_def)

lemma first_wins_spec: "distinct (map fst (first_wins ps)) \<and> set (first_wins ps) \<subseteq> set ps"
proof -
  have "distinct (map fst (foldl (\<lambda>d (k, v). if map_of d k = None then d @ [(k, v)] else d) d ps)) \<and>
      set (foldl (\<lambda>d (k, v). if map_of d k = None then d @ [(k, v)] else d) d ps) \<subseteq> set d \<union> set ps"
    if "distinct (map fst d)" for d
    using that
  proof (induction ps arbitrary: d)
    case (Cons p ps)
    obtain k v where p: "p = (k, v)"
      by (cases p)
    let ?d = "if map_of d k = None then d @ [(k, v)] else d"
    have "distinct (map fst ?d)" "set ?d \<subseteq> insert p (set d)"
      using Cons.prems p by (auto simp: map_of_eq_None_iff)
    with Cons.IH [of ?d] show ?case
      unfolding p foldl.simps prod.case by (auto simp: p)
  qed simp
  from this [of "[]"] show ?thesis
    by (simp add: first_wins_def)
qed

lemma part_inside: "w \<in> set ws \<Longrightarrow> \<exists>u v. join sep ws = u @ w @ v"
proof (induction ws rule: induct_list012)
  case (3 x y ws)
  show ?case
  proof (cases "w = x")
    case True
    then show ?thesis
      by (metis append_Nil join.simps(3))
  next
    case False
    with 3 obtain u v where "join sep (y # ws) = u @ w @ v"
      by auto
    then have "join sep (x # y # ws) = (x @ sep @ u) @ w @ v"
      by simp
    then show ?thesis
      by blast
  qed
next
  case (2 x)
  then show ?case
    by (intro exI [of _ "[]"]) simp
qed simp

lemma header_plain: "\<not> contains section_break p \<Longrightarrow> \<not> contains section_break (header_mark @ p)"
proof
  assume p: "\<not> contains section_break p" and "contains section_break (header_mark @ p)"
  then obtain u v where uv: "header_mark @ p = u @ section_break @ v"
    by (auto simp: contains_iff simp del: contains.simps)
  show False
  proof (cases "length header_mark \<le> length u")
    case True
    with uv obtain u' where "p = u' @ section_break @ v"
      by (metis append_eq_append_conv_if)
    with p show False
      by (auto simp: contains_iff simp del: contains.simps)
  next
    case False
    then have "header_mark ! length u = CHR 0x0A"
      using arg_cong [OF uv, of "\<lambda>l. l ! length u"] by (simp add: nth_append section_break_def)
    with False break_mark(2) show False
      by (metis linorder_not_le nth_mem)
  qed
qed

lemma sections_are_chunks:
  assumes "\<not> contains (header_mark @ header_mark) new" and "(path, c) \<in> set (split_diff_sections new)"
  shows "diff_chunk c \<and> pathed c = Some (path, c)"
proof -
  have "(path, c) \<in> set (List.map_filter pathed (diff_parts new))"
    using assms(2) first_wins_spec by (auto simp: split_diff_sections_def)
  then obtain p where p: "p \<in> set (split_on section_break new)" "c = with_header p" "pathed c = Some (path, c)"
    by (auto simp: List.map_filter_def diff_parts_def pathed_def)
  have plain: "\<not> contains section_break p"
    by (rule contains_split_on [OF _ p(1)]) (simp add: section_break_def)
  obtain u v where inside: "new = u @ p @ v"
    using part_inside [OF p(1), of section_break] join_split_on [of section_break new] by (auto simp: section_break_def)
  obtain r where r: "c = header_mark @ r" "\<not> begins header_mark r"
  proof (cases "begins header_mark p")
    case True
    then obtain r where "p = header_mark @ r"
      by (auto simp: begins_def strip_prefix_Some)
    moreover have "\<not> begins header_mark r"
    proof
      assume "begins header_mark r"
      then obtain q where "r = header_mark @ q"
        by (auto simp: begins_def strip_prefix_Some)
      with \<open>p = header_mark @ r\<close> inside have "new = u @ (header_mark @ header_mark) @ q @ v"
        by simp
      with assms(1) show False
        by (auto simp: contains_iff simp del: contains.simps)
    qed
    ultimately show ?thesis
      using that [of r] p(2) True by (simp add: with_header_def)
  next
    case False
    then show ?thesis
      using that [of p] p(2) by (simp add: with_header_def)
  qed
  obtain l where "l \<in> set (py_lines c)" "begins new_path_mark l"
    using p(3) by (auto simp: pathed_def section_path_def find_Some_iff) (metis nth_mem)
  then have "CHR ''+'' \<in> set c"
    using py_lines_chars [of l c] by (auto simp: begins_def new_path_mark_def strip_prefix_Some)
  then have "CHR ''+'' \<in> set r"
    by (auto simp: r(1) header_mark_def)
  then have "strip r \<noteq> []"
    unfolding strip_nonblank by (intro bexI [of _ "CHR ''+''"]) (simp_all add: is_space_def)
  moreover have "\<not> contains section_break c"
    using plain header_plain by (auto simp: p(2) with_header_def simp del: contains.simps)
  ultimately show ?thesis
    using r p(3) by (auto simp: diff_chunk_def simp del: contains.simps)
qed

lemma chunk_newline:
  assumes "diff_chunk c" and "pathed c = Some (path, c)"
  shows "diff_chunk (c @ [CHR 0x0A]) \<and> pathed (c @ [CHR 0x0A]) = Some (path, c @ [CHR 0x0A])"
proof
  obtain r where r: "c = header_mark @ r" "\<not> begins header_mark r" "strip r \<noteq> []" "\<not> contains section_break c"
    using assms(1) by (auto simp: diff_chunk_def simp del: contains.simps)
  have "\<not> begins header_mark (r @ [CHR 0x0A])"
  proof
    assume "begins header_mark (r @ [CHR 0x0A])"
    then obtain q where "r @ [CHR 0x0A] = header_mark @ q"
      by (auto simp: begins_def strip_prefix_Some)
    with r(2) break_mark(2) show False
      by (cases q rule: rev_cases) (auto simp: begins_def, metis in_set_conv_decomp)
  qed
  moreover have "\<not> contains section_break (c @ [CHR 0x0A])"
  proof
    assume "contains section_break (c @ [CHR 0x0A])"
    then obtain u v where "c @ [CHR 0x0A] = u @ section_break @ v"
      by (auto simp: contains_iff simp del: contains.simps)
    moreover have "last section_break \<noteq> CHR 0x0A"
      by (simp add: section_break_def header_mark_def)
    ultimately show False
      using r(4) by (cases v rule: rev_cases) (auto simp: contains_iff section_break_def header_mark_def simp del: contains.simps)
  qed
  moreover have "strip (r @ [CHR 0x0A]) \<noteq> []"
    using r(3) by (auto simp: strip_nonblank)
  ultimately show "diff_chunk (c @ [CHR 0x0A])"
    by (auto simp: diff_chunk_def r(1) simp del: contains.simps)
  show "pathed (c @ [CHR 0x0A]) = Some (path, c @ [CHR 0x0A])"
    using assms(2) by (simp add: pathed_def section_path_newline)
qed

lemma last_newline_join:
  assumes "cs \<noteq> []"
  shows "\<exists>nl \<in> {[], [CHR 0x0A]}. with_last_newline (join [CHR 0x0A] cs) = join [CHR 0x0A] (butlast cs @ [last cs @ nl])"
proof -
  have "join sep (butlast cs @ [last cs @ nl]) = join sep cs @ nl" for sep nl :: string
    using assms by (induction cs rule: induct_list012) (auto simp: join_Cons)
  then show ?thesis
    by (simp add: with_last_newline_def)
qed

definition same_section :: "string \<times> string \<Rightarrow> string \<times> string \<Rightarrow> bool" where
  "same_section a b \<longleftrightarrow> fst a = fst b \<and> (snd b = snd a \<or> snd b = snd a @ [CHR 0x0A])"

text \<open>
  C19. The interdiff is itself a diff: split again, its text has exactly the files that changed since the
  round before, in their order, each with the whole section the new diff has for it (up to a line end
  behind the last one).
\<close>

theorem interdiff_reads_back:
  assumes "\<not> contains (header_mark @ header_mark) new"
  shows "list_all2 same_section (changed_sections prior new) (split_diff_sections (it_text (build_pr_interdiff prior new)))"
proof (cases "changed_sections prior new = []")
  case True
  have "split_diff_sections [] = []"
    by (simp add: split_diff_sections_def diff_parts_def strip_def first_wins_def List.map_filter_def)
  with True show ?thesis
    by (simp add: build_pr_interdiff_def with_last_newline_def)
next
  case False
  define ss where "ss = changed_sections prior new"
  have sections: "diff_chunk c \<and> pathed c = Some (path, c)" if "(path, c) \<in> set ss" for path c
    using that sections_are_chunks [OF assms] by (auto simp: ss_def changed_sections_def)
  have keys: "distinct (map fst ss)"
    using first_wins_spec by (auto simp: ss_def changed_sections_def split_diff_sections_def intro: distinct_map_filter)
  obtain nl where nl: "nl \<in> {[], [CHR 0x0A]}"
    "it_text (build_pr_interdiff prior new) = join [CHR 0x0A] (butlast (map snd ss) @ [last (map snd ss) @ nl])"
    using last_newline_join [of "map snd ss"] False unfolding build_pr_interdiff_def ss_def
    by (metis interdiff.select_convs(4) map_is_Nil_conv)
  define ss' where "ss' = butlast ss @ [(fst (last ss), snd (last ss) @ nl)]"
  have texts: "butlast (map snd ss) @ [last (map snd ss) @ nl] = map snd ss'"
    using False by (simp add: ss'_def ss_def map_butlast last_map)
  have sections': "diff_chunk c \<and> pathed c = Some (path, c)" if "(path, c) \<in> set ss'" for path c
    
  proof (cases "(path, c) \<in> set ss")
    case True
    then show ?thesis
      by (rule sections)
  next
    case out: False
    with that have last: "path = fst (last ss)" "c = snd (last ss) @ nl"
      by (auto simp: ss'_def dest: in_set_butlastD)
    have "last ss \<in> set ss"
      using False by (simp add: ss_def)
    with sections [of "fst (last ss)" "snd (last ss)"] chunk_newline [of "snd (last ss)" "fst (last ss)"] nl(1) last
    show ?thesis
      by auto
  qed
  have "diff_parts (join [CHR 0x0A] (map snd ss')) = map snd ss'"
  proof (rule parts_of_chunks)
    show "map snd ss' \<noteq> []"
      by (simp add: ss'_def)
    show "\<forall>c \<in> set (map snd ss'). diff_chunk c"
      using sections' by auto
  qed
  moreover have "List.map_filter pathed (map snd qs) = qs" if "\<forall>q \<in> set qs. pathed (snd q) = Some q" for qs
    using that by (induction qs) (auto simp: List.map_filter_def)
  then have "List.map_filter pathed (map snd ss') = ss'"
    using sections' by (metis prod.collapse)
  ultimately have "split_diff_sections (it_text (build_pr_interdiff prior new)) = first_wins ss'"
    by (simp add: split_diff_sections_def nl(2) texts)
  also have "map fst ss' = map fst ss"
    using False by (simp add: ss'_def ss_def [symmetric]) (metis append_butlast_last_id last_map map_butlast map_is_Nil_conv)
  then have "first_wins ss' = ss'"
    using keys by (simp add: first_wins_distinct)
  finally have "split_diff_sections (it_text (build_pr_interdiff prior new)) = ss'" .
  moreover have "list_all2 same_section (butlast ss @ [last ss]) ss'"
    unfolding ss'_def using nl(1)
    by (intro list_all2_appendI) (auto simp: same_section_def intro: list_all2_refl)
  ultimately show ?thesis
    using False by (simp add: ss_def)
qed

lemma interdiff_reads_back_witness:
  "map fst (split_diff_sections (it_text (build_pr_interdiff [] edited_section))) = [''m.py'']"
proof -
  have plain: "\<not> contains (header_mark @ header_mark) edited_section"
    by code_simp
  have "map fst (changed_sections [] edited_section) = [''m.py'']"
    by code_simp
  moreover have "map fst xs = map fst ys" if "list_all2 same_section xs ys" for xs ys
    using that by (induction rule: list_all2_induct) (auto simp: same_section_def)
  ultimately show ?thesis
    using interdiff_reads_back [OF plain, of "[]"] by metis
qed

end
