(* ===== verification/Markdown.thy ===== *)
theory Markdown
  imports Prelude
begin

text \<open>
  The markdown structure of a text that is embedded in a prompt or scanned for declarations
  (\<^verbatim>\<open>markdown_fence.py\<close>): a fence that its content cannot close, the split into lines, the scan for fenced
  blocks, quotes and headings, and the operations over it. A line is a string without its ending; the
  regular expressions of the module match single lines and are written out as tests on characters.
\<close>

section \<open>Fences for a text\<close>

abbreviation backtick :: char where "backtick \<equiv> CHR ''`''"
abbreviation linefeed :: char where "linefeed \<equiv> CHR 0x0A"
abbreviation carriage_return :: char where "carriage_return \<equiv> CHR 0x0D"
abbreviation tabulator :: char where "tabulator \<equiv> CHR 0x09"

definition min_fence_length :: nat where
  "min_fence_length = 3"

text \<open>The lengths of the maximal runs of backticks, \<open>n\<close> being the length of the run that is open.\<close>

fun backtick_runs :: "nat \<Rightarrow> string \<Rightarrow> nat list" where
  "backtick_runs n [] = (if n = 0 then [] else [n])"
| "backtick_runs n (c # cs) =
     (if c = backtick then backtick_runs (Suc n) cs
      else if n = 0 then backtick_runs 0 cs else n # backtick_runs 0 cs)"

definition fence_width :: "string \<Rightarrow> nat" where
  "fence_width text = max min_fence_length (foldr max (backtick_runs 0 text) 0 + 1)"

definition fence_for :: "string \<Rightarrow> string" where
  "fence_for text = replicate (fence_width text) backtick"

definition fenced_block :: "string \<Rightarrow> string \<Rightarrow> string" where
  "fenced_block text info = fence_for text @ info @ [linefeed] @ text @ [linefeed] @ fence_for text"

section \<open>Lines\<close>

text \<open>The lines with their endings: LF, CR LF or CR.\<close>

fun add_to_first :: "char \<Rightarrow> string list \<Rightarrow> string list" where
  "add_to_first c [] = [[c]]"
| "add_to_first c (l # ls) = (c # l) # ls"

fun lines_keeping_ends :: "string \<Rightarrow> string list" where
  "lines_keeping_ends [] = []"
| "lines_keeping_ends (c # cs) =
     (if c = linefeed then [c] # lines_keeping_ends cs
      else if c = carriage_return
      then (case cs of
              [] \<Rightarrow> [[c]]
            | d # ds \<Rightarrow> if d = linefeed then [c, d] # lines_keeping_ends ds else [c] # lines_keeping_ends cs)
      else add_to_first c (lines_keeping_ends cs))"

definition is_line_char :: "char \<Rightarrow> bool" where
  "is_line_char c \<longleftrightarrow> c \<noteq> linefeed \<and> c \<noteq> carriage_return"

definition without_end :: "string \<Rightarrow> string" where
  "without_end line = takeWhile is_line_char line"

definition split_lines :: "string \<Rightarrow> string list" where
  "split_lines text = map without_end (lines_keeping_ends text)"

text \<open>The columns and the characters of the leading blanks; a limit stops the count once it is exceeded.\<close>

fun indent_loop :: "nat option \<Rightarrow> nat \<Rightarrow> nat \<Rightarrow> string \<Rightarrow> nat \<times> nat" where
  "indent_loop limit columns chars [] = (columns, chars)"
| "indent_loop limit columns chars (c # cs) =
     (if c = CHR '' '' \<or> c = tabulator
      then (let columns' = (if c = tabulator then columns + (4 - columns mod 4) else columns + 1)
            in case limit of
                 None \<Rightarrow> indent_loop limit columns' (chars + 1) cs
               | Some n \<Rightarrow> if n < columns' then (columns', chars + 1)
                           else indent_loop limit columns' (chars + 1) cs)
      else (columns, chars))"

definition leading_indent_columns :: "string \<Rightarrow> nat option \<Rightarrow> nat \<times> nat" where
  "leading_indent_columns line limit = indent_loop limit 0 0 line"

definition strip_marker_indent :: "string \<Rightarrow> nat option \<Rightarrow> string option" where
  "strip_marker_indent line max_indent =
     (case leading_indent_columns line max_indent of
        (columns, chars) \<Rightarrow>
          (case max_indent of
             Some n \<Rightarrow> if n < columns then None else Some (drop chars line)
           | None \<Rightarrow> Some (drop chars line)))"

section \<open>The structure\<close>

record fence_span =
  fs_start :: nat
  fs_end :: nat
  fs_char :: char
  fs_length :: nat
  fs_info :: string
  fs_closed :: bool

record heading =
  hd_line :: nat
  hd_level :: nat
  hd_text :: string

record markdown_structure =
  ms_line_count :: nat
  ms_fences :: "fence_span list"
  ms_quoted :: "nat list"
  ms_headings :: "heading list"

definition in_fence :: "nat \<Rightarrow> fence_span \<Rightarrow> bool" where
  "in_fence line fence \<longleftrightarrow> fs_start fence \<le> line \<and> line < fs_end fence"

definition is_fenced :: "markdown_structure \<Rightarrow> nat \<Rightarrow> bool" where
  "is_fenced s line \<longleftrightarrow> (\<exists>fence \<in> set (ms_fences s). in_fence line fence)"

definition is_blank :: "char \<Rightarrow> bool" where
  "is_blank c \<longleftrightarrow> c = CHR '' '' \<or> c = tabulator"

definition rstrip_blanks :: "string \<Rightarrow> string" where
  "rstrip_blanks s = rev (dropWhile is_blank (rev s))"

text \<open>The delimiter: at least three backticks or tildes, and the stripped info string after it.\<close>

definition fence_delimiter :: "string \<Rightarrow> (char \<times> nat \<times> string) option" where
  "fence_delimiter s =
     (case s of
        [] \<Rightarrow> None
      | c # _ \<Rightarrow>
          let run = length (takeWhile (\<lambda>x. x = c) s)
          in if (c = backtick \<or> c = CHR ''~'') \<and> min_fence_length \<le> run
             then Some (c, run, strip (dropWhile is_blank (drop run s))) else None)"

definition is_blockquote_marker :: "string \<Rightarrow> nat option \<Rightarrow> bool" where
  "is_blockquote_marker line max_indent \<longleftrightarrow>
     (case strip_marker_indent line max_indent of Some (c # _) \<Rightarrow> c = CHR ''>'' | _ \<Rightarrow> False)"

definition closes :: "char \<Rightarrow> nat \<Rightarrow> nat option \<Rightarrow> string \<Rightarrow> bool" where
  "closes c n max_indent line \<longleftrightarrow>
     (case strip_marker_indent line max_indent of
        None \<Rightarrow> False
      | Some s \<Rightarrow> n \<le> length (takeWhile (\<lambda>x. x = c) s) \<and> list_all is_blank (dropWhile (\<lambda>x. x = c) s))"

text \<open>The index of the first line from \<open>start\<close> on that closes the fence.\<close>

fun first_closing :: "char \<Rightarrow> nat \<Rightarrow> nat option \<Rightarrow> nat \<Rightarrow> string list \<Rightarrow> nat option" where
  "first_closing c n max_indent i [] = None"
| "first_closing c n max_indent i (line # lines) =
     (if closes c n max_indent line then Some i else first_closing c n max_indent (Suc i) lines)"

definition find_fence_close :: "string list \<Rightarrow> nat \<Rightarrow> char \<Rightarrow> nat \<Rightarrow> nat option \<Rightarrow> nat option" where
  "find_fence_close lines start c n max_indent = first_closing c n max_indent start (drop start lines)"

text \<open>An ATX heading: one to six hashes, then the end of the line or a blank and the text.\<close>

definition atx_heading :: "string \<Rightarrow> (nat \<times> string) option" where
  "atx_heading s =
     (let level = length (takeWhile (\<lambda>x. x = CHR ''#'') s); rest = drop level s
      in if 1 \<le> level \<and> level \<le> 6 \<and> (rest = [] \<or> is_blank (hd rest))
         then Some (level, rstrip_blanks (dropWhile is_blank rest)) else None)"

definition strip_atx_closing_run :: "string \<Rightarrow> string" where
  "strip_atx_closing_run text =
     (let t = rstrip_blanks text; r = rev t; before = dropWhile (\<lambda>x. x = CHR ''#'') r
      in if before = r then t
         else (case before of
                 [] \<Rightarrow> []
               | c # cs \<Rightarrow> if is_blank c then rstrip_blanks (rev cs) else t))"

definition add_fence :: "fence_span \<Rightarrow> markdown_structure \<Rightarrow> markdown_structure" where
  "add_fence f s = s\<lparr> ms_fences := f # ms_fences s \<rparr>"

definition add_quote :: "nat \<Rightarrow> markdown_structure \<Rightarrow> markdown_structure" where
  "add_quote i s = s\<lparr> ms_quoted := i # ms_quoted s \<rparr>"

definition add_heading :: "heading \<Rightarrow> markdown_structure \<Rightarrow> markdown_structure" where
  "add_heading h s = s\<lparr> ms_headings := h # ms_headings s \<rparr>"

definition empty_structure :: "nat \<Rightarrow> markdown_structure" where
  "empty_structure n = \<lparr> ms_line_count = n, ms_fences = [], ms_quoted = [], ms_headings = [] \<rparr>"

text \<open>The span that a valid delimiter on line \<open>i\<close> opens.\<close>

definition span_at :: "string list \<Rightarrow> nat \<Rightarrow> char \<Rightarrow> nat \<Rightarrow> string \<Rightarrow> nat option \<Rightarrow> fence_span" where
  "span_at lines i c n info max_indent =
     (let close = find_fence_close lines (Suc i) c n max_indent
      in \<lparr> fs_start = i, fs_end = (case close of Some k \<Rightarrow> Suc k | None \<Rightarrow> length lines),
           fs_char = c, fs_length = n, fs_info = info, fs_closed = (close \<noteq> None) \<rparr>)"

datatype line_kind = Opens char nat string | Not_a_fence | Quote | Heading_line nat string | Prose

definition line_kind_of :: "nat option \<Rightarrow> string \<Rightarrow> line_kind" where
  "line_kind_of max_indent line =
     (let headed = (case strip_marker_indent line (Some 3) of
                      None \<Rightarrow> Prose
                    | Some s \<Rightarrow> (case atx_heading s of
                                  Some (level, t) \<Rightarrow> Heading_line level (strip_atx_closing_run t)
                                | None \<Rightarrow> Prose))
      in case strip_marker_indent line max_indent of
           None \<Rightarrow> headed
         | Some s \<Rightarrow>
             (case fence_delimiter s of
                Some (c, n, info) \<Rightarrow> if c = backtick \<and> backtick \<in> set info then Not_a_fence else Opens c n info
              | None \<Rightarrow> (case s of d # _ \<Rightarrow> if d = CHR ''>'' then Quote else headed | [] \<Rightarrow> headed)))"

lemma first_closing_bounds: "first_closing c n m i lines = Some k \<Longrightarrow> i \<le> k \<and> k < i + length lines"
  by (induction lines arbitrary: i) (fastforce split: if_splits)+

lemma find_fence_close_bounds:
  "find_fence_close lines start c n m = Some k \<Longrightarrow> start \<le> k \<and> k < length lines"
  unfolding find_fence_close_def by (drule first_closing_bounds) auto

lemma span_at_bounds:
  "i < length lines \<Longrightarrow> i < fs_end (span_at lines i c n info m) \<and> fs_end (span_at lines i c n info m) \<le> length lines"
  by (auto simp: span_at_def Let_def Suc_le_eq split: option.split dest: find_fence_close_bounds)

function scan_from :: "nat option \<Rightarrow> string list \<Rightarrow> nat \<Rightarrow> markdown_structure" where
  "scan_from max_indent lines i =
     (if length lines \<le> i then empty_structure (length lines)
      else (case line_kind_of max_indent (lines ! i) of
              Opens c n info \<Rightarrow>
                (let span = span_at lines i c n info max_indent
                 in add_fence span (scan_from max_indent lines (fs_end span)))
            | Quote \<Rightarrow> add_quote i (scan_from max_indent lines (Suc i))
            | Heading_line level t \<Rightarrow>
                add_heading \<lparr> hd_line = i, hd_level = level, hd_text = t \<rparr> (scan_from max_indent lines (Suc i))
            | _ \<Rightarrow> scan_from max_indent lines (Suc i)))"
  by pat_completeness auto
termination
proof (relation "measure (\<lambda>(m, lines, i). length lines - i)", goal_cases)
  case (2 m lines i c n info span)
  then have "i < fs_end span" "i < length lines"
    using span_at_bounds [of i lines c n info m] by simp_all
  then show ?case
    by simp
qed auto

declare scan_from.simps [simp del]

definition scan :: "string \<Rightarrow> nat option \<Rightarrow> markdown_structure" where
  "scan text max_indent = scan_from max_indent (split_lines text) 0"

section \<open>Over the structure\<close>

definition fence_body :: "string list \<Rightarrow> fence_span \<Rightarrow> string" where
  "fence_body lines fence =
     (let content_end = (if fs_closed fence then fs_end fence - 1 else fs_end fence)
      in join [linefeed] (drop (Suc (fs_start fence)) (take content_end lines)))"

definition fence_bodies_latest_first :: "string \<Rightarrow> string list" where
  "fence_bodies_latest_first text =
     rev (map (fence_body (split_lines text)) (ms_fences (scan text (Some 3))))"

definition kept_lines :: "markdown_structure \<Rightarrow> nat list \<Rightarrow> nat list" where
  "kept_lines s indices = filter (\<lambda>i. \<not> is_fenced s i) indices"

definition strip_fenced_blocks :: "string \<Rightarrow> string" where
  "strip_fenced_blocks text =
     (let s = scan text (Some 3); lines = lines_keeping_ends text
      in if ms_fences s = [] then text
         else concat (map (\<lambda>i. lines ! i) (kept_lines s [0..<length lines])))"

text \<open>A tagged fence that the end of a message was glued to: \<open>tagged_fence\<close> is what must follow.\<close>

definition is_tag_char :: "char \<Rightarrow> bool" where
  "is_tag_char c \<longleftrightarrow>
     (let n = (of_char c :: nat)
      in is_digit c \<or> 65 \<le> n \<and> n \<le> 90 \<or> 97 \<le> n \<and> n \<le> 122 \<or> c \<in> {CHR ''_'', CHR ''+'', CHR ''-''})"

definition tagged_fence :: "string \<Rightarrow> bool" where
  "tagged_fence s \<longleftrightarrow>
     (case strip_prefix (replicate 3 backtick) s of
        None \<Rightarrow> False
      | Some r \<Rightarrow>
          r \<noteq> [] \<and> is_tag_char (hd r) \<and>
          (case dropWhile is_blank (dropWhile is_tag_char r) of c # _ \<Rightarrow> c = linefeed | [] \<Rightarrow> False))"

fun restore_from :: "char \<Rightarrow> string \<Rightarrow> string" where
  "restore_from prev [] = []"
| "restore_from prev (c # cs) =
     (if prev \<noteq> linefeed \<and> tagged_fence (c # cs) then linefeed # c # restore_from c cs
      else c # restore_from c cs)"

definition restore_message_boundaries :: "string \<Rightarrow> string" where
  "restore_message_boundaries text =
     (case text of [] \<Rightarrow> [] | c # cs \<Rightarrow> c # restore_from c cs)"

end
