(* ===== verification/Markdown_Props.thy ===== *)
theory Markdown_Props
  imports Markdown
begin

text \<open>
  What a fence and a scan promise: a text cannot close the fence that was computed for it and reads back
  from it, the spans of a scan are ordered and disjoint, and a text without its fenced blocks has none.
\<close>

section \<open>Runs of backticks\<close>

abbreviation longest_run :: "nat \<Rightarrow> string \<Rightarrow> nat" where
  "longest_run n body \<equiv> foldr max (backtick_runs n body) 0"

lemma open_run: "n \<le> longest_run n b"
proof (induction b arbitrary: n)
  case (Cons c cs)
  show ?case
    using Cons.IH [of "Suc n"] by auto
qed simp

lemma run_at_start: "n + k \<le> longest_run n (replicate k backtick @ b)"
proof (induction k arbitrary: n)
  case (Suc k)
  show ?case
    using Suc.IH [of "Suc n"] by simp
qed (simp add: open_run)

lemma longest_run_mono: "n \<le> m \<Longrightarrow> longest_run n b \<le> longest_run m b"
proof (induction b arbitrary: n m)
  case (Cons c cs)
  show ?case
    using Cons.prems Cons.IH [of "Suc n" "Suc m"] Cons.IH [of 0 0] by (auto simp: le_max_iff_disj)
qed simp

lemma longest_run_append: "longest_run 0 b \<le> longest_run n (a @ b)"
proof (induction a arbitrary: n)
  case (Cons c cs)
  show ?case
    using Cons.IH [of "Suc n"] Cons.IH [of 0] by (auto simp: le_max_iff_disj)
qed (simp add: longest_run_mono)

lemma run_inside: "k \<le> longest_run 0 (a @ replicate k backtick @ b)"
  using order_trans [OF run_at_start [of 0 k b] longest_run_append [of "replicate k backtick @ b" 0 a]] by simp

lemma longest_run_linefeed: "longest_run n (body @ [linefeed]) = longest_run n body"
  by (induction body arbitrary: n) auto

lemma longest_run_width: "longest_run 0 body < fence_width body" "3 \<le> fence_width body"
  by (simp_all add: fence_width_def min_fence_length_def)

section \<open>Lines\<close>

lemma concat_add_to_first [simp]: "concat (add_to_first c ls) = c # concat ls"
  by (cases ls) simp_all

lemma add_to_first_append [simp]: "ls \<noteq> [] \<Longrightarrow> add_to_first c (ls @ ks) = add_to_first c ls @ ks"
  by (cases ls) simp_all

lemma lines_simps:
  "lines_keeping_ends (linefeed # cs) = [linefeed] # lines_keeping_ends cs"
  "lines_keeping_ends (carriage_return # linefeed # cs) = [carriage_return, linefeed] # lines_keeping_ends cs"
  "c \<noteq> linefeed \<Longrightarrow> lines_keeping_ends (carriage_return # c # cs) = [carriage_return] # lines_keeping_ends (c # cs)"
  "lines_keeping_ends [carriage_return] = [[carriage_return]]"
  "is_line_char c \<Longrightarrow> lines_keeping_ends (c # cs) = add_to_first c (lines_keeping_ends cs)"
  by (simp_all add: is_line_char_def del: lines_keeping_ends.simps(2) add: lines_keeping_ends.simps(2) [of linefeed]
      lines_keeping_ends.simps(2) [of carriage_return] lines_keeping_ends.simps(2) [of c])

declare lines_keeping_ends.simps(2) [simp del]

lemma line_induct [case_names Nil LF CRLF CR CR_end char]:
  assumes "P []" and "\<And>cs. P cs \<Longrightarrow> P (linefeed # cs)" and "\<And>cs. P cs \<Longrightarrow> P (carriage_return # linefeed # cs)"
    and "\<And>c cs. c \<noteq> linefeed \<Longrightarrow> P (c # cs) \<Longrightarrow> P (carriage_return # c # cs)" and "P [carriage_return]"
    and "\<And>c cs. is_line_char c \<Longrightarrow> P cs \<Longrightarrow> P (c # cs)"
  shows "P s"
proof (induction s rule: length_induct)
  case (1 s)
  show ?case
  proof (cases s)
    case s: (Cons c cs)
    consider "c = linefeed" | "c = carriage_return" "cs = []" | d ds where "c = carriage_return" "cs = d # ds" | "is_line_char c"
      unfolding is_line_char_def by (cases cs) blast+
    then show ?thesis
    proof cases
      case 3
      then show ?thesis
        using 1 assms(3,4) s by (cases "d = linefeed") simp_all
    qed (use 1 assms s in simp_all)
  qed (simp add: assms(1))
qed

lemma concat_lines: "concat (lines_keeping_ends body) = body"
  by (induction body rule: line_induct) (simp_all add: lines_simps)

lemma lines_nonempty: "s \<noteq> [] \<Longrightarrow> lines_keeping_ends s \<noteq> []"
  using concat_lines [of s] by force

lemma without_end_prefix: "\<exists>e. line = without_end line @ e"
  unfolding without_end_def by (metis takeWhile_dropWhile_id)

lemma without_end_chars: "c \<in> set (without_end line) \<Longrightarrow> is_line_char c"
  unfolding without_end_def by (rule set_takeWhileD [THEN conjunct2])

lemma split_line_inside: "l \<in> set (split_lines body) \<Longrightarrow> \<exists>a b. body = a @ l @ b"
proof -
  assume "l \<in> set (split_lines body)"
  then obtain k where k: "k \<in> set (lines_keeping_ends body)" "l = without_end k"
    by (auto simp: split_lines_def)
  obtain xs ys where "lines_keeping_ends body = xs @ k # ys"
    using split_list [OF k(1)] by blast
  then have "body = concat xs @ k @ concat ys"
    using concat_lines [of body] by simp
  moreover obtain e where "k = l @ e"
    using without_end_prefix k(2) by blast
  ultimately show ?thesis
    by auto
qed

lemma lines_one:
  "\<forall>c \<in> set line. is_line_char c \<Longrightarrow> lines_keeping_ends (line @ linefeed # rest) = (line @ [linefeed]) # lines_keeping_ends rest"
  by (induction line) (simp_all add: lines_simps)

lemma lines_last: "\<forall>c \<in> set line. is_line_char c \<Longrightarrow> line \<noteq> [] \<Longrightarrow> lines_keeping_ends line = [line]"
proof (induction line)
  case (Cons c cs)
  then show ?case
    by (cases cs) (simp_all add: lines_simps)
qed simp

lemma lines_append:
  "lines_keeping_ends (body @ linefeed # rest) = lines_keeping_ends (body @ [linefeed]) @ lines_keeping_ends rest"
  by (induction body rule: line_induct) (simp_all add: lines_simps lines_nonempty)

lemma without_end_id: "\<forall>c \<in> set line. is_line_char c \<Longrightarrow> without_end line = line"
  by (simp add: without_end_def)

lemma without_end_line: "\<forall>c \<in> set line. is_line_char c \<Longrightarrow> without_end (line @ [linefeed]) = line"
  by (simp add: without_end_def is_line_char_def takeWhile_append)

section \<open>The fence holds\<close>

lemma stripped_suffix: "strip_marker_indent line m = Some s \<Longrightarrow> \<exists>p. line = p @ s"
  by (auto simp: strip_marker_indent_def split: option.splits prod.splits if_splits)
     (metis append_take_drop_id)+

lemma takeWhile_replicate: "takeWhile (\<lambda>x. x = c) s = replicate (length (takeWhile (\<lambda>x. x = c) s)) c"
  by (induction s) auto

lemma closing_line_run:
  assumes "closes backtick n m line"
  shows "\<exists>a b. line = a @ replicate n backtick @ b"
proof -
  obtain s p where s: "line = p @ s" "n \<le> length (takeWhile (\<lambda>x. x = backtick) s)"
    using assms stripped_suffix [of line m] unfolding closes_def by (auto split: option.splits)
  let ?k = "length (takeWhile (\<lambda>x. x = backtick) s)"
  have "s = replicate ?k backtick @ dropWhile (\<lambda>x. x = backtick) s"
    using takeWhile_replicate [of backtick s] by (metis takeWhile_dropWhile_id)
  also have "replicate ?k backtick = replicate n backtick @ replicate (?k - n) backtick"
    using s(2) by (simp flip: replicate_add)
  finally show ?thesis
    using s(1) by (metis append.assoc)
qed

lemma text_never_closes: "l \<in> set (split_lines (body @ [linefeed])) \<Longrightarrow> \<not> closes backtick (fence_width body) m l"
proof
  assume l: "l \<in> set (split_lines (body @ [linefeed]))" "closes backtick (fence_width body) m l"
  obtain a b where "body @ [linefeed] = a @ l @ b"
    using split_line_inside l(1) by blast
  moreover obtain c d where "l = c @ replicate (fence_width body) backtick @ d"
    using closing_line_run l(2) by blast
  ultimately have "body @ [linefeed] = (a @ c) @ replicate (fence_width body) backtick @ (d @ b)"
    by simp
  then have "fence_width body \<le> longest_run 0 (body @ [linefeed])"
    using run_inside by metis
  then show False
    using longest_run_width(1) [of body] by (simp add: longest_run_linefeed)
qed

lemma unindented: "c \<noteq> CHR '' '' \<Longrightarrow> c \<noteq> tabulator \<Longrightarrow> strip_marker_indent (c # cs) m = Some (c # cs)"
  by (simp add: strip_marker_indent_def leading_indent_columns_def split: option.split)

lemma fence_delimiter_run:
  assumes "takeWhile (\<lambda>x. x = c) s = replicate n c" and "drop n s = info"
    and "c = backtick \<or> c = CHR ''~''" and "3 \<le> n"
  shows "fence_delimiter s = Some (c, n, strip (dropWhile is_blank info))"
proof (cases s)
  case (Cons d ds)
  then have "d = c"
    using assms(1,4) by (cases n) (auto split: if_splits)
  then show ?thesis
    using Cons assms by (simp add: fence_delimiter_def min_fence_length_def Let_def del: takeWhile.simps drop_Cons')
qed (use assms(1,4) in simp)

lemma line_of_fence:
  assumes "backtick \<notin> set info" and "3 \<le> n"
  shows "line_kind_of m (replicate n backtick @ info) = Opens backtick n (strip (dropWhile is_blank info))"
    and "closes backtick n m (replicate n backtick)"
proof -
  have cons: "replicate n backtick = backtick # replicate (n - 1) backtick"
    using assms(2) by (cases n) auto
  have run: "takeWhile (\<lambda>x. x = backtick) (replicate n backtick @ info) = replicate n backtick"
    using assms(1) by (cases info) (auto simp: takeWhile_append)
  have "set (strip (dropWhile is_blank info)) \<subseteq> set info"
    by (auto simp: strip_def dest!: set_dropWhileD)
  then have "backtick \<notin> set (strip (dropWhile is_blank info))"
    using assms(1) by blast
  moreover have "fence_delimiter (replicate n backtick @ info) = Some (backtick, n, strip (dropWhile is_blank info))"
    using assms(2) by (intro fence_delimiter_run run) simp_all
  moreover have "strip_marker_indent (replicate n backtick @ info) m = Some (replicate n backtick @ info)"
    by (simp add: cons unindented)
  ultimately show "line_kind_of m (replicate n backtick @ info) = Opens backtick n (strip (dropWhile is_blank info))"
    unfolding line_kind_of_def Let_def by simp
  have "strip_marker_indent (replicate n backtick) m = Some (replicate n backtick)"
    by (simp add: cons unindented)
  then show "closes backtick n m (replicate n backtick)"
    unfolding closes_def by simp
qed

lemma first_closing_skip:
  "\<forall>l \<in> set xs. \<not> closes c n m l \<Longrightarrow> first_closing c n m i (xs @ ys) = first_closing c n m (i + length xs) ys"
  by (induction xs arbitrary: i) auto

definition plain_info :: "string \<Rightarrow> bool" where
  "plain_info info \<longleftrightarrow> backtick \<notin> set info \<and> list_all is_line_char info"

lemma fenced_block_lines:
  assumes "plain_info info"
  shows "split_lines (fenced_block body info) =
    (fence_for body @ info) # split_lines (body @ [linefeed]) @ [fence_for body]"
proof -
  have fence: "\<forall>c \<in> set (fence_for body). is_line_char c" "fence_for body \<noteq> []"
    using longest_run_width(2) [of body] by (auto simp: fence_for_def is_line_char_def)
  then have first: "\<forall>c \<in> set (fence_for body @ info). is_line_char c"
    using assms by (auto simp: plain_info_def list_all_iff)
  have "lines_keeping_ends (fenced_block body info) =
      (fence_for body @ info @ [linefeed]) # lines_keeping_ends (body @ [linefeed]) @ [fence_for body]"
    using lines_one [OF first, of "body @ linefeed # fence_for body"] lines_append [of body "fence_for body"]
      lines_last [OF fence] by (simp add: fenced_block_def)
  then show ?thesis
    using without_end_line [OF first] without_end_id [OF fence(1)] by (simp add: split_lines_def)
qed

lemma fenced_scan:
  assumes "plain_info info"
  shows "scan (fenced_block body info) m =
    \<lparr> ms_line_count = length (split_lines (fenced_block body info)),
      ms_fences = [\<lparr> fs_start = 0, fs_end = length (split_lines (fenced_block body info)), fs_char = backtick,
                     fs_length = fence_width body, fs_info = strip (dropWhile is_blank info), fs_closed = True \<rparr>],
      ms_quoted = [], ms_headings = [] \<rparr>"
proof -
  let ?L = "split_lines (fenced_block body info)" and ?M = "split_lines (body @ [linefeed])"
  have lines: "?L = (fence_for body @ info) # ?M @ [fence_for body]"
    by (rule fenced_block_lines [OF assms])
  have kind: "line_kind_of m (?L ! 0) = Opens backtick (fence_width body) (strip (dropWhile is_blank info))"
    and last: "closes backtick (fence_width body) m (fence_for body)"
    using line_of_fence [OF _ longest_run_width(2) [of body], of info m] assms
    by (simp_all add: lines fence_for_def plain_info_def)
  have "find_fence_close ?L 1 backtick (fence_width body) m = Some (length ?M + 1)"
    using text_never_closes first_closing_skip [of ?M backtick "fence_width body" m 1 "[fence_for body]"] last
    by (simp add: find_fence_close_def lines)
  then have span: "span_at ?L 0 backtick (fence_width body) (strip (dropWhile is_blank info)) m =
      \<lparr> fs_start = 0, fs_end = length ?L, fs_char = backtick, fs_length = fence_width body,
        fs_info = strip (dropWhile is_blank info), fs_closed = True \<rparr>"
    by (simp add: span_at_def lines)
  have "scan_from m ?L (length ?L) = empty_structure (length ?L)"
    by (simp add: scan_from.simps)
  moreover have "\<not> length ?L \<le> 0"
    by (simp add: lines)
  ultimately show ?thesis
    unfolding scan_def by (subst scan_from.simps) (simp add: kind span add_fence_def empty_structure_def)
qed

lemma split_lines_join:
  "carriage_return \<notin> set body \<Longrightarrow> join [linefeed] (split_lines (body @ [linefeed])) = body"
proof (induction body)
  case (Cons c cs)
  obtain l ls where l: "lines_keeping_ends (cs @ [linefeed]) = l # ls"
    by (cases "lines_keeping_ends (cs @ [linefeed])") (use concat_lines [of "cs @ [linefeed]"] in auto)
  have IH: "join [linefeed] (without_end l # map without_end ls) = cs"
    using Cons l by (simp add: split_lines_def)
  show ?case
  proof (cases "c = linefeed")
    case True
    then show ?thesis
      using l IH by (simp add: split_lines_def without_end_def is_line_char_def lines_simps)
  next
    case False
    then have "is_line_char c"
      using Cons.prems by (auto simp: is_line_char_def)
    then have "split_lines ((c # cs) @ [linefeed]) = (c # without_end l) # map without_end ls"
      using l by (simp add: split_lines_def without_end_def lines_simps)
    then show ?thesis
      using IH by (cases ls) auto
  qed
qed (simp add: split_lines_def without_end_def is_line_char_def lines_simps)

text \<open>
  C20. A text cannot escape the fence that is computed for it: whatever the text holds, the scan of the
  fenced block, strict or tolerant of any indent, finds one fenced block from the first line to the last,
  closed, and no heading or quote outside it.
\<close>

theorem fence_holds:
  assumes "plain_info info"
  shows "scan (fenced_block body info) m =
    \<lparr> ms_line_count = length (split_lines (fenced_block body info)),
      ms_fences = [\<lparr> fs_start = 0, fs_end = length (split_lines (fenced_block body info)), fs_char = backtick,
                     fs_length = fence_width body, fs_info = strip (dropWhile is_blank info), fs_closed = True \<rparr>],
      ms_quoted = [], ms_headings = [] \<rparr>"
  by (rule fenced_scan [OF assms])

text \<open>
  C40. A text reads back from the fence that is computed for it: the bodies of a fenced block are the text,
  unchanged, where its lines end with LF only.
\<close>

theorem fenced_text_reads_back:
  assumes "plain_info info" and "carriage_return \<notin> set body"
  shows "fence_bodies_latest_first (fenced_block body info) = [body]"
proof -
  have "fence_body (split_lines (fenced_block body info))
      \<lparr> fs_start = 0, fs_end = length (split_lines (fenced_block body info)), fs_char = backtick,
        fs_length = fence_width body, fs_info = strip (dropWhile is_blank info), fs_closed = True \<rparr> = body"
    using split_lines_join [OF assms(2)] by (simp add: fence_body_def fenced_block_lines [OF assms(1)])
  then show ?thesis
    unfolding fence_bodies_latest_first_def fenced_scan [OF assms(1)] by simp
qed

section \<open>The places of a scan\<close>

definition places :: "nat \<Rightarrow> markdown_structure \<Rightarrow> bool" where
  "places i s \<longleftrightarrow>
     sorted_wrt (\<lambda>f g. fs_end f \<le> fs_start g) (ms_fences s) \<and>
     (\<forall>f \<in> set (ms_fences s). i \<le> fs_start f \<and> fs_start f < fs_end f \<and> fs_end f \<le> ms_line_count s) \<and>
     (\<forall>k \<in> set (ms_quoted s) \<union> hd_line ` set (ms_headings s). i \<le> k \<and> k < ms_line_count s \<and> \<not> is_fenced s k) \<and>
     set (ms_quoted s) \<inter> hd_line ` set (ms_headings s) = {}"

lemma places_empty: "places i (empty_structure n)"
  by (simp add: places_def empty_structure_def)

lemma places_mono: "places j s \<Longrightarrow> i \<le> j \<Longrightarrow> places i s"
  unfolding places_def by (meson order_trans)

lemma not_fenced_before: "places j s \<Longrightarrow> i < j \<Longrightarrow> \<not> is_fenced s i"
  unfolding places_def is_fenced_def in_fence_def by fastforce

lemma places_quote: "places (Suc i) s \<Longrightarrow> i < ms_line_count s \<Longrightarrow> places i (add_quote i s)"
  using not_fenced_before [of "Suc i" s i]
  unfolding places_def add_quote_def is_fenced_def ball_Un ball_simps
  by (auto simp: Suc_le_eq intro: less_imp_le)

lemma places_heading: "places (Suc i) s \<Longrightarrow> hd_line h = i \<Longrightarrow> i < ms_line_count s \<Longrightarrow> places i (add_heading h s)"
  using not_fenced_before [of "Suc i" s i]
  unfolding places_def add_heading_def is_fenced_def ball_Un ball_simps
  by (auto simp: Suc_le_eq intro: less_imp_le)

lemma places_fence:
  assumes "places (fs_end f) s" and "fs_start f = i" "i < fs_end f" "fs_end f \<le> ms_line_count s"
  shows "places i (add_fence f s)"
proof -
  have out: "\<not> in_fence k f" if "fs_end f \<le> k" for k
    using that by (simp add: in_fence_def)
  have later: "i \<le> k" if "fs_end f \<le> k" for k
    using that assms(3) by simp
  show ?thesis
    unfolding places_def
  proof (intro conjI)
    show "sorted_wrt (\<lambda>f g. fs_end f \<le> fs_start g) (ms_fences (add_fence f s))"
      using assms(1) by (auto simp: places_def add_fence_def)
    show "\<forall>g \<in> set (ms_fences (add_fence f s)). i \<le> fs_start g \<and> fs_start g < fs_end g \<and>
        fs_end g \<le> ms_line_count (add_fence f s)"
      using assms later by (auto simp: places_def add_fence_def)
    show "\<forall>k \<in> set (ms_quoted (add_fence f s)) \<union> hd_line ` set (ms_headings (add_fence f s)).
        i \<le> k \<and> k < ms_line_count (add_fence f s) \<and> \<not> is_fenced (add_fence f s) k"
      using assms(1) out later unfolding places_def is_fenced_def add_fence_def by simp
    show "set (ms_quoted (add_fence f s)) \<inter> hd_line ` set (ms_headings (add_fence f s)) = {}"
      using assms(1) by (simp add: places_def add_fence_def)
  qed
qed

lemma line_count_adds [simp]:
  "ms_line_count (add_fence f s) = ms_line_count s" "ms_line_count (add_quote i s) = ms_line_count s"
  "ms_line_count (add_heading h s) = ms_line_count s" "ms_line_count (empty_structure n) = n"
  by (simp_all add: add_fence_def add_quote_def add_heading_def empty_structure_def)

lemma scan_from_line_count [simp]: "ms_line_count (scan_from m lines i) = length lines"
proof (induction m lines i rule: scan_from.induct)
  case (1 m lines i)
  then show ?case
    by (subst scan_from.simps) (simp add: Let_def split: line_kind.split)
qed

lemma fs_start_span [simp]: "fs_start (span_at lines i c n info m) = i"
  by (simp add: span_at_def Let_def)

lemma scan_from_places: "places i (scan_from m lines i)"
proof (induction m lines i rule: scan_from.induct)
  case (1 m lines i)
  show ?case
  proof (cases "length lines \<le> i")
    case True
    then show ?thesis
      by (subst scan_from.simps) (simp add: places_empty)
  next
    case False
    show ?thesis
    proof (cases "line_kind_of m (lines ! i)")
      case (Opens c n info)
      have "places (fs_end (span_at lines i c n info m)) (scan_from m lines (fs_end (span_at lines i c n info m)))"
        by (rule "1.IH"(1)) (use False Opens in simp_all)
      then show ?thesis
        using False Opens span_at_bounds [of i lines c n info m]
        by (subst scan_from.simps) (auto simp: Let_def intro!: places_fence)
    next
      case Quote
      have "places (Suc i) (scan_from m lines (Suc i))"
        by (rule "1.IH"(3)) (use False Quote in simp_all)
      then show ?thesis
        using False Quote by (subst scan_from.simps) (simp add: places_quote)
    next
      case (Heading_line level t)
      have "places (Suc i) (scan_from m lines (Suc i))"
        by (rule "1.IH"(4)) (use False Heading_line in simp_all)
      then show ?thesis
        using False Heading_line by (subst scan_from.simps) (simp add: places_heading)
    next
      case Not_a_fence
      have "places (Suc i) (scan_from m lines (Suc i))"
        by (rule "1.IH"(2)) (use False Not_a_fence in simp_all)
      then show ?thesis
        using False Not_a_fence by (subst scan_from.simps) (simp add: places_mono)
    next
      case Prose
      have "places (Suc i) (scan_from m lines (Suc i))"
        by (rule "1.IH"(5)) (use False Prose in simp_all)
      then show ?thesis
        using False Prose by (subst scan_from.simps) (simp add: places_mono)
    qed
  qed
qed

text \<open>
  The spans of a scan are in order, not empty, disjoint and within the text; the quotes and the headings
  lie outside of them and no line is both.
\<close>

theorem scan_is_well_placed:
  "let s = scan body m
   in sorted_wrt (\<lambda>f g. fs_end f \<le> fs_start g) (ms_fences s) \<and>
      (\<forall>f \<in> set (ms_fences s). fs_start f < fs_end f \<and> fs_end f \<le> length (split_lines body)) \<and>
      (\<forall>k \<in> set (ms_quoted s) \<union> hd_line ` set (ms_headings s). k < length (split_lines body) \<and> \<not> is_fenced s k) \<and>
      set (ms_quoted s) \<inter> hd_line ` set (ms_headings s) = {}"
  using scan_from_places [of 0 m "split_lines body"] by (simp add: places_def scan_def Let_def)

section \<open>Without the fenced blocks\<close>

definition opens :: "nat option \<Rightarrow> string \<Rightarrow> bool" where
  "opens m line \<longleftrightarrow> (\<exists>c n info. line_kind_of m line = Opens c n info)"

lemma no_openers_no_fence: "\<forall>l \<in> set lines. \<not> opens m l \<Longrightarrow> ms_fences (scan_from m lines i) = []"
proof (induction m lines i rule: scan_from.induct)
  case (1 m lines i)
  show ?case
  proof (cases "length lines \<le> i")
    case True
    then show ?thesis
      by (subst scan_from.simps) (simp add: empty_structure_def)
  next
    case False
    then have "\<not> opens m (lines ! i)"
      using "1.prems" by simp
    then show ?thesis
      using False 1 by (subst scan_from.simps)
        (cases "line_kind_of m (lines ! i)"; simp add: add_quote_def add_heading_def opens_def)
  qed
qed

lemma fenced_add_fence: "is_fenced (add_fence f s) k \<longleftrightarrow> in_fence k f \<or> is_fenced s k"
  by (simp add: is_fenced_def add_fence_def)

lemma fenced_adds [simp]: "is_fenced (add_quote i s) = is_fenced s" "is_fenced (add_heading h s) = is_fenced s"
  by (simp_all add: is_fenced_def add_quote_def add_heading_def fun_eq_iff)

lemma outside_never_opens:
  "\<not> is_fenced (scan_from m lines i) k \<Longrightarrow> i \<le> k \<Longrightarrow> k < length lines \<Longrightarrow> \<not> opens m (lines ! k)"
proof (induction m lines i rule: scan_from.induct)
  case (1 m lines i)
  have lt: "\<not> length lines \<le> i"
    using "1.prems" by simp
  show ?case
  proof (cases "line_kind_of m (lines ! i)")
    case (Opens c n info)
    let ?span = "span_at lines i c n info m"
    have "\<not> in_fence k ?span" "\<not> is_fenced (scan_from m lines (fs_end ?span)) k"
      using "1.prems"(1) lt Opens by (simp_all add: scan_from.simps [of m lines i] Let_def fenced_add_fence)
    moreover from this have "fs_end ?span \<le> k"
      using "1.prems"(2) by (simp add: in_fence_def)
    ultimately show ?thesis
      using "1.IH"(1) [OF lt Opens refl] "1.prems"(3) by blast
  next
    case Quote
    then show ?thesis
      using "1.IH"(3) [OF lt Quote] "1.prems" lt
      by (cases "k = i") (simp_all add: opens_def scan_from.simps [of m lines i])
  next
    case (Heading_line level t)
    then show ?thesis
      using "1.IH"(4) [OF lt Heading_line] "1.prems" lt
      by (cases "k = i") (simp_all add: opens_def scan_from.simps [of m lines i])
  next
    case Not_a_fence
    then show ?thesis
      using "1.IH"(2) [OF lt Not_a_fence] "1.prems" lt
      by (cases "k = i") (simp_all add: opens_def scan_from.simps [of m lines i])
  next
    case Prose
    then show ?thesis
      using "1.IH"(5) [OF lt Prose] "1.prems" lt
      by (cases "k = i") (simp_all add: opens_def scan_from.simps [of m lines i])
  qed
qed

text \<open>Lines with their endings; only the last one may have none.\<close>

definition terminated :: "string \<Rightarrow> bool" where
  "terminated k \<longleftrightarrow> (\<exists>b e. k = b @ e \<and> (\<forall>c \<in> set b. is_line_char c) \<and>
     e \<in> {[linefeed], [carriage_return], [carriage_return, linefeed]})"

fun line_list :: "string list \<Rightarrow> bool" where
  "line_list [] = True"
| "line_list (k # ks) \<longleftrightarrow> (terminated k \<or> ks = [] \<and> (\<forall>c \<in> set k. is_line_char c)) \<and> line_list ks"

lemma terminated_simps: "terminated [linefeed]" "terminated [carriage_return]" "terminated [carriage_return, linefeed]"
  unfolding terminated_def by (rule exI [of _ "[]"], simp)+

lemma terminated_Cons: "is_line_char c \<Longrightarrow> terminated k \<Longrightarrow> terminated (c # k)"
  unfolding terminated_def by (metis append_Cons set_ConsD)

lemma line_list_add: "is_line_char c \<Longrightarrow> line_list ks \<Longrightarrow> line_list (add_to_first c ks)"
  by (cases ks) (auto intro: terminated_Cons)

lemma line_list_lines: "line_list (lines_keeping_ends body)"
  by (induction body rule: line_induct) (simp_all add: lines_simps terminated_simps line_list_add)

lemma line_list_nths: "line_list ks \<Longrightarrow> line_list (nths ks A)"
  by (induction ks arbitrary: A) (auto simp: nths_Cons)

lemma lines_CR:
  "\<forall>c \<in> set b. is_line_char c \<Longrightarrow>
   lines_keeping_ends (b @ carriage_return # rest) =
     (case rest of
        c # r \<Rightarrow> if c = linefeed then (b @ [carriage_return, linefeed]) # lines_keeping_ends r
                else (b @ [carriage_return]) # lines_keeping_ends rest
      | [] \<Rightarrow> [b @ [carriage_return]])"
  by (induction b) (auto simp: lines_simps split: list.split)

lemma without_end_append: "\<forall>c \<in> set b. is_line_char c \<Longrightarrow> \<not> is_line_char d \<Longrightarrow> without_end (b @ d # e) = b"
  by (simp add: without_end_def takeWhile_append)

lemma split_terminated:
  assumes "terminated k"
  shows "set (split_lines (k @ rest)) \<subseteq> insert (without_end k) (set (split_lines rest))"
proof -
  obtain b e where k: "k = b @ e" "\<forall>c \<in> set b. is_line_char c"
    "e = [linefeed] \<or> e = [carriage_return] \<or> e = [carriage_return, linefeed]"
    using assms unfolding terminated_def by blast
  have ends: "\<not> is_line_char linefeed" "\<not> is_line_char carriage_return"
    by (simp_all add: is_line_char_def)
  consider "e = [linefeed]" | "e = [carriage_return]" | "e = [carriage_return, linefeed]"
    using k(3) by blast
  then show ?thesis
  proof cases
    case 1
    then show ?thesis
      using lines_one [OF k(2), of rest] by (auto simp: split_lines_def k(1))
  next
    case 2
    then show ?thesis
      using lines_CR [OF k(2), of rest] without_end_append [OF k(2) ends(2)]
      by (cases rest) (auto simp: split_lines_def k(1) lines_simps)
  next
    case 3
    then show ?thesis
      using lines_CR [OF k(2), of "linefeed # rest"] by (auto simp: split_lines_def k(1))
  qed
qed

lemma split_line_list: "line_list ks \<Longrightarrow> set (split_lines (concat ks)) \<subseteq> without_end ` set ks"
proof (induction ks)
  case (Cons k ks)
  show ?case
  proof (cases "terminated k")
    case True
    then show ?thesis
      using split_terminated [of k "concat ks"] Cons by auto
  next
    case False
    then show ?thesis
      using Cons.prems lines_last [of k] by (cases "k = []") (auto simp: split_lines_def)
  qed
qed (simp add: split_lines_def)

lemma map_nth_filter: "map (\<lambda>i. xs ! i) (filter P [0..<length xs]) = nths xs {i. P i}"
proof (induction xs rule: rev_induct)
  case (snoc x xs)
  have "map (\<lambda>i. (xs @ [x]) ! i) (filter P [0..<length xs]) = map (\<lambda>i. xs ! i) (filter P [0..<length xs])"
    by (rule map_cong) (auto simp: nth_append)
  then show ?case
    using snoc by (simp add: nths_append nths_Cons)
qed simp

lemma stripped_lines_never_open:
  "l \<in> set (split_lines (strip_fenced_blocks body)) \<Longrightarrow> \<not> opens (Some 3) l"
proof -
  let ?s = "scan body (Some 3)" and ?ls = "lines_keeping_ends body"
  let ?kept = "nths ?ls {i. \<not> is_fenced ?s i}"
  assume l: "l \<in> set (split_lines (strip_fenced_blocks body))"
  have "strip_fenced_blocks body = concat ?kept"
  proof (cases "ms_fences ?s = []")
    case True
    then have "{i. \<not> is_fenced ?s i} = UNIV"
      by (simp add: is_fenced_def)
    then show ?thesis
      using True by (simp add: strip_fenced_blocks_def concat_lines nths_all)
  next
    case False
    then show ?thesis
      by (simp add: strip_fenced_blocks_def kept_lines_def map_nth_filter Let_def)
  qed
  then have "l \<in> without_end ` set ?kept"
    using l split_line_list [OF line_list_nths [OF line_list_lines]] by fastforce
  then obtain i where i: "i < length ?ls" "\<not> is_fenced ?s i" "l = without_end (?ls ! i)"
    by (auto simp: set_nths)
  then have "l = split_lines body ! i" "i < length (split_lines body)"
    by (simp_all add: split_lines_def)
  then show ?thesis
    using outside_never_opens [of "Some 3" "split_lines body" 0 i] i(2) by (simp add: scan_def)
qed

text \<open>
  A text without its fenced blocks has none: stripping leaves no line that opens a fence, so a scan of
  the result finds no fence and stripping again changes nothing, whatever the line endings are.
\<close>

theorem stripped_text_has_no_fence:
  "ms_fences (scan (strip_fenced_blocks body) (Some 3)) = [] \<and>
   strip_fenced_blocks (strip_fenced_blocks body) = strip_fenced_blocks body"
proof -
  have "ms_fences (scan (strip_fenced_blocks body) (Some 3)) = []"
    using stripped_lines_never_open no_openers_no_fence unfolding scan_def by blast
  then show ?thesis
    by (simp add: strip_fenced_blocks_def [of "strip_fenced_blocks body"] Let_def)
qed

section \<open>Examples\<close>

definition fenced_report :: string where
  "fenced_report = ''a'' @ [linefeed] @ replicate 3 backtick @ [linefeed] @ ''b''"

lemma fenced_report_plain: "carriage_return \<notin> set fenced_report"
  by (simp add: fenced_report_def numeral_3_eq_3)

theorem fence_holds_witness:
  "length (ms_fences (scan (fenced_block fenced_report ''md'') None)) = 1 \<and> fence_width fenced_report = 4"
  using fence_holds [of "''md''" fenced_report None]
  by (simp add: plain_info_def is_line_char_def fence_width_def fenced_report_def min_fence_length_def numeral_3_eq_3)

theorem fenced_text_reads_back_witness:
  "fence_bodies_latest_first (fenced_block fenced_report ''md'') = [fenced_report]"
  by (rule fenced_text_reads_back) (simp_all add: plain_info_def is_line_char_def fenced_report_plain)

theorem scan_is_well_placed_witness:
  "\<forall>f \<in> set (ms_fences (scan fenced_report (Some 3))). fs_start f < fs_end f \<and> fs_end f \<le> 3"
proof -
  have "length (split_lines fenced_report) = 3"
    by (simp add: split_lines_def fenced_report_def numeral_3_eq_3 lines_simps is_line_char_def)
  then show ?thesis
    using scan_is_well_placed [of fenced_report "Some 3"] by (simp add: Let_def)
qed

text \<open>A wide tagged fence at the start of a line is broken by the restored boundary: it loses a backtick.\<close>

lemma wide_fence_is_broken:
  "restore_message_boundaries (replicate 4 backtick @ ''json'' @ [linefeed]) =
     [backtick, linefeed] @ replicate 3 backtick @ ''json'' @ [linefeed]"
  by (simp add: restore_message_boundaries_def tagged_fence_def is_tag_char_def is_digit_def is_blank_def
      Let_def numeral_eq_Suc)

end
