(* ===== verification/Spec2Isabelle.thy ===== *)
theory Spec2Isabelle
  imports Tracker_Props File_Props Check_Props Merge_Stage_Props Rework_Props Blocker_Props
    Ledger_Props Preview_Props Sweep_Props Fate_Examples Dispatch_Props
    Stalled_Props Dead_Examples Role_Select_Props Cadence_Props Review_Record_Props Interdiff_Props Markdown_Props
begin

text \<open>
  A verification library for the orchestration core of charlie-work (Python, \<^verbatim>\<open>src/src/charlie_work\<close>).

  The program. charlie-work drives a repository's issues to merged pull requests with workers it
  launches. An issue carries labels that say where it stands; a pass of the orchestrator reads issues
  and pull requests, writes \<^verbatim>\<open>state.json\<close> (one entry for each pull request and each issue) and moves
  labels. The parts, and the theories that model them, from the bottom:

  \<^item> \<open>Prelude\<close>, \<open>Timestamps\<close>: Python's truth values, slices, strings and exceptions;
    \<^verbatim>\<open>iso_timestamp.py\<close> and the stamps the other parts compare.
  \<^item> \<open>Label_Config\<close>: the label names (\<^verbatim>\<open>config.LabelConfig\<close>), the priority ladder
    (\<^verbatim>\<open>issue_priority.py\<close>), the host ownership (\<^verbatim>\<open>host_routing.py\<close>) and \<^verbatim>\<open>_is_dispatchable\<close>.
  \<^item> \<open>Lifecycle\<close>, \<open>Label_Store\<close>: \<^verbatim>\<open>labels.py\<close>, the single owner of every label edge. \<open>transition\<close>
    looks an edge up in the table \<open>edges\<close> and writes through \<open>apply_issue_labels\<close>, which records a
    lifecycle event. What it needs of a tracker is the locale \<open>label_store\<close>.
  \<^item> \<open>Issue_Files\<close>, \<open>Issue_Texts\<close>, \<open>Local_Issues\<close>: the tracker that keeps issues as files with a frontmatter
    block (\<^verbatim>\<open>local_issue_files.py\<close>, \<^verbatim>\<open>local_issues.py\<close>), with its dependency gate. \<open>Issue_Files\<close> matches and
    rewrites the block and scans what YAML made of the files, \<open>Issue_Texts\<close> parses their texts. The label
    writes of \<open>Local_Issues\<close> rewrite texts, which the next scan parses again; \<open>write_labels_refines\<close> shows that
    this is the update of one key, and the interpretation \<open>files\<close> of \<open>label_store\<close> that the files keep the
    seam's laws.
  \<^item> \<open>Checks\<close>, \<open>Check_Rerun\<close>: the required checks of a pull request (\<^verbatim>\<open>checks.py\<close>) and the two ledgers
    that rerun a failing one; their shared contract is the locale \<open>rerun_ledger\<close>, interpreted for both.
  \<^item> \<open>Merge_Model\<close>, \<open>Merge_Gates\<close>, \<open>Merge_Decide\<close>: the pure half of the merge path
    (\<^verbatim>\<open>merge_path/model.py\<close>, \<^verbatim>\<open>rules.py\<close>, \<^verbatim>\<open>readiness_gates.py\<close>, \<^verbatim>\<open>human_block.py\<close>, \<^verbatim>\<open>mergequeue.py\<close>,
    \<^verbatim>\<open>alarm_text.py\<close>, \<^verbatim>\<open>decide.py\<close>). Each of the five stages takes the facts a gather step read and gives a
    plan, or raises \<open>Fact_not_gathered\<close>.
  \<^item> \<open>Lane_State\<close>, \<open>Merge_Reads\<close>, \<open>Rework_Route\<close>, \<open>Merge_Lane\<close>: the other half. The entries of
    \<^verbatim>\<open>state.json\<close> with the operations of \<^verbatim>\<open>escalation.py\<close>, \<^verbatim>\<open>state.py\<close> and \<^verbatim>\<open>merge_finalize.py\<close>; what a pass
    reads of GitHub (\<^verbatim>\<open>gather.py\<close>, \<^verbatim>\<open>queue_skip.py\<close>, \<^verbatim>\<open>issue_labels.py\<close> and the modules of \<^verbatim>\<open>orchestration/\<close>
    they call); the routing of a failed gate to a rework (\<^verbatim>\<open>state_rework_routing.py\<close>,
    \<^verbatim>\<open>state_stale_checks.py\<close>, \<^verbatim>\<open>live_worker_deferral.py\<close>); and the pass itself, \<open>run_merge_ready\<close>, which
    composes gather, decide and apply (\<^verbatim>\<open>apply.py\<close>, \<^verbatim>\<open>apply_stages.py\<close>, \<^verbatim>\<open>apply_merge.py\<close>,
    \<^verbatim>\<open>apply_accounting.py\<close>).
  \<^item> \<open>Blocker_Cycles\<close>: the scan for dependency deadlocks (\<^verbatim>\<open>blocker_cycles.py\<close>). \<open>scc\<close> finds the strongly
    connected components of the declared blocker edges in two passes, \<open>cycle_search\<close> a cycle in each, and
    \<open>detect\<close> runs them over a tracker's open issues. What it asks of a tracker is the locale
    \<open>blocker_tracker\<close> of \<open>Blocker_Scan\<close>, interpreted as \<open>local_gate\<close> on the file tracker; the references
    \<^verbatim>\<open>github_body_scan.py\<close> finds in a body are an argument.
  \<^item> \<open>Role_Ledger\<close>: the record of quota-blocked roles (\<^verbatim>\<open>role_quota_ledger.py\<close>): blocks, alerts and
    restrictions with a time to live, in one JSON file read and written as a whole. \<^verbatim>\<open>isoformat\<close> and
    \<^verbatim>\<open>fromisoformat\<close> are the argument \<open>time_io\<close>; the lock and the temporary file are not modelled.
    \<open>Json\<close> holds the values of its file, of \<^verbatim>\<open>state.json\<close> and of a worker's outcome.
  \<^item> \<open>Preview\<close>: the dry run of the merge path (\<^verbatim>\<open>merge_path/preview.py\<close>): the same gathers and decisions
    as the pass, and what it says it would do (\<^verbatim>\<open>render.preview_message\<close>).
  \<^item> The dead-worker sweep (\<^verbatim>\<open>dead_worker_sweep/\<close>). Its decisions are generators that yield requests and
    commits and are replayed from the start in each round. \<open>Sweep_Model\<close> has the types (\<^verbatim>\<open>model.py\<close>),
    \<open>Replay_Flow\<close> the generator as a tree and its replay (\<^verbatim>\<open>decide_common.run_flow\<close>), \<open>Sweep_Flow\<close> its
    results for the sweep, \<open>Sweep_Common\<close> the
    drafts, fingerprints and the redispatch cap, \<open>Sweep_Pre\<close>, \<open>Sweep_Lock\<close> and \<open>Sweep_Post\<close> the flows
    of the three phases (\<^verbatim>\<open>decide_pre.py\<close>, \<^verbatim>\<open>decide_no_pr.py\<close>, \<^verbatim>\<open>decide_reap.py\<close>, \<^verbatim>\<open>decide_with_pr.py\<close>,
    \<^verbatim>\<open>decide_post.py\<close>), \<open>Sweep_Decide\<close> the entry \<open>decide\<close>, the shell that loops decide, apply and serve
    with its gates (\<^verbatim>\<open>apply.py\<close>) and the writes of an entry. The shell's handlers are a record of
    functions over a world of any type.
  \<^item> \<open>Worker_Fate\<close>, \<open>Fate_Records\<close>: what became of a worker (\<^verbatim>\<open>worker_fate.py\<close>, \<^verbatim>\<open>worker_fate_stale.py\<close>,
    \<^verbatim>\<open>no_pr_orphan_fate.py\<close>, \<^verbatim>\<open>blocked_worker_escalation.py\<close>). \<open>resolve_fate\<close> is the ordered table of rows
    over the evidence that \<open>resolve_freshness\<close> accepts; \<open>report_stale_evidence\<close> reports the rest and
    \<open>persist_failure\<close> writes a classified failure with the provider's cooldown (\<^verbatim>\<open>state.py\<close>).
  \<^item> \<open>Dispatch_Select\<close>: which issues, reworks and reviews a pass dispatches and the windowed histories
    its caps read (\<^verbatim>\<open>dispatch_selection.py\<close>, \<^verbatim>\<open>no_op_checkpoint.py\<close>).
  \<^item> \<open>Stalled\<close>: the lane of the live but silent sessions (\<^verbatim>\<open>stalled_model.py\<close>, \<^verbatim>\<open>decide_stalled.py\<close>,
    \<^verbatim>\<open>apply_stalled.py\<close>): the flow of one worker on \<open>Replay_Flow\<close>, the shell's rounds, and the state
    transaction with the throttle and the failure it stamps. Probes and kills are the shell's argument.
  \<^item> \<open>Dead_Sessions\<close>: the lane of the dead sessions (\<^verbatim>\<open>decide_dead_sessions.py\<close>,
    \<^verbatim>\<open>decide_dead_sessions_plan.py\<close>, \<^verbatim>\<open>dead_sessions.py\<close>, \<^verbatim>\<open>dead_sessions_reclaim.py\<close>): its plans, and the
    pass that carries them out as a flow of reads and ordered effects that \<open>perform\<close> runs on a world.
  \<^item> \<open>Role_Select\<close>: the chain of a role and its check (\<^verbatim>\<open>role_chain.py\<close>, \<^verbatim>\<open>harnesses.py\<close>) and the entry a
    launch runs on (\<^verbatim>\<open>role_selection.py\<close>), over the ledger of \<open>Role_Ledger\<close>.
  \<^item> \<open>Cadence\<close>: when a periodic pass is due (\<^verbatim>\<open>periodic_pass_schedule.py\<close>) and when a dispatcher that
    launches nothing is an alarm (\<^verbatim>\<open>dispatch_cadence.py\<close>, \<^verbatim>\<open>ci_findings.check_dispatch_staleness\<close>);
    \<open>cadence_pass\<close> is the end of a dispatch pass (\<^verbatim>\<open>orchestration/dispatch_state.py\<close>).
  \<^item> \<open>Review_Record\<close>: the record of the review decisions of a pull request (\<^verbatim>\<open>review_decision.py\<close>), with
    the write as a list of atomic steps that a crash cuts short.
  \<^item> \<open>Interdiff\<close>: what a reviewer of a later round is shown (\<^verbatim>\<open>review_interdiff.py\<close>, \<^verbatim>\<open>unified_diff.py\<close>).
  \<^item> \<open>Markdown\<close>: the fence around untrusted text and the scan of fences, quotes and headings
    (\<^verbatim>\<open>markdown_fence.py\<close>).

  State and effects. A dataclass is a record, an enum a datatype, a dict a map, an exception a value of
  a sum. \<open>lane_state\<close> holds the part of \<^verbatim>\<open>state.json\<close> the lanes write, with the events they record. What a
  pass reads from outside is a record of answers (\<open>pass_reads\<close>), what it does to GitHub the list of
  effects it appends to, in the order of the calls. The issue directory is the list of its files; the
  event database a list of events, or None when it cannot be opened; which of its reads and writes fail is
  the argument \<open>db_io\<close> (a failed read answers with no events, as \<^verbatim>\<open>query_events\<close> does).

  Code that is not part of the repository is an argument: PyYAML's loader and dumper (\<open>yaml_io\<close>, with
  \<open>small_yaml\<close> as the instance of the witnesses; what a label write needs of them is \<open>labels_stable\<close>), \<^verbatim>\<open>datetime.fromisoformat\<close> (\<open>fromiso\<close>, with \<open>iso_extended\<close> as the instance the
  witnesses run), git and GitHub (the answers of a pass), the outcome of a file write (\<open>wr\<close>), the
  matches of the verdict regular expression.

  What the lemmas show.

  \<^item> \<open>Merge_Lemmas\<close>, \<open>Merge_Pass\<close>: elimination rules for the stages, from which \<open>Merge_Props\<close> and
    \<open>Merge_Stage_Props\<close> conclude what a merge needs (an approval of the head it read, ready checks, a
    clean revert scan, no escalation, human-merge label or human block, a mergeable branch; the merge-hold label is
    read by the queue lane only), that a green pass merges, that no pass asks for a fact it did not gather,
    that the plan's actions exclude each other, and when alarm, queue cap, train and human verdict act.
  \<^item> \<open>Rework_Bounds\<close>, \<open>Rework_Props\<close>: the attempts of a rework lane and the rescues of a pull request are
    bounded over any history with the other lanes, resets, clearings and re-arms, a stalled or exhausted lane escalates, and routing keeps the escalation records sound.
  \<^item> \<open>Tracker_Props\<close>, \<open>File_Props\<close>: over the texts of the files an edge leaves exactly its labels, touches
    nothing else and records a chained event; the dependency gate equals its specification; a rewritten key reads back.
  \<^item> \<open>Check_Props\<close>: the summary is ready exactly when every required check passed or was skipped, and a
    rerun ledger retries a bounded number of times.
  \<^item> \<open>Blocker_Scc\<close>, \<open>Blocker_Search\<close>, \<open>Blocker_Report\<close>, \<open>Blocker_Work\<close>, \<open>Blocker_Props\<close>: the passes compute
    exactly the strongly connected components, the search finds every cycle unless a cap ends it, a cap is
    reached only with more than 25 cycles or 50000 trails, every cycle reported is a deadlock, and the
    report does not depend on the order of the edges.
  \<^item> \<open>Ledger_Episodes\<close>, \<open>Ledger_Props\<close>: each role's entry follows an abstract machine of blocked
    episodes; an episode's alert is claimed once, restrictions only grow, an armed block binds until its
    end.
  \<^item> \<open>Preview_Props\<close>: a dry run never raises, its projection is the plan of the live decision, and a
    promised merge is kept by the live pass over the same reads.
  \<^item> \<open>Sweep_Shell\<close>, \<open>Sweep_Contracts\<close>, \<open>Sweep_Lock_Contract\<close>, \<open>Sweep_Post_Contract\<close>, \<open>Sweep_Replay\<close>,
    \<open>Sweep_Direct\<close>: what a phase owes the shell is the locale \<open>phase_contract\<close>; its interpretations on the
    three flows (\<open>pre_phase\<close>, \<open>locked_phase\<close>, \<open>post_phase\<close>) show that each asks for legal and bounded
    requests only, and that a replay with another stamp asks and returns the same. \<open>Sweep_Props\<close>
    concludes that the replaying sweep runs each flow exactly once, that its plans are legal, that the
    locked phase stays on the issues it locked as dispatched, that labels follow committed writes, and
    what the cap counts. \<open>Sweep_Demo\<close> is a run of a small sweep for the witnesses.
  \<^item> \<open>Fate_Props\<close>, \<open>Fate_Window\<close>: stale evidence never decides a fate and is reported, commits without proof are
    stranded, a completed fate has proof, ignored evidence is reported once, and a cooldown is never cut
    short. \<open>Fate_Examples\<close> holds their witnesses, \<open>Digit_Clock\<close> the clock of the examples.
  \<^item> \<open>Dispatch_Props\<close>: the bounds of a dispatch selection and of a review selection.
  \<^item> \<open>Stalled_Props\<close>: a worker is killed only when it has earned it, a dry run only previews, and the
    shell's rounds end with the worker's row, or with an exception of a read or an effect (nine requests at most, each asked once, under
    \<^verbatim>\<open>MAX_ROUNDS_PER_WORKER\<close>, 64).
  \<^item> \<open>Dead_Props\<close>, \<open>Dead_Examples\<close>: an issue is taken back only after the reads that justify it, a sidecar
    is reaped once and in its place between the effects, throttled deaths are never counted, the pass returns.
  \<^item> \<open>Role_Select_Props\<close>: a selection is the first free entry with and without ceilings, an exhausted chain
    frees exactly at the reported time, a covered window has an explanation in the ledger, and the chain
    check equals its specification.
  \<^item> \<open>Cadence_Props\<close>: an armed pass is due from its time on, a stall is alerted at its onset and then at
    most every four hours, and a dispatch stays on record.
  \<^item> \<open>Review_Record_Props\<close>: readers see the old or the new verdict after a crash at any step, a fresh
    verdict was recorded for its head, and the archive grows by distinct verdicts only.
  \<^item> \<open>Interdiff_Props\<close>: the interdiff is a diff of exactly the changed files, and a last section
    without a new path leaves no trace in it.
  \<^item> \<open>Markdown_Props\<close>: no text escapes its fence and it reads back, the spans of a scan are in order and
    disjoint, and stripping leaves no fence.

  Bounds. Every loop of the modelled code runs over a finite collection, so the definitions are
  structural recursions and total, or functions with a
  termination proof: \<open>cycle_search\<close> by the weight of its stack, the two passes of \<open>scc\<close> by the number of
  nodes not yet visited, so none of them needs fuel. The rounds of a sweep's phase
  are bounded by the code itself (\<^verbatim>\<open>MAX_ROUNDS_PER_PHASE\<close>, 5000), and the model takes that number: a
  phase needs at most \<open>8 + 12 * n\<close> rounds before the lock, \<open>7 * n + m\<close> under it and \<open>2 + 5 * r\<close> after it,
  for \<open>n\<close> dead workers, \<open>m\<close> live hand-offs and \<open>r\<close> review routes, so up to \<open>sweep_limit\<close> (400) of each
  are below it. The caps
  (rework attempts, requeues, alarm threshold, infrastructure retries) are the configured numbers,
  arguments of the definitions, and the properties hold for each value of them. Python's integers are
  unbounded and are taken as \<^typ>\<open>int\<close> or, where they count, \<^typ>\<open>nat\<close>. Instants are unbounded too: the
  code's \<^verbatim>\<open>datetime\<close> raises OverflowError past the year 9999, which no stored stamp of its own comes near.

  Not modelled. The text a live pass prints or posts (the rest of \<^verbatim>\<open>merge_path/render.py\<close>), file
  locks and the load and save of \<^verbatim>\<open>state.json\<close> (a pass runs alone on the file), comments of the local
  tracker, the parsing of the configuration, and the parts that are mostly subprocess, file or terminal
  effects: process launch and adapters, git worktrees, the command line and the dashboards. The fleet
  scheduler, the handlers of the sweep's requests (which also serve the salvage, the post-mortem and the
  restore of a rework that the two session lanes order), \<^verbatim>\<open>reconcile.py\<close> and \<^verbatim>\<open>janitor.py\<close> hold decision
  logic between their effects that is left out.
\<close>

end
